(* ===== verification/Prelude.thy ===== *)
theory Prelude
  imports Main "HOL-Library.AList" "HOL-Library.Char_ord" "HOL-Library.List_Lexorder"
    "HOL-Library.Word"
begin

text \<open>
  Shared vocabulary of the development: Go maps as association lists, objects that several
  indexes point to (an arena of cells and two indexes of addresses), database tables as lists
  of rows, and write transactions that either apply as a whole or leave the tables alone.

  A Go map is a list of key/value pairs with distinct keys. Reading is \<open>map_of\<close>, writing is
  \<open>AList.update\<close>, deleting is \<open>AList.delete\<close>. Ranging over a map visits the list from left to
  right; Go leaves that order open, and the theorems about results built from such a loop are
  about sets, counts or sorted lists, which do not depend on it.

  A Go \<open>string\<close> is a byte sequence, here a list of 8-bit characters, ordered as Go orders
  strings: lexicographically by byte.
\<close>

named_theorems gomap_simps \<open>lookup laws of Go maps\<close>
named_theorems dual_intros \<open>preservation of the two-index invariant\<close>
named_theorems table_simps \<open>lookup laws of database tables\<close>

declare update_conv' [gomap_simps] delete_conv' [gomap_simps]
declare map_of_eq_Some_iff [simp del] Some_eq_map_of_iff [simp del]

subsection \<open>Go maps\<close>

type_synonym ('k, 'v) gomap = "('k \<times> 'v) list"

text \<open>A map of maps, \<open>m[a][b]\<close>: a missing outer key reads as the nil map.\<close>

definition inner :: "('a, ('b, 'v) gomap) gomap \<Rightarrow> 'a \<Rightarrow> ('b, 'v) gomap" where
  "inner m a = (case map_of m a of None \<Rightarrow> [] | Some i \<Rightarrow> i)"

definition lookup2 :: "('a, ('b, 'v) gomap) gomap \<Rightarrow> 'a \<Rightarrow> 'b \<Rightarrow> 'v option" where
  "lookup2 m a b = map_of (inner m a) b"

text \<open>\<open>m[a][b] = v\<close>, creating the inner map on demand.\<close>

definition put2 :: "'a \<Rightarrow> 'b \<Rightarrow> 'v \<Rightarrow> ('a, ('b, 'v) gomap) gomap \<Rightarrow> ('a, ('b, 'v) gomap) gomap" where
  "put2 a b v m = AList.update a (AList.update b v (inner m a)) m"

text \<open>
  \<open>delete(m[a], b)\<close> followed by dropping \<open>a\<close> when its inner map has become empty. For a
  missing \<open>a\<close> this is a no-op.
\<close>

definition del2 :: "'a \<Rightarrow> 'b \<Rightarrow> ('a, ('b, 'v) gomap) gomap \<Rightarrow> ('a, ('b, 'v) gomap) gomap" where
  "del2 a b m =
     (let i = AList.delete b (inner m a)
      in if i = [] then AList.delete a m else AList.update a i m)"

definition wf2 :: "('a, ('b, 'v) gomap) gomap \<Rightarrow> bool" where
  "wf2 m \<longleftrightarrow> distinct (map fst m) \<and>
     (\<forall>(a, i) \<in> set m. distinct (map fst i) \<and> i \<noteq> [])"

lemma inner_simps [gomap_simps]:
  "inner (AList.update a i m) a' = (if a' = a then i else inner m a')"
  "inner (AList.delete a m) a' = (if a' = a then [] else inner m a')"
  "inner [] a' = []"
  by (auto simp: inner_def update_conv' delete_conv')

lemma lookup2_put2 [gomap_simps]:
  "lookup2 (put2 a b v m) a' b' = (if a' = a \<and> b' = b then Some v else lookup2 m a' b')"
  by (auto simp: lookup2_def put2_def inner_simps update_conv')

lemma inner_del2 [gomap_simps]:
  "inner (del2 a b m) a' = (if a' = a then AList.delete b (inner m a) else inner m a')"
  by (auto simp: del2_def Let_def inner_simps)

lemma lookup2_del2 [gomap_simps]:
  "lookup2 (del2 a b m) a' b' = (if a' = a \<and> b' = b then None else lookup2 m a' b')"
  by (auto simp: lookup2_def inner_del2 delete_conv')

lemma lookup2_delete [gomap_simps]:
  "lookup2 (AList.delete a m) a' b = (if a' = a then None else lookup2 m a' b)"
  by (auto simp: lookup2_def inner_simps)

lemma lookup2_Nil [gomap_simps, simp]: "lookup2 [] a b = None"
  by (simp add: lookup2_def inner_def)

lemma wf2_Nil [simp]: "wf2 []"
  by (simp add: wf2_def)

lemma wf2_inner_distinct: "wf2 m \<Longrightarrow> distinct (map fst (inner m a))"
  by (auto simp: wf2_def inner_def split: option.splits dest: map_of_SomeD)

lemma set_update_subset: "set (AList.update k v m) \<subseteq> insert (k, v) (set m)"
  by (induction m) auto

lemma wf2_update:
  "wf2 m \<Longrightarrow> distinct (map fst i) \<Longrightarrow> i \<noteq> [] \<Longrightarrow> wf2 (AList.update a i m)"
  using set_update_subset [of a i m] unfolding wf2_def
  by (auto simp: distinct_update)

lemma wf2_put2 [simp]: "wf2 m \<Longrightarrow> wf2 (put2 a b v m)"
  by (simp add: put2_def wf2_update wf2_inner_distinct distinct_update)

lemma wf2_delete [simp]: "wf2 m \<Longrightarrow> wf2 (AList.delete a m)"
  by (auto simp: wf2_def AList.delete_eq distinct_map_filter)

lemma wf2_del2 [simp]: "wf2 m \<Longrightarrow> wf2 (del2 a b m)"
  by (simp add: del2_def Let_def wf2_update wf2_inner_distinct distinct_delete)

lemma inner_eq_Nil_iff: "inner m a = [] \<longleftrightarrow> (\<forall>b. lookup2 m a b = None)"
  by (cases "inner m a") (auto simp: lookup2_def)

lemma inner_in_set: "wf2 m \<Longrightarrow> (a, i) \<in> set m \<Longrightarrow> inner m a = i"
  by (auto simp: wf2_def inner_def split: option.splits dest: map_of_is_SomeI)

lemma set_inner: "wf2 m \<Longrightarrow> (b, v) \<in> set (inner m a) \<longleftrightarrow> lookup2 m a b = Some v"
  by (simp add: lookup2_def wf2_inner_distinct map_of_eq_Some_iff)

lemma wf2_set_iff: "wf2 m \<Longrightarrow> (a, i) \<in> set m \<longleftrightarrow> i = inner m a \<and> i \<noteq> []"
  unfolding wf2_def inner_def
  by (auto split: option.splits dest: map_of_SomeD map_of_is_SomeI)

subsection \<open>Shared objects behind two indexes\<close>

text \<open>
  The registries keep one object per row and two maps pointing to it (by id and by email, by
  handle and by lease, by secret and by user). Objects live in a list of cells, a pointer is
  a position in it, and both maps hold pointers, so that an update through one index is seen
  through the other. \<open>deref h i\<close> is the map an index denotes.
\<close>

definition deref :: "'r list \<Rightarrow> ('k, nat) gomap \<Rightarrow> 'k \<Rightarrow> 'r option" where
  "deref h i k = map_option (\<lambda>p. h ! p) (map_of i k)"

definition dual_wf :: "('r \<Rightarrow> 'a) \<Rightarrow> ('r \<Rightarrow> 'b) \<Rightarrow> 'r list \<Rightarrow> ('a, nat) gomap \<Rightarrow> ('b, nat) gomap \<Rightarrow> bool" where
  "dual_wf k1 k2 h i1 i2 \<longleftrightarrow>
     distinct (map fst i1) \<and> distinct (map fst i2) \<and>
     (\<forall>a p. map_of i1 a = Some p \<longrightarrow>
        p < length h \<and> k1 (h ! p) = a \<and> map_of i2 (k2 (h ! p)) = Some p) \<and>
     (\<forall>b p. map_of i2 b = Some p \<longrightarrow>
        p < length h \<and> k2 (h ! p) = b \<and> map_of i1 (k1 (h ! p)) = Some p)"

lemma dual_wf_Nil [simp, dual_intros]: "dual_wf k1 k2 h [] []"
  by (simp add: dual_wf_def)

lemma dual_wf1: "dual_wf k1 k2 h i1 i2 \<Longrightarrow> map_of i1 a = Some p \<Longrightarrow>
   p < length h \<and> k1 (h ! p) = a \<and> map_of i2 (k2 (h ! p)) = Some p"
  by (simp add: dual_wf_def)

lemma dual_wf2: "dual_wf k1 k2 h i1 i2 \<Longrightarrow> map_of i2 b = Some p \<Longrightarrow>
   p < length h \<and> k2 (h ! p) = b \<and> map_of i1 (k1 (h ! p)) = Some p"
  by (simp add: dual_wf_def)

lemma dual_wf_swap: "dual_wf k1 k2 h i1 i2 \<longleftrightarrow> dual_wf k2 k1 h i2 i1"
  by (auto simp: dual_wf_def)

lemma dual_wf_insert [dual_intros]:
  assumes "dual_wf k1 k2 h i1 i2" "map_of i1 (k1 r) = None" "map_of i2 (k2 r) = None"
  shows "dual_wf k1 k2 (h @ [r]) (AList.update (k1 r) (length h) i1)
           (AList.update (k2 r) (length h) i2)"
  using assms unfolding dual_wf_def
  by (auto simp: distinct_update update_conv' nth_append less_Suc_eq) (metis option.distinct(1))+

lemma dual_wf_modify [dual_intros]:
  assumes "dual_wf k1 k2 h i1 i2" "k1 r = k1 (h ! p)" "k2 r = k2 (h ! p)"
  shows "dual_wf k1 k2 (h[p := r]) i1 i2"
proof -
  have "h[p := r] ! q = (if p = q \<and> p < length h then r else h ! q)" for q
    by (cases "p < length h") (simp_all add: nth_list_update list_update_beyond)
  then have "k1 (h[p := r] ! q) = k1 (h ! q) \<and> k2 (h[p := r] ! q) = k2 (h ! q)" for q
    using assms(2,3) by simp
  with assms(1) show ?thesis by (simp add: dual_wf_def)
qed

lemma dual_wf_delete [dual_intros]:
  assumes "dual_wf k1 k2 h i1 i2" "map_of i1 a = Some p" "b = k2 (h ! p)"
  shows "dual_wf k1 k2 h (AList.delete a i1) (AList.delete b i2)"
  using assms unfolding dual_wf_def
  by (auto simp: distinct_delete delete_conv') (metis option.inject)

lemma deref_Nil [simp]: "deref h [] k = None"
  by (simp add: deref_def)

lemma deref_insert:
  assumes "dual_wf k1 k2 h i1 i2"
  shows "deref (h @ [r]) (AList.update k (length h) i1) = (deref h i1)(k \<mapsto> r)"
proof
  fix x
  show "deref (h @ [r]) (AList.update k (length h) i1) x = ((deref h i1)(k \<mapsto> r)) x"
    using dual_wf1 [OF assms, of x]
    by (cases "map_of i1 x") (auto simp: deref_def update_conv' nth_append)
qed

lemma deref_modify:
  assumes "dual_wf k1 k2 h i1 i2" "map_of i1 a = Some p"
  shows "deref (h[p := r]) i1 = (deref h i1)(a \<mapsto> r)"
proof
  fix x
  show "deref (h[p := r]) i1 x = ((deref h i1)(a \<mapsto> r)) x"
    using dual_wf1 [OF assms(1), of x] dual_wf1 [OF assms] assms(2)
    by (cases "map_of i1 x") (auto simp: deref_def nth_list_update)
qed

lemma deref_delete [gomap_simps]: "deref h (AList.delete a i) = (deref h i)(a := None)"
  by (auto simp: deref_def delete_conv' fun_eq_iff)

lemma deref_SomeD: "deref h i k = Some r \<Longrightarrow> \<exists>p. map_of i k = Some p \<and> r = h ! p"
  by (auto simp: deref_def)

lemma deref_key: "dual_wf k1 k2 h i1 i2 \<Longrightarrow> deref h i1 a = Some r \<Longrightarrow> k1 r = a"
  by (auto simp: deref_def dest: dual_wf1)

text \<open>The second index is determined by the first: both denote the same set of objects.\<close>

lemma deref_second:
  assumes "dual_wf k1 k2 h i1 i2"
  shows "deref h i2 b = Some r \<longleftrightarrow> deref h i1 (k1 r) = Some r \<and> k2 r = b"
  using assms by (auto simp: deref_def dest: dual_wf1 dual_wf2)

text \<open>Building both indexes from a list of rows, one fresh object per row.\<close>

definition dual_load :: "('r \<Rightarrow> 'a) \<Rightarrow> ('r \<Rightarrow> 'b) \<Rightarrow> 'r list \<Rightarrow> 'r list \<times> ('a, nat) gomap \<times> ('b, nat) gomap" where
  "dual_load k1 k2 rs =
     fold (\<lambda>r (h, i1, i2). (h @ [r], AList.update (k1 r) (length h) i1, AList.update (k2 r) (length h) i2))
       rs ([], [], [])"

subsection \<open>Database tables\<close>

text \<open>
  A table is a list of rows. \<open>tab key t\<close> is the map from the primary key to the row.
  \<open>sql_update\<close> and \<open>sql_delete\<close> return the number of rows affected with the new table, as
  \<open>sql.Result\<close> reports it.
\<close>

definition tab :: "('r \<Rightarrow> 'k) \<Rightarrow> 'r list \<Rightarrow> 'k \<Rightarrow> 'r option" where
  "tab key t = map_of (map (\<lambda>r. (key r, r)) t)"

definition sql_update :: "('r \<Rightarrow> bool) \<Rightarrow> ('r \<Rightarrow> 'r) \<Rightarrow> 'r list \<Rightarrow> nat \<times> 'r list" where
  "sql_update p f t = (length (filter p t), map (\<lambda>r. if p r then f r else r) t)"

definition sql_delete :: "('r \<Rightarrow> bool) \<Rightarrow> 'r list \<Rightarrow> nat \<times> 'r list" where
  "sql_delete p t = (length (filter p t), filter (\<lambda>r. \<not> p r) t)"

definition keyed :: "('r \<Rightarrow> 'k) \<Rightarrow> 'r list \<Rightarrow> bool" where
  "keyed key t \<longleftrightarrow> distinct (map key t)"

lemma tab_Nil [simp]: "tab key [] = Map.empty"
  by (simp add: tab_def)

lemma tab_Some_iff: "keyed key t \<Longrightarrow> tab key t k = Some r \<longleftrightarrow> r \<in> set t \<and> key r = k"
  unfolding tab_def keyed_def
  by (subst map_of_eq_Some_iff) (auto simp: comp_def)

lemma tab_None_iff: "tab key t k = None \<longleftrightarrow> k \<notin> key ` set t"
  by (simp add: tab_def map_of_eq_None_iff image_image)

lemma tab_key: "tab key t k = Some r \<Longrightarrow> key r = k \<and> r \<in> set t"
  by (auto simp: tab_def dest!: map_of_SomeD)

lemma list_ex_key [table_simps]: "list_ex (\<lambda>x. key x = k) t \<longleftrightarrow> tab key t k \<noteq> None"
  unfolding tab_None_iff list_ex_iff by (auto simp: image_iff)

lemma tab_insert [table_simps]:
  "tab key t (key r) = None \<Longrightarrow> tab key (t @ [r]) = (tab key t)(key r \<mapsto> r)"
  by (auto simp: tab_def fun_eq_iff map_add_def split: option.splits)

lemma keyed_insert [table_simps]:
  "keyed key (t @ [r]) \<longleftrightarrow> keyed key t \<and> tab key t (key r) = None"
  by (auto simp: keyed_def tab_None_iff)

lemma keyed_sql_update: "(\<And>r. key (f r) = key r) \<Longrightarrow> keyed key (snd (sql_update p f t)) = keyed key t"
  by (simp add: keyed_def sql_update_def comp_def if_distrib [of key] cong: if_cong)

lemma tab_sql_update:
  "(\<And>r. key (f r) = key r) \<Longrightarrow>
     tab key (snd (sql_update p f t)) k = map_option (\<lambda>r. if p r then f r else r) (tab key t k)"
  unfolding tab_def sql_update_def by (induction t) auto

lemma keyed_sql_delete: "keyed key t \<Longrightarrow> keyed key (snd (sql_delete p t))"
  by (simp add: keyed_def sql_delete_def distinct_map_filter)

lemma tab_sql_delete:
  assumes "keyed key t"
  shows "tab key (snd (sql_delete p t)) k =
       (case tab key t k of None \<Rightarrow> None | Some r \<Rightarrow> if p r then None else Some r)"
proof (cases "tab key (snd (sql_delete p t)) k")
  case None
  show ?thesis
  proof (cases "tab key t k")
    case (Some r)
    with assms have "r \<in> set t" "key r = k" by (auto simp: tab_Some_iff)
    with None have "p r" by (auto simp: tab_None_iff sql_delete_def)
    with None Some show ?thesis by simp
  qed (use None in simp)
next
  case (Some r)
  with assms keyed_sql_delete [OF assms, of p] have "r \<in> set t" "\<not> p r" "key r = k"
    by (auto simp: tab_Some_iff sql_delete_def)
  with assms have "tab key t k = Some r" by (simp add: tab_Some_iff)
  with Some \<open>\<not> p r\<close> show ?thesis by simp
qed

text \<open>A statement keyed on the primary key affects one row if the key is present, else none.\<close>

lemma count_key:
  "keyed key t \<Longrightarrow> length (filter (\<lambda>r. key r = k) t) = (if tab key t k = None then 0 else 1)"
  unfolding tab_None_iff keyed_def by (induction t) (auto simp: filter_empty_conv)

lemma count_key_and:
  "keyed key t \<Longrightarrow> length (filter (\<lambda>r. key r = k \<and> q r) t) =
     (case tab key t k of None \<Rightarrow> 0 | Some r \<Rightarrow> if q r then 1 else 0)"
proof (induction t)
  case (Cons a t)
  show ?case
  proof (cases "key a = k")
    case True
    with Cons.prems have "filter (\<lambda>r. key r = k \<and> q r) t = []"
      by (simp add: keyed_def filter_empty_conv) (metis image_eqI)
    with True show ?thesis by (simp add: tab_def)
  next
    case False
    with Cons show ?thesis by (simp add: tab_def keyed_def)
  qed
qed simp

text \<open>Loading a table with two unique columns gives two consistent indexes over its rows.\<close>

lemma dual_load_snoc:
  "dual_load k1 k2 (rs @ [r]) =
     (case dual_load k1 k2 rs of (h, i1, i2) \<Rightarrow>
        (h @ [r], AList.update (k1 r) (length h) i1, AList.update (k2 r) (length h) i2))"
  by (simp add: dual_load_def split: prod.splits)

lemma dual_load_correct:
  assumes "keyed k1 rs" "keyed k2 rs"
  shows "case dual_load k1 k2 rs of (h, i1, i2) \<Rightarrow>
     dual_wf k1 k2 h i1 i2 \<and> deref h i1 = tab k1 rs \<and> deref h i2 = tab k2 rs"
  using assms
proof (induction rs rule: rev_induct)
  case Nil
  show ?case by (simp add: dual_load_def fun_eq_iff)
next
  case (snoc r rs)
  obtain h i1 i2 where l: "dual_load k1 k2 rs = (h, i1, i2)"
    by (metis prod_cases3)
  from snoc.prems have k: "keyed k1 rs" "keyed k2 rs"
    and n: "tab k1 rs (k1 r) = None" "tab k2 rs (k2 r) = None"
    by (simp_all add: keyed_insert)
  from snoc.IH [OF k] l have wf: "dual_wf k1 k2 h i1 i2"
    and d: "deref h i1 = tab k1 rs" "deref h i2 = tab k2 rs" by simp_all
  from d n have "map_of i1 (k1 r) = None" "map_of i2 (k2 r) = None"
    by (metis deref_def option.map_disc_iff)+
  with wf have "dual_wf k1 k2 (h @ [r]) (AList.update (k1 r) (length h) i1)
      (AList.update (k2 r) (length h) i2)"
    by (rule dual_wf_insert)
  moreover have "deref (h @ [r]) (AList.update (k1 r) (length h) i1) = tab k1 (rs @ [r])"
    using wf n d by (simp add: deref_insert tab_insert)
  moreover have "deref (h @ [r]) (AList.update (k2 r) (length h) i2) = tab k2 (rs @ [r])"
    using wf n d by (simp add: deref_insert [OF dual_wf_swap [THEN iffD1]] tab_insert)
  ultimately show ?case by (simp add: dual_load_snoc l)
qed

lemma tab_map: "(\<And>r. key (f r) = key' r) \<Longrightarrow> tab key (map f t) k = map_option f (tab key' t k)"
  unfolding tab_def by (induction t) auto

lemma keyed_map: "(\<And>r. key (f r) = key' r) \<Longrightarrow> keyed key (map f t) = keyed key' t"
  by (simp add: keyed_def comp_def)

text \<open>Two tables with unique second columns that agree as maps agree under the second key.\<close>

lemma tab_second:
  assumes "keyed k1 t" "keyed k2 t"
  shows "tab k2 t b = Some r \<longleftrightarrow> tab k1 t (k1 r) = Some r \<and> k2 r = b"
  using assms by (auto simp: tab_Some_iff)

subsection \<open>Write transactions\<close>

text \<open>
  Every store persists through one write transaction that it runs before touching its maps.
  What the database engine does to a transaction is an input of the model: it goes through,
  or it fails when it begins, at a statement, or when it commits. A transaction that does not
  commit leaves the tables as they were (SQLite transactions are atomic). A statement can also
  fail by itself, on a constraint of the schema or on the row count the code insists on.
\<close>

datatype tx_fault = TxOk | TxBeginErr | TxExecErr | TxCommitErr

datatype sql_error = SqlDriver | SqlPrimaryKey | SqlUnique | SqlCheck | SqlForeignKey
  | SqlTrigger | SqlRowsAffected nat nat

datatype persist_error = PersistBegin | PersistStmt sql_error | PersistCommit

text \<open>
  \<open>run_tx\<close> runs the statements of a transaction against the attached database; with no
  database attached (\<open>None\<close>) it does nothing.
\<close>

definition run_tx :: "tx_fault \<Rightarrow> ('t \<Rightarrow> sql_error + 't) \<Rightarrow> 't option \<Rightarrow> persist_error + 't option" where
  "run_tx f fn db =
     (case db of
        None \<Rightarrow> Inr None
      | Some t \<Rightarrow>
          (if f = TxBeginErr then Inl PersistBegin
           else case (if f = TxExecErr then Inl SqlDriver else fn t) of
             Inl e \<Rightarrow> Inl (PersistStmt e)
           | Inr t' \<Rightarrow> if f = TxCommitErr then Inl PersistCommit else Inr (Some t')))"

definition expect_rows :: "nat \<Rightarrow> nat \<times> 't \<Rightarrow> sql_error + 't" where
  "expect_rows want r = (if fst r = want then Inr (snd r) else Inl (SqlRowsAffected (fst r) want))"

text \<open>Statements of one transaction in sequence.\<close>

fun then_sql :: "sql_error + 't \<Rightarrow> ('t \<Rightarrow> sql_error + 't) \<Rightarrow> sql_error + 't" where
  "then_sql (Inl e) fn = Inl e"
| "then_sql (Inr t) fn = fn t"

lemma then_sql_Inr_iff [simp]: "then_sql r fn = Inr t \<longleftrightarrow> (\<exists>u. r = Inr u \<and> fn u = Inr t)"
  by (cases r) auto

lemma run_tx_None [simp]: "run_tx f fn None = Inr None"
  by (simp add: run_tx_def)

lemma run_tx_Inr_iff:
  "run_tx f fn db = Inr db' \<longleftrightarrow>
     (db = None \<and> db' = None) \<or>
     (\<exists>t t'. db = Some t \<and> f = TxOk \<and> fn t = Inr t' \<and> db' = Some t')"
  by (cases f) (auto simp: run_tx_def split: option.splits sum.splits)

lemma run_tx_ok [simp]:
  "run_tx TxOk fn (Some t) = (case fn t of Inl e \<Rightarrow> Inl (PersistStmt e) | Inr t' \<Rightarrow> Inr (Some t'))"
  by (simp add: run_tx_def split: sum.splits)

lemma expect_rows_Inr_iff [simp]: "expect_rows n r = Inr t \<longleftrightarrow> fst r = n \<and> snd r = t"
  by (auto simp: expect_rows_def)

text \<open>An outcome that leaves the store alone when it is an error.\<close>

definition error_frame :: "'s \<Rightarrow> ('e + 'a) \<times> 's \<Rightarrow> bool" where
  "error_frame s r \<longleftrightarrow> (\<forall>e. fst r = Inl e \<longrightarrow> snd r = s)"

lemma error_frame_simps [simp]: "error_frame s (Inl e, s)" "error_frame s (Inr x, s')"
  by (simp_all add: error_frame_def)

lemma error_frame_map [simp]:
  "error_frame s c \<Longrightarrow> error_frame s (case c of (Inl e, s') \<Rightarrow> (Inl e, s') | (Inr u, s') \<Rightarrow> (Inr (g u s'), s'))"
  by (auto simp: error_frame_def split: prod.splits sum.splits)

text \<open>Lower-case hexadecimal, as \<open>%x\<close> and \<open>hex.EncodeToString\<close> render bytes.\<close>

type_synonym byte = "8 word"

definition hex_digit :: "nat \<Rightarrow> char" where
  "hex_digit n = ''0123456789abcdef'' ! (n mod 16)"

definition hex_byte :: "byte \<Rightarrow> string" where
  "hex_byte b = [hex_digit (unat b div 16), hex_digit (unat b mod 16)]"

definition hex_bytes :: "byte list \<Rightarrow> string" where
  "hex_bytes bs = concat (map hex_byte bs)"

definition is_hex :: "char \<Rightarrow> bool" where
  "is_hex c \<longleftrightarrow> CHR ''0'' \<le> c \<and> c \<le> CHR ''9'' \<or> CHR ''a'' \<le> c \<and> c \<le> CHR ''f''"

lemma hex_digit_is_hex [simp]: "is_hex (hex_digit n)"
proof -
  have "hex_digit n \<in> set ''0123456789abcdef''"
    unfolding hex_digit_def by (rule nth_mem) simp
  then show ?thesis by (auto simp: is_hex_def less_eq_char_def)
qed

lemma length_hex_bytes [simp]: "length (hex_bytes bs) = 2 * length bs"
  by (induction bs) (simp_all add: hex_bytes_def hex_byte_def)

lemma hex_bytes_hex: "list_all is_hex (hex_bytes bs)"
  by (induction bs) (simp_all add: hex_bytes_def hex_byte_def)

end
