(* ===== verification/Go_Text.thy ===== *)
theory Go_Text
  imports Prelude
begin

text \<open>
  Text rules the stores share: UTF-8 decoding as Go does it (a byte that starts no valid
  encoding reads as U+FFFD of width one), the lightweight email rule of person keys, team
  names, and the hand-rolled UUIDs of member and group ids.
\<close>

subsection \<open>Runes\<close>

definition cont :: "nat \<Rightarrow> nat \<Rightarrow> nat \<Rightarrow> bool" where
  "cont lo hi b \<longleftrightarrow> lo \<le> b \<and> b \<le> hi"

definition rune_error :: nat where "rune_error = 65533"

text \<open>The first rune of a non-empty byte string, with its width.\<close>

definition decode_rune :: "nat list \<Rightarrow> nat \<times> nat" where
  "decode_rune bs =
     (case bs of
        [] \<Rightarrow> (rune_error, 1)
      | b0 # bs1 \<Rightarrow>
          if b0 < 128 then (b0, 1)
          else if cont 194 223 b0 then
            (case bs1 of b1 # _ \<Rightarrow> if cont 128 191 b1 then ((b0 - 192) * 64 + (b1 - 128), 2) else (rune_error, 1)
             | [] \<Rightarrow> (rune_error, 1))
          else if cont 224 239 b0 then
            (case bs1 of b1 # b2 # _ \<Rightarrow>
               if cont (if b0 = 224 then 160 else 128) (if b0 = 237 then 159 else 191) b1 \<and> cont 128 191 b2
               then ((b0 - 224) * 4096 + (b1 - 128) * 64 + (b2 - 128), 3) else (rune_error, 1)
             | _ \<Rightarrow> (rune_error, 1))
          else if cont 240 244 b0 then
            (case bs1 of b1 # b2 # b3 # _ \<Rightarrow>
               if cont (if b0 = 240 then 144 else 128) (if b0 = 244 then 143 else 191) b1 \<and>
                  cont 128 191 b2 \<and> cont 128 191 b3
               then ((b0 - 240) * 262144 + (b1 - 128) * 4096 + (b2 - 128) * 64 + (b3 - 128), 4)
               else (rune_error, 1)
             | _ \<Rightarrow> (rune_error, 1))
          else (rune_error, 1))"

fun decode_bytes :: "nat list \<Rightarrow> nat list" where
  "decode_bytes [] = []"
| "decode_bytes (b # bs) =
     fst (decode_rune (b # bs)) # decode_bytes (drop (snd (decode_rune (b # bs)) - 1) bs)"

text \<open>\<open>[]rune(s)\<close>\<close>

definition runes :: "string \<Rightarrow> nat list" where
  "runes s = decode_bytes (map of_char s)"

text \<open>\<open>unicode.IsSpace\<close>\<close>

definition is_space :: "nat \<Rightarrow> bool" where
  "is_space r \<longleftrightarrow> 9 \<le> r \<and> r \<le> 13 \<or> r = 32 \<or> r = 133 \<or> r = 160 \<or> r = 5760 \<or>
     8192 \<le> r \<and> r \<le> 8202 \<or> r = 8232 \<or> r = 8233 \<or> r = 8239 \<or> r = 8287 \<or> r = 12288"

text \<open>\<open>strings.TrimSpace(s) == ""\<close>: nothing but white space.\<close>

definition blank :: "string \<Rightarrow> bool" where
  "blank s \<longleftrightarrow> list_all is_space (runes s)"

text \<open>
  \<open>strings.TrimSpace\<close>: the text is cut into its runes with the bytes they were read from, and
  white space is dropped at both ends.
\<close>

fun rune_chunks :: "string \<Rightarrow> (nat \<times> string) list" where
  "rune_chunks [] = []"
| "rune_chunks (b # bs) =
     (case decode_rune (map of_char (b # bs)) of (r, w) \<Rightarrow> (r, b # take (w - 1) bs) # rune_chunks (drop (w - 1) bs))"

definition trim_space :: "string \<Rightarrow> string" where
  "trim_space s =
     (let sp = (\<lambda>(r, _). is_space r)
      in concat (map snd (rev (dropWhile sp (rev (dropWhile sp (rune_chunks s)))))))"

lemma concat_chunks: "concat (map snd (rune_chunks s)) = s"
  by (induction s rule: rune_chunks.induct) (auto split: prod.splits)

lemma rune_chunks_ascii: "\<forall>c \<in> set s. of_char c < (128 :: nat) \<Longrightarrow> rune_chunks s = map (\<lambda>c. (of_char c, [c])) s"
  by (induction s) (auto simp: decode_rune_def)

text \<open>A text of ASCII characters that starts and ends with something visible is left alone.\<close>

lemma trim_space_ascii:
  assumes a: "\<forall>c \<in> set s. of_char c < (128 :: nat)" and s: "s \<noteq> []" "\<not> is_space (of_char (hd s))" "\<not> is_space (of_char (last s))"
  shows "trim_space s = s"
proof -
  let ?c = "map (\<lambda>c. (of_char c, [c])) s" and ?sp = "\<lambda>(r, _ :: string). is_space r"
  have "dropWhile ?sp ?c = ?c" using s by (cases s) auto
  moreover have "dropWhile ?sp (rev ?c) = rev ?c" using s by (cases s rule: rev_cases) auto
  ultimately show ?thesis using concat_chunks [of s] by (simp add: trim_space_def rune_chunks_ascii [OF a] Let_def)
qed

lemma decode_bytes_ascii: "\<forall>b \<in> set bs. b < 128 \<Longrightarrow> decode_bytes bs = bs"
  by (induction bs) (auto simp: decode_rune_def)

lemma runes_ascii: "\<forall>c \<in> set s. of_char c < (128 :: nat) \<Longrightarrow> runes s = map of_char s"
  by (simp add: runes_def decode_bytes_ascii)

lemma decode_bytes_eq_Nil [simp]: "decode_bytes bs = [] \<longleftrightarrow> bs = []"
  by (cases bs) auto

subsection \<open>Person keys\<close>

fun index_byte :: "char \<Rightarrow> string \<Rightarrow> int" where
  "index_byte c [] = -1"
| "index_byte c (x # xs) =
     (if x = c then 0 else let r = index_byte c xs in if r < 0 then -1 else r + 1)"

definition last_index_byte :: "char \<Rightarrow> string \<Rightarrow> int" where
  "last_index_byte c s =
     (let r = index_byte c (rev s) in if r < 0 then -1 else int (length s) - 1 - r)"

definition contains_any :: "string \<Rightarrow> string \<Rightarrow> bool" where
  "contains_any s cs \<longleftrightarrow> list_ex (\<lambda>c. c \<in> set cs) s"

definition at_sign :: char where "at_sign = CHR 0x40"

definition ws_chars :: string where "ws_chars = [CHR 0x20, CHR 0x09, CHR 0x0A]"

datatype key_error = KeyEmpty | KeyNotAddress | KeyWhitespace | KeyNotUUID

text \<open>\<open>validateUserEmail\<close> of the group store and \<open>validateMemberEmail\<close> of the registry.\<close>

definition validateUserEmail :: "string \<Rightarrow> key_error option" where
  "validateUserEmail user =
     (if blank user then Some KeyEmpty
      else let at = index_byte at_sign user in
        if at \<le> 0 \<or> at \<noteq> last_index_byte at_sign user \<or> at = int (length user) - 1
        then Some KeyNotAddress
        else if contains_any user ws_chars then Some KeyWhitespace
        else None)"

definition validateMemberEmail :: "string \<Rightarrow> key_error option" where
  "validateMemberEmail email =
     (if blank email then Some KeyEmpty
      else let at = index_byte at_sign email in
        if at \<le> 0 \<or> at \<noteq> last_index_byte at_sign email \<or> at = int (length email) - 1
        then Some KeyNotAddress
        else if contains_any email ws_chars then Some KeyWhitespace
        else None)"

lemma index_byte_lower: "-1 \<le> index_byte c s"
  by (induction s) (auto simp: Let_def)

lemma index_byte_absent: "c \<notin> set s \<Longrightarrow> index_byte c s = -1"
  by (induction s) auto

lemma index_byte_split: "c \<notin> set xs \<Longrightarrow> index_byte c (xs @ c # ys) = int (length xs)"
  by (induction xs) (auto simp: Let_def)

lemma last_index_byte_split: "c \<notin> set ys \<Longrightarrow> last_index_byte c (xs @ c # ys) = int (length xs)"
  by (simp add: last_index_byte_def index_byte_split Let_def)

lemma first_occurrence: "c \<in> set s \<Longrightarrow> \<exists>xs ys. s = xs @ c # ys \<and> c \<notin> set xs"
  by (rule split_list_first)

lemma index_byte_member: "0 \<le> index_byte c s \<Longrightarrow> c \<in> set s"
  using index_byte_absent [of c s] by fastforce

text \<open>An ASCII byte is never swallowed by a longer encoding, so it survives decoding.\<close>

lemma decode_rune_shape:
  "snd (decode_rune (b # bs)) = 1 \<or>
   (\<exists>b1 r. bs = b1 # r \<and> 128 \<le> b1 \<and> snd (decode_rune (b # bs)) = 2) \<or>
   (\<exists>b1 b2 r. bs = b1 # b2 # r \<and> 128 \<le> b1 \<and> 128 \<le> b2 \<and> snd (decode_rune (b # bs)) = 3) \<or>
   (\<exists>b1 b2 b3 r. bs = b1 # b2 # b3 # r \<and> 128 \<le> b1 \<and> 128 \<le> b2 \<and> 128 \<le> b3 \<and>
      snd (decode_rune (b # bs)) = 4)"
  unfolding decode_rune_def cont_def by (auto split: list.split)

lemma decode_rune_cont:
  "x \<in> set (take (snd (decode_rune (b # bs)) - 1) bs) \<Longrightarrow> 128 \<le> x"
  using decode_rune_shape [of b bs] by (elim disjE exE conjE) auto

lemma decode_bytes_keeps_ascii: "x \<in> set bs \<Longrightarrow> x < 128 \<Longrightarrow> x \<in> set (decode_bytes bs)"
proof (induction bs rule: decode_bytes.induct)
  case (2 b bs)
  let ?n = "snd (decode_rune (b # bs)) - 1"
  show ?case
  proof (cases "x = b")
    case True
    with "2.prems" show ?thesis by (simp add: decode_rune_def)
  next
    case False
    with "2.prems" have "x \<in> set (take ?n bs @ drop ?n bs)" by simp
    moreover have "x \<notin> set (take ?n bs)" using decode_rune_cont [of x b bs] "2.prems"(2) by auto
    ultimately have "x \<in> set (drop ?n bs)" unfolding set_append by blast
    with "2.IH" "2.prems" show ?thesis by simp
  qed
qed simp

lemma not_blankI: "c \<in> set s \<Longrightarrow> of_char c < (128::nat) \<Longrightarrow> \<not> is_space (of_char c) \<Longrightarrow> \<not> blank s"
  using decode_bytes_keeps_ascii [of "of_char c" "map of_char s"]
  by (auto simp: blank_def runes_def list_all_iff)

text \<open>What the email rule accepts: one interior \<open>@\<close>, no blank, tab or newline.\<close>

definition address_like :: "string \<Rightarrow> bool" where
  "address_like s \<longleftrightarrow>
     (\<exists>l d. s = l @ at_sign # d \<and> l \<noteq> [] \<and> d \<noteq> [] \<and> at_sign \<notin> set l \<and> at_sign \<notin> set d) \<and>
     set s \<inter> set ws_chars = {}"

lemma at_sign_not_blank: "at_sign \<in> set s \<Longrightarrow> \<not> blank s"
  by (rule not_blankI [of at_sign]) (simp_all add: at_sign_def is_space_def)

lemma validateUserEmail_accepts: "validateUserEmail s = None \<longleftrightarrow> address_like s"
proof
  assume v: "validateUserEmail s = None"
  then have "0 < index_byte at_sign s"
    by (auto simp: validateUserEmail_def Let_def split: if_splits)
  then obtain l d where s: "s = l @ at_sign # d" and l: "at_sign \<notin> set l"
    using index_byte_member first_occurrence by (metis order_less_imp_le)
  have at: "index_byte at_sign s = int (length l)" by (simp add: s l index_byte_split)
  from v have last: "last_index_byte at_sign s = int (length l)"
    and "0 < length l" and "length l \<noteq> length s - 1" and ws: "\<not> contains_any s ws_chars"
    by (auto simp: validateUserEmail_def Let_def at split: if_splits)
  have "at_sign \<notin> set d"
  proof
    assume "at_sign \<in> set d"
    then obtain d1 d2 where d: "d = d1 @ at_sign # d2" and "at_sign \<notin> set d2"
      using split_list_last by metis
    then have "last_index_byte at_sign s = int (length (l @ at_sign # d1))"
      using last_index_byte_split [of at_sign d2 "l @ at_sign # d1"] by (simp add: s)
    with last show False by simp
  qed
  moreover have "d \<noteq> []" using \<open>length l \<noteq> length s - 1\<close> by (auto simp: s)
  moreover have "set s \<inter> set ws_chars = {}" using ws by (auto simp: contains_any_def list_ex_iff)
  ultimately show "address_like s"
    using s l \<open>0 < length l\<close> unfolding address_like_def by blast
next
  assume "address_like s"
  then obtain l d where s: "s = l @ at_sign # d" and "l \<noteq> []" "d \<noteq> []"
    and l: "at_sign \<notin> set l" and d: "at_sign \<notin> set d" and ws: "set s \<inter> set ws_chars = {}"
    by (auto simp: address_like_def)
  then have "index_byte at_sign s = int (length l)" "last_index_byte at_sign s = int (length l)"
    by (simp_all add: index_byte_split last_index_byte_split)
  moreover have "\<not> blank s" by (rule at_sign_not_blank) (simp add: s)
  moreover have "\<not> contains_any s ws_chars" using ws by (auto simp: contains_any_def list_ex_iff)
  moreover have "int (length l) \<noteq> int (length s) - 1" using \<open>d \<noteq> []\<close> by (simp add: s)
  ultimately show "validateUserEmail s = None"
    using \<open>l \<noteq> []\<close> by (simp add: validateUserEmail_def)
qed

lemma validateMemberEmail_eq: "validateMemberEmail s = validateUserEmail s"
  by (simp add: validateMemberEmail_def validateUserEmail_def)

subsection \<open>Team names\<close>

datatype name_error = NameEmpty | NameTooLong nat | NameBadChars

definition maxGroupNameLen :: nat where "maxGroupNameLen = 50"

text \<open>The character class of \<open>groupNameRE\<close>: digits, Latin letters, Hangul syllables, \<open>_\<close>, \<open>-\<close>.\<close>

definition name_rune :: "nat \<Rightarrow> bool" where
  "name_rune r \<longleftrightarrow> 48 \<le> r \<and> r \<le> 57 \<or> 65 \<le> r \<and> r \<le> 90 \<or> 97 \<le> r \<and> r \<le> 122 \<or>
     44032 \<le> r \<and> r \<le> 55203 \<or> r = 95 \<or> r = 45"

definition groupNameRE :: "string \<Rightarrow> bool" where
  "groupNameRE s \<longleftrightarrow> runes s \<noteq> [] \<and> list_all name_rune (runes s)"

definition validateGroupName :: "string \<Rightarrow> name_error option" where
  "validateGroupName name =
     (if blank name then Some NameEmpty
      else if length (runes name) > maxGroupNameLen then Some (NameTooLong (length (runes name)))
      else if \<not> groupNameRE name then Some NameBadChars
      else None)"

lemma validateGroupName_accepts:
  "validateGroupName s = None \<longleftrightarrow>
     runes s \<noteq> [] \<and> length (runes s) \<le> 50 \<and> list_all name_rune (runes s)"
proof -
  have "\<not> (is_space r \<and> name_rune r)" for r by (auto simp: is_space_def name_rune_def)
  then have "runes s \<noteq> [] \<Longrightarrow> list_all name_rune (runes s) \<Longrightarrow> \<not> blank s"
    by (cases "runes s") (auto simp: blank_def)
  then show ?thesis
    by (auto simp: validateGroupName_def groupNameRE_def maxGroupNameLen_def blank_def)
qed

lemma valid_name_nonempty: "validateGroupName s = None \<Longrightarrow> s \<noteq> []"
  by (auto simp: validateGroupName_accepts runes_def)

text \<open>The \<open>groups\<close> table insists on a non-empty name without a slash: accepted names have neither.\<close>

lemma valid_name_no_slash: "validateGroupName s = None \<Longrightarrow> CHR ''/'' \<notin> set s"
proof
  assume v: "validateGroupName s = None" and "CHR ''/'' \<in> set s"
  then have "(47::nat) \<in> set (runes s)"
    using decode_bytes_keeps_ascii [of 47 "map of_char s"] by (force simp: runes_def)
  with v show False by (auto simp: validateGroupName_accepts list_all_iff name_rune_def)
qed

subsection \<open>UUIDs\<close>

text \<open>
  \<open>newMemberID\<close> and \<open>newGroupID\<close> format sixteen random bytes as a version 4 UUID. The random
  source is an input: a stream of bytes that \<open>rand.Read\<close> copies from, or \<open>None\<close> when it fails.
\<close>

type_synonym entropy = "(nat \<Rightarrow> byte) option"

definition rand_read :: "nat \<Rightarrow> entropy \<Rightarrow> byte list option" where
  "rand_read n rnd = map_option (\<lambda>f. map f [0..<n]) rnd"

unbundle bit_operations_syntax

definition uuid_bytes :: "byte list \<Rightarrow> byte list" where
  "uuid_bytes b = b[6 := (b ! 6 AND 0x0f) OR 0x40, 8 := (b ! 8 AND 0x3f) OR 0x80]"

definition dash :: char where "dash = CHR 0x2D"

definition uuid_string :: "byte list \<Rightarrow> string" where
  "uuid_string b =
     hex_bytes (take 4 b) @ dash # hex_bytes (take 2 (drop 4 b)) @ dash # hex_bytes (take 2 (drop 6 b)) @
     dash # hex_bytes (take 2 (drop 8 b)) @ dash # hex_bytes (take 6 (drop 10 b))"

definition newMemberID :: "entropy \<Rightarrow> string option" where
  "newMemberID rnd = map_option (\<lambda>b. uuid_string (uuid_bytes b)) (rand_read 16 rnd)"

definition newGroupID :: "entropy \<Rightarrow> string option" where
  "newGroupID rnd = map_option (\<lambda>b. uuid_string (uuid_bytes b)) (rand_read 16 rnd)"

text \<open>
  \<open>isCanonicalUUID\<close> ranges over the runes of a 36-byte string; a byte outside ASCII decodes
  to a rune that no branch accepts, so the check is per byte.
\<close>

definition isCanonicalUUID :: "string \<Rightarrow> bool" where
  "isCanonicalUUID s \<longleftrightarrow> length s = 36 \<and>
     list_all (\<lambda>i. if i \<in> {8, 13, 18, 23} then s ! i = dash else is_hex (s ! i)) [0..<36]"

definition validateID :: "string \<Rightarrow> key_error option" where
  "validateID s = (if isCanonicalUUID s then None else Some KeyNotUUID)"

lemma length_uuid_string: "length b = 16 \<Longrightarrow> length (uuid_string b) = 36"
  by (simp add: uuid_string_def)

lemma length_uuid_bytes [simp]: "length (uuid_bytes b) = length b"
  by (simp add: uuid_bytes_def)

lemma hex_bytes_Cons: "hex_bytes (x # xs) = hex_byte x @ hex_bytes xs"
  by (simp add: hex_bytes_def)

lemma uuid_string_canonical:
  assumes "length b = 16"
  shows "isCanonicalUUID (uuid_string b)"
proof -
  have "\<exists>b0 b1 b2 b3 b4 b5 b6 b7 b8 b9 b10 b11 b12 b13 b14 b15.
      b = [b0, b1, b2, b3, b4, b5, b6, b7, b8, b9, b10, b11, b12, b13, b14, b15]"
    using assms by (auto simp: length_Suc_conv numeral_eq_Suc)
  then obtain b0 b1 b2 b3 b4 b5 b6 b7 b8 b9 b10 b11 b12 b13 b14 b15
    where b: "b = [b0, b1, b2, b3, b4, b5, b6, b7, b8, b9, b10, b11, b12, b13, b14, b15]" by blast
  have u: "[0..<36] = [0, 1, 2, 3, 4, 5, 6, 7, 8, 9, 10, 11, 12, 13, 14, 15, 16, 17, 18, 19, 20,
      21, 22, 23, 24, 25, 26, 27, 28, 29, 30, 31, 32, 33, 34, 35]"
    by (simp add: upt_rec)
  show ?thesis
    unfolding isCanonicalUUID_def u b
    by (simp add: uuid_string_def hex_bytes_def hex_byte_def)
qed

text \<open>The ids the registry and the group store mint have the shape the validator asks for.\<close>

lemma newMemberID_canonical: "newMemberID rnd = Some i \<Longrightarrow> isCanonicalUUID i"
  by (auto simp: newMemberID_def rand_read_def simp del: upt_Suc intro!: uuid_string_canonical)

lemma newGroupID_canonical: "newGroupID rnd = Some i \<Longrightarrow> isCanonicalUUID i"
  by (auto simp: newGroupID_def rand_read_def simp del: upt_Suc intro!: uuid_string_canonical)

lemma newMemberID_valid: "newMemberID rnd = Some i \<Longrightarrow> validateID i = None"
  by (simp add: validateID_def newMemberID_canonical)

lemma canonical_length: "isCanonicalUUID s \<Longrightarrow> length s = 36"
  unfolding isCanonicalUUID_def by (rule conjunct1)

text \<open>Version and variant bits of the minted id.\<close>

lemma uuid_bytes_version:
  "length b = 16 \<Longrightarrow> unat (uuid_bytes b ! 6) div 16 = 4 \<and> unat (uuid_bytes b ! 8) div 64 = 2"
proof -
  assume "length b = 16"
  then have "uuid_bytes b ! 6 = (b ! 6 AND 0x0f) OR 0x40" "uuid_bytes b ! 8 = (b ! 8 AND 0x3f) OR 0x80"
    by (simp_all add: uuid_bytes_def)
  moreover have "drop_bit 4 ((x AND 0x0f) OR 0x40 :: byte) = 4" for x
    by (simp add: drop_bit_or drop_bit_and)
  moreover have "drop_bit 6 ((x AND 0x3f) OR 0x80 :: byte) = 2" for x
    by (simp add: drop_bit_or drop_bit_and)
  ultimately have "unat (drop_bit 4 (uuid_bytes b ! 6)) = 4" "unat (drop_bit 6 (uuid_bytes b ! 8)) = 2"
    by simp_all
  then show ?thesis by (simp add: drop_bit_eq_div unat_div)
qed

lemma isCanonicalUUID_nth:
  assumes "isCanonicalUUID s" "i < 36"
  shows "s ! i = dash \<or> is_hex (s ! i)"
proof -
  from assms(2) have "i \<in> set [0..<36]" by (simp only: set_upt atLeastLessThan_iff) simp
  with assms(1) have "if i \<in> {8, 13, 18, 23} then s ! i = dash else is_hex (s ! i)"
    unfolding isCanonicalUUID_def list_all_iff by blast
  then show ?thesis by presburger
qed

lemma canonical_not_address: "isCanonicalUUID s \<Longrightarrow> at_sign \<notin> set s"
proof
  assume c: "isCanonicalUUID s" and "at_sign \<in> set s"
  moreover from c have "length s = 36" unfolding isCanonicalUUID_def by (rule conjunct1)
  ultimately obtain i where "i < 36" "s ! i = at_sign" by (metis in_set_conv_nth)
  with isCanonicalUUID_nth [OF c, of i] have "at_sign = dash \<or> is_hex at_sign" by simp
  then show False by (simp add: at_sign_def dash_def is_hex_def less_eq_char_def)
qed

text \<open>An address is never a member id, so the two key spaces do not meet.\<close>

lemma address_not_uuid: "validateUserEmail s = None \<Longrightarrow> validateID s \<noteq> None"
  by (auto simp: validateUserEmail_accepts address_like_def validateID_def
      dest: canonical_not_address)

text \<open>SQLite's \<open>lower\<close> leaves a minted id alone.\<close>

definition is_lower :: "string \<Rightarrow> bool" where
  "is_lower s \<longleftrightarrow> list_all (\<lambda>c. \<not> (CHR ''A'' \<le> c \<and> c \<le> CHR ''Z'')) s"

lemma hex_not_upper: "c = dash \<or> is_hex c \<Longrightarrow> \<not> (CHR ''A'' \<le> c \<and> c \<le> CHR ''Z'')"
  by (auto simp: dash_def is_hex_def less_eq_char_def)

lemma canonical_lower:
  assumes "isCanonicalUUID s"
  shows "is_lower s"
  unfolding is_lower_def list_all_iff
proof
  fix c
  assume "c \<in> set s"
  then obtain i where "i < length s" "s ! i = c" by (metis in_set_conv_nth)
  with canonical_length [OF assms] isCanonicalUUID_nth [OF assms, of i]
  have "c = dash \<or> is_hex c" by simp
  then show "\<not> (CHR ''A'' \<le> c \<and> c \<le> CHR ''Z'')" by (rule hex_not_upper)
qed

text \<open>\<open>randHex\<close>: sixteen random bytes as 32 hexadecimal characters.\<close>

definition randHex :: "entropy \<Rightarrow> string option" where
  "randHex rnd = map_option hex_bytes (rand_read 16 rnd)"

lemma randHex_shape: "randHex rnd = Some h \<Longrightarrow> length h = 32 \<and> list_all is_hex h"
  by (auto simp: randHex_def rand_read_def hex_bytes_hex simp del: upt_Suc)

end
