(* ===== verification/Store_Time.thy ===== *)
theory Store_Time
  imports Prelude "HOL-Library.Monad_Syntax"
begin

text \<open>
  Time as the stores use it (\<open>internal/storedb/time.go\<close> and the \<open>time\<close> package below it). An
  instant is an integer number of nanoseconds since the Unix epoch, in UTC. The proleptic
  Gregorian calendar gives the date of a day number; \<open>FormatTime\<close> renders the canonical
  fixed-width form, \<open>parse_rfc3339\<close> and \<open>parse_date\<close> read what \<open>time.Parse\<close> reads for the two
  layouts of the code. The theory shows that the rendering can be read back and that, within
  the four-digit years, comparing renderings as text compares instants.
\<close>

type_synonym time = int

definition second :: int where "second = 1000000000"
definition milli :: int where "milli = 1000000"

subsection \<open>Calendar\<close>

definition is_leap :: "int \<Rightarrow> bool" where
  "is_leap y \<longleftrightarrow> y mod 4 = 0 \<and> (y mod 100 \<noteq> 0 \<or> y mod 400 = 0)"

text \<open>Days from 1 January of year 1 to 1 January of year \<open>y\<close>.\<close>

definition days_before_year :: "int \<Rightarrow> int" where
  "days_before_year y = 365 * (y - 1) + (y - 1) div 4 - (y - 1) div 100 + (y - 1) div 400"

definition days_before_month :: "bool \<Rightarrow> int \<Rightarrow> int" where
  "days_before_month lp m =
     (if m \<le> 1 then 0 else if m = 2 then 31 else
      (if lp then 1 else 0) +
      (if m = 3 then 59 else if m = 4 then 90 else if m = 5 then 120 else if m = 6 then 151
       else if m = 7 then 181 else if m = 8 then 212 else if m = 9 then 243 else if m = 10 then 273
       else if m = 11 then 304 else if m = 12 then 334 else 365))"

definition days_in :: "int \<Rightarrow> int \<Rightarrow> int" where
  "days_in y m = days_before_month (is_leap y) (m + 1) - days_before_month (is_leap y) m"

definition epoch_day :: int where "epoch_day = 719162"

text \<open>Day number, relative to the epoch, of a date.\<close>

definition days_of_date :: "int \<Rightarrow> int \<Rightarrow> int \<Rightarrow> int" where
  "days_of_date y m d = days_before_year y + days_before_month (is_leap y) m + (d - 1) - epoch_day"

definition year_of_day :: "int \<Rightarrow> int" where
  "year_of_day n =
     (let y = 400 * n div 146097 + 1
      in if days_before_year (y + 1) \<le> n then y + 1
         else if n < days_before_year y then y - 1 else y)"

definition month_of_yday :: "bool \<Rightarrow> int \<Rightarrow> int" where
  "month_of_yday lp r =
     (if r < days_before_month lp 2 then 1 else if r < days_before_month lp 3 then 2
      else if r < days_before_month lp 4 then 3 else if r < days_before_month lp 5 then 4
      else if r < days_before_month lp 6 then 5 else if r < days_before_month lp 7 then 6
      else if r < days_before_month lp 8 then 7 else if r < days_before_month lp 9 then 8
      else if r < days_before_month lp 10 then 9 else if r < days_before_month lp 11 then 10
      else if r < days_before_month lp 12 then 11 else 12)"

definition date_of_days :: "int \<Rightarrow> int \<times> int \<times> int" where
  "date_of_days e =
     (let n = e + epoch_day; y = year_of_day n; r = n - days_before_year y; m = month_of_yday (is_leap y) r
      in (y, m, r - days_before_month (is_leap y) m + 1))"

lemma div_step: "(x + 1) div k = x div k + (if (x + 1) mod k = 0 then 1 else 0)" if "(k::int) > 1"
proof -
  define r where "r = x mod k"
  have r: "0 \<le> r" "r < k" using that by (simp_all add: r_def)
  have m: "(x + 1) mod k = (r + 1) mod k" by (simp add: r_def mod_add_left_eq)
  have d: "(x + 1) div k = x div k + (r + 1) div k"
    using that by (simp add: r_def div_add1_eq [of x 1 k])
  show ?thesis
  proof (cases "r + 1 = k")
    case True
    with that show ?thesis by (simp add: m d)
  next
    case False
    with r have "r + 1 < k" by simp
    with r that show ?thesis by (simp add: m d)
  qed
qed

lemma numeral_dvd_calc: "(4::int) dvd 100" "(100::int) dvd 400"
  by simp_all

lemma days_before_year_Suc:
  "days_before_year (y + 1) = days_before_year y + (if is_leap y then 366 else 365)"
proof -
  define a b c where "a = (y - 1) div 4" and "b = (y - 1) div 100" and "c = (y - 1) div 400"
  define p q r where "p \<longleftrightarrow> y mod 4 = 0" and "q \<longleftrightarrow> y mod 100 = 0" and "r \<longleftrightarrow> y mod 400 = 0"
  have "y div 4 = a + (if p then 1 else 0)" "y div 100 = b + (if q then 1 else 0)"
    "y div 400 = c + (if r then 1 else 0)"
    unfolding a_def b_def c_def p_def q_def r_def
    using div_step [of 4 "y - 1"] div_step [of 100 "y - 1"] div_step [of 400 "y - 1"]
    by (simp_all only: diff_add_cancel)
  then have "days_before_year (y + 1) = 365 * y + (a + (if p then 1 else 0)) -
      (b + (if q then 1 else 0)) + (c + (if r then 1 else 0))"
    by (simp add: days_before_year_def)
  moreover have "days_before_year y = 365 * (y - 1) + a - b + c"
    by (simp add: days_before_year_def a_def b_def c_def)
  moreover have "q \<longrightarrow> p" unfolding p_def q_def by (metis dvd_eq_mod_eq_0 dvd_trans numeral_dvd_calc)
  moreover have "r \<longrightarrow> q" unfolding q_def r_def by (metis dvd_eq_mod_eq_0 dvd_trans numeral_dvd_calc)
  moreover have "is_leap y \<longleftrightarrow> p \<and> (\<not> q \<or> r)" by (simp add: is_leap_def p_def q_def r_def)
  ultimately show ?thesis by (cases p; cases q; cases r) simp_all
qed

lemma div_bounds: "(k::int) > 0 \<Longrightarrow> k * (x div k) \<le> x \<and> x < k * (x div k) + k"
  using pos_mod_bound [of k x] pos_mod_sign [of k x] by (simp add: minus_mod_eq_mult_div [symmetric])

lemma days_before_year_estimate:
  "400 * days_before_year y \<le> 146097 * (y - 1) + 396"
  "146097 * (y - 1) - 699 \<le> 400 * days_before_year y"
proof -
  define a b c where "a = (y - 1) div 4" and "b = (y - 1) div 100" and "c = (y - 1) div 400"
  have "4 * a \<le> y - 1" "y - 1 < 4 * a + 4" "100 * b \<le> y - 1" "y - 1 < 100 * b + 100"
    "400 * c \<le> y - 1" "y - 1 < 400 * c + 400"
    using div_bounds [of 4 "y - 1"] div_bounds [of 100 "y - 1"] div_bounds [of 400 "y - 1"]
    by (simp_all add: a_def b_def c_def)
  moreover have "days_before_year y = 365 * (y - 1) + a - b + c"
    by (simp add: days_before_year_def a_def b_def c_def)
  ultimately show "400 * days_before_year y \<le> 146097 * (y - 1) + 396"
    "146097 * (y - 1) - 699 \<le> 400 * days_before_year y" by (simp_all add: algebra_simps)
qed

lemma year_of_day_bounds:
  "days_before_year (year_of_day n) \<le> n \<and> n < days_before_year (year_of_day n + 1)"
proof -
  define y where "y = 400 * n div 146097 + 1"
  have q: "146097 * (y - 1) \<le> 400 * n" "400 * n < 146097 * (y - 1) + 146097"
    using div_bounds [of 146097 "400 * n"] by (simp_all add: y_def)
  have 1: "n < days_before_year (y + 2)"
    using q days_before_year_estimate(2) [of "y + 2"] by (simp add: algebra_simps)
  have 2: "days_before_year (y - 1) \<le> n"
    using q days_before_year_estimate(1) [of "y - 1"] by (simp add: algebra_simps)
  from 1 2 show ?thesis
    unfolding year_of_day_def Let_def y_def [symmetric] by (auto simp: add.assoc)
qed

lemma days_before_year_mono: "y < y' \<Longrightarrow> days_before_year (y + 1) \<le> days_before_year y'"
proof (induction y' rule: int_gr_induct [where k = y])
  case (step i)
  then show ?case using days_before_year_Suc [of i] by simp
qed simp_all

lemma year_of_day_unique:
  assumes "days_before_year y \<le> n" "n < days_before_year (y + 1)"
  shows "year_of_day n = y"
  using year_of_day_bounds [of n] assms days_before_year_mono [of y "year_of_day n"]
    days_before_year_mono [of "year_of_day n" y]
  by (meson linorder_neqE not_le order.trans)

text \<open>Dates of the calendar, and that both directions of the conversion agree on them.\<close>

definition valid_date :: "int \<Rightarrow> int \<Rightarrow> int \<Rightarrow> bool" where
  "valid_date y m d \<longleftrightarrow> 1 \<le> m \<and> m \<le> 12 \<and> 1 \<le> d \<and> d \<le> days_in y m"

lemma month_cases: "1 \<le> m \<Longrightarrow> m \<le> 12 \<Longrightarrow> m \<in> {1, 2, 3, 4, 5, 6, 7, 8, 9, 10, 11, 12 :: int}"
  by simp presburger

lemma month_of_yday_bounds:
  assumes "0 \<le> r" "r < (if lp then 366 else 365)"
  shows "1 \<le> month_of_yday lp r \<and> month_of_yday lp r \<le> 12 \<and>
    days_before_month lp (month_of_yday lp r) \<le> r \<and> r < days_before_month lp (month_of_yday lp r + 1)"
  using assms unfolding month_of_yday_def by (auto simp: days_before_month_def split: if_splits)

lemma month_of_yday_unique:
  assumes "1 \<le> m" "m \<le> 12" "days_before_month lp m \<le> r" "r < days_before_month lp (m + 1)"
  shows "month_of_yday lp r = m"
  using month_cases [OF assms(1,2)] assms(3,4)
  by (elim insertE emptyE) (cases lp; simp add: month_of_yday_def days_before_month_def)+

lemma days_before_month_year: "1 \<le> m \<Longrightarrow> m \<le> 12 \<Longrightarrow>
    0 \<le> days_before_month lp m \<and> days_before_month lp m \<le> days_before_month lp (m + 1) - 28 \<and>
    days_before_month lp (m + 1) \<le> (if lp then 366 else 365)"
  by (drule (1) month_cases) (auto simp: days_before_month_def)

lemma date_of_days_of_date:
  assumes "valid_date y m d"
  shows "date_of_days (days_of_date y m d) = (y, m, d)"
proof -
  let ?lp = "is_leap y"
  define n where "n = days_of_date y m d + epoch_day"
  from assms have m: "1 \<le> m" "m \<le> 12"
    and d: "1 \<le> d" "d \<le> days_before_month ?lp (m + 1) - days_before_month ?lp m"
    by (simp_all add: valid_date_def days_in_def)
  have n: "n = days_before_year y + days_before_month ?lp m + (d - 1)"
    by (simp add: n_def days_of_date_def)
  have b: "0 \<le> days_before_month ?lp m" "days_before_month ?lp (m + 1) \<le> (if ?lp then 366 else 365)"
    using days_before_month_year [OF m, of ?lp] by simp_all
  have "year_of_day n = y"
    by (rule year_of_day_unique) (use b d in \<open>auto simp: n days_before_year_Suc\<close>)
  moreover have "month_of_yday ?lp (n - days_before_year y) = m"
    by (rule month_of_yday_unique) (use m d in \<open>auto simp: n\<close>)
  ultimately show ?thesis
    unfolding date_of_days_def Let_def n_def [symmetric] by (simp add: n)
qed

lemma days_of_date_of_days:
  assumes "date_of_days e = (y, m, d)"
  shows "valid_date y m d \<and> days_of_date y m d = e"
proof -
  define n where "n = e + epoch_day"
  let ?r = "n - days_before_year y"
  have y: "y = year_of_day n" and m: "m = month_of_yday (is_leap y) ?r"
    and d: "d = ?r - days_before_month (is_leap y) m + 1"
    using assms by (auto simp: date_of_days_def Let_def n_def)
  have "0 \<le> ?r" "?r < (if is_leap y then 366 else 365)"
    using year_of_day_bounds [of n] days_before_year_Suc [of y] by (auto simp: y split: if_splits)
  from month_of_yday_bounds [OF this] m d show ?thesis
    by (auto simp: valid_date_def days_in_def days_of_date_def n_def)
qed

subsection \<open>Rendering\<close>

definition digit :: "int \<Rightarrow> char" where
  "digit n = char_of (48 + nat n)"

text \<open>Zero-padded decimal of a fixed number of digits.\<close>

fun digits :: "nat \<Rightarrow> int \<Rightarrow> string" where
  "digits 0 n = []"
| "digits (Suc w) n = digits w (n div 10) @ [digit (n mod 10)]"

text \<open>Number of decimal digits, for numbers that do not fit the padding.\<close>

fun ndigits :: "nat \<Rightarrow> nat" where
  "ndigits n = (if n < 10 then 1 else Suc (ndigits (n div 10)))"

declare ndigits.simps [simp del]

text \<open>\<open>appendInt\<close>: sign, then at least \<open>w\<close> digits.\<close>

definition fmt_int :: "nat \<Rightarrow> int \<Rightarrow> string" where
  "fmt_int w n =
     (if n < 0 then CHR ''-'' # digits (max w (ndigits (nat (- n)))) (- n)
      else digits (max w (ndigits (nat n))) n)"

text \<open>Clock fields of an instant: day number, hour, minute, second, millisecond.\<close>

definition day_of :: "time \<Rightarrow> int" where "day_of t = t div (86400 * second)"
definition hour_of :: "time \<Rightarrow> int" where "hour_of t = t div (3600 * second) mod 24"
definition minute_of :: "time \<Rightarrow> int" where "minute_of t = t div (60 * second) mod 60"
definition second_of :: "time \<Rightarrow> int" where "second_of t = t div second mod 60"
definition milli_of :: "time \<Rightarrow> int" where "milli_of t = t div milli mod 1000"

definition fmt_date :: "int \<times> int \<times> int \<Rightarrow> string" where
  "fmt_date ymd = (case ymd of (y, m, d) \<Rightarrow> fmt_int 4 y @ CHR ''-'' # digits 2 m @ CHR ''-'' # digits 2 d)"

text \<open>\<open>FormatTime\<close>: layout \<open>2006-01-02T15:04:05.000Z07:00\<close> in UTC; \<open>format_date\<close>: layout \<open>2006-01-02\<close>.\<close>

definition FormatTime :: "time \<Rightarrow> string" where
  "FormatTime t =
     fmt_date (date_of_days (day_of t)) @ CHR ''T'' # digits 2 (hour_of t) @ CHR '':'' # digits 2 (minute_of t) @
     CHR '':'' # digits 2 (second_of t) @ CHR ''.'' # digits 3 (milli_of t) @ ''Z''"

definition format_date :: "time \<Rightarrow> string" where
  "format_date t = fmt_date (date_of_days (day_of t))"

subsection \<open>Reading\<close>

definition is_digit :: "char \<Rightarrow> bool" where
  "is_digit c \<longleftrightarrow> CHR ''0'' \<le> c \<and> c \<le> CHR ''9''"

definition digit_val :: "char \<Rightarrow> int" where
  "digit_val c = int (of_char c) - 48"

fun lit :: "char \<Rightarrow> string \<Rightarrow> string option" where
  "lit c (x # xs) = (if x = c then Some xs else None)"
| "lit c [] = None"

text \<open>\<open>getnum\<close> with the \<open>fixed\<close> flag: exactly two digits, or one or two.\<close>

fun getnum2 :: "string \<Rightarrow> (int \<times> string) option" where
  "getnum2 (a # b # r) =
     (if is_digit a \<and> is_digit b then Some (10 * digit_val a + digit_val b, r) else None)"
| "getnum2 _ = None"

fun getnum :: "string \<Rightarrow> (int \<times> string) option" where
  "getnum (a # b # r) =
     (if is_digit a then
        if is_digit b then Some (10 * digit_val a + digit_val b, r) else Some (digit_val a, b # r)
      else None)"
| "getnum [a] = (if is_digit a then Some (digit_val a, []) else None)"
| "getnum [] = None"

fun getyear :: "string \<Rightarrow> (int \<times> string) option" where
  "getyear (a # b # c # d # r) =
     (if is_digit a \<and> is_digit b \<and> is_digit c \<and> is_digit d
      then Some (1000 * digit_val a + 100 * digit_val b + 10 * digit_val c + digit_val d, r) else None)"
| "getyear _ = None"

definition in_range :: "int \<Rightarrow> int \<Rightarrow> int \<Rightarrow> unit option" where
  "in_range lo hi n = (if lo \<le> n \<and> n \<le> hi then Some () else None)"

text \<open>Year, month and day of a layout that starts \<open>2006-01-02\<close>; the day is checked last.\<close>

definition getdate :: "string \<Rightarrow> ((int \<times> int \<times> int) \<times> string) option" where
  "getdate s = do {
     (y, s) \<leftarrow> getyear s; s \<leftarrow> lit CHR ''-'' s;
     (m, s) \<leftarrow> getnum2 s; in_range 1 12 m; s \<leftarrow> lit CHR ''-'' s;
     (d, s) \<leftarrow> getnum2 s;
     Some ((y, m, d), s) }"

text \<open>An optional fraction after the seconds, in nanoseconds; digits past the ninth are dropped.\<close>

definition dec_val :: "string \<Rightarrow> int" where
  "dec_val ds = foldl (\<lambda>n c. 10 * n + digit_val c) 0 ds"

definition getfrac :: "string \<Rightarrow> int \<times> string" where
  "getfrac s =
     (case s of
        p # c # r \<Rightarrow>
          if (p = CHR ''.'' \<or> p = CHR '','') \<and> is_digit c then
            (let ds = takeWhile is_digit (c # r); k = take 9 ds
             in (dec_val k * 10 ^ (9 - length k), dropWhile is_digit (c # r)))
          else (0, s)
      | _ \<Rightarrow> (0, s))"

text \<open>Zone: \<open>Z\<close>, or a signed \<open>hh:mm\<close> offset, in seconds.\<close>

definition getzone :: "string \<Rightarrow> (int \<times> string) option" where
  "getzone s =
     (case s of
        [] \<Rightarrow> None
      | c # r \<Rightarrow>
          if c = CHR ''Z'' then Some (0, r)
          else do {
            (hr, s) \<leftarrow> getnum2 r; s \<leftarrow> lit CHR '':'' s; (mm, s) \<leftarrow> getnum2 s;
            in_range 0 24 hr; in_range 0 60 mm;
            (if c = CHR ''+'' then Some ((hr * 60 + mm) * 60, s)
             else if c = CHR ''-'' then Some (- ((hr * 60 + mm) * 60), s) else None) })"

definition instant :: "int \<Rightarrow> int \<Rightarrow> int \<Rightarrow> int \<Rightarrow> int \<Rightarrow> int \<Rightarrow> int \<Rightarrow> time" where
  "instant y m d hh mm ss ns =
     (((days_of_date y m d * 24 + hh) * 60 + mm) * 60 + ss) * second + ns"

text \<open>\<open>time.Parse(time.RFC3339, s)\<close>\<close>

definition parse_rfc3339 :: "string \<Rightarrow> time option" where
  "parse_rfc3339 s = do {
     ((y, m, d), s) \<leftarrow> getdate s; s \<leftarrow> lit CHR ''T'' s;
     (hh, s) \<leftarrow> getnum s; in_range 0 23 hh; s \<leftarrow> lit CHR '':'' s;
     (mm, s) \<leftarrow> getnum2 s; in_range 0 59 mm; s \<leftarrow> lit CHR '':'' s;
     (ss, s) \<leftarrow> getnum2 s; in_range 0 59 ss;
     (let (ns, s) = getfrac s in do {
        (off, s) \<leftarrow> getzone s;
        (if s = [] \<and> 1 \<le> d \<and> d \<le> days_in y m
         then Some (instant y m d hh mm ss ns - off * second) else None) }) }"

text \<open>\<open>time.Parse("2006-01-02", s)\<close>: midnight UTC of the date.\<close>

definition parse_date :: "string \<Rightarrow> time option" where
  "parse_date s = do {
     ((y, m, d), s) \<leftarrow> getdate s;
     (if s = [] \<and> 1 \<le> d \<and> d \<le> days_in y m then Some (instant y m d 0 0 0 0) else None) }"

text \<open>\<open>CanonicalizeTime\<close>: re-render a timestamp in the canonical form.\<close>

definition CanonicalizeTime :: "string \<Rightarrow> string option" where
  "CanonicalizeTime s = map_option FormatTime (parse_rfc3339 s)"

subsection \<open>The canonical rendering reads back\<close>

text \<open>Instants whose year has four digits.\<close>

definition time_ok :: "time \<Rightarrow> bool" where
  "time_ok t \<longleftrightarrow> days_of_date 0 1 1 \<le> day_of t \<and> day_of t < days_of_date 10000 1 1"

lemma digit_is_digit: "0 \<le> n \<Longrightarrow> n < 10 \<Longrightarrow> is_digit (digit n)"
  by (simp add: is_digit_def digit_def less_eq_char_def)

lemma digit_val_digit: "0 \<le> n \<Longrightarrow> n < 10 \<Longrightarrow> digit_val (digit n) = n"
  by (simp add: digit_val_def digit_def)

lemma digit_less: "0 \<le> m \<Longrightarrow> m < n \<Longrightarrow> n < 10 \<Longrightarrow> digit m < digit n"
  by (simp add: digit_def less_char_def)

lemma length_digits [simp]: "length (digits w n) = w"
  by (induction w arbitrary: n) simp_all

lemma ndigits_le: "n < 10 ^ w \<Longrightarrow> 0 < w \<Longrightarrow> ndigits n \<le> w"
proof (induction w arbitrary: n)
  case (Suc w)
  show ?case
  proof (cases "n < 10")
    case False
    with Suc.prems have "n div 10 < 10 ^ w" "0 < w" by (auto intro!: gr0I)
    with Suc.IH False show ?thesis by (subst ndigits.simps) simp
  qed (simp add: ndigits.simps)
qed simp

lemma fmt_int_4: "0 \<le> y \<Longrightarrow> y < 10000 \<Longrightarrow> fmt_int 4 y = digits 4 y"
  using ndigits_le [of "nat y" 4] by (simp add: fmt_int_def max_def nat_less_iff)

lemma digits_2: "digits 2 n = [digit (n div 10 mod 10), digit (n mod 10)]"
  by (simp add: numeral_eq_Suc)

lemma digits_3: "digits 3 n = [digit (n div 10 div 10 mod 10), digit (n div 10 mod 10), digit (n mod 10)]"
  by (simp add: numeral_eq_Suc)

lemma digits_4: "digits 4 n = [digit (n div 10 div 10 div 10 mod 10), digit (n div 10 div 10 mod 10),
    digit (n div 10 mod 10), digit (n mod 10)]"
  by (simp add: numeral_eq_Suc)

lemma mod10: "0 \<le> (x::int) mod 10 \<and> x mod 10 < 10"
  by simp

lemmas digit_facts = digit_is_digit digit_val_digit mod10

lemma div_lt: "0 \<le> (n::int) \<Longrightarrow> n < 10 * k \<Longrightarrow> 0 \<le> n div 10 \<and> n div 10 < k"
  by (simp add: div_less_iff_less_mult pos_imp_zdiv_nonneg_iff mult.commute)

lemma recombine: "10 * (n div 10) + n mod 10 = (n::int)"
  by simp

lemma getnum2_digits:
  assumes "0 \<le> n" "n < 100"
  shows "getnum2 (digits 2 n @ r) = Some (n, r)"
proof -
  have "n div 10 mod 10 = n div 10" using div_lt [of n 10] assms by simp
  then show ?thesis by (simp add: digits_2 digit_facts)
qed

lemma getnum_digits:
  assumes "0 \<le> n" "n < 100"
  shows "getnum (digits 2 n @ r) = Some (n, r)"
proof -
  have "n div 10 mod 10 = n div 10" using div_lt [of n 10] assms by simp
  then show ?thesis by (simp add: digits_2 digit_facts)
qed

lemma getyear_digits:
  assumes "0 \<le> n" "n < 10000"
  shows "getyear (digits 4 n @ r) = Some (n, r)"
proof -
  define a b c where "a = n div 10" and "b = a div 10" and "c = b div 10"
  have "0 \<le> a \<and> a < 1000" using div_lt [of n 1000] assms by (simp add: a_def)
  then have "0 \<le> b \<and> b < 100" using div_lt [of a 100] by (simp add: b_def)
  then have "0 \<le> c \<and> c < 10" using div_lt [of b 10] by (simp add: c_def)
  then have "c mod 10 = c" by simp
  moreover have "1000 * c + 100 * (b mod 10) + 10 * (a mod 10) + n mod 10 = n"
    using recombine [of n] recombine [of a] recombine [of b] unfolding a_def b_def c_def by linarith
  ultimately show ?thesis
    by (simp add: digits_4 digit_facts flip: a_def b_def c_def)
qed

lemma getfrac_milli:
  assumes "0 \<le> n" "n < 1000"
  shows "getfrac (CHR ''.'' # digits 3 n @ CHR ''Z'' # r) = (n * milli, CHR ''Z'' # r)"
proof -
  define a b where "a = n div 10" and "b = a div 10"
  have "0 \<le> a \<and> a < 100" using div_lt [of n 100] assms by (simp add: a_def)
  then have "0 \<le> b \<and> b < 10" using div_lt [of a 10] by (simp add: b_def)
  then have "b mod 10 = b" by simp
  moreover have "100 * b + 10 * (a mod 10) + n mod 10 = n"
    using recombine [of n] recombine [of a] unfolding a_def b_def by linarith
  moreover have "\<not> is_digit CHR ''Z''" by (simp add: is_digit_def less_eq_char_def)
  ultimately show ?thesis
    by (simp add: getfrac_def digits_3 digit_facts dec_val_def milli_def Let_def flip: a_def b_def)
qed

lemma in_range_Some: "lo \<le> n \<Longrightarrow> n \<le> hi \<Longrightarrow> in_range lo hi n = Some ()"
  by (simp add: in_range_def)

lemma days_in_le: "1 \<le> m \<Longrightarrow> m \<le> 12 \<Longrightarrow> days_in y m \<le> 31"
  by (drule (1) month_cases) (auto simp: days_in_def days_before_month_def)

lemma valid_date_bounds: "valid_date y m d \<Longrightarrow> 1 \<le> m \<and> m \<le> 12 \<and> 1 \<le> d \<and> d \<le> 31"
  using days_in_le [of m y] by (auto simp: valid_date_def)

lemma getdate_fmt:
  assumes "valid_date y m d" "0 \<le> y" "y < 10000"
  shows "getdate (fmt_date (y, m, d) @ r) = Some ((y, m, d), r)"
  using valid_date_bounds [OF assms(1)] assms(2,3)
  by (simp add: getdate_def fmt_date_def fmt_int_4 getyear_digits getnum2_digits in_range_Some)

lemma time_ok_date:
  assumes "time_ok t" "date_of_days (day_of t) = (y, m, d)"
  shows "valid_date y m d \<and> days_of_date y m d = day_of t \<and> 0 \<le> y \<and> y < 10000"
proof -
  have v: "valid_date y m d" and e: "days_of_date y m d = day_of t"
    using days_of_date_of_days [OF assms(2)] by simp_all
  have b: "0 \<le> days_before_month (is_leap y) m + (d - 1)"
    "days_before_month (is_leap y) m + (d - 1) < (if is_leap y then 366 else 365)"
    using v days_before_month_year [of m "is_leap y"] by (auto simp: valid_date_def days_in_def)
  have "\<not> y < 0"
  proof
    assume "y < 0"
    then have "days_before_year (y + 1) \<le> days_before_year 0" by (rule days_before_year_mono)
    with b assms(1) e show False
      by (simp add: time_ok_def days_of_date_def days_before_year_Suc days_before_month_def split: if_splits)
  qed
  moreover have "\<not> 10000 \<le> y"
  proof
    assume "10000 \<le> y"
    then have "days_before_year 10000 \<le> days_before_year y"
      using days_before_year_mono [of 10000 y] days_before_year_Suc [of 10000]
      by (cases "y = 10000") (auto split: if_splits)
    with b(1) assms(1) e show False
      by (simp add: time_ok_def days_of_date_def days_before_month_def)
  qed
  ultimately show ?thesis using v e by simp
qed

lemma div_units:
  "x div second = x div milli div 1000"
  "x div (60 * second) = x div second div 60"
  "x div (3600 * second) = x div (60 * second) div 60"
  "x div (86400 * second) = x div (3600 * second) div 24"
proof -
  have "second = milli * 1000" by (simp add: second_def milli_def)
  then show "x div second = x div milli div 1000" by (metis zdiv_zmult2_eq zero_le_numeral)
  show "x div (60 * second) = x div second div 60"
    by (simp only: zdiv_zmult2_eq [of 60 x second] mult.commute [of 60 second])
  have "3600 * second = (60 * second) * 60" by simp
  then show "x div (3600 * second) = x div (60 * second) div 60"
    by (simp only: zdiv_zmult2_eq [of 60 x "60 * second"])
  have "86400 * second = (3600 * second) * 24" by simp
  then show "x div (86400 * second) = x div (3600 * second) div 24"
    by (simp only: zdiv_zmult2_eq [of 24 x "3600 * second"])
qed

text \<open>An instant is its calendar fields.\<close>

lemma clock_fields:
  "(((day_of t * 24 + hour_of t) * 60 + minute_of t) * 60 + second_of t) * second + milli_of t * milli =
     t div milli * milli"
proof -
  have "day_of t * 24 + hour_of t = t div (3600 * second)"
    unfolding day_of_def hour_of_def div_units(4) by (rule div_mult_mod_eq)
  moreover have "t div (3600 * second) * 60 + minute_of t = t div (60 * second)"
    unfolding minute_of_def div_units(3) by (rule div_mult_mod_eq)
  moreover have "t div (60 * second) * 60 + second_of t = t div second"
    unfolding second_of_def div_units(2) by (rule div_mult_mod_eq)
  moreover have "t div second * 1000 + milli_of t = t div milli"
    unfolding milli_of_def div_units(1) by (rule div_mult_mod_eq)
  moreover have "second = 1000 * milli" by (simp add: second_def milli_def)
  ultimately show ?thesis
    by (metis (no_types, opaque_lifting) distrib_right mult.assoc)
qed

lemma mod_range: "(0::int) < k \<Longrightarrow> 0 \<le> x mod k \<and> x mod k \<le> k - 1"
  using pos_mod_bound [of k x] pos_mod_sign [of k x] by simp

lemma field_ranges:
  "0 \<le> hour_of t \<and> hour_of t \<le> 23" "0 \<le> minute_of t \<and> minute_of t \<le> 59"
  "0 \<le> second_of t \<and> second_of t \<le> 59" "0 \<le> milli_of t \<and> milli_of t < 1000"
  unfolding hour_of_def minute_of_def second_of_def milli_of_def
  using mod_range [of 24] mod_range [of 60] mod_range [of 1000] by fastforce+

lemma parse_FormatTime:
  assumes "time_ok t"
  shows "parse_rfc3339 (FormatTime t) = Some (t div milli * milli)"
proof -
  obtain y m d where dd: "date_of_days (day_of t) = (y, m, d)" by (metis prod_cases3)
  note D = time_ok_date [OF assms dd]
  have "FormatTime t = fmt_date (y, m, d) @ CHR ''T'' # digits 2 (hour_of t) @ CHR '':'' # digits 2 (minute_of t) @
     CHR '':'' # digits 2 (second_of t) @ CHR ''.'' # digits 3 (milli_of t) @ ''Z''"
    by (simp add: FormatTime_def dd)
  moreover have "getfrac (CHR ''.'' # digits 3 (milli_of t) @ ''Z'') = (milli_of t * milli, ''Z'')"
    using getfrac_milli [of "milli_of t" "[]"] field_ranges(4) [of t] by simp
  moreover have "1 \<le> d \<and> d \<le> days_in y m" using D by (simp add: valid_date_def)
  moreover have "instant y m d (hour_of t) (minute_of t) (second_of t) (milli_of t * milli) = t div milli * milli"
    using clock_fields [of t] D by (simp add: instant_def)
  ultimately show ?thesis
    using D field_ranges(1-3) [of t]
    by (simp add: parse_rfc3339_def getdate_fmt getnum_digits getnum2_digits in_range_Some getzone_def)
qed

text \<open>The second reading of a canonical timestamp changes nothing.\<close>

lemma trunc_milli: "t div milli * milli div milli = t div milli"
  by (simp add: milli_def)

lemma day_of_trunc: "day_of (t div milli * milli) = day_of t"
  by (simp only: day_of_def div_units trunc_milli)

lemma fields_trunc:
  "hour_of (t div milli * milli) = hour_of t" "minute_of (t div milli * milli) = minute_of t"
  "second_of (t div milli * milli) = second_of t" "milli_of (t div milli * milli) = milli_of t"
  by (simp_all only: hour_of_def minute_of_def second_of_def milli_of_def div_units trunc_milli)

lemma FormatTime_trunc: "FormatTime (t div milli * milli) = FormatTime t"
  by (simp add: FormatTime_def day_of_trunc fields_trunc)

lemma CanonicalizeTime_FormatTime: "time_ok t \<Longrightarrow> CanonicalizeTime (FormatTime t) = Some (FormatTime t)"
  by (simp add: CanonicalizeTime_def parse_FormatTime FormatTime_trunc)

subsection \<open>Text order is time order\<close>

lemma lex_append_less: "length a = length b \<Longrightarrow> a < b \<Longrightarrow> a @ x < b @ (y :: 'a :: linorder list)"
  unfolding list_less_def by (rule lexord_sufI) simp_all

lemma lex_append_same: "a @ x < a @ y \<longleftrightarrow> x < (y :: 'a :: linorder list)"
  by (induction a) simp_all

lemma lex_step:
  "length a = length b \<Longrightarrow> a < b \<or> a = b \<and> x < y \<Longrightarrow> a @ c # x < b @ c # (y :: 'a :: linorder list)"
  by (auto simp: lex_append_same intro: lex_append_less)

lemma div_mod_lex: "(0::int) < k \<Longrightarrow> a < b \<Longrightarrow> a div k < b div k \<or> a div k = b div k \<and> a mod k < b mod k"
  by (metis div_mult_mod_eq add_less_cancel_left linorder_less_linear zdiv_mono1 less_imp_le not_le)

lemma digits_less:
  "0 \<le> n \<Longrightarrow> n < m \<Longrightarrow> m < 10 ^ w \<Longrightarrow> digits w n < digits w m"
proof (induction w arbitrary: n m)
  case (Suc w)
  have "m div 10 < 10 ^ w" using Suc.prems div_lt [of m "10 ^ w"] by simp
  moreover have "0 \<le> n div 10" using Suc.prems div_lt [of n "10 ^ w"] by simp
  moreover from Suc.prems(2) have "n div 10 < m div 10 \<or> n div 10 = m div 10 \<and> n mod 10 < m mod 10"
    by (rule div_mod_lex [rotated]) simp
  ultimately have "digits w (n div 10) < digits w (m div 10) \<or>
      digits w (n div 10) = digits w (m div 10) \<and> digit (n mod 10) < digit (m mod 10)"
    using Suc.IH [of "n div 10" "m div 10"] by (auto intro: digit_less)
  then show ?case by (auto simp: lex_append_same intro: lex_append_less)
qed simp

lemma digits_lex: "0 \<le> n \<Longrightarrow> m < 10 ^ w \<Longrightarrow> n < m \<or> n = m \<and> x < y \<Longrightarrow>
    digits w n @ c # x < digits w m @ c # y"
  using digits_less [of n m w] by (intro lex_step) auto

lemma days_before_month_mono:
  "1 \<le> m \<Longrightarrow> m < m' \<Longrightarrow> m' \<le> 12 \<Longrightarrow> days_before_month lp (m + 1) \<le> days_before_month lp m'"
  using month_cases [of m] month_cases [of m'] by (auto simp: days_before_month_def)

lemma days_of_date_lex:
  assumes v: "valid_date y m d" "valid_date y' m' d'" and lt: "days_of_date y m d < days_of_date y' m' d'"
  shows "y < y' \<or> y = y' \<and> (m < m' \<or> m = m' \<and> d < d')"
proof (rule ccontr)
  assume n: "\<not> ?thesis"
  have b: "days_before_month (is_leap y') m' + (d' - 1) < (if is_leap y' then 366 else 365)"
    "0 \<le> days_before_month (is_leap y) m + (d - 1)"
    using v days_before_month_year [of m' "is_leap y'"] days_before_month_year [of m "is_leap y"]
    by (auto simp: valid_date_def days_in_def)
  from n consider "y' < y" | "y' = y" "m' < m" | "y' = y" "m' = m" "d' \<le> d" by fastforce
  then show False
  proof cases
    case 1
    from days_before_year_mono [OF this] b lt show False
      by (simp add: days_of_date_def days_before_year_Suc)
  next
    case 2
    with v days_before_month_mono [of m' m "is_leap y"] lt show False
      by (simp add: days_of_date_def valid_date_def days_in_def)
  next
    case 3
    with lt show False by (simp add: days_of_date_def)
  qed
qed

lemma fmt_date_less:
  assumes "time_ok t" "time_ok u" "day_of t < day_of u"
  shows "fmt_date (date_of_days (day_of t)) < fmt_date (date_of_days (day_of u))"
proof -
  obtain y m d y' m' d' where e: "date_of_days (day_of t) = (y, m, d)" "date_of_days (day_of u) = (y', m', d')"
    by (metis prod_cases3)
  note D = time_ok_date [OF assms(1) e(1)] and D' = time_ok_date [OF assms(2) e(2)]
  have "y < y' \<or> y = y' \<and> (m < m' \<or> m = m' \<and> d < d')"
    using days_of_date_lex [of y m d y' m' d'] D D' assms(3) by simp
  moreover have "d < d' \<Longrightarrow> digits 2 d < digits 2 d'" using valid_date_bounds D D' by (intro digits_less) force+
  ultimately show ?thesis
    using valid_date_bounds [of y m d] valid_date_bounds [of y' m' d'] D D'
    by (auto simp: e fmt_date_def fmt_int_4 intro!: digits_lex)
qed

lemma length_fmt_date: "time_ok t \<Longrightarrow> length (fmt_date (date_of_days (day_of t))) = 10"
  by (cases "date_of_days (day_of t)") (auto simp: fmt_date_def fmt_int_4 dest!: time_ok_date)

lemma FormatTime_less:
  assumes ok: "time_ok t" "time_ok u" and lt: "t div milli < u div milli"
  shows "FormatTime t < FormatTime u"
proof -
  have 1: "t div second < u div second \<or> t div second = u div second \<and> milli_of t < milli_of u"
    using div_mod_lex [of 1000 "t div milli" "u div milli"] lt by (simp add: div_units(1) milli_of_def)
  have "t div second < u div second \<Longrightarrow> t div (60 * second) < u div (60 * second) \<or>
      t div (60 * second) = u div (60 * second) \<and> second_of t < second_of u"
    unfolding second_of_def div_units(2) by (rule div_mod_lex) simp_all
  moreover have "t div (60 * second) < u div (60 * second) \<Longrightarrow> t div (3600 * second) < u div (3600 * second) \<or>
      t div (3600 * second) = u div (3600 * second) \<and> minute_of t < minute_of u"
    unfolding minute_of_def div_units(3) by (rule div_mod_lex) simp_all
  moreover have "t div (3600 * second) < u div (3600 * second) \<Longrightarrow> day_of t < day_of u \<or>
      day_of t = day_of u \<and> hour_of t < hour_of u"
    unfolding day_of_def hour_of_def div_units(4) by (rule div_mod_lex) simp_all
  moreover have "t div (60 * second) = u div (60 * second) \<Longrightarrow> minute_of t = minute_of u \<and>
      t div (3600 * second) = u div (3600 * second)" "t div second = u div second \<Longrightarrow>
      second_of t = second_of u \<and> t div (60 * second) = u div (60 * second)"
    "t div (3600 * second) = u div (3600 * second) \<Longrightarrow> hour_of t = hour_of u \<and> day_of t = day_of u"
    unfolding second_of_def minute_of_def hour_of_def day_of_def div_units(2-4) by simp_all
  ultimately have 3: "day_of t < day_of u \<or> day_of t = day_of u \<and> (hour_of t < hour_of u \<or> hour_of t = hour_of u \<and>
     (minute_of t < minute_of u \<or> minute_of t = minute_of u \<and> (second_of t < second_of u \<or>
      second_of t = second_of u \<and> milli_of t < milli_of u)))"
    using 1 by blast
  have "milli_of t < milli_of u \<Longrightarrow> digits 3 (milli_of t) @ ''Z'' < digits 3 (milli_of u) @ ''Z''"
    using field_ranges(4) by (intro lex_append_less digits_less) simp_all
  then show ?thesis
    using 3 fmt_date_less [OF ok] length_fmt_date [OF ok(1)] length_fmt_date [OF ok(2)]
      field_ranges [of t] field_ranges [of u]
    unfolding FormatTime_def by (intro lex_step) (auto intro!: digits_lex)
qed

text \<open>
  Comparing two canonical renderings as text, as the aged-invite sweep and the listings do,
  compares the instants at millisecond precision.
\<close>

lemma FormatTime_le_iff:
  assumes "time_ok t" "time_ok u"
  shows "FormatTime t \<le> FormatTime u \<longleftrightarrow> t div milli \<le> u div milli"
proof
  assume "FormatTime t \<le> FormatTime u"
  with FormatTime_less [OF assms(2,1)] show "t div milli \<le> u div milli" by (meson not_le)
next
  assume le: "t div milli \<le> u div milli"
  show "FormatTime t \<le> FormatTime u"
  proof (cases "t div milli = u div milli")
    case True
    then show ?thesis by (metis FormatTime_trunc order_refl)
  next
    case False
    with le FormatTime_less [OF assms] show ?thesis by simp
  qed
qed

lemma le_div_iff: "(0::int) < k \<Longrightarrow> a \<le> u div k \<longleftrightarrow> a * k \<le> u"
proof
  assume k: "0 < k" and "a \<le> u div k"
  then have "a * k \<le> u div k * k" by (simp add: mult_right_mono)
  also have "\<dots> \<le> u" using div_bounds [OF k, of u] by (simp add: mult.commute)
  finally show "a * k \<le> u" .
next
  assume k: "0 < k" and le: "a * k \<le> u"
  then have "a * k div k \<le> u div k" by (intro zdiv_mono1)
  with k show "a \<le> u div k" by simp
qed

lemma trunc_le_iff: "e mod milli = 0 \<Longrightarrow> e div milli \<le> u div milli \<longleftrightarrow> e \<le> u"
proof -
  assume "e mod milli = 0"
  then have "e div milli * milli = e" by (metis add.right_neutral div_mult_mod_eq)
  moreover have "0 < milli" by (simp add: milli_def)
  ultimately show ?thesis by (simp add: le_div_iff)
qed

subsection \<open>Canonical text denotes an instant with a four-digit year\<close>

lemma digits_all: "list_all is_digit (digits w n)"
  by (induction w arbitrary: n) (simp_all add: digit_facts)

lemma ndigits_ge: "10 ^ k \<le> n \<Longrightarrow> k < ndigits n"
proof (induction k arbitrary: n)
  case 0
  then show ?case by (subst ndigits.simps) simp
next
  case (Suc k)
  then have "10 ^ k \<le> n div 10" by (simp add: less_eq_div_iff_mult_less_eq)
  moreover have "\<not> n < 10"
  proof -
    have "(10::nat) \<le> 10 * 10 ^ k" using one_le_power [of "10::nat" k] by simp
    also have "\<dots> \<le> n" using Suc.prems by simp
    finally show ?thesis by simp
  qed
  ultimately show ?case using Suc.IH [of "n div 10"] by (subst ndigits.simps) simp
qed

text \<open>A date whose year does not have four digits does not read back.\<close>

lemma getyear_fmt_int:
  assumes "getyear (fmt_int 4 y @ CHR ''-'' # r) = Some (n, c # r')" "c = CHR ''-''"
  shows "0 \<le> y \<and> y < 10000"
proof (rule ccontr)
  assume n: "\<not> ?thesis"
  show False
  proof (cases "y < 0")
    case True
    have "\<not> is_digit CHR ''-''" by (simp add: is_digit_def less_eq_char_def)
    with True assms(1) show False
      by (cases "digits (max 4 (ndigits (nat (- y)))) (- y) @ CHR ''-'' # r" rule: remdups_adj.cases)
        (auto simp: fmt_int_def elim!: getyear.elims)
  next
    case False
    define ds where "ds = digits (max 4 (ndigits (nat y))) y"
    have "5 \<le> length ds" "list_all is_digit ds"
      using n False ndigits_ge [of 4 "nat y"] by (auto simp: ds_def digits_all le_nat_iff)
    then obtain a b c' d e ds' where ds: "ds = a # b # c' # d # e # ds'" "is_digit e"
      by (auto simp: numeral_eq_Suc Suc_le_length_iff)
    have "fmt_int 4 y = ds" using False by (simp add: fmt_int_def ds_def)
    with assms ds have "e = CHR ''-''" by (auto split: if_splits)
    with ds(2) show False by (simp add: is_digit_def less_eq_char_def)
  qed
qed

lemma time_okI:
  assumes "date_of_days (day_of t) = (y, m, d)" "0 \<le> y" "y < 10000"
  shows "time_ok t"
proof -
  have v: "valid_date y m d" and e: "days_of_date y m d = day_of t"
    using days_of_date_of_days [OF assms(1)] by simp_all
  have v0: "valid_date 0 1 1" "valid_date 10000 1 1" by (simp_all add: valid_date_def days_in_def days_before_month_def)
  have "1 \<le> m" "1 \<le> d" using valid_date_bounds [OF v] by simp_all
  then have "\<not> days_of_date y m d < days_of_date 0 1 1" using days_of_date_lex [OF v v0(1)] assms(2) by auto
  moreover have "\<not> days_of_date 10000 1 1 < days_of_date y m d" using days_of_date_lex [OF v0(2) v] assms(3) by auto
  moreover have "days_of_date 10000 1 1 \<noteq> days_of_date y m d"
    using date_of_days_of_date [OF v] date_of_days_of_date [OF v0(2)] assms(3) by force
  ultimately show ?thesis by (simp add: time_ok_def e)
qed

lemma canonical_time:
  assumes "CanonicalizeTime s = Some s"
  shows "\<exists>e. time_ok e \<and> s = FormatTime e"
proof -
  obtain e where e: "parse_rfc3339 s = Some e" "s = FormatTime e" using assms by (auto simp: CanonicalizeTime_def)
  obtain y m d where dd: "date_of_days (day_of e) = (y, m, d)" by (metis prod_cases3)
  obtain r where s: "s = fmt_int 4 y @ CHR ''-'' # r" using e(2) dd by (simp add: FormatTime_def fmt_date_def)
  from e(1) obtain n s1 s2 where "getyear s = Some (n, s1)" "lit CHR ''-'' s1 = Some s2"
    by (auto simp: parse_rfc3339_def getdate_def bind_eq_Some_conv)
  then have "getyear (fmt_int 4 y @ CHR ''-'' # r) = Some (n, CHR ''-'' # s2)"
    by (cases s1) (auto simp: s split: if_splits)
  from getyear_fmt_int [OF this refl] have "time_ok e" using time_okI [OF dd] by blast
  with e(2) show ?thesis by blast
qed

end
