(* ===== verification/Write_Through.thy ===== *)
theory Write_Through
  imports Prelude "HOL-Library.Sublist"
begin

text \<open>
  The contract every store keeps with its database, as two interfaces. A store that writes
  through commits each change before its maps show it, so that at any moment a restart, which
  throws the maps away and loads them from the tables, shows readers what they saw before.
  A store that refines a specification moves, with each operation, as the specification says
  or not at all. The stores' theories interpret both on their own operations.
\<close>

datatype 'op event = Do 'op | Restart

fun run_event :: "('op \<Rightarrow> 's \<Rightarrow> 's) \<Rightarrow> ('s \<Rightarrow> 's) \<Rightarrow> 'op event \<Rightarrow> 's \<Rightarrow> 's" where
  "run_event step reload (Do op) s = step op s"
| "run_event step reload Restart s = reload s"

fun event_ops :: "'op event list \<Rightarrow> 'op list" where
  "event_ops [] = []"
| "event_ops (Do op # es) = op # event_ops es"
| "event_ops (Restart # es) = event_ops es"

locale write_through =
  fixes step :: "'op \<Rightarrow> 's \<Rightarrow> 's"
    and reload :: "'s \<Rightarrow> 's"
    and inv :: "'s \<Rightarrow> bool"
    and view :: "'s \<Rightarrow> 'v"
  assumes step_inv: "inv s \<Longrightarrow> inv (step op s)"
    and reload_inv: "inv s \<Longrightarrow> inv (reload s)"
    and reload_view: "inv s \<Longrightarrow> view (reload s) = view s"
begin

lemma event_inv: "inv s \<Longrightarrow> inv (run_event step reload e s)"
  by (cases e) (simp_all add: step_inv reload_inv)

lemma run_inv: "inv s \<Longrightarrow> inv (fold (run_event step reload) es s)"
  by (induction es arbitrary: s) (simp_all add: event_inv)

lemma restart_view:
  "inv s \<Longrightarrow> view (reload (fold (run_event step reload) es s)) = view (fold (run_event step reload) es s)"
  by (rule reload_view) (rule run_inv)

text \<open>A condition that restarts do not create and that holds now was brought about by some operation.\<close>

lemma first_cause:
  assumes "inv s" "\<not> P s" "P (fold (run_event step reload) es s)"
    and op: "\<And>s op. inv s \<Longrightarrow> \<not> P s \<Longrightarrow> P (step op s) \<Longrightarrow> Q op s"
    and re: "\<And>s. inv s \<Longrightarrow> P (reload s) \<Longrightarrow> P s"
  shows "\<exists>pre op post. es = pre @ Do op # post \<and> Q op (fold (run_event step reload) pre s)"
  using assms(3)
proof (induction es rule: rev_induct)
  case Nil
  with assms(2) show ?case by simp
next
  case (snoc e es)
  let ?s = "fold (run_event step reload) es s"
  show ?case
  proof (cases "P ?s")
    case True
    from snoc.IH [OF True] obtain pre op post
      where "es = pre @ Do op # post" "Q op (fold (run_event step reload) pre s)" by blast
    then have "es @ [e] = pre @ Do op # (post @ [e]) \<and> Q op (fold (run_event step reload) pre s)" by simp
    then show ?thesis by blast
  next
    case False
    have inv: "inv ?s" by (rule run_inv [OF assms(1)])
    from snoc.prems re [OF inv] False obtain op where e: "e = Do op" by (cases e) auto
    with snoc.prems have "P (step op ?s)" by simp
    from op [OF inv False this] e show ?thesis by blast
  qed
qed

end

locale refining_store = write_through step reload inv view
  for step :: "'op \<Rightarrow> 's \<Rightarrow> 's" and reload :: "'s \<Rightarrow> 's" and inv :: "'s \<Rightarrow> bool" and view :: "'s \<Rightarrow> 'v" +
  fixes spec :: "'op \<Rightarrow> 'v \<Rightarrow> 'v"
    and healthy :: "'op \<Rightarrow> bool"
  assumes step_refines: "inv s \<Longrightarrow> view (step op s) = view s \<or> view (step op s) = spec op (view s)"
    and step_healthy: "inv s \<Longrightarrow> healthy op \<Longrightarrow> view (step op s) = spec op (view s)"
begin

text \<open>
  Under any faults and restarts, what readers see is the specification run over some of the
  operations, in their order; without faults, over all of them.
\<close>

lemma run_refines:
  assumes "inv s"
  shows "\<exists>ops. subseq ops (event_ops es) \<and>
           view (fold (run_event step reload) es s) = fold spec ops (view s)"
  using assms
proof (induction es arbitrary: s)
  case (Cons e es)
  from Cons.IH [OF event_inv [OF Cons.prems, of e]] obtain ops
    where ops: "subseq ops (event_ops es)"
      and v: "view (fold (run_event step reload) es (run_event step reload e s)) =
        fold spec ops (view (run_event step reload e s))"
    by blast
  show ?case
  proof (cases e)
    case (Do op)
    from step_refines [OF Cons.prems, of op] show ?thesis
    proof
      assume "view (step op s) = view s"
      with v ops Do show ?thesis by (metis event_ops.simps(2) fold_simps(2) run_event.simps(1) list_emb_Cons)
    next
      assume "view (step op s) = spec op (view s)"
      with v have "view (fold (run_event step reload) (e # es) s) = fold spec (op # ops) (view s)"
        by (simp add: Do)
      moreover have "subseq (op # ops) (event_ops (e # es))" using ops by (simp add: Do)
      ultimately show ?thesis by blast
    qed
  next
    case Restart
    with v ops show ?thesis by (auto simp: reload_view [OF Cons.prems])
  qed
qed auto

lemma run_healthy:
  assumes "inv s" "list_all healthy (event_ops es)"
  shows "view (fold (run_event step reload) es s) = fold spec (event_ops es) (view s)"
  using assms
proof (induction es arbitrary: s)
  case (Cons e es)
  then show ?case
    using step_inv reload_inv step_healthy reload_view by (cases e) simp_all
qed simp

end

end
