(* ===== verification/Members.thy ===== *)
theory Members
  imports Go_Text Store_Time Write_Through
begin

text \<open>
  The member registry (\<open>internal/members\<close>): a record per human identity, found by its
  immutable id and by its email, written through to the \<open>members\<close> table. The record, the
  table row, every operation of \<open>store.go\<close> with its error branches, and the invariant that
  ties the two indexes, the lifecycle fields and the table together.
\<close>

subsection \<open>Records and errors\<close>

record member =
  m_ID :: string
  m_Email :: string
  m_DisplayName :: string
  m_Status :: string
  m_DisabledFrom :: string
  m_CreatedAt :: string
  m_SessionExpiredAt :: string

datatype member_error = ErrMemberNotFound string | ErrDuplicateEmail string
  | ErrInvalidEmail string | ErrInvalidStatus string | ErrMemberRand
  | ErrMemberPersist persist_error | ErrMemberLoad

definition StatusRegistered :: string where "StatusRegistered = ''registered''"
definition StatusInvited :: string where "StatusInvited = ''invited''"
definition StatusActive :: string where "StatusActive = ''active''"
definition StatusDisabled :: string where "StatusDisabled = ''disabled''"

lemmas status_defs = StatusRegistered_def StatusInvited_def StatusActive_def StatusDisabled_def

definition validStatus :: "string \<Rightarrow> bool" where
  "validStatus s \<longleftrightarrow> s \<in> {StatusRegistered, StatusInvited, StatusActive, StatusDisabled}"

definition restoreStatus :: "member \<Rightarrow> string" where
  "restoreStatus m = (if m_DisabledFrom m = [] then StatusRegistered else m_DisabledFrom m)"

definition allowedStatusTransition :: "member \<Rightarrow> string \<Rightarrow> bool" where
  "allowedStatusTransition m to =
     (if m_Status m = to then True
      else if to = StatusDisabled then True
      else if m_Status m = StatusDisabled then to = restoreStatus m
      else False)"

subsection \<open>The members table\<close>

record member_row =
  mr_id :: string
  mr_email :: string
  mr_display_name :: string
  mr_status :: string
  mr_disabled_from :: "string option"
  mr_created_at :: string
  mr_session_expired_at :: "string option"

definition nullIfEmpty :: "string \<Rightarrow> string option" where
  "nullIfEmpty v = (if v = [] then None else Some v)"

definition null_string :: "string option \<Rightarrow> string" where
  "null_string v = (case v of None \<Rightarrow> [] | Some x \<Rightarrow> x)"

definition row_of_member :: "member \<Rightarrow> member_row" where
  "row_of_member m = \<lparr>mr_id = m_ID m, mr_email = m_Email m, mr_display_name = m_DisplayName m,
     mr_status = m_Status m, mr_disabled_from = nullIfEmpty (m_DisabledFrom m),
     mr_created_at = m_CreatedAt m, mr_session_expired_at = nullIfEmpty (m_SessionExpiredAt m)\<rparr>"

definition member_of_row :: "member_row \<Rightarrow> member" where
  "member_of_row r = \<lparr>m_ID = mr_id r, m_Email = mr_email r, m_DisplayName = mr_display_name r,
     m_Status = mr_status r, m_DisabledFrom = null_string (mr_disabled_from r),
     m_CreatedAt = mr_created_at r, m_SessionExpiredAt = null_string (mr_session_expired_at r)\<rparr>"

text \<open>The CHECK constraints of the table.\<close>

definition members_check :: "member_row \<Rightarrow> bool" where
  "members_check r \<longleftrightarrow> length (mr_id r) = 36 \<and> is_lower (mr_id r) \<and>
     mr_status r \<in> {StatusRegistered, StatusInvited, StatusActive, StatusDisabled} \<and>
     (case mr_disabled_from r of None \<Rightarrow> True
      | Some d \<Rightarrow> mr_status r = StatusDisabled \<and> d \<in> {StatusRegistered, StatusInvited, StatusActive})"

definition members_insert :: "member_row \<Rightarrow> member_row list \<Rightarrow> sql_error + member_row list" where
  "members_insert r t =
     (if \<not> members_check r then Inl SqlCheck
      else if list_ex (\<lambda>x. mr_id x = mr_id r) t then Inl SqlPrimaryKey
      else if list_ex (\<lambda>x. mr_email x = mr_email r) t then Inl SqlUnique
      else Inr (t @ [r]))"

text \<open>The UPDATE of \<open>commitUpdate\<close>: the email column is not in its SET list.\<close>

definition members_set :: "member_row \<Rightarrow> member_row \<Rightarrow> member_row" where
  "members_set n r = r\<lparr>mr_display_name := mr_display_name n, mr_status := mr_status n,
     mr_disabled_from := mr_disabled_from n, mr_session_expired_at := mr_session_expired_at n\<rparr>"

definition members_update :: "member_row \<Rightarrow> member_row list \<Rightarrow> sql_error + member_row list" where
  "members_update n t =
     (if list_ex (\<lambda>r. mr_id r = mr_id n \<and> \<not> members_check (members_set n r)) t then Inl SqlCheck
      else expect_rows 1 (sql_update (\<lambda>r. mr_id r = mr_id n) (members_set n) t))"

definition members_delete :: "string \<Rightarrow> member_row list \<Rightarrow> sql_error + member_row list" where
  "members_delete i t = expect_rows 1 (sql_delete (\<lambda>r. mr_id r = i) t)"

subsection \<open>The store\<close>

record members_store =
  ms_cells :: "member list"
  ms_byID :: "(string, nat) gomap"
  ms_byEmail :: "(string, nat) gomap"
  ms_db :: "member_row list option"

type_synonym 'a members_result = "(member_error + 'a) \<times> members_store"

definition members_NewStore :: members_store where
  "members_NewStore = \<lparr>ms_cells = [], ms_byID = [], ms_byEmail = [], ms_db = None\<rparr>"

definition members_persist :: "tx_fault \<Rightarrow> (member_row list \<Rightarrow> sql_error + member_row list) \<Rightarrow>
    members_store \<Rightarrow> member_error + member_row list option" where
  "members_persist f fn s =
     (case run_tx f fn (ms_db s) of Inl e \<Rightarrow> Inl (ErrMemberPersist e) | Inr db \<Rightarrow> Inr db)"

text \<open>
  Loading reads the whole table; a query or scan error (\<open>None\<close>) leaves the store as it was.
\<close>

definition members_LoadFromDB :: "member_row list option \<Rightarrow> members_store \<Rightarrow> unit members_result" where
  "members_LoadFromDB q s =
     (case q of
        None \<Rightarrow> (Inl ErrMemberLoad, s)
      | Some t \<Rightarrow>
          (case dual_load m_ID m_Email (map member_of_row t) of (h, i1, i2) \<Rightarrow>
             (Inr (), s\<lparr>ms_cells := h, ms_byID := i1, ms_byEmail := i2, ms_db := Some t\<rparr>)))"

definition members_Add :: "tx_fault \<Rightarrow> entropy \<Rightarrow> time \<Rightarrow> string \<Rightarrow> string \<Rightarrow> members_store \<Rightarrow> member members_result" where
  "members_Add f rnd now email displayName s =
     (if validateMemberEmail email \<noteq> None then (Inl (ErrInvalidEmail email), s)
      else if map_of (ms_byEmail s) email \<noteq> None then (Inl (ErrDuplicateEmail email), s)
      else case newMemberID rnd of
        None \<Rightarrow> (Inl ErrMemberRand, s)
      | Some i \<Rightarrow>
          (let m = \<lparr>m_ID = i, m_Email = email, m_DisplayName = displayName, m_Status = StatusRegistered,
                    m_DisabledFrom = [], m_CreatedAt = FormatTime now, m_SessionExpiredAt = []\<rparr>
           in case members_persist f (members_insert (row_of_member m)) s of
             Inl e \<Rightarrow> (Inl e, s)
           | Inr db \<Rightarrow>
               (Inr m, s\<lparr>ms_cells := ms_cells s @ [m],
                         ms_byID := AList.update i (length (ms_cells s)) (ms_byID s),
                         ms_byEmail := AList.update email (length (ms_cells s)) (ms_byEmail s),
                         ms_db := db\<rparr>)))"

definition members_Get :: "string \<Rightarrow> members_store \<Rightarrow> member_error + member" where
  "members_Get i s =
     (case map_of (ms_byID s) i of None \<Rightarrow> Inl (ErrMemberNotFound i) | Some p \<Rightarrow> Inr (ms_cells s ! p))"

definition StatusByEmail :: "string \<Rightarrow> members_store \<Rightarrow> string \<times> bool" where
  "StatusByEmail email s =
     (case map_of (ms_byEmail s) email of None \<Rightarrow> ([], False) | Some p \<Rightarrow> (m_Status (ms_cells s ! p), True))"

definition LookupByEmail :: "string \<Rightarrow> members_store \<Rightarrow> string \<times> string \<times> bool" where
  "LookupByEmail email s =
     (case map_of (ms_byEmail s) email of
        None \<Rightarrow> ([], [], False)
      | Some p \<Rightarrow> (m_ID (ms_cells s ! p), m_Status (ms_cells s ! p), True))"

definition GetByEmail :: "string \<Rightarrow> members_store \<Rightarrow> member_error + member" where
  "GetByEmail email s =
     (case map_of (ms_byEmail s) email of
        None \<Rightarrow> Inl (ErrMemberNotFound email) | Some p \<Rightarrow> Inr (ms_cells s ! p))"

text \<open>Sorted by creation time, then id.\<close>

definition members_List :: "members_store \<Rightarrow> member list" where
  "members_List s =
     sort_key m_CreatedAt (sort_key m_ID (map (\<lambda>(_, p). ms_cells s ! p) (ms_byID s)))"

text \<open>Commit the computed row, then overwrite the shared record.\<close>

definition commitUpdate :: "tx_fault \<Rightarrow> nat \<Rightarrow> member \<Rightarrow> members_store \<Rightarrow> unit members_result" where
  "commitUpdate f p nxt s =
     (case members_persist f (members_update (row_of_member nxt)) s of
        Inl e \<Rightarrow> (Inl e, s)
      | Inr db \<Rightarrow> (Inr (), s\<lparr>ms_cells := (ms_cells s)[p := nxt], ms_db := db\<rparr>))"

definition members_Update :: "tx_fault \<Rightarrow> string \<Rightarrow> string option \<Rightarrow> string option \<Rightarrow> members_store \<Rightarrow> member members_result" where
  "members_Update f i displayName status s =
     (if (case status of None \<Rightarrow> False | Some st \<Rightarrow> \<not> validStatus st)
      then (Inl (ErrInvalidStatus (the status)), s)
      else case map_of (ms_byID s) i of
        None \<Rightarrow> (Inl (ErrMemberNotFound i), s)
      | Some p \<Rightarrow>
          (let m = ms_cells s ! p in
           if (case status of None \<Rightarrow> False | Some st \<Rightarrow> \<not> allowedStatusTransition m st)
           then (Inl (ErrInvalidStatus (the status)), s)
           else
             (let nxt = (case displayName of None \<Rightarrow> m | Some d \<Rightarrow> m\<lparr>m_DisplayName := d\<rparr>);
                  nxt = (case status of None \<Rightarrow> nxt
                    | Some st \<Rightarrow>
                        if st \<noteq> m_Status m then
                          nxt\<lparr>m_DisabledFrom := (if st = StatusDisabled then m_Status m else []), m_Status := st\<rparr>
                        else nxt)
              in case commitUpdate f p nxt s of
                (Inl e, s') \<Rightarrow> (Inl e, s')
              | (Inr _, s') \<Rightarrow> (Inr (ms_cells s' ! p), s'))))"

definition Activate :: "tx_fault \<Rightarrow> string \<Rightarrow> members_store \<Rightarrow> unit members_result" where
  "Activate f i s =
     (case map_of (ms_byID s) i of
        None \<Rightarrow> (Inl (ErrMemberNotFound i), s)
      | Some p \<Rightarrow>
          (let m = ms_cells s ! p in
           if m_Status m = StatusActive then (Inr (), s)
           else if m_Status m \<noteq> StatusInvited then (Inl (ErrInvalidStatus StatusActive), s)
           else commitUpdate f p (m\<lparr>m_Status := StatusActive\<rparr>) s))"

definition SetSessionExpired :: "tx_fault \<Rightarrow> time \<Rightarrow> string \<Rightarrow> members_store \<Rightarrow> unit members_result" where
  "SetSessionExpired f now i s =
     (case map_of (ms_byID s) i of
        None \<Rightarrow> (Inl (ErrMemberNotFound i), s)
      | Some p \<Rightarrow> commitUpdate f p ((ms_cells s ! p)\<lparr>m_SessionExpiredAt := FormatTime now\<rparr>) s)"

definition Reinvite :: "tx_fault \<Rightarrow> string \<Rightarrow> members_store \<Rightarrow> unit members_result" where
  "Reinvite f i s =
     (case map_of (ms_byID s) i of
        None \<Rightarrow> (Inl (ErrMemberNotFound i), s)
      | Some p \<Rightarrow>
          (let m = ms_cells s ! p in
           if m_Status m = StatusDisabled then (Inl (ErrInvalidStatus StatusInvited), s)
           else commitUpdate f p (m\<lparr>m_Status := StatusInvited, m_SessionExpiredAt := []\<rparr>) s))"

definition MarkInvited :: "tx_fault \<Rightarrow> string \<Rightarrow> members_store \<Rightarrow> unit members_result" where
  "MarkInvited f i s =
     (case map_of (ms_byID s) i of
        None \<Rightarrow> (Inl (ErrMemberNotFound i), s)
      | Some p \<Rightarrow>
          (let m = ms_cells s ! p in
           if m_Status m = StatusInvited then (Inr (), s)
           else if m_Status m \<noteq> StatusRegistered then (Inl (ErrInvalidStatus StatusInvited), s)
           else commitUpdate f p (m\<lparr>m_Status := StatusInvited\<rparr>) s))"

definition members_Remove :: "tx_fault \<Rightarrow> string \<Rightarrow> members_store \<Rightarrow> unit members_result" where
  "members_Remove f i s =
     (case map_of (ms_byID s) i of
        None \<Rightarrow> (Inl (ErrMemberNotFound i), s)
      | Some p \<Rightarrow>
          (case members_persist f (members_delete i) s of
             Inl e \<Rightarrow> (Inl e, s)
           | Inr db \<Rightarrow>
               (Inr (), s\<lparr>ms_byID := AList.delete i (ms_byID s),
                          ms_byEmail := AList.delete (m_Email (ms_cells s ! p)) (ms_byEmail s),
                          ms_db := db\<rparr>)))"

subsection \<open>Invariant\<close>

text \<open>What a reader sees: the members by id.\<close>

definition members_view :: "members_store \<Rightarrow> string \<Rightarrow> member option" where
  "members_view s = deref (ms_cells s) (ms_byID s)"

definition members_agree :: "members_store \<Rightarrow> member_row list \<Rightarrow> bool" where
  "members_agree s t \<longleftrightarrow> keyed mr_id t \<and> keyed mr_email t \<and>
     (\<forall>i. map_option member_of_row (tab mr_id t i) = members_view s i)"

definition members_inv :: "members_store \<Rightarrow> bool" where
  "members_inv s \<longleftrightarrow>
     dual_wf m_ID m_Email (ms_cells s) (ms_byID s) (ms_byEmail s) \<and>
     (\<forall>i m. members_view s i = Some m \<longrightarrow> members_check (row_of_member m)) \<and>
     (\<forall>t. ms_db s = Some t \<longrightarrow> members_agree s t)"

lemma null_string_nullIfEmpty [simp]: "null_string (nullIfEmpty v) = v"
  by (simp add: null_string_def nullIfEmpty_def)

lemma member_of_row_of_member [simp]: "member_of_row (row_of_member m) = m"
  by (simp add: member_of_row_def row_of_member_def)

lemma row_of_member_sel [simp]:
  "mr_id (row_of_member m) = m_ID m" "mr_email (row_of_member m) = m_Email m"
  "mr_status (row_of_member m) = m_Status m"
  by (simp_all add: row_of_member_def)

lemma member_of_row_sel [simp]:
  "m_ID (member_of_row r) = mr_id r" "m_Email (member_of_row r) = mr_email r"
  "m_CreatedAt (member_of_row r) = mr_created_at r"
  by (simp_all add: member_of_row_def)

lemma members_set_sel [simp]: "mr_id (members_set n r) = mr_id r" "mr_email (members_set n r) = mr_email r"
  by (simp_all add: members_set_def)

lemma members_agreeD: "members_agree s t \<Longrightarrow> members_view s i = map_option member_of_row (tab mr_id t i)"
  by (simp add: members_agree_def)

lemma members_persist_Inr_iff:
  "members_persist f fn s = Inr db \<longleftrightarrow>
     (ms_db s = None \<and> db = None) \<or>
     (\<exists>t t'. ms_db s = Some t \<and> f = TxOk \<and> fn t = Inr t' \<and> db = Some t')"
  by (auto simp: members_persist_def run_tx_Inr_iff split: sum.splits)

lemma members_view_at: "map_of (ms_byID s) i = Some p \<Longrightarrow> members_view s i = Some (ms_cells s ! p)"
  by (simp add: members_view_def deref_def)

lemma members_inv_dual: "members_inv s \<Longrightarrow> dual_wf m_ID m_Email (ms_cells s) (ms_byID s) (ms_byEmail s)"
  by (simp add: members_inv_def)

lemma members_view_key: "members_inv s \<Longrightarrow> members_view s i = Some m \<Longrightarrow> m_ID m = i"
  unfolding members_view_def by (rule deref_key [OF members_inv_dual])

lemma byEmail_iff:
  assumes "members_inv s"
  shows "deref (ms_cells s) (ms_byEmail s) e = Some m \<longleftrightarrow> members_view s (m_ID m) = Some m \<and> m_Email m = e"
  unfolding members_view_def by (rule deref_second [OF members_inv_dual [OF assms]])

text \<open>An email of a table row is an email of the cache.\<close>

lemma members_agree_email:
  assumes "members_inv s" "ms_db s = Some t" "r \<in> set t"
  shows "map_of (ms_byEmail s) (mr_email r) \<noteq> None"
proof -
  have a: "members_agree s t" using assms by (simp add: members_inv_def)
  then have "tab mr_id t (mr_id r) = Some r" using assms(3) by (simp add: members_agree_def tab_Some_iff)
  with a have "members_view s (mr_id r) = Some (member_of_row r)"
    by (metis members_agree_def option.simps(9))
  then have "deref (ms_cells s) (ms_byEmail s) (mr_email r) = Some (member_of_row r)"
    using byEmail_iff [OF assms(1)] by simp
  then show ?thesis by (auto simp: deref_def)
qed

subsection \<open>The update step\<close>

lemma members_update_Inr:
  assumes "members_update n t = Inr t'"
  shows "t' = snd (sql_update (\<lambda>r. mr_id r = mr_id n) (members_set n) t)"
  using assms by (auto simp: members_update_def split: if_splits)

lemma members_set_row:
  "member_of_row r = m \<Longrightarrow> m_ID nxt = m_ID m \<Longrightarrow> m_Email nxt = m_Email m \<Longrightarrow> m_CreatedAt nxt = m_CreatedAt m \<Longrightarrow>
     member_of_row (members_set (row_of_member nxt) r) = nxt"
  by (auto simp: member_of_row_def members_set_def row_of_member_def)

text \<open>A record that replaces member \<open>i\<close>: same identity, lifecycle fields the schema accepts.\<close>

definition replaces :: "member \<Rightarrow> member \<Rightarrow> bool" where
  "replaces nxt m \<longleftrightarrow> m_ID nxt = m_ID m \<and> m_Email nxt = m_Email m \<and> m_CreatedAt nxt = m_CreatedAt m \<and>
     members_check (row_of_member nxt)"

lemma commitUpdate_fail: "fst (commitUpdate f p nxt s) = Inl e \<Longrightarrow> snd (commitUpdate f p nxt s) = s"
  by (auto simp: commitUpdate_def split: sum.splits)

lemma commitUpdate_cells:
  "commitUpdate f p nxt s = (Inr (), s') \<Longrightarrow>
     ms_cells s' = (ms_cells s)[p := nxt] \<and> ms_byID s' = ms_byID s \<and> ms_byEmail s' = ms_byEmail s"
  by (auto simp: commitUpdate_def split: sum.splits)

lemma commitUpdate_view:
  assumes "members_inv s" "map_of (ms_byID s) i = Some p" "commitUpdate f p nxt s = (Inr (), s')"
  shows "members_view s' = (members_view s)(i \<mapsto> nxt)"
  using commitUpdate_cells [OF assms(3)] deref_modify [OF members_inv_dual [OF assms(1)] assms(2), of nxt]
  by (simp add: members_view_def)

lemma members_agree_commit:
  assumes inv: "members_inv s" and p: "map_of (ms_byID s) i = Some p"
    and r: "replaces nxt (ms_cells s ! p)" and db: "ms_db s = Some t"
    and v: "members_view s' = (members_view s)(i \<mapsto> nxt)"
  shows "members_agree s' (snd (sql_update (\<lambda>r. mr_id r = mr_id (row_of_member nxt))
           (members_set (row_of_member nxt)) t))"
proof -
  have a: "members_agree s t" using inv db by (simp add: members_inv_def)
  have i: "m_ID nxt = i" using members_view_key [OF inv members_view_at [OF p]] r by (simp add: replaces_def)
  have "map_option member_of_row (map_option (\<lambda>r. if mr_id r = i then members_set (row_of_member nxt) r else r)
      (tab mr_id t j)) = members_view s' j" for j
  proof (cases "j = i")
    case True
    from a have ai: "map_option member_of_row (tab mr_id t i) = members_view s i"
      by (simp add: members_agree_def)
    then obtain row where row: "tab mr_id t i = Some row" "member_of_row row = ms_cells s ! p"
      using members_view_at [OF p] by (metis (no_types, lifting) map_option_eq_Some)
    then have "mr_id row = i" using a by (simp add: members_agree_def tab_Some_iff)
    then show ?thesis using True row r members_set_row [of row "ms_cells s ! p" nxt] v
      by (simp add: replaces_def)
  next
    case False
    then have "mr_id row \<noteq> i" if "tab mr_id t j = Some row" for row
      using that a by (auto simp: members_agree_def tab_Some_iff)
    with False v members_agreeD [OF a, of j] show ?thesis
      by (cases "tab mr_id t j") auto
  qed
  with a i show ?thesis by (simp add: members_agree_def keyed_sql_update tab_sql_update)
qed

lemma commitUpdate_inv:
  assumes inv: "members_inv s" and p: "map_of (ms_byID s) i = Some p"
    and r: "replaces nxt (ms_cells s ! p)"
  shows "members_inv (snd (commitUpdate f p nxt s))"
proof (cases "commitUpdate f p nxt s")
  case (Pair res s')
  show ?thesis
  proof (cases res)
    case (Inl e)
    with Pair inv show ?thesis by (metis commitUpdate_fail fst_conv)
  next
    case (Inr u)
    with Pair have c: "commitUpdate f p nxt s = (Inr (), s')" by simp
    note cells = commitUpdate_cells [OF c] and v = commitUpdate_view [OF inv p c]
    have "dual_wf m_ID m_Email (ms_cells s') (ms_byID s') (ms_byEmail s')"
      using members_inv_dual [OF inv] r cells by (simp add: dual_wf_modify replaces_def)
    moreover have "members_check (row_of_member m)" if "members_view s' j = Some m" for j m
      using that inv r v by (auto simp: members_inv_def replaces_def split: if_splits)
    moreover have "members_agree s' t'" if db': "ms_db s' = Some t'" for t'
    proof -
      obtain t where t: "ms_db s = Some t" "members_update (row_of_member nxt) t = Inr t'"
        using c db' by (auto simp: commitUpdate_def members_persist_Inr_iff split: sum.splits)
      show ?thesis
        using members_agree_commit [OF inv p r t(1) v] members_update_Inr [OF t(2)] by simp
    qed
    ultimately show ?thesis using Pair by (simp add: members_inv_def)
  qed
qed

text \<open>With a healthy database the commit goes through.\<close>

lemma commitUpdate_ok:
  assumes inv: "members_inv s" and p: "map_of (ms_byID s) i = Some p"
    and r: "replaces nxt (ms_cells s ! p)"
  shows "fst (commitUpdate TxOk p nxt s) = Inr ()"
proof (cases "ms_db s")
  case None
  then show ?thesis by (simp add: commitUpdate_def members_persist_def)
next
  case (Some t)
  with inv have a: "members_agree s t" by (simp add: members_inv_def)
  have i: "m_ID nxt = i" using members_view_key [OF inv members_view_at [OF p]] r by (simp add: replaces_def)
  have "tab mr_id t i \<noteq> None"
    using a members_view_at [OF p] by (metis members_agree_def option.distinct(1) option.map_disc_iff)
  then have "length (filter (\<lambda>r. mr_id r = i) t) = 1"
    using a count_key [of mr_id t i] by (simp add: members_agree_def)
  moreover have "members_check (members_set (row_of_member nxt) x)" if "mr_id x = i" for x
    using r that i by (auto simp: replaces_def members_check_def members_set_def row_of_member_def
        split: option.splits)
  ultimately have "\<exists>t'. members_update (row_of_member nxt) t = Inr t'"
    using i by (auto simp: members_update_def expect_rows_def sql_update_def list_ex_iff)
  then show ?thesis by (auto simp: commitUpdate_def members_persist_def Some)
qed

subsection \<open>Operations as steps, and what they promise\<close>

datatype member_op = OpAdd entropy time string string
  | OpUpdate string "string option" "string option" | OpActivate string
  | OpSetSessionExpired time string | OpReinvite string | OpMarkInvited string | OpRemove string

fun members_step :: "tx_fault \<times> member_op \<Rightarrow> members_store \<Rightarrow> members_store" where
  "members_step (f, OpAdd rnd now e d) s = snd (members_Add f rnd now e d s)"
| "members_step (f, OpUpdate i d st) s = snd (members_Update f i d st s)"
| "members_step (f, OpActivate i) s = snd (Activate f i s)"
| "members_step (f, OpSetSessionExpired now i) s = snd (SetSessionExpired f now i s)"
| "members_step (f, OpReinvite i) s = snd (Reinvite f i s)"
| "members_step (f, OpMarkInvited i) s = snd (MarkInvited f i s)"
| "members_step (f, OpRemove i) s = snd (members_Remove f i s)"

text \<open>
  The contract, without cells, indexes, tables and faults: a registry is a map from ids to
  members, and an operation on a member replaces its record by the one given here, or does
  nothing (\<open>None\<close>).
\<close>

fun member_patch :: "member_op \<Rightarrow> member \<Rightarrow> member option" where
  "member_patch (OpUpdate i d st) m =
     (let m1 = (case d of None \<Rightarrow> m | Some x \<Rightarrow> m\<lparr>m_DisplayName := x\<rparr>) in
      case st of
        None \<Rightarrow> Some m1
      | Some x \<Rightarrow>
          if x = m_Status m then Some m1
          else if x = StatusDisabled then Some (m1\<lparr>m_Status := StatusDisabled, m_DisabledFrom := m_Status m\<rparr>)
          else if m_Status m = StatusDisabled \<and> x = restoreStatus m
          then Some (m1\<lparr>m_Status := x, m_DisabledFrom := []\<rparr>)
          else None)"
| "member_patch (OpActivate i) m =
     (if m_Status m = StatusInvited then Some (m\<lparr>m_Status := StatusActive\<rparr>) else None)"
| "member_patch (OpSetSessionExpired now i) m = Some (m\<lparr>m_SessionExpiredAt := FormatTime now\<rparr>)"
| "member_patch (OpReinvite i) m =
     (if m_Status m = StatusDisabled then None
      else Some (m\<lparr>m_Status := StatusInvited, m_SessionExpiredAt := []\<rparr>))"
| "member_patch (OpMarkInvited i) m =
     (if m_Status m = StatusRegistered then Some (m\<lparr>m_Status := StatusInvited\<rparr>) else None)"
| "member_patch _ m = None"

fun op_target :: "member_op \<Rightarrow> string option" where
  "op_target (OpAdd _ _ _ _) = None"
| "op_target (OpUpdate i _ _) = Some i"
| "op_target (OpActivate i) = Some i"
| "op_target (OpSetSessionExpired _ i) = Some i"
| "op_target (OpReinvite i) = Some i"
| "op_target (OpMarkInvited i) = Some i"
| "op_target (OpRemove i) = Some i"

fun registry_spec :: "member_op \<Rightarrow> (string \<Rightarrow> member option) \<Rightarrow> (string \<Rightarrow> member option)" where
  "registry_spec (OpAdd rnd now e d) v =
     (case newMemberID rnd of
        None \<Rightarrow> v
      | Some i \<Rightarrow>
          if validateMemberEmail e = None \<and> v i = None \<and> (\<forall>j m. v j = Some m \<longrightarrow> m_Email m \<noteq> e)
          then v(i \<mapsto> \<lparr>m_ID = i, m_Email = e, m_DisplayName = d, m_Status = StatusRegistered,
                 m_DisabledFrom = [], m_CreatedAt = FormatTime now, m_SessionExpiredAt = []\<rparr>)
          else v)"
| "registry_spec (OpRemove i) v = v(i := None)"
| "registry_spec op v =
     (case op_target op of None \<Rightarrow> v
      | Some i \<Rightarrow> (case v i of None \<Rightarrow> v
          | Some m \<Rightarrow> (case member_patch op m of None \<Rightarrow> v | Some m' \<Rightarrow> v(i \<mapsto> m'))))"

lemma status_distinct [simp]:
  "StatusRegistered \<noteq> StatusInvited" "StatusInvited \<noteq> StatusRegistered"
  "StatusRegistered \<noteq> StatusActive" "StatusActive \<noteq> StatusRegistered"
  "StatusRegistered \<noteq> StatusDisabled" "StatusDisabled \<noteq> StatusRegistered"
  "StatusInvited \<noteq> StatusActive" "StatusActive \<noteq> StatusInvited"
  "StatusInvited \<noteq> StatusDisabled" "StatusDisabled \<noteq> StatusInvited"
  "StatusActive \<noteq> StatusDisabled" "StatusDisabled \<noteq> StatusActive"
  "StatusRegistered \<noteq> []" "StatusInvited \<noteq> []" "StatusActive \<noteq> []" "StatusDisabled \<noteq> []"
  "[] \<noteq> StatusRegistered" "[] \<noteq> StatusInvited" "[] \<noteq> StatusActive" "[] \<noteq> StatusDisabled"
  by (simp_all add: status_defs)

lemma members_check_member:
  "members_check (row_of_member m) \<longleftrightarrow> length (m_ID m) = 36 \<and> is_lower (m_ID m) \<and> validStatus (m_Status m) \<and>
     (m_DisabledFrom m = [] \<or> m_Status m = StatusDisabled \<and>
        m_DisabledFrom m \<in> {StatusRegistered, StatusInvited, StatusActive})"
  by (cases "m_DisabledFrom m = []")
    (simp_all add: members_check_def row_of_member_def nullIfEmpty_def validStatus_def)

lemma member_patch_replaces:
  assumes "members_check (row_of_member m)" "member_patch op m = Some m'"
  shows "replaces m' m"
proof (cases op)
  case (OpUpdate i d st)
  define m1 where "m1 = (case d of None \<Rightarrow> m | Some x \<Rightarrow> m\<lparr>m_DisplayName := x\<rparr>)"
  have m1: "m_ID m1 = m_ID m" "m_Email m1 = m_Email m" "m_CreatedAt m1 = m_CreatedAt m"
    "m_Status m1 = m_Status m" "m_DisabledFrom m1 = m_DisabledFrom m"
    by (simp_all add: m1_def split: option.splits)
  have "m' = m1 \<or> m_Status m \<noteq> StatusDisabled \<and> m' = m1\<lparr>m_Status := StatusDisabled, m_DisabledFrom := m_Status m\<rparr> \<or>
      m_Status m = StatusDisabled \<and> m' = m1\<lparr>m_Status := restoreStatus m, m_DisabledFrom := []\<rparr>"
    using assms(2) unfolding OpUpdate member_patch.simps Let_def m1_def [symmetric]
    by (auto split: option.splits if_splits)
  moreover have "validStatus (m_Status m)" "validStatus (restoreStatus m)"
    using assms(1) by (auto simp: members_check_member validStatus_def restoreStatus_def)
  moreover have "m_Status m \<noteq> StatusDisabled \<Longrightarrow> m_Status m \<in> {StatusRegistered, StatusInvited, StatusActive}"
    using \<open>validStatus (m_Status m)\<close> by (auto simp: validStatus_def)
  moreover have "validStatus StatusDisabled" by (simp add: validStatus_def)
  ultimately show ?thesis
    using assms(1) m1 by (elim disjE conjE) (simp_all add: replaces_def members_check_member)
qed (use assms in \<open>auto simp: replaces_def members_check_member validStatus_def split: if_splits\<close>)

text \<open>One commit, seen from the readers: the new record or no change; a healthy database commits.\<close>

definition refines_patch :: "tx_fault \<Rightarrow> string \<Rightarrow> member \<Rightarrow> members_store \<Rightarrow> members_store \<Rightarrow> bool" where
  "refines_patch f i m' s s' \<longleftrightarrow> members_inv s' \<and> (ms_db s' = None \<longleftrightarrow> ms_db s = None) \<and>
     (members_view s' = members_view s \<or> members_view s' = (members_view s)(i \<mapsto> m')) \<and>
     (f = TxOk \<longrightarrow> members_view s' = (members_view s)(i \<mapsto> m'))"

lemma commitUpdate_db: "ms_db (snd (commitUpdate f p nxt s)) = None \<longleftrightarrow> ms_db s = None"
  by (auto simp: commitUpdate_def members_persist_Inr_iff split: sum.splits)

lemma commitUpdate_refines:
  assumes "members_inv s" "map_of (ms_byID s) i = Some p" "replaces nxt (ms_cells s ! p)"
  shows "refines_patch f i nxt s (snd (commitUpdate f p nxt s))"
proof (cases "commitUpdate f p nxt s")
  case (Pair res s')
  have "members_view s' = members_view s \<or> members_view s' = (members_view s)(i \<mapsto> nxt)"
    using commitUpdate_view [OF assms(1,2), of f nxt s'] commitUpdate_fail [of f p nxt s] Pair
    by (cases res) auto
  moreover have "f = TxOk \<longrightarrow> members_view s' = (members_view s)(i \<mapsto> nxt)"
    using commitUpdate_ok [OF assms] commitUpdate_view [OF assms(1,2), of TxOk nxt s'] Pair by auto
  ultimately show ?thesis
    using commitUpdate_inv [OF assms, of f] commitUpdate_db [of f p nxt s] Pair
    by (simp add: refines_patch_def)
qed

definition refines_step :: "tx_fault \<Rightarrow> member_op \<Rightarrow> members_store \<Rightarrow> members_store \<Rightarrow> bool" where
  "refines_step f op s s' \<longleftrightarrow> members_inv s' \<and> (ms_db s' = None \<longleftrightarrow> ms_db s = None) \<and>
     (members_view s' = members_view s \<or> members_view s' = registry_spec op (members_view s)) \<and>
     (f = TxOk \<longrightarrow> members_view s' = registry_spec op (members_view s))"

lemma refines_stepI:
  assumes "members_inv s" "members_view s i = Some m" "op_target op = Some i" "member_patch op m = Some m'"
    "\<And>j. op \<noteq> OpRemove j" "refines_patch f i m' s s'"
  shows "refines_step f op s s'"
  using assms by (cases op) (auto simp: refines_step_def refines_patch_def)

lemma refines_step_idle:
  "members_inv s \<Longrightarrow> registry_spec op (members_view s) = members_view s \<Longrightarrow> refines_step f op s s"
  by (simp add: refines_step_def)

lemma view_None: "map_of (ms_byID s) i = None \<Longrightarrow> members_view s i = None"
  by (simp add: members_view_def deref_def)

lemma inv_check: "members_inv s \<Longrightarrow> members_view s i = Some m \<Longrightarrow> members_check (row_of_member m)"
  by (simp add: members_inv_def)

lemma step_patch:
  assumes "members_inv s" "map_of (ms_byID s) i = Some p" "op_target op = Some i"
    "\<And>j. op \<noteq> OpRemove j" "member_patch op (ms_cells s ! p) = Some m'"
  shows "refines_step f op s (snd (commitUpdate f p m' s))"
proof -
  note v = members_view_at [OF assms(2)]
  have "replaces m' (ms_cells s ! p)"
    using inv_check [OF assms(1) v] assms(5) by (rule member_patch_replaces)
  then show ?thesis
    using refines_stepI [OF assms(1) v assms(3,5,4)] commitUpdate_refines [OF assms(1,2)] by blast
qed

lemma Activate_refines: "members_inv s \<Longrightarrow> refines_step f (OpActivate i) s (snd (Activate f i s))"
  using step_patch [of s i _ "OpActivate i"] members_view_at [of s i] view_None [of s i]
  by (auto simp: Activate_def Let_def split: option.split intro!: refines_step_idle)

lemma MarkInvited_refines: "members_inv s \<Longrightarrow> refines_step f (OpMarkInvited i) s (snd (MarkInvited f i s))"
  using step_patch [of s i _ "OpMarkInvited i"] members_view_at [of s i] view_None [of s i]
  by (auto simp: MarkInvited_def Let_def split: option.split intro!: refines_step_idle)

lemma Reinvite_refines: "members_inv s \<Longrightarrow> refines_step f (OpReinvite i) s (snd (Reinvite f i s))"
  using step_patch [of s i _ "OpReinvite i"] members_view_at [of s i] view_None [of s i]
  by (auto simp: Reinvite_def Let_def split: option.split intro!: refines_step_idle)

lemma SetSessionExpired_refines:
  "members_inv s \<Longrightarrow> refines_step f (OpSetSessionExpired now i) s (snd (SetSessionExpired f now i s))"
  using step_patch [of s i _ "OpSetSessionExpired now i"] members_view_at [of s i] view_None [of s i]
  by (auto simp: SetSessionExpired_def split: option.split intro!: refines_step_idle)

text \<open>The record \<open>Update\<close> commits is the one the contract names.\<close>

lemma Update_next:
  assumes "members_check (row_of_member m)"
    and "\<not> (case st of None \<Rightarrow> False | Some x \<Rightarrow> \<not> allowedStatusTransition m x)"
  shows "member_patch (OpUpdate i d st) m =
     Some (let nxt = (case d of None \<Rightarrow> m | Some x \<Rightarrow> m\<lparr>m_DisplayName := x\<rparr>)
           in case st of None \<Rightarrow> nxt
              | Some x \<Rightarrow> if x \<noteq> m_Status m then
                   nxt\<lparr>m_DisabledFrom := (if x = StatusDisabled then m_Status m else []), m_Status := x\<rparr>
                 else nxt)"
proof (cases st)
  case (Some x)
  with assms(2) have "x = m_Status m \<or> x = StatusDisabled \<or> m_Status m = StatusDisabled \<and> x = restoreStatus m"
    by (auto simp: allowedStatusTransition_def split: if_splits)
  then show ?thesis by (cases d) (auto simp: Some Let_def)
qed (simp add: Let_def)

lemma Update_denied:
  assumes "members_check (row_of_member m)"
    and "st = Some x" "\<not> allowedStatusTransition m x \<or> \<not> validStatus x"
  shows "member_patch (OpUpdate i d st) m = None"
  using assms
  by (auto simp: allowedStatusTransition_def members_check_member validStatus_def restoreStatus_def
      Let_def split: if_splits)

lemma Update_refines: "members_inv s \<Longrightarrow> refines_step f (OpUpdate i d st) s (snd (members_Update f i d st s))"
proof (cases "map_of (ms_byID s) i")
  case None
  assume "members_inv s"
  with None show ?thesis
    by (cases st) (auto simp: members_Update_def view_None intro!: refines_step_idle)
next
  case (Some p)
  assume inv: "members_inv s"
  let ?m = "ms_cells s ! p"
  note v = members_view_at [OF Some] and chk = inv_check [OF inv members_view_at [OF Some]]
  show ?thesis
  proof (cases "\<exists>x. st = Some x \<and> (\<not> validStatus x \<or> \<not> allowedStatusTransition ?m x)")
    case True
    then obtain x where x: "st = Some x" "\<not> validStatus x \<or> \<not> allowedStatusTransition ?m x" by blast
    then have "snd (members_Update f i d st s) = s" by (auto simp: members_Update_def Some Let_def)
    moreover have "member_patch (OpUpdate i d st) ?m = None" using Update_denied [OF chk x(1)] x(2) by blast
    ultimately show ?thesis using inv by (simp add: refines_step_idle v)
  next
    case False
    then have ok: "\<not> (case st of None \<Rightarrow> False | Some x \<Rightarrow> \<not> allowedStatusTransition ?m x)"
      and vs: "\<not> (case st of None \<Rightarrow> False | Some x \<Rightarrow> \<not> validStatus x)"
      by (auto split: option.splits)
    note n = Update_next [OF chk ok, of i d, unfolded Let_def]
    show ?thesis
      using step_patch [OF inv Some _ _ n, of f] ok vs
      by (auto simp: members_Update_def Some Let_def simp del: member_patch.simps split: prod.splits sum.splits)
  qed
qed

lemma members_agree_remove:
  assumes "members_agree s t" "members_view s' = (members_view s)(i := None)"
  shows "members_agree s' (snd (sql_delete (\<lambda>r. mr_id r = i) t))"
proof -
  have k: "keyed mr_id t" "keyed mr_email t" using assms(1) by (simp_all add: members_agree_def)
  have "map_option member_of_row (tab mr_id (snd (sql_delete (\<lambda>r. mr_id r = i) t)) j) = members_view s' j" for j
    using members_agreeD [OF assms(1), of j] k assms(2) tab_key [of mr_id t j]
    by (cases "tab mr_id t j") (auto simp: tab_sql_delete)
  with k show ?thesis by (simp add: members_agree_def keyed_sql_delete)
qed

lemma Remove_refines: "members_inv s \<Longrightarrow> refines_step f (OpRemove i) s (snd (members_Remove f i s))"
proof (cases "map_of (ms_byID s) i")
  case None
  assume "members_inv s"
  with None show ?thesis
    by (auto simp: members_Remove_def view_None fun_upd_idem intro!: refines_step_idle)
next
  case (Some p)
  assume inv: "members_inv s"
  have ok: "\<exists>t'. members_delete i t = Inr t'" if "ms_db s = Some t" for t
  proof -
    from that inv have a: "members_agree s t" by (simp add: members_inv_def)
    with members_view_at [OF Some] have "tab mr_id t i \<noteq> None" by (auto simp: members_agreeD)
    with a show ?thesis by (simp add: members_delete_def expect_rows_def sql_delete_def count_key members_agree_def)
  qed
  show ?thesis
  proof (cases "members_persist f (members_delete i) s")
    case (Inl e)
    then have "snd (members_Remove f i s) = s" by (simp add: members_Remove_def Some)
    moreover have "f \<noteq> TxOk"
    proof
      assume "f = TxOk"
      with Inl ok show False
        by (cases "ms_db s") (auto simp: members_persist_def split: sum.splits dest: ok)
    qed
    ultimately show ?thesis using inv by (simp add: refines_step_def)
  next
    case (Inr db)
    let ?s' = "snd (members_Remove f i s)"
    have s': "?s' = s\<lparr>ms_byID := AList.delete i (ms_byID s),
        ms_byEmail := AList.delete (m_Email (ms_cells s ! p)) (ms_byEmail s), ms_db := db\<rparr>"
      by (simp add: members_Remove_def Some Inr)
    have v: "members_view ?s' = (members_view s)(i := None)"
      by (simp add: s' members_view_def deref_delete)
    have "dual_wf m_ID m_Email (ms_cells ?s') (ms_byID ?s') (ms_byEmail ?s')"
      using dual_wf_delete [OF members_inv_dual [OF inv] Some refl] by (simp add: s')
    moreover have "members_check (row_of_member m)" if "members_view ?s' j = Some m" for j m
      using that inv v by (auto simp: members_inv_def split: if_splits)
    moreover have "members_agree ?s' t'" if db': "ms_db ?s' = Some t'" for t'
    proof -
      from Inr db' s' obtain t where t: "ms_db s = Some t" "t' = snd (sql_delete (\<lambda>r. mr_id r = i) t)"
        by (auto simp: members_persist_Inr_iff members_delete_def)
      with inv have "members_agree s t" by (simp add: members_inv_def)
      then show ?thesis unfolding t(2) using v by (rule members_agree_remove)
    qed
    ultimately have "members_inv ?s'" by (simp add: members_inv_def)
    moreover have "ms_db ?s' = None \<longleftrightarrow> ms_db s = None"
      using Inr by (auto simp: s' members_persist_Inr_iff)
    ultimately show ?thesis using v unfolding refines_step_def by auto
  qed
qed

lemma members_agree_add:
  assumes a: "members_agree s t" and m: "members_view s (m_ID m) = None"
    and e: "tab mr_email t (m_Email m) = None" and v: "members_view s' = (members_view s)(m_ID m \<mapsto> m)"
  shows "members_agree s' (t @ [row_of_member m])"
proof -
  have i: "tab mr_id t (m_ID m) = None" using m members_agreeD [OF a, of "m_ID m"] by simp
  then have "tab mr_id (t @ [row_of_member m]) = (tab mr_id t)(m_ID m \<mapsto> row_of_member m)"
    using tab_insert [of mr_id t "row_of_member m"] by simp
  with a i e v show ?thesis by (simp add: members_agree_def keyed_insert)
qed

lemma insert_Inr_iff:
  "members_insert r t = Inr t' \<longleftrightarrow>
     members_check r \<and> tab mr_id t (mr_id r) = None \<and> tab mr_email t (mr_email r) = None \<and> t' = t @ [r]"
  by (auto simp: members_insert_def list_ex_key)

lemma email_free_iff:
  assumes "members_inv s"
  shows "map_of (ms_byEmail s) e = None \<longleftrightarrow> (\<forall>j m. members_view s j = Some m \<longrightarrow> m_Email m \<noteq> e)"
proof -
  have "map_of (ms_byEmail s) e = None \<longleftrightarrow> deref (ms_cells s) (ms_byEmail s) e = None"
    by (simp add: deref_def)
  also have "\<dots> \<longleftrightarrow> (\<forall>m. \<not> (members_view s (m_ID m) = Some m \<and> m_Email m = e))"
    using byEmail_iff [OF assms] by (metis not_None_eq)
  also have "\<dots> \<longleftrightarrow> (\<forall>j m. members_view s j = Some m \<longrightarrow> m_Email m \<noteq> e)"
    using members_view_key [OF assms] by blast
  finally show ?thesis .
qed

lemma email_free_table:
  "members_inv s \<Longrightarrow> ms_db s = Some t \<Longrightarrow> map_of (ms_byEmail s) e = None \<Longrightarrow> tab mr_email t e = None"
  using members_agree_email by (fastforce simp: tab_None_iff)

lemma new_member_check: "isCanonicalUUID i \<Longrightarrow> members_check (row_of_member
    \<lparr>m_ID = i, m_Email = e, m_DisplayName = d, m_Status = StatusRegistered, m_DisabledFrom = [],
     m_CreatedAt = c, m_SessionExpiredAt = []\<rparr>)"
  by (simp add: members_check_member canonical_length canonical_lower validStatus_def)

lemma Add_refines:
  assumes inv: "members_inv s" and db: "ms_db s = Some t"
  shows "refines_step f (OpAdd rnd now e d) s (snd (members_Add f rnd now e d s))"
proof (cases "validateMemberEmail e = None \<and> map_of (ms_byEmail s) e = None \<and> newMemberID rnd \<noteq> None")
  case False
  then have "snd (members_Add f rnd now e d s) = s" by (auto simp: members_Add_def split: option.splits)
  moreover have "registry_spec (OpAdd rnd now e d) (members_view s) = members_view s"
    using False email_free_iff [OF inv, of e] by (auto split: option.splits)
  ultimately show ?thesis using inv by (simp add: refines_step_idle)
next
  case True
  then obtain i where i: "newMemberID rnd = Some i" by blast
  define m where "m = \<lparr>m_ID = i, m_Email = e, m_DisplayName = d, m_Status = StatusRegistered,
      m_DisabledFrom = [], m_CreatedAt = FormatTime now, m_SessionExpiredAt = []\<rparr>"
  have m: "m_ID m = i" "m_Email m = e" "members_check (row_of_member m)"
    using newMemberID_canonical [OF i] by (simp_all add: m_def new_member_check)
  have a: "members_agree s t" using inv db by (simp add: members_inv_def)
  have te: "tab mr_email t e = None" using email_free_table [OF inv db] True by simp
  have spec: "registry_spec (OpAdd rnd now e d) (members_view s) =
      (if members_view s i = None then (members_view s)(i \<mapsto> m) else members_view s)"
    using True email_free_iff [OF inv, of e] by (auto simp: i m_def)
  have ins: "(\<exists>t'. members_insert (row_of_member m) t = Inr t') \<longleftrightarrow> members_view s i = None"
    using te m members_agreeD [OF a, of i] by (simp add: insert_Inr_iff)
  show ?thesis
  proof (cases "members_persist f (members_insert (row_of_member m)) s")
    case (Inl x)
    then have "snd (members_Add f rnd now e d s) = s"
      using True by (simp add: members_Add_def i Let_def flip: m_def)
    moreover have "f = TxOk \<Longrightarrow> members_view s i \<noteq> None"
      using Inl ins by (auto simp: members_persist_def db split: sum.splits)
    ultimately show ?thesis using inv spec by (auto simp: refines_step_def simp del: registry_spec.simps)
  next
    case (Inr db')
    let ?s' = "snd (members_Add f rnd now e d s)"
    have s': "?s' = s\<lparr>ms_cells := ms_cells s @ [m], ms_byID := AList.update i (length (ms_cells s)) (ms_byID s),
        ms_byEmail := AList.update e (length (ms_cells s)) (ms_byEmail s), ms_db := db'\<rparr>"
      using True Inr by (simp add: members_Add_def i Let_def flip: m_def)
    from Inr obtain t' where t': "db' = Some t'" "members_insert (row_of_member m) t = Inr t'"
      by (auto simp: members_persist_Inr_iff db)
    then have none: "members_view s i = None" using ins by blast
    then have mi: "map_of (ms_byID s) i = None" by (simp add: members_view_def deref_def)
    have v: "members_view ?s' = (members_view s)(i \<mapsto> m)"
      by (simp add: s' members_view_def deref_insert [OF members_inv_dual [OF inv]])
    have "dual_wf m_ID m_Email (ms_cells ?s') (ms_byID ?s') (ms_byEmail ?s')"
      using dual_wf_insert [OF members_inv_dual [OF inv], of m] True mi by (simp add: s' m)
    moreover have "members_check (row_of_member x)" if "members_view ?s' j = Some x" for j x
      using that inv v m(3) by (auto simp: members_inv_def split: if_splits)
    moreover have "members_agree ?s' t'"
      using members_agree_add [OF a, of m ?s'] none te v t'(2) m by (simp add: insert_Inr_iff)
    ultimately have "members_inv ?s'" using t' by (simp add: members_inv_def s')
    then show ?thesis using v none spec t'(1) by (simp add: refines_step_def s' db del: registry_spec.simps)
  qed
qed

subsection \<open>Restarts\<close>

definition members_restart :: "members_store \<Rightarrow> members_store" where
  "members_restart s = snd (members_LoadFromDB (ms_db s) members_NewStore)"

lemma members_load:
  assumes "keyed mr_id t" "keyed mr_email t" "\<forall>r \<in> set t. members_check (row_of_member (member_of_row r))"
  shows "members_inv (snd (members_LoadFromDB (Some t) s0)) \<and>
    ms_db (snd (members_LoadFromDB (Some t) s0)) = Some t \<and>
    (\<forall>i. members_view (snd (members_LoadFromDB (Some t) s0)) i = map_option member_of_row (tab mr_id t i))"
proof -
  obtain h i1 i2 where l: "dual_load m_ID m_Email (map member_of_row t) = (h, i1, i2)" by (metis prod_cases3)
  have "keyed m_ID (map member_of_row t)" "keyed m_Email (map member_of_row t)"
    using assms(1,2) by (simp_all add: keyed_map [of _ _ mr_id] keyed_map [of _ _ mr_email])
  from dual_load_correct [OF this] l have w: "dual_wf m_ID m_Email h i1 i2"
    and d: "deref h i1 = tab m_ID (map member_of_row t)" by simp_all
  have v: "members_view (snd (members_LoadFromDB (Some t) s0)) i = map_option member_of_row (tab mr_id t i)" for i
    by (simp add: members_view_def members_LoadFromDB_def l d tab_map [of _ _ mr_id])
  moreover have "members_check (row_of_member m)"
    if "members_view (snd (members_LoadFromDB (Some t) s0)) i = Some m" for i m
    using that v assms(3) by (auto dest!: tab_key)
  ultimately show ?thesis
    using w assms(1,2) by (simp add: members_inv_def members_agree_def members_LoadFromDB_def l)
qed

lemma members_restart_ok:
  assumes inv: "members_inv s" and db: "ms_db s = Some t"
  shows "members_inv (members_restart s) \<and> ms_db (members_restart s) = Some t \<and>
    members_view (members_restart s) = members_view s"
proof -
  have a: "members_agree s t" using inv db by (simp add: members_inv_def)
  have "members_check (row_of_member (member_of_row r))" if "r \<in> set t" for r
  proof -
    have "tab mr_id t (mr_id r) = Some r" using a that by (simp add: members_agree_def tab_Some_iff)
    then have "members_view s (mr_id r) = Some (member_of_row r)" by (simp add: members_agreeD [OF a])
    then show ?thesis using inv by (simp add: members_inv_def)
  qed
  then have "members_inv (members_restart s) \<and> ms_db (members_restart s) = Some t \<and>
    (\<forall>i. members_view (members_restart s) i = map_option member_of_row (tab mr_id t i))"
    unfolding members_restart_def db using a by (intro members_load) (simp_all add: members_agree_def)
  then show ?thesis using members_agreeD [OF a] by (simp add: fun_eq_iff)
qed

text \<open>A store with its database attached and in agreement with it.\<close>

definition members_live :: "members_store \<Rightarrow> bool" where
  "members_live s \<longleftrightarrow> members_inv s \<and> ms_db s \<noteq> None"

lemma members_step_refines:
  assumes "members_live s"
  shows "refines_step (fst fo) (snd fo) s (members_step fo s)"
proof -
  obtain f op where fo: "fo = (f, op)" by (cases fo)
  from assms obtain t where s: "members_inv s" "ms_db s = Some t" by (auto simp: members_live_def)
  show ?thesis
    unfolding fo
    by (cases op)
      (use s in \<open>simp_all add: Add_refines Update_refines Activate_refines SetSessionExpired_refines
        Reinvite_refines MarkInvited_refines Remove_refines del: registry_spec.simps\<close>)
qed

interpretation registry: refining_store members_step members_restart members_live members_view
  "\<lambda>fo. registry_spec (snd fo)" "\<lambda>fo. fst fo = TxOk"
proof
  fix s :: members_store and op
  assume l: "members_live s"
  have r: "refines_step (fst op) (snd op) s (members_step op s)" by (rule members_step_refines [OF l])
  then show "members_live (members_step op s)"
    using l by (simp add: refines_step_def members_live_def)
  from r show "members_view (members_step op s) = members_view s \<or>
      members_view (members_step op s) = registry_spec (snd op) (members_view s)"
    by (simp add: refines_step_def)
  show "members_view (members_step op s) = registry_spec (snd op) (members_view s)" if "fst op = TxOk"
    using r that by (simp add: refines_step_def)
  from l obtain t where "ms_db s = Some t" "members_inv s" by (auto simp: members_live_def)
  then show "members_live (members_restart s)" "members_view (members_restart s) = members_view s"
    using members_restart_ok [of s t] by (simp_all add: members_live_def)
qed

subsection \<open>Lifecycle\<close>

abbreviation members_run :: "(tx_fault \<times> member_op) event list \<Rightarrow> members_store \<Rightarrow> members_store" where
  "members_run \<equiv> fold (run_event members_step members_restart)"

text \<open>A member that is active, or would be again when restored.\<close>

definition reached_active :: "member \<Rightarrow> bool" where
  "reached_active m \<longleftrightarrow> m_Status m = StatusActive \<or> m_DisabledFrom m = StatusActive"

definition reached_invited :: "member \<Rightarrow> bool" where
  "reached_invited m \<longleftrightarrow> m_Status m = StatusInvited \<or> m_DisabledFrom m = StatusInvited"

lemma patch_active:
  assumes "member_patch op m = Some m'" "reached_active m'" "\<not> reached_active m"
  shows "(\<exists>i. op = OpActivate i) \<and> m_Status m = StatusInvited"
proof (cases op)
  case (OpUpdate i d st)
  with assms show ?thesis
    by (cases d; cases st) (auto simp: Let_def reached_active_def restoreStatus_def split: if_splits)
qed (use assms in \<open>auto simp: reached_active_def split: if_splits\<close>)

lemma patch_invited:
  assumes "member_patch op m = Some m'" "reached_invited m'" "\<not> reached_invited m"
  shows "\<exists>i. op = OpMarkInvited i \<or> op = OpReinvite i"
proof (cases op)
  case (OpUpdate i d st)
  with assms show ?thesis
    by (cases d; cases st) (auto simp: Let_def reached_invited_def restoreStatus_def split: if_splits)
qed (use assms in \<open>auto simp: reached_invited_def split: if_splits\<close>)

text \<open>How a record under an id comes to differ from the one before: added, or patched.\<close>

lemma registry_spec_at:
  assumes "registry_spec op v i = Some m'"
  shows "v i = Some m' \<or> m_Status m' = StatusRegistered \<and> m_DisabledFrom m' = [] \<or>
    (\<exists>m. v i = Some m \<and> op_target op = Some i \<and> member_patch op m = Some m')"
  using assms by (cases op) (auto split: option.splits if_splits simp del: member_patch.simps)

lemma members_step_at:
  assumes "members_live s" "members_view (members_step (f, op) s) i = Some m'"
  shows "members_view s i = Some m' \<or> m_Status m' = StatusRegistered \<and> m_DisabledFrom m' = [] \<or>
    (\<exists>m. members_view s i = Some m \<and> op_target op = Some i \<and> member_patch op m = Some m')"
  using registry.step_refines [OF assms(1), of "(f, op)"] assms(2) registry_spec_at [of op "members_view s" i m']
  by auto

lemma active_cause:
  assumes "members_live s" "members_view s i = None" "members_view (members_run es s) i = Some m" "reached_active m"
  shows "\<exists>pre f post. es = pre @ Do (f, OpActivate i) # post \<and>
    (\<exists>m0. members_view (members_run pre s) i = Some m0 \<and> m_Status m0 = StatusInvited)"
proof -
  let ?P = "\<lambda>s. \<exists>m. members_view s i = Some m \<and> reached_active m"
  let ?Q = "\<lambda>fo s. snd fo = OpActivate i \<and> (\<exists>m0. members_view s i = Some m0 \<and> m_Status m0 = StatusInvited)"
  have "\<exists>pre fo post. es = pre @ Do fo # post \<and> ?Q fo (members_run pre s)"
  proof (rule registry.first_cause [where P = ?P, OF assms(1)])
    fix s fo
    assume l: "members_live s" and n: "\<not> ?P s" and p: "?P (members_step fo s)"
    obtain f op where fo: "fo = (f, op)" by (cases fo)
    from p obtain m' where m': "members_view (members_step (f, op) s) i = Some m'" "reached_active m'"
      by (auto simp: fo)
    with members_step_at [OF l m'(1)] n obtain m0 where
      "members_view s i = Some m0" "op_target op = Some i" "member_patch op m0 = Some m'"
      by (auto simp: reached_active_def)
    with patch_active [of op m0 m'] m' n show "?Q fo s" by (fastforce simp: fo)
  qed (use assms registry.reload_view in auto)
  then show ?thesis by (metis prod.collapse)
qed

lemma invited_cause:
  assumes "members_live s" "members_view s i = None" "members_view (members_run es s) i = Some m" "reached_invited m"
  shows "\<exists>pre f op post. es = pre @ Do (f, op) # post \<and> (op = OpMarkInvited i \<or> op = OpReinvite i)"
proof -
  let ?P = "\<lambda>s. \<exists>m. members_view s i = Some m \<and> reached_invited m"
  have "\<exists>pre fo post. es = pre @ Do fo # post \<and> (snd fo = OpMarkInvited i \<or> snd fo = OpReinvite i)"
  proof (rule registry.first_cause [where P = ?P, OF assms(1)])
    fix s fo
    assume l: "members_live s" and n: "\<not> ?P s" and p: "?P (members_step fo s)"
    obtain f op where fo: "fo = (f, op)" by (cases fo)
    from p obtain m' where m': "members_view (members_step (f, op) s) i = Some m'" "reached_invited m'"
      by (auto simp: fo)
    with members_step_at [OF l m'(1)] n obtain m0 where
      "members_view s i = Some m0" "op_target op = Some i" "member_patch op m0 = Some m'"
      by (auto simp: reached_invited_def)
    with patch_invited [of op m0 m'] m' n show "snd fo = OpMarkInvited i \<or> snd fo = OpReinvite i"
      by (fastforce simp: fo)
  qed (use assms registry.reload_view in auto)
  then show ?thesis by (metis prod.collapse)
qed

text \<open>A fresh database.\<close>

definition members_boot :: members_store where
  "members_boot = snd (members_LoadFromDB (Some []) members_NewStore)"

lemma members_boot_live: "members_live members_boot \<and> members_view members_boot = Map.empty"
  using members_load [of "[]" members_NewStore]
  by (auto simp: members_boot_def members_live_def keyed_def)

text \<open>What no operation but a removal touches.\<close>

lemma patch_identity:
  assumes "member_patch op m = Some m'"
  shows "m_ID m' = m_ID m \<and> m_Email m' = m_Email m \<and> m_CreatedAt m' = m_CreatedAt m"
proof (cases op)
  case (OpUpdate i d st)
  with assms show ?thesis by (cases d; cases st) (auto simp: Let_def split: if_splits)
qed (use assms in \<open>auto split: if_splits\<close>)

lemma registry_spec_keeps:
  assumes "v i = Some m" "op \<noteq> OpRemove i"
  shows "\<exists>m'. registry_spec op v i = Some m' \<and> m_ID m' = m_ID m \<and> m_Email m' = m_Email m \<and> m_CreatedAt m' = m_CreatedAt m"
proof -
  consider (add) "\<exists>r n e d. op = OpAdd r n e d" | (rem) j where "op = OpRemove j" "j \<noteq> i"
    | (patch) "registry_spec op v = (case op_target op of None \<Rightarrow> v
      | Some i \<Rightarrow> (case v i of None \<Rightarrow> v
          | Some m \<Rightarrow> (case member_patch op m of None \<Rightarrow> v | Some m' \<Rightarrow> v(i \<mapsto> m'))))"
    using assms(2) by (cases op) auto
  then show ?thesis
  proof cases
    case add
    with assms(1) show ?thesis by (auto split: option.split)
  next
    case patch
    show ?thesis
    proof (cases "op_target op = Some i")
      case True
      with patch assms(1) patch_identity [of op m] show ?thesis
        by (cases "member_patch op m") (simp_all del: registry_spec.simps member_patch.simps)
    next
      case False
      with patch assms(1) show ?thesis
        by (cases "op_target op") (simp_all split: option.split del: registry_spec.simps member_patch.simps)
    qed
  qed (use assms in auto)
qed

lemma members_event_keeps:
  assumes "members_live s" "members_view s i = Some m" "\<And>f. e \<noteq> Do (f, OpRemove i)"
  shows "\<exists>m'. members_view (run_event members_step members_restart e s) i = Some m' \<and>
    m_ID m' = m_ID m \<and> m_Email m' = m_Email m \<and> m_CreatedAt m' = m_CreatedAt m"
proof (cases e)
  case (Do fo)
  obtain f op where fo: "fo = (f, op)" by (cases fo)
  with Do assms(3) have "op \<noteq> OpRemove i" by auto
  from registry_spec_keeps [where v = "members_view s", OF assms(2) this] registry.step_refines [OF assms(1), of fo] assms(2)
  show ?thesis by (auto simp: Do fo)
next
  case Restart
  with assms show ?thesis by (simp add: registry.reload_view)
qed

lemmas member_ops_defs = members_Add_def members_Update_def Activate_def SetSessionExpired_def
  Reinvite_def MarkInvited_def members_Remove_def

lemma error_frame_commit [simp]: "error_frame s (commitUpdate f p nxt s)"
  by (simp add: error_frame_def commitUpdate_fail)

lemma Update_frame: "error_frame s (members_Update f i d st s)"
  unfolding members_Update_def Let_def by (simp split: option.split)

subsection \<open>A concrete history\<close>

definition demo_entropy :: entropy where
  "demo_entropy = Some (\<lambda>i. of_nat i)"

definition demo_id :: string where
  "demo_id = ''00010203-0405-4607-8809-0a0b0c0d0e0f''"

lemma demo_newMemberID: "newMemberID demo_entropy = Some demo_id"
  by code_simp

lemma demo_email: "validateMemberEmail ''a@b.co'' = None"
  by (simp add: validateMemberEmail_def blank_def runes_def decode_rune_def is_space_def at_sign_def
      last_index_byte_def contains_any_def ws_chars_def Let_def)

definition demo_lifecycle :: "(tx_fault \<times> member_op) event list" where
  "demo_lifecycle = [Do (TxOk, OpAdd demo_entropy 0 ''a@b.co'' ''A''), Do (TxOk, OpMarkInvited demo_id),
     Restart, Do (TxOk, OpActivate demo_id)]"

lemma demo_lifecycle_active:
  "\<exists>m. members_view (members_run demo_lifecycle members_boot) demo_id = Some m \<and> m_Status m = StatusActive"
  using registry.run_healthy [of members_boot demo_lifecycle] members_boot_live
  by (simp add: demo_lifecycle_def demo_newMemberID demo_email)

subsection \<open>Properties\<close>

text \<open>
  C35. Whatever faults strike its transactions and whenever the process restarts, the registry
  shows its readers the result of running the contract over some of the requested operations,
  in the order they were requested; with a healthy database, over all of them.
\<close>

theorem members_refine_registry:
  assumes "members_live s"
  shows "(\<exists>ops. subseq ops (event_ops es) \<and>
            members_view (members_run es s) = fold (\<lambda>fo. registry_spec (snd fo)) ops (members_view s)) \<and>
         (list_all (\<lambda>fo. fst fo = TxOk) (event_ops es) \<longrightarrow>
            members_view (members_run es s) = fold (\<lambda>fo. registry_spec (snd fo)) (event_ops es) (members_view s))"
  using registry.run_refines [OF assms] registry.run_healthy [OF assms] by blast

theorem members_refine_registry_witness:
  "members_view (members_run [Do (TxOk, OpAdd demo_entropy 0 ''a@b.co'' ''A''), Restart,
       Do (TxOk, OpMarkInvited demo_id)] members_boot) demo_id =
     registry_spec (OpMarkInvited demo_id)
       (registry_spec (OpAdd demo_entropy 0 ''a@b.co'' ''A'') Map.empty) demo_id"
  using members_refine_registry [of members_boot "[Do (TxOk, OpAdd demo_entropy 0 ''a@b.co'' ''A''), Restart,
       Do (TxOk, OpMarkInvited demo_id)]"] members_boot_live
  by (simp del: registry_spec.simps)

text \<open>
  C16. Nobody becomes active around the invitation: a member that was not there and is now active
  (or disabled while active) was activated by \<open>Activate\<close>, at a moment when its status was
  invited, and before that \<open>MarkInvited\<close> or \<open>Reinvite\<close> had invited it. No generic update,
  disable/restore cycle, fault or restart leads there.
\<close>

theorem members_active_only_through_invite:
  assumes "members_live s" "members_view s i = None"
    and "members_view (members_run es s) i = Some m" "m_Status m = StatusActive \<or> m_DisabledFrom m = StatusActive"
  shows "\<exists>es1 f1 op es2 f2 es3. es = es1 @ Do (f1, op) # es2 @ Do (f2, OpActivate i) # es3 \<and>
    (op = OpMarkInvited i \<or> op = OpReinvite i)"
proof -
  from active_cause [OF assms(1-3)] assms(4) obtain pre f post m0
    where es: "es = pre @ Do (f, OpActivate i) # post"
      and m0: "members_view (members_run pre s) i = Some m0" "m_Status m0 = StatusInvited"
    unfolding reached_active_def by blast
  from invited_cause [OF assms(1,2) m0(1)] m0(2) obtain p1 f1 op p2
    where "pre = p1 @ Do (f1, op) # p2" "op = OpMarkInvited i \<or> op = OpReinvite i"
    unfolding reached_invited_def by blast
  then show ?thesis unfolding es by simp blast
qed

theorem members_active_only_through_invite_witness:
  "\<exists>es1 f1 op es2 f2 es3. demo_lifecycle = es1 @ Do (f1, op) # es2 @ Do (f2, OpActivate demo_id) # es3 \<and>
    (op = OpMarkInvited demo_id \<or> op = OpReinvite demo_id)"
proof -
  from demo_lifecycle_active obtain m where
    m: "members_view (members_run demo_lifecycle members_boot) demo_id = Some m" "m_Status m = StatusActive" by blast
  have l: "members_live members_boot" "members_view members_boot demo_id = None"
    using members_boot_live by simp_all
  show ?thesis by (rule members_active_only_through_invite [OF l m(1)]) (simp add: m(2))
qed

text \<open>
  An operation that reports an error has changed nothing: neither the maps nor the table.
\<close>

theorem members_error_frame:
  "error_frame s (members_Add f rnd now e d s) \<and> error_frame s (members_Update f i d' st s) \<and>
   error_frame s (Activate f i s) \<and> error_frame s (SetSessionExpired f now i s) \<and>
   error_frame s (Reinvite f i s) \<and> error_frame s (MarkInvited f i s) \<and>
   error_frame s (members_Remove f i s) \<and> error_frame s (members_LoadFromDB q s)"
proof (intro conjI Update_frame)
  show "error_frame s (members_Add f rnd now e d s)"
    by (simp add: members_Add_def Let_def split: option.split sum.split)
  show "error_frame s (members_LoadFromDB q s)"
    by (simp add: members_LoadFromDB_def split: option.split prod.split)
qed (simp_all add: member_ops_defs Let_def split: option.split sum.split)

text \<open>
  A member's identity is immutable: as long as no removal of it is requested, its id, email and
  creation time stay what they were, whatever else is requested, fails or restarts.
\<close>

theorem members_identity_immutable:
  assumes "members_live s" "members_view s i = Some m" "\<forall>f. Do (f, OpRemove i) \<notin> set es"
  shows "\<exists>m'. members_view (members_run es s) i = Some m' \<and> m_ID m' = i \<and>
    m_Email m' = m_Email m \<and> m_CreatedAt m' = m_CreatedAt m"
  using assms
proof (induction es arbitrary: s m)
  case Nil
  then show ?case using members_view_key [of s i m] by (auto simp: members_live_def)
next
  case (Cons e es)
  then obtain m1 where m1: "members_view (run_event members_step members_restart e s) i = Some m1"
      "m_Email m1 = m_Email m" "m_CreatedAt m1 = m_CreatedAt m"
    using members_event_keeps [of s i m e] by auto
  from Cons.IH [OF registry.event_inv [OF Cons.prems(1)] m1(1)] Cons.prems(3) m1 show ?case by auto
qed

theorem members_identity_immutable_witness:
  "\<exists>m'. members_view (members_run [Do (TxCommitErr, OpReinvite demo_id), Restart,
      Do (TxOk, OpUpdate demo_id (Some ''B'') (Some StatusDisabled))]
      (members_run demo_lifecycle members_boot)) demo_id = Some m' \<and> m_ID m' = demo_id"
proof -
  from demo_lifecycle_active obtain m where
    m: "members_view (members_run demo_lifecycle members_boot) demo_id = Some m" by blast
  have l: "members_live (members_run demo_lifecycle members_boot)"
    using registry.run_inv members_boot_live by blast
  from members_identity_immutable [OF l m, of "[Do (TxCommitErr, OpReinvite demo_id), Restart,
      Do (TxOk, OpUpdate demo_id (Some ''B'') (Some StatusDisabled))]"]
  show ?thesis by auto
qed

end
