(* ===== verification/Forest.thy ===== *)
theory Forest
  imports Prelude
begin

text \<open>
  Trees given twice, as the group store keeps them: by the parent of each node and by its list
  of children. Walks up the parent chain are bounded by a height; walks down collect a subtree
  with a set of visited nodes, or list it in depth-first order. The interface \<open>forest\<close> says
  when the two presentations agree, and gives the laws of the walks.
\<close>

subsection \<open>Walking up\<close>

text \<open>The chain from a node to its root, cut after \<open>n\<close> nodes, and whether it ends by then.\<close>

fun up :: "('a \<Rightarrow> 'a option) \<Rightarrow> nat \<Rightarrow> 'a \<Rightarrow> 'a list" where
  "up par 0 x = []"
| "up par (Suc n) x = x # (case par x of None \<Rightarrow> [] | Some y \<Rightarrow> up par n y)"

fun fits :: "('a \<Rightarrow> 'a option) \<Rightarrow> nat \<Rightarrow> 'a \<Rightarrow> bool" where
  "fits par 0 x \<longleftrightarrow> False"
| "fits par (Suc n) x \<longleftrightarrow> (case par x of None \<Rightarrow> True | Some y \<Rightarrow> fits par n y)"

abbreviation above :: "('a \<Rightarrow> 'a option) \<Rightarrow> 'a \<Rightarrow> 'a \<Rightarrow> bool" where
  "above par \<equiv> rtranclp (\<lambda>x y. par x = Some y)"

lemma fits_more: "fits par n x \<Longrightarrow> n \<le> m \<Longrightarrow> fits par m x \<and> up par m x = up par n x"
proof (induction n arbitrary: x m)
  case (Suc n)
  then obtain k where k: "m = Suc k" "n \<le> k" by (cases m) auto
  show ?case
  proof (cases "par x")
    case (Some y)
    with Suc.prems(1) have "fits par n y" by simp
    from Suc.IH [OF this k(2)] Some show ?thesis by (simp add: k(1))
  qed (simp add: k(1))
qed simp

lemma fits_Suc: "fits par n x \<Longrightarrow> fits par (Suc n) x"
  using fits_more [of par n x "Suc n"] by simp

lemma fits_length: "fits par n x \<Longrightarrow> 0 < length (up par n x) \<and> length (up par n x) \<le> n"
  by (induction n arbitrary: x) (auto split: option.splits)

lemma fits_exact: "fits par n x \<Longrightarrow> length (up par n x) \<le> m \<Longrightarrow> fits par m x"
proof (induction n arbitrary: x m)
  case (Suc n)
  then show ?case by (cases m) (auto split: option.splits)
qed simp

lemma above_from: "above par x z \<longleftrightarrow> z = x \<or> (\<exists>y. par x = Some y \<and> above par y z)"
  by (auto elim: converse_rtranclpE intro: converse_rtranclp_into_rtranclp)

lemma above_linear: "above par x y \<Longrightarrow> above par x z \<Longrightarrow> above par y z \<or> above par z y"
proof (induction rule: rtranclp_induct)
  case (step y w)
  then consider "above par y z" | "above par z y" by blast
  then show ?case
  proof cases
    case 1
    with step.hyps(2) show ?thesis by (subst (asm) above_from) auto
  next
    case 2
    with step.hyps(2) show ?thesis by (auto intro: rtranclp.rtrancl_into_rtrancl)
  qed
qed blast

lemma up_above: "fits par n x \<Longrightarrow> y \<in> set (up par n x) \<longleftrightarrow> above par x y"
proof (induction n arbitrary: x)
  case (Suc n)
  then show ?case
    by (subst above_from) (auto split: option.splits)
qed simp

lemma up_length_less:
  "fits par n x \<Longrightarrow> par x = Some z \<Longrightarrow> above par z y \<Longrightarrow> length (up par n y) < length (up par n x) \<and> fits par n y"
proof (induction n arbitrary: x y z)
  case (Suc n)
  then have f: "fits par n z" by simp
  from Suc.prems(3) consider "y = z" | w where "par z = Some w" "above par w y"
    by (subst (asm) above_from) auto
  then show ?case
  proof cases
    case 1
    with f Suc.prems fits_more [OF f, of "Suc n"] show ?thesis by simp
  next
    case 2
    from Suc.IH [OF f this] have "length (up par n y) < length (up par n z)" "fits par n y" by simp_all
    with Suc.prems fits_more [of par n y "Suc n"] show ?thesis by simp
  qed
qed simp

lemma up_distinct: "fits par n x \<Longrightarrow> distinct (up par n x)"
proof (induction n arbitrary: x)
  case (Suc n)
  have "x \<notin> set (up par n y)" if y: "par x = Some y" for y
  proof
    assume "x \<in> set (up par n y)"
    with Suc.prems y have "above par y x" by (simp add: up_above)
    from up_length_less [OF Suc.prems y this] show False by simp
  qed
  with Suc show ?case by (auto split: option.splits)
qed simp

lemma no_cycle: "fits par n x \<Longrightarrow> par x = Some y \<Longrightarrow> \<not> above par y x"
  using up_length_less [of par n x y x] by blast

lemma above_antisym: "fits par n x \<Longrightarrow> above par x y \<Longrightarrow> above par y x \<Longrightarrow> x = y"
proof -
  assume f: "fits par n x" and a: "above par x y" "above par y x"
  from a(1) consider "y = x" | z where "par x = Some z" "above par z y" by (subst (asm) above_from) auto
  then show ?thesis
  proof cases
    case 2
    with a(2) have "above par z x" by simp
    with no_cycle [OF f 2(1)] show ?thesis by simp
  qed simp
qed

text \<open>A changed parent function gives the same chain where it agrees along the chain.\<close>

lemma up_cong:
  "fits par n x \<Longrightarrow> (\<And>y. above par x y \<Longrightarrow> par' y = par y) \<Longrightarrow> up par' n x = up par n x \<and> fits par' n x"
proof (induction n arbitrary: x)
  case (Suc n)
  have "par' x = par x" by (rule Suc.prems(2)) simp
  moreover have "up par' n z = up par n z \<and> fits par' n z" if z: "par x = Some z" for z
    using Suc.prems z by (intro Suc.IH) (auto intro: converse_rtranclp_into_rtranclp)
  ultimately show ?case using Suc.prems(1) by (auto split: option.splits)
qed simp

subsection \<open>Collecting a subtree\<close>

definition entries :: "('k, 'v list) gomap \<Rightarrow> 'k \<Rightarrow> 'v list" where
  "entries m k = (case map_of m k of None \<Rightarrow> [] | Some l \<Rightarrow> l)"

lemma entries_simps [gomap_simps]:
  "entries (AList.update k l m) k' = (if k' = k then l else entries m k')"
  "entries (AList.delete k m) k' = (if k' = k then [] else entries m k')"
  "entries [] k = []"
  by (auto simp: entries_def update_conv' delete_conv')

lemma entries_range: "set (entries m k) \<subseteq> \<Union> (set ` snd ` set m)"
proof (cases "map_of m k")
  case (Some l)
  then have "(k, l) \<in> set m" by (rule map_of_SomeD)
  with Some show ?thesis by (force simp: entries_def)
qed (simp add: entries_def)

text \<open>
  The recursion that marks a node and then its children in turn, skipping marked ones, with the
  nodes still to visit as an explicit stack.
\<close>

function collect :: "('a, 'a list) gomap \<Rightarrow> 'a list \<Rightarrow> 'a list \<Rightarrow> 'a list" where
  "collect kids [] seen = seen"
| "collect kids (x # todo) seen =
     (if x \<in> set seen then collect kids todo seen
      else collect kids (entries kids x @ todo) (x # seen))"
  by pat_completeness auto

definition collect_space :: "('a, 'a list) gomap \<Rightarrow> 'a list \<Rightarrow> 'a list \<Rightarrow> 'a set" where
  "collect_space kids todo seen = (set todo \<union> \<Union> (set ` snd ` set kids)) - set seen"

lemma collect_space_finite [simp]: "finite (collect_space kids todo seen)"
  by (simp add: collect_space_def)

lemma collect_space_less:
  assumes "x \<notin> set seen"
  shows "card (collect_space kids (entries kids x @ todo) (x # seen)) < card (collect_space kids (x # todo) seen)"
proof (rule psubset_card_mono)
  show "collect_space kids (entries kids x @ todo) (x # seen) \<subset> collect_space kids (x # todo) seen"
    using assms entries_range [of kids x] unfolding collect_space_def by auto
qed simp

lemma collect_space_skip: "x \<in> set seen \<Longrightarrow> collect_space kids (x # todo) seen = collect_space kids todo seen"
  by (auto simp: collect_space_def)

termination collect
proof (relation "measures [\<lambda>(kids, todo, seen). card (collect_space kids todo seen), \<lambda>(kids, todo, seen). length todo]")
  fix kids :: "('a, 'a list) gomap" and x todo seen
  show "x \<in> set seen \<Longrightarrow> ((kids, todo, seen), (kids, x # todo, seen)) \<in>
    measures [\<lambda>(kids, todo, seen). card (collect_space kids todo seen), \<lambda>(kids, todo, seen). length todo]"
    by (simp add: collect_space_skip)
  show "x \<notin> set seen \<Longrightarrow> ((kids, entries kids x @ todo, x # seen), (kids, x # todo, seen)) \<in>
    measures [\<lambda>(kids, todo, seen). card (collect_space kids todo seen), \<lambda>(kids, todo, seen). length todo]"
    using collect_space_less [of x seen kids todo] by simp
qed simp

abbreviation below :: "('a, 'a list) gomap \<Rightarrow> 'a \<Rightarrow> 'a \<Rightarrow> bool" where
  "below kids \<equiv> rtranclp (\<lambda>x y. y \<in> set (entries kids x))"

lemma collect_covers: "set todo \<union> set seen \<subseteq> set (collect kids todo seen)"
  by (induction kids todo seen rule: collect.induct) auto

lemma collect_sound: "y \<in> set (collect kids todo seen) \<Longrightarrow> y \<in> set seen \<or> (\<exists>x \<in> set todo. below kids x y)"
proof (induction kids todo seen rule: collect.induct)
  case (2 kids x todo seen)
  show ?case
  proof (cases "x \<in> set seen")
    case True
    with 2 show ?thesis by auto
  next
    case False
    with "2.IH"(2) [OF False] "2.prems" have
      "y = x \<or> y \<in> set seen \<or> (\<exists>z \<in> set (entries kids x). below kids z y) \<or> (\<exists>z \<in> set todo. below kids z y)"
      by auto
    then show ?thesis by (auto intro: converse_rtranclp_into_rtranclp)
  qed
qed simp

lemma collect_closed:
  assumes "\<And>y. y \<in> set seen \<Longrightarrow> set (entries kids y) \<subseteq> set seen \<union> set todo"
    and "z \<in> set (collect kids todo seen)"
  shows "set (entries kids z) \<subseteq> set (collect kids todo seen)"
  using assms
proof (induction kids todo seen rule: collect.induct)
  case (2 kids x todo seen)
  show ?case
  proof (cases "x \<in> set seen")
    case True
    then have "set (entries kids y) \<subseteq> set seen \<union> set todo" if "y \<in> set seen" for y
      using "2.prems"(1) [OF that] by auto
    with "2.IH"(1) [OF True] "2.prems"(2) True show ?thesis by simp
  next
    case False
    have "set (entries kids y) \<subseteq> set (x # seen) \<union> set (entries kids x @ todo)" if "y \<in> set (x # seen)" for y
      using that "2.prems"(1) [of y] by auto
    with "2.IH"(2) [OF False] "2.prems"(2) False show ?thesis by simp
  qed
qed simp

lemma collect_distinct: "distinct seen \<Longrightarrow> distinct (collect kids todo seen)"
  by (induction kids todo seen rule: collect.induct) auto

text \<open>From a set closed under children, collecting adds exactly what lies below the new nodes.\<close>

lemma collect_set:
  assumes closed: "\<And>y. y \<in> set seen \<Longrightarrow> set (entries kids y) \<subseteq> set seen"
  shows "set (collect kids todo seen) = set seen \<union> {y. \<exists>x \<in> set todo. below kids x y}"
proof
  show "set (collect kids todo seen) \<subseteq> set seen \<union> {y. \<exists>x \<in> set todo. below kids x y}"
    using collect_sound [of _ kids todo seen] by blast
  have "y \<in> set (collect kids todo seen)" if "below kids x y" "x \<in> set todo" for x y
    using that
  proof (induction rule: rtranclp_induct)
    case base
    then show ?case using collect_covers by fastforce
  next
    case (step y z)
    have "set (entries kids y) \<subseteq> set (collect kids todo seen)"
      by (rule collect_closed) (use closed step in auto)
    with step show ?case by auto
  qed
  then show "set seen \<union> {y. \<exists>x \<in> set todo. below kids x y} \<subseteq> set (collect kids todo seen)"
    using collect_covers by fastforce
qed

lemma collect_set_closed:
  assumes "\<And>y. y \<in> set seen \<Longrightarrow> set (entries kids y) \<subseteq> set seen" "y \<in> set (collect kids todo seen)"
  shows "set (entries kids y) \<subseteq> set (collect kids todo seen)"
  by (rule collect_closed) (use assms in auto)

declare collect.simps [simp del]

text \<open>Collecting several subtrees into one set, as the scope loops do.\<close>

lemma fold_collect_set:
  assumes "\<And>y. y \<in> set seen \<Longrightarrow> set (entries kids y) \<subseteq> set seen"
  shows "set (fold (\<lambda>x. collect kids [x]) xs seen) = set seen \<union> {y. \<exists>x \<in> set xs. below kids x y}"
  using assms
proof (induction xs arbitrary: seen)
  case (Cons x xs)
  have "set (entries kids y) \<subseteq> set (collect kids [x] seen)" if "y \<in> set (collect kids [x] seen)" for y
    using Cons.prems that by (rule collect_set_closed)
  from Cons.IH [OF this] collect_set [OF Cons.prems, of "[x]"] show ?case by auto
qed simp

subsection \<open>Listing a subtree in depth-first order\<close>

text \<open>
  \<open>preorder n kids emit d x\<close> lists the subtree of \<open>x\<close>, a node before its children and siblings
  in the order \<open>kids\<close> gives them; \<open>d\<close> counts the level. It is a plain recursion without a
  visited set: \<open>n\<close> bounds how deep it may go, and running out of it is \<open>None\<close>.
\<close>

fun preorder :: "nat \<Rightarrow> ('a \<Rightarrow> 'a list) \<Rightarrow> ('a \<Rightarrow> nat \<Rightarrow> 'b) \<Rightarrow> nat \<Rightarrow> 'a \<Rightarrow> 'b list option" where
  "preorder 0 kids emit d x = None"
| "preorder (Suc n) kids emit d x =
     map_option (\<lambda>ls. emit x d # concat ls) (those (map (preorder n kids emit (Suc d)) (kids x)))"

lemma those_map_Some: "\<forall>x \<in> set xs. f x = Some (g x) \<Longrightarrow> those (map f xs) = Some (map g xs)"
  by (induction xs) auto

fun levels :: "nat \<Rightarrow> ('a \<Rightarrow> 'a list) \<Rightarrow> nat \<Rightarrow> 'a \<Rightarrow> ('a \<times> nat) list" where
  "levels 0 kids d x = []"
| "levels (Suc n) kids d x = (x, d) # concat (map (levels n kids (Suc d)) (kids x))"

text \<open>No path down from \<open>x\<close> is longer than \<open>n\<close> nodes.\<close>

fun shallow :: "nat \<Rightarrow> ('a \<Rightarrow> 'a list) \<Rightarrow> 'a \<Rightarrow> bool" where
  "shallow 0 kids x \<longleftrightarrow> False"
| "shallow (Suc n) kids x \<longleftrightarrow> list_all (shallow n kids) (kids x)"

lemma preorder_levels:
  "shallow n kids x \<Longrightarrow> preorder n kids emit d x = Some (map (\<lambda>(y, e). emit y e) (levels n kids d x))"
proof (induction n arbitrary: d x)
  case (Suc n)
  have "those (map (preorder n kids emit (Suc d)) (kids x)) =
      Some (map (\<lambda>y. map (\<lambda>(y, e). emit y e) (levels n kids (Suc d) y)) (kids x))"
    using Suc by (intro those_map_Some) (auto simp: list_all_iff)
  then show ?case by (simp add: map_concat comp_def)
qed simp

subsection \<open>The interface\<close>

text \<open>
  A state presents a forest by the parent of each node and by a list of children per node; in a
  good state the two agree, children are listed once, and no chain is longer than the height.
\<close>

locale forest =
  fixes par :: "'s \<Rightarrow> 'a \<Rightarrow> 'a option"
    and kids :: "'s \<Rightarrow> 'a \<Rightarrow> 'a list"
    and height :: nat
    and inv :: "'s \<Rightarrow> bool"
  assumes chains: "inv s \<Longrightarrow> fits (par s) height x"
    and kids_par: "inv s \<Longrightarrow> y \<in> set (kids s x) \<longleftrightarrow> par s y = Some x"
    and kids_distinct: "inv s \<Longrightarrow> distinct (kids s x)"
begin

lemma chain_step: "inv s \<Longrightarrow> par s x = Some y \<Longrightarrow> up (par s) height x = x # up (par s) height y"
proof -
  assume i: "inv s" and p: "par s x = Some y"
  obtain h where h: "height = Suc h" using chains [OF i, of x] by (cases height) auto
  with chains [OF i, of x] p have "fits (par s) h y" by simp
  from fits_more [OF this, of height] h p show ?thesis by simp
qed

lemma chain_root: "inv s \<Longrightarrow> par s x = None \<Longrightarrow> up (par s) height x = [x]"
  using chains [of s x] by (cases height) auto

lemma chain_above: "inv s \<Longrightarrow> y \<in> set (up (par s) height x) \<longleftrightarrow> above (par s) x y"
  by (rule up_above [OF chains])

lemma descends_iff: "inv s \<Longrightarrow> rtranclp (\<lambda>x y. y \<in> set (kids s x)) x y \<longleftrightarrow> above (par s) y x"
proof -
  assume i: "inv s"
  have "(\<lambda>x y. y \<in> set (kids s x)) = conversep (\<lambda>x y. par s x = Some y)"
    using kids_par [OF i] by (auto simp: fun_eq_iff conversep_iff)
  then show ?thesis by (simp add: rtranclp_conversep)
qed

lemma shallow_below:
  "inv s \<Longrightarrow> height - length (up (par s) height x) < n \<Longrightarrow> shallow n (kids s) x"
proof (induction n arbitrary: x)
  case (Suc n)
  have "shallow n (kids s) y" if "y \<in> set (kids s x)" for y
  proof (rule Suc.IH [OF Suc.prems(1)])
    from that have "par s y = Some x" using kids_par Suc.prems(1) by blast
    then have "length (up (par s) height y) = Suc (length (up (par s) height x))"
      using chain_step Suc.prems(1) by simp
    then show "height - length (up (par s) height y) < n"
      using Suc.prems(2) fits_length [OF chains [OF Suc.prems(1)], of y] by linarith
  qed
  then show ?case by (simp add: list_all_iff)
qed simp

lemma chain_nonempty: "inv s \<Longrightarrow> 0 < length (up (par s) height x) \<and> length (up (par s) height x) \<le> height"
  by (rule fits_length [OF chains])

lemma shallow_height: "inv s \<Longrightarrow> shallow height (kids s) x"
proof (rule shallow_below)
  assume "inv s"
  then have "0 < length (up (par s) height x)" "length (up (par s) height x) \<le> height"
    using chain_nonempty by blast+
  then show "height - length (up (par s) height x) < height" by linarith
qed

lemma levels_set:
  assumes i: "inv s" and sh: "shallow n (kids s) x"
  shows "(y, e) \<in> set (levels n (kids s) d x) \<longleftrightarrow>
    above (par s) y x \<and> e + length (up (par s) height x) = d + length (up (par s) height y)"
  using sh
proof (induction n arbitrary: d x)
  case (Suc n)
  have k: "above (par s) y z \<and> e + length (up (par s) height z) = Suc d + length (up (par s) height y) \<longleftrightarrow>
      (y, e) \<in> set (levels n (kids s) (Suc d) z)" if "z \<in> set (kids s x)" for z
    using Suc that by (auto simp: list_all_iff)
  have l: "length (up (par s) height z) = Suc (length (up (par s) height x))" if "z \<in> set (kids s x)" for z
    using that i by (simp add: kids_par chain_step)
  have s1: "(y, e) \<in> set (levels (Suc n) (kids s) d x) \<longleftrightarrow> y = x \<and> e = d \<or>
      (\<exists>z \<in> set (kids s x). above (par s) y z \<and> e + length (up (par s) height x) = d + length (up (par s) height y))"
    using k l by auto
  have a: "above (par s) y x \<longleftrightarrow> y = x \<or> (\<exists>z \<in> set (kids s x). above (par s) y z)"
    using i by (auto simp: kids_par intro: rtranclp.rtrancl_into_rtrancl elim: rtranclp.cases)
  show ?case
  proof (cases "y = x")
    case True
    have "\<not> above (par s) x z" if "z \<in> set (kids s x)" for z
      using that i no_cycle [OF chains [OF i], of z x] by (simp add: kids_par)
    with True s1 show ?thesis by auto
  next
    case False
    with s1 a show ?thesis by blast
  qed
qed simp

lemma levels_distinct:
  assumes i: "inv s" and sh: "shallow n (kids s) x"
  shows "distinct (map fst (levels n (kids s) d x))"
  using sh
proof (induction n arbitrary: d x)
  case (Suc n)
  have in_tree: "y \<in> fst ` set (levels n (kids s) (Suc d) z) \<Longrightarrow> above (par s) y z" if "z \<in> set (kids s x)" for y z
    using levels_set [OF i, of n z] that Suc.prems by (force simp: list_all_iff)
  have split: "z = w" if "z \<in> set (kids s x)" "w \<in> set (kids s x)" "above (par s) y z" "above (par s) y w" for y z w
  proof -
    have zw: "par s z = Some x" "par s w = Some x" using that i by (simp_all add: kids_par)
    have no: "\<not> above (par s) a b" if "par s a = Some x" "par s b = Some x" "a \<noteq> b" for a b
    proof
      assume "above (par s) a b"
      with that have "above (par s) x b" by (subst (asm) above_from) auto
      with no_cycle [OF chains [OF i] that(2)] show False by simp
    qed
    from above_linear [OF that(3,4)] no [OF zw] no [OF zw(2,1)] show ?thesis by auto
  qed
  have d1: "distinct (concat (map (\<lambda>y. map fst (levels n (kids s) (Suc d) y)) zs))"
    if "distinct zs" "set zs \<subseteq> set (kids s x)" for zs
    using that
  proof (induction zs)
    case (Cons z zs)
    have "distinct (map fst (levels n (kids s) (Suc d) z))"
      using Suc Cons.prems by (auto simp: list_all_iff)
    moreover have "fst ` set (levels n (kids s) (Suc d) z) \<inter> fst ` set (levels n (kids s) (Suc d) w) = {}"
      if w: "w \<in> set zs" for w
    proof (rule ccontr)
      assume "fst ` set (levels n (kids s) (Suc d) z) \<inter> fst ` set (levels n (kids s) (Suc d) w) \<noteq> {}"
      then obtain y where y: "y \<in> fst ` set (levels n (kids s) (Suc d) z)" "y \<in> fst ` set (levels n (kids s) (Suc d) w)"
        by blast
      have zw: "z \<in> set (kids s x)" "w \<in> set (kids s x)" using Cons.prems w by auto
      have "z = w" by (rule split [OF zw in_tree [OF zw(1) y(1)] in_tree [OF zw(2) y(2)]])
      with Cons.prems w show False by simp
    qed
    moreover have "distinct (concat (map (\<lambda>y. map fst (levels n (kids s) (Suc d) y)) zs))"
      using Cons by simp
    ultimately show ?case by (simp add: Int_UN_distrib)
  qed simp
  have "x \<notin> fst ` set (levels n (kids s) (Suc d) z)" if "z \<in> set (kids s x)" for z
    using in_tree [OF that] no_cycle [OF chains [OF i], of z x] that i by (auto simp: kids_par)
  then show ?case
    using d1 [of "kids s x"] kids_distinct [OF i] by (auto simp: map_concat comp_def)
qed simp

end

end
