(* ===== verification/Group_Types.thy ===== *)
theory Group_Types
  imports Go_Text Store_Time Forest
begin

text \<open>
  The data of the group store (\<open>internal/groups\<close>): roles, groups, memberships and read
  exclusions, the errors, and the three tables they are written through to, with the
  constraints of the schema.
\<close>

subsection \<open>Roles\<close>

type_synonym role = string

definition RoleRead :: role where "RoleRead = ''read''"
definition RoleWrite :: role where "RoleWrite = ''write''"
definition RoleEdit :: role where "RoleEdit = ''edit''"

definition roleRanks :: "(role, nat) gomap" where
  "roleRanks = [(RoleRead, 1), (RoleWrite, 2), (RoleEdit, 3)]"

definition Rank :: "role \<Rightarrow> nat" where
  "Rank r = (case map_of roleRanks r of None \<Rightarrow> 0 | Some n \<Rightarrow> n)"

definition Role_Valid :: "role \<Rightarrow> bool" where
  "Role_Valid r \<longleftrightarrow> Rank r \<noteq> 0"

definition AtLeast :: "role \<Rightarrow> role \<Rightarrow> bool" where
  "AtLeast r other \<longleftrightarrow> Rank r \<noteq> 0 \<and> Rank r \<ge> Rank other"

definition ParseRole :: "string \<Rightarrow> role option" where
  "ParseRole s = (if Role_Valid s then Some s else None)"

definition maxRole :: "role \<Rightarrow> role \<Rightarrow> role" where
  "maxRole a b = (if Rank b > Rank a then b else a)"

lemma Rank_cases: "Rank r = (if r = RoleRead then 1 else if r = RoleWrite then 2 else if r = RoleEdit then 3 else 0)"
  by (simp add: Rank_def roleRanks_def RoleRead_def RoleWrite_def RoleEdit_def)

lemma Role_distinct [simp]:
  "RoleRead \<noteq> RoleWrite" "RoleRead \<noteq> RoleEdit" "RoleWrite \<noteq> RoleEdit"
  "RoleWrite \<noteq> RoleRead" "RoleEdit \<noteq> RoleRead" "RoleEdit \<noteq> RoleWrite"
  by (simp_all add: RoleRead_def RoleWrite_def RoleEdit_def)

lemma Rank_simps [simp]: "Rank RoleRead = 1" "Rank RoleWrite = 2" "Rank RoleEdit = 3" "Rank [] = 0"
  by (simp_all add: Rank_cases) (simp add: RoleRead_def RoleWrite_def RoleEdit_def)

lemma Role_Valid_iff: "Role_Valid r \<longleftrightarrow> r \<in> {RoleRead, RoleWrite, RoleEdit}"
  by (simp add: Role_Valid_def Rank_cases)

text \<open>Rank orders the valid roles without ties, so the higher of two roles is well defined.\<close>

lemma Rank_inj: "Role_Valid r \<Longrightarrow> Rank r = Rank r' \<Longrightarrow> r = r'"
  by (simp add: Role_Valid_def Rank_cases split: if_splits)

lemma AtLeast_read: "AtLeast r RoleRead \<longleftrightarrow> Role_Valid r"
  by (auto simp: AtLeast_def Role_Valid_def)

lemma Rank_maxRole: "Rank (maxRole a b) = max (Rank a) (Rank b)"
  by (simp add: maxRole_def max_def)

subsection \<open>Records\<close>

record group =
  g_ID :: string
  g_Name :: string
  g_ParentID :: string
  g_CreatedAt :: string

record membership =
  mb_User :: string
  mb_GroupID :: string
  mb_Role :: role
  mb_GrantedBy :: string
  mb_GrantedAt :: string

record read_exclusion =
  ex_User :: string
  ex_GroupID :: string
  ex_RemovedBy :: string
  ex_RemovedAt :: string

record group_info =
  gi_ID :: string
  gi_Name :: string
  gi_ParentID :: string
  gi_CreatedAt :: string
  gi_Depth :: nat

record group_depth =
  gd_ID :: string
  gd_Name :: string
  gd_Depth :: nat

record membership_view =
  mv_GroupID :: string
  mv_GroupName :: string
  mv_Role :: role

record tree_node =
  tn_GroupID :: string
  tn_Name :: string
  tn_ParentID :: string
  tn_Depth :: nat
  tn_EffectiveRole :: role

record member_role_view =
  mrv_User :: string
  mrv_GroupID :: string
  mrv_GroupName :: string
  mrv_Role :: role

record permissions_view =
  pv_User :: string
  pv_Memberships :: "membership_view list"
  pv_Tree :: "tree_node list"

record tag_stat =
  ts_Total :: int
  ts_Sole :: int

text \<open>
  The engine's tag statistics: no provider wired, or a call that fails or answers per tag.
\<close>

type_synonym tag_stats_provider = "(string list \<Rightarrow> (string, tag_stat) gomap option) option"

datatype group_error = ErrGroupNotFound string | ErrDuplicateName string
  | ErrAmbiguousName string nat | ErrCycle string | ErrNotAdmin string
  | ErrNoWriteGroup string | ErrNotDirectMember string string
  | ErrInsufficientRole string string role role
  | ErrHasChildren string nat | ErrHasMembers string nat | ErrSoleTagRecords string int
  | ErrTagStatsUnavailable string
  | GroupNameInvalid name_error | GroupTooDeep string | GroupRand | InvalidRole role
  | PersonKeyInvalid key_error | GroupPersist persist_error
  | GroupLoadQuery | GroupLoadParent string string | GroupLoadMissing string string

subsection \<open>Tables\<close>

record groups_db =
  t_groups :: "group list"
  t_memberships :: "membership list"
  t_exclusions :: "read_exclusion list"

definition mb_key :: "membership \<Rightarrow> string \<times> string" where
  "mb_key m = (mb_User m, mb_GroupID m)"

definition ex_key :: "read_exclusion \<Rightarrow> string \<times> string" where
  "ex_key e = (ex_User e, ex_GroupID e)"

definition group_check :: "group \<Rightarrow> bool" where
  "group_check g \<longleftrightarrow> g_ID g \<noteq> [] \<and> g_Name g \<noteq> [] \<and> CHR ''/'' \<notin> set (g_Name g)"

text \<open>\<open>INSERT INTO groups\<close>\<close>

definition sql_insert_group :: "group \<Rightarrow> groups_db \<Rightarrow> sql_error + groups_db" where
  "sql_insert_group g d =
     (if \<not> group_check g then Inl SqlCheck
      else if list_ex (\<lambda>x. g_ID x = g_ID g) (t_groups d) then Inl SqlPrimaryKey
      else if list_ex (\<lambda>x. g_ParentID x = g_ParentID g \<and> g_Name x = g_Name g) (t_groups d) then Inl SqlUnique
      else Inr (d\<lparr>t_groups := t_groups d @ [g]\<rparr>))"

text \<open>\<open>UPDATE groups SET name = ? WHERE id = ?\<close>\<close>

definition sql_rename_group :: "string \<Rightarrow> string \<Rightarrow> groups_db \<Rightarrow> nat \<times> groups_db" where
  "sql_rename_group i name d =
     (case sql_update (\<lambda>g. g_ID g = i) (\<lambda>g. g\<lparr>g_Name := name\<rparr>) (t_groups d) of
        (n, t) \<Rightarrow> (n, d\<lparr>t_groups := t\<rparr>))"

definition exec_rename_group :: "string \<Rightarrow> string \<Rightarrow> groups_db \<Rightarrow> sql_error + groups_db" where
  "exec_rename_group i name d =
     (if list_ex (\<lambda>g. g_ID g = i \<and> \<not> group_check (g\<lparr>g_Name := name\<rparr>)) (t_groups d) then Inl SqlCheck
      else if list_ex (\<lambda>g. g_ID g = i \<and>
             list_ex (\<lambda>x. g_ID x \<noteq> i \<and> g_ParentID x = g_ParentID g \<and> g_Name x = name) (t_groups d)) (t_groups d)
      then Inl SqlUnique
      else expect_rows 1 (sql_rename_group i name d))"

text \<open>
  \<open>DELETE FROM groups WHERE id = ?\<close>: memberships restrict the deletion, exclusions cascade.
\<close>

definition exec_delete_group :: "string \<Rightarrow> groups_db \<Rightarrow> sql_error + groups_db" where
  "exec_delete_group i d =
     (if list_ex (\<lambda>g. g_ID g = i) (t_groups d) \<and> list_ex (\<lambda>m. mb_GroupID m = i) (t_memberships d)
      then Inl SqlForeignKey
      else case sql_delete (\<lambda>g. g_ID g = i) (t_groups d) of
        (n, t) \<Rightarrow> expect_rows 1 (n, d\<lparr>t_groups := t,
                     t_exclusions := snd (sql_delete (\<lambda>e. ex_GroupID e = i) (t_exclusions d))\<rparr>))"

text \<open>
  \<open>INSERT INTO memberships ... ON CONFLICT(user, group_id) DO UPDATE SET role, granted_by\<close>
\<close>

definition exec_upsert_membership :: "membership \<Rightarrow> groups_db \<Rightarrow> sql_error + groups_db" where
  "exec_upsert_membership m d =
     (if \<not> Role_Valid (mb_Role m) then Inl SqlCheck
      else if list_ex (\<lambda>x. mb_key x = mb_key m) (t_memberships d)
      then Inr (d\<lparr>t_memberships := snd (sql_update (\<lambda>x. mb_key x = mb_key m)
              (\<lambda>x. x\<lparr>mb_Role := mb_Role m, mb_GrantedBy := mb_GrantedBy m\<rparr>) (t_memberships d))\<rparr>)
      else if \<not> list_ex (\<lambda>g. g_ID g = mb_GroupID m) (t_groups d) then Inl SqlForeignKey
      else Inr (d\<lparr>t_memberships := t_memberships d @ [m]\<rparr>))"

definition exec_delete_memberships :: "(membership \<Rightarrow> bool) \<Rightarrow> nat \<Rightarrow> groups_db \<Rightarrow> sql_error + groups_db" where
  "exec_delete_memberships p want d =
     (case sql_delete p (t_memberships d) of (n, t) \<Rightarrow> expect_rows want (n, d\<lparr>t_memberships := t\<rparr>))"

definition exec_insert_exclusion :: "read_exclusion \<Rightarrow> groups_db \<Rightarrow> sql_error + groups_db" where
  "exec_insert_exclusion e d =
     (if list_ex (\<lambda>x. ex_key x = ex_key e) (t_exclusions d) then Inl SqlPrimaryKey
      else if \<not> list_ex (\<lambda>g. g_ID g = ex_GroupID e) (t_groups d) then Inl SqlForeignKey
      else Inr (d\<lparr>t_exclusions := t_exclusions d @ [e]\<rparr>))"

definition sql_delete_exclusions :: "(read_exclusion \<Rightarrow> bool) \<Rightarrow> groups_db \<Rightarrow> nat \<times> groups_db" where
  "sql_delete_exclusions p d =
     (case sql_delete p (t_exclusions d) of (n, t) \<Rightarrow> (n, d\<lparr>t_exclusions := t\<rparr>))"

end
