(* ===== verification/Group_Store.thy ===== *)
theory Group_Store
  imports Group_Types Write_Through
begin

text \<open>
  The group store (\<open>internal/groups/store.go\<close> and the mutators of \<open>console.go\<close>): its maps,
  loading, resolution of references, the walks up the tree and every operation that changes
  state. Groups are objects that two maps point to (by id, and by name in buckets), so they
  live in a list of cells; memberships and exclusions are never changed in place and are kept
  by value. Every mutator runs its transaction first and touches the maps after the commit.
\<close>

definition MaxTreeDepth :: nat where "MaxTreeDepth = 8"

record group_store =
  gs_heap :: "group list"
  gs_groups :: "(string, nat) gomap"
  gs_byName :: "(string, nat list) gomap"
  gs_children :: "(string, string list) gomap"
  gs_memberships :: "(string, (string, membership) gomap) gomap"
  gs_excluded :: "(string, (string, read_exclusion) gomap) gomap"
  gs_orgAdmin :: string
  gs_validatePerson :: "(string \<Rightarrow> key_error option) option"
  gs_db :: "groups_db option"

type_synonym 'a gs_result = "(group_error + 'a) \<times> group_store"

definition groups_NewStore :: group_store where
  "groups_NewStore = \<lparr>gs_heap = [], gs_groups = [], gs_byName = [], gs_children = [],
     gs_memberships = [], gs_excluded = [], gs_orgAdmin = [], gs_validatePerson = None, gs_db = None\<rparr>"

definition SetPersonKeyValidator :: "(string \<Rightarrow> key_error option) option \<Rightarrow> group_store \<Rightarrow> group_store" where
  "SetPersonKeyValidator v s = s\<lparr>gs_validatePerson := v\<rparr>"

definition validatePersonKey :: "group_store \<Rightarrow> string \<Rightarrow> key_error option" where
  "validatePersonKey s key =
     (case gs_validatePerson s of Some v \<Rightarrow> v key | None \<Rightarrow> validateUserEmail key)"

definition SetOrgAdmin :: "string \<Rightarrow> group_store \<Rightarrow> group_store" where
  "SetOrgAdmin email s = s\<lparr>gs_orgAdmin := email\<rparr>"

definition IsOrgAdmin :: "group_store \<Rightarrow> string \<Rightarrow> bool" where
  "IsOrgAdmin s user \<longleftrightarrow> user \<noteq> [] \<and> gs_orgAdmin s = user"

text \<open>\<open>s.groups[id]\<close>, the object behind the pointer.\<close>

definition grp :: "group_store \<Rightarrow> string \<Rightarrow> group option" where
  "grp s = deref (gs_heap s) (gs_groups s)"

definition groups_persist :: "tx_fault \<Rightarrow> (groups_db \<Rightarrow> sql_error + groups_db) \<Rightarrow>
    group_store \<Rightarrow> group_error + groups_db option" where
  "groups_persist f fn s =
     (case run_tx f fn (gs_db s) of Inl e \<Rightarrow> Inl (GroupPersist e) | Inr db \<Rightarrow> Inr db)"

subsection \<open>Walks and resolution\<close>

text \<open>The loop of \<open>depthLocked\<close>: visited set, depth counter, current group.\<close>

function depth_walk :: "group_store \<Rightarrow> string \<Rightarrow> string list \<Rightarrow> nat \<Rightarrow> string \<Rightarrow> group_error + nat" where
  "depth_walk s i visited depth cur =
     (if cur = [] then Inr depth
      else if cur \<in> set visited \<or> depth \<ge> MaxTreeDepth then Inl (ErrCycle i)
      else case grp s cur of
        None \<Rightarrow> Inl (ErrGroupNotFound cur)
      | Some g \<Rightarrow> depth_walk s i (cur # visited) (depth + 1) (g_ParentID g))"
  by pat_completeness auto
termination by (relation "measure (\<lambda>(s, i, visited, depth, cur). MaxTreeDepth - depth)") auto

declare depth_walk.simps [simp del]

definition depthLocked :: "group_store \<Rightarrow> string \<Rightarrow> group_error + nat" where
  "depthLocked s i = depth_walk s i [] 0 i"

text \<open>A reference resolves to the pointer of the group it names: by id first, then by name.\<close>

definition resolveLocked :: "group_store \<Rightarrow> string \<Rightarrow> group_error + nat" where
  "resolveLocked s ref =
     (case map_of (gs_groups s) ref of
        Some p \<Rightarrow> Inr p
      | None \<Rightarrow>
          (case entries (gs_byName s) ref of
             [] \<Rightarrow> Inl (ErrGroupNotFound ref)
           | [p] \<Rightarrow> Inr p
           | named \<Rightarrow> Inl (ErrAmbiguousName ref (length named))))"

definition ResolveGroup :: "group_store \<Rightarrow> string \<Rightarrow> group_error + group" where
  "ResolveGroup s ref =
     (case resolveLocked s ref of Inl e \<Rightarrow> Inl e | Inr p \<Rightarrow> Inr (gs_heap s ! p))"

definition nameTakenBySiblingLocked :: "group_store \<Rightarrow> string \<Rightarrow> string \<Rightarrow> string \<Rightarrow> bool" where
  "nameTakenBySiblingLocked s parentID name exclID =
     (if parentID = []
      then list_ex (\<lambda>(i, p). i \<noteq> exclID \<and> g_ParentID (gs_heap s ! p) = [] \<and> g_Name (gs_heap s ! p) = name) (gs_groups s)
      else list_ex (\<lambda>c. c \<noteq> exclID \<and> (case grp s c of None \<Rightarrow> False | Some g \<Rightarrow> g_Name g = name))
             (entries (gs_children s) parentID))"

text \<open>Dropping the first element that satisfies a test, as the slice surgery in the loops does.\<close>

fun drop_first :: "('a \<Rightarrow> bool) \<Rightarrow> 'a list \<Rightarrow> 'a list" where
  "drop_first p [] = []"
| "drop_first p (x # xs) = (if p x then xs else x # drop_first p xs)"

definition removeFromByNameLocked :: "string \<Rightarrow> string \<Rightarrow> group_store \<Rightarrow> group_store" where
  "removeFromByNameLocked name i s =
     (let bucket = drop_first (\<lambda>p. g_ID (gs_heap s ! p) = i) (entries (gs_byName s) name)
      in s\<lparr>gs_byName := (if bucket = [] then AList.delete name (gs_byName s)
                         else AList.update name bucket (gs_byName s))\<rparr>)"

definition add_byName :: "string \<Rightarrow> nat \<Rightarrow> group_store \<Rightarrow> group_store" where
  "add_byName name p s =
     s\<lparr>gs_byName := AList.update name (entries (gs_byName s) name @ [p]) (gs_byName s)\<rparr>"

definition add_child :: "string \<Rightarrow> string \<Rightarrow> group_store \<Rightarrow> group_store" where
  "add_child parent i s =
     s\<lparr>gs_children := AList.update parent (entries (gs_children s) parent @ [i]) (gs_children s)\<rparr>"

definition isExcludedLocked :: "group_store \<Rightarrow> string \<Rightarrow> string \<Rightarrow> bool" where
  "isExcludedLocked s user groupID \<longleftrightarrow> lookup2 (gs_excluded s) user groupID \<noteq> None"

subsection \<open>Loading\<close>

definition load_group :: "group \<Rightarrow> group_store \<Rightarrow> group_store" where
  "load_group g s =
     add_byName (g_Name g) (length (gs_heap s))
       (s\<lparr>gs_heap := gs_heap s @ [g], gs_groups := AList.update (g_ID g) (length (gs_heap s)) (gs_groups s)\<rparr>)"

fun load_children :: "string list \<Rightarrow> group_store \<Rightarrow> unit gs_result" where
  "load_children [] s = (Inr (), s)"
| "load_children (i # is) s =
     (case grp s i of
        None \<Rightarrow> load_children is s
      | Some g \<Rightarrow>
          if g_ParentID g = [] then load_children is s
          else if grp s (g_ParentID g) = None then (Inl (GroupLoadParent i (g_ParentID g)), s)
          else load_children is (add_child (g_ParentID g) i s))"

fun load_depths :: "string list \<Rightarrow> group_store \<Rightarrow> unit gs_result" where
  "load_depths [] s = (Inr (), s)"
| "load_depths (i # is) s =
     (case depthLocked s i of Inl e \<Rightarrow> (Inl e, s) | Inr _ \<Rightarrow> load_depths is s)"

fun load_memberships :: "membership list \<Rightarrow> group_store \<Rightarrow> unit gs_result" where
  "load_memberships [] s = (Inr (), s)"
| "load_memberships (m # ms) s =
     (case validatePersonKey s (mb_User m) of
        Some e \<Rightarrow> (Inl (PersonKeyInvalid e), s)
      | None \<Rightarrow>
          if \<not> Role_Valid (mb_Role m) then (Inl (InvalidRole (mb_Role m)), s)
          else if map_of (gs_groups s) (mb_GroupID m) = None then (Inl (GroupLoadMissing (mb_User m) (mb_GroupID m)), s)
          else load_memberships ms
            (s\<lparr>gs_memberships := put2 (mb_User m) (mb_GroupID m) m (gs_memberships s)\<rparr>))"

fun load_exclusions :: "read_exclusion list \<Rightarrow> group_store \<Rightarrow> unit gs_result" where
  "load_exclusions [] s = (Inr (), s)"
| "load_exclusions (d # ds) s =
     (case validatePersonKey s (ex_User d) of
        Some e \<Rightarrow> (Inl (PersonKeyInvalid e), s)
      | None \<Rightarrow> load_exclusions ds
          (s\<lparr>gs_excluded := put2 (ex_User d) (ex_GroupID d) d (gs_excluded s)\<rparr>))"

text \<open>Steps of one function in sequence: the first error ends it with the state so far.\<close>

fun then_gs :: "unit gs_result \<Rightarrow> (group_store \<Rightarrow> unit gs_result) \<Rightarrow> unit gs_result" where
  "then_gs (Inl e, s) k = (Inl e, s)"
| "then_gs (Inr u, s) k = k s"

text \<open>
  All rows are read first; the maps are then rebuilt from scratch, and an error on the way
  returns with the maps as far as they have been rebuilt and without attaching the database.
\<close>

definition groups_LoadFromDB :: "groups_db option \<Rightarrow> group_store \<Rightarrow> unit gs_result" where
  "groups_LoadFromDB q s =
     (case q of
        None \<Rightarrow> (Inl GroupLoadQuery, s)
      | Some d \<Rightarrow>
          (let s1 = fold load_group (t_groups d)
                 (s\<lparr>gs_heap := [], gs_groups := [], gs_byName := [], gs_children := [],
                    gs_memberships := [], gs_excluded := []\<rparr>);
               ids = map fst (gs_groups s1)
           in then_gs (load_children ids s1) (\<lambda>s2.
              then_gs (load_depths ids s2) (\<lambda>s3.
              then_gs (load_memberships (t_memberships d) s3) (\<lambda>s4.
              then_gs (load_exclusions (t_exclusions d) s4) (\<lambda>s5.
                (Inr (), s5\<lparr>gs_db := Some d\<rparr>)))))))"

subsection \<open>The tree\<close>

definition CreateGroup :: "tx_fault \<Rightarrow> entropy \<Rightarrow> time \<Rightarrow> string \<Rightarrow> string \<Rightarrow> group_store \<Rightarrow> group gs_result" where
  "CreateGroup f rnd now name parentRef s =
     (case validateGroupName name of
        Some e \<Rightarrow> (Inl (GroupNameInvalid e), s)
      | None \<Rightarrow>
          (case (if parentRef = [] then Inr []
                 else case resolveLocked s parentRef of
                   Inl e \<Rightarrow> Inl e
                 | Inr p \<Rightarrow>
                     (case depthLocked s (g_ID (gs_heap s ! p)) of
                        Inl e \<Rightarrow> Inl e
                      | Inr pd \<Rightarrow> if pd + 1 > MaxTreeDepth then Inl (GroupTooDeep name)
                                  else Inr (g_ID (gs_heap s ! p)))) of
             Inl e \<Rightarrow> (Inl e, s)
           | Inr parentID \<Rightarrow>
               if nameTakenBySiblingLocked s parentID name [] then (Inl (ErrDuplicateName name), s)
               else (case newGroupID rnd of
                  None \<Rightarrow> (Inl GroupRand, s)
                | Some i \<Rightarrow>
                    (let g = \<lparr>g_ID = i, g_Name = name, g_ParentID = parentID, g_CreatedAt = FormatTime now\<rparr>
                     in case groups_persist f (sql_insert_group g) s of
                       Inl e \<Rightarrow> (Inl e, s)
                     | Inr db \<Rightarrow>
                         (let s1 = load_group g (s\<lparr>gs_db := db\<rparr>)
                          in (Inr g, if parentID \<noteq> [] then add_child parentID i s1 else s1))))))"

definition RenameGroup :: "tx_fault \<Rightarrow> string \<Rightarrow> string \<Rightarrow> group_store \<Rightarrow> group gs_result" where
  "RenameGroup f ref newName s =
     (case validateGroupName newName of
        Some e \<Rightarrow> (Inl (GroupNameInvalid e), s)
      | None \<Rightarrow>
          (case resolveLocked s ref of
             Inl e \<Rightarrow> (Inl e, s)
           | Inr p \<Rightarrow>
               (let g = gs_heap s ! p in
                if newName \<noteq> g_Name g \<and> nameTakenBySiblingLocked s (g_ParentID g) newName (g_ID g)
                then (Inl (ErrDuplicateName newName), s)
                else case groups_persist f (exec_rename_group (g_ID g) newName) s of
                  Inl e \<Rightarrow> (Inl e, s)
                | Inr db \<Rightarrow>
                    (let s1 = removeFromByNameLocked (g_Name g) (g_ID g) (s\<lparr>gs_db := db\<rparr>);
                         g' = g\<lparr>g_Name := newName\<rparr>;
                         s2 = s1\<lparr>gs_heap := (gs_heap s1)[p := g']\<rparr>
                     in (Inr g', add_byName newName p s2)))))"

definition deleteCheckMembershipTreeLocked :: "group_store \<Rightarrow> string \<Rightarrow> group_error option" where
  "deleteCheckMembershipTreeLocked s i =
     (let n = length (entries (gs_children s) i);
          members = length (filter (\<lambda>(u, byGroup). map_of byGroup i \<noteq> None) (gs_memberships s))
      in if n > 0 then Some (ErrHasChildren i n)
         else if members > 0 then Some (ErrHasMembers i members)
         else None)"

definition soleTagGuard :: "string \<Rightarrow> tag_stats_provider \<Rightarrow> group_error option" where
  "soleTagGuard i stats =
     (case stats of
        None \<Rightarrow> Some (ErrTagStatsUnavailable i)
      | Some get \<Rightarrow>
          (case get [i] of
             None \<Rightarrow> Some (ErrTagStatsUnavailable i)
           | Some m \<Rightarrow>
               (case map_of m i of
                  None \<Rightarrow> None
                | Some st \<Rightarrow> if ts_Sole st > 0 then Some (ErrSoleTagRecords i (ts_Sole st)) else None)))"

text \<open>
  \<open>DeleteCheck\<close>, and the part of \<open>DeleteGroup\<close> that runs before the write lock is taken:
  resolution, the local guards, and the remote guard outside the lock.
\<close>

definition delete_precheck :: "group_store \<Rightarrow> string \<Rightarrow> tag_stats_provider \<Rightarrow> group_error + string" where
  "delete_precheck s ref stats =
     (case resolveLocked s ref of
        Inl e \<Rightarrow> Inl e
      | Inr p \<Rightarrow>
          (let i = g_ID (gs_heap s ! p) in
           case deleteCheckMembershipTreeLocked s i of
             Some e \<Rightarrow> Inl e
           | None \<Rightarrow> (case soleTagGuard i stats of Some e \<Rightarrow> Inl e | None \<Rightarrow> Inr i)))"

definition DeleteCheck :: "group_store \<Rightarrow> string \<Rightarrow> tag_stats_provider \<Rightarrow> group_error option" where
  "DeleteCheck s ref stats = (case delete_precheck s ref stats of Inl e \<Rightarrow> Some e | Inr _ \<Rightarrow> None)"

definition purgeExclusionsForGroupLocked :: "string \<Rightarrow> group_store \<Rightarrow> group_store" where
  "purgeExclusionsForGroupLocked i s =
     s\<lparr>gs_excluded := fold (\<lambda>u m. if lookup2 m u i = None then m else del2 u i m)
         (map fst (gs_excluded s)) (gs_excluded s)\<rparr>"

text \<open>What both deletions do to the maps once the transaction has committed.\<close>

definition drop_group :: "group \<Rightarrow> group_store \<Rightarrow> group_store" where
  "drop_group g s =
     (let i = g_ID g;
          s1 = removeFromByNameLocked (g_Name g) i s;
          s2 = s1\<lparr>gs_groups := AList.delete i (gs_groups s1), gs_children := AList.delete i (gs_children s1)\<rparr>;
          s3 = purgeExclusionsForGroupLocked i s2
      in if g_ParentID g \<noteq> [] \<and> i \<in> set (entries (gs_children s3) (g_ParentID g))
         then s3\<lparr>gs_children := AList.update (g_ParentID g)
                  (drop_first (\<lambda>c. c = i) (entries (gs_children s3) (g_ParentID g))) (gs_children s3)\<rparr>
         else s3)"

text \<open>The part of \<open>DeleteGroup\<close> under the write lock, with the guards run again.\<close>

definition delete_commit :: "tx_fault \<Rightarrow> string \<Rightarrow> string \<Rightarrow> group_store \<Rightarrow> group gs_result" where
  "delete_commit f ref i s =
     (case map_of (gs_groups s) i of
        None \<Rightarrow> (Inl (ErrGroupNotFound ref), s)
      | Some p \<Rightarrow>
          (case deleteCheckMembershipTreeLocked s i of
             Some e \<Rightarrow> (Inl e, s)
           | None \<Rightarrow>
               (case groups_persist f (exec_delete_group i) s of
                  Inl e \<Rightarrow> (Inl e, s)
                | Inr db \<Rightarrow> (Inr (gs_heap s ! p), drop_group (gs_heap s ! p) (s\<lparr>gs_db := db\<rparr>)))))"

definition DeleteGroup :: "tx_fault \<Rightarrow> string \<Rightarrow> tag_stats_provider \<Rightarrow> group_store \<Rightarrow> group gs_result" where
  "DeleteGroup f ref stats s =
     (case delete_precheck s ref stats of
        Inl e \<Rightarrow> (Inl e, s)
      | Inr i \<Rightarrow> delete_commit f ref i s)"

definition DeleteGroupWithMembers :: "tx_fault \<Rightarrow> string \<Rightarrow> group_store \<Rightarrow> (group \<times> string list) gs_result" where
  "DeleteGroupWithMembers f ref s =
     (case resolveLocked s ref of
        Inl e \<Rightarrow> (Inl e, s)
      | Inr p \<Rightarrow>
          (let g = gs_heap s ! p; i = g_ID g; n = length (entries (gs_children s) i) in
           if n > 0 then (Inl (ErrHasChildren i n), s)
           else
             (let removed = sort (map fst (filter (\<lambda>(u, byGroup). map_of byGroup i \<noteq> None) (gs_memberships s)))
              in case groups_persist f (\<lambda>d. then_sql
                       (exec_delete_memberships (\<lambda>m. mb_GroupID m = i) (length removed) d) (exec_delete_group i)) s of
                Inl e \<Rightarrow> (Inl e, s)
              | Inr db \<Rightarrow>
                  (let s1 = s\<lparr>gs_db := db, gs_memberships := fold (\<lambda>u. del2 u i) removed (gs_memberships s)\<rparr>
                   in (Inr (g, removed), drop_group g s1)))))"

subsection \<open>Memberships and exclusions\<close>

definition Grant :: "tx_fault \<Rightarrow> time \<Rightarrow> string \<Rightarrow> string \<Rightarrow> role \<Rightarrow> string \<Rightarrow> group_store \<Rightarrow> membership gs_result" where
  "Grant f now user groupRef role grantedBy s =
     (case validatePersonKey s user of
        Some e \<Rightarrow> (Inl (PersonKeyInvalid e), s)
      | None \<Rightarrow>
          if \<not> Role_Valid role then (Inl (InvalidRole role), s)
          else (case resolveLocked s groupRef of
             Inl e \<Rightarrow> (Inl e, s)
           | Inr p \<Rightarrow>
               (let i = g_ID (gs_heap s ! p);
                    m = \<lparr>mb_User = user, mb_GroupID = i, mb_Role = role, mb_GrantedBy = grantedBy,
                         mb_GrantedAt = (case lookup2 (gs_memberships s) user i of
                            Some prev \<Rightarrow> mb_GrantedAt prev | None \<Rightarrow> FormatTime now)\<rparr>
                in case groups_persist f (\<lambda>d. then_sql (exec_upsert_membership m d)
                         (\<lambda>d. Inr (snd (sql_delete_exclusions (\<lambda>e. ex_key e = (user, i)) d)))) s of
                  Inl e \<Rightarrow> (Inl e, s)
                | Inr db \<Rightarrow>
                    (Inr m, s\<lparr>gs_db := db, gs_memberships := put2 user i m (gs_memberships s),
                              gs_excluded := del2 user i (gs_excluded s)\<rparr>))))"

definition RevokeDirectGrant :: "tx_fault \<Rightarrow> string \<Rightarrow> string \<Rightarrow> group_store \<Rightarrow> bool gs_result" where
  "RevokeDirectGrant f user groupRef s =
     (case resolveLocked s groupRef of
        Inl e \<Rightarrow> (Inl e, s)
      | Inr p \<Rightarrow>
          (let i = g_ID (gs_heap s ! p) in
           if lookup2 (gs_memberships s) user i = None then (Inr False, s)
           else case groups_persist f (exec_delete_memberships (\<lambda>m. mb_key m = (user, i)) 1) s of
             Inl e \<Rightarrow> (Inl e, s)
           | Inr db \<Rightarrow> (Inr True, s\<lparr>gs_db := db, gs_memberships := del2 user i (gs_memberships s)\<rparr>)))"

text \<open>The loop of \<open>inheritedSourceLocked\<close>: the nearest proper ancestor with a direct grant.\<close>

function source_walk :: "group_store \<Rightarrow> (string, membership) gomap \<Rightarrow> string list \<Rightarrow> string \<Rightarrow> membership option" where
  "source_walk s byGroup visited cur =
     (if cur \<noteq> [] \<and> cur \<notin> set visited \<and> length visited < MaxTreeDepth then
        (case map_of byGroup cur of
           Some m \<Rightarrow> Some m
         | None \<Rightarrow>
             (case grp s cur of
                None \<Rightarrow> None
              | Some parent \<Rightarrow> source_walk s byGroup (cur # visited) (g_ParentID parent)))
      else None)"
  by pat_completeness auto
termination by (relation "measure (\<lambda>(s, byGroup, visited, cur). MaxTreeDepth - length visited)") auto

declare source_walk.simps [simp del]

definition inheritedSourceLocked :: "group_store \<Rightarrow> string \<Rightarrow> string \<Rightarrow> membership option" where
  "inheritedSourceLocked s user groupID =
     (let byGroup = inner (gs_memberships s) user in
      if byGroup = [] then None
      else if map_of byGroup groupID \<noteq> None then None
      else if isExcludedLocked s user groupID then None
      else case grp s groupID of
        None \<Rightarrow> None
      | Some g \<Rightarrow> source_walk s byGroup [] (g_ParentID g))"

definition InheritsRead :: "group_store \<Rightarrow> string \<Rightarrow> string \<Rightarrow> bool" where
  "InheritsRead s user groupID \<longleftrightarrow> inheritedSourceLocked s user groupID \<noteq> None"

definition ExcludeRead :: "tx_fault \<Rightarrow> time \<Rightarrow> string \<Rightarrow> string \<Rightarrow> string \<Rightarrow> group_store \<Rightarrow> bool gs_result" where
  "ExcludeRead f now user groupRef removedBy s =
     (case validatePersonKey s user of
        Some e \<Rightarrow> (Inl (PersonKeyInvalid e), s)
      | None \<Rightarrow>
          (case resolveLocked s groupRef of
             Inl e \<Rightarrow> (Inl e, s)
           | Inr p \<Rightarrow>
               (let i = g_ID (gs_heap s ! p) in
                if lookup2 (gs_memberships s) user i \<noteq> None then (Inr False, s)
                else if \<not> InheritsRead s user i then (Inr False, s)
                else
                  (let d = \<lparr>ex_User = user, ex_GroupID = i, ex_RemovedBy = removedBy, ex_RemovedAt = FormatTime now\<rparr>
                   in case groups_persist f (exec_insert_exclusion d) s of
                     Inl e \<Rightarrow> (Inl e, s)
                   | Inr db \<Rightarrow> (Inr True, s\<lparr>gs_db := db, gs_excluded := put2 user i d (gs_excluded s)\<rparr>)))))"

definition reachesByInheritanceLocked :: "group_store \<Rightarrow> string \<Rightarrow> string \<Rightarrow> string \<Rightarrow> bool" where
  "reachesByInheritanceLocked s user groupID ignoreDirect \<longleftrightarrow>
     list_ex (\<lambda>(gid, _). gid \<noteq> ignoreDirect \<and> map_of (gs_groups s) gid \<noteq> None \<and>
        groupID \<in> set (collect (gs_children s) [gid] [])) (inner (gs_memberships s) user)"

definition Revoke :: "tx_fault \<Rightarrow> time \<Rightarrow> string \<Rightarrow> string \<Rightarrow> string \<Rightarrow> group_store \<Rightarrow> (bool \<times> bool) gs_result" where
  "Revoke f now user groupRef removedBy s =
     (case validatePersonKey s user of
        Some e \<Rightarrow> (Inl (PersonKeyInvalid e), s)
      | None \<Rightarrow>
          (case resolveLocked s groupRef of
             Inl e \<Rightarrow> (Inl e, s)
           | Inr p \<Rightarrow>
               (let i = g_ID (gs_heap s ! p);
                    hasDirect = (lookup2 (gs_memberships s) user i \<noteq> None);
                    needExclude = (\<not> isExcludedLocked s user i \<and> reachesByInheritanceLocked s user i i);
                    d = \<lparr>ex_User = user, ex_GroupID = i, ex_RemovedBy = removedBy, ex_RemovedAt = FormatTime now\<rparr>
                in if \<not> hasDirect \<and> \<not> needExclude then (Inr (False, False), s)
                   else case groups_persist f (\<lambda>db. then_sql
                            (if hasDirect then exec_delete_memberships (\<lambda>m. mb_key m = (user, i)) 1 db else Inr db)
                            (\<lambda>db. if needExclude then exec_insert_exclusion d db else Inr db)) s of
                     Inl e \<Rightarrow> (Inl e, s)
                   | Inr db \<Rightarrow>
                       (Inr (hasDirect, needExclude),
                        s\<lparr>gs_db := db,
                          gs_memberships := (if hasDirect then del2 user i (gs_memberships s) else gs_memberships s),
                          gs_excluded := (if needExclude then put2 user i d (gs_excluded s) else gs_excluded s)\<rparr>))))"

definition RemoveUser :: "tx_fault \<Rightarrow> string \<Rightarrow> group_store \<Rightarrow> nat gs_result" where
  "RemoveUser f user s =
     (let nExcl = length (inner (gs_excluded s) user); n = length (inner (gs_memberships s) user) in
      if n = 0 \<and> nExcl = 0 then (Inr 0, s)
      else case groups_persist f (\<lambda>d. then_sql
               (exec_delete_memberships (\<lambda>m. mb_User m = user) n d)
               (\<lambda>d. expect_rows nExcl (sql_delete_exclusions (\<lambda>e. ex_User e = user) d))) s of
        Inl e \<Rightarrow> (Inl e, s)
      | Inr db \<Rightarrow> (Inr n, s\<lparr>gs_db := db, gs_memberships := AList.delete user (gs_memberships s),
                           gs_excluded := AList.delete user (gs_excluded s)\<rparr>))"

subsection \<open>Listings\<close>

definition name_of :: "group_store \<Rightarrow> string \<Rightarrow> string" where
  "name_of s i = (case grp s i of None \<Rightarrow> i | Some g \<Rightarrow> g_Name g)"

definition sortByNameLocked :: "group_store \<Rightarrow> string list \<Rightarrow> string list" where
  "sortByNameLocked s ids = sort_key (name_of s) ids"

definition sortedChildrenLocked :: "group_store \<Rightarrow> string \<Rightarrow> string list" where
  "sortedChildrenLocked s i = sortByNameLocked s (entries (gs_children s) i)"

definition root_ids :: "group_store \<Rightarrow> string list" where
  "root_ids s = sortByNameLocked s
     (map fst (filter (\<lambda>(i, p). g_ParentID (gs_heap s ! p) = []) (gs_groups s)))"

definition group_info_of :: "group_store \<Rightarrow> string \<Rightarrow> nat \<Rightarrow> group_info" where
  "group_info_of s i depth =
     (let g = the (grp s i) in
      \<lparr>gi_ID = g_ID g, gi_Name = g_Name g, gi_ParentID = g_ParentID g, gi_CreatedAt = g_CreatedAt g, gi_Depth = depth\<rparr>)"

definition ListGroups :: "group_store \<Rightarrow> group_info list option" where
  "ListGroups s =
     map_option concat (those (map (preorder MaxTreeDepth (sortedChildrenLocked s) (group_info_of s) 1) (root_ids s)))"

definition ListMemberships :: "group_store \<Rightarrow> membership list" where
  "ListMemberships s =
     sort_key mb_User (sort_key (\<lambda>m. name_of s (mb_GroupID m))
       (concat (map (\<lambda>(u, byGroup). map snd byGroup) (gs_memberships s))))"

end
