(* ===== verification/Directory.thy ===== *)
theory Directory
  imports Group_Store
begin

text \<open>
  What the group store is about, without its maps: a directory of groups, memberships and read
  exclusions. The invariant of a directory (a forest of bounded height with sibling-unique
  names, memberships and exclusions on existing groups, an exclusion never beside a grant), the
  six ways in which operations change it, and that the tables of the schema follow each of them.
\<close>

record directory =
  d_group :: "string \<Rightarrow> group option"
  d_member :: "string \<Rightarrow> string \<Rightarrow> membership option"
  d_excl :: "string \<Rightarrow> string \<Rightarrow> read_exclusion option"
  d_valid :: "string \<Rightarrow> bool"

definition dpar :: "directory \<Rightarrow> string \<Rightarrow> string option" where
  "dpar v i = (case d_group v i of None \<Rightarrow> None
     | Some g \<Rightarrow> if g_ParentID g = [] then None else Some (g_ParentID g))"

definition ancestors :: "directory \<Rightarrow> string \<Rightarrow> string list" where
  "ancestors v i = up (dpar v) MaxTreeDepth i"

definition dir_groups :: "directory \<Rightarrow> bool" where
  "dir_groups v \<longleftrightarrow> (\<forall>i g. d_group v i = Some g \<longrightarrow> g_ID g = i \<and> group_check g)"

definition dir_tree :: "directory \<Rightarrow> bool" where
  "dir_tree v \<longleftrightarrow> (\<forall>i x. dpar v i = Some x \<longrightarrow> d_group v x \<noteq> None) \<and> (\<forall>i. fits (dpar v) MaxTreeDepth i)"

definition dir_names :: "directory \<Rightarrow> bool" where
  "dir_names v \<longleftrightarrow> (\<forall>i j g h. d_group v i = Some g \<longrightarrow> d_group v j = Some h \<longrightarrow>
     g_ParentID g = g_ParentID h \<longrightarrow> g_Name g = g_Name h \<longrightarrow> i = j)"

definition dir_members :: "directory \<Rightarrow> bool" where
  "dir_members v \<longleftrightarrow> (\<forall>u i m. d_member v u i = Some m \<longrightarrow>
     mb_key m = (u, i) \<and> Role_Valid (mb_Role m) \<and> d_group v i \<noteq> None \<and> d_valid v u)"

definition dir_excl :: "directory \<Rightarrow> bool" where
  "dir_excl v \<longleftrightarrow> (\<forall>u i e. d_excl v u i = Some e \<longrightarrow>
     ex_key e = (u, i) \<and> d_group v i \<noteq> None \<and> d_member v u i = None \<and> d_valid v u)"

definition dir_ok :: "directory \<Rightarrow> bool" where
  "dir_ok v \<longleftrightarrow> dir_groups v \<and> dir_tree v \<and> dir_names v \<and> dir_members v \<and> dir_excl v"

lemma dpar_group: "dpar v i = Some x \<Longrightarrow> \<exists>g. d_group v i = Some g \<and> g_ParentID g = x \<and> x \<noteq> []"
  by (auto simp: dpar_def split: option.splits if_splits)

lemma dpar_None [simp]: "d_group v i = None \<Longrightarrow> dpar v i = None"
  by (simp add: dpar_def)

lemma dir_group_id: "dir_ok v \<Longrightarrow> d_group v i = Some g \<Longrightarrow> g_ID g = i \<and> i \<noteq> []"
  by (auto simp: dir_ok_def dir_groups_def group_check_def)

lemma dir_no_empty: "dir_ok v \<Longrightarrow> d_group v [] = None"
  using dir_group_id [of v "[]"] by (cases "d_group v []") auto

lemma dir_fits: "dir_ok v \<Longrightarrow> fits (dpar v) MaxTreeDepth i"
  by (simp add: dir_ok_def dir_tree_def)

lemma dir_parent: "dir_ok v \<Longrightarrow> dpar v i = Some x \<Longrightarrow> d_group v x \<noteq> None"
  by (auto simp: dir_ok_def dir_tree_def)

lemma above_group: "dir_ok v \<Longrightarrow> above (dpar v) i x \<Longrightarrow> i \<noteq> x \<Longrightarrow> d_group v x \<noteq> None \<and> d_group v i \<noteq> None"
proof -
  assume v: "dir_ok v" and a: "above (dpar v) i x" "i \<noteq> x"
  from a obtain y where y: "dpar v i = Some y" by (auto elim: converse_rtranclpE)
  from a obtain z where z: "dpar v z = Some x" by (auto elim: rtranclp.cases)
  from y have "d_group v i \<noteq> None" by (auto dest: dpar_group)
  with dir_parent [OF v z] show ?thesis by blast
qed

lemma ancestors_above: "dir_ok v \<Longrightarrow> a \<in> set (ancestors v i) \<longleftrightarrow> above (dpar v) i a"
  unfolding ancestors_def by (rule up_above [OF dir_fits])

lemma dir_member: "dir_ok v \<Longrightarrow> d_member v u i = Some m \<Longrightarrow>
    mb_User m = u \<and> mb_GroupID m = i \<and> Role_Valid (mb_Role m) \<and> d_group v i \<noteq> None \<and> d_valid v u"
  by (auto simp: dir_ok_def dir_members_def mb_key_def)

lemma dir_exclD: "dir_ok v \<Longrightarrow> d_excl v u i = Some e \<Longrightarrow>
    ex_User e = u \<and> ex_GroupID e = i \<and> d_group v i \<noteq> None \<and> d_member v u i = None \<and> d_valid v u"
  by (auto simp: dir_ok_def dir_excl_def ex_key_def)

subsection \<open>Changes of a directory\<close>

definition v_add :: "group \<Rightarrow> directory \<Rightarrow> directory" where
  "v_add g v = v\<lparr>d_group := (d_group v)(g_ID g \<mapsto> g)\<rparr>"

definition v_rename :: "string \<Rightarrow> string \<Rightarrow> directory \<Rightarrow> directory" where
  "v_rename i name v = v\<lparr>d_group := (\<lambda>j. if j = i then map_option (\<lambda>g. g\<lparr>g_Name := name\<rparr>) (d_group v i) else d_group v j)\<rparr>"

definition v_drop :: "string \<Rightarrow> directory \<Rightarrow> directory" where
  "v_drop i v = v\<lparr>d_group := (d_group v)(i := None),
     d_member := (\<lambda>u j. if j = i then None else d_member v u j),
     d_excl := (\<lambda>u j. if j = i then None else d_excl v u j)\<rparr>"

definition v_grant :: "membership \<Rightarrow> directory \<Rightarrow> directory" where
  "v_grant m v = v\<lparr>d_member := (\<lambda>u j. if (u, j) = mb_key m then Some m else d_member v u j),
     d_excl := (\<lambda>u j. if (u, j) = mb_key m then None else d_excl v u j)\<rparr>"

definition v_revoke :: "string \<Rightarrow> string \<Rightarrow> directory \<Rightarrow> directory" where
  "v_revoke u i v = v\<lparr>d_member := (\<lambda>x j. if x = u \<and> j = i then None else d_member v x j)\<rparr>"

definition v_exclude :: "read_exclusion \<Rightarrow> directory \<Rightarrow> directory" where
  "v_exclude e v = v\<lparr>d_excl := (\<lambda>u j. if (u, j) = ex_key e then Some e else d_excl v u j)\<rparr>"

definition v_remove_user :: "string \<Rightarrow> directory \<Rightarrow> directory" where
  "v_remove_user u v = v\<lparr>d_member := (d_member v)(u := Map.empty), d_excl := (d_excl v)(u := Map.empty)\<rparr>"

text \<open>A group may be added under an existing parent that is not at the deepest level.\<close>

definition addable :: "group \<Rightarrow> directory \<Rightarrow> bool" where
  "addable g v \<longleftrightarrow> group_check g \<and> d_group v (g_ID g) = None \<and>
     (g_ParentID g \<noteq> [] \<longrightarrow> d_group v (g_ParentID g) \<noteq> None \<and> length (ancestors v (g_ParentID g)) < MaxTreeDepth) \<and>
     (\<forall>j h. d_group v j = Some h \<longrightarrow> g_ParentID h = g_ParentID g \<longrightarrow> g_Name h \<noteq> g_Name g)"

definition childless :: "string \<Rightarrow> directory \<Rightarrow> bool" where
  "childless i v \<longleftrightarrow> (\<forall>j. dpar v j \<noteq> Some i)"

lemma v_add_sel [simp]: "d_group (v_add g v) = (d_group v)(g_ID g \<mapsto> g)" "d_member (v_add g v) = d_member v"
  "d_excl (v_add g v) = d_excl v" "d_valid (v_add g v) = d_valid v"
  by (simp_all add: v_add_def)

lemma v_drop_sel [simp]: "d_group (v_drop i v) = (d_group v)(i := None)"
  "d_member (v_drop i v) u j = (if j = i then None else d_member v u j)"
  "d_excl (v_drop i v) u j = (if j = i then None else d_excl v u j)" "d_valid (v_drop i v) = d_valid v"
  by (simp_all add: v_drop_def)

lemma dpar_add: "dpar (v_add g v) = (dpar v)(g_ID g := if g_ParentID g = [] then None else Some (g_ParentID g))"
  by (auto simp: fun_eq_iff dpar_def v_add_def)

lemma dpar_drop: "dpar (v_drop i v) = (dpar v)(i := None)"
  by (auto simp: fun_eq_iff dpar_def v_drop_def)

lemma dpar_other [simp]: "dpar (v_rename i name v) = dpar v" "dpar (v_grant m v) = dpar v"
  "dpar (v_revoke u i v) = dpar v" "dpar (v_exclude e v) = dpar v" "dpar (v_remove_user u v) = dpar v"
  by (auto simp: fun_eq_iff dpar_def v_rename_def v_grant_def v_revoke_def v_exclude_def v_remove_user_def
      split: option.splits)

text \<open>Chains that avoid a node keep their shape when only that node changes.\<close>

lemma up_avoid:
  assumes "fits par n x" "\<not> above par x i"
  shows "up (par(i := p)) n x = up par n x \<and> fits (par(i := p)) n x"
proof (rule up_cong [OF assms(1)])
  fix y
  assume "above par x y"
  with assms(2) have "y \<noteq> i" by auto
  then show "(par(i := p)) y = par y" by simp
qed

lemma not_above_fresh: "dir_ok v \<Longrightarrow> d_group v i = None \<Longrightarrow> j \<noteq> i \<Longrightarrow> \<not> above (dpar v) j i"
  using above_group [of v j i] by auto

lemma not_above_leaf: "childless i v \<Longrightarrow> j \<noteq> i \<Longrightarrow> \<not> above (dpar v) j i"
  by (auto simp: childless_def elim: rtranclp.cases)

lemma tree_add:
  assumes v: "dir_ok v" and a: "addable g v"
  shows "dir_tree (v_add g v)"
proof -
  have fresh: "d_group v (g_ID g) = None" using a by (simp add: addable_def)
  have other: "fits (dpar (v_add g v)) MaxTreeDepth j" if "j \<noteq> g_ID g" for j
    unfolding dpar_add using up_avoid [OF dir_fits [OF v] not_above_fresh [OF v fresh that]] by blast
  have "fits (dpar (v_add g v)) MaxTreeDepth (g_ID g)"
  proof (cases "g_ParentID g = []")
    case True
    then show ?thesis by (simp add: dpar_add MaxTreeDepth_def numeral_eq_Suc)
  next
    case False
    then have p: "d_group v (g_ParentID g) \<noteq> None" "length (ancestors v (g_ParentID g)) < MaxTreeDepth"
      using a by (auto simp: addable_def)
    then have ne: "g_ParentID g \<noteq> g_ID g" using fresh by auto
    have "up (dpar (v_add g v)) MaxTreeDepth (g_ParentID g) = ancestors v (g_ParentID g)"
      unfolding dpar_add ancestors_def using up_avoid [OF dir_fits [OF v] not_above_fresh [OF v fresh ne]] by blast
    with p(2) have "fits (dpar (v_add g v)) (MaxTreeDepth - 1) (g_ParentID g)"
      by (intro fits_exact [OF other [OF ne]]) simp
    then have "fits (dpar (v_add g v)) (Suc (MaxTreeDepth - 1)) (g_ID g)"
      using False by (simp add: dpar_add)
    then show ?thesis by (simp add: MaxTreeDepth_def)
  qed
  with other have "fits (dpar (v_add g v)) MaxTreeDepth j" for j by (cases "j = g_ID g") auto
  moreover have "d_group (v_add g v) x \<noteq> None" if "dpar (v_add g v) j = Some x" for j x
    using that a dir_parent [OF v, of j x]
    by (auto simp: dpar_add addable_def split: if_splits)
  ultimately show ?thesis by (simp add: dir_tree_def)
qed

lemma tree_drop:
  assumes v: "dir_ok v" and c: "childless i v"
  shows "dir_tree (v_drop i v)"
proof -
  have "fits (dpar (v_drop i v)) MaxTreeDepth j" for j
  proof (cases "j = i")
    case True
    then show ?thesis by (simp add: dpar_drop MaxTreeDepth_def numeral_eq_Suc)
  next
    case False
    then show ?thesis
      unfolding dpar_drop using up_avoid [OF dir_fits [OF v] not_above_leaf [OF c False]] by blast
  qed
  moreover have "d_group (v_drop i v) x \<noteq> None" if "dpar (v_drop i v) j = Some x" for j x
    using that c dir_parent [OF v, of j x] by (auto simp: dpar_drop childless_def split: if_splits)
  ultimately show ?thesis by (simp add: dir_tree_def)
qed

lemmas dir_parts = dir_groups_def dir_names_def dir_members_def dir_excl_def

lemma dir_ok_add: "dir_ok v \<Longrightarrow> addable g v \<Longrightarrow> dir_ok (v_add g v)"
  unfolding dir_ok_def
proof (intro conjI)
  assume v: "dir_groups v \<and> dir_tree v \<and> dir_names v \<and> dir_members v \<and> dir_excl v" and a: "addable g v"
  then show "dir_tree (v_add g v)" by (intro tree_add) (simp_all add: dir_ok_def)
  show "dir_groups (v_add g v)" using v a by (simp add: dir_groups_def v_add_def addable_def)
  show "dir_names (v_add g v)" using v a unfolding dir_names_def v_add_def addable_def
    by (simp split: if_splits) metis
  show "dir_members (v_add g v)" using v by (auto simp: dir_members_def v_add_def)
  show "dir_excl (v_add g v)" using v by (auto simp: dir_excl_def v_add_def)
qed

lemma dir_ok_drop: "dir_ok v \<Longrightarrow> childless i v \<Longrightarrow> dir_ok (v_drop i v)"
  unfolding dir_ok_def
proof (intro conjI)
  assume v: "dir_groups v \<and> dir_tree v \<and> dir_names v \<and> dir_members v \<and> dir_excl v" and c: "childless i v"
  then show "dir_tree (v_drop i v)" by (intro tree_drop) (simp_all add: dir_ok_def)
  show "dir_names (v_drop i v)" using v unfolding dir_names_def v_drop_def by simp
qed (auto simp: dir_groups_def dir_members_def dir_excl_def v_drop_def)

definition renamable :: "string \<Rightarrow> string \<Rightarrow> directory \<Rightarrow> bool" where
  "renamable i name v \<longleftrightarrow> name \<noteq> [] \<and> CHR ''/'' \<notin> set name \<and>
     (\<forall>g j h. d_group v i = Some g \<longrightarrow> d_group v j = Some h \<longrightarrow> j \<noteq> i \<longrightarrow> g_ParentID h = g_ParentID g \<longrightarrow> g_Name h \<noteq> name)"

lemma dir_ok_rename: "dir_ok v \<Longrightarrow> renamable i name v \<Longrightarrow> dir_ok (v_rename i name v)"
  unfolding dir_ok_def
proof (intro conjI)
  assume v: "dir_groups v \<and> dir_tree v \<and> dir_names v \<and> dir_members v \<and> dir_excl v" and r: "renamable i name v"
  show "dir_groups (v_rename i name v)" using v r
    by (fastforce simp: dir_groups_def v_rename_def renamable_def group_check_def)
  show "dir_tree (v_rename i name v)" using v
    by (auto simp: dir_tree_def) (auto simp: v_rename_def)
  show "dir_names (v_rename i name v)" unfolding dir_names_def
  proof (intro allI impI)
    fix j k g h
    assume a: "d_group (v_rename i name v) j = Some g" "d_group (v_rename i name v) k = Some h"
      "g_ParentID g = g_ParentID h" "g_Name g = g_Name h"
    then obtain g0 h0 where o: "d_group v j = Some g0" "d_group v k = Some h0"
      "g = (if j = i then g0\<lparr>g_Name := name\<rparr> else g0)" "h = (if k = i then h0\<lparr>g_Name := name\<rparr> else h0)"
      by (auto simp: v_rename_def split: if_splits)
    show "j = k"
    proof (rule ccontr)
      assume ne: "j \<noteq> k"
      consider "j = i" "k \<noteq> i" | "k = i" "j \<noteq> i" | "j \<noteq> i" "k \<noteq> i" using ne by auto
      then show False
      proof cases
        case 1
        with o a r show False by (auto simp: renamable_def)
      next
        case 2
        with o a r show False by (auto simp: renamable_def)
      next
        case 3
        with o a v ne show False by (auto simp: dir_names_def)
      qed
    qed
  qed
qed (auto simp: dir_members_def dir_excl_def v_rename_def)

lemma dir_ok_grant:
  "dir_ok v \<Longrightarrow> Role_Valid (mb_Role m) \<Longrightarrow> d_group v (mb_GroupID m) \<noteq> None \<Longrightarrow> d_valid v (mb_User m) \<Longrightarrow>
     dir_ok (v_grant m v)"
  by (auto simp: dir_ok_def dir_tree_def) (auto simp: dir_parts v_grant_def mb_key_def)

lemma dir_ok_revoke: "dir_ok v \<Longrightarrow> dir_ok (v_revoke u i v)"
  by (auto simp: dir_ok_def dir_tree_def) (auto simp: dir_parts v_revoke_def)

lemma dir_ok_exclude:
  "dir_ok v \<Longrightarrow> d_group v (ex_GroupID e) \<noteq> None \<Longrightarrow> d_valid v (ex_User e) \<Longrightarrow>
     d_member v (ex_User e) (ex_GroupID e) = None \<Longrightarrow> dir_ok (v_exclude e v)"
  by (auto simp: dir_ok_def dir_tree_def) (auto simp: dir_parts v_exclude_def ex_key_def)

lemma dir_ok_remove_user: "dir_ok v \<Longrightarrow> dir_ok (v_remove_user u v)"
  by (auto simp: dir_ok_def dir_tree_def) (auto simp: dir_parts v_remove_user_def)

subsection \<open>The tables of a directory\<close>

definition db_agree :: "directory \<Rightarrow> groups_db \<Rightarrow> bool" where
  "db_agree v d \<longleftrightarrow> keyed g_ID (t_groups d) \<and> tab g_ID (t_groups d) = d_group v \<and>
     keyed mb_key (t_memberships d) \<and> (\<forall>u i. tab mb_key (t_memberships d) (u, i) = d_member v u i) \<and>
     keyed ex_key (t_exclusions d) \<and> (\<forall>u i. tab ex_key (t_exclusions d) (u, i) = d_excl v u i)"

lemma agree_group_rows: "db_agree v d \<Longrightarrow> g \<in> set (t_groups d) \<longleftrightarrow> d_group v (g_ID g) = Some g"
  using tab_Some_iff [of g_ID "t_groups d" "g_ID g" g] by (simp add: db_agree_def)

lemma agree_member_rows: "db_agree v d \<Longrightarrow> m \<in> set (t_memberships d) \<longleftrightarrow> d_member v (mb_User m) (mb_GroupID m) = Some m"
  using tab_Some_iff [of mb_key "t_memberships d" "mb_key m" m] by (simp add: db_agree_def mb_key_def)

lemma agree_excl_rows: "db_agree v d \<Longrightarrow> e \<in> set (t_exclusions d) \<longleftrightarrow> d_excl v (ex_User e) (ex_GroupID e) = Some e"
  using tab_Some_iff [of ex_key "t_exclusions d" "ex_key e" e] by (simp add: db_agree_def ex_key_def)

lemma agree_has_group: "db_agree v d \<Longrightarrow> list_ex (\<lambda>g. g_ID g = i) (t_groups d) \<longleftrightarrow> d_group v i \<noteq> None"
  by (simp add: list_ex_key db_agree_def)

lemma agree_member_key: "db_agree v d \<Longrightarrow> list_ex (\<lambda>m. mb_key m = (u, i)) (t_memberships d) \<longleftrightarrow> d_member v u i \<noteq> None"
  by (simp add: list_ex_key db_agree_def)

lemma agree_excl_key: "db_agree v d \<Longrightarrow> list_ex (\<lambda>e. ex_key e = (u, i)) (t_exclusions d) \<longleftrightarrow> d_excl v u i \<noteq> None"
  by (simp add: list_ex_key db_agree_def)

lemma db_insert_group:
  assumes v: "dir_ok v" and d: "db_agree v d" and a: "addable g v"
  shows "\<exists>d'. sql_insert_group g d = Inr d' \<and> db_agree (v_add g v) d'"
proof -
  have f: "tab g_ID (t_groups d) (g_ID g) = None" using d a by (simp add: db_agree_def addable_def)
  have "\<not> list_ex (\<lambda>x. g_ParentID x = g_ParentID g \<and> g_Name x = g_Name g) (t_groups d)"
    using a by (auto simp: list_ex_iff agree_group_rows [OF d] addable_def)
  then have "sql_insert_group g d = Inr (d\<lparr>t_groups := t_groups d @ [g]\<rparr>)"
    using a agree_has_group [OF d] by (simp add: sql_insert_group_def addable_def)
  moreover have "db_agree (v_add g v) (d\<lparr>t_groups := t_groups d @ [g]\<rparr>)"
    using d f by (simp add: db_agree_def tab_insert keyed_insert)
  ultimately show ?thesis by blast
qed

lemma db_insert_group_fresh: "db_agree v d \<Longrightarrow> sql_insert_group g d = Inr d' \<Longrightarrow> d_group v (g_ID g) = None"
  using agree_has_group [of v d "g_ID g"] by (auto simp: sql_insert_group_def split: if_splits)

lemma db_rename_group:
  assumes v: "dir_ok v" and d: "db_agree v d" and g: "d_group v i \<noteq> None" and r: "renamable i name v"
  shows "\<exists>d'. exec_rename_group i name d = Inr d' \<and> db_agree (v_rename i name v) d'"
proof -
  have k: "keyed g_ID (t_groups d)" "tab g_ID (t_groups d) = d_group v" using d by (simp_all add: db_agree_def)
  have "\<not> list_ex (\<lambda>g. g_ID g = i \<and> \<not> group_check (g\<lparr>g_Name := name\<rparr>)) (t_groups d)"
  proof -
    have "i \<noteq> []" using g dir_no_empty [OF v] by auto
    then show ?thesis using r by (auto simp: renamable_def group_check_def list_ex_iff)
  qed
  moreover have "\<not> list_ex (\<lambda>g. g_ID g = i \<and>
      list_ex (\<lambda>x. g_ID x \<noteq> i \<and> g_ParentID x = g_ParentID g \<and> g_Name x = name) (t_groups d)) (t_groups d)"
  proof
    assume "list_ex (\<lambda>g. g_ID g = i \<and>
      list_ex (\<lambda>x. g_ID x \<noteq> i \<and> g_ParentID x = g_ParentID g \<and> g_Name x = name) (t_groups d)) (t_groups d)"
    then obtain g x where "d_group v i = Some g" "d_group v (g_ID x) = Some x" "g_ID x \<noteq> i"
      "g_ParentID x = g_ParentID g" "g_Name x = name"
      by (auto simp: list_ex_iff agree_group_rows [OF d])
    with r show False unfolding renamable_def by blast
  qed
  moreover have "length (filter (\<lambda>g. g_ID g = i) (t_groups d)) = 1"
    using g by (simp add: count_key [OF k(1)] k(2))
  ultimately have "exec_rename_group i name d = Inr (snd (sql_rename_group i name d))"
    by (simp add: exec_rename_group_def sql_rename_group_def sql_update_def expect_rows_def)
  moreover have "db_agree (v_rename i name v) (snd (sql_rename_group i name d))"
  proof -
    let ?t = "snd (sql_update (\<lambda>g. g_ID g = i) (\<lambda>g. g\<lparr>g_Name := name\<rparr>) (t_groups d))"
    have "keyed g_ID ?t" using k(1) by (simp add: keyed_sql_update)
    moreover have "tab g_ID ?t = d_group (v_rename i name v)"
    proof
      fix j
      have "map_option (\<lambda>r. if g_ID r = i then r\<lparr>g_Name := name\<rparr> else r) (d_group v j) =
          (if j = i then map_option (\<lambda>g. g\<lparr>g_Name := name\<rparr>) (d_group v i) else d_group v j)"
        using dir_group_id [OF v, of j] by (cases "d_group v j") auto
      then show "tab g_ID ?t j = d_group (v_rename i name v) j"
        by (simp add: tab_sql_update k(2) v_rename_def)
    qed
    ultimately show ?thesis using d
      by (simp add: db_agree_def sql_rename_group_def v_rename_def case_prod_beta)
  qed
  ultimately show ?thesis by blast
qed

lemma tab_delete_other:
  "keyed key t \<Longrightarrow> (\<And>r. r \<in> set t \<Longrightarrow> p r \<longleftrightarrow> q (key r)) \<Longrightarrow>
     tab key (snd (sql_delete p t)) k = (if q k then None else tab key t k)"
  by (auto simp: tab_sql_delete split: option.split dest: tab_key)

lemma db_delete_group:
  assumes v: "dir_ok v" and d: "db_agree v d" and g: "d_group v i \<noteq> None" and m: "\<And>u. d_member v u i = None"
  shows "\<exists>d'. exec_delete_group i d = Inr d' \<and> db_agree (v_drop i v) d'"
proof -
  have k: "keyed g_ID (t_groups d)" "tab g_ID (t_groups d) = d_group v" using d by (simp_all add: db_agree_def)
  have ke: "keyed ex_key (t_exclusions d)" "\<And>u j. tab ex_key (t_exclusions d) (u, j) = d_excl v u j"
    using d by (simp_all add: db_agree_def)
  have "\<not> list_ex (\<lambda>m. mb_GroupID m = i) (t_memberships d)"
    using m by (auto simp: list_ex_iff agree_member_rows [OF d])
  moreover have "length (filter (\<lambda>g. g_ID g = i) (t_groups d)) = 1"
    using g by (simp add: count_key [OF k(1)] k(2))
  ultimately have "exec_delete_group i d = Inr (d\<lparr>t_groups := snd (sql_delete (\<lambda>g. g_ID g = i) (t_groups d)),
      t_exclusions := snd (sql_delete (\<lambda>e. ex_GroupID e = i) (t_exclusions d))\<rparr>)" (is "_ = Inr ?d")
    by (simp add: exec_delete_group_def sql_delete_def expect_rows_def)
  moreover have "db_agree (v_drop i v) ?d"
  proof -
    have "tab g_ID (snd (sql_delete (\<lambda>g. g_ID g = i) (t_groups d))) = (d_group v)(i := None)"
      by (auto simp: fun_eq_iff k(2) tab_delete_other [OF k(1), where q = "\<lambda>j. j = i"])
    moreover have "tab ex_key (snd (sql_delete (\<lambda>e. ex_GroupID e = i) (t_exclusions d))) (u, j) =
        (if j = i then None else d_excl v u j)" for u j
      by (simp add: ke(2) tab_delete_other [OF ke(1), where q = "\<lambda>k. snd k = i"] ex_key_def)
    ultimately show ?thesis using d m by (simp add: db_agree_def keyed_sql_delete)
  qed
  ultimately show ?thesis by blast
qed

lemma db_delete_memberships:
  assumes d: "db_agree v d" and q: "\<And>m. p m \<longleftrightarrow> q (mb_User m) (mb_GroupID m)"
    and w: "length (filter p (t_memberships d)) = want"
  shows "\<exists>d'. exec_delete_memberships p want d = Inr d' \<and>
    db_agree (v\<lparr>d_member := (\<lambda>u j. if q u j then None else d_member v u j)\<rparr>) d'"
proof -
  have k: "keyed mb_key (t_memberships d)" "\<And>u j. tab mb_key (t_memberships d) (u, j) = d_member v u j"
    using d by (simp_all add: db_agree_def)
  have "exec_delete_memberships p want d = Inr (d\<lparr>t_memberships := snd (sql_delete p (t_memberships d))\<rparr>)"
    using w by (simp add: exec_delete_memberships_def sql_delete_def expect_rows_def)
  moreover have "tab mb_key (snd (sql_delete p (t_memberships d))) (u, j) = (if q u j then None else d_member v u j)" for u j
    by (simp add: k(2) tab_delete_other [OF k(1), where q = "\<lambda>k. q (fst k) (snd k)"] mb_key_def q)
  ultimately show ?thesis using d by (simp add: db_agree_def keyed_sql_delete)
qed

lemma db_delete_exclusions:
  assumes d: "db_agree v d" and q: "\<And>e. p e \<longleftrightarrow> q (ex_User e) (ex_GroupID e)"
  shows "db_agree (v\<lparr>d_excl := (\<lambda>u j. if q u j then None else d_excl v u j)\<rparr>) (snd (sql_delete_exclusions p d))"
proof -
  have k: "keyed ex_key (t_exclusions d)" "\<And>u j. tab ex_key (t_exclusions d) (u, j) = d_excl v u j"
    using d by (simp_all add: db_agree_def)
  have "tab ex_key (snd (sql_delete p (t_exclusions d))) (u, j) = (if q u j then None else d_excl v u j)" for u j
    by (simp add: k(2) tab_delete_other [OF k(1), where q = "\<lambda>k. q (fst k) (snd k)"] ex_key_def q)
  then show ?thesis using d by (simp add: db_agree_def keyed_sql_delete sql_delete_exclusions_def case_prod_beta)
qed

lemma db_upsert:
  assumes v: "dir_ok v" and d: "db_agree v d" and r: "Role_Valid (mb_Role m)" and g: "d_group v (mb_GroupID m) \<noteq> None"
    and t: "\<And>prev. d_member v (mb_User m) (mb_GroupID m) = Some prev \<Longrightarrow> mb_GrantedAt m = mb_GrantedAt prev"
  shows "\<exists>d'. exec_upsert_membership m d = Inr d' \<and>
    db_agree (v\<lparr>d_member := (\<lambda>u j. if (u, j) = mb_key m then Some m else d_member v u j)\<rparr>) d'"
proof -
  have k: "keyed mb_key (t_memberships d)" "\<And>u j. tab mb_key (t_memberships d) (u, j) = d_member v u j"
    using d by (simp_all add: db_agree_def)
  have key: "mb_key m = (mb_User m, mb_GroupID m)" by (simp add: mb_key_def)
  show ?thesis
  proof (cases "d_member v (mb_User m) (mb_GroupID m)")
    case None
    then have "exec_upsert_membership m d = Inr (d\<lparr>t_memberships := t_memberships d @ [m]\<rparr>)"
      using r g agree_member_key [OF d] agree_has_group [OF d] by (simp add: exec_upsert_membership_def key)
    moreover have "tab mb_key (t_memberships d) (mb_key m) = None" using None by (simp add: k(2) key)
    ultimately show ?thesis using d by (auto simp: db_agree_def tab_insert keyed_insert)
  next
    case (Some prev)
    let ?up = "\<lambda>x. x\<lparr>mb_Role := mb_Role m, mb_GrantedBy := mb_GrantedBy m\<rparr>"
    let ?t = "snd (sql_update (\<lambda>x. mb_key x = mb_key m) ?up (t_memberships d))"
    have up: "mb_key (?up x) = mb_key x" for x by (simp add: mb_key_def)
    have e: "exec_upsert_membership m d = Inr (d\<lparr>t_memberships := ?t\<rparr>)"
      using Some r agree_member_key [OF d, of "mb_User m" "mb_GroupID m"] by (simp add: exec_upsert_membership_def key)
    have pm: "?up prev = m"
    proof -
      have "mb_User prev = mb_User m" "mb_GroupID prev = mb_GroupID m" using dir_member [OF v Some] by auto
      with t [OF Some] show ?thesis by simp
    qed
    have "tab mb_key ?t (u, j) = (if (u, j) = mb_key m then Some m else d_member v u j)" for u j
    proof -
      have "map_option (\<lambda>x. if mb_key x = mb_key m then ?up x else x) (d_member v u j) =
          (if (u, j) = mb_key m then Some m else d_member v u j)"
        using dir_member [OF v, of u j] Some pm by (cases "d_member v u j") (auto simp: mb_key_def)
      then show ?thesis by (simp add: tab_sql_update [where key = mb_key and f = ?up, OF up] k(2))
    qed
    then have "db_agree (v\<lparr>d_member := (\<lambda>u j. if (u, j) = mb_key m then Some m else d_member v u j)\<rparr>)
        (d\<lparr>t_memberships := ?t\<rparr>)"
      using d by (simp add: db_agree_def keyed_sql_update [where key = mb_key and f = ?up, OF up])
    with e show ?thesis by blast
  qed
qed

lemma db_insert_exclusion:
  assumes d: "db_agree v d" and g: "d_group v (ex_GroupID e) \<noteq> None"
    and n: "d_excl v (ex_User e) (ex_GroupID e) = None"
  shows "\<exists>d'. exec_insert_exclusion e d = Inr d' \<and> db_agree (v_exclude e v) d'"
proof -
  have key: "ex_key e = (ex_User e, ex_GroupID e)" by (simp add: ex_key_def)
  have k: "\<And>u j. tab ex_key (t_exclusions d) (u, j) = d_excl v u j" using d by (simp add: db_agree_def)
  have "exec_insert_exclusion e d = Inr (d\<lparr>t_exclusions := t_exclusions d @ [e]\<rparr>)"
    using g n agree_excl_key [OF d] agree_has_group [OF d] by (simp add: exec_insert_exclusion_def key)
  moreover have "tab ex_key (t_exclusions d) (ex_key e) = None" using n by (simp add: k key)
  ultimately show ?thesis using d by (auto simp: db_agree_def v_exclude_def tab_insert keyed_insert)
qed

end
