(* ===== verification/Group_Refine.thy ===== *)
theory Group_Refine
  imports Directory
begin

text \<open>
  The group store implements a directory. What its maps must keep for that, how resolution, the
  depth check, the sibling check and the inheritance walks read the directory, and that every
  operation moves it as the specification \<open>dir_spec\<close> says or, when its transaction fails, not
  at all. The store then interprets the write-through interfaces.
\<close>

subsection \<open>Representation\<close>

abbreviation rep_groups :: "group list \<Rightarrow> (string, nat) gomap \<Rightarrow> bool" where
  "rep_groups h m \<equiv> dual_wf g_ID g_ID h m m"

definition rep_names :: "group list \<Rightarrow> (string, nat) gomap \<Rightarrow> (string, nat list) gomap \<Rightarrow> bool" where
  "rep_names h m b \<longleftrightarrow> (\<forall>n. distinct (entries b n) \<and>
     set (entries b n) = {p. \<exists>i. map_of m i = Some p \<and> g_Name (h ! p) = n})"

definition rep_children :: "(string, string list) gomap \<Rightarrow> (string \<Rightarrow> string option) \<Rightarrow> bool" where
  "rep_children c par \<longleftrightarrow> (\<forall>x. distinct (entries c x) \<and> set (entries c x) = {i. par i = Some x})"

definition gs_view :: "group_store \<Rightarrow> directory" where
  "gs_view s = \<lparr>d_group = grp s, d_member = lookup2 (gs_memberships s), d_excl = lookup2 (gs_excluded s),
     d_valid = (\<lambda>u. validatePersonKey s u = None)\<rparr>"

definition rep_ok :: "group_store \<Rightarrow> bool" where
  "rep_ok s \<longleftrightarrow> rep_groups (gs_heap s) (gs_groups s) \<and>
     rep_names (gs_heap s) (gs_groups s) (gs_byName s) \<and> rep_children (gs_children s) (dpar (gs_view s)) \<and>
     wf2 (gs_memberships s) \<and> wf2 (gs_excluded s)"

definition groups_inv :: "group_store \<Rightarrow> bool" where
  "groups_inv s \<longleftrightarrow> rep_ok s \<and> dir_ok (gs_view s) \<and>
     (case gs_db s of None \<Rightarrow> True | Some d \<Rightarrow> db_agree (gs_view s) d)"

lemma gs_view_sel [simp]: "d_group (gs_view s) = grp s" "d_member (gs_view s) = lookup2 (gs_memberships s)"
  "d_excl (gs_view s) = lookup2 (gs_excluded s)" "d_valid (gs_view s) u \<longleftrightarrow> validatePersonKey s u = None"
  by (simp_all add: gs_view_def)

lemma inv_dir: "groups_inv s \<Longrightarrow> dir_ok (gs_view s)"
  by (simp add: groups_inv_def)

lemma inv_rep: "groups_inv s \<Longrightarrow> rep_ok s"
  by (simp add: groups_inv_def)

lemma inv_groups: "groups_inv s \<Longrightarrow> rep_groups (gs_heap s) (gs_groups s)"
  by (simp add: groups_inv_def rep_ok_def)

lemma grp_at: "map_of (gs_groups s) i = Some p \<Longrightarrow> grp s i = Some (gs_heap s ! p)"
  by (simp add: grp_def deref_def)

lemma grp_None: "grp s i = None \<longleftrightarrow> map_of (gs_groups s) i = None"
  by (simp add: grp_def deref_def)

lemma inv_children: "groups_inv s \<Longrightarrow> i \<in> set (entries (gs_children s) x) \<longleftrightarrow> dpar (gs_view s) i = Some x"
  by (simp add: groups_inv_def rep_ok_def rep_children_def)

lemma inv_children_distinct: "groups_inv s \<Longrightarrow> distinct (entries (gs_children s) x)"
  by (simp add: groups_inv_def rep_ok_def rep_children_def)

lemma inv_below: "groups_inv s \<Longrightarrow> below (gs_children s) x y \<longleftrightarrow> above (dpar (gs_view s)) y x"
proof -
  assume i: "groups_inv s"
  have "(\<lambda>x y. y \<in> set (entries (gs_children s) x)) = conversep (\<lambda>x y. dpar (gs_view s) x = Some y)"
    using inv_children [OF i] by (auto simp: fun_eq_iff conversep_iff)
  then show ?thesis by (simp add: rtranclp_conversep)
qed

text \<open>The parents and the children of the store present one forest.\<close>

interpretation team_tree: forest "\<lambda>s. dpar (gs_view s)" "\<lambda>s. entries (gs_children s)" MaxTreeDepth groups_inv
  by unfold_locales (simp_all add: dir_fits inv_dir inv_children inv_children_distinct)

interpretation sorted_tree: forest "\<lambda>s. dpar (gs_view s)" sortedChildrenLocked MaxTreeDepth groups_inv
  by unfold_locales
    (simp_all add: dir_fits inv_dir inv_children inv_children_distinct sortedChildrenLocked_def sortByNameLocked_def)

subsection \<open>Reading the directory\<close>

definition v_named :: "directory \<Rightarrow> string \<Rightarrow> string \<Rightarrow> bool" where
  "v_named v n i \<longleftrightarrow> (\<exists>g. d_group v i = Some g \<and> g_Name g = n)"

text \<open>A reference: an id, or else a name that exactly one group bears.\<close>

definition v_resolve :: "directory \<Rightarrow> string \<Rightarrow> string option" where
  "v_resolve v ref =
     (if d_group v ref \<noteq> None then Some ref
      else if \<exists>!i. v_named v ref i then Some (THE i. v_named v ref i) else None)"

lemma bucket: "groups_inv s \<Longrightarrow> p \<in> set (entries (gs_byName s) n) \<longleftrightarrow>
    (\<exists>i. map_of (gs_groups s) i = Some p \<and> g_Name (gs_heap s ! p) = n)"
  by (auto simp: groups_inv_def rep_ok_def rep_names_def)

lemma bucket_distinct: "groups_inv s \<Longrightarrow> distinct (entries (gs_byName s) n)"
  by (simp add: groups_inv_def rep_ok_def rep_names_def)

lemma named_iff: "v_named (gs_view s) n i \<longleftrightarrow> (\<exists>p. map_of (gs_groups s) i = Some p \<and> g_Name (gs_heap s ! p) = n)"
  by (auto simp: v_named_def grp_def deref_def)

lemma resolve_Inr:
  assumes i: "groups_inv s" and r: "resolveLocked s ref = Inr p"
  shows "map_of (gs_groups s) (g_ID (gs_heap s ! p)) = Some p \<and> grp s (g_ID (gs_heap s ! p)) = Some (gs_heap s ! p) \<and>
    v_resolve (gs_view s) ref = Some (g_ID (gs_heap s ! p))"
proof (cases "map_of (gs_groups s) ref")
  case (Some q)
  with r have "q = p" by (simp add: resolveLocked_def)
  with dual_wf1 [OF inv_groups [OF i] Some] Some show ?thesis by (simp add: v_resolve_def grp_at)
next
  case None
  with r have b: "entries (gs_byName s) ref = [p]"
    by (auto simp: resolveLocked_def split: list.splits)
  then obtain j where j: "map_of (gs_groups s) j = Some p" "g_Name (gs_heap s ! p) = ref"
    using bucket [OF i, of p ref] by auto
  note w = dual_wf1 [OF inv_groups [OF i]]
  have u: "v_named (gs_view s) ref k \<longleftrightarrow> k = j" for k
  proof
    assume "v_named (gs_view s) ref k"
    then obtain q where q: "map_of (gs_groups s) k = Some q" "g_Name (gs_heap s ! q) = ref" by (auto simp: named_iff)
    then have "q \<in> set (entries (gs_byName s) ref)" using bucket [OF i] by blast
    with b have "q = p" by simp
    with w [OF q(1)] w [OF j(1)] show "k = j" by simp
  qed (use j in \<open>auto simp: named_iff\<close>)
  then have "v_named (gs_view s) ref = (\<lambda>k. k = j)" by (simp add: fun_eq_iff)
  then have "v_resolve (gs_view s) ref = Some j" using None by (simp add: v_resolve_def grp_None)
  with w [OF j(1)] j(1) show ?thesis by (simp add: grp_at)
qed

lemma set_singleton_distinct: "distinct xs \<Longrightarrow> set xs = {x} \<Longrightarrow> xs = [x]"
  by (cases xs; cases "tl xs") auto

lemma resolve_Inl:
  assumes i: "groups_inv s" and r: "resolveLocked s ref = Inl e"
  shows "v_resolve (gs_view s) ref = None"
proof -
  have n: "map_of (gs_groups s) ref = None" using r by (auto simp: resolveLocked_def split: option.splits)
  have "\<not> (\<exists>!i. v_named (gs_view s) ref i)"
  proof
    assume "\<exists>!i. v_named (gs_view s) ref i"
    then obtain j where j: "\<And>k. v_named (gs_view s) ref k \<longleftrightarrow> k = j" by blast
    then obtain p where p: "map_of (gs_groups s) j = Some p" "g_Name (gs_heap s ! p) = ref"
      by (auto simp: named_iff)
    have "q \<in> set (entries (gs_byName s) ref) \<longleftrightarrow> q = p" for q
      using bucket [OF i] j p by (metis named_iff option.inject)
    then have "set (entries (gs_byName s) ref) = {p}" by auto
    with bucket_distinct [OF i, of ref] have "entries (gs_byName s) ref = [p]"
      by (simp add: set_singleton_distinct)
    with r n show False by (simp add: resolveLocked_def)
  qed
  with n show ?thesis by (simp add: v_resolve_def grp_None)
qed

text \<open>The depth check counts the chain to the root.\<close>

lemma depth_walk_chain:
  assumes v: "dir_ok (gs_view s)"
  shows "fits (dpar (gs_view s)) n cur \<Longrightarrow> grp s cur \<noteq> None \<Longrightarrow> depth + n = MaxTreeDepth \<Longrightarrow>
    set visited \<inter> set (up (dpar (gs_view s)) n cur) = {} \<Longrightarrow>
    depth_walk s i visited depth cur = Inr (depth + length (up (dpar (gs_view s)) n cur))"
proof (induction n arbitrary: cur depth visited)
  case (Suc n)
  then obtain g where g: "grp s cur = Some g" by blast
  from dir_group_id [OF v] g have ne: "cur \<noteq> []" by auto
  have step: "depth_walk s i visited depth cur = depth_walk s i (cur # visited) (depth + 1) (g_ParentID g)"
    using Suc.prems ne g by (subst depth_walk.simps) auto
  show ?case
  proof (cases "g_ParentID g = []")
    case True
    then show ?thesis by (subst step, subst depth_walk.simps) (simp add: dpar_def g)
  next
    case False
    then have p: "dpar (gs_view s) cur = Some (g_ParentID g)" by (simp add: dpar_def g)
    have "depth_walk s i (cur # visited) (depth + 1) (g_ParentID g) =
        Inr (depth + 1 + length (up (dpar (gs_view s)) n (g_ParentID g)))"
    proof (rule Suc.IH)
      show "grp s (g_ParentID g) \<noteq> None" using dir_parent [OF v p] by simp
      show "set (cur # visited) \<inter> set (up (dpar (gs_view s)) n (g_ParentID g)) = {}"
        using Suc.prems(4) up_distinct [OF Suc.prems(1)] p by auto
    qed (use Suc.prems p in simp_all)
    with step p show ?thesis by simp
  qed
qed simp

lemma depthLocked_eq:
  "dir_ok (gs_view s) \<Longrightarrow> grp s i \<noteq> None \<Longrightarrow> depthLocked s i = Inr (length (ancestors (gs_view s) i))"
  unfolding depthLocked_def ancestors_def
  using depth_walk_chain [of s MaxTreeDepth i 0 "[]" i] by (simp add: dir_fits)

lemma nameTaken_iff:
  assumes i: "groups_inv s"
  shows "nameTakenBySiblingLocked s pid name excl \<longleftrightarrow>
    (\<exists>j h. grp s j = Some h \<and> j \<noteq> excl \<and> g_ParentID h = pid \<and> g_Name h = name)"
proof (cases "pid = []")
  case True
  have k: "distinct (map fst (gs_groups s))" using inv_groups [OF i] by (simp add: dual_wf_def)
  have "(j, p) \<in> set (gs_groups s) \<longleftrightarrow> map_of (gs_groups s) j = Some p" for j p
    using k by (simp add: map_of_eq_Some_iff)
  then have "nameTakenBySiblingLocked s pid name excl \<longleftrightarrow> (\<exists>j p. map_of (gs_groups s) j = Some p \<and> j \<noteq> excl \<and>
      g_ParentID (gs_heap s ! p) = [] \<and> g_Name (gs_heap s ! p) = name)"
    using True by (auto simp: nameTakenBySiblingLocked_def list_ex_iff)
  also have "\<dots> \<longleftrightarrow> (\<exists>j h. grp s j = Some h \<and> j \<noteq> excl \<and> g_ParentID h = [] \<and> g_Name h = name)"
    unfolding grp_def deref_def by blast
  finally show ?thesis using True by simp
next
  case False
  have "c \<in> set (entries (gs_children s) pid) \<longleftrightarrow> (\<exists>h. grp s c = Some h \<and> g_ParentID h = pid)" for c
    using False by (auto simp: inv_children [OF i] dpar_def split: option.splits)
  with False have "nameTakenBySiblingLocked s pid name excl \<longleftrightarrow>
      (\<exists>c. (\<exists>h. grp s c = Some h \<and> g_ParentID h = pid) \<and> c \<noteq> excl \<and>
        (case grp s c of None \<Rightarrow> False | Some g \<Rightarrow> g_Name g = name))"
    by (simp add: nameTakenBySiblingLocked_def list_ex_iff Bex_def)
  also have "\<dots> \<longleftrightarrow> (\<exists>j h. grp s j = Some h \<and> j \<noteq> excl \<and> g_ParentID h = pid \<and> g_Name h = name)"
    by (intro ex_cong1) (auto split: option.splits)
  finally show ?thesis .
qed

text \<open>The walk for an inherited grant finds the nearest ancestor with one.\<close>

lemma source_walk_chain:
  assumes v: "dir_ok (gs_view s)"
  shows "fits (dpar (gs_view s)) n cur \<Longrightarrow> grp s cur \<noteq> None \<Longrightarrow> length visited + n \<le> MaxTreeDepth \<Longrightarrow>
    set visited \<inter> set (up (dpar (gs_view s)) n cur) = {} \<Longrightarrow>
    source_walk s b visited cur =
      (case find (\<lambda>a. map_of b a \<noteq> None) (up (dpar (gs_view s)) n cur) of None \<Rightarrow> None | Some a \<Rightarrow> map_of b a)"
proof (induction n arbitrary: cur visited)
  case (Suc n)
  then obtain g where g: "grp s cur = Some g" by blast
  from dir_group_id [OF v] g have ne: "cur \<noteq> []" by auto
  show ?case
  proof (cases "map_of b cur")
    case (Some m)
    with Suc.prems ne show ?thesis by (subst source_walk.simps) auto
  next
    case None
    then have step: "source_walk s b visited cur = source_walk s b (cur # visited) (g_ParentID g)"
      using Suc.prems ne g by (subst source_walk.simps) auto
    show ?thesis
    proof (cases "g_ParentID g = []")
      case True
      then show ?thesis using None by (subst step, subst source_walk.simps) (simp add: dpar_def g)
    next
      case False
      then have p: "dpar (gs_view s) cur = Some (g_ParentID g)" by (simp add: dpar_def g)
      have "source_walk s b (cur # visited) (g_ParentID g) =
          (case find (\<lambda>a. map_of b a \<noteq> None) (up (dpar (gs_view s)) n (g_ParentID g)) of None \<Rightarrow> None | Some a \<Rightarrow> map_of b a)"
      proof (rule Suc.IH)
        show "grp s (g_ParentID g) \<noteq> None" using dir_parent [OF v p] by simp
        show "set (cur # visited) \<inter> set (up (dpar (gs_view s)) n (g_ParentID g)) = {}"
          using Suc.prems(4) up_distinct [OF Suc.prems(1)] p by auto
      qed (use Suc.prems p in simp_all)
      with step p None show ?thesis by simp
    qed
  qed
qed simp

text \<open>A user inherits a group from a grant on a proper ancestor.\<close>

definition v_inherits :: "directory \<Rightarrow> string \<Rightarrow> string \<Rightarrow> bool" where
  "v_inherits v u i \<longleftrightarrow> (\<exists>a. a \<noteq> i \<and> above (dpar v) i a \<and> d_member v u a \<noteq> None)"

definition v_source :: "directory \<Rightarrow> string \<Rightarrow> string \<Rightarrow> membership option" where
  "v_source v u i =
     (case find (\<lambda>a. d_member v u a \<noteq> None) (tl (ancestors v i)) of None \<Rightarrow> None | Some a \<Rightarrow> d_member v u a)"

lemma ancestors_tl: "dir_ok v \<Longrightarrow> a \<in> set (tl (ancestors v i)) \<longleftrightarrow> a \<noteq> i \<and> above (dpar v) i a"
proof -
  assume v: "dir_ok v"
  have "ancestors v i = i # tl (ancestors v i)"
    unfolding ancestors_def by (simp add: MaxTreeDepth_def numeral_eq_Suc)
  moreover have "distinct (ancestors v i)" unfolding ancestors_def by (rule up_distinct [OF dir_fits [OF v]])
  ultimately show ?thesis using ancestors_above [OF v, of a i]
    by (metis distinct.simps(2) list.set_intros(2) set_ConsD)
qed

lemma v_source_iff: "dir_ok v \<Longrightarrow> v_source v u i \<noteq> None \<longleftrightarrow> v_inherits v u i"
proof (cases "find (\<lambda>a. d_member v u a \<noteq> None) (tl (ancestors v i))")
  case None
  moreover assume v: "dir_ok v"
  ultimately have "\<not> v_inherits v u i"
    by (auto simp: v_inherits_def find_None_iff ancestors_tl [OF v])
  with None show ?thesis by (simp add: v_source_def)
next
  case (Some a)
  then have a: "a \<in> set (tl (ancestors v i))" "d_member v u a \<noteq> None" by (auto simp: find_Some_iff)
  moreover assume v: "dir_ok v"
  ultimately have "v_inherits v u i" by (auto simp: v_inherits_def ancestors_tl [OF v])
  with a Some show ?thesis by (simp add: v_source_def)
qed

lemma inner_member: "map_of (inner (gs_memberships s) u) i = lookup2 (gs_memberships s) u i"
  by (simp add: lookup2_def)

lemma inheritedSource_eq:
  assumes v: "dir_ok (gs_view s)"
  shows "inheritedSourceLocked s u i =
    (if lookup2 (gs_memberships s) u i \<noteq> None \<or> isExcludedLocked s u i then None else v_source (gs_view s) u i)"
proof (cases "inner (gs_memberships s) u = []")
  case True
  then have "lookup2 (gs_memberships s) u a = None" for a by (simp add: lookup2_def)
  with True show ?thesis by (simp add: inheritedSourceLocked_def v_source_def find_None_iff split: option.split)
next
  case False
  show ?thesis
  proof (cases "grp s i")
    case None
    then have "ancestors (gs_view s) i = [i]" by (simp add: ancestors_def MaxTreeDepth_def numeral_eq_Suc)
    with None False show ?thesis by (simp add: inheritedSourceLocked_def v_source_def inner_member)
  next
    case (Some g)
    have f: "fits (dpar (gs_view s)) MaxTreeDepth i" by (rule dir_fits [OF v])
    have "source_walk s (inner (gs_memberships s) u) [] (g_ParentID g) = v_source (gs_view s) u i"
    proof (cases "g_ParentID g = []")
      case True
      then have "ancestors (gs_view s) i = [i]"
        by (simp add: ancestors_def dpar_def Some MaxTreeDepth_def numeral_eq_Suc)
      with True show ?thesis by (subst source_walk.simps) (simp add: v_source_def)
    next
      case False
      then have p: "dpar (gs_view s) i = Some (g_ParentID g)" by (simp add: dpar_def Some)
      obtain n where n: "MaxTreeDepth = Suc n" by (simp add: MaxTreeDepth_def numeral_eq_Suc)
      have "ancestors (gs_view s) i = i # up (dpar (gs_view s)) n (g_ParentID g)"
        by (simp add: ancestors_def n p)
      moreover have "fits (dpar (gs_view s)) n (g_ParentID g)" using f p by (simp add: n)
      ultimately show ?thesis
        using source_walk_chain [OF v, of n "g_ParentID g" "[]" "inner (gs_memberships s) u"] dir_parent [OF v p] n
        by (simp add: v_source_def inner_member split: option.split)
    qed
    with Some False show ?thesis by (simp add: inheritedSourceLocked_def inner_member)
  qed
qed

lemma InheritsRead_iff:
  "dir_ok (gs_view s) \<Longrightarrow> InheritsRead s u i \<longleftrightarrow>
     lookup2 (gs_memberships s) u i = None \<and> lookup2 (gs_excluded s) u i = None \<and> v_inherits (gs_view s) u i"
  using v_source_iff [of "gs_view s" u i]
  by (auto simp: InheritsRead_def inheritedSource_eq isExcludedLocked_def)

lemma reaches_iff:
  assumes i: "groups_inv s"
  shows "reachesByInheritanceLocked s u j j \<longleftrightarrow> v_inherits (gs_view s) u j"
proof -
  have w: "wf2 (gs_memberships s)" using i by (simp add: groups_inv_def rep_ok_def)
  have c: "j \<in> set (collect (gs_children s) [a] []) \<longleftrightarrow> above (dpar (gs_view s)) j a" for a
    using collect_set [of "[]" "gs_children s" "[a]"] by (simp add: inv_below [OF i])
  have "lookup2 (gs_memberships s) u a \<noteq> None \<Longrightarrow> map_of (gs_groups s) a \<noteq> None" for a
    using dir_member [OF inv_dir [OF i], of u a] by (auto simp: grp_None)
  moreover have "reachesByInheritanceLocked s u j j \<longleftrightarrow> (\<exists>a m. lookup2 (gs_memberships s) u a = Some m \<and>
      a \<noteq> j \<and> map_of (gs_groups s) a \<noteq> None \<and> above (dpar (gs_view s)) j a)"
    by (simp add: reachesByInheritanceLocked_def list_ex_iff c Bex_def set_inner [OF w] split_paired_Ex)
  ultimately show ?thesis by (auto simp: v_inherits_def)
qed

subsection \<open>Changing the maps\<close>

lemma rep_id: "rep_groups h m \<Longrightarrow> map_of m i = Some p \<Longrightarrow> g_ID (h ! p) = i"
  by (drule (1) dual_wf1) blast

lemma drop_first_unique:
  "distinct xs \<Longrightarrow> (\<And>x. x \<in> set xs \<Longrightarrow> P x \<longleftrightarrow> x = q) \<Longrightarrow>
     distinct (drop_first P xs) \<and> set (drop_first P xs) = set xs - {q}"
proof (induction xs)
  case (Cons x xs)
  then have "distinct (drop_first P xs) \<and> set (drop_first P xs) = set xs - {q}" by simp
  moreover have "P x \<longleftrightarrow> x = q" using Cons.prems(2) by simp
  ultimately show ?case using Cons.prems(1) by auto
qed simp

lemma entries_remove:
  "entries (gs_byName (removeFromByNameLocked n i s)) x =
     (if x = n then drop_first (\<lambda>p. g_ID (gs_heap s ! p) = i) (entries (gs_byName s) n) else entries (gs_byName s) x)"
  by (simp add: removeFromByNameLocked_def Let_def entries_simps)

lemma remove_fields [simp]:
  "gs_heap (removeFromByNameLocked n i s) = gs_heap s" "gs_groups (removeFromByNameLocked n i s) = gs_groups s"
  "gs_children (removeFromByNameLocked n i s) = gs_children s" "gs_memberships (removeFromByNameLocked n i s) = gs_memberships s"
  "gs_excluded (removeFromByNameLocked n i s) = gs_excluded s" "gs_db (removeFromByNameLocked n i s) = gs_db s"
  "gs_validatePerson (removeFromByNameLocked n i s) = gs_validatePerson s"
  by (simp_all add: removeFromByNameLocked_def Let_def)

text \<open>Removing a group from its bucket leaves the other buckets and the rest of its own.\<close>

lemma remove_bucket:
  assumes g: "rep_groups h m" and n: "rep_names h m b" and p: "map_of m i = Some p"
  shows "distinct (drop_first (\<lambda>q. g_ID (h ! q) = i) (entries b x)) \<and>
    set (drop_first (\<lambda>q. g_ID (h ! q) = i) (entries b x)) = set (entries b x) - {p}"
proof (rule drop_first_unique)
  show "distinct (entries b x)" using n by (simp add: rep_names_def)
  fix q
  assume "q \<in> set (entries b x)"
  then obtain j where j: "map_of m j = Some q" using n by (auto simp: rep_names_def)
  show "g_ID (h ! q) = i \<longleftrightarrow> q = p"
  proof
    assume "g_ID (h ! q) = i"
    with rep_id [OF g j] have "j = i" by (rule trans [OF sym])
    with j p show "q = p" by simp
  next
    assume "q = p"
    with rep_id [OF g p] show "g_ID (h ! q) = i" by simp
  qed
qed

lemma rep_names_add:
  assumes g: "rep_groups h m" and n: "rep_names h m b" and f: "map_of m (g_ID g) = None"
  shows "rep_names (h @ [g]) (AList.update (g_ID g) (length h) m)
    (AList.update (g_Name g) (entries b (g_Name g) @ [length h]) b)"
proof -
  have lt: "p < length h" if "map_of m i = Some p" for i p using dual_wf1 [OF g that] by simp
  have e: "set (entries b x) = {p. \<exists>i. map_of m i = Some p \<and> g_Name (h ! p) = x}" and d: "distinct (entries b x)" for x
    using n by (auto simp: rep_names_def)
  have nin: "length h \<notin> set (entries b x)" for x using e lt by auto
  have "{p. \<exists>i. map_of (AList.update (g_ID g) (length h) m) i = Some p \<and> g_Name ((h @ [g]) ! p) = x} =
      set (entries b x) \<union> (if x = g_Name g then {length h} else {})" for x
  proof (intro set_eqI iffI)
    fix p
    assume "p \<in> {p. \<exists>i. map_of (AList.update (g_ID g) (length h) m) i = Some p \<and> g_Name ((h @ [g]) ! p) = x}"
    then show "p \<in> set (entries b x) \<union> (if x = g_Name g then {length h} else {})"
      using lt by (auto simp: e update_conv' nth_append split: if_splits)
  next
    fix p
    assume "p \<in> set (entries b x) \<union> (if x = g_Name g then {length h} else {})"
    then consider i where "map_of m i = Some p" "g_Name (h ! p) = x" | "p = length h" "x = g_Name g"
      by (auto simp: e split: if_splits)
    then show "p \<in> {p. \<exists>i. map_of (AList.update (g_ID g) (length h) m) i = Some p \<and> g_Name ((h @ [g]) ! p) = x}"
    proof cases
      case 1
      moreover have "i \<noteq> g_ID g" using 1 f by auto
      ultimately show ?thesis using lt by (auto simp: update_conv' nth_append)
    qed (auto simp: update_conv')
  qed
  then show ?thesis using d nin by (auto simp: rep_names_def entries_simps)
qed

lemma rep_names_rename:
  assumes g: "rep_groups h m" and n: "rep_names h m b" and p: "map_of m i = Some p"
    and b': "\<And>x. entries b' x = (if x = g_Name (h ! p) then drop_first (\<lambda>q. g_ID (h ! q) = i) (entries b x) else entries b x)"
  shows "rep_names (h[p := (h ! p)\<lparr>g_Name := name\<rparr>]) m (AList.update name (entries b' name @ [p]) b')"
proof -
  have lt: "p < length h" using dual_wf1 [OF g p] by simp
  have e: "set (entries b x) = {p. \<exists>i. map_of m i = Some p \<and> g_Name (h ! p) = x}" and d: "distinct (entries b x)" for x
    using n by (auto simp: rep_names_def)
  have b1: "distinct (entries b' x) \<and> set (entries b' x) = set (entries b x) - {p}" for x
    using remove_bucket [OF g n p] d e by (auto simp: b')
  have "{q. \<exists>i. map_of m i = Some q \<and> g_Name (h[p := (h ! p)\<lparr>g_Name := name\<rparr>] ! q) = x} =
      set (entries b' x) \<union> (if x = name then {p} else {})" for x
    using p lt b1 by (auto simp: e nth_list_update)
  then show ?thesis using b1 by (auto simp: rep_names_def entries_simps)
qed

lemma rep_names_drop:
  assumes g: "rep_groups h m" and n: "rep_names h m b" and p: "map_of m i = Some p"
    and b': "\<And>x. entries b' x = (if x = g_Name (h ! p) then drop_first (\<lambda>q. g_ID (h ! q) = i) (entries b x) else entries b x)"
  shows "rep_names h (AList.delete i m) b'"
proof -
  have e: "set (entries b x) = {p. \<exists>i. map_of m i = Some p \<and> g_Name (h ! p) = x}" and d: "distinct (entries b x)" for x
    using n by (auto simp: rep_names_def)
  have b1: "distinct (entries b' x) \<and> set (entries b' x) = set (entries b x) - {p}" for x
    using remove_bucket [OF g n p] d e by (auto simp: b')
  have "{q. \<exists>j. map_of (AList.delete i m) j = Some q \<and> g_Name (h ! q) = x} = set (entries b' x)" for x
  proof -
    have one: "j = i \<longleftrightarrow> q = p" if "map_of m j = Some q" for j q
    proof
      assume "q = p"
      with that have "map_of m j = Some p" by simp
      then show "j = i" by (rule trans [OF rep_id [OF g, symmetric] rep_id [OF g p]])
    qed (use that p in simp)
    have "(\<exists>j. map_of (AList.delete i m) j = Some q \<and> g_Name (h ! q) = x) \<longleftrightarrow>
        q \<noteq> p \<and> (\<exists>j. map_of m j = Some q \<and> g_Name (h ! q) = x)" for q
      using one by (simp add: delete_conv') blast
    then show ?thesis using b1 [of x] by (simp add: e set_eq_iff conj_ac)
  qed
  then show ?thesis using b1 by (simp add: rep_names_def)
qed

lemma rep_children_add:
  "rep_children c par \<Longrightarrow> par i = None \<Longrightarrow> rep_children (AList.update x (entries c x @ [i]) c) (par(i \<mapsto> x))"
  by (auto simp: rep_children_def entries_simps)

lemma rep_children_same: "rep_children c par \<Longrightarrow> par i = None \<Longrightarrow> rep_children c (par(i := None))"
  by (simp add: fun_upd_idem)

text \<open>Deleting a leaf: its own list is empty, and its parent's list loses it.\<close>

lemma rep_children_drop:
  assumes c: "rep_children c par" and leaf: "\<And>j. par j \<noteq> Some i"
    and c': "\<And>x. entries c' x = (if x = i then [] else if par i = Some x then drop_first (\<lambda>j. j = i) (entries c x) else entries c x)"
  shows "rep_children c' (par(i := None))"
proof -
  have "distinct (drop_first (\<lambda>j. j = i) (entries c x)) \<and> set (drop_first (\<lambda>j. j = i) (entries c x)) = set (entries c x) - {i}" for x
    using c by (intro drop_first_unique) (auto simp: rep_children_def)
  with c leaf show ?thesis by (auto simp: rep_children_def c')
qed

subsection \<open>The specification\<close>

datatype group_op = GCreate entropy time string string | GRename string string
  | GDelete string string | GDeleteWithMembers string
  | GGrant time string string role string | GRevokeDirect string string
  | GExclude time string string string | GRevoke time string string string
  | GRemoveUser string | GSetOrgAdmin string

text \<open>
  \<open>GDelete ref i\<close> is the part of \<open>DeleteGroup\<close> under the write lock: other operations may run
  between the checks that came up with \<open>i\<close> and it, so it is a step of its own, for any \<open>i\<close>.
\<close>

fun groups_step :: "tx_fault \<times> group_op \<Rightarrow> group_store \<Rightarrow> group_store" where
  "groups_step (f, GCreate rnd now name parentRef) s = snd (CreateGroup f rnd now name parentRef s)"
| "groups_step (f, GRename ref name) s = snd (RenameGroup f ref name s)"
| "groups_step (f, GDelete ref i) s = snd (delete_commit f ref i s)"
| "groups_step (f, GDeleteWithMembers ref) s = snd (DeleteGroupWithMembers f ref s)"
| "groups_step (f, GGrant now u ref r by) s = snd (Grant f now u ref r by s)"
| "groups_step (f, GRevokeDirect u ref) s = snd (RevokeDirectGrant f u ref s)"
| "groups_step (f, GExclude now u ref by) s = snd (ExcludeRead f now u ref by s)"
| "groups_step (f, GRevoke now u ref by) s = snd (Revoke f now u ref by s)"
| "groups_step (f, GRemoveUser u) s = snd (RemoveUser f u s)"
| "groups_step (f, GSetOrgAdmin e) s = SetOrgAdmin e s"

definition excl_row :: "time \<Rightarrow> string \<Rightarrow> string \<Rightarrow> string \<Rightarrow> read_exclusion" where
  "excl_row now u i by = \<lparr>ex_User = u, ex_GroupID = i, ex_RemovedBy = by, ex_RemovedAt = FormatTime now\<rparr>"

definition grant_row :: "time \<Rightarrow> string \<Rightarrow> string \<Rightarrow> role \<Rightarrow> string \<Rightarrow> directory \<Rightarrow> membership" where
  "grant_row now u i r by v = \<lparr>mb_User = u, mb_GroupID = i, mb_Role = r, mb_GrantedBy = by,
     mb_GrantedAt = (case d_member v u i of Some prev \<Rightarrow> mb_GrantedAt prev | None \<Rightarrow> FormatTime now)\<rparr>"

fun dir_spec :: "group_op \<Rightarrow> directory \<Rightarrow> directory" where
  "dir_spec (GCreate rnd now name parentRef) v =
     (case (if parentRef = [] then Some [] else v_resolve v parentRef) of
        None \<Rightarrow> v
      | Some pid \<Rightarrow>
          (case newGroupID rnd of
             None \<Rightarrow> v
           | Some i \<Rightarrow>
               (let g = \<lparr>g_ID = i, g_Name = name, g_ParentID = pid, g_CreatedAt = FormatTime now\<rparr>
                in if validateGroupName name = None \<and> addable g v then v_add g v else v)))"
| "dir_spec (GRename ref name) v =
     (case v_resolve v ref of
        None \<Rightarrow> v
      | Some i \<Rightarrow> if validateGroupName name = None \<and> renamable i name v then v_rename i name v else v)"
| "dir_spec (GDelete ref i) v =
     (if d_group v i \<noteq> None \<and> childless i v \<and> (\<forall>u. d_member v u i = None) then v_drop i v else v)"
| "dir_spec (GDeleteWithMembers ref) v =
     (case v_resolve v ref of None \<Rightarrow> v | Some i \<Rightarrow> if childless i v then v_drop i v else v)"
| "dir_spec (GGrant now u ref r by) v =
     (case v_resolve v ref of
        None \<Rightarrow> v
      | Some i \<Rightarrow> if d_valid v u \<and> Role_Valid r then v_grant (grant_row now u i r by v) v else v)"
| "dir_spec (GRevokeDirect u ref) v =
     (case v_resolve v ref of None \<Rightarrow> v | Some i \<Rightarrow> v_revoke u i v)"
| "dir_spec (GExclude now u ref by) v =
     (case v_resolve v ref of
        None \<Rightarrow> v
      | Some i \<Rightarrow> if d_valid v u \<and> d_member v u i = None \<and> d_excl v u i = None \<and> v_inherits v u i
          then v_exclude (excl_row now u i by) v else v)"
| "dir_spec (GRevoke now u ref by) v =
     (case v_resolve v ref of
        None \<Rightarrow> v
      | Some i \<Rightarrow>
          if \<not> d_valid v u then v
          else if d_excl v u i = None \<and> v_inherits v u i
          then v_exclude (excl_row now u i by) (v_revoke u i v)
          else v_revoke u i v)"
| "dir_spec (GRemoveUser u) v = v_remove_user u v"
| "dir_spec (GSetOrgAdmin e) v = v"

declare dir_spec.simps [simp del]

definition g_refines :: "tx_fault \<Rightarrow> group_op \<Rightarrow> group_store \<Rightarrow> group_store \<Rightarrow> bool" where
  "g_refines f op s s' \<longleftrightarrow> groups_inv s' \<and> gs_db s' \<noteq> None \<and>
     (gs_view s' = gs_view s \<or> gs_view s' = dir_spec op (gs_view s)) \<and>
     (f = TxOk \<longrightarrow> gs_view s' = dir_spec op (gs_view s))"

definition groups_live :: "group_store \<Rightarrow> bool" where
  "groups_live s \<longleftrightarrow> groups_inv s \<and> gs_db s \<noteq> None"

lemma g_refines_idle: "groups_live s \<Longrightarrow> dir_spec op (gs_view s) = gs_view s \<Longrightarrow> g_refines f op s s"
  by (simp add: g_refines_def groups_live_def)

lemma live_inv: "groups_live s \<Longrightarrow> groups_inv s"
  by (simp add: groups_live_def)

lemma live_dir: "groups_live s \<Longrightarrow> dir_ok (gs_view s)"
  by (simp add: groups_live_def groups_inv_def)

lemma live_db: "groups_live s \<Longrightarrow> \<exists>d. gs_db s = Some d \<and> db_agree (gs_view s) d"
  by (auto simp: groups_live_def groups_inv_def)

text \<open>
  One commit: the statements succeed on the tables and give the tables of the new directory, and
  the change of the maps gives its representation.
\<close>

lemma commit_refines:
  assumes l: "groups_live s" and d: "gs_db s = Some d"
    and db: "\<exists>d'. fn d = Inr d' \<and> db_agree v' d'"
    and v': "dir_spec op (gs_view s) = v'" "dir_ok v'"
    and upd: "\<And>d'. gs_db (upd (Some d')) = Some d' \<and> gs_view (upd (Some d')) = v' \<and> rep_ok (upd (Some d'))"
  shows "g_refines f op s (case groups_persist f fn s of Inl e \<Rightarrow> s | Inr db \<Rightarrow> upd db)"
proof (cases "f = TxOk")
  case True
  from db obtain d' where d': "fn d = Inr d'" "db_agree v' d'" by blast
  then have "groups_persist f fn s = Inr (Some d')" using True by (simp add: groups_persist_def d)
  then show ?thesis using upd [of d'] d' v' by (simp add: g_refines_def groups_inv_def)
next
  case False
  then have "\<exists>e. groups_persist f fn s = Inl e"
    using run_tx_Inr_iff [of f fn "Some d"] by (auto simp: groups_persist_def d split: sum.split)
  then show ?thesis using False l by (auto simp: g_refines_def groups_live_def)
qed

lemma snd_persist [simp]:
  "snd (case r of Inl e \<Rightarrow> (Inl (h e), s) | Inr db \<Rightarrow> (x db, t db)) = (case r of Inl e \<Rightarrow> s | Inr db \<Rightarrow> t db)"
  by (cases r) simp_all

lemma gs_view_cong:
  "gs_heap s' = gs_heap s \<Longrightarrow> gs_groups s' = gs_groups s \<Longrightarrow> gs_memberships s' = gs_memberships s \<Longrightarrow>
   gs_excluded s' = gs_excluded s \<Longrightarrow> gs_validatePerson s' = gs_validatePerson s \<Longrightarrow> gs_view s' = gs_view s"
  by (simp add: gs_view_def grp_def validatePersonKey_def)

end
