(* ===== verification/Group_Write.thy ===== *)
theory Group_Write
  imports Group_Refine
begin

text \<open>
  Every mutator of the group store, operation by operation, against the directory
  specification; loading the tables back; and the interpretation of the write-through
  interfaces.
\<close>

subsection \<open>Counting rows\<close>

lemma count_rows:
  assumes "keyed key t"
  shows "length (filter P t) = card {k. \<exists>r. tab key t k = Some r \<and> P r}"
proof -
  have "distinct (map key (filter P t))" using assms by (simp add: keyed_def distinct_map_filter)
  then have "length (filter P t) = card (set (map key (filter P t)))" by (metis distinct_card length_map)
  also have "set (map key (filter P t)) = {k. \<exists>r. tab key t k = Some r \<and> P r}"
    using assms by (auto simp: tab_Some_iff)
  finally show ?thesis .
qed

lemma count_first:
  assumes "keyed key t" "\<And>r. key r = (a r, b r)"
  shows "length (filter (\<lambda>r. a r = u) t) = card {i. tab key t (u, i) \<noteq> None}"
proof -
  have "{k. \<exists>r. tab key t k = Some r \<and> a r = u} = Pair u ` {i. tab key t (u, i) \<noteq> None}"
  proof (intro set_eqI iffI)
    fix k
    assume "k \<in> {k. \<exists>r. tab key t k = Some r \<and> a r = u}"
    then obtain r where r: "tab key t k = Some r" "a r = u" by blast
    with assms(2) [of r] tab_key [OF r(1)] have "k = (u, b r)" by simp
    with r show "k \<in> Pair u ` {i. tab key t (u, i) \<noteq> None}" by auto
  next
    fix k
    assume "k \<in> Pair u ` {i. tab key t (u, i) \<noteq> None}"
    then obtain x r where k: "k = (u, x)" "tab key t k = Some r" by auto
    with assms(2) [of r] tab_key [OF k(2)] show "k \<in> {k. \<exists>r. tab key t k = Some r \<and> a r = u}" by auto
  qed
  then show ?thesis unfolding count_rows [OF assms(1)] by (simp add: card_image inj_on_def)
qed

lemma count_second:
  assumes "keyed key t" "\<And>r. key r = (a r, b r)"
  shows "length (filter (\<lambda>r. b r = i) t) = card {u. tab key t (u, i) \<noteq> None}"
proof -
  have "{k. \<exists>r. tab key t k = Some r \<and> b r = i} = (\<lambda>u. (u, i)) ` {u. tab key t (u, i) \<noteq> None}"
  proof (intro set_eqI iffI)
    fix k
    assume "k \<in> {k. \<exists>r. tab key t k = Some r \<and> b r = i}"
    then obtain r where r: "tab key t k = Some r" "b r = i" by blast
    with assms(2) [of r] tab_key [OF r(1)] have "k = (a r, i)" by simp
    with r show "k \<in> (\<lambda>u. (u, i)) ` {u. tab key t (u, i) \<noteq> None}" by auto
  next
    fix k
    assume "k \<in> (\<lambda>u. (u, i)) ` {u. tab key t (u, i) \<noteq> None}"
    then obtain x r where k: "k = (x, i)" "tab key t k = Some r" by auto
    with assms(2) [of r] tab_key [OF k(2)] show "k \<in> {k. \<exists>r. tab key t k = Some r \<and> b r = i}" by auto
  qed
  then show ?thesis unfolding count_rows [OF assms(1)] by (simp add: card_image inj_on_def)
qed

lemma count_inner: "wf2 m \<Longrightarrow> length (inner m u) = card {i. lookup2 m u i \<noteq> None}"
proof -
  assume w: "wf2 m"
  have "{i. lookup2 m u i \<noteq> None} = set (map fst (inner m u))"
    by (auto simp: lookup2_def map_of_eq_None_iff)
  then show ?thesis using wf2_inner_distinct [OF w, of u] by (metis distinct_card length_map)
qed

lemma holders_iff: "wf2 m \<Longrightarrow> u \<in> set (map fst (filter (\<lambda>(u, b). map_of b i \<noteq> None) m)) \<longleftrightarrow> lookup2 m u i \<noteq> None"
proof -
  assume w: "wf2 m"
  have "u \<in> set (map fst (filter (\<lambda>(u, b). map_of b i \<noteq> None) m)) \<longleftrightarrow> (\<exists>b. (u, b) \<in> set m \<and> map_of b i \<noteq> None)"
    by force
  also have "\<dots> \<longleftrightarrow> lookup2 m u i \<noteq> None"
    by (auto simp: wf2_set_iff [OF w] lookup2_def)
  finally show ?thesis .
qed

lemma count_holders: "wf2 m \<Longrightarrow> length (filter (\<lambda>(u, b). map_of b i \<noteq> None) m) = card {u. lookup2 m u i \<noteq> None}"
proof -
  assume w: "wf2 m"
  have "distinct (map fst (filter (\<lambda>(u, b). map_of b i \<noteq> None) m))"
    using w by (simp add: wf2_def distinct_map_filter)
  then have "length (filter (\<lambda>(u, b). map_of b i \<noteq> None) m) =
      card (set (map fst (filter (\<lambda>(u, b). map_of b i \<noteq> None) m)))" by (metis distinct_card length_map)
  also have "set (map fst (filter (\<lambda>(u, b). map_of b i \<noteq> None) m)) = {u. lookup2 m u i \<noteq> None}"
    using holders_iff [OF w] by blast
  finally show ?thesis .
qed

subsection \<open>Memberships and exclusions\<close>

lemma members_change:
  assumes "rep_ok s" "gs_heap s' = gs_heap s" "gs_groups s' = gs_groups s" "gs_byName s' = gs_byName s"
    "gs_children s' = gs_children s" "gs_validatePerson s' = gs_validatePerson s"
    "wf2 (gs_memberships s')" "wf2 (gs_excluded s')"
  shows "rep_ok s' \<and> gs_view s' = (gs_view s)\<lparr>d_member := lookup2 (gs_memberships s'), d_excl := lookup2 (gs_excluded s')\<rparr>"
proof -
  have v: "gs_view s' = (gs_view s)\<lparr>d_member := lookup2 (gs_memberships s'), d_excl := lookup2 (gs_excluded s')\<rparr>"
    using assms by (simp add: gs_view_def grp_def validatePersonKey_def)
  then have "dpar (gs_view s') = dpar (gs_view s)" by (simp add: fun_eq_iff dpar_def)
  with v assms show ?thesis by (simp add: rep_ok_def)
qed

lemma rep_wf2: "groups_live s \<Longrightarrow> wf2 (gs_memberships s) \<and> wf2 (gs_excluded s)"
  by (simp add: groups_live_def groups_inv_def rep_ok_def)

lemma resolve_live:
  "groups_live s \<Longrightarrow> resolveLocked s ref = Inr p \<Longrightarrow>
     map_of (gs_groups s) (g_ID (gs_heap s ! p)) = Some p \<and> grp s (g_ID (gs_heap s ! p)) = Some (gs_heap s ! p) \<and>
     v_resolve (gs_view s) ref = Some (g_ID (gs_heap s ! p))"
  by (rule resolve_Inr [OF live_inv])

lemma Grant_refines:
  assumes l: "groups_live s"
  shows "g_refines f (GGrant now u ref r by) s (snd (Grant f now u ref r by s))"
proof (cases "validatePersonKey s u = None \<and> Role_Valid r \<and> (\<exists>p. resolveLocked s ref = Inr p)")
  case True
  then obtain p where p: "resolveLocked s ref = Inr p" and u: "validatePersonKey s u = None" and r: "Role_Valid r" by blast
  define i where "i = g_ID (gs_heap s ! p)"
  define m where "m = grant_row now u i r by (gs_view s)"
  have i: "grp s i \<noteq> None" "v_resolve (gs_view s) ref = Some i" using resolve_live [OF l p] by (simp_all add: i_def)
  have m: "mb_User m = u" "mb_GroupID m = i" "mb_Role m = r" "mb_key m = (u, i)"
    by (simp_all add: m_def grant_row_def mb_key_def)
  obtain d where d: "gs_db s = Some d" "db_agree (gs_view s) d" using live_db [OF l] by blast
  have "\<exists>d'. exec_upsert_membership m d = Inr d' \<and>
    db_agree ((gs_view s)\<lparr>d_member := (\<lambda>u j. if (u, j) = mb_key m then Some m else d_member (gs_view s) u j)\<rparr>) d'"
    using r i by (intro db_upsert [OF live_dir [OF l] d(2)]) (simp_all add: m, simp add: m_def grant_row_def)
  then obtain d1 where d1: "exec_upsert_membership m d = Inr d1"
    "db_agree ((gs_view s)\<lparr>d_member := (\<lambda>u j. if (u, j) = mb_key m then Some m else d_member (gs_view s) u j)\<rparr>) d1"
    by blast
  from db_delete_exclusions [OF d1(2), of "\<lambda>e. ex_key e = (u, i)" "\<lambda>x j. (x, j) = (u, i)"]
  have d2: "db_agree (v_grant m (gs_view s)) (snd (sql_delete_exclusions (\<lambda>e. ex_key e = (u, i)) d1))"
    by (simp add: v_grant_def m ex_key_def cong: if_cong)
  let ?upd = "\<lambda>db. s\<lparr>gs_db := db, gs_memberships := put2 u i m (gs_memberships s), gs_excluded := del2 u i (gs_excluded s)\<rparr>"
  have "snd (Grant f now u ref r by s) =
    (case groups_persist f (\<lambda>d. then_sql (exec_upsert_membership m d)
        (\<lambda>d. Inr (snd (sql_delete_exclusions (\<lambda>e. ex_key e = (u, i)) d)))) s of Inl e \<Rightarrow> s | Inr db \<Rightarrow> ?upd db)"
    unfolding Grant_def m_def i_def grant_row_def gs_view_sel using u r by (simp add: p Let_def)
  moreover have "g_refines f (GGrant now u ref r by) s \<dots>"
  proof (rule commit_refines [OF l d(1)])
    show "\<exists>d'. then_sql (exec_upsert_membership m d)
        (\<lambda>d. Inr (snd (sql_delete_exclusions (\<lambda>e. ex_key e = (u, i)) d))) = Inr d' \<and> db_agree (v_grant m (gs_view s)) d'"
      using d1(1) d2 by simp
    show "dir_spec (GGrant now u ref r by) (gs_view s) = v_grant m (gs_view s)"
      using u r i by (simp add: dir_spec.simps m_def)
    show "dir_ok (v_grant m (gs_view s))"
      using u r i by (intro dir_ok_grant [OF live_dir [OF l]]) (simp_all add: m)
    show "gs_db (?upd (Some d')) = Some d' \<and> gs_view (?upd (Some d')) = v_grant m (gs_view s) \<and> rep_ok (?upd (Some d'))" for d'
      using members_change [of s "?upd (Some d')"] rep_wf2 [OF l] inv_rep [OF live_inv [OF l]]
      by (simp add: v_grant_def m lookup2_put2 lookup2_del2 fun_eq_iff)
  qed
  ultimately show ?thesis by simp
next
  case False
  then have "snd (Grant f now u ref r by s) = s \<and> dir_spec (GGrant now u ref r by) (gs_view s) = gs_view s"
    using resolve_Inl [OF live_inv [OF l], of ref]
    by (auto simp: Grant_def dir_spec.simps split: option.split sum.split)
  with g_refines_idle [OF l] show ?thesis by simp
qed

text \<open>Deleting the one row of a membership that is there.\<close>

lemma db_revoke:
  assumes d: "db_agree v d" and m: "d_member v u i \<noteq> None"
  shows "\<exists>d'. exec_delete_memberships (\<lambda>m. mb_key m = (u, i)) 1 d = Inr d' \<and> db_agree (v_revoke u i v) d'"
proof -
  have "length (filter (\<lambda>m. mb_key m = (u, i)) (t_memberships d)) = 1"
    using d m by (simp add: count_key db_agree_def)
  from db_delete_memberships [OF d _ this, of "\<lambda>x j. x = u \<and> j = i"]
  show ?thesis by (simp add: v_revoke_def mb_key_def)
qed

lemma v_revoke_none: "d_member v u i = None \<Longrightarrow> v_revoke u i v = v"
proof -
  assume "d_member v u i = None"
  then have "(\<lambda>x j. if x = u \<and> j = i then None else d_member v x j) = d_member v" by (auto simp: fun_eq_iff)
  then show ?thesis by (simp add: v_revoke_def)
qed

lemma RevokeDirectGrant_refines:
  assumes l: "groups_live s"
  shows "g_refines f (GRevokeDirect u ref) s (snd (RevokeDirectGrant f u ref s))"
proof (cases "resolveLocked s ref")
  case (Inl e)
  then have "snd (RevokeDirectGrant f u ref s) = s \<and> dir_spec (GRevokeDirect u ref) (gs_view s) = gs_view s"
    using resolve_Inl [OF live_inv [OF l], of ref] by (simp add: RevokeDirectGrant_def dir_spec.simps)
  with g_refines_idle [OF l] show ?thesis by simp
next
  case (Inr p)
  define i where "i = g_ID (gs_heap s ! p)"
  have i: "v_resolve (gs_view s) ref = Some i" using resolve_live [OF l Inr] by (simp add: i_def)
  obtain d where d: "gs_db s = Some d" "db_agree (gs_view s) d" using live_db [OF l] by blast
  show ?thesis
  proof (cases "lookup2 (gs_memberships s) u i = None")
    case True
    then have "snd (RevokeDirectGrant f u ref s) = s \<and> dir_spec (GRevokeDirect u ref) (gs_view s) = gs_view s"
      using i by (simp add: RevokeDirectGrant_def dir_spec.simps Inr i_def v_revoke_none)
    with g_refines_idle [OF l] show ?thesis by simp
  next
    case False
    let ?upd = "\<lambda>db. s\<lparr>gs_db := db, gs_memberships := del2 u i (gs_memberships s)\<rparr>"
    have "snd (RevokeDirectGrant f u ref s) =
      (case groups_persist f (exec_delete_memberships (\<lambda>m. mb_key m = (u, i)) 1) s of Inl e \<Rightarrow> s | Inr db \<Rightarrow> ?upd db)"
      using False unfolding RevokeDirectGrant_def i_def by (auto simp: Inr Let_def)
    moreover have "g_refines f (GRevokeDirect u ref) s \<dots>"
    proof (rule commit_refines [OF l d(1)])
      show "\<exists>d'. exec_delete_memberships (\<lambda>m. mb_key m = (u, i)) 1 d = Inr d' \<and> db_agree (v_revoke u i (gs_view s)) d'"
        using False by (intro db_revoke [OF d(2)]) simp
      show "dir_spec (GRevokeDirect u ref) (gs_view s) = v_revoke u i (gs_view s)" by (simp add: dir_spec.simps i)
      show "dir_ok (v_revoke u i (gs_view s))" by (rule dir_ok_revoke [OF live_dir [OF l]])
      show "gs_db (?upd (Some d')) = Some d' \<and> gs_view (?upd (Some d')) = v_revoke u i (gs_view s) \<and> rep_ok (?upd (Some d'))" for d'
        using members_change [of s "?upd (Some d')"] rep_wf2 [OF l] inv_rep [OF live_inv [OF l]]
        by (simp add: v_revoke_def lookup2_del2 fun_eq_iff gs_view_def)
    qed
    ultimately show ?thesis by simp
  qed
qed

lemma ExcludeRead_refines:
  assumes l: "groups_live s"
  shows "g_refines f (GExclude now u ref by) s (snd (ExcludeRead f now u ref by s))"
proof (cases "validatePersonKey s u = None \<and> (\<exists>p. resolveLocked s ref = Inr p \<and>
    lookup2 (gs_memberships s) u (g_ID (gs_heap s ! p)) = None \<and> InheritsRead s u (g_ID (gs_heap s ! p)))")
  case True
  then obtain p where p: "resolveLocked s ref = Inr p" and u: "validatePersonKey s u = None"
    and n: "lookup2 (gs_memberships s) u (g_ID (gs_heap s ! p)) = None" and r: "InheritsRead s u (g_ID (gs_heap s ! p))" by blast
  define i where "i = g_ID (gs_heap s ! p)"
  have i: "grp s i \<noteq> None" "v_resolve (gs_view s) ref = Some i" using resolve_live [OF l p] by (simp_all add: i_def)
  have h: "lookup2 (gs_memberships s) u i = None" "lookup2 (gs_excluded s) u i = None" "v_inherits (gs_view s) u i"
    using n r by (auto simp: i_def InheritsRead_iff [OF live_dir [OF l]])
  obtain d where d: "gs_db s = Some d" "db_agree (gs_view s) d" using live_db [OF l] by blast
  let ?e = "excl_row now u i by"
  let ?upd = "\<lambda>db. s\<lparr>gs_db := db, gs_excluded := put2 u i ?e (gs_excluded s)\<rparr>"
  have e: "ex_User ?e = u" "ex_GroupID ?e = i" "ex_key ?e = (u, i)" by (simp_all add: excl_row_def ex_key_def)
  have "snd (ExcludeRead f now u ref by s) =
    (case groups_persist f (exec_insert_exclusion ?e) s of Inl e \<Rightarrow> s | Inr db \<Rightarrow> ?upd db)"
    unfolding ExcludeRead_def i_def excl_row_def using u n r by (simp add: p Let_def)
  moreover have "g_refines f (GExclude now u ref by) s \<dots>"
  proof (rule commit_refines [OF l d(1)])
    show "\<exists>d'. exec_insert_exclusion ?e d = Inr d' \<and> db_agree (v_exclude ?e (gs_view s)) d'"
      using i h by (intro db_insert_exclusion [OF d(2)]) (simp_all add: e)
    show "dir_spec (GExclude now u ref by) (gs_view s) = v_exclude ?e (gs_view s)"
      using u h by (simp add: dir_spec.simps i)
    show "dir_ok (v_exclude ?e (gs_view s))"
      using i u h by (intro dir_ok_exclude [OF live_dir [OF l]]) (simp_all add: e)
    show "gs_db (?upd (Some d')) = Some d' \<and> gs_view (?upd (Some d')) = v_exclude ?e (gs_view s) \<and> rep_ok (?upd (Some d'))" for d'
      using members_change [of s "?upd (Some d')"] rep_wf2 [OF l] inv_rep [OF live_inv [OF l]]
      by (simp add: v_exclude_def lookup2_put2 fun_eq_iff gs_view_def e)
  qed
  ultimately show ?thesis by simp
next
  case False
  have "snd (ExcludeRead f now u ref by s) = s \<and> dir_spec (GExclude now u ref by) (gs_view s) = gs_view s"
  proof (cases "resolveLocked s ref")
    case (Inl e)
    with resolve_Inl [OF live_inv [OF l] Inl] show ?thesis
      by (simp add: ExcludeRead_def dir_spec.simps split: option.split)
  next
    case (Inr p)
    with False have "validatePersonKey s u \<noteq> None \<or> lookup2 (gs_memberships s) u (g_ID (gs_heap s ! p)) \<noteq> None \<or>
        \<not> InheritsRead s u (g_ID (gs_heap s ! p))" by auto
    then show ?thesis
      using Inr resolve_live [OF l Inr] InheritsRead_iff [OF live_dir [OF l], of u "g_ID (gs_heap s ! p)"]
      by (elim disjE) (auto simp: ExcludeRead_def dir_spec.simps Let_def split: option.split)
  qed
  with g_refines_idle [OF l] show ?thesis by simp
qed

lemma v_inherits_revoke [simp]: "v_inherits (v_revoke u i v) u i \<longleftrightarrow> v_inherits v u i"
proof -
  have "d_member (v_revoke u i v) u a = d_member v u a" if "a \<noteq> i" for a using that by (simp add: v_revoke_def)
  then show ?thesis by (auto simp: v_inherits_def)
qed

text \<open>The two statements of \<open>Revoke\<close>, each run only when there is something to do.\<close>

lemma db_revoke_exclude:
  assumes v: "dir_ok v" and d: "db_agree v d" and g: "d_group v i \<noteq> None"
    and e: "ex_User e = u" "ex_GroupID e = i"
    and x: "need \<longrightarrow> d_excl v u i = None"
  shows "\<exists>d'. then_sql (if d_member v u i \<noteq> None then exec_delete_memberships (\<lambda>m. mb_key m = (u, i)) 1 d else Inr d)
      (\<lambda>db. if need then exec_insert_exclusion e db else Inr db) = Inr d' \<and>
    db_agree (if need then v_exclude e (v_revoke u i v) else v_revoke u i v) d'"
proof -
  obtain d1 where d1: "(if d_member v u i \<noteq> None then exec_delete_memberships (\<lambda>m. mb_key m = (u, i)) 1 d else Inr d) = Inr d1"
    "db_agree (v_revoke u i v) d1"
    using db_revoke [OF d, of u i] d v_revoke_none [of v u i] by (cases "d_member v u i = None") auto
  moreover have "\<exists>d'. exec_insert_exclusion e d1 = Inr d' \<and> db_agree (v_exclude e (v_revoke u i v)) d'" if need
    using that x g by (intro db_insert_exclusion [OF d1(2)]) (simp_all add: e v_revoke_def)
  ultimately show ?thesis by (cases need) auto
qed

lemma Revoke_refines:
  assumes l: "groups_live s"
  shows "g_refines f (GRevoke now u ref by) s (snd (Revoke f now u ref by s))"
proof (cases "validatePersonKey s u = None \<and> (\<exists>p. resolveLocked s ref = Inr p)")
  case True
  then obtain p where p: "resolveLocked s ref = Inr p" and u: "validatePersonKey s u = None" by blast
  define i where "i = g_ID (gs_heap s ! p)"
  have i: "grp s i \<noteq> None" "v_resolve (gs_view s) ref = Some i" using resolve_live [OF l p] by (simp_all add: i_def)
  obtain d where d: "gs_db s = Some d" "db_agree (gs_view s) d" using live_db [OF l] by blast
  define need where "need \<longleftrightarrow> lookup2 (gs_excluded s) u i = None \<and> v_inherits (gs_view s) u i"
  have need: "\<not> isExcludedLocked s u i \<and> reachesByInheritanceLocked s u i i \<longleftrightarrow> need"
    by (simp add: need_def isExcludedLocked_def reaches_iff [OF live_inv [OF l]])
  let ?e = "excl_row now u i by"
  let ?v = "if need then v_exclude ?e (v_revoke u i (gs_view s)) else v_revoke u i (gs_view s)"
  have e: "ex_User ?e = u" "ex_GroupID ?e = i" "ex_key ?e = (u, i)" by (simp_all add: excl_row_def ex_key_def)
  have sp: "dir_spec (GRevoke now u ref by) (gs_view s) = ?v"
    using u by (simp add: dir_spec.simps i need_def)
  show ?thesis
  proof (cases "lookup2 (gs_memberships s) u i = None \<and> \<not> need")
    case True
    then have "snd (Revoke f now u ref by s) = s"
      using u need by (simp add: Revoke_def p Let_def i_def)
    moreover have "?v = gs_view s" using True by (simp add: v_revoke_none)
    ultimately show ?thesis using g_refines_idle [OF l] sp by simp
  next
    case False
    let ?fn = "\<lambda>db. then_sql (if lookup2 (gs_memberships s) u i \<noteq> None
        then exec_delete_memberships (\<lambda>m. mb_key m = (u, i)) 1 db else Inr db)
      (\<lambda>db. if need then exec_insert_exclusion ?e db else Inr db)"
    let ?upd = "\<lambda>db. s\<lparr>gs_db := db,
       gs_memberships := (if lookup2 (gs_memberships s) u i \<noteq> None then del2 u i (gs_memberships s) else gs_memberships s),
       gs_excluded := (if need then put2 u i ?e (gs_excluded s) else gs_excluded s)\<rparr>"
    have "snd (Revoke f now u ref by s) = (case groups_persist f ?fn s of Inl e \<Rightarrow> s | Inr db \<Rightarrow> ?upd db)"
      using False u unfolding need [symmetric] unfolding Revoke_def i_def excl_row_def by (auto simp: p Let_def)
    moreover have "g_refines f (GRevoke now u ref by) s \<dots>"
    proof (rule commit_refines [OF l d(1) _ sp])
      show "\<exists>d'. ?fn d = Inr d' \<and> db_agree ?v d'"
        using db_revoke_exclude [OF live_dir [OF l] d(2), of i ?e u need] i by (simp add: e need_def)
      have "dir_ok (v_revoke u i (gs_view s))" by (rule dir_ok_revoke [OF live_dir [OF l]])
      moreover from this have "dir_ok (v_exclude ?e (v_revoke u i (gs_view s)))"
        using i u by (intro dir_ok_exclude) (simp_all add: e v_revoke_def)
      ultimately show "dir_ok ?v" by simp
      show "gs_db (?upd (Some d')) = Some d' \<and> gs_view (?upd (Some d')) = ?v \<and> rep_ok (?upd (Some d'))" for d'
      proof -
        have "rep_ok (?upd (Some d')) \<and> gs_view (?upd (Some d')) = (gs_view s)\<lparr>d_member := lookup2 (gs_memberships (?upd (Some d'))),
            d_excl := lookup2 (gs_excluded (?upd (Some d')))\<rparr>"
          using rep_wf2 [OF l] inv_rep [OF live_inv [OF l]] by (intro members_change) simp_all
        moreover have "lookup2 (gs_memberships (?upd (Some d'))) = d_member ?v"
          by (auto simp: fun_eq_iff lookup2_del2 v_exclude_def v_revoke_def)
        moreover have "lookup2 (gs_excluded (?upd (Some d'))) = d_excl ?v"
          by (auto simp: fun_eq_iff lookup2_put2 v_exclude_def v_revoke_def e)
        moreover have "(gs_view s)\<lparr>d_member := d_member ?v, d_excl := d_excl ?v\<rparr> = ?v"
          by (simp add: v_exclude_def v_revoke_def)
        ultimately show ?thesis by simp
      qed
    qed
    ultimately show ?thesis by simp
  qed
next
  case False
  then have "snd (Revoke f now u ref by s) = s \<and> dir_spec (GRevoke now u ref by) (gs_view s) = gs_view s"
    using resolve_Inl [OF live_inv [OF l], of ref]
    by (auto simp: Revoke_def dir_spec.simps split: option.split sum.split)
  with g_refines_idle [OF l] show ?thesis by simp
qed

lemma lookup2_empty: "inner m u = [] \<Longrightarrow> lookup2 m u = Map.empty"
  by (simp add: lookup2_def fun_eq_iff)

lemma RemoveUser_refines:
  assumes l: "groups_live s"
  shows "g_refines f (GRemoveUser u) s (snd (RemoveUser f u s))"
proof (cases "inner (gs_memberships s) u = [] \<and> inner (gs_excluded s) u = []")
  case True
  then have "v_remove_user u (gs_view s) = gs_view s"
    by (simp add: v_remove_user_def gs_view_def lookup2_empty fun_upd_idem)
  moreover have "snd (RemoveUser f u s) = s" using True by (simp add: RemoveUser_def)
  ultimately show ?thesis using g_refines_idle [OF l] by (simp add: dir_spec.simps)
next
  case False
  obtain d where d: "gs_db s = Some d" "db_agree (gs_view s) d" using live_db [OF l] by blast
  let ?n = "length (inner (gs_memberships s) u)"
  let ?x = "length (inner (gs_excluded s) u)"
  let ?fn = "\<lambda>d. then_sql (exec_delete_memberships (\<lambda>m. mb_User m = u) ?n d)
     (\<lambda>d. expect_rows ?x (sql_delete_exclusions (\<lambda>e. ex_User e = u) d))"
  let ?upd = "\<lambda>db. s\<lparr>gs_db := db, gs_memberships := AList.delete u (gs_memberships s),
     gs_excluded := AList.delete u (gs_excluded s)\<rparr>"
  have w: "wf2 (gs_memberships s)" "wf2 (gs_excluded s)" using rep_wf2 [OF l] by simp_all
  have c1: "length (filter (\<lambda>m. mb_User m = u) (t_memberships d)) = ?n"
    using d(2) count_first [of mb_key "t_memberships d" mb_User mb_GroupID u] count_inner [OF w(1), of u]
    by (simp add: db_agree_def mb_key_def)
  have c2: "length (filter (\<lambda>e. ex_User e = u) (t_exclusions d)) = ?x"
    using d(2) count_first [of ex_key "t_exclusions d" ex_User ex_GroupID u] count_inner [OF w(2), of u]
    by (simp add: db_agree_def ex_key_def)
  from db_delete_memberships [OF d(2) _ c1, of "\<lambda>x j. x = u"] obtain d1 where
    d1: "exec_delete_memberships (\<lambda>m. mb_User m = u) ?n d = Inr d1"
      "db_agree ((gs_view s)\<lparr>d_member := (\<lambda>x j. if x = u then None else d_member (gs_view s) x j)\<rparr>) d1"
    by auto
  then have "t_exclusions d1 = t_exclusions d"
    by (auto simp: exec_delete_memberships_def sql_delete_def)
  then have d2: "expect_rows ?x (sql_delete_exclusions (\<lambda>e. ex_User e = u) d1) =
      Inr (snd (sql_delete_exclusions (\<lambda>e. ex_User e = u) d1))"
    using c2 by (simp add: sql_delete_exclusions_def sql_delete_def)
  have "(\<lambda>x j. if x = u then None else d_member (gs_view s) x j) = (d_member (gs_view s))(u := Map.empty)"
    "(\<lambda>x j. if x = u then None else d_excl (gs_view s) x j) = (d_excl (gs_view s))(u := Map.empty)"
    by (auto simp: fun_eq_iff)
  then have d3: "db_agree (v_remove_user u (gs_view s)) (snd (sql_delete_exclusions (\<lambda>e. ex_User e = u) d1))"
    using db_delete_exclusions [OF d1(2), of "\<lambda>e. ex_User e = u" "\<lambda>x j. x = u"]
    by (simp add: v_remove_user_def del: gs_view_sel cong: if_cong)
  have "snd (RemoveUser f u s) = (case groups_persist f ?fn s of Inl e \<Rightarrow> s | Inr db \<Rightarrow> ?upd db)"
    using False by (auto simp: RemoveUser_def Let_def)
  moreover have "g_refines f (GRemoveUser u) s \<dots>"
  proof (rule commit_refines [OF l d(1)])
    show "\<exists>d'. ?fn d = Inr d' \<and> db_agree (v_remove_user u (gs_view s)) d'" using d1(1) d2 d3 by simp
    show "dir_spec (GRemoveUser u) (gs_view s) = v_remove_user u (gs_view s)" by (simp add: dir_spec.simps)
    show "dir_ok (v_remove_user u (gs_view s))" by (rule dir_ok_remove_user [OF live_dir [OF l]])
    show "gs_db (?upd (Some d')) = Some d' \<and> gs_view (?upd (Some d')) = v_remove_user u (gs_view s) \<and> rep_ok (?upd (Some d'))" for d'
      using members_change [of s "?upd (Some d')"] w inv_rep [OF live_inv [OF l]]
      by (simp add: v_remove_user_def lookup2_delete fun_eq_iff)
  qed
  ultimately show ?thesis by simp
qed

subsection \<open>The tree\<close>

lemma load_group_fields [simp]:
  "gs_heap (load_group g s) = gs_heap s @ [g]"
  "gs_groups (load_group g s) = AList.update (g_ID g) (length (gs_heap s)) (gs_groups s)"
  "gs_byName (load_group g s) = AList.update (g_Name g) (entries (gs_byName s) (g_Name g) @ [length (gs_heap s)]) (gs_byName s)"
  "gs_children (load_group g s) = gs_children s" "gs_memberships (load_group g s) = gs_memberships s"
  "gs_excluded (load_group g s) = gs_excluded s" "gs_db (load_group g s) = gs_db s"
  "gs_validatePerson (load_group g s) = gs_validatePerson s" "gs_orgAdmin (load_group g s) = gs_orgAdmin s"
  by (simp_all add: load_group_def add_byName_def)

lemma add_child_fields [simp]:
  "gs_heap (add_child x i s) = gs_heap s" "gs_groups (add_child x i s) = gs_groups s"
  "gs_byName (add_child x i s) = gs_byName s" "gs_memberships (add_child x i s) = gs_memberships s"
  "gs_children (add_child x i s) = AList.update x (entries (gs_children s) x @ [i]) (gs_children s)"
  "gs_excluded (add_child x i s) = gs_excluded s" "gs_db (add_child x i s) = gs_db s"
  "gs_validatePerson (add_child x i s) = gs_validatePerson s" "gs_orgAdmin (add_child x i s) = gs_orgAdmin s"
  by (simp_all add: add_child_def)

lemma grp_load: "rep_groups (gs_heap s) (gs_groups s) \<Longrightarrow> grp (load_group g s) = (grp s)(g_ID g \<mapsto> g)"
  by (simp add: grp_def deref_insert)

lemma view_load: "rep_groups (gs_heap s) (gs_groups s) \<Longrightarrow> gs_view (load_group g s) = v_add g (gs_view s)"
  by (simp add: gs_view_def v_add_def grp_load validatePersonKey_def)

lemma load_group_rep:
  assumes r: "rep_ok s" and f: "grp s (g_ID g) = None"
  shows "rep_groups (gs_heap (load_group g s)) (gs_groups (load_group g s)) \<and>
    rep_names (gs_heap (load_group g s)) (gs_groups (load_group g s)) (gs_byName (load_group g s)) \<and>
    gs_view (load_group g s) = v_add g (gs_view s)"
  using r f dual_wf_insert [of g_ID g_ID "gs_heap s" "gs_groups s" "gs_groups s" g]
    rep_names_add [of "gs_heap s" "gs_groups s" "gs_byName s" g]
  by (simp add: rep_ok_def view_load grp_None)

lemma create_rep:
  assumes r: "rep_ok s" and f: "grp s (g_ID g) = None"
    and s': "s' = (if g_ParentID g \<noteq> [] then add_child (g_ParentID g) (g_ID g) (load_group g s) else load_group g s)"
  shows "rep_ok s' \<and> gs_view s' = v_add g (gs_view s)"
proof -
  have v: "gs_view s' = v_add g (gs_view s)"
    unfolding s' using load_group_rep [OF r f] gs_view_cong [of "add_child (g_ParentID g) (g_ID g) (load_group g s)" "load_group g s"]
    by simp
  have n: "dpar (gs_view s) (g_ID g) = None" using f by simp
  have c: "rep_children (gs_children s) (dpar (gs_view s))" using r by (simp add: rep_ok_def)
  have "rep_children (gs_children s') (dpar (v_add g (gs_view s)))"
    using rep_children_add [OF c n, of "g_ParentID g"] rep_children_same [OF c n] by (simp add: s' dpar_add)
  with load_group_rep [OF r f] r v show ?thesis by (simp add: rep_ok_def s')
qed

lemma rep_ok_db [simp]: "rep_ok (s\<lparr>gs_db := db\<rparr>) \<longleftrightarrow> rep_ok s" "gs_view (s\<lparr>gs_db := db\<rparr>) = gs_view s"
proof -
  show v: "gs_view (s\<lparr>gs_db := db\<rparr>) = gs_view s" by (rule gs_view_cong) simp_all
  then show "rep_ok (s\<lparr>gs_db := db\<rparr>) \<longleftrightarrow> rep_ok s" by (simp add: rep_ok_def)
qed

lemma grp_db [simp]: "grp (s\<lparr>gs_db := db\<rparr>) = grp s"
  by (simp add: grp_def)

lemma newGroupID_nonempty: "newGroupID rnd = Some i \<Longrightarrow> i \<noteq> []"
  by (auto simp: newGroupID_def uuid_string_def)

text \<open>
  The parent a creation resolves to, as the code computes it and as the directory sees it: it
  exists and is not at the deepest level.
\<close>

definition create_parent :: "group_store \<Rightarrow> string \<Rightarrow> string \<Rightarrow> group_error + string" where
  "create_parent s name parentRef =
     (if parentRef = [] then Inr []
      else case resolveLocked s parentRef of
        Inl e \<Rightarrow> Inl e
      | Inr p \<Rightarrow>
          (case depthLocked s (g_ID (gs_heap s ! p)) of
             Inl e \<Rightarrow> Inl e
           | Inr pd \<Rightarrow> if pd + 1 > MaxTreeDepth then Inl (GroupTooDeep name) else Inr (g_ID (gs_heap s ! p))))"

lemma create_parent_cases:
  assumes l: "groups_live s"
  shows "case create_parent s name parentRef of
      Inr pid \<Rightarrow> (if parentRef = [] then Some [] else v_resolve (gs_view s) parentRef) = Some pid \<and>
        (pid \<noteq> [] \<longrightarrow> grp s pid \<noteq> None \<and> length (ancestors (gs_view s) pid) < MaxTreeDepth)
    | Inl e \<Rightarrow> (\<forall>pid. (if parentRef = [] then Some [] else v_resolve (gs_view s) parentRef) = Some pid \<longrightarrow>
        pid \<noteq> [] \<and> \<not> length (ancestors (gs_view s) pid) < MaxTreeDepth)"
proof (cases "parentRef = []")
  case False
  show ?thesis
  proof (cases "resolveLocked s parentRef")
    case (Inl e)
    with False resolve_Inl [OF live_inv [OF l] Inl] show ?thesis by (simp add: create_parent_def)
  next
    case (Inr p)
    note r = resolve_live [OF l Inr]
    then have "depthLocked s (g_ID (gs_heap s ! p)) = Inr (length (ancestors (gs_view s) (g_ID (gs_heap s ! p))))"
      by (intro depthLocked_eq [OF live_dir [OF l]]) simp
    moreover have "g_ID (gs_heap s ! p) \<noteq> []"
      using r dir_no_empty [OF live_dir [OF l]] by (metis gs_view_sel(1) option.distinct(1))
    ultimately show ?thesis using False Inr r by (auto simp: create_parent_def)
  qed
qed (simp add: create_parent_def)

lemma CreateGroup_eq:
  "snd (CreateGroup f rnd now name parentRef s) =
     (if validateGroupName name \<noteq> None then s
      else case create_parent s name parentRef of
        Inl e \<Rightarrow> s
      | Inr pid \<Rightarrow>
          if nameTakenBySiblingLocked s pid name [] then s
          else case newGroupID rnd of
            None \<Rightarrow> s
          | Some i \<Rightarrow>
              (let g = \<lparr>g_ID = i, g_Name = name, g_ParentID = pid, g_CreatedAt = FormatTime now\<rparr>
               in case groups_persist f (sql_insert_group g) s of
                 Inl e \<Rightarrow> s
               | Inr db \<Rightarrow> if pid \<noteq> [] then add_child pid i (load_group g (s\<lparr>gs_db := db\<rparr>)) else load_group g (s\<lparr>gs_db := db\<rparr>)))"
  unfolding CreateGroup_def create_parent_def Let_def
  by (simp split: option.split sum.split)

lemma CreateGroup_refines:
  assumes l: "groups_live s"
  shows "g_refines f (GCreate rnd now name parentRef) s (snd (CreateGroup f rnd now name parentRef s))"
proof (cases "validateGroupName name = None \<and> (\<exists>pid i. create_parent s name parentRef = Inr pid \<and>
    \<not> nameTakenBySiblingLocked s pid name [] \<and> newGroupID rnd = Some i)")
  case True
  then obtain pid i where v: "validateGroupName name = None" and cp: "create_parent s name parentRef = Inr pid"
    and nt: "\<not> nameTakenBySiblingLocked s pid name []" and i: "newGroupID rnd = Some i" by blast
  define g where "g = \<lparr>g_ID = i, g_Name = name, g_ParentID = pid, g_CreatedAt = FormatTime now\<rparr>"
  have g: "g_ID g = i" "g_Name g = name" "g_ParentID g = pid" by (simp_all add: g_def)
  have pp: "(if parentRef = [] then Some [] else v_resolve (gs_view s) parentRef) = Some pid"
    "pid \<noteq> [] \<longrightarrow> grp s pid \<noteq> None \<and> length (ancestors (gs_view s) pid) < MaxTreeDepth"
    using create_parent_cases [OF l, where name = name and parentRef = parentRef] cp by simp_all
  have nodup: "g_Name h \<noteq> name" if "grp s j = Some h" "g_ParentID h = pid" for j h
  proof -
    have "j \<noteq> []" using dir_no_empty [OF live_dir [OF l]] that by auto
    with that nt show ?thesis by (auto simp: nameTaken_iff [OF live_inv [OF l]])
  qed
  have chk: "group_check g"
    using v valid_name_nonempty valid_name_no_slash newGroupID_nonempty [OF i] by (simp add: group_check_def g)
  have add: "addable g (gs_view s) \<longleftrightarrow> grp s i = None"
    using chk pp(2) nodup by (auto simp: addable_def g)
  let ?upd = "\<lambda>db. if pid \<noteq> [] then add_child pid i (load_group g (s\<lparr>gs_db := db\<rparr>)) else load_group g (s\<lparr>gs_db := db\<rparr>)"
  have eq: "snd (CreateGroup f rnd now name parentRef s) =
      (case groups_persist f (sql_insert_group g) s of Inl e \<Rightarrow> s | Inr db \<Rightarrow> ?upd db)"
    unfolding CreateGroup_eq g_def Let_def using v cp nt i by simp
  have sp: "dir_spec (GCreate rnd now name parentRef) (gs_view s) = (if grp s i = None then v_add g (gs_view s) else gs_view s)"
    using v pp(1) i add by (simp add: dir_spec.simps Let_def g_def)
  obtain d where d: "gs_db s = Some d" "db_agree (gs_view s) d" using live_db [OF l] by blast
  show ?thesis
  proof (cases "grp s i = None")
    case True
    have "g_refines f (GCreate rnd now name parentRef) s
        (case groups_persist f (sql_insert_group g) s of Inl e \<Rightarrow> s | Inr db \<Rightarrow> ?upd db)"
    proof (rule commit_refines [OF l d(1)])
      show "\<exists>d'. sql_insert_group g d = Inr d' \<and> db_agree (v_add g (gs_view s)) d'"
        using add True by (intro db_insert_group [OF live_dir [OF l] d(2)]) simp
      show "dir_spec (GCreate rnd now name parentRef) (gs_view s) = v_add g (gs_view s)" using sp True by simp
      show "dir_ok (v_add g (gs_view s))" using add True by (intro dir_ok_add [OF live_dir [OF l]]) simp
      show "gs_db (?upd (Some d')) = Some d' \<and> gs_view (?upd (Some d')) = v_add g (gs_view s) \<and> rep_ok (?upd (Some d'))" for d'
        using create_rep [of "s\<lparr>gs_db := Some d'\<rparr>" g "?upd (Some d')"] True inv_rep [OF live_inv [OF l]] by (simp add: g)
    qed
    then show ?thesis by (simp add: eq)
  next
    case False
    have "\<exists>e. groups_persist f (sql_insert_group g) s = Inl e"
    proof (cases "groups_persist f (sql_insert_group g) s")
      case (Inr db)
      then obtain d' where "sql_insert_group g d = Inr d'"
        by (auto simp: groups_persist_def d(1) run_tx_Inr_iff split: sum.splits)
      from db_insert_group_fresh [OF d(2) this] False show ?thesis by (simp add: g)
    qed simp
    then have "snd (CreateGroup f rnd now name parentRef s) = s" by (auto simp: eq)
    with g_refines_idle [OF l] sp False show ?thesis by simp
  qed
next
  case False
  have "snd (CreateGroup f rnd now name parentRef s) = s"
    using False by (auto simp: CreateGroup_eq split: sum.split option.split)
  moreover have "dir_spec (GCreate rnd now name parentRef) (gs_view s) = gs_view s"
  proof (rule ccontr)
    assume "dir_spec (GCreate rnd now name parentRef) (gs_view s) \<noteq> gs_view s"
    then obtain pid i where v: "validateGroupName name = None" and i: "newGroupID rnd = Some i"
      and pid: "(if parentRef = [] then Some [] else v_resolve (gs_view s) parentRef) = Some pid"
      and a: "addable \<lparr>g_ID = i, g_Name = name, g_ParentID = pid, g_CreatedAt = FormatTime now\<rparr> (gs_view s)"
      by (auto simp: dir_spec.simps Let_def split: option.splits if_splits)
    have "create_parent s name parentRef = Inr pid"
    proof (cases "create_parent s name parentRef")
      case (Inl e)
      then have "pid \<noteq> []" "\<not> length (ancestors (gs_view s) pid) < MaxTreeDepth"
        using create_parent_cases [OF l, where name = name and parentRef = parentRef] pid by simp_all
      with a show ?thesis by (simp add: addable_def)
    next
      case (Inr p)
      with create_parent_cases [OF l, where name = name and parentRef = parentRef] pid show ?thesis by simp
    qed
    moreover have "\<not> nameTakenBySiblingLocked s pid name []"
      using a by (auto simp: nameTaken_iff [OF live_inv [OF l]] addable_def)
    ultimately show False using False v i by blast
  qed
  ultimately show ?thesis using g_refines_idle [OF l] by simp
qed

lemma rename_rep:
  assumes r: "rep_ok s" and p: "map_of (gs_groups s) i = Some p"
    and s': "s' = add_byName name p (let s1 = removeFromByNameLocked (g_Name (gs_heap s ! p)) i s
                in s1\<lparr>gs_heap := (gs_heap s1)[p := (gs_heap s ! p)\<lparr>g_Name := name\<rparr>]\<rparr>)"
  shows "rep_ok s' \<and> gs_view s' = v_rename i name (gs_view s)"
proof -
  let ?g = "(gs_heap s ! p)\<lparr>g_Name := name\<rparr>"
  let ?b = "gs_byName (removeFromByNameLocked (g_Name (gs_heap s ! p)) i s)"
  have f: "gs_heap s' = (gs_heap s)[p := ?g]" "gs_groups s' = gs_groups s" "gs_children s' = gs_children s"
    "gs_memberships s' = gs_memberships s" "gs_excluded s' = gs_excluded s" "gs_validatePerson s' = gs_validatePerson s"
    "gs_byName s' = AList.update name (entries ?b name @ [p]) ?b"
    by (simp_all add: s' add_byName_def Let_def)
  have g: "rep_groups (gs_heap s) (gs_groups s)" using r by (simp add: rep_ok_def)
  have "grp s' = (grp s)(i \<mapsto> ?g)" unfolding grp_def f using deref_modify [OF g p] by simp
  then have "grp s' = (\<lambda>j. if j = i then map_option (\<lambda>g. g\<lparr>g_Name := name\<rparr>) (grp s i) else grp s j)"
    using grp_at [OF p] by (simp add: fun_eq_iff)
  then have v: "gs_view s' = v_rename i name (gs_view s)"
    by (simp add: gs_view_def v_rename_def validatePersonKey_def f cong: if_cong)
  have "rep_groups (gs_heap s') (gs_groups s')" unfolding f by (rule dual_wf_modify [OF g]) simp_all
  moreover have "rep_names (gs_heap s') (gs_groups s') (gs_byName s')"
    unfolding f using r by (intro rep_names_rename [where b = "gs_byName s", OF g _ p]) (simp_all add: rep_ok_def entries_remove)
  ultimately show ?thesis using r v by (simp add: rep_ok_def f)
qed

lemma RenameGroup_refines:
  assumes l: "groups_live s"
  shows "g_refines f (GRename ref name) s (snd (RenameGroup f ref name s))"
proof (cases "validateGroupName name = None \<and> (\<exists>p. resolveLocked s ref = Inr p)")
  case True
  then obtain p where v: "validateGroupName name = None" and p: "resolveLocked s ref = Inr p" by blast
  define g where "g = gs_heap s ! p"
  have r: "map_of (gs_groups s) (g_ID g) = Some p" "grp s (g_ID g) = Some g" "v_resolve (gs_view s) ref = Some (g_ID g)"
    using resolve_live [OF l p] by (simp_all add: g_def)
  have dup: "name \<noteq> g_Name g \<and> nameTakenBySiblingLocked s (g_ParentID g) name (g_ID g) \<longleftrightarrow> \<not> renamable (g_ID g) name (gs_view s)"
  proof -
    have "renamable (g_ID g) name (gs_view s) \<longleftrightarrow> \<not> nameTakenBySiblingLocked s (g_ParentID g) name (g_ID g)"
      using valid_name_nonempty [OF v] valid_name_no_slash [OF v] r(2)
      by (auto simp: renamable_def nameTaken_iff [OF live_inv [OF l]])
    moreover have "\<not> nameTakenBySiblingLocked s (g_ParentID g) (g_Name g) (g_ID g)"
      using live_dir [OF l] r(2) by (auto simp: nameTaken_iff [OF live_inv [OF l]] dir_ok_def dir_names_def)
    ultimately show ?thesis by auto
  qed
  show ?thesis
  proof (cases "renamable (g_ID g) name (gs_view s)")
    case False
    then have "snd (RenameGroup f ref name s) = s"
      using dup v by (simp add: RenameGroup_def p Let_def g_def)
    moreover have "dir_spec (GRename ref name) (gs_view s) = gs_view s" using False r by (simp add: dir_spec.simps)
    ultimately show ?thesis using g_refines_idle [OF l] by simp
  next
    case True
    obtain d where d: "gs_db s = Some d" "db_agree (gs_view s) d" using live_db [OF l] by blast
    let ?upd = "\<lambda>db. add_byName name p (let s1 = removeFromByNameLocked (g_Name g) (g_ID g) (s\<lparr>gs_db := db\<rparr>)
                in s1\<lparr>gs_heap := (gs_heap s1)[p := g\<lparr>g_Name := name\<rparr>]\<rparr>)"
    have nd: "\<not> (name \<noteq> g_Name g \<and> nameTakenBySiblingLocked s (g_ParentID g) name (g_ID g))" using dup True by simp
    have "snd (RenameGroup f ref name s) =
      (case groups_persist f (exec_rename_group (g_ID g) name) s of Inl e \<Rightarrow> s | Inr db \<Rightarrow> ?upd db)"
      using nd v unfolding RenameGroup_def g_def Let_def by (auto simp: p)
    moreover have "g_refines f (GRename ref name) s \<dots>"
    proof (rule commit_refines [OF l d(1)])
      show "\<exists>d'. exec_rename_group (g_ID g) name d = Inr d' \<and> db_agree (v_rename (g_ID g) name (gs_view s)) d'"
        using r True by (intro db_rename_group [OF live_dir [OF l] d(2)]) simp_all
      show "dir_spec (GRename ref name) (gs_view s) = v_rename (g_ID g) name (gs_view s)"
        using True r v by (simp add: dir_spec.simps)
      show "dir_ok (v_rename (g_ID g) name (gs_view s))" by (rule dir_ok_rename [OF live_dir [OF l] True])
      fix d'
      have "rep_ok (?upd (Some d')) \<and> gs_view (?upd (Some d')) = v_rename (g_ID g) name (gs_view (s\<lparr>gs_db := Some d'\<rparr>))"
        using r inv_rep [OF live_inv [OF l]] by (intro rename_rep) (simp_all add: g_def)
      then show "gs_db (?upd (Some d')) = Some d' \<and> gs_view (?upd (Some d')) = v_rename (g_ID g) name (gs_view s) \<and> rep_ok (?upd (Some d'))"
        by (simp add: add_byName_def Let_def)
    qed
    ultimately show ?thesis by simp
  qed
next
  case False
  then have "snd (RenameGroup f ref name s) = s \<and> dir_spec (GRename ref name) (gs_view s) = gs_view s"
    using resolve_Inl [OF live_inv [OF l], of ref]
    by (auto simp: RenameGroup_def dir_spec.simps split: option.split sum.split)
  with g_refines_idle [OF l] show ?thesis by simp
qed

lemma fold_purge:
  "lookup2 (fold (\<lambda>u m. if lookup2 m u i = None then m else del2 u i m) us m) u j =
     (if j = i \<and> u \<in> set us then None else lookup2 m u j)"
  by (induction us arbitrary: m) (auto simp: lookup2_del2)

lemma wf2_fold_purge: "wf2 m \<Longrightarrow> wf2 (fold (\<lambda>u m. if lookup2 m u i = None then m else del2 u i m) us m)"
  by (induction us arbitrary: m) auto

lemma purge_lookup: "lookup2 (gs_excluded (purgeExclusionsForGroupLocked i s)) u j =
    (if j = i then None else lookup2 (gs_excluded s) u j)"
proof -
  have "lookup2 (gs_excluded s) u j = None" if "u \<notin> set (map fst (gs_excluded s))"
    using that by (simp add: lookup2_def inner_def map_of_eq_None_iff [THEN iffD2])
  then show ?thesis by (auto simp: purgeExclusionsForGroupLocked_def fold_purge)
qed

lemma fold_del2:
  "lookup2 (fold (\<lambda>u. del2 u i) us m) u j = (if j = i \<and> u \<in> set us then None else lookup2 m u j)"
  by (induction us arbitrary: m) (auto simp: lookup2_del2)

lemma wf2_fold_del2: "wf2 m \<Longrightarrow> wf2 (fold (\<lambda>u. del2 u i) us m)"
  by (induction us arbitrary: m) auto

lemma purge_fields [simp]:
  "gs_heap (purgeExclusionsForGroupLocked i s) = gs_heap s" "gs_groups (purgeExclusionsForGroupLocked i s) = gs_groups s"
  "gs_byName (purgeExclusionsForGroupLocked i s) = gs_byName s" "gs_children (purgeExclusionsForGroupLocked i s) = gs_children s"
  "gs_memberships (purgeExclusionsForGroupLocked i s) = gs_memberships s" "gs_db (purgeExclusionsForGroupLocked i s) = gs_db s"
  "gs_validatePerson (purgeExclusionsForGroupLocked i s) = gs_validatePerson s"
  by (simp_all add: purgeExclusionsForGroupLocked_def)

lemma drop_group_fields:
  "gs_heap (drop_group g s) = gs_heap s" "gs_groups (drop_group g s) = AList.delete (g_ID g) (gs_groups s)"
  "gs_memberships (drop_group g s) = gs_memberships s" "gs_db (drop_group g s) = gs_db s"
  "gs_validatePerson (drop_group g s) = gs_validatePerson s"
  "gs_byName (drop_group g s) = gs_byName (removeFromByNameLocked (g_Name g) (g_ID g) s)"
  "lookup2 (gs_excluded (drop_group g s)) u j = (if j = g_ID g then None else lookup2 (gs_excluded s) u j)"
  "wf2 (gs_excluded s) \<Longrightarrow> wf2 (gs_excluded (drop_group g s))"
  by (simp_all add: drop_group_def Let_def purge_lookup)
    (simp add: purgeExclusionsForGroupLocked_def wf2_fold_purge)

lemma drop_group_children:
  assumes "g_ParentID g \<noteq> g_ID g"
  shows "entries (gs_children (drop_group g s)) x =
    (if x = g_ID g then [] else if g_ParentID g \<noteq> [] \<and> g_ParentID g = x
     then drop_first (\<lambda>j. j = g_ID g) (entries (gs_children s) x) else entries (gs_children s) x)"
proof -
  have d: "drop_first (\<lambda>j. j = i) xs = xs" if "i \<notin> set xs" for i :: string and xs using that by (induction xs) auto
  show ?thesis using assms by (auto simp: drop_group_def Let_def entries_simps d)
qed

text \<open>Dropping a leaf from the maps, once nobody is a member of it.\<close>

lemma drop_rep:
  assumes r: "rep_ok s" and v: "dir_ok (gs_view s)" and p: "map_of (gs_groups s) i = Some p"
    and c: "childless i (gs_view s)" and m: "\<And>u. lookup2 (gs_memberships s) u i = None"
  shows "rep_ok (drop_group (gs_heap s ! p) s) \<and> gs_view (drop_group (gs_heap s ! p) s) = v_drop i (gs_view s)"
proof -
  let ?g = "gs_heap s ! p"
  have g: "rep_groups (gs_heap s) (gs_groups s)" using r by (simp add: rep_ok_def)
  have i: "g_ID ?g = i" by (rule rep_id [OF g p])
  have par: "dpar (gs_view s) i = (if g_ParentID ?g = [] then None else Some (g_ParentID ?g))"
    by (simp add: dpar_def grp_at [OF p])
  then have ne: "g_ParentID ?g \<noteq> i"
    using c dir_no_empty [OF v] grp_at [OF p] by (auto simp: childless_def split: if_splits)
  have "grp (drop_group ?g s) = (grp s)(i := None)"
    by (simp add: grp_def drop_group_fields i deref_delete)
  moreover have "lookup2 (gs_excluded (drop_group ?g s)) = (\<lambda>u j. if j = i then None else lookup2 (gs_excluded s) u j)"
    by (simp add: fun_eq_iff drop_group_fields i)
  moreover have "(\<lambda>u j. if j = i then None else lookup2 (gs_memberships s) u j) = lookup2 (gs_memberships s)"
    using m by (auto simp: fun_eq_iff)
  ultimately have view: "gs_view (drop_group ?g s) = v_drop i (gs_view s)"
    by (simp add: gs_view_def v_drop_def validatePersonKey_def drop_group_fields cong: if_cong)
  have "rep_groups (gs_heap s) (AList.delete i (gs_groups s))"
    by (rule dual_wf_delete [OF g p]) (simp add: i)
  moreover have "rep_names (gs_heap s) (AList.delete i (gs_groups s)) (gs_byName (removeFromByNameLocked (g_Name ?g) i s))"
    using r by (intro rep_names_drop [where b = "gs_byName s", OF g _ p]) (simp_all add: rep_ok_def entries_remove)
  moreover have "rep_children (gs_children (drop_group ?g s)) (dpar (v_drop i (gs_view s)))"
    unfolding dpar_drop
  proof (rule rep_children_drop)
    show "rep_children (gs_children s) (dpar (gs_view s))" using r by (simp add: rep_ok_def)
    show "dpar (gs_view s) j \<noteq> Some i" for j using c by (simp add: childless_def)
    show "entries (gs_children (drop_group ?g s)) x = (if x = i then [] else if dpar (gs_view s) i = Some x
        then drop_first (\<lambda>j. j = i) (entries (gs_children s) x) else entries (gs_children s) x)" for x
      using drop_group_children [of ?g s x] ne by (auto simp: i par)
  qed
  ultimately show ?thesis using r view by (simp add: rep_ok_def drop_group_fields i)
qed

lemma deleteCheck_None:
  assumes i: "groups_inv s"
  shows "deleteCheckMembershipTreeLocked s i = None \<longleftrightarrow>
    childless i (gs_view s) \<and> (\<forall>u. lookup2 (gs_memberships s) u i = None)"
proof -
  have w: "wf2 (gs_memberships s)" using i by (simp add: groups_inv_def rep_ok_def)
  have "entries (gs_children s) i = [] \<longleftrightarrow> childless i (gs_view s)"
    using inv_children [OF i, of _ i] by (cases "entries (gs_children s) i") (auto simp: childless_def)
  moreover have "filter (\<lambda>(u, b). map_of b i \<noteq> None) (gs_memberships s) = [] \<longleftrightarrow> (\<forall>u. lookup2 (gs_memberships s) u i = None)"
  proof -
    have "set (map fst (filter (\<lambda>(u, b). map_of b i \<noteq> None) (gs_memberships s))) = {u. lookup2 (gs_memberships s) u i \<noteq> None}"
      using holders_iff [OF w, of _ i] by blast
    then have "map fst (filter (\<lambda>(u, b). map_of b i \<noteq> None) (gs_memberships s)) = [] \<longleftrightarrow>
        {u. lookup2 (gs_memberships s) u i \<noteq> None} = {}" by (metis set_empty)
    then show ?thesis by auto
  qed
  ultimately show ?thesis
    by (simp add: deleteCheckMembershipTreeLocked_def Let_def)
qed

lemma delete_commit_refines:
  assumes l: "groups_live s"
  shows "g_refines f (GDelete ref i) s (snd (delete_commit f ref i s))"
proof (cases "grp s i \<noteq> None \<and> childless i (gs_view s) \<and> (\<forall>u. lookup2 (gs_memberships s) u i = None)")
  case True
  then obtain p where p: "map_of (gs_groups s) i = Some p" by (auto simp: grp_None)
  obtain d where d: "gs_db s = Some d" "db_agree (gs_view s) d" using live_db [OF l] by blast
  let ?upd = "\<lambda>db. drop_group (gs_heap s ! p) (s\<lparr>gs_db := db\<rparr>)"
  have chk: "deleteCheckMembershipTreeLocked s i = None" using True by (simp add: deleteCheck_None [OF live_inv [OF l]])
  have "snd (delete_commit f ref i s) =
    (case groups_persist f (exec_delete_group i) s of Inl e \<Rightarrow> s | Inr db \<Rightarrow> ?upd db)"
    by (simp add: delete_commit_def p chk)
  moreover have "g_refines f (GDelete ref i) s \<dots>"
  proof (rule commit_refines [OF l d(1)])
    show "\<exists>d'. exec_delete_group i d = Inr d' \<and> db_agree (v_drop i (gs_view s)) d'"
      using True by (intro db_delete_group [OF live_dir [OF l] d(2)]) simp_all
    show "dir_spec (GDelete ref i) (gs_view s) = v_drop i (gs_view s)" using True by (simp add: dir_spec.simps)
    show "dir_ok (v_drop i (gs_view s))" using True by (intro dir_ok_drop [OF live_dir [OF l]]) simp
    show "gs_db (?upd (Some d')) = Some d' \<and> gs_view (?upd (Some d')) = v_drop i (gs_view s) \<and> rep_ok (?upd (Some d'))" for d'
      using drop_rep [of "s\<lparr>gs_db := Some d'\<rparr>" i p] inv_rep [OF live_inv [OF l]] live_dir [OF l] p True
      by (simp add: drop_group_fields)
  qed
  ultimately show ?thesis by simp
next
  case False
  then have "snd (delete_commit f ref i s) = s"
    using deleteCheck_None [OF live_inv [OF l], of i]
    by (auto simp: delete_commit_def grp_None split: option.split)
  moreover have "dir_spec (GDelete ref i) (gs_view s) = gs_view s" using False by (auto simp: dir_spec.simps)
  ultimately show ?thesis using g_refines_idle [OF l] by simp
qed

lemma v_drop_members: "v_drop i (v\<lparr>d_member := (\<lambda>u j. if j = i then None else d_member v u j)\<rparr>) = v_drop i v"
  by (simp add: v_drop_def fun_eq_iff)

lemma DeleteGroupWithMembers_refines:
  assumes l: "groups_live s"
  shows "g_refines f (GDeleteWithMembers ref) s (snd (DeleteGroupWithMembers f ref s))"
proof (cases "\<exists>p. resolveLocked s ref = Inr p \<and> childless (g_ID (gs_heap s ! p)) (gs_view s)")
  case True
  then obtain p where p: "resolveLocked s ref = Inr p" and c0: "childless (g_ID (gs_heap s ! p)) (gs_view s)" by blast
  define g where "g = gs_heap s ! p"
  define i where "i = g_ID g"
  have r: "map_of (gs_groups s) i = Some p" "grp s i = Some g" "v_resolve (gs_view s) ref = Some i"
    using resolve_live [OF l p] by (simp_all add: g_def i_def)
  have c: "childless i (gs_view s)" using c0 by (simp add: i_def g_def)
  have kids: "entries (gs_children s) i = []"
    using c inv_children [OF live_inv [OF l], of _ i] by (cases "entries (gs_children s) i") (auto simp: childless_def)
  obtain d where d: "gs_db s = Some d" "db_agree (gs_view s) d" using live_db [OF l] by blast
  have w: "wf2 (gs_memberships s)" using rep_wf2 [OF l] by simp
  let ?holders = "map fst (filter (\<lambda>(u, b). map_of b i \<noteq> None) (gs_memberships s))"
  define removed where "removed = sort ?holders"
  have rm: "u \<in> set removed \<longleftrightarrow> lookup2 (gs_memberships s) u i \<noteq> None" for u
    using holders_iff [OF w, of u i] by (simp add: removed_def)
  have len: "length removed = card {u. lookup2 (gs_memberships s) u i \<noteq> None}"
    using count_holders [OF w, of i] by (simp add: removed_def)
  let ?fn = "\<lambda>d. then_sql (exec_delete_memberships (\<lambda>m. mb_GroupID m = i) (length removed) d) (exec_delete_group i)"
  let ?M = "fold (\<lambda>u. del2 u i) removed (gs_memberships s)"
  let ?upd = "\<lambda>db. drop_group g (s\<lparr>gs_db := db, gs_memberships := ?M\<rparr>)"
  let ?v1 = "(gs_view s)\<lparr>d_member := (\<lambda>u j. if j = i then None else d_member (gs_view s) u j)\<rparr>"
  have "length (filter (\<lambda>m. mb_GroupID m = i) (t_memberships d)) = length removed"
    using d(2) count_second [of mb_key "t_memberships d" mb_User mb_GroupID i] by (simp add: len db_agree_def mb_key_def)
  from db_delete_memberships [OF d(2) _ this, of "\<lambda>u j. j = i"] obtain d1 where
    d1: "exec_delete_memberships (\<lambda>m. mb_GroupID m = i) (length removed) d = Inr d1" "db_agree ?v1 d1" by auto
  have v1: "dir_ok ?v1"
  proof -
    have "dpar ?v1 = dpar (gs_view s)" by (simp add: fun_eq_iff dpar_def)
    with live_dir [OF l] show ?thesis
      by (auto simp: dir_ok_def dir_tree_def) (auto simp: dir_parts)
  qed
  have M: "lookup2 ?M = d_member ?v1"
    using rm by (auto simp: fun_eq_iff fold_del2)
  have eq: "snd (DeleteGroupWithMembers f ref s) = (case groups_persist f ?fn s of Inl e \<Rightarrow> s | Inr db \<Rightarrow> ?upd db)"
    using kids unfolding DeleteGroupWithMembers_def removed_def i_def g_def Let_def by (simp add: p)
  have "g_refines f (GDeleteWithMembers ref) s (case groups_persist f ?fn s of Inl e \<Rightarrow> s | Inr db \<Rightarrow> ?upd db)"
  proof (rule commit_refines [OF l d(1)])
    have "\<exists>d'. exec_delete_group i d1 = Inr d' \<and> db_agree (v_drop i ?v1) d'"
      using r by (intro db_delete_group [OF v1 d1(2)]) simp_all
    then show "\<exists>d'. ?fn d = Inr d' \<and> db_agree (v_drop i (gs_view s)) d'"
      using d1(1) by (simp add: v_drop_members)
    show "dir_spec (GDeleteWithMembers ref) (gs_view s) = v_drop i (gs_view s)" using c r by (simp add: dir_spec.simps)
    show "dir_ok (v_drop i (gs_view s))" by (rule dir_ok_drop [OF live_dir [OF l] c])
    fix d'
    let ?s = "s\<lparr>gs_db := Some d', gs_memberships := ?M\<rparr>"
    have s1: "rep_ok ?s" "gs_view ?s = ?v1"
      using members_change [of s ?s] inv_rep [OF live_inv [OF l]] rep_wf2 [OF l] M
      by (simp_all add: wf2_fold_del2 gs_view_def)
    have "rep_ok (drop_group (gs_heap ?s ! p) ?s) \<and> gs_view (drop_group (gs_heap ?s ! p) ?s) = v_drop i (gs_view ?s)"
    proof (rule drop_rep [OF s1(1)])
      show "dir_ok (gs_view ?s)" using v1 s1 by simp
      show "map_of (gs_groups ?s) i = Some p" using r by simp
      show "childless i (gs_view ?s)" using c s1 by (simp add: childless_def dpar_def)
      show "lookup2 (gs_memberships ?s) u i = None" for u using M by simp
    qed
    then show "gs_db (?upd (Some d')) = Some d' \<and> gs_view (?upd (Some d')) = v_drop i (gs_view s) \<and> rep_ok (?upd (Some d'))"
      unfolding s1 v_drop_members by (simp add: drop_group_fields g_def)
  qed
  then show ?thesis by (simp only: eq)
next
  case False
  have "snd (DeleteGroupWithMembers f ref s) = s \<and> dir_spec (GDeleteWithMembers ref) (gs_view s) = gs_view s"
  proof (cases "resolveLocked s ref")
    case (Inl e)
    with resolve_Inl [OF live_inv [OF l] Inl] show ?thesis by (simp add: DeleteGroupWithMembers_def dir_spec.simps)
  next
    case (Inr p)
    then have nc: "\<not> childless (g_ID (gs_heap s ! p)) (gs_view s)" using False by blast
    then have "entries (gs_children s) (g_ID (gs_heap s ! p)) \<noteq> []"
      using inv_children [OF live_inv [OF l], of _ "g_ID (gs_heap s ! p)"] by (auto simp: childless_def)
    then show ?thesis using nc Inr resolve_live [OF l Inr] by (simp add: DeleteGroupWithMembers_def Let_def dir_spec.simps)
  qed
  with g_refines_idle [OF l] show ?thesis by simp
qed

subsection \<open>Loading\<close>

lemma load_groups_fold:
  assumes "keyed g_ID rows" "gs_heap s0 = []" "gs_groups s0 = []" "gs_byName s0 = []"
  shows "let s1 = fold load_group rows s0 in
     rep_groups (gs_heap s1) (gs_groups s1) \<and> rep_names (gs_heap s1) (gs_groups s1) (gs_byName s1) \<and>
     grp s1 = tab g_ID rows \<and> gs_children s1 = gs_children s0 \<and> gs_memberships s1 = gs_memberships s0 \<and>
     gs_excluded s1 = gs_excluded s0 \<and> gs_validatePerson s1 = gs_validatePerson s0 \<and>
     gs_orgAdmin s1 = gs_orgAdmin s0 \<and> gs_db s1 = gs_db s0"
  using assms(1)
proof (induction rows rule: rev_induct)
  case Nil
  then show ?case using assms(2-4) by (simp add: grp_def fun_eq_iff rep_names_def entries_simps)
next
  case (snoc g rows)
  let ?s = "fold load_group rows s0"
  from snoc.prems have k: "keyed g_ID rows" "tab g_ID rows (g_ID g) = None" by (simp_all add: keyed_insert)
  note ih = snoc.IH [OF k(1), unfolded Let_def]
  then have r: "rep_groups (gs_heap ?s) (gs_groups ?s)" and f: "map_of (gs_groups ?s) (g_ID g) = None"
    using k(2) grp_None [of ?s "g_ID g"] by simp_all
  show ?case
    using ih k(2) r f dual_wf_insert [OF r f f] rep_names_add [OF r _ f, of "gs_byName ?s"] grp_load [OF r, of g]
    by (simp add: Let_def tab_insert fun_eq_iff)
qed

lemma grp_add_child [simp]: "grp (add_child x i s) = grp s"
  by (simp add: grp_def)

lemma load_children_ok:
  assumes "\<And>i g. i \<in> set is \<Longrightarrow> grp s i = Some g \<Longrightarrow> g_ParentID g \<noteq> [] \<Longrightarrow> grp s (g_ParentID g) \<noteq> None"
  shows "\<exists>C. load_children is s = (Inr (), s\<lparr>gs_children := C\<rparr>) \<and>
    (\<forall>x. entries C x = entries (gs_children s) x @ filter (\<lambda>i. \<exists>g. grp s i = Some g \<and> g_ParentID g \<noteq> [] \<and> g_ParentID g = x) is)"
  using assms
proof (induction "is" arbitrary: s)
  case Nil
  show ?case by (rule exI [of _ "gs_children s"]) simp
next
  case (Cons i "is")
  show ?case
  proof (cases "\<exists>g. grp s i = Some g \<and> g_ParentID g \<noteq> []")
    case False
    then have "load_children (i # is) s = load_children is s" by (auto split: option.split)
    with Cons.IH [of s] Cons.prems False show ?thesis by fastforce
  next
    case True
    then obtain g where g: "grp s i = Some g" "g_ParentID g \<noteq> []" by blast
    with Cons.prems [of i g] obtain h where "grp s (g_ParentID g) = Some h" by auto
    then have step: "load_children (i # is) s = load_children is (add_child (g_ParentID g) i s)" using g by simp
    obtain C where C: "load_children is (add_child (g_ParentID g) i s) = (Inr (), (add_child (g_ParentID g) i s)\<lparr>gs_children := C\<rparr>)"
      "\<And>x. entries C x = entries (gs_children (add_child (g_ParentID g) i s)) x @
        filter (\<lambda>i. \<exists>g. grp s i = Some g \<and> g_ParentID g \<noteq> [] \<and> g_ParentID g = x) is"
      using Cons.IH [of "add_child (g_ParentID g) i s"] Cons.prems by auto
    have "load_children (i # is) s = (Inr (), s\<lparr>gs_children := C\<rparr>)"
      unfolding step C(1) by (simp add: add_child_def)
    moreover have "entries C x = entries (gs_children s) x @
        filter (\<lambda>i. \<exists>g. grp s i = Some g \<and> g_ParentID g \<noteq> [] \<and> g_ParentID g = x) (i # is)" for x
      using g by (simp add: C(2) entries_simps)
    ultimately show ?thesis by blast
  qed
qed

lemma load_depths_ok: "\<forall>i \<in> set is. \<exists>n. depthLocked s i = Inr n \<Longrightarrow> load_depths is s = (Inr (), s)"
  by (induction "is") auto

lemma load_memberships_ok:
  assumes "keyed mb_key ms" "wf2 (gs_memberships s)"
    "\<And>m. m \<in> set ms \<Longrightarrow> validatePersonKey s (mb_User m) = None \<and> Role_Valid (mb_Role m) \<and> map_of (gs_groups s) (mb_GroupID m) \<noteq> None"
  shows "\<exists>M. load_memberships ms s = (Inr (), s\<lparr>gs_memberships := M\<rparr>) \<and> wf2 M \<and>
    (\<forall>u i. lookup2 M u i = (case tab mb_key ms (u, i) of Some m \<Rightarrow> Some m | None \<Rightarrow> lookup2 (gs_memberships s) u i))"
  using assms
proof (induction ms arbitrary: s)
  case Nil
  show ?case by (rule exI [of _ "gs_memberships s"]) (simp add: Nil)
next
  case (Cons m ms)
  let ?s = "s\<lparr>gs_memberships := put2 (mb_User m) (mb_GroupID m) m (gs_memberships s)\<rparr>"
  have ok: "validatePersonKey s (mb_User m) = None" "Role_Valid (mb_Role m)" "map_of (gs_groups s) (mb_GroupID m) \<noteq> None"
    using Cons.prems(3) [of m] by simp_all
  have vp: "validatePersonKey ?s = validatePersonKey s" by (simp add: fun_eq_iff validatePersonKey_def)
  obtain M where M: "load_memberships ms ?s = (Inr (), ?s\<lparr>gs_memberships := M\<rparr>)" "wf2 M"
    "\<And>u i. lookup2 M u i = (case tab mb_key ms (u, i) of Some m \<Rightarrow> Some m | None \<Rightarrow> lookup2 (gs_memberships ?s) u i)"
    using Cons.IH [of ?s] Cons.prems by (auto simp: keyed_def vp)
  have "load_memberships (m # ms) s = (Inr (), s\<lparr>gs_memberships := M\<rparr>)" using M(1) ok by auto
  moreover have "tab mb_key ms (mb_key m) = None" using Cons.prems(1) by (simp add: keyed_def tab_None_iff)
  then have "lookup2 M u i = (case tab mb_key (m # ms) (u, i) of Some m \<Rightarrow> Some m | None \<Rightarrow> lookup2 (gs_memberships s) u i)" for u i
    by (cases "(u, i) = mb_key m") (auto simp: M(3) lookup2_put2 tab_def mb_key_def split: option.split)
  ultimately show ?case using M(2) by blast
qed

lemma load_exclusions_ok:
  assumes "keyed ex_key es" "wf2 (gs_excluded s)" "\<And>e. e \<in> set es \<Longrightarrow> validatePersonKey s (ex_User e) = None"
  shows "\<exists>M. load_exclusions es s = (Inr (), s\<lparr>gs_excluded := M\<rparr>) \<and> wf2 M \<and>
    (\<forall>u i. lookup2 M u i = (case tab ex_key es (u, i) of Some m \<Rightarrow> Some m | None \<Rightarrow> lookup2 (gs_excluded s) u i))"
  using assms
proof (induction es arbitrary: s)
  case Nil
  show ?case by (rule exI [of _ "gs_excluded s"]) (simp add: Nil)
next
  case (Cons e es)
  let ?s = "s\<lparr>gs_excluded := put2 (ex_User e) (ex_GroupID e) e (gs_excluded s)\<rparr>"
  have ok: "validatePersonKey s (ex_User e) = None" using Cons.prems(3) [of e] by simp
  have vp: "validatePersonKey ?s = validatePersonKey s" by (simp add: fun_eq_iff validatePersonKey_def)
  obtain M where M: "load_exclusions es ?s = (Inr (), ?s\<lparr>gs_excluded := M\<rparr>)" "wf2 M"
    "\<And>u i. lookup2 M u i = (case tab ex_key es (u, i) of Some m \<Rightarrow> Some m | None \<Rightarrow> lookup2 (gs_excluded ?s) u i)"
    using Cons.IH [of ?s] Cons.prems by (auto simp: keyed_def vp)
  have "load_exclusions (e # es) s = (Inr (), s\<lparr>gs_excluded := M\<rparr>)" using M(1) ok by simp
  moreover have "tab ex_key es (ex_key e) = None" using Cons.prems(1) by (simp add: keyed_def tab_None_iff)
  then have "lookup2 M u i = (case tab ex_key (e # es) (u, i) of Some m \<Rightarrow> Some m | None \<Rightarrow> lookup2 (gs_excluded s) u i)" for u i
    by (cases "(u, i) = ex_key e") (auto simp: M(3) lookup2_put2 tab_def ex_key_def split: option.split)
  ultimately show ?case using M(2) by blast
qed

text \<open>Loading the tables of a directory succeeds and gives a store of that directory.\<close>

lemma groups_load:
  assumes v: "dir_ok v" and d: "db_agree v d" and valid: "\<And>u. d_valid v u \<longleftrightarrow> validatePersonKey s u = None"
  shows "\<exists>s'. groups_LoadFromDB (Some d) s = (Inr (), s') \<and> groups_inv s' \<and> gs_view s' = v \<and>
    gs_db s' = Some d \<and> gs_orgAdmin s' = gs_orgAdmin s \<and> gs_validatePerson s' = gs_validatePerson s"
proof -
  let ?s0 = "s\<lparr>gs_heap := [], gs_groups := [], gs_byName := [], gs_children := [], gs_memberships := [], gs_excluded := []\<rparr>"
  define s1 where "s1 = fold load_group (t_groups d) ?s0"
  define ids where "ids = map fst (gs_groups s1)"
  have s1: "rep_groups (gs_heap s1) (gs_groups s1)" "rep_names (gs_heap s1) (gs_groups s1) (gs_byName s1)"
    "grp s1 = d_group v" "gs_children s1 = []" "gs_memberships s1 = []" "gs_excluded s1 = []"
    "gs_validatePerson s1 = gs_validatePerson s" "gs_orgAdmin s1 = gs_orgAdmin s"
    using load_groups_fold [of "t_groups d" ?s0] d by (simp_all add: s1_def Let_def db_agree_def)
  have ids: "distinct ids" "i \<in> set ids \<longleftrightarrow> d_group v i \<noteq> None" for i
  proof -
    show "distinct ids" using s1(1) by (simp add: ids_def dual_wf_def)
    show "i \<in> set ids \<longleftrightarrow> d_group v i \<noteq> None"
      unfolding s1(3) [symmetric] grp_None by (simp add: ids_def map_of_eq_None_iff)
  qed
  have par: "(\<exists>g. d_group v i = Some g \<and> g_ParentID g \<noteq> [] \<and> g_ParentID g = x) \<longleftrightarrow> dpar v i = Some x" for i x
    by (auto simp: dpar_def split: option.splits)
  have "grp s1 (g_ParentID g) \<noteq> None" if "grp s1 i = Some g" "g_ParentID g \<noteq> []" for i g
    using that dir_parent [OF v, of i "g_ParentID g"] by (simp add: s1(3) dpar_def)
  then obtain C where C: "load_children ids s1 = (Inr (), s1\<lparr>gs_children := C\<rparr>)"
    "\<And>x. entries C x = filter (\<lambda>i. dpar v i = Some x) ids"
    using load_children_ok [of ids s1] unfolding s1(3) par by (auto simp: s1(4) entries_simps)
  let ?s2 = "s1\<lparr>gs_children := C\<rparr>"
  let ?v0 = "v\<lparr>d_member := \<lambda>_ _. None, d_excl := \<lambda>_ _. None\<rparr>"
  have v0: "dir_ok ?v0"
  proof -
    have "dpar ?v0 = dpar v" by (simp add: fun_eq_iff dpar_def)
    with v show ?thesis by (auto simp: dir_ok_def dir_tree_def) (auto simp: dir_parts)
  qed
  have val: "validatePersonKey s1 = validatePersonKey s" by (simp add: fun_eq_iff validatePersonKey_def s1)
  have g2: "grp ?s2 = d_group v" using s1(3) by (simp add: grp_def)
  have view2: "gs_view ?s2 = ?v0"
    using g2 valid val by (simp add: gs_view_def s1 validatePersonKey_def fun_eq_iff)
  have ld: "load_depths ids ?s2 = (Inr (), ?s2)"
  proof (rule load_depths_ok, rule ballI)
    fix i
    assume "i \<in> set ids"
    then have "grp ?s2 i \<noteq> None" using ids(2) g2 by simp
    with depthLocked_eq [of ?s2 i] v0 show "\<exists>n. depthLocked ?s2 i = Inr n" by (simp add: view2)
  qed
  have "\<exists>M. load_memberships (t_memberships d) ?s2 = (Inr (), ?s2\<lparr>gs_memberships := M\<rparr>) \<and> wf2 M \<and>
      (\<forall>u i. lookup2 M u i = (case tab mb_key (t_memberships d) (u, i) of Some m \<Rightarrow> Some m | None \<Rightarrow> lookup2 (gs_memberships ?s2) u i))"
  proof (rule load_memberships_ok)
    show "keyed mb_key (t_memberships d)" using d by (simp add: db_agree_def)
    fix m
    assume "m \<in> set (t_memberships d)"
    with dir_member [OF v, of "mb_User m" "mb_GroupID m" m] agree_member_rows [OF d, of m]
    show "validatePersonKey ?s2 (mb_User m) = None \<and> Role_Valid (mb_Role m) \<and> map_of (gs_groups ?s2) (mb_GroupID m) \<noteq> None"
      using grp_None [of s1 "mb_GroupID m"] valid by (auto simp: s1(3) validatePersonKey_def s1(7))
  qed (simp add: s1)
  then obtain M where M: "load_memberships (t_memberships d) ?s2 = (Inr (), ?s2\<lparr>gs_memberships := M\<rparr>)" "wf2 M"
    and M0: "\<And>u i. lookup2 M u i = (case d_member v u i of Some m \<Rightarrow> Some m | None \<Rightarrow> None)"
    using d by (auto simp: db_agree_def s1 cong: option.case_cong)
  have M3: "lookup2 M u i = d_member v u i" for u i using M0 [of u i] by (simp split: option.splits)
  have "\<exists>X. load_exclusions (t_exclusions d) (?s2\<lparr>gs_memberships := M\<rparr>) = (Inr (), ?s2\<lparr>gs_memberships := M\<rparr>\<lparr>gs_excluded := X\<rparr>) \<and> wf2 X \<and>
      (\<forall>u i. lookup2 X u i = (case tab ex_key (t_exclusions d) (u, i) of Some m \<Rightarrow> Some m | None \<Rightarrow> lookup2 (gs_excluded (?s2\<lparr>gs_memberships := M\<rparr>)) u i))"
  proof (rule load_exclusions_ok)
    show "keyed ex_key (t_exclusions d)" using d by (simp add: db_agree_def)
    fix e
    assume "e \<in> set (t_exclusions d)"
    with dir_exclD [OF v, of "ex_User e" "ex_GroupID e" e] agree_excl_rows [OF d, of e]
    show "validatePersonKey (?s2\<lparr>gs_memberships := M\<rparr>) (ex_User e) = None"
      using valid by (auto simp: validatePersonKey_def s1(7))
  qed (simp add: s1)
  then obtain X where X: "load_exclusions (t_exclusions d) (?s2\<lparr>gs_memberships := M\<rparr>) = (Inr (), ?s2\<lparr>gs_memberships := M\<rparr>\<lparr>gs_excluded := X\<rparr>)"
    "wf2 X" and X0: "\<And>u i. lookup2 X u i = (case d_excl v u i of Some m \<Rightarrow> Some m | None \<Rightarrow> None)"
    using d by (auto simp: db_agree_def s1 cong: option.case_cong)
  have X3: "lookup2 X u i = d_excl v u i" for u i using X0 [of u i] by (simp split: option.splits)
  let ?s' = "?s2\<lparr>gs_memberships := M, gs_excluded := X, gs_db := Some d\<rparr>"
  have load: "groups_LoadFromDB (Some d) s = (Inr (), ?s')"
    using C(1) ld M(1) X(1) by (simp add: groups_LoadFromDB_def Let_def s1_def [symmetric] ids_def [symmetric])
  have "grp ?s' = d_group v" using s1(3) by (simp add: grp_def)
  then have view: "gs_view ?s' = v"
    using M3 X3 valid by (intro directory.equality) (simp_all add: fun_eq_iff validatePersonKey_def s1(7))
  have "rep_children C (dpar v)" using C(2) ids by (auto simp: rep_children_def dest: dpar_group)
  then have "groups_inv ?s'"
    using s1(1,2) M(2) X(2) v d view by (simp add: groups_inv_def rep_ok_def)
  with load view show ?thesis using s1 by simp
qed

definition groups_restart :: "group_store \<Rightarrow> group_store" where
  "groups_restart s = snd (groups_LoadFromDB (gs_db s)
     (SetOrgAdmin (gs_orgAdmin s) (SetPersonKeyValidator (gs_validatePerson s) groups_NewStore)))"

lemma groups_restart_ok:
  assumes l: "groups_live s"
  shows "groups_live (groups_restart s) \<and> gs_view (groups_restart s) = gs_view s \<and> gs_orgAdmin (groups_restart s) = gs_orgAdmin s"
proof -
  obtain d where d: "gs_db s = Some d" "db_agree (gs_view s) d" using live_db [OF l] by blast
  from groups_load [OF live_dir [OF l] d(2), of "SetOrgAdmin (gs_orgAdmin s) (SetPersonKeyValidator (gs_validatePerson s) groups_NewStore)"]
  show ?thesis
    by (auto simp: groups_restart_def d(1) groups_live_def SetOrgAdmin_def SetPersonKeyValidator_def validatePersonKey_def)
qed

lemma SetOrgAdmin_refines: "groups_live s \<Longrightarrow> g_refines f (GSetOrgAdmin e) s (SetOrgAdmin e s)"
proof -
  assume l: "groups_live s"
  have v: "gs_view (SetOrgAdmin e s) = gs_view s" by (rule gs_view_cong) (simp_all add: SetOrgAdmin_def)
  then have "rep_ok (SetOrgAdmin e s) \<longleftrightarrow> rep_ok s" by (simp add: rep_ok_def) (simp add: SetOrgAdmin_def)
  with v l show ?thesis
    by (cases "gs_db s") (auto simp: g_refines_def groups_live_def groups_inv_def dir_spec.simps, auto simp: SetOrgAdmin_def)
qed

lemma groups_step_refines: "groups_live s \<Longrightarrow> g_refines (fst fo) (snd fo) s (groups_step fo s)"
  by (cases fo; cases "snd fo")
    (simp_all add: CreateGroup_refines RenameGroup_refines delete_commit_refines DeleteGroupWithMembers_refines
      Grant_refines RevokeDirectGrant_refines ExcludeRead_refines Revoke_refines RemoveUser_refines SetOrgAdmin_refines)

interpretation teams: refining_store groups_step groups_restart groups_live gs_view
  "\<lambda>fo. dir_spec (snd fo)" "\<lambda>fo. fst fo = TxOk"
proof
  fix s :: group_store and op
  assume l: "groups_live s"
  have r: "g_refines (fst op) (snd op) s (groups_step op s)" by (rule groups_step_refines [OF l])
  then show "groups_live (groups_step op s)" by (simp add: g_refines_def groups_live_def)
  from r show "gs_view (groups_step op s) = gs_view s \<or> gs_view (groups_step op s) = dir_spec (snd op) (gs_view s)"
    by (simp add: g_refines_def)
  show "gs_view (groups_step op s) = dir_spec (snd op) (gs_view s)" if "fst op = TxOk"
    using r that by (simp add: g_refines_def)
  show "groups_live (groups_restart s)" "gs_view (groups_restart s) = gs_view s"
    using groups_restart_ok [OF l] by simp_all
qed

end
