(* ===== verification/Group_Judge.thy ===== *)
theory Group_Judge
  imports Group_Write
begin

text \<open>
  The permission judge (\<open>internal/groups/judge.go\<close>): effective roles, recall scope, capture
  tags, the permissions projection, grant authority and the delete guards, each as the code
  computes it over the maps, and then against the directory: who may read a group, with which
  role, and where captured memory goes.
\<close>

subsection \<open>Effective role and recall scope\<close>

function role_walk :: "group_store \<Rightarrow> (string, membership) gomap \<Rightarrow> string list \<Rightarrow> role \<Rightarrow> string \<Rightarrow> role" where
  "role_walk s byGroup visited best cur =
     (if cur \<noteq> [] \<and> cur \<notin> set visited \<and> length visited < MaxTreeDepth then
        (let best' = (case map_of byGroup cur of Some m \<Rightarrow> maxRole best (mb_Role m) | None \<Rightarrow> best)
         in case grp s cur of
           None \<Rightarrow> best'
         | Some g \<Rightarrow> role_walk s byGroup (cur # visited) best' (g_ParentID g))
      else best)"
  by pat_completeness auto
termination by (relation "measure (\<lambda>(s, byGroup, visited, best, cur). MaxTreeDepth - length visited)") auto

declare role_walk.simps [simp del]

text \<open>\<open>None\<close> is the pair of the empty role and false.\<close>

definition effectiveRoleLocked :: "group_store \<Rightarrow> string \<Rightarrow> string \<Rightarrow> role option" where
  "effectiveRoleLocked s user groupID =
     (let byGroup = inner (gs_memberships s) user in
      if byGroup = [] then None
      else if map_of byGroup groupID = None \<and> isExcludedLocked s user groupID then None
      else (let best = role_walk s byGroup [] [] groupID in if Rank best = 0 then None else Some best))"

definition EffectiveRole :: "group_store \<Rightarrow> string \<Rightarrow> string \<Rightarrow> role option" where
  "EffectiveRole s user groupRef =
     (case resolveLocked s groupRef of
        Inl _ \<Rightarrow> None
      | Inr p \<Rightarrow> effectiveRoleLocked s user (g_ID (gs_heap s ! p)))"

definition subtreeUnionLocked :: "group_store \<Rightarrow> string \<Rightarrow> role \<Rightarrow> string list" where
  "subtreeUnionLocked s user least =
     (let set1 = fold (\<lambda>(gid, m) acc. if AtLeast (mb_Role m) least \<and> map_of (gs_groups s) gid \<noteq> None
                    then collect (gs_children s) [gid] acc else acc) (inner (gs_memberships s) user) [];
          set2 = fold (\<lambda>(gid, _) acc. if lookup2 (gs_memberships s) user gid \<noteq> None then acc else removeAll gid acc)
                   (inner (gs_excluded s) user) set1
      in sort set2)"

definition RecallScope :: "group_store \<Rightarrow> string \<Rightarrow> string list" where
  "RecallScope s user = subtreeUnionLocked s user RoleRead"

record group_access_view =
  ga_Direct :: "membership list"
  ga_Inherited :: "string list"

definition groupAccessLocked :: "group_store \<Rightarrow> string \<Rightarrow> (string, membership) gomap \<Rightarrow> group_access_view" where
  "groupAccessLocked s user byGroup =
     (let reach1 = fold (\<lambda>(gid, m) acc. if map_of (gs_groups s) gid \<noteq> None
                      then collect (gs_children s) [gid] acc else acc) byGroup [];
          reach2 = fold (\<lambda>(gid, _). removeAll gid) byGroup reach1;
          reach3 = fold (\<lambda>(gid, _). removeAll gid) (inner (gs_excluded s) user) reach2
      in \<lparr>ga_Direct = map snd byGroup, ga_Inherited = sort reach3\<rparr>)"

definition GroupAccess :: "group_store \<Rightarrow> string \<Rightarrow> group_access_view" where
  "GroupAccess s user = groupAccessLocked s user (inner (gs_memberships s) user)"

definition GroupAccessByUser :: "group_store \<Rightarrow> (string, group_access_view) gomap" where
  "GroupAccessByUser s = map (\<lambda>(user, byGroup). (user, groupAccessLocked s user byGroup)) (gs_memberships s)"

subsection \<open>Capture\<close>

definition directWriteSetLocked :: "group_store \<Rightarrow> string \<Rightarrow> string list" where
  "directWriteSetLocked s user =
     map fst (filter (\<lambda>(gid, m). AtLeast (mb_Role m) RoleWrite \<and> map_of (gs_groups s) gid \<noteq> None)
       (inner (gs_memberships s) user))"

definition CaptureTargets :: "group_store \<Rightarrow> string \<Rightarrow> string list" where
  "CaptureTargets s user = sort (directWriteSetLocked s user)"

function write_ancestor_walk :: "group_store \<Rightarrow> string list \<Rightarrow> string list \<Rightarrow> string \<Rightarrow> bool" where
  "write_ancestor_walk s write visited cur =
     (if cur \<noteq> [] \<and> cur \<notin> set visited \<and> length visited < MaxTreeDepth then
        (if cur \<in> set write then True
         else case grp s cur of
           None \<Rightarrow> False
         | Some p \<Rightarrow> write_ancestor_walk s write (cur # visited) (g_ParentID p))
      else False)"
  by pat_completeness auto
termination by (relation "measure (\<lambda>(s, write, visited, cur). MaxTreeDepth - length visited)") auto

declare write_ancestor_walk.simps [simp del]

definition hasWriteAncestorLocked :: "group_store \<Rightarrow> string \<Rightarrow> string list \<Rightarrow> bool" where
  "hasWriteAncestorLocked s gid write =
     (case grp s gid of None \<Rightarrow> False | Some g \<Rightarrow> write_ancestor_walk s write [] (g_ParentID g))"

definition topMostDirectWriteLocked :: "group_store \<Rightarrow> string \<Rightarrow> string list" where
  "topMostDirectWriteLocked s user =
     (let write = directWriteSetLocked s user
      in sort (filter (\<lambda>gid. \<not> hasWriteAncestorLocked s gid write) write))"

text \<open>The loop over the explicitly requested groups, collecting ids once each.\<close>

fun request_loop :: "group_store \<Rightarrow> string \<Rightarrow> string list \<Rightarrow> string list \<Rightarrow> group_error + string list" where
  "request_loop s user [] out = Inr out"
| "request_loop s user (ref # refs) out =
     (case resolveLocked s ref of
        Inl e \<Rightarrow> Inl e
      | Inr p \<Rightarrow>
          (let i = g_ID (gs_heap s ! p) in
           case lookup2 (gs_memberships s) user i of
             None \<Rightarrow> Inl (ErrNotDirectMember user i)
           | Some m \<Rightarrow>
               if \<not> AtLeast (mb_Role m) RoleWrite then Inl (ErrInsufficientRole user i (mb_Role m) RoleWrite)
               else request_loop s user refs (if i \<in> set out then out else out @ [i])))"

definition CaptureTagSet :: "group_store \<Rightarrow> string \<Rightarrow> string list \<Rightarrow> group_error + string list" where
  "CaptureTagSet s user requested =
     (if requested \<noteq> [] then
        (case request_loop s user requested [] of Inl e \<Rightarrow> Inl e | Inr out \<Rightarrow> Inr (sort out))
      else
        (let out = topMostDirectWriteLocked s user in
         if out = [] then Inl (ErrNoWriteGroup user) else Inr out))"

subsection \<open>Projections\<close>

definition membership_views :: "group_store \<Rightarrow> string \<Rightarrow> membership_view list" where
  "membership_views s user =
     sort_key mv_GroupName (concat (map (\<lambda>(gid, m). case grp s gid of None \<Rightarrow> []
        | Some g \<Rightarrow> [\<lparr>mv_GroupID = gid, mv_GroupName = g_Name g, mv_Role = mb_Role m\<rparr>]) (inner (gs_memberships s) user)))"

text \<open>The loop over the reachable groups; a failing depth check ends it with the error.\<close>

fun tree_loop :: "group_store \<Rightarrow> string \<Rightarrow> string list option \<Rightarrow> string list \<Rightarrow> group_error + tree_node list" where
  "tree_loop s user restrict [] = Inr []"
| "tree_loop s user restrict (gid # gids) =
     (if (case restrict of None \<Rightarrow> False | Some r \<Rightarrow> gid \<notin> set r) then tree_loop s user restrict gids
      else case grp s gid of
        None \<Rightarrow> tree_loop s user restrict gids
      | Some g \<Rightarrow>
          (case depthLocked s gid of
             Inl e \<Rightarrow> Inl e
           | Inr d \<Rightarrow>
               (case tree_loop s user restrict gids of
                  Inl e \<Rightarrow> Inl e
                | Inr rest \<Rightarrow> Inr (\<lparr>tn_GroupID = gid, tn_Name = g_Name g, tn_ParentID = g_ParentID g, tn_Depth = d - 1,
                    tn_EffectiveRole = (case effectiveRoleLocked s user gid of None \<Rightarrow> [] | Some r \<Rightarrow> r)\<rparr> # rest))))"

definition Permissions :: "group_store \<Rightarrow> string \<Rightarrow> string \<Rightarrow> group_error + permissions_view" where
  "Permissions s user rootRef =
     (let restrict = (if rootRef = [] then None
            else Some (case resolveLocked s rootRef of Inl _ \<Rightarrow> []
              | Inr p \<Rightarrow> collect (gs_children s) [g_ID (gs_heap s ! p)] []))
      in case tree_loop s user restrict (subtreeUnionLocked s user RoleRead) of
        Inl e \<Rightarrow> Inl e
      | Inr tree \<Rightarrow> Inr \<lparr>pv_User = user, pv_Memberships = membership_views s user,
           pv_Tree = sort_key tn_Depth (sort_key tn_Name tree)\<rparr>)"

definition MemberRoles :: "group_store \<Rightarrow> member_role_view list" where
  "MemberRoles s =
     sort_key mrv_User (sort_key mrv_GroupName
       (concat (map (\<lambda>(user, byGroup). map (\<lambda>(gid, m).
          \<lparr>mrv_User = user, mrv_GroupID = gid, mrv_GroupName = name_of s gid, mrv_Role = mb_Role m\<rparr>) byGroup) (gs_memberships s))))"

definition CanGrant :: "group_store \<Rightarrow> string \<Rightarrow> string \<Rightarrow> string \<Rightarrow> role \<Rightarrow> group_error option" where
  "CanGrant s actor targetUser groupRef role =
     (if \<not> Role_Valid role then Some (InvalidRole role)
      else case validatePersonKey s targetUser of
        Some e \<Rightarrow> Some (PersonKeyInvalid e)
      | None \<Rightarrow>
          (case resolveLocked s groupRef of
             Inl e \<Rightarrow> Some e
           | Inr _ \<Rightarrow> if actor = [] \<or> gs_orgAdmin s \<noteq> actor then Some (ErrNotAdmin actor) else None))"

definition DescendantsWithDepth :: "group_store \<Rightarrow> string \<Rightarrow> group_error + group_depth list option" where
  "DescendantsWithDepth s groupRef =
     (case resolveLocked s groupRef of
        Inl e \<Rightarrow> Inl e
      | Inr p \<Rightarrow> Inr (preorder MaxTreeDepth (sortedChildrenLocked s)
          (\<lambda>i d. \<lparr>gd_ID = i, gd_Name = name_of s i, gd_Depth = d\<rparr>) 0 (g_ID (gs_heap s ! p))))"

subsection \<open>Who may read what\<close>

definition may_read :: "directory \<Rightarrow> string \<Rightarrow> string \<Rightarrow> bool" where
  "may_read v u i \<longleftrightarrow> d_member v u i \<noteq> None \<or> d_excl v u i = None \<and> v_inherits v u i"

text \<open>The membership on a group or a group above it with the highest role.\<close>

definition granted_above :: "directory \<Rightarrow> string \<Rightarrow> string \<Rightarrow> role set" where
  "granted_above v u i = {r. \<exists>a m. above (dpar v) i a \<and> d_member v u a = Some m \<and> mb_Role m = r}"

lemma may_read_group: "dir_ok v \<Longrightarrow> may_read v u i \<Longrightarrow> d_group v i \<noteq> None"
  by (auto simp: may_read_def v_inherits_def dest: dir_member above_group)

lemma fold_collect_members:
  "fold (\<lambda>(gid, m) acc. if P gid m then collect c [gid] acc else acc) ms acc =
     fold (\<lambda>x. collect c [x]) (map fst (filter (\<lambda>(gid, m). P gid m) ms)) acc"
  by (induction ms arbitrary: acc) auto

lemma set_fold_removeAll:
  "set (fold (\<lambda>(gid, _) acc. if P gid then acc else removeAll gid acc) xs acc) =
     set acc - {g. g \<in> fst ` set xs \<and> \<not> P g}"
  by (induction xs arbitrary: acc) (auto split: if_splits)

lemma distinct_fold_removeAll:
  "distinct acc \<Longrightarrow> distinct (fold (\<lambda>(gid, _) acc. if P gid then acc else removeAll gid acc) xs acc)"
  by (induction xs arbitrary: acc) (auto simp: distinct_removeAll split: if_splits)

lemma distinct_fold_collect: "distinct acc \<Longrightarrow> distinct (fold (\<lambda>x. collect c [x]) xs acc)"
  by (induction xs arbitrary: acc) (auto simp: collect_distinct)

lemma inner_keys: "g \<in> fst ` set (inner m u) \<longleftrightarrow> lookup2 m u g \<noteq> None"
  by (simp add: lookup2_def map_of_eq_None_iff)

lemma live_member_group:
  "groups_inv s \<Longrightarrow> lookup2 (gs_memberships s) u i = Some m \<Longrightarrow> map_of (gs_groups s) i \<noteq> None \<and> Role_Valid (mb_Role m)"
  using dir_member [OF inv_dir, of s u i m] by (auto simp: grp_None)

lemma RecallScope_set:
  assumes i: "groups_inv s"
  shows "set (RecallScope s u) = {g. may_read (gs_view s) u g} \<and> sorted (RecallScope s u) \<and> distinct (RecallScope s u)"
proof -
  let ?ms = "map fst (filter (\<lambda>(gid, m). AtLeast (mb_Role m) RoleRead \<and> map_of (gs_groups s) gid \<noteq> None) (inner (gs_memberships s) u))"
  let ?set1 = "fold (\<lambda>x. collect (gs_children s) [x]) ?ms []"
  have w: "wf2 (gs_memberships s)" using i by (simp add: groups_inv_def rep_ok_def)
  have ms: "g \<in> set ?ms \<longleftrightarrow> lookup2 (gs_memberships s) u g \<noteq> None" for g
    using live_member_group [OF i, of u g] by (force simp: set_inner [OF w] AtLeast_read)
  have s1: "set ?set1 = {y. \<exists>x \<in> set ?ms. above (dpar (gs_view s)) y x}"
    using fold_collect_set [of "[]" "gs_children s" ?ms] by (simp add: inv_below [OF i])
  have eq: "RecallScope s u = sort (fold (\<lambda>(gid, _) acc. if lookup2 (gs_memberships s) u gid \<noteq> None then acc else removeAll gid acc)
      (inner (gs_excluded s) u) ?set1)"
    by (simp add: RecallScope_def subtreeUnionLocked_def Let_def fold_collect_members)
  have "g \<in> set (RecallScope s u) \<longleftrightarrow> may_read (gs_view s) u g" for g
  proof -
    have "g \<in> set (RecallScope s u) \<longleftrightarrow> (\<exists>x. lookup2 (gs_memberships s) u x \<noteq> None \<and> above (dpar (gs_view s)) g x) \<and>
        (lookup2 (gs_excluded s) u g = None \<or> lookup2 (gs_memberships s) u g \<noteq> None)"
      unfolding eq set_sort set_fold_removeAll s1 inner_keys Diff_iff mem_Collect_eq Bex_def ms by auto
    also have "\<dots> \<longleftrightarrow> may_read (gs_view s) u g"
    proof (cases "lookup2 (gs_memberships s) u g = None")
      case True
      then have "lookup2 (gs_memberships s) u x \<noteq> None \<Longrightarrow> x \<noteq> g" for x by auto
      with True show ?thesis by (auto simp: may_read_def v_inherits_def)
    next
      case False
      then show ?thesis by (auto simp: may_read_def)
    qed
    finally show ?thesis .
  qed
  moreover have "distinct (RecallScope s u)"
    unfolding eq by (simp add: distinct_fold_removeAll distinct_fold_collect)
  ultimately show ?thesis by (auto simp: eq)
qed

definition role_step :: "(string, membership) gomap \<Rightarrow> string \<Rightarrow> role \<Rightarrow> role" where
  "role_step b a best = (case map_of b a of Some m \<Rightarrow> maxRole best (mb_Role m) | None \<Rightarrow> best)"

lemma role_walk_chain:
  assumes v: "dir_ok (gs_view s)"
  shows "fits (dpar (gs_view s)) n cur \<Longrightarrow> grp s cur \<noteq> None \<Longrightarrow> length visited + n \<le> MaxTreeDepth \<Longrightarrow>
    set visited \<inter> set (up (dpar (gs_view s)) n cur) = {} \<Longrightarrow>
    role_walk s b visited best cur = fold (role_step b) (up (dpar (gs_view s)) n cur) best"
proof (induction n arbitrary: cur visited best)
  case (Suc n)
  then obtain g where g: "grp s cur = Some g" by blast
  from dir_group_id [OF v] g have ne: "cur \<noteq> []" by auto
  have step: "role_walk s b visited best cur = role_walk s b (cur # visited) (role_step b cur best) (g_ParentID g)"
    using Suc.prems ne g by (subst role_walk.simps) (auto simp: role_step_def Let_def)
  show ?case
  proof (cases "g_ParentID g = []")
    case True
    then show ?thesis by (subst step, subst role_walk.simps) (simp add: dpar_def g)
  next
    case False
    then have p: "dpar (gs_view s) cur = Some (g_ParentID g)" by (simp add: dpar_def g)
    have "role_walk s b (cur # visited) (role_step b cur best) (g_ParentID g) =
        fold (role_step b) (up (dpar (gs_view s)) n (g_ParentID g)) (role_step b cur best)"
    proof (rule Suc.IH)
      show "grp s (g_ParentID g) \<noteq> None" using dir_parent [OF v p] by simp
      show "set (cur # visited) \<inter> set (up (dpar (gs_view s)) n (g_ParentID g)) = {}"
        using Suc.prems(4) up_distinct [OF Suc.prems(1)] p by auto
    qed (use Suc.prems p in simp_all)
    with step p show ?thesis by simp
  qed
qed simp

lemma role_step_cases: "role_step b a best = best \<or> (\<exists>m. map_of b a = Some m \<and> role_step b a best = mb_Role m)"
  by (auto simp: role_step_def maxRole_def split: option.split)

lemma role_step_rank: "Rank best \<le> Rank (role_step b a best) \<and>
    (\<forall>m. map_of b a = Some m \<longrightarrow> Rank (mb_Role m) \<le> Rank (role_step b a best))"
  by (auto simp: role_step_def Rank_maxRole split: option.split)

lemma fold_role_step:
  "(fold (role_step b) xs best = best \<or> (\<exists>a \<in> set xs. \<exists>m. map_of b a = Some m \<and> mb_Role m = fold (role_step b) xs best)) \<and>
   Rank best \<le> Rank (fold (role_step b) xs best) \<and>
   (\<forall>a \<in> set xs. \<forall>m. map_of b a = Some m \<longrightarrow> Rank (mb_Role m) \<le> Rank (fold (role_step b) xs best))"
proof (induction xs arbitrary: best)
  case (Cons x xs)
  from Cons.IH [of "role_step b x best"] role_step_cases [of b x best] role_step_rank [of best b x]
  show ?case by (auto intro: order_trans)
qed simp

text \<open>
  The effective role: the user may read the group, and the role is the highest that the user
  holds on the group or above it.
\<close>

lemma effectiveRole_iff:
  assumes i: "groups_inv s"
  shows "effectiveRoleLocked s u g = Some r \<longleftrightarrow>
    may_read (gs_view s) u g \<and> r \<in> granted_above (gs_view s) u g \<and>
    (\<forall>r' \<in> granted_above (gs_view s) u g. Rank r' \<le> Rank r)"
proof (cases "may_read (gs_view s) u g")
  case False
  have "effectiveRoleLocked s u g = None"
  proof (cases "lookup2 (gs_excluded s) u g = None")
    case True
    with False have n: "lookup2 (gs_memberships s) u g = None" "\<not> v_inherits (gs_view s) u g" by (auto simp: may_read_def)
    have none: "map_of (inner (gs_memberships s) u) a = None" if "above (dpar (gs_view s)) g a" for a
      using that n by (auto simp: v_inherits_def lookup2_def)
    have "role_walk s (inner (gs_memberships s) u) [] [] g = []"
    proof (cases "grp s g")
      case None
      have "map_of (inner (gs_memberships s) u) g = None" by (rule none) simp
      with None show ?thesis by (subst role_walk.simps) simp
    next
      case (Some x)
      have "fold (role_step (inner (gs_memberships s) u)) xs [] = []" if "\<forall>a \<in> set xs. map_of (inner (gs_memberships s) u) a = None" for xs
        using that by (induction xs) (auto simp: role_step_def)
      then show ?thesis
        using role_walk_chain [OF inv_dir [OF i], of MaxTreeDepth g "[]"] Some none dir_fits [OF inv_dir [OF i], of g]
        by (simp add: team_tree.chain_above [OF i])
    qed
    then show ?thesis by (simp add: effectiveRoleLocked_def Let_def)
  next
    case False
    then have "lookup2 (gs_memberships s) u g = None" using dir_exclD [OF inv_dir [OF i], of u g] by auto
    with False show ?thesis
      by (auto simp: effectiveRoleLocked_def Let_def isExcludedLocked_def lookup2_def)
  qed
  with False show ?thesis by simp
next
  case True
  let ?b = "inner (gs_memberships s) u"
  have "grp s g \<noteq> None" using may_read_group [OF inv_dir [OF i] True] by simp
  then have walk: "role_walk s ?b [] [] g = fold (role_step ?b) (up (dpar (gs_view s)) MaxTreeDepth g) []"
    by (intro role_walk_chain [OF inv_dir [OF i]] dir_fits) (simp_all add: inv_dir [OF i])
  let ?r = "fold (role_step ?b) (up (dpar (gs_view s)) MaxTreeDepth g) []"
  have gr: "granted_above (gs_view s) u g = {mb_Role m | a m. a \<in> set (up (dpar (gs_view s)) MaxTreeDepth g) \<and> map_of ?b a = Some m}"
    by (auto simp: granted_above_def team_tree.chain_above [OF i] lookup2_def)
  have valid: "Role_Valid x" if "x \<in> granted_above (gs_view s) u g" for x
    using that dir_member [OF inv_dir [OF i]] by (auto simp: granted_above_def)
  obtain a m where am: "above (dpar (gs_view s)) g a" "lookup2 (gs_memberships s) u a = Some m"
    using True by (auto simp: may_read_def v_inherits_def)
  then have "mb_Role m \<in> granted_above (gs_view s) u g" by (auto simp: granted_above_def)
  with valid have pos: "0 < Rank (mb_Role m)" "mb_Role m \<in> granted_above (gs_view s) u g" by (auto simp: Role_Valid_def)
  have top: "\<forall>r' \<in> granted_above (gs_view s) u g. Rank r' \<le> Rank ?r"
    using fold_role_step [of ?b "up (dpar (gs_view s)) MaxTreeDepth g" "[]"] by (auto simp: gr)
  with pos have pr: "0 < Rank ?r" by fastforce
  then have "?r \<noteq> []" by auto
  with fold_role_step [of ?b "up (dpar (gs_view s)) MaxTreeDepth g" "[]"]
  have "\<exists>a \<in> set (up (dpar (gs_view s)) MaxTreeDepth g). \<exists>m. map_of ?b a = Some m \<and> mb_Role m = ?r" by blast
  then have rin: "?r \<in> granted_above (gs_view s) u g"
    unfolding gr by (metis (mono_tags, lifting) mem_Collect_eq)
  have "?b \<noteq> []" using am by (auto simp: lookup2_def)
  moreover have "\<not> (map_of ?b g = None \<and> isExcludedLocked s u g)"
    using True by (auto simp: may_read_def lookup2_def isExcludedLocked_def)
  ultimately have "effectiveRoleLocked s u g = Some ?r"
    using pr by (simp add: effectiveRoleLocked_def Let_def walk)
  moreover have "r = ?r" if "r \<in> granted_above (gs_view s) u g" "\<forall>r' \<in> granted_above (gs_view s) u g. Rank r' \<le> Rank r"
    using that top rin valid Rank_inj by (meson antisym)
  ultimately show ?thesis using True top rin by auto
qed

lemma effectiveRole_None: "groups_inv s \<Longrightarrow> effectiveRoleLocked s u g = None \<longleftrightarrow> \<not> may_read (gs_view s) u g"
proof
  assume i: "groups_inv s" and n: "effectiveRoleLocked s u g = None"
  show "\<not> may_read (gs_view s) u g"
  proof
    assume m: "may_read (gs_view s) u g"
    then obtain x where "x \<in> granted_above (gs_view s) u g"
      by (force simp: may_read_def v_inherits_def granted_above_def)
    moreover have "Rank y < 4" for y by (simp add: Rank_cases)
    ultimately obtain r where "r \<in> granted_above (gs_view s) u g" "\<forall>r' \<in> granted_above (gs_view s) u g. Rank r' \<le> Rank r"
      using ex_has_greatest_nat [of "\<lambda>y. y \<in> granted_above (gs_view s) u g" x Rank 4] by blast
    with m effectiveRole_iff [OF i, of u g r] n show False by simp
  qed
next
  assume "groups_inv s" "\<not> may_read (gs_view s) u g"
  then show "effectiveRoleLocked s u g = None"
    using effectiveRole_iff [of s u g] by (cases "effectiveRoleLocked s u g") auto
qed

lemma set_fold_removeAll_all: "set (fold (\<lambda>(gid, _). removeAll gid) xs acc) = set acc - fst ` set xs"
  by (induction xs arbitrary: acc) auto

lemma distinct_fold_removeAll_all: "distinct acc \<Longrightarrow> distinct (fold (\<lambda>(gid, _). removeAll gid) xs acc)"
  by (induction xs arbitrary: acc) (auto simp: distinct_removeAll)

lemma GroupAccess_inherited:
  assumes i: "groups_inv s"
  shows "set (ga_Inherited (GroupAccess s u)) = {g. InheritsRead s u g} \<and>
    sorted (ga_Inherited (GroupAccess s u)) \<and> distinct (ga_Inherited (GroupAccess s u))"
proof -
  let ?b = "inner (gs_memberships s) u"
  let ?ms = "map fst (filter (\<lambda>(gid, m). map_of (gs_groups s) gid \<noteq> None) ?b)"
  let ?set1 = "fold (\<lambda>x. collect (gs_children s) [x]) ?ms []"
  have w: "wf2 (gs_memberships s)" using i by (simp add: groups_inv_def rep_ok_def)
  have ms: "g \<in> set ?ms \<longleftrightarrow> lookup2 (gs_memberships s) u g \<noteq> None" for g
    using live_member_group [OF i, of u g] by (force simp: set_inner [OF w])
  have s1: "set ?set1 = {y. \<exists>x \<in> set ?ms. above (dpar (gs_view s)) y x}"
    using fold_collect_set [of "[]" "gs_children s" ?ms] by (simp add: inv_below [OF i])
  have eq: "ga_Inherited (GroupAccess s u) = sort (fold (\<lambda>(gid, _). removeAll gid) (inner (gs_excluded s) u)
      (fold (\<lambda>(gid, _). removeAll gid) ?b ?set1))"
    by (simp add: GroupAccess_def groupAccessLocked_def Let_def fold_collect_members)
  have "g \<in> set (ga_Inherited (GroupAccess s u)) \<longleftrightarrow> InheritsRead s u g" for g
  proof -
    have "g \<in> set (ga_Inherited (GroupAccess s u)) \<longleftrightarrow> (\<exists>x. lookup2 (gs_memberships s) u x \<noteq> None \<and> above (dpar (gs_view s)) g x) \<and>
        lookup2 (gs_memberships s) u g = None \<and> lookup2 (gs_excluded s) u g = None"
      unfolding eq set_sort set_fold_removeAll_all s1 Diff_iff inner_keys mem_Collect_eq Bex_def ms by auto
    also have "\<dots> \<longleftrightarrow> InheritsRead s u g"
    proof (cases "lookup2 (gs_memberships s) u g = None")
      case True
      then have "lookup2 (gs_memberships s) u x \<noteq> None \<Longrightarrow> x \<noteq> g" for x by auto
      with True show ?thesis unfolding InheritsRead_iff [OF inv_dir [OF i]] v_inherits_def gs_view_sel by blast
    qed (auto simp: InheritsRead_iff [OF inv_dir [OF i]])
    finally show ?thesis .
  qed
  moreover have "distinct (ga_Inherited (GroupAccess s u))"
    unfolding eq by (simp add: distinct_fold_removeAll_all distinct_fold_collect)
  ultimately show ?thesis by (auto simp: eq)
qed

subsection \<open>Where captured memory goes\<close>

definition can_write :: "directory \<Rightarrow> string \<Rightarrow> string \<Rightarrow> bool" where
  "can_write v u g \<longleftrightarrow> (\<exists>m. d_member v u g = Some m \<and> AtLeast (mb_Role m) RoleWrite)"

definition top_write :: "directory \<Rightarrow> string \<Rightarrow> string \<Rightarrow> bool" where
  "top_write v u g \<longleftrightarrow> can_write v u g \<and> (\<forall>a. a \<noteq> g \<longrightarrow> above (dpar v) g a \<longrightarrow> \<not> can_write v u a)"

lemma directWrite_set:
  assumes i: "groups_inv s"
  shows "set (directWriteSetLocked s u) = {g. can_write (gs_view s) u g} \<and> distinct (directWriteSetLocked s u)"
proof -
  have w: "wf2 (gs_memberships s)" using i by (simp add: groups_inv_def rep_ok_def)
  have "g \<in> set (directWriteSetLocked s u) \<longleftrightarrow> can_write (gs_view s) u g" for g
    using live_member_group [OF i, of u g] by (force simp: directWriteSetLocked_def can_write_def set_inner [OF w])
  moreover have "distinct (directWriteSetLocked s u)"
    using wf2_inner_distinct [OF w, of u] by (simp add: directWriteSetLocked_def distinct_map_filter)
  ultimately show ?thesis by blast
qed

lemma write_ancestor_chain:
  assumes v: "dir_ok (gs_view s)"
  shows "fits (dpar (gs_view s)) n cur \<Longrightarrow> grp s cur \<noteq> None \<Longrightarrow> length visited + n \<le> MaxTreeDepth \<Longrightarrow>
    set visited \<inter> set (up (dpar (gs_view s)) n cur) = {} \<Longrightarrow>
    write_ancestor_walk s w visited cur \<longleftrightarrow> (\<exists>a \<in> set (up (dpar (gs_view s)) n cur). a \<in> set w)"
proof (induction n arbitrary: cur visited)
  case (Suc n)
  then obtain g where g: "grp s cur = Some g" by blast
  from dir_group_id [OF v] g have ne: "cur \<noteq> []" by auto
  have step: "write_ancestor_walk s w visited cur \<longleftrightarrow> cur \<in> set w \<or> write_ancestor_walk s w (cur # visited) (g_ParentID g)"
    using Suc.prems ne g by (subst write_ancestor_walk.simps) auto
  show ?case
  proof (cases "g_ParentID g = []")
    case True
    then show ?thesis by (subst step, subst write_ancestor_walk.simps) (simp add: dpar_def g)
  next
    case False
    then have p: "dpar (gs_view s) cur = Some (g_ParentID g)" by (simp add: dpar_def g)
    have "write_ancestor_walk s w (cur # visited) (g_ParentID g) \<longleftrightarrow>
        (\<exists>a \<in> set (up (dpar (gs_view s)) n (g_ParentID g)). a \<in> set w)"
    proof (rule Suc.IH)
      show "grp s (g_ParentID g) \<noteq> None" using dir_parent [OF v p] by simp
      show "set (cur # visited) \<inter> set (up (dpar (gs_view s)) n (g_ParentID g)) = {}"
        using Suc.prems(4) up_distinct [OF Suc.prems(1)] p by auto
    qed (use Suc.prems p in simp_all)
    with step p show ?thesis by simp
  qed
qed simp

lemma hasWriteAncestor_iff:
  assumes i: "groups_inv s" and g: "grp s g \<noteq> None"
  shows "hasWriteAncestorLocked s g w \<longleftrightarrow> (\<exists>a. a \<noteq> g \<and> above (dpar (gs_view s)) g a \<and> a \<in> set w)"
proof -
  from g obtain x where x: "grp s g = Some x" by blast
  note v = inv_dir [OF i]
  have tl: "a \<in> set (tl (ancestors (gs_view s) g)) \<longleftrightarrow> a \<noteq> g \<and> above (dpar (gs_view s)) g a" for a
    by (rule ancestors_tl [OF v])
  show ?thesis
  proof (cases "g_ParentID x = []")
    case True
    then have "ancestors (gs_view s) g = [g]" by (simp add: ancestors_def dpar_def x MaxTreeDepth_def numeral_eq_Suc)
    with tl have no: "\<not> (a \<noteq> g \<and> above (dpar (gs_view s)) g a)" for a by fastforce
    have "\<not> write_ancestor_walk s w [] []" by (subst write_ancestor_walk.simps) simp
    with True no show ?thesis by (auto simp: hasWriteAncestorLocked_def x)
  next
    case False
    then have p: "dpar (gs_view s) g = Some (g_ParentID x)" by (simp add: dpar_def x)
    obtain n where n: "MaxTreeDepth = Suc n" by (simp add: MaxTreeDepth_def numeral_eq_Suc)
    have "ancestors (gs_view s) g = g # up (dpar (gs_view s)) n (g_ParentID x)" by (simp add: ancestors_def n p)
    with tl have up: "a \<in> set (up (dpar (gs_view s)) n (g_ParentID x)) \<longleftrightarrow> a \<noteq> g \<and> above (dpar (gs_view s)) g a" for a by simp
    have "fits (dpar (gs_view s)) n (g_ParentID x)" using dir_fits [OF v, of g] p by (simp add: n)
    then have "write_ancestor_walk s w [] (g_ParentID x) \<longleftrightarrow> (\<exists>a \<in> set (up (dpar (gs_view s)) n (g_ParentID x)). a \<in> set w)"
      using dir_parent [OF v p] by (intro write_ancestor_chain [OF v]) (simp_all add: n)
    then show ?thesis by (auto simp: hasWriteAncestorLocked_def x up)
  qed
qed

lemma topMost_set:
  assumes i: "groups_inv s"
  shows "set (topMostDirectWriteLocked s u) = {g. top_write (gs_view s) u g} \<and>
    sorted (topMostDirectWriteLocked s u) \<and> distinct (topMostDirectWriteLocked s u)"
proof -
  have d: "set (directWriteSetLocked s u) = {g. can_write (gs_view s) u g}" "distinct (directWriteSetLocked s u)"
    using directWrite_set [OF i] by simp_all
  have live: "can_write (gs_view s) u g \<Longrightarrow> grp s g \<noteq> None" for g
    using dir_member [OF inv_dir [OF i], of u g] by (auto simp: can_write_def)
  have "set (topMostDirectWriteLocked s u) = {g. top_write (gs_view s) u g}"
    using live hasWriteAncestor_iff [OF i] d(1)
    by (auto simp: topMostDirectWriteLocked_def Let_def top_write_def)
  with d(2) show ?thesis by (simp add: topMostDirectWriteLocked_def Let_def)
qed

text \<open>Every group a user may write to lies at or below a top-most one.\<close>

lemma top_write_above:
  assumes v: "dir_ok v" and w: "can_write v u g"
  shows "\<exists>t. top_write v u t \<and> above (dpar v) g t"
proof -
  let ?P = "\<lambda>t. can_write v u t \<and> above (dpar v) g t"
  from ex_has_least_nat [of ?P g "\<lambda>t. length (ancestors v t)"] w obtain t
    where t: "?P t" "\<And>y. ?P y \<Longrightarrow> length (ancestors v t) \<le> length (ancestors v y)" by auto
  have "\<not> can_write v u a" if ne: "a \<noteq> t" and ab: "above (dpar v) t a" for a
  proof
    assume c: "can_write v u a"
    from ne ab obtain z where z: "dpar v t = Some z" "above (dpar v) z a" by (subst (asm) above_from) auto
    from up_length_less [OF dir_fits [OF v] z] have "length (ancestors v a) < length (ancestors v t)"
      by (simp add: ancestors_def)
    moreover have "?P a" using c t(1) ab by (auto intro: rtranclp_trans)
    ultimately show False using t(2) [of a] by simp
  qed
  with t(1) show ?thesis by (auto simp: top_write_def)
qed

lemma request_loop_Inr:
  assumes i: "groups_inv s"
  shows "request_loop s u refs out = Inr out' \<Longrightarrow>
    set out' = set out \<union> {g. \<exists>ref \<in> set refs. v_resolve (gs_view s) ref = Some g} \<and>
    (\<forall>ref \<in> set refs. \<exists>g. v_resolve (gs_view s) ref = Some g \<and> can_write (gs_view s) u g) \<and>
    (distinct out \<longrightarrow> distinct out')"
proof (induction refs arbitrary: out)
  case (Cons ref refs)
  obtain p where p: "resolveLocked s ref = Inr p" using Cons.prems by (auto split: sum.splits)
  define g where "g = g_ID (gs_heap s ! p)"
  have r: "v_resolve (gs_view s) ref = Some g" using resolve_Inr [OF i p] by (simp add: g_def)
  obtain m where m: "lookup2 (gs_memberships s) u g = Some m" "AtLeast (mb_Role m) RoleWrite"
    using Cons.prems p by (auto simp: Let_def g_def split: option.splits if_splits)
  then have "request_loop s u refs (if g \<in> set out then out else out @ [g]) = Inr out'"
    using Cons.prems p by (simp add: Let_def g_def [symmetric])
  from Cons.IH [OF this] r m show ?case by (auto simp: can_write_def split: if_splits)
qed simp

subsection \<open>The permissions projection\<close>

definition tree_node_of :: "group_store \<Rightarrow> string \<Rightarrow> string \<Rightarrow> tree_node" where
  "tree_node_of s u gid =
     (let g = the (grp s gid) in
      \<lparr>tn_GroupID = gid, tn_Name = g_Name g, tn_ParentID = g_ParentID g, tn_Depth = length (ancestors (gs_view s) gid) - 1,
       tn_EffectiveRole = the (effectiveRoleLocked s u gid)\<rparr>)"

lemma tree_loop_ok:
  assumes i: "groups_inv s" and m: "\<And>g. g \<in> set gids \<Longrightarrow> may_read (gs_view s) u g"
  shows "tree_loop s u restrict gids =
    Inr (map (tree_node_of s u) (filter (\<lambda>g. case restrict of None \<Rightarrow> True | Some r \<Rightarrow> g \<in> set r) gids))"
  using m
proof (induction gids)
  case (Cons gid gids)
  have mr: "may_read (gs_view s) u gid" using Cons.prems by simp
  then obtain g where g: "grp s gid = Some g" using may_read_group [OF inv_dir [OF i], of u gid] by auto
  obtain r where r: "effectiveRoleLocked s u gid = Some r" using effectiveRole_None [OF i, of u gid] mr by auto
  have d: "depthLocked s gid = Inr (length (ancestors (gs_view s) gid))"
    using g by (intro depthLocked_eq [OF inv_dir [OF i]]) simp
  have ih: "tree_loop s u restrict gids =
      Inr (map (tree_node_of s u) (filter (\<lambda>g. case restrict of None \<Rightarrow> True | Some r \<Rightarrow> g \<in> set r) gids))"
    using Cons by simp
  have node: "tree_node_of s u gid = \<lparr>tn_GroupID = gid, tn_Name = g_Name g, tn_ParentID = g_ParentID g,
      tn_Depth = length (ancestors (gs_view s) gid) - 1, tn_EffectiveRole = r\<rparr>"
    by (simp add: tree_node_of_def g r)
  show ?case
  proof (cases restrict)
    case None
    then show ?thesis using ih by (simp add: g r d node)
  next
    case (Some rs)
    then show ?thesis using ih by (simp add: g r d node)
  qed
qed simp

text \<open>The groups below a reference, or none when it does not resolve.\<close>

definition root_scope :: "directory \<Rightarrow> string \<Rightarrow> string set" where
  "root_scope v ref = (if ref = [] then UNIV
     else case v_resolve v ref of None \<Rightarrow> {} | Some x \<Rightarrow> {g. above (dpar v) g x})"

lemma Permissions_eq:
  assumes i: "groups_inv s"
  shows "Permissions s u ref = Inr \<lparr>pv_User = u, pv_Memberships = membership_views s u,
    pv_Tree = sort_key tn_Depth (sort_key tn_Name (map (tree_node_of s u)
      (filter (\<lambda>g. g \<in> root_scope (gs_view s) ref) (RecallScope s u))))\<rparr>"
proof -
  have m: "g \<in> set (RecallScope s u) \<Longrightarrow> may_read (gs_view s) u g" for g using RecallScope_set [OF i, of u] by auto
  define restrict where "restrict = (if ref = [] then None
            else Some (case resolveLocked s ref of Inl _ \<Rightarrow> []
              | Inr p \<Rightarrow> collect (gs_children s) [g_ID (gs_heap s ! p)] []))"
  have "(case restrict of None \<Rightarrow> True | Some r \<Rightarrow> g \<in> set r) \<longleftrightarrow> g \<in> root_scope (gs_view s) ref" for g
  proof (cases "ref = []")
    case False
    show ?thesis
    proof (cases "resolveLocked s ref")
      case (Inl e)
      with False resolve_Inl [OF i Inl] show ?thesis by (simp add: restrict_def root_scope_def)
    next
      case (Inr p)
      have "set (collect (gs_children s) [x] []) = {g. above (dpar (gs_view s)) g x}" for x
        using collect_set [of "[]" "gs_children s" "[x]"] by (simp add: inv_below [OF i])
      with False Inr resolve_Inr [OF i Inr] show ?thesis by (simp add: restrict_def root_scope_def)
    qed
  qed (simp add: restrict_def root_scope_def)
  then show ?thesis
    using tree_loop_ok [OF i m, of "RecallScope s u" restrict]
    by (simp add: Permissions_def restrict_def [symmetric] RecallScope_def)
qed

lemma EffectiveRole_id: "grp s g \<noteq> None \<Longrightarrow> groups_inv s \<Longrightarrow> EffectiveRole s u g = effectiveRoleLocked s u g"
proof -
  assume "grp s g \<noteq> None" and i: "groups_inv s"
  then obtain p where p: "map_of (gs_groups s) g = Some p" by (auto simp: grp_None)
  then have "g_ID (gs_heap s ! p) = g" using rep_id [OF inv_groups [OF i] p] by simp
  with p show ?thesis by (simp add: EffectiveRole_def resolveLocked_def)
qed

end
