(* ===== verification/Group_Console.thy ===== *)
theory Group_Console
  imports Group_Judge
begin

text \<open>
  What the console shows of the group store (\<open>internal/groups/console.go\<close> and the listings of
  \<open>store.go\<close>): the team tree with member counts, a team with its members, direct roles. The
  lists are complete and free of repetitions, the recursion over the tree ends within its
  height, and the two ways of counting members agree with each other and with the judge.
\<close>

record console_tree_node =
  ct_ID :: string
  ct_Name :: string
  ct_ParentID :: "string option"
  ct_ChildrenIDs :: "string list"
  ct_ChildCount :: nat
  ct_MemberCount :: nat

record console_team_detail =
  cd_ID :: string
  cd_Name :: string
  cd_ParentID :: "string option"
  cd_Children :: "string list"
  cd_MemberCount :: nat
  cd_CreatedAt :: string

record console_team_member =
  cm_User :: string
  cm_Role :: role
  cm_SourceGroupID :: string
  cm_GrantedAt :: string
  cm_Inherited :: bool

definition parentPtr :: "string \<Rightarrow> string option" where
  "parentPtr i = (if i = [] then None else Some i)"

definition effectiveMemberCountLocked :: "group_store \<Rightarrow> string \<Rightarrow> nat" where
  "effectiveMemberCountLocked s i =
     length (filter (\<lambda>(user, byGroup). map_of byGroup i \<noteq> None \<or> inheritedSourceLocked s user i \<noteq> None) (gs_memberships s))"

text \<open>\<open>counts[k]++\<close> on a map from ids to numbers, and reading it.\<close>

definition cnt :: "('k, nat) gomap \<Rightarrow> 'k \<Rightarrow> nat" where
  "cnt m k = (case map_of m k of None \<Rightarrow> 0 | Some n \<Rightarrow> n)"

definition incr :: "'k \<Rightarrow> ('k, nat) gomap \<Rightarrow> ('k, nat) gomap" where
  "incr k m = AList.update k (cnt m k + 1) m"

definition effectiveMemberCountsLocked :: "group_store \<Rightarrow> (string, nat) gomap" where
  "effectiveMemberCountsLocked s =
     fold (\<lambda>(user, byGroup) counts.
        let access = groupAccessLocked s user byGroup
        in fold incr (ga_Inherited access) (fold (\<lambda>m. incr (mb_GroupID m)) (ga_Direct access) counts))
      (gs_memberships s) []"

definition team_member_row :: "group_store \<Rightarrow> string \<Rightarrow> string \<times> (string, membership) gomap \<Rightarrow> console_team_member list" where
  "team_member_row s groupID = (\<lambda>(user, byGroup).
     (case map_of byGroup groupID of
        Some direct \<Rightarrow> [\<lparr>cm_User = user, cm_Role = mb_Role direct, cm_SourceGroupID = groupID,
          cm_GrantedAt = mb_GrantedAt direct, cm_Inherited = False\<rparr>]
      | None \<Rightarrow>
          (case inheritedSourceLocked s user groupID of
             None \<Rightarrow> []
           | Some source \<Rightarrow> [\<lparr>cm_User = user, cm_Role = RoleRead, cm_SourceGroupID = mb_GroupID source,
               cm_GrantedAt = mb_GrantedAt source, cm_Inherited = True\<rparr>])))"

definition ConsoleTeamMembers :: "group_store \<Rightarrow> string \<Rightarrow> console_team_member list option" where
  "ConsoleTeamMembers s groupID =
     (if map_of (gs_groups s) groupID = None then None
      else Some (sort_key cm_User (concat (map (team_member_row s groupID) (gs_memberships s)))))"

definition Inheritors :: "group_store \<Rightarrow> string \<Rightarrow> string list option" where
  "Inheritors s groupID =
     map_option (\<lambda>members. map cm_User (filter cm_Inherited members)) (ConsoleTeamMembers s groupID)"

definition console_node :: "group_store \<Rightarrow> (string, nat) gomap \<Rightarrow> string \<Rightarrow> nat \<Rightarrow> console_tree_node" where
  "console_node s memberCounts i depth =
     (let g = the (grp s i); kids = sortedChildrenLocked s i in
      \<lparr>ct_ID = g_ID g, ct_Name = g_Name g, ct_ParentID = parentPtr (g_ParentID g), ct_ChildrenIDs = kids,
       ct_ChildCount = length kids, ct_MemberCount = cnt memberCounts i\<rparr>)"

definition ConsoleTree :: "group_store \<Rightarrow> console_tree_node list option" where
  "ConsoleTree s =
     (let memberCounts = effectiveMemberCountsLocked s
      in map_option concat (those (map (preorder MaxTreeDepth (sortedChildrenLocked s) (console_node s memberCounts) 1) (root_ids s))))"

definition TeamDetail :: "group_store \<Rightarrow> string \<Rightarrow> group_error + console_team_detail" where
  "TeamDetail s ref =
     (case resolveLocked s ref of
        Inl e \<Rightarrow> Inl e
      | Inr p \<Rightarrow>
          (let g = gs_heap s ! p in
           Inr \<lparr>cd_ID = g_ID g, cd_Name = g_Name g, cd_ParentID = parentPtr (g_ParentID g),
                cd_Children = sortedChildrenLocked s (g_ID g),
                cd_MemberCount = effectiveMemberCountLocked s (g_ID g), cd_CreatedAt = g_CreatedAt g\<rparr>))"

definition DirectRole :: "group_store \<Rightarrow> string \<Rightarrow> string \<Rightarrow> group_error + role option" where
  "DirectRole s user groupRef =
     (case resolveLocked s groupRef of
        Inl e \<Rightarrow> Inl e
      | Inr p \<Rightarrow> Inr (map_option mb_Role (lookup2 (gs_memberships s) user (g_ID (gs_heap s ! p)))))"

definition GroupName :: "group_store \<Rightarrow> string \<Rightarrow> group_error + string" where
  "GroupName s ref = (case resolveLocked s ref of Inl e \<Rightarrow> Inl e | Inr p \<Rightarrow> Inr (g_Name (gs_heap s ! p)))"

subsection \<open>Members of a team\<close>

lemma outer_inner: "wf2 m \<Longrightarrow> (u, b) \<in> set m \<Longrightarrow> map_of b i = lookup2 m u i"
  by (simp add: wf2_set_iff lookup2_def)

lemma team_member_iff:
  assumes i: "groups_inv s" and ub: "(u, b) \<in> set (gs_memberships s)"
  shows "map_of b g \<noteq> None \<or> inheritedSourceLocked s u g \<noteq> None \<longleftrightarrow> may_read (gs_view s) u g"
proof -
  have w: "wf2 (gs_memberships s)" using i by (simp add: groups_inv_def rep_ok_def)
  have "inheritedSourceLocked s u g \<noteq> None \<longleftrightarrow> lookup2 (gs_memberships s) u g = None \<and>
      lookup2 (gs_excluded s) u g = None \<and> v_inherits (gs_view s) u g"
    using InheritsRead_iff [OF inv_dir [OF i], of u g] by (simp add: InheritsRead_def)
  then show ?thesis using outer_inner [OF w ub, of g] by (auto simp: may_read_def)
qed

lemma reader_has_row:
  assumes i: "groups_inv s" and m: "may_read (gs_view s) u g"
  shows "u \<in> fst ` set (gs_memberships s)"
proof -
  have w: "wf2 (gs_memberships s)" using i by (simp add: groups_inv_def rep_ok_def)
  from m obtain a where "lookup2 (gs_memberships s) u a \<noteq> None" by (auto simp: may_read_def v_inherits_def)
  then have "inner (gs_memberships s) u \<noteq> []" by (auto simp: lookup2_def)
  then have "(u, inner (gs_memberships s) u) \<in> set (gs_memberships s)" by (simp add: wf2_set_iff [OF w])
  then show ?thesis by force
qed

lemma team_rows_users:
  "map cm_User (concat (map (team_member_row s g) ms)) =
     map fst (filter (\<lambda>(u, b). map_of b g \<noteq> None \<or> inheritedSourceLocked s u g \<noteq> None) ms)"
  by (induction ms) (auto simp: team_member_row_def split: option.splits)

lemma ConsoleTeamMembers_users:
  assumes i: "groups_inv s" and g: "grp s g \<noteq> None"
  shows "\<exists>l. ConsoleTeamMembers s g = Some l \<and> distinct (map cm_User l) \<and> sorted (map cm_User l) \<and>
    set (map cm_User l) = {u. may_read (gs_view s) u g} \<and> length l = effectiveMemberCountLocked s g"
proof -
  have w: "wf2 (gs_memberships s)" using i by (simp add: groups_inv_def rep_ok_def)
  let ?rows = "concat (map (team_member_row s g) (gs_memberships s))"
  have u: "map cm_User ?rows = map fst (filter (\<lambda>(u, b). map_of b g \<noteq> None \<or> inheritedSourceLocked s u g \<noteq> None) (gs_memberships s))"
    by (rule team_rows_users)
  have d: "distinct (map cm_User ?rows)" unfolding u using w by (simp add: wf2_def distinct_map_filter)
  have st: "set (map cm_User ?rows) = {u. may_read (gs_view s) u g}"
    unfolding u using team_member_iff [OF i] reader_has_row [OF i] by force
  have "length ?rows = effectiveMemberCountLocked s g"
    unfolding effectiveMemberCountLocked_def using arg_cong [OF u, of length] by simp
  moreover have "ConsoleTeamMembers s g = Some (sort_key cm_User ?rows)"
    using g by (auto simp: ConsoleTeamMembers_def grp_None)
  moreover have "distinct (map cm_User (sort_key cm_User ?rows))" using d by (simp add: distinct_map)
  moreover have "sorted (map cm_User (sort_key cm_User ?rows))" by simp
  ultimately show ?thesis using st by auto
qed

lemma cnt_incr: "cnt (incr k m) j = cnt m j + (if j = k then 1 else 0)"
  by (simp add: cnt_def incr_def update_conv')

lemma cnt_fold: "cnt (fold (\<lambda>x. incr (f x)) xs m) j = cnt m j + count_list (map f xs) j"
  by (induction xs arbitrary: m) (auto simp: cnt_incr)

lemma cnt_fold_id: "cnt (fold incr xs m) j = cnt m j + count_list xs j"
  using cnt_fold [of "\<lambda>x. x" xs m j] by simp

lemma count_list_distinct: "distinct xs \<Longrightarrow> count_list xs j = (if j \<in> set xs then 1 else 0)"
  by (induction xs) auto

lemma access_count:
  assumes i: "groups_inv s" and ub: "(u, b) \<in> set (gs_memberships s)"
  shows "count_list (map mb_GroupID (ga_Direct (groupAccessLocked s u b))) j + count_list (ga_Inherited (groupAccessLocked s u b)) j =
    (if map_of b j \<noteq> None \<or> inheritedSourceLocked s u j \<noteq> None then 1 else 0)"
proof -
  have w: "wf2 (gs_memberships s)" using i by (simp add: groups_inv_def rep_ok_def)
  have b: "inner (gs_memberships s) u = b" by (rule inner_in_set [OF w ub])
  then have ga: "groupAccessLocked s u b = GroupAccess s u" by (simp add: GroupAccess_def)
  have "map mb_GroupID (ga_Direct (groupAccessLocked s u b)) = map fst b"
  proof -
    have "mb_GroupID m = gid" if "(gid, m) \<in> set b" for gid m
      using that dir_member [OF inv_dir [OF i], of u gid m] set_inner [OF w, of gid m u] by (simp add: b)
    then show ?thesis by (auto simp: groupAccessLocked_def Let_def)
  qed
  moreover have "distinct (map fst b)" using wf2_inner_distinct [OF w, of u] by (simp add: b)
  moreover have "j \<in> set (map fst b) \<longleftrightarrow> map_of b j \<noteq> None" by (simp add: map_of_eq_None_iff)
  moreover have "set (ga_Inherited (GroupAccess s u)) = {g. InheritsRead s u g}" "distinct (ga_Inherited (GroupAccess s u))"
    using GroupAccess_inherited [OF i, of u] by simp_all
  moreover have "InheritsRead s u j \<Longrightarrow> map_of b j = None"
    using InheritsRead_iff [OF inv_dir [OF i], of u j] outer_inner [OF w ub, of j] by simp
  ultimately show ?thesis by (auto simp: ga count_list_distinct InheritsRead_def)
qed

lemma effectiveMemberCounts_eq:
  assumes i: "groups_inv s"
  shows "cnt (effectiveMemberCountsLocked s) j = effectiveMemberCountLocked s j"
proof -
  let ?step = "\<lambda>(user, byGroup) counts. let access = groupAccessLocked s user byGroup
        in fold incr (ga_Inherited access) (fold (\<lambda>m. incr (mb_GroupID m)) (ga_Direct access) counts)"
  have "cnt (fold ?step ms c) j = cnt c j +
      length (filter (\<lambda>(user, byGroup). map_of byGroup j \<noteq> None \<or> inheritedSourceLocked s user j \<noteq> None) ms)"
    if "set ms \<subseteq> set (gs_memberships s)" for ms c
    using that
  proof (induction ms arbitrary: c)
    case (Cons x ms)
    obtain u b where x: "x = (u, b)" by (cases x)
    have "cnt (?step x c) j = cnt c j + (if map_of b j \<noteq> None \<or> inheritedSourceLocked s u j \<noteq> None then 1 else 0)"
      using access_count [OF i, of u b j] Cons.prems by (simp add: x Let_def cnt_fold cnt_fold_id)
    with Cons.IH [of "?step x c"] Cons.prems show ?case by (simp add: x)
  qed simp
  from this [of "gs_memberships s" "[]"] show ?thesis
    by (simp add: effectiveMemberCountsLocked_def effectiveMemberCountLocked_def cnt_def)
qed

subsection \<open>The tree in order\<close>

definition tree_rows :: "group_store \<Rightarrow> (string \<times> nat) list" where
  "tree_rows s = concat (map (levels MaxTreeDepth (sortedChildrenLocked s) 1) (root_ids s))"

lemma walk_all:
  assumes i: "groups_inv s"
  shows "map_option concat (those (map (preorder MaxTreeDepth (sortedChildrenLocked s) emit 1) (root_ids s))) =
    Some (map (\<lambda>(i, d). emit i d) (tree_rows s))"
proof -
  have "those (map (preorder MaxTreeDepth (sortedChildrenLocked s) emit 1) (root_ids s)) =
      Some (map (\<lambda>r. map (\<lambda>(i, d). emit i d) (levels MaxTreeDepth (sortedChildrenLocked s) 1 r)) (root_ids s))"
    by (intro those_map_Some ballI preorder_levels sorted_tree.shallow_height [OF i])
  then show ?thesis by (simp add: tree_rows_def map_concat comp_def)
qed

lemma root_above: "fits par n x \<Longrightarrow> \<exists>r. above par x r \<and> par r = None"
proof (induction n arbitrary: x)
  case (Suc n)
  then show ?case
    by (cases "par x") (auto intro: converse_rtranclp_into_rtranclp)
qed simp

lemma root_ids_iff:
  assumes i: "groups_inv s"
  shows "r \<in> set (root_ids s) \<longleftrightarrow> grp s r \<noteq> None \<and> dpar (gs_view s) r = None"
proof -
  have "distinct (map fst (gs_groups s))" using inv_groups [OF i] by (simp add: dual_wf_def)
  then have "(j, p) \<in> set (gs_groups s) \<longleftrightarrow> map_of (gs_groups s) j = Some p" for j p by (simp add: map_of_eq_Some_iff)
  then have "r \<in> set (root_ids s) \<longleftrightarrow> (\<exists>p. map_of (gs_groups s) r = Some p \<and> g_ParentID (gs_heap s ! p) = [])"
    by (force simp: root_ids_def sortByNameLocked_def)
  also have "\<dots> \<longleftrightarrow> grp s r \<noteq> None \<and> dpar (gs_view s) r = None"
    by (cases "map_of (gs_groups s) r") (auto simp: dpar_def grp_def deref_def)
  finally show ?thesis .
qed

lemma root_ids_distinct: "groups_inv s \<Longrightarrow> distinct (root_ids s)"
  using inv_groups [of s] by (simp add: root_ids_def sortByNameLocked_def dual_wf_def distinct_map_filter)

lemma root_unique: "above par x r \<Longrightarrow> above par x q \<Longrightarrow> par r = None \<Longrightarrow> par q = None \<Longrightarrow> r = q"
proof -
  assume a: "above par x r" "above par x q" and n: "par r = None" "par q = None"
  have "y = z" if "above par y z" "par y = None" for y z using that by (subst (asm) above_from) auto
  with above_linear [OF a] n show ?thesis by auto
qed

lemma tree_rows_set:
  assumes i: "groups_inv s"
  shows "(g, d) \<in> set (tree_rows s) \<longleftrightarrow> grp s g \<noteq> None \<and> d = length (ancestors (gs_view s) g)"
proof -
  have row: "(g, d) \<in> set (levels MaxTreeDepth (sortedChildrenLocked s) 1 r) \<longleftrightarrow>
      above (dpar (gs_view s)) g r \<and> d = length (ancestors (gs_view s) g)" if "r \<in> set (root_ids s)" for r
  proof -
    have "length (up (dpar (gs_view s)) MaxTreeDepth r) = 1"
      using that by (simp add: root_ids_iff [OF i] sorted_tree.chain_root [OF i])
    with sorted_tree.levels_set [OF i sorted_tree.shallow_height [OF i], of g d 1 r]
    show ?thesis by (auto simp: ancestors_def)
  qed
  have "(\<exists>r. r \<in> set (root_ids s) \<and> above (dpar (gs_view s)) g r) \<longleftrightarrow> grp s g \<noteq> None"
  proof
    assume "\<exists>r. r \<in> set (root_ids s) \<and> above (dpar (gs_view s)) g r"
    then obtain r where r: "grp s r \<noteq> None" "above (dpar (gs_view s)) g r" by (auto simp: root_ids_iff [OF i])
    then show "grp s g \<noteq> None" using above_group [OF inv_dir [OF i], of g r] by (cases "g = r") auto
  next
    assume g: "grp s g \<noteq> None"
    obtain r where r: "above (dpar (gs_view s)) g r" "dpar (gs_view s) r = None"
      using root_above [OF dir_fits [OF inv_dir [OF i]]] by blast
    with g have "grp s r \<noteq> None" using above_group [OF inv_dir [OF i] r(1)] by (cases "g = r") auto
    with r show "\<exists>r. r \<in> set (root_ids s) \<and> above (dpar (gs_view s)) g r" by (auto simp: root_ids_iff [OF i])
  qed
  then show ?thesis unfolding tree_rows_def using row by auto
qed

lemma tree_rows_distinct:
  assumes i: "groups_inv s"
  shows "distinct (map fst (tree_rows s))"
proof -
  let ?l = "levels MaxTreeDepth (sortedChildrenLocked s) 1"
  have mem: "above (dpar (gs_view s)) g r" if "g \<in> set (map fst (?l r))" for g r
    using that sorted_tree.levels_set [OF i sorted_tree.shallow_height [OF i], of g _ 1 r] by auto
  have "distinct (concat (map (\<lambda>r. map fst (?l r)) rs))" if "distinct rs" "set rs \<subseteq> set (root_ids s)" for rs
    using that
  proof (induction rs)
    case (Cons r rs)
    have "set (map fst (?l r)) \<inter> set (map fst (?l q)) = {}" if q: "q \<in> set rs" for q
    proof (rule ccontr)
      assume "set (map fst (?l r)) \<inter> set (map fst (?l q)) \<noteq> {}"
      then obtain g where "above (dpar (gs_view s)) g r" "above (dpar (gs_view s)) g q" using mem by blast
      moreover have "dpar (gs_view s) r = None" "dpar (gs_view s) q = None"
        using Cons.prems q root_ids_iff [OF i] by auto
      ultimately have "r = q" by (rule root_unique)
      with Cons.prems q show False by simp
    qed
    moreover have "distinct (map fst (?l r))"
      by (rule sorted_tree.levels_distinct [OF i sorted_tree.shallow_height [OF i]])
    ultimately show ?case using Cons by (simp add: Int_UN_distrib)
  qed simp
  from this [OF root_ids_distinct [OF i]] show ?thesis by (simp add: tree_rows_def map_concat comp_def)
qed

end
