(* ===== verification/Group_Properties.thy ===== *)
theory Group_Properties
  imports Group_Console
begin

text \<open>
  The properties of the group store and its judge, over every state that operations, faults and
  restarts can lead to, and a small organisation on which they are exercised.
\<close>

subsection \<open>A concrete organisation\<close>

definition demo_groups :: "group list" where
  "demo_groups = [\<lparr>g_ID = ''g1'', g_Name = ''org'', g_ParentID = [], g_CreatedAt = ''t''\<rparr>,
     \<lparr>g_ID = ''g2'', g_Name = ''eng'', g_ParentID = ''g1'', g_CreatedAt = ''t''\<rparr>]"

definition demo_memberships :: "membership list" where
  "demo_memberships = [\<lparr>mb_User = ''a@x'', mb_GroupID = ''g1'', mb_Role = RoleWrite, mb_GrantedBy = ''o'', mb_GrantedAt = ''t''\<rparr>,
     \<lparr>mb_User = ''b@x'', mb_GroupID = ''g1'', mb_Role = RoleRead, mb_GrantedBy = ''o'', mb_GrantedAt = ''t''\<rparr>]"

definition demo_exclusions :: "read_exclusion list" where
  "demo_exclusions = [\<lparr>ex_User = ''b@x'', ex_GroupID = ''g2'', ex_RemovedBy = ''o'', ex_RemovedAt = ''t''\<rparr>]"

definition demo_db :: groups_db where
  "demo_db = \<lparr>t_groups = demo_groups, t_memberships = demo_memberships, t_exclusions = demo_exclusions\<rparr>"

definition demo_org :: group_store where
  "demo_org = snd (groups_LoadFromDB (Some demo_db) groups_NewStore)"

definition demo_view :: directory where
  "demo_view = \<lparr>d_group = tab g_ID demo_groups, d_member = (\<lambda>u i. tab mb_key demo_memberships (u, i)),
     d_excl = (\<lambda>u i. tab ex_key demo_exclusions (u, i)), d_valid = (\<lambda>u. validateUserEmail u = None)\<rparr>"

lemma demo_addresses: "validateUserEmail ''a@x'' = None" "validateUserEmail ''b@x'' = None"
  by (simp_all add: validateUserEmail_def blank_def runes_def decode_rune_def is_space_def at_sign_def
      last_index_byte_def contains_any_def ws_chars_def Let_def)

lemma demo_group: "d_group demo_view i = (if i = ''g1'' then Some (demo_groups ! 0) else if i = ''g2'' then Some (demo_groups ! 1) else None)"
  by (simp add: demo_view_def tab_def demo_groups_def)

lemma demo_member: "d_member demo_view u i = (if u = ''a@x'' \<and> i = ''g1'' then Some (demo_memberships ! 0)
    else if u = ''b@x'' \<and> i = ''g1'' then Some (demo_memberships ! 1) else None)"
  by (simp add: demo_view_def tab_def demo_memberships_def mb_key_def)

lemma demo_excl: "d_excl demo_view u i = (if u = ''b@x'' \<and> i = ''g2'' then Some (demo_exclusions ! 0) else None)"
  by (simp add: demo_view_def tab_def demo_exclusions_def ex_key_def)

lemma demo_par: "dpar demo_view = (\<lambda>i. if i = ''g2'' then Some ''g1'' else None)"
  by (auto simp: fun_eq_iff dpar_def demo_group demo_groups_def)

lemma demo_valid: "d_valid demo_view u \<longleftrightarrow> validateUserEmail u = None"
  by (simp add: demo_view_def)

lemma demo_dir: "dir_ok demo_view"
proof -
  have "dir_tree demo_view"
    by (simp add: dir_tree_def demo_par demo_group MaxTreeDepth_def numeral_eq_Suc)
  moreover have "dir_groups demo_view" by (auto simp: dir_groups_def demo_group demo_groups_def group_check_def)
  moreover have "dir_names demo_view" by (auto simp: dir_names_def demo_group demo_groups_def split: if_splits)
  moreover have "dir_members demo_view"
    by (auto simp: dir_members_def demo_member demo_group demo_memberships_def mb_key_def Role_Valid_iff demo_valid demo_addresses split: if_splits)
  moreover have "dir_excl demo_view"
    by (auto simp: dir_excl_def demo_excl demo_member demo_group demo_exclusions_def ex_key_def demo_valid demo_addresses split: if_splits)
  ultimately show ?thesis by (simp add: dir_ok_def)
qed

lemma demo_agree: "db_agree demo_view demo_db"
  by (simp add: db_agree_def demo_view_def demo_db_def keyed_def demo_groups_def demo_memberships_def demo_exclusions_def
      mb_key_def ex_key_def)

lemma demo_live: "groups_live demo_org \<and> gs_view demo_org = demo_view"
  using groups_load [OF demo_dir demo_agree, of groups_NewStore]
  by (auto simp: demo_org_def groups_live_def demo_valid groups_NewStore_def validatePersonKey_def)

lemma demo_above: "above (dpar demo_view) i a \<longleftrightarrow> a = i \<or> i = ''g2'' \<and> a = ''g1''"
proof -
  have root: "above (dpar demo_view) j a \<longleftrightarrow> a = j" if "j \<noteq> ''g2''" for j a
    using that by (subst above_from) (simp add: demo_par)
  show ?thesis
  proof (cases "i = ''g2''")
    case True
    then have p: "dpar demo_view i = Some ''g1''" by (simp add: demo_par)
    show ?thesis unfolding above_from [of _ i a] p using True by (auto simp: root)
  qed (simp add: root)
qed

subsection \<open>What success means\<close>

lemma persist_Inr_ok: "groups_live s \<Longrightarrow> groups_persist f fn s = Inr db \<Longrightarrow> f = TxOk"
  by (auto simp: groups_live_def groups_persist_def run_tx_Inr_iff split: sum.splits)

text \<open>A step whose commit failed has not succeeded; what succeeds without one does not depend on the database.\<close>

lemma persist_fst:
  assumes "groups_live s" "f \<noteq> TxOk"
  shows "fst (case groups_persist f fn s of Inl e \<Rightarrow> (Inl e, s) | Inr db \<Rightarrow> (Inr (x db), t db)) \<noteq> Inr y"
  using persist_Inr_ok [OF assms(1), of f fn] assms(2) by (cases "groups_persist f fn s") auto

text \<open>An operation that succeeds has done what the specification says.\<close>

lemma Revoke_success:
  assumes l: "groups_live s" and r: "fst (Revoke f now u ref by s) = Inr x"
  shows "gs_view (snd (Revoke f now u ref by s)) = dir_spec (GRevoke now u ref by) (gs_view s)"
proof (cases "f = TxOk")
  case True
  with Revoke_refines [OF l, of f now u ref "by"] show ?thesis by (simp add: g_refines_def)
next
  case False
  note no = persist_fst [OF l False]
  have "Revoke f now u ref by s = Revoke TxOk now u ref by s"
  proof (cases "validatePersonKey s u")
    case None
    show ?thesis
    proof (cases "resolveLocked s ref")
      case (Inr p)
      let ?i = "g_ID (gs_heap s ! p)"
      show ?thesis
      proof (cases "\<not> lookup2 (gs_memberships s) u ?i \<noteq> None \<and>
          \<not> (\<not> isExcludedLocked s u ?i \<and> reachesByInheritanceLocked s u ?i ?i)")
        case True
        with None Inr show ?thesis by (simp add: Revoke_def Let_def)
      next
        case False
        then have "fst (Revoke f now u ref by s) \<noteq> Inr x"
          unfolding Revoke_def Let_def None Inr option.case sum.case by (simp only: if_False no not_False_eq_True)
        with r show ?thesis by simp
      qed
    qed (use None in \<open>simp add: Revoke_def\<close>)
  qed (simp add: Revoke_def)
  with Revoke_refines [OF l, of TxOk now u ref "by"] show ?thesis by (simp add: g_refines_def)
qed

lemma ExcludeRead_success:
  assumes l: "groups_live s" and r: "fst (ExcludeRead f now u ref by s) = Inr x"
  shows "gs_view (snd (ExcludeRead f now u ref by s)) = dir_spec (GExclude now u ref by) (gs_view s)"
proof (cases "f = TxOk")
  case True
  with ExcludeRead_refines [OF l, of f now u ref "by"] show ?thesis by (simp add: g_refines_def)
next
  case False
  note no = persist_fst [OF l False]
  have "ExcludeRead f now u ref by s = ExcludeRead TxOk now u ref by s"
  proof (cases "validatePersonKey s u")
    case None
    show ?thesis
    proof (cases "resolveLocked s ref")
      case (Inr p)
      with None r show ?thesis by (simp add: ExcludeRead_def Let_def no split: if_splits)
    qed (use None in \<open>simp add: ExcludeRead_def\<close>)
  qed (simp add: ExcludeRead_def)
  with ExcludeRead_refines [OF l, of TxOk now u ref "by"] show ?thesis by (simp add: g_refines_def)
qed

lemma Grant_success:
  assumes l: "groups_live s" and r: "fst (Grant f now u ref role by s) = Inr x"
  shows "f = TxOk \<and> gs_view (snd (Grant f now u ref role by s)) = dir_spec (GGrant now u ref role by) (gs_view s)"
proof -
  have "f = TxOk"
    using r persist_Inr_ok [OF l] unfolding Grant_def Let_def
    by (auto split: option.splits sum.splits if_splits)
  with Grant_refines [OF l, of f now u ref role "by"] show ?thesis by (simp add: g_refines_def)
qed

lemma step_live: "groups_live s \<Longrightarrow> g_refines f op s s' \<Longrightarrow> groups_live s'"
  by (simp add: g_refines_def groups_live_def)

text \<open>Scopes depend on the directory only.\<close>

lemma RecallScope_view:
  assumes "groups_inv s" "groups_inv s'" "gs_view s' = gs_view s"
  shows "RecallScope s' u = RecallScope s u"
proof -
  have "set (RecallScope s' u) = set (RecallScope s u)"
    using RecallScope_set [OF assms(1), of u] RecallScope_set [OF assms(2), of u] assms(3) by simp
  then show ?thesis
    using RecallScope_set [OF assms(1), of u] RecallScope_set [OF assms(2), of u]
    by (metis sorted_distinct_set_unique)
qed

lemma effectiveRole_view:
  assumes "groups_inv s" "groups_inv s'" "gs_view s' = gs_view s"
  shows "effectiveRoleLocked s' u g = effectiveRoleLocked s u g"
proof -
  have "effectiveRoleLocked s' u g = Some r \<longleftrightarrow> effectiveRoleLocked s u g = Some r" for r
    using effectiveRole_iff [OF assms(1), of u g r] effectiveRole_iff [OF assms(2), of u g r] assms(3) by simp
  then show ?thesis by (metis option.exhaust)
qed

lemma resolve_of_view:
  assumes i: "groups_inv s"
  shows "v_resolve (gs_view s) ref = (case resolveLocked s ref of Inl _ \<Rightarrow> None | Inr p \<Rightarrow> Some (g_ID (gs_heap s ! p)))"
  using resolve_Inr [OF i, of ref] resolve_Inl [OF i, of ref] by (cases "resolveLocked s ref") simp_all

lemma EffectiveRole_resolve:
  "groups_inv s \<Longrightarrow> EffectiveRole s u ref = (case v_resolve (gs_view s) ref of None \<Rightarrow> None | Some i \<Rightarrow> effectiveRoleLocked s u i)"
  by (simp add: resolve_of_view EffectiveRole_def split: sum.split)

subsection \<open>Access after a change\<close>

text \<open>Taking a grant away from one group touches only what is read through it.\<close>

lemma may_read_revoke_other:
  assumes "\<not> above (dpar v) j i"
  shows "may_read (v_revoke u i v) x j \<longleftrightarrow> may_read v x j"
proof -
  have a: "a \<noteq> i" if "above (dpar v) j a" for a using that assms by auto
  have "j \<noteq> i" using assms by auto
  then have "d_member (v_revoke u i v) x j = d_member v x j" by (simp add: v_revoke_def)
  moreover have "d_member (v_revoke u i v) x a = d_member v x a" if "above (dpar v) j a" for a
    using a [OF that] by (simp add: v_revoke_def)
  then have "v_inherits (v_revoke u i v) x j \<longleftrightarrow> v_inherits v x j" by (auto simp: v_inherits_def)
  moreover have "d_excl (v_revoke u i v) x j = d_excl v x j" by (simp add: v_revoke_def)
  ultimately show ?thesis by (simp add: may_read_def)
qed

lemma v_exclude_sel: "d_member (v_exclude e v) = d_member v"
  "d_excl (v_exclude e v) x j = (if (x, j) = ex_key e then Some e else d_excl v x j)"
  by (simp_all add: v_exclude_def)

lemma may_read_exclude:
  "may_read (v_exclude e v) x j \<longleftrightarrow> (if (x, j) = ex_key e then d_member v x j \<noteq> None else may_read v x j)"
  by (auto simp: may_read_def v_inherits_def v_exclude_sel)

lemma may_read_user_other: "x \<noteq> u \<Longrightarrow> may_read (v_revoke u i v) x j \<longleftrightarrow> may_read v x j"
proof -
  assume x: "x \<noteq> u"
  then have "d_member (v_revoke u i v) x a = d_member v x a" for a by (simp add: v_revoke_def)
  moreover have "d_excl (v_revoke u i v) x a = d_excl v x a" for a by (simp add: v_revoke_def)
  ultimately show ?thesis by (simp add: may_read_def v_inherits_def)
qed

lemma excl_row_key [simp]: "ex_key (excl_row now u i b) = (u, i)"
  by (simp add: excl_row_def ex_key_def)

lemma revoke_view:
  assumes v: "d_valid v u" and r: "v_resolve v ref = Some i" and v': "v' = dir_spec (GRevoke now u ref b) v"
  shows "\<not> may_read v' u i" "\<not> above (dpar v) j i \<Longrightarrow> may_read v' x j \<longleftrightarrow> may_read v x j"
    "x \<noteq> u \<Longrightarrow> may_read v' x j \<longleftrightarrow> may_read v x j"
proof -
  have v'': "v' = (if d_excl v u i = None \<and> v_inherits v u i then v_exclude (excl_row now u i b) (v_revoke u i v) else v_revoke u i v)"
    using v r by (simp add: v' dir_spec.simps)
  have m: "d_member (v_revoke u i v) u i = None" "d_excl (v_revoke u i v) u i = d_excl v u i" by (simp_all add: v_revoke_def)
  show "\<not> may_read v' u i"
  proof (cases "d_excl v u i = None \<and> v_inherits v u i")
    case True
    then show ?thesis using m by (simp add: v'' may_read_exclude)
  next
    case False
    then show ?thesis using m by (auto simp: v'' may_read_def)
  qed
  show "\<not> above (dpar v) j i \<Longrightarrow> may_read v' x j \<longleftrightarrow> may_read v x j"
    by (auto simp: v'' may_read_exclude may_read_revoke_other)
  show "x \<noteq> u \<Longrightarrow> may_read v' x j \<longleftrightarrow> may_read v x j"
    by (simp add: v'' may_read_exclude may_read_user_other)
qed

lemma Revoke_valid: "fst (Revoke f now u ref b s) = Inr x \<Longrightarrow> validatePersonKey s u = None"
  by (cases "validatePersonKey s u") (simp_all add: Revoke_def)

text \<open>With a healthy database and a valid user, \<open>Revoke\<close> on an existing group succeeds.\<close>

lemma groups_persist_ok: "gs_db s = Some d \<Longrightarrow> fn d = Inr d' \<Longrightarrow> groups_persist TxOk fn s = Inr (Some d')"
  by (simp add: groups_persist_def)

lemma Revoke_reports:
  assumes l: "groups_live s" and u: "validatePersonKey s u = None" and p: "resolveLocked s ref = Inr p"
  shows "\<exists>x. fst (Revoke TxOk now u ref b s) = Inr x"
proof -
  define i where "i = g_ID (gs_heap s ! p)"
  obtain d where d: "gs_db s = Some d" "db_agree (gs_view s) d" using live_db [OF l] by blast
  define need where "need \<longleftrightarrow> \<not> isExcludedLocked s u i \<and> reachesByInheritanceLocked s u i i"
  have g: "grp s i \<noteq> None" using resolve_live [OF l p] by (simp add: i_def)
  obtain d' where "then_sql (if lookup2 (gs_memberships s) u i \<noteq> None then exec_delete_memberships (\<lambda>m. mb_key m = (u, i)) 1 d else Inr d)
      (\<lambda>db. if need then exec_insert_exclusion (excl_row now u i b) db else Inr db) = Inr d'"
    using db_revoke_exclude [OF live_dir [OF l] d(2), of i "excl_row now u i b" u need] g
    by (auto simp: need_def isExcludedLocked_def excl_row_def)
  then have "groups_persist TxOk (\<lambda>d. then_sql (if lookup2 (gs_memberships s) u i \<noteq> None
        then exec_delete_memberships (\<lambda>m. mb_key m = (u, i)) 1 d else Inr d)
      (\<lambda>db. if need then exec_insert_exclusion (excl_row now u i b) db else Inr db)) s = Inr (Some d')"
    by (rule groups_persist_ok [OF d(1)])
  then show ?thesis
    using u unfolding Revoke_def Let_def need_def i_def excl_row_def
    by (simp add: p) blast
qed

lemma scope_mem: "groups_inv s \<Longrightarrow> g \<in> set (RecallScope s u) \<longleftrightarrow> may_read (gs_view s) u g"
  using RecallScope_set [of s u] by simp

lemma scope_eq:
  assumes "groups_inv s" "groups_inv s'" "\<And>g. may_read (gs_view s') u' g \<longleftrightarrow> may_read (gs_view s) u g"
  shows "RecallScope s' u' = RecallScope s u"
  using RecallScope_set [OF assms(1), of u] RecallScope_set [OF assms(2), of u'] assms(3)
  by (metis (no_types, lifting) Collect_cong sorted_distinct_set_unique)

subsection \<open>Properties\<close>

abbreviation groups_run :: "(tx_fault \<times> group_op) event list \<Rightarrow> group_store \<Rightarrow> group_store" where
  "groups_run \<equiv> fold (run_event groups_step groups_restart)"

text \<open>
  C12. The group store refines its directory: whatever faults strike its transactions and whenever
  the process restarts, the groups, memberships and exclusions that readers see are those that
  the specification gives for some of the requested operations, in their order; with a healthy
  database, for all of them. In particular the tree stays a forest of at most eight levels with
  sibling-unique names, and memberships and exclusions stay on existing groups.
\<close>

theorem groups_refine_directory:
  assumes "groups_live s"
  shows "(\<exists>ops. subseq ops (event_ops es) \<and>
            gs_view (groups_run es s) = fold (\<lambda>fo. dir_spec (snd fo)) ops (gs_view s)) \<and>
         (list_all (\<lambda>fo. fst fo = TxOk) (event_ops es) \<longrightarrow>
            gs_view (groups_run es s) = fold (\<lambda>fo. dir_spec (snd fo)) (event_ops es) (gs_view s)) \<and>
         dir_ok (gs_view (groups_run es s))"
  using teams.run_refines [OF assms] teams.run_healthy [OF assms] live_dir [OF teams.run_inv [OF assms]] by blast

theorem groups_refine_directory_witness:
  "dir_ok (gs_view (groups_run [Do (TxCommitErr, GRemoveUser ''a@x''), Restart, Do (TxOk, GRevokeDirect ''a@x'' ''g1'')] demo_org)) \<and>
   gs_view (groups_run [Do (TxOk, GRevokeDirect ''a@x'' ''g1'')] demo_org) = dir_spec (GRevokeDirect ''a@x'' ''g1'') demo_view"
  using groups_refine_directory [of demo_org "[Do (TxCommitErr, GRemoveUser ''a@x''), Restart, Do (TxOk, GRevokeDirect ''a@x'' ''g1'')]"]
    groups_refine_directory [of demo_org "[Do (TxOk, GRevokeDirect ''a@x'' ''g1'')]"] demo_live
  by (simp del: groups_step.simps)

text \<open>
  C11. The recall scope, computed by collecting subtrees downwards, is exactly the set of groups on
  which the user has an effective role, computed by walking the parents upwards; it is sorted and
  without repetitions. A group is in it when the user holds it directly, or holds a group above it
  and has no exclusion on it.
\<close>

theorem recall_scope_is_effective_role:
  assumes "groups_live s"
  shows "set (RecallScope s u) = {g. grp s g \<noteq> None \<and> EffectiveRole s u g \<noteq> None} \<and>
    set (RecallScope s u) = {g. lookup2 (gs_memberships s) u g \<noteq> None \<or> lookup2 (gs_excluded s) u g = None \<and>
      (\<exists>a. a \<noteq> g \<and> above (dpar (gs_view s)) g a \<and> lookup2 (gs_memberships s) u a \<noteq> None)} \<and>
    sorted (RecallScope s u) \<and> distinct (RecallScope s u)"
proof -
  have i: "groups_inv s" by (rule live_inv [OF assms])
  have "may_read (gs_view s) u g \<longleftrightarrow> grp s g \<noteq> None \<and> EffectiveRole s u g \<noteq> None" for g
    using may_read_group [OF inv_dir [OF i], of u g] EffectiveRole_id [of s g u] i effectiveRole_None [OF i, of u g] by auto
  with RecallScope_set [OF i, of u] show ?thesis by (simp add: may_read_def v_inherits_def)
qed

theorem recall_scope_is_effective_role_witness:
  "set (RecallScope demo_org ''a@x'') = {g. grp demo_org g \<noteq> None \<and> EffectiveRole demo_org ''a@x'' g \<noteq> None} \<and>
   ''g2'' \<in> set (RecallScope demo_org ''a@x'') \<and> ''g2'' \<notin> set (RecallScope demo_org ''b@x'')"
proof -
  have v: "lookup2 (gs_memberships demo_org) = d_member demo_view" "lookup2 (gs_excluded demo_org) = d_excl demo_view"
    "gs_view demo_org = demo_view" using demo_live by (metis gs_view_sel)+
  note a = recall_scope_is_effective_role [of demo_org "''a@x''", OF demo_live [THEN conjunct1]]
  note b = recall_scope_is_effective_role [of demo_org "''b@x''", OF demo_live [THEN conjunct1]]
  have "''g2'' \<in> set (RecallScope demo_org ''a@x'')"
    unfolding a [THEN conjunct2, THEN conjunct1] v by (simp add: demo_member demo_excl demo_above)
  moreover have "''g2'' \<notin> set (RecallScope demo_org ''b@x'')"
    unfolding b [THEN conjunct2, THEN conjunct1] v by (simp add: demo_member demo_excl)
  ultimately show ?thesis using a by blast
qed

text \<open>
  The effective role is the highest role the user holds on the group or on any group above it.
\<close>

theorem effective_role_is_highest:
  assumes "groups_live s" "EffectiveRole s u ref = Some r"
  shows "\<exists>g. v_resolve (gs_view s) ref = Some g \<and>
    (\<exists>a m. above (dpar (gs_view s)) g a \<and> lookup2 (gs_memberships s) u a = Some m \<and> mb_Role m = r) \<and>
    (\<forall>a m. above (dpar (gs_view s)) g a \<longrightarrow> lookup2 (gs_memberships s) u a = Some m \<longrightarrow> Rank (mb_Role m) \<le> Rank r)"
proof -
  have i: "groups_inv s" by (rule live_inv [OF assms(1)])
  from assms(2) obtain g where g: "v_resolve (gs_view s) ref = Some g" "effectiveRoleLocked s u g = Some r"
    by (auto simp: EffectiveRole_resolve [OF i] split: option.splits)
  with effectiveRole_iff [OF i, of u g r] show ?thesis by (auto simp: granted_above_def)
qed

theorem effective_role_is_highest_witness:
  "\<exists>a m. above (dpar (gs_view demo_org)) ''g2'' a \<and> lookup2 (gs_memberships demo_org) ''a@x'' a = Some m \<and> mb_Role m = RoleWrite"
proof -
  have l: "groups_live demo_org" "gs_view demo_org = demo_view" using demo_live by simp_all
  have res: "v_resolve demo_view ''g2'' = Some ''g2''" by (simp add: v_resolve_def demo_group)
  have "effectiveRoleLocked demo_org ''a@x'' ''g2'' = Some RoleWrite"
    unfolding effectiveRole_iff [OF live_inv [OF l(1)]] l(2)
    by (auto simp: may_read_def v_inherits_def granted_above_def demo_above demo_member demo_excl demo_memberships_def split: if_splits)
  then have "EffectiveRole demo_org ''a@x'' ''g2'' = Some RoleWrite"
    by (simp add: EffectiveRole_resolve [OF live_inv [OF l(1)]] l(2) res)
  from effective_role_is_highest [OF l(1) this] show ?thesis by (simp add: l(2) res)
qed

text \<open>
  C28. Revoking cuts access for good: after a \<open>Revoke\<close> that succeeded, the group is out of the
  user's recall scope and gives no effective role, also when the user is a member above it, and a
  restart does not bring it back. Groups that are not below it, and other users, are unaffected.
\<close>

theorem revoke_cuts_access:
  assumes l: "groups_live s" and ok: "fst (Revoke f now u ref b s) = Inr x"
    and r: "v_resolve (gs_view s) ref = Some i" and s': "s' = snd (Revoke f now u ref b s)"
  shows "i \<notin> set (RecallScope s' u) \<and> EffectiveRole s' u i = None \<and> i \<notin> set (RecallScope (groups_restart s') u) \<and>
    (\<forall>j. \<not> above (dpar (gs_view s)) j i \<longrightarrow> (j \<in> set (RecallScope s' u) \<longleftrightarrow> j \<in> set (RecallScope s u))) \<and>
    (\<forall>u'. u' \<noteq> u \<longrightarrow> RecallScope s' u' = RecallScope s u')"
proof -
  have l': "groups_live s'" unfolding s' by (rule step_live [OF l Revoke_refines [OF l]])
  note i = live_inv [OF l] and i' = live_inv [OF l']
  have v: "d_valid (gs_view s) u" using Revoke_valid [OF ok] by simp
  have v': "gs_view s' = dir_spec (GRevoke now u ref b) (gs_view s)" unfolding s' by (rule Revoke_success [OF l ok])
  note rv = revoke_view [OF v r v']
  have "effectiveRoleLocked s' u i = None" using rv(1) by (simp add: effectiveRole_None [OF i'])
  then have e: "EffectiveRole s' u i = None"
  proof (cases "grp s' i")
    case None
    show ?thesis
    proof (rule ccontr)
      assume "EffectiveRole s' u i \<noteq> None"
      moreover have "d_group (gs_view s) i \<noteq> None"
        using r resolve_Inr [OF i] resolve_of_view [OF i, of ref] by (auto split: sum.splits)
      moreover have "d_group (gs_view s') = d_group (gs_view s)"
        using v r by (simp add: v' dir_spec.simps v_exclude_def v_revoke_def)
      ultimately show False using None by simp
    qed
  next
    case (Some g)
    with \<open>effectiveRoleLocked s' u i = None\<close> show ?thesis using EffectiveRole_id [of s' i u] i' by simp
  qed
  have "RecallScope (groups_restart s') u = RecallScope s' u"
    using groups_restart_ok [OF l'] by (intro RecallScope_view i') (simp_all add: groups_live_def)
  moreover have "RecallScope s' u' = RecallScope s u'" if "u' \<noteq> u" for u'
    by (rule scope_eq [OF i i']) (rule rv(3) [OF that])
  ultimately show ?thesis using rv e by (simp add: scope_mem [OF i] scope_mem [OF i'])
qed

theorem revoke_cuts_access_witness:
  "''g2'' \<notin> set (RecallScope (snd (Revoke TxOk 0 ''a@x'' ''g2'' ''o'' demo_org)) ''a@x'')"
proof -
  have l: "groups_live demo_org" "gs_view demo_org = demo_view" using demo_live by simp_all
  have res: "v_resolve (gs_view demo_org) ''g2'' = Some ''g2''" by (simp add: l(2) v_resolve_def demo_group)
  have "\<exists>x. fst (Revoke TxOk 0 ''a@x'' ''g2'' ''o'' demo_org) = Inr x"
  proof -
    obtain p where p: "resolveLocked demo_org ''g2'' = Inr p"
      using resolve_Inl [OF live_inv [OF l(1)], of "''g2''"] res by (cases "resolveLocked demo_org ''g2''") auto
    have u: "validatePersonKey demo_org ''a@x'' = None"
      using demo_addresses(1) l(2) by (metis demo_valid gs_view_sel(4))
    show ?thesis by (rule Revoke_reports [OF l(1) u p])
  qed
  then obtain x where "fst (Revoke TxOk 0 ''a@x'' ''g2'' ''o'' demo_org) = Inr x" by blast
  from revoke_cuts_access [OF l(1) this res refl] show ?thesis by blast
qed

text \<open>
  Removing an inherited read takes away one group and nothing else: after an \<open>ExcludeRead\<close> that
  reported a removal, the user's scope has lost exactly that group, its descendants included among
  what stays, and every other user's scope is what it was.
\<close>

theorem exclude_read_removes_one_group:
  assumes l: "groups_live s" and ok: "fst (ExcludeRead f now u ref b s) = Inr True"
    and r: "v_resolve (gs_view s) ref = Some i" and s': "s' = snd (ExcludeRead f now u ref b s)"
  shows "i \<in> set (RecallScope s u) \<and> set (RecallScope s' u) = set (RecallScope s u) - {i} \<and>
    (\<forall>u'. u' \<noteq> u \<longrightarrow> RecallScope s' u' = RecallScope s u')"
proof -
  have l': "groups_live s'" unfolding s' by (rule step_live [OF l ExcludeRead_refines [OF l]])
  note i = live_inv [OF l] and i' = live_inv [OF l']
  obtain p where p: "resolveLocked s ref = Inr p" "g_ID (gs_heap s ! p) = i"
    using r resolve_of_view [OF i, of ref] by (auto split: sum.splits)
  have h: "validatePersonKey s u = None" "lookup2 (gs_memberships s) u i = None" "InheritsRead s u i"
    using ok p by (auto simp: ExcludeRead_def Let_def split: option.splits if_splits)
  then have h': "lookup2 (gs_excluded s) u i = None" "v_inherits (gs_view s) u i"
    using InheritsRead_iff [OF inv_dir [OF i], of u i] by simp_all
  have v': "gs_view s' = v_exclude (excl_row now u i b) (gs_view s)"
    using ExcludeRead_success [OF l ok] h h' r by (simp add: s' dir_spec.simps)
  have m: "may_read (gs_view s') x j \<longleftrightarrow> may_read (gs_view s) x j \<and> (x, j) \<noteq> (u, i)" for x j
    using h(2) by (auto simp: v' may_read_exclude)
  have "RecallScope s' u' = RecallScope s u'" if "u' \<noteq> u" for u'
    by (rule scope_eq [OF i i']) (use m that in simp)
  moreover have "may_read (gs_view s) u i" using h h' by (simp add: may_read_def)
  ultimately show ?thesis using m by (auto simp: scope_mem [OF i] scope_mem [OF i'])
qed

lemma demo_exclude: "fst (ExcludeRead TxOk 0 ''a@x'' ''g2'' ''o'' demo_org) = Inr True"
proof -
  have l: "groups_live demo_org" "gs_view demo_org = demo_view" using demo_live by simp_all
  have res: "v_resolve (gs_view demo_org) ''g2'' = Some ''g2''" by (simp add: l(2) v_resolve_def demo_group)
  then obtain p where p: "resolveLocked demo_org ''g2'' = Inr p" "g_ID (gs_heap demo_org ! p) = ''g2''"
    using resolve_of_view [OF live_inv [OF l(1)], of "''g2''"] by (auto split: sum.splits)
  have v: "lookup2 (gs_memberships demo_org) = d_member demo_view" "lookup2 (gs_excluded demo_org) = d_excl demo_view"
    "grp demo_org = d_group demo_view" using l(2) by (metis gs_view_sel)+
  have u: "validatePersonKey demo_org ''a@x'' = None" using demo_addresses(1) l(2) by (metis demo_valid gs_view_sel(4))
  have n: "lookup2 (gs_memberships demo_org) ''a@x'' ''g2'' = None" by (simp add: v demo_member)
  have "InheritsRead demo_org ''a@x'' ''g2''"
    using InheritsRead_iff [OF live_dir [OF l(1)], of "''a@x''" "''g2''"] n
    by (auto simp: l(2) v demo_excl v_inherits_def demo_above demo_member)
  moreover obtain d where d: "gs_db demo_org = Some d" "db_agree (gs_view demo_org) d" using live_db [OF l(1)] by blast
  obtain d' where d': "exec_insert_exclusion (excl_row 0 ''a@x'' ''g2'' ''o'') d = Inr d'"
    using db_insert_exclusion [OF d(2), of "excl_row 0 ''a@x'' ''g2'' ''o''"]
    by (auto simp: excl_row_def v demo_group demo_excl)
  have "groups_persist TxOk (exec_insert_exclusion (excl_row 0 ''a@x'' ''g2'' ''o'')) demo_org = Inr (Some d')"
    by (rule groups_persist_ok [OF d(1)]) (rule d')
  ultimately show ?thesis using u n p by (simp add: ExcludeRead_def Let_def excl_row_def)
qed

theorem exclude_read_removes_one_group_witness:
  "set (RecallScope (snd (ExcludeRead TxOk 0 ''a@x'' ''g2'' ''o'' demo_org)) ''a@x'') = set (RecallScope demo_org ''a@x'') - {''g2''}"
proof -
  have l: "groups_live demo_org" "gs_view demo_org = demo_view" using demo_live by simp_all
  have res: "v_resolve (gs_view demo_org) ''g2'' = Some ''g2''" by (simp add: l(2) v_resolve_def demo_group)
  from exclude_read_removes_one_group [OF l(1) demo_exclude res refl] show ?thesis by blast
qed

text \<open>
  A grant gives at least its role at once: after a \<open>Grant\<close> that succeeded, the user holds the
  group directly with that role, the effective role there is no lower, any exclusion of the group
  is gone, and the time of joining is the one of an earlier membership if there was one.
\<close>

theorem grant_gives_role:
  assumes l: "groups_live s" and ok: "fst (Grant f now u ref role b s) = Inr m"
    and r: "v_resolve (gs_view s) ref = Some i" and s': "s' = snd (Grant f now u ref role b s)"
  shows "lookup2 (gs_memberships s') u i = Some m \<and> mb_Role m = role \<and> lookup2 (gs_excluded s') u i = None \<and>
    i \<in> set (RecallScope s' u) \<and> (\<exists>r'. EffectiveRole s' u i = Some r' \<and> Rank role \<le> Rank r') \<and>
    (\<forall>prev. lookup2 (gs_memberships s) u i = Some prev \<longrightarrow> mb_GrantedAt m = mb_GrantedAt prev)"
proof -
  have l': "groups_live s'" unfolding s' by (rule step_live [OF l Grant_refines [OF l]])
  note i = live_inv [OF l] and i' = live_inv [OF l']
  obtain p where p: "resolveLocked s ref = Inr p" "g_ID (gs_heap s ! p) = i"
    using r resolve_of_view [OF i, of ref] by (auto split: sum.splits)
  have h: "validatePersonKey s u = None" "Role_Valid role" "m = grant_row now u i role b (gs_view s)"
    using ok p by (auto simp: Grant_def Let_def grant_row_def split: option.splits sum.splits if_splits)
  have v': "gs_view s' = v_grant m (gs_view s)"
    using Grant_success [OF l ok, THEN conjunct2] h r by (simp add: s' dir_spec.simps)
  have m: "lookup2 (gs_memberships s') u i = Some m" "lookup2 (gs_excluded s') u i = None"
    using arg_cong [OF v', of d_member] arg_cong [OF v', of d_excl]
    by (simp_all add: v_grant_def h(3) grant_row_def mb_key_def)
  then have mr: "may_read (gs_view s') u i" by (simp add: may_read_def)
  then obtain r' where r': "effectiveRoleLocked s' u i = Some r'" using effectiveRole_None [OF i', of u i] by auto
  moreover have "mb_Role m \<in> granted_above (gs_view s') u i" using m by (auto simp: granted_above_def)
  ultimately have "Rank (mb_Role m) \<le> Rank r'" using effectiveRole_iff [OF i', of u i r'] by auto
  moreover have "grp s' i \<noteq> None" using may_read_group [OF inv_dir [OF i'] mr] by simp
  ultimately show ?thesis
    using m mr r' EffectiveRole_id [of s' i u] i' by (simp add: scope_mem h(3) grant_row_def)
qed

lemma demo_grant: "\<exists>m. fst (Grant TxOk 0 ''b@x'' ''g2'' RoleEdit ''o'' demo_org) = Inr m"
proof -
  have l: "groups_live demo_org" "gs_view demo_org = demo_view" using demo_live by simp_all
  have res: "v_resolve (gs_view demo_org) ''g2'' = Some ''g2''" by (simp add: l(2) v_resolve_def demo_group)
  then obtain p where p: "resolveLocked demo_org ''g2'' = Inr p" "g_ID (gs_heap demo_org ! p) = ''g2''"
    using resolve_of_view [OF live_inv [OF l(1)], of "''g2''"] by (auto split: sum.splits)
  have v: "lookup2 (gs_memberships demo_org) = d_member demo_view" "grp demo_org = d_group demo_view"
    using l(2) by (metis gs_view_sel)+
  have u: "validatePersonKey demo_org ''b@x'' = None" using demo_addresses(2) l(2) by (metis demo_valid gs_view_sel(4))
  obtain d where d: "gs_db demo_org = Some d" "db_agree (gs_view demo_org) d" using live_db [OF l(1)] by blast
  let ?m = "\<lparr>mb_User = ''b@x'', mb_GroupID = ''g2'', mb_Role = RoleEdit, mb_GrantedBy = ''o'', mb_GrantedAt = FormatTime 0\<rparr>"
  obtain d' where d': "exec_upsert_membership ?m d = Inr d'"
    using db_upsert [OF live_dir [OF l(1)] d(2), of ?m] by (auto simp: v demo_member demo_group Role_Valid_iff)
  have "groups_persist TxOk (\<lambda>d. then_sql (exec_upsert_membership ?m d)
      (\<lambda>d. Inr (snd (sql_delete_exclusions (\<lambda>e. ex_key e = (''b@x'', ''g2'')) d)))) demo_org =
      Inr (Some (snd (sql_delete_exclusions (\<lambda>e. ex_key e = (''b@x'', ''g2'')) d')))"
    by (rule groups_persist_ok [OF d(1)]) (simp add: d')
  then show ?thesis
    using u p by (simp add: Grant_def Let_def Role_Valid_iff v demo_member)
qed

theorem grant_gives_role_witness:
  "\<exists>r'. EffectiveRole (snd (Grant TxOk 0 ''b@x'' ''g2'' RoleEdit ''o'' demo_org)) ''b@x'' ''g2'' = Some r' \<and> Rank RoleEdit \<le> Rank r'"
proof -
  have l: "groups_live demo_org" "gs_view demo_org = demo_view" using demo_live by simp_all
  have res: "v_resolve (gs_view demo_org) ''g2'' = Some ''g2''" by (simp add: l(2) v_resolve_def demo_group)
  obtain m where "fst (Grant TxOk 0 ''b@x'' ''g2'' RoleEdit ''o'' demo_org) = Inr m" using demo_grant by blast
  from grant_gives_role [OF l(1) this res refl] show ?thesis by blast
qed

text \<open>
  Captured memory never leaks downwards: the tags of a capture are groups the author holds
  directly with at least the write role; without an explicit selection they are the top-most of
  those, so that no tag lies below another group the author writes to, and every such group is
  covered by a tag at or above it. With a selection they are exactly the selected groups.
\<close>

theorem capture_tags_do_not_leak:
  assumes l: "groups_live s" and ok: "CaptureTagSet s u requested = Inr tags"
  shows "tags \<noteq> [] \<and> sorted tags \<and> distinct tags \<and>
    (\<forall>t \<in> set tags. \<exists>m. lookup2 (gs_memberships s) u t = Some m \<and> AtLeast (mb_Role m) RoleWrite) \<and>
    (if requested = []
     then (\<forall>t \<in> set tags. \<forall>a. a \<noteq> t \<longrightarrow> above (dpar (gs_view s)) t a \<longrightarrow> a \<notin> set (CaptureTargets s u)) \<and>
          (\<forall>g \<in> set (CaptureTargets s u). \<exists>t \<in> set tags. above (dpar (gs_view s)) g t)
     else set tags = {g. \<exists>ref \<in> set requested. v_resolve (gs_view s) ref = Some g})"
proof -
  note i = live_inv [OF l]
  have ct: "set (CaptureTargets s u) = {g. can_write (gs_view s) u g}"
    using directWrite_set [OF i, of u] by (simp add: CaptureTargets_def)
  show ?thesis
  proof (cases "requested = []")
    case True
    then have t: "tags = topMostDirectWriteLocked s u" "tags \<noteq> []"
      using ok by (auto simp: CaptureTagSet_def Let_def split: if_splits)
    have st: "set tags = {g. top_write (gs_view s) u g}" "sorted tags" "distinct tags"
      using topMost_set [OF i, of u] by (simp_all add: t(1))
    have "\<exists>t \<in> set tags. above (dpar (gs_view s)) g t" if "can_write (gs_view s) u g" for g
      using top_write_above [OF inv_dir [OF i] that] st(1) by auto
    with True t st ct show ?thesis by (auto simp: top_write_def can_write_def)
  next
    case False
    then obtain out where out: "request_loop s u requested [] = Inr out" "tags = sort out"
      using ok by (auto simp: CaptureTagSet_def split: sum.splits)
    note q = request_loop_Inr [OF i out(1)]
    from False obtain r0 where r0: "r0 \<in> set requested" by (cases requested) auto
    have st: "set tags = {g. \<exists>ref \<in> set requested. v_resolve (gs_view s) ref = Some g}"
      using q by (simp add: out(2))
    from q r0 obtain g0 where "v_resolve (gs_view s) r0 = Some g0" by blast
    with r0 have "g0 \<in> set tags" unfolding st by blast
    then have "tags \<noteq> []" by auto
    moreover have "can_write (gs_view s) u g" if "g \<in> set tags" for g using that q st by auto
    ultimately show ?thesis using False q st by (auto simp: out(2) can_write_def)
  qed
qed

lemma demo_capture: "CaptureTagSet demo_org ''a@x'' [] = Inr [''g1'']"
proof -
  have l: "groups_live demo_org" "gs_view demo_org = demo_view" using demo_live by simp_all
  have w: "can_write demo_view ''a@x'' g \<longleftrightarrow> g = ''g1''" for g
    by (auto simp: can_write_def demo_member demo_memberships_def AtLeast_def split: if_splits)
  have "top_write demo_view ''a@x'' g \<longleftrightarrow> g = ''g1''" for g by (auto simp: top_write_def w demo_above)
  then have "set (topMostDirectWriteLocked demo_org ''a@x'') = {''g1''}" "distinct (topMostDirectWriteLocked demo_org ''a@x'')"
    using topMost_set [OF live_inv [OF l(1)], of "''a@x''"] l(2) by auto
  then have "topMostDirectWriteLocked demo_org ''a@x'' = [''g1'']" by (simp add: set_singleton_distinct)
  then show ?thesis by (simp add: CaptureTagSet_def)
qed

theorem capture_tags_do_not_leak_witness:
  "\<exists>m. lookup2 (gs_memberships demo_org) ''a@x'' ''g1'' = Some m \<and> AtLeast (mb_Role m) RoleWrite"
  using capture_tags_do_not_leak [OF demo_live [THEN conjunct1] demo_capture] by simp

text \<open>
  Automatic capture is refused exactly to those who hold no group with the write role.
\<close>

theorem capture_denied_iff_no_write_group:
  assumes l: "groups_live s"
  shows "CaptureTagSet s u [] = Inl (ErrNoWriteGroup u) \<longleftrightarrow> CaptureTargets s u = []"
proof -
  note i = live_inv [OF l]
  have ct: "set (CaptureTargets s u) = {g. can_write (gs_view s) u g}"
    using directWrite_set [OF i, of u] by (simp add: CaptureTargets_def)
  have "topMostDirectWriteLocked s u = [] \<longleftrightarrow> CaptureTargets s u = []"
  proof -
    have "topMostDirectWriteLocked s u = [] \<longleftrightarrow> {g. top_write (gs_view s) u g} = {}"
      using topMost_set [OF i, of u] by (metis set_empty)
    also have "\<dots> \<longleftrightarrow> {g. can_write (gs_view s) u g} = {}"
      using top_write_above [OF inv_dir [OF i], of u] unfolding top_write_def by blast
    also have "\<dots> \<longleftrightarrow> CaptureTargets s u = []" using ct by (metis set_empty)
    finally show ?thesis .
  qed
  then show ?thesis by (simp add: CaptureTagSet_def Let_def)
qed

theorem capture_denied_iff_no_write_group_witness:
  "CaptureTagSet demo_org ''b@x'' [] = Inl (ErrNoWriteGroup ''b@x'')"
proof -
  have l: "groups_live demo_org" "gs_view demo_org = demo_view" using demo_live by simp_all
  have "\<not> can_write demo_view ''b@x'' g" for g
    by (auto simp: can_write_def demo_member demo_memberships_def AtLeast_def split: if_splits)
  then have "CaptureTargets demo_org ''b@x'' = []"
    using directWrite_set [OF live_inv [OF l(1)], of "''b@x''"] l(2) by (simp add: CaptureTargets_def)
  with capture_denied_iff_no_write_group [OF l(1), of "''b@x''"] show ?thesis by blast
qed

text \<open>
  The permissions projection tells nothing about groups the caller cannot reach: a reference
  that resolves to no group and a reference to a group with nothing readable below it get the same
  answer, the caller's own memberships and an empty tree.
\<close>

theorem permissions_no_oracle:
  assumes l: "groups_live s" and n: "ref \<noteq> []" "ref' \<noteq> []"
    and none: "v_resolve (gs_view s) ref = None"
    and out: "v_resolve (gs_view s) ref' = Some x" "\<forall>g \<in> set (RecallScope s u). \<not> above (dpar (gs_view s)) g x"
  shows "Permissions s u ref' = Permissions s u ref \<and>
    Permissions s u ref = Inr \<lparr>pv_User = u, pv_Memberships = membership_views s u, pv_Tree = []\<rparr>"
proof -
  note i = live_inv [OF l]
  have "root_scope (gs_view s) ref = {}" using n none by (simp add: root_scope_def)
  moreover have "filter (\<lambda>g. g \<in> root_scope (gs_view s) ref') (RecallScope s u) = []"
    using n out by (simp add: root_scope_def filter_empty_conv)
  ultimately show ?thesis by (simp add: Permissions_eq [OF i])
qed

theorem permissions_no_oracle_witness:
  "Permissions demo_org ''c@x'' ''g2'' = Permissions demo_org ''c@x'' ''nope''"
proof -
  have l: "groups_live demo_org" "gs_view demo_org = demo_view" using demo_live by simp_all
  have v: "v_resolve (gs_view demo_org) ''g2'' = Some ''g2''" by (simp add: l(2) v_resolve_def demo_group)
  have n: "v_resolve (gs_view demo_org) ''nope'' = None"
  proof -
    have "\<not> v_named demo_view ''nope'' j" for j by (simp add: v_named_def demo_group demo_groups_def)
    then have "\<not> (\<exists>!j. v_named demo_view ''nope'' j)" by blast
    then show ?thesis by (simp add: l(2) v_resolve_def demo_group)
  qed
  have "\<not> may_read demo_view ''c@x'' g" for g by (simp add: may_read_def v_inherits_def demo_member)
  then have "g \<notin> set (RecallScope demo_org ''c@x'')" for g
    using scope_mem [OF live_inv [OF l(1)], of g "''c@x''"] by (simp add: l(2))
  then have "\<forall>g \<in> set (RecallScope demo_org ''c@x''). \<not> above (dpar (gs_view demo_org)) g ''g2''" by blast
  from permissions_no_oracle [OF l(1) _ _ n v this] show ?thesis by simp
qed

text \<open>
  C33. Deleting a group fails closed. When the deletion of a group succeeds, however many operations
  ran between its checks and its commit, the engine had answered and reported no record that carries
  the group's tag alone, and at the moment of the commit the group had no child and no member. The
  commit removes that group with its exclusions and nothing else, on disk too.
\<close>

theorem delete_group_fails_closed:
  assumes l: "groups_live s'"
    and pre: "delete_precheck s ref stats = Inr i" and ok: "fst (delete_commit f ref i s') = Inr g"
    and s'': "s'' = snd (delete_commit f ref i s')"
  shows "(\<exists>get m. stats = Some get \<and> get [i] = Some m \<and> (\<forall>st. map_of m i = Some st \<longrightarrow> ts_Sole st \<le> 0)) \<and>
    g_ID g = i \<and> grp s' i = Some g \<and> entries (gs_children s') i = [] \<and>
    (\<forall>u. lookup2 (gs_memberships s') u i = None) \<and>
    gs_view s'' = v_drop i (gs_view s') \<and> gs_view (groups_restart s'') = gs_view s''"
proof -
  note i = live_inv [OF l]
  have sole: "soleTagGuard i stats = None"
    using pre by (auto simp: delete_precheck_def Let_def split: sum.splits option.splits)
  then have st: "\<exists>get m. stats = Some get \<and> get [i] = Some m \<and> (\<forall>st. map_of m i = Some st \<longrightarrow> ts_Sole st \<le> 0)"
    by (auto simp: soleTagGuard_def not_less split: option.splits if_splits)
  obtain p db where p: "map_of (gs_groups s') i = Some p" "deleteCheckMembershipTreeLocked s' i = None"
      "groups_persist f (exec_delete_group i) s' = Inr db" "g = gs_heap s' ! p"
    using ok by (auto simp: delete_commit_def split: option.splits sum.splits)
  then have c: "childless i (gs_view s')" "\<forall>u. lookup2 (gs_memberships s') u i = None"
    by (simp_all add: deleteCheck_None [OF i])
  have "f = TxOk" by (rule persist_Inr_ok [OF l p(3)])
  with delete_commit_refines [OF l, of f ref i] have r: "g_refines TxOk (GDelete ref i) s' s''" by (simp add: s'')
  then have v: "gs_view s'' = v_drop i (gs_view s')"
    using c p(1) by (simp add: g_refines_def dir_spec.simps grp_None)
  have l'': "groups_live s''" by (rule step_live [OF l r])
  have "entries (gs_children s') i = []"
    using c(1) inv_children [OF i, of _ i] by (cases "entries (gs_children s') i") (auto simp: childless_def)
  with st v c p grp_at [OF p(1)] rep_id [OF inv_groups [OF i] p(1)] groups_restart_ok [OF l''] show ?thesis by simp
qed

definition demo_stats :: tag_stats_provider where
  "demo_stats = Some (\<lambda>tags. Some [(''g2'', \<lparr>ts_Total = 3, ts_Sole = 0\<rparr>)])"

lemma demo_delete_check: "delete_precheck demo_org ''g2'' demo_stats = Inr ''g2''"
proof -
  have l: "groups_live demo_org" "gs_view demo_org = demo_view" using demo_live by simp_all
  have res: "v_resolve (gs_view demo_org) ''g2'' = Some ''g2''" by (simp add: l(2) v_resolve_def demo_group)
  then obtain p where p: "resolveLocked demo_org ''g2'' = Inr p" "g_ID (gs_heap demo_org ! p) = ''g2''"
    using resolve_of_view [OF live_inv [OF l(1)], of "''g2''"] by (auto split: sum.splits)
  have v: "lookup2 (gs_memberships demo_org) = d_member demo_view" using l(2) by (metis gs_view_sel)
  have "deleteCheckMembershipTreeLocked demo_org ''g2'' = None"
    using deleteCheck_None [OF live_inv [OF l(1)], of "''g2''"]
    by (simp add: l(2) v childless_def demo_par demo_member)
  with p show ?thesis by (simp add: delete_precheck_def Let_def soleTagGuard_def demo_stats_def)
qed

theorem delete_group_fails_closed_witness:
  "\<exists>g. fst (delete_commit TxOk ''g2'' ''g2'' demo_org) = Inr g \<and> g_ID g = ''g2'' \<and>
     gs_view (snd (delete_commit TxOk ''g2'' ''g2'' demo_org)) = v_drop ''g2'' (gs_view demo_org)"
proof -
  have l: "groups_live demo_org" "gs_view demo_org = demo_view" using demo_live by simp_all
  have v: "lookup2 (gs_memberships demo_org) = d_member demo_view" "grp demo_org = d_group demo_view"
    using l(2) by (metis gs_view_sel)+
  obtain p where p: "map_of (gs_groups demo_org) ''g2'' = Some p"
    using grp_None [of demo_org "''g2''"] by (auto simp: v demo_group)
  have c: "deleteCheckMembershipTreeLocked demo_org ''g2'' = None"
    using deleteCheck_None [OF live_inv [OF l(1)], of "''g2''"]
    by (simp add: l(2) v childless_def demo_par demo_member)
  obtain d where d: "gs_db demo_org = Some d" "db_agree (gs_view demo_org) d" using live_db [OF l(1)] by blast
  obtain d' where d': "exec_delete_group ''g2'' d = Inr d'"
    using db_delete_group [OF live_dir [OF l(1)] d(2), of "''g2''"] by (auto simp: v demo_group demo_member)
  have "groups_persist TxOk (exec_delete_group ''g2'') demo_org = Inr (Some d')"
    by (rule groups_persist_ok [OF d(1)]) (rule d')
  with p c have "\<exists>g. fst (delete_commit TxOk ''g2'' ''g2'' demo_org) = Inr g" by (simp add: delete_commit_def)
  then obtain g where "fst (delete_commit TxOk ''g2'' ''g2'' demo_org) = Inr g" by blast
  with delete_group_fails_closed [OF l(1) demo_delete_check this refl] show ?thesis by blast
qed

text \<open>
  The console shows the readers of a team as the judge sees them: the member list of a team
  names every user whose recall scope contains it, once and in order, and the count on the team's
  page and the count in the tree, computed differently, are both the length of that list.
\<close>

theorem console_members_are_readers:
  assumes l: "groups_live s" and g: "grp s g \<noteq> None"
  shows "\<exists>members. ConsoleTeamMembers s g = Some members \<and>
    set (map cm_User members) = {u. g \<in> set (RecallScope s u)} \<and>
    distinct (map cm_User members) \<and> sorted (map cm_User members) \<and>
    effectiveMemberCountLocked s g = length members \<and>
    cnt (effectiveMemberCountsLocked s) g = length members"
proof -
  note i = live_inv [OF l]
  obtain ms where ms: "ConsoleTeamMembers s g = Some ms" "distinct (map cm_User ms)" "sorted (map cm_User ms)"
    "set (map cm_User ms) = {u. may_read (gs_view s) u g}" "length ms = effectiveMemberCountLocked s g"
    using ConsoleTeamMembers_users [OF i g] by blast
  then show ?thesis using effectiveMemberCounts_eq [OF i, of g] scope_mem [OF i] by auto
qed

theorem console_members_are_readers_witness:
  "\<exists>members. ConsoleTeamMembers demo_org ''g2'' = Some members \<and> set (map cm_User members) = {u. ''g2'' \<in> set (RecallScope demo_org u)}"
proof -
  have "grp demo_org = d_group demo_view" using demo_live by (metis gs_view_sel(1))
  then have "grp demo_org ''g2'' \<noteq> None" by (simp add: demo_group)
  from console_members_are_readers [OF demo_live [THEN conjunct1] this] show ?thesis by blast
qed

text \<open>
  Listing the tree ends: the recursion of \<open>ListGroups\<close> and \<open>ConsoleTree\<close>, which keeps no
  visited set, never goes deeper than the eight levels of the tree, and the lists name every group
  exactly once, with the depth that the depth check computes.
\<close>

theorem tree_listings_terminate:
  assumes l: "groups_live s"
  shows "\<exists>infos nodes. ListGroups s = Some infos \<and> ConsoleTree s = Some nodes \<and>
    map gi_ID infos = map ct_ID nodes \<and> distinct (map gi_ID infos) \<and>
    set (map gi_ID infos) = {g. grp s g \<noteq> None} \<and>
    (\<forall>info \<in> set infos. depthLocked s (gi_ID info) = Inr (gi_Depth info))"
proof -
  note i = live_inv [OF l]
  have id: "g_ID (the (grp s g)) = g" if "(g, d) \<in> set (tree_rows s)" for g d
    using that tree_rows_set [OF i, of g d] dir_group_id [OF inv_dir [OF i], of g] by auto
  define infos where "infos = map (\<lambda>(g, d). group_info_of s g d) (tree_rows s)"
  define nodes where "nodes = map (\<lambda>(g, d). console_node s (effectiveMemberCountsLocked s) g d) (tree_rows s)"
  have w: "ListGroups s = Some infos" "ConsoleTree s = Some nodes"
    by (simp_all add: ListGroups_def ConsoleTree_def Let_def walk_all [OF i, unfolded One_nat_def] infos_def nodes_def)
  have ids: "map gi_ID infos = map fst (tree_rows s)" "map ct_ID nodes = map fst (tree_rows s)"
    using id by (auto simp: infos_def nodes_def group_info_of_def console_node_def Let_def)
  have "depthLocked s (gi_ID info) = Inr (gi_Depth info)" if "info \<in> set infos" for info
  proof -
    from that obtain g d where gd: "(g, d) \<in> set (tree_rows s)" "info = group_info_of s g d" by (auto simp: infos_def)
    then have "grp s g \<noteq> None" "d = length (ancestors (gs_view s) g)" using tree_rows_set [OF i, of g d] by simp_all
    with depthLocked_eq [OF inv_dir [OF i], of g] id [OF gd(1)] show ?thesis
      by (simp add: gd(2) group_info_of_def Let_def)
  qed
  moreover have "set (map fst (tree_rows s)) = {g. grp s g \<noteq> None}" using tree_rows_set [OF i] by force
  ultimately have "map gi_ID infos = map ct_ID nodes \<and> distinct (map gi_ID infos) \<and>
    set (map gi_ID infos) = {g. grp s g \<noteq> None} \<and>
    (\<forall>info \<in> set infos. depthLocked s (gi_ID info) = Inr (gi_Depth info))"
    unfolding ids using tree_rows_distinct [OF i] by blast
  with w show ?thesis by blast
qed

theorem tree_listings_terminate_witness:
  "\<exists>infos. ListGroups demo_org = Some infos \<and> distinct (map gi_ID infos) \<and> set (map gi_ID infos) = {g. grp demo_org g \<noteq> None}"
  using tree_listings_terminate [OF demo_live [THEN conjunct1]] by blast

text \<open>
  A restart changes no decision: after any history, the scopes, effective roles, capture
  targets and grant decisions computed from the reloaded store are those computed before.
\<close>

theorem restart_keeps_decisions:
  assumes l: "groups_live s" and s': "s' = groups_restart (groups_run es s)"
  shows "RecallScope s' u = RecallScope (groups_run es s) u \<and>
    EffectiveRole s' u ref = EffectiveRole (groups_run es s) u ref \<and>
    CaptureTargets s' u = CaptureTargets (groups_run es s) u \<and>
    (CanGrant s' actor u ref role = None \<longleftrightarrow> CanGrant (groups_run es s) actor u ref role = None)"
proof -
  let ?t = "groups_run es s"
  have lt: "groups_live ?t" by (rule teams.run_inv [OF l])
  note r = groups_restart_ok [OF lt]
  have i: "groups_inv ?t" "groups_inv s'" and v: "gs_view s' = gs_view ?t" and o: "gs_orgAdmin s' = gs_orgAdmin ?t"
    using lt r by (simp_all add: s' groups_live_def)
  have "CaptureTargets s' u = CaptureTargets ?t u"
    using directWrite_set [OF i(1), of u] directWrite_set [OF i(2), of u] v unfolding CaptureTargets_def
    by (metis sorted_list_of_set_sort_remdups distinct_remdups_id)
  moreover have "EffectiveRole s' u ref = EffectiveRole ?t u ref"
    by (simp add: EffectiveRole_resolve i v effectiveRole_view [OF i v] cong: option.case_cong)
  moreover have "CanGrant s' actor u ref role = None \<longleftrightarrow> CanGrant ?t actor u ref role = None"
  proof -
    have "validatePersonKey s' u = None \<longleftrightarrow> validatePersonKey ?t u = None" using v by (metis gs_view_sel(4))
    moreover have "(\<exists>p. resolveLocked s' ref = Inr p) \<longleftrightarrow> (\<exists>p. resolveLocked ?t ref = Inr p)"
      using resolve_of_view [OF i(1), of ref] resolve_of_view [OF i(2), of ref] v by (auto split: sum.splits)
    ultimately show ?thesis by (auto simp: CanGrant_def o split: option.splits sum.splits)
  qed
  ultimately show ?thesis using RecallScope_view [OF i v] by simp
qed

theorem restart_keeps_decisions_witness:
  "RecallScope (groups_restart (groups_run [Do (TxOk, GRemoveUser ''a@x'')] demo_org)) ''b@x'' =
     RecallScope (groups_run [Do (TxOk, GRemoveUser ''a@x'')] demo_org) ''b@x''"
  using restart_keeps_decisions [OF demo_live [THEN conjunct1] refl] by blast

end
