(* ===== verification/Invite_Store.thy ===== *)
theory Invite_Store
  imports Members
begin

text \<open>
  The one-time invite store (\<open>internal/invites\<close>): records, the \<open>invites\<close> table with its CHECK
  constraints and its forward-only trigger, and every operation of the store. The clock is an
  argument of each operation, read once as the code reads it; nothing is assumed about two
  readings unless a statement says so.
\<close>

subsection \<open>Records\<close>

record invite =
  iv_Handle :: string
  iv_MemberID :: string
  iv_Email :: string
  iv_TokenValue :: string
  iv_Role :: string
  iv_LeaseID :: string
  iv_CreationPath :: string
  iv_CreatedAt :: string
  iv_ExpiresAt :: string
  iv_Status :: string

record clear_bundle =
  cb_Handle :: string
  cb_LeaseID :: string
  cb_CreationPath :: string
  cb_Email :: string
  cb_Role :: string
  cb_ExpiresAt :: string

record invite_view =
  vw_Handle :: string
  vw_MemberID :: string
  vw_Email :: string
  vw_Role :: string
  vw_CreationPath :: string
  vw_CreatedAt :: string
  vw_ExpiresAt :: string
  vw_Status :: string

definition StatusPending :: string where "StatusPending = ''pending''"
definition StatusConsumed :: string where "StatusConsumed = ''consumed''"
definition StatusCompromised :: string where "StatusCompromised = ''compromised''"
definition StatusExpired :: string where "StatusExpired = ''expired''"
definition StatusRevoked :: string where "StatusRevoked = ''revoked''"

lemmas invite_status_defs = StatusPending_def StatusConsumed_def StatusCompromised_def StatusExpired_def StatusRevoked_def

datatype invite_error = ErrInviteNotFound string | ErrInviteConsumed string | isErrInviteExpired: ErrInviteExpired string
  | ErrInviteCompromised string | ErrCreationPathMismatch | ErrNotConsumed string
  | ErrInviteRequired | ErrInviteRand | ErrHandleCollision | ErrLeaseCollision
  | ErrNotPending string string | ErrInvitePersist persist_error
  | ErrInviteSweep persist_error | ErrInviteLoad | ErrInviteBadExpiry string

definition clearBundle :: "invite \<Rightarrow> clear_bundle" where
  "clearBundle iv = \<lparr>cb_Handle = iv_Handle iv, cb_LeaseID = iv_LeaseID iv, cb_CreationPath = iv_CreationPath iv,
     cb_Email = iv_Email iv, cb_Role = iv_Role iv, cb_ExpiresAt = iv_ExpiresAt iv\<rparr>"

definition view_of_invite :: "invite \<Rightarrow> invite_view" where
  "view_of_invite iv = \<lparr>vw_Handle = iv_Handle iv, vw_MemberID = iv_MemberID iv, vw_Email = iv_Email iv,
     vw_Role = iv_Role iv, vw_CreationPath = iv_CreationPath iv, vw_CreatedAt = iv_CreatedAt iv,
     vw_ExpiresAt = iv_ExpiresAt iv, vw_Status = iv_Status iv\<rparr>"

subsection \<open>The table\<close>

record invite_row =
  ir_handle :: string
  ir_lease_id :: string
  ir_member_id :: string
  ir_email :: string
  ir_token_value :: "string option"
  ir_role :: string
  ir_creation_path :: string
  ir_created_at :: string
  ir_expires_at :: "string option"
  ir_status :: string

definition row_of_invite :: "invite \<Rightarrow> invite_row" where
  "row_of_invite iv = \<lparr>ir_handle = iv_Handle iv, ir_lease_id = iv_LeaseID iv, ir_member_id = iv_MemberID iv,
     ir_email = iv_Email iv, ir_token_value = Some (iv_TokenValue iv), ir_role = iv_Role iv,
     ir_creation_path = iv_CreationPath iv, ir_created_at = iv_CreatedAt iv,
     ir_expires_at = Some (iv_ExpiresAt iv), ir_status = iv_Status iv\<rparr>"

definition invite_of_row :: "invite_row \<Rightarrow> invite" where
  "invite_of_row r = \<lparr>iv_Handle = ir_handle r, iv_MemberID = ir_member_id r, iv_Email = ir_email r,
     iv_TokenValue = null_string (ir_token_value r), iv_Role = ir_role r, iv_LeaseID = ir_lease_id r,
     iv_CreationPath = ir_creation_path r, iv_CreatedAt = ir_created_at r,
     iv_ExpiresAt = null_string (ir_expires_at r), iv_Status = ir_status r\<rparr>"

text \<open>The CHECK constraints, and the transitions the trigger lets through.\<close>

definition hex32 :: "string \<Rightarrow> bool" where
  "hex32 s \<longleftrightarrow> length s = 32 \<and> list_all is_hex s"

definition invites_check :: "invite_row \<Rightarrow> bool" where
  "invites_check r \<longleftrightarrow> hex32 (ir_handle r) \<and> hex32 (ir_lease_id r) \<and>
     (ir_token_value r = None \<or> ir_status r = StatusPending) \<and>
     ir_status r \<in> {StatusPending, StatusConsumed, StatusCompromised, StatusExpired, StatusRevoked}"

definition status_forward :: "string \<Rightarrow> string \<Rightarrow> bool" where
  "status_forward old new \<longleftrightarrow> new = old \<or>
     old = StatusPending \<and> new \<in> {StatusConsumed, StatusExpired, StatusRevoked} \<or>
     old = StatusConsumed \<and> new = StatusCompromised"

definition invites_insert :: "invite_row \<Rightarrow> invite_row list \<Rightarrow> sql_error + invite_row list" where
  "invites_insert r t =
     (if \<not> invites_check r then Inl SqlCheck
      else if list_ex (\<lambda>x. ir_handle x = ir_handle r) t then Inl SqlPrimaryKey
      else if list_ex (\<lambda>x. ir_lease_id x = ir_lease_id r) t then Inl SqlUnique
      else Inr (t @ [r]))"

text \<open>\<open>UPDATE invites SET status = \<dots>\<close> on the rows that satisfy \<open>p\<close>, with the number of rows affected.\<close>

definition invites_update :: "(invite_row \<Rightarrow> bool) \<Rightarrow> (invite_row \<Rightarrow> invite_row) \<Rightarrow> invite_row list \<Rightarrow> sql_error + nat \<times> invite_row list" where
  "invites_update p f t =
     (if list_ex (\<lambda>r. p r \<and> \<not> status_forward (ir_status r) (ir_status (f r))) t then Inl SqlTrigger
      else if list_ex (\<lambda>r. p r \<and> \<not> invites_check (f r)) t then Inl SqlCheck
      else Inr (sql_update p f t))"

text \<open>\<open>SET status = st, token_value = NULL\<close>\<close>

definition scrub_row :: "string \<Rightarrow> invite_row \<Rightarrow> invite_row" where
  "scrub_row st r = r\<lparr>ir_status := st, ir_token_value := None\<rparr>"

definition aged_pending :: "time \<Rightarrow> invite_row \<Rightarrow> bool" where
  "aged_pending now r \<longleftrightarrow> ir_status r = StatusPending \<and>
     (case ir_expires_at r of None \<Rightarrow> False | Some e \<Rightarrow> e \<le> FormatTime now)"

definition sweepAgedPending :: "time \<Rightarrow> invite_row list \<Rightarrow> sql_error + invite_row list" where
  "sweepAgedPending now t =
     (case invites_update (aged_pending now) (scrub_row StatusExpired) t of Inl e \<Rightarrow> Inl e | Inr r \<Rightarrow> Inr (snd r))"

text \<open>An UPDATE whose row count is checked.\<close>

definition invites_exec :: "nat \<Rightarrow> (invite_row \<Rightarrow> bool) \<Rightarrow> (invite_row \<Rightarrow> invite_row) \<Rightarrow> invite_row list \<Rightarrow> sql_error + invite_row list" where
  "invites_exec want p f t =
     (case invites_update p f t of Inl e \<Rightarrow> Inl e | Inr r \<Rightarrow> expect_rows want r)"

subsection \<open>The store\<close>

record invite_store =
  is_cells :: "invite list"
  is_byHandle :: "(string, nat) gomap"
  is_byLease :: "(string, nat) gomap"
  is_db :: "invite_row list option"

type_synonym 'a is_result = "(invite_error + 'a) \<times> invite_store"

definition invites_NewStore :: invite_store where
  "invites_NewStore = \<lparr>is_cells = [], is_byHandle = [], is_byLease = [], is_db = None\<rparr>"

definition invites_persist :: "tx_fault \<Rightarrow> time \<Rightarrow> (invite_row list \<Rightarrow> sql_error + invite_row list) \<Rightarrow>
    invite_store \<Rightarrow> invite_error + invite_row list option" where
  "invites_persist f now fn s =
     (case run_tx f (\<lambda>t. then_sql (sweepAgedPending now t) fn) (is_db s) of
        Inl e \<Rightarrow> Inl (ErrInvitePersist e) | Inr db \<Rightarrow> Inr db)"

text \<open>The expiry text of a loaded row must be canonical.\<close>

definition load_expiry :: "invite \<Rightarrow> invite_error option" where
  "load_expiry iv =
     (if iv_ExpiresAt iv = [] then None
      else case CanonicalizeTime (iv_ExpiresAt iv) of
        None \<Rightarrow> Some (ErrInviteBadExpiry (iv_Handle iv))
      | Some c \<Rightarrow> if iv_ExpiresAt iv \<noteq> c then Some (ErrInviteBadExpiry (iv_Handle iv)) else None)"

text \<open>
  Loading sweeps the table in a transaction of its own, reads it (\<open>readable\<close> is false when the
  query or a scan fails), checks every row and builds the indexes. The third result is the table
  as it is left on disk, which a failing load may have swept.
\<close>

definition invites_LoadFromDB :: "tx_fault \<Rightarrow> time \<Rightarrow> bool \<Rightarrow> invite_row list \<Rightarrow> invite_store \<Rightarrow>
    (invite_error + unit) \<times> invite_store \<times> invite_row list" where
  "invites_LoadFromDB f now readable t s =
     (case run_tx f (sweepAgedPending now) (Some t) of
        Inl e \<Rightarrow> (Inl (ErrInviteSweep e), s, t)
      | Inr db \<Rightarrow>
          (let t' = the db; rows = map invite_of_row t' in
           if \<not> readable then (Inl ErrInviteLoad, s, t')
           else case List.find (\<lambda>iv. load_expiry iv \<noteq> None) rows of
             Some iv \<Rightarrow> (Inl (the (load_expiry iv)), s, t')
           | None \<Rightarrow>
               (case dual_load iv_Handle iv_LeaseID rows of (h, i1, i2) \<Rightarrow>
                  (Inr (), s\<lparr>is_cells := h, is_byHandle := i1, is_byLease := i2, is_db := Some t'\<rparr>, t'))))"

record issue_params =
  ip_MemberID :: string
  ip_Email :: string
  ip_Role :: string
  ip_TokenValue :: string
  ip_CreationPath :: string
  ip_TTL :: int

definition issued :: "string \<Rightarrow> string \<Rightarrow> time \<Rightarrow> issue_params \<Rightarrow> invite" where
  "issued handle lease now p = \<lparr>iv_Handle = handle, iv_MemberID = ip_MemberID p, iv_Email = ip_Email p,
     iv_TokenValue = ip_TokenValue p, iv_Role = ip_Role p, iv_LeaseID = lease, iv_CreationPath = ip_CreationPath p,
     iv_CreatedAt = FormatTime now, iv_ExpiresAt = FormatTime (now + ip_TTL p), iv_Status = StatusPending\<rparr>"

definition Issue :: "tx_fault \<Rightarrow> entropy \<Rightarrow> entropy \<Rightarrow> time \<Rightarrow> issue_params \<Rightarrow> invite_store \<Rightarrow> clear_bundle is_result" where
  "Issue f rnd1 rnd2 now p s =
     (if ip_MemberID p = [] \<or> ip_Email p = [] \<or> ip_Role p = [] \<or> ip_TokenValue p = [] then (Inl ErrInviteRequired, s)
      else case randHex rnd1 of
        None \<Rightarrow> (Inl ErrInviteRand, s)
      | Some handle \<Rightarrow>
          (case randHex rnd2 of
             None \<Rightarrow> (Inl ErrInviteRand, s)
           | Some lease \<Rightarrow>
               (let iv = issued handle lease now p in
                if map_of (is_byHandle s) handle \<noteq> None then (Inl ErrHandleCollision, s)
                else if map_of (is_byLease s) lease \<noteq> None then (Inl ErrLeaseCollision, s)
                else case invites_persist f now (invites_insert (row_of_invite iv)) s of
                  Inl e \<Rightarrow> (Inl e, s)
                | Inr db \<Rightarrow>
                    (Inr (clearBundle iv),
                     s\<lparr>is_cells := is_cells s @ [iv],
                       is_byHandle := AList.update handle (length (is_cells s)) (is_byHandle s),
                       is_byLease := AList.update lease (length (is_cells s)) (is_byLease s),
                       is_db := db\<rparr>))))"

definition isExpiredAt :: "invite \<Rightarrow> time \<Rightarrow> bool" where
  "isExpiredAt iv now =
     (if iv_ExpiresAt iv = [] then False
      else case parse_rfc3339 (iv_ExpiresAt iv) of None \<Rightarrow> False | Some e \<Rightarrow> \<not> now < e)"

definition statusGateLocked :: "invite \<Rightarrow> time \<Rightarrow> invite_error option" where
  "statusGateLocked iv now =
     (if iv_Status iv = StatusConsumed then Some (ErrInviteConsumed (iv_Handle iv))
      else if iv_Status iv = StatusCompromised then Some (ErrInviteCompromised (iv_Handle iv))
      else if iv_Status iv = StatusExpired \<or> iv_Status iv = StatusRevoked then Some (ErrInviteExpired (iv_Handle iv))
      else if isExpiredAt iv now then Some (ErrInviteExpired (iv_Handle iv))
      else None)"

definition Lookup :: "string \<Rightarrow> string \<Rightarrow> time \<Rightarrow> invite_store \<Rightarrow> invite_error + clear_bundle" where
  "Lookup handle creationPath now s =
     (case map_of (is_byHandle s) handle of
        None \<Rightarrow> Inl (ErrInviteNotFound handle)
      | Some p \<Rightarrow>
          (let iv = is_cells s ! p in
           if iv_CreationPath iv \<noteq> creationPath then Inl ErrCreationPathMismatch
           else case statusGateLocked iv now of
             Some e \<Rightarrow> Inl e
           | None \<Rightarrow> Inr (clearBundle iv)))"

text \<open>Commit, then overwrite the shared record.\<close>

definition commit_invite :: "tx_fault \<Rightarrow> time \<Rightarrow> (invite_row list \<Rightarrow> sql_error + invite_row list) \<Rightarrow> nat \<Rightarrow> invite \<Rightarrow>
    invite_store \<Rightarrow> unit is_result" where
  "commit_invite f now fn p nxt s =
     (case invites_persist f now fn s of
        Inl e \<Rightarrow> (Inl e, s)
      | Inr db \<Rightarrow> (Inr (), s\<lparr>is_cells := (is_cells s)[p := nxt], is_db := db\<rparr>))"

definition voided :: "string \<Rightarrow> invite \<Rightarrow> invite" where
  "voided st iv = iv\<lparr>iv_Status := st, iv_TokenValue := []\<rparr>"

definition by_handle :: "string \<Rightarrow> invite_row \<Rightarrow> bool" where
  "by_handle h r \<longleftrightarrow> ir_handle r = h"

definition Unwrap :: "tx_fault \<Rightarrow> time \<Rightarrow> string \<Rightarrow> invite_store \<Rightarrow> (string \<times> string) is_result" where
  "Unwrap f now handle s =
     (case map_of (is_byHandle s) handle of
        None \<Rightarrow> (Inl (ErrInviteNotFound handle), s)
      | Some p \<Rightarrow>
          (let iv = is_cells s ! p in
           case statusGateLocked iv now of
             Some gErr \<Rightarrow>
               (if isErrInviteExpired gErr \<and> iv_Status iv = StatusPending then
                  (case commit_invite f now (invites_exec 1 (by_handle handle) (scrub_row StatusExpired)) p
                      (voided StatusExpired iv) s of
                     (_, s') \<Rightarrow> (Inl gErr, s'))
                else (Inl gErr, s))
           | None \<Rightarrow>
               (case commit_invite f now
                   (invites_exec 1 (\<lambda>r. by_handle handle r \<and> ir_status r = StatusPending) (scrub_row StatusConsumed)) p
                   (voided StatusConsumed iv) s of
                  (Inl e, s') \<Rightarrow> (Inl e, s')
                | (Inr _, s') \<Rightarrow> (Inr (iv_TokenValue iv, iv_MemberID iv), s'))))"

definition ReportCompromise :: "tx_fault \<Rightarrow> time \<Rightarrow> string \<Rightarrow> invite_store \<Rightarrow> unit is_result" where
  "ReportCompromise f now leaseID s =
     (case map_of (is_byLease s) leaseID of
        None \<Rightarrow> (Inl (ErrInviteNotFound leaseID), s)
      | Some p \<Rightarrow>
          (let iv = is_cells s ! p in
           if iv_Status iv \<noteq> StatusConsumed then (Inl (ErrNotConsumed leaseID), s)
           else commit_invite f now
             (invites_exec 1 (\<lambda>r. ir_lease_id r = leaseID) (\<lambda>r. r\<lparr>ir_status := StatusCompromised\<rparr>)) p
             (iv\<lparr>iv_Status := StatusCompromised\<rparr>) s))"

definition RevokePending :: "tx_fault \<Rightarrow> time \<Rightarrow> string \<Rightarrow> invite_store \<Rightarrow> unit is_result" where
  "RevokePending f now handle s =
     (case map_of (is_byHandle s) handle of
        None \<Rightarrow> (Inl (ErrInviteNotFound handle), s)
      | Some p \<Rightarrow>
          (let iv = is_cells s ! p in
           if iv_Status iv \<noteq> StatusPending then (Inl (ErrNotPending handle (iv_Status iv)), s)
           else
             (let target = (if isExpiredAt iv now then StatusExpired else StatusRevoked)
              in commit_invite f now (invites_exec 1 (by_handle handle) (scrub_row target)) p (voided target iv) s)))"

text \<open>Pointers of a member's pending invites, split into live and aged, in the order of the loop.\<close>

definition pending_of :: "string \<Rightarrow> invite_store \<Rightarrow> nat list" where
  "pending_of memberID s =
     filter (\<lambda>p. iv_MemberID (is_cells s ! p) = memberID \<and> iv_Status (is_cells s ! p) = StatusPending)
       (map snd (is_byHandle s))"

definition RevokeAllPendingForMember :: "tx_fault \<Rightarrow> time \<Rightarrow> string \<Rightarrow> invite_store \<Rightarrow> nat is_result" where
  "RevokeAllPendingForMember f now memberID s =
     (let aged = filter (\<lambda>p. isExpiredAt (is_cells s ! p) now) (pending_of memberID s);
          live = filter (\<lambda>p. \<not> isExpiredAt (is_cells s ! p) now) (pending_of memberID s)
      in if live = [] \<and> aged = [] then (Inr 0, s)
         else case invites_persist f now
             (invites_exec (length live) (\<lambda>r. ir_member_id r = memberID \<and> ir_status r = StatusPending)
                (scrub_row StatusRevoked)) s of
           Inl e \<Rightarrow> (Inl e, s)
         | Inr db \<Rightarrow>
             (let cells = fold (\<lambda>p h. h[p := voided StatusRevoked (h ! p)]) live (is_cells s);
                  cells = fold (\<lambda>p h. h[p := voided StatusExpired (h ! p)]) aged cells
              in (Inr (length live + length aged), s\<lparr>is_cells := cells, is_db := db\<rparr>)))"

subsection \<open>Listings\<close>

text \<open>Newest first, handles break ties: a stable descending sort over the handle order.\<close>

definition invites_List :: "invite_store \<Rightarrow> invite_view list" where
  "invites_List s =
     (let out = map (\<lambda>(_, p). view_of_invite (is_cells s ! p)) (is_byHandle s)
      in rev (sort_key vw_CreatedAt (rev (sort_key vw_Handle out))))"

definition ListByMember :: "string \<Rightarrow> invite_store \<Rightarrow> invite_view list" where
  "ListByMember memberID s = filter (\<lambda>v. vw_MemberID v = memberID) (invites_List s)"

definition LatestByMember :: "string \<Rightarrow> invite_store \<Rightarrow> invite_view option" where
  "LatestByMember memberID s = (case ListByMember memberID s of [] \<Rightarrow> None | v # _ \<Rightarrow> Some v)"

end
