(* ===== verification/Lifecycle.thy ===== *)
theory Lifecycle
  imports Main
begin

text \<open>
  Stores whose records only ever move along a given relation: nothing is lost, and an event
  (an operation or a restart) takes each record one move further or leaves it. Whatever a record
  cannot move back from stays.
\<close>

locale lifecycle_store =
  fixes step :: "'e \<Rightarrow> 's \<Rightarrow> 's"
    and ok :: "'e \<Rightarrow> bool"
    and inv :: "'s \<Rightarrow> bool"
    and view :: "'s \<Rightarrow> 'k \<Rightarrow> 'r option"
    and moves :: "'r \<Rightarrow> 'r \<Rightarrow> bool"
  assumes step_inv: "inv s \<Longrightarrow> ok e \<Longrightarrow> inv (step e s)"
    and step_moves: "inv s \<Longrightarrow> ok e \<Longrightarrow> view s k = Some r \<Longrightarrow> \<exists>r'. view (step e s) k = Some r' \<and> moves\<^sup>*\<^sup>* r r'"
begin

lemma run_inv: "inv s \<Longrightarrow> list_all ok es \<Longrightarrow> inv (fold step es s)"
  by (induction es arbitrary: s) (simp_all add: step_inv)

lemma run_moves:
  "inv s \<Longrightarrow> list_all ok es \<Longrightarrow> view s k = Some r \<Longrightarrow> \<exists>r'. view (fold step es s) k = Some r' \<and> moves\<^sup>*\<^sup>* r r'"
proof (induction es arbitrary: s r)
  case (Cons e es)
  then obtain r1 where r1: "view (step e s) k = Some r1" "moves\<^sup>*\<^sup>* r r1" using step_moves [of s e k r] by auto
  from Cons.IH [OF _ _ r1(1)] Cons.prems step_inv obtain r' where
    "view (fold step es (step e s)) k = Some r'" "moves\<^sup>*\<^sup>* r1 r'" by auto
  with r1(2) show ?case by auto
qed simp

text \<open>A condition on records that moves preserve holds for good once it holds.\<close>

lemma run_stable:
  assumes "inv s" "list_all ok es" "view s k = Some r" "P r" "\<And>x y. P x \<Longrightarrow> moves x y \<Longrightarrow> P y"
  shows "\<exists>r'. view (fold step es s) k = Some r' \<and> P r'"
proof -
  obtain r' where r': "view (fold step es s) k = Some r'" "moves\<^sup>*\<^sup>* r r'" using run_moves [OF assms(1-3)] by blast
  from r'(2) have "P r'" by (induction rule: rtranclp_induct) (use assms(4,5) in blast)+
  with r'(1) show ?thesis by blast
qed

end

end
