(* ===== verification/Invite_Refine.thy ===== *)
theory Invite_Refine
  imports Invite_Store Lifecycle
begin

text \<open>
  How the invite cache and its table agree. Every write sweeps aged pending rows in the table
  without touching the cache, so the two may differ on such invites: the cache still says pending
  where the row is expired and scrubbed. \<open>coherent T\<close> allows exactly that, for invites that have
  expired by \<open>T\<close>, the latest clock reading so far. Every operation, failed or not, keeps it, and
  no clock reading needs to be later than the ones before.
\<close>

subsection \<open>Expiry: text and instant\<close>

definition expiry_ok :: "invite \<Rightarrow> bool" where
  "expiry_ok iv \<longleftrightarrow> iv_ExpiresAt iv = [] \<or> (\<exists>e. time_ok e \<and> iv_ExpiresAt iv = FormatTime e)"

lemma FormatTime_nonempty [simp]: "FormatTime e \<noteq> []"
  by (simp add: FormatTime_def)

lemma load_expiry_None [simp]: "load_expiry iv = None \<longleftrightarrow> expiry_ok iv"
  using canonical_time [of "iv_ExpiresAt iv"]
  by (auto simp: load_expiry_def expiry_ok_def CanonicalizeTime_FormatTime split: option.splits if_splits)

lemma isExpiredAt_mono: "isExpiredAt iv t \<Longrightarrow> t \<le> u \<Longrightarrow> isExpiredAt iv u"
  by (auto simp: isExpiredAt_def split: option.splits if_splits)

lemma isExpiredAt_max [simp]: "isExpiredAt iv (max t u) \<longleftrightarrow> isExpiredAt iv t \<or> isExpiredAt iv u"
  using isExpiredAt_mono [of iv t "max t u"] isExpiredAt_mono [of iv u "max t u"] by (auto simp: max_def split: if_splits)

lemma expired_text:
  assumes "time_ok e" "time_ok now" "iv_ExpiresAt iv = FormatTime e"
  shows "isExpiredAt iv now \<longleftrightarrow> FormatTime e \<le> FormatTime now"
proof -
  have "isExpiredAt iv now \<longleftrightarrow> e div milli * milli \<le> now"
    using assms by (simp add: isExpiredAt_def parse_FormatTime not_less)
  also have "\<dots> \<longleftrightarrow> e div milli \<le> now div milli"
    using trunc_le_iff [of "e div milli * milli" now] by (simp add: trunc_milli)
  finally show ?thesis using FormatTime_le_iff [OF assms(1,2)] by simp
qed

lemma expired_fields: "iv_ExpiresAt iv = iv_ExpiresAt iv' \<Longrightarrow> isExpiredAt iv = isExpiredAt iv'"
  by (simp add: isExpiredAt_def fun_eq_iff)

lemma voided_sel [simp]:
  "iv_Handle (voided st iv) = iv_Handle iv" "iv_LeaseID (voided st iv) = iv_LeaseID iv"
  "iv_MemberID (voided st iv) = iv_MemberID iv" "iv_Email (voided st iv) = iv_Email iv"
  "iv_ExpiresAt (voided st iv) = iv_ExpiresAt iv" "iv_Status (voided st iv) = st" "iv_TokenValue (voided st iv) = []"
  "iv_Role (voided st iv) = iv_Role iv" "iv_CreationPath (voided st iv) = iv_CreationPath iv"
  "iv_CreatedAt (voided st iv) = iv_CreatedAt iv"
  by (simp_all add: voided_def)

lemma voided_voided [simp]: "voided st (voided st' iv) = voided st iv"
  by (simp add: voided_def)

lemma isExpiredAt_voided [simp]: "isExpiredAt (voided st iv) = isExpiredAt iv"
  by (rule expired_fields) simp

lemma invite_status_distinct [simp]:
  "StatusPending \<noteq> StatusConsumed" "StatusConsumed \<noteq> StatusPending"
  "StatusPending \<noteq> StatusCompromised" "StatusCompromised \<noteq> StatusPending"
  "StatusPending \<noteq> StatusExpired" "StatusExpired \<noteq> StatusPending"
  "StatusPending \<noteq> StatusRevoked" "StatusRevoked \<noteq> StatusPending"
  "StatusConsumed \<noteq> StatusCompromised" "StatusCompromised \<noteq> StatusConsumed"
  "StatusConsumed \<noteq> StatusExpired" "StatusExpired \<noteq> StatusConsumed"
  "StatusConsumed \<noteq> StatusRevoked" "StatusRevoked \<noteq> StatusConsumed"
  "StatusCompromised \<noteq> StatusExpired" "StatusExpired \<noteq> StatusCompromised"
  "StatusCompromised \<noteq> StatusRevoked" "StatusRevoked \<noteq> StatusCompromised"
  "StatusExpired \<noteq> StatusRevoked" "StatusRevoked \<noteq> StatusExpired"
  by (simp_all add: invite_status_defs)

subsection \<open>Rows\<close>

definition row_ok :: "invite_row \<Rightarrow> bool" where
  "row_ok r \<longleftrightarrow> invites_check r \<and> expiry_ok (invite_of_row r) \<and>
     (ir_status r = StatusPending \<longrightarrow> ir_expires_at r \<noteq> Some [])"

definition invite_ok :: "invite \<Rightarrow> bool" where
  "invite_ok iv \<longleftrightarrow> iv_Status iv \<in> {StatusPending, StatusConsumed, StatusCompromised, StatusExpired, StatusRevoked} \<and>
     (iv_Status iv \<noteq> StatusPending \<longrightarrow> iv_TokenValue iv = []) \<and> expiry_ok iv"

definition sweep_row :: "time \<Rightarrow> invite_row \<Rightarrow> invite_row" where
  "sweep_row now r = (if aged_pending now r then scrub_row StatusExpired r else r)"

lemma invite_of_row_sel [simp]:
  "iv_Handle (invite_of_row r) = ir_handle r" "iv_LeaseID (invite_of_row r) = ir_lease_id r"
  "iv_MemberID (invite_of_row r) = ir_member_id r" "iv_Status (invite_of_row r) = ir_status r"
  "iv_TokenValue (invite_of_row r) = null_string (ir_token_value r)"
  "iv_ExpiresAt (invite_of_row r) = null_string (ir_expires_at r)"
  by (simp_all add: invite_of_row_def)

lemma invite_of_scrub [simp]: "invite_of_row (scrub_row st r) = voided st (invite_of_row r)"
  by (simp add: invite_of_row_def scrub_row_def voided_def null_string_def)

lemma invite_of_row_of_invite [simp]: "invite_of_row (row_of_invite iv) = iv"
  by (simp add: invite_of_row_def row_of_invite_def null_string_def)

lemma scrub_row_sel [simp]:
  "ir_handle (scrub_row st r) = ir_handle r" "ir_lease_id (scrub_row st r) = ir_lease_id r"
  "ir_status (scrub_row st r) = st" "ir_member_id (scrub_row st r) = ir_member_id r"
  "ir_token_value (scrub_row st r) = None" "ir_expires_at (scrub_row st r) = ir_expires_at r"
  by (simp_all add: scrub_row_def)

lemma sweep_row_sel [simp]:
  "ir_handle (sweep_row now r) = ir_handle r" "ir_lease_id (sweep_row now r) = ir_lease_id r"
  "ir_member_id (sweep_row now r) = ir_member_id r" "ir_expires_at (sweep_row now r) = ir_expires_at r"
  by (simp_all add: sweep_row_def)

lemma expiry_ok_voided [simp]: "expiry_ok (voided st iv) = expiry_ok iv"
  by (simp add: expiry_ok_def)

lemma row_ok_invite: "row_ok r \<Longrightarrow> invite_ok (invite_of_row r)"
  by (auto simp: row_ok_def invite_ok_def invites_check_def null_string_def)

lemma row_ok_scrub [simp]:
  "row_ok r \<Longrightarrow> st \<in> {StatusConsumed, StatusExpired, StatusRevoked} \<Longrightarrow> row_ok (scrub_row st r)"
  by (auto simp: row_ok_def invites_check_def)

lemma row_ok_sweep [simp]: "row_ok r \<Longrightarrow> row_ok (sweep_row now r)"
  by (simp add: sweep_row_def)

lemma aged_pending_iff:
  assumes "row_ok r" "time_ok now"
  shows "aged_pending now r \<longleftrightarrow> ir_status r = StatusPending \<and> isExpiredAt (invite_of_row r) now"
proof (cases "ir_status r = StatusPending")
  case True
  with assms(1) have "ir_expires_at r = None \<or> (\<exists>e. time_ok e \<and> ir_expires_at r = Some (FormatTime e))"
    by (auto simp: row_ok_def expiry_ok_def null_string_def split: option.splits)
  then show ?thesis
    using expired_text [OF _ assms(2), of _ "invite_of_row r"]
    by (auto simp: aged_pending_def True null_string_def isExpiredAt_def)
qed (simp add: aged_pending_def)

text \<open>The sweep of a table of this store never trips the trigger or a constraint.\<close>

lemma sweep_ok: "list_all row_ok t \<Longrightarrow> sweepAgedPending now t = Inr (map (sweep_row now) t)"
proof -
  assume ok: "list_all row_ok t"
  have "\<not> list_ex (\<lambda>r. aged_pending now r \<and> \<not> status_forward (ir_status r) StatusExpired) t"
    by (auto simp: list_ex_iff aged_pending_def status_forward_def)
  moreover have "\<not> list_ex (\<lambda>r. aged_pending now r \<and> \<not> invites_check (scrub_row StatusExpired r)) t"
    using ok by (auto simp: list_ex_iff list_all_iff row_ok_def invites_check_def)
  ultimately show ?thesis
    by (simp add: sweepAgedPending_def invites_update_def sql_update_def sweep_row_def)
qed

subsection \<open>Coherence\<close>

definition coherent :: "time \<Rightarrow> invite \<Rightarrow> invite_row \<Rightarrow> bool" where
  "coherent T iv r \<longleftrightarrow> invite_of_row r = iv \<or>
     iv_Status iv = StatusPending \<and> isExpiredAt iv T \<and> invite_of_row r = voided StatusExpired iv"

definition invites_view :: "invite_store \<Rightarrow> string \<Rightarrow> invite option" where
  "invites_view s = deref (is_cells s) (is_byHandle s)"

definition invites_agree :: "time \<Rightarrow> (string \<Rightarrow> invite option) \<Rightarrow> invite_row list \<Rightarrow> bool" where
  "invites_agree T v t \<longleftrightarrow> keyed ir_handle t \<and> keyed ir_lease_id t \<and> list_all row_ok t \<and>
     (\<forall>h. rel_option (coherent T) (v h) (tab ir_handle t h))"

definition invites_inv :: "time \<Rightarrow> invite_store \<Rightarrow> bool" where
  "invites_inv T s \<longleftrightarrow> dual_wf iv_Handle iv_LeaseID (is_cells s) (is_byHandle s) (is_byLease s) \<and>
     (\<forall>h iv. invites_view s h = Some iv \<longrightarrow> invite_ok iv) \<and>
     (\<forall>t. is_db s = Some t \<longrightarrow> invites_agree T (invites_view s) t)"

lemma coherent_sweep:
  assumes "row_ok r" "time_ok now" "coherent T iv r"
  shows "coherent (max T now) iv (sweep_row now r)"
  using assms(3) aged_pending_iff [OF assms(1,2)] by (auto simp: coherent_def sweep_row_def)

lemma coherent_sel: "coherent T iv r \<Longrightarrow> ir_handle r = iv_Handle iv \<and> ir_lease_id r = iv_LeaseID iv \<and> ir_member_id r = iv_MemberID iv"
  by (auto simp: coherent_def dest: arg_cong [of _ _ iv_Handle] arg_cong [of _ _ iv_LeaseID] arg_cong [of _ _ iv_MemberID])

lemma coherent_mono: "coherent T iv r \<Longrightarrow> T \<le> T' \<Longrightarrow> coherent T' iv r"
  using isExpiredAt_mono [of iv T T'] by (auto simp: coherent_def)

lemma agree_mono: "invites_agree T v t \<Longrightarrow> T \<le> T' \<Longrightarrow> invites_agree T' v t"
  using option.rel_mono [of "coherent T" "coherent T'"] coherent_mono [of T _ _ T']
  unfolding invites_agree_def by blast

lemma inv_mono: "invites_inv T s \<Longrightarrow> T \<le> T' \<Longrightarrow> invites_inv T' s"
  by (auto simp: invites_inv_def intro: agree_mono)

lemma tab_row_ok: "list_all row_ok t \<Longrightarrow> tab ir_handle t h = Some r \<Longrightarrow> row_ok r"
  by (drule tab_key) (simp add: list_all_iff)

lemma agree_sweep:
  assumes a: "invites_agree T v t" and n: "time_ok now"
  shows "invites_agree (max T now) v (map (sweep_row now) t)"
proof -
  have ok: "list_all row_ok t" using a by (simp add: invites_agree_def)
  have "rel_option (coherent (max T now)) (v h) (tab ir_handle (map (sweep_row now) t) h)" for h
  proof -
    have "rel_option (coherent T) (v h) (tab ir_handle t h)" using a by (simp add: invites_agree_def)
    then show ?thesis
      using coherent_sweep [OF tab_row_ok [OF ok, of h] n]
      by (cases "v h"; cases "tab ir_handle t h") (simp_all add: tab_map [where key' = ir_handle])
  qed
  moreover have "list_all row_ok (map (sweep_row now) t)" using ok by (simp add: list_all_iff)
  ultimately show ?thesis using a
    by (simp add: invites_agree_def keyed_map [where key' = ir_handle] keyed_map [where key' = ir_lease_id])
qed

lemma agree_row: "invites_agree T v t \<Longrightarrow> v h = Some iv \<Longrightarrow> \<exists>r. tab ir_handle t h = Some r \<and> coherent T iv r \<and> row_ok r"
  by (auto simp: invites_agree_def dest!: spec [of _ h] dest: tab_row_ok elim!: option.rel_cases)

lemma agree_none: "invites_agree T v t \<Longrightarrow> v h = None \<longleftrightarrow> tab ir_handle t h = None"
  by (auto simp: invites_agree_def dest!: spec [of _ h])

text \<open>Changing one record and its row.\<close>

lemma agree_update:
  assumes a: "invites_agree T v t"
    and q: "\<And>r. r \<in> set t \<Longrightarrow> q r \<longleftrightarrow> ir_handle r = h" "\<And>r. ir_handle (g r) = ir_handle r" "\<And>r. ir_lease_id (g r) = ir_lease_id r"
    and r: "\<And>r. tab ir_handle t h = Some r \<Longrightarrow> row_ok (g r) \<and> coherent T nxt (g r)"
    and e: "tab ir_handle t h \<noteq> None"
  shows "invites_agree T (v(h \<mapsto> nxt)) (snd (sql_update q g t))"
proof -
  have k: "keyed ir_handle t" "keyed ir_lease_id t" "list_all row_ok t" using a by (simp_all add: invites_agree_def)
  have "row_ok (if q x then g x else x)" if "x \<in> set t" for x
    using that k r [of x] q(1) [OF that] by (auto simp: tab_Some_iff list_all_iff)
  then have "\<forall>x \<in> set t. row_ok (if q x then g x else x)" by blast
  then have "list_all row_ok (snd (sql_update q g t))" by (auto simp: sql_update_def list_all_iff)
  moreover have "rel_option (coherent T) ((v(h \<mapsto> nxt)) j) (tab ir_handle (snd (sql_update q g t)) j)" for j
  proof (cases "j = h")
    case True
    from e obtain x where x: "tab ir_handle t h = Some x" by blast
    then have "q x" using q(1) [of x] tab_key [OF x] by simp
    with True x r [OF x] show ?thesis by (simp add: tab_sql_update q(2))
  next
    case False
    have "map_option (\<lambda>r. if q r then g r else r) (tab ir_handle t j) = tab ir_handle t j"
      using q(1) tab_key [of ir_handle t j] False by (cases "tab ir_handle t j") auto
    with False a show ?thesis by (simp add: tab_sql_update q(2) invites_agree_def)
  qed
  ultimately show ?thesis using k by (simp add: invites_agree_def keyed_sql_update q(2,3))
qed

subsection \<open>Transactions\<close>

lemma persist_Inr:
  assumes "invites_inv T s" "time_ok now" "invites_persist f now fn s = Inr db"
  shows "is_db s = None \<and> db = None \<or>
    (\<exists>t t1 t'. is_db s = Some t \<and> f = TxOk \<and> t1 = map (sweep_row now) t \<and> fn t1 = Inr t' \<and> db = Some t' \<and>
       invites_agree (max T now) (invites_view s) t1)"
proof (cases "is_db s")
  case None
  with assms(3) show ?thesis by (simp add: invites_persist_def)
next
  case (Some t)
  then have a: "invites_agree T (invites_view s) t" using assms(1) by (simp add: invites_inv_def)
  then have "sweepAgedPending now t = Inr (map (sweep_row now) t)" by (simp add: sweep_ok invites_agree_def)
  with assms(3) Some agree_sweep [OF a assms(2)] show ?thesis
    by (auto simp: invites_persist_def run_tx_Inr_iff split: sum.splits)
qed

lemma persist_healthy:
  assumes "invites_inv T s" "time_ok now"
    and "\<And>t. is_db s = Some t \<Longrightarrow> invites_agree (max T now) (invites_view s) (map (sweep_row now) t) \<Longrightarrow> \<exists>t'. fn (map (sweep_row now) t) = Inr t'"
  shows "\<exists>db. invites_persist TxOk now fn s = Inr db"
proof (cases "is_db s")
  case None
  then show ?thesis by (simp add: invites_persist_def)
next
  case (Some t)
  then have a: "invites_agree T (invites_view s) t" using assms(1) by (simp add: invites_inv_def)
  then have "sweepAgedPending now t = Inr (map (sweep_row now) t)" by (simp add: sweep_ok invites_agree_def)
  with Some assms(3) [OF Some agree_sweep [OF a assms(2)]] show ?thesis by (auto simp: invites_persist_def)
qed

lemma exec_Inr_iff:
  "invites_exec n q g t = Inr t' \<longleftrightarrow> t' = snd (sql_update q g t) \<and> length (filter q t) = n \<and>
     (\<forall>r \<in> set t. q r \<longrightarrow> status_forward (ir_status r) (ir_status (g r)) \<and> invites_check (g r))"
  by (auto simp: invites_exec_def invites_update_def sql_update_def list_ex_iff split: sum.splits if_splits)

lemma invites_view_at: "map_of (is_byHandle s) h = Some p \<Longrightarrow> invites_view s h = Some (is_cells s ! p)"
  by (simp add: invites_view_def deref_def)

lemma invites_dual: "invites_inv T s \<Longrightarrow> dual_wf iv_Handle iv_LeaseID (is_cells s) (is_byHandle s) (is_byLease s)"
  by (simp add: invites_inv_def)

lemma invites_view_key: "invites_inv T s \<Longrightarrow> invites_view s h = Some iv \<Longrightarrow> iv_Handle iv = h"
  unfolding invites_view_def by (rule deref_key [OF invites_dual])

lemma view_invite_ok: "invites_inv T s \<Longrightarrow> invites_view s h = Some iv \<Longrightarrow> invite_ok iv"
  by (simp add: invites_inv_def)

text \<open>
  One record is committed: the transaction that goes through changes the row of that handle
  coherently; then so is the store, with the new record or, after a fault, as it was.
\<close>

definition changes_row :: "time \<Rightarrow> string \<Rightarrow> invite \<Rightarrow> (invite_row \<Rightarrow> bool) \<Rightarrow> (invite_row \<Rightarrow> invite_row) \<Rightarrow> invite_row list \<Rightarrow> bool" where
  "changes_row T h nxt q g t \<longleftrightarrow> (\<forall>r \<in> set t. q r \<longleftrightarrow> ir_handle r = h) \<and>
     (\<forall>r. ir_handle (g r) = ir_handle r \<and> ir_lease_id (g r) = ir_lease_id r) \<and>
     (\<forall>r. tab ir_handle t h = Some r \<longrightarrow> row_ok (g r) \<and> coherent T nxt (g r))"

lemma commit_invite_inv:
  assumes inv: "invites_inv T s" and n: "time_ok now" and p: "map_of (is_byHandle s) h = Some p"
    and nxt: "iv_Handle nxt = iv_Handle (is_cells s ! p)" "iv_LeaseID nxt = iv_LeaseID (is_cells s ! p)" "invite_ok nxt"
    and ch: "\<And>t t'. invites_agree (max T now) (invites_view s) t \<Longrightarrow> invites_exec k q g t = Inr t' \<Longrightarrow> changes_row (max T now) h nxt q g t"
    and s': "s' = snd (commit_invite f now (invites_exec k q g) p nxt s)"
  shows "invites_inv (max T now) s' \<and> (is_db s' = None \<longleftrightarrow> is_db s = None) \<and>
    (fst (commit_invite f now (invites_exec k q g) p nxt s) = Inr () \<longrightarrow> invites_view s' = (invites_view s)(h \<mapsto> nxt)) \<and>
    (fst (commit_invite f now (invites_exec k q g) p nxt s) \<noteq> Inr () \<longrightarrow> s' = s)"
proof (cases "invites_persist f now (invites_exec k q g) s")
  case (Inl e)
  with inv inv_mono [OF inv, of "max T now"] show ?thesis by (simp add: s' commit_invite_def)
next
  case (Inr db)
  have s'': "s' = s\<lparr>is_cells := (is_cells s)[p := nxt], is_db := db\<rparr>" by (simp add: s' commit_invite_def Inr)
  have v: "invites_view s' = (invites_view s)(h \<mapsto> nxt)"
    using deref_modify [OF invites_dual [OF inv] p, of nxt] by (simp add: s'' invites_view_def)
  have "dual_wf iv_Handle iv_LeaseID (is_cells s') (is_byHandle s') (is_byLease s')"
    using dual_wf_modify [OF invites_dual [OF inv] nxt(1,2)] by (simp add: s'')
  moreover have "invite_ok iv" if "invites_view s' j = Some iv" for j iv
    using that v nxt(3) view_invite_ok [OF inv, of j iv] by (auto split: if_splits)
  moreover note P = persist_Inr [OF inv n Inr]
  have "invites_agree (max T now) (invites_view s') t'" if t': "is_db s' = Some t'" for t'
  proof -
    from P t' obtain t1 where t1: "invites_exec k q g t1 = Inr t'" "invites_agree (max T now) (invites_view s) t1"
      by (auto simp: s'')
    from ch [OF t1(2,1)] agree_row [OF t1(2) invites_view_at [OF p]]
    have "invites_agree (max T now) ((invites_view s)(h \<mapsto> nxt)) (snd (sql_update q g t1))"
      by (intro agree_update [OF t1(2)]) (auto simp: changes_row_def)
    with t1(1) v show ?thesis by (simp add: exec_Inr_iff)
  qed
  moreover have "is_db s' = None \<longleftrightarrow> is_db s = None" using P by (auto simp: s'')
  ultimately show ?thesis using v by (simp add: invites_inv_def commit_invite_def Inr)
qed

subsection \<open>The life of an invite\<close>

inductive moves :: "invite \<Rightarrow> invite \<Rightarrow> bool" where
  consume: "iv_Status iv = StatusPending \<Longrightarrow> moves iv (voided StatusConsumed iv)"
| expire: "iv_Status iv = StatusPending \<Longrightarrow> moves iv (voided StatusExpired iv)"
| revoke: "iv_Status iv = StatusPending \<Longrightarrow> moves iv (voided StatusRevoked iv)"
| compromise: "iv_Status iv = StatusConsumed \<Longrightarrow> moves iv (iv\<lparr>iv_Status := StatusCompromised\<rparr>)"

inductive_simps moves_iff: "moves iv iv'"

text \<open>An event takes the store from \<open>s\<close> to \<open>s'\<close> coherently, moving invites forward and losing none.\<close>

definition good_step :: "time \<Rightarrow> invite_store \<Rightarrow> invite_store \<Rightarrow> bool" where
  "good_step T s s' \<longleftrightarrow> invites_inv T s' \<and> (is_db s' = None \<longleftrightarrow> is_db s = None) \<and>
     (\<forall>h iv. invites_view s h = Some iv \<longrightarrow> (\<exists>iv'. invites_view s' h = Some iv' \<and> moves\<^sup>*\<^sup>* iv iv'))"

lemma good_idle: "invites_inv T s \<Longrightarrow> T \<le> T' \<Longrightarrow> good_step T' s s"
  by (auto simp: good_step_def intro: inv_mono)

lemma changes_scrub:
  assumes a: "invites_agree T v t" and v: "v h = Some iv" and st: "st \<in> {StatusConsumed, StatusExpired, StatusRevoked}"
    and q: "\<forall>r \<in> set t. q r \<longleftrightarrow> ir_handle r = h"
  shows "changes_row T h (voided st iv) q (scrub_row st) t"
proof -
  from agree_row [OF a v] obtain r where r: "tab ir_handle t h = Some r" "coherent T iv r" "row_ok r" by blast
  then have "invite_of_row (scrub_row st r) = voided st iv" by (auto simp: coherent_def)
  with r st q show ?thesis by (simp add: changes_row_def coherent_def)
qed

lemma commit_scrub:
  assumes inv: "invites_inv T s" and n: "time_ok now" and p: "map_of (is_byHandle s) h = Some p"
    and st: "st \<in> {StatusConsumed, StatusExpired, StatusRevoked}" and pend: "iv_Status (is_cells s ! p) = StatusPending"
    and q: "\<And>t t'. invites_agree (max T now) (invites_view s) t \<Longrightarrow> invites_exec k q (scrub_row st) t = Inr t' \<Longrightarrow>
      \<forall>r \<in> set t. q r \<longleftrightarrow> ir_handle r = h"
    and c: "c = commit_invite f now (invites_exec k q (scrub_row st)) p (voided st (is_cells s ! p)) s"
  shows "good_step (max T now) s (snd c) \<and>
    (fst c = Inr () \<longrightarrow> invites_view (snd c) = (invites_view s)(h \<mapsto> voided st (is_cells s ! p))) \<and>
    (fst c \<noteq> Inr () \<longrightarrow> snd c = s)"
proof -
  let ?iv = "is_cells s ! p"
  note v = invites_view_at [OF p]
  have ok: "invite_ok (voided st ?iv)" using view_invite_ok [OF inv v] st by (auto simp: invite_ok_def)
  have sel: "iv_Handle (voided st ?iv) = iv_Handle ?iv" "iv_LeaseID (voided st ?iv) = iv_LeaseID ?iv" by simp_all
  have C: "changes_row (max T now) h (voided st ?iv) q (scrub_row st) t"
    if "invites_agree (max T now) (invites_view s) t" "invites_exec k q (scrub_row st) t = Inr t'" for t t'
    by (rule changes_scrub [OF that(1) v st q [OF that]])
  have I: "invites_inv (max T now) (snd c) \<and> (is_db (snd c) = None \<longleftrightarrow> is_db s = None) \<and>
    (fst c = Inr () \<longrightarrow> invites_view (snd c) = (invites_view s)(h \<mapsto> voided st ?iv)) \<and> (fst c \<noteq> Inr () \<longrightarrow> snd c = s)"
    unfolding c by (rule commit_invite_inv [OF inv n p sel ok _ refl]) (rule C)
  have m: "moves ?iv (voided st ?iv)" using st pend by (auto intro: moves.intros)
  have "\<exists>iv'. invites_view (snd c) j = Some iv' \<and> moves\<^sup>*\<^sup>* iv iv'" if "invites_view s j = Some iv" for j iv
  proof (cases "fst c = Inr ()")
    case True
    with I that v m show ?thesis by (cases "j = h") auto
  next
    case False
    with I that show ?thesis by simp
  qed
  with I show ?thesis by (simp add: good_step_def)
qed

lemma cas_row:
  assumes "invites_agree T v t" "invites_exec 1 (\<lambda>r. by_handle h r \<and> ir_status r = StatusPending) g t = Inr t'"
  shows "\<forall>r \<in> set t. by_handle h r \<and> ir_status r = StatusPending \<longleftrightarrow> ir_handle r = h"
proof -
  have k: "keyed ir_handle t" using assms(1) by (simp add: invites_agree_def)
  from assms(2) have "length (filter (\<lambda>r. ir_handle r = h \<and> ir_status r = StatusPending) t) = 1"
    by (simp add: exec_Inr_iff by_handle_def)
  with count_key_and [OF k, of h "\<lambda>r. ir_status r = StatusPending"] obtain x
    where "tab ir_handle t h = Some x" "ir_status x = StatusPending"
    by (auto split: option.splits if_splits)
  with k have "ir_status r = StatusPending" if "r \<in> set t" "ir_handle r = h" for r
    using that tab_Some_iff [OF k] by (metis option.inject)
  then show ?thesis by (auto simp: by_handle_def)
qed

lemma gate_pending: "invite_ok iv \<Longrightarrow> statusGateLocked iv now = None \<longleftrightarrow> iv_Status iv = StatusPending \<and> \<not> isExpiredAt iv now"
  by (auto simp: statusGateLocked_def invite_ok_def)

text \<open>\<open>Unwrap\<close>: a token comes out only together with the consumed record.\<close>

lemma Unwrap_step:
  assumes inv: "invites_inv T s" and n: "time_ok now" and u: "u = Unwrap f now h s"
  shows "good_step (max T now) s (snd u) \<and>
    (\<forall>tok mid. fst u = Inr (tok, mid) \<longrightarrow> (\<exists>iv. invites_view s h = Some iv \<and> statusGateLocked iv now = None \<and>
       tok = iv_TokenValue iv \<and> mid = iv_MemberID iv \<and> invites_view (snd u) = (invites_view s)(h \<mapsto> voided StatusConsumed iv)))"
proof (cases "map_of (is_byHandle s) h")
  case None
  with inv show ?thesis by (simp add: u Unwrap_def good_idle)
next
  case (Some p)
  let ?iv = "is_cells s ! p"
  note v = invites_view_at [OF Some] and ok = view_invite_ok [OF inv invites_view_at [OF Some]]
  show ?thesis
  proof (cases "statusGateLocked ?iv now")
    case None
    then have pend: "iv_Status ?iv = StatusPending" using ok by (simp add: gate_pending)
    define c where "c = commit_invite f now
        (invites_exec 1 (\<lambda>r. by_handle h r \<and> ir_status r = StatusPending) (scrub_row StatusConsumed)) p (voided StatusConsumed ?iv) s"
    have C: "good_step (max T now) s (snd c) \<and> (fst c = Inr () \<longrightarrow> invites_view (snd c) = (invites_view s)(h \<mapsto> voided StatusConsumed ?iv))"
      using commit_scrub [OF inv n Some _ pend cas_row c_def] by simp
    have "u = (case c of (Inl e, s') \<Rightarrow> (Inl e, s') | (Inr _, s') \<Rightarrow> (Inr (iv_TokenValue ?iv, iv_MemberID ?iv), s'))"
      by (simp add: u Unwrap_def Some None Let_def c_def)
    then show ?thesis using C v None by (auto split: prod.splits sum.splits)
  next
    case G: (Some e)
    show ?thesis
    proof (cases "isErrInviteExpired e \<and> iv_Status ?iv = StatusPending")
      case True
      define c where "c = commit_invite f now (invites_exec 1 (by_handle h) (scrub_row StatusExpired)) p (voided StatusExpired ?iv) s"
      have "good_step (max T now) s (snd c)"
        using commit_scrub [OF inv n Some _ _ _ c_def] True by (simp add: by_handle_def)
      moreover have "u = (case c of (_, s') \<Rightarrow> (Inl e, s'))" using True by (simp add: u Unwrap_def Some G Let_def c_def)
      ultimately show ?thesis by (simp split: prod.splits)
    next
      case False
      then have "u = (Inl e, s)" by (auto simp: u Unwrap_def Some G Let_def)
      with inv show ?thesis by (simp add: good_idle)
    qed
  qed
qed

lemma RevokePending_step:
  assumes inv: "invites_inv T s" and n: "time_ok now"
  shows "good_step (max T now) s (snd (RevokePending f now h s))"
proof (cases "map_of (is_byHandle s) h")
  case None
  with inv show ?thesis by (simp add: RevokePending_def good_idle)
next
  case (Some p)
  show ?thesis
  proof (cases "iv_Status (is_cells s ! p) = StatusPending")
    case True
    define st where "st = (if isExpiredAt (is_cells s ! p) now then StatusExpired else StatusRevoked)"
    have st: "st \<in> {StatusConsumed, StatusExpired, StatusRevoked}" by (simp add: st_def)
    from commit_scrub [OF inv n Some st True _ refl, of 1 "by_handle h" f]
    show ?thesis by (simp add: RevokePending_def Some True Let_def st_def by_handle_def)
  qed (use inv in \<open>simp add: RevokePending_def Some good_idle\<close>)
qed

lemma compromise_row:
  assumes a: "invites_agree T v t" and v: "v h = Some iv" and c: "iv_Status iv = StatusConsumed" "iv_LeaseID iv = l"
  shows "changes_row T h (iv\<lparr>iv_Status := StatusCompromised\<rparr>) (\<lambda>r. ir_lease_id r = l) (\<lambda>r. r\<lparr>ir_status := StatusCompromised\<rparr>) t"
proof -
  have k: "keyed ir_handle t" "keyed ir_lease_id t" using a by (simp_all add: invites_agree_def)
  from agree_row [OF a v] obtain r where r: "tab ir_handle t h = Some r" "coherent T iv r" "row_ok r" by blast
  with c have ir: "invite_of_row r = iv" by (auto simp: coherent_def)
  with c have "ir_lease_id r = l" "ir_status r = StatusConsumed" by auto
  with r(1) tab_key [OF r(1)] have "x = r" if "x \<in> set t" "ir_lease_id x = l \<or> ir_handle x = h" for x
    using that k tab_Some_iff [OF k(1)] tab_Some_iff [OF k(2)] by (metis option.inject)
  with tab_key [OF r(1)] \<open>ir_lease_id r = l\<close> have "\<forall>x \<in> set t. ir_lease_id x = l \<longleftrightarrow> ir_handle x = h" by blast
  moreover have "row_ok (r\<lparr>ir_status := StatusCompromised\<rparr>)"
    using r(3) \<open>ir_status r = StatusConsumed\<close> by (auto simp: row_ok_def invites_check_def expiry_ok_def)
  moreover have "invite_of_row (r\<lparr>ir_status := StatusCompromised\<rparr>) = iv\<lparr>iv_Status := StatusCompromised\<rparr>"
    unfolding ir [symmetric] by (simp add: invite_of_row_def)
  ultimately show ?thesis using r(1) by (simp add: changes_row_def coherent_def)
qed

lemma ReportCompromise_step:
  assumes inv: "invites_inv T s" and n: "time_ok now"
  shows "good_step (max T now) s (snd (ReportCompromise f now l s))"
proof (cases "map_of (is_byLease s) l")
  case None
  with inv show ?thesis by (simp add: ReportCompromise_def good_idle)
next
  case (Some p)
  let ?iv = "is_cells s ! p" and ?nxt = "(is_cells s ! p)\<lparr>iv_Status := StatusCompromised\<rparr>"
  have p: "map_of (is_byHandle s) (iv_Handle ?iv) = Some p" "iv_LeaseID ?iv = l"
    using dual_wf2 [OF invites_dual [OF inv] Some] by simp_all
  note v = invites_view_at [OF p(1)]
  show ?thesis
  proof (cases "iv_Status ?iv = StatusConsumed")
    case True
    have ok: "invite_ok ?nxt" using view_invite_ok [OF inv v] True by (auto simp: invite_ok_def expiry_ok_def)
    have sel: "iv_Handle ?nxt = iv_Handle ?iv" "iv_LeaseID ?nxt = iv_LeaseID ?iv" by simp_all
    define c where "c = commit_invite f now (invites_exec 1 (\<lambda>r. ir_lease_id r = l) (\<lambda>r. r\<lparr>ir_status := StatusCompromised\<rparr>)) p ?nxt s"
    have I: "invites_inv (max T now) (snd c) \<and> (is_db (snd c) = None \<longleftrightarrow> is_db s = None) \<and>
      (fst c = Inr () \<longrightarrow> invites_view (snd c) = (invites_view s)(iv_Handle ?iv \<mapsto> ?nxt)) \<and> (fst c \<noteq> Inr () \<longrightarrow> snd c = s)"
      unfolding c_def
      by (rule commit_invite_inv [OF inv n p(1) sel ok _ refl]) (rule compromise_row [where v = "invites_view s", OF _ v True p(2)])
    have "\<exists>iv'. invites_view (snd c) j = Some iv' \<and> moves\<^sup>*\<^sup>* iv iv'" if j: "invites_view s j = Some iv" for j iv
    proof (cases "fst c = Inr () \<and> j = iv_Handle ?iv")
      case T: True
      with j v have "iv = ?iv" by simp
      with T I moves.compromise [OF True] show ?thesis by auto
    next
      case False
      with I j show ?thesis by (cases "fst c = Inr ()") auto
    qed
    with I have "good_step (max T now) s (snd c)" by (simp add: good_step_def)
    then show ?thesis by (simp add: ReportCompromise_def Some True Let_def c_def)
  qed (use inv in \<open>simp add: ReportCompromise_def Some good_idle\<close>)
qed

subsection \<open>Issuing\<close>

lemma issued_sel [simp]:
  "iv_Handle (issued h l now p) = h" "iv_LeaseID (issued h l now p) = l" "iv_Status (issued h l now p) = StatusPending"
  "iv_TokenValue (issued h l now p) = ip_TokenValue p" "iv_MemberID (issued h l now p) = ip_MemberID p"
  "iv_ExpiresAt (issued h l now p) = FormatTime (now + ip_TTL p)"
  by (simp_all add: issued_def)

lemma row_of_invite_sel [simp]:
  "ir_handle (row_of_invite iv) = iv_Handle iv" "ir_lease_id (row_of_invite iv) = iv_LeaseID iv"
  "ir_status (row_of_invite iv) = iv_Status iv" "ir_expires_at (row_of_invite iv) = Some (iv_ExpiresAt iv)"
  "ir_member_id (row_of_invite iv) = iv_MemberID iv" "ir_token_value (row_of_invite iv) = Some (iv_TokenValue iv)"
  by (simp_all add: row_of_invite_def)

lemma invites_insert_Inr_iff:
  "invites_insert r t = Inr t' \<longleftrightarrow>
     invites_check r \<and> tab ir_handle t (ir_handle r) = None \<and> tab ir_lease_id t (ir_lease_id r) = None \<and> t' = t @ [r]"
  by (auto simp: invites_insert_def list_ex_key)

lemma agree_insert:
  assumes a: "invites_agree T v t" and r: "row_ok r" "tab ir_handle t (ir_handle r) = None" "tab ir_lease_id t (ir_lease_id r) = None"
  shows "invites_agree T (v(ir_handle r \<mapsto> invite_of_row r)) (t @ [r])"
  using assms by (auto simp: invites_agree_def keyed_insert tab_insert coherent_def)

lemma Issue_step:
  assumes inv: "invites_inv T s" and n: "time_ok now" "time_ok (now + ip_TTL p)" and u: "u = Issue f rnd1 rnd2 now p s"
  shows "good_step (max T now) s (snd u) \<and>
    (\<forall>b. fst u = Inr b \<longrightarrow> (\<exists>l. b = clearBundle (issued (cb_Handle b) l now p) \<and> invites_view s (cb_Handle b) = None \<and>
       ip_TokenValue p \<noteq> [] \<and> invites_view (snd u) = (invites_view s)(cb_Handle b \<mapsto> issued (cb_Handle b) l now p)))"
proof (cases "fst u")
  case (Inl e)
  then have "snd u = s" by (auto simp: u Issue_def Let_def split: if_splits option.splits sum.splits)
  with inv Inl show ?thesis by (simp add: good_idle)
next
  case (Inr b)
  then obtain h l db where hl: "randHex rnd1 = Some h" "randHex rnd2 = Some l" "map_of (is_byHandle s) h = None"
      "map_of (is_byLease s) l = None" and tok: "ip_TokenValue p \<noteq> []"
      and db: "invites_persist f now (invites_insert (row_of_invite (issued h l now p))) s = Inr db"
      and b: "b = clearBundle (issued h l now p)"
      and s': "snd u = s\<lparr>is_cells := is_cells s @ [issued h l now p], is_byHandle := AList.update h (length (is_cells s)) (is_byHandle s),
        is_byLease := AList.update l (length (is_cells s)) (is_byLease s), is_db := db\<rparr>"
    by (auto simp: u Issue_def Let_def split: if_splits option.splits sum.splits)
  let ?iv = "issued h l now p" and ?s' = "snd u"
  note P = persist_Inr [OF inv n(1) db]
  have v: "invites_view ?s' = (invites_view s)(h \<mapsto> ?iv)"
    using deref_insert [OF invites_dual [OF inv], of ?iv h] by (simp add: s' invites_view_def)
  have vn: "invites_view s h = None" using hl by (simp add: invites_view_def deref_def)
  have ok: "invite_ok ?iv" using n(2) by (auto simp: invite_ok_def expiry_ok_def)
  have row: "row_ok (row_of_invite ?iv)"
    using n(2) randHex_shape [OF hl(1)] randHex_shape [OF hl(2)]
    by (auto simp: row_ok_def invites_check_def hex32_def expiry_ok_def)
  have "dual_wf iv_Handle iv_LeaseID (is_cells ?s') (is_byHandle ?s') (is_byLease ?s')"
    using dual_wf_insert [OF invites_dual [OF inv], of ?iv] hl by (simp add: s')
  moreover have "invite_ok iv" if "invites_view ?s' j = Some iv" for j iv
    using that v ok view_invite_ok [OF inv, of j iv] by (auto split: if_splits)
  moreover have "invites_agree (max T now) (invites_view ?s') t'" if t': "is_db ?s' = Some t'" for t'
  proof -
    from P t' obtain t1 where "invites_insert (row_of_invite ?iv) t1 = Inr t'" "invites_agree (max T now) (invites_view s) t1"
      by (auto simp: s')
    with agree_insert [OF _ row, of "max T now" "invites_view s" t1] v show ?thesis by (simp add: invites_insert_Inr_iff)
  qed
  moreover have "is_db ?s' = None \<longleftrightarrow> is_db s = None" using P by (auto simp: s')
  moreover have "\<exists>iv'. invites_view ?s' j = Some iv' \<and> moves\<^sup>*\<^sup>* iv iv'" if "invites_view s j = Some iv" for j iv
    using that v vn by (cases "j = h") auto
  ultimately have "good_step (max T now) s ?s'" by (simp add: good_step_def invites_inv_def)
  moreover have "cb_Handle b = h" by (simp add: b clearBundle_def)
  ultimately show ?thesis using Inr b v vn tok by auto
qed

subsection \<open>Cancelling all invites of a member\<close>

lemma dual_wf_pointers: "dual_wf k1 k2 h i1 i2 \<Longrightarrow> distinct (map snd i1)"
proof -
  assume d: "dual_wf k1 k2 h i1 i2"
  then have k: "distinct (map fst i1)" by (simp add: dual_wf_def)
  then have "k1 (h ! p) = a" if "(a, p) \<in> set i1" for a p
    using that dual_wf1 [OF d, of a p] by (simp add: map_of_is_SomeI)
  then have "inj_on snd (set i1)" by (intro inj_onI) (metis prod.collapse)
  with k show ?thesis by (simp add: distinct_map)
qed

lemma dual_wf_cells:
  assumes "dual_wf k1 k2 h i1 i2" "length h' = length h" "\<And>q. k1 (h' ! q) = k1 (h ! q)" "\<And>q. k2 (h' ! q) = k2 (h ! q)"
  shows "dual_wf k1 k2 h' i1 i2"
  using assms by (simp add: dual_wf_def)

lemma fold_update_cells:
  assumes "distinct ps" "\<forall>p \<in> set ps. p < length xs"
  shows "length (fold (\<lambda>p h. h[p := g (h ! p)]) ps xs) = length xs \<and>
    fold (\<lambda>p h. h[p := g (h ! p)]) ps xs ! q = (if q \<in> set ps then g (xs ! q) else xs ! q)"
  using assms by (induction ps arbitrary: xs) (auto simp: nth_list_update)

definition cancel :: "string \<Rightarrow> time \<Rightarrow> invite \<Rightarrow> invite" where
  "cancel m now iv =
     (if iv_MemberID iv = m \<and> iv_Status iv = StatusPending
      then voided (if isExpiredAt iv now then StatusExpired else StatusRevoked) iv else iv)"

lemma cancel_sel [simp]: "iv_Handle (cancel m now iv) = iv_Handle iv" "iv_LeaseID (cancel m now iv) = iv_LeaseID iv"
  by (simp_all add: cancel_def)

lemma cancel_void: "iv_MemberID (cancel m now iv) = iv_MemberID iv" "iv_MemberID iv = m \<Longrightarrow> iv_Status (cancel m now iv) \<noteq> StatusPending"
  by (simp_all add: cancel_def)

lemma cancel_ok: "invite_ok iv \<Longrightarrow> invite_ok (cancel m now iv)"
  by (auto simp: cancel_def invite_ok_def)

lemma cancel_moves: "moves\<^sup>*\<^sup>* iv (cancel m now iv)"
  by (auto simp: cancel_def intro: moves.intros)

lemma pending_of_iff:
  assumes "invites_inv T s" "map_of (is_byHandle s) h = Some p"
  shows "p \<in> set (pending_of m s) \<longleftrightarrow> iv_MemberID (is_cells s ! p) = m \<and> iv_Status (is_cells s ! p) = StatusPending"
  using map_of_SomeD [OF assms(2)] by (force simp: pending_of_def)

lemma pending_of_ptr:
  assumes "invites_inv T s" "p \<in> set (pending_of m s)"
  shows "p < length (is_cells s) \<and> map_of (is_byHandle s) (iv_Handle (is_cells s ! p)) = Some p"
proof -
  have d: "distinct (map fst (is_byHandle s))" using invites_dual [OF assms(1)] by (simp add: dual_wf_def)
  obtain h where "map_of (is_byHandle s) h = Some p"
    using assms(2) d by (auto simp: pending_of_def dest: map_of_is_SomeI)
  with dual_wf1 [OF invites_dual [OF assms(1)] this] show ?thesis by simp
qed

definition cancel_cells :: "string \<Rightarrow> time \<Rightarrow> invite_store \<Rightarrow> invite list" where
  "cancel_cells m now s =
     fold (\<lambda>p h. h[p := voided StatusExpired (h ! p)]) (filter (\<lambda>p. isExpiredAt (is_cells s ! p) now) (pending_of m s))
       (fold (\<lambda>p h. h[p := voided StatusRevoked (h ! p)]) (filter (\<lambda>p. \<not> isExpiredAt (is_cells s ! p) now) (pending_of m s)) (is_cells s))"

lemma cancel_cells_nth:
  assumes "invites_inv T s"
  shows "length (cancel_cells m now s) = length (is_cells s) \<and>
    (q \<in> snd ` set (is_byHandle s) \<longrightarrow> cancel_cells m now s ! q = cancel m now (is_cells s ! q)) \<and>
    iv_Handle (cancel_cells m now s ! q) = iv_Handle (is_cells s ! q) \<and> iv_LeaseID (cancel_cells m now s ! q) = iv_LeaseID (is_cells s ! q)"
proof -
  have d: "distinct (pending_of m s)" using dual_wf_pointers [OF invites_dual [OF assms]] by (simp add: pending_of_def)
  have l: "\<forall>p \<in> set (pending_of m s). p < length (is_cells s)" using pending_of_ptr [OF assms] by blast
  let ?live = "filter (\<lambda>p. \<not> isExpiredAt (is_cells s ! p) now) (pending_of m s)"
  let ?aged = "filter (\<lambda>p. isExpiredAt (is_cells s ! p) now) (pending_of m s)"
  let ?h1 = "fold (\<lambda>p h. h[p := voided StatusRevoked (h ! p)]) ?live (is_cells s)"
  have 1: "length ?h1 = length (is_cells s) \<and> ?h1 ! q = (if q \<in> set ?live then voided StatusRevoked (is_cells s ! q) else is_cells s ! q)" for q
    by (rule fold_update_cells) (use d l in auto)
  have 2: "length (cancel_cells m now s) = length ?h1 \<and>
      cancel_cells m now s ! q = (if q \<in> set ?aged then voided StatusExpired (?h1 ! q) else ?h1 ! q)" for q
    unfolding cancel_cells_def by (rule fold_update_cells) (use d l 1 in auto)
  have "q \<in> set (pending_of m s) \<longleftrightarrow> iv_MemberID (is_cells s ! q) = m \<and> iv_Status (is_cells s ! q) = StatusPending"
    if "q \<in> snd ` set (is_byHandle s)" using that by (auto simp: pending_of_def)
  then show ?thesis using 1 2 by (auto simp: cancel_def)
qed

text \<open>The rows a cancellation updates belong to live invites of the member.\<close>

abbreviation pending_rows :: "string \<Rightarrow> time \<Rightarrow> invite_row list \<Rightarrow> invite_row list" where
  "pending_rows m now t \<equiv> filter (\<lambda>r. ir_member_id r = m \<and> ir_status r = StatusPending) (map (sweep_row now) t)"

abbreviation live_of :: "string \<Rightarrow> time \<Rightarrow> invite_store \<Rightarrow> nat list" where
  "live_of m now s \<equiv> filter (\<lambda>p. \<not> isExpiredAt (is_cells s ! p) now) (pending_of m s)"

lemma pending_rows_handles:
  assumes inv: "invites_inv T s" and n: "time_ok now" and a: "invites_agree T' (invites_view s) (map (sweep_row now) t)" "list_all row_ok t"
  shows "ir_handle ` set (pending_rows m now t) \<subseteq> (\<lambda>p. iv_Handle (is_cells s ! p)) ` set (live_of m now s)"
    and "card ((\<lambda>p. iv_Handle (is_cells s ! p)) ` set (live_of m now s)) = length (live_of m now s)"
    and "card (ir_handle ` set (pending_rows m now t)) = length (pending_rows m now t)"
proof -
  let ?H = "\<lambda>p. iv_Handle (is_cells s ! p)"
  have k: "keyed ir_handle (map (sweep_row now) t)" using a(1) by (simp add: invites_agree_def)
  have "inj_on ?H (set (live_of m now s))"
    using pending_of_ptr [OF inv] by (intro inj_onI) (metis filter_is_subset option.inject subsetD)
  moreover have "distinct (live_of m now s)" using dual_wf_pointers [OF invites_dual [OF inv]] by (simp add: pending_of_def)
  ultimately show "card (?H ` set (live_of m now s)) = length (live_of m now s)" by (metis card_image distinct_card)
  have "distinct (map ir_handle (pending_rows m now t))" using k unfolding keyed_def by (rule distinct_map_filter)
  from distinct_card [OF this] show "card (ir_handle ` set (pending_rows m now t)) = length (pending_rows m now t)"
    unfolding set_map length_map .
  show "ir_handle ` set (pending_rows m now t) \<subseteq> ?H ` set (live_of m now s)"
  proof (intro subsetI, elim imageE)
    fix h r
    assume h: "h = ir_handle r" and r: "r \<in> set (pending_rows m now t)"
    from r obtain r0 where r0: "r0 \<in> set t" "r = sweep_row now r0" "ir_member_id r = m" "ir_status r = StatusPending" by auto
    then have ok: "row_ok r0" using a(2) by (simp add: list_all_iff)
    from r0 have "\<not> aged_pending now r0" by (auto simp: sweep_row_def split: if_splits)
    then have r: "r = r0" "\<not> isExpiredAt (invite_of_row r) now" using r0 aged_pending_iff [OF ok n] by (auto simp: sweep_row_def)
    have "tab ir_handle (map (sweep_row now) t) h = Some r" using r0 k h by (simp add: tab_Some_iff)
    then obtain iv where iv: "invites_view s h = Some iv" "coherent T' iv r"
      using agree_none [OF a(1), of h] agree_row [OF a(1), of h] by fastforce
    then have ivr: "iv = invite_of_row r" using r0(4) by (auto simp: coherent_def dest: arg_cong [of _ _ iv_Status])
    obtain p where p: "map_of (is_byHandle s) h = Some p" "is_cells s ! p = iv"
      using iv(1) by (auto simp: invites_view_def deref_def)
    with pending_of_iff [OF inv p(1), of m] ivr r0 r have "p \<in> set (live_of m now s)" by simp
    moreover have "?H p = h" using p ivr h by simp
    ultimately show "h \<in> ?H ` set (live_of m now s)" by force
  qed
qed

text \<open>The count the transaction insists on pins down which rows are still pending.\<close>

lemma pending_rows_live:
  assumes inv: "invites_inv T s" and n: "time_ok now" and a: "invites_agree T' (invites_view s) (map (sweep_row now) t)" "list_all row_ok t"
    and c: "length (pending_rows m now t) = length (live_of m now s)"
    and h: "invites_view s h = Some iv" "iv_MemberID iv = m" "iv_Status iv = StatusPending" "\<not> isExpiredAt iv now"
  shows "\<exists>r. tab ir_handle (map (sweep_row now) t) h = Some r \<and> ir_status r = StatusPending"
proof -
  let ?H = "\<lambda>p. iv_Handle (is_cells s ! p)"
  note H = pending_rows_handles [OF inv n a, of m]
  have eq: "ir_handle ` set (pending_rows m now t) = ?H ` set (live_of m now s)"
    using card_subset_eq [OF _ H(1)] H(2,3) c by (metis finite_imageI finite_set)
  obtain p where p: "map_of (is_byHandle s) h = Some p" "is_cells s ! p = iv"
    using h(1) by (auto simp: invites_view_def deref_def)
  with pending_of_iff [OF inv p(1), of m] h have "p \<in> set (live_of m now s)" by simp
  moreover have "?H p = h" using invites_view_key [OF inv h(1)] p by simp
  ultimately have "h \<in> ir_handle ` set (pending_rows m now t)" unfolding eq by force
  then obtain r where "r \<in> set (pending_rows m now t)" "ir_handle r = h" by blast
  moreover have "keyed ir_handle (map (sweep_row now) t)" using a(1) by (simp add: invites_agree_def)
  ultimately show ?thesis by (auto simp: tab_Some_iff)
qed

lemma coherent_cancel:
  assumes "coherent T iv r" "ir_status r = StatusPending \<longrightarrow> \<not> isExpiredAt iv now"
    "iv_MemberID iv = m \<and> iv_Status iv = StatusPending \<and> \<not> isExpiredAt iv now \<longrightarrow> ir_status r = StatusPending"
  shows "coherent T (cancel m now iv) (if ir_member_id r = m \<and> ir_status r = StatusPending then scrub_row StatusRevoked r else r)"
  using assms coherent_sel [OF assms(1)] by (auto simp: coherent_def cancel_def)

lemma agree_cancel:
  assumes inv: "invites_inv T s" and n: "time_ok now" and a: "invites_agree T' (invites_view s) (map (sweep_row now) t)" "list_all row_ok t"
    and c: "length (pending_rows m now t) = length (live_of m now s)"
  shows "invites_agree T' (\<lambda>h. map_option (cancel m now) (invites_view s h))
    (snd (sql_update (\<lambda>r. ir_member_id r = m \<and> ir_status r = StatusPending) (scrub_row StatusRevoked) (map (sweep_row now) t)))"
    (is "invites_agree T' _ (snd (sql_update ?q ?g ?t))")
proof -
  have k: "keyed ir_handle ?t" "keyed ir_lease_id ?t" "list_all row_ok ?t" using a(1) by (simp_all add: invites_agree_def)
  have fresh: "\<not> isExpiredAt (invite_of_row r) now" if "r \<in> set ?t" "ir_status r = StatusPending" for r
    using that a(2) aged_pending_iff [OF _ n] by (auto simp: sweep_row_def list_all_iff split: if_splits)
  have "rel_option (coherent T') (map_option (cancel m now) (invites_view s h)) (tab ir_handle (snd (sql_update ?q ?g ?t)) h)" for h
  proof (cases "invites_view s h")
    case None
    then show ?thesis using agree_none [OF a(1), of h] by (simp add: tab_sql_update)
  next
    case (Some iv)
    from agree_row [OF a(1) Some] obtain r where r: "tab ir_handle ?t h = Some r" "coherent T' iv r" by blast
    have c1: "ir_status r = StatusPending \<longrightarrow> \<not> isExpiredAt iv now"
      using fresh [of r] tab_key [OF r(1)] r(2) by (auto simp: coherent_def)
    have c2: "iv_MemberID iv = m \<and> iv_Status iv = StatusPending \<and> \<not> isExpiredAt iv now \<longrightarrow> ir_status r = StatusPending"
      using pending_rows_live [OF inv n a c Some] r(1) by auto
    show ?thesis using coherent_cancel [OF r(2) c1 c2] r(1) by (simp add: Some tab_sql_update)
  qed
  moreover have "list_all row_ok (snd (sql_update ?q ?g ?t))" using k(3) by (auto simp: sql_update_def list_all_iff)
  ultimately show ?thesis using k by (simp add: invites_agree_def keyed_sql_update)
qed

lemma RevokeAll_step:
  assumes inv: "invites_inv T s" and n: "time_ok now" and u: "u = RevokeAllPendingForMember f now m s"
  shows "good_step (max T now) s (snd u) \<and>
    (\<forall>k. fst u = Inr k \<longrightarrow> k = length (pending_of m s) \<and> invites_view (snd u) = (\<lambda>h. map_option (cancel m now) (invites_view s h)))"
proof (cases "pending_of m s = []")
  case True
  have "map_option (cancel m now) (invites_view s h) = invites_view s h" for h
  proof (cases "map_of (is_byHandle s) h")
    case (Some p)
    with pending_of_iff [OF inv Some, of m] True show ?thesis by (auto simp: invites_view_at cancel_def)
  qed (simp add: invites_view_def deref_def)
  with inv True show ?thesis by (simp add: u RevokeAllPendingForMember_def good_idle)
next
  case False
  let ?live = "filter (\<lambda>p. \<not> isExpiredAt (is_cells s ! p) now) (pending_of m s)"
  let ?aged = "filter (\<lambda>p. isExpiredAt (is_cells s ! p) now) (pending_of m s)"
  let ?q = "\<lambda>r. ir_member_id r = m \<and> ir_status r = StatusPending"
  have ne: "\<not> (?live = [] \<and> ?aged = [])" using False by (auto simp: filter_empty_conv) (metis list.set_intros(1) neq_Nil_conv)
  have len: "length ?live + length ?aged = length (pending_of m s)"
    using sum_length_filter_compl [of "\<lambda>p. isExpiredAt (is_cells s ! p) now" "pending_of m s"] by simp
  show ?thesis
  proof (cases "invites_persist f now (invites_exec (length ?live) ?q (scrub_row StatusRevoked)) s")
    case (Inl e)
    then have "u = (Inl e, s)" using ne unfolding u RevokeAllPendingForMember_def Let_def by (simp only: if_False sum.case)
    with inv show ?thesis by (simp add: good_idle)
  next
    case (Inr db)
    then have u': "u = (Inr (length (pending_of m s)), s\<lparr>is_cells := cancel_cells m now s, is_db := db\<rparr>)"
      using ne len unfolding u RevokeAllPendingForMember_def Let_def cancel_cells_def by (simp only: if_False sum.case)
    note C = cancel_cells_nth [OF inv, of m now]
    have v: "invites_view (snd u) = (\<lambda>h. map_option (cancel m now) (invites_view s h))"
    proof
      fix h
      show "invites_view (snd u) h = map_option (cancel m now) (invites_view s h)"
        using C map_of_SomeD [of "is_byHandle s" h]
        by (cases "map_of (is_byHandle s) h") (force simp: u' invites_view_def deref_def)+
    qed
    note P = persist_Inr [OF inv n Inr]
    have "dual_wf iv_Handle iv_LeaseID (is_cells (snd u)) (is_byHandle (snd u)) (is_byLease (snd u))"
      using dual_wf_cells [OF invites_dual [OF inv], of "cancel_cells m now s"] C by (simp add: u')
    moreover have "invite_ok iv" if "invites_view (snd u) j = Some iv" for j iv
      using that v view_invite_ok [OF inv, of j] cancel_ok by auto
    moreover have "invites_agree (max T now) (invites_view (snd u)) t'" if t': "is_db (snd u) = Some t'" for t'
    proof -
      from P t' obtain t where t: "is_db s = Some t" "invites_agree (max T now) (invites_view s) (map (sweep_row now) t)"
          "invites_exec (length ?live) ?q (scrub_row StatusRevoked) (map (sweep_row now) t) = Inr t'"
        by (auto simp: u')
      have "list_all row_ok t" using inv t(1) by (simp add: invites_inv_def invites_agree_def)
      from agree_cancel [OF inv n t(2) this] t(3) show ?thesis unfolding v exec_Inr_iff by blast
    qed
    moreover have "is_db (snd u) = None \<longleftrightarrow> is_db s = None" using P by (auto simp: u')
    moreover have "\<exists>iv'. invites_view (snd u) j = Some iv' \<and> moves\<^sup>*\<^sup>* iv iv'" if "invites_view s j = Some iv" for j iv
      using that v cancel_moves by auto
    ultimately have "good_step (max T now) s (snd u)" by (simp add: good_step_def invites_inv_def)
    then show ?thesis using v by (simp add: u')
  qed
qed

subsection \<open>Loading\<close>

text \<open>Whatever table the loader accepts, it leaves a coherent store over it.\<close>

definition schema_ok :: "invite_row list \<Rightarrow> bool" where
  "schema_ok t \<longleftrightarrow> keyed ir_handle t \<and> keyed ir_lease_id t \<and> list_all invites_check t"

lemma sweep_schema:
  assumes "schema_ok t"
  shows "sweepAgedPending now t = Inr (map (sweep_row now) t) \<and> schema_ok (map (sweep_row now) t)"
proof -
  have c: "invites_check (sweep_row now r)" if "r \<in> set t" for r
    using that assms by (auto simp: schema_ok_def list_all_iff sweep_row_def invites_check_def)
  have "\<not> list_ex (\<lambda>r. aged_pending now r \<and> \<not> invites_check (scrub_row StatusExpired r)) t"
    using c by (fastforce simp: list_ex_iff sweep_row_def)
  moreover have "\<not> list_ex (\<lambda>r. aged_pending now r \<and> \<not> status_forward (ir_status r) StatusExpired) t"
    by (auto simp: list_ex_iff aged_pending_def status_forward_def)
  ultimately have "sweepAgedPending now t = Inr (map (sweep_row now) t)"
    by (simp add: sweepAgedPending_def invites_update_def sql_update_def sweep_row_def)
  moreover have "list_all invites_check (map (sweep_row now) t)" using c by (simp add: list_all_iff)
  ultimately show ?thesis using assms
    by (simp add: schema_ok_def keyed_map [where key' = ir_handle] keyed_map [where key' = ir_lease_id])
qed

lemma empty_text_swept: "ir_status (sweep_row now r) = StatusPending \<Longrightarrow> ir_expires_at (sweep_row now r) \<noteq> Some []"
  by (auto simp: sweep_row_def aged_pending_def split: if_splits)

lemma invites_load:
  assumes t: "schema_ok t" and l: "invites_LoadFromDB f now readable t s = (Inr (), s', t')"
  shows "invites_inv T s' \<and> is_db s' = Some t' \<and> t' = map (sweep_row now) t \<and>
    invites_view s' = (\<lambda>h. map_option (\<lambda>r. invite_of_row (sweep_row now r)) (tab ir_handle t h))"
proof -
  let ?t = "map (sweep_row now) t"
  note sw = sweep_schema [OF t, of now]
  have t': "t' = ?t" and e: "List.find (\<lambda>iv. load_expiry iv \<noteq> None) (map invite_of_row ?t) = None"
    using l sw by (auto simp: invites_LoadFromDB_def Let_def run_tx_def split: if_splits sum.splits option.splits prod.splits)
  obtain h i1 i2 where d: "dual_load iv_Handle iv_LeaseID (map invite_of_row ?t) = (h, i1, i2)" by (metis prod_cases3)
  have f: "f = TxOk" "readable"
    using l by (cases f; auto simp: invites_LoadFromDB_def Let_def run_tx_def split: if_splits sum.splits option.splits prod.splits)+
  have s': "s' = s\<lparr>is_cells := h, is_byHandle := i1, is_byLease := i2, is_db := Some ?t\<rparr>"
    using l sw e d f by (auto simp: invites_LoadFromDB_def Let_def simp del: map_map)
  have k: "keyed ir_handle ?t" "keyed ir_lease_id ?t" using sw by (simp_all add: schema_ok_def)
  have D: "dual_wf iv_Handle iv_LeaseID h i1 i2" "deref h i1 = tab iv_Handle (map invite_of_row ?t)"
    using dual_load_correct [of iv_Handle "map invite_of_row ?t" iv_LeaseID] k d
    by (simp_all add: keyed_map [where key' = ir_handle and f = invite_of_row] keyed_map [where key' = ir_lease_id and f = invite_of_row] del: map_map)
  have v: "invites_view s' = (\<lambda>h. map_option invite_of_row (tab ir_handle ?t h))"
    unfolding s' invites_view_def using D(2) by (simp add: fun_eq_iff tab_map [where key' = ir_handle and f = invite_of_row] del: map_map)
  have row: "list_all row_ok ?t"
    using sw e empty_text_swept [of now] by (auto simp: list_all_iff row_ok_def schema_ok_def find_None_iff)
  then have "invite_ok iv" if "invites_view s' j = Some iv" for j iv
    using that v row_ok_invite tab_row_ok [OF row, of j] by (auto simp del: map_map)
  moreover have "invites_agree T (invites_view s') ?t"
    using k row unfolding v invites_agree_def by (auto simp: coherent_def option.rel_map simp del: map_map intro: option.rel_refl_strong)
  moreover have "invites_view s' = (\<lambda>h. map_option (\<lambda>r. invite_of_row (sweep_row now r)) (tab ir_handle t h))"
    unfolding v by (simp add: fun_eq_iff tab_map [where key' = ir_handle] option.map_comp comp_def)
  ultimately show ?thesis using D(1) by (simp add: s' t' invites_inv_def)
qed

subsection \<open>A healthy database with a clock that does not run backwards refuses nothing\<close>

text \<open>Then the row of an invite that is pending and not expired is the record itself.\<close>

lemma coherent_fresh: "coherent T iv r \<Longrightarrow> T \<le> now \<Longrightarrow> \<not> isExpiredAt iv now \<Longrightarrow> invite_of_row r = iv"
  using isExpiredAt_mono [of iv T now] by (auto simp: coherent_def)

lemma exec_one:
  assumes a: "invites_agree T v t" and h: "v h = Some iv" and q: "\<And>r. r \<in> set t \<Longrightarrow> q r \<longleftrightarrow> ir_handle r = h \<and> q' r"
    and r: "\<And>r. coherent T iv r \<Longrightarrow> row_ok r \<Longrightarrow> q' r \<and> status_forward (ir_status r) (ir_status (g r)) \<and> invites_check (g r)"
  shows "\<exists>t'. invites_exec 1 q g t = Inr t'"
proof -
  have k: "keyed ir_handle t" using a by (simp add: invites_agree_def)
  from agree_row [OF a h] obtain x where x: "tab ir_handle t h = Some x" "coherent T iv x" "row_ok x" by blast
  have f: "filter q t = filter (\<lambda>r. ir_handle r = h \<and> q' r) t" using q by (rule filter_cong [OF refl])
  have "length (filter (\<lambda>r. ir_handle r = h \<and> q' r) t) = 1"
    unfolding count_key_and [OF k] using x r [OF x(2,3)] by simp
  moreover have "y = x" if "y \<in> set t" "q y" for y
    using that q [of y] x(1) tab_Some_iff [OF k, of h] by (metis option.inject)
  ultimately have "invites_exec 1 q g t = Inr (snd (sql_update q g t))"
    unfolding exec_Inr_iff f using r [OF x(2,3)] by blast
  then show ?thesis by blast
qed

lemma Unwrap_healthy:
  assumes inv: "invites_inv T s" "T \<le> now" "time_ok now" and h: "invites_view s h = Some iv" "statusGateLocked iv now = None"
  shows "fst (Unwrap TxOk now h s) = Inr (iv_TokenValue iv, iv_MemberID iv)"
proof -
  obtain p where p: "map_of (is_byHandle s) h = Some p" "is_cells s ! p = iv"
    using h(1) by (auto simp: invites_view_def deref_def)
  have pend: "iv_Status iv = StatusPending" "\<not> isExpiredAt iv now"
    using h(2) gate_pending [OF view_invite_ok [OF inv(1) h(1)]] by simp_all
  have T: "max T now = now" using inv(2) by simp
  have "\<exists>db. invites_persist TxOk now (invites_exec 1 (\<lambda>r. by_handle h r \<and> ir_status r = StatusPending) (scrub_row StatusConsumed)) s = Inr db"
  proof (rule persist_healthy [OF inv(1,3)], unfold T)
    fix t
    assume a: "invites_agree now (invites_view s) (map (sweep_row now) t)"
    show "\<exists>t'. invites_exec 1 (\<lambda>r. by_handle h r \<and> ir_status r = StatusPending) (scrub_row StatusConsumed) (map (sweep_row now) t) = Inr t'"
    proof (rule exec_one [where v = "invites_view s" and q' = "\<lambda>r. ir_status r = StatusPending", OF a h(1)])
      fix r
      assume "coherent now iv r" "row_ok r"
      with coherent_fresh [of now iv r now] pend show "ir_status r = StatusPending \<and>
          status_forward (ir_status r) (ir_status (scrub_row StatusConsumed r)) \<and> invites_check (scrub_row StatusConsumed r)"
        by (auto simp: status_forward_def row_ok_def invites_check_def)
    qed (simp add: by_handle_def)
  qed
  then show ?thesis using p h(2) by (auto simp: Unwrap_def commit_invite_def Let_def)
qed

lemma RevokePending_healthy:
  assumes inv: "invites_inv T s" "T \<le> now" "time_ok now" and h: "invites_view s h = Some iv" "iv_Status iv = StatusPending"
  shows "fst (RevokePending TxOk now h s) = Inr ()"
proof -
  obtain p where p: "map_of (is_byHandle s) h = Some p" "is_cells s ! p = iv"
    using h(1) by (auto simp: invites_view_def deref_def)
  have T: "max T now = now" using inv(2) by simp
  define st where "st = (if isExpiredAt iv now then StatusExpired else StatusRevoked)"
  have "\<exists>db. invites_persist TxOk now (invites_exec 1 (by_handle h) (scrub_row st)) s = Inr db"
  proof (rule persist_healthy [OF inv(1,3)], unfold T)
    fix t
    assume a: "invites_agree now (invites_view s) (map (sweep_row now) t)"
    show "\<exists>t'. invites_exec 1 (by_handle h) (scrub_row st) (map (sweep_row now) t) = Inr t'"
    proof (rule exec_one [where v = "invites_view s" and q' = "\<lambda>r. True", OF a h(1)])
      fix r
      assume r: "coherent now iv r" "row_ok r"
      from r h(2) have "ir_status r = StatusPending \<or> isExpiredAt iv now \<and> ir_status r = StatusExpired"
        by (auto simp: coherent_def dest: arg_cong [of _ _ iv_Status])
      with r show "True \<and> status_forward (ir_status r) (ir_status (scrub_row st r)) \<and> invites_check (scrub_row st r)"
        by (auto simp: st_def status_forward_def row_ok_def invites_check_def)
    qed (simp add: by_handle_def)
  qed
  then show ?thesis using p h(2) by (auto simp: RevokePending_def commit_invite_def Let_def st_def)
qed

lemma RevokeAll_healthy:
  assumes inv: "invites_inv T s" "T \<le> now" "time_ok now"
  shows "\<exists>k. fst (RevokeAllPendingForMember TxOk now m s) = Inr k"
proof -
  let ?H = "\<lambda>p. iv_Handle (is_cells s ! p)"
  have T: "max T now = now" using inv(2) by simp
  have "\<exists>db. invites_persist TxOk now (invites_exec (length (live_of m now s)) (\<lambda>r. ir_member_id r = m \<and> ir_status r = StatusPending)
      (scrub_row StatusRevoked)) s = Inr db"
  proof (rule persist_healthy [OF inv(1,3)], unfold T)
    fix t
    assume a: "invites_agree now (invites_view s) (map (sweep_row now) t)" and t: "is_db s = Some t"
    have ok: "list_all row_ok t" using inv(1) t by (simp add: invites_inv_def invites_agree_def)
    note H = pending_rows_handles [OF inv(1,3) a ok, of m]
    have "?H p \<in> ir_handle ` set (pending_rows m now t)" if p: "p \<in> set (live_of m now s)" for p
    proof -
      have pp: "map_of (is_byHandle s) (?H p) = Some p" using p pending_of_ptr [OF inv(1), of p m] by simp
      obtain r where r: "tab ir_handle (map (sweep_row now) t) (?H p) = Some r" "coherent now (is_cells s ! p) r"
        using agree_row [OF a invites_view_at [OF pp]] by blast
      then have "invite_of_row r = is_cells s ! p" using p coherent_fresh [of now _ r now] by simp
      then have "ir_member_id r = m \<and> ir_status r = StatusPending"
        using p pending_of_iff [OF inv(1) pp, of m] invite_of_row_sel(3,4) [of r] by simp
      with tab_key [OF r(1)] show ?thesis by force
    qed
    with H(1) have "ir_handle ` set (pending_rows m now t) = ?H ` set (live_of m now s)" by blast
    with H(2,3) have "length (pending_rows m now t) = length (live_of m now s)" by metis
    moreover have "invites_check (scrub_row StatusRevoked r)" if "r \<in> set (map (sweep_row now) t)" for r
    proof -
      from that a have "row_ok r" by (auto simp: invites_agree_def list_all_iff)
      then show ?thesis by (auto simp: row_ok_def invites_check_def)
    qed
    ultimately show "\<exists>t'. invites_exec (length (live_of m now s)) (\<lambda>r. ir_member_id r = m \<and> ir_status r = StatusPending)
        (scrub_row StatusRevoked) (map (sweep_row now) t) = Inr t'"
      by (simp add: exec_Inr_iff status_forward_def del: set_map)
  qed
  then show ?thesis by (auto simp: RevokeAllPendingForMember_def Let_def split: if_splits)
qed

end
