(* ===== verification/Invite_Properties.thy ===== *)
theory Invite_Properties
  imports Invite_Refine
begin

text \<open>
  What the invite store guarantees over whole histories: operations with faulty transactions,
  clock readings in any order, and restarts, which sweep the table and reload the cache. A boot
  that fails serves nobody and leaves the table alone.
\<close>

datatype invite_op = IIssue entropy entropy issue_params | IUnwrap string | IReport string
  | IRevoke string | IRevokeAll string | IBoot

type_synonym invite_event = "tx_fault \<times> time \<times> invite_op"

definition invites_boot :: "tx_fault \<Rightarrow> time \<Rightarrow> invite_store \<Rightarrow> invite_store" where
  "invites_boot f now s =
     (case is_db s of
        None \<Rightarrow> s
      | Some t \<Rightarrow>
          (case invites_LoadFromDB f now True t invites_NewStore of
             (Inr _, s', _) \<Rightarrow> s'
           | (Inl _, _, t') \<Rightarrow> s\<lparr>is_db := Some t'\<rparr>))"

fun invites_step :: "invite_event \<Rightarrow> invite_store \<Rightarrow> invite_store" where
  "invites_step (f, now, IIssue r1 r2 p) s = snd (Issue f r1 r2 now p s)"
| "invites_step (f, now, IUnwrap h) s = snd (Unwrap f now h s)"
| "invites_step (f, now, IReport l) s = snd (ReportCompromise f now l s)"
| "invites_step (f, now, IRevoke h) s = snd (RevokePending f now h s)"
| "invites_step (f, now, IRevokeAll m) s = snd (RevokeAllPendingForMember f now m s)"
| "invites_step (f, now, IBoot) s = invites_boot f now s"

text \<open>Clock readings and expiries whose year has four digits.\<close>

fun event_ok :: "invite_event \<Rightarrow> bool" where
  "event_ok (f, now, IIssue r1 r2 p) \<longleftrightarrow> time_ok now \<and> time_ok (now + ip_TTL p)"
| "event_ok (f, now, op) \<longleftrightarrow> time_ok now"

abbreviation event_time :: "invite_event \<Rightarrow> time" where
  "event_time e \<equiv> fst (snd e)"

definition invites_live :: "invite_store \<Rightarrow> bool" where
  "invites_live s \<longleftrightarrow> (\<exists>T. invites_inv T s) \<and> is_db s \<noteq> None"

text \<open>The tokens that \<open>Unwrap\<close> releases for a handle during a history.\<close>

fun released :: "string \<Rightarrow> invite_event \<Rightarrow> invite_store \<Rightarrow> (string \<times> string) list" where
  "released h (f, now, IUnwrap h') s =
     (if h' = h then (case fst (Unwrap f now h s) of Inr x \<Rightarrow> [x] | Inl _ \<Rightarrow> []) else [])"
| "released h (f, now, op) s = []"

fun releases :: "string \<Rightarrow> invite_event list \<Rightarrow> invite_store \<Rightarrow> (string \<times> string) list" where
  "releases h [] s = []"
| "releases h (e # es) s = released h e s @ releases h es (invites_step e s)"

subsection \<open>Steps\<close>

lemma boot_load:
  assumes inv: "invites_inv T s" and t: "is_db s = Some t"
  shows "invites_boot TxOk now s = fst (snd (invites_LoadFromDB TxOk now True t invites_NewStore)) \<and>
    fst (invites_LoadFromDB TxOk now True t invites_NewStore) = Inr ()"
proof -
  have a: "invites_agree T (invites_view s) t" using inv t by (simp add: invites_inv_def)
  then have ok: "list_all row_ok t" by (simp add: invites_agree_def)
  have "List.find (\<lambda>iv. load_expiry iv \<noteq> None) (map invite_of_row (map (sweep_row now) t)) = None"
    using ok by (auto simp: find_None_iff list_all_iff row_ok_def sweep_row_def)
  then show ?thesis
    by (simp add: invites_boot_def t invites_LoadFromDB_def sweep_ok [OF ok] Let_def del: map_map split: prod.splits)
qed

lemma boot_view:
  assumes inv: "invites_inv T s" and t: "is_db s = Some t"
  shows "invites_inv T' (invites_boot TxOk now s) \<and> is_db (invites_boot TxOk now s) \<noteq> None \<and>
    invites_view (invites_boot TxOk now s) = (\<lambda>h. map_option (\<lambda>r. invite_of_row (sweep_row now r)) (tab ir_handle t h))"
proof -
  have "schema_ok t" using inv t by (auto simp: invites_inv_def invites_agree_def schema_ok_def list_all_iff row_ok_def)
  moreover obtain x s' t' where L: "invites_LoadFromDB TxOk now True t invites_NewStore = (x, s', t')" by (metis prod_cases3)
  moreover have "x = Inr ()" "s' = invites_boot TxOk now s" using boot_load [OF assms, of now] L by simp_all
  ultimately show ?thesis using invites_load [of t TxOk now True invites_NewStore s' t' T'] by auto
qed

lemma boot_fault: "f \<noteq> TxOk \<Longrightarrow> invites_boot f now s = s"
  by (cases f) (auto simp: invites_boot_def invites_LoadFromDB_def run_tx_def split: option.splits sum.splits)

lemma boot_step:
  assumes inv: "invites_inv T s" and t: "is_db s = Some t" and n: "time_ok now"
  shows "good_step (max T now) s (invites_boot f now s)"
proof (cases "f = TxOk")
  case True
  note B = boot_view [OF inv t, of "max T now" now]
  have a: "invites_agree T (invites_view s) t" using inv t by (simp add: invites_inv_def)
  have "\<exists>iv'. invites_view (invites_boot TxOk now s) h = Some iv' \<and> moves\<^sup>*\<^sup>* iv iv'" if h: "invites_view s h = Some iv" for h iv
  proof -
    from agree_row [OF a h] obtain r where r: "tab ir_handle t h = Some r" "coherent T iv r" "row_ok r" by blast
    from coherent_sweep [OF r(3) n r(2)] have "moves\<^sup>*\<^sup>* iv (invite_of_row (sweep_row now r))"
      using moves.expire [of iv] by (auto simp: coherent_def)
    with B r(1) show ?thesis by simp
  qed
  with B t show ?thesis by (simp add: True good_step_def)
qed (use inv boot_fault good_idle in simp)

lemma invites_step_good:
  assumes "invites_inv T s" "is_db s \<noteq> None" "event_ok e"
  shows "good_step (max T (event_time e)) s (invites_step e s)"
proof -
  obtain f now op where e: "e = (f, now, op)" by (metis prod_cases3)
  then have "time_ok now" using assms(3) by (cases op) simp_all
  with assms e show ?thesis
    by (cases op) (auto simp: Issue_step Unwrap_step ReportCompromise_step RevokePending_step RevokeAll_step boot_step)
qed

lemma live_good: "invites_live s \<Longrightarrow> event_ok e \<Longrightarrow> \<exists>T. good_step T s (invites_step e s)"
  using invites_step_good unfolding invites_live_def by blast

lemma live_step: "invites_live s \<Longrightarrow> event_ok e \<Longrightarrow> invites_live (invites_step e s)"
  using live_good [of s e] by (auto simp: invites_live_def good_step_def)

interpretation invites: lifecycle_store invites_step event_ok invites_live invites_view moves
proof
  fix s e
  assume "invites_live s" "event_ok e"
  then show "invites_live (invites_step e s)" by (rule live_step)
next
  fix s e h iv
  assume "invites_live s" "event_ok e" "invites_view s h = Some iv"
  then show "\<exists>iv'. invites_view (invites_step e s) h = Some iv' \<and> moves\<^sup>*\<^sup>* iv iv'"
    using live_good [of s e] by (auto simp: good_step_def)
qed

lemma moves_spent: "moves iv iv' \<Longrightarrow> iv_Status iv' \<noteq> StatusPending"
  by (auto elim: moves.cases)

lemma moves_star_pending: "moves\<^sup>*\<^sup>* iv iv' \<Longrightarrow> iv_Status iv' = StatusPending \<Longrightarrow> iv' = iv"
  by (auto elim: rtranclp.cases dest: moves_spent)

lemma moves_spent_star: "moves\<^sup>*\<^sup>* iv iv' \<Longrightarrow> iv_Status iv \<noteq> StatusPending \<Longrightarrow> iv_Status iv' \<noteq> StatusPending"
  by (induction rule: rtranclp_induct) (auto dest: moves_spent)

lemma moves_identity:
  "moves\<^sup>*\<^sup>* iv iv' \<Longrightarrow> iv_Handle iv' = iv_Handle iv \<and> iv_LeaseID iv' = iv_LeaseID iv \<and> iv_MemberID iv' = iv_MemberID iv \<and>
     iv_Email iv' = iv_Email iv \<and> iv_Role iv' = iv_Role iv \<and> iv_CreationPath iv' = iv_CreationPath iv \<and>
     iv_CreatedAt iv' = iv_CreatedAt iv \<and> iv_ExpiresAt iv' = iv_ExpiresAt iv"
  by (induction rule: rtranclp_induct) (auto elim!: moves.cases)

subsection \<open>Releases\<close>

lemma released_Some:
  assumes l: "invites_live s" and e: "event_ok e" and r: "released h e s = x # xs"
  shows "\<exists>iv. xs = [] \<and> invites_view s h = Some iv \<and> iv_Status iv = StatusPending \<and> x = (iv_TokenValue iv, iv_MemberID iv) \<and>
    invites_view (invites_step e s) h = Some (voided StatusConsumed iv)"
proof -
  obtain f now op where op: "e = (f, now, op)" by (metis prod_cases3)
  with r have u: "op = IUnwrap h" "fst (Unwrap f now h s) = Inr x" "xs = []"
    by (cases op; auto split: if_splits sum.splits)+
  from l obtain T where inv: "invites_inv T s" by (auto simp: invites_live_def)
  obtain tok mid where x: "x = (tok, mid)" by (cases x)
  have "time_ok now" using e op u by simp
  from Unwrap_step [OF inv this refl, of f h] u(2) x obtain iv where
    iv: "invites_view s h = Some iv" "statusGateLocked iv now = None" "tok = iv_TokenValue iv" "mid = iv_MemberID iv"
      "invites_view (snd (Unwrap f now h s)) = (invites_view s)(h \<mapsto> voided StatusConsumed iv)" by blast
  then have "iv_Status iv = StatusPending" using gate_pending [OF view_invite_ok [OF inv iv(1)]] by simp
  with iv u x op show ?thesis by simp
qed

lemma releases_spent:
  assumes "invites_live s" "list_all event_ok es" "invites_view s h = Some iv" "iv_Status iv \<noteq> StatusPending"
  shows "releases h es s = []"
  using assms
proof (induction es arbitrary: s iv)
  case (Cons e es)
  from Cons.prems obtain iv' where iv': "invites_view (invites_step e s) h = Some iv'" "moves\<^sup>*\<^sup>* iv iv'"
    using invites.step_moves [of s e h iv] by (auto simp del: split_paired_All)
  have "released h e s = []" using released_Some [of s e h] Cons.prems by (cases "released h e s") auto
  moreover have "releases h es (invites_step e s) = []"
    by (rule Cons.IH [OF _ _ iv'(1)]) (use Cons.prems live_step moves_spent_star [OF iv'(2)] in auto)
  ultimately show ?case by simp
qed simp

lemma releases_once:
  assumes "invites_live s" "list_all event_ok es"
  shows "length (releases h es s) \<le> 1 \<and> (\<forall>iv. invites_view s h = Some iv \<longrightarrow> set (releases h es s) \<subseteq> {(iv_TokenValue iv, iv_MemberID iv)})"
  using assms
proof (induction es arbitrary: s)
  case (Cons e es)
  let ?s = "invites_step e s"
  have l: "invites_live ?s" "list_all event_ok es" using Cons.prems live_step by auto
  show ?case
  proof (cases "released h e s")
    case Nil
    have "set (releases h es ?s) \<subseteq> {(iv_TokenValue iv, iv_MemberID iv)}" if iv: "invites_view s h = Some iv" for iv
    proof -
      obtain iv' where iv': "invites_view ?s h = Some iv'" "moves\<^sup>*\<^sup>* iv iv'"
        using invites.step_moves [OF Cons.prems(1) _ iv, of e] Cons.prems(2) by auto
      show ?thesis
      proof (cases "iv_Status iv' = StatusPending")
        case True
        with moves_star_pending [OF iv'(2)] iv'(1) Cons.IH [OF l] show ?thesis by auto
      next
        case False
        with releases_spent [OF l iv'(1)] show ?thesis by simp
      qed
    qed
    with Nil Cons.IH [OF l] show ?thesis by simp
  next
    case (Cons x xs)
    from released_Some [OF \<open>invites_live s\<close> _ this] Cons.prems(2) obtain iv where
      "xs = []" "invites_view s h = Some iv" "x = (iv_TokenValue iv, iv_MemberID iv)" "invites_view ?s h = Some (voided StatusConsumed iv)"
      by auto
    with releases_spent [OF l, of h "voided StatusConsumed iv"] Cons show ?thesis by simp
  qed
qed simp

subsection \<open>Listings\<close>

lemma sorted_desc:
  assumes "sorted (map h xs)" "distinct (map h xs)"
  shows "sorted_wrt (\<lambda>a b. c b < c a \<or> c a = c b \<and> h a < (h b :: 'b :: linorder)) (rev (sort_key (c :: 'a \<Rightarrow> 'c :: linorder) (rev xs)))"
proof -
  let ?ys = "sort_key c (rev xs)"
  have st: "filter (\<lambda>x. c x = k) ?ys = filter (\<lambda>x. c x = k) (rev xs)" for k by (rule sort_key_stable)
  have srt: "sorted_wrt (\<lambda>a b. h b < h a) (rev xs)"
  proof -
    have "sorted_wrt (<) (map h xs)" unfolding strict_sorted_iff using assms by blast
    then show ?thesis by (simp add: sorted_wrt_rev sorted_wrt_map)
  qed
  have "c (?ys ! i) < c (?ys ! j) \<or> c (?ys ! i) = c (?ys ! j) \<and> h (?ys ! j) < h (?ys ! i)" if ij: "i < j" "j < length ?ys" for i j
  proof (cases "c (?ys ! i) = c (?ys ! j)")
    case True
    let ?k = "c (?ys ! i)"
    have d: "?ys = take j ?ys @ ?ys ! j # drop (Suc j) ?ys" using ij by (simp add: id_take_nth_drop)
    have "sorted_wrt (\<lambda>a b. h b < h a) (filter (\<lambda>x. c x = ?k) ?ys)"
      unfolding st using srt by (rule sorted_wrt_filter)
    then have "sorted_wrt (\<lambda>a b. h b < h a) (filter (\<lambda>x. c x = ?k) (take j ?ys) @ ?ys ! j # filter (\<lambda>x. c x = ?k) (drop (Suc j) ?ys))"
      by (subst (asm) d) (simp add: True)
    moreover have "?ys ! i \<in> set (filter (\<lambda>x. c x = ?k) (take j ?ys))" using ij by (auto simp: in_set_conv_nth intro: exI [of _ i])
    ultimately show ?thesis using True by (auto simp: sorted_wrt_append)
  next
    case False
    have "c (?ys ! i) \<le> c (?ys ! j)" using ij sorted_sort_key [of c "rev xs"] by (simp add: sorted_iff_nth_mono)
    with False show ?thesis by simp
  qed
  then have "sorted_wrt (\<lambda>b a. c b < c a \<or> c a = c b \<and> h a < h b) ?ys"
    unfolding sorted_wrt_iff_nth_less by metis
  then show ?thesis unfolding sorted_wrt_rev .
qed

lemma view_of_invite_sel [simp]:
  "vw_Handle (view_of_invite iv) = iv_Handle iv" "vw_MemberID (view_of_invite iv) = iv_MemberID iv"
  "vw_CreatedAt (view_of_invite iv) = iv_CreatedAt iv" "vw_Status (view_of_invite iv) = iv_Status iv"
  by (simp_all add: view_of_invite_def)

lemma List_views:
  assumes "invites_inv T s"
  shows "set (invites_List s) = {view_of_invite iv | h iv. invites_view s h = Some iv}"
    and "sorted_wrt (\<lambda>a b. vw_CreatedAt b < vw_CreatedAt a \<or> vw_CreatedAt a = vw_CreatedAt b \<and> vw_Handle a < vw_Handle b) (invites_List s)"
proof -
  let ?out = "map (\<lambda>(_, p). view_of_invite (is_cells s ! p)) (is_byHandle s)"
  have d: "distinct (map fst (is_byHandle s))" using invites_dual [OF assms] by (simp add: dual_wf_def)
  have H: "vw_Handle (view_of_invite (is_cells s ! p)) = h" if "(h, p) \<in> set (is_byHandle s)" for h p
    using that d dual_wf1 [OF invites_dual [OF assms], of h p] by (simp add: view_of_invite_def map_of_is_SomeI)
  then have "map vw_Handle ?out = map fst (is_byHandle s)" by auto
  then have "distinct (map vw_Handle ?out)" using d by metis
  then have "distinct ?out" "inj_on vw_Handle (set ?out)" by (simp_all only: distinct_map)
  then have "distinct (map vw_Handle (sort_key vw_Handle ?out))" by (simp only: distinct_map distinct_sort set_sort)
  then show "sorted_wrt (\<lambda>a b. vw_CreatedAt b < vw_CreatedAt a \<or> vw_CreatedAt a = vw_CreatedAt b \<and> vw_Handle a < vw_Handle b) (invites_List s)"
    unfolding invites_List_def Let_def by (intro sorted_desc) simp_all
  show "set (invites_List s) = {view_of_invite iv | h iv. invites_view s h = Some iv}"
    using d by (force simp: invites_List_def Let_def invites_view_def deref_def dest: map_of_SomeD map_of_is_SomeI)
qed

subsection \<open>A concrete history\<close>

definition demo_inbox :: invite_store where
  "demo_inbox = fst (snd (invites_LoadFromDB TxOk 0 True [] invites_NewStore))"

definition demo_params :: issue_params where
  "demo_params = \<lparr>ip_MemberID = ''m1'', ip_Email = ''a@b.co'', ip_Role = ''member'', ip_TokenValue = ''evt_x'',
     ip_CreationPath = ''console'', ip_TTL = 3600 * second\<rparr>"

definition demo_handle :: string where
  "demo_handle = ''000102030405060708090a0b0c0d0e0f''"

definition demo_invited :: invite_store where
  "demo_invited = snd (Issue TxOk demo_entropy demo_entropy 0 demo_params demo_inbox)"

lemma demo_times: "time_ok 0" "time_ok (3600 * second)" "time_ok (60 * second)"
  by code_simp+

lemma demo_randHex: "randHex demo_entropy = Some demo_handle"
  by code_simp

lemma demo_inbox_live: "invites_inv T demo_inbox \<and> is_db demo_inbox = Some [] \<and> invites_view demo_inbox = Map.empty"
proof -
  have "invites_LoadFromDB TxOk 0 True [] invites_NewStore = (Inr (), demo_inbox, [])"
    by (simp add: demo_inbox_def invites_LoadFromDB_def sweepAgedPending_def invites_update_def sql_update_def dual_load_def)
  from invites_load [OF _ this, of T] show ?thesis by (simp add: schema_ok_def keyed_def fun_eq_iff)
qed

text \<open>Any complete offer, valid for an hour.\<close>

definition offer :: "issue_params \<Rightarrow> bool" where
  "offer p \<longleftrightarrow> ip_MemberID p \<noteq> [] \<and> ip_Email p \<noteq> [] \<and> ip_Role p \<noteq> [] \<and> ip_TokenValue p \<noteq> [] \<and> ip_TTL p = 3600 * second"

lemma offer_issue:
  assumes "offer p"
  shows "\<exists>b. fst (Issue TxOk demo_entropy demo_entropy 0 p demo_inbox) = Inr b \<and> cb_Handle b = demo_handle"
proof -
  have m: "map_of (is_byHandle demo_inbox) = Map.empty" "map_of (is_byLease demo_inbox) = Map.empty"
    by (simp_all add: demo_inbox_def invites_LoadFromDB_def sweepAgedPending_def invites_update_def sql_update_def dual_load_def invites_NewStore_def)
  have "invites_insert (row_of_invite (issued demo_handle demo_handle 0 p)) [] = Inr [row_of_invite (issued demo_handle demo_handle 0 p)]"
    using randHex_shape [OF demo_randHex] by (simp add: invites_insert_def invites_check_def hex32_def)
  then show ?thesis using demo_inbox_live assms
    by (simp add: Issue_def Let_def demo_randHex m offer_def invites_persist_def sweepAgedPending_def
        invites_update_def sql_update_def clearBundle_def)
qed

lemma offer_view:
  assumes p: "offer p" and s: "s = snd (Issue TxOk demo_entropy demo_entropy 0 p demo_inbox)"
  shows "invites_inv 0 s \<and> is_db s \<noteq> None \<and> (\<exists>l. invites_view s demo_handle = Some (issued demo_handle l 0 p))"
proof -
  have t: "time_ok (0 + ip_TTL p)" using demo_times p by (simp add: offer_def)
  note I = Issue_step [OF demo_inbox_live [THEN conjunct1, of 0] demo_times(1) t refl, of TxOk demo_entropy demo_entropy, folded s]
  obtain b where "fst (Issue TxOk demo_entropy demo_entropy 0 p demo_inbox) = Inr b" "cb_Handle b = demo_handle"
    using offer_issue [OF p] by blast
  with I show ?thesis using demo_inbox_live by (auto simp: good_step_def)
qed

lemma offer_not_expired: "offer p \<Longrightarrow> statusGateLocked (issued demo_handle l 0 p) (60 * second) = None"
proof -
  assume p: "offer p"
  have "FormatTime (3600 * second) \<le> FormatTime (60 * second) \<longleftrightarrow> False"
    using FormatTime_le_iff [OF demo_times(2,3)] by (simp add: second_def milli_def)
  then have "\<not> isExpiredAt (issued demo_handle l 0 p) (60 * second)"
    using expired_text [OF demo_times(2,3), of "issued demo_handle l 0 p"] p by (simp add: offer_def)
  then show ?thesis by (simp add: statusGateLocked_def)
qed

lemma demo_offer_ok: "offer demo_params"
  by (simp add: offer_def demo_params_def)

lemmas demo_issue = offer_issue [OF demo_offer_ok]
lemmas demo_invited_view = offer_view [OF demo_offer_ok demo_invited_def]
lemmas demo_not_expired = offer_not_expired [OF demo_offer_ok]

lemma demo_invited_live: "invites_live demo_invited"
  using demo_invited_view by (auto simp: invites_live_def)

subsection \<open>Properties\<close>

text \<open>
  C3. An invite gives out its token at most once. Over any history of operations, faults at any
  point of a transaction, clock readings in any order and restarts, \<open>Unwrap\<close> succeeds at most once
  for a handle, with the token and member that were sealed; once the invite is consumed, expired,
  revoked or compromised it never succeeds again.
\<close>

theorem invite_released_at_most_once:
  assumes "invites_live s" "list_all event_ok es"
  shows "length (releases h es s) \<le> 1 \<and>
    (\<forall>iv. invites_view s h = Some iv \<longrightarrow>
       set (releases h es s) \<subseteq> {(iv_TokenValue iv, iv_MemberID iv)} \<and>
       (iv_Status iv \<noteq> StatusPending \<longrightarrow> releases h es s = []))"
  using releases_once [OF assms] releases_spent [OF assms] by blast

theorem invite_released_at_most_once_witness:
  "length (releases demo_handle [(TxCommitErr, 0, IUnwrap demo_handle), (TxOk, 60 * second, IUnwrap demo_handle),
     (TxOk, 0, IBoot), (TxOk, 60 * second, IUnwrap demo_handle)] demo_invited) \<le> 1"
proof -
  have "list_all event_ok [(TxCommitErr, 0, IUnwrap demo_handle), (TxOk, 60 * second, IUnwrap demo_handle),
     (TxOk, 0, IBoot), (TxOk, 60 * second, IUnwrap demo_handle)]" using demo_times by simp
  from invite_released_at_most_once [OF demo_invited_live this, of demo_handle] show ?thesis by blast
qed

text \<open>
  What is sealed comes out: whatever happens between a successful \<open>Issue\<close> and its redemption,
  the handle in the bundle releases nothing but the token and member given to \<open>Issue\<close>; and with a
  healthy database it does release them before the expiry, if the clock has not run backwards.
\<close>

theorem invite_roundtrip:
  assumes inv: "invites_inv T s" "is_db s \<noteq> None" "T \<le> now" and t: "time_ok now" "time_ok (now + ip_TTL p)"
    and ok: "fst (Issue f rnd1 rnd2 now p s) = Inr b" and s': "s' = snd (Issue f rnd1 rnd2 now p s)"
  shows "(list_all event_ok es \<longrightarrow> set (releases (cb_Handle b) es s') \<subseteq> {(ip_TokenValue p, ip_MemberID p)}) \<and>
    (now \<le> later \<and> time_ok later \<and> later < (now + ip_TTL p) div milli * milli \<longrightarrow>
       fst (Unwrap TxOk later (cb_Handle b) s') = Inr (ip_TokenValue p, ip_MemberID p))"
proof -
  let ?h = "cb_Handle b"
  from Issue_step [OF inv(1) t refl, of f rnd1 rnd2] ok obtain l where
    l: "invites_view s' ?h = Some (issued ?h l now p)" and g: "good_step (max T now) s s'"
    by (auto simp: s')
  then have live: "invites_live s'" and i: "invites_inv now s'" using inv by (auto simp: invites_live_def good_step_def)
  have "set (releases ?h es s') \<subseteq> {(ip_TokenValue p, ip_MemberID p)}" if "list_all event_ok es"
    using releases_once [OF live that, of ?h] l by auto
  moreover have "fst (Unwrap TxOk later ?h s') = Inr (ip_TokenValue p, ip_MemberID p)"
    if h: "now \<le> later" "time_ok later" "later < (now + ip_TTL p) div milli * milli"
  proof -
    have "\<not> isExpiredAt (issued ?h l now p) later" using h(3) by (simp add: isExpiredAt_def parse_FormatTime [OF t(2)])
    then have "statusGateLocked (issued ?h l now p) later = None" by (simp add: statusGateLocked_def)
    from Unwrap_healthy [OF i h(1,2) l this] show ?thesis by simp
  qed
  ultimately show ?thesis by blast
qed

theorem invite_roundtrip_witness:
  "fst (Unwrap TxOk (60 * second) demo_handle demo_invited) = Inr (''evt_x'', ''m1'')"
proof -
  obtain b where b: "fst (Issue TxOk demo_entropy demo_entropy 0 demo_params demo_inbox) = Inr b" "cb_Handle b = demo_handle"
    using demo_issue by blast
  have t: "time_ok (0 + ip_TTL demo_params)" using demo_times by (simp add: demo_params_def)
  have i: "invites_inv 0 demo_inbox" "is_db demo_inbox \<noteq> None" using demo_inbox_live by simp_all
  from invite_roundtrip [OF i order_refl demo_times(1) t b(1) refl, of "[]" "60 * second"] demo_times
  show ?thesis by (simp add: b demo_invited_def demo_params_def second_def milli_def)
qed

text \<open>
  C34. The life of an invite only goes forward. Over any history an invite is never lost, what it
  was issued with never changes, its status follows pending, then consumed, expired or revoked,
  and consumed, then compromised; and a record that is not pending carries no token, in the cache
  and in the table.
\<close>

theorem invite_forward_only:
  assumes "invites_live s" "list_all event_ok es" "invites_view s h = Some iv" and s': "s' = fold invites_step es s"
  shows "(\<exists>iv'. invites_view s' h = Some iv' \<and> moves\<^sup>*\<^sup>* iv iv' \<and>
      iv_Handle iv' = h \<and> iv_MemberID iv' = iv_MemberID iv \<and> iv_LeaseID iv' = iv_LeaseID iv \<and> iv_ExpiresAt iv' = iv_ExpiresAt iv \<and>
      (iv_Status iv' \<noteq> StatusPending \<longrightarrow> iv_TokenValue iv' = [])) \<and>
    (\<forall>t r. is_db s' = Some t \<longrightarrow> r \<in> set t \<longrightarrow> ir_status r \<noteq> StatusPending \<longrightarrow> ir_token_value r = None)"
proof -
  have l: "invites_live s'" using invites.run_inv [OF assms(1,2)] by (simp add: s')
  then obtain T where i: "invites_inv T s'" by (auto simp: invites_live_def)
  obtain iv' where iv': "invites_view s' h = Some iv'" "moves\<^sup>*\<^sup>* iv iv'"
    using invites.run_moves [OF assms(1,2,3)] by (auto simp: s')
  have "ir_token_value r = None" if "is_db s' = Some t" "r \<in> set t" "ir_status r \<noteq> StatusPending" for t r
    using that i by (auto simp: invites_inv_def invites_agree_def list_all_iff row_ok_def invites_check_def)
  then show ?thesis
    using iv' view_invite_ok [OF i iv'(1)] invites_view_key [OF i iv'(1)] moves_identity [OF iv'(2)]
    by (auto simp: invite_ok_def)
qed

theorem invite_forward_only_witness:
  "\<exists>iv'. invites_view (fold invites_step [(TxOk, 0, IRevoke demo_handle), (TxOk, 0, IBoot)] demo_invited) demo_handle = Some iv' \<and>
     iv_MemberID iv' = ''m1''"
proof -
  obtain l where l: "invites_view demo_invited demo_handle = Some (issued demo_handle l 0 demo_params)"
    using demo_invited_view by blast
  have e: "list_all event_ok [(TxOk, 0, IRevoke demo_handle), (TxOk, 0, IBoot)]" using demo_times by simp
  from invite_forward_only [OF demo_invited_live e l refl] show ?thesis by (auto simp: demo_params_def)
qed

text \<open>
  With a healthy database and a clock that has not run backwards every request is decided on
  its merits: \<open>Unwrap\<close> answers exactly what the status gate says of the cached record, a pending
  invite can be revoked, and all pending invites of a member can be cancelled. The sweep that the
  same transaction runs first never makes a statement fail.
\<close>

theorem invite_requests_decided:
  assumes "invites_inv T s" "T \<le> now" "time_ok now"
  shows "(invites_view s h = None \<longrightarrow> fst (Unwrap TxOk now h s) = Inl (ErrInviteNotFound h)) \<and>
    (\<forall>iv. invites_view s h = Some iv \<longrightarrow>
       fst (Unwrap TxOk now h s) = (case statusGateLocked iv now of Some e \<Rightarrow> Inl e | None \<Rightarrow> Inr (iv_TokenValue iv, iv_MemberID iv)) \<and>
       (iv_Status iv = StatusPending \<longrightarrow> fst (RevokePending TxOk now h s) = Inr ())) \<and>
    (\<exists>k. fst (RevokeAllPendingForMember TxOk now m s) = Inr k)"
proof -
  have "fst (Unwrap TxOk now h s) = Inl (ErrInviteNotFound h)" if "invites_view s h = None"
    using that by (simp add: Unwrap_def invites_view_def deref_def)
  moreover have "fst (Unwrap TxOk now h s) = Inl e" if iv: "invites_view s h = Some iv" and g: "statusGateLocked iv now = Some e" for iv e
    using iv g by (auto simp: Unwrap_def invites_view_def deref_def Let_def split: prod.splits)
  ultimately show ?thesis
    using Unwrap_healthy [OF assms] RevokePending_healthy [OF assms] RevokeAll_healthy [OF assms]
    by (auto split: option.split)
qed

theorem invite_requests_decided_witness:
  "fst (Unwrap TxOk (60 * second) demo_handle demo_invited) = Inr (''evt_x'', ''m1'') \<and>
   fst (RevokePending TxOk (60 * second) demo_handle demo_invited) = Inr ()"
proof -
  obtain l where l: "invites_inv 0 demo_invited" "invites_view demo_invited demo_handle = Some (issued demo_handle l 0 demo_params)"
    using demo_invited_view by blast
  have "0 \<le> 60 * second" by (simp add: second_def)
  from invite_requests_decided [OF l(1) this demo_times(3), of demo_handle "''m1''"] l(2) demo_not_expired [of l]
  show ?thesis by (simp add: demo_params_def)
qed

text \<open>
  The sweep of the table and the gate of the cache agree on what has expired: on the rows of
  the store, the textual comparison of the SQL statement flips and scrubs exactly the pending rows
  whose parsed expiry the gate finds past, and it never trips the trigger or a constraint.
\<close>

theorem invite_sweep_is_expiry:
  assumes "invites_inv T s" "is_db s = Some t" "time_ok now"
  shows "sweepAgedPending now t =
    Inr (map (\<lambda>r. if ir_status r = StatusPending \<and> isExpiredAt (invite_of_row r) now then scrub_row StatusExpired r else r) t)"
proof -
  have ok: "list_all row_ok t" using assms by (simp add: invites_inv_def invites_agree_def)
  then have "map (sweep_row now) t =
      map (\<lambda>r. if ir_status r = StatusPending \<and> isExpiredAt (invite_of_row r) now then scrub_row StatusExpired r else r) t"
    using aged_pending_iff [OF _ assms(3)] by (auto simp: sweep_row_def list_all_iff)
  with sweep_ok [OF ok] show ?thesis by simp
qed

theorem invite_sweep_is_expiry_witness:
  "\<exists>t. is_db demo_invited = Some t \<and> sweepAgedPending (60 * second) t =
     Inr (map (\<lambda>r. if ir_status r = StatusPending \<and> isExpiredAt (invite_of_row r) (60 * second) then scrub_row StatusExpired r else r) t)"
proof -
  obtain t where t: "invites_inv 0 demo_invited" "is_db demo_invited = Some t" using demo_invited_view by blast
  from invite_sweep_is_expiry [OF t demo_times(3)] t(2) show ?thesis by blast
qed

text \<open>
  Cancelling a member's invitation voids every pending invite of that member at once: a
  successful \<open>RevokeAllPendingForMember\<close> reports how many were pending, leaves none of them
  pending in the cache or in the table, and leaves the invites of everybody else as they were; one
  that fails changes nothing.
\<close>

theorem invite_cancel_voids_all:
  assumes inv: "invites_inv T s" and n: "time_ok now" and u: "u = RevokeAllPendingForMember f now m s"
  shows "(case fst u of
      Inl e \<Rightarrow> snd u = s
    | Inr k \<Rightarrow> k = length (pending_of m s) \<and>
        (\<forall>h. invites_view (snd u) h = map_option (cancel m now) (invites_view s h)) \<and>
        (\<forall>h iv. invites_view (snd u) h = Some iv \<longrightarrow> iv_MemberID iv = m \<longrightarrow> iv_Status iv \<noteq> StatusPending) \<and>
        (\<forall>t r. is_db (snd u) = Some t \<longrightarrow> r \<in> set t \<longrightarrow> ir_member_id r = m \<longrightarrow> ir_status r \<noteq> StatusPending))"
proof (cases "fst u")
  case (Inl e)
  then have "snd u = s" by (auto simp: u RevokeAllPendingForMember_def Let_def split: if_splits sum.splits)
  with Inl show ?thesis by simp
next
  case (Inr k)
  note R = RevokeAll_step [OF inv n u]
  with Inr have k: "k = length (pending_of m s)" and v: "invites_view (snd u) = (\<lambda>h. map_option (cancel m now) (invites_view s h))"
    by auto
  have none: "iv_Status iv \<noteq> StatusPending" if "invites_view (snd u) h = Some iv" "iv_MemberID iv = m" for h iv
  proof -
    from that(1) obtain iv0 where iv0: "iv = cancel m now iv0" unfolding v by blast
    with that(2) have "iv_MemberID iv0 = m" by (simp add: cancel_void(1))
    from cancel_void(2) [OF this] show ?thesis by (simp add: iv0)
  qed
  have "ir_status r \<noteq> StatusPending" if t: "is_db (snd u) = Some t" "r \<in> set t" "ir_member_id r = m" for t r
  proof -
    from R t have a: "invites_agree (max T now) (invites_view (snd u)) t" by (simp add: good_step_def invites_inv_def)
    then have "tab ir_handle t (ir_handle r) = Some r" using t by (simp add: invites_agree_def tab_Some_iff)
    then obtain iv where iv: "invites_view (snd u) (ir_handle r) = Some iv" "coherent (max T now) iv r"
      using agree_none [OF a, of "ir_handle r"] agree_row [OF a, of "ir_handle r"] by fastforce
    have "iv_Status iv \<noteq> StatusPending" using none [OF iv(1)] coherent_sel [OF iv(2)] t(3) by simp
    with iv(2) have "invite_of_row r = iv" unfolding coherent_def by blast
    with \<open>iv_Status iv \<noteq> StatusPending\<close> show ?thesis using invite_of_row_sel(4) [of r] by simp
  qed
  with none k v Inr show ?thesis by simp
qed

theorem invite_cancel_voids_all_witness:
  "\<exists>k. fst (RevokeAllPendingForMember TxOk (60 * second) ''m1'' demo_invited) = Inr k \<and>
     (\<exists>iv. invites_view (snd (RevokeAllPendingForMember TxOk (60 * second) ''m1'' demo_invited)) demo_handle = Some iv \<and>
        iv_Status iv \<noteq> StatusPending)"
proof -
  have i: "invites_inv 0 demo_invited" using demo_invited_view by blast
  obtain l where l: "invites_view demo_invited demo_handle = Some (issued demo_handle l 0 demo_params)"
    using demo_invited_view by blast
  obtain k where k: "fst (RevokeAllPendingForMember TxOk (60 * second) ''m1'' demo_invited) = Inr k"
    using RevokeAll_healthy [OF i _ demo_times(3)] by (auto simp: second_def)
  from invite_cancel_voids_all [OF i demo_times(3) refl, of TxOk "''m1''"] k
  have "invites_view (snd (RevokeAllPendingForMember TxOk (60 * second) ''m1'' demo_invited)) demo_handle =
      Some (cancel ''m1'' (60 * second) (issued demo_handle l 0 demo_params))" by (simp add: l)
  with k cancel_void(2) [of "issued demo_handle l 0 demo_params" "''m1''"] show ?thesis by (auto simp: demo_params_def)
qed

text \<open>
  No read path reveals a token: two stores that differ only in the sealed tokens answer every
  lookup and every listing alike.
\<close>

theorem invite_reads_hide_tokens:
  assumes inv: "invites_inv T s" and i: "is_byHandle s' = is_byHandle s"
    and c: "map (iv_TokenValue_update (\<lambda>_. [])) (is_cells s') = map (iv_TokenValue_update (\<lambda>_. [])) (is_cells s)"
  shows "Lookup h path now s' = Lookup h path now s \<and> invites_List s' = invites_List s \<and>
    ListByMember m s' = ListByMember m s \<and> LatestByMember m s' = LatestByMember m s"
proof -
  have len: "length (is_cells s') = length (is_cells s)" using arg_cong [OF c, of length] by simp
  have cell: "(is_cells s' ! p)\<lparr>iv_TokenValue := []\<rparr> = (is_cells s ! p)\<lparr>iv_TokenValue := []\<rparr>" if "p < length (is_cells s)" for p
    using that len arg_cong [OF c, of "\<lambda>xs. xs ! p"] by simp
  have pub: "clearBundle (iv\<lparr>iv_TokenValue := []\<rparr>) = clearBundle iv" "view_of_invite (iv\<lparr>iv_TokenValue := []\<rparr>) = view_of_invite iv"
    "statusGateLocked (iv\<lparr>iv_TokenValue := []\<rparr>) now = statusGateLocked iv now" "iv_CreationPath (iv\<lparr>iv_TokenValue := []\<rparr>) = iv_CreationPath iv" for iv
    by (simp_all add: clearBundle_def view_of_invite_def statusGateLocked_def isExpiredAt_def)
  have same: "clearBundle (is_cells s' ! p) = clearBundle (is_cells s ! p) \<and> view_of_invite (is_cells s' ! p) = view_of_invite (is_cells s ! p) \<and>
      statusGateLocked (is_cells s' ! p) now = statusGateLocked (is_cells s ! p) now \<and> iv_CreationPath (is_cells s' ! p) = iv_CreationPath (is_cells s ! p)"
    if "map_of (is_byHandle s) x = Some p" for x p
    using cell [of p] dual_wf1 [OF invites_dual [OF inv] that] pub by metis
  have L: "invites_List s' = invites_List s"
  proof -
    have "distinct (map fst (is_byHandle s))" using invites_dual [OF inv] by (simp add: dual_wf_def)
    then have "map (\<lambda>(_, p). view_of_invite (is_cells s' ! p)) (is_byHandle s) = map (\<lambda>(_, p). view_of_invite (is_cells s ! p)) (is_byHandle s)"
      using same by (auto dest: map_of_is_SomeI)
    then show ?thesis by (simp only: invites_List_def i)
  qed
  moreover have "Lookup h path now s' = Lookup h path now s"
    using same [of h] by (cases "map_of (is_byHandle s) h") (simp_all add: Lookup_def i Let_def split: option.split)
  ultimately show ?thesis by (simp add: ListByMember_def LatestByMember_def)
qed

theorem invite_reads_hide_tokens_witness:
  "invites_List (demo_invited\<lparr>is_cells := map (iv_TokenValue_update (\<lambda>_. ''other'')) (is_cells demo_invited)\<rparr>) = invites_List demo_invited"
  using invite_reads_hide_tokens [of 0 demo_invited "demo_invited\<lparr>is_cells := map (iv_TokenValue_update (\<lambda>_. ''other'')) (is_cells demo_invited)\<rparr>"]
    demo_invited_view by (simp add: comp_def)

text \<open>
  The issuance history lists every invite once, newest first with handles breaking ties, and
  the latest invite of a member is one that no other of that member follows.
\<close>

theorem invite_listing_newest_first:
  assumes "invites_inv T s"
  shows "sorted_wrt (\<lambda>a b. vw_CreatedAt b < vw_CreatedAt a \<or> vw_CreatedAt a = vw_CreatedAt b \<and> vw_Handle a < vw_Handle b) (invites_List s) \<and>
    set (invites_List s) = {view_of_invite iv | h iv. invites_view s h = Some iv} \<and>
    (\<forall>v. LatestByMember m s = Some v \<longrightarrow> (\<exists>iv. invites_view s (iv_Handle iv) = Some iv \<and> v = view_of_invite iv \<and> iv_MemberID iv = m) \<and>
       (\<forall>h iv. invites_view s h = Some iv \<longrightarrow> iv_MemberID iv = m \<longrightarrow> iv_CreatedAt iv \<le> vw_CreatedAt v)) \<and>
    (LatestByMember m s = None \<longleftrightarrow> (\<forall>h iv. invites_view s h = Some iv \<longrightarrow> iv_MemberID iv \<noteq> m))"
proof -
  note L = List_views [OF assms]
  let ?R = "\<lambda>a b. vw_CreatedAt b < vw_CreatedAt a \<or> vw_CreatedAt a = vw_CreatedAt b \<and> vw_Handle a < vw_Handle b"
  have S: "sorted_wrt ?R (ListByMember m s)" unfolding ListByMember_def using L(2) by (rule sorted_wrt_filter)
  have M: "set (ListByMember m s) = {view_of_invite iv | h iv. invites_view s h = Some iv \<and> iv_MemberID iv = m}"
    unfolding ListByMember_def set_filter L(1) by fastforce
  have "(\<exists>iv. invites_view s (iv_Handle iv) = Some iv \<and> v = view_of_invite iv \<and> iv_MemberID iv = m) \<and>
      (\<forall>h iv. invites_view s h = Some iv \<longrightarrow> iv_MemberID iv = m \<longrightarrow> iv_CreatedAt iv \<le> vw_CreatedAt v)"
    if "LatestByMember m s = Some v" for v
  proof -
    from that obtain vs where vs: "ListByMember m s = v # vs" by (auto simp: LatestByMember_def split: list.splits)
    then have "\<forall>w \<in> set (ListByMember m s). vw_CreatedAt w \<le> vw_CreatedAt v" using S by auto
    then have "iv_CreatedAt iv \<le> vw_CreatedAt v" if "invites_view s h = Some iv" "iv_MemberID iv = m" for h iv
      using that M by force
    moreover have "v \<in> set (ListByMember m s)" using vs by simp
    then obtain h iv where iv: "v = view_of_invite iv" "invites_view s h = Some iv" "iv_MemberID iv = m" unfolding M by blast
    moreover have "invites_view s (iv_Handle iv) = Some iv" using iv(2) invites_view_key [OF assms iv(2)] by simp
    ultimately show ?thesis by blast
  qed
  moreover have "LatestByMember m s = None \<longleftrightarrow> set (ListByMember m s) = {}" by (simp add: LatestByMember_def split: list.split)
  then have "LatestByMember m s = None \<longleftrightarrow> (\<forall>h iv. invites_view s h = Some iv \<longrightarrow> iv_MemberID iv \<noteq> m)" unfolding M by auto
  ultimately show ?thesis using L by blast
qed

theorem invite_listing_newest_first_witness:
  "LatestByMember ''m1'' demo_invited \<noteq> None \<and> LatestByMember ''m1'' demo_inbox = None"
proof -
  obtain l where l: "invites_inv 0 demo_invited" "invites_view demo_invited demo_handle = Some (issued demo_handle l 0 demo_params)"
    using demo_invited_view by blast
  have "iv_MemberID (issued demo_handle l 0 demo_params) = ''m1''" by (simp add: demo_params_def)
  with invite_listing_newest_first [OF l(1), of "''m1''"] l(2) have "LatestByMember ''m1'' demo_invited \<noteq> None" by blast
  moreover have "invites_inv 0 demo_inbox" "invites_view demo_inbox = Map.empty" using demo_inbox_live by simp_all
  with invite_listing_newest_first [of 0 demo_inbox "''m1''"] have "LatestByMember ''m1'' demo_inbox = None" by simp
  ultimately show ?thesis by blast
qed

text \<open>
  A restart is the passing of time and nothing else: with a clock that has not run backwards,
  after a boot the cache holds every invite as before, except that pending invites past their
  expiry are now expired and scrubbed, in the cache and in the table; \<open>Unwrap\<close> refuses them in the
  same words before and after.
\<close>

theorem invite_restart_only_expires:
  assumes inv: "invites_inv T s" "is_db s = Some t" and n: "T \<le> now" "time_ok now" and s': "s' = invites_boot TxOk now s"
  shows "invites_inv now s' \<and>
    invites_view s' = (\<lambda>h. map_option (\<lambda>iv. if iv_Status iv = StatusPending \<and> isExpiredAt iv now then voided StatusExpired iv else iv) (invites_view s h)) \<and>
    (\<forall>h iv iv'. invites_view s h = Some iv \<longrightarrow> invites_view s' h = Some iv' \<longrightarrow> statusGateLocked iv' now = statusGateLocked iv now)"
proof -
  have a: "invites_agree T (invites_view s) t" using inv by (simp add: invites_inv_def)
  note B = boot_view [OF inv, of now now]
  have "map_option (\<lambda>r. invite_of_row (sweep_row now r)) (tab ir_handle t h) =
      map_option (\<lambda>iv. if iv_Status iv = StatusPending \<and> isExpiredAt iv now then voided StatusExpired iv else iv) (invites_view s h)" for h
  proof (cases "invites_view s h")
    case None
    then show ?thesis using agree_none [OF a, of h] by simp
  next
    case (Some iv)
    from agree_row [OF a Some] obtain r where r: "tab ir_handle t h = Some r" "coherent T iv r" "row_ok r" by blast
    then show ?thesis using aged_pending_iff [OF r(3) n(2)] isExpiredAt_mono [of iv T now] n(1) Some
      by (auto simp: coherent_def sweep_row_def)
  qed
  with B have v: "invites_view s' = (\<lambda>h. map_option (\<lambda>iv. if iv_Status iv = StatusPending \<and> isExpiredAt iv now then voided StatusExpired iv else iv) (invites_view s h))"
    by (simp add: s')
  then show ?thesis using B by (auto simp: s' statusGateLocked_def)
qed

theorem invite_restart_only_expires_witness:
  "\<exists>l. invites_view (invites_boot TxOk (60 * second) demo_invited) demo_handle = Some (issued demo_handle l 0 demo_params)"
proof -
  obtain l t where l: "invites_view demo_invited demo_handle = Some (issued demo_handle l 0 demo_params)"
      "invites_inv 0 demo_invited" "is_db demo_invited = Some t" using demo_invited_view by blast
  have "\<not> isExpiredAt (issued demo_handle l 0 demo_params) (60 * second)"
    using demo_not_expired [of l] by (auto simp: statusGateLocked_def split: if_splits)
  then show ?thesis
    using invite_restart_only_expires [OF l(2,3) _ demo_times(3) refl] l(1) by (auto simp: second_def intro!: exI [of _ l])
qed

end
