(* ===== verification/Token_Store.thy ===== *)
theory Token_Store
  imports Members
begin

text \<open>
  The token registry (\<open>internal/tokens\<close>): one credential per user, behind two indexes (by secret
  and by user) over the \<open>tokens\<close> table, and the asynchronous writer of the \<open>last_used\<close> column with
  its bounded queue. A clock reading is one number, wall clock and monotonic clock coincide; an
  operation that reads the clock twice takes two readings.
\<close>

subsection \<open>Records\<close>

record token =
  tk_User :: string
  tk_Token :: string
  tk_IssuedAt :: string
  tk_Expires :: string
  tk_LastUsed :: string
  tk_ActivatedAt :: string

definition DemoToken :: string where
  "DemoToken = ''evt_0000000000000000000000000000demo''"

datatype token_error = ErrTokenNotFound | ErrTokenExpired string | ErrTokenExists string
  | ErrNoToken string | ErrTokenRand | ErrTokenPersist persist_error | ErrTokenLoad

abbreviation day :: int where "day \<equiv> 86400 * second"

text \<open>Midnight of the day of a reading, in UTC.\<close>

definition midnight :: "time \<Rightarrow> time" where
  "midnight now = day_of now * day"

definition IsExpiredAt :: "token \<Rightarrow> time \<Rightarrow> bool" where
  "IsExpiredAt t now =
     (if tk_Expires t = [] then False
      else case parse_date (tk_Expires t) of None \<Rightarrow> False | Some e \<Rightarrow> e < midnight now)"

text \<open>\<open>time.Time.Sub\<close> saturates at the range of a 64-bit duration.\<close>

definition time_Sub :: "time \<Rightarrow> time \<Rightarrow> int" where
  "time_Sub t u = max (- (2 ^ 63)) (min (2 ^ 63 - 1) (t - u))"

definition expiryDate :: "time \<Rightarrow> int option \<Rightarrow> string" where
  "expiryDate today days = (case days of None \<Rightarrow> [] | Some d \<Rightarrow> format_date (today + d * day))"

definition newTokenString :: "entropy \<Rightarrow> string option" where
  "newTokenString rnd = map_option (\<lambda>b. ''evt_'' @ hex_bytes b) (rand_read 16 rnd)"

subsection \<open>The table\<close>

record token_row =
  tr_user :: string
  tr_token :: string
  tr_issued_at :: string
  tr_expires :: "string option"
  tr_last_used :: "string option"
  tr_activated_at :: "string option"

definition row_of_token :: "token \<Rightarrow> token_row" where
  "row_of_token t = \<lparr>tr_user = tk_User t, tr_token = tk_Token t, tr_issued_at = tk_IssuedAt t,
     tr_expires = nullIfEmpty (tk_Expires t), tr_last_used = nullIfEmpty (tk_LastUsed t),
     tr_activated_at = nullIfEmpty (tk_ActivatedAt t)\<rparr>"

definition token_of_row :: "token_row \<Rightarrow> token" where
  "token_of_row r = \<lparr>tk_User = tr_user r, tk_Token = tr_token r, tk_IssuedAt = tr_issued_at r,
     tk_Expires = null_string (tr_expires r), tk_LastUsed = null_string (tr_last_used r),
     tk_ActivatedAt = null_string (tr_activated_at r)\<rparr>"

definition tokens_insert :: "token_row \<Rightarrow> token_row list \<Rightarrow> sql_error + token_row list" where
  "tokens_insert r t =
     (if list_ex (\<lambda>x. tr_user x = tr_user r) t then Inl SqlPrimaryKey
      else if list_ex (\<lambda>x. tr_token x = tr_token r) t then Inl SqlUnique
      else Inr (t @ [r]))"

definition tokens_delete :: "string \<Rightarrow> token_row list \<Rightarrow> sql_error + token_row list" where
  "tokens_delete user t = expect_rows 1 (sql_delete (\<lambda>r. tr_user r = user) t)"

text \<open>\<open>SET token, issued_at, expires, last_used = NULL, activated_at = NULL\<close>; the secret stays unique.\<close>

definition rotate_row :: "token \<Rightarrow> token_row \<Rightarrow> token_row" where
  "rotate_row n r = r\<lparr>tr_token := tk_Token n, tr_issued_at := tk_IssuedAt n,
     tr_expires := nullIfEmpty (tk_Expires n), tr_last_used := None, tr_activated_at := None\<rparr>"

definition tokens_rotate :: "token \<Rightarrow> token_row list \<Rightarrow> sql_error + token_row list" where
  "tokens_rotate n t =
     (if list_ex (\<lambda>r. tr_user r = tk_User n) t \<and> list_ex (\<lambda>r. tr_user r \<noteq> tk_User n \<and> tr_token r = tk_Token n) t
      then Inl SqlUnique
      else expect_rows 1 (sql_update (\<lambda>r. tr_user r = tk_User n) (rotate_row n) t))"

definition tokens_activate :: "string \<Rightarrow> string \<Rightarrow> string \<Rightarrow> token_row list \<Rightarrow> sql_error + token_row list" where
  "tokens_activate now user secret t =
     Inr (snd (sql_update (\<lambda>r. tr_user r = user \<and> tr_token r = secret) (\<lambda>r. r\<lparr>tr_activated_at := Some now\<rparr>) t))"

definition tokens_touch :: "string \<Rightarrow> string \<Rightarrow> string \<Rightarrow> token_row list \<Rightarrow> token_row list" where
  "tokens_touch stamp user secret t =
     snd (sql_update (\<lambda>r. tr_user r = user \<and> tr_token r = secret) (\<lambda>r. r\<lparr>tr_last_used := Some stamp\<rparr>) t)"

subsection \<open>The store\<close>

record last_used_event =
  lu_user :: string
  lu_token :: string
  lu_stamp :: string
  lu_at :: time

record token_store =
  ts_cells :: "token list"
  ts_tokens :: "(string, nat) gomap"
  ts_tokensByUser :: "(string, nat) gomap"
  ts_db :: "token_row list option"
  ts_queue :: "last_used_event list option"
  ts_lastPersisted :: "(string, time) gomap"

type_synonym 'a ts_result = "(token_error + 'a) \<times> token_store"

definition tokens_NewStore :: token_store where
  "tokens_NewStore = \<lparr>ts_cells = [], ts_tokens = [], ts_tokensByUser = [], ts_db = None, ts_queue = None, ts_lastPersisted = []\<rparr>"

definition tokens_persist :: "tx_fault \<Rightarrow> (token_row list \<Rightarrow> sql_error + token_row list) \<Rightarrow>
    token_store \<Rightarrow> token_error + token_row list option" where
  "tokens_persist f fn s =
     (case run_tx f fn (ts_db s) of Inl e \<Rightarrow> Inl (ErrTokenPersist e) | Inr db \<Rightarrow> Inr db)"

text \<open>The writer starts, with an empty queue and no memory, when the first load attaches a database.\<close>

definition tokens_LoadFromDB :: "token_row list option \<Rightarrow> token_store \<Rightarrow> unit ts_result" where
  "tokens_LoadFromDB q s =
     (case q of
        None \<Rightarrow> (Inl ErrTokenLoad, s)
      | Some t \<Rightarrow>
          (case dual_load tk_Token tk_User (map token_of_row t) of (h, i1, i2) \<Rightarrow>
             (Inr (), s\<lparr>ts_cells := h, ts_tokens := i1, ts_tokensByUser := i2, ts_db := Some t,
                ts_queue := (case ts_queue s of None \<Rightarrow> Some [] | Some es \<Rightarrow> Some es)\<rparr>)))"

definition LoadDefaultsWithDemoToken :: "time \<Rightarrow> token_store \<Rightarrow> token_store" where
  "LoadDefaultsWithDemoToken now s =
     (let tok = \<lparr>tk_User = ''demo'', tk_Token = DemoToken, tk_IssuedAt = format_date now,
                 tk_Expires = [], tk_LastUsed = [], tk_ActivatedAt = []\<rparr>
      in s\<lparr>ts_cells := ts_cells s @ [tok],
           ts_tokens := AList.update DemoToken (length (ts_cells s)) (ts_tokens s),
           ts_tokensByUser := AList.update ''demo'' (length (ts_cells s)) (ts_tokensByUser s)\<rparr>)"

definition lastUsedThrottle :: int where "lastUsedThrottle = 10 * second"
definition lastUsedPersistInterval :: int where "lastUsedPersistInterval = 10 * second"
definition lastUsedQueueDepth :: nat where "lastUsedQueueDepth = 256"

text \<open>The stamped record, or nothing within the throttle window.\<close>

definition stampLastUsedLocked :: "time \<Rightarrow> token \<Rightarrow> token option" where
  "stampLastUsedLocked now tok =
     (if tk_LastUsed tok \<noteq> [] \<and>
         (case parse_rfc3339 (tk_LastUsed tok) of None \<Rightarrow> False | Some prev \<Rightarrow> time_Sub now prev < lastUsedThrottle)
      then None else Some (tok\<lparr>tk_LastUsed := FormatTime now\<rparr>))"

text \<open>A non-blocking send: a full queue drops the event, a nil channel takes none.\<close>

definition try_send :: "last_used_event \<Rightarrow> last_used_event list option \<Rightarrow> last_used_event list option" where
  "try_send ev q =
     (case q of None \<Rightarrow> None | Some es \<Rightarrow> if length es < lastUsedQueueDepth then Some (es @ [ev]) else Some es)"

definition Validate :: "time \<Rightarrow> time \<Rightarrow> string \<Rightarrow> token_store \<Rightarrow> string ts_result" where
  "Validate now1 now2 tokenStr s =
     (case map_of (ts_tokens s) tokenStr of
        None \<Rightarrow> (Inl ErrTokenNotFound, s)
      | Some p \<Rightarrow>
          (let tok = ts_cells s ! p in
           if IsExpiredAt tok now1 then (Inl (ErrTokenExpired (tk_User tok)), s)
           else case stampLastUsedLocked now2 tok of
             None \<Rightarrow> (Inr (tk_User tok), s)
           | Some tok' \<Rightarrow>
               (Inr (tk_User tok'),
                s\<lparr>ts_cells := (ts_cells s)[p := tok'],
                  ts_queue := try_send \<lparr>lu_user = tk_User tok', lu_token = tk_Token tok', lu_stamp = tk_LastUsed tok', lu_at = now2\<rparr> (ts_queue s)\<rparr>)))"

definition GetUsername :: "string \<Rightarrow> token_store \<Rightarrow> string" where
  "GetUsername tokenStr s = (case map_of (ts_tokens s) tokenStr of None \<Rightarrow> [] | Some p \<Rightarrow> tk_User (ts_cells s ! p))"

definition MarkActivated :: "tx_fault \<Rightarrow> time \<Rightarrow> string \<Rightarrow> token_store \<Rightarrow> unit ts_result" where
  "MarkActivated f now user s =
     (case map_of (ts_tokensByUser s) user of
        None \<Rightarrow> (Inr (), s)
      | Some p \<Rightarrow>
          (let tok = ts_cells s ! p in
           case tokens_persist f (tokens_activate (FormatTime now) user (tk_Token tok)) s of
             Inl e \<Rightarrow> (Inl e, s)
           | Inr db \<Rightarrow> (Inr (), s\<lparr>ts_cells := (ts_cells s)[p := tok\<lparr>tk_ActivatedAt := FormatTime now\<rparr>], ts_db := db\<rparr>)))"

definition fresh_token :: "string \<Rightarrow> string \<Rightarrow> time \<Rightarrow> int option \<Rightarrow> token" where
  "fresh_token user tokStr today days = \<lparr>tk_User = user, tk_Token = tokStr, tk_IssuedAt = format_date today,
     tk_Expires = expiryDate today days, tk_LastUsed = [], tk_ActivatedAt = []\<rparr>"

definition AddToken :: "tx_fault \<Rightarrow> entropy \<Rightarrow> time \<Rightarrow> string \<Rightarrow> int option \<Rightarrow> token_store \<Rightarrow> token ts_result" where
  "AddToken f rnd now user expiresDays s =
     (if map_of (ts_tokensByUser s) user \<noteq> None then (Inl (ErrTokenExists user), s)
      else case newTokenString rnd of
        None \<Rightarrow> (Inl ErrTokenRand, s)
      | Some tokStr \<Rightarrow>
          (let tok = fresh_token user tokStr now expiresDays in
           case tokens_persist f (tokens_insert (row_of_token tok)) s of
             Inl e \<Rightarrow> (Inl e, s)
           | Inr db \<Rightarrow>
               (Inr tok, s\<lparr>ts_cells := ts_cells s @ [tok],
                           ts_tokens := AList.update tokStr (length (ts_cells s)) (ts_tokens s),
                           ts_tokensByUser := AList.update user (length (ts_cells s)) (ts_tokensByUser s),
                           ts_db := db\<rparr>)))"

definition RevokeToken :: "tx_fault \<Rightarrow> string \<Rightarrow> token_store \<Rightarrow> bool ts_result" where
  "RevokeToken f user s =
     (case map_of (ts_tokensByUser s) user of
        None \<Rightarrow> (Inr False, s)
      | Some p \<Rightarrow>
          (case tokens_persist f (tokens_delete user) s of
             Inl e \<Rightarrow> (Inl e, s)
           | Inr db \<Rightarrow>
               (Inr True, s\<lparr>ts_tokensByUser := AList.delete user (ts_tokensByUser s),
                            ts_tokens := AList.delete (tk_Token (ts_cells s ! p)) (ts_tokens s), ts_db := db\<rparr>)))"

text \<open>
  The span of the old token in days: the duration between its dates, cut off at the range of a
  duration, rounded towards zero. Without two readable dates there is none.
\<close>

definition span_days :: "token \<Rightarrow> int option" where
  "span_days old =
     (if tk_Expires old = [] then None
      else case (parse_date (tk_IssuedAt old), parse_date (tk_Expires old)) of
        (Some issued, Some e) \<Rightarrow>
          (let d = time_Sub e issued in Some (if 0 \<le> d then d div day else - ((- d) div day)))
      | _ \<Rightarrow> None)"

definition RotateToken :: "tx_fault \<Rightarrow> entropy \<Rightarrow> time \<Rightarrow> string \<Rightarrow> token_store \<Rightarrow> token ts_result" where
  "RotateToken f rnd now user s =
     (case map_of (ts_tokensByUser s) user of
        None \<Rightarrow> (Inl (ErrNoToken user), s)
      | Some p \<Rightarrow>
          (let old = ts_cells s ! p in
           case newTokenString rnd of
             None \<Rightarrow> (Inl ErrTokenRand, s)
           | Some tokStr \<Rightarrow>
               (let newTok = fresh_token user tokStr now (span_days old) in
                case tokens_persist f (tokens_rotate newTok) s of
                  Inl e \<Rightarrow> (Inl e, s)
                | Inr db \<Rightarrow>
                    (Inr newTok,
                     s\<lparr>ts_cells := ts_cells s @ [newTok],
                       ts_tokens := AList.update tokStr (length (ts_cells s)) (AList.delete (tk_Token old) (ts_tokens s)),
                       ts_tokensByUser := AList.update user (length (ts_cells s)) (ts_tokensByUser s),
                       ts_db := db\<rparr>))))"

text \<open>
  Rotating all tokens: one transaction per user, in the order of the users found at the start. The
  environment of the \<open>i\<close>-th rotation is \<open>env i\<close>; an error stops the loop and what was rotated so
  far is returned with it.
\<close>

fun rotate_loop :: "(nat \<Rightarrow> tx_fault \<times> entropy \<times> time) \<Rightarrow> nat \<Rightarrow> string list \<Rightarrow> token_store \<Rightarrow>
    token list \<times> token_error option \<times> token_store" where
  "rotate_loop env i [] s = ([], None, s)"
| "rotate_loop env i (u # us) s =
     (case env i of (f, rnd, now) \<Rightarrow>
        (case RotateToken f rnd now u s of
           (Inl e, s') \<Rightarrow> ([], Some e, s')
         | (Inr tok, s') \<Rightarrow> (case rotate_loop env (Suc i) us s' of (toks, e, s'') \<Rightarrow> (tok # toks, e, s''))))"

definition RotateAllTokens :: "(nat \<Rightarrow> tx_fault \<times> entropy \<times> time) \<Rightarrow> token_store \<Rightarrow> token list \<times> token_error option \<times> token_store" where
  "RotateAllTokens env s = rotate_loop env 0 (sort (map fst (ts_tokensByUser s))) s"

record token_info =
  ti_User :: string
  ti_Expires :: string
  ti_LastUsed :: string
  ti_ActivatedAt :: string
  ti_Expired :: bool

text \<open>The listing reads the clock once per row.\<close>

definition ListTokens :: "(nat \<Rightarrow> time) \<Rightarrow> token_store \<Rightarrow> token_info list" where
  "ListTokens clock s =
     map (\<lambda>(i, u).
         (let tok = ts_cells s ! the (map_of (ts_tokensByUser s) u)
          in \<lparr>ti_User = tk_User tok, ti_Expires = (if tk_Expires tok \<noteq> [] then tk_Expires tok else ''never''),
              ti_LastUsed = tk_LastUsed tok, ti_ActivatedAt = tk_ActivatedAt tok, ti_Expired = IsExpiredAt tok (clock i)\<rparr>))
       (enumerate 0 (sort (map fst (ts_tokensByUser s))))"

text \<open>
  One turn of the writer: it takes the oldest stamp, drops it within the interval of the last one
  it wrote for that user, and otherwise updates the row of that user and secret. \<open>ok\<close> is false when
  the statement fails; the stamp is then abandoned.
\<close>

definition lastUsedWriter_turn :: "bool \<Rightarrow> token_store \<Rightarrow> token_store" where
  "lastUsedWriter_turn ok s =
     (case ts_queue s of
        Some (ev # rest) \<Rightarrow>
          (let s = s\<lparr>ts_queue := Some rest\<rparr> in
           if (case map_of (ts_lastPersisted s) (lu_user ev) of None \<Rightarrow> False
               | Some prev \<Rightarrow> time_Sub (lu_at ev) prev < lastUsedPersistInterval) then s
           else if \<not> ok then s
           else s\<lparr>ts_db := map_option (tokens_touch (lu_stamp ev) (lu_user ev) (lu_token ev)) (ts_db s),
                  ts_lastPersisted := AList.update (lu_user ev) (lu_at ev) (ts_lastPersisted s)\<rparr>)
      | _ \<Rightarrow> s)"

text \<open>Waiting for the writer: every queued stamp is handled, \<open>ok i\<close> tells how the \<open>i\<close>-th statement fares.\<close>

definition syncLastUsed :: "(nat \<Rightarrow> bool) \<Rightarrow> token_store \<Rightarrow> token_store" where
  "syncLastUsed ok s =
     (case ts_queue s of None \<Rightarrow> s | Some es \<Rightarrow> fold (\<lambda>i. lastUsedWriter_turn (ok i)) [0..<length es] s)"

end
