(* ===== verification/Token_Refine.thy ===== *)
theory Token_Refine
  imports Token_Store Write_Through
begin

text \<open>
  What the token registry promises: a map from users to credentials. The time of last use is
  telemetry, written late or never, so a credential is a token record without it. The cache, the
  table and the queue of the writer implement this contract under faults and restarts, and the
  writer's turns, which run outside the store's lock, do not show in it.
\<close>

subsection \<open>Invariant\<close>

definition cred :: "token \<Rightarrow> token" where
  "cred t = t\<lparr>tk_LastUsed := []\<rparr>"

definition creds :: "token_store \<Rightarrow> string \<Rightarrow> token option" where
  "creds s u = map_option cred (deref (ts_cells s) (ts_tokensByUser s) u)"

definition tokens_agree :: "(string \<Rightarrow> token option) \<Rightarrow> token_row list \<Rightarrow> bool" where
  "tokens_agree v t \<longleftrightarrow> keyed tr_user t \<and> keyed tr_token t \<and>
     (\<forall>u. map_option (\<lambda>r. cred (token_of_row r)) (tab tr_user t u) = v u)"

definition tokens_live :: "token_store \<Rightarrow> bool" where
  "tokens_live s \<longleftrightarrow> dual_wf tk_User tk_Token (ts_cells s) (ts_tokensByUser s) (ts_tokens s) \<and>
     (\<exists>t. ts_db s = Some t \<and> tokens_agree (creds s) t) \<and>
     (\<exists>es. ts_queue s = Some es \<and> length es \<le> lastUsedQueueDepth)"

lemma cred_sel [simp]:
  "tk_User (cred t) = tk_User t" "tk_Token (cred t) = tk_Token t" "tk_IssuedAt (cred t) = tk_IssuedAt t"
  "tk_Expires (cred t) = tk_Expires t" "tk_ActivatedAt (cred t) = tk_ActivatedAt t" "tk_LastUsed (cred t) = []"
  by (simp_all add: cred_def)

lemma cred_activate: "cred (t\<lparr>tk_ActivatedAt := a\<rparr>) = (cred t)\<lparr>tk_ActivatedAt := a\<rparr>"
  by (cases t) (simp add: cred_def)

lemma cred_cred [simp]: "cred (cred t) = cred t"
  by (simp add: cred_def)

lemma token_of_row_sel [simp]:
  "tk_User (token_of_row r) = tr_user r" "tk_Token (token_of_row r) = tr_token r"
  by (simp_all add: token_of_row_def)

lemma row_of_token_sel [simp]: "tr_user (row_of_token t) = tk_User t" "tr_token (row_of_token t) = tk_Token t"
  by (simp_all add: row_of_token_def)

lemma token_of_row_of_token [simp]: "token_of_row (row_of_token t) = t"
  by (simp add: token_of_row_def row_of_token_def)

lemma fresh_token_sel [simp]:
  "tk_User (fresh_token u x now d) = u" "tk_Token (fresh_token u x now d) = x"
  "tk_IssuedAt (fresh_token u x now d) = format_date now" "tk_Expires (fresh_token u x now d) = expiryDate now d"
  by (simp_all add: fresh_token_def)

lemma cred_fresh [simp]: "cred (fresh_token u x now d) = fresh_token u x now d"
  by (simp add: cred_def fresh_token_def)

lemma IsExpiredAt_cred [simp]: "IsExpiredAt (cred t) = IsExpiredAt t"
  by (simp add: IsExpiredAt_def fun_eq_iff)

lemma live_dual: "tokens_live s \<Longrightarrow> dual_wf tk_User tk_Token (ts_cells s) (ts_tokensByUser s) (ts_tokens s)"
  by (simp add: tokens_live_def)

lemma creds_user: "tokens_live s \<Longrightarrow> creds s u = Some c \<Longrightarrow> tk_User c = u"
  using deref_key [OF live_dual] by (fastforce simp: creds_def)

lemma creds_at: "map_of (ts_tokensByUser s) u = Some p \<Longrightarrow> creds s u = Some (cred (ts_cells s ! p))"
  by (simp add: creds_def deref_def)

lemma creds_none: "creds s u = None \<longleftrightarrow> map_of (ts_tokensByUser s) u = None"
  by (simp add: creds_def deref_def)

text \<open>The index by secret, in terms of credentials.\<close>

lemma secret_iff:
  assumes "tokens_live s"
  shows "map_of (ts_tokens s) x = Some p \<longleftrightarrow>
    map_of (ts_tokensByUser s) (tk_User (ts_cells s ! p)) = Some p \<and> tk_Token (ts_cells s ! p) = x"
  using dual_wf1 [OF live_dual [OF assms]] dual_wf2 [OF live_dual [OF assms]] by auto

lemma secret_none:
  assumes "tokens_live s"
  shows "map_of (ts_tokens s) x = None \<longleftrightarrow> (\<forall>u c. creds s u = Some c \<longrightarrow> tk_Token c \<noteq> x)"
proof
  assume n: "map_of (ts_tokens s) x = None"
  show "\<forall>u c. creds s u = Some c \<longrightarrow> tk_Token c \<noteq> x"
  proof (intro allI impI)
    fix u c
    assume "creds s u = Some c"
    then obtain p where "map_of (ts_tokensByUser s) u = Some p" "tk_Token c = tk_Token (ts_cells s ! p)"
      by (auto simp: creds_def deref_def)
    with dual_wf1 [OF live_dual [OF assms], of u p] n show "tk_Token c \<noteq> x" by auto
  qed
next
  assume c: "\<forall>u c. creds s u = Some c \<longrightarrow> tk_Token c \<noteq> x"
  show "map_of (ts_tokens s) x = None"
  proof (rule ccontr)
    assume "map_of (ts_tokens s) x \<noteq> None"
    then obtain p where "map_of (ts_tokens s) x = Some p" by blast
    with secret_iff [OF assms] have "creds s (tk_User (ts_cells s ! p)) = Some (cred (ts_cells s ! p))" "tk_Token (ts_cells s ! p) = x"
      by (simp_all add: creds_at)
    with c show False by fastforce
  qed
qed

lemma live_unique:
  assumes "tokens_live s" "creds s u = Some c" "creds s u' = Some c'" "tk_Token c = tk_Token c'"
  shows "u = u'"
proof -
  obtain p p' where p: "map_of (ts_tokensByUser s) u = Some p" "c = cred (ts_cells s ! p)"
      "map_of (ts_tokensByUser s) u' = Some p'" "c' = cred (ts_cells s ! p')"
    using assms(2,3) by (auto simp: creds_def deref_def)
  note d = dual_wf1 [OF live_dual [OF assms(1)] p(1)] dual_wf1 [OF live_dual [OF assms(1)] p(3)]
  have "tk_Token (ts_cells s ! p) = tk_Token (ts_cells s ! p')" using assms(4) p by simp
  with d have "p = p'" by (metis option.inject)
  with d show ?thesis by metis
qed

subsection \<open>Changing one object\<close>

lemma dual_wf_cong:
  "dual_wf k1 k2 h j1 i2 \<Longrightarrow> map_of j1 = map_of i1 \<Longrightarrow> distinct (map fst i1) \<Longrightarrow> dual_wf k1 k2 h i1 i2"
  by (simp add: dual_wf_def)

lemma dual_wf_replace:
  assumes d: "dual_wf k1 k2 h i1 i2" "map_of i1 a = Some p" and r: "k1 r = a"
    and n: "map_of i2 (k2 r) = None \<or> k2 r = k2 (h ! p)"
  shows "dual_wf k1 k2 (h @ [r]) (AList.update a (length h) i1) (AList.update (k2 r) (length h) (AList.delete (k2 (h ! p)) i2))"
proof -
  have w: "dual_wf k1 k2 h (AList.delete a i1) (AList.delete (k2 (h ! p)) i2)" by (rule dual_wf_delete [OF d refl])
  have "dual_wf k1 k2 (h @ [r]) (AList.update (k1 r) (length h) (AList.delete a i1))
      (AList.update (k2 r) (length h) (AList.delete (k2 (h ! p)) i2))"
    by (rule dual_wf_insert [OF w]) (use r n in \<open>auto simp: delete_conv'\<close>)
  moreover have "map_of (AList.update (k1 r) (length h) (AList.delete a i1)) = map_of (AList.update a (length h) i1)"
    using r by (auto simp: update_conv' delete_conv')
  moreover have "distinct (map fst (AList.update a (length h) i1))" using d(1) by (simp add: dual_wf_def distinct_update)
  ultimately show ?thesis by (rule dual_wf_cong)
qed

lemma deref_replace:
  assumes d: "dual_wf k1 k2 h i1 i2"
  shows "deref (h @ [r]) (AList.update a (length h) i1) = (deref h i1)(a \<mapsto> r)"
  by (rule deref_insert [OF d])

lemma creds_modify:
  assumes l: "tokens_live s" and p: "map_of (ts_tokensByUser s) u = Some p"
  shows "map_option cred (deref ((ts_cells s)[p := tok]) (ts_tokensByUser s) v) = ((creds s)(u \<mapsto> cred tok)) v"
  using deref_modify [OF live_dual [OF l] p, of tok] by (simp add: creds_def)

subsection \<open>Operations as steps\<close>

datatype token_op = TAdd entropy time string "int option" | TRevoke string | TRotate entropy time string
  | TActivate time string | TValidate time time string | TWriter bool

fun tokens_step :: "tx_fault \<times> token_op \<Rightarrow> token_store \<Rightarrow> token_store" where
  "tokens_step (f, TAdd rnd now u d) s = snd (AddToken f rnd now u d s)"
| "tokens_step (f, TRevoke u) s = snd (RevokeToken f u s)"
| "tokens_step (f, TRotate rnd now u) s = snd (RotateToken f rnd now u s)"
| "tokens_step (f, TActivate now u) s = snd (MarkActivated f now u s)"
| "tokens_step (f, TValidate now1 now2 x) s = snd (Validate now1 now2 x s)"
| "tokens_step (f, TWriter ok) s = lastUsedWriter_turn ok s"

definition unused :: "string \<Rightarrow> string \<Rightarrow> (string \<Rightarrow> token option) \<Rightarrow> bool" where
  "unused u x v \<longleftrightarrow> (\<forall>u' c. v u' = Some c \<longrightarrow> u' \<noteq> u \<longrightarrow> tk_Token c \<noteq> x)"

fun token_spec :: "token_op \<Rightarrow> (string \<Rightarrow> token option) \<Rightarrow> (string \<Rightarrow> token option)" where
  "token_spec (TAdd rnd now u d) v =
     (case newTokenString rnd of
        None \<Rightarrow> v
      | Some x \<Rightarrow> if v u = None \<and> unused u x v then v(u \<mapsto> fresh_token u x now d) else v)"
| "token_spec (TRevoke u) v = v(u := None)"
| "token_spec (TRotate rnd now u) v =
     (case (v u, newTokenString rnd) of
        (Some c, Some x) \<Rightarrow> if unused u x v then v(u \<mapsto> fresh_token u x now (span_days c)) else v
      | _ \<Rightarrow> v)"
| "token_spec (TActivate now u) v = (case v u of None \<Rightarrow> v | Some c \<Rightarrow> v(u \<mapsto> c\<lparr>tk_ActivatedAt := FormatTime now\<rparr>))"
| "token_spec (TValidate _ _ _) v = v"
| "token_spec (TWriter _) v = v"

definition t_refines :: "tx_fault \<Rightarrow> token_op \<Rightarrow> token_store \<Rightarrow> token_store \<Rightarrow> bool" where
  "t_refines f op s s' \<longleftrightarrow> tokens_live s' \<and>
     (creds s' = creds s \<or> creds s' = token_spec op (creds s)) \<and> (f = TxOk \<longrightarrow> creds s' = token_spec op (creds s))"

lemma t_idle: "tokens_live s \<Longrightarrow> token_spec op (creds s) = creds s \<Longrightarrow> t_refines f op s s"
  by (simp add: t_refines_def)

lemma t_fault: "tokens_live s \<Longrightarrow> f \<noteq> TxOk \<Longrightarrow> t_refines f op s s"
  by (simp add: t_refines_def)

lemma t_commit: "tokens_live s' \<Longrightarrow> creds s' = token_spec op (creds s) \<Longrightarrow> t_refines f op s s'"
  by (simp add: t_refines_def)

lemma tokens_persist_Inr_iff:
  "ts_db s = Some t \<Longrightarrow> tokens_persist f fn s = Inr db \<longleftrightarrow> f = TxOk \<and> (\<exists>t'. fn t = Inr t' \<and> db = Some t')"
  by (auto simp: tokens_persist_def run_tx_Inr_iff split: sum.splits)

lemma tokens_persist_Inl:
  "ts_db s = Some t \<Longrightarrow> tokens_persist f fn s = Inl e \<Longrightarrow> f \<noteq> TxOk \<or> (\<exists>e. fn t = Inl e)"
  by (auto simp: tokens_persist_def split: sum.splits)

lemma agree_user: "tokens_agree v t \<Longrightarrow> tab tr_user t u = None \<longleftrightarrow> v u = None"
  by (metis option.map_disc_iff tokens_agree_def)

lemma agree_unused:
  assumes a: "tokens_agree v t"
  shows "list_ex (\<lambda>r. tr_user r \<noteq> u \<and> tr_token r = x) t \<longleftrightarrow> \<not> unused u x v"
proof -
  have k: "keyed tr_user t" using a by (simp add: tokens_agree_def)
  have v: "v w = Some c \<longleftrightarrow> (\<exists>r \<in> set t. tr_user r = w \<and> c = cred (token_of_row r))" for w c
    using a tab_Some_iff [OF k, of w] unfolding tokens_agree_def by (metis (no_types, lifting) map_option_eq_Some)
  show ?thesis by (force simp: unused_def list_ex_iff v)
qed

lemma AddToken_refines:
  assumes l: "tokens_live s"
  shows "t_refines f (TAdd rnd now u d) s (snd (AddToken f rnd now u d s))"
proof (cases "map_of (ts_tokensByUser s) u = None \<and> newTokenString rnd \<noteq> None")
  case False
  then show ?thesis using l creds_none [of s u]
    by (auto simp: AddToken_def intro!: t_idle split: option.split)
next
  case True
  then obtain x where x: "newTokenString rnd = Some x" and n: "map_of (ts_tokensByUser s) u = None" by blast
  let ?tok = "fresh_token u x now d"
  obtain t where t: "ts_db s = Some t" "tokens_agree (creds s) t" using l by (auto simp: tokens_live_def)
  have v: "creds s u = None" using n by (simp add: creds_none)
  have ins: "tokens_insert (row_of_token ?tok) t = (if unused u x (creds s) then Inr (t @ [row_of_token ?tok]) else Inl SqlUnique)"
  proof -
    have nu: "tab tr_user t u = None" using agree_user [OF t(2)] v by simp
    then have "\<not> list_ex (\<lambda>r. tr_user r = u) t" by (simp add: list_ex_key)
    moreover from this have "list_ex (\<lambda>r. tr_token r = x) t \<longleftrightarrow> list_ex (\<lambda>r. tr_user r \<noteq> u \<and> tr_token r = x) t"
      by (auto simp: list_ex_iff)
    ultimately show ?thesis by (simp add: tokens_insert_def agree_unused [OF t(2)])
  qed
  show ?thesis
  proof (cases "tokens_persist f (tokens_insert (row_of_token ?tok)) s")
    case (Inl e)
    then have s': "snd (AddToken f rnd now u d s) = s" by (simp add: AddToken_def n x)
    show ?thesis
    proof (cases "f = TxOk")
      case True
      with tokens_persist_Inl [OF t(1) Inl] ins have "\<not> unused u x (creds s)" by (auto split: if_splits)
      then show ?thesis unfolding s' by (intro t_idle [OF l]) (simp add: x)
    qed (use l s' t_fault in simp)
  next
    case (Inr db)
    with tokens_persist_Inr_iff [OF t(1)] ins have un: "unused u x (creds s)" and db: "db = Some (t @ [row_of_token ?tok])"
      by (auto split: if_splits)
    let ?s' = "snd (AddToken f rnd now u d s)"
    have s': "?s' = s\<lparr>ts_cells := ts_cells s @ [?tok], ts_tokens := AList.update x (length (ts_cells s)) (ts_tokens s),
        ts_tokensByUser := AList.update u (length (ts_cells s)) (ts_tokensByUser s), ts_db := db\<rparr>"
      by (simp add: AddToken_def n x Inr Let_def)
    have c: "creds ?s' = (creds s)(u \<mapsto> ?tok)"
      using deref_insert [OF live_dual [OF l], of ?tok u] by (simp add: s' creds_def fun_eq_iff)
    have xn: "map_of (ts_tokens s) x = None" using un v unfolding secret_none [OF l] unused_def by (metis option.distinct(1))
    have "dual_wf tk_User tk_Token (ts_cells ?s') (ts_tokensByUser ?s') (ts_tokens ?s')"
      using dual_wf_insert [OF live_dual [OF l], of ?tok] n xn by (simp add: s')
    moreover have "tokens_agree (creds ?s') (t @ [row_of_token ?tok])"
    proof -
      have "tab tr_user t u = None" using agree_user [OF t(2)] v by simp
      moreover have "tab tr_token t x = None"
        using ins un by (simp add: tokens_insert_def list_ex_key split: if_splits)
      ultimately show ?thesis using t(2) unfolding c
        by (auto simp: tokens_agree_def keyed_insert tab_insert)
    qed
    ultimately have "tokens_live ?s'" using l by (simp add: tokens_live_def s' db)
    then show ?thesis by (rule t_commit) (simp add: c x v un)
  qed
qed

lemma RevokeToken_refines:
  assumes l: "tokens_live s"
  shows "t_refines f (TRevoke u) s (snd (RevokeToken f u s))"
proof (cases "map_of (ts_tokensByUser s) u")
  case None
  then show ?thesis using l creds_none [of s u] by (auto simp: RevokeToken_def intro!: t_idle)
next
  case (Some p)
  obtain t where t: "ts_db s = Some t" "tokens_agree (creds s) t" using l by (auto simp: tokens_live_def)
  have k: "keyed tr_user t" "keyed tr_token t" using t by (simp_all add: tokens_agree_def)
  have "tab tr_user t u \<noteq> None" using agree_user [OF t(2)] Some creds_none [of s u] by simp
  then have del: "tokens_delete u t = Inr (snd (sql_delete (\<lambda>r. tr_user r = u) t))"
    using count_key [OF k(1), of u] by (simp add: tokens_delete_def expect_rows_def sql_delete_def)
  show ?thesis
  proof (cases "tokens_persist f (tokens_delete u) s")
    case (Inl e)
    with tokens_persist_Inl [OF t(1) Inl] del have "f \<noteq> TxOk" by auto
    with Inl l t_fault show ?thesis by (simp add: RevokeToken_def Some)
  next
    case (Inr db)
    let ?s' = "snd (RevokeToken f u s)"
    have db: "db = Some (snd (sql_delete (\<lambda>r. tr_user r = u) t))" using Inr tokens_persist_Inr_iff [OF t(1)] del by auto
    have s': "?s' = s\<lparr>ts_tokensByUser := AList.delete u (ts_tokensByUser s),
        ts_tokens := AList.delete (tk_Token (ts_cells s ! p)) (ts_tokens s), ts_db := db\<rparr>"
      by (simp add: RevokeToken_def Some Inr)
    have c: "creds ?s' = (creds s)(u := None)" by (simp add: s' creds_def deref_delete fun_eq_iff)
    have "dual_wf tk_User tk_Token (ts_cells ?s') (ts_tokensByUser ?s') (ts_tokens ?s')"
      using dual_wf_delete [OF live_dual [OF l] Some refl] by (simp add: s')
    moreover have "tokens_agree (creds ?s') (snd (sql_delete (\<lambda>r. tr_user r = u) t))"
    proof -
      have "map_option (\<lambda>r. cred (token_of_row r)) (tab tr_user (snd (sql_delete (\<lambda>r. tr_user r = u) t)) w) = ((creds s)(u := None)) w" for w
        using t(2) tab_key [of tr_user t w] k by (cases "tab tr_user t w") (auto simp: tab_sql_delete tokens_agree_def dest!: spec [of _ w])
      with k show ?thesis unfolding c by (simp add: tokens_agree_def keyed_sql_delete)
    qed
    ultimately have "tokens_live ?s'" using l by (simp add: tokens_live_def s' db)
    then show ?thesis by (rule t_commit) (simp add: c)
  qed
qed

text \<open>Replacing the row of one user.\<close>

lemma agree_set:
  assumes a: "tokens_agree v t" and u: "v u \<noteq> None"
    and g: "\<And>r. tr_user (g r) = tr_user r" and kt: "keyed tr_token (snd (sql_update q g t))"
    and q: "\<And>r. r \<in> set t \<Longrightarrow> q r \<longleftrightarrow> tr_user r = u"
    and c: "\<And>r. tab tr_user t u = Some r \<Longrightarrow> cred (token_of_row (g r)) = c"
  shows "tokens_agree (v(u \<mapsto> c)) (snd (sql_update q g t))"
proof -
  have k: "keyed tr_user t" using a by (simp add: tokens_agree_def)
  have "map_option (\<lambda>r. cred (token_of_row r)) (tab tr_user (snd (sql_update q g t)) w) = (v(u \<mapsto> c)) w" for w
  proof -
    have w: "map_option (\<lambda>r. cred (token_of_row r)) (tab tr_user t w) = v w" using a by (simp add: tokens_agree_def)
    show ?thesis
    proof (cases "tab tr_user t w")
      case None
      with w u show ?thesis by (auto simp: tab_sql_update g)
    next
      case (Some r)
      with w q [of r] tab_key [OF Some] c show ?thesis by (auto simp: tab_sql_update g)
    qed
  qed
  with k kt show ?thesis by (simp add: tokens_agree_def keyed_sql_update g)
qed

lemma span_days_cred [simp]: "span_days (cred t) = span_days t"
  by (simp add: span_days_def)

lemma rotate_row_sel [simp]: "tr_user (rotate_row n r) = tr_user r" "tr_token (rotate_row n r) = tk_Token n"
  by (simp_all add: rotate_row_def)

lemma keyed_rotate:
  assumes "keyed tr_user t" "keyed tr_token t" "\<not> list_ex (\<lambda>r. tr_user r \<noteq> tk_User n \<and> tr_token r = tk_Token n) t"
  shows "keyed tr_token (snd (sql_update (\<lambda>r. tr_user r = tk_User n) (rotate_row n) t))"
  using assms by (induction t) (auto simp: keyed_def sql_update_def image_iff list_ex_iff)

lemma RotateToken_refines:
  assumes l: "tokens_live s"
  shows "t_refines f (TRotate rnd now u) s (snd (RotateToken f rnd now u s))"
proof (cases "map_of (ts_tokensByUser s) u \<noteq> None \<and> newTokenString rnd \<noteq> None")
  case False
  then show ?thesis using l creds_none [of s u]
    by (auto simp: RotateToken_def Let_def intro!: t_idle split: option.split)
next
  case True
  then obtain x p where x: "newTokenString rnd = Some x" and p: "map_of (ts_tokensByUser s) u = Some p" by blast
  let ?old = "ts_cells s ! p" and ?tok = "fresh_token u x now (span_days (ts_cells s ! p))"
  obtain t where t: "ts_db s = Some t" "tokens_agree (creds s) t" using l by (auto simp: tokens_live_def)
  have k: "keyed tr_user t" "keyed tr_token t" using t by (simp_all add: tokens_agree_def)
  note v = creds_at [OF p]
  have tu: "tab tr_user t u \<noteq> None" using agree_user [OF t(2)] v by simp
  then have ex: "list_ex (\<lambda>r. tr_user r = u) t" by (simp add: list_ex_key)
  let ?t' = "snd (sql_update (\<lambda>r. tr_user r = u) (rotate_row ?tok) t)"
  have rot: "tokens_rotate ?tok t = (if unused u x (creds s) then Inr ?t' else Inl SqlUnique)"
    using count_key [OF k(1), of u] tu ex
    by (simp add: tokens_rotate_def agree_unused [OF t(2)] expect_rows_def sql_update_def)
  have sp: "token_spec (TRotate rnd now u) (creds s) = (if unused u x (creds s) then (creds s)(u \<mapsto> ?tok) else creds s)"
    by (simp add: x v)
  show ?thesis
  proof (cases "tokens_persist f (tokens_rotate ?tok) s")
    case (Inl e)
    then have s': "snd (RotateToken f rnd now u s) = s" by (simp add: RotateToken_def p x Let_def)
    show ?thesis
    proof (cases "f = TxOk")
      case True
      with tokens_persist_Inl [OF t(1) Inl] rot have "\<not> unused u x (creds s)" by (auto split: if_splits)
      then show ?thesis unfolding s' by (intro t_idle [OF l]) (simp only: sp if_False)
    qed (use l s' t_fault in simp)
  next
    case (Inr db)
    with tokens_persist_Inr_iff [OF t(1)] rot have un: "unused u x (creds s)" and db: "db = Some ?t'"
      by (auto split: if_splits)
    let ?s' = "snd (RotateToken f rnd now u s)"
    have s': "?s' = s\<lparr>ts_cells := ts_cells s @ [?tok],
        ts_tokens := AList.update x (length (ts_cells s)) (AList.delete (tk_Token ?old) (ts_tokens s)),
        ts_tokensByUser := AList.update u (length (ts_cells s)) (ts_tokensByUser s), ts_db := db\<rparr>"
      by (simp add: RotateToken_def p x Inr Let_def)
    have c: "creds ?s' = (creds s)(u \<mapsto> ?tok)"
      using deref_insert [OF live_dual [OF l], of ?tok u] by (simp add: s' creds_def fun_eq_iff)
    have xn: "map_of (ts_tokens s) x = None \<or> x = tk_Token ?old"
    proof (cases "map_of (ts_tokens s) x")
      case (Some q)
      with secret_iff [OF l, of x q] have q: "map_of (ts_tokensByUser s) (tk_User (ts_cells s ! q)) = Some q" "tk_Token (ts_cells s ! q) = x"
        by simp_all
      with un creds_at [OF q(1)] have "tk_User (ts_cells s ! q) = u" unfolding unused_def by force
      with q p show ?thesis by simp
    qed simp
    have "dual_wf tk_User tk_Token (ts_cells ?s') (ts_tokensByUser ?s') (ts_tokens ?s')"
      using dual_wf_replace [OF live_dual [OF l] p, of ?tok] xn by (simp add: s')
    moreover have "tokens_agree ((creds s)(u \<mapsto> ?tok)) ?t'"
    proof (rule agree_set [OF t(2)])
      show "keyed tr_token ?t'" using keyed_rotate [OF k, of ?tok] agree_unused [OF t(2), of u x] un by simp
      fix r
      assume "tab tr_user t u = Some r"
      then show "cred (token_of_row (rotate_row ?tok r)) = ?tok"
        using tab_key [of tr_user t u r] by (simp add: cred_def token_of_row_def rotate_row_def fresh_token_def null_string_def nullIfEmpty_def)
    qed (use v in simp_all)
    ultimately have "tokens_live ?s'" using l c by (simp add: tokens_live_def s' db)
    then show ?thesis by (rule t_commit) (simp only: c sp un if_True)
  qed
qed

lemma MarkActivated_refines:
  assumes l: "tokens_live s"
  shows "t_refines f (TActivate now u) s (snd (MarkActivated f now u s))"
proof (cases "map_of (ts_tokensByUser s) u")
  case None
  then show ?thesis using l creds_none [of s u] by (auto simp: MarkActivated_def intro!: t_idle)
next
  case (Some p)
  let ?tok = "ts_cells s ! p" and ?new = "(ts_cells s ! p)\<lparr>tk_ActivatedAt := FormatTime now\<rparr>"
  obtain t where t: "ts_db s = Some t" "tokens_agree (creds s) t" using l by (auto simp: tokens_live_def)
  have k: "keyed tr_user t" "keyed tr_token t" using t by (simp_all add: tokens_agree_def)
  note v = creds_at [OF Some]
  let ?q = "\<lambda>r. tr_user r = u \<and> tr_token r = tk_Token ?tok" and ?g = "\<lambda>r. r\<lparr>tr_activated_at := Some (FormatTime now)\<rparr>"
  have row: "cred (token_of_row r) = cred ?tok" if "tab tr_user t u = Some r" for r
    using that t(2) v by (auto simp: tokens_agree_def dest!: spec [of _ u])
  show ?thesis
  proof (cases "tokens_persist f (tokens_activate (FormatTime now) u (tk_Token ?tok)) s")
    case (Inl e)
    with tokens_persist_Inl [OF t(1) Inl] have "f \<noteq> TxOk" by (auto simp: tokens_activate_def)
    with Inl l t_fault show ?thesis by (simp add: MarkActivated_def Some Let_def)
  next
    case (Inr db)
    let ?s' = "snd (MarkActivated f now u s)"
    have db: "db = Some (snd (sql_update ?q ?g t))"
      using Inr tokens_persist_Inr_iff [OF t(1)] by (auto simp: tokens_activate_def)
    have s': "?s' = s\<lparr>ts_cells := (ts_cells s)[p := ?new], ts_db := db\<rparr>" by (simp add: MarkActivated_def Some Inr Let_def)
    have c: "creds ?s' = (creds s)(u \<mapsto> cred ?new)"
      using creds_modify [OF l Some, of ?new] by (simp add: s' creds_def [of "s\<lparr>ts_cells := _, ts_db := _\<rparr>"] fun_eq_iff)
    have "dual_wf tk_User tk_Token (ts_cells ?s') (ts_tokensByUser ?s') (ts_tokens ?s')"
      using dual_wf_modify [OF live_dual [OF l], of ?new p] by (simp add: s')
    moreover have "tokens_agree ((creds s)(u \<mapsto> cred ?new)) (snd (sql_update ?q ?g t))"
    proof (rule agree_set [OF t(2)])
      show "keyed tr_token (snd (sql_update ?q ?g t))" using k(2) by (simp add: keyed_sql_update)
      fix r
      show "?q r \<longleftrightarrow> tr_user r = u" if "r \<in> set t"
        using that row [of r] tab_Some_iff [OF k(1)] by (metis cred_sel(2) token_of_row_sel(2))
      assume "tab tr_user t u = Some r"
      moreover have "cred (token_of_row (?g r)) = (cred (token_of_row r))\<lparr>tk_ActivatedAt := FormatTime now\<rparr>"
        by (simp add: cred_def token_of_row_def null_string_def)
      moreover have "cred ?new = (cred ?tok)\<lparr>tk_ActivatedAt := FormatTime now\<rparr>" by (rule cred_activate)
      ultimately show "cred (token_of_row (?g r)) = cred ?new" using row by simp
    qed (use v in simp_all)
    ultimately have "tokens_live ?s'" using l c by (simp add: tokens_live_def s' db)
    then show ?thesis by (rule t_commit) (simp add: c v cred_activate)
  qed
qed

text \<open>Validating and the writer's turn leave the credentials alone.\<close>

lemma stamp_cred: "stampLastUsedLocked now tok = Some tok' \<Longrightarrow> cred tok' = cred tok \<and> tk_User tok' = tk_User tok \<and> tk_Token tok' = tk_Token tok \<and> tk_LastUsed tok' = FormatTime now"
  by (auto simp: stampLastUsedLocked_def cred_def split: if_splits)

lemma try_send_bound: "length es \<le> lastUsedQueueDepth \<Longrightarrow> \<exists>es'. try_send ev (Some es) = Some es' \<and> length es' \<le> lastUsedQueueDepth"
  by (auto simp: try_send_def)

lemma Validate_keeps:
  assumes l: "tokens_live s"
  shows "tokens_live (snd (Validate now1 now2 x s)) \<and> creds (snd (Validate now1 now2 x s)) = creds s"
proof (cases "\<exists>p tok'. map_of (ts_tokens s) x = Some p \<and> \<not> IsExpiredAt (ts_cells s ! p) now1 \<and> stampLastUsedLocked now2 (ts_cells s ! p) = Some tok'")
  case False
  then have "snd (Validate now1 now2 x s) = s" by (auto simp: Validate_def Let_def split: option.split)
  with l show ?thesis by simp
next
  case True
  then obtain p tok' where p: "map_of (ts_tokens s) x = Some p" "\<not> IsExpiredAt (ts_cells s ! p) now1"
      "stampLastUsedLocked now2 (ts_cells s ! p) = Some tok'" by blast
  note st = stamp_cred [OF p(3)]
  have u: "map_of (ts_tokensByUser s) (tk_User (ts_cells s ! p)) = Some p" using secret_iff [OF l, of x p] p(1) by simp
  let ?s' = "snd (Validate now1 now2 x s)"
  obtain ev where s': "?s' = s\<lparr>ts_cells := (ts_cells s)[p := tok'], ts_queue := try_send ev (ts_queue s)\<rparr>"
    using p by (simp add: Validate_def Let_def)
  have c: "creds ?s' = creds s"
    using creds_modify [OF l u, of tok'] creds_at [OF u] st
    by (simp add: s' creds_def [of "s\<lparr>ts_cells := _, ts_queue := _\<rparr>"] fun_eq_iff)
  moreover have "dual_wf tk_User tk_Token (ts_cells ?s') (ts_tokensByUser ?s') (ts_tokens ?s')"
    using dual_wf_modify [OF live_dual [OF l], of tok' p] st by (simp add: s')
  moreover obtain es where es: "ts_queue s = Some es" "length es \<le> lastUsedQueueDepth" using l by (auto simp: tokens_live_def)
  obtain es' where "try_send ev (Some es) = Some es'" "length es' \<le> lastUsedQueueDepth" using try_send_bound [OF es(2)] by blast
  ultimately show ?thesis using l es by (simp add: tokens_live_def s')
qed

lemma touch_agree: "tokens_agree v t \<Longrightarrow> tokens_agree v (tokens_touch stamp u x t)"
proof -
  assume a: "tokens_agree v t"
  have "map_option (\<lambda>r. cred (token_of_row r)) (tab tr_user (tokens_touch stamp u x t) w) =
      map_option (\<lambda>r. cred (token_of_row r)) (tab tr_user t w)" for w
    by (cases "tab tr_user t w") (simp_all add: tokens_touch_def tab_sql_update cred_def token_of_row_def)
  with a show ?thesis by (simp add: tokens_agree_def tokens_touch_def keyed_sql_update)
qed

lemma Writer_keeps:
  assumes l: "tokens_live s"
  shows "tokens_live (lastUsedWriter_turn ok s) \<and> creds (lastUsedWriter_turn ok s) = creds s"
proof -
  obtain es t where s: "ts_queue s = Some es" "length es \<le> lastUsedQueueDepth" "ts_db s = Some t" "tokens_agree (creds s) t"
    using l by (auto simp: tokens_live_def)
  have "creds (lastUsedWriter_turn ok s) = creds s"
    by (simp add: lastUsedWriter_turn_def creds_def Let_def fun_eq_iff split: option.split list.split)
  then show ?thesis using l s touch_agree [OF s(4)]
    by (cases es) (auto simp: tokens_live_def lastUsedWriter_turn_def Let_def split: option.split)
qed

subsection \<open>Loading, and the contract\<close>

definition tokens_restart :: "token_store \<Rightarrow> token_store" where
  "tokens_restart s = snd (tokens_LoadFromDB (ts_db s) tokens_NewStore)"

lemma tokens_load:
  assumes k: "keyed tr_user t" "keyed tr_token t" and s': "tokens_LoadFromDB (Some t) tokens_NewStore = (r, s')"
  shows "tokens_live s' \<and> r = Inr () \<and> ts_db s' = Some t \<and> creds s' = (\<lambda>u. map_option (\<lambda>r. cred (token_of_row r)) (tab tr_user t u))"
proof -
  obtain h i1 i2 where d: "dual_load tk_Token tk_User (map token_of_row t) = (h, i1, i2)" by (metis prod_cases3)
  have D: "dual_wf tk_Token tk_User h i1 i2" "deref h i2 = tab tk_User (map token_of_row t)"
    using dual_load_correct [of tk_Token "map token_of_row t" tk_User] k d
    by (simp_all add: keyed_map [where key' = tr_user] keyed_map [where key' = tr_token])
  have s'': "s' = tokens_NewStore\<lparr>ts_cells := h, ts_tokens := i1, ts_tokensByUser := i2, ts_db := Some t, ts_queue := Some []\<rparr>" "r = Inr ()"
    using s' d by (auto simp: tokens_LoadFromDB_def tokens_NewStore_def)
  have c: "creds s' = (\<lambda>u. map_option (\<lambda>r. cred (token_of_row r)) (tab tr_user t u))"
    by (simp add: s'' creds_def D(2) tab_map [where key' = tr_user] option.map_comp comp_def fun_eq_iff)
  with k D(1) show ?thesis
    by (simp add: tokens_live_def s'' tokens_agree_def dual_wf_swap [of tk_User])
qed

lemma tokens_restart_ok:
  assumes "tokens_live s"
  shows "tokens_live (tokens_restart s) \<and> creds (tokens_restart s) = creds s"
proof -
  obtain t where t: "ts_db s = Some t" "tokens_agree (creds s) t" using assms by (auto simp: tokens_live_def)
  obtain r s' where L: "tokens_LoadFromDB (Some t) tokens_NewStore = (r, s')" by (cases "tokens_LoadFromDB (Some t) tokens_NewStore")
  from tokens_load [OF _ _ L] t show ?thesis by (auto simp: tokens_restart_def L tokens_agree_def)
qed

lemma tokens_step_refines: "tokens_live s \<Longrightarrow> t_refines f op s (tokens_step (f, op) s)"
  using Validate_keeps [of s] Writer_keeps [of s] t_commit [of _ "TValidate _ _ _" s f] t_commit [of _ "TWriter _" s f]
  by (cases op) (simp_all add: AddToken_refines RevokeToken_refines RotateToken_refines MarkActivated_refines)

interpretation tokens: refining_store tokens_step tokens_restart tokens_live creds "\<lambda>fo. token_spec (snd fo)" "\<lambda>fo. fst fo = TxOk"
proof
  fix s and fo :: "tx_fault \<times> token_op"
  assume l: "tokens_live s"
  obtain f op where fo: "fo = (f, op)" by (cases fo)
  note R = tokens_step_refines [OF l, of f op, folded fo, unfolded t_refines_def]
  from R show "tokens_live (tokens_step fo s)" by blast
  from R show "creds (tokens_step fo s) = creds s \<or> creds (tokens_step fo s) = token_spec (snd fo) (creds s)" by (simp add: fo)
  from R show "fst fo = TxOk \<Longrightarrow> creds (tokens_step fo s) = token_spec (snd fo) (creds s)" by (simp add: fo)
next
  fix s
  assume "tokens_live s"
  then show "tokens_live (tokens_restart s)" "creds (tokens_restart s) = creds s" using tokens_restart_ok by blast+
qed

abbreviation tokens_run :: "(tx_fault \<times> token_op) event list \<Rightarrow> token_store \<Rightarrow> token_store" where
  "tokens_run \<equiv> fold (run_event tokens_step tokens_restart)"

end
