(* ===== verification/Token_Properties.thy ===== *)
theory Token_Properties
  imports Token_Refine
begin

text \<open>
  What the token registry guarantees: authentication decides by the credentials alone, a secret
  that is revoked or rotated away is dead for good, expiry has day granularity, rotation keeps the
  span, and the telemetry of last use is bounded and cannot touch anything else.
\<close>

subsection \<open>Secrets\<close>

fun mints :: "token_op \<Rightarrow> string option" where
  "mints (TAdd rnd _ _ _) = newTokenString rnd"
| "mints (TRotate rnd _ _) = newTokenString rnd"
| "mints _ = None"

abbreviation nobody_holds :: "string \<Rightarrow> (string \<Rightarrow> token option) \<Rightarrow> bool" where
  "nobody_holds x v \<equiv> (\<forall>u c. v u = Some c \<longrightarrow> tk_Token c \<noteq> x)"

lemma spec_nobody: "nobody_holds x v \<Longrightarrow> mints op \<noteq> Some x \<Longrightarrow> nobody_holds x (token_spec op v)"
  by (cases op) (auto split: option.splits if_splits)

lemma run_nobody:
  assumes "tokens_live s" "nobody_holds x (creds s)" "\<forall>fo \<in> set (event_ops es). mints (snd fo) \<noteq> Some x"
  shows "nobody_holds x (creds (tokens_run es s))"
proof -
  obtain ops where ops: "subseq ops (event_ops es)" "creds (tokens_run es s) = fold (\<lambda>fo. token_spec (snd fo)) ops (creds s)"
    using tokens.run_refines [OF assms(1)] by blast
  from ops(1) have "\<forall>fo \<in> set ops. mints (snd fo) \<noteq> Some x" using assms(3) by (auto dest: list_emb_set)
  with assms(2) have "nobody_holds x (fold (\<lambda>fo. token_spec (snd fo)) ops (creds s))"
  proof (induction ops rule: rev_induct)
    case (snoc fo ops)
    then show ?case using spec_nobody [where x = x and op = "snd fo" and v = "fold (\<lambda>fo. token_spec (snd fo)) ops (creds s)"] by simp
  qed simp
  with ops(2) show ?thesis by simp
qed

lemma Validate_unknown: "tokens_live s \<Longrightarrow> nobody_holds x (creds s) \<Longrightarrow> fst (Validate n1 n2 x s) = Inl ErrTokenNotFound"
  using secret_none [of s x] by (simp add: Validate_def)

lemma Validate_result:
  assumes "tokens_live s"
  shows "fst (Validate n1 n2 x s) =
    (case map_of (ts_tokens s) x of
       None \<Rightarrow> Inl ErrTokenNotFound
     | Some p \<Rightarrow> if IsExpiredAt (ts_cells s ! p) n1 then Inl (ErrTokenExpired (tk_User (ts_cells s ! p))) else Inr (tk_User (ts_cells s ! p)))"
  using stamp_cred [of n2] by (auto simp: Validate_def Let_def split: option.split)

lemma creds_secret:
  assumes "tokens_live s"
  shows "creds s u = Some c \<and> tk_Token c = x \<longleftrightarrow>
    (\<exists>p. map_of (ts_tokens s) x = Some p \<and> c = cred (ts_cells s ! p) \<and> u = tk_User (ts_cells s ! p))"
proof
  assume l: "creds s u = Some c \<and> tk_Token c = x"
  then obtain p where p: "map_of (ts_tokensByUser s) u = Some p" "c = cred (ts_cells s ! p)" by (auto simp: creds_def deref_def)
  with dual_wf1 [OF live_dual [OF assms] p(1)] l show "\<exists>p. map_of (ts_tokens s) x = Some p \<and> c = cred (ts_cells s ! p) \<and> u = tk_User (ts_cells s ! p)"
    by auto
next
  assume "\<exists>p. map_of (ts_tokens s) x = Some p \<and> c = cred (ts_cells s ! p) \<and> u = tk_User (ts_cells s ! p)"
  then show "creds s u = Some c \<and> tk_Token c = x" using secret_iff [OF assms] by (auto simp: creds_at)
qed

subsection \<open>Dates\<close>

lemma day_pos: "0 < day"
  by (simp add: second_def)

lemma day_of_add: "day_of (t + d * day) = day_of t + d"
  using day_pos unfolding day_of_def by (simp add: second_def)

lemma parse_format_date:
  assumes "time_ok t"
  shows "parse_date (format_date t) = Some (day_of t * day)"
proof -
  obtain y m d where dd: "date_of_days (day_of t) = (y, m, d)" by (metis prod_cases3)
  note v = time_ok_date [OF assms dd]
  have "getdate (format_date t) = Some ((y, m, d), [])"
    using getdate_fmt [of y m d "[]"] v by (simp add: format_date_def dd)
  then show ?thesis using v by (simp add: parse_date_def valid_date_def instant_def)
qed

lemma format_date_nonempty [simp]: "format_date t \<noteq> []"
  by (simp add: format_date_def fmt_date_def split: prod.split)

lemma fresh_expiry:
  assumes "time_ok (now + d * day)"
  shows "IsExpiredAt (fresh_token u x now (Some d)) later \<longleftrightarrow> day_of now + d < day_of later"
  using day_pos by (simp add: IsExpiredAt_def expiryDate_def parse_format_date [OF assms] midnight_def day_of_add)

lemma fresh_forever: "\<not> IsExpiredAt (fresh_token u x now None) later"
  by (simp add: IsExpiredAt_def expiryDate_def)

text \<open>The longest span a 64-bit duration holds, in whole days.\<close>

definition max_span :: int where "max_span = 106751"

lemma span_days_fresh:
  assumes "time_ok t" "time_ok (t + d * day)" "\<bar>d\<bar> \<le> max_span"
  shows "span_days (fresh_token u x t (Some d)) = Some d"
proof -
  have n: "expiryDate t (Some d) \<noteq> []" by (simp add: expiryDate_def)
  have "time_Sub ((day_of t + d) * day) (day_of t * day) = d * day"
    using assms(3) by (simp add: time_Sub_def max_span_def second_def algebra_simps abs_le_iff)
  moreover have "(if 0 \<le> d * day then d * day div day else - ((- (d * day)) div day)) = d"
    by (simp add: second_def zero_le_mult_iff minus_mult_left del: mult_minus_left)
  ultimately show ?thesis using n
    by (simp add: span_days_def parse_format_date [OF assms(1)] expiryDate_def parse_format_date [OF assms(2)] day_of_add Let_def)
qed

subsection \<open>Rotating everybody\<close>

lemma Rotate_result:
  assumes l: "tokens_live s" and r: "RotateToken f rnd now u s = (Inr tok, s')"
  shows "tokens_live s' \<and> tk_User tok = u \<and> newTokenString rnd = Some (tk_Token tok) \<and> unused u (tk_Token tok) (creds s) \<and>
    (\<exists>c. creds s u = Some c \<and> tok = fresh_token u (tk_Token tok) now (span_days c)) \<and> creds s' = (creds s)(u \<mapsto> tok)"
proof -
  obtain p x where p: "map_of (ts_tokensByUser s) u = Some p" and x: "newTokenString rnd = Some x"
      and tok: "tok = fresh_token u x now (span_days (ts_cells s ! p))" and s': "s' = snd (RotateToken f rnd now u s)"
    using r by (auto simp: RotateToken_def Let_def split: option.splits sum.splits)
  obtain t where t: "ts_db s = Some t" "tokens_agree (creds s) t" using l by (auto simp: tokens_live_def)
  have P: "f = TxOk" "\<exists>t'. tokens_rotate tok t = Inr t'"
    using r p x tok tokens_persist_Inr_iff [OF t(1)] by (auto simp: RotateToken_def Let_def split: sum.splits)
  have "tab tr_user t u \<noteq> None" using agree_user [OF t(2)] creds_at [OF p] by simp
  then have "list_ex (\<lambda>r. tr_user r = u) t" by (simp add: list_ex_key)
  then have un: "unused u x (creds s)" using P(2) agree_unused [OF t(2), of u x] by (auto simp: tokens_rotate_def tok split: if_splits)
  have R: "t_refines TxOk (TRotate rnd now u) s s'" using RotateToken_refines [OF l, of f rnd now u] s' P(1) by simp
  then have "creds s' = (creds s)(u \<mapsto> tok)" by (simp add: t_refines_def creds_at [OF p] x un tok)
  with R un show ?thesis by (simp add: t_refines_def tok x creds_at [OF p])
qed

lemma Rotate_error:
  assumes "tokens_live s" "RotateToken f rnd now u s = (Inl e, s')"
  shows "s' = s"
  using assms by (auto simp: RotateToken_def Let_def split: option.splits sum.splits)

lemma rotate_loop_result:
  assumes "tokens_live s" "distinct us" "rotate_loop env i us s = (toks, e, s')"
  shows "tokens_live s' \<and> (\<exists>rest. us = map tk_User toks @ rest \<and> (e = None \<longleftrightarrow> rest = [])) \<and>
    (\<forall>tok \<in> set toks. creds s' (tk_User tok) = Some tok) \<and> (\<forall>u. u \<notin> tk_User ` set toks \<longrightarrow> creds s' u = creds s u)"
  using assms
proof (induction us arbitrary: s i toks)
  case (Cons u us)
  obtain f rnd now where env: "env i = (f, rnd, now)" by (metis prod_cases3)
  obtain r s1 where r: "RotateToken f rnd now u s = (r, s1)" by (cases "RotateToken f rnd now u s")
  show ?case
  proof (cases r)
    case (Inl er)
    with Cons.prems(3) env r Rotate_error [OF Cons.prems(1)] have "toks = []" "s' = s" "e = Some er" by auto
    with Cons.prems(1) show ?thesis by simp
  next
    case (Inr tok)
    obtain toks1 e1 s2 where L: "rotate_loop env (Suc i) us s1 = (toks1, e1, s2)" by (metis prod_cases3)
    with Cons.prems(3) env r Inr have eq: "toks = tok # toks1" "e = e1" "s' = s2" by auto
    note R = Rotate_result [OF Cons.prems(1) r [unfolded Inr]]
    have I: "tokens_live s' \<and> (\<exists>rest. us = map tk_User toks1 @ rest \<and> (e = None \<longleftrightarrow> rest = [])) \<and>
      (\<forall>tok \<in> set toks1. creds s' (tk_User tok) = Some tok) \<and> (\<forall>u. u \<notin> tk_User ` set toks1 \<longrightarrow> creds s' u = creds s1 u)"
      by (rule Cons.IH [OF _ _ L [folded eq(2,3)]]) (use R Cons.prems(2) in auto)
    then have "set (map tk_User toks1) \<subseteq> set us" by auto
    then have "u \<notin> tk_User ` set toks1" using Cons.prems(2) by auto
    with I R show ?thesis by (auto simp: eq(1))
  qed
qed auto

subsection \<open>A concrete registry\<close>

definition demo_registry :: token_store where
  "demo_registry = snd (AddToken TxOk demo_entropy 0 ''a@b.co'' (Some 30) (snd (tokens_LoadFromDB (Some []) tokens_NewStore)))"

definition demo_secret :: string where
  "demo_secret = ''evt_000102030405060708090a0b0c0d0e0f''"

lemma demo_newTokenString: "newTokenString demo_entropy = Some demo_secret"
  by code_simp

lemma demo_registry_live:
  "tokens_live demo_registry \<and> creds demo_registry = [''a@b.co'' \<mapsto> fresh_token ''a@b.co'' demo_secret 0 (Some 30)]"
proof -
  obtain r s0 where s0: "tokens_LoadFromDB (Some []) tokens_NewStore = (r, s0)" by (cases "tokens_LoadFromDB (Some []) tokens_NewStore")
  from tokens_load [OF _ _ s0] have l: "tokens_live s0" "creds s0 = Map.empty" by (auto simp: keyed_def)
  have "t_refines TxOk (TAdd demo_entropy 0 ''a@b.co'' (Some 30)) s0 demo_registry"
    using AddToken_refines [OF l(1)] by (simp add: demo_registry_def s0)
  then show ?thesis by (simp add: t_refines_def demo_newTokenString l(2) unused_def)
qed

lemma demo_registry_days: "time_ok 0" "time_ok (30 * day)" "day_of 0 = 0"
  by code_simp+

subsection \<open>Properties\<close>

text \<open>
  C36. Whatever faults strike its transactions, whenever the process restarts and whenever the
  writer of last-use stamps takes its turns, the registry shows the credentials that the contract
  gives for some of the requested operations, in their order; with a healthy database, for all.
\<close>

theorem tokens_refine_registry:
  assumes "tokens_live s"
  shows "(\<exists>ops. subseq ops (event_ops es) \<and> creds (tokens_run es s) = fold (\<lambda>fo. token_spec (snd fo)) ops (creds s)) \<and>
    (list_all (\<lambda>fo. fst fo = TxOk) (event_ops es) \<longrightarrow>
       creds (tokens_run es s) = fold (\<lambda>fo. token_spec (snd fo)) (event_ops es) (creds s))"
  using tokens.run_refines [OF assms] tokens.run_healthy [OF assms] by blast

theorem tokens_refine_registry_witness:
  "creds (tokens_run [Do (TxOk, TActivate 0 ''a@b.co''), Do (TxOk, TWriter True), Restart] demo_registry) =
     token_spec (TWriter True) (token_spec (TActivate 0 ''a@b.co'') (creds demo_registry))"
  using tokens_refine_registry [of demo_registry "[Do (TxOk, TActivate 0 ''a@b.co''), Do (TxOk, TWriter True), Restart]"] demo_registry_live
  by (simp del: token_spec.simps)

text \<open>
  Authentication decides by the credentials alone: a secret is accepted, for its one holder,
  exactly when a user holds it and it has not expired, it is unknown exactly when nobody holds it,
  and the decision neither reads nor writes the table.
\<close>

theorem validate_decides:
  assumes l: "tokens_live s"
  shows "(fst (Validate n1 n2 x s) = Inr u \<longleftrightarrow> (\<exists>c. creds s u = Some c \<and> tk_Token c = x \<and> \<not> IsExpiredAt c n1)) \<and>
    (fst (Validate n1 n2 x s) = Inl ErrTokenNotFound \<longleftrightarrow> (\<forall>u c. creds s u = Some c \<longrightarrow> tk_Token c \<noteq> x)) \<and>
    ts_db (snd (Validate n1 n2 x s)) = ts_db s \<and> creds (snd (Validate n1 n2 x s)) = creds s \<and>
    fst (Validate n1 n2 x (s\<lparr>ts_db := db\<rparr>)) = fst (Validate n1 n2 x s)"
proof -
  have "fst (Validate n1 n2 x s) = Inr u \<longleftrightarrow> (\<exists>p. map_of (ts_tokens s) x = Some p \<and> u = tk_User (ts_cells s ! p) \<and> \<not> IsExpiredAt (ts_cells s ! p) n1)"
    by (auto simp: Validate_result [OF l] split: option.split)
  also have "\<dots> \<longleftrightarrow> (\<exists>c. creds s u = Some c \<and> tk_Token c = x \<and> \<not> IsExpiredAt c n1)"
    using creds_secret [OF l, of u _ x] by (metis IsExpiredAt_cred)
  finally have 1: "fst (Validate n1 n2 x s) = Inr u \<longleftrightarrow> (\<exists>c. creds s u = Some c \<and> tk_Token c = x \<and> \<not> IsExpiredAt c n1)" .
  have 2: "fst (Validate n1 n2 x s) = Inl ErrTokenNotFound \<longleftrightarrow> (\<forall>u c. creds s u = Some c \<longrightarrow> tk_Token c \<noteq> x)"
    unfolding secret_none [OF l, symmetric] by (auto simp: Validate_result [OF l] split: option.split)
  have 3: "ts_db (snd (Validate n1 n2 x s)) = ts_db s" by (simp add: Validate_def Let_def split: option.split)
  have 4: "fst (Validate n1 n2 x (s\<lparr>ts_db := db\<rparr>)) = fst (Validate n1 n2 x s)" by (simp add: Validate_def Let_def split: option.split)
  from 1 2 3 4 Validate_keeps [OF l] show ?thesis by blast
qed

theorem validate_decides_witness:
  "fst (Validate 0 0 demo_secret demo_registry) = Inr ''a@b.co'' \<and> fst (Validate 0 0 ''evt_'' demo_registry) = Inl ErrTokenNotFound"
proof -
  have e: "\<not> IsExpiredAt (fresh_token ''a@b.co'' demo_secret 0 (Some 30)) 0"
    using fresh_expiry [of 0 30 "''a@b.co''" demo_secret 0] demo_registry_days by simp
  have l: "tokens_live demo_registry" "creds demo_registry = [''a@b.co'' \<mapsto> fresh_token ''a@b.co'' demo_secret 0 (Some 30)]"
    using demo_registry_live by simp_all
  show ?thesis
    using validate_decides [OF l(1), of 0 0 demo_secret "''a@b.co''"] validate_decides [OF l(1), of 0 0 "''evt_''"] e
    by (simp add: l(2) demo_secret_def)
qed

text \<open>
  C27. A secret that is revoked or rotated away is dead for good: after a \<open>RevokeToken\<close> or a
  \<open>RotateToken\<close> that succeeded, no later operation, late stamp, fault or restart lets the old
  secret authenticate again, unless the random source produces it once more.
\<close>

theorem dead_secret_stays_dead:
  assumes l: "tokens_live s" and c: "creds s u = Some c"
    and dead: "fst (RevokeToken f u s) = Inr True \<and> s' = snd (RevokeToken f u s) \<or>
      (\<exists>tok. RotateToken f rnd now u s = (Inr tok, s') \<and> tk_Token tok \<noteq> tk_Token c)"
    and fresh: "\<forall>fo \<in> set (event_ops es). mints (snd fo) \<noteq> Some (tk_Token c)"
  shows "fst (Validate n1 n2 (tk_Token c) (tokens_run es s')) = Inl ErrTokenNotFound"
proof -
  have others: "tk_Token c' \<noteq> tk_Token c" if "creds s u' = Some c'" "u' \<noteq> u" for u' c'
    using live_unique [OF l that(1) c] that(2) by blast
  have "tokens_live s' \<and> nobody_holds (tk_Token c) (creds s')"
    using dead
  proof
    assume r: "fst (RevokeToken f u s) = Inr True \<and> s' = snd (RevokeToken f u s)"
    obtain p where p: "map_of (ts_tokensByUser s) u = Some p" using c creds_none [of s u] by fastforce
    obtain t where t: "ts_db s = Some t" using l by (auto simp: tokens_live_def)
    have "f = TxOk" using r p tokens_persist_Inr_iff [OF t] by (auto simp: RevokeToken_def split: sum.splits)
    with RevokeToken_refines [OF l, of f u] r have "tokens_live s' \<and> creds s' = (creds s)(u := None)" by (simp add: t_refines_def)
    with others show ?thesis by auto
  next
    assume "\<exists>tok. RotateToken f rnd now u s = (Inr tok, s') \<and> tk_Token tok \<noteq> tk_Token c"
    with Rotate_result [OF l] others show ?thesis by (metis fun_upd_apply option.inject)
  qed
  then show ?thesis using run_nobody [OF _ _ fresh, of s'] Validate_unknown [OF tokens.run_inv] by blast
qed

theorem dead_secret_stays_dead_witness:
  "fst (Validate 0 0 demo_secret (tokens_run [Restart, Do (TxOk, TWriter True)] (snd (RevokeToken TxOk ''a@b.co'' demo_registry)))) =
     Inl ErrTokenNotFound"
proof -
  have l: "tokens_live demo_registry" "creds demo_registry ''a@b.co'' = Some (fresh_token ''a@b.co'' demo_secret 0 (Some 30))"
    using demo_registry_live by simp_all
  obtain p where p: "map_of (ts_tokensByUser demo_registry) ''a@b.co'' = Some p"
    using l(2) creds_none [of demo_registry "''a@b.co''"] by fastforce
  have "creds (snd (RevokeToken TxOk ''a@b.co'' demo_registry)) = (creds demo_registry)(''a@b.co'' := None)"
    using RevokeToken_refines [OF l(1), of TxOk "''a@b.co''"] by (simp add: t_refines_def)
  then have "fst (RevokeToken TxOk ''a@b.co'' demo_registry) = Inr True"
    using p l(2) by (auto simp: RevokeToken_def split: sum.splits dest: fun_cong [of _ _ "''a@b.co''"])
  from dead_secret_stays_dead [OF l, of TxOk _ demo_entropy 0 "[Restart, Do (TxOk, TWriter True)]" 0 0] this show ?thesis by simp
qed

text \<open>
  Expiry has day granularity and includes its last day: a token added with a lifetime of
  \<open>d\<close> days authenticates until the end of the day \<open>d\<close> days after the day of issue, in UTC, and is
  refused as expired from the next midnight on; a token added without a lifetime never expires.
\<close>

theorem token_expiry_by_day:
  assumes l: "tokens_live s" and ok: "fst (AddToken f rnd now u (Some d) s) = Inr tok" and s': "s' = snd (AddToken f rnd now u (Some d) s)"
    and t: "time_ok (now + d * day)"
  shows "(day_of later \<le> day_of now + d \<longrightarrow> fst (Validate later later2 (tk_Token tok) s') = Inr u) \<and>
    (day_of now + d < day_of later \<longrightarrow> fst (Validate later later2 (tk_Token tok) s') = Inl (ErrTokenExpired u)) \<and>
    (\<not> IsExpiredAt (tok\<lparr>tk_Expires := expiryDate now None\<rparr>) later)"
proof -
  obtain x where x: "newTokenString rnd = Some x" "tok = fresh_token u x now (Some d)" "creds s u = None"
    using ok creds_none [of s u] by (auto simp: AddToken_def Let_def split: if_splits option.splits sum.splits)
  obtain t where t': "ts_db s = Some t" "tokens_agree (creds s) t" using l by (auto simp: tokens_live_def)
  have R: "t_refines f (TAdd rnd now u (Some d)) s s'" using AddToken_refines [OF l] by (simp add: s')
  have p: "map_of (ts_tokensByUser s') u = Some (length (ts_cells s))" "ts_cells s' = ts_cells s @ [tok]"
    using ok x by (auto simp: s' AddToken_def Let_def update_conv' split: if_splits option.splits sum.splits)
  then have c: "creds s' u = Some tok" using x(2) by (simp add: creds_at)
  have l': "tokens_live s'" using R by (simp add: t_refines_def)
  have "map_of (ts_tokens s') (tk_Token tok) = Some (length (ts_cells s))"
    using secret_iff [OF l', of "tk_Token tok" "length (ts_cells s)"] p x(2) by simp
  then have V: "fst (Validate later later2 (tk_Token tok) s') = (if IsExpiredAt tok later then Inl (ErrTokenExpired u) else Inr u)"
    using p x(2) by (simp add: Validate_result [OF l'])
  have "\<not> IsExpiredAt (tok\<lparr>tk_Expires := expiryDate now None\<rparr>) later" by (simp add: IsExpiredAt_def expiryDate_def)
  with V fresh_expiry [OF t, of u x later] x(2) show ?thesis by auto
qed

theorem token_expiry_by_day_witness:
  "\<exists>s tok. fst (AddToken TxOk demo_entropy 0 ''a@b.co'' (Some 30) s) = Inr tok \<and>
     fst (Validate (30 * day) 0 (tk_Token tok) (snd (AddToken TxOk demo_entropy 0 ''a@b.co'' (Some 30) s))) = Inr ''a@b.co'' \<and>
     fst (Validate (31 * day) 0 (tk_Token tok) (snd (AddToken TxOk demo_entropy 0 ''a@b.co'' (Some 30) s))) = Inl (ErrTokenExpired ''a@b.co'')"
proof -
  obtain r s0 where s0: "tokens_LoadFromDB (Some []) tokens_NewStore = (r, s0)" by (cases "tokens_LoadFromDB (Some []) tokens_NewStore")
  from tokens_load [OF _ _ s0] have l: "tokens_live s0" "creds s0 = Map.empty" "ts_db s0 = Some []" by (auto simp: keyed_def)
  have "\<exists>tok. fst (AddToken TxOk demo_entropy 0 ''a@b.co'' (Some 30) s0) = Inr tok"
    using l creds_none [of s0 "''a@b.co''"] by (simp add: AddToken_def demo_newTokenString tokens_persist_def tokens_insert_def Let_def)
  then obtain tok where tok: "fst (AddToken TxOk demo_entropy 0 ''a@b.co'' (Some 30) s0) = Inr tok" by blast
  have t: "time_ok (0 + 30 * day)" using demo_registry_days by simp
  have d: "day_of (30 * day) = 30" "day_of (31 * day) = 31" by (simp_all add: day_of_def second_def)
  from token_expiry_by_day [OF l(1) tok refl t, of "30 * day" 0] token_expiry_by_day [OF l(1) tok refl t, of "31 * day" 0] tok
  show ?thesis unfolding d demo_registry_days(3) by force
qed

text \<open>
  Rotation keeps the lifetime and nothing else: a token with a lifetime of \<open>d\<close> days is replaced
  by one with a fresh secret that no other user holds, valid \<open>d\<close> days from the day of the rotation,
  neither used nor activated, as long as the span fits a 64-bit duration (some 292 years).
\<close>

theorem rotation_keeps_span:
  assumes l: "tokens_live s" and c: "creds s u = Some c" "tk_IssuedAt c = format_date t0" "tk_Expires c = format_date (t0 + d * day)"
    and t: "time_ok t0" "time_ok (t0 + d * day)" "\<bar>d\<bar> \<le> max_span"
    and r: "RotateToken f rnd now u s = (Inr tok, s')"
  shows "tok = fresh_token u (tk_Token tok) now (Some d) \<and> tk_Expires tok = format_date (now + d * day) \<and>
    tk_LastUsed tok = [] \<and> tk_ActivatedAt tok = [] \<and> creds s' = (creds s)(u \<mapsto> tok) \<and>
    (\<forall>u' c'. creds s u' = Some c' \<longrightarrow> u' \<noteq> u \<longrightarrow> tk_Token c' \<noteq> tk_Token tok)"
proof -
  have "span_days c = span_days (fresh_token u [] t0 (Some d))" using c by (simp add: span_days_def expiryDate_def)
  then have "span_days c = Some d" using span_days_fresh [OF t] by simp
  with Rotate_result [OF l r] c(1) have R: "tok = fresh_token u (tk_Token tok) now (Some d)" "creds s' = (creds s)(u \<mapsto> tok)"
      "unused u (tk_Token tok) (creds s)" by auto
  have "tk_Expires tok = format_date (now + d * day)" "tk_LastUsed tok = []" "tk_ActivatedAt tok = []"
    by (subst R(1), simp add: fresh_token_def expiryDate_def)+
  with R show ?thesis by (auto simp: unused_def)
qed

theorem rotation_keeps_span_witness:
  "\<exists>tok s'. RotateToken TxOk demo_entropy (7 * day) ''a@b.co'' demo_registry = (Inr tok, s') \<and> tk_Expires tok = format_date (7 * day + 30 * day)"
proof -
  have l: "tokens_live demo_registry" "creds demo_registry ''a@b.co'' = Some (fresh_token ''a@b.co'' demo_secret 0 (Some 30))"
    "creds demo_registry = [''a@b.co'' \<mapsto> fresh_token ''a@b.co'' demo_secret 0 (Some 30)]"
    using demo_registry_live by simp_all
  obtain p where p: "map_of (ts_tokensByUser demo_registry) ''a@b.co'' = Some p"
    using l(2) creds_none [of demo_registry "''a@b.co''"] by fastforce
  obtain t where t: "ts_db demo_registry = Some t" "tokens_agree (creds demo_registry) t" using l(1) by (auto simp: tokens_live_def)
  have k: "keyed tr_user t" using t(2) by (simp add: tokens_agree_def)
  have n: "tab tr_user t ''a@b.co'' \<noteq> None" using agree_user [OF t(2), of "''a@b.co''"] l(2) by simp
  have "unused ''a@b.co'' demo_secret (creds demo_registry)" by (simp add: l(3) unused_def)
  then have "\<exists>t'. tokens_rotate (fresh_token ''a@b.co'' demo_secret now sp) t = Inr t'" for now sp
    using agree_unused [OF t(2), of "''a@b.co''" demo_secret] count_key [OF k, of "''a@b.co''"] n
    by (auto simp: tokens_rotate_def expect_rows_def sql_update_def)
  then have "\<exists>tok s'. RotateToken TxOk demo_entropy (7 * day) ''a@b.co'' demo_registry = (Inr tok, s')"
    using p by (auto simp: RotateToken_def demo_newTokenString Let_def tokens_persist_def t(1) split: sum.splits)
      (metis sum.distinct(1))
  then obtain tok s' where r: "RotateToken TxOk demo_entropy (7 * day) ''a@b.co'' demo_registry = (Inr tok, s')" by blast
  have e: "tk_IssuedAt (fresh_token ''a@b.co'' demo_secret 0 (Some 30)) = format_date 0"
    "tk_Expires (fresh_token ''a@b.co'' demo_secret 0 (Some 30)) = format_date (0 + 30 * day)" by (simp_all add: expiryDate_def)
  have b: "time_ok (0 + 30 * day)" "\<bar>30 :: int\<bar> \<le> max_span" using demo_registry_days by (simp_all add: max_span_def)
  from rotation_keeps_span [OF l(1,2) e demo_registry_days(1) b r] r show ?thesis by blast
qed

text \<open>
  The telemetry of last use stays in its place. In any history the queue of the writer holds
  at most 256 stamps; an accepted request within ten seconds of the last stamp changes nothing at
  all; and a turn of the writer changes nothing but the last-use column, in the row of the very
  secret that was stamped, so that a stamp that comes after a rotation or a revocation is lost.
\<close>

theorem last_use_stays_in_its_place:
  assumes l: "tokens_live s"
  shows "(\<exists>q. ts_queue (tokens_run es s) = Some q \<and> length q \<le> 256) \<and>
    (\<forall>p prev. map_of (ts_tokens s) x = Some p \<longrightarrow> parse_rfc3339 (tk_LastUsed (ts_cells s ! p)) = Some prev \<longrightarrow>
       n2 < prev + 10 * second \<longrightarrow> snd (Validate n1 n2 x s) = s) \<and>
    (\<forall>ev rest t. ts_queue s = Some (ev # rest) \<longrightarrow> ts_db s = Some t \<longrightarrow>
       (\<exists>t'. ts_db (lastUsedWriter_turn ok s) = Some t' \<and>
          (t' = t \<or> t' = map (\<lambda>r. if tr_user r = lu_user ev \<and> tr_token r = lu_token ev then r\<lparr>tr_last_used := Some (lu_stamp ev)\<rparr> else r) t)) \<and>
       ts_cells (lastUsedWriter_turn ok s) = ts_cells s \<and> ts_queue (lastUsedWriter_turn ok s) = Some rest)"
proof (intro conjI allI impI)
  show "\<exists>q. ts_queue (tokens_run es s) = Some q \<and> length q \<le> 256"
    using tokens.run_inv [OF l, of es] by (auto simp: tokens_live_def lastUsedQueueDepth_def)
next
  fix p prev
  assume p: "map_of (ts_tokens s) x = Some p" and prev: "parse_rfc3339 (tk_LastUsed (ts_cells s ! p)) = Some prev" and n: "n2 < prev + 10 * second"
  have "tk_LastUsed (ts_cells s ! p) \<noteq> []" using prev by (auto simp: parse_rfc3339_def getdate_def)
  moreover have "time_Sub n2 prev < lastUsedThrottle" using n by (simp add: time_Sub_def lastUsedThrottle_def second_def)
  ultimately have "stampLastUsedLocked n2 (ts_cells s ! p) = None" using prev by (simp add: stampLastUsedLocked_def)
  then show "snd (Validate n1 n2 x s) = s" by (simp add: Validate_def p Let_def)
next
  fix ev rest t
  assume q: "ts_queue s = Some (ev # rest)" and t: "ts_db s = Some t"
  then show "\<exists>t'. ts_db (lastUsedWriter_turn ok s) = Some t' \<and>
      (t' = t \<or> t' = map (\<lambda>r. if tr_user r = lu_user ev \<and> tr_token r = lu_token ev then r\<lparr>tr_last_used := Some (lu_stamp ev)\<rparr> else r) t)"
    by (simp add: lastUsedWriter_turn_def Let_def tokens_touch_def sql_update_def)
  from q show "ts_cells (lastUsedWriter_turn ok s) = ts_cells s" "ts_queue (lastUsedWriter_turn ok s) = Some rest"
    by (simp_all add: lastUsedWriter_turn_def Let_def)
qed

theorem last_use_stays_in_its_place_witness:
  "\<exists>q. ts_queue (tokens_run [Do (TxOk, TValidate 0 0 demo_secret), Do (TxOk, TWriter True), Restart] demo_registry) = Some q \<and> length q \<le> 256"
  using last_use_stays_in_its_place [of demo_registry "[Do (TxOk, TValidate 0 0 demo_secret), Do (TxOk, TWriter True), Restart]"] demo_registry_live
  by blast

text \<open>
  Rotating all tokens goes through the users in order, gives each of the first ones a fresh
  credential and stops at the first failure: the tokens it returns are exactly the credentials of
  those users afterwards, the others keep theirs, and without a failure everybody is rotated.
\<close>

theorem rotate_all_reports:
  assumes l: "tokens_live s" and r: "RotateAllTokens env s = (toks, e, s')"
  shows "(\<exists>rest. sort (map fst (ts_tokensByUser s)) = map tk_User toks @ rest \<and> (e = None \<longleftrightarrow> rest = [])) \<and>
    (\<forall>tok \<in> set toks. creds s' (tk_User tok) = Some tok) \<and> (\<forall>u. u \<notin> tk_User ` set toks \<longrightarrow> creds s' u = creds s u) \<and>
    (e = None \<longrightarrow> tk_User ` set toks = dom (creds s)) \<and> tokens_live s'"
proof -
  have d: "distinct (map fst (ts_tokensByUser s))" using live_dual [OF l] by (simp add: dual_wf_def)
  have L: "tokens_live s' \<and> (\<exists>rest. sort (map fst (ts_tokensByUser s)) = map tk_User toks @ rest \<and> (e = None \<longleftrightarrow> rest = [])) \<and>
    (\<forall>tok \<in> set toks. creds s' (tk_User tok) = Some tok) \<and> (\<forall>u. u \<notin> tk_User ` set toks \<longrightarrow> creds s' u = creds s u)"
    by (rule rotate_loop_result [OF l, where env = env and i = 0]) (use d r in \<open>simp_all add: RotateAllTokens_def\<close>)
  moreover have "tk_User ` set toks = dom (creds s)" if "e = None"
  proof -
    from L that have "sort (map fst (ts_tokensByUser s)) = map tk_User toks" by auto
    from arg_cong [OF this, of set] have "tk_User ` set toks = fst ` set (ts_tokensByUser s)" by simp
    also have "\<dots> = dom (creds s)" using creds_none [of s] by (auto simp: dom_def map_of_eq_None_iff)
    finally show ?thesis .
  qed
  ultimately show ?thesis by blast
qed

theorem rotate_all_reports_witness:
  "\<exists>toks e s'. RotateAllTokens (\<lambda>i. (TxBeginErr, demo_entropy, 0)) demo_registry = (toks, e, s') \<and> tokens_live s'"
proof -
  obtain toks e s' where r: "RotateAllTokens (\<lambda>i. (TxBeginErr, demo_entropy, 0)) demo_registry = (toks, e, s')" by (metis prod_cases3)
  from rotate_all_reports [OF _ r] demo_registry_live r show ?thesis by blast
qed

end
