(* ===== verification/Base64.thy ===== *)
theory Base64
  imports Go_Text
begin

text \<open>
  Bytes of strings and base64 (\<open>encoding/base64\<close>) over an alphabet, with or without padding: the
  standard encoding of sealed metadata and the raw URL encoding of registration strings. A locale
  names what the round trip needs of an alphabet; both alphabets of the code provide it.
\<close>

subsection \<open>Bytes of a string\<close>

definition bytes_of :: "string \<Rightarrow> byte list" where
  "bytes_of s = map (\<lambda>c. of_nat (of_char c)) s"

definition string_of :: "byte list \<Rightarrow> string" where
  "string_of bs = map (\<lambda>b. char_of (unat b)) bs"

lemma char_byte [simp]: "char_of (unat (of_nat (of_char c) :: byte)) = c"
proof -
  have "(of_char c :: nat) < 256" by simp
  then show ?thesis by (simp add: unat_of_nat take_bit_nat_def)
qed

lemma string_of_bytes_of [simp]: "string_of (bytes_of s) = s"
  by (simp add: string_of_def bytes_of_def comp_def)

subsection \<open>Encoding\<close>

definition b64_std :: string where
  "b64_std = ''ABCDEFGHIJKLMNOPQRSTUVWXYZabcdefghijklmnopqrstuvwxyz0123456789+/''"

definition b64_url :: string where
  "b64_url = ''ABCDEFGHIJKLMNOPQRSTUVWXYZabcdefghijklmnopqrstuvwxyz0123456789-_''"

definition b64_char :: "string \<Rightarrow> nat \<Rightarrow> char" where
  "b64_char al n = al ! (n mod 64)"

definition b64_val :: "string \<Rightarrow> char \<Rightarrow> nat option" where
  "b64_val al c = map_of (zip al [0..<64]) c"

definition pad :: char where "pad = CHR 0x3D"

fun b64_encode_nat :: "string \<Rightarrow> bool \<Rightarrow> nat list \<Rightarrow> string" where
  "b64_encode_nat al padded (a # b # c # r) =
     [b64_char al (a div 4), b64_char al (a mod 4 * 16 + b div 16), b64_char al (b mod 16 * 4 + c div 64), b64_char al (c mod 64)]
       @ b64_encode_nat al padded r"
| "b64_encode_nat al padded [a, b] =
     [b64_char al (a div 4), b64_char al (a mod 4 * 16 + b div 16), b64_char al (b mod 16 * 4)] @ (if padded then [pad] else [])"
| "b64_encode_nat al padded [a] = [b64_char al (a div 4), b64_char al (a mod 4 * 16)] @ (if padded then [pad, pad] else [])"
| "b64_encode_nat al padded [] = []"

definition b64_encode :: "string \<Rightarrow> bool \<Rightarrow> byte list \<Rightarrow> string" where
  "b64_encode al padded bs = b64_encode_nat al padded (map unat bs)"

text \<open>
  \<open>DecodeString\<close>: line breaks are skipped, then groups of four characters; padding closes the
  last group and nothing may follow it, or without padding the last group is short. Bits of an
  unfinished byte are dropped.
\<close>

fun b64_groups :: "string \<Rightarrow> bool \<Rightarrow> string \<Rightarrow> nat list option" where
  "b64_groups al padded [] = Some []"
| "b64_groups al padded (w # x # y # z # r) =
     (case (b64_val al w, b64_val al x) of
        (Some p, Some q) \<Rightarrow>
          (if padded \<and> y = pad then (if z = pad \<and> r = [] then Some [p * 4 + q div 16] else None)
           else case b64_val al y of
             None \<Rightarrow> None
           | Some u \<Rightarrow>
               if padded \<and> z = pad then (if r = [] then Some [p * 4 + q div 16, q mod 16 * 16 + u div 4] else None)
               else case b64_val al z of
                 None \<Rightarrow> None
               | Some v \<Rightarrow> map_option (\<lambda>t. (p * 4 + q div 16) # (q mod 16 * 16 + u div 4) # (u mod 4 * 64 + v) # t) (b64_groups al padded r))
      | _ \<Rightarrow> None)"
| "b64_groups al padded [w, x, y] =
     (if padded then None
      else case (b64_val al w, b64_val al x, b64_val al y) of
        (Some p, Some q, Some u) \<Rightarrow> Some [p * 4 + q div 16, q mod 16 * 16 + u div 4]
      | _ \<Rightarrow> None)"
| "b64_groups al padded [w, x] =
     (if padded then None
      else case (b64_val al w, b64_val al x) of (Some p, Some q) \<Rightarrow> Some [p * 4 + q div 16] | _ \<Rightarrow> None)"
| "b64_groups al padded [w] = None"

definition b64_decode :: "string \<Rightarrow> bool \<Rightarrow> string \<Rightarrow> byte list option" where
  "b64_decode al padded s = map_option (map of_nat) (b64_groups al padded (filter (\<lambda>c. c \<noteq> CHR 0x0A \<and> c \<noteq> CHR 0x0D) s))"

subsection \<open>Round trip\<close>

lemma b64_bits:
  assumes "a < 256" "b < 256" "c < (256 :: nat)"
  shows "a div 4 < 64" "a mod 4 * 16 + b div 16 < 64" "b mod 16 * 4 + c div 64 < 64" "c mod 64 < 64" "b mod 16 * 4 < 64" "a mod 4 * 16 < 64"
    and "(a mod 4 * 16 + b div 16) div 16 = a mod 4" "(a mod 4 * 16 + b div 16) mod 16 = b div 16"
    and "(b mod 16 * 4 + c div 64) div 4 = b mod 16" "(b mod 16 * 4 + c div 64) mod 4 = c div 64" "b div 16 mod 16 = b div 16"
proof -
  have "b div 16 < 16" "c div 64 < 4" using assms by (simp_all add: div_less_iff_less_mult)
  then show "(a mod 4 * 16 + b div 16) div 16 = a mod 4" "(a mod 4 * 16 + b div 16) mod 16 = b div 16"
    "(b mod 16 * 4 + c div 64) div 4 = b mod 16" "(b mod 16 * 4 + c div 64) mod 4 = c div 64" "b div 16 mod 16 = b div 16" by simp_all
  have "a mod 4 < 4" "b mod 16 < 16" by simp_all
  then show "a div 4 < 64" "a mod 4 * 16 + b div 16 < 64" "b mod 16 * 4 + c div 64 < 64" "c mod 64 < 64" "b mod 16 * 4 < 64" "a mod 4 * 16 < 64"
    using assms \<open>b div 16 < 16\<close> \<open>c div 64 < 4\<close> by linarith+
qed

lemma triple_induct [case_names Nil One Two Three]:
  assumes "P []" "\<And>a. P [a]" "\<And>a b. P [a, b]" "\<And>a b c r. P r \<Longrightarrow> P (a # b # c # r)"
  shows "P xs"
  using assms by induction_schema (pat_completeness, lexicographic_order)

locale base64_alphabet =
  fixes al :: string
  assumes char_val: "n < 64 \<Longrightarrow> b64_val al (b64_char al n) = Some n"
    and char_plain: "n < 64 \<Longrightarrow> b64_char al n \<noteq> pad \<and> b64_char al n \<noteq> CHR 0x0A \<and> b64_char al n \<noteq> CHR 0x0D \<and> (of_char (b64_char al n) :: nat) < 128"
begin

lemma char_any: "b64_char al n \<noteq> pad" "b64_char al n \<noteq> CHR 0x0A" "b64_char al n \<noteq> CHR 0x0D" "(of_char (b64_char al n) :: nat) < 128"
  using char_plain [of "n mod 64"] by (simp_all add: b64_char_def)

lemma groups_encode: "\<forall>x \<in> set xs. x < 256 \<Longrightarrow> b64_groups al padded (b64_encode_nat al padded xs) = Some xs"
proof (induction xs rule: triple_induct)
  case (One a)
  then show ?case using b64_bits [of a 0 0] by (simp add: char_val char_any)
next
  case (Two a b)
  then show ?case using b64_bits [of a b 0] by (simp add: char_val char_any)
next
  case (Three a b c r)
  then show ?case using b64_bits [of a b c] by (simp add: char_val char_any)
qed simp

lemma encode_chars: "ch \<in> set (b64_encode_nat al padded xs) \<Longrightarrow> (\<exists>n. ch = b64_char al n) \<or> padded \<and> ch = pad"
  by (induction xs rule: triple_induct) (auto split: if_splits)

lemma encode_no_break: "ch \<in> set (b64_encode al padded bs) \<Longrightarrow> ch \<noteq> CHR 0x0A \<and> ch \<noteq> CHR 0x0D \<and> (of_char ch :: nat) < 128"
  using encode_chars [of ch padded "map unat bs"] char_any by (auto simp: b64_encode_def pad_def)

lemma decode_encode: "b64_decode al padded (b64_encode al padded bs) = Some bs"
proof -
  have r: "\<forall>x \<in> set (map unat bs). x < 256" using unsigned_less [where 'b = 8 and 'a = nat] by auto
  have "filter (\<lambda>c. c \<noteq> CHR 0x0A \<and> c \<noteq> CHR 0x0D) (b64_encode al padded bs) = b64_encode al padded bs"
    unfolding filter_id_conv using encode_no_break by blast
  then show ?thesis by (simp add: b64_decode_def b64_encode_def groups_encode [OF r] comp_def)
qed

end

lemma b64_encode_empty: "b64_encode_nat al padded xs = [] \<longleftrightarrow> xs = []"
  by (induction xs rule: triple_induct) simp_all

lemma b64_encode_nonempty: "bs \<noteq> [] \<Longrightarrow> b64_encode al padded bs \<noteq> []"
  by (simp add: b64_encode_def b64_encode_empty)

lemma b64_std_table: "list_all (\<lambda>n. b64_val b64_std (b64_char b64_std n) = Some n \<and> b64_char b64_std n \<noteq> pad \<and>
    b64_char b64_std n \<noteq> CHR 0x0A \<and> b64_char b64_std n \<noteq> CHR 0x0D \<and> (of_char (b64_char b64_std n) :: nat) < 128) [0..<64]"
  by code_simp

lemma b64_url_table: "list_all (\<lambda>n. b64_val b64_url (b64_char b64_url n) = Some n \<and> b64_char b64_url n \<noteq> pad \<and>
    b64_char b64_url n \<noteq> CHR 0x0A \<and> b64_char b64_url n \<noteq> CHR 0x0D \<and> (of_char (b64_char b64_url n) :: nat) < 128) [0..<64]"
  by code_simp

interpretation b64std: base64_alphabet b64_std
  by unfold_locales (use b64_std_table in \<open>simp_all add: list_all_iff\<close>)

interpretation b64url: base64_alphabet b64_url
  by unfold_locales (use b64_url_table in \<open>simp_all add: list_all_iff\<close>)

end
