(* ===== verification/Metadata.thy ===== *)
theory Metadata
  imports Base64
begin

unbundle bit_operations_syntax

text \<open>
  Sealing of record metadata (\<open>internal/crypto/metadata.go\<close>): counter mode and the key and
  identifier derivations. The block cipher, the hash and the key derivation function are
  arguments: nothing here depends on what they compute.
\<close>

type_synonym block_cipher = "byte list \<Rightarrow> byte list \<Rightarrow> byte list"
type_synonym hash = "byte list \<Rightarrow> byte list"
type_synonym kdf = "byte list \<Rightarrow> byte list \<Rightarrow> nat \<Rightarrow> byte list option"

definition dekLen :: nat where "dekLen = 32"
definition ivLen :: nat where "ivLen = 16"

datatype crypto_error = ErrInvalidKey | ErrInvalidCiphertext | ErrCryptoRand | ErrBase64 | ErrNoTeamSecret | ErrHkdf

subsection \<open>Counter mode\<close>

text \<open>The counter block is incremented as one big-endian number, with wrap-around.\<close>

fun incr_le :: "byte list \<Rightarrow> byte list" where
  "incr_le [] = []"
| "incr_le (b # bs) = (if b + 1 = 0 then 0 # incr_le bs else (b + 1) # bs)"

definition incr_counter :: "byte list \<Rightarrow> byte list" where
  "incr_counter ctr = rev (incr_le (rev ctr))"

fun keystream :: "block_cipher \<Rightarrow> byte list \<Rightarrow> byte list \<Rightarrow> nat \<Rightarrow> byte list" where
  "keystream aes key ctr 0 = []"
| "keystream aes key ctr (Suc n) = aes key ctr @ keystream aes key (incr_counter ctr) n"

text \<open>\<open>XORKeyStream\<close>: enough blocks for the source, cut to its length.\<close>

definition XORKeyStream :: "block_cipher \<Rightarrow> byte list \<Rightarrow> byte list \<Rightarrow> byte list \<Rightarrow> byte list" where
  "XORKeyStream aes key iv src = map2 (XOR) src (keystream aes key iv (length src div 16 + 1))"

definition EncryptMetadata :: "block_cipher \<Rightarrow> entropy \<Rightarrow> byte list \<Rightarrow> byte list \<Rightarrow> crypto_error + string" where
  "EncryptMetadata aes rnd plaintext key =
     (if length key \<noteq> dekLen then Inl ErrInvalidKey
      else case rand_read ivLen rnd of
        None \<Rightarrow> Inl ErrCryptoRand
      | Some iv \<Rightarrow> Inr (b64_encode b64_std True (iv @ XORKeyStream aes key iv plaintext)))"

definition DecryptMetadata :: "block_cipher \<Rightarrow> string \<Rightarrow> byte list \<Rightarrow> crypto_error + byte list" where
  "DecryptMetadata aes ctB64 key =
     (if length key \<noteq> dekLen then Inl ErrInvalidKey
      else case b64_decode b64_std True ctB64 of
        None \<Rightarrow> Inl ErrBase64
      | Some raw \<Rightarrow>
          if length raw < ivLen then Inl ErrInvalidCiphertext
          else Inr (XORKeyStream aes key (take ivLen raw) (drop ivLen raw)))"

definition DeriveAgentKey :: "kdf \<Rightarrow> string \<Rightarrow> string \<Rightarrow> crypto_error + byte list" where
  "DeriveAgentKey hkdf teamSecret agentID =
     (if teamSecret = [] then Inl ErrNoTeamSecret
      else case hkdf (bytes_of teamSecret) (bytes_of agentID) dekLen of
        None \<Rightarrow> Inl ErrHkdf | Some dek \<Rightarrow> Inr dek)"

definition AgentIDFromToken :: "hash \<Rightarrow> string \<Rightarrow> string" where
  "AgentIDFromToken sha256 token = take 32 (hex_bytes (sha256 (bytes_of token)))"

definition TeamHash :: "hash \<Rightarrow> string \<Rightarrow> string" where
  "TeamHash sha256 teamSecret = (if teamSecret = [] then [] else hex_bytes (sha256 (bytes_of teamSecret)))"

lemma length_keystream: "\<forall>b. length (aes key b) = 16 \<Longrightarrow> length (keystream aes key ctr n) = 16 * n"
  by (induction n arbitrary: ctr) simp_all

lemma map2_xor_twice: "length xs \<le> length ks \<Longrightarrow> map2 (XOR) (map2 (XOR) xs ks) ks = (xs :: byte list)"
proof (induction xs arbitrary: ks)
  case (Cons x xs)
  then show ?case by (cases ks) (simp_all add: xor.assoc)
qed simp

lemma length_XORKeyStream:
  assumes "\<forall>b. length (aes key b) = 16"
  shows "length (XORKeyStream aes key iv src) = length src"
  using length_keystream [of aes key iv "length src div 16 + 1"] assms div_mult_mod_eq [of "length src" 16] mod_less_divisor [of 16 "length src"]
  by (simp add: XORKeyStream_def min_def)

lemma XORKeyStream_twice:
  assumes "\<forall>b. length (aes key b) = 16"
  shows "XORKeyStream aes key iv (XORKeyStream aes key iv src) = src"
proof -
  have "length src \<le> length (keystream aes key iv (length src div 16 + 1))"
    using length_keystream [of aes key iv "length src div 16 + 1"] assms div_mult_mod_eq [of "length src" 16] mod_less_divisor [of 16 "length src"]
    by simp
  then show ?thesis unfolding XORKeyStream_def using length_XORKeyStream [of aes key iv src] assms
    by (simp add: XORKeyStream_def map2_xor_twice)
qed

lemma length_rand_read: "rand_read n rnd = Some bs \<Longrightarrow> length bs = n"
  by (auto simp: rand_read_def)

text \<open>A sealed text is base64 of the vector and the stream, and opens under the key that sealed it.\<close>

lemma EncryptMetadata_Inr:
  assumes "\<forall>b. length (aes key b) = 16" "rnd \<noteq> None" "length key = dekLen"
  shows "\<exists>raw. raw \<noteq> [] \<and> EncryptMetadata aes rnd plaintext key = Inr (b64_encode b64_std True raw) \<and>
    DecryptMetadata aes (b64_encode b64_std True raw) key = Inr plaintext"
proof -
  obtain iv where iv: "rand_read ivLen rnd = Some iv" using assms(2) by (auto simp: rand_read_def)
  let ?raw = "iv @ XORKeyStream aes key iv plaintext"
  have "DecryptMetadata aes (b64_encode b64_std True ?raw) key = Inr (XORKeyStream aes key iv (XORKeyStream aes key iv plaintext))"
    using assms(3) length_rand_read [OF iv] by (simp add: DecryptMetadata_def b64std.decode_encode)
  then have "DecryptMetadata aes (b64_encode b64_std True ?raw) key = Inr plaintext" using XORKeyStream_twice [of aes key iv plaintext] assms(1) by simp
  moreover have "?raw \<noteq> []" using length_rand_read [OF iv] by (auto simp: ivLen_def)
  moreover have "EncryptMetadata aes rnd plaintext key = Inr (b64_encode b64_std True ?raw)" using assms(3) iv by (simp add: EncryptMetadata_def)
  ultimately show ?thesis by blast
qed

end
