(* ===== verification/Console_State.thy ===== *)
theory Console_State
  imports Group_Console Invite_Store Token_Store Metadata
begin

text \<open>
  The runtime container of the daemon (\<open>internal/server/grpc.go\<close>, type \<open>Console\<close>): the stores, the
  runespace engine, the audit log, and the operations the handlers share. The runespace client
  library is an argument: a record of functions from the history of calls to answers. What the
  console itself decides is written out.
\<close>

subsection \<open>The engine\<close>

text \<open>Vectors and scores are floating-point values the console only forwards: bit patterns.\<close>

type_synonym vec = "32 word list"

record pre_encrypted_item =
  pi_ID :: string
  pi_RMPBlob :: "byte list"
  pi_MMBlob :: "byte list"
  pi_ClusterID :: "32 word"
  pi_CentroidSetVersion :: string
  pi_SealedMetadata :: string

record centroid_set =
  cs_Version :: string
  cs_Dim :: int
  cs_Preset :: string
  cs_Vectors :: "vec list"

record search_hit =
  sh_ID :: string
  sh_Score :: "64 word"
  sh_Metadata :: string

record purge_result =
  pr_Purged :: int
  pr_SkippedSole :: int

datatype engine_error = SdkError string | ErrEmptyScope | ErrTagStatsUnsupported | ErrPurgeTagUnsupported

datatype engine_call = CallInsert pre_encrypted_item "string list" | CallCentroids | CallSearch vec int "string list"
  | CallTagStats "string list" | CallPurgeTag string | CallRemoveTag string | CallRetagAll string string | CallClose nat

record engine =
  eng_id :: nat
  eng_InsertPreEncrypted :: "engine_call list \<Rightarrow> pre_encrypted_item \<Rightarrow> string list \<Rightarrow> engine_error option"
  eng_Centroids :: "engine_call list \<Rightarrow> engine_error + centroid_set"
  eng_Search :: "engine_call list \<Rightarrow> vec \<Rightarrow> int \<Rightarrow> string list \<Rightarrow> engine_error + search_hit list"
  eng_GetTagStats :: "engine_call list \<Rightarrow> string list \<Rightarrow> engine_error + (string \<times> tag_stat) list"
  eng_PurgeTag :: "engine_call list \<Rightarrow> string \<Rightarrow> engine_error + purge_result"
  eng_RemoveTag :: "engine_call list \<Rightarrow> string \<Rightarrow> engine_error + 64 word"
  eng_RetagAll :: "engine_call list \<Rightarrow> string \<Rightarrow> string \<Rightarrow> engine_error + 64 word"

text \<open>
  The runespace client as the engine of the console uses it, and that engine
  (\<open>internal/crypto/keys.go\<close>). \<open>WithFilterTags\<close> and \<open>WithScope\<close> are optional arguments. Statistics
  and purging are not wired to the client, and a search without a scope is refused.
\<close>

record sdk_client =
  sdk_InsertPreEncrypted :: "engine_call list \<Rightarrow> pre_encrypted_item \<Rightarrow> string list option \<Rightarrow> string option"
  sdk_Centroids :: "engine_call list \<Rightarrow> string + centroid_set"
  sdk_Search :: "engine_call list \<Rightarrow> vec \<Rightarrow> int \<Rightarrow> string list option \<Rightarrow> string + search_hit list"
  sdk_RemoveTag :: "engine_call list \<Rightarrow> string \<Rightarrow> string + 64 word"
  sdk_RetagAll :: "engine_call list \<Rightarrow> string \<Rightarrow> string \<Rightarrow> string + 64 word"

definition sdk_err :: "string + 'a \<Rightarrow> engine_error + 'a" where
  "sdk_err r = (case r of Inl e \<Rightarrow> Inl (SdkError e) | Inr x \<Rightarrow> Inr x)"

definition Engine_InsertPreEncrypted :: "sdk_client \<Rightarrow> engine_call list \<Rightarrow> pre_encrypted_item \<Rightarrow> string list \<Rightarrow> engine_error option" where
  "Engine_InsertPreEncrypted cl log it filterTags =
     map_option SdkError (sdk_InsertPreEncrypted cl log it (if filterTags = [] then None else Some filterTags))"

definition Engine_Centroids :: "sdk_client \<Rightarrow> engine_call list \<Rightarrow> engine_error + centroid_set" where
  "Engine_Centroids cl log = sdk_err (sdk_Centroids cl log)"

definition Engine_Search :: "sdk_client \<Rightarrow> engine_call list \<Rightarrow> vec \<Rightarrow> int \<Rightarrow> string list \<Rightarrow> engine_error + search_hit list" where
  "Engine_Search cl log v topK filterScope =
     (if filterScope = [] then Inl ErrEmptyScope else sdk_err (sdk_Search cl log v topK (Some filterScope)))"

definition Engine_GetTagStats :: "engine_call list \<Rightarrow> string list \<Rightarrow> engine_error + (string \<times> tag_stat) list" where
  "Engine_GetTagStats log tags = Inl ErrTagStatsUnsupported"

definition Engine_PurgeTag :: "engine_call list \<Rightarrow> string \<Rightarrow> engine_error + purge_result" where
  "Engine_PurgeTag log tag = Inl ErrPurgeTagUnsupported"

definition Engine_RemoveTag :: "sdk_client \<Rightarrow> engine_call list \<Rightarrow> string \<Rightarrow> engine_error + 64 word" where
  "Engine_RemoveTag cl log tag = sdk_err (sdk_RemoveTag cl log tag)"

definition Engine_RetagAll :: "sdk_client \<Rightarrow> engine_call list \<Rightarrow> string \<Rightarrow> string \<Rightarrow> engine_error + 64 word" where
  "Engine_RetagAll cl log a b = sdk_err (sdk_RetagAll cl log a b)"

definition crypto_engine :: "nat \<Rightarrow> sdk_client \<Rightarrow> engine" where
  "crypto_engine i cl = \<lparr>eng_id = i, eng_InsertPreEncrypted = Engine_InsertPreEncrypted cl, eng_Centroids = Engine_Centroids cl,
     eng_Search = Engine_Search cl, eng_GetTagStats = Engine_GetTagStats, eng_PurgeTag = Engine_PurgeTag,
     eng_RemoveTag = Engine_RemoveTag cl, eng_RetagAll = Engine_RetagAll cl\<rparr>"

subsection \<open>Replies and audit entries\<close>

datatype grpc_code = InvalidArgument | NotFound | PermissionDenied | FailedPrecondition | Unimplemented
  | Internal | Unavailable | Unauthenticated

text \<open>The text of a reply or of an audit entry: the error it prints, or the literal.\<close>

datatype detail = TokenErr token_error | GroupErr group_error | InviteErr invite_error | EngineErr engine_error
  | CryptoErr crypto_error | ActivateErr member_error | FileErr string
  | PurgeCounts int int | RecordCount "64 word" | Text string

record audit_entry =
  ae_Timestamp :: time
  ae_UserID :: string
  ae_Method :: string
  ae_TopK :: "32 word option"
  ae_ResultCount :: nat
  ae_Status :: string
  ae_SourceIP :: string
  ae_Latency :: int
  ae_Error :: "detail option"
  ae_Target :: string

text \<open>
  The delete guard's statistics: none, those of an attached engine, or injected ones. The latency
  of an entry is kept as the duration; its rounding to milliseconds is a float.
\<close>

datatype tag_stats = NoTagStats | EngineTagStats engine | InjectedTagStats tag_stats_provider

record config =
  cfg_TeamSecret :: string
  cfg_EmbeddingDim :: int
  cfg_TLS_CA :: string
  cfg_TLS_Cert :: string

record console =
  c_cfg :: config
  c_tokens :: token_store
  c_groups :: group_store
  c_members :: members_store
  c_invites :: invite_store
  c_memberDir :: bool
  c_inviteRedeem :: bool
  c_memberAct :: bool
  c_engine :: "engine option"
  c_tagStats :: tag_stats
  c_audit :: "audit_entry list option"
  c_calls :: "engine_call list"

text \<open>
  The surroundings of one request: the readings of the clock, the faults of its transactions, the
  entropy, the peer, and the files the handler reads.
\<close>

record env =
  en_clock :: "nat \<Rightarrow> time"
  en_fault :: "nat \<Rightarrow> tx_fault"
  en_rand :: "nat \<Rightarrow> entropy"
  en_peer :: string
  en_file :: "string \<Rightarrow> string + byte list"

subsection \<open>Audit\<close>

definition Audit_Log :: "audit_entry \<Rightarrow> console \<Rightarrow> console" where
  "Audit_Log e c = (case c_audit c of None \<Rightarrow> c | Some es \<Rightarrow> c\<lparr>c_audit := Some (es @ [e])\<rparr>)"

definition emit :: "env \<Rightarrow> string \<Rightarrow> string \<Rightarrow> 32 word option \<Rightarrow> nat \<Rightarrow> string \<Rightarrow> detail option \<Rightarrow> console \<Rightarrow> console" where
  "emit en method user topK resultCount st err c =
     Audit_Log \<lparr>ae_Timestamp = en_clock en 9, ae_UserID = user, ae_Method = method, ae_TopK = topK,
       ae_ResultCount = resultCount, ae_Status = st, ae_SourceIP = en_peer en,
       ae_Latency = en_clock en 8 - en_clock en 0, ae_Error = err, ae_Target = []\<rparr> c"

definition localAdminActor :: "string \<Rightarrow> string" where
  "localAdminActor actor = ''local-admin:'' @ (if actor = [] then ''unknown'' else actor)"

definition admin_entry :: "env \<Rightarrow> string \<Rightarrow> string \<Rightarrow> string \<Rightarrow> detail option \<Rightarrow> string \<Rightarrow> audit_entry" where
  "admin_entry en method actor st err target =
     \<lparr>ae_Timestamp = en_clock en 9, ae_UserID = localAdminActor actor, ae_Method = method, ae_TopK = None,
      ae_ResultCount = 0, ae_Status = st, ae_SourceIP = ''console-bff'', ae_Latency = 0, ae_Error = err, ae_Target = target\<rparr>"

definition auditAdmin :: "env \<Rightarrow> string \<Rightarrow> string \<Rightarrow> string \<Rightarrow> console \<Rightarrow> console" where
  "auditAdmin en method actor target c = Audit_Log (admin_entry en method actor ''success'' None target) c"

definition auditTagCleanup :: "env \<Rightarrow> string \<Rightarrow> string \<Rightarrow> detail \<Rightarrow> string \<Rightarrow> console \<Rightarrow> console" where
  "auditTagCleanup en actor st d target c =
     Audit_Log (admin_entry en ''admin.group.tag_cleanup'' actor st (if st \<noteq> ''success'' then Some d else None) target) c"

subsection \<open>The container\<close>

definition NewConsole :: "config \<Rightarrow> token_store \<Rightarrow> group_store \<Rightarrow> engine option \<Rightarrow> audit_entry list option \<Rightarrow> console" where
  "NewConsole cfg tokenStore groupStore eng audit =
     \<lparr>c_cfg = cfg, c_tokens = tokenStore, c_groups = groupStore, c_members = members_NewStore, c_invites = invites_NewStore,
      c_memberDir = False, c_inviteRedeem = False, c_memberAct = False, c_engine = eng, c_tagStats = NoTagStats,
      c_audit = audit, c_calls = []\<rparr>"

definition getEngine :: "console \<Rightarrow> engine option" where
  "getEngine c = c_engine c"

definition engineReady :: "console \<Rightarrow> bool" where
  "engineReady c \<longleftrightarrow> c_engine c \<noteq> None"

text \<open>A replaced engine is closed; two engines are the same when they are the same object.\<close>

definition ConnectEngine :: "engine option \<Rightarrow> console \<Rightarrow> console" where
  "ConnectEngine eng c =
     (let old = c_engine c;
          c = c\<lparr>c_engine := eng, c_tagStats := (case eng of None \<Rightarrow> c_tagStats c | Some e \<Rightarrow> EngineTagStats e)\<rparr>
      in case old of
           None \<Rightarrow> c
         | Some prev \<Rightarrow> if map_option eng_id eng = Some (eng_id prev) then c else c\<lparr>c_calls := c_calls c @ [CallClose (eng_id prev)]\<rparr>)"

definition DisconnectEngine :: "console \<Rightarrow> console" where
  "DisconnectEngine c = ConnectEngine None c"

definition SetTagStats :: "tag_stats_provider \<Rightarrow> console \<Rightarrow> console" where
  "SetTagStats p c = c\<lparr>c_tagStats := InjectedTagStats p\<rparr>"

definition UseEngineTagStats :: "console \<Rightarrow> console" where
  "UseEngineTagStats c = (case c_engine c of None \<Rightarrow> c | Some e \<Rightarrow> c\<lparr>c_tagStats := EngineTagStats e\<rparr>)"

definition SetMemberDirectory :: "members_store \<Rightarrow> console \<Rightarrow> console" where
  "SetMemberDirectory m c = c\<lparr>c_members := m, c_memberDir := True\<rparr>"

definition SetInviteRedemption :: "invite_store \<Rightarrow> console \<Rightarrow> console" where
  "SetInviteRedemption i c = c\<lparr>c_invites := i, c_inviteRedeem := True, c_memberAct := True\<rparr>"

text \<open>A later row of the answer overwrites an earlier one with the same tag.\<close>

definition engineTagStats :: "engine \<Rightarrow> engine_call list \<Rightarrow> string list \<Rightarrow> (string, tag_stat) gomap option" where
  "engineTagStats eng log tags =
     (case eng_GetTagStats eng log tags of
        Inl _ \<Rightarrow> None
      | Inr stats \<Rightarrow> Some (fold (\<lambda>(tag, st). AList.update tag st) stats []))"

definition TagStats :: "console \<Rightarrow> tag_stats_provider" where
  "TagStats c = (case c_tagStats c of
     NoTagStats \<Rightarrow> None | EngineTagStats e \<Rightarrow> Some (engineTagStats e (c_calls c)) | InjectedTagStats p \<Rightarrow> p)"

definition calls :: "engine_call \<Rightarrow> console \<Rightarrow> console" where
  "calls k c = c\<lparr>c_calls := c_calls c @ [k]\<rparr>"

definition PurgeGroupTag :: "env \<Rightarrow> string \<Rightarrow> string \<Rightarrow> console \<Rightarrow> detail \<times> console" where
  "PurgeGroupTag en tag actor c =
     (case getEngine c of
        None \<Rightarrow> (let d = Text ''tag cleanup skipped: no runespace engine attached'' in (d, auditTagCleanup en actor ''skipped'' d tag c))
      | Some eng \<Rightarrow>
          (let r = eng_PurgeTag eng (c_calls c) tag; c = calls (CallPurgeTag tag) c in
           case r of
             Inl ErrPurgeTagUnsupported \<Rightarrow>
               (let d = EngineErr ErrPurgeTagUnsupported in (d, auditTagCleanup en actor ''skipped'' d tag c))
           | Inl e \<Rightarrow> (EngineErr e, auditTagCleanup en actor ''failed'' (EngineErr e) tag c)
           | Inr res \<Rightarrow>
               (let d = PurgeCounts (pr_Purged res) (pr_SkippedSole res)
                in (d, auditTagCleanup en actor (if pr_SkippedSole res > 0 then ''partial'' else ''success'') d tag c))))"

definition RemoveGroupTag :: "env \<Rightarrow> string \<Rightarrow> string \<Rightarrow> console \<Rightarrow> (detail + 64 word) \<times> console" where
  "RemoveGroupTag en tag actor c =
     (case getEngine c of
        None \<Rightarrow> (let d = Text ''no runespace engine attached'' in (Inl d, auditTagCleanup en actor ''failed'' d tag c))
      | Some eng \<Rightarrow>
          (let r = eng_RemoveTag eng (c_calls c) tag; c = calls (CallRemoveTag tag) c in
           case r of
             Inl e \<Rightarrow> (Inl (EngineErr e), auditTagCleanup en actor ''failed'' (EngineErr e) tag c)
           | Inr n \<Rightarrow> (Inr n, auditTagCleanup en actor ''success'' (RecordCount n) tag c)))"

definition ReassignGroupTag :: "env \<Rightarrow> string \<Rightarrow> string \<Rightarrow> string \<Rightarrow> console \<Rightarrow> (detail + 64 word) \<times> console" where
  "ReassignGroupTag en frm to actor c =
     (case getEngine c of
        None \<Rightarrow> (let d = Text ''no runespace engine attached'' in (Inl d, auditTagCleanup en actor ''failed'' d frm c))
      | Some eng \<Rightarrow>
          (let r = eng_RetagAll eng (c_calls c) frm to; c = calls (CallRetagAll frm to) c in
           case r of
             Inl e \<Rightarrow> (Inl (EngineErr e), auditTagCleanup en actor ''failed'' (EngineErr e) frm c)
           | Inr n \<Rightarrow> (Inr n, auditTagCleanup en actor ''success'' (RecordCount n) frm c)))"

definition Close :: "console \<Rightarrow> console" where
  "Close c = (case getEngine c of None \<Rightarrow> c | Some e \<Rightarrow> calls (CallClose (eng_id e)) c)"

subsection \<open>The member gate\<close>

text \<open>
  \<open>resolveMemberAccess\<close>: the key the judge is asked with, and whether a member row backs it.
\<close>

definition resolveMemberAccess :: "console \<Rightarrow> string \<Rightarrow> detail + string \<times> bool" where
  "resolveMemberAccess c user =
     (if \<not> c_memberDir c then Inr (user, False)
      else case LookupByEmail user (c_members c) of (i, st, ok) \<Rightarrow>
        (if \<not> ok then
           (if validateID user = None then Inl (Text ''permission denied: token identity must not be a member id'')
            else Inr (user, False))
         else if st = StatusDisabled then Inl (Text (''permission denied: member '' @ user @ '' is disabled''))
         else Inr (i, True)))"

subsection \<open>Error codes\<close>

definition mapGroupsError :: "group_error \<Rightarrow> grpc_code" where
  "mapGroupsError e = (case e of
     ErrGroupNotFound _ \<Rightarrow> NotFound
   | ErrNotAdmin _ \<Rightarrow> PermissionDenied | ErrNoWriteGroup _ \<Rightarrow> PermissionDenied
   | ErrNotDirectMember _ _ \<Rightarrow> PermissionDenied | ErrInsufficientRole _ _ _ _ \<Rightarrow> PermissionDenied
   | ErrHasChildren _ _ \<Rightarrow> FailedPrecondition | ErrHasMembers _ _ \<Rightarrow> FailedPrecondition
   | ErrSoleTagRecords _ _ \<Rightarrow> FailedPrecondition | ErrTagStatsUnavailable _ \<Rightarrow> FailedPrecondition
   | _ \<Rightarrow> Internal)"

definition mapTokenError :: "token_error \<Rightarrow> grpc_code \<times> detail" where
  "mapTokenError e = (Unauthenticated, TokenErr e)"

definition mapInviteError :: "invite_error \<Rightarrow> grpc_code \<times> detail" where
  "mapInviteError e = (case e of
     ErrInviteConsumed _ \<Rightarrow> (FailedPrecondition, InviteErr e) | ErrInviteExpired _ \<Rightarrow> (FailedPrecondition, InviteErr e)
   | ErrInviteCompromised _ \<Rightarrow> (PermissionDenied, InviteErr e)
   | ErrInviteNotFound _ \<Rightarrow> (NotFound, InviteErr e) | ErrCreationPathMismatch \<Rightarrow> (NotFound, InviteErr e)
   | _ \<Rightarrow> (Internal, InviteErr e))"

definition inviteErrStatus :: "grpc_code \<Rightarrow> string" where
  "inviteErrStatus code = (if code = Internal then ''error'' else ''denied'')"

definition errStatus :: "token_error \<Rightarrow> string" where
  "errStatus e = (case e of ErrTokenNotFound \<Rightarrow> ''denied'' | ErrTokenExpired _ \<Rightarrow> ''denied'' | _ \<Rightarrow> ''error'')"

subsection \<open>The certificate of the console\<close>

definition caPEMAndPin :: "hash \<Rightarrow> env \<Rightarrow> config \<Rightarrow> detail + byte list \<times> string" where
  "caPEMAndPin sha256 en cfg =
     (let path = (if cfg_TLS_CA cfg = [] then cfg_TLS_Cert cfg else cfg_TLS_CA cfg) in
      if path = [] then Inl (Text ''console has no CA/cert configured'')
      else case en_file en path of
        Inl e \<Rightarrow> Inl (FileErr e)
      | Inr pem \<Rightarrow> Inr (pem, hex_bytes (sha256 pem)))"

end
