(* ===== verification/Data_Plane.thy ===== *)
theory Data_Plane
  imports Console_State
begin

text \<open>
  The gRPC handlers of the data plane (\<open>internal/server/grpc.go\<close>) and the interceptor in front of
  them (\<open>internal/server/interceptors.go\<close>). A handler takes its surroundings, its request and the
  console, and gives a reply and the console after it: the stores, the calls made to the engine and
  the audit entry of the deferred \<open>emit\<close> included. A reply with an error carries the status code
  and what the message prints.
\<close>

type_synonym 'a reply = "grpc_code \<times> detail + 'a"

subsection \<open>Shared steps\<close>

text \<open>
  Every return passes through the deferred \<open>emit\<close> with the audit fields set so far. \<open>refuse\<close> is
  the return of an error.
\<close>

definition finish :: "env \<Rightarrow> string \<Rightarrow> 32 word option \<Rightarrow> string \<Rightarrow> nat \<Rightarrow> string \<Rightarrow> detail option \<Rightarrow> 'r \<Rightarrow> console \<Rightarrow> 'r \<times> console" where
  "finish en method topK user n st err r c = (r, emit en method user topK n st err c)"

definition refuse :: "env \<Rightarrow> string \<Rightarrow> 32 word option \<Rightarrow> string \<Rightarrow> string \<Rightarrow> grpc_code \<Rightarrow> detail \<Rightarrow> console \<Rightarrow> 'a reply \<times> console" where
  "refuse en method topK user st code d c = finish en method topK user 0 st (Some d) (Inl (code, d)) c"

definition audit_user :: "console \<Rightarrow> string \<Rightarrow> string" where
  "audit_user c token = (let u = GetUsername token (c_tokens c) in if u = [] then ''unknown'' else u)"

text \<open>The opening of every handler that carries a token: audit name, then \<open>Validate\<close>.\<close>

definition authenticated :: "env \<Rightarrow> string \<Rightarrow> 32 word option \<Rightarrow> string \<Rightarrow> (string \<Rightarrow> console \<Rightarrow> 'a reply \<times> console) \<Rightarrow>
    console \<Rightarrow> 'a reply \<times> console" where
  "authenticated en method topK token body c =
     (let user = audit_user c token in
      case Validate (en_clock en 1) (en_clock en 2) token (c_tokens c) of
        (Inl e, ts) \<Rightarrow>
          (case mapTokenError e of (code, d) \<Rightarrow> refuse en method topK user (errStatus e) code d (c\<lparr>c_tokens := ts\<rparr>))
      | (Inr username, ts) \<Rightarrow> body username (c\<lparr>c_tokens := ts\<rparr>))"

text \<open>The opening of the handlers that also run the member gate; the body gets user and judge key.\<close>

definition gated :: "env \<Rightarrow> string \<Rightarrow> 32 word option \<Rightarrow> string \<Rightarrow> (string \<Rightarrow> string \<Rightarrow> console \<Rightarrow> 'a reply \<times> console) \<Rightarrow>
    console \<Rightarrow> 'a reply \<times> console" where
  "gated en method topK token body =
     authenticated en method topK token (\<lambda>user c.
       case resolveMemberAccess c user of
         Inl d \<Rightarrow> refuse en method topK user ''denied'' PermissionDenied d c
       | Inr (key, _) \<Rightarrow> body user key c)"

definition runespace_not_configured :: detail where
  "runespace_not_configured = Text ''runespace not configured''"

subsection \<open>Sealed metadata\<close>

text \<open>
  The primitives: block cipher, hash, key derivation, and the JSON codec of the envelope.
\<close>

record crypto_prims =
  cp_aes :: block_cipher
  cp_sha256 :: hash
  cp_hkdf :: kdf
  cp_marshal :: "string \<times> string \<Rightarrow> string"
  cp_unmarshal :: "string \<Rightarrow> (string \<times> string) option"

definition sealMeta :: "crypto_prims \<Rightarrow> entropy \<Rightarrow> config \<Rightarrow> string \<Rightarrow> string \<Rightarrow> crypto_error + string" where
  "sealMeta P rnd cfg token meta =
     (if meta = [] then Inr []
      else if cfg_TeamSecret cfg = [] then Inl ErrNoTeamSecret
      else
        (let agentID = AgentIDFromToken (cp_sha256 P) token in
         case DeriveAgentKey (cp_hkdf P) (cfg_TeamSecret cfg) agentID of
           Inl e \<Rightarrow> Inl e
         | Inr dek \<Rightarrow>
             (case EncryptMetadata (cp_aes P) rnd (bytes_of meta) dek of
                Inl e \<Rightarrow> Inl e
              | Inr ct \<Rightarrow> Inr (cp_marshal P (agentID, ct)))))"

definition openMeta :: "crypto_prims \<Rightarrow> config \<Rightarrow> string \<Rightarrow> string" where
  "openMeta P cfg stored =
     (if stored = [] then []
      else case cp_unmarshal P stored of
        None \<Rightarrow> stored
      | Some (agentID, ct) \<Rightarrow>
          if ct = [] then stored
          else (case DeriveAgentKey (cp_hkdf P) (cfg_TeamSecret cfg) agentID of
             Inl _ \<Rightarrow> stored
           | Inr dek \<Rightarrow>
               (case DecryptMetadata (cp_aes P) ct dek of
                  Inl _ \<Rightarrow> stored
                | Inr pt \<Rightarrow> string_of pt)))"

subsection \<open>Manifest, activation and certificate\<close>

definition defaultKeyID :: string where
  "defaultKeyID = ''rune-console-key''"

record agent_bundle =
  ab_key_id :: string
  ab_agent_id :: string
  ab_dim :: int
  ab_rmp_enc_key :: string
  ab_mm_enc_key :: string
  ab_agent_dek :: string
  ab_centroid_set_version :: "string option"

definition ReadRMPEncKey :: "env \<Rightarrow> detail + string" where
  "ReadRMPEncKey en = (case en_file en ''rmp/EncKey.json'' of Inl e \<Rightarrow> Inl (FileErr e) | Inr b \<Rightarrow> Inr (string_of b))"

definition ReadMMEncKey :: "env \<Rightarrow> detail + string" where
  "ReadMMEncKey en = (case en_file en ''mm/EncKey.json'' of Inl e \<Rightarrow> Inl (FileErr e) | Inr b \<Rightarrow> Inr (string_of b))"

definition buildBundle :: "crypto_prims \<Rightarrow> env \<Rightarrow> string \<Rightarrow> console \<Rightarrow> (detail + agent_bundle) \<times> console" where
  "buildBundle P en token c =
     (case ReadRMPEncKey en of Inl d \<Rightarrow> (Inl d, c) | Inr rmpEnc \<Rightarrow>
      (case ReadMMEncKey en of Inl d \<Rightarrow> (Inl d, c) | Inr mmEnc \<Rightarrow>
       (let agentID = AgentIDFromToken (cp_sha256 P) token in
        case DeriveAgentKey (cp_hkdf P) (cfg_TeamSecret (c_cfg c)) agentID of
          Inl e \<Rightarrow> (Inl (CryptoErr e), c)
        | Inr dek \<Rightarrow>
            (let b = \<lparr>ab_key_id = defaultKeyID, ab_agent_id = agentID, ab_dim = cfg_EmbeddingDim (c_cfg c),
                      ab_rmp_enc_key = rmpEnc, ab_mm_enc_key = mmEnc, ab_agent_dek = b64_encode b64_std True dek,
                      ab_centroid_set_version = None\<rparr>
             in case getEngine c of
               None \<Rightarrow> (Inr b, c)
             | Some eng \<Rightarrow>
                 (case eng_Centroids eng (c_calls c) of
                    Inl _ \<Rightarrow> (Inr b, calls CallCentroids c)
                  | Inr cs \<Rightarrow> (Inr (b\<lparr>ab_centroid_set_version := Some (cs_Version cs)\<rparr>), calls CallCentroids c))))))"

definition rpc_GetAgentManifest :: "crypto_prims \<Rightarrow> env \<Rightarrow> string \<Rightarrow> console \<Rightarrow> agent_bundle reply \<times> console" where
  "rpc_GetAgentManifest P en token =
     gated en ''get_agent_manifest'' None token (\<lambda>user key c.
       case buildBundle P en token c of
         (Inl d, c) \<Rightarrow> refuse en ''get_agent_manifest'' None user ''error'' Internal d c
       | (Inr b, c) \<Rightarrow> finish en ''get_agent_manifest'' None user 1 ''success'' None (Inr b) c)"

definition rpc_ReportActivation :: "env \<Rightarrow> string \<Rightarrow> console \<Rightarrow> unit reply \<times> console" where
  "rpc_ReportActivation en token =
     authenticated en ''report_activation'' None token (\<lambda>user c.
       case MarkActivated (en_fault en 0) (en_clock en 3) user (c_tokens c) of
         (Inl e, ts) \<Rightarrow> refuse en ''report_activation'' None user ''error'' Internal (TokenErr e) (c\<lparr>c_tokens := ts\<rparr>)
       | (Inr _, ts) \<Rightarrow> finish en ''report_activation'' None user 0 ''success'' None (Inr ()) (c\<lparr>c_tokens := ts\<rparr>))"

definition rpc_GetCACert :: "crypto_prims \<Rightarrow> env \<Rightarrow> console \<Rightarrow> (byte list \<times> string) reply \<times> console" where
  "rpc_GetCACert P en c =
     (case caPEMAndPin (cp_sha256 P) en (c_cfg c) of
        Inl d \<Rightarrow> refuse en ''get_ca_cert'' None ''bootstrap'' ''error'' FailedPrecondition d c
      | Inr r \<Rightarrow> finish en ''get_ca_cert'' None ''bootstrap'' 1 ''success'' None (Inr r) c)"

subsection \<open>Capture\<close>

record insert_request =
  iq_token :: string
  iq_id :: string
  iq_rmp_item :: "byte list"
  iq_mm_item :: "byte list"
  iq_cluster_id :: "32 word"
  iq_centroid_set_version :: string
  iq_metadata :: string

definition item_of_request :: "insert_request \<Rightarrow> pre_encrypted_item" where
  "item_of_request q = \<lparr>pi_ID = iq_id q, pi_RMPBlob = iq_rmp_item q, pi_MMBlob = iq_mm_item q, pi_ClusterID = iq_cluster_id q,
     pi_CentroidSetVersion = iq_centroid_set_version q, pi_SealedMetadata = iq_metadata q\<rparr>"

definition rpc_Insert :: "env \<Rightarrow> insert_request \<Rightarrow> console \<Rightarrow> string reply \<times> console" where
  "rpc_Insert en q =
     gated en ''insert'' None (iq_token q) (\<lambda>user key c.
       case CaptureTagSet (c_groups c) key [] of
         Inl e \<Rightarrow> refuse en ''insert'' None user ''denied'' (mapGroupsError e) (GroupErr e) c
       | Inr tags \<Rightarrow>
           (case getEngine c of
              None \<Rightarrow> refuse en ''insert'' None user ''error'' FailedPrecondition runespace_not_configured c
            | Some eng \<Rightarrow>
                (let item = item_of_request q; r = eng_InsertPreEncrypted eng (c_calls c) item tags;
                     c = calls (CallInsert item tags) c
                 in case r of
                   Some e \<Rightarrow> refuse en ''insert'' None user ''error'' Internal (EngineErr e) c
                 | None \<Rightarrow> finish en ''insert'' None user 1 ''success'' None (Inr (iq_id q)) c)))"

subsection \<open>Centroid stream\<close>

record centroid_header =
  ch_Version :: string
  ch_Dim :: "32 word"
  ch_Preset :: string
  ch_Nlist :: "32 word"

datatype centroid_chunk = ChunkHeader centroid_header | ChunkBatch "(32 word \<times> vec) list"

definition centroidBatchSize :: nat where "centroidBatchSize = 256"

text \<open>The loop from index \<open>i\<close> on: one frame per window, ids from the index.\<close>

function centroid_batches :: "nat \<Rightarrow> vec list \<Rightarrow> centroid_chunk list" where
  "centroid_batches i vs =
     (if i < length vs then
        (let e = min (i + centroidBatchSize) (length vs)
         in ChunkBatch (map (\<lambda>j. (of_nat (i + j), vs ! (i + j))) [0..<e - i]) # centroid_batches (i + centroidBatchSize) vs)
      else [])"
  by pat_completeness auto
termination by (relation "measure (\<lambda>(i, vs). length vs - i)") (auto simp: centroidBatchSize_def)

declare centroid_batches.simps [simp del]

text \<open>Frames are sent in order until \<open>Send\<close> fails: what was delivered, and whether it failed.\<close>

fun send_frames :: "(nat \<Rightarrow> string option) \<Rightarrow> nat \<Rightarrow> centroid_chunk list \<Rightarrow> centroid_chunk list \<times> string option" where
  "send_frames sendErr n [] = ([], None)"
| "send_frames sendErr n (x # xs) =
     (case sendErr n of
        Some e \<Rightarrow> ([], Some e)
      | None \<Rightarrow> (case send_frames sendErr (Suc n) xs of (out, e) \<Rightarrow> (x # out, e)))"

definition centroid_frames :: "centroid_set \<Rightarrow> centroid_chunk list" where
  "centroid_frames cs =
     ChunkHeader \<lparr>ch_Version = cs_Version cs, ch_Dim = word_of_int (cs_Dim cs), ch_Preset = cs_Preset cs,
       ch_Nlist = of_nat (length (cs_Vectors cs))\<rparr> # centroid_batches 0 (cs_Vectors cs)"

text \<open>A reply is the frames delivered and the error of the stream, if one ended it.\<close>

definition rpc_GetCentroids :: "env \<Rightarrow> (nat \<Rightarrow> string option) \<Rightarrow> string \<Rightarrow> console \<Rightarrow> (centroid_chunk list \<times> string option) reply \<times> console" where
  "rpc_GetCentroids en sendErr token =
     authenticated en ''get_centroids'' None token (\<lambda>user c.
       case getEngine c of
         None \<Rightarrow> refuse en ''get_centroids'' None user ''error'' FailedPrecondition runespace_not_configured c
       | Some eng \<Rightarrow>
           (let r = eng_Centroids eng (c_calls c); c = calls CallCentroids c in
            case r of
              Inl e \<Rightarrow> refuse en ''get_centroids'' None user ''error'' Internal (EngineErr e) c
            | Inr cs \<Rightarrow>
                (case send_frames sendErr 0 (centroid_frames cs) of
                   (out, Some e) \<Rightarrow> finish en ''get_centroids'' None user 0 ''error'' (Some (Text e)) (Inr (out, Some e)) c
                 | (out, None) \<Rightarrow> finish en ''get_centroids'' None user (length (cs_Vectors cs)) ''success'' None (Inr (out, None)) c)))"

subsection \<open>Recall\<close>

definition publicOnlyScopeSentinel :: string where
  "publicOnlyScopeSentinel = ''__rune_no_access__''"

record search_request =
  sq_token :: string
  sq_vector :: vec
  sq_top_k :: "32 word"

definition search_scope :: "group_store \<Rightarrow> string \<Rightarrow> string list" where
  "search_scope s key = (let scope = RecallScope s key in if scope = [] then [publicOnlyScopeSentinel] else scope)"

definition rpc_Search :: "crypto_prims \<Rightarrow> env \<Rightarrow> search_request \<Rightarrow> console \<Rightarrow> search_hit list reply \<times> console" where
  "rpc_Search P en q =
     gated en ''search'' (Some (sq_top_k q)) (sq_token q) (\<lambda>user key c.
       case getEngine c of
         None \<Rightarrow> refuse en ''search'' (Some (sq_top_k q)) user ''error'' FailedPrecondition runespace_not_configured c
       | Some eng \<Rightarrow>
           (let scope = search_scope (c_groups c) key;
                r = eng_Search eng (c_calls c) (sq_vector q) (sint (sq_top_k q)) scope;
                c = calls (CallSearch (sq_vector q) (sint (sq_top_k q)) scope) c
            in case r of
              Inl e \<Rightarrow> refuse en ''search'' (Some (sq_top_k q)) user ''error'' Internal (EngineErr e) c
            | Inr hits \<Rightarrow>
                (let out = map (\<lambda>h. h\<lparr>sh_Metadata := openMeta P (c_cfg c) (sh_Metadata h)\<rparr>) hits
                 in finish en ''search'' (Some (sq_top_k q)) user (length out) ''success'' None (Inr out) c)))"

subsection \<open>Permissions\<close>

record permissions_request =
  pq_token :: string
  pq_root_group :: string
  pq_include_member_roles :: bool

record permissions_response =
  pp_Me :: string
  pp_Memberships :: "membership_view list"
  pp_Tree :: "tree_node list"
  pp_MemberRoles :: "member_role_view list"

text \<open>A membership key is shown as the email of its member, or as it is.\<close>

definition display_user :: "console \<Rightarrow> string \<Rightarrow> string" where
  "display_user c key =
     (if c_memberDir c then (case members_Get key (c_members c) of Inl _ \<Rightarrow> key | Inr m \<Rightarrow> m_Email m) else key)"

definition rpc_GetPermissions :: "env \<Rightarrow> permissions_request \<Rightarrow> console \<Rightarrow> permissions_response reply \<times> console" where
  "rpc_GetPermissions en q =
     gated en ''get_permissions'' None (pq_token q) (\<lambda>user key c.
       case Permissions (c_groups c) key (pq_root_group q) of
         Inl e \<Rightarrow> refuse en ''get_permissions'' None user ''error'' Internal (GroupErr e) c
       | Inr view \<Rightarrow>
           (let resp = \<lparr>pp_Me = user, pp_Memberships = pv_Memberships view, pp_Tree = pv_Tree view, pp_MemberRoles = []\<rparr> in
            if pq_include_member_roles q then
              (if \<not> IsOrgAdmin (c_groups c) user then
                 refuse en ''get_permissions'' None user ''denied'' PermissionDenied
                   (Text (''permission denied: include_member_roles requires the organization admin (Owner); '' @ user @ '' is not'')) c
               else finish en ''get_permissions'' None user (length (pv_Tree view)) ''success'' None
                 (Inr (resp\<lparr>pp_MemberRoles := map (\<lambda>mr. mr\<lparr>mrv_User := display_user c (mrv_User mr)\<rparr>) (MemberRoles (c_groups c))\<rparr>)) c)
            else finish en ''get_permissions'' None user (length (pv_Tree view)) ''success'' None (Inr resp) c))"

subsection \<open>Invite redemption\<close>

definition inviteCreationPath :: string where
  "inviteCreationPath = ''admin.member.invite''"

record lookup_response =
  lr_Email :: string
  lr_Role :: string
  lr_ExpiresAt :: string
  lr_CreationPath :: string

definition redemption_off :: detail where
  "redemption_off = Text ''invite redemption is not enabled on this console''"

definition rpc_LookupWrap :: "env \<Rightarrow> string \<Rightarrow> console \<Rightarrow> lookup_response reply \<times> console" where
  "rpc_LookupWrap en handle c =
     (if \<not> c_inviteRedeem c then refuse en ''lookup_wrap'' None ''unknown'' ''error'' Unimplemented redemption_off c
      else case Lookup handle inviteCreationPath (en_clock en 1) (c_invites c) of
        Inl e \<Rightarrow> (case mapInviteError e of (code, d) \<Rightarrow> refuse en ''lookup_wrap'' None ''unknown'' (inviteErrStatus code) code d c)
      | Inr b \<Rightarrow> finish en ''lookup_wrap'' None (cb_Email b) 1 ''success'' None
          (Inr \<lparr>lr_Email = cb_Email b, lr_Role = cb_Role b, lr_ExpiresAt = cb_ExpiresAt b, lr_CreationPath = cb_CreationPath b\<rparr>) c)"

text \<open>
  Redemption: the gates without consuming, the disabled check, the one-time release, the
  activation; only then is the token in the reply.
\<close>

definition rpc_Unwrap :: "env \<Rightarrow> string \<Rightarrow> console \<Rightarrow> (string \<times> string) reply \<times> console" where
  "rpc_Unwrap en handle c =
     (if \<not> c_inviteRedeem c \<or> \<not> c_memberAct c then refuse en ''unwrap'' None ''unknown'' ''error'' Unimplemented redemption_off c
      else case Lookup handle inviteCreationPath (en_clock en 1) (c_invites c) of
        Inl e \<Rightarrow> (case mapInviteError e of (code, d) \<Rightarrow> refuse en ''unwrap'' None ''unknown'' (inviteErrStatus code) code d c)
      | Inr b \<Rightarrow>
          (let user = cb_Email b in
           if c_memberDir c \<and> (case LookupByEmail user (c_members c) of (_, st, ok) \<Rightarrow> ok \<and> st = StatusDisabled)
           then refuse en ''unwrap'' None user ''denied'' PermissionDenied (Text (''member '' @ user @ '' is disabled; invite not consumed'')) c
           else case Unwrap (en_fault en 0) (en_clock en 2) handle (c_invites c) of
             (Inl e, iv) \<Rightarrow>
               (case mapInviteError e of (code, d) \<Rightarrow> refuse en ''unwrap'' None user (inviteErrStatus code) code d (c\<lparr>c_invites := iv\<rparr>))
           | (Inr (token, memberID), iv) \<Rightarrow>
               (case Activate (en_fault en 1) memberID (c_members c) of
                  (Inl e, ms) \<Rightarrow> refuse en ''unwrap'' None user ''error'' Internal (ActivateErr e) (c\<lparr>c_invites := iv, c_members := ms\<rparr>)
                | (Inr _, ms) \<Rightarrow> finish en ''unwrap'' None user 1 ''success'' None (Inr (token, memberID))
                    (c\<lparr>c_invites := iv, c_members := ms\<rparr>))))"

subsection \<open>The interceptor\<close>

definition svc :: "string \<Rightarrow> string" where
  "svc m = ''/rune.console.v1.ConsoleService/'' @ m"

definition consoleMethods :: "string list" where
  "consoleMethods = [svc ''GetAgentManifest'', svc ''Insert'', svc ''Search'']"

definition engineRequiredMethods :: "string list" where
  "engineRequiredMethods = [svc ''Insert'', svc ''Search'', svc ''GetCentroids'']"

text \<open>\<open>unicode.IsControl\<close>: the control characters of Latin-1, and no others.\<close>

definition IsControl :: "nat \<Rightarrow> bool" where
  "IsControl r \<longleftrightarrow> r < 0x20 \<or> 0x7f \<le> r \<and> r < 0xa0"

text \<open>\<open>strings.TrimSpace\<close> leaves a text as it is when neither its first nor its last rune is a space.\<close>

definition CheckTokenSafety :: "string \<Rightarrow> string option" where
  "CheckTokenSafety token =
     (let rs = runes token in
      if list_ex (\<lambda>r. r < 0x20 \<or> r = 0x7f \<or> IsControl r) rs then Some ''token: must not contain control characters''
      else if rs \<noteq> [] \<and> (is_space (hd rs) \<or> is_space (last rs)) then Some ''token: must not have leading or trailing whitespace''
      else None)"

text \<open>
  The unary interceptor: readiness of the engine, the constraints of the protocol buffers
  (\<open>validate\<close>), the token check, then the handler. \<open>token\<close> is the token field of the three
  requests \<open>runtimeCheckToken\<close> knows.
\<close>

definition validation_interceptor :: "string \<Rightarrow> string option \<Rightarrow> string option \<Rightarrow> (console \<Rightarrow> 'a reply \<times> console) \<Rightarrow> console \<Rightarrow> 'a reply \<times> console" where
  "validation_interceptor fullMethod validate token handler c =
     (if fullMethod \<in> set engineRequiredMethods \<and> \<not> engineReady c then (Inl (Unavailable, runespace_not_configured), c)
      else case validate of
        Some e \<Rightarrow> (Inl (InvalidArgument, Text e), c)
      | None \<Rightarrow>
          (case (if fullMethod \<in> set consoleMethods then (case token of None \<Rightarrow> None | Some t \<Rightarrow> CheckTokenSafety t) else None) of
             Some e \<Rightarrow> (Inl (InvalidArgument, Text e), c)
           | None \<Rightarrow> handler c))"

subsection \<open>One request\<close>

datatype rpc = GetAgentManifest string | ReportActivation string | GetCACert | Insert insert_request
  | GetCentroids "nat \<Rightarrow> string option" string | Search search_request | GetPermissions permissions_request
  | LookupWrap string | UnwrapInvite string

definition succeeded :: "'a reply \<times> console \<Rightarrow> bool \<times> console" where
  "succeeded x = (\<not> isl (fst x), snd x)"

text \<open>Whether the request was answered without an error, and the console after it.\<close>

fun serve :: "crypto_prims \<Rightarrow> env \<Rightarrow> rpc \<Rightarrow> console \<Rightarrow> bool \<times> console" where
  "serve P en (GetAgentManifest t) c = succeeded (rpc_GetAgentManifest P en t c)"
| "serve P en (ReportActivation t) c = succeeded (rpc_ReportActivation en t c)"
| "serve P en GetCACert c = succeeded (rpc_GetCACert P en c)"
| "serve P en (Insert q) c = succeeded (rpc_Insert en q c)"
| "serve P en (GetCentroids f t) c =
     (case rpc_GetCentroids en f t c of (r, c') \<Rightarrow> ((case r of Inl _ \<Rightarrow> False | Inr (_, e) \<Rightarrow> e = None), c'))"
| "serve P en (Search q) c = succeeded (rpc_Search P en q c)"
| "serve P en (GetPermissions q) c = succeeded (rpc_GetPermissions en q c)"
| "serve P en (LookupWrap h) c = succeeded (rpc_LookupWrap en h c)"
| "serve P en (UnwrapInvite h) c = succeeded (rpc_Unwrap en h c)"

fun method_name :: "rpc \<Rightarrow> string" where
  "method_name (GetAgentManifest _) = ''get_agent_manifest''"
| "method_name (ReportActivation _) = ''report_activation''"
| "method_name GetCACert = ''get_ca_cert''"
| "method_name (Insert _) = ''insert''"
| "method_name (GetCentroids _ _) = ''get_centroids''"
| "method_name (Search _) = ''search''"
| "method_name (GetPermissions _) = ''get_permissions''"
| "method_name (LookupWrap _) = ''lookup_wrap''"
| "method_name (UnwrapInvite _) = ''unwrap''"

end
