(* ===== verification/Data_Plane_Frame.thy ===== *)
theory Data_Plane_Frame
  imports Data_Plane Token_Properties Invite_Properties Group_Properties
begin

text \<open>
  What a request of the data plane can change: each handler is described by the steps it is built
  from, once for the audit trail and once for the stores.
\<close>

subsection \<open>Selectors\<close>

lemma Audit_Log_sel [simp]:
  "c_cfg (Audit_Log e c) = c_cfg c" "c_tokens (Audit_Log e c) = c_tokens c" "c_groups (Audit_Log e c) = c_groups c"
  "c_members (Audit_Log e c) = c_members c" "c_invites (Audit_Log e c) = c_invites c" "c_memberDir (Audit_Log e c) = c_memberDir c"
  "c_inviteRedeem (Audit_Log e c) = c_inviteRedeem c" "c_memberAct (Audit_Log e c) = c_memberAct c"
  "c_engine (Audit_Log e c) = c_engine c" "c_calls (Audit_Log e c) = c_calls c"
  "c_audit (Audit_Log e c) = map_option (\<lambda>es. es @ [e]) (c_audit c)"
  by (cases "c_audit c"; simp add: Audit_Log_def)+

lemma emit_sel [simp]:
  "c_cfg (emit en m u k n st err c) = c_cfg c" "c_tokens (emit en m u k n st err c) = c_tokens c"
  "c_groups (emit en m u k n st err c) = c_groups c" "c_members (emit en m u k n st err c) = c_members c"
  "c_invites (emit en m u k n st err c) = c_invites c" "c_memberDir (emit en m u k n st err c) = c_memberDir c"
  "c_engine (emit en m u k n st err c) = c_engine c" "c_calls (emit en m u k n st err c) = c_calls c"
  by (simp_all add: emit_def)

lemma calls_sel [simp]:
  "c_cfg (calls k c) = c_cfg c" "c_tokens (calls k c) = c_tokens c" "c_groups (calls k c) = c_groups c"
  "c_members (calls k c) = c_members c" "c_invites (calls k c) = c_invites c" "c_memberDir (calls k c) = c_memberDir c"
  "c_engine (calls k c) = c_engine c" "c_audit (calls k c) = c_audit c" "c_calls (calls k c) = c_calls c @ [k]"
  by (simp_all add: calls_def)

lemma resolve_cong:
  "c_memberDir c = c_memberDir c' \<Longrightarrow> c_members c = c_members c' \<Longrightarrow> resolveMemberAccess c u = resolveMemberAccess c' u"
  by (simp add: resolveMemberAccess_def)

lemma resolve_tokens [simp]: "resolveMemberAccess (c\<lparr>c_tokens := ts\<rparr>) u = resolveMemberAccess c u"
  by (rule resolve_cong) simp_all

text \<open>The three ways through the opening of a handler.\<close>

lemma authenticated_cases:
  "(\<exists>e ts. Validate (en_clock en 1) (en_clock en 2) t (c_tokens c) = (Inl e, ts) \<and>
      authenticated en m k t body c = refuse en m k (audit_user c t) (errStatus e) Unauthenticated (TokenErr e) (c\<lparr>c_tokens := ts\<rparr>)) \<or>
   (\<exists>u ts. Validate (en_clock en 1) (en_clock en 2) t (c_tokens c) = (Inr u, ts) \<and>
      authenticated en m k t body c = body u (c\<lparr>c_tokens := ts\<rparr>))"
  by (cases "Validate (en_clock en 1) (en_clock en 2) t (c_tokens c)"; cases "fst (Validate (en_clock en 1) (en_clock en 2) t (c_tokens c))")
    (auto simp: authenticated_def mapTokenError_def Let_def)

lemma gated_cases:
  "(\<exists>e ts. Validate (en_clock en 1) (en_clock en 2) t (c_tokens c) = (Inl e, ts) \<and>
      gated en m k t body c = refuse en m k (audit_user c t) (errStatus e) Unauthenticated (TokenErr e) (c\<lparr>c_tokens := ts\<rparr>)) \<or>
   (\<exists>u ts d. Validate (en_clock en 1) (en_clock en 2) t (c_tokens c) = (Inr u, ts) \<and> resolveMemberAccess c u = Inl d \<and>
      gated en m k t body c = refuse en m k u ''denied'' PermissionDenied d (c\<lparr>c_tokens := ts\<rparr>)) \<or>
   (\<exists>u ts key row. Validate (en_clock en 1) (en_clock en 2) t (c_tokens c) = (Inr u, ts) \<and> resolveMemberAccess c u = Inr (key, row) \<and>
      gated en m k t body c = body u key (c\<lparr>c_tokens := ts\<rparr>))"
proof (cases "Validate (en_clock en 1) (en_clock en 2) t (c_tokens c)")
  case (Pair r ts)
  show ?thesis
  proof (cases r)
    case (Inl e)
    then show ?thesis using Pair by (simp add: gated_def authenticated_def mapTokenError_def)
  next
    case (Inr u)
    then have g: "gated en m k t body c = (case resolveMemberAccess c u of
         Inl d \<Rightarrow> refuse en m k u ''denied'' PermissionDenied d (c\<lparr>c_tokens := ts\<rparr>)
       | Inr (key, _) \<Rightarrow> body u key (c\<lparr>c_tokens := ts\<rparr>))"
      using Pair by (simp add: gated_def authenticated_def)
    show ?thesis
    proof (cases "resolveMemberAccess c u")
      case (Inl d)
      with g Inr Pair show ?thesis by simp
    next
      case R: (Inr a)
      obtain key row where "a = (key, row)" by (cases a)
      with g Inr Pair R show ?thesis by simp
    qed
  qed
qed

subsection \<open>Audit trail\<close>

text \<open>
  \<open>logged m ok c c'\<close>: one entry was appended, naming the method, and its status, its error and its
  count say whether the request succeeded.
\<close>

definition entry_ok :: "string \<Rightarrow> bool \<Rightarrow> audit_entry \<Rightarrow> bool" where
  "entry_ok m ok e \<longleftrightarrow> ae_Method e = m \<and> (ae_Status e = ''success'' \<longleftrightarrow> ok) \<and> (ae_Error e = None \<longleftrightarrow> ok) \<and>
     (\<not> ok \<longrightarrow> ae_ResultCount e = 0)"

definition logged :: "string \<Rightarrow> console \<Rightarrow> bool \<times> console \<Rightarrow> bool" where
  "logged m c x \<longleftrightarrow> (\<exists>e. entry_ok m (fst x) e \<and> c_audit (snd x) = map_option (\<lambda>es. es @ [e]) (c_audit c))"

lemma logged_emit:
  assumes "c_audit c' = c_audit c" "st = ''success'' \<longleftrightarrow> ok" "err = None \<longleftrightarrow> ok" "\<not> ok \<longrightarrow> n = 0"
  shows "logged m c (ok, emit en m u k n st err c')"
  unfolding logged_def
proof (intro exI conjI)
  let ?e = "\<lparr>ae_Timestamp = en_clock en 9, ae_UserID = u, ae_Method = m, ae_TopK = k, ae_ResultCount = n, ae_Status = st,
    ae_SourceIP = en_peer en, ae_Latency = en_clock en 8 - en_clock en 0, ae_Error = err, ae_Target = []\<rparr>"
  show "entry_ok m (fst (ok, emit en m u k n st err c')) ?e" using assms by (simp add: entry_ok_def)
  show "c_audit (snd (ok, emit en m u k n st err c')) = map_option (\<lambda>es. es @ [?e]) (c_audit c)" using assms by (simp add: emit_def)
qed

lemma logged_refuse:
  "st \<noteq> ''success'' \<Longrightarrow> c_audit c' = c_audit c \<Longrightarrow> logged m c (succeeded (refuse en m k u st code d c'))"
  by (simp add: succeeded_def refuse_def finish_def logged_emit)

lemma logged_finish: "c_audit c' = c_audit c \<Longrightarrow> logged m c (succeeded (finish en m k u n ''success'' None (Inr r) c'))"
  by (simp add: succeeded_def finish_def logged_emit)

lemma errStatus_fail [simp]: "errStatus e \<noteq> ''success''" "inviteErrStatus code \<noteq> ''success''"
  by (simp_all add: errStatus_def inviteErrStatus_def split: token_error.split)

lemma logged_authenticated:
  assumes "\<And>u c'. c_audit c' = c_audit c \<Longrightarrow> logged m c (succeeded (body u c'))"
  shows "logged m c (succeeded (authenticated en m k t body c))"
  using authenticated_cases [of en t c m k body] by (elim disjE exE conjE) (simp_all add: assms logged_refuse)

lemma logged_gated:
  assumes "\<And>u key c'. c_audit c' = c_audit c \<Longrightarrow> logged m c (succeeded (body u key c'))"
  shows "logged m c (succeeded (gated en m k t body c))"
  using gated_cases [of en t c m k body] by (elim disjE exE conjE) (simp_all add: assms logged_refuse)

lemma buildBundle_sel:
  "buildBundle P en t c = (r, c') \<Longrightarrow> c_audit c' = c_audit c \<and> c_tokens c' = c_tokens c \<and> c_groups c' = c_groups c \<and>
     c_members c' = c_members c \<and> c_invites c' = c_invites c"
  by (auto simp: buildBundle_def Let_def split: sum.splits option.splits)

lemmas logged_intros = logged_refuse logged_finish

lemma logged_Centroids: "logged ''get_centroids'' c (serve P en (GetCentroids f t) c)"
proof -
  let ?b = "\<lambda>user c. case getEngine c of
         None \<Rightarrow> refuse en ''get_centroids'' None user ''error'' FailedPrecondition runespace_not_configured c
       | Some eng \<Rightarrow>
           (let r = eng_Centroids eng (c_calls c); c = calls CallCentroids c in
            case r of
              Inl e \<Rightarrow> refuse en ''get_centroids'' None user ''error'' Internal (EngineErr e) c
            | Inr cs \<Rightarrow>
                (case send_frames f 0 (centroid_frames cs) of
                   (out, Some e) \<Rightarrow> finish en ''get_centroids'' None user 0 ''error'' (Some (Text e)) (Inr (out, Some e)) c
                 | (out, None) \<Rightarrow> finish en ''get_centroids'' None user (length (cs_Vectors cs)) ''success'' None (Inr (out, None)) c))"
  show ?thesis
    using authenticated_cases [of en t c "''get_centroids''" None ?b]
    by (elim disjE exE conjE) (auto simp: rpc_GetCentroids_def refuse_def finish_def Let_def intro!: logged_emit split: option.split sum.split prod.split)
qed

lemma serve_logged: "logged (method_name q) c (serve P en q c)"
proof (cases q)
  case (GetAgentManifest t)
  have "logged ''get_agent_manifest'' c (succeeded (rpc_GetAgentManifest P en t c))"
    unfolding rpc_GetAgentManifest_def
    by (rule logged_gated) (auto intro!: logged_intros dest: buildBundle_sel split: prod.split sum.split)
  then show ?thesis by (simp add: GetAgentManifest)
next
  case (ReportActivation t)
  have "logged ''report_activation'' c (succeeded (rpc_ReportActivation en t c))"
    unfolding rpc_ReportActivation_def
    by (rule logged_authenticated) (auto intro!: logged_intros split: prod.split sum.split)
  then show ?thesis by (simp add: ReportActivation)
next
  case GetCACert
  then show ?thesis by (auto simp: rpc_GetCACert_def intro!: logged_intros split: sum.split)
next
  case (Insert r)
  have "logged ''insert'' c (succeeded (rpc_Insert en r c))"
    unfolding rpc_Insert_def
    by (rule logged_gated) (auto simp: Let_def intro!: logged_intros split: option.split sum.split)
  then show ?thesis by (simp add: Insert)
next
  case (GetCentroids f t)
  then show ?thesis using logged_Centroids [of c P en f t] by simp
next
  case (Search r)
  have "logged ''search'' c (succeeded (rpc_Search P en r c))"
    unfolding rpc_Search_def
    by (rule logged_gated) (auto simp: Let_def intro!: logged_intros split: option.split sum.split)
  then show ?thesis by (simp add: Search)
next
  case (GetPermissions r)
  have "logged ''get_permissions'' c (succeeded (rpc_GetPermissions en r c))"
    unfolding rpc_GetPermissions_def
    by (rule logged_gated) (auto simp: Let_def intro!: logged_intros split: sum.split)
  then show ?thesis by (simp add: GetPermissions)
next
  case (LookupWrap h)
  then show ?thesis by (auto simp: rpc_LookupWrap_def intro!: logged_intros split: sum.split prod.split)
next
  case (UnwrapInvite h)
  then show ?thesis by (auto simp: rpc_Unwrap_def Let_def intro!: logged_intros split: sum.split prod.split)
qed

subsection \<open>Stores\<close>

definition same_stores :: "console \<Rightarrow> console \<Rightarrow> bool" where
  "same_stores c c' \<longleftrightarrow> c_tokens c' = c_tokens c \<and> c_groups c' = c_groups c \<and> c_members c' = c_members c \<and> c_invites c' = c_invites c"

definition validated :: "env \<Rightarrow> string \<Rightarrow> console \<Rightarrow> console" where
  "validated en t c = c\<lparr>c_tokens := snd (Validate (en_clock en 1) (en_clock en 2) t (c_tokens c))\<rparr>"

lemma same_refl [simp]: "same_stores c c"
  by (simp add: same_stores_def)

lemma same_refuse [simp]: "same_stores c (snd (refuse en m k u st code d c')) \<longleftrightarrow> same_stores c c'"
  by (simp add: refuse_def finish_def same_stores_def)

lemma same_finish [simp]: "same_stores c (snd (finish en m k u n st err r c')) \<longleftrightarrow> same_stores c c'"
  by (simp add: finish_def same_stores_def)

lemma same_calls [simp]: "same_stores c (calls k c') \<longleftrightarrow> same_stores c c'"
  by (simp add: same_stores_def)

lemma same_authenticated:
  assumes "\<And>u. same_stores (validated en t c) (snd (body u (validated en t c)))"
  shows "same_stores (validated en t c) (snd (authenticated en m k t body c))"
  using authenticated_cases [of en t c m k body] assms
  by (elim disjE exE conjE) (simp_all add: validated_def)

lemma same_gated:
  assumes "\<And>u key. same_stores (validated en t c) (snd (body u key (validated en t c)))"
  shows "same_stores (validated en t c) (snd (gated en m k t body c))"
  using gated_cases [of en t c m k body] assms
  by (elim disjE exE conjE) (simp_all add: validated_def)

lemma buildBundle_same: "buildBundle P en t c = (r, c') \<Longrightarrow> same_stores c c'"
  using buildBundle_sel [of P en t c r c'] by (simp add: same_stores_def)

lemma snd_succeeded [simp]: "snd (succeeded x) = snd x"
  by (simp add: succeeded_def)

fun bearer :: "rpc \<Rightarrow> string option" where
  "bearer (GetAgentManifest t) = Some t"
| "bearer (Insert q) = Some (iq_token q)"
| "bearer (GetCentroids _ t) = Some t"
| "bearer (Search q) = Some (sq_token q)"
| "bearer (GetPermissions q) = Some (pq_token q)"
| "bearer _ = None"

lemma serve_bearer: "bearer q = Some t \<Longrightarrow> same_stores (validated en t c) (snd (serve P en q c))"
proof (cases q)
  case (GetAgentManifest t')
  assume "bearer q = Some t"
  with GetAgentManifest show ?thesis
    by (auto simp: rpc_GetAgentManifest_def dest: buildBundle_same intro!: same_gated split: prod.split sum.split)
next
  case (GetCentroids f t')
  have "same_stores (validated en t' c) (snd (rpc_GetCentroids en f t' c))"
    unfolding rpc_GetCentroids_def
    by (rule same_authenticated) (auto simp: Let_def split: prod.split option.split sum.split)
  moreover assume "bearer q = Some t"
  ultimately show ?thesis using GetCentroids by (simp add: case_prod_unfold)
qed (auto simp: rpc_Insert_def rpc_Search_def rpc_GetPermissions_def Let_def intro!: same_gated split: option.split sum.split)

lemma serve_idle: "q = GetCACert \<or> (\<exists>h. q = LookupWrap h) \<Longrightarrow> same_stores c (snd (serve P en q c))"
  by (auto simp: rpc_GetCACert_def rpc_LookupWrap_def split: sum.split prod.split)

lemma serve_activation:
  "\<exists>ts. c_tokens (snd (serve P en (ReportActivation t) c)) = ts \<and> same_stores (c\<lparr>c_tokens := ts\<rparr>) (snd (serve P en (ReportActivation t) c)) \<and>
     (let v = snd (Validate (en_clock en 1) (en_clock en 2) t (c_tokens c)) in
      ts = v \<or> (\<exists>u. ts = snd (MarkActivated (en_fault en 0) (en_clock en 3) u v)))"
proof -
  let ?b = "\<lambda>user c. case MarkActivated (en_fault en 0) (en_clock en 3) user (c_tokens c) of
         (Inl e, ts) \<Rightarrow> refuse en ''report_activation'' None user ''error'' Internal (TokenErr e) (c\<lparr>c_tokens := ts\<rparr>)
       | (Inr _, ts) \<Rightarrow> finish en ''report_activation'' None user 0 ''success'' None (Inr ()) (c\<lparr>c_tokens := ts\<rparr>)"
  have b: "c_tokens (snd (?b u c')) = snd (MarkActivated (en_fault en 0) (en_clock en 3) u (c_tokens c')) \<and>
      same_stores (c'\<lparr>c_tokens := c_tokens (snd (?b u c'))\<rparr>) (snd (?b u c'))" for u c'
    by (auto simp: same_stores_def refuse_def finish_def split: prod.split sum.split)
  show ?thesis
    using authenticated_cases [of en t c "''report_activation''" None ?b]
  proof (elim disjE exE conjE)
    fix e ts assume "Validate (en_clock en 1) (en_clock en 2) t (c_tokens c) = (Inl e, ts)"
      "authenticated en ''report_activation'' None t ?b c = refuse en ''report_activation'' None (audit_user c t) (errStatus e) Unauthenticated (TokenErr e) (c\<lparr>c_tokens := ts\<rparr>)"
    then show ?thesis by (simp add: rpc_ReportActivation_def refuse_def finish_def same_stores_def)
  next
    fix u ts assume "Validate (en_clock en 1) (en_clock en 2) t (c_tokens c) = (Inr u, ts)"
      "authenticated en ''report_activation'' None t ?b c = ?b u (c\<lparr>c_tokens := ts\<rparr>)"
    then show ?thesis using b [of u "c\<lparr>c_tokens := ts\<rparr>"] by (auto simp: rpc_ReportActivation_def same_stores_def)
  qed
qed

text \<open>What a request of the data plane never touches: configuration, engine and wiring; and the calls to the engine only grow.\<close>

definition wired :: "console \<Rightarrow> console \<Rightarrow> bool" where
  "wired c c' \<longleftrightarrow> c_cfg c' = c_cfg c \<and> c_engine c' = c_engine c \<and> c_memberDir c' = c_memberDir c \<and> c_inviteRedeem c' = c_inviteRedeem c \<and>
     c_memberAct c' = c_memberAct c \<and> (\<exists>ks. c_calls c' = c_calls c @ ks)"

lemma wired_refl [simp]: "wired c c"
  by (simp add: wired_def)

lemma wired_trans: "wired c d \<Longrightarrow> wired d e \<Longrightarrow> wired c e"
  by (auto simp: wired_def)

lemma wired_stores [simp]: "wired c (c'\<lparr>c_tokens := ts\<rparr>) \<longleftrightarrow> wired c c'" "wired c (c'\<lparr>c_invites := iv\<rparr>) \<longleftrightarrow> wired c c'"
  "wired c (c'\<lparr>c_members := ms\<rparr>) \<longleftrightarrow> wired c c'"
  by (simp_all add: wired_def)

lemma wired_finish [simp]: "wired c (snd (refuse en m k u st code d c')) \<longleftrightarrow> wired c c'" "wired c (snd (finish en m k u n st err r c')) \<longleftrightarrow> wired c c'"
  by (simp_all add: refuse_def finish_def emit_def Audit_Log_def wired_def split: option.split)

lemma wired_calls: "wired c c' \<Longrightarrow> wired c (calls k c')"
  by (auto simp: wired_def calls_def)

lemma wired_authenticated:
  assumes "\<And>u ts. wired c (snd (body u (c\<lparr>c_tokens := ts\<rparr>)))"
  shows "wired c (snd (authenticated en m k t body c))"
  using authenticated_cases [of en t c m k body] assms by (elim disjE exE conjE) simp_all

lemma wired_gated:
  assumes "\<And>u key ts. wired c (snd (body u key (c\<lparr>c_tokens := ts\<rparr>)))"
  shows "wired c (snd (gated en m k t body c))"
  using gated_cases [of en t c m k body] assms by (elim disjE exE conjE) simp_all

lemma wired_bundle: "wired c d \<Longrightarrow> buildBundle P en t d = (r, c') \<Longrightarrow> wired c c'"
  by (auto simp: buildBundle_def Let_def intro: wired_calls split: option.splits sum.splits)

lemma serve_wired: "wired c (snd (serve P en q c))"
proof (cases q)
  case (GetCentroids f t)
  have "wired c (snd (rpc_GetCentroids en f t c))"
    unfolding rpc_GetCentroids_def
    by (rule wired_authenticated) (auto simp: Let_def wired_calls split: prod.split option.split sum.split)
  then show ?thesis using GetCentroids by (simp add: case_prod_unfold)
next
  case (GetAgentManifest t)
  have "wired c (snd (rpc_GetAgentManifest P en t c))"
    unfolding rpc_GetAgentManifest_def
    by (rule wired_gated) (auto elim!: wired_bundle [rotated] split: prod.split sum.split)
  then show ?thesis using GetAgentManifest by simp
qed (auto simp: rpc_Insert_def rpc_Search_def rpc_GetPermissions_def rpc_ReportActivation_def rpc_GetCACert_def rpc_LookupWrap_def rpc_Unwrap_def Let_def wired_calls
   intro!: wired_gated wired_authenticated split: option.split sum.split prod.split)

text \<open>
  Redemption: nothing, or the invite store alone, or the invite store and the registry, and then
  the reply is the released token exactly when the activation went through.
\<close>

lemma rpc_Unwrap_cases:
  assumes "rpc_Unwrap en h c = (r, c')"
  obtains (idle) e where "r = Inl e" "same_stores c c'"
  | (refused) e iv where "r = Inl (mapInviteError e)" "Unwrap (en_fault en 0) (en_clock en 2) h (c_invites c) = (Inl e, iv)"
      "same_stores (c\<lparr>c_invites := iv\<rparr>) c'"
  | (burnt) tok mid iv e ms where "r = Inl (Internal, ActivateErr e)" "Unwrap (en_fault en 0) (en_clock en 2) h (c_invites c) = (Inr (tok, mid), iv)"
      "Activate (en_fault en 1) mid (c_members c) = (Inl e, ms)" "same_stores (c\<lparr>c_invites := iv, c_members := ms\<rparr>) c'"
  | (released) tok mid iv ms b where "r = Inr (tok, mid)" "Unwrap (en_fault en 0) (en_clock en 2) h (c_invites c) = (Inr (tok, mid), iv)"
      "Activate (en_fault en 1) mid (c_members c) = (Inr (), ms)" "same_stores (c\<lparr>c_invites := iv, c_members := ms\<rparr>) c'"
      "Lookup h inviteCreationPath (en_clock en 1) (c_invites c) = Inr b"
      "c_memberDir c \<Longrightarrow> \<not> (snd (snd (LookupByEmail (cb_Email b) (c_members c))) \<and> fst (snd (LookupByEmail (cb_Email b) (c_members c))) = StatusDisabled)"
proof -
  consider (off) "\<not> c_inviteRedeem c \<or> \<not> c_memberAct c"
    | (gate) e where "c_inviteRedeem c" "c_memberAct c" "Lookup h inviteCreationPath (en_clock en 1) (c_invites c) = Inl e"
    | (found) b where "c_inviteRedeem c" "c_memberAct c" "Lookup h inviteCreationPath (en_clock en 1) (c_invites c) = Inr b"
    by (cases "Lookup h inviteCreationPath (en_clock en 1) (c_invites c)") auto
  then show ?thesis
  proof cases
    case off
    with assms idle show ?thesis by (auto simp: rpc_Unwrap_def refuse_def finish_def same_stores_def)
  next
    case gate
    with assms idle show ?thesis by (auto simp: rpc_Unwrap_def refuse_def finish_def same_stores_def split: prod.splits)
  next
    case (found b)
    let ?l = "LookupByEmail (cb_Email b) (c_members c)" and ?u = "Unwrap (en_fault en 0) (en_clock en 2) h (c_invites c)"
    obtain i st ok where L: "?l = (i, st, ok)" by (cases ?l rule: prod_cases3)
    show ?thesis
    proof (cases "c_memberDir c \<and> snd (snd ?l) \<and> fst (snd ?l) = StatusDisabled")
      case True
      with assms found idle show ?thesis by (auto simp: rpc_Unwrap_def refuse_def finish_def same_stores_def case_prod_unfold Let_def)
    next
      case False
      then have b: "(r, c') = (case ?u of
            (Inl e, iv) \<Rightarrow> (case mapInviteError e of (code, d) \<Rightarrow> refuse en ''unwrap'' None (cb_Email b) (inviteErrStatus code) code d (c\<lparr>c_invites := iv\<rparr>))
          | (Inr (token, memberID), iv) \<Rightarrow>
              (case Activate (en_fault en 1) memberID (c_members c) of
                 (Inl e, ms) \<Rightarrow> refuse en ''unwrap'' None (cb_Email b) ''error'' Internal (ActivateErr e) (c\<lparr>c_invites := iv, c_members := ms\<rparr>)
               | (Inr _, ms) \<Rightarrow> finish en ''unwrap'' None (cb_Email b) 1 ''success'' None (Inr (token, memberID)) (c\<lparr>c_invites := iv, c_members := ms\<rparr>)))"
        using assms found L unfolding rpc_Unwrap_def by (auto simp: Let_def)
      show ?thesis
      proof (cases ?u)
        case (Pair x iv)
        show ?thesis
        proof (cases x)
          case (Inl e)
          then show ?thesis using refused [of e iv] b Pair by (simp add: refuse_def finish_def same_stores_def split: prod.splits)
        next
          case (Inr a)
          obtain tok mid y ms where q: "a = (tok, mid)" "Activate (en_fault en 1) mid (c_members c) = (y, ms)"
            by (cases a; cases "Activate (en_fault en 1) (snd a) (c_members c)") auto
          show ?thesis
          proof (cases y)
            case L: (Inl e)
            then show ?thesis using burnt [of e tok mid iv ms] b Pair Inr q by (simp add: refuse_def finish_def same_stores_def)
          next
            case R: (Inr z)
            then show ?thesis using released [of tok mid iv ms b] b Pair Inr q found False by (simp add: finish_def same_stores_def)
          qed
        qed
      qed
    qed
  qed
qed

end
