(* ===== verification/Data_Plane_Properties.thy ===== *)
theory Data_Plane_Properties
  imports Data_Plane_Frame
begin

text \<open>
  What the data plane promises to the people whose memory it serves: who is answered, with which
  scope a search runs, where a capture goes, and when a sealed token is released.
\<close>

subsection \<open>Capture and recall\<close>

lemma auto_capture:
  assumes l: "groups_live s" and ok: "CaptureTagSet s u [] = Inr tags"
  shows "tags \<noteq> [] \<and> distinct tags \<and> set tags = {t. top_write (gs_view s) u t}"
proof -
  have "tags = topMostDirectWriteLocked s u" "tags \<noteq> []" using ok by (auto simp: CaptureTagSet_def Let_def split: if_splits)
  with topMost_set [OF live_inv [OF l], of u] show ?thesis by simp
qed

lemma targets_iff: "groups_live s \<Longrightarrow> g \<in> set (CaptureTargets s u) \<longleftrightarrow> can_write (gs_view s) u g"
  using directWrite_set [OF live_inv, of s u] by (simp add: CaptureTargets_def)

lemma search_scope_nonempty: "search_scope s key \<noteq> []"
  by (simp add: search_scope_def Let_def)

lemma search_scope_mem: "t \<in> set (search_scope s key) \<Longrightarrow> t = publicOnlyScopeSentinel \<or> t \<in> set (RecallScope s key)"
  by (auto simp: search_scope_def Let_def split: if_splits)

lemma rpc_Search_ok:
  assumes "rpc_Search P en q c = (Inr hits, c')"
  shows "\<exists>user ts key row eng raw. Validate (en_clock en 1) (en_clock en 2) (sq_token q) (c_tokens c) = (Inr user, ts) \<and>
    resolveMemberAccess c user = Inr (key, row) \<and> c_engine c = Some eng \<and>
    eng_Search eng (c_calls c) (sq_vector q) (sint (sq_top_k q)) (search_scope (c_groups c) key) = Inr raw \<and>
    hits = map (\<lambda>h. h\<lparr>sh_Metadata := openMeta P (c_cfg c) (sh_Metadata h)\<rparr>) raw \<and>
    c_calls c' = c_calls c @ [CallSearch (sq_vector q) (sint (sq_top_k q)) (search_scope (c_groups c) key)]"
proof -
  let ?b = "\<lambda>user key c. case getEngine c of
         None \<Rightarrow> refuse en ''search'' (Some (sq_top_k q)) user ''error'' FailedPrecondition runespace_not_configured c
       | Some eng \<Rightarrow>
           (let scope = search_scope (c_groups c) key;
                r = eng_Search eng (c_calls c) (sq_vector q) (sint (sq_top_k q)) scope;
                c = calls (CallSearch (sq_vector q) (sint (sq_top_k q)) scope) c
            in case r of
              Inl e \<Rightarrow> refuse en ''search'' (Some (sq_top_k q)) user ''error'' Internal (EngineErr e) c
            | Inr hits \<Rightarrow>
                (let out = map (\<lambda>h. h\<lparr>sh_Metadata := openMeta P (c_cfg c) (sh_Metadata h)\<rparr>) hits
                 in finish en ''search'' (Some (sq_top_k q)) user (length out) ''success'' None (Inr out) c))"
  have "gated en ''search'' (Some (sq_top_k q)) (sq_token q) ?b c = (Inr hits, c')" using assms by (simp add: rpc_Search_def)
  then show ?thesis using gated_cases [of en "sq_token q" c "''search''" "Some (sq_top_k q)" ?b]
    by (elim disjE exE conjE)
      (auto simp: refuse_def finish_def Let_def getEngine_def split: option.splits sum.splits)
qed

lemma rpc_Insert_cases:
  assumes "rpc_Insert en q c = (r, c')"
  shows "c_calls c' = c_calls c \<and> isl r \<or>
    (\<exists>user ts key row tags. Validate (en_clock en 1) (en_clock en 2) (iq_token q) (c_tokens c) = (Inr user, ts) \<and>
      resolveMemberAccess c user = Inr (key, row) \<and> CaptureTagSet (c_groups c) key [] = Inr tags \<and>
      c_calls c' = c_calls c @ [CallInsert (item_of_request q) tags])"
proof -
  let ?b = "\<lambda>user key c. case CaptureTagSet (c_groups c) key [] of
         Inl e \<Rightarrow> refuse en ''insert'' None user ''denied'' (mapGroupsError e) (GroupErr e) c
       | Inr tags \<Rightarrow>
           (case getEngine c of
              None \<Rightarrow> refuse en ''insert'' None user ''error'' FailedPrecondition runespace_not_configured c
            | Some eng \<Rightarrow>
                (let item = item_of_request q; r = eng_InsertPreEncrypted eng (c_calls c) item tags;
                     c = calls (CallInsert item tags) c
                 in case r of
                   Some e \<Rightarrow> refuse en ''insert'' None user ''error'' Internal (EngineErr e) c
                 | None \<Rightarrow> finish en ''insert'' None user 1 ''success'' None (Inr (iq_id q)) c))"
  have "gated en ''insert'' None (iq_token q) ?b c = (r, c')" using assms by (simp add: rpc_Insert_def)
  then show ?thesis using gated_cases [of en "iq_token q" c "''insert''" None ?b]
    by (elim disjE exE conjE)
      (auto simp: refuse_def finish_def Let_def split: option.splits sum.splits)
qed

subsection \<open>The member gate\<close>

lemma resolve_disabled:
  assumes "members_inv (c_members c)" "c_memberDir c" "members_view (c_members c) i = Some m" "m_Status m = StatusDisabled"
  shows "\<exists>d. resolveMemberAccess c (m_Email m) = Inl d"
proof -
  have "m_ID m = i" by (rule members_view_key [OF assms(1,3)])
  with byEmail_iff [OF assms(1), of "m_Email m" m] assms(3)
  have "deref (ms_cells (c_members c)) (ms_byEmail (c_members c)) (m_Email m) = Some m" by simp
  then show ?thesis using assms by (auto simp: resolveMemberAccess_def LookupByEmail_def deref_def)
qed

lemma resolve_uuid:
  assumes inv: "members_inv (c_members c)" and d: "c_memberDir c" and u: "isCanonicalUUID u"
    and n: "\<forall>i m. members_view (c_members c) i = Some m \<longrightarrow> m_Email m \<noteq> u"
  shows "\<exists>d. resolveMemberAccess c u = Inl d"
proof -
  have "deref (ms_cells (c_members c)) (ms_byEmail (c_members c)) u = None"
    using byEmail_iff [OF inv, of u] n by (metis option.exhaust)
  then have "map_of (ms_byEmail (c_members c)) u = None" by (simp add: deref_def)
  then show ?thesis using d u by (simp add: resolveMemberAccess_def LookupByEmail_def validateID_def)
qed

lemma gated_denied:
  assumes "Validate (en_clock en 1) (en_clock en 2) t (c_tokens c) = (Inr u, ts)" "resolveMemberAccess c u = Inl d"
  shows "gated en m k t body c = refuse en m k u ''denied'' PermissionDenied d (c\<lparr>c_tokens := ts\<rparr>)"
  using assms by (simp add: gated_def authenticated_def)

subsection \<open>Redemption\<close>

lemma Lookup_Inr:
  assumes "Lookup h path now s = Inr b"
  shows "\<exists>iv. invites_view s h = Some iv \<and> b = clearBundle iv \<and> iv_CreationPath iv = path"
  using assms invites_view_at [of s h] by (auto simp: Lookup_def Let_def split: option.splits if_splits)

lemma clearBundle_sel [simp]: "cb_Email (clearBundle iv) = iv_Email iv"
  by (simp add: clearBundle_def)

lemma Activate_Inr:
  assumes inv: "members_inv s" and ok: "Activate f i s = (Inr (), s')"
  shows "\<exists>m. members_view s i = Some m \<and> m_Status m \<in> {StatusInvited, StatusActive} \<and>
    members_view s' = (members_view s)(i \<mapsto> m\<lparr>m_Status := StatusActive\<rparr>)"
proof (cases "map_of (ms_byID s) i")
  case None
  with ok show ?thesis by (simp add: Activate_def)
next
  case (Some p)
  let ?m = "ms_cells s ! p"
  note v = members_view_at [OF Some]
  show ?thesis
  proof (cases "m_Status ?m = StatusActive")
    case True
    then have "?m\<lparr>m_Status := StatusActive\<rparr> = ?m" by (cases ?m) simp
    with True ok v show ?thesis by (simp add: Activate_def Some Let_def fun_upd_idem)
  next
    case False
    with ok Some have i: "m_Status ?m = StatusInvited" "commitUpdate f p (?m\<lparr>m_Status := StatusActive\<rparr>) s = (Inr (), s')"
      by (auto simp: Activate_def Let_def split: if_splits)
    with v commitUpdate_view [OF inv Some i(2)] show ?thesis by simp
  qed
qed

lemma Activate_Inl: "Activate f i s = (Inl e, s') \<Longrightarrow> s' = s"
  by (auto simp: Activate_def Let_def commitUpdate_def split: option.splits if_splits sum.splits)

lemma lookup_disabled:
  assumes "members_inv s" "members_view s i = Some m"
  shows "LookupByEmail (m_Email m) s = (m_ID m, m_Status m, True)"
proof -
  have "m_ID m = i" by (rule members_view_key [OF assms])
  with byEmail_iff [OF assms(1), of "m_Email m" m] assms(2)
  have "deref (ms_cells s) (ms_byEmail s) (m_Email m) = Some m" by simp
  then show ?thesis by (auto simp: LookupByEmail_def deref_def)
qed

lemma unwrap_released:
  assumes inv: "invites_inv T (c_invites c)" "members_inv (c_members c)" and t: "\<forall>i. time_ok (en_clock en i)"
    and r: "rpc_Unwrap en h c = (Inr (tok, mid), c')"
  shows "\<exists>iv m. invites_view (c_invites c) h = Some iv \<and> iv_Status iv = StatusPending \<and> iv_CreationPath iv = inviteCreationPath \<and>
      tok = iv_TokenValue iv \<and> mid = iv_MemberID iv \<and> invites_view (c_invites c') h = Some (voided StatusConsumed iv) \<and>
      members_view (c_members c) mid = Some m \<and> m_Status m \<in> {StatusInvited, StatusActive} \<and>
      members_view (c_members c') = (members_view (c_members c))(mid \<mapsto> m\<lparr>m_Status := StatusActive\<rparr>)"
  using r
proof (cases rule: rpc_Unwrap_cases)
  case (released tok' mid' iv ms b)
  then have u: "Unwrap (en_fault en 0) (en_clock en 2) h (c_invites c) = (Inr (tok, mid), iv)"
    "Activate (en_fault en 1) mid (c_members c) = (Inr (), ms)" "c_invites c' = iv" "c_members c' = ms"
    by (simp_all add: same_stores_def)
  obtain i where i: "invites_view (c_invites c) h = Some i" "statusGateLocked i (en_clock en 2) = None" "tok = iv_TokenValue i"
      "mid = iv_MemberID i" "invites_view iv = (invites_view (c_invites c))(h \<mapsto> voided StatusConsumed i)"
    using Unwrap_step [OF inv(1) t [rule_format, of 2] refl, of "en_fault en 0" h] u(1) by auto
  moreover have "iv_Status i = StatusPending" using gate_pending [OF view_invite_ok [OF inv(1) i(1)]] i(2) by simp
  moreover have "iv_CreationPath i = inviteCreationPath" using Lookup_Inr [OF released(5)] i(1) by auto
  ultimately show ?thesis using Activate_Inr [OF inv(2) u(2)] u(3,4) by auto
qed simp_all

lemma unwrap_disabled:
  assumes inv: "members_inv (c_members c)" and d: "c_memberDir c" "invites_view (c_invites c) h = Some iv"
    "members_view (c_members c) i = Some m" "m_Email m = iv_Email iv" "m_Status m = StatusDisabled"
  shows "isl (fst (rpc_Unwrap en h c)) \<and> c_invites (snd (rpc_Unwrap en h c)) = c_invites c \<and> c_members (snd (rpc_Unwrap en h c)) = c_members c"
proof -
  have l: "LookupByEmail (iv_Email iv) (c_members c) = (m_ID m, StatusDisabled, True)"
    using lookup_disabled [OF inv d(3)] d by simp
  have "cb_Email b = iv_Email iv" if "Lookup h inviteCreationPath (en_clock en 1) (c_invites c) = Inr b" for b
    using Lookup_Inr [OF that] d(2) by auto
  then show ?thesis using l d(1) by (auto simp: rpc_Unwrap_def Let_def refuse_def finish_def split: sum.split prod.split)
qed

subsection \<open>Centroid frames\<close>

fun frame_items :: "centroid_chunk \<Rightarrow> (32 word \<times> vec) list" where
  "frame_items (ChunkHeader _) = []"
| "frame_items (ChunkBatch b) = b"

lemma map_window: "i \<le> e \<Longrightarrow> map (\<lambda>j. f (i + j)) [0..<e - i] = map f [i..<e]"
  by (rule nth_equalityI) simp_all

lemma batches_items: "concat (map frame_items (centroid_batches i vs)) = map (\<lambda>j. (of_nat j, vs ! j)) [i..<length vs]"
proof (induction i vs rule: centroid_batches.induct)
  case (1 i vs)
  show ?case
  proof (cases "i < length vs")
    case True
    let ?e = "min (i + centroidBatchSize) (length vs)"
    have "i \<le> ?e" using True by simp
    then have "concat (map frame_items (centroid_batches i vs)) =
        map (\<lambda>j. (of_nat j, vs ! j)) [i..<?e] @ map (\<lambda>j. (of_nat j, vs ! j)) [i + centroidBatchSize..<length vs]"
      using True 1 [OF True refl] map_window [of i ?e "\<lambda>j. (of_nat j, vs ! j)"] by (subst centroid_batches.simps) (simp add: Let_def)
    also have "\<dots> = map (\<lambda>j. (of_nat j, vs ! j)) ([i..<?e] @ [?e..<length vs])" by (simp add: min_def)
    also have "[i..<?e] @ [?e..<length vs] = [i..<length vs]" using True by (metis le_add_diff_inverse min.cobounded2 upt_add_eq_append \<open>i \<le> ?e\<close>)
    finally show ?thesis .
  qed (simp add: centroid_batches.simps)
qed

lemma batches_size: "b \<in> set (centroid_batches i vs) \<Longrightarrow> 1 \<le> length (frame_items b) \<and> length (frame_items b) \<le> centroidBatchSize"
proof (induction i vs rule: centroid_batches.induct)
  case (1 i vs)
  show ?case
  proof (cases "i < length vs")
    case True
    let ?e = "min (i + centroidBatchSize) (length vs)"
    have "b = ChunkBatch (map (\<lambda>j. (of_nat (i + j), vs ! (i + j))) [0..<?e - i]) \<or> b \<in> set (centroid_batches (i + centroidBatchSize) vs)"
      using 1(2) True centroid_batches.simps [of i vs] by (simp add: Let_def)
    then show ?thesis using 1(1) [OF True refl] True by (auto simp: centroidBatchSize_def)
  qed (use 1(2) centroid_batches.simps [of i vs] in simp)
qed

lemma send_frames_prefix:
  "send_frames f n xs = (out, e) \<Longrightarrow> out = take (length out) xs \<and> (e = None \<longrightarrow> out = xs) \<and> (e \<noteq> None \<longrightarrow> length out < length xs)"
proof (induction xs arbitrary: n out e)
  case (Cons x xs)
  show ?case
  proof (cases "f n")
    case None
    obtain out' e' where o: "send_frames f (Suc n) xs = (out', e')" by (cases "send_frames f (Suc n) xs")
    with Cons(1) [OF o] Cons(2) None show ?thesis by auto
  next
    case (Some a)
    with Cons(2) have "out = []" "e = Some a" by simp_all
    then show ?thesis by simp
  qed
qed simp

lemma send_frames_none: "send_frames (\<lambda>_. None) n xs = (xs, None)"
  by (induction xs arbitrary: n) simp_all

lemma frame_ids:
  assumes "length vs \<le> 2 ^ 32"
  shows "map (unat \<circ> fst) (concat (map frame_items (centroid_batches 0 vs))) = [0..<length vs]"
proof -
  have "unat (of_nat j :: 32 word) = j" if "j \<in> set [0..<length vs]" for j
    using that assms by (simp add: unat_of_nat take_bit_nat_def)
  then show ?thesis unfolding batches_items by (simp add: comp_def cong: map_cong) (rule map_idI, simp)
qed

lemma rpc_GetCentroids_ok:
  assumes "rpc_GetCentroids en f t c = (Inr (out, e), c')"
  shows "\<exists>eng cs. c_engine c = Some eng \<and> eng_Centroids eng (c_calls c) = Inr cs \<and> send_frames f 0 (centroid_frames cs) = (out, e)"
proof -
  let ?b = "\<lambda>user c. case getEngine c of
         None \<Rightarrow> refuse en ''get_centroids'' None user ''error'' FailedPrecondition runespace_not_configured c
       | Some eng \<Rightarrow>
           (let r = eng_Centroids eng (c_calls c); c = calls CallCentroids c in
            case r of
              Inl e \<Rightarrow> refuse en ''get_centroids'' None user ''error'' Internal (EngineErr e) c
            | Inr cs \<Rightarrow>
                (case send_frames f 0 (centroid_frames cs) of
                   (out, Some e) \<Rightarrow> finish en ''get_centroids'' None user 0 ''error'' (Some (Text e)) (Inr (out, Some e)) c
                 | (out, None) \<Rightarrow> finish en ''get_centroids'' None user (length (cs_Vectors cs)) ''success'' None (Inr (out, None)) c))"
  have "authenticated en ''get_centroids'' None t ?b c = (Inr (out, e), c')" using assms by (simp add: rpc_GetCentroids_def)
  then show ?thesis using authenticated_cases [of en t c "''get_centroids''" None ?b]
    by (elim disjE exE conjE)
      (auto simp: refuse_def finish_def Let_def getEngine_def split: option.splits sum.splits prod.splits)
qed

subsection \<open>Sealed metadata\<close>

text \<open>
  What is relied on of the primitives: blocks of sixteen bytes, a derivation of the length asked for
  that works on the keys of this console, and a JSON codec that reads back an envelope of ASCII texts.
\<close>

definition ascii :: "string \<Rightarrow> bool" where
  "ascii s \<longleftrightarrow> list_all (\<lambda>ch. (of_char ch :: nat) < 128) s"

definition prims_ok :: "crypto_prims \<Rightarrow> bool" where
  "prims_ok P \<longleftrightarrow> (\<forall>key b. length (cp_aes P key b) = 16) \<and>
     (\<forall>s i. \<exists>d. cp_hkdf P s i dekLen = Some d \<and> length d = dekLen) \<and>
     (\<forall>a ct. ascii a \<longrightarrow> ascii ct \<longrightarrow> cp_marshal P (a, ct) \<noteq> [] \<and> cp_unmarshal P (cp_marshal P (a, ct)) = Some (a, ct))"

lemma b64_encode_ascii: "ascii (b64_encode b64_std True bs)"
  using b64std.encode_no_break [of _ True bs] by (simp add: ascii_def list_all_iff)

lemma hex_ascii: "ascii (hex_bytes bs)"
proof -
  have "\<forall>n \<in> set [0..<16]. (of_char (hex_digit n) :: nat) < 128" by code_simp
  then have d: "(of_char (hex_digit n) :: nat) < 128" if "n < 16" for n using that by simp
  have "ascii (hex_byte b)" for b :: byte
    using d [of "unat b div 16"] d [of "unat b mod 16"] unsigned_less [where 'b = 8 and 'a = nat, of b]
    by (simp add: ascii_def hex_byte_def div_less_iff_less_mult)
  then show ?thesis by (induction bs) (simp_all add: ascii_def hex_bytes_def)
qed

lemma agentID_ascii: "ascii (AgentIDFromToken h t)"
  using hex_ascii [of "h (bytes_of t)"] by (auto simp: AgentIDFromToken_def ascii_def list_all_iff dest: in_set_takeD)

lemma seal_open:
  assumes P: "prims_ok P" and r: "rnd \<noteq> None" and s: "cfg_TeamSecret cfg \<noteq> []"
  shows "\<exists>stored. sealMeta P rnd cfg token meta = Inr stored \<and> openMeta P cfg stored = meta"
proof (cases "meta = []")
  case False
  let ?id = "AgentIDFromToken (cp_sha256 P) token"
  obtain dek where d: "cp_hkdf P (bytes_of (cfg_TeamSecret cfg)) (bytes_of ?id) dekLen = Some dek" "length dek = dekLen"
    using P unfolding prims_ok_def by blast
  have k: "DeriveAgentKey (cp_hkdf P) (cfg_TeamSecret cfg) ?id = Inr dek" using s d by (simp add: DeriveAgentKey_def)
  have "\<forall>b. length (cp_aes P dek b) = 16" using P by (simp add: prims_ok_def)
  with EncryptMetadata_Inr [of "cp_aes P" dek rnd "bytes_of meta"] r d(2) obtain raw where
    e: "raw \<noteq> []" "EncryptMetadata (cp_aes P) rnd (bytes_of meta) dek = Inr (b64_encode b64_std True raw)"
      "DecryptMetadata (cp_aes P) (b64_encode b64_std True raw) dek = Inr (bytes_of meta)" by auto
  let ?ct = "b64_encode b64_std True raw"
  have j: "cp_marshal P (?id, ?ct) \<noteq> []" "cp_unmarshal P (cp_marshal P (?id, ?ct)) = Some (?id, ?ct)"
    using P agentID_ascii b64_encode_ascii unfolding prims_ok_def by blast+
  have "sealMeta P rnd cfg token meta = Inr (cp_marshal P (?id, ?ct))" using False s k e by (simp add: sealMeta_def)
  moreover have "openMeta P cfg (cp_marshal P (?id, ?ct)) = meta" using j k e b64_encode_nonempty [of raw] by (simp add: openMeta_def)
  ultimately show ?thesis by blast
qed (simp add: sealMeta_def openMeta_def)

subsection \<open>What a request can change\<close>

definition plane_ok :: "console \<Rightarrow> bool" where
  "plane_ok c \<longleftrightarrow> tokens_live (c_tokens c) \<and> groups_live (c_groups c) \<and> members_live (c_members c) \<and> invites_live (c_invites c)"

definition inactive :: "token option \<Rightarrow> token option" where
  "inactive = map_option (\<lambda>k. k\<lparr>tk_ActivatedAt := []\<rparr>)"

definition plane_step :: "console \<Rightarrow> console \<Rightarrow> bool" where
  "plane_step c c' \<longleftrightarrow> plane_ok c' \<and> c_groups c' = c_groups c \<and>
     (\<forall>u. inactive (creds (c_tokens c') u) = inactive (creds (c_tokens c) u)) \<and>
     (\<forall>i. members_view (c_members c') i = members_view (c_members c) i \<or>
        (\<exists>m. members_view (c_members c) i = Some m \<and> m_Status m = StatusInvited \<and>
           members_view (c_members c') i = Some (m\<lparr>m_Status := StatusActive\<rparr>))) \<and>
     (\<forall>h iv. invites_view (c_invites c) h = Some iv \<longrightarrow> (\<exists>iv'. invites_view (c_invites c') h = Some iv' \<and> moves\<^sup>*\<^sup>* iv iv'))"

lemma plane_step_tokens:
  assumes "plane_ok c" "same_stores (c\<lparr>c_tokens := ts\<rparr>) c'" "tokens_live ts" "\<And>u. inactive (creds ts u) = inactive (creds (c_tokens c) u)"
  shows "plane_step c c'"
  using assms by (auto simp: plane_step_def plane_ok_def same_stores_def)

lemma MarkActivated_inactive:
  assumes "tokens_live s"
  shows "tokens_live (snd (MarkActivated f now u s)) \<and> (\<forall>u'. inactive (creds (snd (MarkActivated f now u s)) u') = inactive (creds s u'))"
proof -
  have r: "t_refines f (TActivate now u) s (snd (MarkActivated f now u s))" by (rule MarkActivated_refines [OF assms])
  have "inactive (token_spec (TActivate now u) (creds s) u') = inactive (creds s u')" for u'
    by (cases "creds s u") (auto simp: inactive_def)
  with r show ?thesis by (auto simp: t_refines_def)
qed

lemma plane_step_unwrap:
  assumes ok: "plane_ok c" and t: "\<forall>i. time_ok (en_clock en i)" and r: "rpc_Unwrap en h c = (r, c')"
  shows "plane_step c c'"
proof -
  from ok obtain T where inv: "invites_inv T (c_invites c)" "members_inv (c_members c)" and db: "is_db (c_invites c) \<noteq> None" "ms_db (c_members c) \<noteq> None"
    by (auto simp: plane_ok_def invites_live_def members_live_def)
  let ?u = "Unwrap (en_fault en 0) (en_clock en 2) h (c_invites c)"
  have g: "good_step (max T (en_clock en 2)) (c_invites c) (snd ?u)"
    using Unwrap_step [OF inv(1) t [rule_format, of 2] refl] by blast
  then have l: "invites_live (snd ?u)" using db by (auto simp: good_step_def invites_live_def)
  have m: "members_live (snd (Activate (en_fault en 1) mid (c_members c))) \<and>
     (\<forall>i. members_view (snd (Activate (en_fault en 1) mid (c_members c))) i = members_view (c_members c) i \<or>
        (\<exists>m. members_view (c_members c) i = Some m \<and> m_Status m = StatusInvited \<and>
           members_view (snd (Activate (en_fault en 1) mid (c_members c))) i = Some (m\<lparr>m_Status := StatusActive\<rparr>)))" for mid
  proof -
    have "refines_step (en_fault en 1) (OpActivate mid) (c_members c) (snd (Activate (en_fault en 1) mid (c_members c)))"
      by (rule Activate_refines [OF inv(2)])
    then have "members_live (snd (Activate (en_fault en 1) mid (c_members c)))" using db(2) by (simp add: refines_step_def members_live_def)
    moreover obtain y ms where a: "Activate (en_fault en 1) mid (c_members c) = (y, ms)" by (cases "Activate (en_fault en 1) mid (c_members c)")
    moreover have "members_view ms i = members_view (c_members c) i \<or>
        (\<exists>m. members_view (c_members c) i = Some m \<and> m_Status m = StatusInvited \<and> members_view ms i = Some (m\<lparr>m_Status := StatusActive\<rparr>))" for i
    proof (cases y)
      case (Inl e)
      with a have "ms = c_members c" using Activate_Inl by blast
      then show ?thesis by simp
    next
      case (Inr z)
      with a have "Activate (en_fault en 1) mid (c_members c) = (Inr (), ms)" by simp
      from Activate_Inr [OF inv(2) this] obtain m where m: "members_view (c_members c) mid = Some m" "m_Status m \<in> {StatusInvited, StatusActive}"
        "members_view ms = (members_view (c_members c))(mid \<mapsto> m\<lparr>m_Status := StatusActive\<rparr>)" by blast
      have "m\<lparr>m_Status := StatusActive\<rparr> = m" if "m_Status m = StatusActive" using that by (cases m) simp
      with m show ?thesis by auto
    qed
    ultimately show ?thesis by simp
  qed
  show ?thesis using r
  proof (cases rule: rpc_Unwrap_cases)
    case idle
    with ok show ?thesis by (auto simp: plane_step_def plane_ok_def same_stores_def)
  next
    case (refused e iv)
    with ok g l show ?thesis by (auto simp: plane_step_def plane_ok_def same_stores_def good_step_def)
  next
    case (burnt tok mid iv e ms)
    with ok g l m [of mid] show ?thesis by (auto simp: plane_step_def plane_ok_def same_stores_def good_step_def)
  next
    case (released tok mid iv ms b)
    with ok g l m [of mid] show ?thesis by (auto simp: plane_step_def plane_ok_def same_stores_def good_step_def)
  qed
qed

lemma serve_plane:
  assumes ok: "plane_ok c" and t: "\<forall>i. time_ok (en_clock en i)"
  shows "plane_step c (snd (serve P en q c))"
proof -
  have V: "tokens_live (snd (Validate n1 n2 x (c_tokens c)))" "creds (snd (Validate n1 n2 x (c_tokens c))) = creds (c_tokens c)" for n1 n2 x
    using Validate_keeps ok by (simp_all add: plane_ok_def)
  consider (bearer) x where "bearer q = Some x" | (idle) "q = GetCACert \<or> (\<exists>h. q = LookupWrap h)"
    | (act) x where "q = ReportActivation x" | (unwrap) h where "q = UnwrapInvite h" by (cases q) auto
  then show ?thesis
  proof cases
    case bearer
    from serve_bearer [OF bearer, of en c P] show ?thesis unfolding validated_def
      by (rule plane_step_tokens [OF ok]) (simp_all add: V)
  next
    case idle
    from serve_idle [OF idle, of c P en] have "same_stores (c\<lparr>c_tokens := c_tokens c\<rparr>) (snd (serve P en q c))" by simp
    then show ?thesis by (rule plane_step_tokens [OF ok]) (use ok in \<open>simp_all add: plane_ok_def\<close>)
  next
    case (act x)
    let ?v = "snd (Validate (en_clock en 1) (en_clock en 2) x (c_tokens c))"
    obtain ts where s: "same_stores (c\<lparr>c_tokens := ts\<rparr>) (snd (serve P en q c))"
      and ts: "ts = ?v \<or> (\<exists>u. ts = snd (MarkActivated (en_fault en 0) (en_clock en 3) u ?v))"
      using serve_activation [of P en x c] act by (auto simp: Let_def)
    have "tokens_live ts \<and> (\<forall>u. inactive (creds ts u) = inactive (creds (c_tokens c) u))"
      using ts V MarkActivated_inactive [of ?v] by metis
    then show ?thesis by (intro plane_step_tokens [OF ok s]) simp_all
  next
    case (unwrap h)
    then show ?thesis using plane_step_unwrap [OF ok t, of h "fst (rpc_Unwrap en h c)"] by simp
  qed
qed

text \<open>Histories of requests: each carries its surroundings; records move along their relations.\<close>

type_synonym plane_event = "crypto_prims \<times> env \<times> rpc"

fun plane_run :: "plane_event \<Rightarrow> console \<Rightarrow> console" where
  "plane_run (P, en, q) c = snd (serve P en q c)"

fun clock_ok :: "plane_event \<Rightarrow> bool" where
  "clock_ok (P, en, q) \<longleftrightarrow> (\<forall>i. time_ok (en_clock en i))"

inductive activates :: "member \<Rightarrow> member \<Rightarrow> bool" where
  "m_Status m = StatusInvited \<Longrightarrow> activates m (m\<lparr>m_Status := StatusActive\<rparr>)"

lemma plane_step_member:
  "plane_step c c' \<Longrightarrow> members_view (c_members c') i = members_view (c_members c) i \<or>
     (\<exists>m m'. members_view (c_members c) i = Some m \<and> activates m m' \<and> members_view (c_members c') i = Some m')"
proof -
  assume "plane_step c c'"
  then have "members_view (c_members c') i = members_view (c_members c) i \<or>
     (\<exists>m. members_view (c_members c) i = Some m \<and> m_Status m = StatusInvited \<and>
        members_view (c_members c') i = Some (m\<lparr>m_Status := StatusActive\<rparr>))" by (simp add: plane_step_def)
  then show ?thesis by (blast intro: activates.intros)
qed

lemma plane_event_step: "plane_ok c \<Longrightarrow> clock_ok e \<Longrightarrow> plane_step c (plane_run e c)"
  by (cases e) (simp add: serve_plane)

interpretation plane_invites: lifecycle_store plane_run clock_ok plane_ok "\<lambda>c. invites_view (c_invites c)" moves
  by unfold_locales (use plane_event_step in \<open>auto simp: plane_step_def\<close>)

interpretation plane_members: lifecycle_store plane_run clock_ok plane_ok "\<lambda>c. members_view (c_members c)" activates
proof
  fix c e i m assume "plane_ok c" "clock_ok e" "members_view (c_members c) i = Some m"
  then show "\<exists>m'. members_view (c_members (plane_run e c)) i = Some m' \<and> activates\<^sup>*\<^sup>* m m'"
    using plane_step_member [OF plane_event_step, of c e i] by auto
qed (rule plane_invites.step_inv)

lemma activates_once: "activates\<^sup>*\<^sup>* m m' \<Longrightarrow> m' = m \<or> activates m m'"
proof (induction rule: rtranclp_induct)
  case (step y z)
  then show ?case by (auto simp: activates.simps)
qed simp

lemma plane_run_keeps:
  assumes "plane_ok c" "list_all clock_ok es"
  shows "c_groups (fold plane_run es c) = c_groups c \<and>
    inactive (creds (c_tokens (fold plane_run es c)) u) = inactive (creds (c_tokens c) u) \<and>
    (members_view (c_members c) i = None \<longrightarrow> members_view (c_members (fold plane_run es c)) i = None)"
  using assms
proof (induction es arbitrary: c)
  case (Cons e es)
  then have p: "plane_step c (plane_run e c)" by (simp add: plane_event_step)
  then have s: "plane_ok (plane_run e c)" "c_groups (plane_run e c) = c_groups c" "inactive (creds (c_tokens (plane_run e c)) u) = inactive (creds (c_tokens c) u)"
    "members_view (c_members c) i = None \<longrightarrow> members_view (c_members (plane_run e c)) i = None"
    using plane_step_member [OF p, of i] by (auto simp: plane_step_def)
  with Cons show ?case by (metis fold_simps(2) list.pred_inject(2))
qed simp

subsection \<open>A concrete console\<close>

definition demo_session :: "string \<Rightarrow> token_store" where
  "demo_session u = snd (AddToken TxOk demo_entropy 0 u None (snd (tokens_LoadFromDB (Some []) tokens_NewStore)))"

lemma demo_session_live:
  "tokens_live (demo_session u) \<and> creds (demo_session u) = [u \<mapsto> fresh_token u demo_secret 0 None]"
proof -
  obtain r s0 where s0: "tokens_LoadFromDB (Some []) tokens_NewStore = (r, s0)" by (cases "tokens_LoadFromDB (Some []) tokens_NewStore")
  from tokens_load [OF _ _ s0] have l: "tokens_live s0" "creds s0 = Map.empty" by (auto simp: keyed_def)
  have "t_refines TxOk (TAdd demo_entropy 0 u None) s0 (demo_session u)"
    using AddToken_refines [OF l(1)] by (simp add: demo_session_def s0)
  then show ?thesis by (simp add: t_refines_def demo_newTokenString l(2) unused_def)
qed

lemma Validate_holder:
  assumes l: "tokens_live s" and c: "creds s u = Some k" "\<not> IsExpiredAt k n1"
  shows "\<exists>ts. Validate n1 n2 (tk_Token k) s = (Inr u, ts)"
proof -
  from creds_secret [OF l, of u k "tk_Token k"] c obtain p where
    "map_of (ts_tokens s) (tk_Token k) = Some p" "k = cred (ts_cells s ! p)" "u = tk_User (ts_cells s ! p)" by auto
  with Validate_result [OF l, of n1 n2 "tk_Token k"] c have "fst (Validate n1 n2 (tk_Token k) s) = Inr u" by auto
  then show ?thesis by (cases "Validate n1 n2 (tk_Token k) s") simp
qed

lemma demo_session_valid: "\<exists>ts. Validate n1 n2 demo_secret (demo_session u) = (Inr u, ts)"
  using Validate_holder [of "demo_session u" u "fresh_token u demo_secret 0 None" n1 n2] demo_session_live fresh_forever by simp

definition demo_records :: "(string \<times> string list) list" where
  "demo_records = [(''r1'', [''g1'']), (''r2'', [''g9'']), (''r3'', [])]"

definition demo_tags :: "string \<Rightarrow> string list" where
  "demo_tags i = (case map_of demo_records i of None \<Rightarrow> [] | Some ts \<Rightarrow> ts)"

text \<open>A client that keeps the promise of the scope: untagged records, and those that share a tag.\<close>

definition demo_client :: sdk_client where
  "demo_client = \<lparr>sdk_InsertPreEncrypted = (\<lambda>_ _ _. None), sdk_Centroids = (\<lambda>_. Inr \<lparr>cs_Version = ''v1'', cs_Dim = 1, cs_Preset = ''p'', cs_Vectors = [[1], [2]]\<rparr>),
     sdk_Search = (\<lambda>_ _ _ scope. Inr (map (\<lambda>(i, _). \<lparr>sh_ID = i, sh_Score = 0, sh_Metadata = []\<rparr>)
        (filter (\<lambda>(_, ts). ts = [] \<or> scope = None \<or> list_ex (\<lambda>t. t \<in> set ts) (the scope)) demo_records))),
     sdk_RemoveTag = (\<lambda>_ _. Inr 0), sdk_RetagAll = (\<lambda>_ _ _. Inr 0)\<rparr>"

definition demo_prims :: crypto_prims where
  "demo_prims = \<lparr>cp_aes = (\<lambda>k b. replicate 16 7), cp_sha256 = (\<lambda>b. replicate 32 0), cp_hkdf = (\<lambda>s i n. Some (replicate n 1)),
     cp_marshal = (\<lambda>(a, ct). replicate (length a) CHR ''x'' @ [CHR ''y''] @ a @ ct),
     cp_unmarshal = (\<lambda>s. let n = length (takeWhile (\<lambda>x. x = CHR ''x'') s); r = drop (n + 1) s in Some (take n r, drop n r))\<rparr>"

definition demo_env :: env where
  "demo_env = \<lparr>en_clock = (\<lambda>_. 60 * second), en_fault = (\<lambda>_. TxOk), en_rand = (\<lambda>_. demo_entropy), en_peer = ''127.0.0.1'', en_file = (\<lambda>_. Inr [])\<rparr>"

definition demo_console :: console where
  "demo_console = (NewConsole \<lparr>cfg_TeamSecret = ''secret'', cfg_EmbeddingDim = 1, cfg_TLS_CA = [], cfg_TLS_Cert = ''cert.pem''\<rparr>
     (demo_session ''a@x'') demo_org (Some (crypto_engine 0 demo_client)) (Some []))\<lparr>c_members := members_boot, c_invites := demo_inbox\<rparr>"

lemma demo_console_sel [simp]:
  "c_tokens demo_console = demo_session ''a@x''" "c_groups demo_console = demo_org" "c_memberDir demo_console = False"
  "c_engine demo_console = Some (crypto_engine 0 demo_client)" "c_calls demo_console = []" "c_audit demo_console = Some []"
  "c_members demo_console = members_boot" "c_invites demo_console = demo_inbox"
  by (simp_all add: demo_console_def NewConsole_def)

lemma demo_console_ok: "plane_ok demo_console"
  using demo_session_live demo_live members_boot_live demo_inbox_live by (auto simp: plane_ok_def invites_live_def)

lemma demo_clock: "clock_ok (P, demo_env, q)"
  using demo_times by (simp add: demo_env_def)

subsection \<open>Properties\<close>

text \<open>
  C1. Recall is bounded by the caller's groups and never open. A search that is answered came from
  a valid token whose holder passed the member gate; the engine was asked once, with the vector and
  the number of hits as sent and with exactly the recall scope of that person, or with the sentinel
  alone when that scope is empty, so never without a scope. With an engine that returns
  only records that are untagged or share a tag with the scope, and no record tagged with the
  sentinel, every hit is public or carries a group the caller may read.
\<close>

theorem search_returns_only_readable:
  assumes e: "c_engine c = Some eng"
    and filtered: "\<forall>log v k scope hits. scope \<noteq> [] \<longrightarrow> eng_Search eng log v k scope = Inr hits \<longrightarrow>
      list_all (\<lambda>h. tags (sh_ID h) = [] \<or> (\<exists>t \<in> set scope. t \<in> set (tags (sh_ID h)))) hits"
    and sentinel: "\<forall>i. publicOnlyScopeSentinel \<notin> set (tags i)"
    and ok: "rpc_Search P en q c = (Inr hits, c')"
  shows "\<exists>user key row scope. fst (Validate (en_clock en 1) (en_clock en 2) (sq_token q) (c_tokens c)) = Inr user \<and>
    resolveMemberAccess c user = Inr (key, row) \<and>
    c_calls c' = c_calls c @ [CallSearch (sq_vector q) (sint (sq_top_k q)) scope] \<and> scope \<noteq> [] \<and>
    scope = (if RecallScope (c_groups c) key = [] then [publicOnlyScopeSentinel] else RecallScope (c_groups c) key) \<and>
    list_all (\<lambda>h. tags (sh_ID h) = [] \<or> (\<exists>t \<in> set (tags (sh_ID h)). t \<in> set (RecallScope (c_groups c) key))) hits"
proof -
  from rpc_Search_ok [OF ok] e obtain user ts key row raw where
    v: "Validate (en_clock en 1) (en_clock en 2) (sq_token q) (c_tokens c) = (Inr user, ts)" "resolveMemberAccess c user = Inr (key, row)"
    and r: "eng_Search eng (c_calls c) (sq_vector q) (sint (sq_top_k q)) (search_scope (c_groups c) key) = Inr raw"
    and h: "hits = map (\<lambda>h. h\<lparr>sh_Metadata := openMeta P (c_cfg c) (sh_Metadata h)\<rparr>) raw"
    and k: "c_calls c' = c_calls c @ [CallSearch (sq_vector q) (sint (sq_top_k q)) (search_scope (c_groups c) key)]" by auto
  have "list_all (\<lambda>h. tags (sh_ID h) = [] \<or> (\<exists>t \<in> set (tags (sh_ID h)). t \<in> set (RecallScope (c_groups c) key))) raw"
    using filtered [rule_format, OF search_scope_nonempty r] sentinel search_scope_mem [of _ "c_groups c" key]
    by (fastforce simp: list_all_iff)
  then have "list_all (\<lambda>h. tags (sh_ID h) = [] \<or> (\<exists>t \<in> set (tags (sh_ID h)). t \<in> set (RecallScope (c_groups c) key))) hits"
    by (simp add: h list.pred_map comp_def)
  moreover have "search_scope (c_groups c) key =
      (if RecallScope (c_groups c) key = [] then [publicOnlyScopeSentinel] else RecallScope (c_groups c) key)"
    by (simp add: search_scope_def Let_def)
  ultimately show ?thesis using v k search_scope_nonempty [of "c_groups c" key] by auto
qed

lemma demo_tags_record: "(i, ts) \<in> set demo_records \<Longrightarrow> demo_tags i = ts"
  by (auto simp: demo_tags_def demo_records_def)

lemma demo_filtered:
  assumes "scope \<noteq> []" "eng_Search (crypto_engine 0 demo_client) log v k scope = Inr hits"
  shows "list_all (\<lambda>h. demo_tags (sh_ID h) = [] \<or> (\<exists>t \<in> set scope. t \<in> set (demo_tags (sh_ID h)))) hits"
proof -
  have "hits = map (\<lambda>(i, _). \<lparr>sh_ID = i, sh_Score = 0, sh_Metadata = []\<rparr>) (filter (\<lambda>(_, ts). ts = [] \<or> list_ex (\<lambda>t. t \<in> set ts) scope) demo_records)"
    using assms by (simp add: crypto_engine_def Engine_Search_def sdk_err_def demo_client_def)
  then show ?thesis using demo_tags_record by (auto simp: list_all_iff list_ex_iff)
qed

lemma demo_search: "\<exists>hits c'. rpc_Search demo_prims demo_env \<lparr>sq_token = demo_secret, sq_vector = [], sq_top_k = 10\<rparr> demo_console = (Inr hits, c')"
proof -
  obtain ts where "Validate (60 * second) (60 * second) demo_secret (demo_session ''a@x'') = (Inr ''a@x'', ts)" using demo_session_valid by blast
  then show ?thesis
    by (simp add: rpc_Search_def gated_def authenticated_def demo_env_def resolveMemberAccess_def getEngine_def crypto_engine_def
        Engine_Search_def sdk_err_def demo_client_def search_scope_nonempty finish_def Let_def)
qed

theorem search_returns_only_readable_witness:
  "\<exists>hits c' key. rpc_Search demo_prims demo_env \<lparr>sq_token = demo_secret, sq_vector = [], sq_top_k = 10\<rparr> demo_console = (Inr hits, c') \<and>
     list_all (\<lambda>h. demo_tags (sh_ID h) = [] \<or> (\<exists>t \<in> set (demo_tags (sh_ID h)). t \<in> set (RecallScope demo_org key))) hits"
proof -
  obtain hits c' where h: "rpc_Search demo_prims demo_env \<lparr>sq_token = demo_secret, sq_vector = [], sq_top_k = 10\<rparr> demo_console = (Inr hits, c')"
    using demo_search by blast
  have "\<forall>i. publicOnlyScopeSentinel \<notin> set (demo_tags i)"
    by (simp add: demo_tags_def demo_records_def publicOnlyScopeSentinel_def)
  from search_returns_only_readable [OF demo_console_sel(4) _ this h] demo_filtered
  show ?thesis using h by auto
qed

text \<open>
  C17. A capture reaches the engine only for a holder of a valid token who passed the member gate,
  once, with the item as sent, and tagged with exactly the top-most groups that person may write to:
  those where the person holds the write role directly, and none of them below another such group; each
  tag stands once, and there is one at least. In every other case the engine is not called and the
  caller is refused.
\<close>

theorem insert_tags_top_write_groups:
  assumes l: "groups_live (c_groups c)" and x: "rpc_Insert en q c = (r, c')"
  shows "c_calls c' = c_calls c \<and> isl r \<or>
    (\<exists>user key row tags. fst (Validate (en_clock en 1) (en_clock en 2) (iq_token q) (c_tokens c)) = Inr user \<and>
      resolveMemberAccess c user = Inr (key, row) \<and> c_calls c' = c_calls c @ [CallInsert (item_of_request q) tags] \<and> tags \<noteq> [] \<and> distinct tags \<and>
      set tags = {t. (\<exists>m. lookup2 (gs_memberships (c_groups c)) key t = Some m \<and> AtLeast (mb_Role m) RoleWrite) \<and>
         (\<forall>a. a \<noteq> t \<longrightarrow> above (dpar (gs_view (c_groups c))) t a \<longrightarrow> a \<notin> set (CaptureTargets (c_groups c) key))})"
  using rpc_Insert_cases [OF x]
proof (elim disjE exE conjE)
  fix user ts key row tags
  assume v: "Validate (en_clock en 1) (en_clock en 2) (iq_token q) (c_tokens c) = (Inr user, ts)" "resolveMemberAccess c user = Inr (key, row)"
    and t: "CaptureTagSet (c_groups c) key [] = Inr tags" and k: "c_calls c' = c_calls c @ [CallInsert (item_of_request q) tags]"
  from auto_capture [OF l t] have "tags \<noteq> []" "distinct tags" "set tags = {t. top_write (gs_view (c_groups c)) key t}" by simp_all
  moreover have "top_write (gs_view (c_groups c)) key t \<longleftrightarrow>
      (\<exists>m. lookup2 (gs_memberships (c_groups c)) key t = Some m \<and> AtLeast (mb_Role m) RoleWrite) \<and>
      (\<forall>a. a \<noteq> t \<longrightarrow> above (dpar (gs_view (c_groups c))) t a \<longrightarrow> a \<notin> set (CaptureTargets (c_groups c) key))" for t
    using targets_iff [OF l] by (simp add: top_write_def can_write_def)
  ultimately show ?thesis using v k
    by (intro disjI2 exI [of _ user] exI [of _ key] exI [of _ row] exI [of _ tags]) simp
qed simp

theorem insert_tags_top_write_groups_witness:
  "\<exists>r c'. rpc_Insert demo_env \<lparr>iq_token = demo_secret, iq_id = ''i1'', iq_rmp_item = [1], iq_mm_item = [2], iq_cluster_id = 0,
       iq_centroid_set_version = ''v1'', iq_metadata = []\<rparr> demo_console = (Inr r, c') \<and> c_calls c' \<noteq> []"
proof -
  obtain ts where "Validate (60 * second) (60 * second) demo_secret (demo_session ''a@x'') = (Inr ''a@x'', ts)" using demo_session_valid by blast
  then have "\<exists>r. fst (rpc_Insert demo_env \<lparr>iq_token = demo_secret, iq_id = ''i1'', iq_rmp_item = [1], iq_mm_item = [2], iq_cluster_id = 0,
       iq_centroid_set_version = ''v1'', iq_metadata = []\<rparr> demo_console) = Inr r"
    by (simp add: rpc_Insert_def gated_def authenticated_def demo_env_def resolveMemberAccess_def getEngine_def crypto_engine_def
        Engine_InsertPreEncrypted_def demo_client_def demo_capture finish_def Let_def)
  then obtain r c' where x: "rpc_Insert demo_env \<lparr>iq_token = demo_secret, iq_id = ''i1'', iq_rmp_item = [1], iq_mm_item = [2], iq_cluster_id = 0,
       iq_centroid_set_version = ''v1'', iq_metadata = []\<rparr> demo_console = (Inr r, c')"
    by (metis prod.collapse)
  with insert_tags_top_write_groups [OF _ x] demo_live show ?thesis by auto
qed

text \<open>
  C18. The member gate holds on every handler that asks the judge: with the registry wired, a token
  whose holder is a disabled member, or whose holder is named by a member id without being an
  address of the registry, is refused with permission denied by capture, recall, permissions and
  manifest; nothing is sent to the engine and no store but the token's time of use changes.
\<close>

theorem member_gate_refuses:
  assumes inv: "members_live (c_members c)" and dir: "c_memberDir c"
    and v: "fst (Validate (en_clock en 1) (en_clock en 2) t (c_tokens c)) = Inr user"
    and gate: "(\<exists>i m. members_view (c_members c) i = Some m \<and> m_Email m = user \<and> m_Status m = StatusDisabled) \<or>
      (isCanonicalUUID user \<and> (\<forall>i m. members_view (c_members c) i = Some m \<longrightarrow> m_Email m \<noteq> user))"
  shows "\<exists>d. fst (rpc_Insert en (q1\<lparr>iq_token := t\<rparr>) c) = Inl (PermissionDenied, d) \<and>
    fst (rpc_Search P en (q2\<lparr>sq_token := t\<rparr>) c) = Inl (PermissionDenied, d) \<and>
    fst (rpc_GetPermissions en (q3\<lparr>pq_token := t\<rparr>) c) = Inl (PermissionDenied, d) \<and>
    fst (rpc_GetAgentManifest P en t c) = Inl (PermissionDenied, d) \<and>
    (\<forall>c' \<in> {snd (rpc_Insert en (q1\<lparr>iq_token := t\<rparr>) c), snd (rpc_Search P en (q2\<lparr>sq_token := t\<rparr>) c),
         snd (rpc_GetPermissions en (q3\<lparr>pq_token := t\<rparr>) c), snd (rpc_GetAgentManifest P en t c)}.
       c_calls c' = c_calls c \<and> c_groups c' = c_groups c \<and> c_members c' = c_members c \<and> c_invites c' = c_invites c)"
proof -
  have "members_inv (c_members c)" using inv by (simp add: members_live_def)
  then obtain d where d: "resolveMemberAccess c user = Inl d" using gate resolve_disabled resolve_uuid dir by metis
  obtain ts where ts: "Validate (en_clock en 1) (en_clock en 2) t (c_tokens c) = (Inr user, ts)" using v by (metis prod.collapse)
  note g = gated_denied [OF ts d]
  show ?thesis
    by (rule exI [of _ d]) (simp add: rpc_Insert_def rpc_Search_def rpc_GetPermissions_def rpc_GetAgentManifest_def g refuse_def finish_def)
qed

definition demo_disabled :: members_store where
  "demo_disabled = members_run (demo_lifecycle @ [Do (TxOk, OpUpdate demo_id None (Some StatusDisabled))]) members_boot"

lemma demo_disabled_view:
  "members_live demo_disabled \<and> (\<exists>m. members_view demo_disabled demo_id = Some m \<and> m_Email m = ''a@b.co'' \<and> m_Status m = StatusDisabled)"
  using registry.run_healthy [of members_boot "demo_lifecycle @ [Do (TxOk, OpUpdate demo_id None (Some StatusDisabled))]"]
    registry.run_inv [of members_boot "demo_lifecycle @ [Do (TxOk, OpUpdate demo_id None (Some StatusDisabled))]"] members_boot_live
  by (simp add: demo_disabled_def demo_lifecycle_def demo_newMemberID demo_email)

definition demo_guarded :: console where
  "demo_guarded = SetMemberDirectory demo_disabled (demo_console\<lparr>c_tokens := demo_session ''a@b.co''\<rparr>)"

theorem member_gate_refuses_witness:
  "\<exists>d. fst (rpc_GetAgentManifest demo_prims demo_env demo_secret demo_guarded) = Inl (PermissionDenied, d)"
proof -
  have m: "members_live (c_members demo_guarded)" "c_memberDir demo_guarded"
    using demo_disabled_view by (simp_all add: demo_guarded_def SetMemberDirectory_def)
  obtain ts where v: "Validate (60 * second) (60 * second) demo_secret (demo_session ''a@b.co'') = (Inr ''a@b.co'', ts)"
    using demo_session_valid by blast
  then have "fst (Validate (en_clock demo_env 1) (en_clock demo_env 2) demo_secret (c_tokens demo_guarded)) = Inr ''a@b.co''"
    by (simp add: demo_env_def demo_guarded_def SetMemberDirectory_def)
  moreover have "(\<exists>i m. members_view (c_members demo_guarded) i = Some m \<and> m_Email m = ''a@b.co'' \<and> m_Status m = StatusDisabled)"
    using demo_disabled_view by (auto simp: demo_guarded_def SetMemberDirectory_def)
  ultimately show ?thesis using member_gate_refuses [OF m, where P = demo_prims] by blast
qed

text \<open>
  C2. Redemption hands out a token only together with its effects: the invite was pending, was
  issued by the console and is consumed with its sealed token gone, and the member it was sealed for
  was invited or active and is active; no other member changes. As long as the registry shows the
  invited address as disabled, redemption is refused and the invite is not used up.
\<close>

theorem unwrap_releases_with_activation:
  assumes "invites_live (c_invites c)" "members_live (c_members c)" "\<forall>i. time_ok (en_clock en i)" and r: "rpc_Unwrap en h c = (r, c')"
  shows "(\<forall>tok mid. r = Inr (tok, mid) \<longrightarrow>
      (\<exists>iv m. invites_view (c_invites c) h = Some iv \<and> iv_Status iv = StatusPending \<and> iv_CreationPath iv = inviteCreationPath \<and>
         tok = iv_TokenValue iv \<and> mid = iv_MemberID iv \<and> invites_view (c_invites c') h = Some (voided StatusConsumed iv) \<and>
         members_view (c_members c) mid = Some m \<and> m_Status m \<in> {StatusInvited, StatusActive} \<and>
         members_view (c_members c') = (members_view (c_members c))(mid \<mapsto> m\<lparr>m_Status := StatusActive\<rparr>))) \<and>
    (\<forall>iv i m. c_memberDir c \<longrightarrow> invites_view (c_invites c) h = Some iv \<longrightarrow> members_view (c_members c) i = Some m \<longrightarrow>
       m_Email m = iv_Email iv \<longrightarrow> m_Status m = StatusDisabled \<longrightarrow>
       isl r \<and> c_invites c' = c_invites c \<and> c_members c' = c_members c)"
proof -
  from assms obtain T where i: "invites_inv T (c_invites c)" "members_inv (c_members c)"
    by (auto simp: invites_live_def members_live_def)
  show ?thesis
  proof (intro conjI allI impI)
    fix tok mid assume "r = Inr (tok, mid)"
    with unwrap_released [OF i assms(3)] r show "\<exists>iv m. invites_view (c_invites c) h = Some iv \<and> iv_Status iv = StatusPending \<and> iv_CreationPath iv = inviteCreationPath \<and>
         tok = iv_TokenValue iv \<and> mid = iv_MemberID iv \<and> invites_view (c_invites c') h = Some (voided StatusConsumed iv) \<and>
         members_view (c_members c) mid = Some m \<and> m_Status m \<in> {StatusInvited, StatusActive} \<and>
         members_view (c_members c') = (members_view (c_members c))(mid \<mapsto> m\<lparr>m_Status := StatusActive\<rparr>)" by blast
  next
    fix iv j m
    assume "c_memberDir c" "invites_view (c_invites c) h = Some iv" "members_view (c_members c) j = Some m" "m_Email m = iv_Email iv" "m_Status m = StatusDisabled"
    then show "isl r" "c_invites c' = c_invites c" "c_members c' = c_members c"
      using unwrap_disabled [OF i(2), of h iv j m en] r by simp_all
  qed
qed

definition demo_offer :: issue_params where
  "demo_offer = \<lparr>ip_MemberID = demo_id, ip_Email = ''a@b.co'', ip_Role = ''member'', ip_TokenValue = ''evt_x'',
     ip_CreationPath = inviteCreationPath, ip_TTL = 3600 * second\<rparr>"

definition demo_pending :: invite_store where
  "demo_pending = snd (Issue TxOk demo_entropy demo_entropy 0 demo_offer demo_inbox)"

definition demo_staff :: members_store where
  "demo_staff = members_run [Do (TxOk, OpAdd demo_entropy 0 ''a@b.co'' ''A''), Do (TxOk, OpMarkInvited demo_id)] members_boot"

definition demo_redeem :: console where
  "demo_redeem = SetInviteRedemption demo_pending (SetMemberDirectory demo_staff demo_console)"

lemma demo_staff_view:
  "members_live demo_staff \<and> (\<exists>m. members_view demo_staff demo_id = Some m \<and> m_Email m = ''a@b.co'' \<and> m_Status m = StatusInvited)"
  using registry.run_healthy [of members_boot "[Do (TxOk, OpAdd demo_entropy 0 ''a@b.co'' ''A''), Do (TxOk, OpMarkInvited demo_id)]"]
    registry.run_inv [of members_boot "[Do (TxOk, OpAdd demo_entropy 0 ''a@b.co'' ''A''), Do (TxOk, OpMarkInvited demo_id)]"] members_boot_live
  by (simp add: demo_staff_def demo_newMemberID demo_email)

lemma Lookup_open:
  assumes "invites_view s h = Some iv" "iv_CreationPath iv = path" "statusGateLocked iv now = None"
  shows "Lookup h path now s = Inr (clearBundle iv)"
proof -
  obtain p where "map_of (is_byHandle s) h = Some p" "is_cells s ! p = iv" using assms(1) by (auto simp: invites_view_def deref_def)
  with assms show ?thesis by (simp add: Lookup_def)
qed

lemma Activate_healthy:
  assumes l: "members_live s" and v: "members_view s i = Some m" "m_Status m = StatusInvited"
  shows "fst (Activate TxOk i s) = Inr ()"
proof -
  obtain p where p: "map_of (ms_byID s) i = Some p" "ms_cells s ! p = m" using v(1) by (auto simp: members_view_def deref_def)
  have inv: "members_inv s" using l by (simp add: members_live_def)
  have "replaces (m\<lparr>m_Status := StatusActive\<rparr>) (ms_cells s ! p)"
    using member_patch_replaces [of m "OpActivate i"] v inv_check [OF inv v(1)] p by simp
  from commitUpdate_ok [OF inv p(1) this] v(2) p show ?thesis by (simp add: Activate_def Let_def)
qed

lemma demo_redeemed: "\<exists>c'. rpc_Unwrap demo_env demo_handle demo_redeem = (Inr (''evt_x'', demo_id), c')"
proof -
  have o: "offer demo_offer" by (simp add: offer_def demo_offer_def demo_id_def)
  obtain l where v: "invites_inv 0 demo_pending" "invites_view demo_pending demo_handle = Some (issued demo_handle l 0 demo_offer)"
    using offer_view [OF o demo_pending_def] by blast
  note g = offer_not_expired [OF o, of l]
  have "iv_CreationPath (issued demo_handle l 0 demo_offer) = inviteCreationPath" by (simp add: issued_def demo_offer_def)
  note L = Lookup_open [OF v(2) this g]
  have "fst (Unwrap TxOk (60 * second) demo_handle demo_pending) = Inr (iv_TokenValue (issued demo_handle l 0 demo_offer), iv_MemberID (issued demo_handle l 0 demo_offer))"
    by (rule Unwrap_healthy [OF v(1) _ demo_times(3) v(2) g]) (simp add: second_def)
  then obtain iv where u: "Unwrap TxOk (60 * second) demo_handle demo_pending = (Inr (''evt_x'', demo_id), iv)"
    by (cases "Unwrap TxOk (60 * second) demo_handle demo_pending") (simp add: demo_offer_def)
  obtain m where m: "members_live demo_staff" "members_view demo_staff demo_id = Some m" "m_Email m = ''a@b.co''" "m_Status m = StatusInvited"
    using demo_staff_view by blast
  then have "fst (Activate TxOk demo_id demo_staff) = Inr ()" by (intro Activate_healthy)
  then obtain ms where a: "Activate TxOk demo_id demo_staff = (Inr (), ms)" by (cases "Activate TxOk demo_id demo_staff") simp
  have "LookupByEmail ''a@b.co'' demo_staff = (m_ID m, StatusInvited, True)"
    using lookup_disabled [of demo_staff demo_id m] m by (simp add: members_live_def)
  with L u a show ?thesis
    by (simp add: rpc_Unwrap_def demo_redeem_def SetInviteRedemption_def SetMemberDirectory_def demo_env_def clearBundle_def issued_def demo_offer_def finish_def Let_def)
qed

theorem unwrap_releases_with_activation_witness:
  "\<exists>c' iv. rpc_Unwrap demo_env demo_handle demo_redeem = (Inr (''evt_x'', demo_id), c') \<and>
     invites_view (c_invites c') demo_handle = Some (voided StatusConsumed iv)"
proof -
  obtain c' where r: "rpc_Unwrap demo_env demo_handle demo_redeem = (Inr (''evt_x'', demo_id), c')" using demo_redeemed by blast
  have "offer demo_offer" by (simp add: offer_def demo_offer_def demo_id_def)
  then have "invites_live demo_pending" using offer_view [OF _ demo_pending_def] by (auto simp: invites_live_def)
  then have "invites_live (c_invites demo_redeem)" "members_live (c_members demo_redeem)"
    using demo_staff_view by (simp_all add: demo_redeem_def SetInviteRedemption_def SetMemberDirectory_def)
  from unwrap_releases_with_activation [OF this _ r] demo_times(3) r show ?thesis by (auto simp: demo_env_def)
qed

text \<open>
  C31. The data plane cannot change who may do what. Over any history of requests, whatever they
  carry and whatever faults strike, the stores stay sound, the group store is untouched, no
  credential appears, disappears or changes but for its activation time, no member appears, and a
  member record changes only from invited to active; invites only move forward in their lifecycle.
\<close>

theorem data_plane_keeps_authority:
  assumes ok: "plane_ok c" "list_all clock_ok es" and c': "c' = fold plane_run es c"
  shows "plane_ok c' \<and> c_groups c' = c_groups c \<and>
    (\<forall>u. inactive (creds (c_tokens c') u) = inactive (creds (c_tokens c) u)) \<and>
    (\<forall>i. members_view (c_members c) i = None \<longrightarrow> members_view (c_members c') i = None) \<and>
    (\<forall>i m. members_view (c_members c) i = Some m \<longrightarrow> (\<exists>m'. members_view (c_members c') i = Some m' \<and> (m' = m \<or> activates m m'))) \<and>
    (\<forall>h iv. invites_view (c_invites c) h = Some iv \<longrightarrow> (\<exists>iv'. invites_view (c_invites c') h = Some iv' \<and> moves\<^sup>*\<^sup>* iv iv'))"
  unfolding c'
proof (intro conjI allI impI)
  show "plane_ok (fold plane_run es c)" by (rule plane_invites.run_inv [OF ok])
  fix i m assume "members_view (c_members c) i = Some m"
  from plane_members.run_moves [OF ok this] activates_once
  show "\<exists>m'. members_view (c_members (fold plane_run es c)) i = Some m' \<and> (m' = m \<or> activates m m')" by blast
next
  fix h iv assume "invites_view (c_invites c) h = Some iv"
  from plane_invites.run_moves [OF ok this]
  show "\<exists>iv'. invites_view (c_invites (fold plane_run es c)) h = Some iv' \<and> moves\<^sup>*\<^sup>* iv iv'" .
qed (use plane_run_keeps [OF ok] in blast)+

theorem data_plane_keeps_authority_witness:
  "c_groups (fold plane_run [(demo_prims, demo_env, ReportActivation demo_secret), (demo_prims, demo_env, UnwrapInvite demo_handle)] demo_console) = demo_org"
  using data_plane_keeps_authority [OF demo_console_ok _ refl, of "[(demo_prims, demo_env, ReportActivation demo_secret), (demo_prims, demo_env, UnwrapInvite demo_handle)]"]
    demo_clock by (simp del: plane_run.simps clock_ok.simps)

text \<open>
  The centroid stream is complete and bounded: what is delivered is a beginning of the frames
  of the engine's set, all of them exactly when no send failed; every frame after the header holds
  between one and 256 vectors, and together they list every vector once, in order, under its index
  (as a 32-bit number, exact up to \<open>2 ^ 32\<close> vectors).
\<close>

theorem centroid_stream_complete:
  assumes "rpc_GetCentroids en f t c = (Inr (out, e), c')"
  shows "\<exists>eng cs. c_engine c = Some eng \<and> eng_Centroids eng (c_calls c) = Inr cs \<and>
    out = take (length out) (centroid_frames cs) \<and> (e = None \<longleftrightarrow> out = centroid_frames cs) \<and>
    (\<forall>b \<in> set (tl (centroid_frames cs)). 1 \<le> length (frame_items b) \<and> length (frame_items b) \<le> 256) \<and>
    map snd (concat (map frame_items (centroid_frames cs))) = cs_Vectors cs \<and>
    (length (cs_Vectors cs) \<le> 2 ^ 32 \<longrightarrow>
       map (unat \<circ> fst) (concat (map frame_items (centroid_frames cs))) = [0..<length (cs_Vectors cs)])"
proof -
  from rpc_GetCentroids_ok [OF assms] obtain eng cs where
    s: "c_engine c = Some eng" "eng_Centroids eng (c_calls c) = Inr cs" "send_frames f 0 (centroid_frames cs) = (out, e)" by blast
  have i: "concat (map frame_items (centroid_frames cs)) = concat (map frame_items (centroid_batches 0 (cs_Vectors cs)))"
    by (simp add: centroid_frames_def)
  have "map snd (concat (map frame_items (centroid_frames cs))) = cs_Vectors cs"
    unfolding i batches_items by (simp add: comp_def map_nth)
  moreover have "\<forall>b \<in> set (tl (centroid_frames cs)). 1 \<le> length (frame_items b) \<and> length (frame_items b) \<le> 256"
    using batches_size [of _ 0 "cs_Vectors cs"] by (simp add: centroid_frames_def centroidBatchSize_def)
  moreover have "out = take (length out) (centroid_frames cs)" "e = None \<longleftrightarrow> out = centroid_frames cs"
    using send_frames_prefix [OF s(3)] by auto
  moreover have "length (cs_Vectors cs) \<le> 2 ^ 32 \<longrightarrow>
      map (unat \<circ> fst) (concat (map frame_items (centroid_frames cs))) = [0..<length (cs_Vectors cs)]"
    unfolding i using frame_ids [of "cs_Vectors cs"] by blast
  ultimately show ?thesis using s by blast
qed

theorem centroid_stream_complete_witness:
  "\<exists>out c'. rpc_GetCentroids demo_env (\<lambda>_. None) demo_secret demo_console = (Inr (out, None), c') \<and>
     map snd (concat (map frame_items out)) = [[1], [2]]"
proof -
  obtain ts where "Validate (60 * second) (60 * second) demo_secret (demo_session ''a@x'') = (Inr ''a@x'', ts)" using demo_session_valid by blast
  moreover have "\<exists>out. send_frames (\<lambda>_. None) 0 xs = (out, None)" for xs
    using send_frames_none by blast
  ultimately have "\<exists>out c'. rpc_GetCentroids demo_env (\<lambda>_. None) demo_secret demo_console = (Inr (out, None), c')"
    by (simp add: rpc_GetCentroids_def authenticated_def demo_env_def getEngine_def crypto_engine_def Engine_Centroids_def sdk_err_def
        demo_client_def send_frames_none finish_def Let_def)
  then obtain out c' where r: "rpc_GetCentroids demo_env (\<lambda>_. None) demo_secret demo_console = (Inr (out, None), c')" by blast
  from centroid_stream_complete [OF r] r show ?thesis
    by (auto simp: crypto_engine_def Engine_Centroids_def sdk_err_def demo_client_def)
qed

text \<open>
  Every request leaves exactly one audit entry, appended to the log, that names the method and
  tells the outcome: its status is success and its error empty exactly when the caller was answered
  without an error, and a failed request counts no results.
\<close>

theorem every_request_is_audited:
  assumes "c_audit c = Some es"
  shows "\<exists>e. c_audit (snd (serve P en q c)) = Some (es @ [e]) \<and> ae_Method e = method_name q \<and>
    (ae_Status e = ''success'' \<longleftrightarrow> fst (serve P en q c)) \<and> (ae_Error e = None \<longleftrightarrow> fst (serve P en q c)) \<and>
    (ae_ResultCount e \<noteq> 0 \<longrightarrow> fst (serve P en q c))"
  using serve_logged [of q c P en] assms by (auto simp: logged_def entry_ok_def)

theorem every_request_is_audited_witness:
  "\<exists>e. c_audit (snd (serve demo_prims demo_env (LookupWrap ''x'') demo_console)) = Some [e] \<and> ae_Method e = ''lookup_wrap''"
  using every_request_is_audited [OF demo_console_sel(6), of demo_prims demo_env "LookupWrap ''x''"] by (auto simp del: serve.simps)

text \<open>
  Sealed metadata opens to what was sealed, whichever agent of the team sealed it: with a team
  secret, sealing succeeds and opening gives back the text.
\<close>

theorem sealed_metadata_opens:
  assumes "prims_ok P" "rnd \<noteq> None" "cfg_TeamSecret cfg \<noteq> []"
  shows "\<exists>stored. sealMeta P rnd cfg token meta = Inr stored \<and> openMeta P cfg stored = meta"
  by (rule seal_open [OF assms])

lemma demo_prims_ok: "prims_ok demo_prims"
proof -
  have "takeWhile (\<lambda>x. x = CHR ''x'') (replicate n CHR ''x'' @ CHR ''y'' # r) = replicate n CHR ''x''" for n r
    by (induction n) simp_all
  then show ?thesis by (simp add: prims_ok_def demo_prims_def Let_def)
qed

theorem sealed_metadata_opens_witness:
  "\<exists>stored. sealMeta demo_prims demo_entropy (c_cfg demo_console) demo_secret ''hello'' = Inr stored \<and>
     openMeta demo_prims (c_cfg demo_console) stored = ''hello''"
  using sealed_metadata_opens [OF demo_prims_ok, of demo_entropy "c_cfg demo_console" demo_secret "''hello''"]
  by (simp add: demo_entropy_def demo_console_def NewConsole_def)

end
