(* ===== verification/Regstr.thy ===== *)
theory Regstr
  imports Base64
begin

unbundle bit_operations_syntax

text \<open>
  Registration strings (\<open>pkg/regstr\<close>): the text a member pastes to connect an agent. It is a
  prefix, the payload in raw URL base64, and the CRC-32 of the payload text in hexadecimal. The JSON
  codec of the payload is an argument.
\<close>

subsection \<open>CRC-32\<close>

definition crc_poly :: "32 word" where "crc_poly = 0xEDB88320"

definition crc_bit :: "32 word \<Rightarrow> 32 word" where
  "crc_bit c = (if bit c 0 then drop_bit 1 c XOR crc_poly else drop_bit 1 c)"

definition crc_byte :: "char \<Rightarrow> 32 word \<Rightarrow> 32 word" where
  "crc_byte ch c = (crc_bit ^^ 8) (c XOR of_nat (of_char ch))"

text \<open>\<open>crc32.ChecksumIEEE\<close>\<close>

definition ChecksumIEEE :: "string \<Rightarrow> 32 word" where
  "ChecksumIEEE s = NOT (fold crc_byte s (NOT 0))"

subsection \<open>Hexadecimal\<close>

text \<open>\<open>%08x\<close>, printing and scanning: at most eight digits, what follows them is not looked at.\<close>

definition hex8 :: "32 word \<Rightarrow> string" where
  "hex8 w = map (\<lambda>i. hex_digit (unat w div 16 ^ i mod 16)) (rev [0..<8])"

definition hex_val :: "char \<Rightarrow> nat option" where
  "hex_val c =
     (let n = of_char c in
      if 48 \<le> n \<and> n \<le> 57 then Some (n - 48)
      else if 97 \<le> n \<and> n \<le> 102 then Some (n - 87)
      else if 65 \<le> n \<and> n \<le> 70 then Some (n - 55) else None)"

fun scan_digits :: "nat \<Rightarrow> nat \<Rightarrow> string \<Rightarrow> nat" where
  "scan_digits (Suc k) acc (c # cs) = (case hex_val c of None \<Rightarrow> acc | Some v \<Rightarrow> scan_digits k (16 * acc + v) cs)"
| "scan_digits k acc cs = acc"

text \<open>Leading white space is skipped; a line feed is not white space here, and then no digit follows.\<close>

definition scan_skip :: "string \<Rightarrow> string" where
  "scan_skip s = concat (map snd (dropWhile (\<lambda>(r, _). is_space r \<and> r \<noteq> 10) (rune_chunks s)))"

definition scan_hex8 :: "string \<Rightarrow> 32 word option" where
  "scan_hex8 s =
     (case scan_skip s of
        [] \<Rightarrow> None
      | c # cs \<Rightarrow> if hex_val c = None then None else Some (of_nat (scan_digits 8 0 (c # cs))))"

subsection \<open>Encoding and decoding\<close>

record registration =
  rg_Version :: int
  rg_Endpoint :: string
  rg_Token :: string
  rg_CASHA256 :: string

datatype regstr_error = NotRegistration | MissingCrc | BadCrc string | CrcMismatch "32 word" "32 word" | BadBase64 | BadJson

definition reg_prefix :: string where "reg_prefix = ''runev1_''"

definition underscore :: char where "underscore = CHR 0x5F"

definition Encode :: "(registration \<Rightarrow> string) \<Rightarrow> registration \<Rightarrow> string" where
  "Encode marshal r =
     (let r = (if rg_Version r = 0 then r\<lparr>rg_Version := 1\<rparr> else r);
          payload = b64_encode b64_url False (bytes_of (marshal r));
          crc = ChecksumIEEE payload
      in reg_prefix @ payload @ [underscore] @ hex8 crc)"

definition Decode :: "(string \<Rightarrow> registration option) \<Rightarrow> string \<Rightarrow> regstr_error + registration" where
  "Decode unmarshal s =
     (let s = trim_space s in
      if take (length reg_prefix) s \<noteq> reg_prefix then Inl NotRegistration
      else
        (let body = drop (length reg_prefix) s; i = last_index_byte underscore body in
         if i < 0 then Inl MissingCrc
         else
           (let payload = take (nat i) body; crcHex = drop (nat i + 1) body in
            case scan_hex8 crcHex of
              None \<Rightarrow> Inl (BadCrc crcHex)
            | Some wantCRC \<Rightarrow>
                (let got = ChecksumIEEE payload in
                 if got \<noteq> wantCRC then Inl (CrcMismatch got wantCRC)
                 else case b64_decode b64_url False payload of
                   None \<Rightarrow> Inl BadBase64
                 | Some raw \<Rightarrow>
                     (case unmarshal (string_of raw) of None \<Rightarrow> Inl BadJson | Some r \<Rightarrow> Inr r)))))"

subsection \<open>Round trip\<close>

lemma hex_digit_table: "list_all (\<lambda>n. hex_val (hex_digit n) = Some n \<and> (of_char (hex_digit n) :: nat) < 128 \<and>
    \<not> is_space (of_char (hex_digit n)) \<and> hex_digit n \<noteq> underscore) [0..<16]"
  by (simp add: upt_rec hex_digit_def hex_val_def is_space_def underscore_def)

lemma hex_digit_any: "hex_val (hex_digit (n mod 16)) = Some (n mod 16) \<and> (of_char (hex_digit (n mod 16)) :: nat) < 128 \<and>
    \<not> is_space (of_char (hex_digit (n mod 16))) \<and> hex_digit (n mod 16) \<noteq> underscore"
  by (rule hex_digit_table [unfolded list_all_iff, rule_format]) simp

lemma hex_digit_val [simp]: "hex_val (hex_digit (n mod 16)) = Some (n mod 16)"
  using hex_digit_any [of n] by blast

lemma scan_digits_hex:
  "scan_digits k acc (map (\<lambda>i. hex_digit (n div 16 ^ i mod 16)) (rev [0..<k]) @ t) = acc * 16 ^ k + n mod 16 ^ k"
proof (induction k arbitrary: acc)
  case 0
  show ?case by (cases t) simp_all
next
  case (Suc k)
  have "n mod (16 ^ k * 16) = 16 ^ k * (n div 16 ^ k mod 16) + n mod 16 ^ k" by (rule mod_mult2_eq)
  then show ?case using Suc by (simp add: algebra_simps)
qed

lemma hex8_plain: "c \<in> set (hex8 w) \<Longrightarrow> (of_char c :: nat) < 128 \<and> \<not> is_space (of_char c) \<and> c \<noteq> underscore"
  unfolding hex8_def using hex_digit_any by (auto simp only: set_map image_iff)

lemma hex8_Cons: "\<exists>n cs. hex8 w = hex_digit (n mod 16) # cs"
  unfolding hex8_def by (rule exI [of _ "unat w div 16 ^ 7"]) (simp add: upt_rec)

lemma scan_hex8_hex8:
  assumes "\<forall>c \<in> set t. (of_char c :: nat) < 128"
  shows "scan_hex8 (hex8 w @ t) = Some w"
proof -
  obtain n cs where h: "hex8 w = hex_digit (n mod 16) # cs" using hex8_Cons by blast
  have "\<forall>c \<in> set (hex8 w @ t). (of_char c :: nat) < 128" using hex8_plain [of _ w] assms by auto
  note r = rune_chunks_ascii [OF this]
  have "\<not> is_space (of_char (hex_digit (n mod 16)))" using hex_digit_any [of n] by blast
  then have "scan_skip (hex8 w @ t) = concat (map snd (rune_chunks (hex8 w @ t)))"
    unfolding scan_skip_def r by (simp add: h)
  then have "scan_skip (hex8 w @ t) = hex8 w @ t" by (simp add: concat_chunks)
  moreover have "scan_digits 8 0 (hex8 w @ t) = unat w"
    unfolding hex8_def using scan_digits_hex [of 8 0 "unat w" t] unsigned_less [where 'b = 32 and 'a = nat, of w] by simp
  ultimately show ?thesis using h by (simp add: scan_hex8_def)
qed

text \<open>
  Decoding what was encoded, with any visible text without an underscore behind it. The checksum
  digits are read and the rest is not looked at.
\<close>

lemma Decode_Encode:
  assumes j: "unmarshal (marshal r') = Some r'" and r': "r' = (if rg_Version r = 0 then r\<lparr>rg_Version := 1\<rparr> else r)"
    and t: "\<forall>c \<in> set t. (of_char c :: nat) < 128 \<and> \<not> is_space (of_char c) \<and> c \<noteq> underscore"
  shows "Decode unmarshal (Encode marshal r @ t) = Inr r'"
proof -
  define payload where "payload = b64_encode b64_url False (bytes_of (marshal r'))"
  define crc where "crc = hex8 (ChecksumIEEE payload)"
  let ?s = "reg_prefix @ payload @ underscore # crc @ t"
  have e: "Encode marshal r @ t = ?s" by (simp add: Encode_def Let_def payload_def crc_def r')
  have c: "\<forall>x \<in> set (crc @ t). (of_char x :: nat) < 128 \<and> \<not> is_space (of_char x) \<and> x \<noteq> underscore"
    using hex8_plain t by (auto simp: crc_def)
  have ne: "crc \<noteq> []" using hex8_Cons [of "ChecksumIEEE payload"] by (auto simp: crc_def)
  have "trim_space ?s = ?s"
  proof (rule trim_space_ascii)
    have "(of_char x :: nat) < 128" if "x \<in> set payload" for x
      using that b64url.encode_no_break by (auto simp: payload_def)
    then show "\<forall>x \<in> set ?s. (of_char x :: nat) < 128" using c by (auto simp: reg_prefix_def underscore_def)
    show "\<not> is_space (of_char (last ?s))" using c ne last_in_set [of "crc @ t"] by auto
  qed (simp_all add: reg_prefix_def is_space_def)
  moreover have "last_index_byte underscore (payload @ underscore # crc @ t) = int (length payload)"
    by (rule last_index_byte_split) (use c in auto)
  moreover have "scan_hex8 (crc @ t) = Some (ChecksumIEEE payload)"
    unfolding crc_def using t by (intro scan_hex8_hex8) blast
  ultimately show ?thesis
    using j by (simp add: e Decode_def Let_def payload_def b64url.decode_encode)
qed

lemma Decode_Inr:
  assumes "Decode unmarshal s = Inr r"
  shows "\<exists>payload crcHex. trim_space s = reg_prefix @ payload @ underscore # crcHex \<and> scan_hex8 crcHex = Some (ChecksumIEEE payload) \<and>
    (\<exists>raw. b64_decode b64_url False payload = Some raw \<and> unmarshal (string_of raw) = Some r)"
proof -
  define b where "b = drop (length reg_prefix) (trim_space s)"
  define i where "i = last_index_byte underscore b"
  have p: "trim_space s = reg_prefix @ b" and i: "\<not> i < 0"
    and q: "scan_hex8 (drop (nat i + 1) b) = Some (ChecksumIEEE (take (nat i) b))"
      "\<exists>raw. b64_decode b64_url False (take (nat i) b) = Some raw \<and> unmarshal (string_of raw) = Some r"
    using assms append_take_drop_id [of "length reg_prefix" "trim_space s"]
    by (auto simp: Decode_def Let_def b_def [symmetric] i_def [symmetric] split: if_splits option.splits)
  have "underscore \<in> set b"
  proof (rule ccontr)
    assume "underscore \<notin> set b"
    then have "index_byte underscore (rev b) < 0" by (simp add: index_byte_absent)
    with i show False by (simp add: i_def last_index_byte_def)
  qed
  then obtain xs ys where b: "b = xs @ underscore # ys" "underscore \<notin> set ys" using split_list_last by metis
  then have "i = int (length xs)" by (simp add: i_def last_index_byte_split)
  with b q p show ?thesis by auto
qed

text \<open>
  A registration string decodes to the registration it was made from, with the version filled
  in; and whatever decodes carries, behind the last underscore, the checksum of exactly the payload
  it was decoded from.
\<close>

theorem registration_roundtrip:
  assumes "unmarshal (marshal r') = Some r'" "r' = (if rg_Version r = 0 then r\<lparr>rg_Version := 1\<rparr> else r)"
  shows "Decode unmarshal (Encode marshal r) = Inr r' \<and>
    (\<forall>s x. Decode unmarshal s = Inr x \<longrightarrow>
       (\<exists>payload crcHex. trim_space s = reg_prefix @ payload @ underscore # crcHex \<and> scan_hex8 crcHex = Some (ChecksumIEEE payload) \<and>
          (\<exists>raw. b64_decode b64_url False payload = Some raw \<and> unmarshal (string_of raw) = Some x)))"
  using Decode_Encode [of unmarshal marshal r' r "[]"] Decode_Inr [of unmarshal] assms by auto

definition demo_reg :: registration where
  "demo_reg = \<lparr>rg_Version = 0, rg_Endpoint = ''h:1'', rg_Token = ''t'', rg_CASHA256 = ''ab''\<rparr>"

theorem registration_roundtrip_witness:
  "Decode (\<lambda>s. Some (demo_reg\<lparr>rg_Version := 1, rg_Endpoint := s\<rparr>)) (Encode rg_Endpoint demo_reg) = Inr (demo_reg\<lparr>rg_Version := 1\<rparr>)"
  using registration_roundtrip [of "\<lambda>s. Some (demo_reg\<lparr>rg_Version := 1, rg_Endpoint := s\<rparr>)" rg_Endpoint "demo_reg\<lparr>rg_Version := 1\<rparr>" demo_reg]
  by (simp add: demo_reg_def)

text \<open>
  The format names eight checksum digits at the end; text pasted behind them is accepted all the same.
\<close>

lemma registration_suffix_ignored:
  "Decode (\<lambda>s. Some (demo_reg\<lparr>rg_Version := 1, rg_Endpoint := s\<rparr>)) (Encode rg_Endpoint demo_reg @ ''-and-more'') = Inr (demo_reg\<lparr>rg_Version := 1\<rparr>)"
  by (rule Decode_Encode) (simp_all add: demo_reg_def underscore_def is_space_def)

end
