(* ===== verification/Console_Index.thy ===== *)
theory Console_Index
  imports Data_Plane Go_Number
begin

text \<open>
  What the HTTP surface of the console computes from the stores without changing them
  (\<open>internal/server/console_api.go\<close>, \<open>console_api_users.go\<close>): timestamps on the wire, paging, the
  per-request index over the stores, the two status axes of a member and the rows of the listings.
\<close>

subsection \<open>Wire formats\<close>

text \<open>RFC 3339 at second precision, in UTC; an unreadable value passes through.\<close>

definition wireTime :: "string \<Rightarrow> string" where
  "wireTime s =
     (case parse_rfc3339 s of
        None \<Rightarrow> s
      | Some t \<Rightarrow>
          fmt_date (date_of_days (day_of t)) @ CHR ''T'' # digits 2 (hour_of t) @ CHR '':'' # digits 2 (minute_of t) @
          CHR '':'' # digits 2 (second_of t) @ ''Z'')"

definition wireTimePtr :: "string \<Rightarrow> string option" where
  "wireTimePtr s = (if s = [] then None else Some (wireTime s))"

datatype 'a http = HttpErr nat string detail | HttpOk nat 'a

definition apiErr :: "nat \<Rightarrow> string \<Rightarrow> detail \<Rightarrow> 'a http" where
  "apiErr st code msg = HttpErr st code msg"

definition writeGroupAPIErr :: "group_error \<Rightarrow> 'a http" where
  "writeGroupAPIErr e = (case e of
     ErrGroupNotFound _ \<Rightarrow> apiErr 404 ''TEAM_NOT_FOUND'' (GroupErr e)
   | ErrDuplicateName _ \<Rightarrow> apiErr 409 ''TEAM_NAME_DUPLICATE'' (GroupErr e)
   | ErrAmbiguousName _ _ \<Rightarrow> apiErr 400 ''VALIDATION_ERROR'' (GroupErr e)
   | ErrHasChildren _ _ \<Rightarrow> apiErr 409 ''TEAM_HAS_CHILDREN'' (GroupErr e)
   | _ \<Rightarrow> apiErr 400 ''TEAM_NAME_INVALID'' (GroupErr e))"

record 'a page_envelope =
  pe_Total :: nat
  pe_Page :: int
  pe_Size :: int
  pe_Items :: "'a list"

record batch_result =
  br_Succeeded :: "string list"
  br_Failed :: "(string \<times> string) list"

definition newBatchResult :: batch_result where
  "newBatchResult = \<lparr>br_Succeeded = [], br_Failed = []\<rparr>"

definition batch_ok :: "string \<Rightarrow> batch_result \<Rightarrow> batch_result" where
  "batch_ok i b = b\<lparr>br_Succeeded := br_Succeeded b @ [i]\<rparr>"

text \<open>The message of a failure is fixed by its code and is left out.\<close>

definition batch_fail :: "string \<Rightarrow> string \<Rightarrow> batch_result \<Rightarrow> batch_result" where
  "batch_fail i code b = b\<lparr>br_Failed := br_Failed b @ [(i, code)]\<rparr>"

subsection \<open>Paging and lists\<close>

definition parsePaging :: "string \<Rightarrow> string \<Rightarrow> detail + int \<times> int" where
  "parsePaging rawPage rawSize =
     (case (if rawPage = [] then Some 1 else case Atoi rawPage of None \<Rightarrow> None | Some n \<Rightarrow> if n < 1 then None else Some n) of
        None \<Rightarrow> Inl (Text ''page must be a positive integer'')
      | Some page \<Rightarrow>
          (case (if rawSize = [] then Some 10 else case Atoi rawSize of None \<Rightarrow> None | Some n \<Rightarrow> if n < 1 \<or> n > 100 then None else Some n) of
             None \<Rightarrow> Inl (Text ''size must be between 1 and 100'')
           | Some sz \<Rightarrow> Inr (page, sz)))"

definition pageSlice :: "'a list \<Rightarrow> int \<Rightarrow> int \<Rightarrow> 'a list \<times> nat" where
  "pageSlice items page sz =
     (let tot = int (length items) in
      if page > tot then ([], nat tot)
      else
        (let start = (page - 1) * sz in
         if start \<ge> tot then ([], nat tot)
         else (let e = (if start + sz > tot then tot else start + sz)
               in (take (nat (e - start)) (drop (nat start) items), nat tot))))"

fun split_comma :: "string \<Rightarrow> string list" where
  "split_comma [] = [[]]"
| "split_comma (c # cs) =
     (if c = CHR '','' then [] # split_comma cs
      else case split_comma cs of [] \<Rightarrow> [[c]] | w # ws \<Rightarrow> (c # w) # ws)"

definition commaList :: "string \<Rightarrow> string list" where
  "commaList raw = (if trim_space raw = [] then [] else filter (\<lambda>p. p \<noteq> []) (map trim_space (split_comma (trim_space raw))))"

definition contains_text :: "string \<Rightarrow> string \<Rightarrow> bool" where
  "contains_text s sub \<longleftrightarrow> list_ex (\<lambda>k. take (length sub) (drop k s) = sub) [0..<Suc (length s)]"

subsection \<open>The index\<close>

record membership_dto =
  md_TeamID :: string
  md_TeamName :: string
  md_Role :: string

record token_live =
  tl_lastUsed :: string
  tl_activatedAt :: string
  tl_expires :: string
  tl_expired :: bool

record user_index =
  ix_now :: time
  ix_groupNames :: "(string, string) gomap"
  ix_memberByID :: "(string, member) gomap"
  ix_tokenByEmail :: "(string, token_live) gomap"
  ix_membershipsByUser :: "(string, membership_dto list) gomap"
  ix_inheritedByUser :: "(string, membership_dto list) gomap"
  ix_latestInvite :: "(string, invite_view) gomap"

text \<open>\<open>m[k]\<close> on a map of texts: the empty text when absent.\<close>

definition text_at :: "('k, string) gomap \<Rightarrow> 'k \<Rightarrow> string" where
  "text_at m k = (case map_of m k of None \<Rightarrow> [] | Some v \<Rightarrow> v)"

definition put_all :: "('a \<Rightarrow> 'k) \<Rightarrow> ('a \<Rightarrow> 'v) \<Rightarrow> 'a list \<Rightarrow> ('k, 'v) gomap" where
  "put_all k v xs = fold (\<lambda>x. AList.update (k x) (v x)) xs []"

definition row_clock :: "env \<Rightarrow> nat \<Rightarrow> time" where
  "row_clock en i = en_clock en (32 + i)"

definition newIndex :: "env \<Rightarrow> console \<Rightarrow> user_index" where
  "newIndex en c = \<lparr>ix_now = en_clock en 5,
     ix_groupNames = put_all gi_ID gi_Name (case ListGroups (c_groups c) of None \<Rightarrow> [] | Some gs \<Rightarrow> gs),
     ix_memberByID = put_all m_ID id (members_List (c_members c)),
     ix_tokenByEmail = put_all ti_User
       (\<lambda>t. \<lparr>tl_lastUsed = ti_LastUsed t, tl_activatedAt = ti_ActivatedAt t, tl_expires = ti_Expires t, tl_expired = ti_Expired t\<rparr>)
       (ListTokens (row_clock en) (c_tokens c)),
     ix_membershipsByUser = [], ix_inheritedByUser = [],
     ix_latestInvite = fold (\<lambda>v m. if map_of m (vw_MemberID v) \<noteq> None then m else AList.update (vw_MemberID v) v m)
       (invites_List (c_invites c)) []\<rparr>"

definition putGroupAccess :: "string \<Rightarrow> group_access_view \<Rightarrow> user_index \<Rightarrow> user_index" where
  "putGroupAccess i ga idx =
     (let idx = (if ga_Direct ga = [] then idx else idx\<lparr>ix_membershipsByUser :=
            AList.update i (map (\<lambda>m. \<lparr>md_TeamID = mb_GroupID m, md_TeamName = text_at (ix_groupNames idx) (mb_GroupID m), md_Role = mb_Role m\<rparr>) (ga_Direct ga))
              (ix_membershipsByUser idx)\<rparr>)
      in if ga_Inherited ga = [] then idx else idx\<lparr>ix_inheritedByUser :=
            AList.update i (map (\<lambda>gid. \<lparr>md_TeamID = gid, md_TeamName = text_at (ix_groupNames idx) gid, md_Role = RoleRead\<rparr>) (ga_Inherited ga))
              (ix_inheritedByUser idx)\<rparr>)"

definition fillGroupAccess :: "console \<Rightarrow> user_index \<Rightarrow> user_index" where
  "fillGroupAccess c idx =
     (let access = GroupAccessByUser (c_groups c)
      in fold (\<lambda>(i, _) idx. case map_of access i of None \<Rightarrow> idx | Some ga \<Rightarrow> putGroupAccess i ga idx) (ix_memberByID idx) idx)"

subsection \<open>Statuses\<close>

definition invitePendingLive :: "invite_view \<Rightarrow> time \<Rightarrow> bool" where
  "invitePendingLive iv now =
     (if vw_Status iv \<noteq> StatusPending then False
      else if vw_ExpiresAt iv = [] then True
      else case parse_rfc3339 (vw_ExpiresAt iv) of None \<Rightarrow> True | Some t \<Rightarrow> now < t)"

definition inviteExpired :: "user_index \<Rightarrow> invite_view \<Rightarrow> bool" where
  "inviteExpired idx iv =
     (if vw_Status iv = StatusExpired \<or> vw_Status iv = StatusCompromised \<or> vw_Status iv = StatusRevoked then True
      else if vw_Status iv = StatusPending \<and> vw_ExpiresAt iv \<noteq> [] then
        (case parse_rfc3339 (vw_ExpiresAt iv) of None \<Rightarrow> False | Some t \<Rightarrow> ix_now idx > t)
      else False)"

record member_statuses =
  st_invitation :: string
  st_session :: string

definition statuses :: "user_index \<Rightarrow> member \<Rightarrow> member_statuses" where
  "statuses idx m =
     (let session = (if m_Status m = StatusActive \<and>
             (case map_of (ix_tokenByEmail idx) (m_Email m) of None \<Rightarrow> False | Some lv \<Rightarrow> \<not> tl_expired lv \<and> tl_activatedAt lv \<noteq> [])
           then ''online'' else ''offline'');
          redeemed = (m_Status m = StatusActive \<or> m_Status m = StatusDisabled);
          iv = map_of (ix_latestInvite idx) (m_ID m)
      in if (case iv of None \<Rightarrow> False | Some v \<Rightarrow> invitePendingLive v (ix_now idx)) then \<lparr>st_invitation = ''invite_pending'', st_session = session\<rparr>
         else if redeemed then \<lparr>st_invitation = ''invite_redeemed'', st_session = session\<rparr>
         else if (case iv of None \<Rightarrow> False | Some v \<Rightarrow> inviteExpired idx v) then \<lparr>st_invitation = ''invite_expired'', st_session = session\<rparr>
         else \<lparr>st_invitation = ''invite_pending'', st_session = session\<rparr>)"

subsection \<open>Rows\<close>

record user_dto =
  ud_UserID :: string
  ud_Account :: string
  ud_Username :: string
  ud_InvitationStatus :: string
  ud_SessionStatus :: string
  ud_Memberships :: "membership_dto list"
  ud_InheritedMemberships :: "membership_dto list"
  ud_LastAccessAt :: "string option"
  ud_LastInvitedAt :: "string option"
  ud_SessionExpiredAt :: "string option"

definition list_at :: "('k, 'v list) gomap \<Rightarrow> 'k \<Rightarrow> 'v list" where
  "list_at m k = (case map_of m k of None \<Rightarrow> [] | Some v \<Rightarrow> v)"

definition userDTO :: "user_index \<Rightarrow> member \<Rightarrow> user_dto" where
  "userDTO idx m =
     (let ms = sort_key md_TeamName (list_at (ix_membershipsByUser idx) (m_ID m));
          ims = sort_key md_TeamName (list_at (ix_inheritedByUser idx) (m_ID m));
          lastInvited = (case map_of (ix_latestInvite idx) (m_ID m) of None \<Rightarrow> None
            | Some iv \<Rightarrow> if vw_CreatedAt iv \<noteq> [] then wireTimePtr (vw_CreatedAt iv) else None);
          lv = map_of (ix_tokenByEmail idx) (m_Email m);
          lastAccess = (case lv of None \<Rightarrow> None | Some t \<Rightarrow> if tl_lastUsed t \<noteq> [] then wireTimePtr (tl_lastUsed t) else None);
          sessionExpired = (if m_SessionExpiredAt m \<noteq> [] then wireTimePtr (m_SessionExpiredAt m)
            else case lv of None \<Rightarrow> None
            | Some t \<Rightarrow> if tl_expired t \<and> tl_expires t \<noteq> [] \<and> tl_expires t \<noteq> ''never'' then wireTimePtr (tl_expires t) else None);
          st = statuses idx m
      in \<lparr>ud_UserID = m_ID m, ud_Account = m_Email m, ud_Username = m_DisplayName m, ud_InvitationStatus = st_invitation st,
          ud_SessionStatus = st_session st, ud_Memberships = ms, ud_InheritedMemberships = ims, ud_LastAccessAt = lastAccess,
          ud_LastInvitedAt = lastInvited, ud_SessionExpiredAt = sessionExpired\<rparr>)"

text \<open>\<open>MarshalJSON\<close>: one list of memberships, direct ones first.\<close>

record user_wire =
  uw_UserID :: string
  uw_Account :: string
  uw_Username :: string
  uw_InvitationStatus :: string
  uw_SessionStatus :: string
  uw_Memberships :: "membership_dto list"
  uw_LastAccessAt :: "string option"
  uw_LastInvitedAt :: "string option"
  uw_SessionExpiredAt :: "string option"

definition wire_of_user :: "user_dto \<Rightarrow> user_wire" where
  "wire_of_user u = \<lparr>uw_UserID = ud_UserID u, uw_Account = ud_Account u, uw_Username = ud_Username u,
     uw_InvitationStatus = ud_InvitationStatus u, uw_SessionStatus = ud_SessionStatus u,
     uw_Memberships = ud_Memberships u @ ud_InheritedMemberships u, uw_LastAccessAt = ud_LastAccessAt u,
     uw_LastInvitedAt = ud_LastInvitedAt u, uw_SessionExpiredAt = ud_SessionExpiredAt u\<rparr>"

definition hasTeam :: "membership_dto list \<Rightarrow> string \<Rightarrow> bool" where
  "hasTeam ms teamID \<longleftrightarrow> list_ex (\<lambda>m. md_TeamID m = teamID) ms"

definition coversTeam :: "user_dto \<Rightarrow> string \<Rightarrow> bool" where
  "coversTeam u teamID \<longleftrightarrow> hasTeam (ud_Memberships u) teamID \<or> hasTeam (ud_InheritedMemberships u) teamID"

definition validSessionStatus :: "string \<Rightarrow> bool" where
  "validSessionStatus s \<longleftrightarrow> s = ''online'' \<or> s = ''offline''"

record member_dto =
  mt_UserID :: string
  mt_Account :: string
  mt_Username :: string
  mt_Role :: string
  mt_InvitationStatus :: string
  mt_SessionStatus :: string
  mt_JoinedAt :: string

definition consoleTeamMemberDTO :: "user_index \<Rightarrow> console_team_member \<Rightarrow> member_dto" where
  "consoleTeamMemberDTO idx m =
     (case map_of (ix_memberByID idx) (cm_User m) of
        None \<Rightarrow> \<lparr>mt_UserID = cm_User m, mt_Account = [], mt_Username = [], mt_Role = cm_Role m,
          mt_InvitationStatus = ''invite_pending'', mt_SessionStatus = ''offline'', mt_JoinedAt = wireTime (cm_GrantedAt m)\<rparr>
      | Some mem \<Rightarrow>
          (let st = statuses idx mem
           in \<lparr>mt_UserID = cm_User m, mt_Account = m_Email mem, mt_Username = m_DisplayName mem, mt_Role = cm_Role m,
               mt_InvitationStatus = st_invitation st, mt_SessionStatus = st_session st, mt_JoinedAt = wireTime (cm_GrantedAt m)\<rparr>))"

definition memberDTO :: "user_index \<Rightarrow> membership \<Rightarrow> member_dto" where
  "memberDTO idx m = consoleTeamMemberDTO idx \<lparr>cm_User = mb_User m, cm_Role = mb_Role m, cm_SourceGroupID = mb_GroupID m,
     cm_GrantedAt = mb_GrantedAt m, cm_Inherited = False\<rparr>"

subsection \<open>Read-only handlers\<close>

definition teamsTree :: "console \<Rightarrow> console_tree_node list http" where
  "teamsTree c = HttpOk 200 (case ConsoleTree (c_groups c) of None \<Rightarrow> [] | Some ns \<Rightarrow> ns)"

definition wire_detail :: "console_team_detail \<Rightarrow> console_team_detail" where
  "wire_detail d = d\<lparr>cd_CreatedAt := wireTime (cd_CreatedAt d)\<rparr>"

definition teamDetail :: "string \<Rightarrow> console \<Rightarrow> console_team_detail http" where
  "teamDetail ref c = (case TeamDetail (c_groups c) ref of Inl e \<Rightarrow> writeGroupAPIErr e | Inr d \<Rightarrow> HttpOk 200 (wire_detail d))"

definition groupID :: "string \<Rightarrow> console \<Rightarrow> group_error + string" where
  "groupID ref c = (case TeamDetail (c_groups c) ref of Inl e \<Rightarrow> Inl e | Inr d \<Rightarrow> Inr (cd_ID d))"

definition envelope :: "'a list \<Rightarrow> int \<Rightarrow> int \<Rightarrow> 'a page_envelope http" where
  "envelope items page sz =
     (case pageSlice items page sz of (xs, tot) \<Rightarrow> HttpOk 200 \<lparr>pe_Total = tot, pe_Page = page, pe_Size = sz, pe_Items = xs\<rparr>)"

definition teamMembers :: "env \<Rightarrow> string \<Rightarrow> string \<Rightarrow> string \<Rightarrow> console \<Rightarrow> member_dto page_envelope http" where
  "teamMembers en rawPage rawSize ref c =
     (case parsePaging rawPage rawSize of
        Inl d \<Rightarrow> apiErr 400 ''VALIDATION_ERROR'' d
      | Inr (page, sz) \<Rightarrow>
          (case groupID ref c of
             Inl e \<Rightarrow> writeGroupAPIErr e
           | Inr gid \<Rightarrow>
               (let idx = newIndex en c;
                    items = map (consoleTeamMemberDTO idx) (case ConsoleTeamMembers (c_groups c) gid of None \<Rightarrow> [] | Some ms \<Rightarrow> ms)
                in envelope (sort_key mt_Account items) page sz)))"

record users_query =
  uq_page :: string
  uq_size :: string
  uq_search :: string
  uq_status :: string
  uq_teamId :: string
  uq_sort :: string

definition recent :: "string option \<Rightarrow> string" where
  "recent t = (case t of None \<Rightarrow> [] | Some s \<Rightarrow> s)"

text \<open>A stable descending sort: reverse, sort ascending, reverse.\<close>

definition sort_desc :: "('a \<Rightarrow> 'k :: linorder) \<Rightarrow> 'a list \<Rightarrow> 'a list" where
  "sort_desc k xs = rev (sort_key k (rev xs))"

definition usersList :: "(string \<Rightarrow> string) \<Rightarrow> env \<Rightarrow> users_query \<Rightarrow> console \<Rightarrow> user_dto page_envelope http" where
  "usersList lower en q c =
     (case parsePaging (uq_page q) (uq_size q) of
        Inl d \<Rightarrow> apiErr 400 ''VALIDATION_ERROR'' d
      | Inr (page, sz) \<Rightarrow>
          (let search = lower (trim_space (uq_search q)); statusFilter = trim_space (uq_status q); teamFilter = trim_space (uq_teamId q);
               sortKey = (if trim_space (uq_sort q) = [] then ''last_invited'' else trim_space (uq_sort q))
           in if statusFilter \<noteq> [] \<and> \<not> validSessionStatus statusFilter then apiErr 400 ''VALIDATION_ERROR'' (Text (''unknown status filter: '' @ statusFilter))
              else if sortKey \<notin> {''last_invited'', ''username'', ''account''} then apiErr 400 ''VALIDATION_ERROR'' (Text (''unknown sort: '' @ sortKey))
              else
                (let idx = fillGroupAccess c (newIndex en c);
                     items = filter (\<lambda>u. (search = [] \<or> contains_text (lower (ud_Account u)) search \<or> contains_text (lower (ud_Username u)) search) \<and>
                         (statusFilter = [] \<or> ud_SessionStatus u = statusFilter) \<and> (teamFilter = [] \<or> coversTeam u teamFilter))
                       (map (userDTO idx) (members_List (c_members c)));
                     sorted = (if sortKey = ''username'' then sort_key ud_Username (sort_key ud_Account items)
                       else if sortKey = ''account'' then sort_key ud_Account items
                       else sort_desc (\<lambda>u. recent (ud_LastInvitedAt u)) (sort_key ud_Account items))
                 in envelope sorted page sz)))"

definition userDetail :: "env \<Rightarrow> string \<Rightarrow> console \<Rightarrow> user_dto http" where
  "userDetail en i c =
     (case members_Get i (c_members c) of
        Inl _ \<Rightarrow> apiErr 404 ''USER_NOT_FOUND'' (Text ''no such user'')
      | Inr m \<Rightarrow> HttpOk 200 (userDTO (putGroupAccess (m_ID m) (GroupAccess (c_groups c) (m_ID m)) (newIndex en c)) m))"

definition userStats :: "env \<Rightarrow> console \<Rightarrow> nat http" where
  "userStats en c =
     (let idx = newIndex en c
      in HttpOk 200 (length (filter (\<lambda>m. st_invitation (statuses idx m) = ''invite_pending'') (members_List (c_members c)))))"

record history_row =
  hr_Account :: string
  hr_Username :: string
  hr_IssuedAt :: string
  hr_LastAccessAt :: "string option"

definition invitationsHistory :: "env \<Rightarrow> string \<Rightarrow> string \<Rightarrow> string \<Rightarrow> console \<Rightarrow> history_row page_envelope http" where
  "invitationsHistory en rawPage rawSize rawSort c =
     (case parsePaging rawPage rawSize of
        Inl d \<Rightarrow> apiErr 400 ''VALIDATION_ERROR'' d
      | Inr (page, sz) \<Rightarrow>
          (let idx = newIndex en c;
               rows = map (\<lambda>iv. \<lparr>hr_Account = vw_Email iv,
                   hr_Username = (case map_of (ix_memberByID idx) (vw_MemberID iv) of None \<Rightarrow> [] | Some m \<Rightarrow> m_DisplayName m),
                   hr_IssuedAt = wireTime (vw_CreatedAt iv),
                   hr_LastAccessAt = (case map_of (ix_tokenByEmail idx) (vw_Email iv) of None \<Rightarrow> None
                     | Some lv \<Rightarrow> if tl_lastUsed lv \<noteq> [] then wireTimePtr (tl_lastUsed lv) else None)\<rparr>) (invites_List (c_invites c));
               sortKey = (if rawSort = [] then ''last_access'' else rawSort)
           in if sortKey = ''username'' then envelope (sort_key hr_Username (sort_key hr_Account rows)) page sz
              else if sortKey = ''issued_at'' then envelope rows page sz
              else if sortKey = ''last_access'' then envelope (sort_desc (\<lambda>r. recent (hr_LastAccessAt r)) rows) page sz
              else apiErr 400 ''VALIDATION_ERROR'' (Text (''unknown sort: '' @ sortKey))))"

end
