(* ===== verification/Console_Api.thy ===== *)
theory Console_Api
  imports Console_Index Regstr
begin

text \<open>
  The handlers of the console's HTTP surface that change the stores
  (\<open>internal/server/console_api.go\<close>, \<open>console_api_users.go\<close>, \<open>console_api_teamdelete.go\<close>,
  \<open>selfinvite.go\<close>, \<open>mailer.go\<close>). A request body is what \<open>readJSON\<close> made of it: a value, or the
  decoder's error. Every call into a store takes its own clock reading, fault and entropy from the
  surroundings, so one may fail while the others succeed.
\<close>

subsection \<open>Calls into the stores\<close>

definition on_groups :: "(group_store \<Rightarrow> 'r \<times> group_store) \<Rightarrow> console \<Rightarrow> 'r \<times> console" where
  "on_groups f c = (case f (c_groups c) of (r, s) \<Rightarrow> (r, c\<lparr>c_groups := s\<rparr>))"

definition on_tokens :: "(token_store \<Rightarrow> 'r \<times> token_store) \<Rightarrow> console \<Rightarrow> 'r \<times> console" where
  "on_tokens f c = (case f (c_tokens c) of (r, s) \<Rightarrow> (r, c\<lparr>c_tokens := s\<rparr>))"

definition on_members :: "(members_store \<Rightarrow> 'r \<times> members_store) \<Rightarrow> console \<Rightarrow> 'r \<times> console" where
  "on_members f c = (case f (c_members c) of (r, s) \<Rightarrow> (r, c\<lparr>c_members := s\<rparr>))"

definition on_invites :: "(invite_store \<Rightarrow> 'r \<times> invite_store) \<Rightarrow> console \<Rightarrow> 'r \<times> console" where
  "on_invites f c = (case f (c_invites c) of (r, s) \<Rightarrow> (r, c\<lparr>c_invites := s\<rparr>))"

text \<open>The surroundings of the \<open>i\<close>-th round of a loop.\<close>

definition round_env :: "nat \<Rightarrow> env \<Rightarrow> env" where
  "round_env i en = en\<lparr>en_clock := (\<lambda>k. en_clock en (k + 1000 * (i + 1))), en_fault := (\<lambda>k. en_fault en (k + 1000 * (i + 1))),
     en_rand := (\<lambda>k. en_rand en (k + 1000 * (i + 1)))\<rparr>"

subsection \<open>Mail\<close>

type_synonym mailer = "string \<Rightarrow> string \<Rightarrow> clear_bundle \<Rightarrow> detail option"

record mail_conf =
  mc_mailer :: mailer
  mc_ttl :: int

text \<open>
  \<open>cloudMailer.SendInvite\<close>: the relay of the cloud and the JSON codec are arguments. Without an
  operator session or a certificate to pin nothing is sent.
\<close>

definition cloudMailer_SendInvite :: "(string \<Rightarrow> string \<Rightarrow> string \<Rightarrow> string \<Rightarrow> string \<Rightarrow> detail option) \<Rightarrow> (registration \<Rightarrow> string) \<Rightarrow> hash \<Rightarrow>
    env \<Rightarrow> config \<Rightarrow> string \<Rightarrow> string \<Rightarrow> mailer" where
  "cloudMailer_SendInvite relay marshal sha256 en cfg cookie endpoint to toName b =
     (if cookie = [] then Some (Text ''no operator cloud session on the request; cannot relay invite'')
      else case caPEMAndPin sha256 en cfg of
        Inl d \<Rightarrow> Some d
      | Inr (_, pin) \<Rightarrow>
          (let reg = Encode marshal \<lparr>rg_Version = 0, rg_Endpoint = endpoint, rg_Token = cb_Handle b, rg_CASHA256 = pin\<rparr>;
               toName = (if toName = [] then to else toName)
           in relay cookie to toName reg (cb_ExpiresAt b)))"

subsection \<open>Issuing codes\<close>

definition consoleInviteTokenRole :: string where "consoleInviteTokenRole = ''member''"

definition hasValidToken :: "env \<Rightarrow> string \<Rightarrow> console \<Rightarrow> bool" where
  "hasValidToken en email c \<longleftrightarrow> list_ex (\<lambda>t. ti_User t = email \<and> \<not> ti_Expired t) (ListTokens (row_clock en) (c_tokens c))"

definition tokenExistsForUser :: "env \<Rightarrow> string \<Rightarrow> console \<Rightarrow> bool" where
  "tokenExistsForUser en user c \<longleftrightarrow> list_ex (\<lambda>t. ti_User t = user) (ListTokens (row_clock en) (c_tokens c))"

definition needsCode :: "env \<Rightarrow> member \<Rightarrow> console \<Rightarrow> bool" where
  "needsCode en m c =
     (if m_Status m = StatusActive \<and> hasValidToken en (m_Email m) c then False
      else case LatestByMember (m_ID m) (c_invites c) of
        None \<Rightarrow> True
      | Some v \<Rightarrow> \<not> invitePendingLive v (en_clock en 6))"

text \<open>The token to wrap: the rotated one of a user who has one, otherwise a fresh one.\<close>

definition mint_token :: "env \<Rightarrow> bool \<Rightarrow> string \<Rightarrow> console \<Rightarrow> (token_error + token) \<times> console" where
  "mint_token en rotated email c =
     (if rotated then on_tokens (RotateToken (en_fault en 10) (en_rand en 10) (en_clock en 10) email) c
      else on_tokens (AddToken (en_fault en 10) (en_rand en 10) (en_clock en 10) email None) c)"

text \<open>Undoing a mint; a refusal is ignored.\<close>

definition unmint :: "env \<Rightarrow> bool \<Rightarrow> string \<Rightarrow> console \<Rightarrow> console" where
  "unmint en rotated email c = (if rotated then c else snd (on_tokens (RevokeToken (en_fault en 13) email) c))"

definition invite_params :: "mail_conf \<Rightarrow> member \<Rightarrow> string \<Rightarrow> issue_params" where
  "invite_params mc m tokenValue = \<lparr>ip_MemberID = m_ID m, ip_Email = m_Email m, ip_Role = consoleInviteTokenRole,
     ip_TokenValue = tokenValue, ip_CreationPath = inviteCreationPath, ip_TTL = mc_ttl mc\<rparr>"

definition advance_member :: "env \<Rightarrow> bool \<Rightarrow> member \<Rightarrow> console \<Rightarrow> (member_error + unit) \<times> console" where
  "advance_member en wasOnline m c =
     (if wasOnline then (Inr (), c)
      else if m_Status m = StatusActive then on_members (Reinvite (en_fault en 12) (m_ID m)) c
      else on_members (MarkInvited (en_fault en 12) (m_ID m)) c)"

definition issueCode :: "mail_conf \<Rightarrow> env \<Rightarrow> member \<Rightarrow> console \<Rightarrow> (detail + unit) \<times> console" where
  "issueCode mc en m c =
     (let wasOnline = (m_Status m = StatusActive \<and> hasValidToken en (m_Email m) c);
          rotated = tokenExistsForUser en (m_Email m) c
      in case mint_token en rotated (m_Email m) c of
        (Inl e, c) \<Rightarrow> (Inl (TokenErr e), c)
      | (Inr t, c) \<Rightarrow>
          (case on_invites (Issue (en_fault en 11) (en_rand en 11) (en_rand en 12) (en_clock en 11) (invite_params mc m (tk_Token t))) c of
             (Inl e, c) \<Rightarrow> (Inl (InviteErr e), unmint en rotated (m_Email m) c)
           | (Inr bundle, c) \<Rightarrow>
               (case advance_member en wasOnline m c of
                  (Inl e, c) \<Rightarrow>
                    (Inl (ActivateErr e),
                     unmint en rotated (m_Email m) (snd (on_invites (RevokePending (en_fault en 14) (en_clock en 14) (cb_Handle bundle)) c)))
                | (Inr _, c) \<Rightarrow>
                    (case mc_mailer mc (m_Email m) (m_DisplayName m) bundle of
                       Some d \<Rightarrow> (Inl d, snd (on_invites (RevokePending (en_fault en 14) (en_clock en 14) (cb_Handle bundle)) c))
                     | None \<Rightarrow> (Inr (), c)))))"

subsection \<open>Teams\<close>

text \<open>The read-back after a change; a failure of it leaves the zero value in the response.\<close>

definition detail_or_zero :: "string \<Rightarrow> console \<Rightarrow> console_team_detail" where
  "detail_or_zero i c = (case TeamDetail (c_groups c) i of
     Inl _ \<Rightarrow> wire_detail \<lparr>cd_ID = [], cd_Name = [], cd_ParentID = None, cd_Children = [], cd_MemberCount = 0, cd_CreatedAt = []\<rparr>
   | Inr d \<Rightarrow> wire_detail d)"

definition createTeam :: "env \<Rightarrow> string \<Rightarrow> string + string \<times> string \<Rightarrow> console \<Rightarrow> console_team_detail http \<times> console" where
  "createTeam en actor body c =
     (case body of
        Inl e \<Rightarrow> (apiErr 400 ''VALIDATION_ERROR'' (Text e), c)
      | Inr (name, parentID) \<Rightarrow>
          if trim_space name = [] then (apiErr 400 ''TEAM_NAME_INVALID'' (Text ''name is required''), c)
          else (case on_groups (CreateGroup (en_fault en 0) (en_rand en 0) (en_clock en 0) name parentID) c of
             (Inl e, c) \<Rightarrow> (writeGroupAPIErr e, c)
           | (Inr g, c) \<Rightarrow>
               (let c = auditAdmin en ''admin.group.create'' actor (g_Name g) c in (HttpOk 201 (detail_or_zero (g_ID g) c), c))))"

definition renameTeam :: "env \<Rightarrow> string \<Rightarrow> string \<Rightarrow> string + string \<Rightarrow> console \<Rightarrow> console_team_detail http \<times> console" where
  "renameTeam en actor ref body c =
     (case body of
        Inl e \<Rightarrow> (apiErr 400 ''VALIDATION_ERROR'' (Text e), c)
      | Inr name \<Rightarrow>
          if trim_space name = [] then (apiErr 400 ''TEAM_NAME_INVALID'' (Text ''name is required''), c)
          else (case on_groups (RenameGroup (en_fault en 0) ref name) c of
             (Inl e, c) \<Rightarrow> (writeGroupAPIErr e, c)
           | (Inr g, c) \<Rightarrow>
               (let c = auditAdmin en ''admin.group.rename'' actor (g_Name g) c in (HttpOk 200 (detail_or_zero (g_ID g) c), c))))"

text \<open>The memory first, so that a failure leaves everything in place; then the team with its members.\<close>

definition remove_team :: "env \<Rightarrow> string \<Rightarrow> string \<Rightarrow> string \<Rightarrow> console \<Rightarrow> unit http \<times> console" where
  "remove_team en actor action ref c =
     (case on_groups (DeleteGroupWithMembers (en_fault en 0) ref) c of
        (Inl e, c) \<Rightarrow> (writeGroupAPIErr e, c)
      | (Inr (g, _), c) \<Rightarrow>
          (HttpOk 204 (), auditAdmin en ''admin.group.delete'' actor (g_Name g @ '' ('' @ g_ID g @ '') memory='' @ action) c))"

definition deleteTeam :: "env \<Rightarrow> string \<Rightarrow> string \<Rightarrow> string \<Rightarrow> string \<Rightarrow> console \<Rightarrow> unit http \<times> console" where
  "deleteTeam en actor ref action target c =
     (case TeamDetail (c_groups c) ref of
        Inl e \<Rightarrow> (writeGroupAPIErr e, c)
      | Inr d \<Rightarrow>
          if cd_Children d \<noteq> [] then (apiErr 409 ''TEAM_HAS_CHILDREN'' (Text ''team has child teams; delete them first''), c)
          else if action = ''transfer'' then
            (if target = [] then (apiErr 400 ''VALIDATION_ERROR'' (Text ''targetTeamId is required for memoryAction=transfer''), c)
             else case TeamDetail (c_groups c) target of
               Inl _ \<Rightarrow> (apiErr 404 ''TEAM_NOT_FOUND'' (Text ''target team not found''), c)
             | Inr t \<Rightarrow>
                 if cd_ID t = cd_ID d then (apiErr 400 ''VALIDATION_ERROR'' (Text ''cannot transfer a team's memory to itself''), c)
                 else (case ReassignGroupTag en (cd_ID d) (cd_ID t) actor c of
                    (Inl _, c) \<Rightarrow> (apiErr 500 ''INTERNAL_ERROR'' (Text ''failed to transfer team memory''), c)
                  | (Inr _, c) \<Rightarrow> remove_team en actor action ref c))
          else if action = ''purge'' then
            (case RemoveGroupTag en (cd_ID d) actor c of
               (Inl _, c) \<Rightarrow> (apiErr 500 ''INTERNAL_ERROR'' (Text ''failed to purge team memory''), c)
             | (Inr _, c) \<Rightarrow> remove_team en actor action ref c)
          else (apiErr 400 ''VALIDATION_ERROR'' (Text ''memoryAction must be transfer or purge''), c))"

end
