(* ===== verification/Console_Handlers.thy ===== *)
theory Console_Handlers
  imports Console_Api
begin

text \<open>
  The handlers that work on members: the members of a team, the batches, sessions and invitations
  (\<open>internal/server/console_api.go\<close>, \<open>console_api_users.go\<close>, \<open>selfinvite.go\<close>). A batch is a fold of
  its step over the requested items; the \<open>k\<close>-th step runs in the surroundings of the \<open>k\<close>-th round.
\<close>

primrec rounds :: "(env \<Rightarrow> 'a \<Rightarrow> 'r \<times> console \<Rightarrow> 'r \<times> console) \<Rightarrow> env \<Rightarrow> nat \<Rightarrow> 'a list \<Rightarrow> 'r \<times> console \<Rightarrow> 'r \<times> console" where
  "rounds f en k [] st = st"
| "rounds f en k (x # xs) st = rounds f en (Suc k) xs (f (round_env k en) x st)"

definition has_direct :: "string \<Rightarrow> string \<Rightarrow> console \<Rightarrow> bool" where
  "has_direct user ref c = (case DirectRole (c_groups c) user ref of Inl _ \<Rightarrow> False | Inr r \<Rightarrow> r \<noteq> None)"

definition parsed_role :: "string \<Rightarrow> role" where
  "parsed_role s = (case ParseRole s of None \<Rightarrow> [] | Some r \<Rightarrow> r)"

definition bad_role :: "string \<Rightarrow> 'a http" where
  "bad_role r = apiErr 400 ''VALIDATION_ERROR'' (GroupErr (InvalidRole r))"

text \<open>The first role of a list of updates that does not parse.\<close>

definition invalid_role :: "(string \<times> string) list \<Rightarrow> string option" where
  "invalid_role us = map_option snd (find (\<lambda>(_, r). ParseRole r = None) us)"

definition no_user :: "'a http" where
  "no_user = apiErr 404 ''USER_NOT_FOUND'' (Text ''no such user'')"

definition mail_failed :: "'a http" where
  "mail_failed = apiErr 502 ''MAIL_UPSTREAM_ERROR'' (Text ''failed to send the invitation code email'')"

subsection \<open>Members of a team\<close>

record add_member_body =
  am_Account :: string
  am_Username :: string
  am_Role :: string

text \<open>The account's row, created when there is none; the flag tells which.\<close>

definition get_or_add :: "env \<Rightarrow> string \<Rightarrow> string \<Rightarrow> console \<Rightarrow> (member_error + member \<times> bool) \<times> console" where
  "get_or_add en account username c =
     (case GetByEmail account (c_members c) of
        Inr m \<Rightarrow> (Inr (m, False), c)
      | Inl _ \<Rightarrow>
          (case on_members (members_Add (en_fault en 1) (en_rand en 1) (en_clock en 1) account username) c of
             (Inl e, c) \<Rightarrow> (Inl e, c)
           | (Inr m, c) \<Rightarrow> (Inr (m, True), c)))"

definition drop_if_new :: "env \<Rightarrow> string \<Rightarrow> bool \<Rightarrow> console \<Rightarrow> console" where
  "drop_if_new en i isNew c = (if isNew then snd (on_members (members_Remove (en_fault en 15) i) c) else c)"

definition addTeamMember :: "mail_conf \<Rightarrow> env \<Rightarrow> string \<Rightarrow> string \<Rightarrow> string + add_member_body \<Rightarrow> console \<Rightarrow> member_dto http \<times> console" where
  "addTeamMember mc en actor ref body c =
     (case body of
        Inl e \<Rightarrow> (apiErr 400 ''VALIDATION_ERROR'' (Text e), c)
      | Inr b \<Rightarrow>
        (case ParseRole (am_Role b) of
          None \<Rightarrow> (bad_role (am_Role b), c)
        | Some role \<Rightarrow>
          (case groupID ref c of
            Inl e \<Rightarrow> (writeGroupAPIErr e, c)
          | Inr _ \<Rightarrow>
            (case get_or_add en (am_Account b) (am_Username b) c of
              (Inl e, c) \<Rightarrow> (apiErr 400 ''VALIDATION_ERROR'' (ActivateErr e), c)
            | (Inr (m, newMember), c) \<Rightarrow>
              if has_direct (m_ID m) ref c
              then (apiErr 409 ''ALREADY_TEAM_MEMBER'' (Text ''user is already a member of this team''), c)
              else
              (case on_groups (Grant (en_fault en 2) (en_clock en 2) (m_ID m) ref role (localAdminActor actor)) c of
                (Inl e, c) \<Rightarrow> (writeGroupAPIErr e, drop_if_new en (m_ID m) newMember c)
              | (Inr mem, c) \<Rightarrow>
                (let fin = (\<lambda>c. let c = auditAdmin en ''admin.group.grant'' actor (am_Account b @ '' @ '' @ ref @ '' ('' @ am_Role b @ '')'') c
                        in (HttpOk 201 (memberDTO (newIndex (round_env 1 en) c) mem), c))
                 in if needsCode en m c then
                      (case issueCode mc (round_env 0 en) m c of
                         (Inl _, c) \<Rightarrow>
                           (mail_failed, drop_if_new en (m_ID m) newMember
                              (snd (on_groups (RevokeDirectGrant (en_fault en 3) (m_ID m) ref) c)))
                       | (Inr _, c) \<Rightarrow> fin c)
                    else fin c))))))"

text \<open>
  Changing roles: editable for a direct member, and for a reader by inheritance, who gets a direct
  grant. Every role is parsed before anything changes.
\<close>

definition team_role_step :: "string \<Rightarrow> string \<Rightarrow> string \<Rightarrow> env \<Rightarrow> string \<times> string \<Rightarrow> batch_result \<times> console \<Rightarrow> batch_result \<times> console" where
  "team_role_step actor ref gid en u st =
     (case (u, st) of ((uid, r), (res, c)) \<Rightarrow>
        (case members_Get uid (c_members c) of
           Inl _ \<Rightarrow> (batch_fail uid ''USER_NOT_FOUND'' res, c)
         | Inr _ \<Rightarrow>
             if \<not> has_direct uid ref c \<and> \<not> InheritsRead (c_groups c) uid gid then (batch_fail uid ''NOT_TEAM_MEMBER'' res, c)
             else (case on_groups (Grant (en_fault en 2) (en_clock en 2) uid ref (parsed_role r) (localAdminActor actor)) c of
               (Inl _, c) \<Rightarrow> (batch_fail uid ''NOT_TEAM_MEMBER'' res, c)
             | (Inr _, c) \<Rightarrow> (batch_ok uid res, c))))"

definition teamRolesBatch :: "env \<Rightarrow> string \<Rightarrow> string \<Rightarrow> string + (string \<times> string) list \<Rightarrow> console \<Rightarrow> batch_result http \<times> console" where
  "teamRolesBatch en actor ref body c =
     (case body of
        Inl e \<Rightarrow> (apiErr 400 ''VALIDATION_ERROR'' (Text e), c)
      | Inr updates \<Rightarrow>
          (case groupID ref c of
             Inl e \<Rightarrow> (writeGroupAPIErr e, c)
           | Inr gid \<Rightarrow>
               (case invalid_role updates of Some r \<Rightarrow> (bad_role r, c) | None \<Rightarrow>
                case rounds (team_role_step actor ref gid) en 0 updates (newBatchResult, c) of
                 (res, c) \<Rightarrow> (HttpOk 200 res, auditAdmin en ''admin.group.grant'' actor (''batch role change @ '' @ ref) c))))"

text \<open>
  Taking access away: the direct grant and what an ancestor would still give, in one transaction.
  A refusal of the store leaves the access in place and is reported as such.
\<close>

definition revoke_item :: "string \<Rightarrow> string \<Rightarrow> string \<Rightarrow> string \<Rightarrow> env \<Rightarrow> batch_result \<times> console \<Rightarrow> batch_result \<times> console" where
  "revoke_item item actor uid ref en st =
     (case st of (res, c) \<Rightarrow>
        (case on_groups (Revoke (en_fault en 2) (en_clock en 2) uid ref (localAdminActor actor)) c of
           (Inl (ErrGroupNotFound _), c) \<Rightarrow> (batch_fail item ''TEAM_NOT_FOUND'' res, c)
         | (Inl _, c) \<Rightarrow> (batch_fail item ''INTERNAL'' res, c)
         | (Inr (revoked, excluded), c) \<Rightarrow>
             if \<not> revoked \<and> \<not> excluded then (batch_fail item ''NOT_TEAM_MEMBER'' res, c) else (batch_ok item res, c)))"

definition team_remove_step :: "string \<Rightarrow> string \<Rightarrow> env \<Rightarrow> string \<Rightarrow> batch_result \<times> console \<Rightarrow> batch_result \<times> console" where
  "team_remove_step actor ref en uid st =
     (case members_Get uid (c_members (snd st)) of
        Inl _ \<Rightarrow> (batch_fail uid ''USER_NOT_FOUND'' (fst st), snd st)
      | Inr _ \<Rightarrow> revoke_item uid actor uid ref en st)"

definition teamMembersRemoveBatch :: "env \<Rightarrow> string \<Rightarrow> string \<Rightarrow> string \<Rightarrow> console \<Rightarrow> batch_result http \<times> console" where
  "teamMembersRemoveBatch en actor ref userIDs c =
     (if commaList userIDs = [] then (apiErr 400 ''VALIDATION_ERROR'' (Text ''userIds query parameter is required''), c)
      else case groupID ref c of
        Inl e \<Rightarrow> (writeGroupAPIErr e, c)
      | Inr _ \<Rightarrow>
          (case rounds (team_remove_step actor ref) en 0 (commaList userIDs) (newBatchResult, c) of
             (res, c) \<Rightarrow> (HttpOk 200 res, auditAdmin en ''admin.group.revoke'' actor (''batch remove @ '' @ ref) c)))"

subsection \<open>Users\<close>

text \<open>
  Deleting a user: the token, the memberships, the pending codes, then the row. A refusal stops the
  cascade of that user before the row goes.
\<close>

definition user_delete_step :: "string \<Rightarrow> env \<Rightarrow> string \<Rightarrow> batch_result \<times> console \<Rightarrow> batch_result \<times> console" where
  "user_delete_step actor en i st =
     (case st of (res, c) \<Rightarrow>
        (let failed = batch_fail i ''USER_NOT_FOUND'' res in
         case members_Get i (c_members c) of
           Inl _ \<Rightarrow> (failed, c)
         | Inr m \<Rightarrow>
           (case on_tokens (RevokeToken (en_fault en 0) (m_Email m)) c of
              (Inl _, c) \<Rightarrow> (failed, c)
            | (Inr _, c) \<Rightarrow>
              (case on_groups (RemoveUser (en_fault en 1) (m_ID m)) c of
                 (Inl _, c) \<Rightarrow> (failed, c)
               | (Inr _, c) \<Rightarrow>
                 (case on_invites (RevokeAllPendingForMember (en_fault en 2) (en_clock en 2) (m_ID m)) c of
                    (Inl _, c) \<Rightarrow> (failed, c)
                  | (Inr _, c) \<Rightarrow>
                    (case on_members (members_Remove (en_fault en 3) (m_ID m)) c of
                       (Inl _, c) \<Rightarrow> (failed, c)
                     | (Inr _, c) \<Rightarrow> (batch_ok i res, auditAdmin en ''admin.member.delete'' actor (m_Email m) c)))))))"

definition usersDeleteBatch :: "env \<Rightarrow> string \<Rightarrow> string \<Rightarrow> console \<Rightarrow> batch_result http \<times> console" where
  "usersDeleteBatch en actor userIDs c =
     (if commaList userIDs = [] then (apiErr 400 ''VALIDATION_ERROR'' (Text ''userIds query parameter is required''), c)
      else case rounds (user_delete_step actor) en 0 (commaList userIDs) (newBatchResult, c) of
        (res, c) \<Rightarrow> (HttpOk 200 res, c))"

record status_reply =
  sr_UserID :: string
  sr_InvitationStatus :: string
  sr_SessionStatus :: string

definition userSessionDeactivate :: "env \<Rightarrow> string \<Rightarrow> string \<Rightarrow> console \<Rightarrow> status_reply http \<times> console" where
  "userSessionDeactivate en actor i c =
     (case members_Get i (c_members c) of
        Inl _ \<Rightarrow> (no_user, c)
      | Inr m \<Rightarrow>
          if st_session (statuses (newIndex en c) m) \<noteq> ''online''
          then (apiErr 409 ''SESSION_NOT_ACTIVE'' (Text ''user has no active session''), c)
          else (case on_tokens (RevokeToken (en_fault en 1) (m_Email m)) c of
             (Inl _, c) \<Rightarrow> (apiErr 500 ''INTERNAL'' (Text ''session token revocation did not commit; retry''), c)
           | (Inr revoked, c) \<Rightarrow>
               if \<not> revoked then (apiErr 409 ''SESSION_NOT_ACTIVE'' (Text ''no active session token to destroy''), c)
               else
                 (let c = snd (on_members (SetSessionExpired (en_fault en 2) (en_clock en 2) (m_ID m)) c);
                      c = auditAdmin en ''admin.token.revoke'' actor (m_Email m) c
                  in (HttpOk 200 \<lparr>sr_UserID = m_ID m, sr_InvitationStatus = st_invitation (statuses (newIndex (round_env 0 en) c) m),
                        sr_SessionStatus = ''offline''\<rparr>, c))))"

definition userAddTeam :: "env \<Rightarrow> string \<Rightarrow> string \<Rightarrow> string + string \<times> string \<Rightarrow> console \<Rightarrow> membership_dto http \<times> console" where
  "userAddTeam en actor i body c =
     (case members_Get i (c_members c) of
        Inl _ \<Rightarrow> (no_user, c)
      | Inr m \<Rightarrow>
        (case body of
           Inl e \<Rightarrow> (apiErr 400 ''VALIDATION_ERROR'' (Text e), c)
         | Inr (teamID, r) \<Rightarrow>
           (case ParseRole r of
              None \<Rightarrow> (bad_role r, c)
            | Some role \<Rightarrow>
              (case GroupName (c_groups c) teamID of
                 Inl e \<Rightarrow> (apiErr 404 ''TEAM_NOT_FOUND'' (GroupErr e), c)
               | Inr nam \<Rightarrow>
                 if has_direct (m_ID m) teamID c
                 then (apiErr 409 ''ALREADY_TEAM_MEMBER'' (Text ''user is already a member of this team''), c)
                 else (case on_groups (Grant (en_fault en 2) (en_clock en 2) (m_ID m) teamID role (localAdminActor actor)) c of
                    (Inl e, c) \<Rightarrow> (writeGroupAPIErr e, c)
                  | (Inr _, c) \<Rightarrow>
                      (HttpOk 201 \<lparr>md_TeamID = teamID, md_TeamName = nam, md_Role = r\<rparr>,
                       auditAdmin en ''admin.group.grant'' actor (m_Email m @ '' @ '' @ teamID @ '' ('' @ r @ '')'') c))))))"

definition user_role_step :: "string \<Rightarrow> member \<Rightarrow> string list \<Rightarrow> env \<Rightarrow> string \<times> string \<Rightarrow> batch_result \<times> console \<Rightarrow> batch_result \<times> console" where
  "user_role_step actor m inherited en u st =
     (case (u, st) of ((tid, r), (res, c)) \<Rightarrow>
        (case DirectRole (c_groups c) (m_ID m) tid of
           Inl _ \<Rightarrow> (batch_fail tid ''TEAM_NOT_FOUND'' res, c)
         | Inr direct \<Rightarrow>
             if direct = None \<and> tid \<notin> set inherited then (batch_fail tid ''NOT_TEAM_MEMBER'' res, c)
             else (case on_groups (Grant (en_fault en 2) (en_clock en 2) (m_ID m) tid (parsed_role r) (localAdminActor actor)) c of
               (Inl _, c) \<Rightarrow> (batch_fail tid ''NOT_TEAM_MEMBER'' res, c)
             | (Inr _, c) \<Rightarrow> (batch_ok tid res, c))))"

definition userRolesBatch :: "env \<Rightarrow> string \<Rightarrow> string \<Rightarrow> string + (string \<times> string) list \<Rightarrow> console \<Rightarrow> batch_result http \<times> console" where
  "userRolesBatch en actor i body c =
     (case members_Get i (c_members c) of
        Inl _ \<Rightarrow> (no_user, c)
      | Inr m \<Rightarrow>
        (case body of
           Inl e \<Rightarrow> (apiErr 400 ''VALIDATION_ERROR'' (Text e), c)
         | Inr updates \<Rightarrow>
             (case invalid_role updates of Some r \<Rightarrow> (bad_role r, c) | None \<Rightarrow>
              case rounds (user_role_step actor m (ga_Inherited (GroupAccess (c_groups c) (m_ID m)))) en 0 updates (newBatchResult, c) of
               (res, c) \<Rightarrow> (HttpOk 200 res, auditAdmin en ''admin.group.grant'' actor (''batch role change for '' @ m_Email m) c))))"

definition userMembershipsRemoveBatch :: "env \<Rightarrow> string \<Rightarrow> string \<Rightarrow> string \<Rightarrow> console \<Rightarrow> batch_result http \<times> console" where
  "userMembershipsRemoveBatch en actor i teamIDs c =
     (case members_Get i (c_members c) of
        Inl _ \<Rightarrow> (no_user, c)
      | Inr m \<Rightarrow>
          if commaList teamIDs = [] then (apiErr 400 ''VALIDATION_ERROR'' (Text ''teamIds query parameter is required''), c)
          else (case rounds (\<lambda>en tid. revoke_item tid actor (m_ID m) tid en) en 0 (commaList teamIDs) (newBatchResult, c) of
            (res, c) \<Rightarrow> (HttpOk 200 res, auditAdmin en ''admin.group.revoke'' actor (''batch remove for '' @ m_Email m) c)))"

subsection \<open>Invitations\<close>

record invitation_body =
  ib_Account :: string
  ib_Username :: string
  ib_Memberships :: "(string \<times> string) list"

record invitation_reply =
  iq_UserID :: string
  iq_Account :: string
  iq_Username :: string
  iq_InvitationStatus :: string
  iq_SessionStatus :: string
  iq_CodeSent :: bool

text \<open>Roles and teams are checked in the order of the request, the role of an entry first.\<close>

fun checked_grants :: "console \<Rightarrow> (string \<times> string) list \<Rightarrow> 'a http + (string \<times> role) list" where
  "checked_grants c [] = Inr []"
| "checked_grants c ((teamID, r) # ms) =
     (case ParseRole r of
        None \<Rightarrow> Inl (bad_role r)
      | Some role \<Rightarrow>
          (case GroupName (c_groups c) teamID of
             Inl e \<Rightarrow> Inl (apiErr 404 ''TEAM_NOT_FOUND'' (GroupErr e))
           | Inr _ \<Rightarrow> map_sum id ((#) (teamID, role)) (checked_grants c ms)))"

text \<open>The grants in turn, with the teams granted so far when one is refused.\<close>

primrec grant_all :: "env \<Rightarrow> nat \<Rightarrow> string \<Rightarrow> string \<Rightarrow> (string \<times> role) list \<Rightarrow> string list \<Rightarrow> console \<Rightarrow>
    (group_error option \<times> string list) \<times> console" where
  "grant_all en k actor i [] granted c = ((None, granted), c)"
| "grant_all en k actor i (g # gs) granted c =
     (case on_groups (Grant (en_fault (round_env k en) 2) (en_clock (round_env k en) 2) i (fst g) (snd g) actor) c of
        (Inl e, c) \<Rightarrow> ((Some e, granted), c)
      | (Inr _, c) \<Rightarrow> grant_all en (Suc k) actor i gs (granted @ [fst g]) c)"

primrec revoke_granted :: "env \<Rightarrow> nat \<Rightarrow> string \<Rightarrow> string list \<Rightarrow> console \<Rightarrow> console" where
  "revoke_granted en k i [] c = c"
| "revoke_granted en k i (tid # ts) c =
     revoke_granted en (Suc k) i ts (snd (on_groups (RevokeDirectGrant (en_fault (round_env k en) 3) i tid) c))"

definition rollbackInvitation :: "env \<Rightarrow> member \<Rightarrow> string list \<Rightarrow> bool \<Rightarrow> console \<Rightarrow> console" where
  "rollbackInvitation en m grantedTeams newMember c = drop_if_new en (m_ID m) newMember (revoke_granted en 0 (m_ID m) grantedTeams c)"

text \<open>The row read back after a change, or the one at hand when the read fails.\<close>

definition fresh_or :: "member \<Rightarrow> console \<Rightarrow> member" where
  "fresh_or m c = (case members_Get (m_ID m) (c_members c) of Inl _ \<Rightarrow> m | Inr f \<Rightarrow> f)"

definition invitation_done :: "env \<Rightarrow> string \<Rightarrow> string \<Rightarrow> member \<Rightarrow> bool \<Rightarrow> console \<Rightarrow> invitation_reply http \<times> console" where
  "invitation_done en actor account m codeSent c =
     (let c = auditAdmin en ''admin.invite.issue'' actor account c; m = fresh_or m c; st = statuses (newIndex (round_env 1 en) c) m
      in (HttpOk 201 \<lparr>iq_UserID = m_ID m, iq_Account = m_Email m, iq_Username = m_DisplayName m,
            iq_InvitationStatus = st_invitation st, iq_SessionStatus = st_session st, iq_CodeSent = codeSent\<rparr>, c))"

definition createInvitation :: "mail_conf \<Rightarrow> env \<Rightarrow> string \<Rightarrow> string + invitation_body \<Rightarrow> console \<Rightarrow> invitation_reply http \<times> console" where
  "createInvitation mc en actor body c =
     (case body of
        Inl e \<Rightarrow> (apiErr 400 ''VALIDATION_ERROR'' (Text e), c)
      | Inr b \<Rightarrow>
        if trim_space (ib_Account b) = [] \<or> ib_Memberships b = []
        then (apiErr 400 ''VALIDATION_ERROR'' (Text ''account and at least one membership are required''), c)
        else
        (case checked_grants c (ib_Memberships b) of
           Inl r \<Rightarrow> (r, c)
         | Inr grants \<Rightarrow>
           (case get_or_add en (ib_Account b) (ib_Username b) c of
              (Inl e, c) \<Rightarrow> (apiErr 400 ''VALIDATION_ERROR'' (ActivateErr e), c)
            | (Inr (m, newMember), c) \<Rightarrow>
              if \<not> newMember \<and> list_ex (\<lambda>(tid, _). has_direct (m_ID m) tid c) grants
              then (apiErr 409 ''ALREADY_TEAM_MEMBER'' (Text ''user is already a member of a target team''), c)
              else
              (case grant_all en 2 (localAdminActor actor) (m_ID m) grants [] c of
                 ((Some e, granted), c) \<Rightarrow> (writeGroupAPIErr e, rollbackInvitation en m granted newMember c)
               | ((None, granted), c) \<Rightarrow>
                 if needsCode en m c then
                   (case issueCode mc (round_env 0 en) m c of
                      (Inl _, c) \<Rightarrow> (mail_failed, rollbackInvitation en m granted newMember c)
                    | (Inr _, c) \<Rightarrow> invitation_done en actor (ib_Account b) m True c)
                 else invitation_done en actor (ib_Account b) m False c))))"

definition resendInvitation :: "mail_conf \<Rightarrow> env \<Rightarrow> string \<Rightarrow> string + string \<Rightarrow> console \<Rightarrow> status_reply http \<times> console" where
  "resendInvitation mc en actor body c =
     (case body of
        Inl e \<Rightarrow> (apiErr 400 ''VALIDATION_ERROR'' (Text e), c)
      | Inr i \<Rightarrow>
          if trim_space i = [] then (apiErr 400 ''VALIDATION_ERROR'' (Text ''userId is required''), c)
          else (case members_Get i (c_members c) of
             Inl _ \<Rightarrow> (no_user, c)
           | Inr m \<Rightarrow>
               (case issueCode mc (round_env 0 en) m c of
                  (Inl _, c) \<Rightarrow> (apiErr 502 ''MAIL_UPSTREAM_ERROR'' (Text ''failed to resend the invitation code email''), c)
                | (Inr _, c) \<Rightarrow>
                    (let c = auditAdmin en ''admin.invite.issue'' actor (m_Email m) c; m = fresh_or m c;
                         st = statuses (newIndex (round_env 1 en) c) m
                     in (HttpOk 200 \<lparr>sr_UserID = m_ID m, sr_InvitationStatus = st_invitation st, sr_SessionStatus = st_session st\<rparr>, c)))))"

definition cancelInvitation :: "env \<Rightarrow> string \<Rightarrow> string + string \<Rightarrow> console \<Rightarrow> status_reply http \<times> console" where
  "cancelInvitation en actor body c =
     (case body of
        Inl e \<Rightarrow> (apiErr 400 ''VALIDATION_ERROR'' (Text e), c)
      | Inr i \<Rightarrow>
          if trim_space i = [] then (apiErr 400 ''VALIDATION_ERROR'' (Text ''userId is required''), c)
          else (case members_Get i (c_members c) of
             Inl _ \<Rightarrow> (no_user, c)
           | Inr m \<Rightarrow>
               (case on_invites (RevokeAllPendingForMember (en_fault en 1) (en_clock en 1) (m_ID m)) c of
                  (Inl _, c) \<Rightarrow> (apiErr 500 ''INTERNAL'' (Text ''cancellation did not commit; retry''), c)
                | (Inr n, c) \<Rightarrow>
                    if n = 0 then (apiErr 409 ''INVITATION_NOT_PENDING'' (Text ''no pending invitation to cancel''), c)
                    else
                      (let c = auditAdmin en ''admin.invite.cancel'' actor (m_Email m) c; st = statuses (newIndex en c) m
                       in (HttpOk 200 \<lparr>sr_UserID = m_ID m, sr_InvitationStatus = st_invitation st, sr_SessionStatus = st_session st\<rparr>, c)))))"

subsection \<open>The operator's own invite\<close>

record invite_conn =
  co_ConsoleEndpoint :: string
  co_CAPemSHA256 :: string

record self_invite_issuer =
  si_conn :: invite_conn
  si_ttl :: int
  si_role :: string

text \<open>
  \<open>dropIfNew\<close> is \<open>drop_if_new\<close>. An account that has a row keeps it and loses its old token; only a
  row made here is dropped on failure.
\<close>

definition self_member :: "env \<Rightarrow> string \<Rightarrow> string \<Rightarrow> console \<Rightarrow> (detail + member \<times> bool) \<times> console" where
  "self_member en email displayName c =
     (case GetByEmail email (c_members c) of
        Inr existing \<Rightarrow>
          (case on_tokens (RevokeToken (en_fault en 0) email) c of
             (Inl e, c) \<Rightarrow> (Inl (TokenErr e), c) | (Inr _, c) \<Rightarrow> (Inr (existing, False), c))
      | Inl _ \<Rightarrow>
          (case on_members (members_Add (en_fault en 1) (en_rand en 1) (en_clock en 1) email displayName) c of
             (Inl e, c) \<Rightarrow> (Inl (ActivateErr e), c) | (Inr added, c) \<Rightarrow> (Inr (added, True), c)))"

definition IssueSelfInvite :: "hash \<Rightarrow> self_invite_issuer \<Rightarrow> env \<Rightarrow> string \<Rightarrow> string \<Rightarrow> console \<Rightarrow>
    (detail + clear_bundle \<times> invite_conn) \<times> console" where
  "IssueSelfInvite sha256 si en email displayName c =
     (case self_member en email displayName c of
        (Inl e, c) \<Rightarrow> (Inl e, c)
      | (Inr (m, newMember), c) \<Rightarrow>
        (case on_tokens (AddToken (en_fault en 2) (en_rand en 2) (en_clock en 2) email None) c of
           (Inl e, c) \<Rightarrow> (Inl (TokenErr e), drop_if_new en (m_ID m) newMember c)
         | (Inr t, c) \<Rightarrow>
           (case on_invites (Issue (en_fault en 3) (en_rand en 3) (en_rand en 4) (en_clock en 3)
               \<lparr>ip_MemberID = m_ID m, ip_Email = email, ip_Role = si_role si, ip_TokenValue = tk_Token t,
                ip_CreationPath = inviteCreationPath, ip_TTL = si_ttl si\<rparr>) c of
              (Inl e, c) \<Rightarrow>
                (Inl (InviteErr e), drop_if_new en (m_ID m) newMember (snd (on_tokens (RevokeToken (en_fault en 5) email) c)))
            | (Inr bundle, c) \<Rightarrow>
              (case on_members (Reinvite (en_fault en 4) (m_ID m)) c of
                 (Inl e, c) \<Rightarrow>
                   (let c = snd (on_invites (RevokePending (en_fault en 6) (en_clock en 6) (cb_Handle bundle)) c)
                    in (Inl (ActivateErr e), drop_if_new en (m_ID m) newMember (snd (on_tokens (RevokeToken (en_fault en 5) email) c))))
               | (Inr _, c) \<Rightarrow>
                 (case caPEMAndPin sha256 en (c_cfg c) of
                    Inl d \<Rightarrow> (Inl d, c)
                  | Inr (_, pin) \<Rightarrow> (Inr (bundle, (si_conn si)\<lparr>co_CAPemSHA256 := pin\<rparr>), c))))))"

subsection \<open>Routes\<close>

text \<open>
  The decoders of the request bodies are arguments; an empty body leaves the zero value.
\<close>

record json_codec =
  jc_team :: "string \<Rightarrow> string + string \<times> string"
  jc_name :: "string \<Rightarrow> string + string"
  jc_member :: "string \<Rightarrow> string + add_member_body"
  jc_roles :: "string \<Rightarrow> string + (string \<times> string) list"
  jc_grant :: "string \<Rightarrow> string + string \<times> string"
  jc_invitation :: "string \<Rightarrow> string + invitation_body"
  jc_user :: "string \<Rightarrow> string + string"

definition readJSON :: "'a \<Rightarrow> (string \<Rightarrow> string + 'a) \<Rightarrow> string \<Rightarrow> string + 'a" where
  "readJSON zero dec raw = (if raw = [] then Inr zero else dec raw)"

record api_request =
  rq_method :: string
  rq_path :: "string list"
  rq_query :: "string \<Rightarrow> string"
  rq_body :: string
  rq_actor :: string

text \<open>A route for \<open>GET\<close> also answers \<open>HEAD\<close>.\<close>

definition verb :: "api_request \<Rightarrow> string" where
  "verb q = (if rq_method q = ''HEAD'' then ''GET'' else rq_method q)"

text \<open>\<open>/pre/{id}/suf\<close>\<close>

definition path_id :: "string list \<Rightarrow> string list \<Rightarrow> string list \<Rightarrow> string option" where
  "path_id pre suf p =
     (if length p = length pre + 1 + length suf \<and> take (length pre) p = pre \<and> drop (Suc (length pre)) p = suf \<and> p ! length pre \<noteq> []
      then Some (p ! length pre) else None)"

text \<open>Only the status of a response is kept here; a handler that only reads leaves the console as it is.\<close>

definition status_of :: "'a http \<Rightarrow> nat" where
  "status_of r = (case r of HttpErr st _ _ \<Rightarrow> st | HttpOk st _ \<Rightarrow> st)"

definition reads :: "'a http \<Rightarrow> console \<Rightarrow> nat \<times> console" where
  "reads r c = (status_of r, c)"

definition writes :: "'a http \<times> console \<Rightarrow> nat \<times> console" where
  "writes rc = (status_of (fst rc), snd rc)"

definition query_of :: "api_request \<Rightarrow> users_query" where
  "query_of q = \<lparr>uq_page = rq_query q ''page'', uq_size = rq_query q ''size'', uq_search = rq_query q ''search'',
     uq_status = rq_query q ''status'', uq_teamId = rq_query q ''teamId'', uq_sort = rq_query q ''sort''\<rparr>"

definition team_routes :: "json_codec \<Rightarrow> mail_conf \<Rightarrow> env \<Rightarrow> api_request \<Rightarrow> console \<Rightarrow> (nat \<times> console) option" where
  "team_routes jc mc en q c =
     (let m = verb q; p = rq_path q; a = rq_actor q; body = rq_body q; qu = rq_query q in
      if p = [''teams'', ''tree''] \<and> m = ''GET'' then Some (reads (teamsTree c) c)
      else if p = [''teams''] \<and> m = ''POST'' then Some (writes (createTeam en a (readJSON ([], []) (jc_team jc) body) c))
      else case path_id [''teams''] [] p of
        Some i \<Rightarrow>
          (if m = ''GET'' then Some (reads (teamDetail i c) c)
           else if m = ''PUT'' then Some (writes (renameTeam en a i (readJSON [] (jc_name jc) body) c))
           else if m = ''DELETE'' then Some (writes (deleteTeam en a i (qu ''memoryAction'') (qu ''targetTeamId'') c))
           else None)
      | None \<Rightarrow>
        (case path_id [''teams''] [''members''] p of
           Some i \<Rightarrow>
             (if m = ''GET'' then Some (reads (teamMembers en (qu ''page'') (qu ''size'') i c) c)
              else if m = ''POST'' then Some (writes (addTeamMember mc en a i
                (readJSON \<lparr>am_Account = [], am_Username = [], am_Role = []\<rparr> (jc_member jc) body) c))
              else if m = ''DELETE'' then Some (writes (teamMembersRemoveBatch en a i (qu ''userIds'') c))
              else None)
         | None \<Rightarrow>
             (case path_id [''teams''] [''members'', ''roles''] p of
                Some i \<Rightarrow> if m = ''PUT'' then Some (writes (teamRolesBatch en a i (readJSON [] (jc_roles jc) body) c)) else None
              | None \<Rightarrow> None)))"

definition user_routes :: "(string \<Rightarrow> string) \<Rightarrow> json_codec \<Rightarrow> env \<Rightarrow> api_request \<Rightarrow> console \<Rightarrow> (nat \<times> console) option" where
  "user_routes lower jc en q c =
     (let m = verb q; p = rq_path q; a = rq_actor q; body = rq_body q; qu = rq_query q in
      if p = [''users'', ''stats''] \<and> m = ''GET'' then Some (reads (userStats en c) c)
      else if p = [''users''] \<and> m = ''GET'' then Some (reads (usersList lower en (query_of q) c) c)
      else if p = [''users''] \<and> m = ''DELETE'' then Some (writes (usersDeleteBatch en a (qu ''userIds'') c))
      else case path_id [''users''] [] p of
        Some i \<Rightarrow> if m = ''GET'' then Some (reads (userDetail en i c) c) else None
      | None \<Rightarrow>
        (case path_id [''users''] [''session''] p of
           Some i \<Rightarrow> if m = ''DELETE'' then Some (writes (userSessionDeactivate en a i c)) else None
         | None \<Rightarrow>
             (case path_id [''users''] [''members'', ''roles''] p of
                Some i \<Rightarrow>
                  (if m = ''POST'' then Some (writes (userAddTeam en a i (readJSON ([], []) (jc_grant jc) body) c))
                   else if m = ''PUT'' then Some (writes (userRolesBatch en a i (readJSON [] (jc_roles jc) body) c))
                   else if m = ''DELETE'' then Some (writes (userMembershipsRemoveBatch en a i (qu ''teamIds'') c))
                   else None)
              | None \<Rightarrow> None)))"

definition invitation_routes :: "json_codec \<Rightarrow> mail_conf \<Rightarrow> env \<Rightarrow> api_request \<Rightarrow> console \<Rightarrow> (nat \<times> console) option" where
  "invitation_routes jc mc en q c =
     (let m = verb q; p = rq_path q; a = rq_actor q; body = rq_body q; qu = rq_query q in
      if p = [''invitations''] \<and> m = ''POST'' then Some (writes (createInvitation mc en a
          (readJSON \<lparr>ib_Account = [], ib_Username = [], ib_Memberships = []\<rparr> (jc_invitation jc) body) c))
      else if p = [''invitations'', ''resend''] \<and> m = ''POST'' then Some (writes (resendInvitation mc en a (readJSON [] (jc_user jc) body) c))
      else if p = [''invitations'', ''cancel''] \<and> m = ''POST'' then Some (writes (cancelInvitation en a (readJSON [] (jc_user jc) body) c))
      else if p = [''invitations''] \<and> m = ''GET'' then Some (reads (invitationsHistory en (qu ''page'') (qu ''size'') (qu ''sort'') c) c)
      else None)"

text \<open>\<open>mux\<close> of a console whose member store is wired; anything else is a 404.\<close>

definition api_serve :: "(string \<Rightarrow> string) \<Rightarrow> json_codec \<Rightarrow> mail_conf \<Rightarrow> env \<Rightarrow> api_request \<Rightarrow> console \<Rightarrow> nat \<times> console" where
  "api_serve lower jc mc en q c =
     (case team_routes jc mc en q c of
        Some r \<Rightarrow> r
      | None \<Rightarrow>
          (case user_routes lower jc en q c of
             Some r \<Rightarrow> r
           | None \<Rightarrow> (case invitation_routes jc mc en q c of Some r \<Rightarrow> r | None \<Rightarrow> (404, c))))"

end
