(* ===== verification/Console_Frame.thy ===== *)
theory Console_Frame
  imports Console_Handlers Data_Plane_Properties
begin

text \<open>
  What the handlers of the HTTP surface leave of the stores: a call into one store touches that
  store only, and every handler keeps the four stores sound whatever faults strike.
\<close>

subsection \<open>One store at a time\<close>

lemmas on_store_defs = on_groups_def on_tokens_def on_members_def on_invites_def

lemma on_result:
  "fst (on_groups g c) = fst (g (c_groups c))" "fst (on_tokens t c) = fst (t (c_tokens c))"
  "fst (on_members m c) = fst (m (c_members c))" "fst (on_invites v c) = fst (v (c_invites c))"
  by (simp_all add: on_store_defs case_prod_unfold)

lemma on_groups_sel [simp]: "c_groups (snd (on_groups f c)) = snd (f (c_groups c))" "c_tokens (snd (on_groups f c)) = c_tokens c"
  "c_members (snd (on_groups f c)) = c_members c" "c_invites (snd (on_groups f c)) = c_invites c"
  "c_engine (snd (on_groups f c)) = c_engine c" "c_calls (snd (on_groups f c)) = c_calls c"
  by (simp_all add: on_groups_def case_prod_unfold)

lemma on_tokens_sel [simp]: "c_tokens (snd (on_tokens f c)) = snd (f (c_tokens c))" "c_groups (snd (on_tokens f c)) = c_groups c"
  "c_members (snd (on_tokens f c)) = c_members c" "c_invites (snd (on_tokens f c)) = c_invites c"
  by (simp_all add: on_tokens_def case_prod_unfold)

lemma on_members_sel [simp]: "c_members (snd (on_members f c)) = snd (f (c_members c))" "c_groups (snd (on_members f c)) = c_groups c"
  "c_tokens (snd (on_members f c)) = c_tokens c" "c_invites (snd (on_members f c)) = c_invites c"
  by (simp_all add: on_members_def case_prod_unfold)

lemma on_invites_sel [simp]: "c_invites (snd (on_invites f c)) = snd (f (c_invites c))" "c_groups (snd (on_invites f c)) = c_groups c"
  "c_tokens (snd (on_invites f c)) = c_tokens c" "c_members (snd (on_invites f c)) = c_members c"
  by (simp_all add: on_invites_def case_prod_unfold)

lemma on_pair:
  "on_groups g c = (fst (g (c_groups c)), snd (on_groups g c))" "on_tokens t c = (fst (t (c_tokens c)), snd (on_tokens t c))"
  "on_members m c = (fst (m (c_members c)), snd (on_members m c))" "on_invites v c = (fst (v (c_invites c)), snd (on_invites v c))"
  by (simp_all flip: on_result)

lemma Audit_sel [simp]: "c_tokens (Audit_Log e c) = c_tokens c" "c_groups (Audit_Log e c) = c_groups c"
  "c_members (Audit_Log e c) = c_members c" "c_invites (Audit_Log e c) = c_invites c"
  by (simp_all add: Audit_Log_def split: option.split)

lemma audit_sel [simp]: "c_tokens (auditAdmin en m a t c) = c_tokens c" "c_groups (auditAdmin en m a t c) = c_groups c"
  "c_members (auditAdmin en m a t c) = c_members c" "c_invites (auditAdmin en m a t c) = c_invites c"
  by (simp_all add: auditAdmin_def)

lemma cleanup_sel [simp]: "c_tokens (auditTagCleanup en a st d t c) = c_tokens c" "c_groups (auditTagCleanup en a st d t c) = c_groups c"
  "c_members (auditTagCleanup en a st d t c) = c_members c" "c_invites (auditTagCleanup en a st d t c) = c_invites c"
  by (simp_all add: auditTagCleanup_def)

subsection \<open>Soundness of each call\<close>

lemma plane_on_groups: "plane_ok c \<Longrightarrow> groups_live (snd (f (c_groups c))) \<Longrightarrow> plane_ok (snd (on_groups f c))"
  by (simp add: plane_ok_def)

lemma plane_on_tokens: "plane_ok c \<Longrightarrow> tokens_live (snd (f (c_tokens c))) \<Longrightarrow> plane_ok (snd (on_tokens f c))"
  by (simp add: plane_ok_def)

lemma plane_on_members: "plane_ok c \<Longrightarrow> members_live (snd (f (c_members c))) \<Longrightarrow> plane_ok (snd (on_members f c))"
  by (simp add: plane_ok_def)

lemma plane_on_invites: "plane_ok c \<Longrightarrow> invites_live (snd (f (c_invites c))) \<Longrightarrow> plane_ok (snd (on_invites f c))"
  by (simp add: plane_ok_def)

lemma plane_audit [simp]: "plane_ok (Audit_Log e c) = plane_ok c" "plane_ok (auditAdmin en m a t c) = plane_ok c"
  "plane_ok (auditTagCleanup en a st d t c) = plane_ok c" "plane_ok (calls k c) = plane_ok c"
  by (simp_all add: plane_ok_def calls_def)

lemma groups_kept:
  assumes "groups_live s"
  shows "groups_live (snd (Grant f now u ref r b s))" "groups_live (snd (RevokeDirectGrant f u ref s))"
    "groups_live (snd (Revoke f now u ref b s))" "groups_live (snd (RemoveUser f u s))"
    "groups_live (snd (CreateGroup f rnd now name parentRef s))" "groups_live (snd (RenameGroup f ref name s))"
    "groups_live (snd (DeleteGroupWithMembers f ref s))"
  by (rule step_live, rule assms, rule Grant_refines RevokeDirectGrant_refines Revoke_refines RemoveUser_refines
      CreateGroup_refines RenameGroup_refines DeleteGroupWithMembers_refines, rule assms)+

lemma tokens_kept:
  assumes "tokens_live s"
  shows "tokens_live (snd (AddToken f rnd now u d s))" "tokens_live (snd (RevokeToken f u s))" "tokens_live (snd (RotateToken f rnd now u s))"
  using AddToken_refines [OF assms] RevokeToken_refines [OF assms] RotateToken_refines [OF assms] by (auto simp: t_refines_def)

lemma members_kept:
  assumes "members_live s"
  shows "members_live (snd (members_Add f rnd now e d s))" "members_live (snd (members_Remove f i s))"
    "members_live (snd (SetSessionExpired f now i s))" "members_live (snd (Reinvite f i s))" "members_live (snd (MarkInvited f i s))"
  using members_step_refines [OF assms, of "(f, OpAdd rnd now e d)"] members_step_refines [OF assms, of "(f, OpRemove i)"]
    members_step_refines [OF assms, of "(f, OpSetSessionExpired now i)"] members_step_refines [OF assms, of "(f, OpReinvite i)"]
    members_step_refines [OF assms, of "(f, OpMarkInvited i)"] assms
  by (auto simp: refines_step_def members_live_def simp del: registry_spec.simps)

lemma invites_kept:
  assumes "invites_live s" "time_ok now"
  shows "time_ok (now + ip_TTL p) \<Longrightarrow> invites_live (snd (Issue f r1 r2 now p s))"
    "invites_live (snd (RevokePending f now h s))" "invites_live (snd (RevokeAllPendingForMember f now m s))"
  using live_step [OF assms(1), of "(f, now, IIssue r1 r2 p)"] live_step [OF assms(1), of "(f, now, IRevoke h)"]
    live_step [OF assms(1), of "(f, now, IRevokeAll m)"] assms by auto

text \<open>Clock readings, and the expiries of invites issued at them, whose year has four digits.\<close>

definition clocks_ok :: "int \<Rightarrow> env \<Rightarrow> bool" where
  "clocks_ok ttl en \<longleftrightarrow> (\<forall>k. time_ok (en_clock en k) \<and> time_ok (en_clock en k + ttl))"

lemma clocks_round [simp]: "clocks_ok ttl en \<Longrightarrow> clocks_ok ttl (round_env k en)"
  by (simp add: clocks_ok_def round_env_def)

lemma clocks_time: "clocks_ok ttl en \<Longrightarrow> time_ok (en_clock en k)" "clocks_ok ttl en \<Longrightarrow> time_ok (en_clock en k + ttl)"
  by (simp_all add: clocks_ok_def)

subsection \<open>Invariants of the handlers\<close>

text \<open>
  A condition on the console that survives every step of a store, an audit entry and a call to the
  engine survives every handler. No handler names the org admin.
\<close>

locale handler_invariant =
  fixes P :: "console \<Rightarrow> bool"
  assumes group_step: "P c \<Longrightarrow> \<forall>e. snd fg \<noteq> GSetOrgAdmin e \<Longrightarrow> P (c\<lparr>c_groups := groups_step fg (c_groups c)\<rparr>)"
    and token_step: "P c \<Longrightarrow> P (c\<lparr>c_tokens := tokens_step ft (c_tokens c)\<rparr>)"
    and member_step: "P c \<Longrightarrow> P (c\<lparr>c_members := members_step fm (c_members c)\<rparr>)"
    and invite_step: "P c \<Longrightarrow> event_ok fi \<Longrightarrow> P (c\<lparr>c_invites := invites_step fi (c_invites c)\<rparr>)"
    and audit_step: "P c \<Longrightarrow> P (Audit_Log e c)"
    and call_step: "P c \<Longrightarrow> P (calls k c)"
begin

lemma groups_ops:
  assumes "P c"
  shows "P (snd (on_groups (Grant f now u ref r b) c))" "P (snd (on_groups (RevokeDirectGrant f u ref) c))"
    "P (snd (on_groups (Revoke f now u ref b) c))" "P (snd (on_groups (RemoveUser f u) c))"
    "P (snd (on_groups (CreateGroup f rnd now name parentRef) c))" "P (snd (on_groups (RenameGroup f ref name) c))"
    "P (snd (on_groups (DeleteGroupWithMembers f ref) c))"
  using group_step [OF assms, of "(f, GGrant now u ref r b)"] group_step [OF assms, of "(f, GRevokeDirect u ref)"]
    group_step [OF assms, of "(f, GRevoke now u ref b)"] group_step [OF assms, of "(f, GRemoveUser u)"]
    group_step [OF assms, of "(f, GCreate rnd now name parentRef)"] group_step [OF assms, of "(f, GRename ref name)"]
    group_step [OF assms, of "(f, GDeleteWithMembers ref)"]
  by (simp_all add: on_groups_def case_prod_unfold)

lemma tokens_ops:
  assumes "P c"
  shows "P (snd (on_tokens (AddToken f rnd now u d) c))" "P (snd (on_tokens (RevokeToken f u) c))" "P (snd (on_tokens (RotateToken f rnd now u) c))"
  using token_step [OF assms, of "(f, TAdd rnd now u d)"] token_step [OF assms, of "(f, TRevoke u)"] token_step [OF assms, of "(f, TRotate rnd now u)"]
  by (simp_all add: on_tokens_def case_prod_unfold)

lemma members_ops:
  assumes "P c"
  shows "P (snd (on_members (members_Add f rnd now e d) c))" "P (snd (on_members (members_Remove f i) c))"
    "P (snd (on_members (SetSessionExpired f now i) c))" "P (snd (on_members (Reinvite f i) c))" "P (snd (on_members (MarkInvited f i) c))"
  using member_step [OF assms, of "(f, OpAdd rnd now e d)"] member_step [OF assms, of "(f, OpRemove i)"]
    member_step [OF assms, of "(f, OpSetSessionExpired now i)"] member_step [OF assms, of "(f, OpReinvite i)"] member_step [OF assms, of "(f, OpMarkInvited i)"]
  by (simp_all add: on_members_def case_prod_unfold)

lemma invites_ops:
  assumes "P c" "time_ok now"
  shows "time_ok (now + ip_TTL p) \<Longrightarrow> P (snd (on_invites (Issue f r1 r2 now p) c))"
    "P (snd (on_invites (RevokePending f now h) c))" "P (snd (on_invites (RevokeAllPendingForMember f now m) c))"
  using invite_step [OF assms(1), of "(f, now, IIssue r1 r2 p)"] invite_step [OF assms(1), of "(f, now, IRevoke h)"]
    invite_step [OF assms(1), of "(f, now, IRevokeAll m)"] assms(2)
  by (simp_all add: on_invites_def case_prod_unfold)

lemma audit_ops: "P c \<Longrightarrow> P (auditAdmin en m a t c)" "P c \<Longrightarrow> P (auditTagCleanup en a st d t c)"
  by (simp_all add: auditAdmin_def auditTagCleanup_def audit_step)

text \<open>Sequencing: what holds after a call holds on both branches.\<close>

lemma bind_ok:
  assumes "P (snd st)" "\<And>e c. P c \<Longrightarrow> P (snd (A e c))" "\<And>x c. P c \<Longrightarrow> P (snd (B x c))"
  shows "P (snd (case st of (r, c) \<Rightarrow> (case r of Inl e \<Rightarrow> A e c | Inr x \<Rightarrow> B x c)))"
  using assms by (simp add: case_prod_unfold split: sum.split)

lemma rounds_ok:
  assumes "\<And>k x st. P (snd st) \<Longrightarrow> P (snd (f (round_env k en) x st))" "P (snd st)"
  shows "P (snd (rounds f en k xs st))"
  using assms(2) by (induction xs arbitrary: k st) (simp_all add: assms(1))

lemma ReassignGroupTag_ok: "P c \<Longrightarrow> P (snd (ReassignGroupTag en a b actor c))"
  by (simp add: ReassignGroupTag_def Let_def audit_ops call_step split: option.split sum.split)

lemma RemoveGroupTag_ok: "P c \<Longrightarrow> P (snd (RemoveGroupTag en a actor c))"
  by (simp add: RemoveGroupTag_def Let_def audit_ops call_step split: option.split sum.split)

lemma remove_team_ok: "P c \<Longrightarrow> P (snd (remove_team en actor action ref c))"
  unfolding remove_team_def by (intro bind_ok groups_ops) (simp_all add: audit_ops split: prod.split)

lemma deleteTeam_ok: "P c \<Longrightarrow> P (snd (deleteTeam en actor ref action target c))"
  unfolding deleteTeam_def
  by (auto split: sum.split intro!: bind_ok ReassignGroupTag_ok RemoveGroupTag_ok remove_team_ok)

lemma createTeam_ok: "P c \<Longrightarrow> P (snd (createTeam en actor body c))"
  unfolding createTeam_def by (auto simp: Let_def split: sum.split intro!: bind_ok groups_ops audit_ops)

lemma renameTeam_ok: "P c \<Longrightarrow> P (snd (renameTeam en actor ref body c))"
  unfolding renameTeam_def by (auto simp: Let_def split: sum.split intro!: bind_ok groups_ops audit_ops)

lemma mint_token_ok: "P c \<Longrightarrow> P (snd (mint_token en rot email c))"
  by (simp add: mint_token_def tokens_ops)

lemma unmint_ok: "P c \<Longrightarrow> P (unmint en rot email c)"
  by (simp add: unmint_def tokens_ops)

lemma advance_member_ok: "P c \<Longrightarrow> P (snd (advance_member en on m c))"
  by (simp add: advance_member_def members_ops)

lemma issueCode_ok:
  assumes "clocks_ok (mc_ttl mc) en" "P c"
  shows "P (snd (issueCode mc en m c))"
  using assms(2) clocks_time [OF assms(1)] unfolding issueCode_def Let_def
  by (intro bind_ok mint_token_ok advance_member_ok) (auto simp: invite_params_def intro!: invites_ops unmint_ok split: option.split)

lemma get_or_add_ok: "P c \<Longrightarrow> P (snd (get_or_add en a u c))"
  unfolding get_or_add_def by (auto split: sum.split intro!: bind_ok members_ops)

lemma drop_if_new_ok: "P c \<Longrightarrow> P (drop_if_new en i new c)"
  by (simp add: drop_if_new_def members_ops)

lemma addTeamMember_ok:
  assumes "clocks_ok (mc_ttl mc) en" "P c"
  shows "P (snd (addTeamMember mc en actor ref body c))"
  using assms unfolding addTeamMember_def Let_def case_prod_unfold
  by (auto simp: get_or_add_ok groups_ops drop_if_new_ok issueCode_ok audit_ops split: sum.split option.split)

lemma revoke_item_ok: "P (snd st) \<Longrightarrow> P (snd (revoke_item item actor uid ref en st))"
  unfolding revoke_item_def case_prod_unfold
  by (auto simp: on_result groups_ops split: sum.split group_error.split)

lemma teamRolesBatch_ok: "P c \<Longrightarrow> P (snd (teamRolesBatch en actor ref body c))"
proof -
  have step: "P (snd (team_role_step actor ref gid en u st))" if "P (snd st)" for gid u st en
    using that unfolding team_role_step_def case_prod_unfold by (auto simp: on_result groups_ops split: sum.split)
  assume "P c"
  then show ?thesis unfolding teamRolesBatch_def case_prod_unfold
    by (auto split: sum.split option.split intro!: audit_ops rounds_ok step)
qed

lemma teamMembersRemoveBatch_ok: "P c \<Longrightarrow> P (snd (teamMembersRemoveBatch en actor ref ids c))"
proof -
  have step: "P (snd (team_remove_step actor ref en u st))" if "P (snd st)" for u st en
    using that by (auto simp: team_remove_step_def revoke_item_ok split: sum.split)
  assume "P c"
  then show ?thesis unfolding teamMembersRemoveBatch_def case_prod_unfold
    by (auto split: sum.split intro!: audit_ops rounds_ok step)
qed

lemma user_delete_step_ok:
  "clocks_ok ttl en \<Longrightarrow> P (snd st) \<Longrightarrow> P (snd (user_delete_step actor en i st))"
  using clocks_time [of ttl en] unfolding user_delete_step_def case_prod_unfold Let_def
  by (auto simp: on_result tokens_ops groups_ops invites_ops members_ops audit_ops split: sum.split)

lemma usersDeleteBatch_ok: "clocks_ok ttl en \<Longrightarrow> P c \<Longrightarrow> P (snd (usersDeleteBatch en actor ids c))"
  unfolding usersDeleteBatch_def case_prod_unfold
  by (auto intro!: rounds_ok user_delete_step_ok [where ttl = ttl])

lemma userSessionDeactivate_ok: "P c \<Longrightarrow> P (snd (userSessionDeactivate en actor i c))"
  unfolding userSessionDeactivate_def Let_def
  by (auto split: sum.split intro!: bind_ok tokens_ops audit_ops members_ops)

lemma userAddTeam_ok: "P c \<Longrightarrow> P (snd (userAddTeam en actor i body c))"
  unfolding userAddTeam_def case_prod_unfold
  by (auto simp: groups_ops audit_ops split: sum.split option.split)

lemma userRolesBatch_ok: "P c \<Longrightarrow> P (snd (userRolesBatch en actor i body c))"
proof -
  have step: "P (snd (user_role_step actor m inh en u st))" if "P (snd st)" for m inh u st en
    using that unfolding user_role_step_def case_prod_unfold by (auto simp: on_result groups_ops split: sum.split)
  assume "P c"
  then show ?thesis unfolding userRolesBatch_def case_prod_unfold
    by (auto split: sum.split option.split intro!: audit_ops rounds_ok step)
qed

lemma userMembershipsRemoveBatch_ok: "P c \<Longrightarrow> P (snd (userMembershipsRemoveBatch en actor i ids c))"
  unfolding userMembershipsRemoveBatch_def case_prod_unfold
  by (auto split: sum.split intro!: audit_ops rounds_ok revoke_item_ok)

lemma grant_all_ok: "P c \<Longrightarrow> P (snd (grant_all en k actor i gs granted c))"
  by (induction gs arbitrary: k granted c) (auto simp: case_prod_unfold groups_ops split: sum.split)

lemma revoke_granted_ok: "P c \<Longrightarrow> P (revoke_granted en k i ts c)"
  by (induction ts arbitrary: k c) (simp_all add: groups_ops)

lemma rollbackInvitation_ok: "P c \<Longrightarrow> P (rollbackInvitation en m ts new c)"
  by (simp add: rollbackInvitation_def drop_if_new_ok revoke_granted_ok)

lemma createInvitation_ok:
  assumes "clocks_ok (mc_ttl mc) en" "P c"
  shows "P (snd (createInvitation mc en actor body c))"
  using assms unfolding createInvitation_def invitation_done_def Let_def case_prod_unfold
  by (auto simp: get_or_add_ok grant_all_ok rollbackInvitation_ok issueCode_ok audit_ops split: sum.split option.split)

lemma resendInvitation_ok:
  assumes "clocks_ok (mc_ttl mc) en" "P c"
  shows "P (snd (resendInvitation mc en actor body c))"
  using assms unfolding resendInvitation_def Let_def case_prod_unfold
  by (auto simp: issueCode_ok audit_ops split: sum.split)

lemma cancelInvitation_ok: "clocks_ok ttl en \<Longrightarrow> P c \<Longrightarrow> P (snd (cancelInvitation en actor body c))"
  using clocks_time [of ttl en] unfolding cancelInvitation_def Let_def case_prod_unfold
  by (auto simp: on_result invites_ops audit_ops split: sum.split)

lemma IssueSelfInvite_ok:
  assumes "clocks_ok (si_ttl si) en" "P c"
  shows "P (snd (IssueSelfInvite sha256 si en email nam c))"
proof -
  have "P (snd (self_member en email nam c))"
    using assms(2) unfolding self_member_def case_prod_unfold by (auto simp: tokens_ops members_ops split: sum.split)
  then show ?thesis
    using clocks_time [OF assms(1)] unfolding IssueSelfInvite_def Let_def case_prod_unfold
    by (auto simp: tokens_ops members_ops invites_ops drop_if_new_ok split: sum.split)
qed

lemmas handler_ok = createTeam_ok renameTeam_ok deleteTeam_ok addTeamMember_ok teamRolesBatch_ok teamMembersRemoveBatch_ok
  usersDeleteBatch_ok userSessionDeactivate_ok userAddTeam_ok userRolesBatch_ok userMembershipsRemoveBatch_ok
  createInvitation_ok resendInvitation_ok cancelInvitation_ok

lemma api_serve_ok:
  assumes "clocks_ok (mc_ttl mc) en" "P c"
  shows "P (snd (api_serve lower jc mc en q c))"
proof -
  have r: "P (snd (reads r c))" for r :: "'x http" using assms(2) by (simp add: reads_def)
  have "P (snd x)" if "team_routes jc mc en q c = Some x" for x
    using that assms unfolding team_routes_def Let_def
    by (auto simp: r handler_ok writes_def split: if_splits option.splits)
  moreover have "P (snd x)" if "user_routes lower jc en q c = Some x" for x
    using that assms unfolding user_routes_def Let_def
    by (auto simp: r handler_ok writes_def usersDeleteBatch_ok [OF assms(1)] split: if_splits option.splits)
  moreover have "P (snd x)" if "invitation_routes jc mc en q c = Some x" for x
    using that assms unfolding invitation_routes_def Let_def
    by (auto simp: r handler_ok writes_def cancelInvitation_ok [OF assms(1)] split: if_splits option.splits)
  ultimately show ?thesis using assms(2) unfolding api_serve_def by (auto split: option.split)
qed

end

text \<open>The stores stay sound; and the log is only appended to, under an unchanged configuration.\<close>

interpretation api_stores: handler_invariant plane_ok
proof
  fix c fg ft fm fi e k
  assume c: "plane_ok c"
  show "plane_ok (c\<lparr>c_groups := groups_step fg (c_groups c)\<rparr>)"
    using c teams.step_inv [of "c_groups c" fg] by (simp add: plane_ok_def)
  show "plane_ok (c\<lparr>c_tokens := tokens_step ft (c_tokens c)\<rparr>)"
    using c tokens.step_inv [of "c_tokens c" ft] by (simp add: plane_ok_def)
  show "plane_ok (c\<lparr>c_members := members_step fm (c_members c)\<rparr>)"
    using c registry.step_inv [of "c_members c" fm] by (simp add: plane_ok_def)
  show "plane_ok (c\<lparr>c_invites := invites_step fi (c_invites c)\<rparr>)" if "event_ok fi"
    using c live_step [OF _ that, of "c_invites c"] by (simp add: plane_ok_def)
  show "plane_ok (Audit_Log e c)" "plane_ok (calls k c)" using c by simp_all
qed

definition log_grows :: "console \<Rightarrow> console \<Rightarrow> bool" where
  "log_grows c c' \<longleftrightarrow> c_cfg c' = c_cfg c \<and> c_engine c' = c_engine c \<and> (\<exists>es. c_audit c' = map_option (\<lambda>l. l @ es) (c_audit c)) \<and>
     (\<exists>ks. c_calls c' = c_calls c @ ks)"

interpretation api_log: handler_invariant "log_grows c"
proof
  fix d fg ft fm fi e k
  assume d: "log_grows c d"
  then show "log_grows c (d\<lparr>c_groups := groups_step fg (c_groups d)\<rparr>)" "log_grows c (d\<lparr>c_tokens := tokens_step ft (c_tokens d)\<rparr>)"
    "log_grows c (d\<lparr>c_members := members_step fm (c_members d)\<rparr>)" "log_grows c (d\<lparr>c_invites := invites_step fi (c_invites d)\<rparr>)"
    "log_grows c (calls k d)"
    by (auto simp: log_grows_def calls_def)
  show "log_grows c (Audit_Log e d)"
  proof (cases "c_audit c")
    case None
    with d show ?thesis by (auto simp: log_grows_def Audit_Log_def)
  next
    case (Some l)
    with d obtain es where "c_audit d = Some (l @ es)" by (auto simp: log_grows_def)
    with d Some show ?thesis by (auto simp: log_grows_def Audit_Log_def intro!: exI [of _ "es @ [e]"])
  qed
qed

text \<open>Only \<open>SetOrgAdmin\<close> names the org admin.\<close>

lemma admin_moves [simp]:
  "gs_orgAdmin (add_byName n p s) = gs_orgAdmin s" "gs_orgAdmin (removeFromByNameLocked n i s) = gs_orgAdmin s"
  "gs_orgAdmin (drop_group g s) = gs_orgAdmin s"
  by (simp_all add: add_byName_def removeFromByNameLocked_def drop_group_def purgeExclusionsForGroupLocked_def Let_def)

lemma groups_step_admin:
  assumes "\<forall>e. snd fg \<noteq> GSetOrgAdmin e"
  shows "gs_orgAdmin (groups_step fg s) = gs_orgAdmin s"
  using assms
  by (cases "(fg, s)" rule: groups_step.cases)
    (auto simp: CreateGroup_def RenameGroup_def delete_commit_def DeleteGroupWithMembers_def Grant_def RevokeDirectGrant_def
      ExcludeRead_def Revoke_def RemoveUser_def Let_def split: if_splits option.splits sum.splits prod.splits)
interpretation api_admin: handler_invariant "\<lambda>c. gs_orgAdmin (c_groups c) = e"
  by unfold_locales (simp_all add: groups_step_admin Audit_Log_def calls_def split: option.split)

end
