(* ===== verification/Console_Effects.thy ===== *)
theory Console_Effects
  imports Console_Frame "HOL-Library.Multiset"
begin

text \<open>
  What the batches of the HTTP surface do to the stores, item by item and as a whole: the cascade
  that deletes a user, and the removal of members from a team.
\<close>

subsection \<open>What success of a store call means\<close>

lemma RevokeToken_success: "fst (RevokeToken f u s) = Inr x \<Longrightarrow> creds (snd (RevokeToken f u s)) = (creds s)(u := None)"
  using creds_none [of s u]
  by (auto simp: RevokeToken_def creds_def deref_delete fun_eq_iff split: option.splits sum.splits)

lemma RevokeToken_Inl: "fst (RevokeToken f u s) = Inl e \<Longrightarrow> snd (RevokeToken f u s) = s"
  by (auto simp: RevokeToken_def split: option.splits sum.splits)

lemma RemoveUser_Inl: "fst (RemoveUser f u s) = Inl e \<Longrightarrow> snd (RemoveUser f u s) = s"
  by (auto simp: RemoveUser_def Let_def split: if_splits sum.splits)

lemma RemoveUser_success:
  assumes l: "groups_live s" and r: "fst (RemoveUser f u s) = Inr n"
  shows "gs_view (snd (RemoveUser f u s)) = v_remove_user u (gs_view s)"
proof -
  have "f = TxOk \<or> RemoveUser f u s = RemoveUser TxOk u s"
    using r by (auto simp: RemoveUser_def Let_def dest: persist_Inr_ok [OF l] split: if_splits sum.splits)
  with RemoveUser_refines [OF l, of TxOk u] show ?thesis by (auto simp: g_refines_def dir_spec.simps)
qed

lemma RevokeAll_Inl: "fst (RevokeAllPendingForMember f now m s) = Inl e \<Longrightarrow> snd (RevokeAllPendingForMember f now m s) = s"
  by (auto simp: RevokeAllPendingForMember_def Let_def split: if_splits sum.splits)

lemma Remove_Inl: "fst (members_Remove f i s) = Inl e \<Longrightarrow> snd (members_Remove f i s) = s"
  by (auto simp: members_Remove_def split: option.splits sum.splits)

lemma Remove_success: "fst (members_Remove f i s) = Inr x \<Longrightarrow> members_view (snd (members_Remove f i s)) = (members_view s)(i := None)"
  by (auto simp: members_Remove_def members_view_def deref_delete fun_eq_iff split: option.splits sum.splits)

lemma Get_view: "members_Get i s = Inr m \<longleftrightarrow> members_view s i = Some m"
  by (auto simp: members_Get_def members_view_def deref_def split: option.splits)

subsection \<open>Deleting users\<close>

definition pending_invites :: "invite_store \<Rightarrow> string \<Rightarrow> invite option" where
  "pending_invites s h = (case invites_view s h of None \<Rightarrow> None | Some iv \<Rightarrow> if iv_Status iv = StatusPending then Some iv else None)"

text \<open>Nothing is left of a user: no row, no credential, no membership, no exclusion, no code to redeem.\<close>

definition erased :: "string \<Rightarrow> string \<Rightarrow> console \<Rightarrow> bool" where
  "erased i email c \<longleftrightarrow> members_view (c_members c) i = None \<and> creds (c_tokens c) email = None \<and>
     d_member (gs_view (c_groups c)) i = Map.empty \<and> d_excl (gs_view (c_groups c)) i = Map.empty \<and>
     (\<forall>h iv. pending_invites (c_invites c) h = Some iv \<longrightarrow> iv_MemberID iv \<noteq> i)"

definition shrinks :: "console \<Rightarrow> console \<Rightarrow> bool" where
  "shrinks c c' \<longleftrightarrow> members_view (c_members c') \<subseteq>\<^sub>m members_view (c_members c) \<and> creds (c_tokens c') \<subseteq>\<^sub>m creds (c_tokens c) \<and>
     (\<forall>u. d_member (gs_view (c_groups c')) u \<subseteq>\<^sub>m d_member (gs_view (c_groups c)) u) \<and>
     (\<forall>u. d_excl (gs_view (c_groups c')) u \<subseteq>\<^sub>m d_excl (gs_view (c_groups c)) u) \<and>
     pending_invites (c_invites c') \<subseteq>\<^sub>m pending_invites (c_invites c)"

lemma map_le_None: "m' \<subseteq>\<^sub>m m \<Longrightarrow> m x = None \<Longrightarrow> m' x = None"
  by (cases "m' x") (auto simp: map_le_def dom_def)

lemma map_le_Some: "m' \<subseteq>\<^sub>m m \<Longrightarrow> m' x = Some y \<Longrightarrow> m x = Some y"
  by (auto simp: map_le_def dom_def)

lemma shrinks_trans: "shrinks c d \<Longrightarrow> shrinks d e \<Longrightarrow> shrinks c e"
  unfolding shrinks_def by (blast intro: map_le_trans)

lemma map_le_empty: "m \<subseteq>\<^sub>m Map.empty \<Longrightarrow> m = Map.empty"
  by (auto simp: map_le_def dom_def fun_eq_iff)

lemma erased_shrinks: "erased i email c \<Longrightarrow> shrinks c c' \<Longrightarrow> erased i email c'"
proof -
  assume e: "erased i email c" and s: "shrinks c c'"
  have "d_member (gs_view (c_groups c')) i \<subseteq>\<^sub>m Map.empty" "d_excl (gs_view (c_groups c')) i \<subseteq>\<^sub>m Map.empty"
    using e s unfolding erased_def shrinks_def by metis+
  with e s show ?thesis unfolding erased_def shrinks_def by (blast dest: map_le_None map_le_Some map_le_empty)
qed

text \<open>
  Nobody but the persons in \<open>xs\<close> is touched: no row, membership, exclusion or invite of anybody else
  changes, and no team does.
\<close>

definition spares :: "string set \<Rightarrow> console \<Rightarrow> console \<Rightarrow> bool" where
  "spares xs c c' \<longleftrightarrow> (\<forall>j. j \<notin> xs \<longrightarrow> members_view (c_members c') j = members_view (c_members c) j \<and>
       d_member (gs_view (c_groups c')) j = d_member (gs_view (c_groups c)) j \<and> d_excl (gs_view (c_groups c')) j = d_excl (gs_view (c_groups c)) j) \<and>
     (\<forall>h. (\<forall>iv. invites_view (c_invites c) h = Some iv \<longrightarrow> iv_MemberID iv \<notin> xs) \<longrightarrow> invites_view (c_invites c') h = invites_view (c_invites c) h) \<and>
     d_group (gs_view (c_groups c')) = d_group (gs_view (c_groups c))"

lemma spares_refl: "spares xs c c"
  by (simp add: spares_def)

lemma spares_trans: "spares xs c d \<Longrightarrow> spares ys d e \<Longrightarrow> spares (xs \<union> ys) c e"
  by (simp add: spares_def)

lemma spares_mono: "spares xs c d \<Longrightarrow> xs \<subseteq> ys \<Longrightarrow> spares ys c d"
  using spares_trans [OF _ spares_refl, of xs c d ys] by (simp add: Un_absorb1)

lemma pending_cancel:
  "invites_view s' = (\<lambda>h. map_option (cancel m now) (invites_view s h)) \<Longrightarrow>
   pending_invites s' = (\<lambda>h. case pending_invites s h of None \<Rightarrow> None | Some iv \<Rightarrow> if iv_MemberID iv = m then None else Some iv)"
  by (auto simp: pending_invites_def cancel_def fun_eq_iff split: option.split)

text \<open>What one member's cascade does, wherever it stops.\<close>

definition cascade :: "string \<Rightarrow> member \<Rightarrow> console \<Rightarrow> console \<Rightarrow> bool" where
  "cascade i m c c' \<longleftrightarrow> shrinks c c' \<and> spares {i} c c' \<and> (\<forall>u. u \<noteq> m_Email m \<longrightarrow> creds (c_tokens c') u = creds (c_tokens c) u)"

lemma cascade_tokens:
  "c' = snd (on_tokens (RevokeToken f (m_Email m)) c) \<Longrightarrow> cascade i m c c' \<and>
   (\<forall>x. fst (RevokeToken f (m_Email m) (c_tokens c)) = Inr x \<longrightarrow> creds (c_tokens c') (m_Email m) = None)"
  using RevokeToken_success [of f "m_Email m" "c_tokens c"] RevokeToken_Inl [of f "m_Email m" "c_tokens c"]
  by (cases "fst (RevokeToken f (m_Email m) (c_tokens c))") (auto simp: cascade_def spares_def shrinks_def map_le_def)

lemma cascade_groups:
  "groups_live (c_groups c) \<Longrightarrow> c' = snd (on_groups (RemoveUser f i) c) \<Longrightarrow> cascade i m c c' \<and>
   (\<forall>x. fst (RemoveUser f i (c_groups c)) = Inr x \<longrightarrow> d_member (gs_view (c_groups c')) i = Map.empty \<and> d_excl (gs_view (c_groups c')) i = Map.empty)"
  using RemoveUser_success [of "c_groups c" f i] RemoveUser_Inl [of f i "c_groups c"]
  by (cases "fst (RemoveUser f i (c_groups c))") (auto simp: cascade_def spares_def shrinks_def map_le_def v_remove_user_def)

lemma cascade_invites:
  assumes "invites_live (c_invites c)" "time_ok now" "c' = snd (on_invites (RevokeAllPendingForMember f now i) c)"
  shows "cascade i m c c' \<and> (\<forall>x. fst (RevokeAllPendingForMember f now i (c_invites c)) = Inr x \<longrightarrow>
    (\<forall>h iv. pending_invites (c_invites c') h = Some iv \<longrightarrow> iv_MemberID iv \<noteq> i))"
proof (cases "fst (RevokeAllPendingForMember f now i (c_invites c))")
  case (Inl e)
  with RevokeAll_Inl [of f now i "c_invites c" e] assms show ?thesis by (simp add: cascade_def spares_def shrinks_def)
next
  case (Inr k)
  obtain T where "invites_inv T (c_invites c)" using assms(1) by (auto simp: invites_live_def)
  from RevokeAll_step [OF this assms(2) refl, of f i] Inr
  have v: "invites_view (c_invites c') = (\<lambda>h. map_option (cancel i now) (invites_view (c_invites c) h))" by (simp add: assms(3))
  have "spares {i} c c'"
    using v assms(3) by (auto simp: spares_def cancel_def map_option_case split: option.split)
  then show ?thesis using pending_cancel [OF v] assms(3)
    by (auto simp: cascade_def shrinks_def map_le_def dom_def split: option.splits if_splits)
qed

lemma cascade_members:
  "c' = snd (on_members (members_Remove f i) c) \<Longrightarrow> cascade i m c c' \<and>
   (\<forall>x. fst (members_Remove f i (c_members c)) = Inr x \<longrightarrow> members_view (c_members c') i = None) \<and>
   (\<forall>e. fst (members_Remove f i (c_members c)) = Inl e \<longrightarrow> c_members c' = c_members c)"
  using Remove_success [of f i "c_members c"] Remove_Inl [of f i "c_members c"]
  by (cases "fst (members_Remove f i (c_members c))") (auto simp: cascade_def spares_def shrinks_def map_le_def)

lemma cascade_refl: "cascade i m c c"
  by (simp add: cascade_def spares_def shrinks_def)

lemma cascade_trans: "cascade i m c d \<Longrightarrow> cascade i m d e \<Longrightarrow> cascade i m c e"
  unfolding cascade_def using shrinks_trans [of c d e] spares_trans [of "{i}" c d "{i}" e] by simp

lemma cascade_audit [simp]: "cascade i m c (auditAdmin en a b t d) = cascade i m c d"
  by (simp add: cascade_def spares_def shrinks_def)

lemma erased_audit [simp]: "erased i e (auditAdmin en a b t d) = erased i e d"
  by (simp add: erased_def)

lemma user_delete_step_effect:
  assumes ok: "plane_ok c" "clocks_ok ttl en" and r: "user_delete_step actor en i (res, c) = (res', c')"
  shows "(members_view (c_members c) i = None \<and> res' = batch_fail i ''USER_NOT_FOUND'' res \<and> c' = c) \<or>
    (\<exists>m. members_view (c_members c) i = Some m \<and> cascade i m c c' \<and>
       (res' = batch_ok i res \<and> erased i (m_Email m) c' \<or>
        res' = batch_fail i ''USER_NOT_FOUND'' res \<and> members_view (c_members c') = members_view (c_members c)))"
proof (cases "members_view (c_members c) i")
  case None
  then have "isl (members_Get i (c_members c))" using Get_view [of i "c_members c"] by (cases "members_Get i (c_members c)") auto
  then show ?thesis using r None by (auto simp: user_delete_step_def Let_def split: sum.splits)
next
  case (Some m)
  then have g: "members_Get i (c_members c) = Inr m" by (simp add: Get_view)
  have i: "m_ID m = i" using members_view_key [of "c_members c" i m] Some ok(1) by (simp add: plane_ok_def members_live_def)
  define c1 where "c1 = snd (on_tokens (RevokeToken (en_fault en 0) (m_Email m)) c)"
  define c2 where "c2 = snd (on_groups (RemoveUser (en_fault en 1) i) c1)"
  define c3 where "c3 = snd (on_invites (RevokeAllPendingForMember (en_fault en 2) (en_clock en 2) i) c2)"
  define c4 where "c4 = snd (on_members (members_Remove (en_fault en 3) i) c3)"
  note K1 = cascade_tokens [OF c1_def, of i] and K4 = cascade_members [OF c4_def, of m]
  have K2: "cascade i m c1 c2 \<and> (\<forall>x. fst (RemoveUser (en_fault en 1) i (c_groups c1)) = Inr x \<longrightarrow>
      d_member (gs_view (c_groups c2)) i = Map.empty \<and> d_excl (gs_view (c_groups c2)) i = Map.empty)"
    by (rule cascade_groups [OF _ c2_def]) (use ok in \<open>simp add: c1_def plane_ok_def\<close>)
  have K3: "cascade i m c2 c3 \<and> (\<forall>x. fst (RevokeAllPendingForMember (en_fault en 2) (en_clock en 2) i (c_invites c2)) = Inr x \<longrightarrow>
      (\<forall>h iv. pending_invites (c_invites c3) h = Some iv \<longrightarrow> iv_MemberID iv \<noteq> i))"
    by (rule cascade_invites [OF _ _ c3_def]) (use ok clocks_time in \<open>auto simp: c2_def c1_def plane_ok_def\<close>)
  have same: "members_view (c_members c3) = members_view (c_members c)" "members_view (c_members c2) = members_view (c_members c)"
      "members_view (c_members c1) = members_view (c_members c)"
    by (simp_all add: c3_def c2_def c1_def)
  have b: "(res', c') = (case fst (RevokeToken (en_fault en 0) (m_Email m) (c_tokens c)) of Inl _ \<Rightarrow> (batch_fail i ''USER_NOT_FOUND'' res, c1)
      | Inr _ \<Rightarrow> (case fst (RemoveUser (en_fault en 1) i (c_groups c1)) of Inl _ \<Rightarrow> (batch_fail i ''USER_NOT_FOUND'' res, c2)
        | Inr _ \<Rightarrow> (case fst (RevokeAllPendingForMember (en_fault en 2) (en_clock en 2) i (c_invites c2)) of Inl _ \<Rightarrow> (batch_fail i ''USER_NOT_FOUND'' res, c3)
          | Inr _ \<Rightarrow> (case fst (members_Remove (en_fault en 3) i (c_members c3)) of Inl _ \<Rightarrow> (batch_fail i ''USER_NOT_FOUND'' res, c4)
            | Inr _ \<Rightarrow> (batch_ok i res, auditAdmin en ''admin.member.delete'' actor (m_Email m) c4)))))"
    using r [symmetric] unfolding user_delete_step_def case_prod_unfold Let_def on_result c1_def c2_def c3_def c4_def fst_conv snd_conv g
    by (simp only: sum.case i)
  show ?thesis
  proof (cases "fst (RevokeToken (en_fault en 0) (m_Email m) (c_tokens c))")
    case (Inl e)
    with b K1 Some same show ?thesis by simp
  next
    case t: (Inr x)
    note c02 = cascade_trans [of i m c c1 c2] 
    show ?thesis
    proof (cases "fst (RemoveUser (en_fault en 1) i (c_groups c1))")
      case (Inl e)
      with b K1 K2 t Some same c02 show ?thesis by simp
    next
      case g: (Inr y)
      note c03 = cascade_trans [of i m c c2 c3]
      show ?thesis
      proof (cases "fst (RevokeAllPendingForMember (en_fault en 2) (en_clock en 2) i (c_invites c2))")
        case (Inl e)
        with b K1 K2 K3 t g Some same c02 c03 show ?thesis by simp
      next
        case v: (Inr z)
        note c04 = cascade_trans [of i m c c3 c4]
        show ?thesis
        proof (cases "fst (members_Remove (en_fault en 3) i (c_members c3))")
          case (Inl e)
          then have "c_members c4 = c_members c3" using K4 by blast
          with b K1 K2 K3 K4 t g v Inl Some same c02 c03 c04 show ?thesis by simp
        next
          case (Inr w)
          have "erased i (m_Email m) c4"
            using K1 K2 K3 K4 t g v Inr by (auto simp: erased_def c4_def c3_def c2_def)
          with b K1 K2 K3 K4 t g v Inr Some c02 c03 c04 show ?thesis by simp
        qed
      qed
    qed
  qed
qed

text \<open>A batch: each step leaves a smaller console, and what is erased stays erased.\<close>

definition delete_report :: "console \<Rightarrow> string list \<Rightarrow> console \<Rightarrow> string list \<Rightarrow> (string \<times> string) list \<Rightarrow> bool" where
  "delete_report c xs c' oks fails \<longleftrightarrow> plane_ok c' \<and> shrinks c c' \<and> mset oks + mset (map fst fails) = mset xs \<and>
     (\<forall>i \<in> set oks. \<exists>m. members_view (c_members c) i = Some m \<and> erased i (m_Email m) c') \<and>
     (\<forall>i. members_view (c_members c) i \<noteq> None \<and> members_view (c_members c') i = None \<longrightarrow> i \<in> set oks) \<and>
     (\<forall>u. (\<forall>i m. i \<in> set xs \<longrightarrow> members_view (c_members c) i = Some m \<longrightarrow> m_Email m \<noteq> u) \<longrightarrow> creds (c_tokens c') u = creds (c_tokens c) u) \<and>
     spares (set xs) c c'"

lemma batch_fail_eq: "batch_fail i code res = res\<lparr>br_Succeeded := br_Succeeded res @ [], br_Failed := br_Failed res @ [(i, code)]\<rparr>"
  by (cases res) (simp add: batch_fail_def)

lemma batch_ok_eq: "batch_ok i res = res\<lparr>br_Succeeded := br_Succeeded res @ [i], br_Failed := br_Failed res @ []\<rparr>"
  by (cases res) (simp add: batch_ok_def)

lemma delete_report_step:
  assumes s: "plane_ok c" "clocks_ok ttl en" "user_delete_step actor en i (res, c) = (res1, c1)" and r: "delete_report c1 xs c' oks fails"
  shows "\<exists>oks' fails'. delete_report c (i # xs) c' (oks' @ oks) (fails' @ fails) \<and>
    res1 = res\<lparr>br_Succeeded := br_Succeeded res @ oks', br_Failed := br_Failed res @ fails'\<rparr>"
proof -
  from user_delete_step_effect [OF s] show ?thesis
  proof (elim disjE exE conjE, goal_cases none ok fail)
    case none
    have "delete_report c (i # xs) c' ([] @ oks) ([(i, ''USER_NOT_FOUND'')] @ fails)"
      using r spares_mono [of "set xs" c c' "set (i # xs)"] unfolding none(3) delete_report_def by (elim conjE, intro conjI) (simp | blast)+
    then show ?thesis using none(2) batch_fail_eq by blast
  next
    case (ok m)
    have K: "shrinks c c1" "\<And>j. j \<noteq> i \<Longrightarrow> members_view (c_members c1) j = members_view (c_members c) j"
        "\<And>u. u \<noteq> m_Email m \<Longrightarrow> creds (c_tokens c1) u = creds (c_tokens c) u" "spares {i} c c1"
      using ok(2) by (simp_all add: cascade_def spares_def)
    have sub: "members_view (c_members c1) j = Some x \<Longrightarrow> members_view (c_members c) j = Some x" for j x
      using K(1) by (auto simp: shrinks_def dest: map_le_Some)
    have "delete_report c (i # xs) c' ([i] @ oks) ([] @ fails)"
      unfolding delete_report_def
    proof (intro conjI ballI allI impI)
      show "plane_ok c'" "shrinks c c'" "mset ([i] @ oks) + mset (map fst ([] @ fails)) = mset (i # xs)"
        using r shrinks_trans [OF K(1)] by (auto simp: delete_report_def)
      fix j assume "j \<in> set ([i] @ oks)"
      then consider "j = i" | "j \<in> set oks" by auto
      then show "\<exists>m. members_view (c_members c) j = Some m \<and> erased j (m_Email m) c'"
      proof cases
        case 1
        then show ?thesis using ok erased_shrinks [OF ok(4), of c'] r by (auto simp: delete_report_def)
      next
        case 2
        then show ?thesis using r sub unfolding delete_report_def by blast
      qed
    next
      fix j assume "members_view (c_members c) j \<noteq> None \<and> members_view (c_members c') j = None"
      then show "j \<in> set ([i] @ oks)" using r K(2) [of j] by (cases "j = i") (simp_all add: delete_report_def)
    next
      fix u assume u: "\<forall>j m. j \<in> set (i # xs) \<longrightarrow> members_view (c_members c) j = Some m \<longrightarrow> m_Email m \<noteq> u"
      then have "creds (c_tokens c') u = creds (c_tokens c1) u" using r sub unfolding delete_report_def by (metis list.set_intros(2))
      moreover have "u \<noteq> m_Email m" using u ok(1) by auto
      ultimately show "creds (c_tokens c') u = creds (c_tokens c) u" using K(3) by simp
    next
      show "spares (set (i # xs)) c c'" using spares_trans [OF K(4), of "set xs" c'] r by (simp add: delete_report_def)
    qed
    then show ?thesis using ok(3) batch_ok_eq by blast
  next
    case (fail m)
    have K: "shrinks c c1" "\<And>u. u \<noteq> m_Email m \<Longrightarrow> creds (c_tokens c1) u = creds (c_tokens c) u" "spares {i} c c1"
      using fail(2) by (simp_all add: cascade_def)
    have "delete_report c (i # xs) c' ([] @ oks) ([(i, ''USER_NOT_FOUND'')] @ fails)"
      unfolding delete_report_def
    proof (intro conjI ballI allI impI)
      show "plane_ok c'" "shrinks c c'" "mset ([] @ oks) + mset (map fst ([(i, ''USER_NOT_FOUND'')] @ fails)) = mset (i # xs)"
        using r shrinks_trans [OF K(1)] by (auto simp: delete_report_def)
      show "\<exists>m. members_view (c_members c) j = Some m \<and> erased j (m_Email m) c'" if "j \<in> set ([] @ oks)" for j
        using that r by (simp add: delete_report_def fail(4))
      show "j \<in> set ([] @ oks)" if "members_view (c_members c) j \<noteq> None \<and> members_view (c_members c') j = None" for j
        using that r by (simp add: delete_report_def fail(4))
      show "creds (c_tokens c') u = creds (c_tokens c) u"
        if "\<forall>j m. j \<in> set (i # xs) \<longrightarrow> members_view (c_members c) j = Some m \<longrightarrow> m_Email m \<noteq> u" for u
        using that r K(2) [of u] fail(1) by (auto simp: delete_report_def fail(4))
      show "spares (set (i # xs)) c c'" using spares_trans [OF K(3), of "set xs" c'] r by (simp add: delete_report_def)
    qed
    then show ?thesis using fail(3) batch_fail_eq by blast
  qed
qed

lemma delete_rounds:
  assumes "plane_ok c" "clocks_ok ttl en" "rounds (user_delete_step actor) en k xs (res, c) = (res', c')"
  shows "\<exists>oks fails. delete_report c xs c' oks fails \<and>
    res' = res\<lparr>br_Succeeded := br_Succeeded res @ oks, br_Failed := br_Failed res @ fails\<rparr>"
  using assms(1,3)
proof (induction xs arbitrary: k res c)
  case Nil
  then have "delete_report c [] c' [] [] \<and> res' = res\<lparr>br_Succeeded := br_Succeeded res @ [], br_Failed := br_Failed res @ []\<rparr>"
    by (auto simp: delete_report_def shrinks_def spares_refl)
  then show ?case by blast
next
  case (Cons i xs)
  obtain res1 c1 where s: "user_delete_step actor (round_env k en) i (res, c) = (res1, c1)" by (cases "user_delete_step actor (round_env k en) i (res, c)")
  note e = clocks_round [OF assms(2), of k]
  have "plane_ok c1" using api_stores.user_delete_step_ok [OF e, of "(res, c)" actor i] Cons.prems(1) s by simp
  from Cons.IH [OF this, of "Suc k" res1] Cons.prems(2) s obtain oks fails where
    r: "delete_report c1 xs c' oks fails" "res' = res1\<lparr>br_Succeeded := br_Succeeded res1 @ oks, br_Failed := br_Failed res1 @ fails\<rparr>" by auto
  from delete_report_step [OF Cons.prems(1) e s r(1)] obtain oks' fails' where
    "delete_report c (i # xs) c' (oks' @ oks) (fails' @ fails)"
    "res1 = res\<lparr>br_Succeeded := br_Succeeded res @ oks', br_Failed := br_Failed res @ fails'\<rparr>" by blast
  with r(2) show ?case by (intro exI [of _ "oks' @ oks"] exI [of _ "fails' @ fails"]) simp
qed

lemma no_membership_no_scope:
  assumes "groups_live s" "d_member (gs_view s) i = Map.empty"
  shows "RecallScope s i = []"
proof -
  have "set (RecallScope s i) = {}"
    using RecallScope_set [OF live_inv [OF assms(1)], of i] assms(2) by (simp add: may_read_def v_inherits_def)
  then show ?thesis by simp
qed

subsection \<open>Taking access to a team away\<close>

lemma may_read_revoke_sub: "may_read (v_revoke u i v) x j \<Longrightarrow> may_read v x j"
proof -
  have "d_member (v_revoke u i v) x a \<noteq> None \<Longrightarrow> d_member v x a \<noteq> None" for a
    by (auto simp: v_revoke_def split: if_splits)
  moreover have "d_excl (v_revoke u i v) = d_excl v" by (simp add: v_revoke_def)
  moreover assume "may_read (v_revoke u i v) x j"
  ultimately show ?thesis unfolding may_read_def v_inherits_def dpar_other by metis
qed

lemma may_read_exclude_sub: "may_read (v_exclude e v) x j \<Longrightarrow> may_read v x j"
  unfolding may_read_exclude by (simp add: may_read_def split: if_splits)

lemma revoke_spec_sub: "may_read (dir_spec (GRevoke now u ref b) v) x j \<Longrightarrow> may_read v x j"
  by (auto simp: dir_spec.simps dest!: may_read_exclude_sub may_read_revoke_sub split: option.splits if_splits)

lemma revoke_spec_other: "x \<noteq> u \<Longrightarrow> may_read (dir_spec (GRevoke now u ref b) v) x j \<longleftrightarrow> may_read v x j"
  by (auto simp: dir_spec.simps may_read_exclude may_read_user_other split: option.split)

lemma revoke_spec_groups: "d_group (dir_spec (GRevoke now u ref b) v) = d_group v"
  by (auto simp: dir_spec.simps v_exclude_def v_revoke_def split: option.split)

lemma resolve_groups: "d_group v' = d_group v \<Longrightarrow> v_resolve v' ref = v_resolve v ref"
proof -
  assume e: "d_group v' = d_group v"
  then have "v_named v' = v_named v" by (simp add: v_named_def fun_eq_iff)
  with e show ?thesis by (simp add: v_resolve_def)
qed

text \<open>Less access than before, and none lost by those not in \<open>us\<close>.\<close>

definition cuts :: "string set \<Rightarrow> group_store \<Rightarrow> group_store \<Rightarrow> bool" where
  "cuts us s s' \<longleftrightarrow> groups_live s' \<and> d_group (gs_view s') = d_group (gs_view s) \<and>
     (\<forall>x j. may_read (gs_view s') x j \<longrightarrow> may_read (gs_view s) x j) \<and>
     (\<forall>x j. x \<notin> us \<longrightarrow> may_read (gs_view s') x j = may_read (gs_view s) x j)"

lemma cuts_refl: "groups_live s \<Longrightarrow> cuts us s s"
  by (simp add: cuts_def)

lemma cuts_trans: "cuts us s t \<Longrightarrow> cuts us' t r \<Longrightarrow> cuts (us \<union> us') s r"
  by (simp add: cuts_def)

lemma Revoke_cuts:
  assumes l: "groups_live s"
  shows "cuts {u} s (snd (Revoke f now u ref b s))"
proof -
  let ?s' = "snd (Revoke f now u ref b s)"
  have "gs_view ?s' = gs_view s \<or> gs_view ?s' = dir_spec (GRevoke now u ref b) (gs_view s)"
    using Revoke_refines [OF l, of f now u ref b] by (simp add: g_refines_def)
  moreover have "groups_live ?s'" by (rule groups_kept [OF l])
  ultimately show ?thesis
    using revoke_spec_sub [of now u ref b "gs_view s"] revoke_spec_other [of _ u now ref b "gs_view s"] revoke_spec_groups [of now u ref b "gs_view s"]
    unfolding cuts_def by (elim disjE) (simp_all only: singleton_iff, auto)
qed

lemma Revoke_gone:
  assumes l: "groups_live s" and r: "v_resolve (gs_view s) ref = Some gid" and ok: "fst (Revoke f now u ref b s) = Inr x"
  shows "\<not> may_read (gs_view (snd (Revoke f now u ref b s))) u gid"
  using revoke_view(1) [OF _ r Revoke_success [OF l ok]] Revoke_valid [OF ok] by simp

text \<open>The outcome of one item: cut, nothing to cut, or refused.\<close>

definition cut_outcome :: "string \<Rightarrow> string \<Rightarrow> string \<Rightarrow> group_store \<Rightarrow> batch_result \<Rightarrow> batch_result \<Rightarrow> bool" where
  "cut_outcome item u gid s' res res' \<longleftrightarrow>
     res' = batch_ok item res \<and> \<not> may_read (gs_view s') u gid \<or>
     (\<exists>code. res' = batch_fail item code res \<and> (code = ''NOT_TEAM_MEMBER'' \<longrightarrow> \<not> may_read (gs_view s') u gid))"

lemma revoke_item_effect:
  assumes l: "groups_live (c_groups c)" and r: "v_resolve (gs_view (c_groups c)) ref = Some gid"
    and i: "revoke_item item actor u ref en (res, c) = (res', c')"
  shows "cuts {u} (c_groups c) (c_groups c') \<and> c_members c' = c_members c \<and> cut_outcome item u gid (c_groups c') res res'"
proof -
  let ?call = "Revoke (en_fault en 2) (en_clock en 2) u ref (localAdminActor actor)"
  let ?r = "fst (?call (c_groups c))"
  have e: "(res', c') = (case ?r of
       Inl e \<Rightarrow> (batch_fail item (case e of ErrGroupNotFound _ \<Rightarrow> ''TEAM_NOT_FOUND'' | _ \<Rightarrow> ''INTERNAL'') res, snd (on_groups ?call c))
     | Inr (a, b) \<Rightarrow> (if \<not> a \<and> \<not> b then batch_fail item ''NOT_TEAM_MEMBER'' res else batch_ok item res, snd (on_groups ?call c)))"
    using i [symmetric] unfolding revoke_item_def case_prod_unfold on_result
    by (auto split: sum.splits group_error.split if_splits)
  then have c': "c' = snd (on_groups ?call c)" by (auto split: sum.splits prod.splits)
  have "cut_outcome item u gid (c_groups c') res res'"
  proof (cases ?r)
    case (Inl err)
    then show ?thesis using e by (auto simp: cut_outcome_def split: group_error.splits)
  next
    case (Inr ab)
    with Revoke_gone [OF l r Inr] e c' show ?thesis by (cases ab) (auto simp: cut_outcome_def split: if_splits)
  qed
  then show ?thesis using Revoke_cuts [OF l] c' by simp
qed

definition cut_report :: "string \<Rightarrow> string list \<Rightarrow> group_store \<Rightarrow> group_store \<Rightarrow> string list \<Rightarrow> (string \<times> string) list \<Rightarrow> bool" where
  "cut_report gid xs s s' oks fails \<longleftrightarrow> cuts (set xs) s s' \<and> mset oks + mset (map fst fails) = mset xs \<and>
     (\<forall>u \<in> set oks. \<not> may_read (gs_view s') u gid) \<and> (\<forall>u. (u, ''NOT_TEAM_MEMBER'') \<in> set fails \<longrightarrow> \<not> may_read (gs_view s') u gid)"

lemma cut_rounds:
  assumes "groups_live (c_groups c)" "v_resolve (gs_view (c_groups c)) ref = Some gid"
    "rounds (team_remove_step actor ref) en k xs (res, c) = (res', c')"
  shows "\<exists>oks fails. cut_report gid xs (c_groups c) (c_groups c') oks fails \<and>
    res' = res\<lparr>br_Succeeded := br_Succeeded res @ oks, br_Failed := br_Failed res @ fails\<rparr>"
  using assms
proof (induction xs arbitrary: k res c)
  case Nil
  then have "cut_report gid [] (c_groups c) (c_groups c') [] [] \<and> res' = res\<lparr>br_Succeeded := br_Succeeded res @ [], br_Failed := br_Failed res @ []\<rparr>"
    by (auto simp: cut_report_def cuts_refl)
  then show ?case by blast
next
  case (Cons u xs)
  obtain res1 c1 where s: "team_remove_step actor ref (round_env k en) u (res, c) = (res1, c1)"
    by (cases "team_remove_step actor ref (round_env k en) u (res, c)")
  have K: "cuts {u} (c_groups c) (c_groups c1) \<and> cut_outcome u u gid (c_groups c1) res res1"
  proof (cases "members_Get u (c_members c)")
    case (Inl e)
    then have "res1 = batch_fail u ''USER_NOT_FOUND'' res" "c1 = c" using s by (auto simp: team_remove_step_def)
    then show ?thesis using cuts_refl [OF Cons.prems(1)] by (auto simp: cut_outcome_def)
  next
    case (Inr m)
    then have "revoke_item u actor u ref (round_env k en) (res, c) = (res1, c1)" using s by (simp add: team_remove_step_def)
    from revoke_item_effect [OF Cons.prems(1,2) this] show ?thesis by blast
  qed
  then have c1: "groups_live (c_groups c1)" "v_resolve (gs_view (c_groups c1)) ref = Some gid"
    using Cons.prems(2) resolve_groups [of "gs_view (c_groups c1)" "gs_view (c_groups c)" ref] by (simp_all add: cuts_def)
  from Cons.IH [OF c1, of "Suc k" res1] Cons.prems(3) s obtain oks fails where
    r: "cut_report gid xs (c_groups c1) (c_groups c') oks fails" "res' = res1\<lparr>br_Succeeded := br_Succeeded res1 @ oks, br_Failed := br_Failed res1 @ fails\<rparr>" by auto
  have tr: "cuts (set (u # xs)) (c_groups c) (c_groups c')"
    using cuts_trans [of "{u}" "c_groups c" "c_groups c1" "set xs" "c_groups c'"] K r(1) by (simp add: cut_report_def)
  have down: "\<not> may_read (gs_view (c_groups c1)) u gid \<Longrightarrow> \<not> may_read (gs_view (c_groups c')) u gid"
    using r(1) unfolding cut_report_def cuts_def by blast
  obtain oks' fails' where o: "cut_report gid (u # xs) (c_groups c) (c_groups c') (oks' @ oks) (fails' @ fails)"
    "res1 = res\<lparr>br_Succeeded := br_Succeeded res @ oks', br_Failed := br_Failed res @ fails'\<rparr>"
  proof -
    from K have "cut_outcome u u gid (c_groups c1) res res1" by simp
    then show ?thesis
      unfolding cut_outcome_def
    proof (elim disjE exE conjE, goal_cases cut refused)
      case cut
      then show ?thesis using that [of "[u]" "[]"] batch_ok_eq [of u res] r(1) tr down by (simp add: cut_report_def)
    next
      case (refused code)
      have "cut_report gid (u # xs) (c_groups c) (c_groups c') ([] @ oks) ([(u, code)] @ fails)"
        using r(1) tr down refused(2) unfolding cut_report_def by auto
      then show ?thesis using that [of "[]" "[(u, code)]"] refused(1) batch_fail_eq [of u code res] by simp
    qed
  qed
  then show ?case using r(2) by (intro exI [of _ "oks' @ oks"] exI [of _ "fails' @ fails"]) simp
qed

subsection \<open>With a healthy database\<close>

lemma RevokeToken_healthy: "tokens_live s \<Longrightarrow> \<exists>x. fst (RevokeToken TxOk u s) = Inr x"
proof (rule ccontr)
  assume l: "tokens_live s" and n: "\<nexists>x. fst (RevokeToken TxOk u s) = Inr x"
  then obtain e where e: "fst (RevokeToken TxOk u s) = Inl e" by (cases "fst (RevokeToken TxOk u s)") auto
  have "creds s u = None" using RevokeToken_refines [OF l, of TxOk u] RevokeToken_Inl [OF e] by (simp add: t_refines_def fun_eq_iff) metis
  with e show False using creds_none [of s u] by (simp add: RevokeToken_def)
qed

lemma inner_none: "wf2 m \<Longrightarrow> lookup2 m u = Map.empty \<Longrightarrow> inner m u = []"
  using count_inner [of m u] by simp

lemma RemoveUser_healthy: "groups_live s \<Longrightarrow> \<exists>x. fst (RemoveUser TxOk u s) = Inr x"
proof (rule ccontr)
  assume l: "groups_live s" and n: "\<nexists>x. fst (RemoveUser TxOk u s) = Inr x"
  then obtain e where e: "fst (RemoveUser TxOk u s) = Inl e" by (cases "fst (RemoveUser TxOk u s)") auto
  have "gs_view s = v_remove_user u (gs_view s)"
    using RemoveUser_refines [OF l, of TxOk u] RemoveUser_Inl [OF e] by (simp add: g_refines_def dir_spec.simps)
  then have "d_member (gs_view s) u = Map.empty" "d_excl (gs_view s) u = Map.empty"
    by (metis directory.select_convs(2,3) directory.surjective directory.update_convs(2,3) fun_upd_same v_remove_user_def)+
  then have "inner (gs_memberships s) u = []" "inner (gs_excluded s) u = []"
    using inner_none [OF conjunct1 [OF rep_wf2 [OF l]], of u] inner_none [OF conjunct2 [OF rep_wf2 [OF l]], of u] by simp_all
  with e show False by (simp add: RemoveUser_def)
qed

lemma Remove_healthy:
  assumes "members_live s" "members_view s i = Some m"
  shows "fst (members_Remove TxOk i s) = Inr ()"
proof (cases "fst (members_Remove TxOk i s)")
  case (Inl e)
  have "members_inv s" using assms(1) by (simp add: members_live_def)
  from Remove_refines [OF this, of TxOk i] Remove_Inl [OF Inl] have "members_view s i = None"
    by (simp add: refines_step_def) (metis fun_upd_same)
  with assms(2) show ?thesis by simp
qed simp

lemma user_delete_healthy:
  assumes ok: "plane_ok c" and e: "\<forall>k. en_fault en k = TxOk" "time_ok (en_clock en 2)" "invites_inv T (c_invites c)" "T \<le> en_clock en 2"
    and m: "members_view (c_members c) i = Some m"
  shows "fst (user_delete_step actor en i (res, c)) = batch_ok i res"
proof -
  have g: "members_Get i (c_members c) = Inr m" using m by (simp add: Get_view)
  have i: "m_ID m = i" using members_view_key [of "c_members c" i m] m ok by (simp add: plane_ok_def members_live_def)
  obtain x y z where "fst (RevokeToken TxOk (m_Email m) (c_tokens c)) = Inr x" "fst (RemoveUser TxOk i (c_groups c)) = Inr y"
    "fst (RevokeAllPendingForMember TxOk (en_clock en 2) i (c_invites c)) = Inr z" "fst (members_Remove TxOk i (c_members c)) = Inr ()"
    using RevokeToken_healthy RemoveUser_healthy RevokeAll_healthy [OF e(3,4,2)] Remove_healthy [OF _ m] ok unfolding plane_ok_def by metis
  then show ?thesis
    unfolding user_delete_step_def case_prod_unfold Let_def on_result fst_conv snd_conv g sum.case i
    by (simp add: e(1))
qed

end
