(* ===== verification/Console_Codes.thy ===== *)
theory Console_Codes
  imports Console_Effects
begin

text \<open>
  Issuing a code, step by step, with its compensations; the rollback of a grant; and the deletion of
  a team.
\<close>

subsection \<open>The token\<close>

lemma AddToken_result:
  assumes l: "tokens_live s" and r: "AddToken f rnd now u d s = (Inr tok, s')"
  shows "creds s' = (creds s)(u \<mapsto> tok) \<and> tokens_live s' \<and> (\<exists>x. tok = fresh_token u x now d)"
proof -
  obtain x db where x: "tok = fresh_token u x now d" and s': "s' = s\<lparr>ts_cells := ts_cells s @ [tok],
      ts_tokens := AList.update x (length (ts_cells s)) (ts_tokens s),
      ts_tokensByUser := AList.update u (length (ts_cells s)) (ts_tokensByUser s), ts_db := db\<rparr>"
    using r by (auto simp: AddToken_def Let_def split: if_splits option.splits sum.splits)
  have "creds s' = (creds s)(u \<mapsto> tok)"
    using deref_insert [OF live_dual [OF l], of tok u] x by (simp add: s' creds_def fun_eq_iff)
  moreover have "tokens_live s'" using AddToken_refines [OF l, of f rnd now u d] r by (simp add: t_refines_def)
  ultimately show ?thesis using x by blast
qed

lemma AddToken_Inl: "fst (AddToken f rnd now u d s) = Inl e \<Longrightarrow> snd (AddToken f rnd now u d s) = s"
  by (auto simp: AddToken_def Let_def split: if_splits option.splits sum.splits)

lemma mint_result:
  assumes l: "tokens_live (c_tokens c)" and r: "mint_token en rot email c = (Inr t, c1)"
  shows "creds (c_tokens c1) = (creds (c_tokens c))(email \<mapsto> t) \<and> tokens_live (c_tokens c1) \<and> c_invites c1 = c_invites c \<and>
    c_members c1 = c_members c \<and> c_groups c1 = c_groups c \<and> (\<not> rot \<longrightarrow> (\<forall>n. \<not> IsExpiredAt t n))"
proof (cases rot)
  case True
  show ?thesis
  proof (cases "RotateToken (en_fault en 10) (en_rand en 10) (en_clock en 10) email (c_tokens c)")
    case (Pair x s')
    then have "x = Inr t" "c1 = c\<lparr>c_tokens := s'\<rparr>" using r True by (simp_all add: mint_token_def on_tokens_def)
    with Rotate_result [OF l] Pair True show ?thesis by auto
  qed
next
  case False
  show ?thesis
  proof (cases "AddToken (en_fault en 10) (en_rand en 10) (en_clock en 10) email None (c_tokens c)")
    case (Pair x s')
    then have "x = Inr t" "c1 = c\<lparr>c_tokens := s'\<rparr>" using r False by (simp_all add: mint_token_def on_tokens_def)
    with AddToken_result [OF l, of "en_fault en 10" "en_rand en 10" "en_clock en 10" email None t s'] Pair obtain x where
      "creds s' = (creds (c_tokens c))(email \<mapsto> t)" "tokens_live s'" "t = fresh_token email x (en_clock en 10) None" by auto
    with \<open>c1 = _\<close> show ?thesis by (simp add: fresh_forever)
  qed
qed

lemma mint_Inl:
  assumes "mint_token en rot email c = (Inl e, c1)"
  shows "c_invites c1 = c_invites c \<and> c_groups c1 = c_groups c \<and> c_members c1 = c_members c"
  using assms by (auto simp: mint_token_def on_tokens_def case_prod_unfold split: if_splits)

subsection \<open>The invite\<close>

lemma invite_params_sel [simp]: "ip_MemberID (invite_params mc m x) = m_ID m" "ip_TokenValue (invite_params mc m x) = x"
  "ip_Email (invite_params mc m x) = m_Email m" "ip_CreationPath (invite_params mc m x) = inviteCreationPath" "ip_TTL (invite_params mc m x) = mc_ttl mc"
  by (simp_all add: invite_params_def)

lemma issued_more [simp]: "iv_Email (issued h l now p) = ip_Email p" "iv_CreationPath (issued h l now p) = ip_CreationPath p"
  by (simp_all add: issued_def)

lemma Issue_Inl: "fst (Issue f r1 r2 now p s) = Inl e \<Longrightarrow> snd (Issue f r1 r2 now p s) = s"
  by (auto simp: Issue_def Let_def split: if_splits option.splits sum.splits)

lemma advance_sel:
  assumes "advance_member en on m c = (r, c')"
  shows "c_invites c' = c_invites c" "c_tokens c' = c_tokens c" "c_groups c' = c_groups c"
  using assms by (auto simp: advance_member_def on_members_def case_prod_unfold split: if_splits)

text \<open>The ways a code can fail to be issued, and the one way it is.\<close>

lemma issueCode_cases:
  assumes "issueCode mc en m c = (r, c')"
  obtains (no_token) e c1 rot where "r = Inl (TokenErr e)" "mint_token en rot (m_Email m) c = (Inl e, c1)" "c' = c1"
  | (no_invite) rot t c1 e where "mint_token en rot (m_Email m) c = (Inr t, c1)" "r = Inl (InviteErr e)"
      "fst (Issue (en_fault en 11) (en_rand en 11) (en_rand en 12) (en_clock en 11) (invite_params mc m (tk_Token t)) (c_invites c1)) = Inl e"
      "c' = unmint en rot (m_Email m) (snd (on_invites (Issue (en_fault en 11) (en_rand en 11) (en_rand en 12) (en_clock en 11) (invite_params mc m (tk_Token t))) c1))"
  | (voided) rot t c1 b on y c3 where "mint_token en rot (m_Email m) c = (Inr t, c1)" "isl r"
      "fst (Issue (en_fault en 11) (en_rand en 11) (en_rand en 12) (en_clock en 11) (invite_params mc m (tk_Token t)) (c_invites c1)) = Inr b"
      "advance_member en on m (snd (on_invites (Issue (en_fault en 11) (en_rand en 11) (en_rand en 12) (en_clock en 11) (invite_params mc m (tk_Token t))) c1)) = (y, c3)"
      "c_invites c' = snd (RevokePending (en_fault en 14) (en_clock en 14) (cb_Handle b) (c_invites c3))" "c_groups c' = c_groups c3"
  | (mailed) rot t c1 b on where "mint_token en rot (m_Email m) c = (Inr t, c1)" "r = Inr ()"
      "fst (Issue (en_fault en 11) (en_rand en 11) (en_rand en 12) (en_clock en 11) (invite_params mc m (tk_Token t)) (c_invites c1)) = Inr b"
      "advance_member en on m (snd (on_invites (Issue (en_fault en 11) (en_rand en 11) (en_rand en 12) (en_clock en 11) (invite_params mc m (tk_Token t))) c1)) = (Inr (), c')"
      "mc_mailer mc (m_Email m) (m_DisplayName m) b = None" "on \<Longrightarrow> m_Status m = StatusActive"
proof -
  define on rot where "on \<longleftrightarrow> m_Status m = StatusActive \<and> hasValidToken en (m_Email m) c" and "rot = tokenExistsForUser en (m_Email m) c"
  define issue where "issue t = Issue (en_fault en 11) (en_rand en 11) (en_rand en 12) (en_clock en 11) (invite_params mc m (tk_Token t))" for t :: token
  obtain x c1 where x: "mint_token en rot (m_Email m) c = (x, c1)" by (cases "mint_token en rot (m_Email m) c")
  have b: "(r, c') = (case x of Inl e \<Rightarrow> (Inl (TokenErr e), c1)
    | Inr t \<Rightarrow> (case fst (issue t (c_invites c1)) of
        Inl e \<Rightarrow> (Inl (InviteErr e), unmint en rot (m_Email m) (snd (on_invites (issue t) c1)))
      | Inr bundle \<Rightarrow> (case advance_member en on m (snd (on_invites (issue t) c1)) of
          (Inl e, c) \<Rightarrow> (Inl (ActivateErr e), unmint en rot (m_Email m) (snd (on_invites (RevokePending (en_fault en 14) (en_clock en 14) (cb_Handle bundle)) c)))
        | (Inr _, c) \<Rightarrow> (case mc_mailer mc (m_Email m) (m_DisplayName m) bundle of
            Some d \<Rightarrow> (Inl d, snd (on_invites (RevokePending (en_fault en 14) (en_clock en 14) (cb_Handle bundle)) c))
          | None \<Rightarrow> (Inr (), c)))))"
    using assms [symmetric] unfolding issueCode_def Let_def on_def [symmetric] rot_def [symmetric] issue_def [symmetric] x
    by (simp add: case_prod_unfold on_result split: sum.split)
  have act: "on \<Longrightarrow> m_Status m = StatusActive" by (simp add: on_def)
  have un: "c_invites (unmint en rot e d) = c_invites d" "c_groups (unmint en rot e d) = c_groups d" for e d by (simp_all add: unmint_def)
  show thesis
  proof (cases x)
    case (Inl e)
    with b x no_token show thesis by simp
  next
    case t: (Inr t)
    show thesis
    proof (cases "fst (issue t (c_invites c1))")
      case (Inl e)
      with b t x no_invite [of rot t c1 e] show thesis by (simp add: issue_def)
    next
      case bd: (Inr bd)
      obtain y c3 where y: "advance_member en on m (snd (on_invites (issue t) c1)) = (y, c3)"
        by (cases "advance_member en on m (snd (on_invites (issue t) c1))")
      show thesis
      proof (cases "\<exists>u. y = Inr u \<and> mc_mailer mc (m_Email m) (m_DisplayName m) bd = None")
        case True
        with b t bd x y act mailed [of rot t c1 bd on] show thesis by (auto simp: issue_def)
      next
        case False
        with b t bd x y voided [of rot t c1 bd on y c3] show thesis
          by (auto simp: issue_def un split: sum.splits option.splits)
      qed
    qed
  qed
qed

subsection \<open>What an issued code is worth\<close>

lemma issue_at:
  assumes T: "invites_inv T s" and k: "clocks_ok (mc_ttl mc) en"
    and r: "fst (Issue f r1 r2 (en_clock en 11) (invite_params mc m x) s) = Inr b"
  shows "invites_inv (max T (en_clock en 11)) (snd (Issue f r1 r2 (en_clock en 11) (invite_params mc m x) s)) \<and>
    invites_view s (cb_Handle b) = None \<and> (\<exists>l. invites_view (snd (Issue f r1 r2 (en_clock en 11) (invite_params mc m x) s)) =
      (invites_view s)(cb_Handle b \<mapsto> issued (cb_Handle b) l (en_clock en 11) (invite_params mc m x)))"
proof -
  have "time_ok (en_clock en 11 + ip_TTL (invite_params mc m x))" using clocks_time(2) [OF k] by simp
  note S = Issue_step [OF T clocks_time(1) [OF k] this refl, of f r1 r2]
  from conjunct2 [OF S] r obtain l where "invites_view s (cb_Handle b) = None"
    "invites_view (snd (Issue f r1 r2 (en_clock en 11) (invite_params mc m x) s)) =
      (invites_view s)(cb_Handle b \<mapsto> issued (cb_Handle b) l (en_clock en 11) (invite_params mc m x))" by blast
  with conjunct1 [OF S] show ?thesis unfolding good_step_def by blast
qed

text \<open>The invite and the credential a successful issue leaves behind.\<close>

lemma issueCode_Inr:
  assumes ok: "plane_ok c" "clocks_ok (mc_ttl mc) en" and r: "issueCode mc en m c = (Inr (), c')"
  shows "\<exists>b t l. mc_mailer mc (m_Email m) (m_DisplayName m) b = None \<and> invites_view (c_invites c) (cb_Handle b) = None \<and>
    creds (c_tokens c') = (creds (c_tokens c))(m_Email m \<mapsto> t) \<and>
    invites_view (c_invites c') (cb_Handle b) = Some (issued (cb_Handle b) l (en_clock en 11) (invite_params mc m (tk_Token t)))"
  using r
proof (cases rule: issueCode_cases)
  case (mailed rot t c1 b on)
  have l: "tokens_live (c_tokens c)" and i: "invites_live (c_invites c)" using ok(1) by (simp_all add: plane_ok_def)
  note M = mint_result [OF l mailed(1)]
  obtain T where T: "invites_inv T (c_invites c1)" using i M by (auto simp: invites_live_def)
  let ?p = "invite_params mc m (tk_Token t)"
  note S = advance_sel [OF mailed(4)]
  define s where "s = snd (Issue (en_fault en 11) (en_rand en 11) (en_rand en 12) (en_clock en 11) ?p (c_invites c1))"
  have s: "c_invites c' = s" "c_tokens c' = c_tokens c1" using S by (simp_all add: s_def on_invites_def case_prod_unfold)
  obtain l where "invites_view (c_invites c1) (cb_Handle b) = None"
    "invites_view s = (invites_view (c_invites c1))(cb_Handle b \<mapsto> issued (cb_Handle b) l (en_clock en 11) ?p)"
    using issue_at [OF T ok(2) mailed(3)] unfolding s_def by blast
  then have "mc_mailer mc (m_Email m) (m_DisplayName m) b = None \<and> invites_view (c_invites c) (cb_Handle b) = None \<and>
    creds (c_tokens c') = (creds (c_tokens c))(m_Email m \<mapsto> t) \<and>
    invites_view (c_invites c') (cb_Handle b) = Some (issued (cb_Handle b) l (en_clock en 11) ?p)"
    using mailed(5) M s by simp
  then show ?thesis by blast
qed simp_all

lemma inactive_same:
  assumes "inactive x = inactive (Some t)"
  shows "\<exists>k. x = Some k \<and> tk_Token k = tk_Token t \<and> (\<forall>n. IsExpiredAt k n = IsExpiredAt t n)"
proof -
  obtain k where k: "x = Some k" "k\<lparr>tk_ActivatedAt := []\<rparr> = t\<lparr>tk_ActivatedAt := []\<rparr>" using assms by (auto simp: inactive_def)
  have "tk_Token (k\<lparr>tk_ActivatedAt := []\<rparr>) = tk_Token (t\<lparr>tk_ActivatedAt := []\<rparr>)"
    "tk_Expires (k\<lparr>tk_ActivatedAt := []\<rparr>) = tk_Expires (t\<lparr>tk_ActivatedAt := []\<rparr>)" by (simp_all add: k(2))
  then have "tk_Token k = tk_Token t" "tk_Expires k = tk_Expires t" by simp_all
  then show ?thesis using k(1) by (simp add: IsExpiredAt_def)
qed

text \<open>Redeeming after any history of data-plane requests.\<close>

lemma redeemed_later:
  assumes ok: "plane_ok c" "list_all clock_ok es" "\<forall>i. time_ok (en_clock en i)"
    and iv: "invites_view (c_invites c) h = Some iv" and t: "creds (c_tokens c) u = Some t"
    and r: "rpc_Unwrap en h (fold plane_run es c) = (Inr (tok, mid), c')"
  shows "tok = iv_TokenValue iv \<and> mid = iv_MemberID iv \<and>
    (\<exists>k. creds (c_tokens c') u = Some k \<and> tk_Token k = tk_Token t \<and> (\<forall>n. IsExpiredAt k n = IsExpiredAt t n)) \<and> plane_ok c'"
proof -
  let ?d = "fold plane_run es c"
  have d: "plane_ok ?d" by (rule plane_invites.run_inv [OF ok(1,2)])
  then obtain T where T: "invites_inv T (c_invites ?d)" "members_inv (c_members ?d)"
    by (auto simp: plane_ok_def invites_live_def members_live_def)
  obtain iv' where v: "invites_view (c_invites ?d) h = Some iv'" "moves\<^sup>*\<^sup>* iv iv'"
    using plane_invites.run_moves [OF ok(1,2)] iv by blast
  from unwrap_released [OF T ok(3) r] v(1) have u: "iv_Status iv' = StatusPending" "tok = iv_TokenValue iv'" "mid = iv_MemberID iv'" by auto
  have s: "c_tokens c' = c_tokens ?d" using r by (cases rule: rpc_Unwrap_cases) (simp_all add: same_stores_def)
  have "inactive (creds (c_tokens c') u) = inactive (Some t)" using plane_run_keeps [OF ok(1,2)] t s by metis
  moreover have "plane_ok c'" using plane_step_unwrap [OF d ok(3) r] by (simp add: plane_step_def)
  ultimately show ?thesis using u moves_star_pending [OF v(2) u(1)] inactive_same by metis
qed

subsection \<open>What a refused code leaves\<close>

lemma RevokePending_void:
  assumes inv: "invites_inv T s" "T \<le> now" "time_ok now" and h: "invites_view s h = Some iv" "iv_Status iv = StatusPending"
  shows "\<exists>iv'. invites_view (snd (RevokePending TxOk now h s)) = (invites_view s)(h \<mapsto> iv') \<and> iv_Status iv' \<noteq> StatusPending"
proof -
  obtain p where p: "map_of (is_byHandle s) h = Some p" "is_cells s ! p = iv"
    using h(1) by (auto simp: invites_view_def deref_def)
  define st where "st = (if isExpiredAt iv now then StatusExpired else StatusRevoked)"
  define d where "d = commit_invite TxOk now (invites_exec 1 (by_handle h) (scrub_row st)) p (voided st (is_cells s ! p)) s"
  have st: "st \<in> {StatusConsumed, StatusExpired, StatusRevoked}" by (simp add: st_def)
  have d': "RevokePending TxOk now h s = d" using p h(2) by (simp add: RevokePending_def d_def st_def Let_def)
  have "fst d = Inr ()" using RevokePending_healthy [OF inv h] d' by simp
  moreover have "fst d = Inr () \<longrightarrow> invites_view (snd d) = (invites_view s)(h \<mapsto> voided st (is_cells s ! p))"
    by (rule conjunct1 [OF conjunct2 [OF commit_scrub [OF inv(1,3) p(1) st _ _ d_def]]]) (use h(2) p(2) in \<open>auto simp: by_handle_def\<close>)
  ultimately show ?thesis using d' st by auto
qed

lemma unmint_invites [simp]: "c_invites (unmint en rot u c) = c_invites c"
  by (simp add: unmint_def)

lemma issueCode_Inl:
  assumes ok: "plane_ok c" "clocks_ok (mc_ttl mc) en" and r: "issueCode mc en m c = (Inl d, c')"
    and f: "en_fault en 14 = TxOk" and T: "invites_inv T (c_invites c)" "T \<le> en_clock en 14" "en_clock en 11 \<le> en_clock en 14"
    and iv: "invites_view (c_invites c') h = Some iv" "iv_Status iv = StatusPending"
  shows "invites_view (c_invites c) h = Some iv"
  using r
proof (cases rule: issueCode_cases)
  case (no_token e c1 rot)
  then show ?thesis using mint_Inl iv by metis
next
  case (no_invite rot t c1 e)
  have l: "tokens_live (c_tokens c)" using ok(1) by (simp add: plane_ok_def)
  have "c_invites c' = c_invites c" using no_invite(4) Issue_Inl [OF no_invite(3)] mint_result [OF l no_invite(1)] by simp
  with iv show ?thesis by simp
next
  case (voided rot t c1 b on y c3)
  let ?p = "invite_params mc m (tk_Token t)"
  have l: "tokens_live (c_tokens c)" using ok(1) by (simp add: plane_ok_def)
  have i: "c_invites c1 = c_invites c" using mint_result [OF l voided(1)] by simp
  define s where "s = snd (Issue (en_fault en 11) (en_rand en 11) (en_rand en 12) (en_clock en 11) ?p (c_invites c))"
  obtain lid where I: "invites_inv (max T (en_clock en 11)) s"
    "invites_view s = (invites_view (c_invites c))(cb_Handle b \<mapsto> issued (cb_Handle b) lid (en_clock en 11) ?p)"
    using issue_at [OF T(1) ok(2) voided(3) [unfolded i]] unfolding s_def by blast
  have s3: "c_invites c3 = s" using advance_sel(1) [OF voided(4)] by (simp add: s_def i)
  obtain iv' where "invites_view (c_invites c') = (invites_view s)(cb_Handle b \<mapsto> iv')" "iv_Status iv' \<noteq> StatusPending"
    using RevokePending_void [of "max T (en_clock en 11)" s "en_clock en 14" "cb_Handle b"] I T clocks_time(1) [OF ok(2)] voided(5) f s3 by auto
  with I(2) iv show ?thesis by (auto split: if_splits)
qed simp

end
