(* ===== verification/Console_Teams.thy ===== *)
theory Console_Teams
  imports Console_Codes
begin

text \<open>
  The deletion of a team, memory first; and the undoing of a grant when the code could not be sent.
\<close>

subsection \<open>Deleting a team\<close>

lemma TeamDetail_resolve:
  assumes l: "groups_live s"
  shows "TeamDetail s ref = Inl e \<Longrightarrow> v_resolve (gs_view s) ref = None"
    and "TeamDetail s ref = Inr d \<Longrightarrow> v_resolve (gs_view s) ref = Some (cd_ID d)"
  using resolve_Inl [OF live_inv [OF l], of ref] resolve_live [OF l, of ref]
  by (auto simp: TeamDetail_def Let_def split: sum.splits)

lemma DeleteGroupWithMembers_effect:
  assumes l: "groups_live s" and r: "DeleteGroupWithMembers f ref s = (Inr (g, us), s')"
  shows "v_resolve (gs_view s) ref = Some (g_ID g) \<and> childless (g_ID g) (gs_view s) \<and> gs_view s' = v_drop (g_ID g) (gs_view s)"
proof -
  obtain p where p: "resolveLocked s ref = Inr p" using r by (auto simp: DeleteGroupWithMembers_def split: sum.splits)
  then have g: "g = gs_heap s ! p" "entries (gs_children s) (g_ID g) = []"
    using r by (auto simp: DeleteGroupWithMembers_def Let_def split: if_splits sum.splits)
  have f: "f = TxOk" using r p g(2) persist_Inr_ok [OF l, of f]
    by (auto simp: DeleteGroupWithMembers_def Let_def g(1) split: sum.splits)
  have v: "v_resolve (gs_view s) ref = Some (g_ID g)" using resolve_live [OF l p] g(1) by simp
  have c: "childless (g_ID g) (gs_view s)"
    using g(2) inv_children [OF live_inv [OF l], of _ "g_ID g"] by (auto simp: childless_def)
  have "gs_view s' = dir_spec (GDeleteWithMembers ref) (gs_view s)"
    using DeleteGroupWithMembers_refines [OF l, of f ref] f r by (simp add: g_refines_def)
  with v c show ?thesis by (simp add: dir_spec.simps)
qed

lemma DeleteGroupWithMembers_Inl: "fst (DeleteGroupWithMembers f ref s) = Inl e \<Longrightarrow> snd (DeleteGroupWithMembers f ref s) = s"
  by (auto simp: DeleteGroupWithMembers_def Let_def split: if_splits sum.splits)

lemma DeleteGroupWithMembers_healthy:
  assumes l: "groups_live s" and i: "v_resolve (gs_view s) ref = Some i" "childless i (gs_view s)"
  shows "\<exists>x. fst (DeleteGroupWithMembers TxOk ref s) = Inr x"
proof (cases "fst (DeleteGroupWithMembers TxOk ref s)")
  case (Inl e)
  then have "gs_view s = v_drop i (gs_view s)"
    using DeleteGroupWithMembers_refines [OF l, of TxOk ref] DeleteGroupWithMembers_Inl [OF Inl] i by (simp add: g_refines_def dir_spec.simps)
  then have "d_group (gs_view s) i = None" by (metis fun_upd_same v_drop_sel(1))
  then show ?thesis using resolve_Inl [OF live_inv [OF l], of ref] resolve_live [OF l, of ref] i(1) by (cases "resolveLocked s ref") auto
qed simp

text \<open>The engine took over the memory of team \<open>i\<close>, or stripped it, before the team went.\<close>

definition memory_done :: "console \<Rightarrow> string \<Rightarrow> string \<Rightarrow> string \<Rightarrow> console \<Rightarrow> bool" where
  "memory_done c action target i c' \<longleftrightarrow> (\<exists>eng. getEngine c = Some eng \<and>
     (action = ''purge'' \<and> \<not> isl (eng_RemoveTag eng (c_calls c) i) \<and> c_calls c' = c_calls c @ [CallRemoveTag i] \<or>
      (\<exists>t. action = ''transfer'' \<and> v_resolve (gs_view (c_groups c)) target = Some t \<and> t \<noteq> i \<and>
         \<not> isl (eng_RetagAll eng (c_calls c) i t) \<and> c_calls c' = c_calls c @ [CallRetagAll i t])))"

definition stores_same :: "console \<Rightarrow> console \<Rightarrow> bool" where
  "stores_same c c' \<longleftrightarrow> c_groups c' = c_groups c \<and> c_members c' = c_members c \<and> c_tokens c' = c_tokens c \<and> c_invites c' = c_invites c"

lemma tag_calls_same:
  "stores_same c (snd (RemoveGroupTag en i actor c))" "stores_same c (snd (ReassignGroupTag en i t actor c))"
  by (simp_all add: stores_same_def RemoveGroupTag_def ReassignGroupTag_def Let_def auditTagCleanup_def Audit_Log_def calls_def
    split: option.split sum.split)

lemma tag_calls_done:
  "fst (RemoveGroupTag en i actor c) = Inr n \<Longrightarrow> \<exists>eng. getEngine c = Some eng \<and> \<not> isl (eng_RemoveTag eng (c_calls c) i) \<and>
     c_calls (snd (RemoveGroupTag en i actor c)) = c_calls c @ [CallRemoveTag i]"
  "fst (ReassignGroupTag en i t actor c) = Inr n \<Longrightarrow> \<exists>eng. getEngine c = Some eng \<and> \<not> isl (eng_RetagAll eng (c_calls c) i t) \<and>
     c_calls (snd (ReassignGroupTag en i t actor c)) = c_calls c @ [CallRetagAll i t]"
  by (auto simp: RemoveGroupTag_def ReassignGroupTag_def Let_def auditTagCleanup_def Audit_Log_def calls_def
    split: option.splits sum.splits)

lemma remove_team_cases:
  assumes l: "groups_live (c_groups c)" and r: "remove_team en actor action ref c = (r, c')"
  shows "c_calls c' = c_calls c \<and>
    (case r of HttpErr _ _ _ \<Rightarrow> stores_same c c'
     | HttpOk _ _ \<Rightarrow> \<exists>i. v_resolve (gs_view (c_groups c)) ref = Some i \<and> childless i (gs_view (c_groups c)) \<and>
         gs_view (c_groups c') = v_drop i (gs_view (c_groups c)))"
proof (cases "DeleteGroupWithMembers (en_fault en 0) ref (c_groups c)")
  case (Pair x s')
  show ?thesis
  proof (cases x)
    case (Inl e)
    then have "s' = c_groups c" using DeleteGroupWithMembers_Inl [of "en_fault en 0" ref "c_groups c"] Pair by simp
    with Inl Pair r show ?thesis
      by (auto simp: remove_team_def on_groups_def writeGroupAPIErr_def apiErr_def stores_same_def split: group_error.split)
  next
    case (Inr y)
    obtain g us where y: "y = (g, us)" by (cases y)
    note E = DeleteGroupWithMembers_effect [OF l Pair [unfolded Inr y]]
    have "r = HttpOk 204 ()" "c_groups c' = s'" "c_calls c' = c_calls c"
      using r Pair Inr y by (auto simp: remove_team_def on_groups_def auditAdmin_def Audit_Log_def split: option.splits)
    with E show ?thesis by auto
  qed
qed

lemma deleteTeam_cases:
  assumes "deleteTeam en actor ref action target c = (r, c')"
  obtains (refused) "\<exists>st code d. r = HttpErr st code d" "stores_same c c'"
  | (purged) d n c1 where "TeamDetail (c_groups c) ref = Inr d" "cd_Children d = []" "action = ''purge''"
      "RemoveGroupTag en (cd_ID d) actor c = (Inr n, c1)" "remove_team en actor action ref c1 = (r, c')"
  | (moved) d t n c1 where "TeamDetail (c_groups c) ref = Inr d" "cd_Children d = []" "action = ''transfer''"
      "TeamDetail (c_groups c) target = Inr t" "cd_ID t \<noteq> cd_ID d"
      "ReassignGroupTag en (cd_ID d) (cd_ID t) actor c = (Inr n, c1)" "remove_team en actor action ref c1 = (r, c')"
proof -
  have same: "stores_same c c" by (simp add: stores_same_def)
  show thesis
  proof (cases "TeamDetail (c_groups c) ref")
    case (Inl e)
    with assms refused same show thesis by (auto simp: deleteTeam_def writeGroupAPIErr_def apiErr_def split: group_error.splits)
  next
    case d: (Inr d)
    show thesis
    proof (cases "cd_Children d = [] \<and> action = ''purge''")
      case True
      obtain x c1 where x: "RemoveGroupTag en (cd_ID d) actor c = (x, c1)" by (cases "RemoveGroupTag en (cd_ID d) actor c")
      then have "stores_same c c1" using tag_calls_same(1) [of c en "cd_ID d" actor] by simp
      then show thesis using assms d True x refused purged [of d _ c1] by (cases x) (auto simp: deleteTeam_def apiErr_def)
    next
      case np: False
      show thesis
      proof (cases "cd_Children d = [] \<and> action = ''transfer'' \<and> target \<noteq> [] \<and> (\<exists>t. TeamDetail (c_groups c) target = Inr t \<and> cd_ID t \<noteq> cd_ID d)")
        case True
        then obtain t where t: "TeamDetail (c_groups c) target = Inr t" "cd_ID t \<noteq> cd_ID d" by blast
        obtain x c1 where x: "ReassignGroupTag en (cd_ID d) (cd_ID t) actor c = (x, c1)" by (cases "ReassignGroupTag en (cd_ID d) (cd_ID t) actor c")
        then have "stores_same c c1" using tag_calls_same(2) [of c en "cd_ID d" "cd_ID t" actor] by simp
        then show thesis using assms d True t x refused moved [of d t _ c1] by (cases x) (auto simp: deleteTeam_def apiErr_def)
      next
        case False
        with assms d np refused same show thesis
          by (auto simp: deleteTeam_def apiErr_def split: if_splits sum.splits)
      qed
    qed
  qed
qed

lemma deleteTeam_effect:
  assumes l: "groups_live (c_groups c)" and r: "deleteTeam en actor ref action target c = (r, c')"
  shows "case r of HttpErr _ _ _ \<Rightarrow> stores_same c c'
    | HttpOk _ _ \<Rightarrow> \<exists>i. v_resolve (gs_view (c_groups c)) ref = Some i \<and> childless i (gs_view (c_groups c)) \<and>
        memory_done c action target i c' \<and> gs_view (c_groups c') = v_drop i (gs_view (c_groups c))"
proof -
  have after: ?thesis if "stores_same c c1" "remove_team en actor action ref c1 = (r, c')" "TeamDetail (c_groups c) ref = Inr d"
    and m: "\<And>c2. c_calls c2 = c_calls c1 \<Longrightarrow> memory_done c action target (cd_ID d) c2" for c1 d
  proof -
    have g: "c_groups c1 = c_groups c" using that(1) by (simp add: stores_same_def)
    note C = remove_team_cases [OF _ that(2), unfolded g, OF l]
    from C m [of c'] TeamDetail_resolve(2) [OF l that(3)] that(1) show ?thesis
      by (auto simp: stores_same_def split: http.splits)
  qed
  from r show ?thesis
  proof (cases rule: deleteTeam_cases)
    case refused
    then show ?thesis by auto
  next
    case (purged d n c1)
    then show ?thesis
      using tag_calls_same(1) [of c en "cd_ID d" actor] tag_calls_done(1) [of en "cd_ID d" actor c n]
      by (intro after [of c1 d]) (auto simp: memory_done_def)
  next
    case (moved d t n c1)
    then show ?thesis
      using tag_calls_same(2) [of c en "cd_ID d" "cd_ID t" actor] tag_calls_done(2) [of en "cd_ID d" "cd_ID t" actor c n]
        TeamDetail_resolve(2) [OF l moved(4)]
      by (intro after [of c1 d]) (auto simp: memory_done_def)
  qed
qed

lemma dropped_unreadable:
  assumes l: "groups_live s" and v: "gs_view s = v_drop i v" 
  shows "i \<notin> set (RecallScope s u)"
proof
  assume "i \<in> set (RecallScope s u)"
  then have "may_read (gs_view s) u i" by (simp add: scope_mem [OF live_inv [OF l]])
  then have "d_member (gs_view s) u i \<noteq> None \<or> v_inherits (gs_view s) u i" by (auto simp: may_read_def)
  moreover have "d_group (gs_view s) i = None" "d_member (gs_view s) u i = None" using v by simp_all
  ultimately show False using above_group [OF live_dir [OF l], of i] by (auto simp: v_inherits_def)
qed

subsection \<open>Undoing a grant\<close>

text \<open>
  A grant lifts the exclusion of its user, and taking it back does not restore the exclusion.
\<close>

lemma RevokeDirect_success:
  assumes "groups_live s"
  shows "gs_view (snd (RevokeDirectGrant TxOk u ref s)) = dir_spec (GRevokeDirect u ref) (gs_view s)"
  using RevokeDirectGrant_refines [OF assms, of TxOk u ref] by (simp add: g_refines_def)

lemma Grant_Inl: "fst (Grant f now u ref role b s) = Inl e \<Longrightarrow> snd (Grant f now u ref role b s) = s"
  by (auto simp: Grant_def Let_def split: option.splits if_splits sum.splits)

lemma revoke_grant:
  assumes "mb_key m = (u, i)"
  shows "v_revoke u i (v_grant m v) = v\<lparr>d_member := (\<lambda>x j. if x = u \<and> j = i then None else d_member v x j),
      d_excl := (\<lambda>x j. if x = u \<and> j = i then None else d_excl v x j)\<rparr>"
  by (cases v) (auto simp: v_revoke_def v_grant_def assms fun_eq_iff)

lemma grant_undone:
  assumes l: "groups_live s" and g: "Grant f now u ref role b s = (Inr m, s1)" and i: "v_resolve (gs_view s) ref = Some i"
  shows "gs_view (snd (RevokeDirectGrant TxOk u ref s1)) =
    (gs_view s)\<lparr>d_member := (\<lambda>x j. if x = u \<and> j = i then None else d_member (gs_view s) x j),
      d_excl := (\<lambda>x j. if x = u \<and> j = i then None else d_excl (gs_view s) x j)\<rparr>"
proof -
  have ok: "validatePersonKey s u = None" "Role_Valid role"
    using g by (auto simp: Grant_def split: option.splits if_splits)
  then have "d_valid (gs_view s) u" by simp
  then have v: "gs_view s1 = v_grant (grant_row now u i role b (gs_view s)) (gs_view s)"
    using Grant_success [OF l, of f now u ref role b] g i ok by (simp add: dir_spec.simps)
  have l1: "groups_live s1" using groups_kept(1) [OF l, of f now u ref role b] g by simp
  have "d_group (gs_view s1) = d_group (gs_view s)" by (simp add: v v_grant_def)
  then have "v_resolve (gs_view s1) ref = Some i" using i resolve_groups by metis
  then have "gs_view (snd (RevokeDirectGrant TxOk u ref s1)) = v_revoke u i (v_grant (grant_row now u i role b (gs_view s)) (gs_view s))"
    by (simp add: RevokeDirect_success [OF l1] dir_spec.simps v)
  also have "\<dots> = (gs_view s)\<lparr>d_member := (\<lambda>x j. if x = u \<and> j = i then None else d_member (gs_view s) x j),
      d_excl := (\<lambda>x j. if x = u \<and> j = i then None else d_excl (gs_view s) x j)\<rparr>"
    by (rule revoke_grant) (simp add: grant_row_def mb_key_def)
  finally show ?thesis .
qed

lemma undone_reads:
  assumes v: "v' = v\<lparr>d_member := (\<lambda>x j. if x = u \<and> j = i then None else d_member v x j),
      d_excl := (\<lambda>x j. if x = u \<and> j = i then None else d_excl v x j)\<rparr>" and h: "v_inherits v u i"
  shows "may_read v' u i" "d_member v' u i = None"
proof -
  have "dpar v' = dpar v" by (simp add: v dpar_def fun_eq_iff)
  with h have "v_inherits v' u i" by (auto simp: v_inherits_def v)
  then show "may_read v' u i" "d_member v' u i = None" by (simp_all add: may_read_def v)
qed

lemma issueCode_groups:
  assumes "issueCode mc en m c = (r, c')" and l: "tokens_live (c_tokens c)"
  shows "c_groups c' = c_groups c"
  using assms(1)
proof (cases rule: issueCode_cases)
  case (no_token e c1 rot)
  then show ?thesis using mint_Inl by metis
next
  case (no_invite rot t c1 e)
  then show ?thesis using mint_result [OF l no_invite(1)] by (simp add: unmint_def)
next
  case (voided rot t c1 b on y c3)
  then show ?thesis using mint_result [OF l voided(1)] advance_sel(3) [OF voided(4)] by simp
next
  case (mailed rot t c1 b on)
  then show ?thesis using mint_result [OF l mailed(1)] advance_sel(3) [OF mailed(4)] by simp
qed

lemma issueCode_mute:
  assumes "\<And>to nm b. mc_mailer mc to nm b \<noteq> None"
  shows "isl (fst (issueCode mc en m c))"
proof -
  obtain r c' where e: "issueCode mc en m c = (r, c')" by (cases "issueCode mc en m c")
  then have "isl r" by (cases rule: issueCode_cases) (use assms in simp_all)
  with e show ?thesis by simp
qed

text \<open>The one way an existing account is answered with the mail error.\<close>

lemma addTeamMember_mail:
  assumes m: "GetByEmail (am_Account b) (c_members c) = Inr m" and r: "addTeamMember mc en actor ref (Inr b) c = (mail_failed, c')"
  shows "\<exists>role x s1 e c2. Grant (en_fault en 2) (en_clock en 2) (m_ID m) ref role (localAdminActor actor) (c_groups c) = (Inr x, s1) \<and>
    issueCode mc (round_env 0 en) m (c\<lparr>c_groups := s1\<rparr>) = (Inl e, c2) \<and>
    c' = snd (on_groups (RevokeDirectGrant (en_fault en 3) (m_ID m) ref) c2)"
proof -
  have api: "writeGroupAPIErr e \<noteq> (mail_failed :: 'a http)" for e :: group_error
    by (cases e) (simp_all add: writeGroupAPIErr_def mail_failed_def apiErr_def)
  obtain role where role: "ParseRole (am_Role b) = Some role"
    using r by (cases "ParseRole (am_Role b)") (auto simp: addTeamMember_def bad_role_def mail_failed_def apiErr_def)
  obtain gid where gid: "groupID ref c = Inr gid"
    using r role api by (cases "groupID ref c") (auto simp: addTeamMember_def)
  have get: "get_or_add en (am_Account b) (am_Username b) c = (Inr (m, False), c)" by (simp add: get_or_add_def m)
  have nd: "\<not> has_direct (m_ID m) ref c"
    using r by (auto simp: addTeamMember_def role gid get apiErr_def mail_failed_def)
  obtain y s1 where g: "Grant (en_fault en 2) (en_clock en 2) (m_ID m) ref role (localAdminActor actor) (c_groups c) = (y, s1)"
    by (cases "Grant (en_fault en 2) (en_clock en 2) (m_ID m) ref role (localAdminActor actor) (c_groups c)")
  obtain x where y: "y = Inr x"
    using r api by (cases y) (auto simp: addTeamMember_def role gid get nd on_groups_def g)
  let ?c = "c\<lparr>c_groups := s1\<rparr>"
  obtain z c2 where z: "issueCode mc (round_env 0 en) m ?c = (z, c2)" by (cases "issueCode mc (round_env 0 en) m ?c")
  have *: "needsCode en m ?c \<and> isl z \<and> c' = snd (on_groups (RevokeDirectGrant (en_fault en 3) (m_ID m) ref) c2)"
    using r by (cases z) (auto simp: addTeamMember_def role gid get nd on_groups_def g y Let_def z drop_if_new_def mail_failed_def apiErr_def
      split: if_splits)
  then obtain e where "z = Inl e" by (auto simp: isl_def)
  with g y z * show ?thesis by blast
qed

end
