(* ===== verification/Code_Redemption.thy ===== *)
theory Code_Redemption
  imports Console_Codes
begin

text \<open>
  A code that was issued can be redeemed: nothing the data plane does meanwhile, short of redeeming that
  very code, stands in the way, and a healthy redemption in time releases the credential.
\<close>

subsection \<open>Histories that leave a code alone\<close>

text \<open>Requests of the data plane up to a time, none of which redeems the handle.\<close>

definition undisturbed :: "string \<Rightarrow> time \<Rightarrow> plane_event list \<Rightarrow> bool" where
  "undisturbed h now es \<longleftrightarrow> list_all (\<lambda>(P, e, q). q \<noteq> UnwrapInvite h \<and> (\<forall>i. time_ok (en_clock e i) \<and> en_clock e i \<le> now)) es"

lemma undisturbed_clock: "undisturbed h now es \<Longrightarrow> list_all clock_ok es"
  by (auto simp: undisturbed_def list_all_iff)

lemma commit_elsewhere:
  assumes "invites_inv T s" "map_of (is_byHandle s) h' = Some p" "h \<noteq> h'"
  shows "invites_view (snd (commit_invite f now fn p nxt s)) h = invites_view s h"
  using deref_modify [OF invites_dual [OF assms(1)] assms(2), of nxt] assms(3)
  by (auto simp: commit_invite_def invites_view_def split: sum.split)

lemma unwrap_elsewhere: "invites_inv T s \<Longrightarrow> h \<noteq> h' \<Longrightarrow> invites_view (snd (Unwrap f now h' s)) h = invites_view s h"
  by (auto simp: Unwrap_def Let_def case_prod_unfold commit_elsewhere split: option.split sum.split)

text \<open>Only a redemption touches the invites.\<close>

lemma serve_invites: "(\<forall>h. q \<noteq> UnwrapInvite h) \<Longrightarrow> c_invites (snd (serve P en q c)) = c_invites c"
proof -
  assume n: "\<forall>h. q \<noteq> UnwrapInvite h"
  consider (bearer) x where "bearer q = Some x" | (idle) "q = GetCACert \<or> (\<exists>h. q = LookupWrap h)" | (act) x where "q = ReportActivation x"
    using n by (cases q) auto
  then show ?thesis
  proof cases
    case bearer
    from serve_bearer [OF bearer, of en c P] show ?thesis by (simp add: same_stores_def validated_def)
  next
    case idle
    from serve_idle [OF idle, of c P en] show ?thesis by (simp add: same_stores_def)
  next
    case (act x)
    from serve_activation [of P en x c] show ?thesis by (auto simp: act same_stores_def)
  qed
qed

lemma unwrap_invites:
  "rpc_Unwrap en h c = (r, c') \<Longrightarrow> c_invites c' = c_invites c \<or> c_invites c' = snd (Unwrap (en_fault en 0) (en_clock en 2) h (c_invites c))"
  by (erule rpc_Unwrap_cases) (auto simp: same_stores_def)

lemma quiet_event:
  assumes i: "invites_inv now (c_invites c)" and q: "q \<noteq> UnwrapInvite h" and k: "\<forall>i. time_ok (en_clock en i) \<and> en_clock en i \<le> now"
  shows "invites_inv now (c_invites (snd (serve P en q c))) \<and> invites_view (c_invites (snd (serve P en q c))) h = invites_view (c_invites c) h"
proof (cases "\<exists>h'. q = UnwrapInvite h'")
  case True
  then obtain h' where h': "q = UnwrapInvite h'" "h \<noteq> h'" using q by auto
  have "invites_inv (max now (en_clock en 2)) (snd (Unwrap (en_fault en 0) (en_clock en 2) h' (c_invites c)))"
    using Unwrap_step [OF i _ refl, of "en_clock en 2" "en_fault en 0" h'] k by (auto simp: good_step_def)
  moreover have "max now (en_clock en 2) = now" using k by (simp add: max_absorb1)
  ultimately show ?thesis
    using unwrap_invites [OF surjective_pairing, of en h' c] unwrap_elsewhere [OF i h'(2)] i by (auto simp: h'(1))
qed (use serve_invites [of q P en c] i in simp)

lemma quiet_run:
  assumes "plane_ok c" "invites_inv now (c_invites c)" "undisturbed h now es"
  shows "plane_ok (fold plane_run es c) \<and> invites_inv now (c_invites (fold plane_run es c)) \<and>
    invites_view (c_invites (fold plane_run es c)) h = invites_view (c_invites c) h \<and> wired c (fold plane_run es c)"
  using assms
proof (induction es arbitrary: c)
  case (Cons e es)
  obtain P en q where e: "e = (P, en, q)" by (cases e)
  have k: "q \<noteq> UnwrapInvite h" "\<forall>i. time_ok (en_clock en i) \<and> en_clock en i \<le> now" and es: "undisturbed h now es"
    using Cons.prems(3) by (simp_all add: undisturbed_def e)
  note S = quiet_event [OF Cons.prems(2) k, of P]
  have "plane_ok (snd (serve P en q c))" using plane_invites.step_inv [OF Cons.prems(1), of "(P, en, q)"] k by simp
  from Cons.IH [OF this conjunct1 [OF S] es] S serve_wired [of c P en q] show ?case
    by (auto simp: e intro: wired_trans)
qed simp

subsection \<open>Redeeming\<close>

lemma Activate_ready:
  assumes l: "members_live s" and v: "members_view s i = Some m" "m_Status m \<in> {StatusInvited, StatusActive}"
  shows "fst (Activate TxOk i s) = Inr ()"
proof (cases "m_Status m = StatusActive")
  case True
  obtain p where "map_of (ms_byID s) i = Some p" "ms_cells s ! p = m" using v(1) by (auto simp: members_view_def deref_def)
  with True show ?thesis by (simp add: Activate_def Let_def)
qed (use Activate_healthy [OF l v(1)] v(2) in simp)

lemma redeem_healthy:
  assumes ok: "plane_ok d" "invites_inv (en_clock en 2) (c_invites d)" and on: "c_inviteRedeem d" "c_memberAct d"
    and iv: "invites_view (c_invites d) h = Some iv" "iv_CreationPath iv = inviteCreationPath" "iv_Status iv = StatusPending"
      "\<not> isExpiredAt iv (en_clock en 1)" "\<not> isExpiredAt iv (en_clock en 2)"
    and m: "members_view (c_members d) (iv_MemberID iv) = Some m" "m_Email m = iv_Email iv" "m_Status m \<in> {StatusInvited, StatusActive}"
    and f: "en_fault en 0 = TxOk" "en_fault en 1 = TxOk" "time_ok (en_clock en 2)"
  shows "fst (rpc_Unwrap en h d) = Inr (iv_TokenValue iv, iv_MemberID iv)"
proof -
  have gate: "statusGateLocked iv (en_clock en k) = None" if "k \<in> {1, 2}" for k
    using that iv(3-5) by (auto simp: statusGateLocked_def)
  have L: "Lookup h inviteCreationPath (en_clock en 1) (c_invites d) = Inr (clearBundle iv)"
    by (rule Lookup_open [OF iv(1,2) gate]) simp
  have U: "fst (Unwrap TxOk (en_clock en 2) h (c_invites d)) = Inr (iv_TokenValue iv, iv_MemberID iv)"
    by (rule Unwrap_healthy [OF ok(2) order_refl f(3) iv(1) gate]) simp
  have ml: "members_live (c_members d)" using ok(1) by (simp add: plane_ok_def)
  have A: "fst (Activate TxOk (iv_MemberID iv) (c_members d)) = Inr ()" by (rule Activate_ready [OF ml m(1,3)])
  have "LookupByEmail (iv_Email iv) (c_members d) = (m_ID m, m_Status m, True)"
    using lookup_disabled [OF _ m(1)] ml m(2) by (simp add: members_live_def)
  moreover have "m_Status m \<noteq> StatusDisabled" using m(3) by auto
  moreover obtain iw where "Unwrap TxOk (en_clock en 2) h (c_invites d) = (Inr (iv_TokenValue iv, iv_MemberID iv), iw)"
    using U by (metis prod.collapse)
  moreover obtain ms where "Activate TxOk (iv_MemberID iv) (c_members d) = (Inr (), ms)" using A by (metis prod.collapse)
  ultimately show ?thesis using on L f by (simp add: rpc_Unwrap_def Let_def finish_def)
qed

subsection \<open>What issuing leaves\<close>

lemma wired_on [simp]: "wired c (snd (on_tokens f c')) \<longleftrightarrow> wired c c'" "wired c (snd (on_invites g c')) \<longleftrightarrow> wired c c'"
  "wired c (snd (on_members k c')) \<longleftrightarrow> wired c c'"
  by (simp_all add: on_store_defs case_prod_unfold)

lemma issueCode_wired: "issueCode mc en m c = (Inr (), c') \<Longrightarrow> wired c c'"
proof (erule issueCode_cases)
  fix rot t c1 b on
  assume c1: "mint_token en rot (m_Email m) c = (Inr t, c1)" and
    c': "advance_member en on m (snd (on_invites (Issue (en_fault en 11) (en_rand en 11) (en_rand en 12) (en_clock en 11) (invite_params mc m (tk_Token t))) c1)) = (Inr (), c')"
  have "wired c (snd (mint_token en rot (m_Email m) c))" by (simp add: mint_token_def)
  moreover have "wired c (snd (advance_member en on m d))" if "wired c d" for d using that by (simp add: advance_member_def)
  ultimately show "wired c c'" using c1 c' by (metis snd_conv wired_on(2))
qed simp_all

lemma Reinvite_view:
  assumes inv: "members_inv s" and v: "members_view s i = Some m" and r: "Reinvite f i s = (Inr (), s')"
  shows "\<exists>m'. members_view s' i = Some m' \<and> m_Email m' = m_Email m \<and> m_Status m' = StatusInvited"
proof -
  obtain p where p: "map_of (ms_byID s) i = Some p" "ms_cells s ! p = m" using v by (auto simp: members_view_def deref_def)
  then have "commitUpdate f p (m\<lparr>m_Status := StatusInvited, m_SessionExpiredAt := []\<rparr>) s = (Inr (), s')"
    using r by (auto simp: Reinvite_def Let_def split: if_splits)
  from commitUpdate_view [OF inv p(1) this] show ?thesis by simp
qed

lemma MarkInvited_view:
  assumes inv: "members_inv s" and v: "members_view s i = Some m" and r: "MarkInvited f i s = (Inr (), s')"
  shows "\<exists>m'. members_view s' i = Some m' \<and> m_Email m' = m_Email m \<and> m_Status m' = StatusInvited"
proof -
  obtain p where p: "map_of (ms_byID s) i = Some p" "ms_cells s ! p = m" using v by (auto simp: members_view_def deref_def)
  show ?thesis
  proof (cases "m_Status m = StatusInvited")
    case True
    with r p v show ?thesis by (simp add: MarkInvited_def Let_def)
  next
    case False
    then have "commitUpdate f p (m\<lparr>m_Status := StatusInvited\<rparr>) s = (Inr (), s')"
      using r p by (auto simp: MarkInvited_def Let_def split: if_splits)
    from commitUpdate_view [OF inv p(1) this] show ?thesis by simp
  qed
qed

lemma issueCode_member:
  assumes ok: "plane_ok c" and m: "members_view (c_members c) (m_ID m) = Some m" and r: "issueCode mc en m c = (Inr (), c')"
  shows "\<exists>m'. members_view (c_members c') (m_ID m) = Some m' \<and> m_Email m' = m_Email m \<and> m_Status m' \<in> {StatusInvited, StatusActive}"
  using r
proof (cases rule: issueCode_cases)
  case (mailed rot t c1 b on)
  have l: "tokens_live (c_tokens c)" and inv: "members_inv (c_members c)" using ok by (simp_all add: plane_ok_def members_live_def)
  have c1: "c_members c1 = c_members c" using mint_result [OF l mailed(1)] by simp
  show ?thesis
  proof (cases on)
    case True
    then have "c_members c' = c_members c" using mailed(4) c1 by (simp add: advance_member_def) (metis on_invites_sel)
    with m mailed(6) [OF True] show ?thesis by auto
  next
    case False
    with mailed(4) c1 consider f ms where "Reinvite f (m_ID m) (c_members c) = (Inr (), ms)" "c_members c' = ms"
      | f ms where "MarkInvited f (m_ID m) (c_members c) = (Inr (), ms)" "c_members c' = ms"
      by (auto simp: advance_member_def on_members_def case_prod_unfold split: if_splits) (metis prod.collapse)+
    then show ?thesis using Reinvite_view [OF inv m] MarkInvited_view [OF inv m] by cases blast+
  qed
qed simp_all

lemma issueCode_inv:
  assumes ok: "plane_ok c" "clocks_ok (mc_ttl mc) en" and T: "invites_inv T (c_invites c)" and r: "issueCode mc en m c = (Inr (), c')"
  shows "invites_inv (max T (en_clock en 11)) (c_invites c')"
  using r
proof (cases rule: issueCode_cases)
  case (mailed rot t c1 b on)
  have "tokens_live (c_tokens c)" using ok(1) by (simp add: plane_ok_def)
  from mint_result [OF this mailed(1)] T have "invites_inv T (c_invites c1)" by simp
  from issue_at [OF this ok(2) mailed(3)] advance_sel(1) [OF mailed(4)] show ?thesis by simp
qed simp_all

text \<open>
  A redemption in time of a code issued in \<open>en\<close>: the requests served meanwhile left the code alone, the
  database is healthy, the clock has not run backwards and the code's lifetime is not over.
\<close>

definition redeemed_in_time :: "mail_conf \<Rightarrow> env \<Rightarrow> console \<Rightarrow> string \<Rightarrow> plane_event list \<Rightarrow> env \<Rightarrow> bool" where
  "redeemed_in_time mc en c h es en' \<longleftrightarrow> undisturbed h (en_clock en' 2) es \<and> en_fault en' 0 = TxOk \<and> en_fault en' 1 = TxOk \<and>
     time_ok (en_clock en' 2) \<and> invites_inv (en_clock en' 2) (c_invites c) \<and> en_clock en 11 \<le> en_clock en' 2 \<and>
     en_clock en' 1 < (en_clock en 11 + mc_ttl mc) div milli * milli \<and> en_clock en' 2 < (en_clock en 11 + mc_ttl mc) div milli * milli"

text \<open>
  After any such history nothing stands in the way: the member is on the list with the address of
  the code, invited or active.
\<close>

lemma issued_redeems:
  assumes ok: "plane_ok c" "clocks_ok (mc_ttl mc) en" and r: "issueCode mc en m c = (Inr (), c')"
    and iv: "invites_view (c_invites c') h = Some (issued h l (en_clock en 11) (invite_params mc m x))"
    and on: "c_inviteRedeem c" "c_memberAct c" and m: "members_view (c_members c) (m_ID m) = Some m"
    and h: "redeemed_in_time mc en c h es en'"
  shows "fst (rpc_Unwrap en' h (fold plane_run es c')) = Inr (x, m_ID m)"
proof -
  let ?d = "fold plane_run es c'" and ?iv = "issued h l (en_clock en 11) (invite_params mc m x)"
  have es: "undisturbed h (en_clock en' 2) es" and T: "invites_inv (en_clock en' 2) (c_invites c)" "en_clock en 11 \<le> en_clock en' 2"
    and f: "en_fault en' 0 = TxOk" "en_fault en' 1 = TxOk" "time_ok (en_clock en' 2)"
    and ex: "en_clock en' 1 < (en_clock en 11 + mc_ttl mc) div milli * milli" "en_clock en' 2 < (en_clock en 11 + mc_ttl mc) div milli * milli"
    using h by (simp_all add: redeemed_in_time_def)
  have ok': "plane_ok c'" using api_stores.issueCode_ok [OF ok(2,1), of m] r by simp
  have "invites_inv (en_clock en' 2) (c_invites c')" using issueCode_inv [OF ok T(1) r] T(2) by (simp add: max_absorb1)
  note Q = quiet_run [OF ok' this es]
  have W: "c_inviteRedeem ?d" "c_memberAct ?d" using conjunct2 [OF conjunct2 [OF conjunct2 [OF Q]]] issueCode_wired [OF r] on by (auto simp: wired_def)
  obtain k where k: "members_view (c_members c') (m_ID m) = Some k" "m_Email k = m_Email m" "m_Status k \<in> {StatusInvited, StatusActive}"
    using issueCode_member [OF ok(1) m r] by blast
  obtain k' where k': "members_view (c_members ?d) (m_ID m) = Some k'" "activates\<^sup>*\<^sup>* k k'"
    using plane_members.run_moves [OF ok' undisturbed_clock [OF es] k(1)] by blast
  have K: "m_Email k' = m_Email m" "m_Status k' \<in> {StatusInvited, StatusActive}"
    using activates_once [OF k'(2)] k(2,3) by (auto elim!: activates.cases)
  have "\<not> isExpiredAt ?iv n" if "n < (en_clock en 11 + mc_ttl mc) div milli * milli" for n
    using that by (simp add: isExpiredAt_def parse_FormatTime [OF clocks_time(2) [OF ok(2)]])
  note N = this [OF ex(1)] this [OF ex(2)]
  have "fst (rpc_Unwrap en' h ?d) = Inr (iv_TokenValue ?iv, iv_MemberID ?iv)"
    by (rule redeem_healthy) (use Q W iv N k'(1) K f in simp_all)
  then show ?thesis by simp
qed

end
