(* ===== verification/Console_Properties.thy ===== *)
theory Console_Properties
  imports Console_Teams Code_Redemption
begin

text \<open>
  What the operator may rely on when working through the HTTP surface: the stores stay sound, a
  deleted user is gone from all of them, a removed member cannot read the team, and a code that was
  mailed lets its member in.
\<close>

subsection \<open>Examples\<close>

lemma demo_redeem_ok: "plane_ok demo_redeem"
proof -
  have "offer demo_offer" by (simp add: offer_def demo_offer_def demo_id_def)
  then have "invites_live demo_pending" using offer_view [OF _ demo_pending_def] by (auto simp: invites_live_def)
  then show ?thesis
    using demo_staff_view demo_console_ok by (simp add: plane_ok_def demo_redeem_def SetInviteRedemption_def SetMemberDirectory_def)
qed

lemma demo_redeem_sel [simp]: "c_members demo_redeem = demo_staff" "c_invites demo_redeem = demo_pending"
  "c_groups demo_redeem = demo_org" "c_tokens demo_redeem = demo_session ''a@x''"
  by (simp_all add: demo_redeem_def SetInviteRedemption_def SetMemberDirectory_def)

lemma demo_clocks: "clocks_ok (60 * second) demo_env"
proof -
  have "time_ok (60 * second + 60 * second)" by code_simp
  then show ?thesis using demo_times(3) by (simp add: clocks_ok_def demo_env_def)
qed

lemma demo_comma: "commaList demo_id = [demo_id]" "commaList ''a@x'' = [''a@x'']"
proof -
  have "trim_space demo_id = demo_id" "trim_space ''a@x'' = ''a@x''"
    by (rule trim_space_ascii; simp add: demo_id_def is_space_def)+
  then show "commaList demo_id = [demo_id]" "commaList ''a@x'' = [''a@x'']"
    by (simp_all add: commaList_def demo_id_def)
qed

text \<open>
  A team below the organisation, and a member who reads the organisation and was cut off from the
  team. Persons are keyed by member id, as the daemon wires it.
\<close>

definition demo_team_db :: groups_db where
  "demo_team_db = \<lparr>t_groups = demo_groups,
     t_memberships = [\<lparr>mb_User = demo_id, mb_GroupID = ''g1'', mb_Role = RoleRead, mb_GrantedBy = ''o'', mb_GrantedAt = ''t''\<rparr>],
     t_exclusions = [\<lparr>ex_User = demo_id, ex_GroupID = ''g2'', ex_RemovedBy = ''o'', ex_RemovedAt = ''t''\<rparr>]\<rparr>"

definition demo_team :: group_store where
  "demo_team = snd (groups_LoadFromDB (Some demo_team_db) (SetPersonKeyValidator (Some validateID) groups_NewStore))"

definition demo_team_view :: directory where
  "demo_team_view = \<lparr>d_group = tab g_ID demo_groups, d_member = (\<lambda>u i. tab mb_key (t_memberships demo_team_db) (u, i)),
     d_excl = (\<lambda>u i. tab ex_key (t_exclusions demo_team_db) (u, i)), d_valid = (\<lambda>u. validateID u = None)\<rparr>"

lemma demo_team_sel: "d_group demo_team_view = d_group demo_view" "dpar demo_team_view = dpar demo_view"
  "d_member demo_team_view u i = (if u = demo_id \<and> i = ''g1'' then Some (t_memberships demo_team_db ! 0) else None)"
  "d_excl demo_team_view u i = (if u = demo_id \<and> i = ''g2'' then Some (t_exclusions demo_team_db ! 0) else None)"
  "d_valid demo_team_view u \<longleftrightarrow> validateID u = None"
  by (auto simp: demo_team_view_def demo_view_def demo_team_db_def tab_def mb_key_def ex_key_def dpar_def fun_eq_iff)

lemma demo_valid_id: "validateID demo_id = None"
  using newMemberID_canonical [OF demo_newMemberID] by (simp add: validateID_def)

lemma demo_team_dir: "dir_ok demo_team_view"
proof -
  have "dir_tree demo_team_view" "dir_groups demo_team_view" "dir_names demo_team_view"
    using demo_dir by (simp_all add: dir_ok_def dir_tree_def dir_groups_def dir_names_def demo_team_sel)
  moreover have "dir_members demo_team_view"
    by (auto simp: dir_members_def demo_team_sel demo_group demo_team_db_def mb_key_def Role_Valid_iff demo_valid_id split: if_splits)
  moreover have "dir_excl demo_team_view"
    by (auto simp: dir_excl_def demo_team_sel demo_group demo_team_db_def ex_key_def demo_valid_id split: if_splits)
  ultimately show ?thesis by (simp add: dir_ok_def)
qed

lemma demo_team_live: "groups_live demo_team \<and> gs_view demo_team = demo_team_view"
proof -
  have "db_agree demo_team_view demo_team_db"
    by (simp add: db_agree_def demo_team_view_def demo_team_db_def keyed_def demo_groups_def mb_key_def ex_key_def)
  from groups_load [OF demo_team_dir this, of "SetPersonKeyValidator (Some validateID) groups_NewStore"] show ?thesis
    by (auto simp: demo_team_def groups_live_def demo_team_sel SetPersonKeyValidator_def validatePersonKey_def)
qed

lemma demo_team_resolve: "i \<in> {''g1'', ''g2''} \<Longrightarrow> v_resolve (gs_view demo_team) i = Some i"
  using demo_team_live by (auto simp: v_resolve_def demo_team_sel demo_group)

definition demo_staffed :: console where
  "demo_staffed = demo_redeem\<lparr>c_groups := demo_team\<rparr>"

lemma demo_staffed_ok: "plane_ok demo_staffed"
  using demo_redeem_ok demo_team_live by (simp add: plane_ok_def demo_staffed_def)

subsection \<open>Properties\<close>
















text \<open>
  C4. Deleting users is complete and tells the truth. Every user reported as deleted existed and is
  gone from all four stores: no row, no credential, no membership and so nothing to recall, no
  exclusion, no code to redeem. Nothing is added or changed, only taken away; a row disappears only
  for a user so reported, so no half-deleted identity is left without its row. Every requested id is
  reported once. And nobody else is touched: whoever was not requested keeps row, memberships,
  exclusions and invites as they were, and no team changes; an address that is none of theirs keeps
  its credential.
\<close>

theorem user_delete_is_complete:
  assumes ok: "plane_ok c" "clocks_ok ttl en" and r: "usersDeleteBatch en actor ids c = (HttpOk st res, c')"
  shows "plane_ok c' \<and> mset (br_Succeeded res) + mset (map fst (br_Failed res)) = mset (commaList ids) \<and>
    (\<forall>i \<in> set (br_Succeeded res). (\<exists>m. members_view (c_members c) i = Some m \<and> erased i (m_Email m) c') \<and> RecallScope (c_groups c') i = []) \<and>
    shrinks c c' \<and>
    (\<forall>i. members_view (c_members c) i \<noteq> None \<and> members_view (c_members c') i = None \<longrightarrow> i \<in> set (br_Succeeded res)) \<and>
    (\<forall>u. (\<forall>i m. i \<in> set (commaList ids) \<longrightarrow> members_view (c_members c) i = Some m \<longrightarrow> m_Email m \<noteq> u) \<longrightarrow> creds (c_tokens c') u = creds (c_tokens c) u) \<and>
    spares (set (commaList ids)) c c'"
proof -
  have "rounds (user_delete_step actor) en 0 (commaList ids) (newBatchResult, c) = (res, c')"
    using r by (auto simp: usersDeleteBatch_def apiErr_def split: if_splits prod.splits)
  from delete_rounds [OF ok this] obtain oks fails where
    d: "delete_report c (commaList ids) c' oks fails" "br_Succeeded res = oks" "br_Failed res = fails"
    by (auto simp: newBatchResult_def)
  then have "groups_live (c_groups c')" by (simp add: delete_report_def plane_ok_def)
  then have "RecallScope (c_groups c') i = []" if "i \<in> set oks" for i
    using that d(1) by (auto simp: delete_report_def erased_def intro!: no_membership_no_scope)
  with d show ?thesis unfolding delete_report_def by blast
qed

theorem user_delete_is_complete_witness:
  "\<exists>res c'. usersDeleteBatch demo_env ''op'' demo_id demo_redeem = (HttpOk 200 res, c') \<and> br_Succeeded res = [demo_id] \<and>
     erased demo_id ''a@b.co'' c'"
proof -
  obtain m where m: "members_view demo_staff demo_id = Some m" "m_Email m = ''a@b.co''" using demo_staff_view by blast
  obtain res c' where s: "user_delete_step ''op'' (round_env 0 demo_env) demo_id (newBatchResult, demo_redeem) = (res, c')"
    by (cases "user_delete_step ''op'' (round_env 0 demo_env) demo_id (newBatchResult, demo_redeem)")
  have r: "usersDeleteBatch demo_env ''op'' demo_id demo_redeem = (HttpOk 200 res, c')"
    by (simp add: usersDeleteBatch_def demo_comma s)
  have "invites_inv 0 (c_invites demo_redeem)"
    using offer_view [of demo_offer demo_pending] by (simp add: offer_def demo_offer_def demo_id_def demo_pending_def)
  then have "fst (user_delete_step ''op'' (round_env 0 demo_env) demo_id (newBatchResult, demo_redeem)) = batch_ok demo_id newBatchResult"
    using m demo_times(3) by (intro user_delete_healthy [OF demo_redeem_ok]) (auto simp: round_env_def demo_env_def second_def)
  then have ok: "br_Succeeded res = [demo_id]" using s by (simp add: batch_ok_def newBatchResult_def)
  with user_delete_is_complete [OF demo_redeem_ok demo_clocks r] m have "erased demo_id ''a@b.co'' c'" by auto
  with r ok show ?thesis by blast
qed

text \<open>
  C5. Removing members from a team takes the team out of their reach: whoever is reported as
  removed, or as not a member, cannot recall the team's memory afterwards, not even through a team
  above it. Nobody gains access to anything, those not named keep exactly what they had, and every
  requested id is reported once.
\<close>

theorem team_removal_cuts_access:
  assumes l: "groups_live (c_groups c)" and t: "v_resolve (gs_view (c_groups c)) ref = Some gid"
    and r: "teamMembersRemoveBatch en actor ref ids c = (HttpOk st res, c')"
  shows "(\<forall>u \<in> set (br_Succeeded res). gid \<notin> set (RecallScope (c_groups c') u)) \<and>
    (\<forall>u. (u, ''NOT_TEAM_MEMBER'') \<in> set (br_Failed res) \<longrightarrow> gid \<notin> set (RecallScope (c_groups c') u)) \<and>
    (\<forall>u. set (RecallScope (c_groups c') u) \<subseteq> set (RecallScope (c_groups c) u)) \<and>
    (\<forall>u. u \<notin> set (commaList ids) \<longrightarrow> RecallScope (c_groups c') u = RecallScope (c_groups c) u) \<and>
    mset (br_Succeeded res) + mset (map fst (br_Failed res)) = mset (commaList ids)"
proof -
  obtain c1 where c1: "rounds (team_remove_step actor ref) en 0 (commaList ids) (newBatchResult, c) = (res, c1)" "c_groups c' = c_groups c1"
    using r by (auto simp: teamMembersRemoveBatch_def apiErr_def writeGroupAPIErr_def split: if_splits prod.splits sum.splits group_error.splits)
  from cut_rounds [OF l t c1(1)] obtain oks fails where
    d: "cut_report gid (commaList ids) (c_groups c) (c_groups c') oks fails" "br_Succeeded res = oks" "br_Failed res = fails"
    by (auto simp: newBatchResult_def c1(2))
  then have cut: "cuts (set (commaList ids)) (c_groups c) (c_groups c')" by (simp add: cut_report_def)
  then have i': "groups_inv (c_groups c')" by (simp add: cuts_def live_inv)
  note mem = scope_mem [OF live_inv [OF l]] scope_mem [OF i']
  have "RecallScope (c_groups c') u = RecallScope (c_groups c) u" if "u \<notin> set (commaList ids)" for u
    by (rule scope_eq [OF live_inv [OF l] i']) (use cut that in \<open>simp add: cuts_def\<close>)
  moreover have "set (RecallScope (c_groups c') u) \<subseteq> set (RecallScope (c_groups c) u)" for u
    using cut by (auto simp: mem cuts_def)
  ultimately show ?thesis using d by (simp add: cut_report_def mem)
qed

theorem team_removal_cuts_access_witness:
  "\<exists>res c'. teamMembersRemoveBatch demo_env ''op'' ''g1'' demo_id demo_staffed = (HttpOk 200 res, c') \<and>
     ''g1'' \<notin> set (RecallScope (c_groups c') demo_id) \<and> ''g1'' \<in> set (RecallScope (c_groups demo_staffed) demo_id)"
proof -
  have l: "groups_live (c_groups demo_staffed)" "v_resolve (gs_view (c_groups demo_staffed)) ''g1'' = Some ''g1''"
    using demo_team_live demo_team_resolve by (simp_all add: demo_staffed_def)
  obtain p where p: "resolveLocked demo_team ''g1'' = Inr p"
    using resolve_Inl [OF live_inv [OF conjunct1 [OF demo_team_live]], of "''g1''"] demo_team_resolve [of "''g1''"]
    by (cases "resolveLocked demo_team ''g1''") auto
  have "validatePersonKey demo_team demo_id = None"
    using demo_team_live demo_valid_id by (metis demo_team_sel(5) gs_view_sel(4))
  from Revoke_reports [OF conjunct1 [OF demo_team_live] this p] obtain a b where
    rv: "fst (Revoke TxOk (60 * second) demo_id ''g1'' (localAdminActor ''op'') demo_team) = Inr (a, b)" by (metis surj_pair)
  obtain m where "members_Get demo_id demo_staff = Inr m" using demo_staff_view Get_view by blast
  then obtain res c1 where s: "team_remove_step ''op'' ''g1'' (round_env 0 demo_env) demo_id (newBatchResult, demo_staffed) = (res, c1)"
    and o: "br_Succeeded res = [demo_id] \<or> br_Failed res = [(demo_id, ''NOT_TEAM_MEMBER'')]"
    using rv by (cases "team_remove_step ''op'' ''g1'' (round_env 0 demo_env) demo_id (newBatchResult, demo_staffed)")
      (auto simp: team_remove_step_def revoke_item_def demo_staffed_def round_env_def demo_env_def on_groups_def case_prod_unfold
        batch_ok_def batch_fail_def newBatchResult_def split: if_splits)
  have "groupID ''g1'' demo_staffed = Inr (cd_ID (case TeamDetail demo_team ''g1'' of Inr d \<Rightarrow> d))"
    using p by (simp add: groupID_def demo_staffed_def TeamDetail_def Let_def)
  then have r: "teamMembersRemoveBatch demo_env ''op'' ''g1'' demo_id demo_staffed =
      (HttpOk 200 res, auditAdmin demo_env ''admin.group.revoke'' ''op'' (''batch remove @ '' @ ''g1'') c1)"
    using s by (simp add: teamMembersRemoveBatch_def demo_comma)
  have "may_read (gs_view demo_team) demo_id ''g1''" using demo_team_live by (simp add: may_read_def demo_team_sel)
  then have "''g1'' \<in> set (RecallScope (c_groups demo_staffed) demo_id)"
    using scope_mem [OF live_inv [OF conjunct1 [OF demo_team_live]]] by (simp add: demo_staffed_def)
  with team_removal_cuts_access [OF l r] r o show ?thesis by fastforce
qed

text \<open>
  C23. A code that was sent lets its member in. When issuing a code for a member succeeds, the mailer
  accepted a bundle with a handle no invite had, and the member's address holds a new credential.
  After any history of data-plane requests, whoever redeems that handle gets that credential's secret
  and that member's id, and the secret authenticates that member's address for as long as it has not
  expired. And the code does work: whatever requests the data plane served meanwhile, as long as none
  of them redeemed that handle, a redemption before the code's lifetime is over succeeds, on a healthy
  database and a clock that has not run backwards.
\<close>

theorem issued_code_lets_member_in:
  assumes ok: "plane_ok c" "clocks_ok (mc_ttl mc) en" and r: "issueCode mc en m c = (Inr (), c')"
  shows "\<exists>b t. mc_mailer mc (m_Email m) (m_DisplayName m) b = None \<and> invites_view (c_invites c) (cb_Handle b) = None \<and>
    creds (c_tokens c') = (creds (c_tokens c))(m_Email m \<mapsto> t) \<and>
    (\<forall>es en' tok mid d. list_all clock_ok es \<longrightarrow> (\<forall>i. time_ok (en_clock en' i)) \<longrightarrow>
       rpc_Unwrap en' (cb_Handle b) (fold plane_run es c') = (Inr (tok, mid), d) \<longrightarrow>
       tok = tk_Token t \<and> mid = m_ID m \<and>
       (\<forall>n1 n2. \<not> IsExpiredAt t n1 \<longrightarrow> fst (Validate n1 n2 tok (c_tokens d)) = Inr (m_Email m))) \<and>
    (\<forall>es en'. c_inviteRedeem c \<longrightarrow> c_memberAct c \<longrightarrow> members_view (c_members c) (m_ID m) = Some m \<longrightarrow>
       redeemed_in_time mc en c (cb_Handle b) es en' \<longrightarrow>
       fst (rpc_Unwrap en' (cb_Handle b) (fold plane_run es c')) = Inr (tk_Token t, m_ID m))"
proof -
  have ok': "plane_ok c'" using api_stores.issueCode_ok [OF ok(2,1), of m] r by simp
  obtain b t l where i: "mc_mailer mc (m_Email m) (m_DisplayName m) b = None" "invites_view (c_invites c) (cb_Handle b) = None"
    "creds (c_tokens c') = (creds (c_tokens c))(m_Email m \<mapsto> t)"
    "invites_view (c_invites c') (cb_Handle b) = Some (issued (cb_Handle b) l (en_clock en 11) (invite_params mc m (tk_Token t)))"
    using issueCode_Inr [OF ok r] by blast
  have t: "creds (c_tokens c') (m_Email m) = Some t" using i(3) by simp
  have "tok = tk_Token t \<and> mid = m_ID m \<and> (\<forall>n1 n2. \<not> IsExpiredAt t n1 \<longrightarrow> fst (Validate n1 n2 tok (c_tokens d)) = Inr (m_Email m))"
    if es: "list_all clock_ok es" "\<forall>i. time_ok (en_clock en' i)" "rpc_Unwrap en' (cb_Handle b) (fold plane_run es c') = (Inr (tok, mid), d)"
    for es en' tok mid d
  proof -
    note R = redeemed_later [OF ok' es(1,2) i(4) t es(3)]
    then obtain k where k: "creds (c_tokens d) (m_Email m) = Some k" "tk_Token k = tk_Token t" "\<forall>n. IsExpiredAt k n = IsExpiredAt t n" by auto
    have "tokens_live (c_tokens d)" using R by (simp add: plane_ok_def)
    with Validate_holder [OF this k(1)] k(2,3) R show ?thesis by (metis fst_conv invite_params_sel(1,2) issued_sel(4,5))
  qed
  with i(1-3) issued_redeems [OF ok r i(4)] show ?thesis by blast
qed

definition demo_now :: env where
  "demo_now = demo_env\<lparr>en_clock := (\<lambda>_. 0)\<rparr>"

definition demo_hour :: mail_conf where
  "demo_hour = \<lparr>mc_mailer = (\<lambda>_ _ _. None), mc_ttl = 3600 * second\<rparr>"

definition demo_nobody :: token_store where
  "demo_nobody = snd (tokens_LoadFromDB (Some []) tokens_NewStore)"

definition demo_hire :: console where
  "demo_hire = demo_redeem\<lparr>c_tokens := demo_nobody, c_invites := demo_inbox\<rparr>"

lemma demo_nobody_live: "tokens_live demo_nobody" "creds demo_nobody = Map.empty"
proof -
  obtain r s0 where s0: "tokens_LoadFromDB (Some []) tokens_NewStore = (r, s0)" by (cases "tokens_LoadFromDB (Some []) tokens_NewStore")
  from tokens_load [OF _ _ s0] s0 show "tokens_live demo_nobody" "creds demo_nobody = Map.empty"
    by (auto simp: keyed_def demo_nobody_def)
qed

lemma demo_hire_ok: "plane_ok demo_hire"
  using demo_redeem_ok demo_nobody_live demo_inbox_live by (auto simp: plane_ok_def demo_hire_def invites_live_def)

lemma demo_now_clocks: "clocks_ok (3600 * second) demo_now"
  using demo_times by (simp add: clocks_ok_def demo_now_def)

lemma demo_minted: "fst (AddToken TxOk demo_entropy 0 u None demo_nobody) = Inr (fresh_token u demo_secret 0 None)"
proof -
  have "ts_db demo_nobody = Some []" by (simp add: demo_nobody_def tokens_LoadFromDB_def dual_load_def)
  moreover have "map_of (ts_tokensByUser demo_nobody) u = None" using demo_nobody_live creds_none by metis
  ultimately show ?thesis by (simp add: AddToken_def demo_newTokenString tokens_persist_def tokens_insert_def Let_def)
qed

lemma demo_issue_code:
  assumes m: "members_view demo_staff demo_id = Some m" "m_Email m = ''a@b.co''" "m_Status m = StatusInvited"
  shows "fst (issueCode demo_hour demo_now m demo_hire) = Inr ()"
proof -
  have i: "m_ID m = demo_id" using members_view_key demo_staff_view m(1) by (auto simp: members_live_def)
  have mark: "MarkInvited TxOk demo_id demo_staff = (Inr (), demo_staff)"
    using m by (auto simp: MarkInvited_def members_view_def deref_def Let_def split: option.splits)
  have "ListTokens (row_clock demo_now) demo_nobody = []"
    by (simp add: ListTokens_def demo_nobody_def tokens_LoadFromDB_def dual_load_def tokens_NewStore_def)
  then have rot: "\<not> tokenExistsForUser demo_now (m_Email m) demo_hire" by (simp add: tokenExistsForUser_def demo_hire_def)
  have "offer (invite_params demo_hour m demo_secret)"
    using m i by (simp add: offer_def invite_params_def demo_hour_def demo_id_def consoleInviteTokenRole_def demo_secret_def)
  then obtain b iv where b: "Issue TxOk demo_entropy demo_entropy 0 (invite_params demo_hour m demo_secret) demo_inbox = (Inr b, iv)"
    using offer_issue by (metis prod.collapse)
  obtain ts where ts: "AddToken TxOk demo_entropy 0 (m_Email m) None demo_nobody = (Inr (fresh_token (m_Email m) demo_secret 0 None), ts)"
    using demo_minted by (metis prod.collapse)
  have sel: "c_tokens demo_hire = demo_nobody" "c_invites demo_hire = demo_inbox" "c_members demo_hire = demo_staff"
    "en_fault demo_now = (\<lambda>_. TxOk)" "en_rand demo_now = (\<lambda>_. demo_entropy)" "en_clock demo_now = (\<lambda>_. 0)" "mc_mailer demo_hour = (\<lambda>_ _ _. None)"
    by (simp_all add: demo_hire_def demo_now_def demo_env_def demo_hour_def)
  have mint: "mint_token demo_now False (m_Email m) demo_hire = (Inr (fresh_token (m_Email m) demo_secret 0 None), demo_hire\<lparr>c_tokens := ts\<rparr>)"
    by (simp add: mint_token_def on_tokens_def sel ts)
  have off: "\<not> (m_Status m = StatusActive \<and> online)" for online using m(3) by simp
  have adv: "advance_member demo_now False m (demo_hire\<lparr>c_tokens := ts, c_invites := iv\<rparr>) = (Inr (), demo_hire\<lparr>c_tokens := ts, c_invites := iv, c_members := demo_staff\<rparr>)"
    using m(3) by (simp add: advance_member_def on_members_def sel i mark)
  show ?thesis
    unfolding issueCode_def Let_def
    by (simp add: off rot mint on_invites_def sel b adv)
qed

theorem issued_code_lets_member_in_witness:
  "\<exists>m c' (b :: clear_bundle) t. issueCode demo_hour demo_now m demo_hire = (Inr (), c') \<and> creds (c_tokens c') = [''a@b.co'' \<mapsto> t] \<and>
     fst (rpc_Unwrap demo_env (cb_Handle b) c') = Inr (tk_Token t, demo_id)"
proof -
  obtain m where m: "members_view demo_staff demo_id = Some m" "m_Email m = ''a@b.co''" "m_Status m = StatusInvited"
    using demo_staff_view by blast
  then have i: "m_ID m = demo_id" using members_view_key demo_staff_view by (auto simp: members_live_def)
  obtain c' where r: "issueCode demo_hour demo_now m demo_hire = (Inr (), c')" using demo_issue_code [OF m] by (metis prod.collapse)
  have k: "clocks_ok (mc_ttl demo_hour) demo_now" using demo_now_clocks by (simp add: demo_hour_def)
  have on: "c_inviteRedeem demo_hire" "c_memberAct demo_hire" "members_view (c_members demo_hire) (m_ID m) = Some m"
    using m(1) i by (simp_all add: demo_hire_def demo_redeem_def SetInviteRedemption_def SetMemberDirectory_def)
  have in_time: "redeemed_in_time demo_hour demo_now demo_hire h [] demo_env" for h
    using demo_times(3) inv_mono [OF conjunct1 [OF demo_inbox_live, of 0], of "60 * second"]
    by (simp add: redeemed_in_time_def undisturbed_def demo_hire_def demo_env_def demo_now_def demo_hour_def second_def milli_def)
  obtain b :: clear_bundle and t where "creds (c_tokens c') = (creds (c_tokens demo_hire))(m_Email m \<mapsto> t)"
    "fst (rpc_Unwrap demo_env (cb_Handle b) (fold plane_run [] c')) = Inr (tk_Token t, m_ID m)"
    using issued_code_lets_member_in [OF demo_hire_ok k r] on in_time by blast
  with r m(2) i demo_nobody_live(2) show ?thesis by (auto simp: demo_hire_def)
qed

text \<open>
  C32. A code that was refused is void. When issuing a code fails at any step, whatever else fails
  with it, and its compensation commits, every invite still pending was pending before: nobody can
  redeem what was made for the failed attempt. No team is touched.
\<close>

theorem refused_code_is_void:
  assumes "plane_ok c" "clocks_ok (mc_ttl mc) en" "issueCode mc en m c = (Inl d, c')" "en_fault en 14 = TxOk"
    and "invites_inv T (c_invites c)" "T \<le> en_clock en 14" "en_clock en 11 \<le> en_clock en 14"
  shows "(\<forall>h iv. invites_view (c_invites c') h = Some iv \<longrightarrow> iv_Status iv = StatusPending \<longrightarrow> invites_view (c_invites c) h = Some iv) \<and>
    c_groups c' = c_groups c"
  using issueCode_Inl [OF assms] issueCode_groups [OF assms(3)] assms(1) by (simp add: plane_ok_def)

definition demo_mute :: mail_conf where
  "demo_mute = \<lparr>mc_mailer = (\<lambda>_ _ _. Some (Text ''relay down'')), mc_ttl = 3600 * second\<rparr>"

theorem refused_code_is_void_witness:
  "\<exists>m d c'. issueCode demo_mute demo_now m demo_hire = (Inl d, c') \<and> c_groups c' = demo_org \<and>
     (\<nexists>iv. invites_view (c_invites c') demo_handle = Some iv \<and> iv_Status iv = StatusPending)"
proof -
  obtain m where m: "members_view demo_staff demo_id = Some m" using demo_staff_view by blast
  have "isl (fst (issueCode demo_mute demo_now m demo_hire))" by (rule issueCode_mute) (simp add: demo_mute_def)
  then obtain d c' where r: "issueCode demo_mute demo_now m demo_hire = (Inl d, c')"
    by (cases "issueCode demo_mute demo_now m demo_hire") (auto simp: isl_def)
  have k: "clocks_ok (mc_ttl demo_mute) demo_now" using demo_now_clocks by (simp add: demo_mute_def)
  have f: "en_fault demo_now 14 = TxOk" "(0::int) \<le> en_clock demo_now 14" "en_clock demo_now 11 \<le> en_clock demo_now 14"
    by (simp_all add: demo_now_def demo_env_def)
  have T: "invites_inv 0 (c_invites demo_hire)" "invites_view (c_invites demo_hire) demo_handle = None" "c_groups demo_hire = demo_org"
    using demo_inbox_live [of 0] by (simp_all add: demo_hire_def)
  from refused_code_is_void [OF demo_hire_ok k r f(1) T(1) f(2,3)] T(2,3) r show ?thesis by (metis option.distinct(1))
qed

text \<open>
  C30. A team is deleted memory first. When the deletion succeeds, the reference named a team
  without child teams, the engine had accepted to hand that team's memory to another team, or to
  strip it, exactly once, the directory lost that team with its members and exclusions and nothing
  else, and nobody can recall it. When the deletion fails, the four stores are untouched.
\<close>

theorem team_deletion_memory_first:
  assumes ok: "plane_ok c" and r: "deleteTeam en actor ref action target c = (r, c')"
  shows "(case r of
      HttpErr _ _ _ \<Rightarrow> c_groups c' = c_groups c \<and> c_members c' = c_members c \<and> c_tokens c' = c_tokens c \<and> c_invites c' = c_invites c
    | HttpOk _ _ \<Rightarrow> \<exists>i. v_resolve (gs_view (c_groups c)) ref = Some i \<and> childless i (gs_view (c_groups c)) \<and>
        memory_done c action target i c' \<and> gs_view (c_groups c') = v_drop i (gs_view (c_groups c)) \<and>
        (\<forall>u. i \<notin> set (RecallScope (c_groups c') u)))"
proof -
  have l: "groups_live (c_groups c)" "groups_live (c_groups c')"
    using ok api_stores.deleteTeam_ok [OF ok, of en actor ref action target] r by (simp_all add: plane_ok_def)
  show ?thesis
  proof (cases r)
    case (HttpErr st code d)
    then show ?thesis using deleteTeam_effect [OF l(1) r] by (simp add: stores_same_def)
  next
    case (HttpOk st x)
    then show ?thesis using deleteTeam_effect [OF l(1) r] dropped_unreadable [OF l(2)] by fastforce
  qed
qed

lemma demo_purge: "fst (deleteTeam demo_env ''op'' ''g2'' ''purge'' [] demo_staffed) = HttpOk 204 ()"
proof -
  have l: "groups_live demo_team" using demo_team_live by simp
  obtain p where p: "resolveLocked demo_team ''g2'' = Inr p"
    using resolve_Inl [OF live_inv [OF l], of "''g2''"] demo_team_resolve [of "''g2''"]
    by (cases "resolveLocked demo_team ''g2''") auto
  have i: "g_ID (gs_heap demo_team ! p) = ''g2''" using resolve_live [OF l p] demo_team_resolve [of "''g2''"] by simp
  have "childless ''g2'' (gs_view demo_team)" using demo_team_live
    by (auto simp: childless_def demo_team_sel dpar_def demo_group demo_groups_def split: if_splits)
  then have kids: "entries (gs_children demo_team) ''g2'' = []"
    using inv_children [OF live_inv [OF l], of _ "''g2''"] by (cases "entries (gs_children demo_team) ''g2''") (auto simp: childless_def)
  obtain d where d: "TeamDetail demo_team ''g2'' = Inr d" "cd_ID d = ''g2''" "cd_Children d = []"
    using p i kids by (simp add: TeamDetail_def Let_def sortedChildrenLocked_def sortByNameLocked_def)
  have eng: "getEngine demo_staffed = Some (crypto_engine 0 demo_client)"
    by (simp add: getEngine_def demo_staffed_def demo_redeem_def SetInviteRedemption_def SetMemberDirectory_def)
  obtain n c1 where rm: "RemoveGroupTag demo_env ''g2'' ''op'' demo_staffed = (Inr n, c1)"
    by (simp add: RemoveGroupTag_def eng Let_def crypto_engine_def Engine_RemoveTag_def sdk_err_def demo_client_def)
  have g1: "c_groups c1 = demo_team"
    using tag_calls_same(1) [of demo_staffed demo_env "''g2''" "''op''"] rm by (simp add: stores_same_def demo_staffed_def)
  obtain x where "fst (DeleteGroupWithMembers TxOk ''g2'' demo_team) = Inr x"
    using DeleteGroupWithMembers_healthy [OF l] demo_team_resolve [of "''g2''"] \<open>childless _ _\<close> by blast
  then have rt: "fst (remove_team demo_env ''op'' ''purge'' ''g2'' c1) = HttpOk 204 ()"
    by (simp add: remove_team_def on_groups_def g1 demo_env_def case_prod_unfold split: sum.split)
  have "c_groups demo_staffed = demo_team" by (simp add: demo_staffed_def)
  then show ?thesis unfolding deleteTeam_def by (simp add: d rm rt)
qed

theorem team_deletion_memory_first_witness:
  "\<exists>c'. deleteTeam demo_env ''op'' ''g2'' ''purge'' [] demo_staffed = (HttpOk 204 (), c') \<and>
     ''g2'' \<notin> set (RecallScope (c_groups c') demo_id) \<and> memory_done demo_staffed ''purge'' [] ''g2'' c'"
proof -
  obtain c' where r: "deleteTeam demo_env ''op'' ''g2'' ''purge'' [] demo_staffed = (HttpOk 204 (), c')"
    using demo_purge by (metis prod.collapse)
  have "v_resolve (gs_view (c_groups demo_staffed)) ''g2'' = Some ''g2''" using demo_team_resolve by (simp add: demo_staffed_def)
  with team_deletion_memory_first [OF demo_staffed_ok r] r show ?thesis by auto
qed

text \<open>
  C38. What a failed invitation leaves open. Adding a person to a team they were excluded from, when
  the code cannot be sent and everything else works, answers with the mail error and takes the new
  membership back, but not the lifting of the exclusion: the person can read the team again through
  the team above, which they could not before.
\<close>

theorem failed_mail_lifts_exclusion:
  assumes ok: "plane_ok c" and m: "GetByEmail (am_Account b) (c_members c) = Inr m"
    and v: "v_resolve (gs_view (c_groups c)) ref = Some i" "d_excl (gs_view (c_groups c)) (m_ID m) i \<noteq> None"
      "v_inherits (gs_view (c_groups c)) (m_ID m) i"
    and f: "en_fault en 3 = TxOk" and r: "addTeamMember mc en actor ref (Inr b) c = (mail_failed, c')"
  shows "\<not> may_read (gs_view (c_groups c)) (m_ID m) i \<and> may_read (gs_view (c_groups c')) (m_ID m) i \<and>
    d_member (gs_view (c_groups c')) (m_ID m) i = None"
proof -
  have l: "groups_live (c_groups c)" using ok by (simp add: plane_ok_def)
  have n: "d_member (gs_view (c_groups c)) (m_ID m) i = None"
    using live_dir [OF l] v(2) by (auto simp: dir_ok_def dir_excl_def)
  obtain role x s1 c2 e where g: "Grant (en_fault en 2) (en_clock en 2) (m_ID m) ref role (localAdminActor actor) (c_groups c) = (Inr x, s1)"
    and i: "issueCode mc (round_env 0 en) m (c\<lparr>c_groups := s1\<rparr>) = (Inl e, c2)"
    and c': "c' = snd (on_groups (RevokeDirectGrant (en_fault en 3) (m_ID m) ref) c2)"
    using addTeamMember_mail [OF m r] by blast
  have "tokens_live (c_tokens (c\<lparr>c_groups := s1\<rparr>))" using ok by (simp add: plane_ok_def)
  with issueCode_groups [OF i] have "c_groups c2 = s1" by simp
  then have "c_groups c' = snd (RevokeDirectGrant TxOk (m_ID m) ref s1)" by (simp add: c' f)
  with undone_reads [OF grant_undone [OF l g v(1)] v(3)] n v(2) show ?thesis by (simp add: may_read_def)
qed

definition demo_rehire :: console where
  "demo_rehire = demo_hire\<lparr>c_groups := demo_team\<rparr>"

definition demo_body :: add_member_body where
  "demo_body = \<lparr>am_Account = ''a@b.co'', am_Username = [], am_Role = ''read''\<rparr>"

lemma demo_rehire_ok: "plane_ok demo_rehire"
  using demo_hire_ok demo_team_live by (simp add: plane_ok_def demo_rehire_def)

lemma Grant_healthy:
  assumes l: "groups_live s" and u: "validatePersonKey s u = None" "Role_Valid role" and i: "v_resolve (gs_view s) ref = Some i"
    and n: "d_member (gs_view s) u i = None"
  shows "\<exists>x. fst (Grant TxOk now u ref role b s) = Inr x"
proof (cases "fst (Grant TxOk now u ref role b s)")
  case (Inl e)
  then have "gs_view s = v_grant (grant_row now u i role b (gs_view s)) (gs_view s)"
    using Grant_refines [OF l, of TxOk now u ref role b] Grant_Inl [OF Inl] i u by (simp add: g_refines_def dir_spec.simps)
  then have "d_member (gs_view s) u i = d_member (v_grant (grant_row now u i role b (gs_view s)) (gs_view s)) u i" by simp
  also have "\<dots> \<noteq> None" by (simp add: v_grant_def grant_row_def mb_key_def)
  finally show ?thesis using n by simp
qed simp

lemma demo_failed_mail: "fst (addTeamMember demo_mute demo_now ''op'' ''g2'' (Inr demo_body) demo_rehire) = mail_failed"
proof -
  have l: "groups_live demo_team" using demo_team_live by simp
  obtain m where m: "members_view demo_staff demo_id = Some m" "m_Email m = ''a@b.co''" "m_Status m = StatusInvited" "members_inv demo_staff"
    using demo_staff_view by (auto simp: members_live_def)
  have i: "m_ID m = demo_id" using members_view_key m by blast
  have get: "GetByEmail ''a@b.co'' demo_staff = Inr m"
    using byEmail_iff [OF m(4), of "''a@b.co''" m] m(1,2) i by (auto simp: GetByEmail_def deref_def split: option.splits)
  have val: "validatePersonKey demo_team demo_id = None" using demo_team_live demo_valid_id by (metis demo_team_sel(5) gs_view_sel(4))
  have n: "d_member (gs_view demo_team) demo_id ''g2'' = None" using demo_team_live by (simp add: demo_team_sel)
  obtain p where p: "resolveLocked demo_team ''g2'' = Inr p"
    using resolve_Inl [OF live_inv [OF l], of "''g2''"] demo_team_resolve [of "''g2''"]
    by (cases "resolveLocked demo_team ''g2''") auto
  have gid: "g_ID (gs_heap demo_team ! p) = ''g2''" using resolve_live [OF l p] demo_team_resolve [of "''g2''"] by simp
  have role: "ParseRole ''read'' = Some RoleRead" by code_simp
  have rv: "Role_Valid RoleRead" by code_simp
  obtain x s1 where g: "Grant TxOk 0 demo_id ''g2'' RoleRead (localAdminActor ''op'') demo_team = (Inr x, s1)"
    using Grant_healthy [OF l val rv demo_team_resolve n] by (metis insertI1 insertI2 prod.collapse)
  have g2: "groupID ''g2'' demo_rehire = Inr ''g2''" using p gid by (simp add: groupID_def demo_rehire_def TeamDetail_def Let_def)
  have d: "\<not> has_direct demo_id ''g2'' demo_rehire" using p gid n by (simp add: has_direct_def DirectRole_def demo_rehire_def)
  have need: "needsCode demo_now m (demo_rehire\<lparr>c_groups := s1\<rparr>)"
    using m(3) by (simp add: needsCode_def LatestByMember_def ListByMember_def invites_List_def demo_rehire_def demo_hire_def demo_inbox_def invites_LoadFromDB_def
      sweepAgedPending_def invites_update_def sql_update_def dual_load_def invites_NewStore_def)
  have "isl (fst (issueCode demo_mute (round_env 0 demo_now) m (demo_rehire\<lparr>c_groups := s1\<rparr>)))"
    by (rule issueCode_mute) (simp add: demo_mute_def)
  then obtain e c2 where z: "issueCode demo_mute (round_env 0 demo_now) m (demo_rehire\<lparr>c_groups := s1\<rparr>) = (Inl e, c2)"
    by (cases "issueCode demo_mute (round_env 0 demo_now) m (demo_rehire\<lparr>c_groups := s1\<rparr>)") (auto simp: isl_def)
  have sel: "c_members demo_rehire = demo_staff" "c_groups demo_rehire = demo_team" "en_fault demo_now = (\<lambda>_. TxOk)" "en_clock demo_now = (\<lambda>_. 0)"
    by (simp_all add: demo_rehire_def demo_hire_def demo_now_def demo_env_def)
  show ?thesis
    by (simp add: addTeamMember_def demo_body_def role g2 get_or_add_def sel get i d on_groups_def g need z)
qed

theorem failed_mail_lifts_exclusion_witness:
  "\<exists>c'. addTeamMember demo_mute demo_now ''op'' ''g2'' (Inr demo_body) demo_rehire = (mail_failed, c') \<and>
     ''g2'' \<notin> set (RecallScope (c_groups demo_rehire) demo_id) \<and> may_read (gs_view (c_groups c')) demo_id ''g2''"
proof -
  obtain c' where r: "addTeamMember demo_mute demo_now ''op'' ''g2'' (Inr demo_body) demo_rehire = (mail_failed, c')"
    using demo_failed_mail by (metis prod.collapse)
  obtain m where m: "members_view demo_staff demo_id = Some m" "m_Email m = ''a@b.co''" "members_inv demo_staff"
    using demo_staff_view by (auto simp: members_live_def)
  have i: "m_ID m = demo_id" using members_view_key m by blast
  have get: "GetByEmail (am_Account demo_body) (c_members demo_rehire) = Inr m"
    using byEmail_iff [OF m(3), of "''a@b.co''" m] m(1,2) i
    by (auto simp: GetByEmail_def deref_def demo_rehire_def demo_hire_def demo_body_def split: option.splits)
  have g: "c_groups demo_rehire = demo_team" by (simp add: demo_rehire_def)
  have v: "v_resolve (gs_view (c_groups demo_rehire)) ''g2'' = Some ''g2''" "d_excl (gs_view (c_groups demo_rehire)) (m_ID m) ''g2'' \<noteq> None"
    "v_inherits (gs_view (c_groups demo_rehire)) (m_ID m) ''g2''"
    using demo_team_live demo_team_resolve [of "''g2''"] by (auto simp: g i demo_team_sel v_inherits_def demo_above)
  have "en_fault demo_now 3 = TxOk" by (simp add: demo_now_def demo_env_def)
  from failed_mail_lifts_exclusion [OF demo_rehire_ok get v this r] r i show ?thesis
    using scope_mem [OF live_inv [OF conjunct1 [OF demo_team_live]]] by (auto simp: g)
qed

end
