(* ===== verification/Semver.thy ===== *)
theory Semver
  imports Go_Text Store_Time "HOL-Library.Product_Lexorder"
begin

text \<open>
  Release versions (\<open>internal/updater/semver.go\<close>): parsing, printing and comparing, on 64-bit
  numbers.
\<close>

subsection \<open>Text\<close>

text \<open>\<open>strings.Split\<close> and \<open>strings.Join\<close> on one byte.\<close>

fun split_byte :: "char \<Rightarrow> string \<Rightarrow> string list" where
  "split_byte d [] = [[]]"
| "split_byte d (c # cs) =
     (if c = d then [] # split_byte d cs
      else case split_byte d cs of p # ps \<Rightarrow> (c # p) # ps | [] \<Rightarrow> [[c]])"

fun join_byte :: "char \<Rightarrow> string list \<Rightarrow> string" where
  "join_byte d [] = []"
| "join_byte d [p] = p"
| "join_byte d (p # q # ps) = p @ d # join_byte d (q # ps)"

definition dot :: char where "dot = CHR 0x2E"
definition plus_sign :: char where "plus_sign = CHR 0x2B"

text \<open>\<open>strconv.ParseUint(s, 10, 64)\<close>.\<close>

definition parse_uint :: "string \<Rightarrow> 64 word option" where
  "parse_uint s =
     (if s = [] \<or> \<not> list_all is_digit s \<or> 2 ^ 64 \<le> dec_val s then None else Some (word_of_int (dec_val s)))"

text \<open>\<open>%d\<close> of an unsigned number.\<close>

definition dec_uint :: "64 word \<Rightarrow> string" where
  "dec_uint w = fmt_int 1 (uint w)"

subsection \<open>Versions\<close>

record version =
  v_Major :: "64 word"
  v_Minor :: "64 word"
  v_Patch :: "64 word"
  v_Pre :: "string list"

datatype version_error = VersionEmpty | BadBuild | BadPrerelease | NotThreeParts | BadNumber | NumberTooLarge

definition ident_char :: "char \<Rightarrow> bool" where
  "ident_char c \<longleftrightarrow> is_digit c \<or> CHR ''A'' \<le> c \<and> c \<le> CHR ''Z'' \<or> CHR ''a'' \<le> c \<and> c \<le> CHR ''z'' \<or> c = dash"

definition valid_ident :: "bool \<Rightarrow> string \<Rightarrow> bool" where
  "valid_ident prerelease i \<longleftrightarrow> i \<noteq> [] \<and> list_all ident_char i \<and>
     \<not> (prerelease \<and> list_all is_digit i \<and> 1 < length i \<and> hd i = CHR ''0'')"

definition validIdentifiers :: "string \<Rightarrow> bool \<Rightarrow> bool" where
  "validIdentifiers s prerelease \<longleftrightarrow> list_all (valid_ident prerelease) (split_byte dot s)"

definition parse_part :: "string \<Rightarrow> version_error + 64 word" where
  "parse_part part =
     (if part = [] \<or> 1 < length part \<and> hd part = CHR ''0'' \<or> \<not> list_all is_digit part then Inl BadNumber
      else case parse_uint part of None \<Rightarrow> Inl NumberTooLarge | Some n \<Rightarrow> Inr n)"

fun parse_parts :: "string list \<Rightarrow> version_error + 64 word list" where
  "parse_parts [] = Inr []"
| "parse_parts (p # ps) =
     (case parse_part p of
        Inl e \<Rightarrow> Inl e
      | Inr n \<Rightarrow> (case parse_parts ps of Inl e \<Rightarrow> Inl e | Inr ns \<Rightarrow> Inr (n # ns)))"

definition parse_core :: "string list \<Rightarrow> string \<Rightarrow> version_error + version" where
  "parse_core pre s =
     (let parts = split_byte dot s
      in if length parts \<noteq> 3 then Inl NotThreeParts
         else case parse_parts parts of
           Inl e \<Rightarrow> Inl e
         | Inr vs \<Rightarrow> Inr \<lparr>v_Major = vs ! 0, v_Minor = vs ! 1, v_Patch = vs ! 2, v_Pre = pre\<rparr>)"

definition parse_pre :: "string \<Rightarrow> version_error + version" where
  "parse_pre s =
     (let d = index_byte dash s
      in if 0 \<le> d then
           (if d = int (length s) - 1 \<or> \<not> validIdentifiers (drop (nat d + 1) s) True then Inl BadPrerelease
            else parse_core (split_byte dot (drop (nat d + 1) s)) (take (nat d) s))
         else parse_core [] s)"

definition trim_v :: "string \<Rightarrow> string" where
  "trim_v s = (case s of c # r \<Rightarrow> if c = CHR ''v'' then r else s | [] \<Rightarrow> s)"

definition ParseVersion :: "string \<Rightarrow> version_error + version" where
  "ParseVersion input =
     (let s = trim_v (trim_space input)
      in if s = [] then Inl VersionEmpty
         else let plus = index_byte plus_sign s
           in if 0 \<le> plus then
                (if plus = int (length s) - 1 \<or> \<not> validIdentifiers (drop (nat plus + 1) s) False then Inl BadBuild
                 else parse_pre (take (nat plus) s))
              else parse_pre s)"

definition version_String :: "version \<Rightarrow> string" where
  "version_String v =
     (let base = CHR ''v'' # dec_uint (v_Major v) @ dot # dec_uint (v_Minor v) @ dot # dec_uint (v_Patch v)
      in if v_Pre v = [] then base else base @ dash # join_byte dot (v_Pre v))"

text \<open>Comparing two prerelease identifiers that differ, and two lists of them.\<close>

definition compare_ident :: "string \<Rightarrow> string \<Rightarrow> int" where
  "compare_ident a b =
     (case (parse_uint a, parse_uint b) of
        (Some an, Some bn) \<Rightarrow> if an < bn then -1 else 1
      | (Some _, None) \<Rightarrow> -1
      | (None, Some _) \<Rightarrow> 1
      | (None, None) \<Rightarrow> if a < b then -1 else 1)"

fun compare_pre :: "string list \<Rightarrow> string list \<Rightarrow> int" where
  "compare_pre (a # as) (b # bs) = (if a = b then compare_pre as bs else compare_ident a b)"
| "compare_pre [] [] = 0"
| "compare_pre [] (b # bs) = -1"
| "compare_pre (a # as) [] = 1"

fun compare_numbers :: "(64 word \<times> 64 word) list \<Rightarrow> int" where
  "compare_numbers [] = 0"
| "compare_numbers ((x, y) # ps) = (if x < y then -1 else if x > y then 1 else compare_numbers ps)"

definition version_Compare :: "version \<Rightarrow> version \<Rightarrow> int" where
  "version_Compare v w =
     (let c = compare_numbers [(v_Major v, v_Major w), (v_Minor v, v_Minor w), (v_Patch v, v_Patch w)]
      in if c \<noteq> 0 then c
         else if v_Pre v = [] \<and> v_Pre w = [] then 0
         else if v_Pre v = [] then 1
         else if v_Pre w = [] then -1
         else compare_pre (v_Pre v) (v_Pre w))"

subsection \<open>Splitting and joining\<close>

lemma split_nonempty [simp]: "split_byte d s \<noteq> []"
  by (induction s) (auto split: list.split)

lemma join_Cons: "ps \<noteq> [] \<Longrightarrow> join_byte d (p # ps) = p @ d # join_byte d ps"
  by (cases ps) simp_all

lemma join_split: "join_byte d (split_byte d s) = s"
proof (induction s)
  case (Cons c s)
  then show ?case by (cases "split_byte d s"; cases "tl (split_byte d s)") (auto simp: join_Cons)
qed simp

lemma split_clean: "d \<notin> set p \<Longrightarrow> split_byte d p = [p]"
  by (induction p) auto

lemma split_append: "d \<notin> set p \<Longrightarrow> split_byte d (p @ d # s) = p # split_byte d s"
  by (induction p) auto

lemma split_join: "ps \<noteq> [] \<Longrightarrow> \<forall>p \<in> set ps. d \<notin> set p \<Longrightarrow> split_byte d (join_byte d ps) = ps"
  by (induction d ps rule: join_byte.induct) (simp_all add: split_clean split_append)

lemma index_none: "c \<notin> set s \<Longrightarrow> index_byte c s = -1"
  by (induction s) auto

lemma index_first: "c \<notin> set p \<Longrightarrow> index_byte c (p @ c # s) = int (length p)"
  by (induction p) auto

subsection \<open>Numbers\<close>

lemma dec_val_snoc: "dec_val (s @ [c]) = 10 * dec_val s + digit_val c"
  by (simp add: dec_val_def)

lemma dec_val_digits: "0 \<le> n \<Longrightarrow> n < 10 ^ w \<Longrightarrow> dec_val (digits w n) = n"
proof (induction w arbitrary: n)
  case (Suc w)
  have "n div 10 < 10 ^ w" using Suc.prems div_lt [of n "10 ^ w"] by simp
  with Suc show ?case using mod10 [of n] by (simp add: dec_val_snoc digit_val_digit)
qed (simp add: dec_val_def)

lemma ndigits_bound: "n < 10 ^ ndigits n"
proof (induction n rule: ndigits.induct)
  case (1 n)
  show ?case
  proof (cases "n < 10")
    case False
    then have "n div 10 < 10 ^ ndigits (n div 10)" using 1 by blast
    then have "n < 10 ^ Suc (ndigits (n div 10))" by simp
    then show ?thesis using False by (subst ndigits.simps) simp
  qed (subst ndigits.simps, simp)
qed

lemma ndigits_pos: "0 < ndigits n"
  by (subst ndigits.simps) simp

lemma dec_uint_digits: "dec_uint w = digits (ndigits (unat w)) (uint w)"
  using ndigits_pos [of "unat w"] by (simp add: dec_uint_def fmt_int_def max_def)

lemma dec_uint_facts: "dec_uint w \<noteq> []" "list_all is_digit (dec_uint w)" "dec_val (dec_uint w) = uint w"
proof -
  show "dec_uint w \<noteq> []" using ndigits_pos [of "unat w"] length_digits [of "ndigits (unat w)" "uint w"] unfolding dec_uint_digits
    by (metis length_greater_0_conv)
  show "list_all is_digit (dec_uint w)" unfolding dec_uint_digits by (rule digits_all)
  have "int (unat w) < int (10 ^ ndigits (unat w))" using ndigits_bound [of "unat w"] by (simp only: of_nat_less_iff)
  then show "dec_val (dec_uint w) = uint w" unfolding dec_uint_digits by (intro dec_val_digits) simp_all
qed

lemma hd_digits: "0 \<le> n \<Longrightarrow> n < 10 ^ Suc w \<Longrightarrow> hd (digits (Suc w) n) = digit (n div 10 ^ w)"
proof (induction w arbitrary: n)
  case (Suc w)
  have "n div 10 < 10 ^ Suc w" using Suc.prems div_lt [of n "10 ^ Suc w"] by simp
  with Suc have "hd (digits (Suc w) (n div 10)) = digit (n div 10 div 10 ^ w)" by simp
  moreover have "digits (Suc w) (n div 10) \<noteq> []" using length_digits [of "Suc w" "n div 10"] by (metis list.size(3) nat.distinct(1))
  ultimately have "hd (digits (Suc (Suc w)) n) = digit (n div 10 div 10 ^ w)" by (subst digits.simps(2)) (simp add: hd_append2 del: digits.simps)
  then show ?case by (simp add: zdiv_zmult2_eq)
qed simp

lemma ndigits_floor: "1 < ndigits n \<Longrightarrow> 10 ^ (ndigits n - 1) \<le> n"
proof (induction n rule: ndigits.induct)
  case (1 n)
  then have n: "\<not> n < 10" by (subst (asm) (2) ndigits.simps) (auto split: if_splits)
  then have s: "ndigits n = Suc (ndigits (n div 10))" by (subst ndigits.simps) simp
  show ?case
  proof (cases "1 < ndigits (n div 10)")
    case True
    with 1 n have "10 ^ (ndigits (n div 10) - 1) \<le> n div 10" by blast
    moreover have "ndigits n - 1 = Suc (ndigits (n div 10) - 1)" using s True by simp
    moreover have "n div 10 * 10 \<le> n" by simp
    ultimately show ?thesis by (metis mult.commute mult_le_mono1 order_trans power_Suc)
  next
    case False
    then have "ndigits (n div 10) = 1" using ndigits_pos [of "n div 10"] by simp
    with s n show ?thesis by simp
  qed
qed

lemma dec_uint_no_zero: "1 < length (dec_uint w) \<Longrightarrow> hd (dec_uint w) \<noteq> CHR ''0''"
proof
  assume l: "1 < length (dec_uint w)" and z: "hd (dec_uint w) = CHR ''0''"
  let ?n = "unat w"
  obtain k where k: "ndigits ?n = Suc k" using ndigits_pos [of ?n] by (cases "ndigits ?n") auto
  have f: "10 ^ k \<le> ?n" using ndigits_floor [of ?n] l k by (simp add: dec_uint_digits)
  have b: "int ?n < int (10 ^ Suc k)" using ndigits_bound [of ?n] k by (simp only: of_nat_less_iff)
  have "hd (digits (Suc k) (uint w)) = digit (uint w div 10 ^ k)" using b by (intro hd_digits) simp_all
  then have d: "digit (uint w div 10 ^ k) = CHR ''0''" using z k by (simp add: dec_uint_digits)
  have "int (10 ^ k) \<le> int ?n" using f by (simp only: of_nat_le_iff)
  then have lo: "1 \<le> uint w div 10 ^ k" by (simp add: pos_imp_zdiv_pos_iff int_one_le_iff_zero_less)
  have "uint w div 10 ^ k < 10" using b le_div_iff [of "10 ^ k" 10 "uint w"] by simp
  then have "digit_val (digit (uint w div 10 ^ k)) = uint w div 10 ^ k" using lo by (intro digit_val_digit) simp_all
  with d lo show False by (simp add: digit_val_def)
qed

lemma parse_dec: "parse_part (dec_uint w) = Inr w"
proof -
  have "uint w < 2 ^ 64" using uint_lt2p [of w] by simp
  then show ?thesis using dec_uint_facts [of w] dec_uint_no_zero [of w] by (simp add: parse_part_def parse_uint_def)
qed

subsection \<open>Printing and parsing\<close>

definition version_ok :: "version \<Rightarrow> bool" where
  "version_ok v \<longleftrightarrow> list_all (valid_ident True) (v_Pre v)"

lemma ident_char_ascii: "ident_char c \<Longrightarrow> of_char c < (128 :: nat) \<and> \<not> is_space (of_char c) \<and> c \<noteq> dot \<and> c \<noteq> plus_sign"
  by (auto simp: ident_char_def is_digit_def less_eq_char_def dash_def dot_def plus_sign_def is_space_def)

lemma digit_ident: "is_digit c \<Longrightarrow> ident_char c \<and> c \<noteq> dash"
  by (auto simp: ident_char_def is_digit_def dash_def less_eq_char_def)

lemma set_join: "c \<in> set (join_byte d ps) \<Longrightarrow> c = d \<or> (\<exists>p \<in> set ps. c \<in> set p)"
  by (induction d ps rule: join_byte.induct) auto

lemma join_last: "ps \<noteq> [] \<Longrightarrow> \<forall>p \<in> set ps. p \<noteq> [] \<Longrightarrow> join_byte d ps \<noteq> [] \<and> last (join_byte d ps) \<in> set (last ps)"
  by (induction d ps rule: join_byte.induct) auto

lemma parse_core_dec:
  "parse_core pre (dec_uint a @ dot # dec_uint b @ dot # dec_uint c) = Inr \<lparr>v_Major = a, v_Minor = b, v_Patch = c, v_Pre = pre\<rparr>"
proof -
  have "dot \<notin> set (dec_uint w)" for w
    using dec_uint_facts(2) [of w] digit_ident ident_char_ascii by (fastforce simp: list_all_iff)
  then have "split_byte dot (dec_uint a @ dot # dec_uint b @ dot # dec_uint c) = [dec_uint a, dec_uint b, dec_uint c]"
    by (simp add: split_append split_clean)
  then show ?thesis by (simp add: parse_core_def parse_dec)
qed

lemma parse_pre_split:
  assumes "dash \<notin> set b" "j \<noteq> []" "validIdentifiers j True"
  shows "parse_pre (b @ dash # j) = parse_core (split_byte dot j) b"
  using assms by (simp add: parse_pre_def Let_def index_first)

lemma parse_pre_print:
  assumes ok: "version_ok v"
  shows "parse_pre (tl (version_String v)) = Inr v"
proof -
  let ?b = "dec_uint (v_Major v) @ dot # dec_uint (v_Minor v) @ dot # dec_uint (v_Patch v)"
  have d: "dash \<notin> set (dec_uint w)" for w
    using dec_uint_facts(2) [of w] digit_ident by (fastforce simp: list_all_iff)
  then have b: "dash \<notin> set ?b" by (auto simp: dash_def dot_def)
  show ?thesis
  proof (cases "v_Pre v = []")
    case True
    then show ?thesis using index_none [OF b] parse_core_dec [of "[]"] by (simp add: version_String_def parse_pre_def)
  next
    case False
    let ?j = "join_byte dot (v_Pre v)"
    have v: "\<forall>p \<in> set (v_Pre v). p \<noteq> [] \<and> dot \<notin> set p"
      using ok ident_char_ascii by (fastforce simp: version_ok_def list_all_iff valid_ident_def)
    then have s: "split_byte dot ?j = v_Pre v" "?j \<noteq> []" using split_join [OF False] join_last [OF False] by auto
    have "validIdentifiers ?j True" using ok s by (simp add: validIdentifiers_def version_ok_def)
    then have "parse_pre (?b @ dash # ?j) = Inr v" using s by (simp add: parse_pre_split [OF b] parse_core_dec del: append.simps append_assoc)
    then show ?thesis using False by (simp add: version_String_def)
  qed
qed

lemma printed_ascii: "version_ok v \<Longrightarrow> \<forall>c \<in> set (version_String v). of_char c < (128 :: nat) \<and> \<not> is_space (of_char c) \<and> c \<noteq> plus_sign"
proof
  fix c
  assume v: "version_ok v" and c: "c \<in> set (version_String v)"
  have d: "is_digit x \<or> x \<notin> set (dec_uint w)" for x w using dec_uint_facts(2) [of w] by (auto simp: list_all_iff)
  have "c = CHR ''v'' \<or> c = dot \<or> ident_char c"
    using c v d digit_ident set_join [of c dot "v_Pre v"]
    by (fastforce simp: version_String_def Let_def version_ok_def list_all_iff valid_ident_def dash_def ident_char_def split: if_splits)
  then show "of_char c < (128 :: nat) \<and> \<not> is_space (of_char c) \<and> c \<noteq> plus_sign"
    using ident_char_ascii by (auto simp: dot_def is_space_def plus_sign_def)
qed

lemma parse_print:
  assumes ok: "version_ok v"
  shows "ParseVersion (version_String v) = Inr v"
proof -
  obtain r where r: "version_String v = CHR ''v'' # r" "r \<noteq> []"
    using dec_uint_facts(1) by (cases "v_Pre v = []") (simp_all add: version_String_def Let_def)
  note a = printed_ascii [OF ok, unfolded r(1)]
  have "last (CHR ''v'' # r) \<in> set (CHR ''v'' # r)" by (rule last_in_set) simp
  then have "trim_space (CHR ''v'' # r) = CHR ''v'' # r" using a by (intro trim_space_ascii) auto
  then have "trim_v (trim_space (version_String v)) = r" by (simp add: r(1) trim_v_def)
  moreover have "plus_sign \<notin> set r" using a by auto
  moreover have "parse_pre r = Inr v" using parse_pre_print [OF ok] r(1) by simp
  ultimately show ?thesis using r(2) index_none by (simp add: ParseVersion_def Let_def)
qed

text \<open>Whatever parses is well formed.\<close>

lemma parse_core_pre: "parse_core pre s = Inr v \<Longrightarrow> v_Pre v = pre"
  by (auto simp: parse_core_def Let_def split: if_splits sum.splits)

lemma parse_pre_ok: "parse_pre s = Inr v \<Longrightarrow> version_ok v"
  by (auto simp: parse_pre_def Let_def version_ok_def validIdentifiers_def dest!: parse_core_pre split: if_splits)

lemma parse_ok: "ParseVersion s = Inr v \<Longrightarrow> version_ok v"
  by (auto simp: ParseVersion_def Let_def dest: parse_pre_ok split: if_splits)

subsection \<open>The order\<close>

text \<open>
  The contract: semantic versioning puts the numbers first, a release above its prereleases, and
  compares prereleases identifier by identifier: numbers by value, then text by byte, and a proper
  prefix first. As a key in lexicographic order, with numbers read by \<open>num\<close>.
\<close>

definition ident_key :: "(string \<Rightarrow> int option) \<Rightarrow> string \<Rightarrow> nat \<times> int \<times> string" where
  "ident_key num i = (case num i of Some n \<Rightarrow> (0, n, []) | None \<Rightarrow> (1, 0, i))"

definition version_key :: "(string \<Rightarrow> int option) \<Rightarrow> version \<Rightarrow> int \<times> int \<times> int \<times> nat \<times> (nat \<times> int \<times> string) list" where
  "version_key num v = (uint (v_Major v), uint (v_Minor v), uint (v_Patch v), if v_Pre v = [] then 1 else 0, map (ident_key num) (v_Pre v))"

definition sign_of :: "'a::linorder \<Rightarrow> 'a \<Rightarrow> int" where
  "sign_of x y = (if x < y then -1 else if y < x then 1 else 0)"

definition fits_num :: "string \<Rightarrow> int option" where
  "fits_num i = map_option uint (parse_uint i)"

definition any_num :: "string \<Rightarrow> int option" where
  "any_num i = (if i \<noteq> [] \<and> list_all is_digit i then Some (dec_val i) else None)"

lemma parse_uint_Some: "parse_uint i = Some n \<longleftrightarrow> i \<noteq> [] \<and> list_all is_digit i \<and> dec_val i < 2 ^ 64 \<and> n = word_of_int (dec_val i)"
  by (auto simp: parse_uint_def)

lemma dec_val_nonneg: "0 \<le> dec_val s" if "list_all is_digit s"
  using that by (induction s rule: rev_induct) (auto simp: dec_val_snoc dec_val_def [of "[]"] is_digit_def digit_val_def less_eq_char_def)

lemma fits_num_eq: "fits_num i = (if i \<noteq> [] \<and> list_all is_digit i \<and> dec_val i < 2 ^ 64 then Some (dec_val i) else None)"
  using dec_val_nonneg [of i] by (auto simp: fits_num_def parse_uint_def uint_word_of_int take_bit_eq_mod)

text \<open>Numbers without leading zeros are determined by their value.\<close>

lemma digit_val_bounds: "is_digit c \<Longrightarrow> 0 \<le> digit_val c \<and> digit_val c \<le> 9"
  by (auto simp: is_digit_def digit_val_def less_eq_char_def)

lemma digit_val_inj: "is_digit c \<Longrightarrow> is_digit d \<Longrightarrow> digit_val c = digit_val d \<Longrightarrow> c = d"
  by (auto simp: digit_val_def is_digit_def less_eq_char_def intro: of_char_eq_iff [where 'a = nat, THEN iffD1])

lemma dec_val_upper: "list_all is_digit s \<Longrightarrow> dec_val s < 10 ^ length s"
proof (induction s rule: rev_induct)
  case (snoc c s)
  then show ?case using digit_val_bounds [of c] by (simp add: dec_val_snoc)
qed (simp add: dec_val_def)

lemma dec_val_lower: "list_all is_digit s \<Longrightarrow> s \<noteq> [] \<Longrightarrow> hd s \<noteq> CHR ''0'' \<Longrightarrow> 10 ^ (length s - 1) \<le> dec_val s"
proof (induction s rule: rev_induct)
  case (snoc c s)
  then have c: "0 \<le> digit_val c" using digit_val_bounds by simp
  show ?case
  proof (cases "s = []")
    case True
    then have "digit_val c \<noteq> digit_val CHR ''0''" using snoc.prems digit_val_inj [of c "CHR ''0''"] by (auto simp: is_digit_def)
    with c True show ?thesis by (simp add: dec_val_def digit_val_def)
  next
    case False
    then have "10 ^ (length s - 1) \<le> dec_val s" using snoc by simp
    moreover have "(10::int) ^ length s = 10 * 10 ^ (length s - 1)" using False by (simp add: power_eq_if)
    ultimately show ?thesis using c by (simp add: dec_val_snoc)
  qed
qed simp

lemma dec_val_same_length: "list_all is_digit s \<Longrightarrow> list_all is_digit t \<Longrightarrow> length s = length t \<Longrightarrow> dec_val s = dec_val t \<Longrightarrow> s = t"
proof (induction s arbitrary: t rule: rev_induct)
  case (snoc c s)
  then obtain u d where t: "t = u @ [d]" by (cases t rule: rev_cases) auto
  have c: "is_digit c" "list_all is_digit s" and d: "is_digit d" "list_all is_digit u" and l: "length s = length u"
    using snoc.prems by (simp_all add: t)
  have e: "10 * dec_val s + digit_val c = 10 * dec_val u + digit_val d" using snoc.prems by (simp add: t dec_val_snoc)
  have b: "0 \<le> digit_val c" "digit_val c < 10" "0 \<le> digit_val d" "digit_val d < 10"
    using digit_val_bounds [OF c(1)] digit_val_bounds [OF d(1)] by simp_all
  have v: "digit_val c = digit_val d" "dec_val s = dec_val u"
    using arg_cong [OF e, of "\<lambda>x. x mod 10"] arg_cong [OF e, of "\<lambda>x. x div 10"] b by simp_all
  then have "c = d" "s = u" using digit_val_inj [OF c(1) d(1)] snoc.IH [OF c(2) d(2) l] by simp_all
  then show ?case by (simp add: t)
qed simp

lemma dec_val_inj:
  assumes s: "list_all is_digit s" "valid_ident True s" and t: "list_all is_digit t" "valid_ident True t" and e: "dec_val s = dec_val t"
  shows "s = t"
proof -
  have *: "length x \<le> length y" if x: "list_all is_digit x" "valid_ident True x" and y: "list_all is_digit y" "valid_ident True y" and xy: "dec_val x = dec_val y" for x y
  proof (rule ccontr)
    assume n: "\<not> length x \<le> length y"
    have "y \<noteq> []" using y by (simp add: valid_ident_def)
    with n have l: "1 < length x" "length y \<le> length x - 1" by (cases y; simp)+
    then have "10 ^ (length x - 1) \<le> dec_val x" using x by (intro dec_val_lower) (auto simp: valid_ident_def)
    moreover have "dec_val y < 10 ^ length y" by (rule dec_val_upper [OF y(1)])
    moreover have "(10::int) ^ length y \<le> 10 ^ (length x - 1)" using l(2) by (rule power_increasing) simp
    ultimately show False using xy by linarith
  qed
  from * [OF s t e] * [OF t s e [symmetric]] show ?thesis using dec_val_same_length [OF s(1) t(1) _ e] by simp
qed

definition reads_value :: "(string \<Rightarrow> int option) \<Rightarrow> bool" where
  "reads_value num \<longleftrightarrow> (\<forall>i n. num i = Some n \<longrightarrow> list_all is_digit i \<and> n = dec_val i)"

lemma reads_value: "reads_value fits_num" "reads_value any_num"
  by (simp_all add: reads_value_def fits_num_eq any_num_def)

lemma ident_key_inj:
  assumes n: "reads_value num" and a: "valid_ident True a" and b: "valid_ident True b" and e: "ident_key num a = ident_key num b"
  shows "a = b"
proof (cases "num a")
  case None
  with e show ?thesis by (cases "num b") (simp_all add: ident_key_def)
next
  case (Some x)
  with e have "num b = Some x" by (cases "num b") (simp_all add: ident_key_def)
  with Some n have "list_all is_digit a" "list_all is_digit b" "dec_val a = dec_val b" by (metis reads_value_def)+
  then show ?thesis using dec_val_inj a b by blast
qed

lemma sign_swap: "sign_of y x = - sign_of x y"
  by (auto simp: sign_of_def)

lemma sign_le: "sign_of x y \<le> 0 \<longleftrightarrow> x \<le> y"
  by (auto simp: sign_of_def)

lemma sign_zero: "sign_of x y = 0 \<longleftrightarrow> x = y"
  by (auto simp: sign_of_def)

lemma sign_Cons: "sign_of (x # xs) (y # ys) = (if x = y then sign_of xs ys else sign_of x y)"
  by (auto simp: sign_of_def)

lemma sign_pair: "sign_of (x, xs) (y, ys) = (if x = y then sign_of xs ys else sign_of x y)"
  by (auto simp: sign_of_def)

lemma compare_ident_key:
  assumes "valid_ident True a" "valid_ident True b" "a \<noteq> b"
  shows "compare_ident a b = sign_of (ident_key fits_num a) (ident_key fits_num b)"
proof -
  have "parse_uint i = Some n \<Longrightarrow> fits_num i = Some (uint n)" "parse_uint i = None \<Longrightarrow> fits_num i = None" for i n by (simp_all add: fits_num_def)
  moreover have "ident_key fits_num a \<noteq> ident_key fits_num b" using assms ident_key_inj [OF reads_value(1)] by blast
  ultimately show ?thesis
    by (auto simp: compare_ident_def ident_key_def sign_of_def word_less_def split: option.split)
qed

lemma compare_pre_key:
  "list_all (valid_ident True) as \<Longrightarrow> list_all (valid_ident True) bs \<Longrightarrow>
     compare_pre as bs = sign_of (map (ident_key fits_num) as) (map (ident_key fits_num) bs)"
  proof (induction as bs rule: compare_pre.induct)
  case (1 a as b bs)
  then have "ident_key fits_num a = ident_key fits_num b \<longleftrightarrow> a = b" using ident_key_inj [OF reads_value(1)] by auto
  with 1 show ?case by (simp add: sign_Cons compare_ident_key)
qed (simp_all add: sign_of_def)

lemma compare_key:
  assumes "version_ok v" "version_ok w"
  shows "version_Compare v w = sign_of (version_key fits_num v) (version_key fits_num w)"
  using compare_pre_key [of "v_Pre v" "v_Pre w"] assms
  by (auto simp: version_Compare_def version_key_def sign_pair version_ok_def word_less_def Let_def sign_of_def [where 'a = int] sign_of_def [where 'a = nat])

lemma version_key_inj:
  assumes n: "reads_value num" and v: "version_ok v" "version_ok w" and e: "version_key num v = version_key num w"
  shows "v = w"
proof -
  have "inj_on (ident_key num) {i. valid_ident True i}" using ident_key_inj [OF n] by (auto simp: inj_on_def)
  then have "v_Pre v = v_Pre w" using e v
    by (auto simp: version_key_def version_ok_def list_all_iff intro!: map_inj_on [where f = "ident_key num"] elim: inj_on_subset)
  moreover have "v_Major v = v_Major w" "v_Minor v = v_Minor w" "v_Patch v = v_Patch w"
    using e by (simp_all add: version_key_def word_uint_eq_iff)
  ultimately show ?thesis by simp
qed

subsection \<open>Properties\<close>

text \<open>
  C39. Printing and parsing agree. What a well-formed version prints as parses to that version, and
  whatever parses is well formed, so that printing what was parsed and parsing again changes nothing.
\<close>

theorem version_roundtrip:
  "(version_ok v \<longrightarrow> ParseVersion (version_String v) = Inr v) \<and>
   (ParseVersion s = Inr w \<longrightarrow> version_ok w \<and> ParseVersion (version_String w) = Inr w)"
  using parse_print parse_ok by blast

definition demo_version :: version where
  "demo_version = \<lparr>v_Major = 1, v_Minor = 20, v_Patch = 3, v_Pre = [''rc'', ''1'']\<rparr>"

lemma demo_version_ok: "version_ok demo_version"
  by code_simp

theorem version_roundtrip_witness: "ParseVersion (version_String demo_version) = Inr demo_version"
  using version_roundtrip [of demo_version] demo_version_ok by simp

text \<open>
  C40. Releases are compared as semantic versioning orders them. On well-formed versions the
  comparison is that of a linear order: it is the comparison of keys, it answers equal exactly for
  equal versions, swapping its arguments turns its answer round, and it is transitive. As long as
  the numeric identifiers of the prereleases fit 64 bits it is the order of semantic versioning.
\<close>

theorem version_order:
  assumes ok: "version_ok u" "version_ok v" "version_ok w"
  shows "(version_Compare u v = 0 \<longleftrightarrow> u = v) \<and> version_Compare v u = - version_Compare u v \<and>
    (version_Compare u v \<le> 0 \<and> version_Compare v w \<le> 0 \<longrightarrow> version_Compare u w \<le> 0) \<and>
    ((\<forall>i \<in> set (v_Pre u) \<union> set (v_Pre v). list_all is_digit i \<longrightarrow> dec_val i < 2 ^ 64) \<longrightarrow>
       version_Compare u v = sign_of (version_key any_num u) (version_key any_num v))"
proof (intro conjI impI)
  note k = compare_key [OF ok(1,2)] compare_key [OF ok(2,1)] compare_key [OF ok(2,3)] compare_key [OF ok(1,3)]
  show "version_Compare u v = 0 \<longleftrightarrow> u = v"
    using version_key_inj [OF reads_value(1) ok(1,2)] by (auto simp: k sign_zero)
  show "version_Compare v u = - version_Compare u v" unfolding k by (rule sign_swap)
  show "version_Compare u v \<le> 0 \<and> version_Compare v w \<le> 0 \<Longrightarrow> version_Compare u w \<le> 0"
    unfolding k sign_le by (blast intro: order_trans)
  assume f: "\<forall>i \<in> set (v_Pre u) \<union> set (v_Pre v). list_all is_digit i \<longrightarrow> dec_val i < 2 ^ 64"
  then have "\<forall>i \<in> set (v_Pre u) \<union> set (v_Pre v). ident_key fits_num i = ident_key any_num i"
    by (auto simp: ident_key_def fits_num_eq any_num_def)
  then have "version_key fits_num u = version_key any_num u" "version_key fits_num v = version_key any_num v"
    by (simp_all add: version_key_def)
  then show "version_Compare u v = sign_of (version_key any_num u) (version_key any_num v)" by (simp add: k)
qed

theorem version_order_witness:
  "version_Compare demo_version (demo_version\<lparr>v_Pre := []\<rparr>) = - version_Compare (demo_version\<lparr>v_Pre := []\<rparr>) demo_version \<and>
   version_Compare demo_version (demo_version\<lparr>v_Pre := []\<rparr>) = -1"
proof -
  have "version_ok (demo_version\<lparr>v_Pre := []\<rparr>)" "version_Compare demo_version (demo_version\<lparr>v_Pre := []\<rparr>) = -1" by code_simp+
  with version_order [OF demo_version_ok this(1) this(1)] show ?thesis by simp
qed

text \<open>Numbers that do not fit are compared as text, against the order of semantic versioning.\<close>

lemma big_numbers_as_text:
  defines "a \<equiv> \<lparr>v_Major = 1, v_Minor = 0, v_Patch = 0, v_Pre = [''99999999999999999999'']\<rparr>"
    and "b \<equiv> \<lparr>v_Major = 1, v_Minor = 0, v_Patch = 0, v_Pre = [''100000000000000000000'']\<rparr>"
  shows "version_ok a \<and> version_ok b \<and> version_Compare b a = -1 \<and> sign_of (version_key any_num b) (version_key any_num a) = 1"
  unfolding a_def b_def by code_simp

end
