(* ===== verification/Web_Session.thy ===== *)
theory Web_Session
  imports Store_Time Base64 Console_State
begin

text \<open>
  The local web console (\<open>internal/console\<close>): the sessions of the browser
  (\<open>session.go\<close>), the handshakes in flight (\<open>login.go\<close>) and the claim of the owner (\<open>owner.go\<close>).
  A statement on the database either applies as a whole or fails without effect; a fault other than
  \<open>TxOk\<close> makes it fail.
\<close>

subsection \<open>Timestamps to the second\<close>

text \<open>\<open>time.RFC3339\<close> in UTC.\<close>

definition FormatRFC3339 :: "time \<Rightarrow> string" where
  "FormatRFC3339 t =
     fmt_date (date_of_days (day_of t)) @ CHR ''T'' # digits 2 (hour_of t) @ CHR '':'' # digits 2 (minute_of t) @
     CHR '':'' # digits 2 (second_of t) @ ''Z''"

lemma parse_FormatRFC3339:
  assumes "time_ok t"
  shows "parse_rfc3339 (FormatRFC3339 t) = Some (t div second * second)"
proof -
  obtain y m d where dd: "date_of_days (day_of t) = (y, m, d)" by (metis prod_cases3)
  note D = time_ok_date [OF assms dd]
  have "FormatRFC3339 t = fmt_date (y, m, d) @ CHR ''T'' # digits 2 (hour_of t) @ CHR '':'' # digits 2 (minute_of t) @
     CHR '':'' # digits 2 (second_of t) @ ''Z''"
    by (simp add: FormatRFC3339_def dd)
  moreover have "getfrac ''Z'' = (0, ''Z'')" by code_simp
  moreover have "1 \<le> d \<and> d \<le> days_in y m" using D by (simp add: valid_date_def)
  moreover have "instant y m d (hour_of t) (minute_of t) (second_of t) 0 = t div second * second"
  proof -
    have "instant y m d (hour_of t) (minute_of t) (second_of t) (milli_of t * milli) = t div milli * milli"
      using clock_fields [of t] D by (simp add: instant_def)
    moreover have "t div second = t div milli div 1000" using zdiv_zmult2_eq [of 1000 t milli] by (simp add: milli_def second_def)
    moreover have "t div milli = t div milli div 1000 * 1000 + milli_of t"
      unfolding milli_of_def by simp
    then have "t div milli * milli = t div milli div 1000 * (1000 * milli) + milli_of t * milli"
      by (metis (no_types, lifting) distrib_right mult.assoc)
    moreover have "1000 * milli = second" by (simp add: milli_def second_def)
    ultimately show ?thesis by (simp add: instant_def)
  qed
  ultimately show ?thesis
    using D field_ranges(1-3) [of t]
    by (simp add: parse_rfc3339_def getdate_fmt getnum_digits getnum2_digits in_range_Some getzone_def)
qed

subsection \<open>Sessions\<close>

definition minute :: int where "minute = 60 * second"
definition sessionTTL :: int where "sessionTTL = 12 * 60 * minute"

text \<open>A session as the handlers see it; without an expiry it does not end.\<close>

record session =
  se_ID :: string
  se_Token :: string
  se_CookieName :: string
  se_ExpiresAt :: "time option"
  se_Me :: string

definition CloudCookie :: "session \<Rightarrow> string" where
  "CloudCookie s = se_CookieName s @ ''='' @ se_Token s"

record session_row =
  sn_id :: string
  sn_token :: string
  sn_cookie :: string
  sn_me :: string
  sn_created :: string
  sn_expires :: string

definition newSessionID :: "entropy \<Rightarrow> string option" where
  "newSessionID rnd = map_option (b64_encode b64_url False) (rand_read 16 rnd)"

definition newSessionStore :: "tx_fault \<Rightarrow> time \<Rightarrow> session_row list \<Rightarrow> session_row list" where
  "newSessionStore f now t = (if f = TxOk then snd (sql_delete (\<lambda>r. sn_expires r < FormatRFC3339 now) t) else t)"

definition session_create :: "tx_fault \<Rightarrow> entropy \<Rightarrow> time \<Rightarrow> string \<Rightarrow> string \<Rightarrow> string \<Rightarrow> session_row list \<Rightarrow> session option \<times> session_row list" where
  "session_create f rnd now token cookie me t =
     (case newSessionID rnd of
        None \<Rightarrow> (None, t)
      | Some i \<Rightarrow>
          (let e = now + sessionTTL
           in if f \<noteq> TxOk \<or> tab sn_id t i \<noteq> None then (None, t)
              else (Some \<lparr>se_ID = i, se_Token = token, se_CookieName = cookie, se_ExpiresAt = Some e, se_Me = me\<rparr>,
                    t @ [\<lparr>sn_id = i, sn_token = token, sn_cookie = cookie, sn_me = me, sn_created = FormatRFC3339 now,
                          sn_expires = FormatRFC3339 e\<rparr>])))"

definition session_delete :: "tx_fault \<Rightarrow> string \<Rightarrow> session_row list \<Rightarrow> session_row list" where
  "session_delete f i t = (if f = TxOk then snd (sql_delete (\<lambda>r. sn_id r = i) t) else t)"

definition session_of_row :: "session_row \<Rightarrow> session" where
  "session_of_row r = \<lparr>se_ID = sn_id r, se_Token = sn_token r, se_CookieName = sn_cookie r,
     se_ExpiresAt = parse_rfc3339 (sn_expires r), se_Me = sn_me r\<rparr>"

text \<open>Reading a session; one that has lapsed is deleted. The two faults are those of the read and of the deletion.\<close>

definition session_get :: "tx_fault \<Rightarrow> tx_fault \<Rightarrow> time \<Rightarrow> string \<Rightarrow> session_row list \<Rightarrow> session option \<times> session_row list" where
  "session_get f fd now i t =
     (if i = [] \<or> f \<noteq> TxOk then (None, t)
      else case tab sn_id t i of
        None \<Rightarrow> (None, t)
      | Some r \<Rightarrow>
          (let s = session_of_row r
           in if (case se_ExpiresAt s of None \<Rightarrow> False | Some e \<Rightarrow> e < now) then (None, session_delete fd i t) else (Some s, t)))"

subsection \<open>Handshakes\<close>

record login_tx =
  lt_verifier :: string
  lt_redirectURI :: string
  lt_created :: time

type_synonym login_store = "(string, login_tx) gomap"

definition login_put :: "time \<Rightarrow> string \<Rightarrow> login_tx \<Rightarrow> login_store \<Rightarrow> login_store" where
  "login_put now state tx l = AList.update state tx (filter (\<lambda>(_, v). \<not> 10 * minute < now - lt_created v) l)"

definition login_take :: "string \<Rightarrow> login_store \<Rightarrow> login_tx option \<times> login_store" where
  "login_take state l = (map_of l state, if map_of l state = None then l else AList.delete state l)"

definition randToken :: "nat \<Rightarrow> entropy \<Rightarrow> string option" where
  "randToken n rnd = map_option (b64_encode b64_url False) (rand_read n rnd)"

definition s256 :: "hash \<Rightarrow> string \<Rightarrow> string" where
  "s256 sha256 verifier = b64_encode b64_url False (sha256 (bytes_of verifier))"

subsection \<open>The owner\<close>

record owner =
  ow_Email :: string
  ow_Me :: string
  ow_BoundAt :: "time option"

record owner_row =
  or_email :: string
  or_me :: string
  or_bound_at :: string

text \<open>\<open>strings.ToLower\<close> is the argument \<open>lower\<close>.\<close>

definition canonicalEmail :: "(string \<Rightarrow> string) \<Rightarrow> string \<Rightarrow> string" where
  "canonicalEmail lower email = lower (trim_space email)"

datatype owner_error = OwnerRead | OwnerWrite | OwnerMissing

definition owner_get :: "(string \<Rightarrow> string) \<Rightarrow> tx_fault \<Rightarrow> owner_row option \<Rightarrow> owner_error + owner option" where
  "owner_get lower f t =
     (if f \<noteq> TxOk then Inl OwnerRead
      else Inr (map_option (\<lambda>r. \<lparr>ow_Email = canonicalEmail lower (or_email r), ow_Me = or_me r, ow_BoundAt = parse_rfc3339 (or_bound_at r)\<rparr>) t))"

definition bindIfAbsent :: "(string \<Rightarrow> string) \<Rightarrow> tx_fault \<Rightarrow> tx_fault \<Rightarrow> time \<Rightarrow> string \<Rightarrow> string \<Rightarrow> owner_row option \<Rightarrow>
    (owner_error + owner) \<times> owner_row option" where
  "bindIfAbsent lower f fr now email me t =
     (if f \<noteq> TxOk then (Inl OwnerWrite, t)
      else (let t = (case t of Some r \<Rightarrow> Some r
                     | None \<Rightarrow> Some \<lparr>or_email = canonicalEmail lower email, or_me = me, or_bound_at = FormatRFC3339 now\<rparr>)
            in case owner_get lower fr t of
              Inl e \<Rightarrow> (Inl e, t)
            | Inr None \<Rightarrow> (Inl OwnerMissing, t)
            | Inr (Some ow) \<Rightarrow> (Inr ow, t)))"

end
