(* ===== verification/Cloud_Client.thy ===== *)
theory Cloud_Client
  imports Console_State
begin

text \<open>
  The HTTP client of the cloud service (\<open>internal/cloud/client.go\<close>, \<open>workspace.go\<close>). The network is an
  argument: it answers a call with a transport error or with a status and a body. So are the JSON
  encodings; what the client makes of the answers is written out.
\<close>

subsection \<open>Query strings\<close>

text \<open>\<open>url.QueryEscape\<close> and \<open>url.Values.Encode\<close>, for values that are set once.\<close>

definition hex_digit :: "nat \<Rightarrow> char" where
  "hex_digit n = char_of (if n < 10 then 48 + n else 55 + n)"

definition unreserved :: "char \<Rightarrow> bool" where
  "unreserved c \<longleftrightarrow> (CHR ''a'' \<le> c \<and> c \<le> CHR ''z'') \<or> (CHR ''A'' \<le> c \<and> c \<le> CHR ''Z'') \<or> (CHR ''0'' \<le> c \<and> c \<le> CHR ''9'') \<or>
     c \<in> set ''-_.~''"

definition escape_byte :: "char \<Rightarrow> string" where
  "escape_byte c = (if unreserved c then [c] else if c = CHR '' '' then ''+''
     else CHR ''%'' # [hex_digit (of_char c div 16), hex_digit (of_char c mod 16)])"

definition QueryEscape :: "string \<Rightarrow> string" where
  "QueryEscape s = concat (map escape_byte s)"

fun join_amp :: "string list \<Rightarrow> string" where
  "join_amp [] = []"
| "join_amp [x] = x"
| "join_amp (x # y # r) = x @ ''&'' @ join_amp (y # r)"

definition values_Encode :: "(string \<times> string) list \<Rightarrow> string" where
  "values_Encode vs = join_amp (map (\<lambda>(k, v). QueryEscape k @ ''='' @ QueryEscape v) (sort_key fst vs))"

subsection \<open>Calls and errors\<close>

record http_call =
  hc_method :: string
  hc_url :: string
  hc_cookie :: string
  hc_type :: string
  hc_body :: string

type_synonym transport = "http_call \<Rightarrow> string + nat \<times> string"

record api_error =
  ap_Status :: nat
  ap_Code :: string
  ap_Message :: string

text \<open>
  \<open>WorkspaceExists\<close> is the tag \<open>errWorkspaceExists\<close> around the message of another error, which it
  hides from the tests below; \<open>StoreError\<close> is an error of the console's own database.
\<close>

datatype cloud_error = NetError string | APIError api_error | BodyError string | DeliveryFailed string | NothingSent
  | WorkspaceExists cloud_error | StoreError string

record local_token =
  lk_SessionToken :: string
  lk_CookieName :: string

record workspace =
  ws_ID :: string
  ws_Host :: string
  ws_Phase :: string
  ws_Rows :: int
  ws_TeamHash :: string

record bootstrap =
  bs_RefreshToken :: string
  bs_RunespaceID :: string

text \<open>
  The JSON encodings. The decoder of an error body leaves empty what it does not find; the answer to
  an invite holds the addresses sent to and the errors of the others.
\<close>

record cloud_codec =
  cj_error :: "string \<Rightarrow> string \<times> string"
  cj_token :: "string \<Rightarrow> string + local_token"
  cj_sent :: "string \<Rightarrow> string + string list \<times> string list"
  cj_workspace :: "string \<Rightarrow> string + workspace"
  cj_bootstrap :: "string \<Rightarrow> string + bootstrap"
  cj_access :: "string \<Rightarrow> string + string"
  cj_invite :: "string \<Rightarrow> string \<Rightarrow> string \<Rightarrow> string \<Rightarrow> string \<Rightarrow> string"
  cj_team_hash :: "string \<Rightarrow> string"
  cj_refresh :: "string \<Rightarrow> string"

record cloud_client =
  cl_base :: string
  cl_codec :: cloud_codec

definition cloud_New :: "cloud_codec \<Rightarrow> string \<Rightarrow> cloud_client" where
  "cloud_New cj baseURL = \<lparr>cl_base = rev (dropWhile (\<lambda>c. c = CHR ''/'') (rev baseURL)), cl_codec = cj\<rparr>"

fun cloud_error_Error :: "cloud_error \<Rightarrow> string" where
  "cloud_error_Error (NetError e) = e"
| "cloud_error_Error (APIError a) = ''runespace-cloud '' @ digits (ndigits (ap_Status a)) (int (ap_Status a)) @ '' '' @ ap_Code a @ '': '' @ ap_Message a"
| "cloud_error_Error (BodyError e) = e"
| "cloud_error_Error (DeliveryFailed e) = ''cloud accepted the request but delivery failed: '' @ e"
| "cloud_error_Error NothingSent = ''cloud reported no invite sent''"
| "cloud_error_Error (WorkspaceExists e) = ''runespace already exists: '' @ cloud_error_Error e"
| "cloud_error_Error (StoreError e) = e"

definition IsUnauthorized :: "cloud_error \<Rightarrow> bool" where
  "IsUnauthorized e = (case e of APIError a \<Rightarrow> ap_Status a = 401 | _ \<Rightarrow> False)"

definition IsNotFound :: "cloud_error \<Rightarrow> bool" where
  "IsNotFound e = (case e of APIError a \<Rightarrow> ap_Status a = 404 | _ \<Rightarrow> False)"

definition apiErrorFrom :: "cloud_codec \<Rightarrow> nat \<Rightarrow> string \<Rightarrow> api_error" where
  "apiErrorFrom cj status body =
     (case cj_error cj body of (code, msg) \<Rightarrow>
        \<lparr>ap_Status = status, ap_Code = code, ap_Message = (if msg = [] then trim_space body else msg)\<rparr>)"

text \<open>\<open>raw\<close> reads at most a mebibyte of the body.\<close>

definition raw_call :: "transport \<Rightarrow> http_call \<Rightarrow> cloud_error + nat \<times> string" where
  "raw_call tr q = (case tr q of Inl e \<Rightarrow> Inl (NetError e) | Inr (status, body) \<Rightarrow> Inr (status, take (2 ^ 20) body))"

definition do_call :: "transport \<Rightarrow> cloud_client \<Rightarrow> (string \<Rightarrow> string + 'a) \<Rightarrow> http_call \<Rightarrow> cloud_error + 'a" where
  "do_call tr cl dec q =
     (case raw_call tr q of
        Inl e \<Rightarrow> Inl e
      | Inr (status, body) \<Rightarrow>
          if status div 100 \<noteq> 2 then Inl (APIError (apiErrorFrom (cl_codec cl) status body))
          else (case dec body of Inl e \<Rightarrow> Inl (BodyError e) | Inr x \<Rightarrow> Inr x))"

abbreviation no_body :: "string \<Rightarrow> string + unit" where "no_body \<equiv> \<lambda>_. Inr ()"

definition call :: "cloud_client \<Rightarrow> string \<Rightarrow> string \<Rightarrow> string \<Rightarrow> string \<Rightarrow> string \<Rightarrow> http_call" where
  "call cl m path cookie ctype body =
     \<lparr>hc_method = m, hc_url = cl_base cl @ path, hc_cookie = cookie, hc_type = ctype, hc_body = body\<rparr>"

subsection \<open>The login\<close>

definition AuthorizeURL :: "cloud_client \<Rightarrow> string \<Rightarrow> string \<Rightarrow> string \<Rightarrow> string" where
  "AuthorizeURL cl redirectURI state challenge =
     cl_base cl @ ''/auth/local/authorize?'' @
     values_Encode [(''redirect_uri'', redirectURI), (''state'', state), (''code_challenge'', challenge),
       (''code_challenge_method'', ''S256'')]"

definition ExchangeLocalToken :: "transport \<Rightarrow> cloud_client \<Rightarrow> string \<Rightarrow> string \<Rightarrow> string \<Rightarrow> cloud_error + local_token" where
  "ExchangeLocalToken tr cl code verifier redirectURI =
     do_call tr cl (cj_token (cl_codec cl))
       (call cl ''POST'' ''/auth/local/token'' [] ''application/x-www-form-urlencoded''
          (values_Encode [(''code'', code), (''code_verifier'', verifier), (''redirect_uri'', redirectURI)]))"

text \<open>\<open>None\<close> is the answer of a cloud session that no longer exists.\<close>

definition Me :: "transport \<Rightarrow> cloud_client \<Rightarrow> string \<Rightarrow> cloud_error + string option" where
  "Me tr cl cookie =
     (case raw_call tr (call cl ''GET'' ''/api/v1/me'' cookie [] []) of
        Inl e \<Rightarrow> Inl e
      | Inr (status, body) \<Rightarrow>
          if status = 401 then Inr None
          else if status div 100 \<noteq> 2 then Inl (APIError (apiErrorFrom (cl_codec cl) status body))
          else Inr (Some body))"

definition SendInvite :: "transport \<Rightarrow> cloud_client \<Rightarrow> string \<Rightarrow> string \<Rightarrow> string \<Rightarrow> string \<Rightarrow> string \<Rightarrow> string \<Rightarrow> cloud_error option" where
  "SendInvite tr cl cookie toEmail toName reg inviterName expiry =
     (case do_call tr cl (cj_sent (cl_codec cl))
        (call cl ''POST'' ''/api/v1/invites'' cookie ''application/json''
           (cj_invite (cl_codec cl) inviterName expiry toEmail toName reg)) of
        Inl e \<Rightarrow> Some e
      | Inr (sent, failed) \<Rightarrow>
          if sent \<noteq> [] then None
          else Some (case failed of [] \<Rightarrow> NothingSent | e # _ \<Rightarrow> DeliveryFailed e))"

definition RevokeSession :: "cloud_client \<Rightarrow> string \<Rightarrow> cloud_error option" where
  "RevokeSession cl cookie = None"

subsection \<open>The runespace\<close>

definition CreateWorkspace :: "transport \<Rightarrow> cloud_client \<Rightarrow> string \<Rightarrow> string \<Rightarrow> cloud_error + workspace" where
  "CreateWorkspace tr cl cookie teamHash =
     do_call tr cl (cj_workspace (cl_codec cl))
       (if teamHash = [] then call cl ''POST'' ''/api/v1/runespace'' cookie [] []
        else call cl ''POST'' ''/api/v1/runespace'' cookie ''application/json'' (cj_team_hash (cl_codec cl) teamHash))"

definition GetWorkspace :: "transport \<Rightarrow> cloud_client \<Rightarrow> string \<Rightarrow> cloud_error + workspace option" where
  "GetWorkspace tr cl cookie =
     (case do_call tr cl (cj_workspace (cl_codec cl)) (call cl ''GET'' ''/api/v1/runespace'' cookie [] []) of
        Inl e \<Rightarrow> if IsNotFound e then Inr None else Inl e
      | Inr w \<Rightarrow> Inr (Some w))"

definition DeleteWorkspace :: "transport \<Rightarrow> cloud_client \<Rightarrow> string \<Rightarrow> cloud_error + unit" where
  "DeleteWorkspace tr cl cookie = do_call tr cl no_body (call cl ''DELETE'' ''/api/v1/runespace'' cookie [] [])"

definition StopWorkspace :: "transport \<Rightarrow> cloud_client \<Rightarrow> string \<Rightarrow> cloud_error + unit" where
  "StopWorkspace tr cl cookie = do_call tr cl no_body (call cl ''POST'' ''/api/v1/runespace/stop'' cookie [] [])"

definition StartWorkspace :: "transport \<Rightarrow> cloud_client \<Rightarrow> string \<Rightarrow> cloud_error + unit" where
  "StartWorkspace tr cl cookie = do_call tr cl no_body (call cl ''POST'' ''/api/v1/runespace/start'' cookie [] [])"

definition BootstrapAccess :: "transport \<Rightarrow> cloud_client \<Rightarrow> string \<Rightarrow> cloud_error + bootstrap" where
  "BootstrapAccess tr cl cookie =
     do_call tr cl (cj_bootstrap (cl_codec cl)) (call cl ''POST'' ''/api/v1/runespace/access/bootstrap'' cookie [] [])"

definition ExchangeAccessToken :: "transport \<Rightarrow> cloud_client \<Rightarrow> string \<Rightarrow> cloud_error + string" where
  "ExchangeAccessToken tr cl refreshToken =
     do_call tr cl (cj_access (cl_codec cl))
       (call cl ''POST'' ''/auth/runespace/token'' [] ''application/json'' (cj_refresh (cl_codec cl) refreshToken))"

end
