(* ===== verification/Web_Service.thy ===== *)
theory Web_Service
  imports Web_Session Cloud_Client Console_Handlers
begin

text \<open>
  The handlers of the local web console (\<open>internal/console/service.go\<close>, \<open>login.go\<close>, \<open>update.go\<close>,
  \<open>invite.go\<close>, \<open>workspace.go\<close>) and its routes, as the daemon wires them: the domain API is that of
  \<open>Console_Handlers\<close>, and the registrar of the owner is \<open>SetOrgAdmin\<close>. Lower-casing, case folding, the
  JSON decoders, the network and the update manager are arguments. The handlers see the data-plane
  manager through its answers and leave it commands, which are listed in order.
\<close>

subsection \<open>State, configuration and surroundings\<close>

datatype manager_call = DpConnect string | DpDisconnect | DpPause | DpResume

record web =
  w_console :: console
  w_sessions :: "session_row list"
  w_owner :: "owner_row option"
  w_logins :: login_store
  w_updates :: "string list"
  w_manager :: "manager_call list"

datatype json_value = JString string | JOther string

datatype update_state = UpdateIdle | UpdateQueued | UpdateRunning | UpdateFailed | UpdateSucceeded

datatype update_error = ErrUpdateUnavailable | ErrUpdatePending | ErrUpdateStale | ErrUpdateInvalid | OtherUpdateError string

record update_status =
  us_CurrentVersion :: string
  us_TargetVersion :: string
  us_UpdateAvailable :: bool
  us_Capable :: bool
  us_State :: update_state

text \<open>The manager of updates answers according to what was requested before.\<close>

record update_manager =
  um_Check :: "string list \<Rightarrow> string + update_status"
  um_Request :: "string list \<Rightarrow> string \<Rightarrow> update_error option"

record web_conf =
  wc_cloud :: cloud_client
  wc_webBase :: string
  wc_selfBase :: string
  wc_teamHash :: string
  wc_lower :: "string \<Rightarrow> string"
  wc_fold :: "string \<Rightarrow> string \<Rightarrow> bool"
  wc_email :: "string \<Rightarrow> string option"
  wc_name :: "string \<Rightarrow> string option"
  wc_object :: "string \<Rightarrow> (string \<times> json_value) list option"
  wc_sha256 :: hash
  wc_registration :: "registration \<Rightarrow> string"
  wc_domain :: json_codec
  wc_ttl :: int
  wc_endpoint :: string
  wc_inviter :: "self_invite_issuer option"
  wc_updates :: "update_manager option"
  wc_update_body :: "string \<Rightarrow> string option"

text \<open>
  What surrounds a request: \<open>we_en\<close> holds clock, faults and entropy, of which the web console uses the
  slots from 50 on and the domain API those before and from 1000 on; the network, call by call; and what the
  data-plane manager answers.
\<close>

record workspace_manager =
  wm_Connect :: "string \<Rightarrow> cloud_error + workspace"
  wm_AuthExpired :: bool
  wm_LastConnectError :: "string \<times> time"

record web_env =
  we_en :: env
  we_http :: "nat \<Rightarrow> transport"
  we_manager :: workspace_manager

record web_request =
  wq_method :: string
  wq_path :: "string list"
  wq_fetch_site :: string
  wq_cookie :: "string option"
  wq_query :: "string \<Rightarrow> string"
  wq_body :: string

subsection \<open>Replies\<close>

datatype cookie_change = KeepCookie | ClearCookie | SetCookie string

datatype me_view = MeRaw string | MeObject "(string \<times> json_value) list"

record workspace_view =
  wv_phase :: "string option"
  wv_endpointUrl :: "string option"
  wv_rows :: "int option"
  wv_engine_connected :: bool
  wv_last_connect_error :: "(string \<times> time) option"
  wv_orphaned :: bool
  wv_reconnect :: bool

record session_view =
  sv_expires_at :: "time option"
  sv_engine_connected :: bool
  sv_me :: "me_view option"
  sv_is_owner :: bool
  sv_owner_email :: "string option"

datatype body = NoBody | ErrorBody string detail | Page | Healthy | Location string | AuthorizeBody string
  | LoggedOut bool | LoggedIn session_view | SentBody string | DomainBody | WorkspaceBody workspace_view
  | StatusBody update_status | QueuedBody string

record web_reply =
  rp_status :: nat
  rp_cookie :: cookie_change
  rp_body :: body

definition writeJSON :: "nat \<Rightarrow> body \<Rightarrow> web_reply" where
  "writeJSON st b = \<lparr>rp_status = st, rp_cookie = KeepCookie, rp_body = b\<rparr>"

definition writeError :: "nat \<Rightarrow> string \<Rightarrow> string \<Rightarrow> web_reply" where
  "writeError st code msg = writeJSON st (ErrorBody code (Text msg))"

definition notFoundJSON :: web_reply where "notFoundJSON = writeError 404 ''NOT_FOUND'' ''not found''"

definition not_logged_in :: web_reply where "not_logged_in = writeError 401 ''SESSION_INVALID'' ''not logged in''"

subsection \<open>The principal\<close>

definition rawEmailFromMe :: "web_conf \<Rightarrow> string \<Rightarrow> string" where
  "rawEmailFromMe W me = (if me = [] then [] else case wc_email W me of None \<Rightarrow> [] | Some e \<Rightarrow> e)"

definition emailFromMe :: "web_conf \<Rightarrow> string \<Rightarrow> string" where
  "emailFromMe W me = canonicalEmail (wc_lower W) (rawEmailFromMe W me)"

definition nameFromMe :: "web_conf \<Rightarrow> string \<Rightarrow> string \<Rightarrow> string" where
  "nameFromMe W me fallback = (case wc_name W me of Some n \<Rightarrow> if trim_space n \<noteq> [] then n else fallback | None \<Rightarrow> fallback)"

definition meWithAvatar :: "web_conf \<Rightarrow> string \<Rightarrow> me_view" where
  "meWithAvatar W me =
     (case wc_object W me of
        None \<Rightarrow> MeRaw me
      | Some m \<Rightarrow>
          MeObject (if map_of m ''avatar'' \<noteq> None then m
            else case map_of m ''picture'' of
              Some (JString pic) \<Rightarrow> if pic \<noteq> [] then AList.update ''avatar'' (JString pic) m else m
            | _ \<Rightarrow> m))"

subsection \<open>Guards\<close>

text \<open>The session of a request; the slots \<open>k\<close> and \<open>k + 1\<close> are those of the read and of dropping a lapsed one.\<close>

definition sessionFrom :: "env \<Rightarrow> nat \<Rightarrow> web_request \<Rightarrow> web \<Rightarrow> session option \<times> web" where
  "sessionFrom en k q w =
     (case wq_cookie q of
        None \<Rightarrow> (None, w)
      | Some i \<Rightarrow>
          (case session_get (en_fault en k) (en_fault en (k + 1)) (en_clock en k) i (w_sessions w) of
             (s, t) \<Rightarrow> (s, w\<lparr>w_sessions := t\<rparr>)))"

type_synonym handler = "web_env \<Rightarrow> web_request \<Rightarrow> web \<Rightarrow> web_reply \<times> web"

definition origin :: "handler \<Rightarrow> handler" where
  "origin h E q w =
     (if wq_fetch_site q \<in> {[], ''same-origin'', ''none''} then h E q w
      else (writeError 403 ''ORIGIN_FORBIDDEN'' ''cross-origin request refused'', w))"

definition requireSession :: "handler \<Rightarrow> handler" where
  "requireSession h E q w =
     (case sessionFrom (we_en E) 50 q w of
        (None, w) \<Rightarrow> (not_logged_in, w)
      | (Some _, w) \<Rightarrow> h E q w)"

definition ownerEmailFromRequest :: "web_conf \<Rightarrow> env \<Rightarrow> nat \<Rightarrow> web_request \<Rightarrow> web \<Rightarrow> string \<times> web" where
  "ownerEmailFromRequest W en k q w =
     (case sessionFrom en k q w of
        (None, w) \<Rightarrow> ([], w)
      | (Some s, w) \<Rightarrow> (canonicalEmail (wc_lower W) (emailFromMe W (se_Me s)), w))"

definition requireOwner :: "web_conf \<Rightarrow> handler \<Rightarrow> handler" where
  "requireOwner W h E q w =
     (case owner_get (wc_lower W) (en_fault (we_en E) 52) (w_owner w) of
        Inl _ \<Rightarrow> (writeError 503 ''OWNER_UNAVAILABLE'' ''console owner could not be verified'', w)
      | Inr None \<Rightarrow> (writeError 403 ''OWNER_REQUIRED'' ''console owner access is required'', w)
      | Inr (Some ow) \<Rightarrow>
          if ow_Email ow = [] then (writeError 403 ''OWNER_REQUIRED'' ''console owner access is required'', w)
          else (case ownerEmailFromRequest W (we_en E) 53 q w of
             (e, w) \<Rightarrow> if ow_Email ow \<noteq> e then (writeError 403 ''OWNER_REQUIRED'' ''console owner access is required'', w)
                       else h E q w))"

subsection \<open>Login\<close>

definition failCallback :: "web_conf \<Rightarrow> string \<Rightarrow> web_reply" where
  "failCallback W code = \<lparr>rp_status = 302, rp_cookie = ClearCookie, rp_body = Location (wc_selfBase W @ ''/login?error='' @ QueryEscape code)\<rparr>"

definition handleAuthStart :: "web_conf \<Rightarrow> handler" where
  "handleAuthStart W E q w =
     (let en = we_en E
      in case randToken 32 (en_rand en 63) of
        None \<Rightarrow> (writeError 500 ''INTERNAL_ERROR'' ''generate verifier'', w)
      | Some verifier \<Rightarrow>
          (case randToken 16 (en_rand en 64) of
             None \<Rightarrow> (writeError 500 ''INTERNAL_ERROR'' ''generate state'', w)
           | Some state \<Rightarrow>
               (let redirectURI = wc_selfBase W @ ''/auth/callback'';
                    tx = \<lparr>lt_verifier = verifier, lt_redirectURI = redirectURI, lt_created = en_clock en 65\<rparr>;
                    w = w\<lparr>w_logins := login_put (en_clock en 65) state tx (w_logins w)\<rparr>;
                    authorizeURL = AuthorizeURL (wc_cloud W) redirectURI state (s256 (wc_sha256 W) verifier)
                in (writeJSON 200 (AuthorizeBody (wc_webBase W @ ''/signin?authorize='' @ QueryEscape authorizeURL)), w))))"

text \<open>\<open>registerOwnerBestEffort\<close> with the daemon's registrar.\<close>

definition registerOwner :: "string \<Rightarrow> web \<Rightarrow> web" where
  "registerOwner email w =
     w\<lparr>w_console := (w_console w)\<lparr>c_groups := SetOrgAdmin email (c_groups (w_console w))\<rparr>\<rparr>"

text \<open>The principal of a fresh cloud session, as far as the cloud tells.\<close>

definition principal :: "web_conf \<Rightarrow> web_env \<Rightarrow> local_token \<Rightarrow> string" where
  "principal W E tok =
     (case Me (we_http E 1) (wc_cloud W) (lk_CookieName tok @ ''='' @ lk_SessionToken tok) of
        Inr (Some raw) \<Rightarrow> raw
      | _ \<Rightarrow> ''null'')"

definition open_session :: "web_conf \<Rightarrow> env \<Rightarrow> local_token \<Rightarrow> string \<Rightarrow> web \<Rightarrow> web_reply \<times> web" where
  "open_session W en tok me w =
     (case session_create (en_fault en 62) (en_rand en 62) (en_clock en 62) (lk_SessionToken tok) (lk_CookieName tok) me (w_sessions w) of
        (None, t) \<Rightarrow> (failCallback W ''exchange_failed'', w\<lparr>w_sessions := t\<rparr>)
      | (Some s, t) \<Rightarrow>
          (\<lparr>rp_status = 302, rp_cookie = SetCookie (se_ID s), rp_body = Location (wc_selfBase W @ ''/'')\<rparr>, w\<lparr>w_sessions := t\<rparr>))"

definition handleCallback :: "web_conf \<Rightarrow> handler" where
  "handleCallback W E q w =
     (let en = we_en E; code = wq_query q ''code''; state = wq_query q ''state''
      in if wq_query q ''error'' \<noteq> [] then (failCallback W ''provider'', w)
      else if code = [] \<or> state = [] then (failCallback W ''invalid_state'', w)
      else case login_take state (w_logins w) of
        (None, l) \<Rightarrow> (failCallback W ''invalid_state'', w\<lparr>w_logins := l\<rparr>)
      | (Some tx, l) \<Rightarrow>
          (let w = w\<lparr>w_logins := l\<rparr>
           in case ExchangeLocalToken (we_http E 0) (wc_cloud W) code (lt_verifier tx) (lt_redirectURI tx) of
             Inl _ \<Rightarrow> (failCallback W ''exchange_failed'', w)
           | Inr tok \<Rightarrow>
               (let me = principal W E tok; email = emailFromMe W me
                in if email = [] then (failCallback W ''no_identity'', w)
                else case bindIfAbsent (wc_lower W) (en_fault en 60) (en_fault en 61) (en_clock en 60) email me (w_owner w) of
                  (Inl _, t) \<Rightarrow> (failCallback W ''exchange_failed'', w\<lparr>w_owner := t\<rparr>)
                | (Inr own, t) \<Rightarrow>
                    (let w = w\<lparr>w_owner := t\<rparr>;
                         w = (if wc_fold W (ow_Email own) email then registerOwner email w else w)
                     in open_session W en tok me w))))"

definition handleLogout :: handler where
  "handleLogout E q w =
     (case wq_cookie q of
        None \<Rightarrow> (\<lparr>rp_status = 204, rp_cookie = ClearCookie, rp_body = NoBody\<rparr>, w)
      | Some i \<Rightarrow>
          (let w = snd (sessionFrom (we_en E) 57 q w)
           in (\<lparr>rp_status = 204, rp_cookie = ClearCookie, rp_body = NoBody\<rparr>,
               w\<lparr>w_sessions := session_delete (en_fault (we_en E) 59) i (w_sessions w)\<rparr>)))"

subsection \<open>The session page\<close>

definition EngineReady :: "web \<Rightarrow> bool" where
  "EngineReady w \<longleftrightarrow> c_engine (w_console w) \<noteq> None"

definition writeLoggedOut :: "web \<Rightarrow> web_reply" where
  "writeLoggedOut w = writeJSON 200 (LoggedOut (EngineReady w))"

definition owner_status :: "web_conf \<Rightarrow> env \<Rightarrow> string \<Rightarrow> web \<Rightarrow> bool \<times> string option" where
  "owner_status W en me w =
     (case owner_get (wc_lower W) (en_fault en 66) (w_owner w) of
        Inr (Some ow) \<Rightarrow> if wc_fold W (ow_Email ow) (emailFromMe W me) then (True, None) else (False, Some (ow_Email ow))
      | _ \<Rightarrow> (True, None))"

definition handleSession :: "web_conf \<Rightarrow> handler" where
  "handleSession W E q w =
     (case sessionFrom (we_en E) 57 q w of
        (None, w) \<Rightarrow> (writeLoggedOut w, w)
      | (Some s, w) \<Rightarrow>
          if Me (we_http E 1) (wc_cloud W) (CloudCookie s) = Inr None then
            (let w = w\<lparr>w_sessions := session_delete (en_fault (we_en E) 59) (se_ID s) (w_sessions w)\<rparr>
             in ((writeLoggedOut w)\<lparr>rp_cookie := ClearCookie\<rparr>, w))
          else (case owner_status W (we_en E) (se_Me s) w of
            (isOwner, ownerEmail) \<Rightarrow>
              (writeJSON 200 (LoggedIn \<lparr>sv_expires_at = se_ExpiresAt s, sv_engine_connected = EngineReady w,
                 sv_me = (if se_Me s = [] then None else Some (meWithAvatar W (se_Me s))),
                 sv_is_owner = isOwner, sv_owner_email = ownerEmail\<rparr>), w)))"

subsection \<open>Updates\<close>

text \<open>An accepted request is logged with the owner, whose session is read once more.\<close>

definition handleUpdateStatus :: "update_manager \<Rightarrow> handler" where
  "handleUpdateStatus um E q w =
     (case um_Check um (w_updates w) of
        Inl _ \<Rightarrow> (writeError 502 ''UPDATE_CHECK_FAILED'' ''could not check for updates'', w)
      | Inr st \<Rightarrow> (writeJSON 200 (StatusBody st), w))"

definition decodeUpdateRequest :: "web_conf \<Rightarrow> string \<Rightarrow> string option" where
  "decodeUpdateRequest W raw = (if length raw > 1024 then None else wc_update_body W raw)"

definition handleUpdateRequest :: "web_conf \<Rightarrow> update_manager \<Rightarrow> handler" where
  "handleUpdateRequest W um E q w =
     (case decodeUpdateRequest W (wq_body q) of
        None \<Rightarrow> (writeError 400 ''UPDATE_REQUEST_INVALID'' ''version is required'', w)
      | Some v \<Rightarrow>
          (let v = trim_space v
           in if v = [] then (writeError 400 ''UPDATE_REQUEST_INVALID'' ''version is required'', w)
              else (let r = um_Request um (w_updates w) v; w = w\<lparr>w_updates := w_updates w @ [v]\<rparr>
                in (case r of
                      Some ErrUpdatePending \<Rightarrow> writeError 409 ''UPDATE_ALREADY_PENDING'' ''an update is already pending''
                    | Some ErrUpdateStale \<Rightarrow> writeError 409 ''UPDATE_NOT_AVAILABLE'' ''the requested update is no longer available''
                    | Some ErrUpdateUnavailable \<Rightarrow> writeError 409 ''UPDATE_NOT_AVAILABLE'' ''the requested update is no longer available''
                    | Some ErrUpdateInvalid \<Rightarrow> writeError 400 ''UPDATE_REQUEST_INVALID'' ''invalid update version''
                    | Some (OtherUpdateError _) \<Rightarrow> writeError 503 ''UPDATE_REQUEST_FAILED'' ''could not schedule the update''
                    | None \<Rightarrow> writeJSON 202 (QueuedBody v),
                    if r = None then snd (ownerEmailFromRequest W (we_en E) 57 q w) else w))))"

end
