(* ===== verification/Web_Routes.thy ===== *)
theory Web_Routes
  imports Web_Service
begin

text \<open>
  The remaining handlers of the local web console, the workspace and the operator's own invite
  (\<open>internal/console/workspace.go\<close>, \<open>invite.go\<close>), and the routes with their guards
  (\<open>NewHandler\<close> in \<open>service.go\<close>). The routes of the workspace are mounted, as the daemon wires a connector.
\<close>

subsection \<open>Errors of the cloud\<close>

definition conflict :: "cloud_error \<Rightarrow> bool" where
  "conflict e = (case e of APIError a \<Rightarrow> ap_Status a = 409 | _ \<Rightarrow> False)"

definition writeCloudError :: "env \<Rightarrow> session \<Rightarrow> cloud_error \<Rightarrow> web \<Rightarrow> web_reply \<times> web" where
  "writeCloudError en s e w =
     (if IsUnauthorized e then
        (writeError 401 ''SESSION_INVALID'' ''cloud session expired'',
         w\<lparr>w_sessions := session_delete (en_fault en 59) (se_ID s) (w_sessions w)\<rparr>)
      else (if IsNotFound e then writeError 404 ''WORKSPACE_NOT_FOUND'' ''no runespace''
        else if (case e of WorkspaceExists _ \<Rightarrow> True | _ \<Rightarrow> False) then writeError 409 ''WORKSPACE_ALREADY_EXISTS'' ''workspace already exists''
        else if conflict e then
          writeError 409 ''WORKSPACE_INVALID_PHASE'' ''workspace is not in a state that allows this action''
        else writeError 502 ''CLOUD_UPSTREAM_ERROR'' ''cloud service is temporarily unavailable; please retry'', w))"

subsection \<open>The workspace\<close>

definition consolePhase :: "string \<Rightarrow> string" where
  "consolePhase p = (if p \<in> {''provisioning'', ''starting'', ''running'', ''stopping'', ''stopped'', ''deleting'', ''error''} then p else ''error'')"

definition workspaceView :: "workspace \<Rightarrow> workspace_view" where
  "workspaceView ws =
     \<lparr>wv_phase = Some (consolePhase (ws_Phase ws)),
      wv_endpointUrl = (if ws_Host ws \<noteq> [] then Some (''https://'' @ ws_Host ws @ '':443'') else None),
      wv_rows = (if consolePhase (ws_Phase ws) = ''running'' then Some (ws_Rows ws) else None),
      wv_engine_connected = False, wv_last_connect_error = None, wv_orphaned = False, wv_reconnect = False\<rparr>"

definition no_view :: workspace_view where
  "no_view = \<lparr>wv_phase = None, wv_endpointUrl = None, wv_rows = None, wv_engine_connected = False,
     wv_last_connect_error = None, wv_orphaned = False, wv_reconnect = False\<rparr>"

definition setStatus :: "web_env \<Rightarrow> web \<Rightarrow> workspace_view \<Rightarrow> workspace_view" where
  "setStatus E w v =
     (let connected = EngineReady w; last = wm_LastConnectError (we_manager E)
      in v\<lparr>wv_engine_connected := connected,
           wv_last_connect_error := (if \<not> connected \<and> fst last \<noteq> [] then Some last else None)\<rparr>)"

definition orphaned :: "web_conf \<Rightarrow> workspace \<Rightarrow> bool" where
  "orphaned W ws \<longleftrightarrow> wc_teamHash W \<noteq> [] \<and> ws_TeamHash ws \<noteq> [] \<and> ws_TeamHash ws \<noteq> wc_teamHash W"

definition command :: "manager_call \<Rightarrow> web \<Rightarrow> web" where
  "command k w = w\<lparr>w_manager := w_manager w @ [k]\<rparr>"

text \<open>A handler that reads the session again.\<close>

definition with_session :: "(session \<Rightarrow> handler) \<Rightarrow> handler" where
  "with_session h E q w =
     (case sessionFrom (we_en E) 57 q w of
        (None, w) \<Rightarrow> (not_logged_in, w)
      | (Some s, w) \<Rightarrow> h s E q w)"

definition writeWorkspaceAccepted :: "web_conf \<Rightarrow> session \<Rightarrow> web_env \<Rightarrow> web \<Rightarrow> web_reply" where
  "writeWorkspaceAccepted W s E w =
     writeJSON 202 (WorkspaceBody (setStatus E w
       (case GetWorkspace (we_http E 1) (wc_cloud W) (CloudCookie s) of Inr (Some ws) \<Rightarrow> workspaceView ws | _ \<Rightarrow> no_view)))"

definition handleWorkspaceConnect :: "handler" where
  "handleWorkspaceConnect = with_session (\<lambda>s E q w.
     (let w = command (DpConnect (CloudCookie s)) w
      in case wm_Connect (we_manager E) (CloudCookie s) of
        Inl e \<Rightarrow> writeCloudError (we_en E) s e w
      | Inr ws \<Rightarrow> (writeJSON 202 (WorkspaceBody (setStatus E w (workspaceView ws))), w)))"

definition handleWorkspaceDelete :: "web_conf \<Rightarrow> handler" where
  "handleWorkspaceDelete W = with_session (\<lambda>s E q w.
     (case DeleteWorkspace (we_http E 0) (wc_cloud W) (CloudCookie s) of
        Inl e \<Rightarrow> (case writeCloudError (we_en E) s e w of (r, w) \<Rightarrow> (r, command DpDisconnect w))
      | Inr _ \<Rightarrow> (writeWorkspaceAccepted W s E w, command DpDisconnect w)))"

definition handleWorkspaceStatus :: "web_conf \<Rightarrow> handler" where
  "handleWorkspaceStatus W = with_session (\<lambda>s E q w.
     (case GetWorkspace (we_http E 0) (wc_cloud W) (CloudCookie s) of
        Inl e \<Rightarrow> writeCloudError (we_en E) s e w
      | Inr None \<Rightarrow> (writeError 404 ''WORKSPACE_NOT_FOUND'' ''no runespace yet'', w)
      | Inr (Some ws) \<Rightarrow>
          (let v = setStatus E w (workspaceView ws)
           in (writeJSON 200 (WorkspaceBody
                 (if orphaned W ws then v\<lparr>wv_orphaned := True\<rparr>
                  else if wm_AuthExpired (we_manager E) then v\<lparr>wv_reconnect := True\<rparr>
                  else v)), w))))"

definition handleWorkspaceStop :: "web_conf \<Rightarrow> handler" where
  "handleWorkspaceStop W = with_session (\<lambda>s E q w.
     (case StopWorkspace (we_http E 0) (wc_cloud W) (CloudCookie s) of
        Inl e \<Rightarrow> writeCloudError (we_en E) s e w
      | Inr _ \<Rightarrow> (let w = command DpPause w in (writeWorkspaceAccepted W s E w, w))))"

definition handleWorkspaceStart :: "web_conf \<Rightarrow> handler" where
  "handleWorkspaceStart W = with_session (\<lambda>s E q w.
     (case StartWorkspace (we_http E 0) (wc_cloud W) (CloudCookie s) of
        Inl e \<Rightarrow> writeCloudError (we_en E) s e w
      | Inr _ \<Rightarrow> (let w = command DpResume w in (writeWorkspaceAccepted W s E w, w))))"

subsection \<open>The operator's own invite\<close>

definition handleInvite :: "web_conf \<Rightarrow> self_invite_issuer \<Rightarrow> handler" where
  "handleInvite W si = with_session (\<lambda>s E q w.
     (let email = emailFromMe W (se_Me s); mailTo = rawEmailFromMe W (se_Me s); nam = nameFromMe W (se_Me s) email
      in if email = [] then (writeError 502 ''IDENTITY_UNAVAILABLE'' ''could not read the operator email from the session'', w)
      else case IssueSelfInvite (wc_sha256 W) si (we_en E) email nam (w_console w) of
        (Inl e, c) \<Rightarrow> (writeJSON 500 (ErrorBody ''INVITE_ISSUE_FAILED'' e), w\<lparr>w_console := c\<rparr>)
      | (Inr (bundle, conn), c) \<Rightarrow>
          (let w = w\<lparr>w_console := c\<rparr>;
               reg = Encode (wc_registration W) \<lparr>rg_Version = 0, rg_Endpoint = co_ConsoleEndpoint conn, rg_Token = cb_Handle bundle,
                 rg_CASHA256 = co_CAPemSHA256 conn\<rparr>
           in case SendInvite (we_http E 2) (wc_cloud W) (CloudCookie s) mailTo nam reg nam (cb_ExpiresAt bundle) of
             Some e \<Rightarrow> writeCloudError (we_en E) s e w
           | None \<Rightarrow> (writeJSON 200 (SentBody mailTo), w))))"

subsection \<open>The domain API\<close>

text \<open>Mail goes through the cloud as the operator, whose cookie the request carries.\<close>

definition operator_mail :: "web_conf \<Rightarrow> web_env \<Rightarrow> string \<Rightarrow> config \<Rightarrow> mail_conf" where
  "operator_mail W E cookie cfg =
     \<lparr>mc_mailer = cloudMailer_SendInvite
        (\<lambda>cookie to nam reg expiry.
           map_option (\<lambda>e. Text (cloud_error_Error e)) (SendInvite (we_http E 2) (wc_cloud W) cookie to nam reg [] expiry))
        (wc_registration W) (wc_sha256 W) (we_en E) cfg cookie (wc_endpoint W),
      mc_ttl = wc_ttl W\<rparr>"

definition withOperator :: "web_conf \<Rightarrow> handler" where
  "withOperator W E q w =
     (case (case sessionFrom (we_en E) 55 q w of
              (None, w) \<Rightarrow> ([], [], w)
            | (Some s, w) \<Rightarrow> (emailFromMe W (se_Me s), CloudCookie s, w)) of
        (actor, cookie, w) \<Rightarrow>
          (case api_serve (wc_lower W) (wc_domain W) (operator_mail W E cookie (c_cfg (w_console w))) (we_en E)
              \<lparr>rq_method = wq_method q, rq_path = drop 2 (wq_path q), rq_query = wq_query q, rq_body = wq_body q, rq_actor = actor\<rparr>
              (w_console w) of
             (st, c) \<Rightarrow> (writeJSON st DomainBody, w\<lparr>w_console := c\<rparr>)))"

subsection \<open>Routes\<close>

definition get_or_head :: "web_request \<Rightarrow> bool" where
  "get_or_head q \<longleftrightarrow> wq_method q \<in> {''GET'', ''HEAD''}"

text \<open>
  The routes under \<open>/api/v1/\<close>, all behind the same guards: the more specific ones win, the domain API
  takes the rest. Those of the updates and of the invite are there when their collaborator is.
\<close>

definition api_handler :: "web_conf \<Rightarrow> web_request \<Rightarrow> handler" where
  "api_handler W q =
     (let p = drop 2 (wq_path q); m = wq_method q
      in if p = [''system'', ''update''] \<and> get_or_head q \<and> wc_updates W \<noteq> None then
           requireOwner W (handleUpdateStatus (the (wc_updates W)))
         else if p = [''system'', ''update''] \<and> m = ''POST'' \<and> wc_updates W \<noteq> None then
           requireOwner W (handleUpdateRequest W (the (wc_updates W)))
         else if p = [''workspace''] \<and> m = ''POST'' then handleWorkspaceConnect
         else if p = [''workspace''] \<and> get_or_head q then handleWorkspaceStatus W
         else if p = [''workspace''] \<and> m = ''DELETE'' then handleWorkspaceDelete W
         else if p = [''workspace'', ''stop''] \<and> m = ''POST'' then handleWorkspaceStop W
         else if p = [''workspace'', ''start''] \<and> m = ''POST'' then handleWorkspaceStart W
         else if p = [''invite''] \<and> m = ''POST'' \<and> wc_inviter W \<noteq> None then handleInvite W (the (wc_inviter W))
         else withOperator W)"

text \<open>
  The whole handler. A path is given by its segments; one that names a subtree without its slash
  is redirected to it, and what no route takes is the page of the console.
\<close>

definition web_serve :: "web_conf \<Rightarrow> handler" where
  "web_serve W E q w =
     (case wq_path q of
        [a] \<Rightarrow>
          if a = ''healthz'' \<and> get_or_head q then (writeJSON 200 Healthy, w)
          else if a \<in> {''api'', ''console'', ''auth''} then (writeJSON 301 (Location (CHR ''/'' # a @ ''/'')), w)
          else (writeJSON 200 Page, w)
      | a # b # r \<Rightarrow>
          if a = ''api'' then
            (if b = ''v1'' then if r = [] then (writeJSON 301 (Location ''/api/v1/''), w) else origin (requireSession (api_handler W q)) E q w
             else (notFoundJSON, w))
          else if a = ''auth'' then
            (if b = ''callback'' \<and> r = [] \<and> get_or_head q then handleCallback W E q w else (notFoundJSON, w))
          else if a = ''console'' then
            (if b = ''session'' \<and> r = [] \<and> get_or_head q then origin (handleSession W) E q w
             else if b = ''auth'' \<and> r = [''start''] \<and> wq_method q = ''POST'' then origin (handleAuthStart W) E q w
             else if b = ''auth'' \<and> r = [''logout''] \<and> wq_method q = ''POST'' then origin handleLogout E q w
             else (notFoundJSON, w))
          else (writeJSON 200 Page, w)
      | [] \<Rightarrow> (writeJSON 200 Page, w))"

text \<open>
  \<open>NewHandler\<close> at the start of the daemon: lapsed sessions go, handshakes in flight are forgotten, and
  the claim, if it can be read, names the org admin anew.
\<close>

definition NewHandler :: "web_conf \<Rightarrow> env \<Rightarrow> web \<Rightarrow> web" where
  "NewHandler W en w =
     (let w = w\<lparr>w_sessions := newSessionStore (en_fault en 67) (en_clock en 67) (w_sessions w), w_logins := []\<rparr>
      in case owner_get (wc_lower W) (en_fault en 68) (w_owner w) of
        Inr (Some ow) \<Rightarrow> registerOwner (ow_Email ow) w
      | _ \<Rightarrow> w)"

end
