(* ===== verification/Web_Frame.thy ===== *)
theory Web_Frame
  imports Web_Routes Console_Frame
begin

text \<open>
  Histories of the web console: requests of browsers, requests of the gRPC plane and restarts, and
  the facts every handler shares. What survives the few ways in which a handler can change the state
  survives every history.
\<close>

subsection \<open>Histories\<close>

datatype web_event = WRequest web_env web_request | WPlane crypto_prims env rpc | WRestart env

text \<open>A new process reloads the stores from their tables, without engine and without org admin.\<close>

definition reloaded :: "env \<Rightarrow> console \<Rightarrow> console" where
  "reloaded en c = c\<lparr>c_tokens := tokens_restart (c_tokens c), c_groups := SetOrgAdmin [] (groups_restart (c_groups c)),
     c_members := members_restart (c_members c), c_invites := invites_boot (en_fault en 69) (en_clock en 69) (c_invites c),
     c_engine := None, c_tagStats := NoTagStats\<rparr>"

fun web_step :: "web_conf \<Rightarrow> web_event \<Rightarrow> web \<Rightarrow> web" where
  "web_step W (WRequest E q) w = snd (web_serve W E q w)"
| "web_step W (WPlane P en q) w = w\<lparr>w_console := snd (serve P en q (w_console w))\<rparr>"
| "web_step W (WRestart en) w = NewHandler W en (w\<lparr>w_console := reloaded en (w_console w)\<rparr>)"

abbreviation web_run :: "web_conf \<Rightarrow> web_event list \<Rightarrow> web \<Rightarrow> web" where
  "web_run W \<equiv> fold (web_step W)"

text \<open>Years have four digits, also after the lifetime of a session or of an invite.\<close>

definition web_clocks :: "web_conf \<Rightarrow> env \<Rightarrow> bool" where
  "web_clocks W en \<longleftrightarrow> clocks_ok (wc_ttl W) en \<and> clocks_ok sessionTTL en \<and>
     (case wc_inviter W of None \<Rightarrow> True | Some si \<Rightarrow> clocks_ok (si_ttl si) en)"

fun web_event_ok :: "web_conf \<Rightarrow> web_event \<Rightarrow> bool" where
  "web_event_ok W (WRequest E q) \<longleftrightarrow> web_clocks W (we_en E)"
| "web_event_ok W (WPlane P en q) \<longleftrightarrow> clock_ok (P, en, q)"
| "web_event_ok W (WRestart en) \<longleftrightarrow> web_clocks W en"

subsection \<open>Sessions\<close>

definition live_at :: "time \<Rightarrow> session_row \<Rightarrow> bool" where
  "live_at now r \<longleftrightarrow> (case parse_rfc3339 (sn_expires r) of None \<Rightarrow> True | Some e \<Rightarrow> now \<le> e)"

text \<open>The cookie of the request names a session that has not lapsed.\<close>

definition signed_in :: "time \<Rightarrow> web_request \<Rightarrow> web \<Rightarrow> session_row \<Rightarrow> bool" where
  "signed_in now q w r \<longleftrightarrow> wq_cookie q = Some (sn_id r) \<and> r \<in> set (w_sessions w) \<and> live_at now r"

lemma tab_SomeD: "tab key t k = Some r \<Longrightarrow> r \<in> set t \<and> key r = k"
  by (auto simp: tab_def dest: map_of_SomeD)

lemma session_get_Some:
  assumes "session_get f fd now i t = (Some s, t')"
  shows "t' = t \<and> (\<exists>r \<in> set t. sn_id r = i \<and> s = session_of_row r \<and> live_at now r)"
proof -
  obtain r where r: "tab sn_id t i = Some r" "t' = t" "s = session_of_row r" "live_at now r"
    using assms by (auto simp: session_get_def Let_def live_at_def session_of_row_def not_less split: if_splits option.splits)
  then show ?thesis using tab_SomeD [OF r(1)] by auto
qed

lemma session_get_None: "session_get f fd now i t = (None, t') \<Longrightarrow> t' = t \<or> t' = snd (sql_delete (\<lambda>r. sn_id r = i) t)"
  by (auto simp: session_get_def session_delete_def Let_def split: if_splits option.splits)

lemma sessionFrom_Some:
  assumes "sessionFrom en k q w = (Some s, w')"
  shows "w' = w \<and> (\<exists>r. signed_in (en_clock en k) q w r \<and> s = session_of_row r)"
  using assms session_get_Some [of "en_fault en k" "en_fault en (k + 1)" "en_clock en k" "the (wq_cookie q)" "w_sessions w"]
  by (fastforce simp: sessionFrom_def signed_in_def split: option.splits prod.splits)

lemma sessionFrom_None:
  assumes "sessionFrom en k q w = (None, w')"
  shows "w' = w \<or> (\<exists>p. w' = w\<lparr>w_sessions := snd (sql_delete p (w_sessions w))\<rparr>)"
  using assms by (auto simp: sessionFrom_def dest!: session_get_None split: option.splits prod.splits)

text \<open>The guards: without a session of this origin nothing but the sessions changes.\<close>

definition same_origin :: "web_request \<Rightarrow> bool" where
  "same_origin q \<longleftrightarrow> wq_fetch_site q \<in> {[], ''same-origin'', ''none''}"

lemma guarded:
  assumes "origin (requireSession h) E q w = (a, w')"
  obtains "w' = w" | p where "w' = w\<lparr>w_sessions := snd (sql_delete p (w_sessions w))\<rparr>"
  | r where "same_origin q" "signed_in (en_clock (we_en E) 50) q w r" "h E q w = (a, w')"
proof (cases "same_origin q")
  case True
  obtain s v where sv: "sessionFrom (we_en E) 50 q w = (s, v)" by (cases "sessionFrom (we_en E) 50 q w")
  show ?thesis
  proof (cases s)
    case None
    then show ?thesis using assms sv sessionFrom_None [of "we_en E" 50 q w v] True that(1,2)
      by (auto simp: origin_def same_origin_def requireSession_def)
  next
    case (Some x)
    then show ?thesis using assms sv sessionFrom_Some [of "we_en E" 50 q w x v] True that(3)
      by (auto simp: origin_def same_origin_def requireSession_def)
  qed
qed (use assms that(1) in \<open>simp add: origin_def same_origin_def\<close>)

subsection \<open>Invariants of the web console\<close>

text \<open>No request of the gRPC plane names the org admin.\<close>

lemma plane_admin: "gs_orgAdmin (c_groups (snd (serve P en q c))) = gs_orgAdmin (c_groups c)"
proof (cases "\<exists>t. bearer q = Some t")
  case True
  then obtain t where "bearer q = Some t" by blast
  from serve_bearer [OF this, of en c P] show ?thesis by (simp add: same_stores_def validated_def)
next
  case False
  then consider (idle) "q = GetCACert \<or> (\<exists>h. q = LookupWrap h)" | (act) t where "q = ReportActivation t" | (unwrap) h where "q = UnwrapInvite h"
    by (cases q) auto
  then show ?thesis
  proof cases
    case idle
    from serve_idle [OF this, of c P en] show ?thesis by (simp add: same_stores_def)
  next
    case (act t)
    from serve_activation [of P en t c] show ?thesis by (auto simp: act same_stores_def)
  next
    case (unwrap h)
    obtain r c' where rc: "rpc_Unwrap en h c = (r, c')" by (cases "rpc_Unwrap en h c")
    then have "c_groups c' = c_groups c" by (cases rule: rpc_Unwrap_cases) (simp_all add: same_stores_def)
    with rc show ?thesis by (simp add: unwrap)
  qed
qed

locale web_invariant =
  fixes W :: web_conf and P :: "web \<Rightarrow> bool"
  assumes drop: "P w \<Longrightarrow> P (w\<lparr>w_sessions := snd (sql_delete g (w_sessions w))\<rparr>)"
    and add: "P w \<Longrightarrow> time_ok now \<Longrightarrow> time_ok (now + sessionTTL) \<Longrightarrow> session_create f rnd now tok ck me (w_sessions w) = (x, t) \<Longrightarrow>
      P (w\<lparr>w_sessions := t\<rparr>)"
    and logins: "P w \<Longrightarrow> P (w\<lparr>w_logins := l\<rparr>)"
    and updates: "P w \<Longrightarrow> P (w\<lparr>w_updates := us\<rparr>)"
    and manager: "P w \<Longrightarrow> P (w\<lparr>w_manager := ks\<rparr>)"
    and console: "P w \<Longrightarrow> gs_orgAdmin (c_groups c) = gs_orgAdmin (c_groups (w_console w)) \<Longrightarrow>
      (plane_ok (w_console w) \<Longrightarrow> plane_ok c) \<Longrightarrow> P (w\<lparr>w_console := c\<rparr>)"
    and reload: "P w \<Longrightarrow> time_ok (en_clock en 69) \<Longrightarrow> P (w\<lparr>w_console := reloaded en (w_console w)\<rparr>)"
    and claim: "P w \<Longrightarrow> w_owner w = None \<Longrightarrow> P (w\<lparr>w_owner := Some r\<rparr>)"
    and register: "P w \<Longrightarrow> w_owner w = Some r \<Longrightarrow>
      canonicalEmail (wc_lower W) (or_email r) = e \<or> wc_fold W (canonicalEmail (wc_lower W) (or_email r)) e \<Longrightarrow> P (registerOwner e w)"
begin

lemma delete_ok: "P w \<Longrightarrow> P (w\<lparr>w_sessions := session_delete f i (w_sessions w)\<rparr>)"
  by (cases w) (auto simp: session_delete_def dest: drop)

lemma sessionFrom_ok: "P w \<Longrightarrow> P (snd (sessionFrom en k q w))"
proof -
  assume w: "P w"
  obtain s v where sv: "sessionFrom en k q w = (s, v)" by (cases "sessionFrom en k q w")
  show ?thesis
  proof (cases s)
    case None
    then show ?thesis using w sv sessionFrom_None [of en k q w v] by (auto intro: drop)
  next
    case (Some x)
    then show ?thesis using w sv sessionFrom_Some [of en k q w x v] by simp
  qed
qed

lemma session_step: "P w \<Longrightarrow> sessionFrom en k q w = (s, v) \<Longrightarrow> P v"
  using sessionFrom_ok [of w en k q] by simp

lemma guard_ok:
  assumes "P w" "\<And>a v. P v \<Longrightarrow> P (snd (h E q v))"
  shows "P (snd (origin (requireSession h) E q w))"
  using assms by (auto simp: origin_def requireSession_def intro: session_step split: prod.split option.split)

lemma owner_guard_ok:
  assumes "P w" "\<And>a v. P v \<Longrightarrow> P (snd (h E q v))"
  shows "P (snd (requireOwner W h E q w))"
  using assms by (auto simp: requireOwner_def ownerEmailFromRequest_def intro: session_step split: prod.splits option.splits sum.splits)

lemma with_session_ok:
  assumes "P w" "\<And>s v. P v \<Longrightarrow> P (snd (h s E q v))"
  shows "P (snd (with_session h E q w))"
  using assms by (auto simp: with_session_def intro: session_step split: prod.split option.split)

lemma writeCloudError_ok: "P w \<Longrightarrow> P (snd (writeCloudError en s e w))"
  by (auto simp: writeCloudError_def intro: delete_ok)

lemma command_ok: "P w \<Longrightarrow> P (command k w)"
  by (simp add: command_def manager)

lemma workspace_ok:
  assumes w: "P w"
  shows "P (snd (handleWorkspaceConnect E q w))" "P (snd (handleWorkspaceDelete W E q w))" "P (snd (handleWorkspaceStatus W E q w))"
    "P (snd (handleWorkspaceStop W E q w))" "P (snd (handleWorkspaceStart W E q w))"
proof -
  have c: "P (snd (writeCloudError en s e v))" "P (command k (snd (writeCloudError en s e v)))" if "P v" for en s e v k
    using that by (simp_all add: writeCloudError_ok command_ok)
  show "P (snd (handleWorkspaceConnect E q w))"
    unfolding handleWorkspaceConnect_def by (rule with_session_ok [OF w]) (auto simp: Let_def c command_ok split: sum.split)
  show "P (snd (handleWorkspaceDelete W E q w))"
    unfolding handleWorkspaceDelete_def case_prod_unfold by (rule with_session_ok [OF w]) (auto simp: c command_ok split: sum.split)
  show "P (snd (handleWorkspaceStatus W E q w))"
    unfolding handleWorkspaceStatus_def by (rule with_session_ok [OF w]) (auto simp: Let_def c split: sum.split option.split)
  show "P (snd (handleWorkspaceStop W E q w))"
    unfolding handleWorkspaceStop_def by (rule with_session_ok [OF w]) (auto simp: Let_def c command_ok split: sum.split)
  show "P (snd (handleWorkspaceStart W E q w))"
    unfolding handleWorkspaceStart_def by (rule with_session_ok [OF w]) (auto simp: Let_def c command_ok split: sum.split)
qed

lemma update_ok:
  assumes w: "P w"
  shows "P (snd (handleUpdateStatus um E q w))" "P (snd (handleUpdateRequest W um E q w))"
proof -
  show "P (snd (handleUpdateStatus um E q w))" using w by (simp add: handleUpdateStatus_def split: sum.split)
  have "P (snd (ownerEmailFromRequest W (we_en E) 57 q v))" if "P v" for v
    using that by (auto simp: ownerEmailFromRequest_def intro: session_step split: prod.splits option.splits)
  then show "P (snd (handleUpdateRequest W um E q w))"
    using w by (auto simp: handleUpdateRequest_def Let_def updates split: option.split)
qed

lemma console_ok:
  assumes w: "P w" and c: "api_serve lower jc mc en q (w_console w) = (st, c)" "clocks_ok (mc_ttl mc) en"
  shows "P (w\<lparr>w_console := c\<rparr>)"
proof (rule console [OF w])
  show "gs_orgAdmin (c_groups c) = gs_orgAdmin (c_groups (w_console w))"
    using api_admin.api_serve_ok [OF c(2) refl, of lower jc q "w_console w"] c(1) by simp
  show "plane_ok c" if "plane_ok (w_console w)"
    using api_stores.api_serve_ok [OF c(2) that, of lower jc q] c(1) by simp
qed

lemma withOperator_ok:
  assumes w: "P w" and k: "web_clocks W (we_en E)"
  shows "P (snd (withOperator W E q w))"
proof -
  have "clocks_ok (mc_ttl (operator_mail W E cookie cfg)) (we_en E)" for cookie cfg
    using k by (simp add: operator_mail_def web_clocks_def)
  note d = console_ok [OF _ _ this]
  show ?thesis
    by (auto simp: withOperator_def dest!: session_step [OF w] intro: d split: prod.split option.split)
qed

lemma handleInvite_ok:
  assumes w: "P w" and k: "clocks_ok (si_ttl si) (we_en E)"
  shows "P (snd (handleInvite W si E q w))"
proof -
  have "P (v\<lparr>w_console := c\<rparr>)" if v: "P v" and i: "IssueSelfInvite sha256 si (we_en E) email nam (w_console v) = (x, c)" for v sha256 email nam x c
  proof (rule console [OF v])
    show "gs_orgAdmin (c_groups c) = gs_orgAdmin (c_groups (w_console v))"
      using api_admin.IssueSelfInvite_ok [OF k refl, of sha256 email nam "w_console v"] i by simp
    show "plane_ok c" if "plane_ok (w_console v)"
      using api_stores.IssueSelfInvite_ok [OF k that, of sha256 email nam] i by simp
  qed
  then show ?thesis
    unfolding handleInvite_def
    by (intro with_session_ok [OF w]) (auto simp: Let_def intro: writeCloudError_ok split: sum.split prod.split option.split)
qed

lemma bind_ok:
  assumes w: "P w" and b: "bindIfAbsent (wc_lower W) f fr now email me (w_owner w) = (x, t)"
  shows "P (w\<lparr>w_owner := t\<rparr>)" "x = Inr own \<Longrightarrow> \<exists>r. t = Some r \<and> ow_Email own = canonicalEmail (wc_lower W) (or_email r)"
proof -
  have "t = w_owner w \<or> (w_owner w = None \<and> t \<noteq> None)"
    using b by (auto simp: bindIfAbsent_def Let_def split: if_splits option.splits sum.splits)
  with w claim [OF w] show "P (w\<lparr>w_owner := t\<rparr>)" by (cases w) auto
  show "\<exists>r. t = Some r \<and> ow_Email own = canonicalEmail (wc_lower W) (or_email r)" if "x = Inr own"
    using b that by (auto simp: bindIfAbsent_def owner_get_def Let_def split: if_splits option.splits sum.splits)
qed

lemma handleCallback_ok:
  assumes w: "P w" and k: "web_clocks W (we_en E)"
  shows "P (snd (handleCallback W E q w))"
proof -
  have o: "P (snd (open_session W (we_en E) tok me v))" if "P v" for tok me v
    using that k clocks_time [of sessionTTL "we_en E" 62]
    by (auto simp: open_session_def web_clocks_def intro: add split: prod.split option.split)
  have b: "P (w\<lparr>w_logins := l, w_owner := t\<rparr>)" if "bindIfAbsent (wc_lower W) f fr now email me (w_owner w) = (x, t)" for l f fr now email me x t
    using bind_ok(1) [OF logins [OF w, of l], of f fr now email me x t] that by simp
  have r: "P (registerOwner email (w\<lparr>w_logins := l, w_owner := t\<rparr>))"
    if v: "bindIfAbsent (wc_lower W) f fr now email' me (w_owner w) = (Inr own, t)" and f: "wc_fold W (ow_Email own) email" for l f fr now email email' me own t
  proof -
    obtain r where "t = Some r" "ow_Email own = canonicalEmail (wc_lower W) (or_email r)"
      using bind_ok(2) [OF logins [OF w, of l], of f fr now email' me "Inr own" t own] v by auto
    with register [OF b [OF v, of l], of r email] f show ?thesis by simp
  qed
  show ?thesis
    using w logins [OF w] by (auto simp: handleCallback_def Let_def intro: o b r split: prod.split option.split sum.split)
qed

lemma web_serve_ok:
  assumes w: "P w" and k: "web_clocks W (we_en E)"
  shows "P (snd (web_serve W E q w))"
proof -
  have g: "P (snd (origin (requireSession h) E q w))" if "\<And>v. P v \<Longrightarrow> P (snd (h E q v))" for h
    by (rule guard_ok [OF w]) (rule that)
  have a: "P (snd (origin (requireSession (api_handler W q)) E q w))"
  proof (rule g)
    fix v assume v: "P v"
    have "P (snd (requireOwner W (handleUpdateStatus um) E q v))" "P (snd (requireOwner W (handleUpdateRequest W um) E q v))" for um
      by (rule owner_guard_ok [OF v], erule update_ok)+
    moreover have "P (snd (handleInvite W (the (wc_inviter W)) E q v))" if "wc_inviter W \<noteq> None"
      using that k by (auto simp: web_clocks_def intro: handleInvite_ok [OF v])
    ultimately show "P (snd (api_handler W q E q v))"
      unfolding api_handler_def Let_def
      by (intro if_split [where P = "\<lambda>h. P (snd (h E q v))", THEN iffD2] conjI impI)
        (simp_all add: workspace_ok [OF v] withOperator_ok [OF v k])
  qed
  have "P (snd (handleSession W E q v))" if "P v" for v
    using that unfolding handleSession_def
    by (auto simp: Let_def dest: session_step [OF that] intro: delete_ok split: prod.split option.split)
  moreover have "P (snd (handleAuthStart W E q v))" if "P v" for v
    using that by (auto simp: handleAuthStart_def Let_def intro: logins split: option.split)
  moreover have "P (snd (handleLogout E q v))" if "P v" for v
    using that by (auto simp: handleLogout_def Let_def intro: delete_ok sessionFrom_ok split: option.split)
  ultimately show ?thesis
    using w a handleCallback_ok [OF w k] by (auto simp: web_serve_def origin_def split: list.split)
qed

lemma NewHandler_ok:
  assumes w: "P w"
  shows "P (NewHandler W en w)"
proof -
  have "P (v\<lparr>w_sessions := newSessionStore f now (w_sessions v)\<rparr>)" if "P v" for v f now
    using drop [OF that] that by (cases v) (simp add: newSessionStore_def)
  then have v: "P (w\<lparr>w_sessions := newSessionStore f now (w_sessions w), w_logins := []\<rparr>)" for f now
    using w by (simp add: logins)
  have "P (registerOwner (ow_Email ow) v)" if "P v" "w_owner v = w_owner w" "owner_get (wc_lower W) f (w_owner w) = Inr (Some ow)" for v f ow
    using that register [OF that(1)] by (auto simp: owner_get_def split: if_splits)
  with v show ?thesis by (auto simp: NewHandler_def Let_def split: sum.split option.split)
qed

lemma web_run_ok:
  assumes "P w" "list_all (web_event_ok W) es"
  shows "P (web_run W es w)"
  using assms
proof (induction es arbitrary: w)
  case (Cons e es)
  have "P (web_step W e w)"
  proof (cases e)
    case (WRequest E q)
    with Cons.prems web_serve_ok [of w E q] show ?thesis by simp
  next
    case (WPlane P' en q)
    with Cons.prems plane_invites.step_inv [of "w_console w" "(P', en, q)"] show ?thesis
      by (auto simp: plane_admin intro!: console)
  next
    case (WRestart en)
    with Cons.prems show ?thesis by (auto simp: web_clocks_def clocks_time intro!: NewHandler_ok reload)
  qed
  with Cons show ?case by simp
qed simp

end

end
