(* ===== verification/Web_Effects.thy ===== *)
theory Web_Effects
  imports Web_Frame
begin

text \<open>
  What a handler of the web console may do to the sessions, and what may depend on the manager of
  updates: all but the callback of a login only drop sessions and hand out no cookie, and behind the
  guards all but the two handlers of the updates answer the same whatever the manager would say.
\<close>

subsection \<open>Sessions only go\<close>

definition opens :: "web_reply \<Rightarrow> bool" where
  "opens a \<longleftrightarrow> (\<exists>i. rp_cookie a = SetCookie i)"

definition sheds :: "web \<Rightarrow> web_reply \<times> web \<Rightarrow> bool" where
  "sheds w x \<longleftrightarrow> subseq (w_sessions (snd x)) (w_sessions w) \<and> \<not> opens (fst x)"

lemma opens_written [simp]: "\<not> opens (writeJSON st b)" "\<not> opens (writeError st code msg)" "\<not> opens not_logged_in" "\<not> opens notFoundJSON"
  "\<not> opens (failCallback W code)" "\<not> opens (writeLoggedOut w)" "\<not> opens (a\<lparr>rp_cookie := ClearCookie\<rparr>)"
  "\<not> opens \<lparr>rp_status = st, rp_cookie = ClearCookie, rp_body = b\<rparr>"
  by (simp_all add: opens_def writeJSON_def writeError_def not_logged_in_def notFoundJSON_def failCallback_def writeLoggedOut_def)

lemma sheds_idle [simp]: "sheds w (a, w) \<longleftrightarrow> \<not> opens a" "sheds w (a, w\<lparr>w_console := c\<rparr>) \<longleftrightarrow> \<not> opens a"
  "sheds w (a, w\<lparr>w_logins := l\<rparr>) \<longleftrightarrow> \<not> opens a" "sheds w (a, command k w) \<longleftrightarrow> \<not> opens a"
  "sheds w (a, w\<lparr>w_updates := us\<rparr>) \<longleftrightarrow> \<not> opens a"
  by (simp_all add: sheds_def command_def)

lemma sheds_command [simp]: "sheds (command k w) x \<longleftrightarrow> sheds w x" "sheds (w\<lparr>w_console := c\<rparr>) x \<longleftrightarrow> sheds w x"
  "sheds (w\<lparr>w_updates := us\<rparr>) x \<longleftrightarrow> sheds w x"
  by (simp_all add: sheds_def command_def)

lemma sub_delete: "subseq (session_delete f i t) t"
  by (simp add: session_delete_def sql_delete_def)

lemma sheds_delete [simp]: "sheds w (a, w\<lparr>w_sessions := session_delete f i (w_sessions w)\<rparr>) \<longleftrightarrow> \<not> opens a"
  by (simp add: sheds_def sub_delete)

lemma sub_from: "sessionFrom en k q w = (s, v) \<Longrightarrow> subseq (w_sessions v) (w_sessions w)"
  using sessionFrom_None [of en k q w v] sessionFrom_Some [of en k q w _ v] by (cases s) (auto simp: sql_delete_def)

lemma sheds_trans: "subseq (w_sessions v) (w_sessions w) \<Longrightarrow> sheds v x \<Longrightarrow> sheds w x"
  by (auto simp: sheds_def intro: subseq_order.order_trans)

lemma sheds_from: "sessionFrom en k q w = (s, v) \<Longrightarrow> sheds v x \<Longrightarrow> sheds w x"
  by (rule sheds_trans [OF sub_from])

lemma sheds_origin: "sheds w (h E q w) \<Longrightarrow> sheds w (origin h E q w)"
  by (simp add: origin_def)

lemma sheds_requireSession: "(\<And>v. sheds v (h E q v)) \<Longrightarrow> sheds w (requireSession h E q w)"
  by (auto simp: requireSession_def intro: sheds_from split: prod.split option.split)

lemma sheds_requireOwner: "(\<And>v. sheds v (h E q v)) \<Longrightarrow> sheds w (requireOwner W h E q w)"
  by (auto simp: requireOwner_def ownerEmailFromRequest_def intro: sheds_from split: prod.splits option.splits sum.split)

lemma sheds_with_session: "(\<And>s v. sheds v (h s E q v)) \<Longrightarrow> sheds w (with_session h E q w)"
  by (auto simp: with_session_def intro: sheds_from split: prod.split option.split)

lemma sheds_CloudError [simp]: "sheds w (writeCloudError en s e w)"
  by (simp add: writeCloudError_def)

lemma sheds_after [simp]: "sheds w (case x of (r, v) \<Rightarrow> (r, command k v)) \<longleftrightarrow> sheds w x"
  by (cases x) (simp add: sheds_def command_def)

lemma sheds_workspace:
  "sheds w (handleWorkspaceConnect E q w)" "sheds w (handleWorkspaceDelete W E q w)" "sheds w (handleWorkspaceStatus W E q w)"
  "sheds w (handleWorkspaceStop W E q w)" "sheds w (handleWorkspaceStart W E q w)"
proof -
  have "sheds v (writeCloudError en s e (command k v))" for en s e k v
    by (rule sheds_trans [OF _ sheds_CloudError]) (simp add: command_def)
  note [simp] = this writeWorkspaceAccepted_def
  show "sheds w (handleWorkspaceConnect E q w)" "sheds w (handleWorkspaceDelete W E q w)" "sheds w (handleWorkspaceStatus W E q w)"
    "sheds w (handleWorkspaceStop W E q w)" "sheds w (handleWorkspaceStart W E q w)"
    unfolding handleWorkspaceConnect_def handleWorkspaceDelete_def handleWorkspaceStatus_def handleWorkspaceStop_def handleWorkspaceStart_def
    by (rule sheds_with_session; simp add: Let_def split: sum.split option.split)+
qed

lemma sheds_invite: "sheds w (handleInvite W si E q w)"
proof -
  have "sheds v (writeCloudError en s e (v\<lparr>w_console := c\<rparr>))" for en s e c v
    by (rule sheds_trans [OF _ sheds_CloudError]) simp
  then show ?thesis
    unfolding handleInvite_def by (intro sheds_with_session) (simp add: Let_def split: sum.split option.split prod.split)
qed

lemma sheds_operator: "sheds w (withOperator W E q w)"
  unfolding withOperator_def
  by (auto intro: sheds_from split: prod.split option.split)

lemma sheds_updates: "sheds w (handleUpdateStatus um E q w)" "sheds w (handleUpdateRequest W um E q w)"
proof -
  show "sheds w (handleUpdateStatus um E q w)" by (simp add: handleUpdateStatus_def split: sum.split)
  have o: "subseq (w_sessions (snd (ownerEmailFromRequest W en k q (w\<lparr>w_updates := us\<rparr>)))) (w_sessions w)" for en k us
    using sub_from [of en k q "w\<lparr>w_updates := us\<rparr>"]
    by (cases "sessionFrom en k q (w\<lparr>w_updates := us\<rparr>)") (auto simp: ownerEmailFromRequest_def split: option.split)
  show "sheds w (handleUpdateRequest W um E q w)"
    by (auto simp: handleUpdateRequest_def Let_def sheds_def o split: option.split update_error.split)
qed

lemma sheds_api: "sheds w (origin (requireSession (api_handler W q)) E q w)"
proof (rule sheds_origin, rule sheds_requireSession)
  fix v
  have "sheds v (requireOwner W (handleUpdateStatus um) E q v)" "sheds v (requireOwner W (handleUpdateRequest W um) E q v)" for um
    by (rule sheds_requireOwner, rule sheds_updates)+
  then show "sheds v (api_handler W q E q v)"
    unfolding api_handler_def Let_def
    by (intro if_split [where P = "\<lambda>h. sheds v (h E q v)", THEN iffD2] conjI impI) (simp_all add: sheds_workspace sheds_invite sheds_operator)
qed

lemma sheds_pages: "sheds w (handleSession W E q w)" "sheds w (handleAuthStart W E q w)" "sheds w (handleLogout E q w)"
proof -
  show "sheds w (handleAuthStart W E q w)" by (simp add: handleAuthStart_def Let_def split: option.split)
  show "sheds w (handleSession W E q w)"
    by (auto simp: handleSession_def Let_def intro: sheds_from split: prod.split option.split)
  obtain s v where sv: "sessionFrom (we_en E) 57 q w = (s, v)" by (cases "sessionFrom (we_en E) 57 q w")
  show "sheds w (handleLogout E q w)"
    using sheds_from [OF sv, of "(a, v\<lparr>w_sessions := session_delete f i (w_sessions v)\<rparr>)" for a f i]
    by (simp add: handleLogout_def Let_def sv split: option.split)
qed

text \<open>All but the callback of a login.\<close>

lemma web_serve_sheds:
  assumes "\<not> (wq_path q = [''auth'', ''callback''] \<and> get_or_head q)"
  shows "sheds w (web_serve W E q w)"
proof (cases "wq_path q")
  case (Cons x xs)
  with assms show ?thesis
    by (auto simp: web_serve_def sheds_api intro!: sheds_origin sheds_pages split: list.split)
qed (simp add: web_serve_def)

subsection \<open>Who depends on the manager of updates\<close>

lemmas branch_cong = sum.case_cong option.case_cong prod.case_cong if_cong

lemma without_updates [simp]:
  "failCallback (W\<lparr>wc_updates := u\<rparr>) = failCallback W" "emailFromMe (W\<lparr>wc_updates := u\<rparr>) = emailFromMe W"
  "rawEmailFromMe (W\<lparr>wc_updates := u\<rparr>) = rawEmailFromMe W" "nameFromMe (W\<lparr>wc_updates := u\<rparr>) = nameFromMe W"
  "meWithAvatar (W\<lparr>wc_updates := u\<rparr>) = meWithAvatar W" "principal (W\<lparr>wc_updates := u\<rparr>) = principal W"
  "orphaned (W\<lparr>wc_updates := u\<rparr>) = orphaned W" "writeWorkspaceAccepted (W\<lparr>wc_updates := u\<rparr>) = writeWorkspaceAccepted W"
  "operator_mail (W\<lparr>wc_updates := u\<rparr>) = operator_mail W" "decodeUpdateRequest (W\<lparr>wc_updates := u\<rparr>) = decodeUpdateRequest W"
  by (simp_all add: fun_eq_iff failCallback_def emailFromMe_def rawEmailFromMe_def nameFromMe_def meWithAvatar_def principal_def
      orphaned_def writeWorkspaceAccepted_def operator_mail_def decodeUpdateRequest_def Let_def cong: branch_cong)

lemma handlers_without_updates [simp]:
  "open_session (W\<lparr>wc_updates := u\<rparr>) = open_session W" "owner_status (W\<lparr>wc_updates := u\<rparr>) = owner_status W"
  "ownerEmailFromRequest (W\<lparr>wc_updates := u\<rparr>) = ownerEmailFromRequest W" "handleAuthStart (W\<lparr>wc_updates := u\<rparr>) = handleAuthStart W"
  "requireOwner (W\<lparr>wc_updates := u\<rparr>) = requireOwner W" "withOperator (W\<lparr>wc_updates := u\<rparr>) = withOperator W"
  "handleWorkspaceDelete (W\<lparr>wc_updates := u\<rparr>) = handleWorkspaceDelete W" "handleWorkspaceStatus (W\<lparr>wc_updates := u\<rparr>) = handleWorkspaceStatus W"
  "handleWorkspaceStop (W\<lparr>wc_updates := u\<rparr>) = handleWorkspaceStop W" "handleWorkspaceStart (W\<lparr>wc_updates := u\<rparr>) = handleWorkspaceStart W"
  "handleInvite (W\<lparr>wc_updates := u\<rparr>) = handleInvite W" "handleUpdateRequest (W\<lparr>wc_updates := u\<rparr>) = handleUpdateRequest W"
  by (simp_all add: fun_eq_iff open_session_def owner_status_def ownerEmailFromRequest_def handleAuthStart_def requireOwner_def withOperator_def
      handleWorkspaceDelete_def handleWorkspaceStatus_def handleWorkspaceStop_def handleWorkspaceStart_def handleInvite_def handleUpdateRequest_def Let_def cong: branch_cong)

lemma pages_without_updates [simp]:
  "handleSession (W\<lparr>wc_updates := u\<rparr>) = handleSession W" "handleCallback (W\<lparr>wc_updates := u\<rparr>) = handleCallback W"
  by (simp_all add: fun_eq_iff handleSession_def handleCallback_def Let_def cong: branch_cong)

text \<open>Where the guards of the owner make a difference, the owner asks.\<close>

definition owner_asks :: "web_conf \<Rightarrow> web_env \<Rightarrow> web_request \<Rightarrow> web \<Rightarrow> bool" where
  "owner_asks W E q w \<longleftrightarrow> same_origin q \<and> (\<exists>r ow. signed_in (en_clock (we_en E) 53) q w r \<and> w_owner w = Some ow \<and>
     canonicalEmail (wc_lower W) (or_email ow) = canonicalEmail (wc_lower W) (emailFromMe W (sn_me r)) \<and>
     canonicalEmail (wc_lower W) (or_email ow) \<noteq> [])"

lemma guard_differs:
  "origin (requireSession h) E q w \<noteq> origin (requireSession h') E q w \<Longrightarrow> same_origin q \<and> h E q w \<noteq> h' E q w"
proof -
  assume d: "origin (requireSession h) E q w \<noteq> origin (requireSession h') E q w"
  obtain s v where sv: "sessionFrom (we_en E) 50 q w = (s, v)" by (cases "sessionFrom (we_en E) 50 q w")
  show ?thesis
    using d sv sessionFrom_Some [of "we_en E" 50 q w _ v] by (cases s) (auto simp: origin_def same_origin_def requireSession_def split: if_splits)
qed

lemma owner_differs:
  assumes "requireOwner W h E q w \<noteq> requireOwner W h' E q w" "same_origin q"
  shows "owner_asks W E q w"
proof -
  obtain ow where ow: "owner_get (wc_lower W) (en_fault (we_en E) 52) (w_owner w) = Inr (Some ow)" "ow_Email ow \<noteq> []"
    using assms(1) by (auto simp: requireOwner_def split: sum.splits option.splits if_splits)
  then obtain r0 where r0: "w_owner w = Some r0" "ow_Email ow = canonicalEmail (wc_lower W) (or_email r0)"
    by (auto simp: owner_get_def split: if_splits)
  obtain s v where sv: "sessionFrom (we_en E) 53 q w = (s, v)" by (cases "sessionFrom (we_en E) 53 q w")
  then have same: "ow_Email ow = fst (ownerEmailFromRequest W (we_en E) 53 q w)"
    using assms(1) ow by (auto simp: requireOwner_def split: if_splits prod.splits)
  with ow sv obtain x where x: "s = Some x" by (cases s) (auto simp: ownerEmailFromRequest_def)
  with sv sessionFrom_Some [of "we_en E" 53 q w x v] obtain r where
    "signed_in (en_clock (we_en E) 53) q w r" "x = session_of_row r" by auto
  with same sv x ow(2) r0 assms(2) show ?thesis by (auto simp: owner_asks_def ownerEmailFromRequest_def session_of_row_def)
qed

lemma api_without_updates:
  "api_handler (W\<lparr>wc_updates := Some um\<rparr>) q = api_handler (W\<lparr>wc_updates := Some um'\<rparr>) q \<or>
   (\<exists>h h'. api_handler (W\<lparr>wc_updates := Some um\<rparr>) q = requireOwner W h \<and> api_handler (W\<lparr>wc_updates := Some um'\<rparr>) q = requireOwner W h')"
proof (cases "drop 2 (wq_path q) = [''system'', ''update''] \<and> (get_or_head q \<or> wq_method q = ''POST'')")
  case True
  then show ?thesis by (auto simp: api_handler_def Let_def)
next
  case False
  then show ?thesis by (intro disjI1) (auto simp: api_handler_def Let_def)
qed

lemma updates_differ:
  assumes "web_serve (W\<lparr>wc_updates := Some um\<rparr>) E q w \<noteq> web_serve (W\<lparr>wc_updates := Some um'\<rparr>) E q w"
  shows "owner_asks W E q w"
proof -
  let ?h = "api_handler (W\<lparr>wc_updates := Some um\<rparr>) q" and ?h' = "api_handler (W\<lparr>wc_updates := Some um'\<rparr>) q"
  have "origin (requireSession ?h) E q w \<noteq> origin (requireSession ?h') E q w"
    using assms by (auto simp: web_serve_def split: list.splits if_splits)
  then have d: "same_origin q" "?h E q w \<noteq> ?h' E q w" using guard_differs by blast+
  then obtain h h' where "?h = requireOwner W h" "?h' = requireOwner W h'" using api_without_updates [where W = W and um = um and q = q and um' = um'] by auto
  with d owner_differs show ?thesis by metis
qed

end
