(* ===== verification/Web_Properties.thy ===== *)
theory Web_Properties
  imports Web_Effects Console_Properties
begin

text \<open>
  Who may do what through the local web console: the claim of the owner is final, a login is worth one
  session, whatever changes needs a live session of the same origin, and updates need the owner.
\<close>

subsection \<open>What a request changes\<close>

lemma session_keeps: "\<exists>t. snd (sessionFrom en k q w) = w\<lparr>w_sessions := t\<rparr>"
proof -
  obtain s v where "sessionFrom en k q w = (s, v)" by (cases "sessionFrom en k q w")
  then show ?thesis by (cases s) (auto simp: sessionFrom_def split: option.splits prod.splits intro: exI [of _ "w_sessions w"])
qed

definition only_sessions :: "web \<Rightarrow> web \<Rightarrow> bool" where
  "only_sessions w w' \<longleftrightarrow> w' = w\<lparr>w_sessions := w_sessions w', w_logins := w_logins w'\<rparr>"

lemma only_sessions_I [simp]:
  "only_sessions w w" "only_sessions w (w\<lparr>w_sessions := t\<rparr>)" "only_sessions w (w\<lparr>w_logins := l\<rparr>)"
  by (simp_all add: only_sessions_def)

lemma only_sessions_updates: "only_sessions w w' \<Longrightarrow> w_updates w' = w_updates w"
  unfolding only_sessions_def by (erule ssubst) simp

lemma only_sessions_keeps:
  assumes "only_sessions w w'"
  shows "w_updates w' = w_updates w \<and> w_manager w' = w_manager w \<and>
    (\<exists>e. w_console w' = (w_console w)\<lparr>c_groups := SetOrgAdmin e (c_groups (w_console w))\<rparr>)"
proof -
  have "w_console w = (w_console w)\<lparr>c_groups := SetOrgAdmin (gs_orgAdmin (c_groups (w_console w))) (c_groups (w_console w))\<rparr>"
    by (simp add: SetOrgAdmin_def)
  moreover have "w_updates w' = w_updates w \<and> w_manager w' = w_manager w \<and> w_console w' = w_console w"
    using assms unfolding only_sessions_def by (elim ssubst) simp
  ultimately show ?thesis by metis
qed

lemma only_sessions_from: "only_sessions w (snd (sessionFrom en k q w))"
  using session_keeps [of en k q w] by auto

lemma outside_api:
  shows "only_sessions w (snd (handleSession W E q w))" "only_sessions w (snd (handleAuthStart W E q w))"
    "only_sessions w (snd (handleLogout E q w))"
proof -
  obtain t where t: "snd (sessionFrom (we_en E) 57 q w) = w\<lparr>w_sessions := t\<rparr>" using session_keeps by blast
  then show "only_sessions w (snd (handleLogout E q w))"
    by (auto simp: handleLogout_def Let_def split: option.split)
  obtain s v where sv: "sessionFrom (we_en E) 57 q w = (s, v)" by (cases "sessionFrom (we_en E) 57 q w")
  with t show "only_sessions w (snd (handleSession W E q w))"
    by (auto simp: handleSession_def Let_def split: prod.split option.split)
  show "only_sessions w (snd (handleAuthStart W E q w))"
    by (auto simp: handleAuthStart_def Let_def split: option.split)
qed

lemma only_guarded:
  assumes "origin h E q w = (a, w')" "only_sessions w (snd (h E q w))"
  shows "only_sessions w w'"
  using assms by (auto simp: origin_def split: if_splits)

lemma web_serve_outside:
  assumes s: "web_serve W E q w = (a, w')" and f: "\<not> (\<exists>r. wq_path q = ''api'' # ''v1'' # r \<and> r \<noteq> [])"
  shows "only_sessions w w' \<or> wq_path q = [''auth'', ''callback''] \<and> handleCallback W E q w = (a, w')"
proof (cases "wq_path q")
  case (Cons x xs)
  show ?thesis
  proof (cases xs)
    case Nil
    with Cons s show ?thesis by (auto simp: web_serve_def split: if_splits)
  next
    case (Cons y ys)
    with f s \<open>wq_path q = x # xs\<close> show ?thesis
      by (auto simp: web_serve_def split: if_splits dest!: only_guarded intro!: outside_api)
  qed
qed (use s in \<open>simp add: web_serve_def\<close>)

lemma web_serve_effect:
  assumes s: "web_serve W E q w = (a, w')" and p: "wq_path q \<noteq> [''auth'', ''callback'']"
  shows "only_sessions w w' \<or> same_origin q \<and> (\<exists>r. signed_in (en_clock (we_en E) 50) q w r)"
proof (cases "\<exists>r. wq_path q = ''api'' # ''v1'' # r \<and> r \<noteq> []")
  case True
  with s have "origin (requireSession (api_handler W q)) E q w = (a, w')" by (auto simp: web_serve_def)
  then show ?thesis by (cases rule: guarded) auto
next
  case False
  with web_serve_outside [OF s] p show ?thesis by blast
qed

lemma open_session_effect:
  assumes "open_session W en tok me w = (a, w')"
  obtains "w' = w" "a = failCallback W ''exchange_failed''"
  | i row where "a = \<lparr>rp_status = 302, rp_cookie = SetCookie i, rp_body = Location (wc_selfBase W @ ''/'')\<rparr>"
      "w' = w\<lparr>w_sessions := w_sessions w @ [row]\<rparr>" "sn_id row = i" "sn_token row = lk_SessionToken tok" "sn_me row = me"
  using assms by (auto simp: open_session_def session_create_def Let_def split: if_splits option.splits)

text \<open>A callback either fails, or the handshake was known and the cloud named the account.\<close>

lemma callback_effect:
  assumes "handleCallback W E q w = (a, w')"
  obtains (failed) code l t where "a = failCallback W code" "w' = w\<lparr>w_logins := l, w_owner := t\<rparr>" "l = snd (login_take (wq_query q ''state'') (w_logins w)) \<or> l = w_logins w"
  | (bound) tx tok own t where "map_of (w_logins w) (wq_query q ''state'') = Some tx" "wq_query q ''error'' = []"
      "wq_query q ''code'' \<noteq> []" "wq_query q ''state'' \<noteq> []"
      "ExchangeLocalToken (we_http E 0) (wc_cloud W) (wq_query q ''code'') (lt_verifier tx) (lt_redirectURI tx) = Inr tok"
      "emailFromMe W (principal W E tok) \<noteq> []"
      "bindIfAbsent (wc_lower W) (en_fault (we_en E) 60) (en_fault (we_en E) 61) (en_clock (we_en E) 60)
         (emailFromMe W (principal W E tok)) (principal W E tok) (w_owner w) = (Inr own, t)"
      "open_session W (we_en E) tok (principal W E tok)
         (let v = w\<lparr>w_logins := AList.delete (wq_query q ''state'') (w_logins w), w_owner := t\<rparr>
          in if wc_fold W (ow_Email own) (emailFromMe W (principal W E tok)) then registerOwner (emailFromMe W (principal W E tok)) v else v) = (a, w')"
proof (cases "wq_query q ''error'' \<noteq> [] \<or> wq_query q ''code'' = [] \<or> wq_query q ''state'' = []")
  case True
  with assms have "\<exists>code. a = failCallback W code" "w' = w" by (auto simp: handleCallback_def Let_def split: if_splits)
  with failed [where l = "w_logins w" and t = "w_owner w"] show ?thesis by auto
next
  case False
  then have q: "wq_query q ''error'' = []" "wq_query q ''code'' \<noteq> []" "wq_query q ''state'' \<noteq> []" by auto
  let ?l = "snd (login_take (wq_query q ''state'') (w_logins w))"
  show ?thesis
  proof (cases "map_of (w_logins w) (wq_query q ''state'')")
    case None
    with assms q have "a = failCallback W ''invalid_state''" "w' = w\<lparr>w_logins := ?l\<rparr>"
      by (simp_all add: handleCallback_def Let_def login_take_def)
    with failed [where l = ?l and t = "w_owner w"] show ?thesis by auto
  next
    case (Some tx)
    then have t: "login_take (wq_query q ''state'') (w_logins w) = (Some tx, AList.delete (wq_query q ''state'') (w_logins w))"
      by (simp add: login_take_def)
    show ?thesis
    proof (cases "ExchangeLocalToken (we_http E 0) (wc_cloud W) (wq_query q ''code'') (lt_verifier tx) (lt_redirectURI tx)")
      case (Inl e)
      with assms q t have "a = failCallback W ''exchange_failed''" "w' = w\<lparr>w_logins := ?l\<rparr>"
        by (simp_all add: handleCallback_def Let_def)
      with failed [where l = ?l and t = "w_owner w"] show ?thesis by auto
    next
      case (Inr tok)
      let ?e = "emailFromMe W (principal W E tok)"
      obtain x u where b: "bindIfAbsent (wc_lower W) (en_fault (we_en E) 60) (en_fault (we_en E) 61) (en_clock (we_en E) 60)
         ?e (principal W E tok) (w_owner w) = (x, u)" by fastforce
      consider (anon) "?e = []" | (err) e where "?e \<noteq> []" "x = Inl e" | (ok) own where "?e \<noteq> []" "x = Inr own" by (cases x) auto
      then show ?thesis
      proof cases
        case anon
        with assms q t Inr have "a = failCallback W ''no_identity''" "w' = w\<lparr>w_logins := ?l\<rparr>"
          by (simp_all add: handleCallback_def Let_def)
        with failed [where l = ?l and t = "w_owner w"] show ?thesis by auto
      next
        case err
        with assms q t Inr b have "a = failCallback W ''exchange_failed''" "w' = w\<lparr>w_logins := ?l, w_owner := u\<rparr>"
          by (simp_all add: handleCallback_def Let_def)
        with failed [where l = ?l and t = u] show ?thesis by auto
      next
        case ok
        with assms q t Inr b have "open_session W (we_en E) tok (principal W E tok)
         (let v = w\<lparr>w_logins := AList.delete (wq_query q ''state'') (w_logins w), w_owner := u\<rparr>
          in if wc_fold W (ow_Email own) ?e then registerOwner ?e v else v) = (a, w')"
          by (simp add: handleCallback_def Let_def)
        with bound [OF Some q Inr] ok b show ?thesis by blast
      qed
    qed
  qed
qed

lemma callback_keeps:
  assumes "handleCallback W E q w = (a, w')"
  shows "w_updates w' = w_updates w \<and> w_manager w' = w_manager w \<and>
    (\<exists>e. w_console w' = (w_console w)\<lparr>c_groups := SetOrgAdmin e (c_groups (w_console w))\<rparr>)"
proof -
  have idle: "\<exists>e. c = c\<lparr>c_groups := SetOrgAdmin e (c_groups c)\<rparr>" for c :: console
    by (rule exI [of _ "gs_orgAdmin (c_groups c)"]) (simp add: SetOrgAdmin_def)
  from assms show ?thesis
  proof (cases rule: callback_effect)
    case (bound tx tok own t)
    then show ?thesis using idle [of "w_console w"]
      by (elim open_session_effect) (auto simp: Let_def registerOwner_def split: if_splits)
  qed (use idle in auto)
qed

lemmas callback_updates = callback_keeps [THEN conjunct1]

text \<open>Only the update handler asks for updates.\<close>

lemma session_updates: "sessionFrom en k q w = (s, v) \<Longrightarrow> w_updates v = w_updates w \<and> w_owner v = w_owner w"
  using session_keeps [of en k q w] by auto

lemma updates_with_session:
  assumes "\<And>s v. w_updates v = w_updates w \<Longrightarrow> w_updates (snd (h s E q v)) = w_updates v"
  shows "w_updates (snd (with_session h E q w)) = w_updates w"
  using assms by (auto simp: with_session_def dest: session_updates split: prod.split option.split)

lemma updates_CloudError: "w_updates (snd (writeCloudError en s e w)) = w_updates w"
  by (simp add: writeCloudError_def)

lemma updates_workspace:
  "w_updates (snd (handleWorkspaceConnect E q w)) = w_updates w" "w_updates (snd (handleWorkspaceDelete W E q w)) = w_updates w"
  "w_updates (snd (handleWorkspaceStatus W E q w)) = w_updates w" "w_updates (snd (handleWorkspaceStop W E q w)) = w_updates w"
  "w_updates (snd (handleWorkspaceStart W E q w)) = w_updates w" "w_updates (snd (handleInvite W si E q w)) = w_updates w"
  unfolding handleWorkspaceConnect_def handleWorkspaceDelete_def handleWorkspaceStatus_def handleWorkspaceStop_def
    handleWorkspaceStart_def handleInvite_def
  by (rule updates_with_session; simp add: updates_CloudError command_def Let_def case_prod_unfold split: sum.split option.split prod.split)+

lemma updates_operator: "w_updates (snd (withOperator W E q w)) = w_updates w"
  by (auto simp: withOperator_def dest: session_updates split: prod.split option.split)

lemma api_updates:
  assumes "h = api_handler W q" "w_updates (snd (h E q w)) \<noteq> w_updates w"
  obtains um where "h = requireOwner W (handleUpdateRequest W um)"
proof -
  have "\<exists>um. h = requireOwner W (handleUpdateRequest W um) \<or> h = requireOwner W (handleUpdateStatus um)"
    using assms unfolding api_handler_def Let_def
    by (auto simp: updates_workspace updates_operator split: if_splits)
  moreover have "w_updates (snd (requireOwner W (handleUpdateStatus um) E q w)) = w_updates w" for um
    by (auto simp: requireOwner_def ownerEmailFromRequest_def handleUpdateStatus_def dest!: session_updates split: sum.split option.split prod.split)
  ultimately show ?thesis using assms that by blast
qed

lemma owner_guarded:
  assumes "requireOwner W h E q w = (a, w')"
  obtains (refused) "w_updates w' = w_updates w"
  | (owner) r ow where "signed_in (en_clock (we_en E) 53) q w r" "w_owner w = Some ow"
      "canonicalEmail (wc_lower W) (or_email ow) = canonicalEmail (wc_lower W) (emailFromMe W (sn_me r))"
      "canonicalEmail (wc_lower W) (or_email ow) \<noteq> []" "h E q w = (a, w')"
proof -
  consider (no) "w_updates w' = w_updates w" | (yes) ow where "owner_get (wc_lower W) (en_fault (we_en E) 52) (w_owner w) = Inr (Some ow)" "ow_Email ow \<noteq> []"
    using assms by (auto simp: requireOwner_def split: sum.splits option.splits if_splits)
  then show ?thesis
  proof cases
    case (yes ow)
    then obtain r0 where r0: "w_owner w = Some r0" "ow_Email ow = canonicalEmail (wc_lower W) (or_email r0)"
      by (auto simp: owner_get_def split: if_splits)
    obtain s v where sv: "sessionFrom (we_en E) 53 q w = (s, v)" by (cases "sessionFrom (we_en E) 53 q w")
    show ?thesis
    proof (cases s)
      case None
      with assms yes sv have "w' = v" by (auto simp: requireOwner_def ownerEmailFromRequest_def split: if_splits)
      with session_updates [OF sv] refused show ?thesis by simp
    next
      case (Some x)
      with sv sessionFrom_Some [of "we_en E" 53 q w x v] obtain r where
        r: "v = w" "signed_in (en_clock (we_en E) 53) q w r" "x = session_of_row r" by auto
      show ?thesis
        using assms yes sv Some r r0 refused owner [OF r(2) r0(1)]
        by (auto simp: requireOwner_def ownerEmailFromRequest_def session_of_row_def split: if_splits)
    qed
  qed (rule refused)
qed

lemma owner_request_updates: "w_updates (snd (ownerEmailFromRequest W en k q v)) = w_updates v"
  by (auto simp: ownerEmailFromRequest_def dest: session_updates split: prod.split option.split)

lemma UpdateRequest_effect:
  assumes "handleUpdateRequest W um E q w = (a, w')"
  shows "w_updates w' = w_updates w \<or> (\<exists>u. trim_space u \<noteq> [] \<and> w_updates w' = w_updates w @ [trim_space u])"
  using assms by (auto simp: handleUpdateRequest_def Let_def owner_request_updates split: option.splits if_splits)

text \<open>
  The org admin is the account that logged in, not the owner whose address its own is folded to: the
  two may be spelled differently, and everything else compares addresses exactly.
\<close>

lemma folding_names_admin:
  assumes s: "handleCallback W E q w = (a, w')" and c: "rp_cookie a = SetCookie i"
    and o: "w_owner w = Some r" "wc_fold W (canonicalEmail (wc_lower W) (or_email r)) (emailFromMe W (sn_me (last (w_sessions w'))))"
  shows "gs_orgAdmin (c_groups (w_console w')) = emailFromMe W (sn_me (last (w_sessions w')))"
  using s
proof (cases rule: callback_effect)
  case (failed code l t)
  with c show ?thesis by (simp add: failCallback_def)
next
  case (bound tx tok own t)
  have own: "ow_Email own = canonicalEmail (wc_lower W) (or_email r)"
    using bound(7) o(1) by (auto simp: bindIfAbsent_def owner_get_def Let_def split: if_splits)
  from bound(8) show ?thesis
  proof (cases rule: open_session_effect)
    case 1
    with c show ?thesis by (simp add: failCallback_def)
  next
    case (2 j row)
    then have "sn_me (last (w_sessions w')) = principal W E tok" by simp
    with 2 o(2) own show ?thesis by (simp add: Let_def registerOwner_def SetOrgAdmin_def)
  qed
qed

subsection \<open>Invariants\<close>

text \<open>The org admin is nobody, or an address that counts as that of the owner.\<close>

definition admin_ok :: "web_conf \<Rightarrow> web \<Rightarrow> bool" where
  "admin_ok W w \<longleftrightarrow> gs_orgAdmin (c_groups (w_console w)) = [] \<or>
     (\<exists>r. w_owner w = Some r \<and> (let e = canonicalEmail (wc_lower W) (or_email r); a = gs_orgAdmin (c_groups (w_console w))
        in e = a \<or> wc_fold W e a))"

lemma session_create_cases:
  assumes "session_create f rnd now tok ck me t = (x, t')"
  shows "t' = t \<or> (\<exists>i. t' = t @ [\<lparr>sn_id = i, sn_token = tok, sn_cookie = ck, sn_me = me, sn_created = FormatRFC3339 now,
      sn_expires = FormatRFC3339 (now + sessionTTL)\<rparr>])"
  using assms by (auto simp: session_create_def Let_def split: if_splits option.splits)

interpretation web_admin: web_invariant W "admin_ok W" for W
  by unfold_locales
    (auto simp: admin_ok_def registerOwner_def reloaded_def SetOrgAdmin_def Let_def)

interpretation web_owner: web_invariant W "\<lambda>w. o0 = None \<or> w_owner w = o0" for W o0
  by unfold_locales (auto simp: registerOwner_def)

lemma plane_admin_set: "plane_ok c \<Longrightarrow> plane_ok (c\<lparr>c_groups := SetOrgAdmin e (c_groups c)\<rparr>)"
  using teams.step_inv [of "c_groups c" "(f, GSetOrgAdmin e)" for f] by (simp add: plane_ok_def)

lemma plane_reloaded:
  assumes c: "plane_ok c" and n: "time_ok (en_clock en 69)"
  shows "plane_ok (reloaded en c)"
proof -
  have "groups_live (SetOrgAdmin [] (groups_restart (c_groups c)))"
    using c groups_restart_ok teams.step_inv [of "groups_restart (c_groups c)" "(f, GSetOrgAdmin [])" for f] by (simp add: plane_ok_def)
  moreover have "tokens_live (tokens_restart (c_tokens c))" using c tokens_restart_ok by (simp add: plane_ok_def)
  moreover have "members_live (members_restart (c_members c))" using c registry.reload_inv by (simp add: plane_ok_def)
  moreover have "invites_live (invites_boot (en_fault en 69) (en_clock en 69) (c_invites c))"
    using c n live_step [of "c_invites c" "(en_fault en 69, en_clock en 69, IBoot)"] by (simp add: plane_ok_def)
  ultimately show ?thesis by (simp add: reloaded_def plane_ok_def)
qed

interpretation web_stores: web_invariant W "\<lambda>w. plane_ok (w_console w)" for W
  by unfold_locales (auto simp: registerOwner_def plane_admin_set plane_reloaded)

text \<open>Every session ends twelve hours after it began.\<close>

definition timed :: "session_row \<Rightarrow> bool" where
  "timed r \<longleftrightarrow> (\<exists>c. time_ok (c + sessionTTL) \<and> sn_created r = FormatRFC3339 c \<and> sn_expires r = FormatRFC3339 (c + sessionTTL))"

interpretation web_timed: web_invariant W "\<lambda>w. \<forall>r \<in> set (w_sessions w). timed r" for W
proof unfold_locales
  fix w now f rnd tok ck me x t
  assume "\<forall>r \<in> set (w_sessions w). timed r" "time_ok now" "time_ok (now + sessionTTL)"
    "session_create f rnd now tok ck me (w_sessions w) = (x, t)"
  moreover have "timed r" if "sn_created r = FormatRFC3339 now" "sn_expires r = FormatRFC3339 (now + sessionTTL)" "time_ok (now + sessionTTL)" for r
    using that by (auto simp: timed_def)
  ultimately show "\<forall>r \<in> set (w_sessions (w\<lparr>w_sessions := t\<rparr>)). timed r" by (auto dest!: session_create_cases)
qed (auto simp: registerOwner_def sql_delete_def)

lemma timed_live:
  assumes "timed r" "live_at now r"
  obtains c where "sn_created r = FormatRFC3339 c" "now \<le> c + sessionTTL"
proof -
  obtain c where c: "time_ok (c + sessionTTL)" "sn_created r = FormatRFC3339 c" "sn_expires r = FormatRFC3339 (c + sessionTTL)"
    using assms(1) by (auto simp: timed_def)
  have "now \<le> (c + sessionTTL) div second * second"
    using assms(2) by (simp add: live_at_def c(3) parse_FormatRFC3339 [OF c(1)])
  also have "\<dots> \<le> c + sessionTTL"
    using mult_div_mod_eq [of second "c + sessionTTL"] pos_mod_sign [of second "c + sessionTTL"]
    by (simp add: second_def mult.commute)
  finally show ?thesis using that c(2) by blast
qed

subsection \<open>Examples\<close>

text \<open>A cloud that knows one account, \<open>a@x\<close>, and a console with a handshake in flight.\<close>

definition demo_cloud :: cloud_client where
  "demo_cloud = \<lparr>cl_base = ''c'', cl_codec = \<lparr>cj_error = (\<lambda>_. ([], [])), cj_token = (\<lambda>_. Inr \<lparr>lk_SessionToken = ''t'', lk_CookieName = ''n''\<rparr>),
     cj_sent = (\<lambda>_. Inl []), cj_workspace = (\<lambda>_. Inl []), cj_bootstrap = (\<lambda>_. Inl []), cj_access = (\<lambda>_. Inl []),
     cj_invite = (\<lambda>_ _ _ _ _. []), cj_team_hash = (\<lambda>_. []), cj_refresh = (\<lambda>_. [])\<rparr>\<rparr>"

definition demo_conf :: web_conf where
  "demo_conf = \<lparr>wc_cloud = demo_cloud, wc_webBase = ''w'', wc_selfBase = ''s'', wc_teamHash = [], wc_lower = id, wc_fold = (=),
     wc_email = Some, wc_name = Some, wc_object = (\<lambda>_. None), wc_sha256 = (\<lambda>_. []), wc_registration = (\<lambda>_. []),
     wc_domain = \<lparr>jc_team = (\<lambda>_. Inl []), jc_name = (\<lambda>_. Inl []), jc_member = (\<lambda>_. Inl []), jc_roles = (\<lambda>_. Inl []),
       jc_grant = (\<lambda>_. Inl []), jc_invitation = (\<lambda>_. Inl []), jc_user = (\<lambda>_. Inl [])\<rparr>,
     wc_ttl = 60 * second, wc_endpoint = [], wc_inviter = None,
     wc_updates = Some \<lparr>um_Check = (\<lambda>_. Inl []), um_Request = (\<lambda>_ _. None)\<rparr>, wc_update_body = Some\<rparr>"

definition demo_around :: web_env where
  "demo_around = \<lparr>we_en = demo_env, we_http = (\<lambda>k _. Inr (200, if k = 1 then ''a@x'' else [])),
     we_manager = \<lparr>wm_Connect = (\<lambda>_. Inl NothingSent), wm_AuthExpired = False, wm_LastConnectError = ([], 0)\<rparr>\<rparr>"

definition demo_signin :: web_request where
  "demo_signin = \<lparr>wq_method = ''GET'', wq_path = [''auth'', ''callback''], wq_fetch_site = ''cross-site'', wq_cookie = None,
     wq_query = (\<lambda>k. if k = ''error'' then [] else k), wq_body = []\<rparr>"

definition demo_request :: "string \<Rightarrow> string list \<Rightarrow> string \<Rightarrow> web_request" where
  "demo_request m p b = \<lparr>wq_method = m, wq_path = p, wq_fetch_site = ''same-origin'', wq_cookie = Some ''i'', wq_query = (\<lambda>_. []), wq_body = b\<rparr>"

definition demo_row :: session_row where
  "demo_row = \<lparr>sn_id = ''i'', sn_token = ''t'', sn_cookie = ''n'', sn_me = ''a@x'', sn_created = FormatRFC3339 0, sn_expires = FormatRFC3339 sessionTTL\<rparr>"

definition demo_web :: web where
  "demo_web = \<lparr>w_console = demo_redeem, w_sessions = [], w_owner = None,
     w_logins = [(''state'', \<lparr>lt_verifier = ''v'', lt_redirectURI = ''u'', lt_created = 0\<rparr>)], w_updates = [], w_manager = []\<rparr>"

definition demo_claim :: "string \<Rightarrow> owner_row option" where
  "demo_claim e = Some \<lparr>or_email = e, or_me = [], or_bound_at = []\<rparr>"

lemma demo_sel [simp]:
  "wq_cookie (demo_request m p b) = Some ''i''" "wq_path (demo_request m p b) = p" "wq_method (demo_request m p b) = m"
  "wq_body (demo_request m p b) = b" "wq_fetch_site (demo_request m p b) = ''same-origin''" "we_en demo_around = demo_env"
  "wc_lower demo_conf = id" "wc_email demo_conf = Some" "wc_update_body demo_conf = Some"
  "wc_updates demo_conf = Some \<lparr>um_Check = (\<lambda>_. Inl []), um_Request = (\<lambda>_ _. None)\<rparr>"
  "se_Me (session_of_row demo_row) = ''a@x''" "en_fault demo_env k = TxOk"
  by (simp_all add: demo_request_def demo_around_def demo_conf_def session_of_row_def demo_row_def demo_env_def)

lemma demo_ttl: "time_ok sessionTTL" "time_ok (60 * second + sessionTTL)"
  by code_simp+

lemma demo_web_clocks: "web_clocks demo_conf demo_env"
proof -
  have "time_ok (60 * second + 60 * second)" by code_simp
  then show ?thesis
    using demo_ttl demo_times(3) by (simp add: web_clocks_def demo_conf_def clocks_ok_def demo_env_def)
qed

lemma demo_row_live: "live_at (60 * second) demo_row"
proof -
  have "60 * second \<le> sessionTTL div second * second" by code_simp
  then show ?thesis by (simp add: live_at_def demo_row_def parse_FormatRFC3339 [OF demo_ttl(1)])
qed

lemma demo_principal [simp]: "canonicalEmail id ''a@x'' = ''a@x''"
proof -
  have "trim_space ''a@x'' = ''a@x''" by (rule trim_space_ascii) (simp_all add: is_space_def)
  then show ?thesis by (simp add: canonicalEmail_def)
qed

lemma demo_admin: "gs_orgAdmin (c_groups demo_redeem) = []"
  using groups_load [OF demo_dir demo_agree, of groups_NewStore] demo_valid
  by (auto simp: demo_org_def groups_NewStore_def validatePersonKey_def)

lemma demo_session_id: "\<exists>i. newSessionID demo_entropy = Some i"
  by (rule exI) code_simp

lemma demo_session_found:
  "wq_cookie q = Some ''i'' \<Longrightarrow> w_sessions w = [demo_row] \<Longrightarrow> sessionFrom demo_env k q w = (Some (session_of_row demo_row), w)"
proof -
  have "(case se_ExpiresAt (session_of_row demo_row) of None \<Rightarrow> False | Some e \<Rightarrow> e < 60 * second) = False"
    using demo_row_live by (auto simp: live_at_def session_of_row_def split: option.split)
  then show "wq_cookie q = Some ''i'' \<Longrightarrow> w_sessions w = [demo_row] \<Longrightarrow> ?thesis"
    by (cases w) (simp add: sessionFrom_def session_get_def demo_env_def tab_def Let_def, simp add: demo_row_def)
qed

subsection \<open>Properties\<close>

text \<open>
  C20. The claim of the console is final and carries the authority. Over any history of browser
  requests, gRPC requests and restarts, with any faults, an owner once bound stays bound as it was,
  and the org admin is nobody or has an address that counts as that of the owner: no other account,
  whatever it does, becomes org admin. The stores stay sound meanwhile.
\<close>

theorem owner_claim_is_final:
  assumes ok: "list_all (web_event_ok W) es" and w: "admin_ok W w" "plane_ok (w_console w)"
  shows "(\<forall>r. w_owner w = Some r \<longrightarrow> w_owner (web_run W es w) = Some r) \<and> admin_ok W (web_run W es w) \<and>
    plane_ok (w_console (web_run W es w))"
  using web_admin.web_run_ok [OF w(1) ok] web_stores.web_run_ok [OF w(2) ok]
    web_owner.web_run_ok [of "w_owner w" w W es] ok by auto

theorem owner_claim_is_final_witness:
  "w_owner (web_run demo_conf [WRequest demo_around demo_signin, WRestart demo_env] (demo_web\<lparr>w_owner := demo_claim ''o@x''\<rparr>)) = demo_claim ''o@x''"
proof -
  have "list_all (web_event_ok demo_conf) [WRequest demo_around demo_signin, WRestart demo_env]"
    using demo_web_clocks by (simp add: demo_around_def)
  from owner_claim_is_final [OF this, of "demo_web\<lparr>w_owner := demo_claim ''o@x''\<rparr>"] demo_admin demo_redeem_ok
  show ?thesis by (simp add: admin_ok_def demo_web_def demo_claim_def del: demo_redeem_sel)
qed

lemma callback_twice:
  assumes "map_of (w_logins w) (wq_query q ''state'') = None" "wq_path q = [''auth'', ''callback'']"
  shows "snd (web_serve W E q w) = w \<and> \<not> opens (fst (web_serve W E q w))"
  using assms by (simp add: web_serve_def handleCallback_def login_take_def Let_def)

lemma callback_opens:
  assumes s: "handleCallback W E q w = (a, w')" and c: "\<not> sheds w (a, w')"
  shows "\<exists>i tx tok row. rp_cookie a = SetCookie i \<and> map_of (w_logins w) (wq_query q ''state'') = Some tx \<and>
      ExchangeLocalToken (we_http E 0) (wc_cloud W) (wq_query q ''code'') (lt_verifier tx) (lt_redirectURI tx) = Inr tok \<and>
      w_sessions w' = w_sessions w @ [row] \<and> sn_id row = i \<and> sn_token row = lk_SessionToken tok \<and>
      sn_me row = principal W E tok \<and> emailFromMe W (sn_me row) \<noteq> [] \<and>
      (\<exists>ow. w_owner w' = Some ow \<and> (w_owner w = None \<longrightarrow> or_email ow = canonicalEmail (wc_lower W) (emailFromMe W (sn_me row)))) \<and>
      map_of (w_logins w') (wq_query q ''state'') = None"
  using s
proof (cases rule: callback_effect)
  case (failed code l t)
  with c show ?thesis by (simp add: sheds_def)
next
  case (bound tx tok own t)
  let ?v = "w\<lparr>w_logins := AList.delete (wq_query q ''state'') (w_logins w), w_owner := t\<rparr>"
  let ?e = "emailFromMe W (principal W E tok)"
  let ?u = "if wc_fold W (ow_Email own) ?e then registerOwner ?e ?v else ?v"
  have u: "w_sessions ?u = w_sessions w" "w_owner ?u = t" "w_logins ?u = AList.delete (wq_query q ''state'') (w_logins w)"
    by (simp_all add: registerOwner_def)
  have t: "\<exists>ow. t = Some ow \<and> (w_owner w = None \<longrightarrow> or_email ow = canonicalEmail (wc_lower W) ?e)"
    using bound(7) by (auto simp: bindIfAbsent_def owner_get_def Let_def split: if_splits option.splits sum.splits)
  from bound(8) have "open_session W (we_en E) tok (principal W E tok) ?u = (a, w')" by (simp add: Let_def)
  then show ?thesis
  proof (cases rule: open_session_effect)
    case 1
    with c u(1) show ?thesis by (simp add: sheds_def)
  next
    case (2 j row)
    then have "w_sessions w' = w_sessions w @ [row]" "w_owner w' = t" "w_logins w' = AList.delete (wq_query q ''state'') (w_logins w)"
      using u by simp_all
    with bound t 2 show ?thesis by (auto simp: delete_conv')
  qed
qed

lemma step_sheds:
  assumes "\<forall>E q. e = WRequest E q \<longrightarrow> sheds w (web_serve W E q w)"
  shows "subseq (w_sessions (web_step W e w)) (w_sessions w)"
proof (cases e)
  case (WRestart en)
  then show ?thesis
    by (auto simp: NewHandler_def newSessionStore_def registerOwner_def sql_delete_def Let_def split: sum.split option.split)
qed (use assms in \<open>simp_all add: sheds_def\<close>)

text \<open>
  C29. A login is worth one session, of the account the cloud names. Whatever happens to the web
  console, a request of a browser, a request of the gRPC plane or a restart, sessions only go and no
  session cookie is handed out, unless it is a callback with the state of a handshake in flight, whose
  code the cloud exchanged against the verifier kept for that state and whose principal has an address.
  The console is then claimed, by that address if it was not claimed before, exactly one session is
  added, the one whose cookie is handed out, and the state is spent: a later callback with it opens
  nothing and changes nothing.
\<close>

theorem login_is_single_use:
  "subseq (w_sessions (web_step W e w)) (w_sessions w) \<and> (\<forall>E q. e = WRequest E q \<longrightarrow> \<not> opens (fst (web_serve W E q w))) \<or>
   (\<exists>E q i tx tok row. e = WRequest E q \<and> wq_path q = [''auth'', ''callback''] \<and> rp_cookie (fst (web_serve W E q w)) = SetCookie i \<and>
      map_of (w_logins w) (wq_query q ''state'') = Some tx \<and>
      ExchangeLocalToken (we_http E 0) (wc_cloud W) (wq_query q ''code'') (lt_verifier tx) (lt_redirectURI tx) = Inr tok \<and>
      w_sessions (web_step W e w) = w_sessions w @ [row] \<and> sn_id row = i \<and> sn_token row = lk_SessionToken tok \<and>
      sn_me row = principal W E tok \<and> emailFromMe W (sn_me row) \<noteq> [] \<and>
      (\<exists>ow. w_owner (web_step W e w) = Some ow \<and>
         (w_owner w = None \<longrightarrow> or_email ow = canonicalEmail (wc_lower W) (emailFromMe W (sn_me row)))) \<and>
      (\<forall>E' q'. wq_path q' = [''auth'', ''callback''] \<longrightarrow> wq_query q' ''state'' = wq_query q ''state'' \<longrightarrow>
         web_step W (WRequest E' q') (web_step W e w) = web_step W e w \<and> \<not> opens (fst (web_serve W E' q' (web_step W e w)))))"
proof (cases "\<forall>E q. e = WRequest E q \<longrightarrow> sheds w (web_serve W E q w)")
  case True
  from step_sheds [OF this] True show ?thesis by (simp add: sheds_def)
next
  case False
  then obtain E q where e: "e = WRequest E q" and n: "\<not> sheds w (web_serve W E q w)" by blast
  then have p: "wq_path q = [''auth'', ''callback'']" "get_or_head q" using web_serve_sheds by blast+
  then have s: "handleCallback W E q w = (fst (web_serve W E q w), snd (web_serve W E q w))" by (simp add: web_serve_def)
  have "\<not> sheds w (fst (web_serve W E q w), snd (web_serve W E q w))" using n by simp
  from callback_opens [OF s this] e p(1) callback_twice [of "snd (web_serve W E q w)"] show ?thesis
    by (intro disjI2) (elim exE conjE, intro exI [of _ E] exI [of _ q], auto)
qed

lemma demo_login:
  "\<exists>i. fst (handleCallback demo_conf demo_around demo_signin demo_web) = \<lparr>rp_status = 302, rp_cookie = SetCookie i, rp_body = Location ''s/''\<rparr>"
proof -
  obtain i where "newSessionID demo_entropy = Some i" using demo_session_id by blast
  then show ?thesis
    by (simp add: handleCallback_def demo_signin_def demo_web_def demo_conf_def demo_around_def demo_cloud_def demo_env_def Let_def login_take_def
        ExchangeLocalToken_def do_call_def raw_call_def principal_def Me_def emailFromMe_def rawEmailFromMe_def
        bindIfAbsent_def owner_get_def open_session_def session_create_def tab_def registerOwner_def)
qed

theorem login_is_single_use_witness:
  "let w' = web_step demo_conf (WRequest demo_around demo_signin) demo_web
   in \<exists>i row. rp_cookie (fst (web_serve demo_conf demo_around demo_signin demo_web)) = SetCookie i \<and>
    w_sessions w' = [row] \<and> sn_id row = i \<and> sn_token row = ''t'' \<and>
    web_step demo_conf (WRequest demo_around demo_signin) w' = w' \<and> \<not> opens (fst (web_serve demo_conf demo_around demo_signin w'))"
proof -
  define w' where "w' = web_step demo_conf (WRequest demo_around demo_signin) demo_web"
  have p: "wq_path demo_signin = [''auth'', ''callback'']" "w_sessions demo_web = []" by (simp_all add: demo_signin_def demo_web_def)
  then have "web_serve demo_conf demo_around demo_signin demo_web = handleCallback demo_conf demo_around demo_signin demo_web"
    by (simp add: web_serve_def get_or_head_def demo_signin_def)
  then have o: "opens (fst (web_serve demo_conf demo_around demo_signin demo_web))" using demo_login by (auto simp: opens_def)
  have "ExchangeLocalToken (we_http demo_around 0) (wc_cloud demo_conf) code v u = Inr \<lparr>lk_SessionToken = ''t'', lk_CookieName = ''n''\<rparr>" for code v u
    by (simp add: ExchangeLocalToken_def do_call_def raw_call_def demo_conf_def demo_around_def demo_cloud_def)
  with login_is_single_use [of demo_conf "WRequest demo_around demo_signin" demo_web, folded w'_def] o p show ?thesis
    unfolding w'_def [symmetric] Let_def by fastforce
qed

text \<open>
  C19. Whatever changes the console needs a live session of the same origin. From a console without
  sessions, after any history, a request other than a callback changes only sessions and handshakes
  unless it is of the same origin and its cookie names a session that began at most twelve hours ago;
  and a callback changes no store of the console but the name of the org admin, no update request and
  no command to the data plane.
\<close>

theorem changes_need_live_session:
  assumes ok: "list_all (web_event_ok W) es" "w_sessions w0 = []" and w: "w = web_run W es w0"
    and s: "web_serve W E q w = (a, w')"
  shows "(wq_path q \<noteq> [''auth'', ''callback''] \<longrightarrow> only_sessions w w' \<or>
      same_origin q \<and> (\<exists>r \<in> set (w_sessions w). wq_cookie q = Some (sn_id r) \<and>
        (\<exists>began. sn_created r = FormatRFC3339 began \<and> en_clock (we_en E) 50 \<le> began + 12 * 60 * 60 * second))) \<and>
    (wq_path q = [''auth'', ''callback''] \<longrightarrow>
      (\<exists>e. w_console w' = (w_console w)\<lparr>c_groups := SetOrgAdmin e (c_groups (w_console w))\<rparr>) \<and>
      w_updates w' = w_updates w \<and> w_manager w' = w_manager w)"
proof (intro conjI impI)
  assume "wq_path q \<noteq> [''auth'', ''callback'']"
  from web_serve_effect [OF s this]
  show "only_sessions w w' \<or> same_origin q \<and> (\<exists>r \<in> set (w_sessions w). wq_cookie q = Some (sn_id r) \<and>
        (\<exists>began. sn_created r = FormatRFC3339 began \<and> en_clock (we_en E) 50 \<le> began + 12 * 60 * 60 * second))"
  proof (elim disjE conjE exE)
    fix r assume o: "same_origin q" and r: "signed_in (en_clock (we_en E) 50) q w r"
    from web_timed.web_run_ok [OF _ ok(1), of w0] ok(2) r have "timed r" by (simp add: w signed_in_def)
    then obtain began where "sn_created r = FormatRFC3339 began" "en_clock (we_en E) 50 \<le> began + sessionTTL"
      using r by (auto simp: signed_in_def elim: timed_live)
    with o r show ?thesis by (auto simp: signed_in_def sessionTTL_def minute_def)
  qed simp
next
  assume p: "wq_path q = [''auth'', ''callback'']"
  from p web_serve_outside [OF s] only_sessions_keeps callback_keeps [of W E q w a w']
  have "(\<exists>e. w_console w' = (w_console w)\<lparr>c_groups := SetOrgAdmin e (c_groups (w_console w))\<rparr>) \<and>
      w_updates w' = w_updates w \<and> w_manager w' = w_manager w" by auto
  then show "\<exists>e. w_console w' = (w_console w)\<lparr>c_groups := SetOrgAdmin e (c_groups (w_console w))\<rparr>"
    "w_updates w' = w_updates w" "w_manager w' = w_manager w" by blast+
qed

theorem changes_need_live_session_witness:
  "let w = web_run demo_conf [WRequest demo_around demo_signin] demo_web;
       w' = snd (web_serve demo_conf demo_around (demo_request ''DELETE'' [''api'', ''v1'', ''workspace''] []) w)
   in only_sessions w w' \<or> (\<exists>r \<in> set (w_sessions w). sn_id r = ''i'' \<and>
       (\<exists>began. sn_created r = FormatRFC3339 began \<and> 60 * second \<le> began + 12 * 60 * 60 * second))"
proof -
  let ?q = "demo_request ''DELETE'' [''api'', ''v1'', ''workspace''] []"
  have "list_all (web_event_ok demo_conf) [WRequest demo_around demo_signin]" using demo_web_clocks by (simp add: demo_around_def)
  from changes_need_live_session [OF this _ refl surjective_pairing, where ?w0.0 = demo_web and E = demo_around and q = ?q]
  show ?thesis by (auto simp: Let_def demo_web_def demo_request_def demo_around_def demo_env_def)
qed

lemma asking_needs_owner:
  assumes s: "web_serve W E q w = (a, w')" and n: "w_updates w' \<noteq> w_updates w"
  shows "owner_asks W E q w \<and> (\<exists>v. w_updates w' = w_updates w @ [v] \<and> v \<noteq> [] \<and> (\<exists>u. v = trim_space u))"
proof -
  from n s have "\<exists>r. wq_path q = ''api'' # ''v1'' # r \<and> r \<noteq> []"
    using web_serve_outside [of W E q w a w'] callback_updates only_sessions_updates by blast
  with s have g: "origin (requireSession (api_handler W q)) E q w = (a, w')" by (auto simp: web_serve_def)
  from g n show ?thesis
  proof (cases rule: guarded)
    case (3 r)
    then have "w_updates (snd (api_handler W q E q w)) \<noteq> w_updates w" using n by simp
    then obtain um where "api_handler W q = requireOwner W (handleUpdateRequest W um)" using api_updates by blast
    with 3 have "requireOwner W (handleUpdateRequest W um) E q w = (a, w')" by simp
    then show ?thesis
    proof (cases rule: owner_guarded)
      case (owner r ow)
      with UpdateRequest_effect [OF owner(5)] n 3(1) show ?thesis unfolding owner_asks_def by blast
    qed (use n in simp)
  qed simp_all
qed

text \<open>
  C21. Updates are for the owner. A request reaches the manager of updates, be it that it asks for an
  update or that its outcome depends in any way on what the manager says, only when it is of the same
  origin, its cookie names a live session, the console is claimed, and the principal of the session has
  the address of the owner. It asks for at most one version, trimmed and non-empty.
\<close>

theorem updates_need_owner:
  assumes s: "web_serve W E q w = (a, w')" and n: "w_updates w' \<noteq> w_updates w \<or>
    (\<exists>um um'. web_serve (W\<lparr>wc_updates := Some um\<rparr>) E q w \<noteq> web_serve (W\<lparr>wc_updates := Some um'\<rparr>) E q w)"
  shows "same_origin q \<and> (w_updates w' = w_updates w \<or> (\<exists>v. w_updates w' = w_updates w @ [v] \<and> v \<noteq> [] \<and> (\<exists>u. v = trim_space u))) \<and>
    (\<exists>r ow. signed_in (en_clock (we_en E) 53) q w r \<and> w_owner w = Some ow \<and>
       canonicalEmail (wc_lower W) (or_email ow) = canonicalEmail (wc_lower W) (emailFromMe W (sn_me r)) \<and>
       canonicalEmail (wc_lower W) (or_email ow) \<noteq> [])"
proof -
  have "owner_asks W E q w" using n asking_needs_owner [OF s] updates_differ by blast
  moreover have "w_updates w' = w_updates w \<or> (\<exists>v. w_updates w' = w_updates w @ [v] \<and> v \<noteq> [] \<and> (\<exists>u. v = trim_space u))"
    using asking_needs_owner [OF s] by blast
  ultimately show ?thesis unfolding owner_asks_def by blast
qed

lemma demo_update:
  defines "w \<equiv> demo_web\<lparr>w_sessions := [demo_row], w_owner := demo_claim ''a@x''\<rparr>"
  shows "w_updates (snd (web_serve demo_conf demo_around (demo_request ''POST'' [''api'', ''v1'', ''system'', ''update''] ''v2'') w)) = [''v2'']"
proof -
  have f: "sessionFrom demo_env k (demo_request m p b) w = (Some (session_of_row demo_row), w)" for k m p b
    by (rule demo_session_found) (simp_all add: demo_request_def w_def)
  have "w_owner w = demo_claim ''a@x''" "w_updates w = []" by (simp_all add: w_def demo_web_def)
  moreover have "trim_space ''v2'' = ''v2''" by (rule trim_space_ascii) (simp_all add: is_space_def)
  moreover have "ownerEmailFromRequest demo_conf demo_env 53 (demo_request m p b) w = (''a@x'', w)" for m p b
    by (simp add: ownerEmailFromRequest_def f emailFromMe_def rawEmailFromMe_def)
  ultimately show ?thesis
    by (simp add: web_serve_def origin_def requireSession_def api_handler_def get_or_head_def requireOwner_def owner_get_def
        owner_request_updates handleUpdateRequest_def decodeUpdateRequest_def Let_def demo_claim_def f)
qed

theorem updates_need_owner_witness:
  "let w = demo_web\<lparr>w_sessions := [demo_row], w_owner := demo_claim ''a@x''\<rparr>;
       q = demo_request ''POST'' [''api'', ''v1'', ''system'', ''update''] ''v2''
   in w_updates (snd (web_serve demo_conf demo_around q w)) = [''v2''] \<and> same_origin q \<and>
    (\<exists>r ow. signed_in (60 * second) q w r \<and> w_owner w = Some ow \<and> canonicalEmail id (or_email ow) = canonicalEmail id (emailFromMe demo_conf (sn_me r)))"
proof -
  define w where "w = demo_web\<lparr>w_sessions := [demo_row], w_owner := demo_claim ''a@x''\<rparr>"
  define q where "q = demo_request ''POST'' [''api'', ''v1'', ''system'', ''update''] ''v2''"
  have u: "w_updates (snd (web_serve demo_conf demo_around q w)) = [''v2'']" "w_updates w = []"
    using demo_update by (simp_all add: w_def q_def demo_web_def)
  then have "w_updates (snd (web_serve demo_conf demo_around q w)) \<noteq> w_updates w" by simp
  from updates_need_owner [OF surjective_pairing disjI1 [OF this]] u(1) show ?thesis
    unfolding w_def [symmetric] q_def [symmetric] Let_def
    by (auto simp: demo_around_def demo_env_def demo_conf_def)
qed

text \<open>
  Ownership does not protect the domain API. A request to it with any live session of the same
  origin is served in full, as the operator named by that session and with no regard to who owns the
  console: teams, users, memberships and invitations are changed by whoever may log in.
\<close>

theorem domain_api_ignores_owner:
  assumes p: "wq_path q = ''api'' # ''v1'' # p" "p \<noteq> []" "hd p \<notin> {''system'', ''workspace'', ''invite''}"
    and o: "same_origin q" and r: "wq_cookie q = Some (sn_id r)" "tab sn_id (w_sessions w) (sn_id r) = Some r" "sn_id r \<noteq> []"
    and k: "live_at (en_clock (we_en E) 50) r" "live_at (en_clock (we_en E) 55) r"
      "en_fault (we_en E) 50 = TxOk" "en_fault (we_en E) 55 = TxOk"
    and api: "api_serve (wc_lower W) (wc_domain W) (operator_mail W E (sn_cookie r @ ''='' @ sn_token r) (c_cfg (w_console w))) (we_en E)
      \<lparr>rq_method = wq_method q, rq_path = p, rq_query = wq_query q, rq_body = wq_body q, rq_actor = emailFromMe W (sn_me r)\<rparr>
      (w_console w) = (st, c)"
  shows "web_serve W E q w = (writeJSON st DomainBody, w\<lparr>w_console := c\<rparr>)"
proof -
  have live: "\<not> (case parse_rfc3339 (sn_expires r) of None \<Rightarrow> False | Some e \<Rightarrow> e < now)" if "live_at now r" for now
    using that by (auto simp: live_at_def split: option.splits)
  have f: "sessionFrom (we_en E) j q w = (Some (session_of_row r), w)"
    if "live_at (en_clock (we_en E) j) r" "en_fault (we_en E) j = TxOk" for j
    using r that live [OF that(1)] by (simp add: sessionFrom_def session_get_def session_of_row_def Let_def)
  obtain x xs where x: "p = x # xs" "x \<noteq> ''system''" "x \<noteq> ''workspace''" "x \<noteq> ''invite''" using p(2,3) by (cases p) auto
  then have h: "api_handler W q = withOperator W" by (simp add: api_handler_def Let_def p(1))
  have "web_serve W E q w = origin (requireSession (api_handler W q)) E q w" using p by (simp add: web_serve_def)
  also have "\<dots> = withOperator W E q w"
    using o f [OF k(1,3)] by (simp add: origin_def same_origin_def requireSession_def h)
  also have "\<dots> = (writeJSON st DomainBody, w\<lparr>w_console := c\<rparr>)"
    using f [OF k(2,4)] api p by (simp add: withOperator_def session_of_row_def CloudCookie_def)
  finally show ?thesis .
qed

theorem domain_api_ignores_owner_witness:
  defines "w \<equiv> demo_web\<lparr>w_sessions := [demo_row], w_owner := demo_claim ''o@x''\<rparr>"
    and "q \<equiv> demo_request ''DELETE'' [''api'', ''v1'', ''users''] []"
    and "api \<equiv> api_serve id (wc_domain demo_conf) (operator_mail demo_conf demo_around ''n=t'' (c_cfg demo_redeem)) demo_env
      \<lparr>rq_method = ''DELETE'', rq_path = [''users''], rq_query = (\<lambda>_. []), rq_body = [], rq_actor = ''a@x''\<rparr> demo_redeem"
  shows "web_serve demo_conf demo_around q w = (writeJSON (fst api) DomainBody, w\<lparr>w_console := snd api\<rparr>)"
  unfolding w_def q_def api_def
  by (rule domain_api_ignores_owner [where r = demo_row and p = "[''users'']"])
    (use demo_row_live in \<open>simp_all add: demo_request_def same_origin_def demo_web_def demo_around_def demo_env_def demo_row_def tab_def
       demo_conf_def emailFromMe_def rawEmailFromMe_def\<close>)

end
