(* ===== verification/Dataplane.thy ===== *)
theory Dataplane
  imports Cloud_Client
begin

text \<open>
  The manager of the console's one engine connection (\<open>internal/console/dataplane.go\<close>). Its methods run
  concurrently: requests of the web console (\<open>Connect\<close>, \<open>Disconnect\<close>, \<open>Pause\<close>, \<open>Resume\<close>) and the
  goroutines they start (the loop that attaches the engine, the loop that renews the token). A thread is
  where it stands; a step is one critical section under \<open>mu\<close>, one statement on the database, one call of
  the cloud or of the engine, or one test between them. Steps of different threads may come in any order.
\<close>

subsection \<open>State\<close>

record cred =
  cr_RefreshToken :: string
  cr_RunespaceID :: string
  cr_Addr :: string

text \<open>
  Contexts of loops are numbers, handed out in order; \<open>dp_cancel\<close> is the one the manager can cancel. The
  engine is what was dialed last: an address and a token.
\<close>

record dataplane =
  dp_cred :: "cred option"
  dp_connecting :: bool
  dp_attachTarget :: string
  dp_attachedID :: string
  dp_authExpired :: bool
  dp_lastConnect :: "string \<times> time"
  dp_cancel :: "nat option"
  dp_next :: nat
  dp_cancelled :: "nat list"
  dp_engine :: "(string \<times> string) option"
  dp_retryBase :: int
  dp_retryMax :: int

definition connectRetryBase :: int where "connectRetryBase = 15 * second"
definition connectRetryMax :: int where "connectRetryMax = 2 * 60 * second"

definition newDataplane :: "cred option \<Rightarrow> dataplane" where
  "newDataplane persisted = \<lparr>dp_cred = persisted, dp_connecting = False, dp_attachTarget = [], dp_attachedID = [], dp_authExpired = False,
     dp_lastConnect = ([], 0), dp_cancel = None, dp_next = 0, dp_cancelled = [], dp_engine = None,
     dp_retryBase = connectRetryBase, dp_retryMax = connectRetryMax\<rparr>"

definition connectable :: "workspace \<Rightarrow> bool" where
  "connectable ws \<longleftrightarrow> ws_Phase ws \<in> {''running'', ''provisioning'', ''starting''} \<and> ws_Host ws \<noteq> []"

definition engine_ready :: "dataplane \<Rightarrow> bool" where
  "engine_ready d \<longleftrightarrow> dp_engine d \<noteq> None"

text \<open>The answers a step may need: of the cloud, of the dial, of the database, of the timers and of a context.\<close>

record answer =
  an_workspace :: "cloud_error + workspace option"
  an_created :: "cloud_error + workspace"
  an_bootstrap :: "cloud_error + bootstrap"
  an_token :: "cloud_error + string"
  an_dial :: "string option"
  an_db :: bool
  an_tick :: bool
  an_done :: bool
  an_now :: time

subsection \<open>Critical sections\<close>

text \<open>\<open>Stop\<close> cancels the current loop.\<close>

definition cancel_current :: "dataplane \<Rightarrow> dataplane" where
  "cancel_current d = (case dp_cancel d of None \<Rightarrow> d | Some c \<Rightarrow> d\<lparr>dp_cancelled := c # dp_cancelled d\<rparr>)"

definition Stop :: "dataplane \<Rightarrow> dataplane" where
  "Stop d = (cancel_current d)\<lparr>dp_cancel := None\<rparr>"

text \<open>The head of \<open>startConnectLoop\<close> and of \<open>startRefreshLoop\<close>: a fresh context replaces the current one.\<close>

definition new_loop :: "dataplane \<Rightarrow> nat \<times> dataplane" where
  "new_loop d = (dp_next d, (cancel_current d)\<lparr>dp_cancel := Some (dp_next d), dp_next := Suc (dp_next d)\<rparr>)"

definition releaseAttachSlot :: "dataplane \<Rightarrow> dataplane" where
  "releaseAttachSlot d = d\<lparr>dp_attachTarget := [], dp_connecting := False\<rparr>"

definition cancelled :: "dataplane \<Rightarrow> nat \<Rightarrow> bool" where
  "cancelled d c \<longleftrightarrow> c \<in> set (dp_cancelled d)"

definition DisconnectEngine :: "dataplane \<Rightarrow> dataplane" where
  "DisconnectEngine d = d\<lparr>dp_engine := None\<rparr>"

definition setLastConnectErr :: "time \<Rightarrow> string option \<Rightarrow> dataplane \<Rightarrow> dataplane" where
  "setLastConnectErr now e d = d\<lparr>dp_lastConnect := (case e of None \<Rightarrow> ([], 0) | Some m \<Rightarrow> (m, now))\<rparr>"

definition setAuthExpired :: "bool \<Rightarrow> dataplane \<Rightarrow> dataplane" where
  "setAuthExpired b d = d\<lparr>dp_authExpired := b\<rparr>"

text \<open>The statements on the credential; one that fails has no effect.\<close>

definition saveCred :: "bool \<Rightarrow> cred \<Rightarrow> dataplane \<Rightarrow> bool \<times> dataplane" where
  "saveCred ok c d = (ok, if ok then d\<lparr>dp_cred := Some c\<rparr> else d)"

definition loadCred :: "bool \<Rightarrow> dataplane \<Rightarrow> cred option" where
  "loadCred ok d = (if ok then dp_cred d else None)"

definition clearCred :: "bool \<Rightarrow> dataplane \<Rightarrow> dataplane" where
  "clearCred ok d = (if ok then d\<lparr>dp_cred := None\<rparr> else d)"

definition clearCredIf :: "bool \<Rightarrow> string \<Rightarrow> dataplane \<Rightarrow> bool \<times> dataplane" where
  "clearCredIf ok tok d =
     (case dp_cred d of
        Some c \<Rightarrow> if ok \<and> cr_RefreshToken c = tok then (True, d\<lparr>dp_cred := None\<rparr>) else (False, d)
      | None \<Rightarrow> (False, d))"

subsection \<open>Where a thread stands\<close>

text \<open>For whom the slot is acquired, and for whom a refresh token is exchanged.\<close>

datatype attach = ForConnect workspace | ForStart cred | ForResume cred

datatype exchanger = ByConnect nat cred int | ByRefresh nat cred

type_synonym connect_result = "(cloud_error + workspace) option"

datatype connect_pc = CGet | CCreate | CRead workspace | CShortcut workspace string bool
  | CReget workspace | CTarget workspace | CRecheck workspace string bool | CStale workspace
  | CStop workspace | CDetach workspace | CForget workspace | CBootstrap workspace | CSave workspace cred

datatype acquire_pc = AcqTry attach nat | AcqStop attach nat | AcqWait attach nat

datatype slot_pc = Spawn cred connect_result | Release connect_result

datatype resume_pc = RLoad | RValidate cred | RRead cred | RCheck cred string

datatype exchange_pc = XCall exchanger | XClear exchanger cloud_error | XRaise exchanger cloud_error | XLower exchanger string

datatype reconnect_pc = LDial nat cred int string | LFailed nat cred int string bool | LNote nat cred int string bool
  | LOk cred | LAttached cred | LRefresh

datatype loop_pc = LJudge nat cred int bool | LWait nat cred int | LReload nat cred int

datatype refresh_pc = FWait nat | FLoad nat | FDial nat cred string

datatype disconnect_pc = DStop | DClear | DDetach | DReset

datatype pause_pc = PStop | PDetach | PReset

datatype pc = AtConnect connect_pc | AtAcquire acquire_pc | AtSlot slot_pc | AtStart | AtResume resume_pc | AtExchange exchange_pc
  | AtReconnect reconnect_pc | AtLoop loop_pc | AtRefresh refresh_pc | AtDisconnect disconnect_pc | AtPause pause_pc | Done connect_result

text \<open>A step gives the next position, the threads it starts, and the state.\<close>

type_synonym outcome = "pc \<times> pc list \<times> dataplane"

abbreviation go :: "pc \<Rightarrow> dataplane \<Rightarrow> outcome" where
  "go p d \<equiv> (p, [], d)"

subsection \<open>Acquiring the slot\<close>

fun slot_id :: "attach \<Rightarrow> string" where
  "slot_id (ForConnect ws) = ws_ID ws"
| "slot_id (ForStart c) = cr_RunespaceID c"
| "slot_id (ForResume c) = cr_RunespaceID c"

fun slot_taken :: "attach \<Rightarrow> pc" where
  "slot_taken (ForConnect ws) = AtConnect (CReget ws)"
| "slot_taken (ForStart c) = AtSlot (Spawn c None)"
| "slot_taken (ForResume c) = AtResume (RValidate c)"

fun slot_denied :: "attach \<Rightarrow> pc" where
  "slot_denied (ForConnect ws) = Done (Some (Inr ws))"
| "slot_denied (ForStart c) = Done None"
| "slot_denied (ForResume c) = Done None"

text \<open>The number counts the attempts that are left, fifty at first.\<close>

definition attach_attempts :: nat where "attach_attempts = 50"

definition acquire :: "attach \<Rightarrow> pc" where
  "acquire a = AtAcquire (AcqTry a attach_attempts)"

fun acquireAttachSlot :: "answer \<Rightarrow> acquire_pc \<Rightarrow> dataplane \<Rightarrow> outcome" where
  "acquireAttachSlot an (AcqTry a n) d =
     (if n = 0 then go (slot_denied a) d
      else if \<not> dp_connecting d then go (slot_taken a) (d\<lparr>dp_connecting := True, dp_attachTarget := slot_id a\<rparr>)
      else if dp_attachTarget d = slot_id a then go (slot_denied a) d
      else go (AtAcquire (AcqStop a n)) d)"
| "acquireAttachSlot an (AcqStop a n) d = go (AtAcquire (AcqWait a n)) (Stop d)"
| "acquireAttachSlot an (AcqWait a n) d =
     (if an_tick an then go (AtAcquire (AcqTry a (n - 1))) d
      else if an_done an then go (slot_denied a) d
      else go (AtAcquire (AcqWait a n)) d)"

subsection \<open>Connect\<close>

definition cred_of :: "workspace \<Rightarrow> bootstrap \<Rightarrow> cred" where
  "cred_of ws bs = \<lparr>cr_RefreshToken = bs_RefreshToken bs, cr_RunespaceID = ws_ID ws, cr_Addr = ws_Host ws @ '':443''\<rparr>"

definition already_exists :: "cloud_error \<Rightarrow> cloud_error" where
  "already_exists e = (case e of APIError a \<Rightarrow> if ap_Status a = 409 then WorkspaceExists e else e | _ \<Rightarrow> e)"

abbreviation fail :: "cloud_error \<Rightarrow> connect_result" where "fail e \<equiv> Some (Inl e)"
abbreviation view :: "workspace \<Rightarrow> connect_result" where "view ws \<equiv> Some (Inr ws)"

definition resolved :: "workspace \<Rightarrow> pc" where
  "resolved ws = (if connectable ws then AtConnect (CRead ws) else Done (view ws))"

fun Connect :: "answer \<Rightarrow> connect_pc \<Rightarrow> dataplane \<Rightarrow> outcome" where
  "Connect an CGet d =
     (case an_workspace an of
        Inl e \<Rightarrow> go (Done (fail e)) d
      | Inr None \<Rightarrow> go (AtConnect CCreate) d
      | Inr (Some ws) \<Rightarrow> go (resolved ws) d)"
| "Connect an CCreate d =
     (case an_created an of Inl e \<Rightarrow> go (Done (fail (already_exists e))) d | Inr ws \<Rightarrow> go (resolved ws) d)"
| "Connect an (CRead ws) d = go (AtConnect (CShortcut ws (dp_attachedID d) (dp_authExpired d))) d"
| "Connect an (CShortcut ws attached expired) d =
     go (if engine_ready d \<and> attached = ws_ID ws \<and> \<not> expired then Done (view ws) else acquire (ForConnect ws)) d"
| "Connect an (CReget ws) d =
     (let ws = (case an_workspace an of Inr (Some cur) \<Rightarrow> cur | _ \<Rightarrow> ws)
      in go (if connectable ws then AtConnect (CTarget ws) else AtSlot (Release (view ws))) d)"
| "Connect an (CTarget ws) d =
     go (AtConnect (CRecheck ws (dp_attachedID d) (dp_authExpired d))) (d\<lparr>dp_attachTarget := ws_ID ws\<rparr>)"
| "Connect an (CRecheck ws attached expired) d =
     go (if engine_ready d \<and> attached = ws_ID ws \<and> \<not> expired then AtSlot (Release (view ws)) else AtConnect (CStale ws)) d"
| "Connect an (CStale ws) d = go (AtConnect (if engine_ready d then CStop ws else CBootstrap ws)) d"
| "Connect an (CStop ws) d = go (AtConnect (CDetach ws)) (Stop d)"
| "Connect an (CDetach ws) d = go (AtConnect (CForget ws)) (DisconnectEngine d)"
| "Connect an (CForget ws) d = go (AtConnect (CBootstrap ws)) (d\<lparr>dp_attachedID := []\<rparr>)"
| "Connect an (CBootstrap ws) d =
     (case an_bootstrap an of
        Inl e \<Rightarrow> go (AtSlot (Release (fail e))) d
      | Inr bs \<Rightarrow> go (AtConnect (CSave ws (cred_of ws bs))) d)"
| "Connect an (CSave ws c) d =
     (case saveCred (an_db an) c d of
        (ok, d) \<Rightarrow> go (AtSlot (if ok then Spawn c (view ws) else Release (fail (StoreError [])))) d)"

text \<open>\<open>startConnectLoop\<close>, and the release of the slot, which the loop defers to its end.\<close>

fun startConnectLoop :: "answer \<Rightarrow> slot_pc \<Rightarrow> dataplane \<Rightarrow> outcome" where
  "startConnectLoop an (Spawn c r) d =
     (case new_loop d of (x, d) \<Rightarrow> (Done r, [AtExchange (XCall (ByConnect x c (dp_retryBase d)))], d))"
| "startConnectLoop an (Release r) d = go (Done r) (releaseAttachSlot d)"

subsection \<open>Start and resume\<close>

definition cred_current :: "bool \<Rightarrow> cred \<Rightarrow> dataplane \<Rightarrow> bool" where
  "cred_current ok c d \<longleftrightarrow> (case loadCred ok d of None \<Rightarrow> False | Some cur \<Rightarrow> cr_RefreshToken cur = cr_RefreshToken c)"

definition Start :: "answer \<Rightarrow> dataplane \<Rightarrow> outcome" where
  "Start an d = go (case loadCred (an_db an) d of None \<Rightarrow> Done None | Some c \<Rightarrow> acquire (ForStart c)) d"

fun Resume :: "answer \<Rightarrow> resume_pc \<Rightarrow> dataplane \<Rightarrow> outcome" where
  "Resume an RLoad d = (Done None, (case loadCred (an_db an) d of None \<Rightarrow> [] | Some c \<Rightarrow> [acquire (ForResume c)]), d)"
| "Resume an (RValidate c) d = go (if cred_current (an_db an) c d then AtResume (RRead c) else AtSlot (Release None)) d"
| "Resume an (RRead c) d = go (AtResume (RCheck c (dp_attachedID d))) d"
| "Resume an (RCheck c attached) d =
     go (AtSlot (if engine_ready d \<and> attached = cr_RunespaceID c then Release None else Spawn c None)) d"

subsection \<open>The token exchange\<close>

fun exchange_failed :: "exchanger \<Rightarrow> cloud_error \<Rightarrow> pc" where
  "exchange_failed (ByConnect x c delay) e = AtReconnect (LFailed x c delay (cloud_error_Error e) (IsUnauthorized e))"
| "exchange_failed (ByRefresh x c) e = (if IsUnauthorized e then Done None else AtRefresh (FWait x))"

fun exchanged :: "exchanger \<Rightarrow> string \<Rightarrow> pc" where
  "exchanged (ByConnect x c delay) tok = AtReconnect (LDial x c delay tok)"
| "exchanged (ByRefresh x c) tok = AtRefresh (FDial x c tok)"

fun refresh_token :: "exchanger \<Rightarrow> string" where
  "refresh_token (ByConnect x c delay) = cr_RefreshToken c"
| "refresh_token (ByRefresh x c) = cr_RefreshToken c"

text \<open>A credential the cloud rejects is dropped if it is still the stored one, and only then flagged.\<close>

fun exchange :: "answer \<Rightarrow> exchange_pc \<Rightarrow> dataplane \<Rightarrow> outcome" where
  "exchange an (XCall w) d =
     (case an_token an of
        Inl e \<Rightarrow> go (if IsUnauthorized e then AtExchange (XClear w e) else exchange_failed w e) d
      | Inr tok \<Rightarrow> go (AtExchange (XLower w tok)) d)"
| "exchange an (XClear w e) d =
     (case clearCredIf (an_db an) (refresh_token w) d of
        (hit, d) \<Rightarrow> go (if hit then AtExchange (XRaise w e) else exchange_failed w e) d)"
| "exchange an (XRaise w e) d = go (exchange_failed w e) (setAuthExpired True d)"
| "exchange an (XLower w tok) d = go (exchanged w tok) (setAuthExpired False d)"

subsection \<open>The loops\<close>

text \<open>\<open>ConnectRunespace\<close>: what was dialed becomes the engine.\<close>

definition ConnectRunespace :: "answer \<Rightarrow> string \<Rightarrow> string \<Rightarrow> dataplane \<Rightarrow> string option \<times> dataplane" where
  "ConnectRunespace an addr tok d =
     (case an_dial an of Some m \<Rightarrow> (Some m, d) | None \<Rightarrow> (None, d\<lparr>dp_engine := Some (addr, tok)\<rparr>))"

fun reconnect :: "answer \<Rightarrow> reconnect_pc \<Rightarrow> dataplane \<Rightarrow> outcome" where
  "reconnect an (LDial x c delay tok) d =
     (case ConnectRunespace an (cr_Addr c) tok d of
        (Some m, d) \<Rightarrow> go (AtReconnect (LFailed x c delay m False)) d
      | (None, d) \<Rightarrow> go (AtReconnect (LOk c)) d)"
| "reconnect an (LFailed x c delay m unauth) d =
     go (if cancelled d x then AtLoop (LJudge x c delay unauth) else AtReconnect (LNote x c delay m unauth)) d"
| "reconnect an (LNote x c delay m unauth) d = go (AtLoop (LJudge x c delay unauth)) (setLastConnectErr (an_now an) (Some m) d)"
| "reconnect an (LOk c) d = go (AtReconnect (LAttached c)) (setLastConnectErr (an_now an) None d)"
| "reconnect an (LAttached c) d = go (AtReconnect LRefresh) (d\<lparr>dp_attachedID := cr_RunespaceID c\<rparr>)"
| "reconnect an LRefresh d = (case new_loop d of (x, d) \<Rightarrow> (AtSlot (Release None), [AtRefresh (FWait x)], d))"

fun connectLoop :: "answer \<Rightarrow> loop_pc \<Rightarrow> dataplane \<Rightarrow> outcome" where
  "connectLoop an (LJudge x c delay unauth) d =
     go (if cancelled d x \<or> unauth then AtSlot (Release None) else AtLoop (LWait x c delay)) d"
| "connectLoop an (LWait x c delay) d =
     (if an_tick an then go (AtLoop (LReload x c (min (delay * 2) (dp_retryMax d)))) d
      else if cancelled d x then go (AtSlot (Release None)) d
      else go (AtLoop (LWait x c delay)) d)"
| "connectLoop an (LReload x c delay) d =
     go (if cred_current (an_db an) c d then AtExchange (XCall (ByConnect x c delay)) else AtSlot (Release None)) d"

fun refreshLoop :: "answer \<Rightarrow> refresh_pc \<Rightarrow> dataplane \<Rightarrow> outcome" where
  "refreshLoop an (FWait x) d =
     (if an_tick an then go (AtRefresh (FLoad x)) d
      else if cancelled d x then go (Done None) d
      else go (AtRefresh (FWait x)) d)"
| "refreshLoop an (FLoad x) d =
     go (case loadCred (an_db an) d of None \<Rightarrow> Done None | Some c \<Rightarrow> AtExchange (XCall (ByRefresh x c))) d"
| "refreshLoop an (FDial x c tok) d = go (AtRefresh (FWait x)) (snd (ConnectRunespace an (cr_Addr c) tok d))"

subsection \<open>Disconnect and pause\<close>

fun Disconnect :: "answer \<Rightarrow> disconnect_pc \<Rightarrow> dataplane \<Rightarrow> outcome" where
  "Disconnect an DStop d = go (AtDisconnect DClear) (Stop d)"
| "Disconnect an DClear d = go (AtDisconnect DDetach) (clearCred (an_db an) d)"
| "Disconnect an DDetach d = go (AtDisconnect DReset) (DisconnectEngine d)"
| "Disconnect an DReset d =
     go (Done None) (d\<lparr>dp_attachedID := [], dp_authExpired := False, dp_lastConnect := ([], 0), dp_attachTarget := []\<rparr>)"

fun Pause :: "answer \<Rightarrow> pause_pc \<Rightarrow> dataplane \<Rightarrow> outcome" where
  "Pause an PStop d = go (AtPause PDetach) (Stop d)"
| "Pause an PDetach d = go (AtPause PReset) (DisconnectEngine d)"
| "Pause an PReset d = go (Done None) (d\<lparr>dp_attachedID := [], dp_attachTarget := [], dp_lastConnect := ([], 0)\<rparr>)"

subsection \<open>Threads\<close>

fun pc_step :: "answer \<Rightarrow> pc \<Rightarrow> dataplane \<Rightarrow> outcome" where
  "pc_step an (AtConnect p) d = Connect an p d"
| "pc_step an (AtAcquire p) d = acquireAttachSlot an p d"
| "pc_step an (AtSlot p) d = startConnectLoop an p d"
| "pc_step an AtStart d = Start an d"
| "pc_step an (AtResume p) d = Resume an p d"
| "pc_step an (AtExchange p) d = exchange an p d"
| "pc_step an (AtReconnect p) d = reconnect an p d"
| "pc_step an (AtLoop p) d = connectLoop an p d"
| "pc_step an (AtRefresh p) d = refreshLoop an p d"
| "pc_step an (AtDisconnect p) d = Disconnect an p d"
| "pc_step an (AtPause p) d = Pause an p d"
| "pc_step an (Done r) d = go (Done r) d"

record manager =
  mg_dp :: dataplane
  mg_threads :: "pc list"

text \<open>The web console and the daemon start threads; any thread may take the next step.\<close>

datatype entry = OnConnect | OnDisconnect | OnPause | OnResume | OnStart

fun entry_pc :: "entry \<Rightarrow> pc" where
  "entry_pc OnConnect = AtConnect CGet"
| "entry_pc OnDisconnect = AtDisconnect DStop"
| "entry_pc OnPause = AtPause PStop"
| "entry_pc OnResume = AtResume RLoad"
| "entry_pc OnStart = AtStart"

datatype dp_event = Enter entry | Step nat answer

fun dp_step :: "dp_event \<Rightarrow> manager \<Rightarrow> manager" where
  "dp_step (Enter e) m = m\<lparr>mg_threads := mg_threads m @ [entry_pc e]\<rparr>"
| "dp_step (Step i an) m =
     (if i < length (mg_threads m)
      then (case pc_step an (mg_threads m ! i) (mg_dp m) of
              (p, ps, d) \<Rightarrow> \<lparr>mg_dp = d, mg_threads = (mg_threads m)[i := p] @ ps\<rparr>)
      else m)"

abbreviation dp_run :: "dp_event list \<Rightarrow> manager \<Rightarrow> manager" where
  "dp_run \<equiv> fold dp_step"

definition fresh_manager :: "cred option \<Rightarrow> manager" where
  "fresh_manager persisted = \<lparr>mg_dp = newDataplane persisted, mg_threads = []\<rparr>"

end
