(* ===== verification/Dataplane_Properties.thy ===== *)
theory Dataplane_Properties
  imports Dataplane
begin

text \<open>
  What holds of the data-plane manager under every interleaving of its threads: the attach slot is held
  by one thread at a time, one loop at a time is not cancelled, retries stay within their bounds, and a
  credential is dropped only by a disconnection or because the cloud rejected it.
\<close>

subsection \<open>What a thread holds\<close>

fun via_connect :: "exchanger \<Rightarrow> bool" where
  "via_connect (ByConnect x c delay) = True"
| "via_connect (ByRefresh x c) = False"

fun exchanger_of :: "exchange_pc \<Rightarrow> exchanger" where
  "exchanger_of (XCall w) = w"
| "exchanger_of (XClear w e) = w"
| "exchanger_of (XRaise w e) = w"
| "exchanger_of (XLower w tok) = w"

text \<open>The threads that owe the release of the slot.\<close>

fun holding :: "pc \<Rightarrow> bool" where
  "holding (AtConnect p) = (case p of CGet \<Rightarrow> False | CCreate \<Rightarrow> False | CRead _ \<Rightarrow> False | CShortcut _ _ _ \<Rightarrow> False | _ \<Rightarrow> True)"
| "holding (AtSlot p) = True"
| "holding (AtResume p) = (p \<noteq> RLoad)"
| "holding (AtExchange p) = via_connect (exchanger_of p)"
| "holding (AtReconnect p) = True"
| "holding (AtLoop p) = True"
| "holding _ = False"

text \<open>The context of a loop, and the delay before its next attempt.\<close>

fun loop_of :: "exchanger \<Rightarrow> nat" where
  "loop_of (ByConnect x c delay) = x"
| "loop_of (ByRefresh x c) = x"

fun context_of :: "pc \<Rightarrow> nat option" where
  "context_of (AtExchange p) = Some (loop_of (exchanger_of p))"
| "context_of (AtReconnect p) = (case p of LDial x _ _ _ \<Rightarrow> Some x | LFailed x _ _ _ _ \<Rightarrow> Some x | LNote x _ _ _ _ \<Rightarrow> Some x | _ \<Rightarrow> None)"
| "context_of (AtLoop p) = (case p of LJudge x _ _ _ \<Rightarrow> Some x | LWait x _ _ \<Rightarrow> Some x | LReload x _ _ \<Rightarrow> Some x)"
| "context_of (AtRefresh p) = (case p of FWait x \<Rightarrow> Some x | FLoad x \<Rightarrow> Some x | FDial x _ _ \<Rightarrow> Some x)"
| "context_of _ = None"

fun delay_of :: "pc \<Rightarrow> int option" where
  "delay_of (AtExchange p) = (case exchanger_of p of ByConnect _ _ delay \<Rightarrow> Some delay | _ \<Rightarrow> None)"
| "delay_of (AtReconnect p) = (case p of LDial _ _ delay _ \<Rightarrow> Some delay | LFailed _ _ delay _ _ \<Rightarrow> Some delay | LNote _ _ delay _ _ \<Rightarrow> Some delay | _ \<Rightarrow> None)"
| "delay_of (AtLoop p) = (case p of LJudge _ _ delay _ \<Rightarrow> Some delay | LWait _ _ delay \<Rightarrow> Some delay | LReload _ _ delay \<Rightarrow> Some delay)"
| "delay_of _ = None"

definition holders :: "pc list \<Rightarrow> nat" where
  "holders ps = length (filter holding ps)"

subsection \<open>One step\<close>

lemma cancel_current_sel [simp]:
  "dp_connecting (cancel_current d) = dp_connecting d" "dp_next (cancel_current d) = dp_next d" "dp_cred (cancel_current d) = dp_cred d"
  "dp_retryBase (cancel_current d) = dp_retryBase d" "dp_retryMax (cancel_current d) = dp_retryMax d" "dp_cancel (cancel_current d) = dp_cancel d"
  "dp_authExpired (cancel_current d) = dp_authExpired d" "dp_attachedID (cancel_current d) = dp_attachedID d"
  "dp_lastConnect (cancel_current d) = dp_lastConnect d" "dp_engine (cancel_current d) = dp_engine d"
  by (simp_all add: cancel_current_def split: option.split)

lemmas dp_defs = Stop_def new_loop_def releaseAttachSlot_def DisconnectEngine_def setLastConnectErr_def setAuthExpired_def
  saveCred_def clearCred_def clearCredIf_def ConnectRunespace_def acquire_def resolved_def Start_def

lemma holding_exchange [simp]: "holding (exchange_failed w e) = via_connect w" "holding (exchanged w tok) = via_connect w"
  by (cases w; simp)+

lemma holding_slot [simp]: "holding (slot_taken a)" "\<not> holding (slot_denied a)"
  by (cases a; simp)+

lemmas step_elims = pc_step.elims Connect.elims [OF sym] acquireAttachSlot.elims [OF sym] startConnectLoop.elims [OF sym]
  Resume.elims [OF sym] exchange.elims [OF sym] reconnect.elims [OF sym] connectLoop.elims [OF sym] refreshLoop.elims [OF sym]
  Disconnect.elims [OF sym] Pause.elims [OF sym]

text \<open>The slot: a step of its holder keeps it, hands it to the loop it starts or frees it; another step can only take it when it is free.\<close>

lemma step_slot:
  assumes "pc_step an p d = (p', ps, d')"
  shows "if holding p then dp_connecting d \<longrightarrow> holders (p' # ps) = of_bool (dp_connecting d')
    else holders (p' # ps) + of_bool (dp_connecting d) = of_bool (dp_connecting d')"
  using assms
  by (elim step_elims) (auto simp: holders_def dp_defs Let_def split: sum.splits option.splits if_splits)

text \<open>The contexts: every one but the current is cancelled, and a thread keeps its own or drops it.\<close>

definition contexts_ok :: "dataplane \<Rightarrow> bool" where
  "contexts_ok d \<longleftrightarrow> (\<forall>x. x < dp_next d \<longrightarrow> cancelled d x \<or> dp_cancel d = Some x) \<and>
     (\<forall>x. cancelled d x \<longrightarrow> x < dp_next d) \<and> pred_option (\<lambda>x. x < dp_next d) (dp_cancel d)"

lemma cancelled_cancel: "cancelled (cancel_current d) x \<longleftrightarrow> cancelled d x \<or> dp_cancel d = Some x"
  by (auto simp: cancelled_def cancel_current_def split: option.split)

lemma contexts_Stop:
  assumes "contexts_ok d"
  shows "contexts_ok (Stop d)"
proof -
  have c: "cancelled (Stop d) x \<longleftrightarrow> cancelled d x \<or> dp_cancel d = Some x" for x
    using cancelled_cancel [of d x] by (simp add: Stop_def cancelled_def)
  have "dp_cancel (Stop d) = None" "dp_next (Stop d) = dp_next d" by (simp_all add: Stop_def)
  with assms show ?thesis unfolding contexts_ok_def c by (simp add: pred_option_def)
qed

lemma contexts_new_loop:
  assumes "contexts_ok d"
  shows "contexts_ok (snd (new_loop d))"
proof -
  have c: "cancelled (snd (new_loop d)) x \<longleftrightarrow> cancelled d x \<or> dp_cancel d = Some x" for x
    using cancelled_cancel [of d x] by (simp add: new_loop_def cancelled_def)
  have "dp_cancel (snd (new_loop d)) = Some (dp_next d)" "dp_next (snd (new_loop d)) = Suc (dp_next d)" by (simp_all add: new_loop_def)
  with assms show ?thesis unfolding contexts_ok_def c by (simp add: pred_option_def less_Suc_eq)
qed

definition same_loops :: "dataplane \<Rightarrow> dataplane \<Rightarrow> bool" where
  "same_loops d d' \<longleftrightarrow> dp_next d' = dp_next d \<and> dp_retryBase d' = dp_retryBase d \<and> dp_retryMax d' = dp_retryMax d \<and>
     (contexts_ok d \<longrightarrow> contexts_ok d')"

lemma same_loops_cong:
  "dp_next d' = dp_next d \<Longrightarrow> dp_cancelled d' = dp_cancelled d \<Longrightarrow> dp_cancel d' = dp_cancel d \<Longrightarrow>
    dp_retryBase d' = dp_retryBase d \<Longrightarrow> dp_retryMax d' = dp_retryMax d \<Longrightarrow> same_loops d d'"
  by (simp add: same_loops_def contexts_ok_def cancelled_def)

lemma same_loops_Stop: "same_loops d (Stop d)"
  by (simp add: same_loops_def contexts_Stop) (simp add: Stop_def)

lemma same_loops_I:
  "same_loops d d" "same_loops d (d\<lparr>dp_connecting := b, dp_attachTarget := t\<rparr>)" "same_loops d (d\<lparr>dp_attachTarget := t\<rparr>)"
  "same_loops d (DisconnectEngine d)" "same_loops d (d\<lparr>dp_attachedID := t\<rparr>)" "same_loops d (d\<lparr>dp_cred := r\<rparr>)" "same_loops d (d\<lparr>dp_engine := g\<rparr>)" "same_loops d (releaseAttachSlot d)"
  "same_loops d (snd (clearCredIf ok t d))" "same_loops d (clearCred ok d)" "same_loops d (setAuthExpired b d)" "same_loops d (setLastConnectErr now e d)"
  "same_loops d (snd (ConnectRunespace an t u d))"
  "same_loops d (d\<lparr>dp_attachedID := t, dp_authExpired := b, dp_lastConnect := l, dp_attachTarget := u\<rparr>)"
  "same_loops d (d\<lparr>dp_attachedID := t, dp_attachTarget := u, dp_lastConnect := l\<rparr>)"
  by (simp_all add: same_loops_cong DisconnectEngine_def saveCred_def releaseAttachSlot_def clearCredIf_def clearCred_def
      setAuthExpired_def setLastConnectErr_def ConnectRunespace_def split: option.split)

lemmas same_loops = same_loops_I same_loops_Stop

lemma context_exchange [simp]:
  "context_of (exchange_failed w e) = (if \<not> via_connect w \<and> IsUnauthorized e then None else Some (loop_of w))"
  "context_of (exchanged w tok) = Some (loop_of w)"
  by (cases w; simp)+

lemma context_slot [simp]: "context_of (slot_taken a) = None" "context_of (slot_denied a) = None"
  by (cases a; simp)+

lemma context_idle [simp]: "context_of (acquire a) = None" "context_of (resolved ws) = None"
  by (simp_all add: acquire_def resolved_def)

lemma step_loops:
  assumes "pc_step an p d = (p', ps, d')"
  shows "(context_of p' = None \<or> context_of p' = context_of p) \<and>
    (same_loops d d' \<and> map context_of ps \<in> {[], [None]} \<or>
     (\<exists>q. d' = snd (new_loop d) \<and> ps = [q] \<and> context_of q = Some (dp_next d) \<and>
        (delay_of q = None \<or> delay_of q = Some (dp_retryBase d))))"
  using assms
  by (elim step_elims) (auto simp: Let_def same_loops saveCred_def clearCredIf_def ConnectRunespace_def Start_def new_loop_def
      split: sum.splits option.splits if_splits)

text \<open>The delay only grows, up to its bound.\<close>

lemma delay_exchange [simp]:
  "delay_of (exchange_failed w e) = (case w of ByConnect x c delay \<Rightarrow> Some delay | _ \<Rightarrow> None)"
  "delay_of (exchanged w tok) = (case w of ByConnect x c delay \<Rightarrow> Some delay | _ \<Rightarrow> None)"
  by (cases w; simp)+

lemma delay_slot [simp]: "delay_of (slot_taken a) = None" "delay_of (slot_denied a) = None"
  by (cases a; simp)+

lemma delay_idle [simp]: "delay_of (acquire a) = None" "delay_of (resolved ws) = None"
  by (simp_all add: acquire_def resolved_def)

lemma step_delay:
  assumes "pc_step an p d = (p', ps, d')" "delay_of p' = Some t"
  shows "delay_of p = Some t \<or> (\<exists>u. delay_of p = Some u \<and> t = min (u * 2) (dp_retryMax d))"
  using assms
  by (elim step_elims) (auto simp: Let_def saveCred_def clearCredIf_def ConnectRunespace_def Start_def new_loop_def
      split: sum.splits option.splits if_splits)

subsection \<open>All threads\<close>

lemma holders_simps [simp]:
  "holders [] = 0" "holders (p # ps) = of_bool (holding p) + holders ps" "holders (ps @ qs) = holders ps + holders qs"
  by (simp_all add: holders_def)

lemma holders_update: "i < length ts \<Longrightarrow> holders (ts[i := p]) + of_bool (holding (ts ! i)) = holders ts + of_bool (holding p)"
proof (induction ts arbitrary: i)
  case (Cons t ts)
  then show ?case by (cases i) auto
qed simp

definition contexts :: "pc list \<Rightarrow> nat list" where
  "contexts ts = List.map_filter context_of ts"

lemma contexts_simps [simp]: "contexts [] = []" "contexts (p # ps) = (case context_of p of None \<Rightarrow> contexts ps | Some x \<Rightarrow> x # contexts ps)"
  by (simp_all add: contexts_def List.map_filter_simps split: option.split)

lemma contexts_append [simp]: "contexts (ps @ qs) = contexts ps @ contexts qs"
  by (induction ps) (simp_all split: option.split)

lemma no_context_no_delay: "context_of q = None \<Longrightarrow> delay_of q = None"
proof (cases q)
  case (AtReconnect x)
  then show "context_of q = None \<Longrightarrow> ?thesis" by (cases x) auto
next
  case (AtLoop x)
  then show "context_of q = None \<Longrightarrow> ?thesis" by (cases x) auto
qed auto

lemma contexts_update:
  assumes "i < length ts" "context_of p = None \<or> context_of p = context_of (ts ! i)" "distinct (contexts ts)"
  shows "distinct (contexts (ts[i := p])) \<and> set (contexts (ts[i := p])) \<subseteq> set (contexts ts)"
  using assms
proof (induction ts arbitrary: i)
  case (Cons t ts)
  show ?case
  proof (cases i)
    case 0
    with Cons.prems show ?thesis by (auto split: option.splits)
  next
    case (Suc j)
    with Cons.IH [of j] Cons.prems show ?thesis by (auto split: option.splits)
  qed
qed simp

definition live_loops :: "manager \<Rightarrow> nat" where
  "live_loops m = length (filter (\<lambda>x. \<not> cancelled (mg_dp m) x) (contexts (mg_threads m)))"

definition delays_ok :: "manager \<Rightarrow> bool" where
  "delays_ok m \<longleftrightarrow> (\<forall>p \<in> set (mg_threads m). \<forall>t. delay_of p = Some t \<longrightarrow> connectRetryBase \<le> t \<and> t \<le> connectRetryMax)"

definition manager_ok :: "manager \<Rightarrow> bool" where
  "manager_ok m \<longleftrightarrow> holders (mg_threads m) = of_bool (dp_connecting (mg_dp m)) \<and> contexts_ok (mg_dp m) \<and>
     distinct (contexts (mg_threads m)) \<and> (\<forall>x \<in> set (contexts (mg_threads m)). x < dp_next (mg_dp m)) \<and>
     dp_retryBase (mg_dp m) = connectRetryBase \<and> dp_retryMax (mg_dp m) = connectRetryMax \<and> delays_ok m"

lemma holders_member: "i < length ts \<Longrightarrow> holding (ts ! i) \<Longrightarrow> 0 < holders ts"
  by (auto simp: holders_def filter_empty_conv)

lemma manager_step:
  assumes ok: "manager_ok m"
  shows "manager_ok (dp_step e m)"
proof (cases e)
  case (Enter en)
  with ok show ?thesis by (cases en) (auto simp: manager_ok_def delays_ok_def)
next
  case (Step i an)
  show ?thesis
  proof (cases "i < length (mg_threads m)")
    case True
    let ?d = "mg_dp m" and ?ts = "mg_threads m"
    obtain p' ps d' where st: "pc_step an (?ts ! i) ?d = (p', ps, d')" by (cases "pc_step an (?ts ! i) ?d")
    have m': "dp_step e m = \<lparr>mg_dp = d', mg_threads = ?ts[i := p'] @ ps\<rparr>" using True st by (simp add: Step)
    note L = step_loops [OF st]
    have h: "holders (?ts[i := p'] @ ps) = of_bool (dp_connecting d')"
    proof -
      have "holders (?ts[i := p']) + of_bool (holding (?ts ! i)) = of_bool (dp_connecting ?d) + of_bool (holding p')"
        using holders_update [OF True] ok by (simp add: manager_ok_def)
      moreover have "holding (?ts ! i) \<Longrightarrow> dp_connecting ?d"
        using holders_member [OF True] ok by (cases "dp_connecting ?d") (auto simp: manager_ok_def)
      ultimately show ?thesis using step_slot [OF st] by (cases "dp_connecting d'") (auto split: if_splits)
    qed
    have u: "distinct (contexts (?ts[i := p'])) \<and> set (contexts (?ts[i := p'])) \<subseteq> set (contexts ?ts)"
      using L ok by (intro contexts_update [OF True]) (auto simp: manager_ok_def)
    have dp: "connectRetryBase \<le> t \<and> t \<le> connectRetryMax" if "delay_of p' = Some t" for t
      using step_delay [OF st that] ok nth_mem [OF True]
      by (auto simp: manager_ok_def delays_ok_def connectRetryMax_def connectRetryBase_def second_def min_def split: if_splits)
    have dt: "connectRetryBase \<le> t \<and> t \<le> connectRetryMax" if "q \<in> set (?ts[i := p'])" "delay_of q = Some t" for q t
      using that dp ok set_update_subset_insert [of ?ts i p'] by (auto simp: manager_ok_def delays_ok_def)
    from L consider (idle) "same_loops ?d d'" "map context_of ps \<in> {[], [None]}"
      | (new) q where "d' = snd (new_loop ?d)" "ps = [q]" "context_of q = Some (dp_next ?d)" "delay_of q = None \<or> delay_of q = Some (dp_retryBase ?d)"
      by blast
    then show ?thesis
    proof cases
      case idle
      have c: "contexts ps = []" using idle(2) by (cases ps) auto
      have n: "\<forall>q \<in> set ps. delay_of q = None" using idle(2) no_context_no_delay by (cases ps) auto
      show ?thesis
        using c n ok idle(1) h u dt by (auto simp: manager_ok_def m' delays_ok_def same_loops_def)
    next
      case (new q)
      have "dp_next d' = Suc (dp_next ?d)" "dp_retryBase d' = dp_retryBase ?d" "dp_retryMax d' = dp_retryMax ?d" using new(1) by (simp_all add: new_loop_def)
      moreover have "contexts_ok d'" using new(1) contexts_new_loop ok by (simp add: manager_ok_def)
      moreover have "connectRetryBase \<le> connectRetryMax" by (simp add: connectRetryBase_def connectRetryMax_def second_def)
      ultimately show ?thesis
        using ok new(2-4) h u dt by (auto simp: manager_ok_def m' delays_ok_def less_Suc_eq)
    qed
  qed (use ok Step in simp)
qed

lemma manager_run: "manager_ok m \<Longrightarrow> manager_ok (dp_run es m)"
  by (induction es arbitrary: m) (simp_all add: manager_step)

lemma fresh_ok: "manager_ok (fresh_manager persisted)"
  by (simp add: manager_ok_def fresh_manager_def newDataplane_def contexts_ok_def cancelled_def delays_ok_def pred_option_def)

text \<open>Rejections: a thread that drops or flags a credential was told so by the cloud.\<close>

fun rejected :: "pc \<Rightarrow> bool" where
  "rejected (AtExchange (XClear w e)) = IsUnauthorized e"
| "rejected (AtExchange (XRaise w e)) = IsUnauthorized e"
| "rejected _ = True"

lemma rejected_exchange [simp]: "rejected (exchange_failed w e)" "rejected (exchanged w tok)"
  by (cases w; simp)+

lemma rejected_slot [simp]: "rejected (slot_taken a)" "rejected (slot_denied a)"
  by (cases a; simp)+

lemma rejected_idle [simp]: "rejected (acquire a)" "rejected (resolved ws)"
  by (simp_all add: acquire_def resolved_def)

lemma step_rejected:
  assumes "pc_step an p d = (p', ps, d')" "rejected p"
  shows "rejected p' \<and> list_all rejected ps"
  using assms
  by (elim step_elims) (auto simp: Let_def saveCred_def clearCredIf_def ConnectRunespace_def Start_def new_loop_def
      split: sum.splits option.splits if_splits)

lemma run_rejected: "list_all rejected (mg_threads m) \<Longrightarrow> list_all rejected (mg_threads (dp_run es m))"
proof (induction es arbitrary: m)
  case (Cons e es)
  have "list_all rejected (mg_threads (dp_step e m))"
  proof (cases e)
    case (Enter en)
    with Cons.prems show ?thesis by (cases en) simp_all
  next
    case (Step i an)
    show ?thesis
    proof (cases "i < length (mg_threads m)")
      case True
      obtain p' ps d' where st: "pc_step an (mg_threads m ! i) (mg_dp m) = (p', ps, d')" by (cases "pc_step an (mg_threads m ! i) (mg_dp m)")
      have "rejected (mg_threads m ! i)" using Cons.prems True by (simp add: list_all_length)
      from step_rejected [OF st this] Cons.prems True show ?thesis
        using set_update_subset_insert [of "mg_threads m" i p'] by (auto simp: Step st list_all_iff)
    qed (use Cons.prems Step in simp)
  qed
  with Cons.IH show ?case by simp
qed simp

text \<open>The steps that touch the credential or raise the flag.\<close>

lemma step_drops:
  assumes "pc_step an p d = (p', ps, d')" "dp_cred d = Some c" "dp_cred d' = None"
  shows "p = AtDisconnect DClear \<or> (\<exists>w e. p = AtExchange (XClear w e) \<and> refresh_token w = cr_RefreshToken c)"
  using assms
  by (elim step_elims) (auto simp: Let_def dp_defs
      split: sum.splits option.splits if_splits)

lemma step_flags:
  assumes "pc_step an p d = (p', ps, d')" "\<not> dp_authExpired d" "dp_authExpired d'"
  shows "\<exists>w e. p = AtExchange (XRaise w e)"
  using assms
  by (elim step_elims) (auto simp: Let_def dp_defs
      split: sum.splits option.splits if_splits)

subsection \<open>Properties\<close>

text \<open>
  C24. At most one attach runs, and at most one loop is not cancelled. Under any interleaving of
  connects, disconnects, pauses, resumes, restarts and their loops, whatever the cloud, the engine and
  the database answer: the attach slot is held exactly when the flag says so, by one thread; one loop at
  most has a context that is not cancelled; and every retry waits between fifteen seconds and two minutes.
\<close>

theorem attach_slot_is_exclusive:
  "let m = dp_run es (fresh_manager persisted)
   in holders (mg_threads m) \<le> 1 \<and> (dp_connecting (mg_dp m) \<longleftrightarrow> holders (mg_threads m) = 1) \<and> live_loops m \<le> 1 \<and>
      list_all (\<lambda>p. pred_option (\<lambda>t. 15 * second \<le> t \<and> t \<le> 120 * second) (delay_of p)) (mg_threads m)"
proof -
  define m where "m = dp_run es (fresh_manager persisted)"
  have ok: "manager_ok m" unfolding m_def by (rule manager_run [OF fresh_ok])
  let ?l = "filter (\<lambda>x. \<not> cancelled (mg_dp m) x) (contexts (mg_threads m))"
  have "distinct ?l" using ok by (simp add: manager_ok_def)
  moreover have "x = y" if "x \<in> set ?l" "y \<in> set ?l" for x y
    using that ok unfolding manager_ok_def contexts_ok_def by (metis (no_types, lifting) mem_Collect_eq option.inject set_filter)
  then have "card (set ?l) \<le> 1" unfolding One_nat_def card_le_Suc0_iff_eq [OF finite_set] by blast
  ultimately have "live_loops m \<le> 1" by (simp add: live_loops_def distinct_card [symmetric] del: set_filter)
  with ok show ?thesis unfolding m_def [symmetric] Let_def
    by (auto simp: manager_ok_def delays_ok_def connectRetryBase_def connectRetryMax_def list_all_iff pred_option_def)
qed

text \<open>
  C25. A credential is dropped only by a disconnection or because the cloud rejected that very
  credential. In any reachable state and for any next step: if the stored credential disappears, the step
  is the one of \<open>Disconnect\<close>, or that of an exchange which the cloud answered with 401 for the token the
  credential carries, so a late 401 for an older token leaves it alone; and the flag that asks for a
  new login is raised only after such an answer.
\<close>

theorem credential_dropped_only_if_rejected:
  assumes m: "m = dp_run es (fresh_manager persisted)" and m': "m' = dp_step e m"
  shows "(\<forall>c. dp_cred (mg_dp m) = Some c \<and> dp_cred (mg_dp m') = None \<longrightarrow>
      (\<exists>i an. e = Step i an \<and> (mg_threads m ! i = AtDisconnect DClear \<or>
         (\<exists>w err. mg_threads m ! i = AtExchange (XClear w err) \<and> IsUnauthorized err \<and> refresh_token w = cr_RefreshToken c)))) \<and>
    (\<not> dp_authExpired (mg_dp m) \<and> dp_authExpired (mg_dp m') \<longrightarrow>
      (\<exists>i an w err. e = Step i an \<and> mg_threads m ! i = AtExchange (XRaise w err) \<and> IsUnauthorized err))"
proof (cases e)
  case (Enter en)
  with m' show ?thesis by auto
next
  case (Step i an)
  show ?thesis
  proof (cases "i < length (mg_threads m)")
    case True
    obtain p' ps d' where st: "pc_step an (mg_threads m ! i) (mg_dp m) = (p', ps, d')" by (cases "pc_step an (mg_threads m ! i) (mg_dp m)")
    have d: "mg_dp m' = d'" using True st by (simp add: m' Step)
    have "list_all rejected (mg_threads m)" unfolding m by (rule run_rejected) (simp add: fresh_manager_def)
    then have r: "rejected (mg_threads m ! i)" using True by (simp add: list_all_length)
    show ?thesis using step_drops [OF st] step_flags [OF st] r by (auto simp: Step d)
  qed (use m' Step in auto)
qed

text \<open>An exchange at start that the cloud answers with 401: the credential is dropped by the step of that exchange.\<close>

definition stale_cred :: cred where
  "stale_cred = \<lparr>cr_RefreshToken = ''r'', cr_RunespaceID = ''ws'', cr_Addr = ''h:443''\<rparr>"

definition rejecting :: answer where
  "rejecting = \<lparr>an_workspace = Inr None, an_created = Inl (StoreError []), an_bootstrap = Inl (StoreError []),
     an_token = Inl (APIError \<lparr>ap_Status = 401, ap_Code = [], ap_Message = []\<rparr>), an_dial = None, an_db = True, an_tick = True, an_done = False, an_now = 0\<rparr>"

definition before_drop :: manager where
  "before_drop = dp_run (Enter OnStart # replicate 3 (Step 0 rejecting) @ [Step 1 rejecting]) (fresh_manager (Some stale_cred))"

lemma before_drop_drops:
  "dp_cred (mg_dp before_drop) = Some stale_cred" "dp_cred (mg_dp (dp_step (Step 1 rejecting) before_drop)) = None"
  by code_simp+

theorem credential_dropped_only_if_rejected_witness:
  "\<exists>i an w err. Step 1 rejecting = Step i an \<and> (mg_threads before_drop ! i = AtDisconnect DClear \<or>
     mg_threads before_drop ! i = AtExchange (XClear w err) \<and> IsUnauthorized err \<and> refresh_token w = ''r'')"
  using credential_dropped_only_if_rejected [OF before_drop_def refl, of "Step 1 rejecting"] before_drop_drops
  by (auto simp: stale_cred_def)

text \<open>Examples: a cloud with one running workspace, which hands out one credential.\<close>

definition demo_ws :: workspace where
  "demo_ws = \<lparr>ws_ID = ''ws'', ws_Host = ''h'', ws_Phase = ''running'', ws_Rows = 0, ws_TeamHash = []\<rparr>"

definition demo_answer :: answer where
  "demo_answer = \<lparr>an_workspace = Inr (Some demo_ws), an_created = Inr demo_ws, an_bootstrap = Inr \<lparr>bs_RefreshToken = ''r'', bs_RunespaceID = ''ws''\<rparr>,
     an_token = Inr ''t'', an_dial = None, an_db = True, an_tick = True, an_done = False, an_now = 0\<rparr>"

text \<open>
  C26. A connect that is answered well attaches the engine. When no other attach runs and the engine is
  not already attached to the workspace, a connect whose calls succeed returns the workspace, stores
  its credential and starts the loop, which attaches the engine to that workspace with the exchanged
  token, frees the slot, clears the error and the flag, and leaves one renewing loop that is not cancelled.
\<close>

theorem connect_attaches:
  assumes free: "\<not> dp_connecting (mg_dp m)"
    and new: "\<not> (engine_ready (mg_dp m) \<and> dp_attachedID (mg_dp m) = ws_ID ws \<and> \<not> dp_authExpired (mg_dp m))"
    and an: "an_workspace an = Inr (Some ws)" "connectable ws" "an_bootstrap an = Inr bs" "an_db an" "an_token an = Inr tok" "an_dial an = None"
    and n: "n = length (mg_threads m)"
    and m': "m' = dp_run (Enter OnConnect # replicate 15 (Step n an) @ replicate 7 (Step (Suc n) an)) m"
  shows "mg_threads m' = mg_threads m @ [Done (view ws), Done None, AtRefresh (FWait (Suc (dp_next (mg_dp m))))] \<and>
    dp_engine (mg_dp m') = Some (ws_Host ws @ '':443'', tok) \<and> dp_attachedID (mg_dp m') = ws_ID ws \<and>
    dp_cred (mg_dp m') = Some (cred_of ws bs) \<and> \<not> dp_connecting (mg_dp m') \<and> \<not> dp_authExpired (mg_dp m') \<and>
    dp_lastConnect (mg_dp m') = ([], 0) \<and> dp_cancel (mg_dp m') = Some (Suc (dp_next (mg_dp m)))"
proof -
  obtain d ts where m: "m = \<lparr>mg_dp = d, mg_threads = ts\<rparr>" by (cases m)
  have step: "dp_step (Step (length ts) an) \<lparr>mg_dp = d, mg_threads = ts @ p # qs\<rparr> =
      (case pc_step an p d of (p', ps, d') \<Rightarrow> \<lparr>mg_dp = d', mg_threads = ts @ p' # qs @ ps\<rparr>)" for d p qs
    by (simp add: nth_append list_update_append split: prod.split)
  have step': "dp_step (Step (Suc (length ts)) an) \<lparr>mg_dp = d, mg_threads = ts @ q # p # qs\<rparr> =
      (case pc_step an p d of (p', ps, d') \<Rightarrow> \<lparr>mg_dp = d', mg_threads = ts @ q # p' # qs @ ps\<rparr>)" for d q p qs
    by (simp add: nth_append list_update_append split: prod.split)
  show ?thesis
    using free new an unfolding m' n m
    by (cases "engine_ready d"; cases "dp_attachedID d = ws_ID ws")
      (simp_all add: step step' numeral_eq_Suc resolved_def acquire_def attach_attempts_def saveCred_def new_loop_def ConnectRunespace_def
        cred_of_def releaseAttachSlot_def setAuthExpired_def setLastConnectErr_def Stop_def DisconnectEngine_def engine_ready_def del: dp_step.simps(2))
qed

theorem connect_attaches_witness:
  "dp_engine (mg_dp (dp_run (Enter OnConnect # replicate 15 (Step 0 demo_answer) @ replicate 7 (Step (Suc 0) demo_answer)) (fresh_manager None))) =
    Some (ws_Host demo_ws @ '':443'', ''t'')"
proof -
  have "\<not> dp_connecting (mg_dp (fresh_manager None))" "\<not> engine_ready (mg_dp (fresh_manager None))" "0 = length (mg_threads (fresh_manager None))"
    by (simp_all add: fresh_manager_def newDataplane_def engine_ready_def)
  moreover have "connectable demo_ws" by (simp add: connectable_def demo_ws_def)
  moreover have "an_workspace demo_answer = Inr (Some demo_ws)" "an_db demo_answer" "an_token demo_answer = Inr ''t''" "an_dial demo_answer = None"
    "an_bootstrap demo_answer = Inr \<lparr>bs_RefreshToken = ''r'', bs_RunespaceID = ''ws''\<rparr>"
    by (simp_all add: demo_answer_def)
  ultimately show ?thesis using connect_attaches [OF _ _ _ _ _ _ _ _ _ refl] by blast
qed

fun finished :: "pc \<Rightarrow> bool" where
  "finished (Done r) = True"
| "finished _ = False"

text \<open>The engine is only ever what a dial just gave, for the loop that dialed.\<close>

lemma step_engine:
  assumes "pc_step an p d = (p', ps, d')" "dp_engine d' = Some g" "dp_engine d \<noteq> Some g"
  shows "an_dial an = None \<and> (\<exists>x c tok. ((\<exists>delay. p = AtReconnect (LDial x c delay tok)) \<or> p = AtRefresh (FDial x c tok)) \<and> g = (cr_Addr c, tok))"
  using assms
  by (elim step_elims) (auto simp: Let_def dp_defs split: sum.splits option.splits if_splits)

text \<open>A thread stays where it is while it takes no step.\<close>

lemma others_keep:
  assumes "i < length (mg_threads m)" "\<forall>a. Step i a \<notin> set es"
  shows "i < length (mg_threads (dp_run es m)) \<and> mg_threads (dp_run es m) ! i = mg_threads m ! i"
  using assms
proof (induction es arbitrary: m)
  case (Cons e es)
  have "i < length (mg_threads (dp_step e m)) \<and> mg_threads (dp_step e m) ! i = mg_threads m ! i"
  proof (cases e)
    case (Step j a)
    with Cons.prems show ?thesis by (auto simp: nth_append split: prod.split)
  qed (use Cons.prems in \<open>simp add: nth_append\<close>)
  with Cons show ?case by simp
qed simp

lemma step_at: "i < length ts \<Longrightarrow> dp_step (Step i an) \<lparr>mg_dp = d, mg_threads = ts[i := p] @ qs\<rparr> =
    (case pc_step an p d of (p', ps, d') \<Rightarrow> \<lparr>mg_dp = d', mg_threads = ts[i := p'] @ qs @ ps\<rparr>)"
  by (simp add: nth_append list_update_append split: prod.split)

text \<open>From a dial that succeeds to the end of the loop.\<close>

lemma dial_attaches:
  assumes i: "i < length (mg_threads m)" "mg_threads m ! i = AtReconnect (LDial x c delay tok)" and an: "an_dial an = None"
    and m': "m' = dp_run (replicate 5 (Step i an)) m"
  shows "dp_engine (mg_dp m') = Some (cr_Addr c, tok) \<and> dp_attachedID (mg_dp m') = cr_RunespaceID c \<and>
    dp_cred (mg_dp m') = dp_cred (mg_dp m) \<and> dp_cancel (mg_dp m') = Some (dp_next (mg_dp m)) \<and>
    mg_threads m' = (mg_threads m)[i := Done None] @ [AtRefresh (FWait (dp_next (mg_dp m)))]"
proof -
  obtain d ts where m: "m = \<lparr>mg_dp = d, mg_threads = ts\<rparr>" by (cases m)
  have first: "dp_step (Step i an) \<lparr>mg_dp = d, mg_threads = ts\<rparr> = \<lparr>mg_dp = d\<lparr>dp_engine := Some (cr_Addr c, tok)\<rparr>, mg_threads = ts[i := AtReconnect (LOk c)]\<rparr>"
    using i an by (simp add: m ConnectRunespace_def)
  have next_step: "dp_step (Step i an) \<lparr>mg_dp = d, mg_threads = ts[i := p]\<rparr> =
      (case pc_step an p d of (p', ps, d') \<Rightarrow> \<lparr>mg_dp = d', mg_threads = ts[i := p'] @ ps\<rparr>)" for d p
    using step_at [of i ts an d p "[]"] i(1) by (simp add: m del: dp_step.simps(2))
  show ?thesis
    using i(1) unfolding m'
    by (simp add: m first next_step step_at numeral_eq_Suc new_loop_def ConnectRunespace_def releaseAttachSlot_def setLastConnectErr_def del: dp_step.simps(2))
qed

lemma disconnects:
  assumes a: "an_db a" and n: "n = length (mg_threads m)" and m': "m' = dp_run (Enter OnDisconnect # replicate 4 (Step n a)) m"
  shows "mg_threads m' = mg_threads m @ [Done None] \<and> dp_cred (mg_dp m') = None \<and> dp_engine (mg_dp m') = None \<and> dp_attachedID (mg_dp m') = [] \<and>
    dp_cancel (mg_dp m') = None \<and> (\<forall>x. cancelled (mg_dp m') x \<longleftrightarrow> cancelled (mg_dp m) x \<or> dp_cancel (mg_dp m) = Some x)"
proof -
  obtain d ts where m: "m = \<lparr>mg_dp = d, mg_threads = ts\<rparr>" by (cases m)
  have step: "dp_step (Step (length ts) an) \<lparr>mg_dp = d, mg_threads = ts @ [p]\<rparr> =
      (case pc_step an p d of (p', ps, d') \<Rightarrow> \<lparr>mg_dp = d', mg_threads = ts @ p' # ps\<rparr>)" for an d p
    by (simp add: nth_append list_update_append split: prod.split)
  have "m' = \<lparr>mg_dp = (Stop d)\<lparr>dp_cred := None, dp_engine := None, dp_attachedID := [], dp_authExpired := False, dp_lastConnect := ([], 0), dp_attachTarget := []\<rparr>,
      mg_threads = ts @ [Done None]\<rparr>"
    using a unfolding m' n m
    by (simp add: step numeral_eq_Suc clearCred_def DisconnectEngine_def del: dp_step.simps(2))
  then show ?thesis using cancelled_cancel [of d] by (simp add: m Stop_def cancelled_def)
qed

text \<open>
  C37. A disconnection can be undone by the attach it overtakes. In any reachable state in which a loop
  is about to have dialed, whatever the other threads do before the dial returns, a dial that succeeds
  attaches the engine, frees the slot and starts the renewing loop: the loop attaches without looking at
  its context or at the credential again. So a disconnection that runs from beginning to end meanwhile,
  which cancels that loop, drops the credential and leaves no engine, ends up with the engine attached
  to the workspace it cut off, without a credential. Nothing but a dial attaches the engine, to what
  was dialed.
\<close>

theorem disconnect_can_be_overtaken:
  assumes m: "m = dp_run es (fresh_manager persisted)"
    and i: "i < length (mg_threads m)" "mg_threads m ! i = AtReconnect (LDial x c delay tok)" and an: "an_dial an = None"
  shows "(\<forall>es'. (\<forall>a. Step i a \<notin> set es') \<longrightarrow>
      (let m1 = dp_run es' m; m2 = dp_run (replicate 5 (Step i an)) m1
       in dp_engine (mg_dp m2) = Some (cr_Addr c, tok) \<and> dp_attachedID (mg_dp m2) = cr_RunespaceID c \<and> \<not> dp_connecting (mg_dp m2) \<and>
          dp_cred (mg_dp m2) = dp_cred (mg_dp m1) \<and> mg_threads m2 ! i = Done None \<and> last (mg_threads m2) = AtRefresh (FWait (dp_next (mg_dp m1))))) \<and>
    (\<forall>a. an_db a \<longrightarrow>
      (let n = length (mg_threads m); m1 = dp_run (Enter OnDisconnect # replicate 4 (Step n a)) m; m2 = dp_run (replicate 5 (Step i an)) m1
       in mg_threads m1 ! n = Done None \<and> cancelled (mg_dp m1) x \<and> dp_cred (mg_dp m1) = None \<and> dp_engine (mg_dp m1) = None \<and> dp_attachedID (mg_dp m1) = [] \<and>
          dp_engine (mg_dp m2) = Some (cr_Addr c, tok) \<and> dp_attachedID (mg_dp m2) = cr_RunespaceID c \<and> dp_cred (mg_dp m2) = None)) \<and>
    (\<forall>e g. dp_engine (mg_dp (dp_step e m)) = Some g \<and> dp_engine (mg_dp m) \<noteq> Some g \<longrightarrow>
      (\<exists>j b y k t. e = Step j b \<and> an_dial b = None \<and> g = (cr_Addr k, t) \<and>
         ((\<exists>u. mg_threads m ! j = AtReconnect (LDial y k u t)) \<or> mg_threads m ! j = AtRefresh (FDial y k t))))"
proof (intro conjI allI impI)
  fix es' assume es': "\<forall>a. Step i a \<notin> set es'"
  define m1 where "m1 = dp_run es' m"
  note K = others_keep [OF i(1) es', folded m1_def]
  have k: "i < length (mg_threads m1)" "mg_threads m1 ! i = AtReconnect (LDial x c delay tok)" using K i(2) by simp_all
  note D = dial_attaches [OF k an refl]
  have "manager_ok m1" unfolding m1_def m by (intro manager_run fresh_ok)
  then have "manager_ok (dp_run (replicate 5 (Step i an)) m1)" by (rule manager_run)
  moreover have "holders (mg_threads m1) = 1"
    using holders_member [OF k(1)] k(2) \<open>manager_ok m1\<close> by (cases "dp_connecting (mg_dp m1)") (auto simp: manager_ok_def)
  ultimately have "\<not> dp_connecting (mg_dp (dp_run (replicate 5 (Step i an)) m1))"
    using holders_update [OF k(1), of "Done None"] D k by (cases "dp_connecting (mg_dp (dp_run (replicate 5 (Step i an)) m1))") (auto simp: manager_ok_def)
  with D k(1) show "let m1 = dp_run es' m; m2 = dp_run (replicate 5 (Step i an)) m1
       in dp_engine (mg_dp m2) = Some (cr_Addr c, tok) \<and> dp_attachedID (mg_dp m2) = cr_RunespaceID c \<and> \<not> dp_connecting (mg_dp m2) \<and>
          dp_cred (mg_dp m2) = dp_cred (mg_dp m1) \<and> mg_threads m2 ! i = Done None \<and> last (mg_threads m2) = AtRefresh (FWait (dp_next (mg_dp m1)))"
    unfolding Let_def m1_def [symmetric] by (simp add: nth_append)
next
  fix a :: answer assume a: "an_db a"
  define m1 where "m1 = dp_run (Enter OnDisconnect # replicate 4 (Step (length (mg_threads m)) a)) m"
  note D = disconnects [OF a refl m1_def]
  have k: "i < length (mg_threads m1)" "mg_threads m1 ! i = AtReconnect (LDial x c delay tok)" using D i by (simp_all add: nth_append)
  have "manager_ok m" unfolding m by (intro manager_run fresh_ok)
  moreover have "x \<in> set (contexts (mg_threads m))"
    using i nth_mem [OF i(1)] by (force simp: contexts_def List.map_filter_def)
  ultimately have "cancelled (mg_dp m) x \<or> dp_cancel (mg_dp m) = Some x" unfolding manager_ok_def contexts_ok_def by blast
  with D dial_attaches [OF k an refl] show "let n = length (mg_threads m); m1 = dp_run (Enter OnDisconnect # replicate 4 (Step n a)) m; m2 = dp_run (replicate 5 (Step i an)) m1
       in mg_threads m1 ! n = Done None \<and> cancelled (mg_dp m1) x \<and> dp_cred (mg_dp m1) = None \<and> dp_engine (mg_dp m1) = None \<and> dp_attachedID (mg_dp m1) = [] \<and>
          dp_engine (mg_dp m2) = Some (cr_Addr c, tok) \<and> dp_attachedID (mg_dp m2) = cr_RunespaceID c \<and> dp_cred (mg_dp m2) = None"
    unfolding Let_def m1_def [symmetric] by simp
next
  fix e g assume g: "dp_engine (mg_dp (dp_step e m)) = Some g \<and> dp_engine (mg_dp m) \<noteq> Some g"
  then obtain j b where e: "e = Step j b" "j < length (mg_threads m)" by (cases e) (auto split: if_splits)
  obtain p' ps d' where st: "pc_step b (mg_threads m ! j) (mg_dp m) = (p', ps, d')" by (cases "pc_step b (mg_threads m ! j) (mg_dp m)")
  from step_engine [OF st, of g] g st e show "\<exists>j b y k t. e = Step j b \<and> an_dial b = None \<and> g = (cr_Addr k, t) \<and>
         ((\<exists>u. mg_threads m ! j = AtReconnect (LDial y k u t)) \<or> mg_threads m ! j = AtRefresh (FDial y k t))" by auto
qed

text \<open>The first connect, up to the dial, and a deletion of the workspace that comes before the dial returns.\<close>

definition dialing :: "dp_event list" where
  "dialing = Enter OnConnect # replicate 12 (Step 0 demo_answer) @ replicate 2 (Step 1 demo_answer)"

lemma dialing_at:
  "length (mg_threads (dp_run dialing (fresh_manager None))) = 2"
  "mg_threads (dp_run dialing (fresh_manager None)) ! 1 = AtReconnect (LDial 0 stale_cred connectRetryBase ''t'')"
  by code_simp+

theorem disconnect_can_be_overtaken_witness:
  "let m2 = dp_run (replicate 5 (Step 1 demo_answer)) (dp_run (Enter OnDisconnect # replicate 4 (Step 2 demo_answer)) (dp_run dialing (fresh_manager None)))
   in dp_engine (mg_dp m2) = Some (''h:443'', ''t'') \<and> dp_attachedID (mg_dp m2) = ''ws'' \<and> dp_cred (mg_dp m2) = None"
proof -
  have "1 < length (mg_threads (dp_run dialing (fresh_manager None)))" "an_dial demo_answer = None" "an_db demo_answer"
    by (simp_all add: dialing_at demo_answer_def)
  with disconnect_can_be_overtaken [OF refl this(1) dialing_at(2), of demo_answer] show ?thesis
    unfolding Let_def dialing_at(1) by (simp add: stale_cred_def)
qed

text \<open>
  The flag is raised after the credential was dropped, not with it: a pause and a new login that come in
  between leave a working credential and an attached engine with the flag raised.
\<close>

definition late_flag :: "dp_event list" where
  "late_flag = Enter OnConnect # replicate 11 (Step 0 demo_answer) @ replicate 7 (Step 1 demo_answer) @
     replicate 2 (Step 2 demo_answer) @ replicate 2 (Step 2 (demo_answer\<lparr>an_token := Inl (APIError \<lparr>ap_Status = 401, ap_Code = [], ap_Message = []\<rparr>)\<rparr>)) @
     Enter OnPause # replicate 3 (Step 3 demo_answer) @ Enter OnConnect # replicate 11 (Step 4 demo_answer) @ replicate 7 (Step 5 demo_answer) @
     [Step 2 demo_answer]"

lemma late_flag_outlives_login:
  defines "m \<equiv> dp_run late_flag (fresh_manager None)"
  shows "dp_authExpired (mg_dp m) \<and> dp_cred (mg_dp m) \<noteq> None \<and> dp_engine (mg_dp m) \<noteq> None \<and>
    list_all (\<lambda>p. finished p \<or> p = AtRefresh (FWait 3)) (mg_threads m)"
  unfolding m_def by code_simp

end
