(* ===== verification/Go_Path.thy ===== *)
theory Go_Path
  imports Semver "HOL-Library.Sublist"
begin

text \<open>
  The path functions of Go's \<open>path/filepath\<close> on Unix, as the updater uses them, and the lexical tests
  built on them in \<open>internal/updater/backup.go\<close>. A clean absolute path is a list of names; on such
  paths the tests are tests on lists.
\<close>

subsection \<open>filepath\<close>

definition slash :: char where "slash = CHR ''/''"
definition dotdot :: string where "dotdot = [dot, dot]"

definition IsAbs :: "string \<Rightarrow> bool" where
  "IsAbs p \<longleftrightarrow> p \<noteq> [] \<and> hd p = slash"

text \<open>The elements of a path that are left, the last one first.\<close>

fun clean_elems :: "bool \<Rightarrow> string list \<Rightarrow> string list \<Rightarrow> string list" where
  "clean_elems rooted out [] = rev out"
| "clean_elems rooted out (e # es) =
     (if e = [] \<or> e = [dot] then clean_elems rooted out es
      else if e = dotdot then
        (if out \<noteq> [] \<and> hd out \<noteq> dotdot then clean_elems rooted (List.tl out) es
         else if rooted then clean_elems rooted out es
         else clean_elems rooted (e # out) es)
      else clean_elems rooted (e # out) es)"

definition elems :: "string \<Rightarrow> string list" where
  "elems p = clean_elems (IsAbs p) [] (split_byte slash p)"

definition Clean :: "string \<Rightarrow> string" where
  "Clean p =
     (if IsAbs p then slash # join_byte slash (elems p)
      else if elems p = [] then [dot] else join_byte slash (elems p))"

definition after_slash :: "string \<Rightarrow> string" where
  "after_slash p = rev (takeWhile (\<lambda>c. c \<noteq> slash) (rev p))"

definition Dir :: "string \<Rightarrow> string" where
  "Dir p = Clean (take (length p - length (after_slash p)) p)"

definition Base :: "string \<Rightarrow> string" where
  "Base p =
     (if p = [] then [dot]
      else let q = rev (dropWhile (\<lambda>c. c = slash) (rev p)) in if q = [] then [slash] else after_slash q)"

definition Join :: "string \<Rightarrow> string \<Rightarrow> string" where
  "Join a b = (if a = [] then (if b = [] then [] else Clean b) else Clean (a @ slash # b))"

fun strip_common :: "string list \<Rightarrow> string list \<Rightarrow> string list \<times> string list" where
  "strip_common (a # as) (b # bs) = (if a = b then strip_common as bs else (a # as, b # bs))"
| "strip_common as bs = (as, bs)"

definition Rel :: "string \<Rightarrow> string \<Rightarrow> string option" where
  "Rel base targ =
     (if Clean base = Clean targ then Some [dot]
      else if IsAbs base \<noteq> IsAbs targ then None
      else case strip_common (elems base) (elems targ) of
        (bs, ts) \<Rightarrow>
          if bs \<noteq> [] \<and> hd bs = dotdot then None
          else Some (join_byte slash (map (\<lambda>_. dotdot) bs @ ts)))"

definition has_prefix :: "string \<Rightarrow> string \<Rightarrow> bool" where
  "has_prefix s p \<longleftrightarrow> take (length p) s = p"

fun contains_str :: "string \<Rightarrow> string \<Rightarrow> bool" where
  "contains_str [] p \<longleftrightarrow> p = []"
| "contains_str (c # cs) p \<longleftrightarrow> has_prefix (c # cs) p \<or> contains_str cs p"

subsection \<open>Lexical tests\<close>

definition isWithin :: "string \<Rightarrow> string \<Rightarrow> bool" where
  "isWithin parent child =
     (case Rel parent child of None \<Rightarrow> False | Some rel \<Rightarrow> rel \<noteq> dotdot \<and> \<not> has_prefix rel (dotdot @ [slash]))"

definition cleanAbsolute :: "string \<Rightarrow> string option" where
  "cleanAbsolute p = (if p = [] \<or> \<not> IsAbs p then None else Some (Clean p))"

subsection \<open>Clean absolute paths\<close>

definition valid_name :: "string \<Rightarrow> bool" where
  "valid_name n \<longleftrightarrow> n \<noteq> [] \<and> slash \<notin> set n \<and> n \<noteq> [dot] \<and> n \<noteq> dotdot"

definition abs_path :: "string list \<Rightarrow> string" where
  "abs_path ns = slash # join_byte slash ns"

abbreviation names :: "string list \<Rightarrow> bool" where
  "names ns \<equiv> list_all valid_name ns"

lemma valid_nameD: "valid_name n \<Longrightarrow> n \<noteq> [] \<and> slash \<notin> set n \<and> n \<noteq> [dot] \<and> n \<noteq> dotdot"
  by (simp add: valid_name_def)

lemma slash_dot [simp]: "slash \<noteq> dot" "dot \<noteq> slash" "slash \<notin> set dotdot" "dotdot \<noteq> []" "dotdot \<noteq> [dot]"
  by (simp_all add: slash_def dot_def dotdot_def)

lemma clean_elems_names: "names ns \<Longrightarrow> clean_elems r out ns = rev out @ ns"
  by (induction ns arbitrary: out) (auto simp: valid_name_def)

lemma names_no_slash: "names ns \<Longrightarrow> \<forall>n \<in> set ns. slash \<notin> set n"
  by (auto simp: list_all_iff valid_name_def)

lemma split_abs_path: "names ns \<Longrightarrow> split_byte slash (abs_path ns) = [] # (if ns = [] then [[]] else ns)"
  by (simp add: abs_path_def split_join names_no_slash)

lemma IsAbs_abs_path [simp]: "IsAbs (abs_path ns)"
  by (simp add: IsAbs_def abs_path_def)

lemma elems_abs_path: "names ns \<Longrightarrow> elems (abs_path ns) = ns"
  by (simp add: elems_def split_abs_path clean_elems_names)

lemma Clean_abs_path: "names ns \<Longrightarrow> Clean (abs_path ns) = abs_path ns"
  by (simp add: Clean_def elems_abs_path) (simp add: abs_path_def)

lemma abs_path_inject [simp]: "names ms \<Longrightarrow> names ns \<Longrightarrow> abs_path ms = abs_path ns \<longleftrightarrow> ms = ns"
  by (metis elems_abs_path)

text \<open>Cleaning an absolute path gives a list of names.\<close>

lemma clean_elems_valid:
  "names (rev out) \<Longrightarrow> \<forall>e \<in> set es. slash \<notin> set e \<Longrightarrow> names (clean_elems True out es)"
proof (induction "True" out es rule: clean_elems.induct)
  case (2 out e es)
  have "names (rev (List.tl out))" using "2.prems"(1) by (cases out) auto
  moreover have "hd out \<noteq> dotdot" if "out \<noteq> []" using that "2.prems"(1) by (cases out) (auto simp: valid_name_def)
  ultimately show ?case using 2 by (auto simp: valid_name_def)
qed simp

lemma split_no_sep: "e \<in> set (split_byte d s) \<Longrightarrow> d \<notin> set e"
  by (induction d s arbitrary: e rule: split_byte.induct) (auto split: if_splits list.splits)

lemma names_elems: "IsAbs p \<Longrightarrow> names (elems p)"
  using clean_elems_valid [of "[]" "split_byte slash p"] by (auto simp: elems_def dest: split_no_sep)

lemma Clean_abs: "IsAbs p \<Longrightarrow> Clean p = abs_path (elems p)"
  by (simp add: Clean_def abs_path_def)

theorem Clean_idem: "IsAbs p \<Longrightarrow> Clean (Clean p) = Clean p"
  by (simp add: Clean_abs names_elems elems_abs_path)

lemma cleanAbsolute_eq: "cleanAbsolute p = Some q \<longleftrightarrow> IsAbs p \<and> q = abs_path (elems p)"
  by (auto simp: cleanAbsolute_def Clean_abs IsAbs_def)

text \<open>Taking a clean path apart and putting it together.\<close>

lemma join_snoc: "ns \<noteq> [] \<Longrightarrow> join_byte d (ns @ [n]) = join_byte d ns @ d # n"
  by (induction ns rule: join_byte.induct) auto

lemma abs_path_snoc: "abs_path (ns @ [n]) = (if ns = [] then slash # n else abs_path ns @ slash # n)"
  by (simp add: abs_path_def join_snoc)

lemma after_slash_snoc: "slash \<notin> set n \<Longrightarrow> after_slash (p @ slash # n) = n"
proof -
  assume n: "slash \<notin> set n"
  have "takeWhile (\<lambda>c. c \<noteq> slash) (rev n @ slash # rev p) = rev n" using n by (subst takeWhile_append2) auto
  then show ?thesis by (simp add: after_slash_def)
qed

lemma Base_abs_path: "valid_name n \<Longrightarrow> Base (abs_path (ns @ [n])) = n"
proof -
  assume n: "valid_name n"
  obtain p where p: "abs_path (ns @ [n]) = p @ slash # n" by (simp add: abs_path_snoc) (metis append_Nil)
  have "last n \<noteq> slash" using valid_nameD [OF n] by (metis last_in_set)
  then have "dropWhile (\<lambda>c. c = slash) (rev (p @ slash # n)) = rev (p @ slash # n)"
    using valid_nameD [OF n] by (cases n rule: rev_cases) auto
  then show ?thesis using valid_nameD [OF n] by (simp add: p Base_def after_slash_snoc Let_def del: rev_append rev.simps)
qed

lemma split_join_append:
  "ns \<noteq> [] \<Longrightarrow> \<forall>n \<in> set ns. d \<notin> set n \<Longrightarrow> split_byte d (join_byte d ns @ d # s) = ns @ split_byte d s"
  by (induction d ns rule: join_byte.induct) (simp_all add: split_append)

lemma elems_append:
  assumes "names ns"
  shows "elems (abs_path ns @ slash # p) = clean_elems True (rev ns) (split_byte slash p)"
proof -
  have "IsAbs (abs_path ns @ slash # p)" by (simp add: IsAbs_def abs_path_def)
  moreover have "clean_elems True [] (ns @ es) = clean_elems True (rev ns) es" for es
  proof -
    have "clean_elems True out (ns @ es) = clean_elems True (rev ns @ out) es" for out
      using assms by (induction ns arbitrary: out) (auto simp: valid_name_def)
    then show ?thesis by simp
  qed
  ultimately show ?thesis
    using assms by (cases "ns = []") (simp_all add: elems_def abs_path_def split_join_append names_no_slash)
qed

lemma Join_names: "names ns \<Longrightarrow> names ms \<Longrightarrow> ms \<noteq> [] \<Longrightarrow> Join (abs_path ns) (join_byte slash ms) = abs_path (ns @ ms)"
proof -
  assume v: "names ns" "names ms" "ms \<noteq> []"
  have "IsAbs (abs_path ns @ slash # p)" for p by (simp add: IsAbs_def abs_path_def)
  with v show ?thesis
    by (simp add: Join_def Clean_abs elems_append split_join names_no_slash clean_elems_names) (simp add: abs_path_def)
qed

lemma Join_name: "names ns \<Longrightarrow> valid_name n \<Longrightarrow> Join (abs_path ns) n = abs_path (ns @ [n])"
  using Join_names [of ns "[n]"] by simp

lemma Dir_abs_path: "names ns \<Longrightarrow> valid_name n \<Longrightarrow> Dir (abs_path (ns @ [n])) = abs_path ns"
proof -
  assume v: "names ns" "valid_name n"
  obtain p where p: "abs_path (ns @ [n]) = p @ slash # n" "p = (if ns = [] then [] else abs_path ns)" by (simp add: abs_path_snoc)
  have "Dir (abs_path (ns @ [n])) = Clean (p @ [slash])"
    using valid_nameD [OF v(2)] by (simp add: Dir_def p(1) after_slash_snoc)
  moreover have "IsAbs (p @ [slash])" by (simp add: IsAbs_def p(2) abs_path_def)
  moreover have "elems (p @ [slash]) = ns"
    using elems_append [OF v(1), of "[]"] by (simp add: p(2)) (simp add: elems_def IsAbs_def)
  ultimately show ?thesis by (simp add: Clean_abs)
qed

lemma Dir_root: "Dir (abs_path []) = abs_path []"
  by (simp add: abs_path_def Dir_def after_slash_def Clean_abs IsAbs_def) (simp add: elems_def abs_path_def IsAbs_def)

lemma strip_common_prefix: "strip_common ps cs = ([], ts) \<longleftrightarrow> cs = ps @ ts"
  by (induction ps cs rule: strip_common.induct) auto

lemma strip_common_sub: "strip_common ps cs = (bs, ts) \<Longrightarrow> (\<exists>as. ps = as @ bs \<and> cs = as @ ts)"
proof (induction ps cs rule: strip_common.induct)
  case (1 a as b bs')
  show ?case
  proof (cases "a = b")
    case True
    with 1 obtain cs where "as = cs @ bs" "bs' = cs @ ts" by auto
    with True have "a # as = (a # cs) @ bs \<and> b # bs' = (a # cs) @ ts" by simp
    then show ?thesis by blast
  qed (use 1 in auto)
qed auto

text \<open>\<open>isWithin\<close> is the prefix order of clean absolute paths.\<close>

lemma Rel_within:
  assumes "names ps" "names ts" "ts \<noteq> []"
  shows "Rel (abs_path ps) (abs_path (ps @ ts)) = Some (join_byte slash ts)"
proof -
  have "strip_common ps (ps @ ts) = ([], ts)" by (simp add: strip_common_prefix)
  with assms show ?thesis by (simp add: Rel_def Clean_abs_path elems_abs_path)
qed

lemma Rel_self [simp]: "Rel p p = Some [dot]"
  by (simp add: Rel_def)

lemma isWithin_iff:
  assumes v: "names ps" "names cs"
  shows "isWithin (abs_path ps) (abs_path cs) \<longleftrightarrow> prefix ps cs"
proof (cases "prefix ps cs")
  case True
  then obtain ts where cs: "cs = ps @ ts" by (auto simp: prefix_def)
  show ?thesis
  proof (cases "ts = []")
    case True then show ?thesis by (simp add: cs isWithin_def has_prefix_def dotdot_def)
  next
    case False
    then obtain t us where ts: "ts = t # us" by (cases ts) auto
    have t: "valid_name t" using v by (simp add: cs ts)
    let ?j = "join_byte slash ts"
    have j: "split_byte slash ?j = ts" using v False by (simp add: cs split_join names_no_slash)
    have "?j \<noteq> dotdot" using j t by (auto simp: ts valid_name_def split_clean)
    moreover have "\<not> has_prefix ?j (dotdot @ [slash])"
    proof
      assume "has_prefix ?j (dotdot @ [slash])"
      then obtain r where "?j = dotdot @ slash # r" unfolding has_prefix_def by (metis append_take_drop_id append_assoc append_Cons append_Nil)
      then show False using j t by (simp add: ts split_append valid_name_def)
    qed
    moreover have "Rel (abs_path ps) (abs_path cs) = Some ?j" using v False by (simp add: cs Rel_within)
    ultimately show ?thesis using True by (simp add: isWithin_def)
  qed
next
  case False
  obtain bs ts where st: "strip_common ps cs = (bs, ts)" by (cases "strip_common ps cs")
  have bs: "bs \<noteq> []" using False st strip_common_prefix [of ps cs ts] by (auto simp: prefix_def)
  then obtain b bs' where b: "bs = b # bs'" by (cases bs) auto
  have "valid_name b" using strip_common_sub [OF st] v b by auto
  then have "Rel (abs_path ps) (abs_path cs) = Some (join_byte slash (map (\<lambda>_. dotdot) bs @ ts))"
    using v False st b by (auto simp: Rel_def Clean_abs_path elems_abs_path valid_name_def)
  moreover have "map (\<lambda>_. dotdot) bs @ ts = dotdot # map (\<lambda>_. dotdot) bs' @ ts" by (simp add: b)
  moreover have "join_byte slash (dotdot # xs) = dotdot \<or> has_prefix (join_byte slash (dotdot # xs)) (dotdot @ [slash])" for xs
    by (cases xs) (simp_all add: has_prefix_def)
  ultimately show ?thesis using False by (auto simp: isWithin_def)
qed

text \<open>What a test on any two absolute paths says of their elements.\<close>

lemma isWithin_elems:
  assumes "IsAbs p" "IsAbs c"
  shows "isWithin p c \<longleftrightarrow> prefix (elems p) (elems c)"
proof -
  have "Rel p c = Rel (abs_path (elems p)) (abs_path (elems c))"
    using assms by (simp add: Rel_def Clean_abs Clean_abs_path elems_abs_path names_elems)
  then have "isWithin p c = isWithin (abs_path (elems p)) (abs_path (elems c))" by (simp add: isWithin_def)
  with assms show ?thesis by (simp add: isWithin_iff names_elems)
qed

end
