(* ===== verification/Files.thy ===== *)
theory Files
  imports Go_Path
begin

text \<open>
  The file system as the updater sees it: inodes at paths, and the system calls. Devices stand for mounts. Any call may fail
  without effect, for lack of permission too; permissions are not computed, and no other process writes in
  between; what the service does to its files is a step of its own in \<open>Update_Engine\<close>.
\<close>

subsection \<open>State\<close>

datatype kind = KFile string | KDir | KLink string | KSpecial

text \<open>\<open>in_mode\<close> holds the permission bits, the sticky bit and the set-id bits.\<close>

record inode =
  in_kind :: kind
  in_dev :: nat
  in_ino :: nat
  in_uid :: int
  in_gid :: int
  in_mode :: nat
  in_mtime :: time

type_synonym tree = "(string list \<times> inode) list"

text \<open>\<open>fs_fault n\<close> says that call number \<open>n\<close> fails; \<open>fs_rand n\<close> is the random number it draws.\<close>

record files =
  fs_tree :: tree
  fs_calls :: nat
  fs_fault :: "nat \<Rightarrow> bool"
  fs_rand :: "nat \<Rightarrow> 32 word"
  fs_ino :: nat
  fs_time :: time
  fs_euid :: int
  fs_egid :: int

datatype errno = ENOENT | EEXIST | ENOTDIR | EISDIR | ENOTEMPTY | EINVAL | ELOOP | EXDEV | EIO

definition look :: "files \<Rightarrow> string list \<Rightarrow> inode option" where
  "look s = map_of (fs_tree s)"

definition is_dir :: "inode \<Rightarrow> bool" where "is_dir i \<longleftrightarrow> in_kind i = KDir"

fun regular :: "kind \<Rightarrow> bool" where
  "regular (KFile c) = True"
| "regular k = False"

fun symlink :: "kind \<Rightarrow> bool" where
  "symlink (KLink t) = True"
| "symlink k = False"

definition dir_at :: "files \<Rightarrow> string list \<Rightarrow> bool" where
  "dir_at s r = (case look s r of None \<Rightarrow> False | Some i \<Rightarrow> is_dir i)"

definition dev_at :: "files \<Rightarrow> string list \<Rightarrow> nat" where
  "dev_at s r = (case look s r of None \<Rightarrow> 0 | Some i \<Rightarrow> in_dev i)"

text \<open>\<open>Mode().Perm()\<close>, and the test against a mask of bits.\<close>

definition perm :: "inode \<Rightarrow> nat" where "perm i = in_mode i mod 512"

definition has_bits :: "nat \<Rightarrow> nat \<Rightarrow> bool" where
  "has_bits m b \<longleftrightarrow> and m b \<noteq> 0"

definition group_world_writable :: "inode \<Rightarrow> bool" where
  "group_world_writable i \<longleftrightarrow> has_bits (perm i) 18"

definition sticky :: "inode \<Rightarrow> bool" where "sticky i \<longleftrightarrow> has_bits (in_mode i) 512"
definition setgid :: "inode \<Rightarrow> bool" where "setgid i \<longleftrightarrow> has_bits (in_mode i) 1024"

subsection \<open>Updates of the tree\<close>

definition del_under :: "string list \<Rightarrow> tree \<Rightarrow> tree" where
  "del_under p t = filter (\<lambda>(q, _). \<not> prefix p q) t"

definition move :: "string list \<Rightarrow> string list \<Rightarrow> tree \<Rightarrow> tree" where
  "move p q t = map (\<lambda>(r, i). (if prefix p r then q @ drop (length p) r else r, i)) (del_under q t)"

text \<open>Adding, moving or removing an entry stamps its directory.\<close>

definition stamp :: "time \<Rightarrow> string list \<Rightarrow> tree \<Rightarrow> tree" where
  "stamp now d t = (case map_of t d of None \<Rightarrow> t | Some i \<Rightarrow> AList.update d (i\<lparr>in_mtime := now\<rparr>) t)"

lemma look_simps [simp]:
  "look (s\<lparr>fs_calls := n\<rparr>) = look s" "look (s\<lparr>fs_ino := n\<rparr>) = look s" "look (s\<lparr>fs_tree := t\<rparr>) = map_of t"
  by (simp_all add: look_def)

lemma map_of_del_under: "map_of (del_under p t) r = (if prefix p r then None else map_of t r)"
  by (induction t) (auto simp: del_under_def)

lemma map_of_move_aux:
  assumes pq: "\<not> prefix p q" "\<not> prefix q p"
  shows "map_of (map (\<lambda>(r, i). (if prefix p r then q @ drop (length p) r else r, i)) (del_under q t)) r =
    (if prefix q r then map_of t (p @ drop (length q) r) else if prefix p r then None else map_of t r)"
proof (induction t)
  case (Cons x t)
  obtain k i where x: "x = (k, i)" by (cases x)
  have np: "\<not> prefix q (p @ u)" for u using pq by (auto simp: prefix_append prefix_def append_eq_append_conv2)
  have nq: "\<not> prefix p (q @ u)" for u using pq by (auto simp: prefix_def append_eq_append_conv2)
  show ?case
  proof (cases "prefix q k")
    case True
    then have kp: "k \<noteq> p @ u" for u using np [of u] by auto
    moreover have "\<not> (\<not> prefix q r \<and> \<not> prefix p r \<and> r = k)" using True by auto
    ultimately show ?thesis using Cons True not_sym [OF \<open>k \<noteq> p @ drop (length q) r\<close>] by (auto simp: x del_under_def)
  next
    case False
    show ?thesis
    proof (cases "prefix p k")
      case True
      then obtain u where k: "k = p @ u" by (auto simp: prefix_def)
      show ?thesis
      proof (cases "prefix q r")
        case True
        then obtain w where r: "r = q @ w" by (auto simp: prefix_def)
        show ?thesis using Cons False by (simp add: x k r del_under_def np)
      next
        case nr: False
        then have "r \<noteq> q @ u" by auto
        then show ?thesis using Cons False nr by (auto simp: x k del_under_def)
      qed
    next
      case nk: False
      then have "k \<noteq> p @ w" for w by auto
      moreover have "\<not> prefix q r" if "r = k" using that False by simp
      ultimately show ?thesis using Cons False nk by (auto simp: x del_under_def)
    qed
  qed
qed (simp add: del_under_def)

lemma map_of_move:
  "\<not> prefix p q \<Longrightarrow> \<not> prefix q p \<Longrightarrow>
    map_of (move p q t) r = (if prefix q r then map_of t (p @ drop (length q) r) else if prefix p r then None else map_of t r)"
  by (simp add: move_def map_of_move_aux)

lemma map_of_stamp:
  "map_of (stamp now d t) r = (if r = d then map_option (in_mtime_update (\<lambda>_. now)) (map_of t d) else map_of t r)"
  by (auto simp: stamp_def update_conv' split: option.split)

subsection \<open>Path lookup\<close>

text \<open>The names that are left are walked from the directory reached; links are followed, the last one if asked.\<close>

function resolve :: "nat \<Rightarrow> (string list \<Rightarrow> inode option) \<Rightarrow> bool \<Rightarrow> string list \<Rightarrow> string list \<Rightarrow> errno + string list" where
  "resolve n t follow d [] = Inr d"
| "resolve n t follow d (c # cs) =
     (if c = [] \<or> c = [dot] then resolve n t follow d cs
      else if c = dotdot then resolve n t follow (butlast d) cs
      else case t (d @ [c]) of
        None \<Rightarrow> Inl ENOENT
      | Some i \<Rightarrow>
          (case in_kind i of
             KDir \<Rightarrow> resolve n t follow (d @ [c]) cs
           | KLink target \<Rightarrow>
               if cs = [] \<and> \<not> follow then Inr (d @ [c])
               else if n = 0 then Inl ELOOP
               else resolve (n - 1) t follow (if IsAbs target then [] else d) (split_byte slash target @ cs)
           | _ \<Rightarrow> if cs = [] then Inr (d @ [c]) else Inl ENOTDIR))"
  by pat_completeness auto
termination
  by (relation "measures [\<lambda>(n, t, follow, d, cs). n, \<lambda>(n, t, follow, d, cs). length cs]") auto

text \<open>The links the kernel follows in one call, and those that \<open>EvalSymlinks\<close> follows.\<close>

definition max_links :: nat where "max_links = 40"
definition max_eval_links :: nat where "max_eval_links = 255"

definition lookup_path :: "bool \<Rightarrow> string \<Rightarrow> files \<Rightarrow> errno + string list" where
  "lookup_path follow p s = resolve max_links (look s) follow [] (split_byte slash p)"

text \<open>The place of an entry that need not exist: its directory is resolved, its name is not.\<close>

definition entry_path :: "string \<Rightarrow> files \<Rightarrow> errno + string list" where
  "entry_path p s =
     (let cs = filter (\<lambda>c. c \<noteq> []) (split_byte slash p)
      in if cs = [] then Inr []
         else case resolve max_links (look s) True [] (butlast cs) of
           Inl e \<Rightarrow> Inl e
         | Inr d \<Rightarrow> if dir_at s d then Inr (d @ [last cs]) else Inl ENOTDIR)"

subsection \<open>System calls\<close>

type_synonym 'a sys = "files \<Rightarrow> (errno + 'a) \<times> files"

definition sys_call :: "'a sys \<Rightarrow> 'a sys" where
  "sys_call f s =
     (let s' = s\<lparr>fs_calls := Suc (fs_calls s)\<rparr> in if fs_fault s (fs_calls s) then (Inl EIO, s') else f s')"

definition stat_at :: "bool \<Rightarrow> string \<Rightarrow> inode sys" where
  "stat_at follow p = sys_call (\<lambda>s.
     (case lookup_path follow p s of
        Inl e \<Rightarrow> Inl e
      | Inr r \<Rightarrow> (case look s r of None \<Rightarrow> Inl ENOENT | Some i \<Rightarrow> Inr i), s))"

definition Lstat :: "string \<Rightarrow> inode sys" where "Lstat = stat_at False"
definition Stat :: "string \<Rightarrow> inode sys" where "Stat = stat_at True"

definition EvalSymlinks :: "string \<Rightarrow> string sys" where
  "EvalSymlinks p = sys_call (\<lambda>s.
     (case resolve max_eval_links (look s) True [] (split_byte slash p) of Inl e \<Rightarrow> Inl e | Inr r \<Rightarrow> Inr (abs_path r), s))"

text \<open>Opening a file and reading it to its end.\<close>

definition ReadFile :: "string \<Rightarrow> string sys" where
  "ReadFile p = sys_call (\<lambda>s.
     (case lookup_path True p s of
        Inl e \<Rightarrow> Inl e
      | Inr r \<Rightarrow>
          (case look s r of
             None \<Rightarrow> Inl ENOENT
           | Some i \<Rightarrow> (case in_kind i of KFile c \<Rightarrow> Inr c | KDir \<Rightarrow> Inl EISDIR | _ \<Rightarrow> Inl EIO)), s))"

text \<open>A new entry, of the caller, on the device of its directory; a set-gid directory hands on its group, and the bit to directories.\<close>

definition setgid_of :: "files \<Rightarrow> string list \<Rightarrow> int option" where
  "setgid_of s d = (case look s d of None \<Rightarrow> None | Some i \<Rightarrow> if setgid i then Some (in_gid i) else None)"

definition new_inode :: "kind \<Rightarrow> nat \<Rightarrow> string list \<Rightarrow> files \<Rightarrow> inode" where
  "new_inode k mode r s =
     (let group = setgid_of s (butlast r) in
      \<lparr>in_kind = k, in_dev = dev_at s (butlast r), in_ino = fs_ino s, in_uid = fs_euid s,
       in_gid = (case group of None \<Rightarrow> fs_egid s | Some g \<Rightarrow> g),
       in_mode = (if k = KDir \<and> group \<noteq> None then or mode 1024 else mode), in_mtime = fs_time s\<rparr>)"

definition add_entry :: "kind \<Rightarrow> nat \<Rightarrow> string list \<Rightarrow> files \<Rightarrow> files" where
  "add_entry k mode r s =
     s\<lparr>fs_tree := stamp (fs_time s) (butlast r) (AList.update r (new_inode k mode r s) (fs_tree s)), fs_ino := Suc (fs_ino s)\<rparr>"

definition create_at :: "kind \<Rightarrow> nat \<Rightarrow> string \<Rightarrow> unit sys" where
  "create_at k mode p = sys_call (\<lambda>s.
     case entry_path p s of
       Inl e \<Rightarrow> (Inl e, s)
     | Inr r \<Rightarrow> if look s r \<noteq> None then (Inl EEXIST, s) else (Inr (), add_entry k mode r s))"

definition Mkdir :: "string \<Rightarrow> nat \<Rightarrow> unit sys" where
  "Mkdir p mode = create_at KDir mode p"

text \<open>\<open>OpenFile\<close> with \<open>O_CREATE|O_EXCL|O_WRONLY\<close>, and writing all of the file.\<close>

definition CreateExcl :: "string \<Rightarrow> nat \<Rightarrow> unit sys" where
  "CreateExcl p mode = create_at (KFile []) mode p"

definition update_inode :: "bool \<Rightarrow> string \<Rightarrow> (files \<Rightarrow> inode \<Rightarrow> inode) \<Rightarrow> unit sys" where
  "update_inode follow p f = sys_call (\<lambda>s.
     case lookup_path follow p s of
       Inl e \<Rightarrow> (Inl e, s)
     | Inr r \<Rightarrow>
         (case look s r of
            None \<Rightarrow> (Inl ENOENT, s)
          | Some i \<Rightarrow> (Inr (), s\<lparr>fs_tree := AList.update r (f s i) (fs_tree s)\<rparr>)))"

definition WriteAll :: "string \<Rightarrow> string \<Rightarrow> unit sys" where
  "WriteAll p c = update_inode True p (\<lambda>s i. i\<lparr>in_kind := KFile c, in_mtime := fs_time s\<rparr>)"

definition Chmod :: "string \<Rightarrow> nat \<Rightarrow> unit sys" where
  "Chmod p mode = update_inode True p (\<lambda>s i. i\<lparr>in_mode := mode\<rparr>)"

definition Lchown :: "string \<Rightarrow> int \<Rightarrow> int \<Rightarrow> unit sys" where
  "Lchown p uid gid = update_inode False p (\<lambda>s i. i\<lparr>in_uid := uid, in_gid := gid\<rparr>)"

definition Chtimes :: "string \<Rightarrow> time \<Rightarrow> unit sys" where
  "Chtimes p mtime = update_inode True p (\<lambda>s i. i\<lparr>in_mtime := mtime\<rparr>)"

text \<open>\<open>fsync\<close> of a file or a directory.\<close>

definition Sync :: "string \<Rightarrow> unit sys" where
  "Sync p = sys_call (\<lambda>s. (case lookup_path True p s of Inl e \<Rightarrow> Inl e | Inr r \<Rightarrow> if look s r = None then Inl ENOENT else Inr (), s))"

definition Close :: "unit sys" where
  "Close = sys_call (\<lambda>s. (Inr (), s))"

text \<open>
  \<open>os.Link\<close>, which does not follow a link, and \<open>os.Remove\<close>. Both names of a hard link carry the same
  inode number; calls on an open file change what all of its names show.
\<close>

definition Link :: "string \<Rightarrow> string \<Rightarrow> unit sys" where
  "Link old new = sys_call (\<lambda>s.
     case (lookup_path False old s, entry_path new s) of
       (Inl e, _) \<Rightarrow> (Inl e, s)
     | (_, Inl e) \<Rightarrow> (Inl e, s)
     | (Inr p, Inr q) \<Rightarrow>
         (case look s p of
            None \<Rightarrow> (Inl ENOENT, s)
          | Some i \<Rightarrow>
              if look s q \<noteq> None then (Inl EEXIST, s)
              else if dev_at s (butlast q) \<noteq> in_dev i then (Inl EXDEV, s)
              else if is_dir i then (Inl EIO, s)
              else (Inr (), s\<lparr>fs_tree := stamp (fs_time s) (butlast q) (AList.update q i (fs_tree s))\<rparr>)))"

definition same_inode :: "inode \<Rightarrow> inode \<Rightarrow> bool" where
  "same_inode i j \<longleftrightarrow> in_dev i = in_dev j \<and> in_ino i = in_ino j"

definition links :: "inode \<Rightarrow> files \<Rightarrow> nat" where
  "links i s = length (filter (\<lambda>(p, j). same_inode i j) (fs_tree s))"

definition change_open :: "inode \<Rightarrow> (inode \<Rightarrow> inode) \<Rightarrow> unit sys" where
  "change_open i f = sys_call (\<lambda>s. (Inr (), s\<lparr>fs_tree := map (\<lambda>(p, j). (p, if same_inode i j then f j else j)) (fs_tree s)\<rparr>))"

definition FChown :: "inode \<Rightarrow> int \<Rightarrow> int \<Rightarrow> unit sys" where
  "FChown i uid gid = change_open i (\<lambda>j. j\<lparr>in_uid := uid, in_gid := gid\<rparr>)"

definition FChmod :: "inode \<Rightarrow> nat \<Rightarrow> unit sys" where
  "FChmod i mode = change_open i (\<lambda>j. j\<lparr>in_mode := mode\<rparr>)"

definition has_children :: "string list \<Rightarrow> files \<Rightarrow> bool" where
  "has_children r s \<longleftrightarrow> list_ex (\<lambda>(q, _). strict_prefix r q) (fs_tree s)"

definition rename_error :: "string list \<Rightarrow> string list \<Rightarrow> inode \<Rightarrow> files \<Rightarrow> errno option" where
  "rename_error p q i s =
     (if strict_prefix p q then Some EINVAL
      else if strict_prefix q p then Some ENOTEMPTY
      else if dev_at s (butlast q) \<noteq> in_dev i then Some EXDEV
      else case look s q of
        None \<Rightarrow> None
      | Some j \<Rightarrow>
          if is_dir j then (if \<not> is_dir i then Some EISDIR else if has_children q s then Some ENOTEMPTY else None)
          else if is_dir i then Some ENOTDIR else None)"

definition Rename :: "string \<Rightarrow> string \<Rightarrow> unit sys" where
  "Rename old new = sys_call (\<lambda>s.
     case (entry_path old s, entry_path new s) of
       (Inl e, _) \<Rightarrow> (Inl e, s)
     | (_, Inl e) \<Rightarrow> (Inl e, s)
     | (Inr p, Inr q) \<Rightarrow>
         (case look s p of
            None \<Rightarrow> (Inl ENOENT, s)
          | Some i \<Rightarrow>
              if p = q then (Inr (), s)
              else case rename_error p q i s of
                Some e \<Rightarrow> (Inl e, s)
              | None \<Rightarrow> (Inr (), s\<lparr>fs_tree := stamp (fs_time s) (butlast p) (stamp (fs_time s) (butlast q) (move p q (fs_tree s)))\<rparr>)))"

text \<open>\<open>RemoveAll\<close>: a path that is not there is no error.\<close>

definition RemoveAll :: "string \<Rightarrow> unit sys" where
  "RemoveAll p = sys_call (\<lambda>s.
     case entry_path p s of
       Inl ENOENT \<Rightarrow> (Inr (), s)
     | Inl e \<Rightarrow> (Inl e, s)
     | Inr r \<Rightarrow> (Inr (), if look s r = None then s else s\<lparr>fs_tree := stamp (fs_time s) (butlast r) (del_under r (fs_tree s))\<rparr>))"

definition Remove :: "string \<Rightarrow> unit sys" where
  "Remove p = sys_call (\<lambda>s.
     case entry_path p s of
       Inl e \<Rightarrow> (Inl e, s)
     | Inr r \<Rightarrow>
         if look s r = None then (Inl ENOENT, s)
         else if has_children r s then (Inl ENOTEMPTY, s)
         else (Inr (), s\<lparr>fs_tree := stamp (fs_time s) (butlast r) (del_under r (fs_tree s))\<rparr>))"

text \<open>\<open>MkdirTemp\<close>: a name that is taken is drawn again, ten thousand times at most.\<close>

definition temp_attempts :: nat where "temp_attempts = 10000"

definition temp_name :: "string \<Rightarrow> files \<Rightarrow> string" where
  "temp_name pat s = pat @ fmt_int 1 (uint (fs_rand s (fs_calls s)))"

fun mkdir_temp :: "nat \<Rightarrow> string \<Rightarrow> string \<Rightarrow> string sys" where
  "mkdir_temp 0 d pat s = (Inl EEXIST, s)"
| "mkdir_temp (Suc n) d pat s =
     (let p = Join d (temp_name pat s)
      in case Mkdir p 448 s of
           (Inr _, s) \<Rightarrow> (Inr p, s)
         | (Inl EEXIST, s) \<Rightarrow> mkdir_temp n d pat s
         | (Inl e, s) \<Rightarrow> (Inl e, s))"

definition MkdirTemp :: "string \<Rightarrow> string \<Rightarrow> string sys" where
  "MkdirTemp = mkdir_temp temp_attempts"

text \<open>\<open>MkdirAll\<close> of a clean path: every missing directory on the way is made.\<close>

fun mkdir_all :: "nat \<Rightarrow> string list \<Rightarrow> string list \<Rightarrow> unit sys" where
  "mkdir_all mode d [] s = (Inr (), s)"
| "mkdir_all mode d (c # cs) s =
     (let p = abs_path (d @ [c])
      in case Stat p s of
           (Inr i, s) \<Rightarrow> if is_dir i then mkdir_all mode (d @ [c]) cs s else (Inl ENOTDIR, s)
         | (Inl _, s) \<Rightarrow>
             (case Mkdir p mode s of
                (Inl e, s) \<Rightarrow> (Inl e, s)
              | (Inr _, s) \<Rightarrow> mkdir_all mode (d @ [c]) cs s))"

definition MkdirAll :: "string \<Rightarrow> nat \<Rightarrow> unit sys" where
  "MkdirAll p mode = mkdir_all mode [] (elems p)"

text \<open>The paths below a root in the order of \<open>filepath.Walk\<close>: a directory comes before its entries, which come by name.\<close>

definition walk :: "string list \<Rightarrow> files \<Rightarrow> string list list" where
  "walk r s = sort (filter (prefix r) (remdups (map fst (fs_tree s))))"

text \<open>\<open>WalkDir\<close> and \<open>Walk\<close> with a callback that only reads: the paths and their inodes.\<close>

definition Walk :: "string \<Rightarrow> (string list \<times> inode) list sys" where
  "Walk root = sys_call (\<lambda>s.
     (case lookup_path False root s of
        Inl e \<Rightarrow> Inl e
      | Inr r \<Rightarrow>
          if look s r = None then Inl ENOENT
          else Inr (List.map_filter (\<lambda>p. map_option (Pair p) (look s p)) (walk r s)), s))"

text \<open>Opening a file without following a link, with what \<open>fstat\<close> says of it.\<close>

definition OpenNoFollow :: "string \<Rightarrow> (inode \<times> string) sys" where
  "OpenNoFollow p = sys_call (\<lambda>s.
     (case lookup_path False p s of
        Inl e \<Rightarrow> Inl e
      | Inr r \<Rightarrow>
          (case look s r of
             None \<Rightarrow> Inl ENOENT
           | Some i \<Rightarrow> (case in_kind i of KFile c \<Rightarrow> Inr (i, c) | KDir \<Rightarrow> Inr (i, []) | KLink _ \<Rightarrow> Inl ELOOP | KSpecial \<Rightarrow> Inr (i, []))), s))"

subsection \<open>Composing calls\<close>

text \<open>Errors of the updater: a message, one about a numbered entry, one with its cause, several, or one of the system.\<close>

datatype failure = Fail string | FailAt string nat | FailWith string failure | FailAtWith string nat failure | Joined "failure list" | Sys errno

type_synonym 'a io = "files \<Rightarrow> (failure + 'a) \<times> files"

definition io_return :: "'a \<Rightarrow> 'a io" where "io_return a s = (Inr a, s)"
definition io_fail :: "failure \<Rightarrow> 'a io" where "io_fail e s = (Inl e, s)"

definition io_bind :: "'a io \<Rightarrow> ('a \<Rightarrow> 'b io) \<Rightarrow> 'b io" where
  "io_bind m f s = (case m s of (Inl e, s) \<Rightarrow> (Inl e, s) | (Inr a, s) \<Rightarrow> f a s)"

definition io_check :: "bool \<Rightarrow> failure \<Rightarrow> unit io" where
  "io_check b e = (if b then io_return () else io_fail e)"

definition io_valid :: "failure option \<Rightarrow> unit io" where
  "io_valid e = (case e of None \<Rightarrow> io_return () | Some x \<Rightarrow> io_fail x)"

text \<open>A call whose failure is reported as \<open>e\<close>, or as itself; and what is done when the rest fails.\<close>

definition or_fail :: "(files \<Rightarrow> ('e + 'a) \<times> files) \<Rightarrow> failure \<Rightarrow> 'a io" where
  "or_fail m e s = (case m s of (Inl _, s) \<Rightarrow> (Inl e, s) | (Inr a, s) \<Rightarrow> (Inr a, s))"

definition fail_with :: "'a io \<Rightarrow> (failure \<Rightarrow> failure) \<Rightarrow> 'a io" where
  "fail_with m f s = (case m s of (Inl e, s) \<Rightarrow> (Inl (f e), s) | (Inr a, s) \<Rightarrow> (Inr a, s))"

definition io_sys :: "'a sys \<Rightarrow> 'a io" where
  "io_sys m s = (case m s of (Inl e, s) \<Rightarrow> (Inl (Sys e), s) | (Inr a, s) \<Rightarrow> (Inr a, s))"

definition on_fail :: "'a io \<Rightarrow> (files \<Rightarrow> files) \<Rightarrow> 'a io" where
  "on_fail m cleanup s = (case m s of (Inl e, s) \<Rightarrow> (Inl e, cleanup s) | (Inr a, s) \<Rightarrow> (Inr a, s))"

text \<open>The two outcomes of a call, for code that goes on after a failure.\<close>

definition io_try :: "(files \<Rightarrow> ('e + 'a) \<times> files) \<Rightarrow> ('e + 'a) io" where
  "io_try m s = (case m s of (r, s) \<Rightarrow> (Inr r, s))"

fun io_map :: "('a \<Rightarrow> 'b io) \<Rightarrow> 'a list \<Rightarrow> 'b list io" where
  "io_map f [] = io_return []"
| "io_map f (a # as) = io_bind (f a) (\<lambda>b. io_bind (io_map f as) (\<lambda>bs. io_return (b # bs)))"

fun io_each :: "('a \<Rightarrow> unit io) \<Rightarrow> 'a list \<Rightarrow> unit io" where
  "io_each f [] = io_return ()"
| "io_each f (a # as) = io_bind (f a) (\<lambda>_. io_each f as)"

lemma io_simps [simp]:
  "io_bind (io_return a) f = f a" "io_bind (io_fail e) f = io_fail e"
  "io_bind (io_bind m f) g = io_bind m (\<lambda>a. io_bind (f a) g)"
  by (auto simp: io_bind_def io_return_def io_fail_def fun_eq_iff split: prod.split sum.split)

text \<open>Where a result came from.\<close>

lemma io_bind_Inr: "io_bind m f s = (Inr b, s') \<longleftrightarrow> (\<exists>a t. m s = (Inr a, t) \<and> f a t = (Inr b, s'))"
  by (auto simp: io_bind_def split: prod.split sum.split)

lemma io_return_Inr [simp]: "io_return a s = (Inr b, s') \<longleftrightarrow> a = b \<and> s = s'"
  by (auto simp: io_return_def)

lemma io_fail_Inr [simp]: "io_fail e s \<noteq> (Inr b, s')"
  by (simp add: io_fail_def)

lemma io_check_Inr [simp]: "io_check b e s = (Inr u, s') \<longleftrightarrow> b \<and> s = s'"
  by (simp add: io_check_def)

lemma io_sys_Inr [simp]: "io_sys m s = (Inr a, s') \<longleftrightarrow> m s = (Inr a, s')"
  by (auto simp: io_sys_def split: prod.split sum.split)

lemma or_fail_Inr [simp]: "or_fail m e s = (Inr a, s') \<longleftrightarrow> m s = (Inr a, s')"
  by (auto simp: or_fail_def split: prod.split sum.split)

lemma fail_with_Inr [simp]: "fail_with m f s = (Inr a, s') \<longleftrightarrow> m s = (Inr a, s')"
  by (auto simp: fail_with_def split: prod.split sum.split)

lemma on_fail_Inr [simp]: "on_fail m c s = (Inr a, s') \<longleftrightarrow> m s = (Inr a, s')"
  by (auto simp: on_fail_def split: prod.split sum.split)

end
