(* ===== verification/Backup.thy ===== *)
theory Backup
  imports Files
begin

text \<open>
  The snapshot of the durable state and its restoration (\<open>internal/updater/backup.go\<close>). Arguments of the
  model are the hash, the encodings of the archive and of the manifest, the home directory and the
  operating system.
\<close>

subsection \<open>State\<close>

datatype tar_type = TypeReg | TypeDir | TypeOther

record tar_entry =
  th_Name :: string
  th_Typeflag :: tar_type
  th_Size :: int
  th_Mode :: nat
  th_Uid :: int
  th_Gid :: int
  th_ModTime :: time
  th_Data :: string

datatype state_kind = StateMissing | StateFile | StateDirectory

record manifest_entry =
  me_Target :: string
  me_Exists :: bool
  me_Kind :: state_kind

record snapshot =
  sn_directory :: string
  sn_entries :: "manifest_entry list"
  sn_archiveSHA256 :: string

text \<open>
  \<open>be_sha\<close> is the hash in hexadecimal; \<open>be_read\<close> gives the entries up to the end of the archive or to a
  defect, and says which.
\<close>

record backup_env =
  be_sha :: "string \<Rightarrow> string"
  be_write :: "tar_entry list \<Rightarrow> string"
  be_read :: "string \<Rightarrow> tar_entry list \<times> bool"
  be_manifest :: "time \<Rightarrow> string \<Rightarrow> manifest_entry list \<Rightarrow> string"
  be_home :: "string option"
  be_linux :: bool

definition backupArchiveName :: string where "backupArchiveName = ''state.tar''"
definition backupManifestName :: string where "backupManifestName = ''manifest.json''"
definition ManagedRootMarker :: string where "ManagedRootMarker = ''.runeconsole-managed''"
definition ManagedRootMarkerContent :: string where "ManagedRootMarkerContent = ''runeconsole-managed-v1'' @ [CHR 0x0A]"

definition removePrivateTree :: "string \<Rightarrow> files \<Rightarrow> files" where
  "removePrivateTree p s = (if p = [] then s else snd (RemoveAll p s))"

subsection \<open>Canonical paths\<close>

text \<open>From a clean path upwards to the nearest entry that exists; the names below it are kept.\<close>

definition probe_here :: "string list \<Rightarrow> string list \<Rightarrow> string option io" where
  "probe_here ns rest s =
     (let probe = abs_path (rev ns)
      in case Lstat probe s of
        (Inr _, s) \<Rightarrow>
          (case EvalSymlinks probe s of
             (Inl _, s) \<Rightarrow> (Inl (Fail ''resolve configured state path failed''), s)
           | (Inr r, s) \<Rightarrow> (Inr (Some (Clean (foldl Join r rest))), s))
      | (Inl e, s) \<Rightarrow> (if e = ENOENT then Inr None else Inl (Fail ''inspect configured state path failed''), s))"

fun probe_up :: "string list \<Rightarrow> string list \<Rightarrow> string io" where
  "probe_up [] rest =
     io_bind (probe_here [] rest) (\<lambda>r.
       case r of Some p \<Rightarrow> io_return p | None \<Rightarrow> io_fail (Fail ''configured state path has no existing ancestor''))"
| "probe_up (n # ns) rest =
     io_bind (probe_here (n # ns) rest) (\<lambda>r. case r of Some p \<Rightarrow> io_return p | None \<Rightarrow> probe_up ns (n # rest))"

definition canonicalizePath :: "string \<Rightarrow> string io" where
  "canonicalizePath input =
     (case cleanAbsolute input of
        None \<Rightarrow> io_fail (Fail ''update paths must be absolute'')
      | Some p \<Rightarrow> probe_up (rev (elems p)) [])"

fun canonical_distinct :: "string list \<Rightarrow> string list \<Rightarrow> string list io" where
  "canonical_distinct result [] = io_return result"
| "canonical_distinct result (input # inputs) =
     (if input = [] then canonical_distinct result inputs
      else io_bind (canonicalizePath input)
        (\<lambda>p. canonical_distinct (if p \<in> set result then result else result @ [p]) inputs))"

definition canonicalizeDistinctPaths :: "string list \<Rightarrow> string list io" where
  "canonicalizeDistinctPaths = canonical_distinct []"

text \<open>Shorter paths first, so that a path inside another comes after it and is dropped.\<close>

definition keep_uncovered :: "string list \<Rightarrow> string list \<Rightarrow> string list" where
  "keep_uncovered = foldl (\<lambda>filtered path. if list_ex (\<lambda>parent. isWithin parent path) filtered then filtered else filtered @ [path])"

definition drop_covered :: "string list \<Rightarrow> string list" where
  "drop_covered ps = keep_uncovered [] (sort_key (\<lambda>p. (length p, p)) ps)"

definition CanonicalizePaths :: "string list \<Rightarrow> string list io" where
  "CanonicalizePaths paths = io_bind (canonicalizeDistinctPaths paths) (\<lambda>ps. io_return (drop_covered ps))"

subsection \<open>Validation\<close>

definition broad :: "string list" where
  "broad = [''/'', ''/bin'', ''/boot'', ''/dev'', ''/etc'', ''/home'', ''/Library'', ''/Applications'', ''/media'', ''/mnt'',
     ''/opt'', ''/private'', ''/private/etc'', ''/private/tmp'', ''/private/var'', ''/proc'', ''/root'', ''/run'', ''/sbin'', ''/srv'',
     ''/sys'', ''/System'', ''/System/Volumes'', ''/System/Volumes/Data'', ''/tmp'', ''/Users'', ''/usr'', ''/usr/local'',
     ''/usr/local/bin'', ''/var'', ''/var/backups'', ''/Volumes'']"

definition validateManagedPath :: "backup_env \<Rightarrow> string \<Rightarrow> unit io" where
  "validateManagedPath be path =
     (case cleanAbsolute path of
        None \<Rightarrow> io_fail (Fail ''update paths must be absolute'')
      | Some clean \<Rightarrow>
          if clean \<in> set broad then io_fail (Fail ''path is broader than a runeconsole-owned location'')
          else case be_home be of
            None \<Rightarrow> io_return ()
          | Some home \<Rightarrow>
              io_bind (io_try (canonicalizePath home)) (\<lambda>r.
                io_check (r \<noteq> Inr clean) (Fail (''path must not be a user'' @ [CHR 0x27] @ ''s home directory''))))"

text \<open>\<open>strings.Fields\<close>, and the lines of a \<open>bufio.Scanner\<close> with a bound on their length.\<close>

fun fields_of :: "(nat \<times> string) list \<Rightarrow> string \<Rightarrow> string list" where
  "fields_of [] w = (if w = [] then [] else [w])"
| "fields_of ((r, c) # cs) w =
     (if is_space r then (if w = [] then fields_of cs [] else w # fields_of cs []) else fields_of cs (w @ c))"

definition Fields :: "string \<Rightarrow> string list" where
  "Fields s = fields_of (rune_chunks s) []"

definition newline :: char where "newline = CHR 0x0A"

definition drop_cr :: "string \<Rightarrow> string" where
  "drop_cr l = (if l \<noteq> [] \<and> last l = CHR 0x0D then butlast l else l)"

definition scan_lines :: "nat \<Rightarrow> string \<Rightarrow> string list \<times> bool" where
  "scan_lines bound text =
     (let ls = split_byte newline text; ls = (if last ls = [] then butlast ls else ls);
          ok = takeWhile (\<lambda>l. length l < bound) ls
      in (map drop_cr ok, length ok = length ls))"

text \<open>A mount point is written with octal escapes; a value beyond a byte wraps around.\<close>

definition octal_digit :: "char \<Rightarrow> 8 word option" where
  "octal_digit c = (if CHR ''0'' \<le> c \<and> c \<le> CHR ''7'' then Some (of_nat (of_char c - 48)) else None)"

fun unescapeMountInfoPath :: "string \<Rightarrow> string option" where
  "unescapeMountInfoPath [] = Some []"
| "unescapeMountInfoPath (c # cs) =
     (if c \<noteq> CHR 0x5C then map_option ((#) c) (unescapeMountInfoPath cs)
      else case cs of
        a # b # d # rest \<Rightarrow>
          (case (octal_digit a, octal_digit b, octal_digit d) of
             (Some x, Some y, Some z) \<Rightarrow> map_option ((#) (char_of (unat ((x * 8 + y) * 8 + z)))) (unescapeMountInfoPath rest)
           | _ \<Rightarrow> None)
      | _ \<Rightarrow> None)"

definition mount_of_line :: "string \<Rightarrow> string option" where
  "mount_of_line line =
     (let fs = Fields line
      in if length fs < 6 then None
         else case unescapeMountInfoPath (fs ! 4) of None \<Rightarrow> None | Some mount \<Rightarrow> if IsAbs mount then Some (Clean mount) else None)"

definition parseLinuxMountInfo :: "string \<Rightarrow> string list option" where
  "parseLinuxMountInfo text =
     (case scan_lines (2 * 1024 * 1024) text of
        (ls, ok) \<Rightarrow>
          let ms = map mount_of_line ls
          in if None \<in> set ms \<or> \<not> ok then None else Some (List.map_filter id ms))"

definition validateNoMountBoundaries :: "backup_env \<Rightarrow> string \<Rightarrow> unit io" where
  "validateNoMountBoundaries be root =
     io_bind (or_fail (Stat root) (Fail ''managed root is not an inspectable directory'')) (\<lambda>rootInfo.
     io_bind (io_check (is_dir rootInfo) (Fail ''managed root is not an inspectable directory'')) (\<lambda>_.
     let parent = Dir root in
     io_bind (io_check (parent \<noteq> root) (Fail ''managed root must not be a filesystem mount point'')) (\<lambda>_.
     io_bind (or_fail (Stat parent) (Fail ''managed root parent is not inspectable'')) (\<lambda>parentInfo.
     io_bind (io_check (is_dir parentInfo) (Fail ''managed root parent is not inspectable'')) (\<lambda>_.
     io_bind (io_check (in_dev parentInfo = in_dev rootInfo) (Fail ''managed root must not be a filesystem mount point'')) (\<lambda>_.
     io_bind (or_fail (Walk root) (Fail ''managed root contains a nested filesystem boundary'')) (\<lambda>es.
     io_bind (io_check (list_all (\<lambda>(p, i). in_dev i = in_dev rootInfo) es) (Fail ''managed root contains a nested filesystem boundary'')) (\<lambda>_.
     if \<not> be_linux be then io_return ()
     else
     io_bind (or_fail (ReadFile ''/proc/self/mountinfo'') (Fail ''cannot inspect Linux mount boundaries'')) (\<lambda>text.
     case parseLinuxMountInfo text of
       None \<Rightarrow> io_fail (Fail ''cannot parse Linux mount boundaries'')
     | Some mounts \<Rightarrow>
         io_check (list_all (\<lambda>mount. \<not> (mount = root \<or> isWithin root mount)) mounts)
           (Fail ''managed root is or contains a Linux mount point''))))))))))"

definition validateManagedRoot :: "backup_env \<Rightarrow> string \<Rightarrow> unit io" where
  "validateManagedRoot be root =
     (let marker = Join root ManagedRootMarker;
          missing = Fail ''configured managed root is missing its ownership marker''
      in
     io_bind (or_fail (validateManagedPath be root) (Fail ''configured managed root is unsafe'')) (\<lambda>_.
     io_bind (or_fail (Stat root) (Fail ''configured managed root must be an existing directory'')) (\<lambda>info.
     io_bind (io_check (is_dir info) (Fail ''configured managed root must be an existing directory'')) (\<lambda>_.
     io_bind (or_fail (Lstat marker) missing) (\<lambda>markerInfo.
     io_bind (io_check (regular (in_kind markerInfo) \<and> \<not> group_world_writable markerInfo) missing) (\<lambda>_.
     io_bind (io_check (in_uid info = in_uid markerInfo \<and> in_gid info = in_gid markerInfo)
       (Fail ''configured managed root ownership does not match its marker'')) (\<lambda>_.
     io_bind (or_fail (ReadFile marker) (Fail ''configured managed root has an invalid ownership marker'')) (\<lambda>content.
     io_bind (io_check (content = ManagedRootMarkerContent) (Fail ''configured managed root has an invalid ownership marker'')) (\<lambda>_.
     io_bind (or_fail (Walk root) (Fail ''configured managed root contains an unsafe entry'')) (\<lambda>es.
     io_bind (io_check (list_all (\<lambda>(p, i). abs_path p = root \<or> \<not> symlink (in_kind i)) es)
       (Fail ''configured managed root contains an unsafe entry'')) (\<lambda>_.
     validateNoMountBoundaries be root)))))))))))"

text \<open>From a clean path up to the root.\<close>

definition secure_dir :: "string list \<Rightarrow> unit io" where
  "secure_dir ns =
     io_bind (or_fail (Lstat (abs_path (rev ns))) (Fail ''private path has an unsafe ancestor'')) (\<lambda>info.
     io_bind (io_check (\<not> symlink (in_kind info) \<and> is_dir info) (Fail ''private path has an unsafe ancestor'')) (\<lambda>_. \<lambda>s.
       if in_uid info \<noteq> 0 \<and> in_uid info \<noteq> fs_euid s then (Inl (Fail ''private path ancestor has an unsafe owner''), s)
       else if group_world_writable info \<and> \<not> (sticky info \<and> in_uid info = 0)
         then (Inl (Fail ''private path ancestor is group/world writable''), s)
       else (Inr (), s)))"

fun secure_up :: "string list \<Rightarrow> unit io" where
  "secure_up [] = secure_dir []"
| "secure_up (n # ns) = io_bind (secure_dir (n # ns)) (\<lambda>_. secure_up ns)"

definition validateSecureAncestors :: "string \<Rightarrow> unit io" where
  "validateSecureAncestors path = secure_up (rev (elems path))"

definition ValidateUpdatePaths :: "backup_env \<Rightarrow> string \<Rightarrow> string \<Rightarrow> string list \<Rightarrow> string list \<Rightarrow> unit io" where
  "ValidateUpdatePaths be binaryPath backupDir statePaths managedRoots =
     io_bind (or_fail (canonicalizePath binaryPath) (Fail ''binary path must be absolute'')) (\<lambda>canonicalBinary.
     io_bind (or_fail (canonicalizePath (binaryPath @ ''.previous'')) (Fail ''previous binary path is unsafe'')) (\<lambda>canonicalPrevious.
     io_bind (or_fail (canonicalizePath backupDir) (Fail ''backup directory is unsafe'')) (\<lambda>canonicalBackup.
     io_bind (fail_with (validateManagedPath be canonicalBackup) (FailWith ''backup directory is unsafe'')) (\<lambda>_.
     let allPaths = statePaths @ managedRoots; changed = Fail ''configured durable-state path changed during update preflight'' in
     io_bind (io_each (\<lambda>path. io_bind (or_fail (canonicalizePath path) changed) (\<lambda>c. io_check (c = path) changed)) allPaths) (\<lambda>_.
     io_bind (or_fail (CanonicalizePaths allPaths) (Fail ''configured durable-state path is unsafe'')) (\<lambda>canonical.
     io_bind (io_check (statePaths \<noteq> []) (Fail ''no durable-state paths were configured'')) (\<lambda>_.
     io_bind (io_each (validateManagedRoot be) managedRoots) (\<lambda>_.
     io_bind (io_each (\<lambda>path.
       io_bind (fail_with (validateManagedPath be path) (FailWith ''configured durable-state path is unsafe'')) (\<lambda>_.
       io_bind (io_check (\<not> (isWithin path canonicalBackup \<or> isWithin canonicalBackup path))
         (Fail ''backup directory must be outside every durable-state path'')) (\<lambda>_.
       io_check (\<not> (isWithin path canonicalBinary \<or> isWithin path canonicalPrevious))
         (Fail ''service binary and .previous must be outside durable-state roots'')))) canonical) (\<lambda>_.
     io_check (\<not> (isWithin canonicalBackup canonicalBinary \<or> isWithin canonicalBackup canonicalPrevious))
       (Fail ''service binary and .previous must be outside the backup directory''))))))))))"

subsection \<open>Identities and digests\<close>

record path_identity =
  pi_path :: string
  pi_exists :: bool
  pi_dev :: nat
  pi_ino :: nat

definition path_identity_of :: "string \<Rightarrow> path_identity io" where
  "path_identity_of path s =
     (case Lstat path s of
        (Inl ENOENT, s) \<Rightarrow> (Inr \<lparr>pi_path = path, pi_exists = False, pi_dev = 0, pi_ino = 0\<rparr>, s)
      | (Inl _, s) \<Rightarrow> (Inl (Fail ''inspect durable-state identity failed''), s)
      | (Inr info, s) \<Rightarrow> (Inr \<lparr>pi_path = path, pi_exists = True, pi_dev = in_dev info, pi_ino = in_ino info\<rparr>, s))"

definition capturePathIdentities :: "string list \<Rightarrow> path_identity list io" where
  "capturePathIdentities paths =
     io_bind (or_fail (canonicalizeDistinctPaths paths) (Fail ''resolve durable-state identity paths failed'')) (io_map path_identity_of)"

definition verifyPathIdentities :: "path_identity list \<Rightarrow> unit io" where
  "verifyPathIdentities want =
     io_bind (or_fail (capturePathIdentities (map pi_path want)) (Fail ''durable-state paths changed while the release was prepared'')) (\<lambda>got.
       io_check (got = want) (Fail ''durable-state paths changed while the release was prepared''))"

definition file_digest :: "backup_env \<Rightarrow> string \<Rightarrow> (string \<times> string) io" where
  "file_digest be path = io_bind (or_fail (ReadFile path) (Fail ''open immutable config failed'')) (\<lambda>c. io_return (path, be_sha be c))"

definition captureFileDigests :: "backup_env \<Rightarrow> string list \<Rightarrow> (string \<times> string) list io" where
  "captureFileDigests be = io_map (file_digest be)"

definition verifyFileDigests :: "backup_env \<Rightarrow> (string \<times> string) list \<Rightarrow> unit io" where
  "verifyFileDigests be want =
     io_bind (or_fail (captureFileDigests be (map fst want)) (Fail ''configuration changed while the release was prepared'')) (\<lambda>got.
       io_check (got = want) (Fail ''configuration changed while the release was prepared''))"

end
