(* ===== verification/Restore.thy ===== *)
theory Restore
  imports Backup
begin

text \<open>
  Taking the snapshot (\<open>BackupState\<close>) and putting it back (\<open>Snapshot.Restore\<close>): the archive is staged
  beside its targets, and the staged entries are swapped with the live ones by renames, which are undone
  when one of them fails.
\<close>

subsection \<open>Archiving\<close>

definition state_name :: "nat \<Rightarrow> string" where
  "state_name i = ''state/'' @ fmt_int 6 (int i)"

definition archive_name :: "nat \<Rightarrow> string \<Rightarrow> string" where
  "archive_name i rel = (if rel = [dot] then state_name i else state_name i @ slash # rel)"

definition tar_header :: "string \<Rightarrow> inode \<Rightarrow> string \<Rightarrow> tar_entry" where
  "tar_header name info data =
     \<lparr>th_Name = name, th_Typeflag = (if is_dir info then TypeDir else TypeReg), th_Size = int (length data), th_Mode = in_mode info,
      th_Uid = in_uid info, th_Gid = in_gid info, th_ModTime = in_mtime info, th_Data = data\<rparr>"

text \<open>The callback of the walk on one entry; the file it opens must still be the one the walk saw.\<close>

definition archive_entry :: "nat \<Rightarrow> string \<Rightarrow> nat \<Rightarrow> string list \<times> inode \<Rightarrow> tar_entry io" where
  "archive_entry index root dev e =
     (case e of (p, info) \<Rightarrow>
       io_bind (io_check (in_dev info = dev) (Fail ''durable state crosses a filesystem boundary'')) (\<lambda>_.
       io_bind (io_check (\<not> symlink (in_kind info)) (Fail ''nested symlink in durable state is not supported'')) (\<lambda>_.
       io_bind (io_check (regular (in_kind info) \<or> is_dir info) (Fail ''unsupported special file in durable state'')) (\<lambda>_.
       case Rel root (abs_path p) of
         None \<Rightarrow> io_fail (Sys EINVAL)
       | Some rel \<Rightarrow>
           if \<not> regular (in_kind info) then io_return (tar_header (archive_name index rel) info [])
           else
             io_bind (io_sys (OpenNoFollow (abs_path p))) (\<lambda>(opened, data).
             io_bind (io_check (in_dev opened = in_dev info \<and> in_ino opened = in_ino info \<and> regular (in_kind opened))
               (Fail ''durable-state file changed while being archived'')) (\<lambda>_.
             io_bind (io_sys Close) (\<lambda>_. io_return (tar_header (archive_name index rel) info data))))))))"

definition archiveStatePath :: "nat \<Rightarrow> string \<Rightarrow> tar_entry list io" where
  "archiveStatePath index root =
     io_bind (io_sys (Lstat root)) (\<lambda>rootInfo.
     io_bind (io_sys (Walk root)) (io_map (archive_entry index root (in_dev rootInfo))))"

definition snapshot_entry :: "nat \<times> string \<Rightarrow> manifest_entry io" where
  "snapshot_entry ip s =
     (case ip of (i, path) \<Rightarrow>
       (case Lstat path s of
          (Inr info, s) \<Rightarrow>
            if is_dir info then (Inr \<lparr>me_Target = path, me_Exists = True, me_Kind = StateDirectory\<rparr>, s)
            else if regular (in_kind info) then (Inr \<lparr>me_Target = path, me_Exists = True, me_Kind = StateFile\<rparr>, s)
            else (Inl (FailAt ''durable-state entry has an unsupported type'' i), s)
        | (Inl ENOENT, s) \<Rightarrow> (Inr \<lparr>me_Target = path, me_Exists = False, me_Kind = StateMissing\<rparr>, s)
        | (Inl _, s) \<Rightarrow> (Inl (FailAt ''inspect durable-state entry failed'' i), s)))"

definition archive_one :: "nat \<times> manifest_entry \<Rightarrow> tar_entry list io" where
  "archive_one ie =
     (case ie of (i, entry) \<Rightarrow>
       if \<not> me_Exists entry then io_return []
       else fail_with (archiveStatePath i (me_Target entry)) (FailAtWith ''archive durable-state entry'' i))"

text \<open>\<open>20060102T150405Z-\<close>\<close>

definition backup_stamp :: "time \<Rightarrow> string" where
  "backup_stamp t =
     (case date_of_days (day_of t) of (y, m, d) \<Rightarrow>
       fmt_int 4 y @ digits 2 m @ digits 2 d @ CHR ''T'' # digits 2 (hour_of t) @ digits 2 (minute_of t) @ digits 2 (second_of t) @ ''Z-'')"

definition enumerated :: "'a list \<Rightarrow> (nat \<times> 'a) list" where
  "enumerated xs = zip [0..<length xs] xs"

text \<open>Inside the new backup directory.\<close>

definition write_snapshot :: "backup_env \<Rightarrow> string \<Rightarrow> string \<Rightarrow> string list \<Rightarrow> snapshot io" where
  "write_snapshot be canonicalBackup dir paths =
     (let archivePath = Join dir backupArchiveName; manifestPath = Join dir backupManifestName;
          finish = Fail ''finish backup archive failed''; manifest = Fail ''write backup manifest failed'';
          sync = Fail ''sync backup directory failed''
      in
     io_bind (io_map snapshot_entry (enumerated paths)) (\<lambda>entries.
     io_bind (or_fail (CreateExcl archivePath 384) (Fail ''create backup archive failed'')) (\<lambda>_.
     io_bind (io_map archive_one (enumerated entries)) (\<lambda>archived.
     let data = be_write be (concat archived) in
     io_bind (or_fail (WriteAll archivePath data) finish) (\<lambda>_.
     io_bind (or_fail (Sync archivePath) finish) (\<lambda>_.
     io_bind (or_fail Close finish) (\<lambda>_.
     io_bind (or_fail (Chmod archivePath 384) (Fail ''secure backup archive failed'')) (\<lambda>_.
     io_bind (or_fail (CreateExcl manifestPath 384) (Fail ''create backup manifest failed'')) (\<lambda>_. \<lambda>s.
     io_bind (or_fail (WriteAll manifestPath (be_manifest be (fs_time s) (be_sha be data) entries)) manifest) (\<lambda>_.
     io_bind (or_fail (Sync manifestPath) manifest) (\<lambda>_.
     io_bind (or_fail Close manifest) (\<lambda>_.
     io_bind (or_fail (Chmod manifestPath 384) (Fail ''secure backup manifest failed'')) (\<lambda>_.
     io_bind (or_fail (Sync dir) sync) (\<lambda>_.
     io_bind (or_fail (Sync canonicalBackup) sync) (\<lambda>_.
     io_return \<lparr>sn_directory = dir, sn_entries = entries, sn_archiveSHA256 = be_sha be data\<rparr>)))))) s)))))))))"

definition BackupState :: "backup_env \<Rightarrow> string \<Rightarrow> string list \<Rightarrow> snapshot io" where
  "BackupState be backupDir statePaths =
     io_bind (or_fail (canonicalizePath backupDir) (Fail ''resolve backup directory failed'')) (\<lambda>canonicalBackup.
     io_bind (or_fail (CanonicalizePaths statePaths) (Fail ''resolve durable-state paths failed'')) (\<lambda>paths.
     io_bind (or_fail (validateManagedPath be canonicalBackup) (Fail ''backup directory is unsafe'')) (\<lambda>_.
     io_bind (io_each (\<lambda>path.
       io_bind (or_fail (validateManagedPath be path) (Fail ''durable-state path is unsafe'')) (\<lambda>_.
       io_check (\<not> (isWithin path canonicalBackup \<or> isWithin canonicalBackup path)) (Fail ''backup directory overlaps durable state''))) paths) (\<lambda>_.
     io_bind (or_fail (MkdirAll canonicalBackup 448) (Fail ''create backup root failed'')) (\<lambda>_.
     io_bind (or_fail (Lstat canonicalBackup) (Fail ''backup root is not a private directory'')) (\<lambda>rootInfo.
     io_bind (io_check (is_dir rootInfo) (Fail ''backup root is not a private directory'')) (\<lambda>_. \<lambda>s.
     io_bind (io_check (in_uid rootInfo = fs_euid s \<and> \<not> group_world_writable rootInfo)
       (Fail ''backup root must be owned by the updater and not group/world writable'')) (\<lambda>_.
     io_bind (validateSecureAncestors canonicalBackup) (\<lambda>_.
     io_bind (or_fail (Chmod canonicalBackup 448) (Fail ''secure backup root failed'')) (\<lambda>_. \<lambda>s.
     io_bind (or_fail (MkdirTemp canonicalBackup (backup_stamp (fs_time s))) (Fail ''create backup directory failed'')) (\<lambda>dir.
     on_fail
       (io_bind (or_fail (Chmod dir 448) (Fail ''secure backup directory failed'')) (\<lambda>_. write_snapshot be canonicalBackup dir paths))
       (removePrivateTree dir)) s))) s)))))))"

subsection \<open>Checks before a restoration\<close>

definition liveStateKind :: "string \<Rightarrow> state_kind sys" where
  "liveStateKind path s =
     (case Lstat path s of
        (Inl ENOENT, s) \<Rightarrow> (Inr StateMissing, s)
      | (Inl e, s) \<Rightarrow> (Inl e, s)
      | (Inr info, s) \<Rightarrow>
          (if is_dir info then Inr StateDirectory else if regular (in_kind info) then Inr StateFile else Inl EIO, s))"

definition validate_live :: "backup_env \<Rightarrow> nat \<times> manifest_entry \<Rightarrow> unit io" where
  "validate_live be ie =
     (case ie of (i, entry) \<Rightarrow>
       let unsafe = FailAt ''backup manifest entry is unsafe'' i; target = me_Target entry in
       io_bind (or_fail (canonicalizePath target) unsafe) (\<lambda>canonical.
       io_bind (io_check (canonical = target) unsafe) (\<lambda>_.
       io_bind (or_fail (validateManagedPath be target) unsafe) (\<lambda>_.
       io_bind (or_fail (liveStateKind target) (FailAt ''inspect live durable-state entry failed'' i)) (\<lambda>kind.
       case me_Kind entry of
         StateDirectory \<Rightarrow>
           if kind = StateFile then io_fail (FailAt ''live durable-state entry changed from directory to a non-directory'' i)
           else if kind = StateDirectory
             then or_fail (validateNoMountBoundaries be target) (FailAt ''live durable-state directory has an unsafe mount boundary'' i)
           else io_return ()
       | _ \<Rightarrow>
           if kind = StateDirectory then io_fail (FailAt ''live durable-state entry unexpectedly became a directory'' i)
           else io_return ())))))"

definition validateLiveTargets :: "backup_env \<Rightarrow> snapshot \<Rightarrow> unit io" where
  "validateLiveTargets be sn = io_each (validate_live be) (enumerated (sn_entries sn))"

definition fold_ascii :: "char \<Rightarrow> char" where
  "fold_ascii c = (if CHR ''A'' \<le> c \<and> c \<le> CHR ''Z'' then char_of (of_char c + 32 :: nat) else c)"

definition same_hex :: "string \<Rightarrow> string \<Rightarrow> bool" where
  "same_hex a b \<longleftrightarrow> map fold_ascii a = map fold_ascii b"

definition verifyArchiveHash :: "backup_env \<Rightarrow> snapshot \<Rightarrow> unit io" where
  "verifyArchiveHash be sn =
     io_bind (or_fail (ReadFile (Join (sn_directory sn) backupArchiveName)) (Fail ''open backup archive failed'')) (\<lambda>data.
       io_check (same_hex (be_sha be data) (sn_archiveSHA256 sn)) (Fail ''backup archive checksum does not match its manifest''))"

subsection \<open>Staging\<close>

record staged_entry =
  se_manifest :: manifest_entry
  se_container :: string
  se_staged :: string
  se_rootSeen :: bool

text \<open>All containers are removed as far as they can be; the failures are reported.\<close>

fun cleanupStagedEntries :: "staged_entry list \<Rightarrow> files \<Rightarrow> errno list \<times> files" where
  "cleanupStagedEntries [] s = ([], s)"
| "cleanupStagedEntries (e # es) s =
     (if se_container e = [] then cleanupStagedEntries es s
      else case RemoveAll (se_container e) s of
        (r, s) \<Rightarrow> (case cleanupStagedEntries es s of (errs, s) \<Rightarrow> (case r of Inl x \<Rightarrow> x # errs | Inr _ \<Rightarrow> errs, s)))"

definition cleanup_staged :: "staged_entry list \<Rightarrow> files \<Rightarrow> files" where
  "cleanup_staged staged s = snd (cleanupStagedEntries staged s)"

definition restore_prefix :: string where "restore_prefix = ''.runeconsole-restore-''"

fun stage_containers :: "nat \<Rightarrow> staged_entry list \<Rightarrow> manifest_entry list \<Rightarrow> staged_entry list io" where
  "stage_containers i staged [] = io_return staged"
| "stage_containers i staged (entry # entries) =
     (let parent = Dir (me_Target entry); unsafe = FailAt ''durable-state entry has an unsafe parent'' i in
     io_bind (on_fail (or_fail (Lstat parent) unsafe) (cleanup_staged staged)) (\<lambda>parentInfo.
     io_bind (on_fail (io_check (is_dir parentInfo) unsafe) (cleanup_staged staged)) (\<lambda>_.
     io_bind (on_fail (or_fail (MkdirTemp parent restore_prefix) (FailAt ''create restore staging for entry failed'' i)) (cleanup_staged staged)) (\<lambda>container.
     io_bind (on_fail (or_fail (Chmod container 448) (FailAt ''secure restore staging for entry failed'' i))
       (\<lambda>s. cleanup_staged staged (removePrivateTree container s))) (\<lambda>_.
     stage_containers (Suc i)
       (staged @ [\<lparr>se_manifest = entry, se_container = container, se_staged = Join container ''restored'', se_rootSeen = False\<rparr>]) entries)))))"

text \<open>The name of an entry of the archive: \<open>state/\<close>, six digits, and a path below the root.\<close>

fun split_n :: "nat \<Rightarrow> string list \<Rightarrow> string list" where
  "split_n n ps = (if length ps \<le> n then ps else take (n - 1) ps @ [join_byte slash (drop (n - 1) ps)])"

definition parseStateArchiveName :: "string \<Rightarrow> (nat \<times> string) option" where
  "parseStateArchiveName name =
     (let clean = Clean name
      in if clean \<noteq> name \<or> has_prefix clean [slash] \<or> contains_str clean (dotdot @ [slash]) then None
         else let parts = split_n 3 (split_byte slash clean)
           in if length parts < 2 \<or> parts ! 0 \<noteq> ''state'' \<or> length (parts ! 1) \<noteq> 6 then None
              else if \<not> list_all is_digit (parts ! 1) then None
              else Some (nat (dec_val (parts ! 1)), if length parts = 3 then parts ! 2 else []))"

fun secure_parents :: "string \<Rightarrow> string list \<Rightarrow> unit io" where
  "secure_parents current [] = io_return ()"
| "secure_parents current (component # components) =
     (if component = [dot] \<or> component = [] then secure_parents current components
      else
        let current = Join current component in
        io_bind (io_try (Lstat current)) (\<lambda>r.
          case r of
            Inl ENOENT \<Rightarrow>
              io_bind (or_fail (Mkdir current 448) (Fail ''create restored durable-state parent failed'')) (\<lambda>_. secure_parents current components)
          | Inl _ \<Rightarrow> io_fail (Fail ''restored durable-state parent is unsafe'')
          | Inr info \<Rightarrow>
              io_bind (io_check (is_dir info) (Fail ''restored durable-state parent is unsafe'')) (\<lambda>_. secure_parents current components)))"

definition secureParentDirectories :: "string \<Rightarrow> string \<Rightarrow> unit io" where
  "secureParentDirectories root parent =
     (if root = parent then io_return ()
      else case Rel root parent of
        None \<Rightarrow> io_fail (Fail ''restored file parent escapes durable-state root'')
      | Some rel \<Rightarrow>
          if has_prefix rel dotdot then io_fail (Fail ''restored file parent escapes durable-state root'')
          else secure_parents root (split_byte slash rel))"

definition restoreMetadata :: "string \<Rightarrow> tar_entry \<Rightarrow> unit io" where
  "restoreMetadata path hdr =
     io_bind (or_fail (Lchown path (th_Uid hdr) (th_Gid hdr)) (Fail ''restore durable-state ownership failed'')) (\<lambda>_.
     io_bind (or_fail (Chmod path (th_Mode hdr mod 512)) (Fail ''restore durable-state mode failed'')) (\<lambda>_.
     or_fail (Chtimes path (th_ModTime hdr)) (Fail ''restore durable-state timestamps failed'')))"

text \<open>What an entry may be, given the entries before it.\<close>

definition unsafe_entry :: "staged_entry list \<Rightarrow> string list \<Rightarrow> tar_entry \<Rightarrow> string option" where
  "unsafe_entry staged seen hdr =
     (case parseStateArchiveName (th_Name hdr) of
        None \<Rightarrow> Some ''backup archive contains an unsafe entry''
      | Some (index, rel) \<Rightarrow>
          if length staged \<le> index \<or> \<not> me_Exists (se_manifest (staged ! index)) \<or> th_Size hdr < 0 then Some ''backup archive contains an unsafe entry''
          else if th_Name hdr \<in> set seen then Some ''backup archive contains a duplicate entry''
          else let entry = staged ! index; kind = me_Kind (se_manifest entry) in
            if rel = [] then
              (if se_rootSeen entry then Some ''backup archive contains a duplicate state root''
               else if kind = StateDirectory \<and> th_Typeflag hdr \<noteq> TypeDir \<or> kind = StateFile \<and> th_Typeflag hdr \<noteq> TypeReg
                 then Some ''backup archive root type does not match its manifest''
               else None)
            else if \<not> se_rootSeen entry \<or> kind \<noteq> StateDirectory then Some ''backup archive child appears outside a directory root''
            else None)"

definition stage_file :: "string \<Rightarrow> tar_entry \<Rightarrow> unit io" where
  "stage_file target hdr =
     io_bind (or_fail (CreateExcl target 384) (Fail ''create staged durable-state file failed'')) (\<lambda>_.
     let broken = Fail ''write staged durable-state file failed'' in
     io_bind (or_fail (WriteAll target (take (nat (th_Size hdr)) (th_Data hdr))) broken) (\<lambda>_.
     io_bind (io_check (th_Size hdr \<le> int (length (th_Data hdr))) broken) (\<lambda>_.
     io_bind (or_fail (Sync target) broken) (\<lambda>_.
     io_bind (or_fail Close broken) (\<lambda>_. restoreMetadata target hdr)))))"

type_synonym staging = "staged_entry list \<times> string list \<times> (string \<times> tar_entry) list"

definition stage_entry :: "staging \<Rightarrow> tar_entry \<Rightarrow> staging io" where
  "stage_entry st hdr =
     (case st of (staged, seen, directories) \<Rightarrow>
       case unsafe_entry staged seen hdr of
         Some m \<Rightarrow> io_fail (Fail m)
       | None \<Rightarrow>
           (case parseStateArchiveName (th_Name hdr) of
              None \<Rightarrow> io_fail (Fail ''backup archive contains an unsafe entry'')
            | Some (index, rel) \<Rightarrow>
                let entry = staged ! index;
                    staged = (if rel = [] then staged[index := entry\<lparr>se_rootSeen := True\<rparr>] else staged);
                    target = (if rel = [] then se_staged entry else Join (se_staged entry) rel);
                    parents = (if rel = [] then io_return () else secureParentDirectories (se_staged entry) (Dir target))
                in
                io_bind (io_check (isWithin (se_staged entry) target) (Fail ''backup archive entry escapes restore staging'')) (\<lambda>_.
                case th_Typeflag hdr of
                  TypeDir \<Rightarrow>
                    io_bind parents (\<lambda>_.
                    io_bind (or_fail (Mkdir target 448) (Fail ''stage durable-state directory failed'')) (\<lambda>_.
                    io_return (staged, th_Name hdr # seen, directories @ [(target, hdr)])))
                | TypeReg \<Rightarrow>
                    io_bind parents (\<lambda>_.
                    io_bind (stage_file target hdr) (\<lambda>_.
                    io_return (staged, th_Name hdr # seen, directories)))
                | TypeOther \<Rightarrow> io_fail (Fail ''backup archive contains an unsupported file type''))))"

fun stage_entries :: "staging \<Rightarrow> tar_entry list \<Rightarrow> staging io" where
  "stage_entries st [] = io_return st"
| "stage_entries st (hdr # hdrs) = io_bind (stage_entry st hdr) (\<lambda>st. stage_entries st hdrs)"

definition finish_directory :: "string \<times> tar_entry \<Rightarrow> unit io" where
  "finish_directory d =
     io_bind (restoreMetadata (fst d) (snd d)) (\<lambda>_. or_fail (Sync (fst d)) (Fail ''sync staged durable-state directory failed''))"

definition stageArchive :: "backup_env \<Rightarrow> snapshot \<Rightarrow> staged_entry list io" where
  "stageArchive be sn =
     io_bind (stage_containers 0 [] (sn_entries sn)) (\<lambda>containers.
     on_fail
       (io_bind (or_fail (ReadFile (Join (sn_directory sn) backupArchiveName)) (Fail ''open backup archive failed'')) (\<lambda>data.
        case be_read be data of (hdrs, complete) \<Rightarrow>
        io_bind (stage_entries (containers, [], []) hdrs) (\<lambda>(staged, seen, directories).
        io_bind (io_check complete (Fail ''read backup archive failed'')) (\<lambda>_.
        io_bind (or_fail Close (Fail ''close backup archive failed'')) (\<lambda>_.
        io_bind (io_check (same_hex (be_sha be data) (sn_archiveSHA256 sn)) (Fail ''backup archive changed while it was staged'')) (\<lambda>_.
        io_bind (io_each (\<lambda>(i, e). io_check (me_Exists (se_manifest e) \<longrightarrow> se_rootSeen e)
          (FailAt ''backup archive is missing durable-state root'' i)) (enumerated staged)) (\<lambda>_.
        io_bind (io_each finish_directory (rev directories)) (\<lambda>_.
        io_bind (io_each (\<lambda>(i, e). or_fail (Sync (se_container e)) (FailAt ''sync restore staging for entry failed'' i)) (enumerated staged)) (\<lambda>_.
        io_return staged)))))))))
       (cleanup_staged containers))"

subsection \<open>The swap\<close>

record swap_record =
  sr_entry :: staged_entry
  sr_displaced :: string
  sr_hadCurrent :: bool
  sr_installed :: bool

abbreviation target :: "staged_entry \<Rightarrow> string" where
  "target e \<equiv> me_Target (se_manifest e)"

definition errs_of :: "errno + 'a \<Rightarrow> errno list" where
  "errs_of r = (case r of Inl e \<Rightarrow> [e] | Inr _ \<Rightarrow> [])"

text \<open>Undoing one swap: what was installed goes back to its staging, what was displaced to its place.\<close>

definition undo_record :: "swap_record \<Rightarrow> files \<Rightarrow> errno list \<times> files" where
  "undo_record r s =
     (let back = (\<lambda>s. if sr_hadCurrent r then (case Rename (sr_displaced r) (target (sr_entry r)) s of (x, s) \<Rightarrow> (errs_of x, s)) else ([], s));
          rest = (\<lambda>s. case back s of (es, s) \<Rightarrow> case Sync (Dir (target (sr_entry r))) s of (y, s) \<Rightarrow> (es @ errs_of y, s))
      in if sr_installed r
         then (case Rename (target (sr_entry r)) (se_staged (sr_entry r)) s of
                 (Inl e, s) \<Rightarrow> ([e], s)
               | (Inr _, s) \<Rightarrow> rest s)
         else rest s)"

fun rollbackSwaps :: "swap_record list \<Rightarrow> files \<Rightarrow> errno list \<times> files" where
  "rollbackSwaps [] s = ([], s)"
| "rollbackSwaps (r # rs) s =
     (case undo_record r s of (es, s) \<Rightarrow> case rollbackSwaps rs s of (es', s) \<Rightarrow> (es @ es', s))"

definition sameRegularFile :: "backup_env \<Rightarrow> string \<Rightarrow> string \<Rightarrow> files \<Rightarrow> bool \<times> files" where
  "sameRegularFile be a b s =
     (case Stat a s of (ra, s) \<Rightarrow> case Stat b s of (rb, s) \<Rightarrow>
      case (ra, rb) of
        (Inr i, Inr j) \<Rightarrow>
          (case (in_kind i, in_kind j) of
             (KFile c, KFile d) \<Rightarrow>
               if length c \<noteq> length d \<or> perm i \<noteq> perm j \<or> in_mtime i \<noteq> in_mtime j \<or> in_uid i \<noteq> in_uid j \<or> in_gid i \<noteq> in_gid j then (False, s)
               else (case ReadFile a s of
                   (Inl _, s) \<Rightarrow> (False, s)
                 | (Inr c, s) \<Rightarrow> (case ReadFile b s of (Inl _, s) \<Rightarrow> (False, s) | (Inr d, s) \<Rightarrow> (be_sha be c = be_sha be d, s)))
           | _ \<Rightarrow> (False, s))
      | _ \<Rightarrow> (False, s))"

text \<open>A failure with what could not be undone; the flag says that the quarantine may be removed.\<close>

definition give_up :: "string \<Rightarrow> nat \<Rightarrow> errno list \<Rightarrow> swap_record list \<Rightarrow> files \<Rightarrow> (bool \<times> failure option) \<times> files" where
  "give_up m i errs records s =
     (case rollbackSwaps records s of
        (rs, s) \<Rightarrow> ((rs = [], Some (FailAtWith m i (Joined (map Sys (errs @ rs))))), s))"

text \<open>The records come with the last one first.\<close>

fun swap_entries :: "backup_env \<Rightarrow> nat \<Rightarrow> swap_record list \<Rightarrow> staged_entry list \<Rightarrow> files \<Rightarrow> (bool \<times> failure option) \<times> files" where
  "swap_entries be i records [] s = ((True, None), s)"
| "swap_entries be i records (e # es) s =
     (case liveStateKind (target e) s of
        (Inl x, s) \<Rightarrow> give_up ''inspect live durable-state entry before swap failed'' i [x] records s
      | (Inr kind, s) \<Rightarrow>
          let want = me_Kind (se_manifest e) in
          if want \<noteq> StateDirectory \<and> kind = StateDirectory
            then give_up ''live durable-state entry became an unsafe directory'' i [EISDIR] records s
          else if want = StateDirectory \<and> kind \<noteq> StateDirectory \<and> kind \<noteq> StateMissing
            then give_up ''live durable-state entry became an unsafe non-directory'' i [ENOTDIR] records s
          else
            case (if want = StateFile \<and> kind = StateFile then sameRegularFile be (target e) (se_staged e) s else (False, s)) of
              (same, s) \<Rightarrow>
                if same \<or> want = StateMissing \<and> kind = StateMissing then swap_entries be (Suc i) records es s
                else
                  let displaced = Join (se_container e) ''displaced''; hadCurrent = (kind \<noteq> StateMissing);
                      record = (\<lambda>installed. \<lparr>sr_entry = e, sr_displaced = displaced, sr_hadCurrent = hadCurrent, sr_installed = installed\<rparr>);
                      synced = (\<lambda>records s. case Sync (Dir (target e)) s of
                          (Inl x, s) \<Rightarrow> give_up ''sync restored durable-state entry failed'' i [x] records s
                        | (Inr _, s) \<Rightarrow> swap_entries be (Suc i) records es s)
                  in
                  case (if hadCurrent then Rename (target e) displaced s else (Inr (), s)) of
                    (Inl x, s) \<Rightarrow> give_up ''quarantine live durable-state entry failed'' i [x] records s
                  | (Inr _, s) \<Rightarrow>
                      if me_Exists (se_manifest e) then
                        (case Rename (se_staged e) (target e) s of
                           (Inl x, s) \<Rightarrow>
                             (case (if hadCurrent then Rename displaced (target e) s else (Inr (), s)) of
                                (y, s) \<Rightarrow>
                                  (case give_up ''activate restored durable-state entry failed'' i (x # errs_of y) records s of
                                     ((safe, err), s) \<Rightarrow> ((safe \<and> errs_of y = [], err), s)))
                         | (Inr _, s) \<Rightarrow> synced (record True # records) s)
                      else synced (record False # records) s)"

definition swapStagedEntries :: "backup_env \<Rightarrow> staged_entry list \<Rightarrow> files \<Rightarrow> (bool \<times> failure option) \<times> files" where
  "swapStagedEntries be staged = swap_entries be 0 [] staged"

subsection \<open>Restoration\<close>

definition finish_restore :: "staged_entry list \<Rightarrow> bool \<times> failure option \<Rightarrow> unit io" where
  "finish_restore staged r s =
     (case r of (cleanupSafe, err) \<Rightarrow>
       if err = None \<or> cleanupSafe then
         (case cleanupStagedEntries staged s of
            (cs, s) \<Rightarrow>
              (case err of
                 None \<Rightarrow> if cs = [] then Inr () else Inl (Fail ''restored state but could not remove restore quarantine'')
               | Some x \<Rightarrow> Inl (if cs = [] then x else Joined [x, Fail ''could not remove restore quarantine'']), s))
       else (case err of
          None \<Rightarrow> Inr ()
        | Some x \<Rightarrow> Inl (FailWith ''restore swap failed and quarantine was retained for manual recovery'' x), s))"

definition Restore :: "backup_env \<Rightarrow> snapshot \<Rightarrow> unit io" where
  "Restore be sn =
     io_bind (io_check (sn_directory sn \<noteq> [] \<and> sn_archiveSHA256 sn \<noteq> []) (Fail ''backup snapshot is unavailable'')) (\<lambda>_.
     io_bind (validateLiveTargets be sn) (\<lambda>_.
     io_bind (verifyArchiveHash be sn) (\<lambda>_.
     io_bind (stageArchive be sn) (\<lambda>staged.
     io_bind (on_fail (validateLiveTargets be sn) (cleanup_staged staged)) (\<lambda>_. \<lambda>s.
       case swapStagedEntries be staged s of (r, s) \<Rightarrow> finish_restore staged r s)))))"

end
