(* ===== verification/File_Laws.thy ===== *)
theory File_Laws
  imports Files
begin

text \<open>
  Laws of the system calls: what a call on a clean path does when the directories above it are
  directories, which calls leave the tree alone, and that every call keeps the tree well-formed.
\<close>

subsection \<open>Well-formed trees\<close>

text \<open>Every entry lies in a directory.\<close>

definition wf_files :: "files \<Rightarrow> bool" where
  "wf_files s \<longleftrightarrow> (\<forall>p x. look s (p @ [x]) \<noteq> None \<longrightarrow> dir_at s p)"

lemma wf_absent: "wf_files s \<Longrightarrow> look s p = None \<Longrightarrow> look s (p @ u) = None"
proof (induction u rule: rev_induct)
  case (snoc x u)
  then show ?case
    unfolding wf_files_def dir_at_def by (metis append_assoc option.case_eq_if option.simps(4))
qed simp

lemma dir_atD: "dir_at s p \<Longrightarrow> \<exists>i. look s p = Some i \<and> in_kind i = KDir"
  by (auto simp: dir_at_def is_dir_def split: option.splits)

lemma wf_above: "wf_files s \<Longrightarrow> look s (p @ u) \<noteq> None \<Longrightarrow> u \<noteq> [] \<Longrightarrow> dir_at s p"
proof (induction u rule: rev_induct)
  case (snoc x u)
  have "dir_at s (p @ u)" using snoc.prems unfolding wf_files_def by (metis append_assoc)
  then show ?case using snoc by (cases "u = []") (auto dest: dir_atD)
qed simp

subsection \<open>Calls that only read\<close>

named_theorems reads_intros

definition unchanged :: "files \<Rightarrow> files \<Rightarrow> bool" where
  "unchanged s s' \<longleftrightarrow> fs_tree s' = fs_tree s \<and> fs_time s' = fs_time s \<and> fs_euid s' = fs_euid s \<and> fs_egid s' = fs_egid s \<and>
     fs_ino s' = fs_ino s \<and> fs_fault s' = fs_fault s \<and> fs_rand s' = fs_rand s"

definition reads :: "(files \<Rightarrow> 'r \<times> files) \<Rightarrow> bool" where
  "reads m \<longleftrightarrow> (\<forall>s. unchanged s (snd (m s)))"

lemma unchanged_refl [simp]: "unchanged s s" by (simp add: unchanged_def)

lemma unchanged_trans: "unchanged s s' \<Longrightarrow> unchanged s' s'' \<Longrightarrow> unchanged s s''" by (simp add: unchanged_def)

lemma unchanged_eq: "unchanged s s' \<Longrightarrow> s' = s\<lparr>fs_calls := fs_calls s'\<rparr>"
  by (cases s; cases s') (simp add: unchanged_def)

lemma reads_unchanged: "reads m \<Longrightarrow> m s = (r, s') \<Longrightarrow> unchanged s s'"
  unfolding reads_def by (metis snd_conv)

lemma reads_from:
  assumes "reads m" "fst (m s) = r" "fs_calls (snd (m s)) = k"
  shows "m s = (r, s\<lparr>fs_calls := k\<rparr>)"
proof -
  obtain v t where m: "m s = (v, t)" by (cases "m s")
  have "t = s\<lparr>fs_calls := k\<rparr>" using unchanged_eq [OF reads_unchanged [OF assms(1) m]] assms(3) m by simp
  then show ?thesis using m assms(2) by simp
qed

lemma readsD: "reads m \<Longrightarrow> m s = (r, s') \<Longrightarrow> look s' = look s"
  using reads_unchanged [of m s r s'] by (simp add: unchanged_def look_def)

lemma reads_sys [reads_intros]: "(\<And>s. snd (f s) = s) \<Longrightarrow> reads (sys_call f)"
  by (simp add: reads_def sys_call_def Let_def unchanged_def)

lemma reads_return [reads_intros]: "reads (io_return a)" "reads (io_fail e)" "reads (io_check b e)"
  by (simp_all add: reads_def io_return_def io_fail_def io_check_def)

lemma reads_bind [reads_intros]:
  assumes "reads m" "\<And>a. reads (f a)"
  shows "reads (io_bind m f)"
  unfolding reads_def
proof
  fix s
  obtain r t where m: "m s = (r, t)" by (cases "m s")
  with assms(1) have "unchanged s t" by (rule reads_unchanged)
  moreover have "unchanged t (snd (f a t))" for a using assms(2) by (simp add: reads_def)
  ultimately show "unchanged s (snd (io_bind m f s))" by (auto simp: io_bind_def m intro: unchanged_trans split: sum.split)
qed

text \<open>A computation that looks at the state first.\<close>

lemma reads_with: "(\<And>t. reads (f t)) \<Longrightarrow> reads (\<lambda>s. f s s)"
  by (simp add: reads_def)

lemma snd_wraps:
  "snd (or_fail m e s) = snd (m s)" "snd (io_try m s) = snd (m s)" "snd (fail_with m' g s) = snd (m' s)" "snd (io_sys m'' s) = snd (m'' s)"
  by (auto simp: or_fail_def io_try_def fail_with_def io_sys_def split: prod.split sum.split)

lemma reads_wrap [reads_intros]: "reads m \<Longrightarrow> reads (or_fail m e)" "reads m \<Longrightarrow> reads (io_try m)"
  by (simp_all add: reads_def snd_wraps)

lemma reads_wrap_io [reads_intros]: "reads m \<Longrightarrow> reads (fail_with m g)" "reads m'' \<Longrightarrow> reads (io_sys m'')"
  by (simp_all add: reads_def snd_wraps)

lemma reads_map [reads_intros]: "(\<And>a. reads (f a)) \<Longrightarrow> reads (io_map f as)"
  by (induction as) (simp_all add: reads_return reads_bind)

lemma reads_each [reads_intros]: "(\<And>a. reads (f a)) \<Longrightarrow> reads (io_each f as)"
  by (induction as) (simp_all add: reads_return reads_bind)

lemma reads_calls [reads_intros]:
  "reads (Lstat p)" "reads (Stat p)" "reads (EvalSymlinks p)" "reads (ReadFile p)" "reads (Sync p)" "reads Close" "reads (Walk p)" "reads (OpenNoFollow p)"
  by (simp_all add: Lstat_def Stat_def stat_at_def EvalSymlinks_def ReadFile_def Sync_def Close_def Walk_def OpenNoFollow_def reads_sys)

subsection \<open>Paths without links\<close>

definition plain :: "files \<Rightarrow> string list \<Rightarrow> bool" where
  "plain s p \<longleftrightarrow> (\<forall>q. strict_prefix q p \<longrightarrow> dir_at s q)"

lemma plain_snoc: "plain s (p @ [x]) \<longleftrightarrow> plain s p \<and> dir_at s p"
proof -
  have "strict_prefix q (p @ [x]) \<longleftrightarrow> strict_prefix q p \<or> q = p" for q by (auto simp: strict_prefix_def)
  then show ?thesis by (auto simp: plain_def)
qed

lemma wf_plain: "wf_files s \<Longrightarrow> look s p \<noteq> None \<Longrightarrow> plain s p"
  unfolding plain_def strict_prefix_def prefix_def by (metis append_Nil2 wf_above)

lemma resolve_dirs:
  "names p \<Longrightarrow> (\<And>u. u \<noteq> [] \<Longrightarrow> prefix u p \<Longrightarrow> dir_at s (d @ u)) \<Longrightarrow>
    resolve n (look s) f d (p @ r) = resolve n (look s) f (d @ p) r"
proof (induction p arbitrary: d)
  case (Cons c p)
  have c: "c \<noteq> []" "c \<noteq> [dot]" "c \<noteq> dotdot" using Cons.prems by (auto simp: valid_name_def)
  obtain i where i: "look s (d @ [c]) = Some i" "in_kind i = KDir"
    using dir_atD [OF Cons.prems(2) [of "[c]"]] by auto
  have "resolve n (look s) f (d @ [c]) (p @ r) = resolve n (look s) f ((d @ [c]) @ p) r"
  proof (rule Cons.IH)
    show "names p" using Cons.prems by simp
    fix u show "u \<noteq> [] \<Longrightarrow> prefix u p \<Longrightarrow> dir_at s ((d @ [c]) @ u)" using Cons.prems(2) [of "c # u"] by simp
  qed
  with c i show ?case by simp
qed simp

lemma plain_dirs: "plain s (p @ [x]) \<Longrightarrow> prefix u p \<Longrightarrow> dir_at s u"
proof -
  assume a: "plain s (p @ [x])" "prefix u p"
  then have "strict_prefix u (p @ [x])" using prefix_length_le [of u p] by (auto simp: strict_prefix_def)
  with a show ?thesis by (simp add: plain_def)
qed

lemma resolve_plain:
  assumes "names (p @ [x])" "plain s (p @ [x])"
  shows "resolve n (look s) f [] (p @ [x] @ r) = resolve n (look s) f p ([x] @ r)"
  using resolve_dirs [of p s "[]" n f "[x] @ r"] assms by (auto intro: plain_dirs simp del: resolve.simps)

lemma resolve_abs:
  "names p \<Longrightarrow> resolve n t f [] (split_byte slash (abs_path p)) = resolve n t f [] p"
  by (simp add: split_abs_path)

lemma split_ne: "names p \<Longrightarrow> filter (\<lambda>c. c \<noteq> []) (split_byte slash (abs_path p)) = p"
  by (auto simp: split_abs_path filter_id_conv valid_name_def list_all_iff)

text \<open>The place of an entry, and the inode a call without a link to follow finds.\<close>

lemma entry_plain:
  assumes "names p" "p \<noteq> []" "plain s p"
  shows "entry_path (abs_path p) s = Inr p"
proof -
  obtain q x where p: "p = q @ [x]" using assms by (cases p rule: rev_cases) auto
  have "resolve max_links (look s) True [] q = Inr q"
    using resolve_dirs [of q s "[]" max_links True "[]"] assms p by (auto intro: plain_dirs)
  moreover have "dir_at s q" using assms p by (simp add: plain_snoc)
  ultimately show ?thesis using assms by (simp add: entry_path_def split_ne p)
qed

lemma entry_dir_missing:
  assumes "names (q @ [x])" "plain s q" "look s q = None" "q \<noteq> []"
  shows "entry_path (abs_path (q @ [x])) s = Inl ENOENT"
proof -
  obtain r y where q: "q = r @ [y]" using assms by (cases q rule: rev_cases) auto
  have "resolve max_links (look s) True [] q = resolve max_links (look s) True r [y]"
    using resolve_plain [of r y s max_links True "[]"] assms q by simp
  then have "resolve max_links (look s) True [] q = Inl ENOENT" using assms q by (simp add: valid_name_def)
  then show ?thesis using assms by (simp add: entry_path_def split_ne)
qed

lemma lookup_plain:
  assumes "names p" "plain s p"
  shows "lookup_path False (abs_path p) s = (if look s p = None \<and> p \<noteq> [] then Inl ENOENT else Inr p)"
    and "\<not> symlink (in_kind (the (look s p))) \<or> look s p = None \<Longrightarrow>
      lookup_path True (abs_path p) s = (if look s p = None \<and> p \<noteq> [] then Inl ENOENT else Inr p)"
proof -
  have "lookup_path f (abs_path p) s = (if look s p = None \<and> p \<noteq> [] then Inl ENOENT else Inr p)"
    if "f \<longrightarrow> \<not> symlink (in_kind (the (look s p))) \<or> look s p = None" for f
  proof (cases p rule: rev_cases)
    case (snoc q x)
    then show ?thesis using assms resolve_plain [of q x s max_links f "[]"] that
      by (auto simp: lookup_path_def resolve_abs valid_name_def split: option.split kind.split)
  qed (simp add: lookup_path_def resolve_abs)
  from this [of False] this [of True] show
    "lookup_path False (abs_path p) s = (if look s p = None \<and> p \<noteq> [] then Inl ENOENT else Inr p)"
    "\<not> symlink (in_kind (the (look s p))) \<or> look s p = None \<Longrightarrow>
      lookup_path True (abs_path p) s = (if look s p = None \<and> p \<noteq> [] then Inl ENOENT else Inr p)"
    by auto
qed

subsection \<open>What a call finds or does at a plain path\<close>

lemma sys_call_Inr: "sys_call f s = (Inr a, s') \<Longrightarrow> f (s\<lparr>fs_calls := Suc (fs_calls s)\<rparr>) = (Inr a, s')"
  by (simp add: sys_call_def Let_def split: if_splits)

definition ticked :: "files \<Rightarrow> files" where
  "ticked s = s\<lparr>fs_calls := Suc (fs_calls s)\<rparr>"

lemma ticked_sel [simp]:
  "look (ticked s) = look s" "fs_tree (ticked s) = fs_tree s" "fs_time (ticked s) = fs_time s" "fs_euid (ticked s) = fs_euid s"
  "fs_egid (ticked s) = fs_egid s" "fs_ino (ticked s) = fs_ino s" "fs_fault (ticked s) = fs_fault s" "fs_rand (ticked s) = fs_rand s"
  by (simp_all add: ticked_def)

lemma paths_ticked [simp]:
  "dir_at (ticked s) = dir_at s" "dev_at (ticked s) = dev_at s" "lookup_path f p (ticked s) = lookup_path f p s"
  by (simp_all add: lookup_path_def dir_at_def dev_at_def fun_eq_iff)

lemma paths_ticked' [simp]: "entry_path p (ticked s) = entry_path p s" "plain (ticked s) = plain s" "wf_files (ticked s) = wf_files s"
  unfolding entry_path_def plain_def wf_files_def ticked_sel paths_ticked by (rule refl)+

lemma sys_call_cases: "sys_call f s = (if fs_fault s (fs_calls s) then (Inl EIO, ticked s) else f (ticked s))"
  by (simp add: sys_call_def ticked_def Let_def)

lemma Lstat_plain:
  assumes "names p" "plain s p" "Lstat (abs_path p) s = (r, s')"
  shows "s' = ticked s" "r = Inl EIO \<or> (case look s p of None \<Rightarrow> r = Inl ENOENT | Some i \<Rightarrow> r = Inr i)"
  using assms by (auto simp: Lstat_def stat_at_def sys_call_cases lookup_plain split: if_splits option.splits)

subsection \<open>Renaming\<close>

lemma Rename_plain:
  assumes p: "names p" "p \<noteq> []" "plain s p" and q: "names q" "q \<noteq> []" "plain s q"
    and pq: "p \<parallel> q" and free: "look s q = None"
    and ren: "Rename (abs_path p) (abs_path q) s = (r, s')"
  shows "(\<exists>e. r = Inl e \<and> look s' = look s) \<or>
    r = Inr () \<and> (\<forall>u. look s' (q @ u) = look s (p @ u)) \<and> (\<forall>u. look s' (p @ u) = None) \<and>
      (\<forall>v. \<not> prefix p v \<longrightarrow> \<not> prefix q v \<longrightarrow> v \<noteq> butlast p \<longrightarrow> v \<noteq> butlast q \<longrightarrow> look s' v = look s v) \<and>
      (\<forall>v. \<not> prefix p v \<longrightarrow> \<not> prefix q v \<longrightarrow> dir_at s v \<longrightarrow> dir_at s' v)"
proof (cases "fs_fault s (fs_calls s)")
  case True then show ?thesis using ren by (auto simp: Rename_def sys_call_cases)
next
  case False
  note E = entry_plain [OF p] entry_plain [OF q]
  have ne: "p \<noteq> q" "\<not> strict_prefix p q" "\<not> strict_prefix q p" "\<not> prefix p q" "\<not> prefix q p" using pq by auto
  show ?thesis
  proof (cases "look s p = None \<or> rename_error p q (the (look s p)) (ticked s) \<noteq> None")
    case True
    then show ?thesis using ren False ne by (auto simp: Rename_def sys_call_cases E split: option.splits)
  next
    case ok: False
    then obtain i where i: "look s p = Some i" "rename_error p q i (ticked s) = None" by auto
    let ?t = "stamp (fs_time s) (butlast p) (stamp (fs_time s) (butlast q) (move p q (fs_tree s)))"
    have r: "r = Inr ()" "s' = (ticked s)\<lparr>fs_tree := ?t\<rparr>"
      using ren False ne i by (auto simp: Rename_def sys_call_cases E)
    have m: "map_of (move p q (fs_tree s)) v = (if prefix q v then look s (p @ drop (length q) v) else if prefix p v then None else look s v)" for v
      using map_of_move [of p q "fs_tree s" v] ne by (simp add: look_def)
    have nb: "\<not> prefix p (butlast p)" "\<not> prefix q (butlast q)" "\<not> prefix p (butlast q)" "\<not> prefix q (butlast p)"
    proof -
      have b: "prefix (butlast w) w" for w :: "string list" by (cases w rule: rev_cases) auto
      show "\<not> prefix p (butlast p)" "\<not> prefix q (butlast q)"
        using p(2) q(2) prefix_length_le [of p "butlast p"] prefix_length_le [of q "butlast q"] by (cases p; cases q; auto)+
      show "\<not> prefix p (butlast q)" "\<not> prefix q (butlast p)"
        using ne prefix_order.trans [OF _ b] by blast+
    qed
    have l: "look s' v = (if v = butlast p \<or> v = butlast q then map_option (in_mtime_update (\<lambda>_. fs_time s)) (look s v)
        else map_of (move p q (fs_tree s)) v)" for v
      using nb by (auto simp: r map_of_stamp m option.map_comp comp_def)
    have under: "look s' (q @ u) = look s (p @ u)" "look s' (p @ u) = None" for u
    proof -
      have "\<not> prefix q (p @ u)" using pq by (metis parallel_def prefix_same_cases prefixI)
      moreover have "q @ u \<noteq> butlast p" "q @ u \<noteq> butlast q" "p @ u \<noteq> butlast p" "p @ u \<noteq> butlast q"
        using nb by (metis prefixI)+
      ultimately show "look s' (q @ u) = look s (p @ u)" "look s' (p @ u) = None"
        by (simp_all add: l m)
    qed
    moreover have "look s' v = look s v" if "\<not> prefix p v" "\<not> prefix q v" "v \<noteq> butlast p" "v \<noteq> butlast q" for v
      using that by (simp add: l m)
    moreover have "dir_at s' v" if "\<not> prefix p v" "\<not> prefix q v" "dir_at s v" for v
      using that by (auto simp: dir_at_def l m is_dir_def split: option.splits)
    ultimately show ?thesis using r(1) by blast
  qed
qed

end
