(* ===== verification/Swap.thy ===== *)
theory Swap
  imports Restore File_Laws
begin

text \<open>
  The swap of staged entries with the live ones: what every call leaves of each entry's live tree, its
  staged tree and its quarantine, whichever call fails.
\<close>

subsection \<open>Entries and their three places\<close>

definition tp :: "staged_entry \<Rightarrow> string list" where "tp e = elems (target e)"
definition cp :: "staged_entry \<Rightarrow> string list" where "cp e = elems (se_container e)"
definition stp :: "staged_entry \<Rightarrow> string list" where "stp e = cp e @ [''restored'']"
definition dsp :: "staged_entry \<Rightarrow> string list" where "dsp e = cp e @ [''displaced'']"

definition locs :: "staged_entry \<Rightarrow> string list set" where
  "locs e = {tp e, stp e, dsp e}"

text \<open>Targets and containers are clean absolute paths, none of them inside another.\<close>

definition shaped :: "staged_entry \<Rightarrow> bool" where
  "shaped e \<longleftrightarrow> target e = abs_path (tp e) \<and> tp e \<noteq> [] \<and> se_container e = abs_path (cp e) \<and> cp e \<noteq> [] \<and> se_staged e = abs_path (stp e)"

definition apart :: "staged_entry set \<Rightarrow> bool" where
  "apart E \<longleftrightarrow> (\<forall>e \<in> E. shaped e \<and> tp e \<parallel> cp e) \<and>
     (\<forall>e \<in> E. \<forall>f \<in> E. e \<noteq> f \<longrightarrow> tp e \<parallel> tp f \<and> cp e \<parallel> cp f \<and> tp e \<parallel> cp f)"

type_synonym subtree = "string list \<Rightarrow> inode option"

definition sub :: "files \<Rightarrow> string list \<Rightarrow> subtree" where
  "sub s p = (\<lambda>u. look s (p @ u))"

abbreviation nothing :: subtree where "nothing \<equiv> \<lambda>_. None"

definition view :: "files \<Rightarrow> staged_entry \<Rightarrow> subtree \<times> subtree \<times> subtree" where
  "view s e = (sub s (tp e), sub s (stp e), sub s (dsp e))"

definition placed :: "files \<Rightarrow> staged_entry \<Rightarrow> bool" where
  "placed s e \<longleftrightarrow> plain s (tp e) \<and> plain s (stp e) \<and> plain s (dsp e)"

lemma names_shaped:
  assumes "shaped e"
  shows "names (tp e)" "names (cp e)" "names (stp e)" "names (dsp e)" "tp e \<noteq> []" "stp e \<noteq> []" "dsp e \<noteq> []"
proof -
  have t: "IsAbs (target e)" "IsAbs (se_container e)" using assms by (simp_all add: shaped_def)
  then show n: "names (tp e)" "names (cp e)" by (simp_all add: tp_def cp_def names_elems)
  have "valid_name ''restored''" "valid_name ''displaced''" by code_simp+
  then show "names (stp e)" "names (dsp e)" using n by (simp_all add: stp_def dsp_def)
  show "tp e \<noteq> []" "stp e \<noteq> []" "dsp e \<noteq> []" using assms by (simp_all add: shaped_def stp_def dsp_def)
qed

lemma displaced_path: "shaped e \<Longrightarrow> Join (se_container e) ''displaced'' = abs_path (dsp e)"
proof -
  assume "shaped e"
  moreover have "valid_name ''displaced''" by code_simp
  ultimately show ?thesis using Join_name [of "cp e"] names_shaped(2) [of e] by (simp add: shaped_def [of e] dsp_def)
qed

lemma parallel_append1: "a \<parallel> b \<Longrightarrow> a @ u \<parallel> b"
  by (metis append_prefixD parallel_def prefix_append prefix_same_cases prefixI)

lemma parallel_sym: "a \<parallel> b \<Longrightarrow> b \<parallel> a" by auto

lemma parallel_app: "a \<parallel> b \<Longrightarrow> a \<parallel> b @ u" "a \<parallel> b \<Longrightarrow> a @ u \<parallel> b" "a \<parallel> b \<Longrightarrow> a @ u \<parallel> b @ w"
  by (metis parallel_append1 parallel_sym)+

lemma apart_locs:
  assumes "apart E" "e \<in> E" "f \<in> E" "x \<in> locs e" "y \<in> locs f" "e \<noteq> f \<or> x \<noteq> y"
  shows "x \<parallel> y"
proof -
  have sd: "cp e @ [''restored''] \<parallel> cp e @ [''displaced'']" "cp e @ [''displaced''] \<parallel> cp e @ [''restored'']"
    by (auto simp: parallel_def)
  show ?thesis
  proof (cases "e = f")
    case True
    then have "tp e \<parallel> cp e" "x \<noteq> y" using assms by (auto simp: apart_def)
    then show ?thesis
      using assms True sd by (auto simp: locs_def stp_def dsp_def intro: parallel_app parallel_sym)
  next
    case False
    then have "tp e \<parallel> tp f" "cp e \<parallel> cp f" "tp e \<parallel> cp f" "tp f \<parallel> cp e" using assms by (auto simp: apart_def)
    then show ?thesis
      using assms by (auto simp: locs_def stp_def dsp_def intro: parallel_app parallel_sym)
  qed
qed

subsection \<open>What touches one entry only\<close>

definition outside :: "staged_entry set \<Rightarrow> string list \<Rightarrow> bool" where
  "outside E v \<longleftrightarrow> (\<forall>e \<in> E. \<forall>x \<in> locs e. \<not> prefix x v \<and> v \<noteq> butlast x)"

definition touches :: "staged_entry set \<Rightarrow> staged_entry set \<Rightarrow> files \<Rightarrow> files \<Rightarrow> bool" where
  "touches E T s s' \<longleftrightarrow> (\<forall>e \<in> E. placed s e \<longrightarrow> placed s' e) \<and> (\<forall>e \<in> E - T. view s' e = view s e) \<and>
     (\<forall>v. outside E v \<longrightarrow> look s' v = look s v)"

lemma touches_trans: "touches E T s s' \<Longrightarrow> touches E T' s' s'' \<Longrightarrow> T \<subseteq> U \<Longrightarrow> T' \<subseteq> U \<Longrightarrow> touches E U s s''"
  unfolding touches_def by (metis Diff_iff subset_iff)

lemma touches_same: "look s' = look s \<Longrightarrow> touches E T s s'"
  by (simp add: touches_def placed_def plain_def dir_at_def view_def sub_def)

lemma view_same: "look s' = look s \<Longrightarrow> view s' e = view s e"
  by (simp add: view_def sub_def)

lemma sub_cong_app: "sub s p u = look s (p @ u)" by (simp add: sub_def)

lemma locs_shaped: "shaped e \<Longrightarrow> x \<in> locs e \<Longrightarrow> names x \<and> x \<noteq> []"
  using names_shaped [of e] by (auto simp: locs_def)

lemma placed_locs: "placed s e \<Longrightarrow> x \<in> locs e \<Longrightarrow> plain s x"
  by (auto simp: placed_def locs_def)

text \<open>A rename between two places of an entry, the second of which is free.\<close>

lemma rename_entry:
  assumes E: "apart E" "e \<in> E" "\<forall>f \<in> E. placed s f" and ab: "a \<in> locs e" "b \<in> locs e" "a \<noteq> b" and free: "sub s b = nothing"
    and ren: "Rename (abs_path a) (abs_path b) s = (r, s')"
  shows "(\<exists>x. r = Inl x \<and> look s' = look s) \<or>
    r = Inr () \<and> sub s' b = sub s a \<and> sub s' a = nothing \<and> (\<forall>c \<in> locs e - {a, b}. sub s' c = sub s c) \<and> touches E {e} s s'"
proof -
  have sh: "shaped e" using E by (auto simp: apart_def)
  have par: "a \<parallel> b" using apart_locs [OF E(1,2,2) ab(1,2)] ab by simp
  have "look s b = None" using free sub_cong_app [of s b "[]"] by simp
  from Rename_plain [OF _ _ _ _ _ _ par this ren] locs_shaped [OF sh] placed_locs E ab
  consider (err) x where "r = Inl x" "look s' = look s"
    | (ok) "r = Inr ()" "\<And>u. look s' (b @ u) = look s (a @ u)" "\<And>u. look s' (a @ u) = None"
        "\<And>v. \<not> prefix a v \<Longrightarrow> \<not> prefix b v \<Longrightarrow> v \<noteq> butlast a \<Longrightarrow> v \<noteq> butlast b \<Longrightarrow> look s' v = look s v"
        "\<And>v. \<not> prefix a v \<Longrightarrow> \<not> prefix b v \<Longrightarrow> dir_at s v \<Longrightarrow> dir_at s' v"
    by blast
  then show ?thesis
  proof cases
    case ok
    have keep: "sub s' c = sub s c" if c: "c \<parallel> a" "c \<parallel> b" for c
    proof
      fix u
      have "\<not> prefix a (c @ u)" "\<not> prefix b (c @ u)" using c by (metis parallel_def prefix_same_cases prefixI)+
      moreover have "c @ u \<noteq> butlast x" if "c \<parallel> x" for x
      proof
        assume "c @ u = butlast x"
        then have "prefix c x" by (metis append_butlast_last_id append_prefixD butlast.simps(1) prefixI prefix_order.refl append_is_Nil_conv prefix_bot.bot_least)
        with that show False by auto
      qed
      ultimately show "sub s' c u = sub s c u" using c by (simp add: sub_cong_app ok(4))
    qed
    have pl: "plain s' x" if f: "f \<in> E" "x \<in> locs f" for f x
      unfolding plain_def
    proof (intro allI impI)
      fix v assume v: "strict_prefix v x"
      have "\<not> prefix y v" if "y \<in> locs e" for y
      proof
        assume "prefix y v"
        then have "strict_prefix y x" using v by (metis prefix_order.le_less_trans)
        then have "y \<noteq> x" "\<not> y \<parallel> x" by auto
        then show False using apart_locs [OF E(1,2) f(1) that f(2)] by auto
      qed
      moreover have "dir_at s v" using v placed_locs [OF E(3) [rule_format, OF f(1)] f(2)] by (simp add: plain_def)
      ultimately show "dir_at s' v" using ok(5) ab by blast
    qed
    have "view s' f = view s f" if "f \<in> E - {e}" for f
      using that keep apart_locs [OF E(1) _ E(2)] ab by (auto simp: view_def locs_def)
    moreover have "sub s' c = sub s c" if "c \<in> locs e - {a, b}" for c
      using that keep apart_locs [OF E(1,2,2)] ab by auto
    moreover have "placed s' f" if "f \<in> E" for f using pl that by (simp add: placed_def locs_def)
    moreover have "look s' v = look s v" if "outside E v" for v
      using that E(2) ab by (intro ok(4)) (auto simp: outside_def)
    ultimately show ?thesis using ok by (auto simp: touches_def sub_def)
  qed blast
qed

lemma sync_same: "Sync p s = (r, s') \<Longrightarrow> look s' = look s"
  using readsD [OF reads_calls(5)] .

subsection \<open>Undoing swaps\<close>

text \<open>
  How an entry stands after its swap, compared with how it stood first. \<open>kept\<close> says that neither its live
  tree nor its staged tree is lost.
\<close>

definition kept :: "files \<Rightarrow> files \<Rightarrow> staged_entry \<Rightarrow> bool" where
  "kept s0 s e \<longleftrightarrow> (sub s (tp e) = sub s0 (tp e) \<or> sub s (dsp e) = sub s0 (tp e)) \<and>
     (sub s (stp e) = sub s0 (stp e) \<or> sub s (tp e) = sub s0 (stp e))"

definition swapped :: "files \<Rightarrow> files \<Rightarrow> swap_record \<Rightarrow> bool" where
  "swapped s0 s r \<longleftrightarrow> (let e = sr_entry r in
     sr_displaced r = abs_path (dsp e) \<and> sub s0 (dsp e) = nothing \<and> (\<not> sr_hadCurrent r \<longrightarrow> sub s0 (tp e) = nothing) \<and>
     (sr_installed r \<or> sub s0 (stp e) = nothing) \<and>
     view s e = (if sr_installed r then sub s0 (stp e) else nothing, if sr_installed r then nothing else sub s0 (stp e),
       if sr_hadCurrent r then sub s0 (tp e) else nothing))"

lemma swapped_kept: "swapped s0 s r \<Longrightarrow> kept s0 s (sr_entry r)"
  by (auto simp: swapped_def kept_def view_def Let_def split: if_splits)

lemma kept_view: "view s' e = view s e \<Longrightarrow> kept s0 s' e = kept s0 s e"
  by (simp add: kept_def view_def)

lemma kept_refl: "view s e = view s0 e \<Longrightarrow> kept s0 s e"
  by (simp add: kept_def view_def)

lemma locs_in [simp]: "tp e \<in> locs e" "stp e \<in> locs e" "dsp e \<in> locs e"
  by (simp_all add: locs_def)

lemma locs_ne:
  assumes "apart E" "e \<in> E"
  shows "tp e \<noteq> stp e" "tp e \<noteq> dsp e" "stp e \<noteq> dsp e"
proof -
  have "tp e \<parallel> cp e" using assms by (auto simp: apart_def)
  then show "tp e \<noteq> stp e" "tp e \<noteq> dsp e" by (auto simp: stp_def dsp_def)
  show "stp e \<noteq> dsp e" by (simp add: stp_def dsp_def)
qed

lemma touches_placed: "touches E T s s' \<Longrightarrow> \<forall>f \<in> E. placed s f \<Longrightarrow> \<forall>f \<in> E. placed s' f"
  by (simp add: touches_def)

lemma back_rename:
  assumes E: "apart E" "e \<in> E" "\<forall>f \<in> E. placed s f" and free: "had \<longrightarrow> sub s (tp e) = nothing"
    and r: "(if had then (case Rename (abs_path (dsp e)) (abs_path (tp e)) s of (x, s) \<Rightarrow> (errs_of x, s)) else ([], s)) = (es, s')"
  shows "(es \<noteq> [] \<and> look s' = look s) \<or>
    (es = [] \<and> view s' e = (if had then (sub s (dsp e), sub s (stp e), nothing) else view s e) \<and> touches E {e} s s')"
proof (cases had)
  case True
  obtain x t where R: "Rename (abs_path (dsp e)) (abs_path (tp e)) s = (x, t)" by (cases "Rename (abs_path (dsp e)) (abs_path (tp e)) s")
  have ne: "dsp e \<noteq> tp e" "stp e \<noteq> dsp e" "stp e \<noteq> tp e" using locs_ne [OF E(1,2)] by auto
  have out: "es = errs_of x" "s' = t" using r True R by simp_all
  from rename_entry [OF E _ _ ne(1) free [rule_format, OF True] R] show ?thesis
    using out True ne by (auto simp: errs_of_def view_def)
qed (use r in \<open>auto simp: view_def touches_def\<close>)

lemma undo_record_spec:
  assumes E: "apart E" "sr_entry r \<in> E" "\<forall>f \<in> E. placed s f" and sw: "swapped s0 s r" and u: "undo_record r s = (es, s')"
  shows "touches E {sr_entry r} s s'" "kept s0 s' (sr_entry r)" "es = [] \<Longrightarrow> view s' (sr_entry r) = view s0 (sr_entry r)"
proof -
  define e where "e = sr_entry r"
  define had where "had = sr_hadCurrent r"
  have eE: "e \<in> E" using E by (simp add: e_def)
  have sh: "shaped e" using E by (auto simp: apart_def e_def)
  have paths: "target e = abs_path (tp e)" "se_staged e = abs_path (stp e)" "sr_displaced r = abs_path (dsp e)"
    using sh sw by (simp_all add: shaped_def swapped_def e_def Let_def)
  have v: "view s e = (if sr_installed r then sub s0 (stp e) else nothing, if sr_installed r then nothing else sub s0 (stp e),
       if had then sub s0 (tp e) else nothing)" and z: "sub s0 (dsp e) = nothing" "\<not> had \<longrightarrow> sub s0 (tp e) = nothing"
    "sr_installed r \<or> sub s0 (stp e) = nothing"
    using sw by (auto simp: swapped_def e_def had_def Let_def)
  have ne: "tp e \<noteq> stp e" "tp e \<noteq> dsp e" "stp e \<noteq> dsp e" using locs_ne [OF E(1)] E(2) by (auto simp: e_def)
  let ?put_back = "\<lambda>s. if had then (case Rename (abs_path (dsp e)) (abs_path (tp e)) s of (x, s) \<Rightarrow> (errs_of x, s)) else ([], s)"
  let ?rest = "\<lambda>s. case ?put_back s of (es, s) \<Rightarrow> case Sync (Dir (abs_path (tp e))) s of (y, s) \<Rightarrow> (es @ errs_of y, s)"
  have ud: "undo_record r s = (if sr_installed r
      then (case Rename (abs_path (tp e)) (abs_path (stp e)) s of (Inl x, s) \<Rightarrow> ([x], s) | (Inr _, s) \<Rightarrow> ?rest s) else ?rest s)"
    unfolding undo_record_def Let_def had_def [symmetric] e_def [symmetric] paths by (rule refl)
  have rest: "touches E {e} s s' \<and> kept s0 s' e \<and> (es = [] \<longrightarrow> view s' e = view s0 e)"
    if t: "touches E {e} s t" "view t e = (nothing, sub s0 (stp e), if had then sub s0 (tp e) else nothing)"
      and R: "?rest t = (es, s')" for t
  proof -
    obtain es1 t1 where B: "?put_back t = (es1, t1)" by (cases "?put_back t")
    then obtain y where S: "Sync (Dir (abs_path (tp e))) t1 = (y, s')" "es = es1 @ errs_of y" using R by (auto split: prod.splits)
    have p: "\<forall>f \<in> E. placed t f" by (rule touches_placed [OF t(1) E(3)])
    have f: "had \<longrightarrow> sub t (tp e) = nothing" using t(2) by (simp add: view_def)
    note l = sync_same [OF S(1)]
    from back_rename [OF E(1) _ p f B] E(2) consider (bad) "es1 \<noteq> []" "look t1 = look t"
      | (good) "es1 = []" "view t1 e = (if had then (sub t (dsp e), sub t (stp e), nothing) else view t e)" "touches E {e} t t1"
      by (auto simp: e_def)
    then show ?thesis
    proof cases
      case bad
      then have "look s' = look t" using l by simp
      then show ?thesis using t z bad S touches_trans [OF t(1) touches_same [of s' t E "{e}"]]
        by (auto simp: kept_def view_def sub_def fun_eq_iff split: if_splits)
    next
      case good
      have "touches E {e} s s'" using touches_trans [OF touches_trans [OF t(1) good(3)] touches_same [OF l]] by blast
      moreover have "view s' e = view s0 e" using view_same [OF l] good t z by (auto simp: view_def split: if_splits)
      ultimately show ?thesis by (simp add: kept_refl)
    qed
  qed
  have "touches E {e} s s' \<and> kept s0 s' e \<and> (es = [] \<longrightarrow> view s' e = view s0 e)"
  proof (cases "sr_installed r")
    case True
    obtain x t where R: "Rename (abs_path (tp e)) (abs_path (stp e)) s = (x, t)" by (cases "Rename (abs_path (tp e)) (abs_path (stp e)) s")
    have "sub s (stp e) = nothing" using v True by (simp add: view_def)
    from rename_entry [OF E(1) eE E(3) _ _ ne(1) this R]
    consider (bad) x' where "x = Inl x'" "look t = look s"
      | (good) "x = Inr ()" "sub t (stp e) = sub s (tp e)" "sub t (tp e) = nothing" "sub t (dsp e) = sub s (dsp e)" "touches E {e} s t"
      using ne by auto
    then show ?thesis
    proof cases
      case bad
      have "es \<noteq> []" "look s' = look s" using u bad unfolding ud R if_P [OF True] bad(1) by auto
      then show ?thesis using touches_same swapped_kept [OF sw] kept_view [OF view_same] by (metis e_def)
    next
      case good
      have "view t e = (nothing, sub s0 (stp e), if had then sub s0 (tp e) else nothing)" using good v True by (simp add: view_def)
      moreover have "?rest t = (es, s')" using u unfolding ud good(1) R if_P [OF True] by (simp only: good(1) prod.case sum.case)
      ultimately show ?thesis using rest [OF good(5)] by blast
    qed
  next
    case False
    have "view s e = (nothing, sub s0 (stp e), if had then sub s0 (tp e) else nothing)" using v False by simp
    moreover have "?rest s = (es, s')" using u unfolding ud if_not_P [OF False] .
    ultimately show ?thesis using rest [OF touches_same [OF refl]] by blast
  qed
  then show "touches E {sr_entry r} s s'" "kept s0 s' (sr_entry r)" "es = [] \<Longrightarrow> view s' (sr_entry r) = view s0 (sr_entry r)"
    by (auto simp: e_def)
qed

lemma swapped_view: "view s' (sr_entry r) = view s (sr_entry r) \<Longrightarrow> swapped s0 s r \<Longrightarrow> swapped s0 s' r"
  by (simp add: swapped_def Let_def)

lemma rollback_spec:
  assumes "apart E" "set (map sr_entry rs) \<subseteq> E" "distinct (map sr_entry rs)" "\<forall>f \<in> E. placed s f" "\<forall>r \<in> set rs. swapped s0 s r"
    "rollbackSwaps rs s = (es, s')"
  shows "touches E (set (map sr_entry rs)) s s' \<and> (\<forall>r \<in> set rs. kept s0 s' (sr_entry r)) \<and>
    (es = [] \<longrightarrow> (\<forall>r \<in> set rs. view s' (sr_entry r) = view s0 (sr_entry r)))"
  using assms
proof (induction rs arbitrary: s es)
  case (Cons r rs)
  obtain es1 t where u: "undo_record r s = (es1, t)" by (cases "undo_record r s")
  obtain es2 where R: "rollbackSwaps rs t = (es2, s')" "es = es1 @ es2" using Cons.prems(6) u by (auto split: prod.splits)
  have un: "touches E {sr_entry r} s t" "kept s0 t (sr_entry r)" "es1 = [] \<Longrightarrow> view t (sr_entry r) = view s0 (sr_entry r)"
    using undo_record_spec [OF Cons.prems(1) _ Cons.prems(4) _ u] Cons.prems by auto
  have v: "view t (sr_entry q) = view s (sr_entry q)" if "q \<in> set rs" for q
  proof -
    have "sr_entry q \<in> E - {sr_entry r}" using imageI [OF that, of sr_entry] Cons.prems(2,3) by auto
    with un(1) show ?thesis unfolding touches_def by blast
  qed
  have "\<forall>q \<in> set rs. swapped s0 t q" using Cons.prems(5) v swapped_view by simp
  with Cons.IH [OF Cons.prems(1) _ _ touches_placed [OF un(1) Cons.prems(4)] _ R(1)] Cons.prems
  have IH: "touches E (set (map sr_entry rs)) t s'" "\<forall>r \<in> set rs. kept s0 s' (sr_entry r)"
    "es2 = [] \<longrightarrow> (\<forall>r \<in> set rs. view s' (sr_entry r) = view s0 (sr_entry r))" by auto
  have vr: "view s' (sr_entry r) = view t (sr_entry r)" using IH(1) Cons.prems(2,3) unfolding touches_def by auto
  have "touches E (set (map sr_entry (r # rs))) s s'" using touches_trans [OF un(1) IH(1)] by auto
  then show ?case using IH un(2,3) vr kept_view [OF vr] R(2) by auto
qed (auto simp: touches_def)

subsection \<open>The swap\<close>

definition same_file :: "backup_env \<Rightarrow> inode option \<Rightarrow> inode option \<Rightarrow> bool" where
  "same_file be a b \<longleftrightarrow> (\<exists>i j c d. a = Some i \<and> b = Some j \<and> in_kind i = KFile c \<and> in_kind j = KFile d \<and> length c = length d \<and>
     perm i = perm j \<and> in_mtime i = in_mtime j \<and> in_uid i = in_uid j \<and> in_gid i = in_gid j \<and> be_sha be c = be_sha be d)"

text \<open>A snapshot entry is in place: its staged tree is the live one, or a file equal to it was left; a missing one is gone.\<close>

definition replaced :: "backup_env \<Rightarrow> files \<Rightarrow> files \<Rightarrow> staged_entry \<Rightarrow> bool" where
  "replaced be s0 s e \<longleftrightarrow>
     (if me_Exists (se_manifest e)
      then sub s (tp e) = sub s0 (stp e) \<or> view s e = view s0 e \<and> same_file be (look s0 (tp e)) (look s0 (stp e)) \<and> me_Kind (se_manifest e) = StateFile
      else sub s (tp e) = nothing)"

definition ready :: "staged_entry set \<Rightarrow> files \<Rightarrow> bool" where
  "ready E s \<longleftrightarrow> apart E \<and> (\<forall>e \<in> E. placed s e \<and> sub s (dsp e) = nothing \<and> (look s (tp e) = None \<longrightarrow> sub s (tp e) = nothing) \<and>
     (me_Exists (se_manifest e) \<longleftrightarrow> me_Kind (se_manifest e) \<noteq> StateMissing) \<and> (\<not> me_Exists (se_manifest e) \<longrightarrow> sub s (stp e) = nothing) \<and>
     (\<forall>i. look s (stp e) = Some i \<longrightarrow> \<not> symlink (in_kind i)))"

text \<open>Some entries are swapped, those of \<open>X\<close> are under way, the others stand as they stood.\<close>

definition midway :: "staged_entry set \<Rightarrow> files \<Rightarrow> files \<Rightarrow> swap_record list \<Rightarrow> staged_entry set \<Rightarrow> bool" where
  "midway E s0 s rs X \<longleftrightarrow> set (map sr_entry rs) \<subseteq> E - X \<and> X \<subseteq> E \<and> distinct (map sr_entry rs) \<and> (\<forall>f \<in> E. placed s f) \<and>
     (\<forall>r \<in> set rs. swapped s0 s r) \<and> (\<forall>e \<in> X. kept s0 s e) \<and> (\<forall>e \<in> E - set (map sr_entry rs) - X. view s e = view s0 e)"

lemma midway_same: "look s' = look s \<Longrightarrow> midway E s0 s rs X \<Longrightarrow> midway E s0 s' rs X"
  unfolding midway_def using view_same [of s' s] swapped_view [of s' _ s s0] kept_view [of s' _ s s0]
  by (auto simp: placed_def plain_def dir_at_def)

lemma give_up_spec:
  assumes E: "apart E" and m: "midway E s0 s rs X" and g: "give_up msg i errs rs s = ((safe, err), s')"
  shows "touches E E s s' \<and> err \<noteq> None \<and> (\<forall>e \<in> E. kept s0 s' e) \<and> (safe \<longrightarrow> (\<forall>e \<in> E - X. view s' e = view s0 e))"
proof -
  obtain es where R: "rollbackSwaps rs s = (es, s')" "safe \<longleftrightarrow> es = []" "err \<noteq> None"
    using g by (auto simp: give_up_def split: prod.splits)
  from rollback_spec [OF E _ _ _ _ R(1)] m
  have t: "touches E (set (map sr_entry rs)) s s'" and k: "\<forall>r \<in> set rs. kept s0 s' (sr_entry r)"
    and v: "es = [] \<longrightarrow> (\<forall>r \<in> set rs. view s' (sr_entry r) = view s0 (sr_entry r))"
    by (auto simp: midway_def)
  have same: "view s' e = view s e" if "e \<in> E - set (map sr_entry rs)" for e using t that unfolding touches_def by blast
  have "kept s0 s' e" if "e \<in> E" for e
  proof (cases "e \<in> set (map sr_entry rs)")
    case False
    then have "kept s0 s e" using m that kept_refl [of s e s0] unfolding midway_def by blast
    then show ?thesis using kept_view [OF same] that False by blast
  qed (use k in auto)
  moreover have "view s' e = view s0 e" if "es = []" "e \<in> E - X" for e
    using v that same [of e] m unfolding midway_def by (cases "e \<in> set (map sr_entry rs)") auto
  moreover have "touches E E s s'" using t by (auto simp: touches_def)
  ultimately show ?thesis using R by blast
qed

lemma reads_liveStateKind [reads_intros]: "reads (liveStateKind p)"
  unfolding reads_def
proof
  fix s
  obtain r t where l: "Lstat p s = (r, t)" by (cases "Lstat p s")
  with reads_calls(1) have "unchanged s t" by (rule reads_unchanged)
  then show "unchanged s (snd (liveStateKind p s))" by (auto simp: liveStateKind_def l split: sum.split errno.split)
qed

lemma liveStateKind_plain:
  assumes "names p" "plain s p" "liveStateKind (abs_path p) s = (Inr k, s')"
  shows "k = StateMissing \<longleftrightarrow> look s p = None" "k = StateFile \<Longrightarrow> \<exists>i c. look s p = Some i \<and> in_kind i = KFile c"
    "k = StateDirectory \<longleftrightarrow> dir_at s p"
proof -
  obtain r t where L: "Lstat (abs_path p) s = (r, t)" by (cases "Lstat (abs_path p) s")
  note P = Lstat_plain [OF assms(1,2) L]
  have reg: "regular kd \<Longrightarrow> \<exists>c. kd = KFile c" for kd by (cases kd) auto
  show "k = StateMissing \<longleftrightarrow> look s p = None" "k = StateFile \<Longrightarrow> \<exists>i c. look s p = Some i \<and> in_kind i = KFile c"
    "k = StateDirectory \<longleftrightarrow> dir_at s p"
    using assms(3) P by (auto simp: liveStateKind_def L dir_at_def dest!: reg split: option.splits if_splits errno.splits)
qed

lemma same_regular:
  assumes a: "names a" "plain s a" "look s a = Some i" "\<not> symlink (in_kind i)"
    and b: "names b" "plain s b" "look s b = None \<or> \<not> symlink (in_kind (the (look s b)))"
    and S: "sameRegularFile be (abs_path a) (abs_path b) s = (x, s')"
  shows "look s' = look s" "x \<Longrightarrow> same_file be (look s a) (look s b)"
proof -
  have l: "lookup_path True (abs_path a) s = Inr a" "lookup_path True (abs_path b) s = (if look s b = None \<and> b \<noteq> [] then Inl ENOENT else Inr b)"
    using lookup_plain [of a s] lookup_plain [of b s] a b by auto
  show "look s' = look s" "x \<Longrightarrow> same_file be (look s a) (look s b)"
    using S a b
    by (auto simp: sameRegularFile_def Stat_def stat_at_def ReadFile_def sys_call_cases l same_file_def
        split: if_splits option.splits kind.splits sum.splits)
qed

text \<open>What is owed at the end of the loop over \<open>es\<close>, begun with the records \<open>rs\<close>.\<close>

definition swap_outcome :: "backup_env \<Rightarrow> staged_entry set \<Rightarrow> files \<Rightarrow> swap_record list \<Rightarrow> staged_entry list \<Rightarrow> files \<Rightarrow> (bool \<times> failure option) \<times> files \<Rightarrow> bool" where
  "swap_outcome be E s0 rs es s r \<longleftrightarrow> (case r of ((safe, err), s') \<Rightarrow>
     touches E E s s' \<and> (\<forall>e \<in> E. kept s0 s' e) \<and> (err \<noteq> None \<and> safe \<longrightarrow> (\<forall>e \<in> E. view s' e = view s0 e)) \<and>
     (err = None \<longrightarrow> (\<forall>r \<in> set rs. swapped s0 s' r) \<and> (\<forall>e \<in> set es. replaced be s0 s' e) \<and>
        (\<forall>e \<in> E - set (map sr_entry rs) - set es. view s' e = view s0 e)))"

lemma outcome_trans:
  assumes "touches E E s t" "swap_outcome be E s0 rs es t r"
  shows "swap_outcome be E s0 rs es s r"
proof -
  obtain safe err s' where r: "r = ((safe, err), s')" by (metis prod.exhaust)
  have "touches E E s s'" using touches_trans [OF assms(1), of E s' E] assms(2) by (simp add: r swap_outcome_def)
  with assms(2) show ?thesis by (simp add: r swap_outcome_def)
qed

lemma outcome_give_up:
  assumes "apart E" "midway E s0 s rs {}" "give_up msg i errs rs s = r"
  shows "swap_outcome be E s0 rs' es s r"
proof -
  obtain safe err s' where r: "r = ((safe, err), s')" by (metis prod.exhaust)
  with give_up_spec [OF assms(1,2), of msg i errs safe err s'] assms(3) show ?thesis by (auto simp: swap_outcome_def)
qed

lemma outcome_skip:
  assumes "swap_outcome be E s0 rs es s r" "e \<in> E" "e \<notin> set (map sr_entry rs)" "e \<notin> set es"
    and "\<And>s'. view s' e = view s0 e \<Longrightarrow> replaced be s0 s' e"
  shows "swap_outcome be E s0 rs (e # es) s r"
  using assms by (auto simp: swap_outcome_def)

lemma outcome_record:
  assumes "swap_outcome be E s0 (q # rs) es s r" "sr_entry q = e" "\<And>s'. swapped s0 s' q \<Longrightarrow> replaced be s0 s' e"
  shows "swap_outcome be E s0 rs (e # es) s r"
  using assms by (auto simp: swap_outcome_def)

lemma midway_others:
  assumes "midway E s0 s rs {}" "e \<notin> set (map sr_entry rs)" "touches E {e} s t"
  shows "\<forall>f \<in> E. f \<noteq> e \<longrightarrow> view t f = view s f" "\<forall>f \<in> E. placed t f" "\<forall>r \<in> set rs. swapped s0 t r"
proof -
  show v: "\<forall>f \<in> E. f \<noteq> e \<longrightarrow> view t f = view s f" and "\<forall>f \<in> E. placed t f"
    using assms by (simp_all add: midway_def touches_def)
  have "view t (sr_entry r) = view s (sr_entry r)" if "r \<in> set rs" for r
  proof -
    have "sr_entry r \<in> sr_entry ` set rs" using that by (rule imageI)
    then have "sr_entry r \<in> E" "sr_entry r \<noteq> e" using assms(1,2) by (auto simp: midway_def)
    with v show ?thesis by blast
  qed
  then show "\<forall>r \<in> set rs. swapped s0 t r" using assms(1) swapped_view by (simp add: midway_def)
qed

lemma midway_record:
  assumes "midway E s0 s rs {}" "e \<in> E" "e \<notin> set (map sr_entry rs)" "touches E {e} s t" "swapped s0 t q" "sr_entry q = e"
  shows "midway E s0 t (q # rs) {}"
  using assms midway_others [OF assms(1,3,4)] by (auto simp: midway_def)

lemma midway_under_way:
  assumes "midway E s0 s rs {}" "e \<in> E" "e \<notin> set (map sr_entry rs)" "touches E {e} s t" "kept s0 t e"
  shows "midway E s0 t rs {e}"
  using assms midway_others [OF assms(1,3,4)] by (auto simp: midway_def)

lemma midway_back:
  assumes "midway E s0 s rs {}" "e \<in> E" "e \<notin> set (map sr_entry rs)" "touches E {e} s t" "view t e = view s0 e"
  shows "midway E s0 t rs {}"
  using midway_under_way [OF assms(1-4) kept_refl [OF assms(5)]] assms(2,3,5) by (auto simp: midway_def)

text \<open>The part of a step after the tests: quarantine, activation, and the record of what was done.\<close>

definition synced :: "backup_env \<Rightarrow> nat \<Rightarrow> staged_entry \<Rightarrow> staged_entry list \<Rightarrow> swap_record list \<Rightarrow> files \<Rightarrow> (bool \<times> failure option) \<times> files" where
  "synced be i e es rs s = (case Sync (Dir (target e)) s of
     (Inl x, s) \<Rightarrow> give_up ''sync restored durable-state entry failed'' i [x] rs s
   | (Inr _, s) \<Rightarrow> swap_entries be (Suc i) rs es s)"

definition swap_one :: "backup_env \<Rightarrow> nat \<Rightarrow> bool \<Rightarrow> swap_record list \<Rightarrow> staged_entry \<Rightarrow> staged_entry list \<Rightarrow> files \<Rightarrow> (bool \<times> failure option) \<times> files" where
  "swap_one be i had rs e es s =
     (let displaced = Join (se_container e) ''displaced'';
          record = (\<lambda>installed. \<lparr>sr_entry = e, sr_displaced = displaced, sr_hadCurrent = had, sr_installed = installed\<rparr>)
      in case (if had then Rename (target e) displaced s else (Inr (), s)) of
           (Inl x, s) \<Rightarrow> give_up ''quarantine live durable-state entry failed'' i [x] rs s
         | (Inr _, s) \<Rightarrow>
             if me_Exists (se_manifest e) then
               (case Rename (se_staged e) (target e) s of
                  (Inl x, s) \<Rightarrow>
                    (case (if had then Rename displaced (target e) s else (Inr (), s)) of
                       (y, s) \<Rightarrow>
                         (case give_up ''activate restored durable-state entry failed'' i (x # errs_of y) rs s of
                            ((safe, err), s) \<Rightarrow> ((safe \<and> errs_of y = [], err), s)))
                | (Inr _, s) \<Rightarrow> synced be i e es (record True # rs) s)
             else synced be i e es (record False # rs) s)"

lemma swap_entries_Cons:
  "swap_entries be i rs (e # es) s =
     (case liveStateKind (target e) s of
        (Inl x, s) \<Rightarrow> give_up ''inspect live durable-state entry before swap failed'' i [x] rs s
      | (Inr kind, s) \<Rightarrow>
          (if me_Kind (se_manifest e) \<noteq> StateDirectory \<and> kind = StateDirectory
             then give_up ''live durable-state entry became an unsafe directory'' i [EISDIR] rs s
           else if me_Kind (se_manifest e) = StateDirectory \<and> kind \<noteq> StateDirectory \<and> kind \<noteq> StateMissing
             then give_up ''live durable-state entry became an unsafe non-directory'' i [ENOTDIR] rs s
           else
             case (if me_Kind (se_manifest e) = StateFile \<and> kind = StateFile then sameRegularFile be (target e) (se_staged e) s else (False, s)) of
               (same, s) \<Rightarrow>
                 if same \<or> me_Kind (se_manifest e) = StateMissing \<and> kind = StateMissing then swap_entries be (Suc i) rs es s
                 else swap_one be i (kind \<noteq> StateMissing) rs e es s))"
  unfolding swap_entries.simps(2) Let_def swap_one_def synced_def by (rule refl)

lemma synced_spec:
  assumes IH: "\<And>i rs s. midway E s0 s rs {} \<Longrightarrow> set es \<inter> set (map sr_entry rs) = {} \<Longrightarrow> swap_outcome be E s0 rs es s (swap_entries be i rs es s)"
    and E: "apart E" and m: "midway E s0 s (q # rs) {}" and q: "sr_entry q = e" "e \<notin> set es" "set es \<inter> set (map sr_entry rs) = {}"
    and rep: "\<And>s'. swapped s0 s' q \<Longrightarrow> replaced be s0 s' e"
  shows "swap_outcome be E s0 rs (e # es) s (synced be i e es (q # rs) s)"
proof -
  obtain y t where S: "Sync (Dir (target e)) s = (y, t)" by (cases "Sync (Dir (target e)) s")
  note l = sync_same [OF S]
  note m' = midway_same [OF l m]
  have "swap_outcome be E s0 rs (e # es) t (synced be i e es (q # rs) s)"
  proof (cases y)
    case (Inl x)
    obtain safe err s' where g: "give_up ''sync restored durable-state entry failed'' i [x] (q # rs) t = ((safe, err), s')" by (metis prod.exhaust)
    show ?thesis using give_up_spec [OF E m' g] by (auto simp: synced_def S Inl g swap_outcome_def)
  next
    case (Inr u)
    have "swap_outcome be E s0 (q # rs) es t (swap_entries be (Suc i) (q # rs) es t)" using IH [OF m'] q by auto
    from outcome_record [OF this q(1) rep] show ?thesis by (simp add: synced_def S Inr)
  qed
  then show ?thesis by (rule outcome_trans [OF touches_same [OF l]])
qed

lemma swap_one_spec:
  assumes IH: "\<And>i rs s. midway E s0 s rs {} \<Longrightarrow> set es \<inter> set (map sr_entry rs) = {} \<Longrightarrow> swap_outcome be E s0 rs es s (swap_entries be i rs es s)"
    and R: "ready E s0" and e: "e \<in> E" "e \<notin> set es" "e \<notin> set (map sr_entry rs)" "set es \<inter> set (map sr_entry rs) = {}"
    and m: "midway E s0 s rs {}" and had: "had \<longleftrightarrow> look s0 (tp e) \<noteq> None"
  shows "swap_outcome be E s0 rs (e # es) s (swap_one be i had rs e es s)"
proof -
  have E: "apart E" and z: "sub s0 (dsp e) = nothing" "\<not> had \<longrightarrow> sub s0 (tp e) = nothing" "\<not> me_Exists (se_manifest e) \<longrightarrow> sub s0 (stp e) = nothing"
    using R e(1) had by (auto simp: ready_def)
  have sh: "shaped e" using E e(1) by (auto simp: apart_def)
  have paths: "target e = abs_path (tp e)" "se_staged e = abs_path (stp e)" "Join (se_container e) ''displaced'' = abs_path (dsp e)"
    using sh displaced_path [OF sh] by (simp_all add: shaped_def)
  note ne = locs_ne [OF E e(1)]
  have v: "view s e = view s0 e" using m e by (auto simp: midway_def)
  have pl: "\<forall>f \<in> E. placed s f" using m by (simp add: midway_def)
  let ?live = "if had then nothing else sub s0 (tp e)" and ?disp = "if had then sub s0 (tp e) else nothing"
  obtain x t where Q: "(if had then Rename (abs_path (tp e)) (abs_path (dsp e)) s else (Inr (), s)) = (x, t)"
    by (cases "if had then Rename (abs_path (tp e)) (abs_path (dsp e)) s else (Inr (), s)")
  have q1: "(\<exists>x'. x = Inl x' \<and> look t = look s) \<or> x = Inr () \<and> view t e = (nothing, sub s0 (stp e), ?disp) \<and> touches E {e} s t"
  proof (cases had)
    case True
    have "sub s (dsp e) = nothing" using v z by (simp add: view_def)
    from rename_entry [OF E e(1) pl _ _ ne(2) this, of x t] Q True ne v show ?thesis by (auto simp: view_def)
  qed (use Q v z in \<open>auto simp: view_def touches_def\<close>)
  define mark where "mark = (\<lambda>installed. \<lparr>sr_entry = e, sr_displaced = abs_path (dsp e), sr_hadCurrent = had, sr_installed = installed\<rparr>)"
  have one: "swap_one be i had rs e es s =
      (case x of Inl x \<Rightarrow> give_up ''quarantine live durable-state entry failed'' i [x] rs t
       | Inr _ \<Rightarrow>
           if me_Exists (se_manifest e) then
             (case Rename (abs_path (stp e)) (abs_path (tp e)) t of
                (Inl x, s) \<Rightarrow>
                  (case (if had then Rename (abs_path (dsp e)) (abs_path (tp e)) s else (Inr (), s)) of
                     (y, s) \<Rightarrow>
                       (case give_up ''activate restored durable-state entry failed'' i (x # errs_of y) rs s of
                          ((safe, err), s) \<Rightarrow> ((safe \<and> errs_of y = [], err), s)))
              | (Inr _, s) \<Rightarrow> synced be i e es (mark True # rs) s)
           else synced be i e es (mark False # rs) t)"
    unfolding swap_one_def Let_def paths Q mark_def by (simp only: prod.case)
  show ?thesis
  proof (cases x)
    case (Inl x')
    then have l: "look t = look s" using q1 by simp
    show ?thesis unfolding one Inl sum.case
      by (rule outcome_trans [OF touches_same [OF l] outcome_give_up [OF E midway_same [OF l m] refl]])
  next
    case (Inr u)
    then have vt: "view t e = (nothing, sub s0 (stp e), ?disp)" and tt: "touches E {e} s t" using q1 by auto
    have tE: "touches E E s t" using tt e(1) by (auto simp: touches_def)
    have plt: "\<forall>f \<in> E. placed t f" using touches_placed [OF tt pl] .
    show ?thesis
    proof (cases "me_Exists (se_manifest e)")
      case False
      have sw: "swapped s0 t (mark False)" using vt z False by (simp add: swapped_def mark_def)
      have "swap_outcome be E s0 rs (e # es) t (synced be i e es (mark False # rs) t)"
        by (rule synced_spec [OF IH E midway_record [OF m e(1,3) tt sw] _ e(2,4)])
          (use False z in \<open>auto simp: mark_def swapped_def replaced_def view_def\<close>)
      then show ?thesis unfolding one Inr sum.case if_not_P [OF False] by (rule outcome_trans [OF tE])
    next
      case True
      obtain y w where A: "Rename (abs_path (stp e)) (abs_path (tp e)) t = (y, w)" by (cases "Rename (abs_path (stp e)) (abs_path (tp e)) t")
      have ft: "sub t (tp e) = nothing" using vt by (simp add: view_def)
      from rename_entry [OF E e(1) plt _ _ not_sym [OF ne(1)] ft A] ne
      consider (bad) y' where "y = Inl y'" "look w = look t"
        | (good) "y = Inr ()" "sub w (tp e) = sub t (stp e)" "sub w (stp e) = nothing" "sub w (dsp e) = sub t (dsp e)" "touches E {e} t w"
        by auto
      then show ?thesis
      proof cases
        case good
        have tw: "touches E {e} s w" by (rule touches_trans [OF tt good(5)]) auto
        have twE: "touches E E s w" using tw e(1) by (auto simp: touches_def)
        have sw: "swapped s0 w (mark True)" using vt z good by (simp add: swapped_def mark_def view_def)
        have "swap_outcome be E s0 rs (e # es) w (synced be i e es (mark True # rs) w)"
          by (rule synced_spec [OF IH E midway_record [OF m e(1,3) tw sw] _ e(2,4)])
            (use True in \<open>auto simp: mark_def swapped_def replaced_def view_def\<close>)
        then have "swap_outcome be E s0 rs (e # es) s (synced be i e es (mark True # rs) w)" by (rule outcome_trans [OF twE])
        then show ?thesis unfolding one Inr sum.case if_P [OF True] A good(1) prod.case .
      next
        case bad
        have tw: "touches E {e} s w" by (rule touches_trans [OF tt touches_same [OF bad(2), of E "{e}"]]) auto
        have vw: "view w e = (nothing, sub s0 (stp e), ?disp)" using view_same [OF bad(2)] vt by simp
        obtain es1 w1 yb where B: "(if had then Rename (abs_path (dsp e)) (abs_path (tp e)) w else (Inr (), w)) = (yb, w1)" "es1 = errs_of yb"
          by (cases "if had then Rename (abs_path (dsp e)) (abs_path (tp e)) w else (Inr (), w)") auto
        have B': "(if had then (case Rename (abs_path (dsp e)) (abs_path (tp e)) w of (x, s) \<Rightarrow> (errs_of x, s)) else ([], w)) = (es1, w1)"
          using B by (auto simp: errs_of_def split: if_splits)
        have fw: "had \<longrightarrow> sub w (tp e) = nothing" using vw by (simp add: view_def)
        from back_rename [OF E e(1) touches_placed [OF tw pl] fw B']
        consider (stuck) "es1 \<noteq> []" "look w1 = look w" | (undone) "es1 = []" "view w1 e = (if had then (sub w (dsp e), sub w (stp e), nothing) else view w e)" "touches E {e} w w1"
          by blast
        then have "swap_outcome be E s0 rs (e # es) s
            (case give_up ''activate restored durable-state entry failed'' i (y' # errs_of yb) rs w1 of ((safe, err), s) \<Rightarrow> ((safe \<and> errs_of yb = [], err), s))"
        proof cases
          case stuck
          have tw1: "touches E {e} s w1" by (rule touches_trans [OF tw touches_same [OF stuck(2), of E "{e}"]]) auto
          have "kept s0 w1 e" using view_same [OF stuck(2)] vw z by (auto simp: kept_def view_def)
          note mw = midway_under_way [OF m e(1,3) tw1 this]
          obtain safe err s' where g: "give_up ''activate restored durable-state entry failed'' i (y' # errs_of yb) rs w1 = ((safe, err), s')" by (metis prod.exhaust)
          have "touches E E s s'" by (rule touches_trans [OF tw1 conjunct1 [OF give_up_spec [OF E mw g]]]) (use e(1) in auto)
          then show ?thesis using give_up_spec [OF E mw g] stuck B(2) by (auto simp: g swap_outcome_def)
        next
          case undone
          have tw1: "touches E {e} s w1" by (rule touches_trans [OF tw undone(3)]) auto
          have "view w1 e = view s0 e" using undone(2) vw z by (auto simp: view_def)
          note mw = midway_back [OF m e(1,3) tw1 this]
          obtain safe err s' where g: "give_up ''activate restored durable-state entry failed'' i (y' # errs_of yb) rs w1 = ((safe, err), s')" by (metis prod.exhaust)
          have "touches E E s s'" by (rule touches_trans [OF tw1 conjunct1 [OF give_up_spec [OF E mw g]]]) (use e(1) in auto)
          then show ?thesis using give_up_spec [OF E mw g] by (auto simp: g swap_outcome_def)
        qed
        then show ?thesis unfolding one Inr sum.case if_P [OF True] A bad(1) prod.case B(1) .
      qed
    qed
  qed
qed

lemma swap_entries_spec:
  assumes R: "ready E s0" and "midway E s0 s rs {}" "set es \<subseteq> E" "distinct es" "set es \<inter> set (map sr_entry rs) = {}"
  shows "swap_outcome be E s0 rs es s (swap_entries be i rs es s)"
  using assms(2-)
proof (induction es arbitrary: rs s i)
  case Nil
  have "kept s0 s e" if "e \<in> E" for e
    using Nil that swapped_kept [of s0 s] kept_refl [of s e s0] by (cases "e \<in> sr_entry ` set rs") (auto simp: midway_def)
  then show ?case using Nil by (auto simp: swap_outcome_def midway_def touches_def)
next
  case (Cons e es)
  have e: "e \<in> E" "e \<notin> set es" "e \<notin> set (map sr_entry rs)" "set es \<inter> set (map sr_entry rs) = {}" using Cons.prems by auto
  have IH: "swap_outcome be E s0 rs es s (swap_entries be i rs es s)" if "midway E s0 s rs {}" "set es \<inter> set (map sr_entry rs) = {}" for i rs s
    using Cons.IH [OF that(1) _ _ that(2)] Cons.prems by auto
  have E: "apart E" and sh: "shaped e" using R e(1) by (auto simp: ready_def apart_def)
  have paths: "target e = abs_path (tp e)" "se_staged e = abs_path (stp e)" using sh by (simp_all add: shaped_def)
  note n = names_shaped [OF sh]
  obtain k s1 where K: "liveStateKind (target e) s = (k, s1)" by (cases "liveStateKind (target e) s")
  have l1: "look s1 = look s" using readsD [OF reads_liveStateKind K] .
  note m1 = midway_same [OF l1 Cons.prems(1)]
  have pl: "plain s (tp e)" "plain s1 (tp e)" "plain s1 (stp e)" using Cons.prems(1) m1 e(1) by (auto simp: midway_def placed_def)
  have v1: "view s1 e = view s0 e" using m1 e by (auto simp: midway_def)
  then have lk: "look s1 (tp e) = look s0 (tp e)" "look s1 (stp e) = look s0 (stp e)"
    by (auto simp: view_def sub_def fun_eq_iff dest: spec [of _ "[]"])
  have "swap_outcome be E s0 rs (e # es) s1 (swap_entries be i rs (e # es) s)"
  proof (cases k)
    case (Inl x)
    show ?thesis unfolding swap_entries_Cons K Inl prod.case sum.case by (rule outcome_give_up [OF E m1 refl])
  next
    case (Inr kind)
    note P = liveStateKind_plain [OF n(1) pl(1) K [unfolded paths Inr]]
    let ?want = "me_Kind (se_manifest e)"
    show ?thesis
    proof (cases "?want \<noteq> StateDirectory \<and> kind = StateDirectory \<or> ?want = StateDirectory \<and> kind \<noteq> StateDirectory \<and> kind \<noteq> StateMissing")
      case True
      then show ?thesis unfolding swap_entries_Cons K Inr prod.case sum.case by (auto intro: outcome_give_up [OF E m1 refl])
    next
      case good: False
      obtain same s2 where S: "(if ?want = StateFile \<and> kind = StateFile then sameRegularFile be (target e) (se_staged e) s1 else (False, s1)) = (same, s2)"
        by (cases "if ?want = StateFile \<and> kind = StateFile then sameRegularFile be (target e) (se_staged e) s1 else (False, s1)")
      have S': "look s2 = look s1 \<and> (same \<longrightarrow> ?want = StateFile \<and> same_file be (look s0 (tp e)) (look s0 (stp e)))"
      proof (cases "?want = StateFile \<and> kind = StateFile")
        case True
        then obtain i c where i: "look s1 (tp e) = Some i" "in_kind i = KFile c" using P(2) l1 by auto
        have "look s1 (stp e) = None \<or> \<not> symlink (in_kind (the (look s1 (stp e))))" using R e(1) lk by (auto simp: ready_def)
        from same_regular [OF n(1) pl(2) i(1) _ n(3) pl(3) this, of be same s2] S True i(2) show ?thesis by (simp add: lk paths)
      qed (use S in auto)
      note m2 = midway_same [OF conjunct1 [OF S'] m1]
      have o: "swap_entries be i rs (e # es) s =
          (if same \<or> ?want = StateMissing \<and> kind = StateMissing then swap_entries be (Suc i) rs es s2 else swap_one be i (kind \<noteq> StateMissing) rs e es s2)"
        using good unfolding swap_entries_Cons K Inr prod.case sum.case S by auto
      have "swap_outcome be E s0 rs (e # es) s2 (swap_entries be i rs (e # es) s)"
      proof (cases "same \<or> ?want = StateMissing \<and> kind = StateMissing")
        case True
        have "replaced be s0 s' e" if "view s' e = view s0 e" for s'
        proof (cases "me_Exists (se_manifest e)")
          case ex: True
          then have "?want \<noteq> StateMissing" using R e(1) by (auto simp: ready_def)
          then show ?thesis using True S' that ex by (simp add: replaced_def)
        next
          case nex: False
          then have "?want = StateMissing" using R e(1) by (auto simp: ready_def)
          then have "look s0 (tp e) = None" using True S' P(1) lk l1 by auto
          then have "sub s0 (tp e) = nothing" using R e(1) by (auto simp: ready_def)
          with that nex show ?thesis by (simp add: replaced_def view_def)
        qed
        from outcome_skip [OF IH [OF m2 e(4)] e(1,3,2) this] show ?thesis unfolding o if_P [OF True] .
      next
        case False
        have "(kind \<noteq> StateMissing) \<longleftrightarrow> look s0 (tp e) \<noteq> None" using P(1) l1 lk by simp
        from swap_one_spec [OF IH R e m2 this] show ?thesis unfolding o if_not_P [OF False] .
      qed
      then show ?thesis by (rule outcome_trans [OF touches_same [OF conjunct1 [OF S']]])
    qed
  qed
  then show ?case by (rule outcome_trans [OF touches_same [OF l1]])
qed

lemma swap_spec:
  assumes R: "ready (set staged) s" and d: "distinct staged" and w: "swapStagedEntries be staged s = ((safe, err), s')"
  shows "(\<forall>e \<in> set staged. placed s' e \<and> kept s s' e)" "err \<noteq> None \<Longrightarrow> safe \<Longrightarrow> \<forall>e \<in> set staged. view s' e = view s e"
    "err = None \<Longrightarrow> \<forall>e \<in> set staged. replaced be s s' e" "\<forall>v. outside (set staged) v \<longrightarrow> look s' v = look s v"
proof -
  have "midway (set staged) s s [] {}" using R by (simp add: midway_def ready_def)
  from swap_entries_spec [OF R this subset_refl d, of be 0]
  have o: "swap_outcome be (set staged) s [] staged s ((safe, err), s')" by (simp add: w [unfolded swapStagedEntries_def])
  show "(\<forall>e \<in> set staged. placed s' e \<and> kept s s' e)" using o R by (auto simp: swap_outcome_def touches_def ready_def)
  show "err \<noteq> None \<Longrightarrow> safe \<Longrightarrow> \<forall>e \<in> set staged. view s' e = view s e" "err = None \<Longrightarrow> \<forall>e \<in> set staged. replaced be s s' e"
    "\<forall>v. outside (set staged) v \<longrightarrow> look s' v = look s v"
    using o by (auto simp: swap_outcome_def touches_def)
qed

subsection \<open>Removing the quarantine\<close>

lemma RemoveAll_plain:
  assumes p: "names p" "p \<noteq> []" "plain s p" and r: "RemoveAll (abs_path p) s = (r, s')"
  shows "\<not> prefix p v \<Longrightarrow> v \<noteq> butlast p \<Longrightarrow> look s' v = look s v" "\<not> prefix p v \<Longrightarrow> dir_at s v \<Longrightarrow> dir_at s' v"
proof -
  have l: "look s' v = look s v \<or> look s' v = (if v = butlast p then map_option (in_mtime_update (\<lambda>_. fs_time s)) (map_of (del_under p (fs_tree s)) v)
      else map_of (del_under p (fs_tree s)) v)" for v
    using r by (auto simp: RemoveAll_def sys_call_cases entry_plain [OF p] map_of_stamp split: if_splits)
  show "\<not> prefix p v \<Longrightarrow> v \<noteq> butlast p \<Longrightarrow> look s' v = look s v" using l [of v] by (auto simp: map_of_del_under look_def)
  show "\<not> prefix p v \<Longrightarrow> dir_at s v \<Longrightarrow> dir_at s' v"
    using l [of v] by (auto simp: map_of_del_under look_def [of s] dir_at_def is_dir_def split: if_splits option.splits)
qed

lemma cleanup_spec:
  assumes "apart E" "set staged \<subseteq> E" "\<forall>e \<in> set staged. plain s (cp e)" "cleanupStagedEntries staged s = (errs, s')" "e \<in> E"
  shows "sub s' (tp e) = sub s (tp e)"
  using assms(2-4)
proof (induction staged arbitrary: s errs)
  case (Cons f staged)
  have f: "f \<in> E" "shaped f" using Cons.prems assms(1) by (auto simp: apart_def)
  have cf: "se_container f = abs_path (cp f)" "cp f \<noteq> []" "names (cp f)" using f(2) names_shaped [OF f(2)] by (simp_all add: shaped_def)
  have "se_container f \<noteq> []" using cf by (simp add: abs_path_def)
  then obtain r t errs' where R: "RemoveAll (abs_path (cp f)) s = (r, t)" "cleanupStagedEntries staged t = (errs', s')"
    using Cons.prems(3) cf by (auto split: prod.splits)
  have pf: "plain s (cp f)" using Cons.prems(2) by simp
  note P = RemoveAll_plain [OF cf(3,2) pf R(1)]
  have par: "cp f \<parallel> tp g" if "g \<in> E" for g
    using assms(1) f(1) that by (cases "f = g") (auto simp: apart_def intro: parallel_sym)
  have parc: "cp f \<parallel> cp g \<or> f = g" if "g \<in> E" for g using assms(1) f(1) that by (auto simp: apart_def)
  have "plain t (cp g)" if g: "g \<in> set staged" for g
    unfolding plain_def
  proof (intro allI impI)
    fix v assume v: "strict_prefix v (cp g)"
    have "\<not> prefix (cp f) v"
    proof
      assume "prefix (cp f) v"
      then have "strict_prefix (cp f) (cp g)" using v by (metis prefix_order.le_less_trans)
      then have "\<not> cp f \<parallel> cp g" "f \<noteq> g" by auto
      then show False using parc [of g] g Cons.prems(1) by auto
    qed
    moreover have "dir_at s v" using Cons.prems(2) g v by (auto simp: plain_def)
    ultimately show "dir_at t v" by (rule P(2))
  qed
  then have "sub s' (tp e) = sub t (tp e)" using Cons.IH [OF _ _ R(2)] Cons.prems(1) by auto
  moreover have "sub t (tp e) = sub s (tp e)"
  proof
    fix u
    have "\<not> prefix (cp f) (tp e @ u)" using par [OF assms(5)] by (metis parallel_def prefix_same_cases prefixI)
    moreover have "tp e @ u \<noteq> butlast (cp f)"
    proof
      assume "tp e @ u = butlast (cp f)"
      then have "prefix (tp e) (cp f)" using cf(2) by (metis append_butlast_last_id append_prefixD prefixI)
      then show False using par [OF assms(5)] by auto
    qed
    ultimately show "sub t (tp e) u = sub s (tp e) u" by (simp add: sub_def P(1))
  qed
  ultimately show ?case by simp
qed simp

end
