(* ===== verification/Restore_Properties.thy ===== *)
theory Restore_Properties
  imports Swap
begin

text \<open>What holds of the snapshots and their restoration.\<close>

subsection \<open>A restoration is all or nothing\<close>

definition in_place :: "backup_env \<Rightarrow> files \<Rightarrow> files \<Rightarrow> staged_entry \<Rightarrow> bool" where
  "in_place be s s' e \<longleftrightarrow>
     (if me_Exists (se_manifest e)
      then sub s' (tp e) = sub s (stp e) \<or> sub s' (tp e) = sub s (tp e) \<and> same_file be (look s (tp e)) (look s (stp e))
      else sub s' (tp e) = nothing)"

definition not_lost :: "files \<Rightarrow> files \<Rightarrow> staged_entry \<Rightarrow> bool" where
  "not_lost s s' e \<longleftrightarrow> sub s' (tp e) = sub s (tp e) \<or> sub s' (dsp e) = sub s (tp e)"

lemma finish_live:
  assumes R: "ready (set staged) s" "\<forall>e \<in> set staged. placed t e" and f: "finish_restore staged r t = (res, s')"
    and safe: "snd r = None \<or> fst r" and e: "e \<in> set staged"
  shows "sub s' (tp e) = sub t (tp e)"
proof -
  have E: "apart (set staged)" using R(1) by (simp add: ready_def)
  obtain cs u where c: "cleanupStagedEntries staged t = (cs, u)" by (cases "cleanupStagedEntries staged t")
  have "\<forall>e \<in> set staged. plain t (cp e)" using R(2) by (auto simp: placed_def stp_def plain_snoc)
  from cleanup_spec [OF E subset_refl this c e] f safe c show ?thesis
    by (auto simp: finish_restore_def split: prod.splits option.splits)
qed

text \<open>
  C7. A restoration is all or nothing. Whatever system calls fail on the way: when every swap succeeds,
  every entry of the snapshot is in place; when one fails and the ones before it can be undone, every
  live tree is as it was; when not even that works, the quarantine is kept, and every live tree is at its
  place or in it. Nothing outside the targets and their quarantine is touched until it is removed.
\<close>

theorem restore_swap_is_atomic:
  assumes R: "ready (set staged) s" "distinct staged"
    and w: "swapStagedEntries be staged s = (r, t)" and f: "finish_restore staged r t = (res, s')"
  shows "(snd r = None \<longrightarrow> (\<forall>e \<in> set staged. in_place be s s' e)) \<and>
    (snd r \<noteq> None \<longrightarrow> res \<noteq> Inr () \<and> (\<forall>e \<in> set staged. not_lost s s' e) \<and> (fst r \<longrightarrow> (\<forall>e \<in> set staged. sub s' (tp e) = sub s (tp e)))) \<and>
    (\<forall>v. outside (set staged) v \<longrightarrow> look t v = look s v)"
proof -
  obtain safe err where r: "r = (safe, err)" by (cases r)
  note S = swap_spec [OF R w [unfolded r]]
  have pl: "\<forall>e \<in> set staged. placed t e" using S(1) by blast
  note F = finish_live [OF R(1) pl f, unfolded r]
  have ok: "in_place be s s' e" if "err = None" "e \<in> set staged" for e
    using bspec [OF S(3) [OF that(1)] that(2)] F that by (auto simp: in_place_def replaced_def view_def)
  have undone: "sub s' (tp e) = sub s (tp e)" if "err \<noteq> None" "safe" "e \<in> set staged" for e
    using bspec [OF S(2) [OF that(1,2)] that(3)] F that by (auto simp: view_def)
  have quarantined: "s' = t" if "err \<noteq> None" "\<not> safe" using f that by (auto simp: r finish_restore_def)
  have "not_lost s s' e" if "err \<noteq> None" "e \<in> set staged" for e
    using undone [OF that(1) _ that(2)] quarantined [OF that(1)] S(1) that by (cases safe) (auto simp: not_lost_def kept_def)
  moreover have "res \<noteq> Inr ()" if "err \<noteq> None" using f that by (auto simp: r finish_restore_def split: prod.splits if_splits)
  ultimately show ?thesis using ok undone S(4) by (auto simp: r)
qed

text \<open>Example: a directory and a file that is to disappear, beside their quarantine.\<close>

definition an_inode :: "kind \<Rightarrow> nat \<Rightarrow> inode" where
  "an_inode k ino = \<lparr>in_kind = k, in_dev = 1, in_ino = ino, in_uid = 0, in_gid = 0, in_mode = 448, in_mtime = 5\<rparr>"

definition demo_fs :: files where
  "demo_fs = \<lparr>fs_tree = [([], an_inode KDir 1), ([''v''], an_inode KDir 2), ([''v'', ''d''], an_inode KDir 3), ([''v'', ''d'', ''x''], an_inode (KFile ''new'') 4),
     ([''v'', ''f''], an_inode (KFile ''extra'') 5), ([''v'', ''q''], an_inode KDir 6), ([''v'', ''q'', ''restored''], an_inode KDir 7),
     ([''v'', ''q'', ''restored'', ''x''], an_inode (KFile ''old'') 8), ([''v'', ''p''], an_inode KDir 9)],
     fs_calls = 0, fs_fault = (\<lambda>_. False), fs_rand = (\<lambda>n. of_nat n), fs_ino = 100, fs_time = 77, fs_euid = 0, fs_egid = 0\<rparr>"

definition demo_env :: backup_env where
  "demo_env = \<lparr>be_sha = (\<lambda>s. s), be_write = (\<lambda>es. ''T''), be_read = (\<lambda>s. ([], True)), be_manifest = (\<lambda>t h es. ''M''), be_home = None, be_linux = False\<rparr>"

definition demo_staged :: "staged_entry list" where
  "demo_staged =
     [\<lparr>se_manifest = \<lparr>me_Target = ''/v/d'', me_Exists = True, me_Kind = StateDirectory\<rparr>, se_container = ''/v/q'', se_staged = ''/v/q/restored'', se_rootSeen = True\<rparr>,
      \<lparr>se_manifest = \<lparr>me_Target = ''/v/f'', me_Exists = False, me_Kind = StateMissing\<rparr>, se_container = ''/v/p'', se_staged = ''/v/p/restored'', se_rootSeen = False\<rparr>]"

text \<open>A check of readiness that computes.\<close>

definition free :: "files \<Rightarrow> string list \<Rightarrow> bool" where
  "free s p \<longleftrightarrow> list_all (\<lambda>(q, _). \<not> prefix p q) (fs_tree s)"

lemma free_nothing: "free s p \<Longrightarrow> sub s p = nothing"
proof (rule ext)
  fix u assume "free s p"
  then have "p @ u \<notin> fst ` set (fs_tree s)" by (force simp: free_def list_all_iff)
  then show "sub s p u = None" by (simp add: sub_def look_def map_of_eq_None_iff)
qed

definition plain_dirs_of :: "files \<Rightarrow> string list \<Rightarrow> bool" where
  "plain_dirs_of s p \<longleftrightarrow> list_all (\<lambda>n. dir_at s (take n p)) [0..<length p]"

lemma plain_take: "plain_dirs_of s p \<Longrightarrow> plain s p"
proof -
  assume a: "plain_dirs_of s p"
  have "dir_at s q" if st: "strict_prefix q p" for q
  proof -
    obtain u where p: "p = q @ u" "u \<noteq> []" using st unfolding strict_prefix_def prefix_def by (metis append_Nil2)
    then have "length q \<in> set [0..<length p]" "q = take (length q) p" by auto
    with a show ?thesis unfolding plain_dirs_of_def list_all_iff by metis
  qed
  then show ?thesis by (simp add: plain_def)
qed

definition ready_check :: "files \<Rightarrow> staged_entry \<Rightarrow> bool" where
  "ready_check s e \<longleftrightarrow> shaped e \<and> parallel (tp e) (cp e) \<and> plain_dirs_of s (tp e) \<and> plain_dirs_of s (stp e) \<and> plain_dirs_of s (dsp e) \<and>
     free s (dsp e) \<and> (look s (tp e) = None \<longrightarrow> free s (tp e)) \<and> (me_Exists (se_manifest e) \<longleftrightarrow> me_Kind (se_manifest e) \<noteq> StateMissing) \<and>
     (\<not> me_Exists (se_manifest e) \<longrightarrow> free s (stp e)) \<and> (case look s (stp e) of None \<Rightarrow> True | Some i \<Rightarrow> \<not> symlink (in_kind i))"

lemma ready_list:
  assumes "list_all (ready_check s) es"
    and "list_all (\<lambda>e. list_all (\<lambda>f. e = f \<or> parallel (tp e) (tp f) \<and> parallel (cp e) (cp f) \<and> parallel (tp e) (cp f)) es) es"
  shows "ready (set es) s"
  using assms by (auto simp: ready_def apart_def list_all_iff ready_check_def placed_def plain_take free_nothing split: option.splits)

definition swapped_demo :: "(bool \<times> failure option) \<times> files" where "swapped_demo = swapStagedEntries demo_env demo_staged demo_fs"
definition restored_demo :: "(failure + unit) \<times> files" where "restored_demo = finish_restore demo_staged (fst swapped_demo) (snd swapped_demo)"

lemma demo_ready: "ready (set demo_staged) demo_fs"
  by (rule ready_list; code_simp)

lemma demo_outcome: "snd (fst swapped_demo) = None" "fst restored_demo = Inr ()"
  by code_simp+

theorem restore_swap_is_atomic_witness:
  "in_place demo_env demo_fs (snd restored_demo) (hd demo_staged) \<and> in_place demo_env demo_fs (snd restored_demo) (last demo_staged)"
proof -
  have "distinct demo_staged" by code_simp
  moreover have "hd demo_staged \<in> set demo_staged" "last demo_staged \<in> set demo_staged" by (simp_all add: demo_staged_def)
  moreover have "swapStagedEntries demo_env demo_staged demo_fs = (fst swapped_demo, snd swapped_demo)"
    "finish_restore demo_staged (fst swapped_demo) (snd swapped_demo) = (fst restored_demo, snd restored_demo)"
    by (simp_all add: swapped_demo_def restored_demo_def)
  ultimately show ?thesis
    using restore_swap_is_atomic [OF demo_ready, of demo_env "fst swapped_demo" "snd swapped_demo"] demo_outcome by blast
qed

end
