(* ===== verification/System_Service.thy ===== *)
theory System_Service
  imports Backup
begin

text \<open>
  How the updater finds and controls the service (\<open>internal/updater/system.go\<close>): the commands of the
  service manager, the definitions it reads for the service's binary and configuration, the health probe
  and the update lock. The command runner, the network, the XML tokens of a plist and \<open>flock\<close> are
  arguments.
\<close>

subsection \<open>Commands\<close>

definition SystemdServiceName :: string where "SystemdServiceName = ''runeconsole.service''"
definition LaunchdServiceName :: string where "LaunchdServiceName = ''system/com.cryptolabinc.runeconsole''"
definition DefaultBinaryPath :: string where "DefaultBinaryPath = ''/usr/local/bin/runeconsole''"
definition DefaultBackupDir :: string where "DefaultBackupDir = ''/var/backups/runeconsole''"
definition DefaultLaunchdPlist :: string where "DefaultLaunchdPlist = ''/Library/LaunchDaemons/com.cryptolabinc.runeconsole.plist''"

text \<open>A runner gives the output of a command, or says that it failed.\<close>

type_synonym runner = "string list \<Rightarrow> string option"

record system_service =
  ss_GOOS :: string
  ss_LaunchdPlist :: string

definition stop_command :: "system_service \<Rightarrow> string list option" where
  "stop_command s =
     (if ss_GOOS s = ''linux'' then Some [''systemctl'', ''stop'', SystemdServiceName]
      else if ss_GOOS s = ''darwin'' then Some [''launchctl'', ''bootout'', LaunchdServiceName]
      else None)"

definition start_command :: "system_service \<Rightarrow> string list option" where
  "start_command s =
     (if ss_GOOS s = ''linux'' then Some [''systemctl'', ''start'', SystemdServiceName]
      else if ss_GOOS s = ''darwin''
        then Some [''launchctl'', ''bootstrap'', ''system'', if ss_LaunchdPlist s = [] then DefaultLaunchdPlist else ss_LaunchdPlist s]
      else None)"

definition run_service :: "runner \<Rightarrow> string list option \<Rightarrow> failure option" where
  "run_service run c =
     (case c of
        None \<Rightarrow> Some (Fail ''unsupported service operating system'')
      | Some args \<Rightarrow> (case run args of None \<Rightarrow> Some (Fail (hd args @ '' command failed'')) | Some out \<Rightarrow> None))"

subsection \<open>The health probe\<close>

record health_probe =
  hp_HTTPURL :: string
  hp_TCPAddr :: string

text \<open>The answers of the network to one probe: the status of the request, and whether the dial succeeds.\<close>

definition healthy :: "health_probe \<Rightarrow> (string \<Rightarrow> nat option) \<Rightarrow> (string \<Rightarrow> bool) \<Rightarrow> bool" where
  "healthy p http dial =
     (if hp_HTTPURL p \<noteq> [] then (case http (hp_HTTPURL p) of None \<Rightarrow> False | Some status \<Rightarrow> 200 \<le> status \<and> status < 300)
      else if hp_TCPAddr p \<noteq> [] then dial (hp_TCPAddr p)
      else False)"

text \<open>Probes every half second until one is healthy or the time is up: \<open>n\<close> of them fit.\<close>

fun WaitHealthy :: "health_probe \<Rightarrow> (nat \<Rightarrow> string \<Rightarrow> nat option) \<Rightarrow> (nat \<Rightarrow> string \<Rightarrow> bool) \<Rightarrow> nat \<Rightarrow> nat \<Rightarrow> failure option" where
  "WaitHealthy p http dial k 0 = (if healthy p (http k) (dial k) then None else Some (Fail ''runeconsole health check timed out''))"
| "WaitHealthy p http dial k (Suc n) = (if healthy p (http k) (dial k) then None else WaitHealthy p http dial (Suc k) n)"

subsection \<open>Command lines\<close>

text \<open>Writing a rune: bytes that are no rune are written as the replacement character.\<close>

definition write_rune :: "nat \<times> string \<Rightarrow> string" where
  "write_rune rc = (case rc of (r, c) \<Rightarrow> if r = rune_error then [CHR 0xEF, CHR 0xBF, CHR 0xBD] else c)"

record word_state =
  ws_word :: string
  ws_words :: "string list"
  ws_quote :: nat
  ws_escaped :: bool

definition flush_word :: "word_state \<Rightarrow> word_state" where
  "flush_word w = (if ws_word w = [] then w else w\<lparr>ws_words := ws_words w @ [ws_word w], ws_word := []\<rparr>)"

definition word_step :: "word_state \<Rightarrow> nat \<times> string \<Rightarrow> word_state" where
  "word_step w rc =
     (let r = fst rc; add = w\<lparr>ws_word := ws_word w @ write_rune rc\<rparr>
      in if ws_escaped w then add\<lparr>ws_escaped := False\<rparr>
         else if r = 92 then w\<lparr>ws_escaped := True\<rparr>
         else if ws_quote w \<noteq> 0 then (if r = ws_quote w then w\<lparr>ws_quote := 0\<rparr> else add)
         else if r = 39 \<or> r = 34 then w\<lparr>ws_quote := r\<rparr>
         else if r = 32 \<or> r = 9 then flush_word w
         else add)"

definition splitCommandWords :: "string \<Rightarrow> string list" where
  "splitCommandWords command =
     ws_words (flush_word (foldl word_step \<lparr>ws_word = [], ws_words = [], ws_quote = 0, ws_escaped = False\<rparr> (rune_chunks (trim_space command))))"

definition trim_prefix :: "string \<Rightarrow> string \<Rightarrow> string" where
  "trim_prefix p s = (if has_prefix s p then drop (length p) s else s)"

definition trim_left :: "string \<Rightarrow> string \<Rightarrow> string" where
  "trim_left cutset s = dropWhile (\<lambda>c. c \<in> set cutset) s"

definition trim_both :: "string \<Rightarrow> string \<Rightarrow> string" where
  "trim_both cutset s = rev (trim_left cutset (rev (trim_left cutset s)))"

fun configArgument :: "string list \<Rightarrow> string" where
  "configArgument [] = []"
| "configArgument (a # as) =
     (if a = ''--config'' \<and> as \<noteq> [] then hd as
      else if has_prefix a ''--config='' then trim_prefix ''--config='' a
      else configArgument as)"

subsection \<open>Service definitions\<close>

record service_descriptor =
  sd_binaryPath :: string
  sd_configPath :: string

definition no_descriptor :: service_descriptor where
  "no_descriptor = \<lparr>sd_binaryPath = [], sd_configPath = []\<rparr>"

definition unit_prefixes :: string where "unit_prefixes = ''-@:+!''"

text \<open>The text behind the first occurrence of a marker, and the text before the first of some characters.\<close>

fun after_marker :: "string \<Rightarrow> string \<Rightarrow> string option" where
  "after_marker m [] = (if m = [] then Some [] else None)"
| "after_marker m (c # cs) = (if has_prefix (c # cs) m then Some (drop (length m) (c # cs)) else after_marker m cs)"

fun before_str :: "string \<Rightarrow> string \<Rightarrow> string" where
  "before_str m [] = []"
| "before_str m (c # cs) = (if has_prefix (c # cs) m then [] else c # before_str m cs)"

definition descriptorFromSystemctl :: "string \<Rightarrow> service_descriptor" where
  "descriptorFromSystemctl output =
     (let binary = (case after_marker ''path='' output of
            None \<Rightarrow> []
          | Some rest \<Rightarrow> let p = takeWhile (\<lambda>c. c \<notin> set ('' ;'' @ [CHR 0x0A, CHR 0x09])) rest in if IsAbs p then p else [])
      in case after_marker ''argv[]='' output of
           None \<Rightarrow> \<lparr>sd_binaryPath = binary, sd_configPath = []\<rparr>
         | Some rest \<Rightarrow>
             let words = splitCommandWords (before_str '' ;'' rest)
             in \<lparr>sd_binaryPath = (if binary = [] \<and> words \<noteq> [] then trim_left unit_prefixes (hd words) else binary),
                 sd_configPath = configArgument words\<rparr>)"

definition parseSystemctlExecStart :: "string \<Rightarrow> string" where
  "parseSystemctlExecStart output = sd_binaryPath (descriptorFromSystemctl output)"

definition unit_line :: "string \<Rightarrow> bool" where
  "unit_line l \<longleftrightarrow> has_prefix (trim_space l) ''ExecStart=''"

text \<open>The first \<open>ExecStart\<close> of a unit file; lines have at most 64 KiB.\<close>

definition unit_descriptor :: "string \<Rightarrow> failure + service_descriptor" where
  "unit_descriptor text =
     (case scan_lines (64 * 1024) text of
        (ls, ok) \<Rightarrow>
          (case filter unit_line ls of
             [] \<Rightarrow> if ok then Inr no_descriptor else Inl (Fail ''bufio.Scanner: token too long'')
           | l # _ \<Rightarrow>
               let words = splitCommandWords (trim_prefix ''ExecStart='' (trim_space l))
               in if words = [] then Inl (Fail ''empty ExecStart'')
                  else Inr \<lparr>sd_binaryPath = trim_left unit_prefixes (hd words), sd_configPath = configArgument words\<rparr>))"

definition descriptorFromSystemdUnit :: "string \<Rightarrow> service_descriptor io" where
  "descriptorFromSystemdUnit path =
     io_bind (io_sys (ReadFile path)) (\<lambda>text. case unit_descriptor text of Inl e \<Rightarrow> io_fail e | Inr d \<Rightarrow> io_return d)"

definition binaryFromSystemdUnit :: "string \<Rightarrow> string io" where
  "binaryFromSystemdUnit path = io_bind (descriptorFromSystemdUnit path) (\<lambda>d. io_return (sd_binaryPath d))"

definition firstCommandWord :: "string \<Rightarrow> string" where
  "firstCommandWord command =
     (let words = splitCommandWords command in if words = [] then [] else trim_left unit_prefixes (hd words))"

text \<open>The lines of \<open>launchctl print\<close>.\<close>

record launch_state =
  ps_binary :: string
  ps_arguments :: "string list"
  ps_inArguments :: bool

definition print_step :: "launch_state \<Rightarrow> string \<Rightarrow> launch_state" where
  "print_step p rawLine =
     (let line = trim_space rawLine; quotes = [CHR 0x22]
      in if has_prefix line ''program = '' then p\<lparr>ps_binary := trim_both quotes (trim_prefix ''program = '' line)\<rparr>
         else if line = ''arguments = {'' then p\<lparr>ps_inArguments := True\<rparr>
         else if ps_inArguments p \<and> line = ''}'' then p\<lparr>ps_inArguments := False\<rparr>
         else if ps_inArguments p \<and> line \<noteq> [] then p\<lparr>ps_arguments := ps_arguments p @ [trim_both quotes line]\<rparr>
         else p)"

definition descriptorFromLaunchctlPrint :: "string \<Rightarrow> service_descriptor" where
  "descriptorFromLaunchctlPrint output =
     (let p = foldl print_step \<lparr>ps_binary = [], ps_arguments = [], ps_inArguments = False\<rparr> (split_byte newline output)
      in \<lparr>sd_binaryPath = (if ps_binary p = [] \<and> ps_arguments p \<noteq> [] then hd (ps_arguments p) else ps_binary p),
          sd_configPath = configArgument (ps_arguments p)\<rparr>)"

text \<open>The tokens of a plist; \<open>key\<close> and \<open>string\<close> elements come with their text, which decoding them consumes.\<close>

datatype xml_token = XKey string | XArray | XString string | XEndArray | XOther

record plist_state =
  pl_wantArray :: bool
  pl_inArray :: bool
  pl_arguments :: "string list"

fun plist_arguments :: "plist_state \<Rightarrow> xml_token list \<Rightarrow> string list" where
  "plist_arguments p [] = pl_arguments p"
| "plist_arguments p (XKey k # ts) = plist_arguments (p\<lparr>pl_wantArray := (trim_space k = ''ProgramArguments'')\<rparr>) ts"
| "plist_arguments p (XArray # ts) =
     plist_arguments (if pl_wantArray p then p\<lparr>pl_inArray := True, pl_wantArray := False\<rparr> else p) ts"
| "plist_arguments p (XString t # ts) =
     plist_arguments (if pl_inArray p then p\<lparr>pl_arguments := pl_arguments p @ [trim_space t]\<rparr> else p) ts"
| "plist_arguments p (XEndArray # ts) = (if pl_inArray p then pl_arguments p else plist_arguments p ts)"
| "plist_arguments p (XOther # ts) = plist_arguments p ts"

definition plist_descriptor :: "xml_token list \<Rightarrow> service_descriptor" where
  "plist_descriptor ts =
     (let arguments = plist_arguments \<lparr>pl_wantArray = False, pl_inArray = False, pl_arguments = []\<rparr> ts
      in if arguments = [] then no_descriptor else \<lparr>sd_binaryPath = hd arguments, sd_configPath = configArgument arguments\<rparr>)"

definition descriptorFromLaunchdPlist :: "(string \<Rightarrow> xml_token list option) \<Rightarrow> string \<Rightarrow> service_descriptor io" where
  "descriptorFromLaunchdPlist xml path =
     io_bind (io_sys (ReadFile path)) (\<lambda>text.
       case xml text of None \<Rightarrow> io_fail (Fail ''XML syntax error'') | Some ts \<Rightarrow> io_return (plist_descriptor ts))"

definition binaryFromLaunchdPlist :: "(string \<Rightarrow> xml_token list option) \<Rightarrow> string \<Rightarrow> string io" where
  "binaryFromLaunchdPlist xml path = io_bind (descriptorFromLaunchdPlist xml path) (\<lambda>d. io_return (sd_binaryPath d))"

subsection \<open>The binary of the service\<close>

definition canonicalExistingFile :: "string \<Rightarrow> string io" where
  "canonicalExistingFile path =
     io_bind (io_check (path \<noteq> [] \<and> IsAbs path) (Fail ''path must be absolute'')) (\<lambda>_.
     io_bind (io_sys (EvalSymlinks path)) (\<lambda>resolved.
     io_bind (or_fail (Stat resolved) (Fail ''path is not a regular file'')) (\<lambda>info.
     io_bind (io_check (regular (in_kind info)) (Fail ''path is not a regular file'')) (\<lambda>_. io_return (Clean resolved)))))"

definition canonicalExistingBinary :: "string \<Rightarrow> string io" where
  "canonicalExistingBinary path =
     io_bind (io_check (path \<noteq> [] \<and> IsAbs path) (Fail ''runeconsole binary path must be absolute'')) (\<lambda>_.
     io_bind (or_fail (EvalSymlinks path) (Fail ''runeconsole binary path does not exist'')) (\<lambda>resolved.
     let bad = Fail ''runeconsole binary path is not an executable regular file'' in
     io_bind (or_fail (Stat resolved) bad) (\<lambda>info.
     io_bind (io_check (regular (in_kind info) \<and> has_bits (perm info) 73) bad) (\<lambda>_. io_return (Clean resolved)))))"

definition descriptorsReferToSameFiles :: "service_descriptor \<Rightarrow> service_descriptor \<Rightarrow> files \<Rightarrow> bool \<times> files" where
  "descriptorsReferToSameFiles a b s =
     (case canonicalExistingBinary (sd_binaryPath a) s of (ab, s) \<Rightarrow>
      case canonicalExistingBinary (sd_binaryPath b) s of (bb, s) \<Rightarrow>
      case canonicalExistingFile (sd_configPath a) s of (ac, s) \<Rightarrow>
      case canonicalExistingFile (sd_configPath b) s of (bc, s) \<Rightarrow>
        (case (ab, bb, ac, bc) of (Inr x, Inr y, Inr c, Inr d) \<Rightarrow> x = y \<and> c = d | _ \<Rightarrow> False, s))"

record resolution =
  ro_GOOS :: string
  ro_ExplicitPath :: string
  ro_ExecutablePath :: string
  ro_ExpectedConfigPath :: string
  ro_SystemdUnitPaths :: "string list"
  ro_LaunchdPlistPaths :: "string list"

definition complete :: "service_descriptor \<Rightarrow> bool" where
  "complete d \<longleftrightarrow> sd_binaryPath d \<noteq> [] \<and> sd_configPath d \<noteq> []"

text \<open>The first path whose definition is complete.\<close>

fun first_complete :: "(string \<Rightarrow> service_descriptor io) \<Rightarrow> service_descriptor \<Rightarrow> string list \<Rightarrow> service_descriptor io" where
  "first_complete f d [] = io_return d"
| "first_complete f d (p # ps) =
     io_bind (io_try (f p)) (\<lambda>r. case r of Inr c \<Rightarrow> if complete c then io_return c else first_complete f d ps | Inl _ \<Rightarrow> first_complete f d ps)"

definition find_descriptor :: "runner \<Rightarrow> (string \<Rightarrow> xml_token list option) \<Rightarrow> resolution \<Rightarrow> service_descriptor io" where
  "find_descriptor run xml ro =
     (if ro_GOOS ro = ''linux'' then
        let d = (case run [''systemctl'', ''show'', ''--property=ExecStart'', ''--value'', SystemdServiceName] of
              None \<Rightarrow> no_descriptor | Some out \<Rightarrow> descriptorFromSystemctl out)
        in if complete d then io_return d else first_complete descriptorFromSystemdUnit d (ro_SystemdUnitPaths ro)
      else if ro_GOOS ro = ''darwin'' then
        (case run [''launchctl'', ''print'', LaunchdServiceName] of
           None \<Rightarrow> io_fail (Fail ''could not inspect the loaded runeconsole launchd job'')
         | Some out \<Rightarrow>
             let loaded = descriptorFromLaunchctlPrint out in
             io_bind (io_check (complete loaded) (Fail ''loaded runeconsole launchd job has no identifiable program or --config'')) (\<lambda>_.
             io_bind (first_complete (descriptorFromLaunchdPlist xml) no_descriptor
               (if ro_LaunchdPlistPaths ro = [] then [DefaultLaunchdPlist] else ro_LaunchdPlistPaths ro)) (\<lambda>d. \<lambda>s.
             case (if complete d then descriptorsReferToSameFiles d loaded s else (False, s)) of
               (same, s) \<Rightarrow> if same then (Inr d, s) else (Inl (Fail ''loaded launchd job does not match the installed runeconsole plist''), s))))
      else io_fail (Fail ''unsupported update operating system''))"

definition ResolveServiceBinary :: "runner \<Rightarrow> (string \<Rightarrow> xml_token list option) \<Rightarrow> resolution \<Rightarrow> string io" where
  "ResolveServiceBinary run xml ro =
     (let explicit = (ro_ExplicitPath ro \<noteq> []); mismatch = Fail ''the service --config path does not match the config selected for update'' in
     io_bind (find_descriptor run xml ro) (\<lambda>d.
     io_bind (io_check (complete d) (Fail ''could not identify the runeconsole service binary and --config argument'')) (\<lambda>_.
     io_bind (or_fail (canonicalExistingFile (sd_configPath d)) (Fail ''service definition has an invalid --config path'')) (\<lambda>serviceConfig.
     io_bind (io_check (ro_ExpectedConfigPath ro \<noteq> []) (Fail ''expected runeconsole config path is required'')) (\<lambda>_.
     io_bind (or_fail (canonicalExistingFile (ro_ExpectedConfigPath ro)) mismatch) (\<lambda>expectedConfig.
     io_bind (io_check (expectedConfig = serviceConfig) mismatch) (\<lambda>_.
     let target = (if explicit then ro_ExplicitPath ro else sd_binaryPath d) in
     io_bind (io_check (target \<noteq> [] \<and> IsAbs target) (Fail ''could not identify an absolute runeconsole service binary; use --binary-path'')) (\<lambda>_.
     io_bind (canonicalExistingBinary target) (\<lambda>target.
     if explicit then
       io_bind (or_fail (canonicalExistingBinary (sd_binaryPath d)) (Fail ''identified service binary is unsafe'')) (\<lambda>serviceTarget.
       io_bind (io_check (serviceTarget = target) (Fail ''--binary-path does not match the service definition'')) (\<lambda>_. io_return target))
     else
       io_bind (or_fail (canonicalExistingBinary (ro_ExecutablePath ro)) (Fail ''could not identify the running runeconsole executable; use --binary-path'')) (\<lambda>running.
       io_bind (io_check (running = target)
         (Fail ''the invoked executable is not the service binary; run the installed binary or pass --binary-path explicitly'')) (\<lambda>_. io_return target)))))))))))"

subsection \<open>The update lock\<close>

datatype flock = Locked | WouldBlock | LockFails

definition lock_file :: "string \<Rightarrow> unit io" where
  "lock_file path s =
     (case Lstat path s of
        (Inl ENOENT, s) \<Rightarrow> or_fail (CreateExcl path 384) (Fail ''open update lock failed'') s
      | (Inl _, s) \<Rightarrow> (Inl (Fail ''open update lock failed''), s)
      | (Inr info, s) \<Rightarrow>
          (if symlink (in_kind info) \<or> is_dir info then Inl (Fail ''open update lock failed'') else Inr (), s))"

definition Lock :: "flock \<Rightarrow> string \<Rightarrow> unit io" where
  "Lock fl lockPath =
     (case cleanAbsolute lockPath of
        None \<Rightarrow> io_fail (Fail ''update lock path must be absolute'')
      | Some requestedPath \<Rightarrow>
     io_bind (or_fail (canonicalizePath (Dir requestedPath)) (Fail ''resolve update lock directory failed'')) (\<lambda>canonicalParent.
     let path = Join canonicalParent (Base requestedPath); dir = Dir path in
     io_bind (or_fail (MkdirAll dir 448) (Fail ''create update lock directory failed'')) (\<lambda>_.
     io_bind (or_fail (Lstat dir) (Fail ''update lock directory is unsafe'')) (\<lambda>dirInfo.
     io_bind (io_check (is_dir dirInfo) (Fail ''update lock directory is unsafe'')) (\<lambda>_. \<lambda>s.
     io_bind (io_check (in_uid dirInfo = fs_euid s \<and> \<not> group_world_writable dirInfo)
       (Fail ''update lock directory must be updater-owned and not group/world writable'')) (\<lambda>_.
     io_bind (validateSecureAncestors dir) (\<lambda>_.
     io_bind (or_fail (Chmod dir 448) (Fail ''secure update lock directory failed'')) (\<lambda>_.
     io_bind (lock_file path) (\<lambda>_.
     io_bind (or_fail (Lstat path) (Fail ''update lock file is unsafe'')) (\<lambda>lockInfo.
     io_bind (io_check (regular (in_kind lockInfo)) (Fail ''update lock file is unsafe'')) (\<lambda>_.
     io_bind (io_check (in_uid lockInfo = fs_euid s \<and> \<not> group_world_writable lockInfo)
       (Fail ''update lock file must be updater-owned and not group/world writable'')) (\<lambda>_.
     io_bind (or_fail (Chmod path 384) (Fail ''secure update lock failed'')) (\<lambda>_.
     case fl of
       Locked \<Rightarrow> io_return ()
     | WouldBlock \<Rightarrow> io_fail (Fail ''another runeconsole update is already running'')
     | LockFails \<Rightarrow> io_fail (Fail ''acquire update lock failed''))))))))) s)))))"

end
