(* ===== verification/Release.thy ===== *)
theory Release
  imports Restore System_Service
begin

text \<open>
  Finding, downloading and verifying a release (\<open>internal/updater/release.go\<close>). Arguments of the model
  are the HTTP transport, the JSON decoder of the release metadata, decompression and the tar reader, the
  reader of Go build information, and the temporary directory.
\<close>

record http_reply =
  hr_Status :: nat
  hr_ContentLength :: int
  hr_Body :: string
  hr_Complete :: bool

record release_env =
  re_env :: backup_env
  re_get :: "string \<Rightarrow> string + http_reply"
  re_tag :: "string \<Rightarrow> string option"
  re_gunzip :: "string \<Rightarrow> (tar_entry list \<times> bool) option"
  re_buildinfo :: "string \<Rightarrow> (string \<times> string) list option"
  re_tmp :: string

record release =
  rl_Version :: string
  rl_ArchivePath :: string
  rl_ChecksumsPath :: string
  rl_Cleanup :: string

definition defaultRepository :: string where "defaultRepository = ''CryptoLabInc/rune-console''"
definition maxArchiveBytes :: int where "maxArchiveBytes = 512 * 2 ^ 20"
definition maxMetadataBytes :: int where "maxMetadataBytes = 2 * 2 ^ 20"

subsection \<open>Sources\<close>

definition ValidatePlatform :: "string \<Rightarrow> string \<Rightarrow> bool" where
  "ValidatePlatform goos goarch \<longleftrightarrow>
     goos = ''linux'' \<and> (goarch = ''amd64'' \<or> goarch = ''arm64'') \<or> goos = ''darwin'' \<and> goarch = ''arm64''"

definition platform_error :: failure where
  "platform_error = Fail ''release artifacts are unavailable for this platform''"

record local_source =
  ls_ArchivePath :: string
  ls_ChecksumsPath :: string
  ls_Version :: string

definition LocalSource_Resolve :: "local_source \<Rightarrow> string \<Rightarrow> failure + release" where
  "LocalSource_Resolve s requested =
     (let found = Inr \<lparr>rl_Version = ls_Version s, rl_ArchivePath = ls_ArchivePath s, rl_ChecksumsPath = ls_ChecksumsPath s, rl_Cleanup = []\<rparr>
      in if ls_ArchivePath s = [] \<or> ls_ChecksumsPath s = [] \<or> ls_Version s = []
           then Inl (Fail ''offline update requires archive, checksums, and version'')
         else if requested = [] then found
         else case ParseVersion requested of
           Inl _ \<Rightarrow> Inl (Fail ''invalid requested version'')
         | Inr a \<Rightarrow>
             (case ParseVersion (ls_Version s) of
                Inl _ \<Rightarrow> Inl (Fail ''invalid offline version'')
              | Inr b \<Rightarrow> if version_Compare a b \<noteq> 0 then Inl (Fail ''offline version does not match requested version'') else found))"

record github_source =
  gs_Repository :: string
  gs_APIBaseURL :: string
  gs_WebBaseURL :: string

definition trim_slashes :: "string \<Rightarrow> string" where
  "trim_slashes s = rev (dropWhile (\<lambda>c. c = slash) (rev s))"

definition or_default :: "string \<Rightarrow> string \<Rightarrow> string" where
  "or_default s d = (if s = [] then d else s)"

text \<open>\<open>url.PathEscape\<close>\<close>

definition upper_hex :: "nat \<Rightarrow> char" where
  "upper_hex n = char_of (if n < 10 then 48 + n else 55 + n)"

definition path_safe :: "char \<Rightarrow> bool" where
  "path_safe c \<longleftrightarrow> (CHR ''a'' \<le> c \<and> c \<le> CHR ''z'') \<or> (CHR ''A'' \<le> c \<and> c \<le> CHR ''Z'') \<or> is_digit c \<or> c \<in> set ''-_.~$&+:=@''"

definition PathEscape :: "string \<Rightarrow> string" where
  "PathEscape s = concat (map (\<lambda>c. if path_safe c then [c] else CHR ''%'' # [upper_hex (of_char c div 16), upper_hex (of_char c mod 16)]) s)"

definition getJSON :: "release_env \<Rightarrow> string \<Rightarrow> failure + string" where
  "getJSON re endpoint =
     (case re_get re endpoint of
        Inl e \<Rightarrow> Inl (Fail e)
      | Inr r \<Rightarrow>
          if hr_Status r < 200 \<or> 300 \<le> hr_Status r then Inl (Fail (''server returned HTTP '' @ fmt_int 1 (int (hr_Status r))))
          else if maxMetadataBytes < hr_ContentLength r then Inl (Fail ''metadata exceeds size limit'')
          else if \<not> hr_Complete r \<and> int (length (hr_Body r)) \<le> maxMetadataBytes then Inl (Fail ''unexpected EOF'')
          else if maxMetadataBytes < int (length (hr_Body r)) then Inl (Fail ''metadata exceeds size limit'')
          else case re_tag re (hr_Body r) of None \<Rightarrow> Inl (Fail ''invalid JSON'') | Some tag \<Rightarrow> Inr tag)"

text \<open>The tag of the latest stable release must be canonical.\<close>

definition LatestVersion :: "release_env \<Rightarrow> github_source \<Rightarrow> failure + string" where
  "LatestVersion re s =
     (let endpoint = or_default (trim_slashes (gs_APIBaseURL s)) ''https://api.github.com'' @ ''/repos/'' @
            or_default (gs_Repository s) defaultRepository @ ''/releases/latest''
      in case getJSON re endpoint of
           Inl e \<Rightarrow> Inl (FailWith ''resolve latest GitHub release'' e)
         | Inr tag \<Rightarrow>
             let raw = trim_space tag
             in case ParseVersion raw of
                  Inl _ \<Rightarrow> Inl (Fail ''latest GitHub release has a non-canonical version tag'')
                | Inr v \<Rightarrow> if version_String v \<noteq> raw then Inl (Fail ''latest GitHub release has a non-canonical version tag'') else Inr raw)"

text \<open>The body is cut one byte beyond the limit; a body that breaks off before is an error of the copy.\<close>

definition downloadFile :: "release_env \<Rightarrow> string \<Rightarrow> string \<Rightarrow> int \<Rightarrow> unit io" where
  "downloadFile re endpoint destination limit =
     (case re_get re endpoint of
        Inl e \<Rightarrow> io_fail (Fail e)
      | Inr r \<Rightarrow>
     io_bind (io_check (200 \<le> hr_Status r \<and> hr_Status r < 300) (Fail (''server returned HTTP '' @ fmt_int 1 (int (hr_Status r))))) (\<lambda>_.
     io_bind (io_check (hr_ContentLength r \<le> limit) (Fail ''download exceeds size limit'')) (\<lambda>_.
     io_bind (or_fail (CreateExcl destination 384) (Fail ''create downloaded release file failed'')) (\<lambda>_.
     let body = take (nat limit + 1) (hr_Body r); broken = Fail ''write downloaded release file'' in
     io_bind (or_fail (WriteAll destination body) broken) (\<lambda>_.
     io_bind (or_fail (Sync destination) broken) (\<lambda>_.
     io_bind (or_fail Close broken) (\<lambda>_.
     io_bind (io_check (hr_Complete r \<or> limit < int (length (hr_Body r))) broken) (\<lambda>_.
     io_check (int (length body) \<le> limit) (Fail ''download exceeds size limit'')))))))))"

definition private_workspace :: "release_env \<Rightarrow> string \<Rightarrow> string \<Rightarrow> string \<Rightarrow> string io" where
  "private_workspace re pat create secure =
     io_bind (or_fail (MkdirTemp (re_tmp re) pat) (Fail create)) (\<lambda>dir.
     io_bind (on_fail (or_fail (Chmod dir 448) (Fail secure)) (removePrivateTree dir)) (\<lambda>_. io_return dir))"

definition GitHubSource_Resolve :: "release_env \<Rightarrow> github_source \<Rightarrow> string \<Rightarrow> string \<Rightarrow> string \<Rightarrow> release io" where
  "GitHubSource_Resolve re s requested goos goarch =
     (let repository = or_default (gs_Repository s) defaultRepository;
          webBase = or_default (trim_slashes (gs_WebBaseURL s)) ''https://github.com''
      in case (if requested = [] then LatestVersion re s else Inr requested) of
           Inl e \<Rightarrow> io_fail e
         | Inr version \<Rightarrow>
     let version = trim_space version in
     io_bind (io_check (case ParseVersion version of Inl _ \<Rightarrow> False | Inr _ \<Rightarrow> True) (Fail ''invalid GitHub release version'')) (\<lambda>_.
     io_bind (io_check (ValidatePlatform goos goarch) platform_error) (\<lambda>_.
     io_bind (private_workspace re ''runeconsole-release-'' ''create private release workspace failed'' ''secure release workspace failed'') (\<lambda>dir.
     let archiveName = ''runeconsole_'' @ version @ ''_'' @ goos @ ''_'' @ goarch @ ''.tar.gz'';
         archivePath = Join dir archiveName; checksumsPath = Join dir ''SHA256SUMS'';
         base = webBase @ ''/'' @ repository @ ''/releases/download/'' @ PathEscape version in
     on_fail
       (io_bind (fail_with (downloadFile re (base @ ''/'' @ PathEscape archiveName) archivePath maxArchiveBytes) (FailWith ''download release archive'')) (\<lambda>_.
        io_bind (fail_with (downloadFile re (base @ ''/SHA256SUMS'') checksumsPath maxMetadataBytes) (FailWith ''download release checksums'')) (\<lambda>_.
        io_return \<lparr>rl_Version = version, rl_ArchivePath = archivePath, rl_ChecksumsPath = checksumsPath, rl_Cleanup = dir\<rparr>)))
       (removePrivateTree dir)))))"

subsection \<open>Verification of the archive\<close>

definition is_hex_digit :: "char \<Rightarrow> bool" where
  "is_hex_digit c \<longleftrightarrow> is_digit c \<or> CHR ''a'' \<le> c \<and> c \<le> CHR ''f'' \<or> CHR ''A'' \<le> c \<and> c \<le> CHR ''F''"

definition lists_file :: "string \<Rightarrow> string \<Rightarrow> bool" where
  "lists_file name line \<longleftrightarrow> (let fs = Fields line in
     length fs = 2 \<and> (let listed = trim_prefix ''*'' (fs ! 1) in listed = name \<or> Base listed = name))"

text \<open>The first line for the file decides.\<close>

definition checksum_in :: "string \<Rightarrow> string \<Rightarrow> failure + string" where
  "checksum_in text name =
     (case scan_lines (64 * 1024) (take (nat maxMetadataBytes + 1) text) of
        (ls, ok) \<Rightarrow>
          (case filter (lists_file name) ls of
             l # _ \<Rightarrow>
               let sum = Fields l ! 0
               in if length sum \<noteq> 64 \<or> \<not> list_all is_hex_digit sum then Inl (Fail ''invalid SHA-256 checksum'')
                  else Inr (map fold_ascii sum)
           | [] \<Rightarrow> Inl (Fail (if ok then ''release archive is not listed in SHA256SUMS'' else ''bufio.Scanner: token too long''))))"

definition checksumForFile :: "string \<Rightarrow> string \<Rightarrow> string io" where
  "checksumForFile checksumsPath name =
     io_bind (or_fail (ReadFile checksumsPath) (Fail ''open SHA256SUMS failed'')) (\<lambda>text.
       case checksum_in text name of Inl e \<Rightarrow> io_fail e | Inr c \<Rightarrow> io_return c)"

definition StageVerifiedArchive :: "release_env \<Rightarrow> string \<Rightarrow> string \<Rightarrow> (string \<times> string) io" where
  "StageVerifiedArchive re archivePath checksumsPath =
     io_bind (or_fail (Stat archivePath) (Fail ''open release archive failed'')) (\<lambda>info.
     io_bind (io_check (regular (in_kind info)) (Fail ''release archive is not a regular file'')) (\<lambda>_.
     io_bind (or_fail (ReadFile archivePath) (Fail ''open release archive failed'')) (\<lambda>data.
     io_bind (io_check (int (length data) \<le> maxArchiveBytes) (Fail ''release archive exceeds size limit'')) (\<lambda>_.
     io_bind (fail_with (checksumForFile checksumsPath (Base archivePath)) (FailWith ''read release checksum'')) (\<lambda>want.
     io_bind (private_workspace re ''runeconsole-verified-'' ''create private verification workspace failed'' ''secure verification workspace failed'') (\<lambda>dir.
     let destination = Join dir (Base archivePath); broken = Fail ''stage release archive'' in
     on_fail
       (io_bind (or_fail (CreateExcl destination 384) (Fail ''create staged release archive failed'')) (\<lambda>_.
        io_bind (or_fail (WriteAll destination data) broken) (\<lambda>_.
        io_bind (or_fail (Sync destination) broken) (\<lambda>_.
        io_bind (or_fail Close broken) (\<lambda>_.
        io_bind (io_check (same_hex (be_sha (re_env re) data) want)
          (Fail ''release archive SHA-256 checksum does not match SHA256SUMS'')) (\<lambda>_.
        io_return (dir, destination)))))))
       (removePrivateTree dir)))))))"

definition VerifyArchiveChecksum :: "release_env \<Rightarrow> string \<Rightarrow> string \<Rightarrow> unit io" where
  "VerifyArchiveChecksum re archivePath checksumsPath s =
     (case StageVerifiedArchive re archivePath checksumsPath s of
        (Inl e, s) \<Rightarrow> (Inl e, s)
      | (Inr (dir, _), s) \<Rightarrow> (Inr (), removePrivateTree dir s))"

subsection \<open>The candidate\<close>

definition candidate_name :: "string \<Rightarrow> bool" where
  "candidate_name n \<longleftrightarrow> n = ''runeconsole'' \<or> n = ''./runeconsole''"

text \<open>The binary in the archive: one regular file of a sensible size.\<close>

fun candidate_in :: "bool \<Rightarrow> string \<Rightarrow> tar_entry list \<Rightarrow> bool \<Rightarrow> bool io" where
  "candidate_in found destination [] whole =
     (if whole then io_return found else io_fail (Fail ''read release archive failed''))"
| "candidate_in found destination (hdr # hdrs) whole =
     (if \<not> candidate_name (th_Name hdr) then candidate_in found destination hdrs whole
      else if found then io_fail (Fail ''release archive contains multiple runeconsole binaries'')
      else if th_Typeflag hdr \<noteq> TypeReg then io_fail (Fail ''release archive runeconsole entry is not a regular file'')
      else if th_Size hdr \<le> 0 \<or> maxArchiveBytes < th_Size hdr then io_fail (Fail ''release binary has an invalid size'')
      else
        let broken = Fail ''extract candidate binary'' in
        io_bind (or_fail (CreateExcl destination 448) (Fail ''create candidate binary failed'')) (\<lambda>_.
        io_bind (or_fail (WriteAll destination (take (nat (th_Size hdr)) (th_Data hdr))) broken) (\<lambda>_.
        io_bind (or_fail (Sync destination) broken) (\<lambda>_.
        io_bind (or_fail Close broken) (\<lambda>_.
        io_bind (io_check (th_Size hdr \<le> int (length (th_Data hdr))) broken) (\<lambda>_.
        candidate_in True destination hdrs whole))))))"

definition ExtractCandidate :: "release_env \<Rightarrow> string \<Rightarrow> (string \<times> string) io" where
  "ExtractCandidate re archivePath =
     io_bind (private_workspace re ''runeconsole-candidate-'' ''create private candidate workspace failed'' ''secure candidate workspace failed'') (\<lambda>dir.
     let destination = Join dir ''runeconsole'' in
     on_fail
       (io_bind (or_fail (ReadFile archivePath) (Fail ''open release archive failed'')) (\<lambda>data.
        case re_gunzip re data of
          None \<Rightarrow> io_fail (Fail ''release archive is not valid gzip'')
        | Some (hdrs, whole) \<Rightarrow>
            io_bind (candidate_in False destination hdrs whole) (\<lambda>found.
            io_bind (or_fail Close (Fail ''close release archive failed'')) (\<lambda>_.
            io_bind (io_check found (Fail ''release archive does not contain runeconsole'')) (\<lambda>_. io_return (dir, destination))))))
       (removePrivateTree dir))"

definition version_variable :: string where
  "version_variable = ''github.com/CryptoLabInc/rune-console/internal/commands.buildVersion''"

text \<open>The last value that the linker flags assign to the variable.\<close>

fun assigned_version :: "string \<Rightarrow> string \<Rightarrow> string list \<Rightarrow> string" where
  "assigned_version v reported [] = reported"
| "assigned_version v reported (w # ws) =
     (let assign = (\<lambda>a. if has_prefix a (v @ ''='') then trim_prefix (v @ ''='') a else reported)
      in if w = ''-X'' \<and> ws \<noteq> [] then assigned_version v (assign (hd ws)) (List.tl ws)
         else if has_prefix w ''-X='' then assigned_version v (assign (trim_prefix ''-X='' w)) ws
         else assigned_version v reported ws)"

definition setting :: "(string \<times> string) list \<Rightarrow> string \<Rightarrow> string" where
  "setting settings k = (case map_of (rev settings) k of None \<Rightarrow> [] | Some v \<Rightarrow> v)"

definition zero_version :: version where
  "zero_version = \<lparr>v_Major = 0, v_Minor = 0, v_Patch = 0, v_Pre = []\<rparr>"

definition Verify :: "release_env \<Rightarrow> string \<Rightarrow> string \<Rightarrow> string \<Rightarrow> string \<Rightarrow> unit io" where
  "Verify re candidatePath expectedVersion expectedOS expectedArch =
     io_bind (or_fail (ReadFile candidatePath) (Fail ''candidate is not a readable Go executable'')) (\<lambda>data.
     case re_buildinfo re data of
       None \<Rightarrow> io_fail (Fail ''candidate is not a readable Go executable'')
     | Some settings \<Rightarrow>
     io_bind (io_check (setting settings ''GOOS'' = expectedOS \<and> setting settings ''GOARCH'' = expectedArch)
       (Fail ''candidate build platform does not match this host'')) (\<lambda>_.
     let reported = assigned_version version_variable [] (splitCommandWords (setting settings ''-ldflags'')) in
     io_bind (io_check (reported \<noteq> []) (Fail ''candidate build info does not contain the runeconsole release version'')) (\<lambda>_.
     case ParseVersion reported of
       Inl _ \<Rightarrow> io_fail (Fail ''candidate build info contains an invalid release version'')
     | Inr reportedVersion \<Rightarrow>
         let expected = (case ParseVersion expectedVersion of Inl _ \<Rightarrow> zero_version | Inr v \<Rightarrow> v)
         in io_check (version_Compare reportedVersion expected = 0) (Fail ''candidate binary version does not match release''))))"

end
