(* ===== verification/Update_Engine.thy ===== *)
theory Update_Engine
  imports Release
begin

text \<open>
  The update of the daemon in place: replacing its binary (\<open>internal/updater/binary.go\<close>) and the
  transaction around it (\<open>internal/updater/updater.go\<close>). The service manager and the health probe answer
  arbitrarily, and a daemon that may be running may do anything to the files between two calls.
\<close>

subsection \<open>Replacing a file\<close>

record file_metadata =
  fm_mode :: nat
  fm_uid :: int
  fm_gid :: int

definition metadata_of :: "inode \<Rightarrow> file_metadata" where
  "metadata_of info = \<lparr>fm_mode = perm info, fm_uid = in_uid info, fm_gid = in_gid info\<rparr>"

fun create_temp :: "nat \<Rightarrow> string \<Rightarrow> string \<Rightarrow> string sys" where
  "create_temp 0 d pat s = (Inl EEXIST, s)"
| "create_temp (Suc n) d pat s =
     (let p = Join d (temp_name pat s)
      in case CreateExcl p 384 s of
           (Inr _, s) \<Rightarrow> (Inr p, s)
         | (Inl EEXIST, s) \<Rightarrow> create_temp n d pat s
         | (Inl e, s) \<Rightarrow> (Inl e, s))"

definition CreateTemp :: "string \<Rightarrow> string \<Rightarrow> string sys" where
  "CreateTemp = create_temp temp_attempts"

definition temp_prefix :: string where "temp_prefix = ''.runeconsole-update-''"

definition remove_temp :: "string \<Rightarrow> files \<Rightarrow> files" where
  "remove_temp p s = snd (RemoveAll p s)"

text \<open>The copy is prepared beside its destination and renamed over it.\<close>

definition prepare_copy :: "string \<Rightarrow> string \<Rightarrow> file_metadata \<Rightarrow> unit io" where
  "prepare_copy temp data md =
     io_bind (io_sys (Chmod temp 384)) (\<lambda>_.
     io_bind (io_sys (WriteAll temp data)) (\<lambda>_.
     io_bind (io_sys (Sync temp)) (\<lambda>_.
     io_bind (io_sys (Lchown temp (fm_uid md) (fm_gid md))) (\<lambda>_.
     io_bind (io_sys (Chmod temp (fm_mode md))) (\<lambda>_.
     io_sys Close)))))"

definition copyFileAtomic :: "string \<Rightarrow> string \<Rightarrow> file_metadata \<Rightarrow> unit io" where
  "copyFileAtomic source destination md =
     io_bind (io_sys (ReadFile source)) (\<lambda>data.
     io_bind (io_sys (CreateTemp (Dir destination) temp_prefix)) (\<lambda>temp.
     io_bind (on_fail (io_bind (prepare_copy temp data md) (\<lambda>_. io_sys (Rename temp destination))) (remove_temp temp)) (\<lambda>_.
     io_sys (Sync (Dir destination)))))"

text \<open>The flag says that the previous binary was saved.\<close>

definition InstallCandidate :: "string \<Rightarrow> string \<Rightarrow> string \<Rightarrow> files \<Rightarrow> (bool \<times> failure option) \<times> files" where
  "InstallCandidate candidatePath binaryPath previousPath s =
     (if Dir binaryPath \<noteq> Dir previousPath then ((False, Some (Fail ''previous binary must be stored beside the service binary'')), s)
      else case Stat binaryPath s of
        (Inl _, s) \<Rightarrow> ((False, Some (Fail ''inspect installed binary failed'')), s)
      | (Inr info, s) \<Rightarrow>
          if \<not> regular (in_kind info) then ((False, Some (Fail ''inspect installed binary failed'')), s)
          else case copyFileAtomic binaryPath previousPath (metadata_of info) s of
            (Inl _, s) \<Rightarrow> ((False, Some (Fail ''save previous binary failed'')), s)
          | (Inr _, s) \<Rightarrow>
              (case copyFileAtomic candidatePath binaryPath (metadata_of info) s of
                 (Inl _, s) \<Rightarrow> ((True, Some (Fail ''replace service binary failed'')), s)
               | (Inr _, s) \<Rightarrow> ((True, None), s)))"

definition RestorePrevious :: "string \<Rightarrow> string \<Rightarrow> unit io" where
  "RestorePrevious binaryPath previousPath =
     io_bind (or_fail (Stat previousPath) (Fail ''previous binary is unavailable'')) (\<lambda>info.
     io_bind (io_check (regular (in_kind info)) (Fail ''previous binary is unavailable'')) (\<lambda>_.
     copyFileAtomic previousPath binaryPath (metadata_of info)))"

subsection \<open>The world of an update\<close>

text \<open>What the update did that others can see, in order; the flags say how it went.\<close>

datatype update_event = EvStop bool | EvStart bool | EvHealthy bool | EvBackup bool | EvInstall bool bool | EvRestore bool | EvRestorePrevious bool

record update_world =
  wo_files :: files
  wo_running :: bool
  wo_calls :: nat
  wo_log :: "update_event list"

datatype release_source = Local local_source | GitHub github_source

text \<open>The answers of the service manager and of the probe to call number \<open>n\<close>, and what a running daemon does before it.\<close>

record engine =
  ee_release :: release_env
  ee_source :: release_source
  ee_stop :: "nat \<Rightarrow> failure option"
  ee_start :: "nat \<Rightarrow> failure option"
  ee_health :: "nat \<Rightarrow> failure option"
  ee_daemon :: "nat \<Rightarrow> files \<Rightarrow> files"
  ee_lock :: flock
  ee_lockPath :: string
  ee_cancelled :: bool

record update_request =
  rq_CurrentVersion :: string
  rq_RequestedVersion :: string
  rq_GOOS :: string
  rq_GOARCH :: string
  rq_BinaryPath :: string
  rq_PreviousPath :: string
  rq_BackupDir :: string
  rq_StatePaths :: "string list"
  rq_ManagedRoots :: "string list"
  rq_ImmutablePaths :: "string list"
  rq_CheckOnly :: bool

record update_result =
  rs_CurrentVersion :: string
  rs_TargetVersion :: string
  rs_BackupPath :: string
  rs_Checked :: bool
  rs_Updated :: bool
  rs_RolledBack :: bool
  rs_AlreadyCurrent :: bool

datatype run_error = RunError failure | UpdateFailure failure string bool

type_synonym outcome = "(update_result \<times> run_error option) \<times> update_world"

definition env_of :: "engine \<Rightarrow> backup_env" where
  "env_of en = re_env (ee_release en)"

definition on_files :: "'a io \<Rightarrow> update_world \<Rightarrow> (failure + 'a) \<times> update_world" where
  "on_files m w = (case m (wo_files w) of (r, s) \<Rightarrow> (r, w\<lparr>wo_files := s\<rparr>))"

definition logged :: "update_event \<Rightarrow> update_world \<Rightarrow> update_world" where
  "logged e w = w\<lparr>wo_log := wo_log w @ [e]\<rparr>"

definition daemon_runs :: "engine \<Rightarrow> update_world \<Rightarrow> update_world" where
  "daemon_runs en w = (if wo_running w then w\<lparr>wo_files := ee_daemon en (wo_calls w) (wo_files w)\<rparr> else w)"

text \<open>After a stop that succeeds no daemon runs; after any attempt to start one may be running.\<close>

definition service_stop :: "engine \<Rightarrow> update_world \<Rightarrow> failure option \<times> update_world" where
  "service_stop en w =
     (let r = ee_stop en (wo_calls w)
      in (r, logged (EvStop (r = None)) ((daemon_runs en w)\<lparr>wo_calls := Suc (wo_calls w), wo_running := (r \<noteq> None \<and> wo_running w)\<rparr>)))"

definition service_start :: "engine \<Rightarrow> update_world \<Rightarrow> failure option \<times> update_world" where
  "service_start en w =
     (let r = ee_start en (wo_calls w)
      in (r, logged (EvStart (r = None)) ((daemon_runs en w)\<lparr>wo_calls := Suc (wo_calls w), wo_running := True\<rparr>)))"

definition wait_healthy :: "engine \<Rightarrow> update_world \<Rightarrow> failure option \<times> update_world" where
  "wait_healthy en w =
     (let r = ee_health en (wo_calls w)
      in (r, logged (EvHealthy (r = None)) ((daemon_runs en w)\<lparr>wo_calls := Suc (wo_calls w)\<rparr>)))"

subsection \<open>Recovery\<close>

definition fails :: "failure option list \<Rightarrow> failure" where
  "fails es = Joined (List.map_filter id es)"

definition start_and_wait :: "engine \<Rightarrow> update_world \<Rightarrow> failure option \<times> update_world" where
  "start_and_wait en w =
     (case service_start en w of
        (Some e, w) \<Rightarrow> (Some e, w)
      | (None, w) \<Rightarrow> wait_healthy en w)"

definition recoverAfterStopError :: "engine \<Rightarrow> failure \<Rightarrow> update_world \<Rightarrow> run_error \<times> update_world" where
  "recoverAfterStopError en stopErr w =
     (case service_start en w of (startErr, w) \<Rightarrow> case wait_healthy en w of (healthErr, w) \<Rightarrow>
        (RunError (if healthErr = None then FailWith ''stop runeconsole service'' stopErr
           else FailWith ''stop runeconsole service failed and original availability could not be recovered'' (fails [Some stopErr, startErr, healthErr])), w))"

definition recoverStoppedOriginal :: "engine \<Rightarrow> failure \<Rightarrow> update_world \<Rightarrow> run_error \<times> update_world" where
  "recoverStoppedOriginal en cause w =
     (case start_and_wait en w of
        (None, w) \<Rightarrow> (RunError cause, w)
      | (Some e, w) \<Rightarrow> (RunError (FailWith ''update preparation failed and the original service could not be recovered'' (Joined [cause, e])), w))"

definition restore_previous :: "string \<Rightarrow> string \<Rightarrow> update_world \<Rightarrow> failure option \<times> update_world" where
  "restore_previous binaryPath previousPath w =
     (case on_files (RestorePrevious binaryPath previousPath) w of
        (Inl e, w) \<Rightarrow> (Some (FailWith ''restore previous binary'' e), logged (EvRestorePrevious False) w)
      | (Inr _, w) \<Rightarrow> (None, logged (EvRestorePrevious True) w))"

definition restart_previous :: "engine \<Rightarrow> update_world \<Rightarrow> failure option \<times> update_world" where
  "restart_previous en w =
     (case service_start en w of
        (Some e, w) \<Rightarrow> (Some (FailWith ''restart previous service'' e), w)
      | (None, w) \<Rightarrow>
          (case wait_healthy en w of
             (Some e, w) \<Rightarrow> (Some (FailWith ''previous service did not become healthy'' e), w)
           | (None, w) \<Rightarrow> (None, w)))"

definition recoverInstallFailure :: "engine \<Rightarrow> string \<Rightarrow> string \<Rightarrow> bool \<Rightarrow> update_world \<Rightarrow> failure option \<times> update_world" where
  "recoverInstallFailure en binaryPath previousPath restoreBinary w =
     (case (if restoreBinary then restore_previous binaryPath previousPath w else (None, w)) of
        (Some e, w) \<Rightarrow> (Some e, w)
      | (None, w) \<Rightarrow> restart_previous en w)"

text \<open>The order of a rollback: no daemon runs while its files are restored, and the old one starts last.\<close>

definition rollback :: "engine \<Rightarrow> snapshot \<Rightarrow> string \<Rightarrow> string \<Rightarrow> bool \<Rightarrow> bool \<Rightarrow> update_world \<Rightarrow> failure option \<times> update_world" where
  "rollback en sn binaryPath previousPath restoreBinary candidateMayBeRunning w =
     (case (if candidateMayBeRunning then service_stop en w else (None, w)) of
        (Some e, w) \<Rightarrow> (Some (FailWith ''stop failed candidate before rollback'' e), w)
      | (None, w) \<Rightarrow>
          (case on_files (Restore (env_of en) sn) w of
             (Inl e, w) \<Rightarrow> (Some (FailWith ''restore state'' e), logged (EvRestore False) w)
           | (Inr _, w) \<Rightarrow>
               (case (if restoreBinary then restore_previous binaryPath previousPath (logged (EvRestore True) w) else (None, logged (EvRestore True) w)) of
                  (Some e, w) \<Rightarrow> (Some e, w)
                | (None, w) \<Rightarrow> restart_previous en w)))"

subsection \<open>The transaction\<close>

definition install_and_start :: "engine \<Rightarrow> update_request \<Rightarrow> update_result \<Rightarrow> snapshot \<Rightarrow> string \<Rightarrow> update_world \<Rightarrow> outcome" where
  "install_and_start en req result sn candidatePath w =
     (let previousPath = (if rq_PreviousPath req = [] then rq_BinaryPath req @ ''.previous'' else rq_PreviousPath req);
          backup = rs_BackupPath result; rolled = result\<lparr>rs_RolledBack := True\<rparr>
      in case InstallCandidate candidatePath (rq_BinaryPath req) previousPath (wo_files w) of
        ((previousReady, Some installErr), s) \<Rightarrow>
          (case recoverInstallFailure en (rq_BinaryPath req) previousPath previousReady (logged (EvInstall previousReady False) (w\<lparr>wo_files := s\<rparr>)) of
             (Some e, w) \<Rightarrow>
               ((rolled, Some (UpdateFailure (FailWith ''install candidate failed and rollback was incomplete'' (Joined [installErr, e])) backup True)), w)
           | (None, w) \<Rightarrow>
               ((rolled, Some (UpdateFailure
                   (FailWith ''install candidate failed; the previous binary was restored and durable state remained unchanged'' installErr) backup False)), w))
      | ((previousReady, None), s) \<Rightarrow>
          (case start_and_wait en (logged (EvInstall previousReady True) (w\<lparr>wo_files := s\<rparr>)) of
             (None, w) \<Rightarrow> ((result\<lparr>rs_Updated := True\<rparr>, None), w)
           | (Some startErr, w) \<Rightarrow>
               (case rollback en sn (rq_BinaryPath req) previousPath True True w of
                  (Some e, w) \<Rightarrow>
                    ((rolled, Some (UpdateFailure (FailWith ''update failed and rollback was incomplete'' (Joined [startErr, e])) backup True)), w)
                | (None, w) \<Rightarrow>
                    ((rolled, Some (UpdateFailure (FailWith ''update failed; previous binary and state were restored'' startErr) backup False)), w))))"

definition stopped_original :: "engine \<Rightarrow> update_result \<Rightarrow> failure \<Rightarrow> update_world \<Rightarrow> outcome" where
  "stopped_original en result e w = (case recoverStoppedOriginal en e w of (x, w) \<Rightarrow> ((result, Some x), w))"

definition critical_section :: "engine \<Rightarrow> update_request \<Rightarrow> update_result \<Rightarrow> path_identity list \<Rightarrow> (string \<times> string) list \<Rightarrow> string \<Rightarrow> update_world \<Rightarrow> outcome" where
  "critical_section en req result ids digests candidatePath w =
     (case service_stop en w of
        (Some e, w) \<Rightarrow> (case recoverAfterStopError en e w of (x, w) \<Rightarrow> ((result, Some x), w))
      | (None, w) \<Rightarrow>
     (case on_files (verifyPathIdentities ids) w of
        (Inl e, w) \<Rightarrow> stopped_original en result e w
      | (Inr _, w) \<Rightarrow>
     (case on_files (verifyFileDigests (env_of en) digests) w of
        (Inl e, w) \<Rightarrow> stopped_original en result e w
      | (Inr _, w) \<Rightarrow>
     (case on_files (ValidateUpdatePaths (env_of en) (rq_BinaryPath req) (rq_BackupDir req) (rq_StatePaths req) (rq_ManagedRoots req)) w of
        (Inl e, w) \<Rightarrow> stopped_original en result e w
      | (Inr _, w) \<Rightarrow>
     (case on_files (BackupState (env_of en) (rq_BackupDir req) (rq_StatePaths req)) w of
        (Inl e, w) \<Rightarrow> stopped_original en result (FailWith ''backup state'' e) (logged (EvBackup False) w)
      | (Inr sn, w) \<Rightarrow>
          install_and_start en req (result\<lparr>rs_BackupPath := sn_directory sn\<rparr>) sn candidatePath (logged (EvBackup True) w))))))"

definition with_cleanup :: "string \<Rightarrow> (update_world \<Rightarrow> outcome) \<Rightarrow> update_world \<Rightarrow> outcome" where
  "with_cleanup d f w = (case f w of (r, w) \<Rightarrow> (r, w\<lparr>wo_files := removePrivateTree d (wo_files w)\<rparr>))"

definition run_candidate :: "engine \<Rightarrow> update_request \<Rightarrow> update_result \<Rightarrow> int \<Rightarrow> path_identity list \<Rightarrow> (string \<times> string) list \<Rightarrow> string \<Rightarrow> update_world \<Rightarrow> outcome" where
  "run_candidate en req result comparison ids digests candidatePath w =
     (case on_files (Verify (ee_release en) candidatePath (rs_TargetVersion result) (rq_GOOS req) (rq_GOARCH req)) w of
        (Inl e, w) \<Rightarrow> ((result, Some (RunError e)), w)
      | (Inr _, w) \<Rightarrow>
          let result = result\<lparr>rs_Checked := True\<rparr>
          in if rq_CheckOnly req then ((result, None), w)
             else if comparison = 0 then ((result\<lparr>rs_AlreadyCurrent := True\<rparr>, None), w)
             else if ee_cancelled en then ((result, Some (RunError (Fail ''context canceled''))), w)
             else critical_section en req result ids digests candidatePath w)"

definition run_release :: "engine \<Rightarrow> update_request \<Rightarrow> update_result \<Rightarrow> version \<Rightarrow> path_identity list \<Rightarrow> (string \<times> string) list \<Rightarrow> release \<Rightarrow> update_world \<Rightarrow> outcome" where
  "run_release en req result current ids digests rel w =
     (case ParseVersion (rl_Version rel) of
        Inl _ \<Rightarrow> ((result, Some (RunError (Fail ''release has an invalid version''))), w)
      | Inr newer \<Rightarrow>
          let result = result\<lparr>rs_TargetVersion := version_String newer\<rparr>; comparison = version_Compare newer current
          in if comparison < 0 then ((result, Some (RunError (Fail ''refusing to downgrade runeconsole''))), w)
             else case on_files (StageVerifiedArchive (ee_release en) (rl_ArchivePath rel) (rl_ChecksumsPath rel)) w of
               (Inl e, w) \<Rightarrow> ((result, Some (RunError e)), w)
             | (Inr (verifiedDir, verifiedArchive), w) \<Rightarrow>
                 with_cleanup verifiedDir (\<lambda>w.
                   case on_files (ExtractCandidate (ee_release en) verifiedArchive) w of
                     (Inl e, w) \<Rightarrow> ((result, Some (RunError e)), w)
                   | (Inr (candidateDir, candidatePath), w) \<Rightarrow>
                       with_cleanup candidateDir (run_candidate en req result comparison ids digests candidatePath) w) w)"

definition resolve_release :: "engine \<Rightarrow> update_request \<Rightarrow> release io" where
  "resolve_release en req =
     (case ee_source en of
        Local s \<Rightarrow> (case LocalSource_Resolve s (rq_RequestedVersion req) of Inl e \<Rightarrow> io_fail e | Inr r \<Rightarrow> io_return r)
      | GitHub s \<Rightarrow> GitHubSource_Resolve (ee_release en) s (rq_RequestedVersion req) (rq_GOOS req) (rq_GOARCH req))"

text \<open>What a real update checks and captures before it resolves the release.\<close>

definition preflight :: "engine \<Rightarrow> update_request \<Rightarrow> (update_request \<times> path_identity list \<times> (string \<times> string) list) io" where
  "preflight en req =
     io_bind (or_fail (CanonicalizePaths (rq_StatePaths req)) (Fail ''resolve configured durable-state paths failed'')) (\<lambda>canonicalState.
     io_bind (or_fail (canonicalizeDistinctPaths (rq_ManagedRoots req)) (Fail ''resolve configured durable-state roots failed'')) (\<lambda>canonicalRoots.
     io_bind (or_fail (canonicalizeDistinctPaths (rq_ImmutablePaths req)) (Fail ''resolve immutable config paths failed'')) (\<lambda>canonicalImmutable.
     let req = req\<lparr>rq_StatePaths := canonicalState, rq_ManagedRoots := canonicalRoots, rq_ImmutablePaths := canonicalImmutable\<rparr> in
     io_bind (io_check (rq_PreviousPath req = [] \<or> rq_PreviousPath req = rq_BinaryPath req @ ''.previous'')
       (Fail ''previous binary path must be the service binary plus .previous'')) (\<lambda>_.
     io_bind (ValidateUpdatePaths (env_of en) (rq_BinaryPath req) (rq_BackupDir req) canonicalState canonicalRoots) (\<lambda>_.
     io_bind (capturePathIdentities (canonicalState @ canonicalRoots @ canonicalImmutable)) (\<lambda>ids.
     io_bind (captureFileDigests (env_of en) canonicalImmutable) (\<lambda>digests.
     io_bind (Lock (ee_lock en) (ee_lockPath en)) (\<lambda>_.
     io_return (req, ids, digests)))))))))"

definition Run :: "engine \<Rightarrow> update_request \<Rightarrow> update_world \<Rightarrow> outcome" where
  "Run en req w =
     (let result = \<lparr>rs_CurrentVersion = rq_CurrentVersion req, rs_TargetVersion = [], rs_BackupPath = [], rs_Checked = False,
            rs_Updated = False, rs_RolledBack = False, rs_AlreadyCurrent = False\<rparr>
      in if \<not> ValidatePlatform (rq_GOOS req) (rq_GOARCH req) then ((result, Some (RunError platform_error)), w)
         else case ParseVersion (rq_CurrentVersion req) of
           Inl _ \<Rightarrow> ((result, Some (RunError (Fail ''current runeconsole version is not a release version''))), w)
         | Inr current \<Rightarrow>
             (case (if rq_CheckOnly req then (Inr (req, [], []), w) else on_files (preflight en req) w) of
                (Inl e, w) \<Rightarrow> ((result, Some (RunError e)), w)
              | (Inr (req, ids, digests), w) \<Rightarrow>
                  (case on_files (resolve_release en req) w of
                     (Inl e, w) \<Rightarrow> ((result, Some (RunError (FailWith ''resolve release'' e))), w)
                   | (Inr rel, w) \<Rightarrow> with_cleanup (rl_Cleanup rel) (run_release en req result current ids digests rel) w)))"

end
