(* ===== verification/Update_Properties.thy ===== *)
theory Update_Properties
  imports Update_Engine Restore_Properties
begin

text \<open>What holds of updates: the protocol of the transaction, and the copies it makes of the binary.\<close>

subsection \<open>The protocol\<close>

text \<open>
  \<open>Original\<close>: nothing was done. \<open>Down\<close>: stopped, binary and state are the original ones. \<open>Saved\<close>: and a
  snapshot was taken. \<open>Half\<close>: the binary may be replaced, the previous one is saved. \<open>Placed\<close>: the new
  binary is in place. \<open>Trying\<close>: it may be running. \<open>NewDown\<close>: it was stopped. \<open>StateBack\<close>: and the state
  restored. \<open>Restarted\<close> and \<open>Serving\<close>: the original was started, and is healthy. \<open>Halted\<close>: an operator
  must look.
\<close>

datatype phase = Original | Unstopped | Down | Saved | Half | Placed | Trying | NewServing | NewDown | StateBack | Restarted | Serving | Halted

fun protocol :: "phase \<Rightarrow> update_event \<Rightarrow> phase option" where
  "protocol Original (EvStop ok) = Some (if ok then Down else Unstopped)"
| "protocol Unstopped (EvStart ok) = Some Unstopped"
| "protocol Unstopped (EvHealthy ok) = Some (if ok then Serving else Halted)"
| "protocol Down (EvBackup ok) = Some (if ok then Saved else Down)"
| "protocol Down (EvStart ok) = Some (if ok then Restarted else Halted)"
| "protocol Restarted (EvHealthy ok) = Some (if ok then Serving else Halted)"
| "protocol Saved (EvInstall saved ok) = (if ok then (if saved then Some Placed else None) else Some (if saved then Half else Down))"
| "protocol Half (EvRestorePrevious ok) = Some (if ok then Down else Halted)"
| "protocol Placed (EvStart ok) = Some Trying"
| "protocol Trying (EvHealthy ok) = Some (if ok then NewServing else Trying)"
| "protocol Trying (EvStop ok) = Some (if ok then NewDown else Halted)"
| "protocol NewDown (EvRestore ok) = Some (if ok then StateBack else Halted)"
| "protocol StateBack (EvRestorePrevious ok) = Some (if ok then Down else Halted)"
| "protocol _ _ = None"

fun follows :: "phase \<Rightarrow> update_event list \<Rightarrow> phase option" where
  "follows p [] = Some p"
| "follows p (e # es) = (case protocol p e of None \<Rightarrow> None | Some q \<Rightarrow> follows q es)"

text \<open>From one world to another the log grows by events that lead from one phase to another.\<close>

definition leads :: "phase \<Rightarrow> update_world \<Rightarrow> phase \<Rightarrow> update_world \<Rightarrow> bool" where
  "leads p w q w' \<longleftrightarrow> (\<exists>es. wo_log w' = wo_log w @ es \<and> follows p es = Some q)"

lemma follows_append: "follows p (es @ fs) = (case follows p es of None \<Rightarrow> None | Some q \<Rightarrow> follows q fs)"
  by (induction es arbitrary: p) (auto split: option.split)

lemma leads_trans [trans]: "leads p w q w' \<Longrightarrow> leads q w' r w'' \<Longrightarrow> leads p w r w''"
  by (auto simp: leads_def follows_append)

lemma leads_same: "wo_log w' = wo_log w \<Longrightarrow> leads p w p w'"
  by (simp add: leads_def)

lemma leads_event: "wo_log w' = wo_log w @ [e] \<Longrightarrow> protocol p e = Some q \<Longrightarrow> leads p w q w'"
  unfolding leads_def by (intro exI [of _ "[e]"]) simp

lemma on_files_log: "on_files m w = (r, w') \<Longrightarrow> wo_log w' = wo_log w"
  by (auto simp: on_files_def split: prod.splits)

lemma service_log:
  "service_stop en w = (r, w') \<Longrightarrow> wo_log w' = wo_log w @ [EvStop (r = None)]"
  "service_start en w = (r, w') \<Longrightarrow> wo_log w' = wo_log w @ [EvStart (r = None)]"
  "wait_healthy en w = (r, w') \<Longrightarrow> wo_log w' = wo_log w @ [EvHealthy (r = None)]"
  by (auto simp: service_stop_def service_start_def wait_healthy_def logged_def daemon_runs_def Let_def)

lemma restore_previous_log:
  "restore_previous b p w = (r, w') \<Longrightarrow> wo_log w' = wo_log w @ [EvRestorePrevious (r = None)]"
  by (auto simp: restore_previous_def logged_def split: prod.splits sum.splits dest: on_files_log)

text \<open>Starting a daemon and waiting for it.\<close>

lemma start_leads:
  assumes "start_and_wait en w = (r, w')"
  shows "leads Down w (if r = None then Serving else Halted) w'" "leads Placed w (if r = None then NewServing else Trying) w'"
proof -
  obtain r1 w1 where s: "service_start en w = (r1, w1)" by (cases "service_start en w")
  note l1 = service_log(2) [OF s]
  have "leads Down w (if r = None then Serving else Halted) w' \<and> leads Placed w (if r = None then NewServing else Trying) w'"
  proof (cases r1)
    case (Some e)
    then show ?thesis using assms leads_event [OF l1, of Down Halted] leads_event [OF l1, of Placed Trying] by (auto simp: start_and_wait_def s)
  next
    case None
    then have h: "wait_healthy en w1 = (r, w')" using assms by (simp add: start_and_wait_def s)
    note l2 = service_log(3) [OF h]
    have "leads Down w Restarted w1" "leads Placed w Trying w1" using None by (auto intro!: leads_event [OF l1])
    moreover have "leads Restarted w1 (if r = None then Serving else Halted) w'" "leads Trying w1 (if r = None then NewServing else Trying) w'"
      by (auto intro!: leads_event [OF l2])
    ultimately show ?thesis by (blast intro: leads_trans)
  qed
  then show "leads Down w (if r = None then Serving else Halted) w'" "leads Placed w (if r = None then NewServing else Trying) w'" by auto
qed

lemma restart_leads: "restart_previous en w = (r, w') \<Longrightarrow> leads Down w (if r = None then Serving else Halted) w'"
proof -
  assume a: "restart_previous en w = (r, w')"
  obtain r' where "start_and_wait en w = (r', w')" "r = None \<longleftrightarrow> r' = None"
    using a by (auto simp: restart_previous_def start_and_wait_def split: prod.splits option.splits)
  then show ?thesis using start_leads(1) by fastforce
qed

lemma install_recovery_leads:
  assumes "recoverInstallFailure en b p saved w = (r, w')"
  shows "leads (if saved then Half else Down) w (if r = None then Serving else Halted) w'"
proof (cases saved)
  case True
  obtain r1 w1 where s: "restore_previous b p w = (r1, w1)" by (cases "restore_previous b p w")
  note l = restore_previous_log [OF s]
  show ?thesis
  proof (cases r1)
    case (Some e)
    then show ?thesis using assms True leads_event [OF l, of Half Halted] by (auto simp: recoverInstallFailure_def s)
  next
    case None
    then have "leads Half w Down w1" by (auto intro!: leads_event [OF l])
    moreover have "restart_previous en w1 = (r, w')" using assms True None by (simp add: recoverInstallFailure_def s)
    ultimately show ?thesis using True by (auto intro: leads_trans dest!: restart_leads)
  qed
qed (use assms in \<open>auto simp: recoverInstallFailure_def dest!: restart_leads\<close>)

lemma rollback_leads:
  assumes "rollback en sn b p True True w = (r, w')"
  shows "leads Trying w (if r = None then Serving else Halted) w'"
proof -
  obtain r1 w1 where s: "service_stop en w = (r1, w1)" by (cases "service_stop en w")
  note l1 = service_log(1) [OF s]
  show ?thesis
  proof (cases r1)
    case (Some e)
    then show ?thesis using assms leads_event [OF l1, of Trying Halted] by (auto simp: rollback_def s)
  next
    case None
    then have t1: "leads Trying w NewDown w1" by (auto intro!: leads_event [OF l1])
    obtain r2 w2 where f: "on_files (Restore (env_of en) sn) w1 = (r2, w2)" by (cases "on_files (Restore (env_of en) sn) w1")
    have l2: "wo_log (logged (EvRestore ok) w2) = wo_log w1 @ [EvRestore ok]" for ok using on_files_log [OF f] by (simp add: logged_def)
    show ?thesis
    proof (cases r2)
      case (Inl e)
      then have "w' = logged (EvRestore False) w2" "r \<noteq> None" using assms None by (auto simp: rollback_def s f)
      then show ?thesis using leads_trans [OF t1 leads_event [OF l2 [of False], of NewDown Halted]] by auto
    next
      case (Inr u)
      have t2: "leads Trying w StateBack (logged (EvRestore True) w2)" by (rule leads_trans [OF t1 leads_event [OF l2]]) simp
      obtain r3 w3 where q: "restore_previous b p (logged (EvRestore True) w2) = (r3, w3)" by (cases "restore_previous b p (logged (EvRestore True) w2)")
      note l3 = restore_previous_log [OF q]
      show ?thesis
      proof (cases r3)
        case (Some e)
        then have "w' = w3" "r \<noteq> None" using assms None Inr by (auto simp: rollback_def s f q)
        then show ?thesis using leads_trans [OF t2 leads_event [OF l3, of StateBack Halted]] Some by auto
      next
        case ok: None
        have "leads Trying w Down w3" using leads_trans [OF t2 leads_event [OF l3, of StateBack Down]] ok by simp
        moreover have "restart_previous en w3 = (r, w')" using assms None Inr ok by (simp add: rollback_def s f q)
        ultimately show ?thesis by (auto intro: leads_trans dest!: restart_leads)
      qed
    qed
  qed
qed

text \<open>What a run reports, and the phase it ends in.\<close>

definition reports :: "update_result \<Rightarrow> run_error option \<Rightarrow> phase \<Rightarrow> bool" where
  "reports result err q \<longleftrightarrow>
     (case err of
        None \<Rightarrow> rs_Updated result \<and> q = NewServing
      | Some (RunError e) \<Rightarrow> \<not> rs_Updated result \<and> (q = Serving \<or> q = Halted)
      | Some (UpdateFailure e backup incomplete) \<Rightarrow>
          \<not> rs_Updated result \<and> rs_RolledBack result \<and> backup = rs_BackupPath result \<and> q = (if incomplete then Halted else Serving))"

lemma install_ready: "InstallCandidate c b p s = ((saved, None), s') \<Longrightarrow> saved"
  by (auto simp: InstallCandidate_def split: if_splits prod.splits sum.splits)

lemma install_leads:
  assumes i: "install_and_start en req result sn c w = ((result', err), w')" and u: "\<not> rs_Updated result"
  shows "\<exists>q. leads Saved w q w' \<and> reports result' err q"
proof -
  define p where "p = (if rq_PreviousPath req = [] then rq_BinaryPath req @ ''.previous'' else rq_PreviousPath req)"
  obtain saved e s where c: "InstallCandidate c (rq_BinaryPath req) p (wo_files w) = ((saved, e), s)" by (metis prod.exhaust)
  define w1 where "w1 = (\<lambda>ok. logged (EvInstall saved ok) (w\<lparr>wo_files := s\<rparr>))"
  have l: "wo_log (w1 ok) = wo_log w @ [EvInstall saved ok]" for ok by (simp add: w1_def logged_def)
  show ?thesis
  proof (cases e)
    case (Some x)
    obtain r w2 where f: "recoverInstallFailure en (rq_BinaryPath req) p saved (w1 False) = (r, w2)"
      by (cases "recoverInstallFailure en (rq_BinaryPath req) p saved (w1 False)")
    have "leads Saved w (if saved then Half else Down) (w1 False)" by (rule leads_event [OF l]) simp
    then have "leads Saved w (if r = None then Serving else Halted) w2" by (rule leads_trans [OF _ install_recovery_leads [OF f]])
    moreover have "w' = w2 \<and> reports result' err (if r = None then Serving else Halted)"
      using i f u by (auto simp: install_and_start_def Let_def p_def [symmetric] c Some w1_def reports_def split: option.splits)
    ultimately show ?thesis by blast
  next
    case None
    then have saved using install_ready c by blast
    then have t1: "leads Saved w Placed (w1 True)" by (intro leads_event [OF l]) simp
    obtain r w2 where f: "start_and_wait en (w1 True) = (r, w2)" by (cases "start_and_wait en (w1 True)")
    have t2: "leads Saved w (if r = None then NewServing else Trying) w2" by (rule leads_trans [OF t1 start_leads(2) [OF f]])
    show ?thesis
    proof (cases r)
      case ok: None
      then have "w' = w2 \<and> reports result' err NewServing"
        using i f by (auto simp: install_and_start_def Let_def p_def [symmetric] c None w1_def reports_def)
      then show ?thesis using t2 ok by auto
    next
      case (Some x)
      obtain r3 w3 where b: "rollback en sn (rq_BinaryPath req) p True True w2 = (r3, w3)" by (cases "rollback en sn (rq_BinaryPath req) p True True w2")
      have "leads Saved w (if r3 = None then Serving else Halted) w3" using leads_trans [OF t2 [unfolded Some]] rollback_leads [OF b] by simp
      moreover have "w' = w3 \<and> reports result' err (if r3 = None then Serving else Halted)"
        using i f b u by (auto simp: install_and_start_def Let_def p_def [symmetric] c None Some w1_def reports_def split: option.splits)
      ultimately show ?thesis by blast
    qed
  qed
qed

lemma stopped_leads:
  assumes "stopped_original en result e w = ((result', err), w')" "\<not> rs_Updated result"
  shows "\<exists>q. leads Down w q w' \<and> reports result' err q"
proof -
  obtain r w1 where s: "start_and_wait en w = (r, w1)" by (cases "start_and_wait en w")
  have "w' = w1 \<and> reports result' err (if r = None then Serving else Halted)"
    using assms s by (auto simp: stopped_original_def recoverStoppedOriginal_def reports_def split: option.splits)
  then show ?thesis using start_leads(1) [OF s] by blast
qed

lemma critical_leads:
  assumes c: "critical_section en req result ids digests cand w = ((result', err), w')" and u: "\<not> rs_Updated result"
  shows "\<exists>q. leads Original w q w' \<and> reports result' err q"
proof -
  obtain r1 w1 where s: "service_stop en w = (r1, w1)" by (cases "service_stop en w")
  note l1 = service_log(1) [OF s]
  show ?thesis
  proof (cases r1)
    case (Some e)
    obtain r2 w2 where st: "service_start en w1 = (r2, w2)" by (cases "service_start en w1")
    obtain r3 w3 where h: "wait_healthy en w2 = (r3, w3)" by (cases "wait_healthy en w2")
    have "leads Original w Unstopped w1" "leads Unstopped w1 Unstopped w2" "leads Unstopped w2 (if r3 = None then Serving else Halted) w3"
      using Some by (auto intro!: leads_event [OF l1] leads_event [OF service_log(2) [OF st]] leads_event [OF service_log(3) [OF h]])
    then have "leads Original w (if r3 = None then Serving else Halted) w3" by (blast intro: leads_trans)
    moreover have "w' = w3 \<and> reports result' err (if r3 = None then Serving else Halted)"
      using c u by (auto simp: critical_section_def s Some recoverAfterStopError_def st h reports_def)
    ultimately show ?thesis by blast
  next
    case None
    have t1: "leads Original w Down w1" using None by (auto intro!: leads_event [OF l1])
    have down: ?thesis if "leads Down w1 Down w2" "stopped_original en result e w2 = ((result', err), w')" for w2 e
      using stopped_leads [OF that(2) u] leads_trans [OF t1 that(1)] by (blast intro: leads_trans)
    obtain r2 w2 where f2: "on_files (verifyPathIdentities ids) w1 = (r2, w2)" by (cases "on_files (verifyPathIdentities ids) w1")
    obtain r3 w3 where f3: "on_files (verifyFileDigests (env_of en) digests) w2 = (r3, w3)" by (cases "on_files (verifyFileDigests (env_of en) digests) w2")
    obtain r4 w4 where f4: "on_files (ValidateUpdatePaths (env_of en) (rq_BinaryPath req) (rq_BackupDir req) (rq_StatePaths req) (rq_ManagedRoots req)) w3 = (r4, w4)"
      by (cases "on_files (ValidateUpdatePaths (env_of en) (rq_BinaryPath req) (rq_BackupDir req) (rq_StatePaths req) (rq_ManagedRoots req)) w3")
    obtain r5 w5 where f5: "on_files (BackupState (env_of en) (rq_BackupDir req) (rq_StatePaths req)) w4 = (r5, w5)"
      by (cases "on_files (BackupState (env_of en) (rq_BackupDir req) (rq_StatePaths req)) w4")
    note l = on_files_log [OF f2] on_files_log [OF f3] on_files_log [OF f4] on_files_log [OF f5]
    have t: "leads Down w1 Down w2" "leads Down w1 Down w3" "leads Down w1 Down w4" using l by (auto intro: leads_same)
    show ?thesis
    proof (cases "\<exists>e. r2 = Inl e \<or> r3 = Inl e \<or> r4 = Inl e")
      case True
      then show ?thesis using c t down
        by (auto simp: critical_section_def s None f2 f3 f4 split: sum.splits)
    next
      case False
      then obtain u2 u3 u4 where r: "r2 = Inr u2" "r3 = Inr u3" "r4 = Inr u4" by (metis sum.exhaust)
      show ?thesis
      proof (cases r5)
        case (Inl e)
        have "leads Down w1 Down (logged (EvBackup False) w5)" using l by (intro leads_event) (auto simp: logged_def)
        then show ?thesis using c by (intro down) (auto simp: critical_section_def s None f2 f3 f4 f5 r Inl)
      next
        case (Inr sn)
        have "leads Down w1 Saved (logged (EvBackup True) w5)" using l by (intro leads_event) (auto simp: logged_def)
        then have "leads Original w Saved (logged (EvBackup True) w5)" by (rule leads_trans [OF t1])
        moreover have i: "install_and_start en req (result\<lparr>rs_BackupPath := sn_directory sn\<rparr>) sn cand (logged (EvBackup True) w5) = ((result', err), w')"
          using c by (simp add: critical_section_def s None f2 f3 f4 f5 r Inr)
        ultimately show ?thesis using install_leads [OF i] u by (auto intro: leads_trans)
      qed
    qed
  qed
qed

text \<open>Before the critical section nothing is done that others see.\<close>

definition settled :: "update_request \<Rightarrow> version \<Rightarrow> update_world \<Rightarrow> outcome \<Rightarrow> bool" where
  "settled req current w oc \<longleftrightarrow> (case oc of ((result, err), w') \<Rightarrow>
     (wo_log w' = wo_log w \<and> \<not> rs_Updated result \<and> (\<forall>e b i. err \<noteq> Some (UpdateFailure e b i))) \<or>
     (\<exists>q newer. leads Original w q w' \<and> reports result err q \<and> rs_Checked result \<and> \<not> rq_CheckOnly req \<and>
        rs_TargetVersion result = version_String newer \<and> 0 < version_Compare newer current))"

lemma on_files_wo [simp]: "wo_log (w\<lparr>wo_files := s\<rparr>) = wo_log w"
  by simp

lemma leads_files [simp]: "leads p w q (w'\<lparr>wo_files := s\<rparr>) \<longleftrightarrow> leads p w q w'"
  by (simp add: leads_def)

lemma settled_cleanup: "settled req c w (f w) \<Longrightarrow> settled req c w (with_cleanup d f w)"
  by (auto simp: settled_def with_cleanup_def split: prod.splits)

lemma settled_from: "wo_log w' = wo_log w \<Longrightarrow> settled req c w' oc \<Longrightarrow> settled req c w oc"
  by (auto simp: settled_def leads_def split: prod.splits)

lemma install_keeps:
  assumes "install_and_start en req result sn c w = ((result', err), w')"
  shows "rs_TargetVersion result' = rs_TargetVersion result \<and> rs_Checked result' = rs_Checked result"
  using assms by (auto simp: install_and_start_def Let_def split: prod.splits option.splits)

lemma critical_keeps:
  assumes "critical_section en req result ids digests cand w = ((result', err), w')"
  shows "rs_TargetVersion result' = rs_TargetVersion result \<and> rs_Checked result' = rs_Checked result"
  using assms by (auto simp: critical_section_def stopped_original_def split: prod.splits option.splits sum.splits dest!: install_keeps)

lemma candidate_settled:
  assumes "\<not> rs_Updated result" "rs_TargetVersion result = version_String newer" "\<not> version_Compare newer current < 0"
  shows "settled req current w (run_candidate en req result (version_Compare newer current) ids digests cand w)"
proof -
  let ?v = "on_files (Verify (ee_release en) cand (rs_TargetVersion result) (rq_GOOS req) (rq_GOARCH req)) w"
  obtain r w1 where v: "?v = (r, w1)" by (cases ?v)
  note l = on_files_log [OF v]
  let ?checked = "result\<lparr>rs_Checked := True\<rparr>"
  obtain result' err w' where c: "critical_section en req ?checked ids digests cand w1 = ((result', err), w')" by (metis prod.exhaust)
  obtain q where q: "leads Original w1 q w'" "reports result' err q" using critical_leads [OF c] assms(1) by auto
  have lq: "leads Original w q w'" using q(1) l by (simp add: leads_def)
  have R: "run_candidate en req result (version_Compare newer current) ids digests cand w = (case r of
      Inl e \<Rightarrow> ((result, Some (RunError e)), w1)
    | Inr _ \<Rightarrow> if rq_CheckOnly req then ((?checked, None), w1)
        else if version_Compare newer current = 0 then ((?checked\<lparr>rs_AlreadyCurrent := True\<rparr>, None), w1)
        else if ee_cancelled en then ((?checked, Some (RunError (Fail ''context canceled''))), w1)
        else ((result', err), w'))"
    unfolding run_candidate_def v prod.case Let_def c by (cases r) simp_all
  have t: "rs_TargetVersion result' = version_String newer" "rs_Checked result'" using critical_keeps [OF c] assms(2) by simp_all
  consider (early) "(\<exists>e. r = Inl e) \<or> rq_CheckOnly req \<or> version_Compare newer current = 0 \<or> ee_cancelled en"
    | (late) x where "r = Inr x" "\<not> rq_CheckOnly req" "version_Compare newer current \<noteq> 0" "\<not> ee_cancelled en"
    by (cases r) auto
  then show ?thesis
  proof cases
    case early
    then show ?thesis using assms(1) l by (cases r) (auto simp: R settled_def)
  next
    case late
    then have "0 < version_Compare newer current" using assms(3) by simp
    with late lq q(2) t show ?thesis by (auto simp: R settled_def)
  qed
qed

lemma release_settled:
  assumes "\<not> rs_Updated result"
  shows "settled req current w (run_release en req result current ids digests rel w)"
proof (cases "ParseVersion (rl_Version rel)")
  case (Inl e) then show ?thesis using assms by (simp add: run_release_def settled_def)
next
  case (Inr newer)
  let ?r = "result\<lparr>rs_TargetVersion := version_String newer\<rparr>"
  let ?s = "on_files (StageVerifiedArchive (ee_release en) (rl_ArchivePath rel) (rl_ChecksumsPath rel)) w"
  obtain r1 w1 where s: "?s = (r1, w1)" by (cases ?s)
  note l1 = on_files_log [OF s]
  show ?thesis
  proof (cases "version_Compare newer current < 0 \<or> (\<exists>e. r1 = Inl e)")
    case True
    then show ?thesis using assms l1 by (auto simp: run_release_def Inr s Let_def settled_def)
  next
    case False
    then obtain vd va where r1: "r1 = Inr (vd, va)" "\<not> version_Compare newer current < 0" by (cases r1) auto
    let ?f = "\<lambda>w. case on_files (ExtractCandidate (ee_release en) va) w of
        (Inl e, w) \<Rightarrow> ((?r, Some (RunError e)), w)
      | (Inr (cd, cand), w) \<Rightarrow> with_cleanup cd (run_candidate en req ?r (version_Compare newer current) ids digests cand) w"
    have "settled req current w1 (?f w1)"
    proof -
      obtain r2 w2 where x: "on_files (ExtractCandidate (ee_release en) va) w1 = (r2, w2)" by (cases "on_files (ExtractCandidate (ee_release en) va) w1")
      note l2 = on_files_log [OF x]
      show ?thesis
      proof (cases r2)
        case (Inl e) then show ?thesis using assms l2 by (simp add: x settled_def)
      next
        case (Inr p)
        obtain cd cand where p: "p = (cd, cand)" by (cases p)
        have "settled req current w2 (with_cleanup cd (run_candidate en req ?r (version_Compare newer current) ids digests cand) w2)"
          by (rule settled_cleanup [OF candidate_settled]) (use assms r1 in simp_all)
        then show ?thesis using settled_from [OF l2] by (simp add: x Inr p)
      qed
    qed
    from settled_from [OF l1 settled_cleanup [where f = ?f and d = vd, OF this]] show ?thesis
      using r1 by (simp add: run_release_def Inr s Let_def)
  qed
qed

text \<open>
  C6. An update is a transaction. Whatever the service manager, the probe, the file system and a running
  daemon do: what the update does follows the protocol, so that it takes the snapshot, replaces the binary
  and restores files only after a stop that succeeded and before any start, and starts the original again
  only with its binary and state in place. It reports success only when the new daemon was started and is
  healthy; a failure that claims a full rollback only when the original is healthy again; and it gets
  that far only for a verified release that is newer than the running one.
\<close>

theorem update_is_a_transaction:
  assumes run: "Run en req w = ((result, err), w')" and current: "ParseVersion (rq_CurrentVersion req) = Inr current"
  shows "(wo_log w' = wo_log w \<and> \<not> rs_Updated result \<and> (\<forall>e b i. err \<noteq> Some (UpdateFailure e b i))) \<or>
    (\<exists>q newer. leads Original w q w' \<and> reports result err q \<and> rs_Checked result \<and> \<not> rq_CheckOnly req \<and>
       rs_TargetVersion result = version_String newer \<and> 0 < version_Compare newer current)"
proof -
  let ?result = "\<lparr>rs_CurrentVersion = rq_CurrentVersion req, rs_TargetVersion = [], rs_BackupPath = [], rs_Checked = False,
            rs_Updated = False, rs_RolledBack = False, rs_AlreadyCurrent = False\<rparr>"
  let ?p = "if rq_CheckOnly req then (Inr (req, [], []), w) else on_files (preflight en req) w"
  obtain r1 w1 where p: "?p = (r1, w1)" by (cases ?p)
  have l1: "wo_log w1 = wo_log w" using p on_files_log by (auto split: if_splits)
  have "settled req current w (Run en req w)"
  proof (cases "\<not> ValidatePlatform (rq_GOOS req) (rq_GOARCH req) \<or> (\<exists>e. r1 = Inl e)")
    case True
    then show ?thesis using current p l1 by (auto simp: Run_def Let_def settled_def)
  next
    case False
    then obtain req' ids digests where r1: "r1 = Inr (req', ids, digests)" by (cases r1) auto
    have co: "rq_CheckOnly req' = rq_CheckOnly req" using p r1
      by (auto simp: preflight_def on_files_def io_bind_Inr Let_def split: if_splits prod.splits)
    obtain r2 w2 where rr: "on_files (resolve_release en req') w1 = (r2, w2)" by (cases "on_files (resolve_release en req') w1")
    have l2: "wo_log w2 = wo_log w" using on_files_log [OF rr] l1 by simp
    have R: "Run en req w = (case r2 of Inl e \<Rightarrow> ((?result, Some (RunError (FailWith ''resolve release'' e))), w2)
        | Inr rel \<Rightarrow> with_cleanup (rl_Cleanup rel) (run_release en req' ?result current ids digests rel) w2)"
      using False current by (simp add: Run_def Let_def p r1 rr)
    show ?thesis
    proof (cases r2)
      case (Inl e) then show ?thesis using l2 by (simp add: R settled_def)
    next
      case (Inr rel)
      have "settled req' current w2 (with_cleanup (rl_Cleanup rel) (run_release en req' ?result current ids digests rel) w2)"
        by (rule settled_cleanup [OF release_settled]) simp
      then show ?thesis using settled_from [OF l2] co by (simp add: R Inr settled_def)
    qed
  qed
  then show ?thesis by (simp add: run settled_def)
qed

text \<open>Example: a check against an offline release that is older than the running one.\<close>

definition demo_engine :: engine where
  "demo_engine = \<lparr>ee_release = \<lparr>re_env = demo_env, re_get = (\<lambda>_. Inl ''offline''), re_tag = (\<lambda>_. None), re_gunzip = (\<lambda>_. None),
       re_buildinfo = (\<lambda>_. None), re_tmp = ''/tmp''\<rparr>,
     ee_source = Local \<lparr>ls_ArchivePath = ''/v/a.tar.gz'', ls_ChecksumsPath = ''/v/SHA256SUMS'', ls_Version = ''v1.2.0''\<rparr>,
     ee_stop = (\<lambda>_. None), ee_start = (\<lambda>_. None), ee_health = (\<lambda>_. None), ee_daemon = (\<lambda>_ s. s), ee_lock = Locked,
     ee_lockPath = ''/v/lock'', ee_cancelled = False\<rparr>"

definition demo_request :: update_request where
  "demo_request = \<lparr>rq_CurrentVersion = ''v1.3.0'', rq_RequestedVersion = [], rq_GOOS = ''linux'', rq_GOARCH = ''amd64'', rq_BinaryPath = ''/v/b'',
     rq_PreviousPath = [], rq_BackupDir = ''/v/q'', rq_StatePaths = [''/v/d''], rq_ManagedRoots = [''/v/d''], rq_ImmutablePaths = [], rq_CheckOnly = True\<rparr>"

definition demo_world :: update_world where
  "demo_world = \<lparr>wo_files = demo_fs, wo_running = True, wo_calls = 0, wo_log = []\<rparr>"

definition demo_outcome_of_run :: outcome where "demo_outcome_of_run = Run demo_engine demo_request demo_world"
definition older_version :: version where "older_version = \<lparr>v_Major = 1, v_Minor = 2, v_Patch = 0, v_Pre = []\<rparr>"
definition running_version :: version where "running_version = \<lparr>v_Major = 1, v_Minor = 3, v_Patch = 0, v_Pre = []\<rparr>"

theorem update_is_a_transaction_witness:
  "wo_log (snd demo_outcome_of_run) = [] \<and> \<not> rs_Updated (fst (fst demo_outcome_of_run)) \<and>
   snd (fst demo_outcome_of_run) = Some (RunError (Fail ''refusing to downgrade runeconsole''))"
proof -
  have version: "version_String running_version = ''v1.3.0''" "version_String older_version = ''v1.2.0''"
    and ok: "version_ok running_version" "version_ok older_version" by code_simp+
  have current: "ParseVersion (rq_CurrentVersion demo_request) = Inr running_version"
    using parse_print [OF ok(1)] version by (simp add: demo_request_def)
  have run: "Run demo_engine demo_request demo_world = ((fst (fst demo_outcome_of_run), snd (fst demo_outcome_of_run)), snd demo_outcome_of_run)"
    by (simp add: demo_outcome_of_run_def)
  have older: "ParseVersion ''v1.2.0'' = Inr older_version" using parse_print [OF ok(2)] version by simp
  have late: "version_Compare older_version running_version < 0"
    and platform: "ValidatePlatform ''linux'' ''amd64''" by code_simp+
  have err: "snd (fst demo_outcome_of_run) = Some (RunError (Fail ''refusing to downgrade runeconsole''))"
    and checked: "\<not> rs_Checked (fst (fst demo_outcome_of_run))"
    using current late platform
    by (simp_all add: demo_outcome_of_run_def Run_def resolve_release_def LocalSource_Resolve_def on_files_def io_return_def with_cleanup_def
        run_release_def older Let_def demo_engine_def demo_request_def)
  have empty: "wo_log demo_world = []" by (simp add: demo_world_def)
  from update_is_a_transaction [OF run current] checked show ?thesis unfolding empty err by blast
qed

end
