(* ===== verification/Update_Control.thy ===== *)
theory Update_Control
  imports Update_Engine Base64
begin

text \<open>
  The hand-over of an update between the console daemon and the root worker (the file operations of
  \<open>internal/updater/webupdate.go\<close>): the daemon publishes one request in an inbox by a hard link, the
  worker claims it by a rename and reports in a status file. The JSON codecs and the random bytes are
  arguments; \<open>fs_euid\<close> tells which of the two processes calls.
\<close>

subsection \<open>Errors\<close>

definition ErrUpdateInProgress :: failure where "ErrUpdateInProgress = Fail ''a runeconsole update is already queued or running''"
definition ErrNoUpdateRequest :: failure where "ErrNoUpdateRequest = Fail ''no queued runeconsole update request''"
definition ErrNoUpdateStatus :: failure where "ErrNoUpdateStatus = Fail ''no runeconsole update status''"
definition ErrInvalidUpdateRequest :: failure where "ErrInvalidUpdateRequest = Fail ''invalid runeconsole update request''"
definition ErrInvalidUpdateStatus :: failure where "ErrInvalidUpdateStatus = Fail ''invalid runeconsole update status''"
definition ErrUnsafeUpdateControlPath :: failure where "ErrUnsafeUpdateControlPath = Fail ''unsafe runeconsole update control path''"

lemmas update_errors = ErrUpdateInProgress_def ErrNoUpdateRequest_def ErrNoUpdateStatus_def ErrInvalidUpdateRequest_def
  ErrInvalidUpdateStatus_def ErrUnsafeUpdateControlPath_def

text \<open>\<open>errors.Is\<close>; an error that wraps another comes with the text around it.\<close>

fun errors_Is :: "failure \<Rightarrow> failure \<Rightarrow> bool" where
  "errors_Is (FailWith m c) e = (FailWith m c = e \<or> errors_Is c e)"
| "errors_Is (FailAtWith m n c) e = (FailAtWith m n c = e \<or> errors_Is c e)"
| "errors_Is (Joined cs) e = (Joined cs = e \<or> list_ex (\<lambda>c. errors_Is c e) cs)"
| "errors_Is c e = (c = e)"

abbreviation unsafe_path :: "string \<Rightarrow> failure" where "unsafe_path m \<equiv> FailWith m ErrUnsafeUpdateControlPath"
abbreviation bad_request :: "string \<Rightarrow> failure" where "bad_request m \<equiv> FailWith m ErrInvalidUpdateRequest"
abbreviation bad_status :: "string \<Rightarrow> failure" where "bad_status m \<equiv> FailWith m ErrInvalidUpdateStatus"

definition at_end :: "'a io \<Rightarrow> (files \<Rightarrow> files) \<Rightarrow> 'a io" where
  "at_end m f s = (case m s of (r, s) \<Rightarrow> (r, f s))"

subsection \<open>Messages\<close>

datatype update_phase = PhaseIdle | PhaseQueued | PhaseRunning | PhaseFailed | PhaseSucceeded | PhaseOther string

definition DefaultUpdateControlDir :: string where "DefaultUpdateControlDir = ''/var/lib/runeconsole-updater''"

record control_paths =
  cp_Enabled :: string
  cp_Staging :: string
  cp_Request :: string
  cp_Status :: string

definition DefaultUpdateControlPaths :: control_paths where
  "DefaultUpdateControlPaths =
     \<lparr>cp_Enabled = DefaultUpdateControlDir @ ''/enabled'', cp_Staging = DefaultUpdateControlDir @ ''/staging'',
      cp_Request = DefaultUpdateControlDir @ ''/inbox/request'', cp_Status = DefaultUpdateControlDir @ ''/status.json''\<rparr>"

record job_request =
  jr_JobID :: string
  jr_TargetVersion :: string
  jr_RequestedAt :: time

record job_status =
  js_JobID :: string
  js_CurrentVersion :: string
  js_TargetVersion :: string
  js_State :: update_phase
  js_Error :: string
  js_UpdatedAt :: time

text \<open>Encoding fails for a year that JSON cannot hold; decoding is strict and takes the whole text.\<close>

record control_codec =
  cc_encodeRequest :: "job_request \<Rightarrow> string option"
  cc_decodeRequest :: "string \<Rightarrow> job_request option"
  cc_encodeStatus :: "job_status \<Rightarrow> string option"
  cc_decodeStatus :: "string \<Rightarrow> job_status option"

definition zero_time :: time where "zero_time = - 62135596800 * second"
definition maxUpdateControlBytes :: nat where "maxUpdateControlBytes = 16 * 1024"

definition canonicalReleaseVersion :: "string \<Rightarrow> version option" where
  "canonicalReleaseVersion raw =
     (let trimmed = trim_space raw
      in case ParseVersion trimmed of
           Inl _ \<Rightarrow> None
         | Inr v \<Rightarrow> if version_String v = trimmed then Some v else None)"

definition job_char :: "char \<Rightarrow> bool" where
  "job_char c \<longleftrightarrow> (CHR ''a'' \<le> c \<and> c \<le> CHR ''z'') \<or> (CHR ''A'' \<le> c \<and> c \<le> CHR ''Z'') \<or> is_digit c \<or> c \<in> set ''-_''"

definition validJobID :: "string \<Rightarrow> bool" where
  "validJobID i \<longleftrightarrow> 16 \<le> length i \<and> length i \<le> 64 \<and> list_all job_char i"

definition newUpdateJobID :: "byte list option \<Rightarrow> string option" where
  "newUpdateJobID rnd = map_option (\<lambda>bs. b64_encode b64_url False bs) rnd"

definition validateUpdateJobRequest :: "job_request \<Rightarrow> failure option" where
  "validateUpdateJobRequest r =
     (if \<not> validJobID (jr_JobID r) then Some (bad_request ''invalid job id'')
      else if canonicalReleaseVersion (jr_TargetVersion r) = None then Some (bad_request ''invalid target version'')
      else if jr_RequestedAt r = zero_time then Some (bad_request ''missing request time'')
      else None)"

definition validateUpdateJobStatus :: "job_status \<Rightarrow> failure option" where
  "validateUpdateJobStatus j =
     (if \<not> validJobID (js_JobID j) then Some (bad_status ''invalid job id'')
      else if canonicalReleaseVersion (js_TargetVersion j) = None then Some (bad_status ''invalid target version'')
      else if js_CurrentVersion j \<noteq> [] \<and> canonicalReleaseVersion (js_CurrentVersion j) = None then Some (bad_status ''invalid current version'')
      else if js_State j \<notin> {PhaseQueued, PhaseRunning, PhaseFailed, PhaseSucceeded} then Some (bad_status ''invalid state'')
      else if 1024 < length (js_Error j) then Some (bad_status ''error summary is too long'')
      else if js_UpdatedAt j = zero_time then Some (bad_status ''missing update time'')
      else None)"

subsection \<open>Paths\<close>

definition all_bits :: "nat \<Rightarrow> nat \<Rightarrow> bool" where
  "all_bits m b \<longleftrightarrow> and m b = b"

definition sharedDirectoryAccessAllowed :: "inode \<Rightarrow> int \<Rightarrow> int \<Rightarrow> bool" where
  "sharedDirectoryAccessAllowed info euid egid \<longleftrightarrow>
     \<not> has_bits (perm info) 2 \<and> (in_uid info = 0 \<or> in_uid info = euid) \<and>
     (euid = 0 \<or> (if in_uid info = euid then all_bits (perm info) 192
        else in_gid info = egid \<and> all_bits (perm info) 24 \<and> setgid info))"

definition validateSharedWritableDirectory :: "string \<Rightarrow> inode io" where
  "validateSharedWritableDirectory path =
     io_bind (or_fail (Lstat path) (unsafe_path ''invalid shared directory'')) (\<lambda>info.
     io_bind (io_check (is_dir info \<and> \<not> has_bits (perm info) 2) (unsafe_path ''invalid shared directory'')) (\<lambda>_. \<lambda>s.
     io_bind (io_check (sharedDirectoryAccessAllowed info (fs_euid s) (fs_egid s)) (unsafe_path ''unsafe shared directory permissions'')) (\<lambda>_.
     io_bind (or_fail (validateSecureAncestors (Dir path)) (unsafe_path ''insecure shared directory ancestor'')) (\<lambda>_.
     io_return info)) s))"

definition check_control :: "bool \<Rightarrow> string \<Rightarrow> unit io" where
  "check_control requireWritable path =
     (if requireWritable then io_bind (validateSharedWritableDirectory path) (\<lambda>_. io_return ())
      else fail_with (validateSecureAncestors path) (\<lambda>_. unsafe_path ''insecure path''))"

definition resolvedControlPath :: "string \<Rightarrow> bool \<Rightarrow> string io" where
  "resolvedControlPath path requireWritableParent =
     (case cleanAbsolute path of
        None \<Rightarrow> io_fail (unsafe_path ''path must be absolute'')
      | Some clean \<Rightarrow>
     io_bind (or_fail (EvalSymlinks (Dir clean)) (unsafe_path ''resolve parent'')) (\<lambda>parent.
     io_bind (check_control requireWritableParent parent) (\<lambda>_.
     io_return (Join parent (Base clean)))))"

definition resolvedControlDirectory :: "string \<Rightarrow> bool \<Rightarrow> string io" where
  "resolvedControlDirectory path requireWritable =
     (case cleanAbsolute path of
        None \<Rightarrow> io_fail (unsafe_path ''directory must be absolute'')
      | Some clean \<Rightarrow>
     io_bind (or_fail (EvalSymlinks clean) (unsafe_path ''resolve directory'')) (\<lambda>resolved.
     io_bind (check_control requireWritable resolved) (\<lambda>_. io_return resolved)))"

text \<open>The inbox as the worker checks it: owned by root or itself, and set-gid when the group may write.\<close>

definition resolvedConsumerRequestPath :: "string \<Rightarrow> (string \<times> inode) io" where
  "resolvedConsumerRequestPath path =
     (case cleanAbsolute path of
        None \<Rightarrow> io_fail (unsafe_path ''path must be absolute'')
      | Some clean \<Rightarrow>
     io_bind (or_fail (EvalSymlinks (Dir clean)) (unsafe_path ''resolve inbox'')) (\<lambda>parent.
     io_bind (or_fail (Lstat parent) (unsafe_path ''insecure inbox'')) (\<lambda>info.
     io_bind (io_check (is_dir info \<and> \<not> has_bits (perm info) 2) (unsafe_path ''insecure inbox'')) (\<lambda>_. \<lambda>s.
     io_bind (io_check (in_uid info = 0 \<or> in_uid info = fs_euid s) (unsafe_path ''unsafe inbox owner'')) (\<lambda>_.
     io_bind (io_check (has_bits (perm info) 16 \<longrightarrow> setgid info) (unsafe_path ''shared inbox must be setgid'')) (\<lambda>_.
     io_bind (or_fail (validateSecureAncestors (Dir parent)) (unsafe_path ''insecure inbox ancestor'')) (\<lambda>_.
     io_return (Join parent (Base clean), info)))) s))))"

definition capabilityEnabled :: "string \<Rightarrow> files \<Rightarrow> bool \<times> files" where
  "capabilityEnabled path s =
     (case resolvedControlPath path False s of
        (Inl _, s) \<Rightarrow> (False, s)
      | (Inr resolved, s) \<Rightarrow>
          (case Lstat resolved s of
             (Inl _, s) \<Rightarrow> (False, s)
           | (Inr info, s) \<Rightarrow>
               (regular (in_kind info) \<and> \<not> group_world_writable info \<and> (in_uid info = 0 \<or> in_uid info = fs_euid s), s)))"

subsection \<open>Opening control files\<close>

text \<open>The failures that the callers tell apart: the file is missing, or it is not to be trusted.\<close>

definition openRawControlFile :: "string \<Rightarrow> (inode \<times> string) io" where
  "openRawControlFile path s =
     (case OpenNoFollow path s of
        (Inl ENOENT, s) \<Rightarrow> (Inl (Sys ENOENT), s)
      | (Inl _, s) \<Rightarrow> (Inl (unsafe_path ''open control file''), s)
      | (Inr (info, content), s) \<Rightarrow>
          (if regular (in_kind info) then Inr (info, content) else Inl (unsafe_path ''unsafe control file''), s))"

definition openBoundedRequestFile :: "string \<Rightarrow> inode \<Rightarrow> int \<Rightarrow> (inode \<times> string) io" where
  "openBoundedRequestFile path parentInfo expectedUID =
     io_bind (openRawControlFile path) (\<lambda>(info, content). \<lambda>s.
     io_bind (io_check (1 \<le> links info s \<and> links info s \<le> 2 \<and> perm info = 384 \<and> in_gid info = in_gid parentInfo)
       (unsafe_path ''unsafe request identity'')) (\<lambda>_.
     io_bind (io_check (in_uid info = expectedUID) (unsafe_path ''request is not owned by the expected daemon uid'')) (\<lambda>_.
     io_return (info, content))) s)"

definition openBoundedStatusFile :: "string \<Rightarrow> (inode \<times> string) io" where
  "openBoundedStatusFile path =
     io_bind (openRawControlFile path) (\<lambda>(info, content). \<lambda>s.
     io_bind (io_check (links info s = 1 \<and> \<not> group_world_writable info \<and> (in_uid info = 0 \<or> in_uid info = fs_euid s))
       (unsafe_path ''unsafe status identity'')) (\<lambda>_.
     io_return (info, content)) s)"

text \<open>A missing file is an answer of its own.\<close>

definition or_missing :: "'a io \<Rightarrow> failure \<Rightarrow> 'a io" where
  "or_missing m missing = fail_with m (\<lambda>e. if e = Sys ENOENT then missing else e)"

text \<open>Reading at most one byte more than the bound and closing.\<close>

definition read_bounded :: "string \<Rightarrow> failure \<Rightarrow> failure \<Rightarrow> string io" where
  "read_bounded content broken large =
     io_bind (or_fail Close broken) (\<lambda>_.
     io_bind (io_check (length content \<le> maxUpdateControlBytes) large) (\<lambda>_. io_return content))"

definition decode_request :: "control_codec \<Rightarrow> string \<Rightarrow> job_request io" where
  "decode_request cc body =
     (case cc_decodeRequest cc body of
        None \<Rightarrow> io_fail (bad_request ''invalid JSON'')
      | Some r \<Rightarrow> io_bind (io_valid (validateUpdateJobRequest r)) (\<lambda>_. io_return r))"

subsection \<open>The daemon publishes\<close>

definition request_name :: "string \<Rightarrow> string" where
  "request_name jobID = ''.request-'' @ jobID"

definition discard :: "string \<Rightarrow> files \<Rightarrow> files" where
  "discard p s = snd (Remove p s)"

text \<open>The three calls are all made, and their errors joined.\<close>

definition write_synced :: "string \<Rightarrow> string \<Rightarrow> bool io" where
  "write_synced p body =
     io_bind (io_try (WriteAll p body)) (\<lambda>w. io_bind (io_try (Sync p)) (\<lambda>y. io_bind (io_try Close) (\<lambda>x.
     io_return (w = Inr () \<and> y = Inr () \<and> x = Inr ()))))"

definition stageUpdateRequest :: "string \<Rightarrow> string \<Rightarrow> string \<Rightarrow> string io" where
  "stageUpdateRequest directory jobID body =
     (let tempPath = Join directory (request_name jobID) in
     io_bind (fail_with (io_sys (CreateExcl tempPath 384)) (FailWith ''stage update request'')) (\<lambda>_.
     io_bind (on_fail (io_bind (write_synced tempPath body) (\<lambda>ok. io_check ok (Fail ''persist update request failed'')))
       (discard tempPath)) (\<lambda>_. io_return tempPath)))"

definition removeStagedUpdateRequest :: "string \<Rightarrow> files \<Rightarrow> files" where
  "removeStagedUpdateRequest path s = snd (Sync (Dir path) (discard path s))"

text \<open>What becomes of the attempt to publish; a link never replaces a request that is already there.\<close>

definition after_link :: "string \<Rightarrow> errno + unit \<Rightarrow> unit io" where
  "after_link resolvedRequest linkErr s =
     (case linkErr of
        Inl EEXIST \<Rightarrow> (Inl ErrUpdateInProgress, s)
      | Inl e \<Rightarrow> (Inl (FailWith ''publish update request'' (Sys e)), s)
      | Inr _ \<Rightarrow>
          on_fail (or_fail (Sync (Dir resolvedRequest)) (Fail ''persist update request directory failed'')) (discard resolvedRequest) s)"

definition publish :: "(string \<Rightarrow> string \<Rightarrow> unit sys) \<Rightarrow> string \<Rightarrow> string \<Rightarrow> string \<Rightarrow> string \<Rightarrow> unit io" where
  "publish link tempPath resolvedRequest jobID body s =
     (case link tempPath resolvedRequest s of
        (Inl EXDEV, s) \<Rightarrow>
          io_bind (stageUpdateRequest (Dir resolvedRequest) jobID body) (\<lambda>inboxTempPath.
            at_end (\<lambda>s. case link inboxTempPath resolvedRequest s of (r, s) \<Rightarrow> after_link resolvedRequest r s)
              (removeStagedUpdateRequest inboxTempPath)) s
      | (r, s) \<Rightarrow> after_link resolvedRequest r s)"

definition enqueueUpdateRequestWithLink ::
  "control_codec \<Rightarrow> (string \<Rightarrow> string \<Rightarrow> unit sys) \<Rightarrow> string \<Rightarrow> string \<Rightarrow> job_request \<Rightarrow> unit io" where
  "enqueueUpdateRequestWithLink cc link stagingDir requestPath request =
     io_bind (io_valid (validateUpdateJobRequest request)) (\<lambda>_.
     case cc_encodeRequest cc request of
       None \<Rightarrow> io_fail (bad_request ''encode request'')
     | Some text \<Rightarrow>
     let body = text @ [newline] in
     io_bind (resolvedControlDirectory stagingDir True) (\<lambda>resolvedStaging.
     io_bind (resolvedControlPath requestPath True) (\<lambda>resolvedRequest.
     io_bind (stageUpdateRequest resolvedStaging (jr_JobID request) body) (\<lambda>tempPath.
     at_end (publish link tempPath resolvedRequest (jr_JobID request) body) (removeStagedUpdateRequest tempPath)))))"

definition enqueueUpdateRequest :: "control_codec \<Rightarrow> string \<Rightarrow> string \<Rightarrow> job_request \<Rightarrow> unit io" where
  "enqueueUpdateRequest cc = enqueueUpdateRequestWithLink cc Link"

definition peekUpdateRequest :: "control_codec \<Rightarrow> string \<Rightarrow> job_request io" where
  "peekUpdateRequest cc path =
     (case cleanAbsolute path of
        None \<Rightarrow> io_fail (unsafe_path ''request path must be absolute'')
      | Some clean \<Rightarrow>
     io_bind (or_fail (EvalSymlinks (Dir clean)) (unsafe_path ''resolve inbox'')) (\<lambda>parent.
     io_bind (validateSharedWritableDirectory parent) (\<lambda>parentInfo. \<lambda>s.
     io_bind (or_missing (openBoundedRequestFile (Join parent (Base clean)) parentInfo (fs_euid s)) ErrNoUpdateRequest) (\<lambda>(info, content).
     io_bind (read_bounded content (bad_request ''read queued request'') (bad_request ''read queued request'')) (\<lambda>body.
     decode_request cc body)) s)))"

subsection \<open>The worker claims\<close>

definition claim_name :: "string \<Rightarrow> string" where
  "claim_name claimID = ''.request-claim-'' @ claimID"

definition own_claim :: "inode \<Rightarrow> unit io" where
  "own_claim info s =
     (if fs_euid s = 0 then
        io_bind (or_fail (FChown info 0 0) (unsafe_path ''claim request ownership'')) (\<lambda>_.
        or_fail (FChmod info 384) (unsafe_path ''secure claimed request'')) s
      else (Inr (), s))"

text \<open>Reading the claimed file, which no one else can replace any more.\<close>

definition read_claim :: "control_codec \<Rightarrow> string \<Rightarrow> inode \<Rightarrow> int \<Rightarrow> job_request io" where
  "read_claim cc claim parentInfo expectedUID =
     io_bind (openBoundedRequestFile claim parentInfo expectedUID) (\<lambda>(info, content).
     io_bind (own_claim info) (\<lambda>_.
     io_bind (read_bounded content (bad_request ''read request'') (bad_request ''request exceeds size limit'')) (\<lambda>body.
     decode_request cc body)))"

text \<open>Both directories are synchronised, whatever the first attempt says.\<close>

definition sync_both :: "string \<Rightarrow> string \<Rightarrow> bool io" where
  "sync_both a b = io_bind (io_try (Sync a)) (\<lambda>x. io_bind (io_try (Sync b)) (\<lambda>y. io_return (x = Inr () \<and> y = Inr ())))"

definition take_claim :: "control_codec \<Rightarrow> string \<Rightarrow> string \<Rightarrow> string \<Rightarrow> inode \<Rightarrow> int \<Rightarrow> job_request io" where
  "take_claim cc resolved claimRoot claim parentInfo expectedUID s =
     (case Rename resolved claim s of
        (Inl ENOENT, s) \<Rightarrow> (Inl ErrNoUpdateRequest, s)
      | (Inl e, s) \<Rightarrow> (Inl (FailWith ''claim update request'' (Sys e)), s)
      | (Inr _, s) \<Rightarrow>
          io_bind (on_fail (io_bind (sync_both (Dir resolved) claimRoot) (\<lambda>ok. io_check ok (Fail ''persist update request claim failed'')))
            (discard claim)) (\<lambda>_.
          at_end (read_claim cc claim parentInfo expectedUID) (removeStagedUpdateRequest claim)) s)"

definition ConsumeUpdateRequestForUID :: "control_codec \<Rightarrow> byte list option \<Rightarrow> string \<Rightarrow> int \<Rightarrow> job_request io" where
  "ConsumeUpdateRequestForUID cc rnd path expectedUID =
     (if expectedUID < 0 then io_fail (unsafe_path ''invalid producer uid'')
      else
     io_bind (resolvedConsumerRequestPath path) (\<lambda>(resolved, parentInfo).
     case newUpdateJobID rnd of
       None \<Rightarrow> io_fail (Fail ''generate request claim id failed'')
     | Some claimID \<Rightarrow>
     let claimRoot = Dir (Dir resolved) in
     io_bind (or_fail (validateSecureAncestors claimRoot) (unsafe_path ''insecure claim directory'')) (\<lambda>_.
     take_claim cc resolved claimRoot (Join claimRoot (claim_name claimID)) parentInfo expectedUID)))"

definition ConsumeUpdateRequest :: "control_codec \<Rightarrow> byte list option \<Rightarrow> string \<Rightarrow> job_request io" where
  "ConsumeUpdateRequest cc rnd path s = ConsumeUpdateRequestForUID cc rnd path (fs_euid s) s"

subsection \<open>The status file\<close>

text \<open>A status without a time gets the current one.\<close>

definition prepare_status :: "string \<Rightarrow> string \<Rightarrow> inode \<Rightarrow> unit io" where
  "prepare_status temp body parentInfo =
     io_bind (or_fail (Chmod temp 416) (Fail ''secure update status staging file failed'')) (\<lambda>_. \<lambda>s.
     io_bind (if fs_euid s = 0 then or_fail (Lchown temp 0 (in_gid parentInfo)) (Fail ''set update status ownership failed'') else io_return ()) (\<lambda>_.
     io_bind (or_fail (WriteAll temp body) (Fail ''write update status failed'')) (\<lambda>_.
     io_bind (or_fail (Sync temp) (Fail ''sync update status failed'')) (\<lambda>_.
     or_fail Close (Fail ''close update status failed'')))) s)"

definition WriteUpdateStatus :: "control_codec \<Rightarrow> time \<Rightarrow> string \<Rightarrow> job_status \<Rightarrow> unit io" where
  "WriteUpdateStatus cc now path status =
     (let status = (if js_UpdatedAt status = zero_time then status\<lparr>js_UpdatedAt := now\<rparr> else status) in
     io_bind (io_valid (validateUpdateJobStatus status)) (\<lambda>_.
     case cc_encodeStatus cc status of
       None \<Rightarrow> io_fail (bad_status ''encode status'')
     | Some text \<Rightarrow>
     io_bind (resolvedControlPath path True) (\<lambda>resolved.
     let parent = Dir resolved in
     io_bind (or_fail (Stat parent) (unsafe_path ''inspect status directory'')) (\<lambda>parentInfo.
     io_bind (or_fail (CreateTemp parent ''.status-'') (Fail ''create update status staging file failed'')) (\<lambda>temp.
     io_bind (on_fail
       (io_bind (prepare_status temp (text @ [newline]) parentInfo) (\<lambda>_.
        or_fail (Rename temp resolved) (Fail ''activate update status failed'')))
       (discard temp)) (\<lambda>_.
     or_fail (Sync parent) (Fail ''sync update status directory failed'')))))))"

definition ReadUpdateStatus :: "control_codec \<Rightarrow> string \<Rightarrow> job_status io" where
  "ReadUpdateStatus cc path =
     io_bind (resolvedControlPath path False) (\<lambda>resolved.
     io_bind (or_fail (Stat (Dir resolved)) (unsafe_path ''inspect status directory'')) (\<lambda>_.
     io_bind (or_missing (openBoundedStatusFile resolved) ErrNoUpdateStatus) (\<lambda>(info, content).
     io_bind (read_bounded content (bad_status ''read status'') (bad_status ''read status'')) (\<lambda>body.
     case cc_decodeStatus cc body of
       None \<Rightarrow> io_fail (bad_status ''invalid JSON'')
     | Some status \<Rightarrow> io_bind (io_valid (validateUpdateJobStatus status)) (\<lambda>_. io_return status)))))"

end
