(* ===== verification/Web_Update.thy ===== *)
theory Web_Update
  imports Update_Control
begin

text \<open>
  The update controller of the console daemon (\<open>internal/updater/webupdate.go\<close>): what the browser is
  told about updates and what it may request. The clock, the release source and the outcome of waiting
  for another caller's check are arguments; the controller's cache and its one check in flight are state.
\<close>

subsection \<open>State\<close>

definition ErrWebUpdateNotCapable :: failure where "ErrWebUpdateNotCapable = Fail ''web update is not capable on this installation''"
definition ErrUpdateCheckFailed :: failure where "ErrUpdateCheckFailed = Fail ''check latest runeconsole release failed''"
definition ErrUpdateCheckRequired :: failure where "ErrUpdateCheckRequired = Fail ''a fresh update check is required''"
definition ErrUpdateTargetMismatch :: failure where
  "ErrUpdateTargetMismatch = Fail ''requested update target does not match the latest checked release''"
definition ErrNoUpdateAvailable :: failure where "ErrNoUpdateAvailable = Fail ''no newer runeconsole release is available''"

lemmas control_errors = ErrWebUpdateNotCapable_def ErrUpdateCheckFailed_def ErrUpdateCheckRequired_def ErrUpdateTargetMismatch_def ErrNoUpdateAvailable_def

definition DefaultWebUpdateCacheTTL :: int where "DefaultWebUpdateCacheTTL = 3600 * second"
definition DefaultUpdateHeartbeatInterval :: int where "DefaultUpdateHeartbeatInterval = 15 * second"
definition DefaultUpdateStaleAfter :: int where "DefaultUpdateStaleAfter = 5 * 60 * second"

record web_update_status =
  wu_CurrentVersion :: string
  wu_TargetVersion :: string
  wu_UpdateAvailable :: bool
  wu_Capable :: bool
  wu_State :: update_phase

record controller_options =
  co_CurrentVersion :: string
  co_GOOS :: string
  co_GOARCH :: string
  co_Paths :: control_paths
  co_CacheTTL :: int
  co_StaleAfter :: int

text \<open>The check in flight carries the number of the call; \<open>ctl_calls\<close> counts the calls that were started.\<close>

record controller =
  ctl_currentVersion :: string
  ctl_goos :: string
  ctl_goarch :: string
  ctl_paths :: control_paths
  ctl_cacheTTL :: int
  ctl_staleAfter :: int
  ctl_cached :: "string \<times> time"
  ctl_inFlight :: "nat option"
  ctl_calls :: nat

definition default_paths :: "control_paths \<Rightarrow> control_paths" where
  "default_paths p =
     \<lparr>cp_Enabled = or_default (cp_Enabled p) (cp_Enabled DefaultUpdateControlPaths), cp_Staging = or_default (cp_Staging p) (cp_Staging DefaultUpdateControlPaths),
      cp_Request = or_default (cp_Request p) (cp_Request DefaultUpdateControlPaths), cp_Status = or_default (cp_Status p) (cp_Status DefaultUpdateControlPaths)\<rparr>"

definition NewWebController :: "string \<Rightarrow> string \<Rightarrow> controller_options \<Rightarrow> controller" where
  "NewWebController goos goarch opts =
     \<lparr>ctl_currentVersion = trim_space (co_CurrentVersion opts), ctl_goos = or_default (co_GOOS opts) goos, ctl_goarch = or_default (co_GOARCH opts) goarch,
      ctl_paths = default_paths (co_Paths opts),
      ctl_cacheTTL = (if co_CacheTTL opts \<le> 0 then DefaultWebUpdateCacheTTL else co_CacheTTL opts),
      ctl_staleAfter = (if co_StaleAfter opts \<le> 0 then DefaultUpdateStaleAfter else co_StaleAfter opts),
      ctl_cached = ([], zero_time), ctl_inFlight = None, ctl_calls = 0\<rparr>"

subsection \<open>The base of every answer\<close>

definition reconcilePersistedState :: "job_status \<Rightarrow> version \<Rightarrow> time \<Rightarrow> int \<Rightarrow> update_phase" where
  "reconcilePersistedState persisted current now staleAfter =
     (if js_State persisted \<noteq> PhaseRunning then js_State persisted
      else if (case canonicalReleaseVersion (js_TargetVersion persisted) of None \<Rightarrow> False | Some v \<Rightarrow> 0 \<le> version_Compare current v) then PhaseSucceeded
      else if js_UpdatedAt persisted < now \<and> staleAfter < now - js_UpdatedAt persisted then PhaseFailed
      else js_State persisted)"

definition normalizeTerminalState :: "update_phase \<Rightarrow> string \<Rightarrow> string \<Rightarrow> update_phase" where
  "normalizeTerminalState st latest jobTarget =
     (if (st = PhaseFailed \<or> st = PhaseSucceeded) \<and> jobTarget \<noteq> latest then PhaseIdle else st)"

definition busy :: "update_phase \<Rightarrow> bool" where
  "busy st \<longleftrightarrow> st = PhaseQueued \<or> st = PhaseRunning"

text \<open>The inbox counts as the queued state until the worker has written its first status.\<close>

definition with_inbox :: "control_codec \<Rightarrow> controller \<Rightarrow> web_update_status \<Rightarrow> version \<Rightarrow> files \<Rightarrow> (web_update_status \<times> version option \<times> failure option) \<times> files" where
  "with_inbox cc c status current s =
     (if busy (wu_State status) then ((status, Some current, None), s)
      else case peekUpdateRequest cc (cp_Request (ctl_paths c)) s of
        (Inr r, s) \<Rightarrow> ((status\<lparr>wu_State := PhaseQueued, wu_TargetVersion := jr_TargetVersion r\<rparr>, Some current, None), s)
      | (Inl e, s) \<Rightarrow> (if errors_Is e ErrNoUpdateRequest then (status, Some current, None) else (status, None, Some e), s))"

text \<open>No version in the answer means that web updates are not possible here.\<close>

definition baseStatus :: "control_codec \<Rightarrow> controller \<Rightarrow> time \<Rightarrow> files \<Rightarrow> (web_update_status \<times> version option \<times> failure option) \<times> files" where
  "baseStatus cc c now s =
     (let status = \<lparr>wu_CurrentVersion = ctl_currentVersion c, wu_TargetVersion = [], wu_UpdateAvailable = False, wu_Capable = False, wu_State = PhaseIdle\<rparr>
      in case canonicalReleaseVersion (ctl_currentVersion c) of
        None \<Rightarrow> ((status, None, None), s)
      | Some current \<Rightarrow>
          if \<not> ValidatePlatform (ctl_goos c) (ctl_goarch c) then ((status, None, None), s)
          else case capabilityEnabled (cp_Enabled (ctl_paths c)) s of (enabled, s) \<Rightarrow>
            if \<not> enabled then ((status, None, None), s)
            else
              let status = status\<lparr>wu_CurrentVersion := version_String current, wu_Capable := True\<rparr>
              in case ReadUpdateStatus cc (cp_Status (ctl_paths c)) s of
                (Inr persisted, s) \<Rightarrow>
                  with_inbox cc c (status\<lparr>wu_State := reconcilePersistedState persisted current now (ctl_staleAfter c),
                      wu_TargetVersion := js_TargetVersion persisted\<rparr>) current s
              | (Inl e, s) \<Rightarrow>
                  if errors_Is e ErrNoUpdateStatus then with_inbox cc c status current s else ((status, None, Some e), s))"

subsection \<open>The latest version\<close>

text \<open>A call finds a fresh version, waits for the call in flight, or asks the source itself.\<close>

datatype latest_step = Fresh string | Wait nat | Ask nat

definition latest_begin :: "time \<Rightarrow> controller \<Rightarrow> latest_step \<times> controller" where
  "latest_begin now c =
     (if fst (ctl_cached c) \<noteq> [] \<and> now < snd (ctl_cached c) then (Fresh (fst (ctl_cached c)), c)
      else case ctl_inFlight c of
        Some k \<Rightarrow> (Wait k, c)
      | None \<Rightarrow> (Ask (ctl_calls c), c\<lparr>ctl_inFlight := Some (ctl_calls c), ctl_calls := Suc (ctl_calls c)\<rparr>))"

definition checked_version :: "failure + string \<Rightarrow> failure + string" where
  "checked_version r =
     (case r of
        Inl e \<Rightarrow> Inl e
      | Inr v \<Rightarrow>
          (case canonicalReleaseVersion v of
             None \<Rightarrow> Inl (Fail ''release version must be canonical vMAJOR.MINOR.PATCH[-PRERELEASE]'')
           | Some parsed \<Rightarrow> Inr (version_String parsed)))"

definition latest_end :: "failure + string \<Rightarrow> time \<Rightarrow> controller \<Rightarrow> (failure + string) \<times> controller" where
  "latest_end answer now c =
     (let r = checked_version answer
      in (r, c\<lparr>ctl_cached := (case r of Inl _ \<Rightarrow> ctl_cached c | Inr v \<Rightarrow> (v, now + ctl_cacheTTL c)), ctl_inFlight := None\<rparr>))"

text \<open>What surrounds one request of a browser: the clock, the source, and what a caller that waits is given.\<close>

record check_env =
  ck_now :: time
  ck_later :: time
  ck_source :: "failure + string"
  ck_joined :: "nat \<Rightarrow> failure + string"
  ck_cancelled :: bool
  ck_random :: "byte list option"

definition latestVersion :: "check_env \<Rightarrow> controller \<Rightarrow> (failure + string) \<times> controller" where
  "latestVersion ck c =
     (case latest_begin (ck_now ck) c of
        (Fresh v, c) \<Rightarrow> (Inr v, c)
      | (Wait k, c) \<Rightarrow> (ck_joined ck k, c)
      | (Ask k, c) \<Rightarrow> latest_end (ck_source ck) (ck_later ck) c)"

definition freshCachedVersion :: "time \<Rightarrow> controller \<Rightarrow> string option" where
  "freshCachedVersion now c =
     (if fst (ctl_cached c) = [] \<or> \<not> now < snd (ctl_cached c) then None else Some (fst (ctl_cached c)))"

subsection \<open>Requests\<close>


definition with_latest :: "web_update_status \<Rightarrow> version \<Rightarrow> version \<Rightarrow> web_update_status" where
  "with_latest status latest current =
     status\<lparr>wu_TargetVersion := version_String latest, wu_UpdateAvailable := (0 < version_Compare latest current)\<rparr>"

definition Check :: "control_codec \<Rightarrow> check_env \<Rightarrow> controller \<times> files \<Rightarrow> (web_update_status \<times> failure option) \<times> controller \<times> files" where
  "Check cc ck w =
     (case w of (c, s) \<Rightarrow>
      case baseStatus cc c (ck_now ck) s of
        ((status, _, Some e), s) \<Rightarrow> ((status, Some e), c, s)
      | ((status, None, None), s) \<Rightarrow> ((status, None), c, s)
      | ((status, Some current, None), s) \<Rightarrow>
          if busy (wu_State status) then
            (((case canonicalReleaseVersion (wu_TargetVersion status) of
                 None \<Rightarrow> status
               | Some v \<Rightarrow> status\<lparr>wu_UpdateAvailable := (0 < version_Compare v current)\<rparr>), None), c, s)
          else if ck_cancelled ck then ((status, Some (Fail ''context canceled'')), c, s)
          else case latestVersion ck c of
            (Inl e, c) \<Rightarrow> ((status, Some (FailWith ''latest version'' ErrUpdateCheckFailed)), c, s)
          | (Inr raw, c) \<Rightarrow>
              (case canonicalReleaseVersion raw of
                 None \<Rightarrow> ((status, Some (FailWith ''latest version'' ErrUpdateCheckFailed)), c, s)
               | Some latest \<Rightarrow>
                   (((with_latest status latest current)
                      \<lparr>wu_State := normalizeTerminalState (wu_State status) (version_String latest) (wu_TargetVersion status)\<rparr>, None), c, s)))"

definition Request :: "control_codec \<Rightarrow> check_env \<Rightarrow> string \<Rightarrow> controller \<times> files \<Rightarrow> (web_update_status \<times> failure option) \<times> controller \<times> files" where
  "Request cc ck requested w =
     (case w of (c, s) \<Rightarrow>
      case baseStatus cc c (ck_now ck) s of
        ((status, _, Some e), s) \<Rightarrow> ((status, Some e), c, s)
      | ((status, None, None), s) \<Rightarrow> ((status, Some ErrWebUpdateNotCapable), c, s)
      | ((status, Some current, None), s) \<Rightarrow>
          if ck_cancelled ck then ((status, Some (Fail ''context canceled'')), c, s)
          else if busy (wu_State status) then ((status, Some ErrUpdateInProgress), c, s)
          else case freshCachedVersion (ck_now ck) c of
            None \<Rightarrow> ((status, Some ErrUpdateCheckRequired), c, s)
          | Some raw \<Rightarrow>
              (case canonicalReleaseVersion raw of
                 None \<Rightarrow> ((status, Some (FailWith ''latest version'' ErrUpdateCheckRequired)), c, s)
               | Some latest \<Rightarrow>
                   (let status = with_latest status latest current
                    in if requested \<noteq> wu_TargetVersion status then ((status, Some ErrUpdateTargetMismatch), c, s)
                       else if \<not> wu_UpdateAvailable status then ((status, Some ErrNoUpdateAvailable), c, s)
                       else case newUpdateJobID (ck_random ck) of
                         None \<Rightarrow> ((status, Some (Fail ''generate update job id failed'')), c, s)
                       | Some jobID \<Rightarrow>
                           (case enqueueUpdateRequest cc (cp_Staging (ctl_paths c)) (cp_Request (ctl_paths c))
                               \<lparr>jr_JobID = jobID, jr_TargetVersion = wu_TargetVersion status, jr_RequestedAt = ck_later ck\<rparr> s of
                              (Inl e, s) \<Rightarrow> ((status, Some e), c, s)
                            | (Inr _, s) \<Rightarrow> ((status\<lparr>wu_State := PhaseQueued\<rparr>, None), c, s)))))"

end
