(* ===== verification/Entry_Laws.thy ===== *)
theory Entry_Laws
  imports File_Laws
begin

text \<open>
  Laws of the calls that change one entry: creating, writing, linking, renaming and removing a file
  at a clean path. Directories are compared without their time of change, which every change of an entry stamps.
\<close>

subsection \<open>What others see\<close>

definition seen :: "files \<Rightarrow> string list \<Rightarrow> inode option" where
  "seen s v = (case look s v of None \<Rightarrow> None | Some i \<Rightarrow> Some (if is_dir i then i\<lparr>in_mtime := 0\<rparr> else i))"

text \<open>Nothing but the entry at \<open>p\<close>, and what lies below it, has changed.\<close>

definition only :: "string list \<Rightarrow> files \<Rightarrow> files \<Rightarrow> bool" where
  "only p s s' \<longleftrightarrow> (\<forall>v. \<not> prefix p v \<longrightarrow> seen s' v = seen s v) \<and> fs_euid s' = fs_euid s \<and> fs_egid s' = fs_egid s"

lemma is_dir_untimed [simp]: "is_dir (in_mtime_update f i) = is_dir i"
  by (simp add: is_dir_def)

lemma seen_None [simp]: "seen s v = None \<longleftrightarrow> look s v = None"
  by (simp add: seen_def split: option.split)

lemma seen_cong: "look s' v = look s v \<Longrightarrow> seen s' v = seen s v"
  by (simp add: seen_def)

lemma seen_file: "seen s v = Some i \<Longrightarrow> \<not> is_dir i \<Longrightarrow> look s v = Some i"
  by (auto simp: seen_def split: option.splits if_splits)

lemma dir_at_seen: "dir_at s v \<longleftrightarrow> (case seen s v of None \<Rightarrow> False | Some i \<Rightarrow> is_dir i)"
  by (auto simp: dir_at_def seen_def split: option.split)

lemma dir_seen: "seen s' v = seen s v \<Longrightarrow> dir_at s' v = dir_at s v"
  by (simp add: dir_at_seen)

lemma file_seen: "seen s' v = seen s v \<Longrightarrow> look s v = Some i \<Longrightarrow> \<not> is_dir i \<Longrightarrow> look s' v = Some i"
  using seen_file [of s' v i] by (simp add: seen_def)

lemma unchanged_look: "unchanged s s' \<Longrightarrow> look s' = look s"
  by (simp add: unchanged_def look_def)

lemma unchanged_only: "unchanged s s' \<Longrightarrow> only p s s'"
  using unchanged_look [of s s'] by (simp add: only_def unchanged_def seen_def)

lemma only_refl [simp]: "only p s s" by (simp add: only_def)

lemma only_trans: "only p s s' \<Longrightarrow> only p s' s'' \<Longrightarrow> only p s s''"
  by (simp add: only_def)

lemma only_seen: "only p s s' \<Longrightarrow> \<not> prefix p v \<Longrightarrow> seen s' v = seen s v"
  by (simp add: only_def)

lemma only_plain: "only p s s' \<Longrightarrow> \<not> strict_prefix p v \<Longrightarrow> plain s v \<Longrightarrow> plain s' v"
  unfolding plain_def using dir_seen only_seen by (metis prefix_order.le_less_trans)

lemma only_ticked [simp]: "only p s (ticked s)"
  by (simp add: only_def seen_def)

lemma plain_parent: "p \<noteq> [] \<Longrightarrow> plain s p \<Longrightarrow> dir_at s (butlast p)"
  using plain_snoc [of s "butlast p" "last p"] by simp

lemma butlast_ne: "p \<noteq> [] \<Longrightarrow> butlast p \<noteq> p" "p \<noteq> [] \<Longrightarrow> \<not> prefix p (butlast p)"
proof -
  have "p \<noteq> [] \<Longrightarrow> length (butlast p) < length p" by simp
  then show "p \<noteq> [] \<Longrightarrow> butlast p \<noteq> p" "p \<noteq> [] \<Longrightarrow> \<not> prefix p (butlast p)"
    using prefix_length_le [of p "butlast p"] by (auto simp del: length_butlast)
qed

subsection \<open>Creating and changing a file\<close>

lemma create_law:
  assumes p: "names p" "p \<noteq> []" "plain s p" and c: "create_at k mode (abs_path p) s = (r, s')"
  shows "only p s s' \<and> (r = Inr () \<and> look s p = None \<and> look s' p = Some (new_inode k mode p s) \<or> (\<exists>e. r = Inl e) \<and> look s' = look s)"
proof (cases "fs_fault s (fs_calls s) \<or> look s p \<noteq> None")
  case True
  then show ?thesis using c entry_plain [OF p] by (auto simp: create_at_def sys_call_cases split: if_splits)
next
  case False
  then have r: "r = Inr ()" "s' = add_entry k mode p (ticked s)"
    using c entry_plain [OF p] by (auto simp: create_at_def sys_call_cases)
  have new: "new_inode k mode p (ticked s) = new_inode k mode p s" by (simp add: new_inode_def setgid_of_def Let_def split: option.split)
  have l: "look s' = (\<lambda>v. if v = butlast p then map_option (in_mtime_update (\<lambda>_. fs_time s)) (look s v) else if v = p then Some (new_inode k mode p s) else look s v)"
    using butlast_ne [OF p(2)] by (auto simp: r add_entry_def map_of_stamp update_conv' new look_def fun_eq_iff)
  have "seen s' v = seen s v" if "\<not> prefix p v" for v
  proof (cases "v = butlast p")
    case True
    with plain_parent [OF p(2,3)] show ?thesis by (auto simp: seen_def l dir_at_def split: option.split)
  next
    case f: False with that show ?thesis by (auto simp: seen_def l)
  qed
  moreover have "look s' p = Some (new_inode k mode p s)" using butlast_ne [OF p(2)] by (simp add: l)
  ultimately show ?thesis using False by (simp add: only_def r add_entry_def)
qed

lemma update_law:
  assumes p: "names p" "plain s p" and i: "look s p = Some i" "\<not> is_dir i" "\<not> symlink (in_kind i)"
    and c: "update_inode follow (abs_path p) f s = (r, s')"
  shows "only p s s' \<and> (r = Inr () \<and> look s' p = Some (f (ticked s) i) \<or> (\<exists>e. r = Inl e) \<and> look s' = look s)"
proof -
  have "lookup_path follow (abs_path p) s = Inr p" using lookup_plain [OF p] i by (cases follow) auto
  then show ?thesis using c i
    by (auto simp: update_inode_def sys_call_cases only_def seen_def update_conv' look_def split: if_splits option.split)
qed

subsection \<open>Linking, renaming and removing\<close>

lemma link_law:
  assumes p: "names p" "plain s p" "look s p = Some i" "\<not> is_dir i" and q: "names q" "q \<noteq> []" "plain s q"
    and c: "Link (abs_path p) (abs_path q) s = (r, s')"
  shows "only q s s' \<and> (r = Inr () \<and> look s q = None \<and> look s' q = Some i \<or> (\<exists>e. r = Inl e \<and> (look s q \<noteq> None \<longrightarrow> e = EEXIST \<or> e = EIO)) \<and> look s' = look s)"
proof (cases "fs_fault s (fs_calls s) \<or> look s q \<noteq> None \<or> dev_at s (butlast q) \<noteq> in_dev i")
  case True
  then show ?thesis using c lookup_plain(1) [OF p(1,2)] entry_plain [OF q] p by (auto simp: Link_def sys_call_cases split: if_splits)
next
  case False
  then have r: "r = Inr ()" "s' = (ticked s)\<lparr>fs_tree := stamp (fs_time s) (butlast q) (AList.update q i (fs_tree s))\<rparr>"
    using c lookup_plain(1) [OF p(1,2)] entry_plain [OF q] p by (auto simp: Link_def sys_call_cases)
  have l: "look s' = (\<lambda>v. if v = butlast q then map_option (in_mtime_update (\<lambda>_. fs_time s)) (look s v) else if v = q then Some i else look s v)"
    using butlast_ne [OF q(2)] by (auto simp: r map_of_stamp update_conv' look_def fun_eq_iff)
  have "seen s' v = seen s v" if "\<not> prefix q v" for v
  proof (cases "v = butlast q")
    case True
    with plain_parent [OF q(2,3)] show ?thesis by (auto simp: seen_def l dir_at_def split: option.split)
  next
    case f: False with that show ?thesis by (auto simp: seen_def l)
  qed
  moreover have "look s' q = Some i" using butlast_ne [OF q(2)] by (simp add: l)
  ultimately show ?thesis using False by (simp add: only_def r)
qed

lemma remove_law:
  assumes p: "names p" "p \<noteq> []" "plain s p" and c: "Remove (abs_path p) s = (r, s')"
  shows "only p s s' \<and> (r = Inr () \<and> (\<forall>u. look s' (p @ u) = None) \<or> (\<exists>e. r = Inl e) \<and> look s' = look s)"
proof (cases "fs_fault s (fs_calls s) \<or> look s p = None \<or> has_children p (ticked s)")
  case True
  then show ?thesis using c entry_plain [OF p] by (auto simp: Remove_def sys_call_cases split: if_splits)
next
  case False
  then have r: "r = Inr ()" "s' = (ticked s)\<lparr>fs_tree := stamp (fs_time s) (butlast p) (del_under p (fs_tree s))\<rparr>"
    using c entry_plain [OF p] by (auto simp: Remove_def sys_call_cases)
  have l: "look s' = (\<lambda>v. if v = butlast p then map_option (in_mtime_update (\<lambda>_. fs_time s)) (look s v) else if prefix p v then None else look s v)"
    using butlast_ne [OF p(2)] by (auto simp: r map_of_stamp map_of_del_under look_def fun_eq_iff)
  have "seen s' v = seen s v" if "\<not> prefix p v" for v
  proof (cases "v = butlast p")
    case True
    with plain_parent [OF p(2,3)] show ?thesis by (auto simp: seen_def l dir_at_def split: option.split)
  next
    case f: False with that show ?thesis by (auto simp: seen_def l)
  qed
  moreover have "look s' (p @ u) = None" for u
  proof -
    have "p @ u \<noteq> butlast p" using butlast_ne(2) [OF p(2)] by (metis prefixI)
    then show ?thesis by (simp add: l)
  qed
  ultimately show ?thesis by (auto simp: only_def r)
qed

text \<open>A file renamed over nothing or over another file.\<close>

lemma rename_law:
  assumes p: "names p" "p \<noteq> []" "plain s p" and q: "names q" "q \<noteq> []" "plain s q" and pq: "p \<parallel> q"
    and c: "Rename (abs_path p) (abs_path q) s = (r, s')"
  shows "(\<forall>v. \<not> prefix p v \<longrightarrow> \<not> prefix q v \<longrightarrow> seen s' v = seen s v) \<and> fs_euid s' = fs_euid s \<and> fs_egid s' = fs_egid s \<and>
    (r = Inr () \<and> look s p \<noteq> None \<and> (\<forall>u. look s' (p @ u) = None) \<and> (\<forall>u. look s' (q @ u) = look s (p @ u)) \<or> (\<exists>e. r = Inl e) \<and> look s' = look s)"
proof (cases "fs_fault s (fs_calls s) \<or> look s p = None \<or> rename_error p q (the (look s p)) (ticked s) \<noteq> None")
  case True
  then show ?thesis using c entry_plain [OF p] entry_plain [OF q] pq
    by (auto simp: Rename_def sys_call_cases intro: seen_cong split: if_splits option.splits)
next
  case False
  then obtain i where i: "look s p = Some i" "rename_error p q i (ticked s) = None" by auto
  have ne: "p \<noteq> q" "\<not> prefix p q" "\<not> prefix q p" using pq by auto
  let ?t = "stamp (fs_time s) (butlast p) (stamp (fs_time s) (butlast q) (move p q (fs_tree s)))"
  have r: "r = Inr ()" "s' = (ticked s)\<lparr>fs_tree := ?t\<rparr>"
    using c False ne i by (auto simp: Rename_def sys_call_cases entry_plain [OF p] entry_plain [OF q])
  have m: "map_of (move p q (fs_tree s)) v = (if prefix q v then look s (p @ drop (length q) v) else if prefix p v then None else look s v)" for v
    using map_of_move [of p q "fs_tree s" v] ne by (simp add: look_def)
  have nb: "\<not> prefix p (butlast p)" "\<not> prefix q (butlast q)" "\<not> prefix p (butlast q)" "\<not> prefix q (butlast p)"
    using butlast_ne p(2) q(2) ne prefix_order.trans [OF _ prefixeq_butlast] by blast+
  have l: "look s' v = (if v = butlast p \<or> v = butlast q then map_option (in_mtime_update (\<lambda>_. fs_time s)) (look s v)
      else map_of (move p q (fs_tree s)) v)" for v
    using nb by (auto simp: r map_of_stamp m option.map_comp comp_def)
  have "seen s' v = seen s v" if "\<not> prefix p v" "\<not> prefix q v" for v
    using that plain_parent [OF p(2,3)] plain_parent [OF q(2,3)] by (auto simp: seen_def l m dir_at_def split: option.splits)
  moreover have "look s' (p @ u) = None" "look s' (q @ u) = look s (p @ u)" for u
  proof -
    have "\<not> prefix q (p @ u)" using pq by (metis parallel_def prefix_same_cases prefixI)
    moreover have "q @ u \<noteq> butlast p" "q @ u \<noteq> butlast q" "p @ u \<noteq> butlast p" "p @ u \<noteq> butlast q" using nb by (metis prefixI)+
    ultimately show "look s' (p @ u) = None" "look s' (q @ u) = look s (p @ u)" by (simp_all add: l m)
  qed
  ultimately show ?thesis using i by (auto simp: r)
qed

end
