(* ===== verification/Control_Frame.thy ===== *)
theory Control_Frame
  imports Web_Update Entry_Laws
begin

text \<open>
  What the operations on the control files leave alone: the checks only read, publishing touches only the
  staged file and the request, and claiming takes the request out of the inbox.
\<close>

subsection \<open>Checks only read\<close>

lemma reads_valid [reads_intros]: "reads (io_valid e)"
  by (simp add: io_valid_def reads_intros split: option.split)

lemma reads_secure_dir [reads_intros]: "reads (secure_dir ns)"
proof -
  have "reads (\<lambda>s. if b s then (Inl (Fail m), s) else if c then (Inl (Fail m'), s) else (Inr (), s))" for b c m m'
    by (simp add: reads_def)
  then show ?thesis unfolding secure_dir_def by (intro reads_intros)
qed

lemma reads_secure_up [reads_intros]: "reads (secure_up ns)"
  by (induction ns) (simp_all add: reads_intros)

lemma reads_ancestors [reads_intros]: "reads (validateSecureAncestors p)"
  by (simp add: validateSecureAncestors_def reads_intros)

lemma reads_shared [reads_intros]: "reads (validateSharedWritableDirectory p)"
  unfolding validateSharedWritableDirectory_def
  by (intro reads_intros reads_with [where f = "\<lambda>s. io_bind (io_check (sharedDirectoryAccessAllowed _ (fs_euid s) (fs_egid s)) _) _"])

lemma reads_check_control [reads_intros]: "reads (check_control b p)"
  by (simp add: check_control_def reads_intros)

lemma reads_control_path [reads_intros]: "reads (resolvedControlPath p b)"
  by (auto simp: resolvedControlPath_def intro!: reads_intros split: option.split)

lemma reads_control_directory [reads_intros]: "reads (resolvedControlDirectory p b)"
  by (auto simp: resolvedControlDirectory_def intro!: reads_intros split: option.split)

lemma reads_owner:
  "(\<And>x. reads (f x)) \<Longrightarrow> reads (\<lambda>s. io_bind (io_check (in_uid info = 0 \<or> in_uid info = fs_euid s) e) f s)"
  by (intro reads_with [where f = "\<lambda>s. io_bind (io_check (in_uid info = 0 \<or> in_uid info = fs_euid s) _) f"] reads_intros)

lemma reads_consumer_path [reads_intros]: "reads (resolvedConsumerRequestPath p)"
  unfolding resolvedConsumerRequestPath_def by (cases "cleanAbsolute p"; simp only: option.case) (intro reads_intros reads_owner)+

lemma reads_capability [reads_intros]: "reads (capabilityEnabled p)"
  unfolding reads_def
proof
  fix s
  obtain r t where c: "resolvedControlPath p False s = (r, t)" by (cases "resolvedControlPath p False s")
  then have u: "unchanged s t" by (rule reads_unchanged [OF reads_control_path])
  have "unchanged s v" if "Lstat a t = (w, v)" for a w v by (rule unchanged_trans [OF u reads_unchanged [OF reads_calls(1) that]])
  then show "unchanged s (snd (capabilityEnabled p s))" using u by (auto simp: capabilityEnabled_def c split: sum.splits prod.splits)
qed

lemma reads_raw [reads_intros]: "reads (openRawControlFile p)"
  unfolding reads_def
proof
  fix s
  obtain r t where l: "OpenNoFollow p s = (r, t)" by (cases "OpenNoFollow p s")
  with reads_calls(8) have "unchanged s t" by (rule reads_unchanged)
  then show "unchanged s (snd (openRawControlFile p s))" by (auto simp: openRawControlFile_def l split: sum.split errno.split)
qed

lemma reads_request_file [reads_intros]: "reads (openBoundedRequestFile p i u)"
  unfolding openBoundedRequestFile_def case_prod_beta
  by (intro reads_intros reads_with [where f = "\<lambda>s. io_bind (io_check (1 \<le> links _ s \<and> links _ s \<le> 2 \<and> perm _ = 384 \<and> in_gid _ = in_gid i) _) _"])

lemma reads_bounded [reads_intros]: "reads (read_bounded c e f)"
  by (simp add: read_bounded_def reads_intros)

lemma reads_decode [reads_intros]: "reads (decode_request cc b)"
  by (auto simp: decode_request_def intro!: reads_intros split: option.split)

lemma reads_status [reads_intros]: "reads (ReadUpdateStatus cc p)"
proof -
  have "reads (openBoundedStatusFile q)" for q
    unfolding openBoundedStatusFile_def case_prod_beta
    by (intro reads_intros reads_with [where f = "\<lambda>s. io_bind (io_check (links _ s = 1 \<and> \<not> group_world_writable _ \<and> (in_uid _ = 0 \<or> in_uid _ = fs_euid s)) _) _"])
  moreover have "reads (case x of (info, content) \<Rightarrow> g info content)" if "\<And>a b. reads (g a b)" for x and g :: "inode \<Rightarrow> string \<Rightarrow> job_status io"
    using that by (cases x) simp
  ultimately show ?thesis unfolding ReadUpdateStatus_def or_missing_def by (auto intro!: reads_intros split: option.split)
qed

lemma reads_peek [reads_intros]: "reads (peekUpdateRequest cc p)"
proof -
  have "reads (\<lambda>s. io_bind (or_missing (openBoundedRequestFile q i (fs_euid s)) e) f s)" if "\<And>x. reads (f x)" for q i e and f :: "inode \<times> string \<Rightarrow> job_request io"
    using that by (intro reads_with [where f = "\<lambda>s. io_bind (or_missing (openBoundedRequestFile q i (fs_euid s)) e) f"])
      (simp add: or_missing_def reads_intros)
  moreover have "reads (case x of (info, content) \<Rightarrow> io_bind (read_bounded content e e') (decode_request cc))" for x :: "inode \<times> string" and e e'
    by (cases x) (simp add: reads_intros)
  ultimately show ?thesis unfolding peekUpdateRequest_def by (auto intro!: reads_intros split: option.split)
qed

subsection \<open>Paths\<close>

lemma plain_dir: "dir_at s p \<Longrightarrow> plain s p \<Longrightarrow> prefix q p \<Longrightarrow> dir_at s q"
  unfolding plain_def by (cases "q = p") (auto simp: strict_prefix_def)

lemma eval_plain:
  assumes "names p" "plain s p" "dir_at s p" and e: "EvalSymlinks (abs_path p) s = (r, s')"
  shows "r = Inr (abs_path p) \<or> r = Inl EIO"
proof -
  have "resolve max_eval_links (look s) True [] p = Inr p"
    using resolve_dirs [of p s "[]" max_eval_links True "[]"] assms plain_dir by auto
  then show ?thesis using e assms(1) by (auto simp: EvalSymlinks_def sys_call_cases resolve_abs split: if_splits)
qed

lemma b64_chars: "set (b64_encode_nat b64_url False ns) \<subseteq> set b64_url"
proof (induction "b64_url" False ns rule: b64_encode_nat.induct)
  have c: "b64_char b64_url n \<in> set b64_url" for n
    unfolding b64_char_def by (rule nth_mem) (simp add: b64_url_def)
  case (1 a b c r) then show ?case using c by simp
next
  have c: "b64_char b64_url n \<in> set b64_url" for n
    unfolding b64_char_def by (rule nth_mem) (simp add: b64_url_def)
  { case (2 a b) then show ?case using c by simp }
  { case (3 a) then show ?case using c by simp }
qed simp_all

lemma no_slash: "slash \<notin> set (b64_encode b64_url False bs)"
proof -
  have "slash \<notin> set b64_url" by code_simp
  then show ?thesis using b64_chars unfolding b64_encode_def by blast
qed

lemma claim_valid [simp]: "newUpdateJobID rnd = Some i \<Longrightarrow> valid_name (claim_name i)"
  using no_slash by (auto simp: newUpdateJobID_def claim_name_def valid_name_def dotdot_def dot_def slash_def)

lemma job_no_slash: "list_all job_char i \<Longrightarrow> slash \<notin> set i"
proof
  assume "list_all job_char i" "slash \<in> set i"
  then have "job_char slash" by (auto simp: list_all_iff)
  moreover have "\<not> job_char slash" by code_simp
  ultimately show False by simp
qed

lemma request_valid [simp]: "validJobID i \<Longrightarrow> valid_name (request_name i)"
  using job_no_slash by (auto simp: validJobID_def request_name_def valid_name_def dotdot_def dot_def slash_def)

subsection \<open>Claiming\<close>

text \<open>Only owners and modes have changed.\<close>

definition tame :: "files \<Rightarrow> files \<Rightarrow> bool" where
  "tame s s' \<longleftrightarrow> (\<forall>v. map_option in_kind (look s' v) = map_option in_kind (look s v))"

lemma tame_refl [simp]: "tame s s" by (simp add: tame_def)
lemma tame_trans: "tame s s' \<Longrightarrow> tame s' s'' \<Longrightarrow> tame s s''" by (simp add: tame_def)
lemma unchanged_tame: "unchanged s s' \<Longrightarrow> tame s s'" using unchanged_look [of s s'] by (simp add: tame_def)
lemma reads_tame: "reads m \<Longrightarrow> m s = (r, s') \<Longrightarrow> tame s s'" by (rule unchanged_tame [OF reads_unchanged])

lemma tame_None: "tame s s' \<Longrightarrow> look s' v = None \<longleftrightarrow> look s v = None"
  unfolding tame_def by (metis option.map_disc_iff)

lemma tame_plain: "tame s s' \<Longrightarrow> plain s' v \<longleftrightarrow> plain s v"
proof -
  have d: "dir_at s q \<longleftrightarrow> map_option in_kind (look s q) = Some KDir" for s q
    by (auto simp: dir_at_def is_dir_def split: option.split)
  assume "tame s s'"
  then show ?thesis by (simp add: plain_def d tame_def)
qed

lemma map_of_values: "map_of (map (\<lambda>(p, j). (p, g j)) t) v = map_option g (map_of t v)"
  by (induction t) auto

lemma change_open_tame:
  assumes "\<And>j. in_kind (f j) = in_kind j" and "change_open i f s = (r, s')"
  shows "tame s s'"
proof -
  have "map_option in_kind (map_option (\<lambda>j. if same_inode i j then f j else j) x) = map_option in_kind x" for x
    by (cases x) (simp_all add: assms(1))
  then show ?thesis using assms(2)
    by (auto simp: change_open_def sys_call_cases tame_def map_of_values look_def split: if_splits)
qed

lemma own_claim_tame: "own_claim i s = (r, s') \<Longrightarrow> tame s s'"
  by (auto simp: own_claim_def io_bind_def or_fail_def FChown_def FChmod_def split: if_splits prod.splits sum.splits
      dest!: change_open_tame [rotated] intro: tame_trans)

lemma raw_plain:
  assumes "names p" "plain s p" "openRawControlFile (abs_path p) s = (Inr (i, c), s')"
  shows "look s p = Some i \<and> in_kind i = KFile c"
proof -
  obtain r t where o: "OpenNoFollow (abs_path p) s = (r, t)" by (cases "OpenNoFollow (abs_path p) s")
  then have r: "r = Inr (i, c)" "regular (in_kind i)"
    using assms(3) by (auto simp: openRawControlFile_def split: sum.splits errno.splits if_splits)
  then show ?thesis using o lookup_plain(1) [OF assms(1,2)]
    by (auto simp: OpenNoFollow_def sys_call_cases split: if_splits option.splits kind.splits)
qed

definition acceptable :: "control_codec \<Rightarrow> int \<Rightarrow> inode \<Rightarrow> job_request \<Rightarrow> bool" where
  "acceptable cc uid i r \<longleftrightarrow> in_uid i = uid \<and> perm i = 384 \<and> validateUpdateJobRequest r = None \<and>
     (case in_kind i of KFile c \<Rightarrow> length c \<le> maxUpdateControlBytes \<and> cc_decodeRequest cc c = Some r | _ \<Rightarrow> False)"

lemma request_file_plain:
  assumes "names p" "plain s p" "openBoundedRequestFile (abs_path p) par uid s = (Inr (i, c), s')"
  shows "look s p = Some i \<and> in_kind i = KFile c \<and> in_uid i = uid \<and> perm i = 384"
  using assms(3) raw_plain [OF assms(1,2)]
  by (auto simp: openBoundedRequestFile_def io_bind_Inr io_check_def io_return_def io_fail_def split: if_splits)

lemma decode_Inr: "decode_request cc b s = (Inr r, s') \<Longrightarrow> cc_decodeRequest cc b = Some r \<and> validateUpdateJobRequest r = None"
  by (auto simp: decode_request_def io_bind_Inr io_valid_def io_return_def io_fail_def split: option.splits)

lemma bounded_Inr: "read_bounded c e f s = (Inr b, s') \<Longrightarrow> b = c \<and> length c \<le> maxUpdateControlBytes"
  by (auto simp: read_bounded_def io_bind_Inr io_check_def io_return_def io_fail_def split: if_splits)

lemma read_claim_spec:
  assumes p: "names p" "plain s p" and c: "read_claim cc (abs_path p) par uid s = (res, s')"
  shows "tame s s' \<and> (\<forall>r. res = Inr r \<longrightarrow> (\<exists>i. look s p = Some i \<and> acceptable cc uid i r))"
proof -
  obtain r1 s1 where o: "openBoundedRequestFile (abs_path p) par uid s = (r1, s1)" by (cases "openBoundedRequestFile (abs_path p) par uid s")
  note t1 = reads_tame [OF reads_request_file o]
  show ?thesis
  proof (cases r1)
    case (Inl e) then show ?thesis using c o t1 by (auto simp: read_claim_def io_bind_def)
  next
    case (Inr ic)
    obtain i b where ic: "ic = (i, b)" by (cases ic)
    note F = request_file_plain [OF p o [unfolded Inr ic]]
    obtain r2 s2 where w: "own_claim i s1 = (r2, s2)" by (cases "own_claim i s1")
    note t2 = tame_trans [OF t1 own_claim_tame [OF w]]
    let ?read = "io_bind (read_bounded b (bad_request ''read request'') (bad_request ''request exceeds size limit'')) (\<lambda>body. decode_request cc body)"
    have rd: "reads ?read" by (intro reads_intros)
    show ?thesis
    proof (cases r2)
      case (Inl e) then show ?thesis using c o Inr ic w t2 by (auto simp: read_claim_def io_bind_def)
    next
      case r2: (Inr u)
      have g: "?read s2 = (res, s')" using c by (simp add: read_claim_def io_bind_def o Inr ic w r2)
      have "acceptable cc uid i r" if "res = Inr r" for r
        using g F by (auto simp: that io_bind_Inr acceptable_def dest!: bounded_Inr decode_Inr)
      then show ?thesis using F tame_trans [OF t2 reads_tame [OF rd g]] by blast
    qed
  qed
qed

lemma discard_law:
  assumes "names p" "p \<noteq> []" "plain s p"
  shows "only p s (discard (abs_path p) s) \<and> (\<forall>u. look (discard (abs_path p) s) (p @ u) = None \<or> look (discard (abs_path p) s) = look s)"
  using remove_law [OF assms, of "fst (Remove (abs_path p) s)" "discard (abs_path p) s"] by (auto simp: discard_def)

lemma staged_law:
  assumes "names p" "p \<noteq> []" "plain s p"
  shows "only p s (removeStagedUpdateRequest (abs_path p) s) \<and>
    (\<forall>u. look (removeStagedUpdateRequest (abs_path p) s) (p @ u) = None \<or> look (removeStagedUpdateRequest (abs_path p) s) = look s)"
proof -
  let ?t = "discard (abs_path p) s"
  have "unchanged ?t (removeStagedUpdateRequest (abs_path p) s)"
    using reads_calls(5) by (simp add: removeStagedUpdateRequest_def reads_def)
  then show ?thesis using discard_law [OF assms] unchanged_look unchanged_only only_trans by (metis (no_types))
qed

lemma only_None: "only p s s' \<Longrightarrow> \<not> prefix p v \<Longrightarrow> look s' v = None \<longleftrightarrow> look s v = None"
  using only_seen [of p s s' v] seen_None by metis

lemma rename_above:
  assumes "names q" "q \<noteq> []" "plain s q" "names c" "c \<noteq> []" "plain s c" "strict_prefix c q"
    and r: "Rename (abs_path q) (abs_path c) s = (r, s')"
  shows "(\<exists>e. r = Inl e) \<and> look s' = look s"
  using r assms(7) entry_plain [OF assms(1-3)] entry_plain [OF assms(4-6)]
  by (auto simp: Rename_def sys_call_cases rename_error_def strict_prefix_def split: if_splits option.splits)

lemma take_claim_spec:
  assumes q: "names q" "q \<noteq> []" "plain s q" and c: "names c" "c \<noteq> []" "plain s c" and qc: "q \<parallel> c \<or> strict_prefix c q"
    and t: "take_claim cc (abs_path q) root (abs_path c) par uid s = (res, s')"
  shows "(look s' q = look s q \<or> look s q \<noteq> None \<and> look s' q = None) \<and>
    (\<forall>r. res = Inr r \<longrightarrow> look s' q = None \<and> (\<exists>i. look s q = Some i \<and> acceptable cc uid i r))"
proof -
  obtain r1 s1 where ren: "Rename (abs_path q) (abs_path c) s = (r1, s1)" by (cases "Rename (abs_path q) (abs_path c) s")
  show ?thesis
  proof (cases r1)
    case (Inl e)
    then have "look s1 = look s" using ren rename_above [OF q c _ ren] rename_law [OF q c _ ren] qc by auto
    then show ?thesis using t ren Inl by (auto simp: take_claim_def split: errno.splits)
  next
    case (Inr u)
    then have pc: "q \<parallel> c" using rename_above [OF q c _ ren] qc by auto
    note R = rename_law [OF q c pc ren]
    have gone: "look s1 q = None" "look s1 c = look s q" "look s q \<noteq> None"
      using R Inr spec [of "\<lambda>u. look s1 (q @ u) = None" "[]"] spec [of "\<lambda>u. look s1 (c @ u) = look s (q @ u)" "[]"] by auto
    have "dir_at s1 v" if "strict_prefix v c" for v
    proof -
      have "\<not> prefix c v" using that by auto
      moreover have "\<not> prefix q v" using that pc by (metis parallel_def prefix_order.less_imp_le prefix_order.trans)
      ultimately show ?thesis using R c(3) that dir_seen unfolding plain_def by blast
    qed
    then have c1: "plain s1 c" by (simp add: plain_def)
    have ncq: "\<not> prefix c q" using pc by auto
    let ?sync = "io_bind (sync_both (Dir (abs_path q)) root) (\<lambda>ok. io_check ok (Fail ''persist update request claim failed''))"
    have rs: "reads ?sync" unfolding sync_both_def by (intro reads_intros)
    obtain r2 s2 where sy: "?sync s1 = (r2, s2)" by (cases "?sync s1")
    note u2 = reads_unchanged [OF rs sy]
    have g2: "look s2 q = None" "look s2 c = look s q" "plain s2 c"
      using gone c1 unchanged_look [OF u2] tame_plain [OF unchanged_tame [OF u2]] by simp_all
    show ?thesis
    proof (cases r2)
      case (Inl e)
      have "look (discard (abs_path c) s2) q = None" using discard_law [OF c(1,2) g2(3)] only_None [OF _ ncq] g2(1) by blast
      then show ?thesis using t ren Inr Inl sy gone by (auto simp: take_claim_def io_bind_def on_fail_def)
    next
      case r2: (Inr v)
      obtain r3 s3 where rc: "read_claim cc (abs_path c) par uid s2 = (r3, s3)" by (cases "read_claim cc (abs_path c) par uid s2")
      note C = read_claim_spec [OF c(1) g2(3) rc]
      have g3: "look s3 q = None" "plain s3 c" using C g2 tame_None tame_plain by blast+
      have "look (removeStagedUpdateRequest (abs_path c) s3) q = None"
        using staged_law [OF c(1,2) g3(2)] only_None [OF _ ncq] g3(1) by blast
      moreover have "res = r3" "s' = removeStagedUpdateRequest (abs_path c) s3"
        using t ren Inr sy r2 rc by (auto simp: take_claim_def io_bind_def on_fail_def at_end_def)
      ultimately show ?thesis using C g2(2) gone(3) by auto
    qed
  qed
qed

lemma clean_abs_path: "names p \<Longrightarrow> cleanAbsolute (abs_path p) = Some (abs_path p)"
  by (simp add: cleanAbsolute_eq elems_abs_path)

lemma consumer_path_plain:
  assumes "names (i @ [n])" "plain s (i @ [n])" and c: "resolvedConsumerRequestPath (abs_path (i @ [n])) s = (Inr (p, info), s')"
  shows "p = abs_path (i @ [n])"
proof -
  have n: "names i" "valid_name n" and d: "plain s i" "dir_at s i" using assms by (simp_all add: plain_snoc)
  obtain parent t where "EvalSymlinks (abs_path i) s = (Inr parent, t)" "p = Join parent n"
    using c n by (auto simp: resolvedConsumerRequestPath_def clean_abs_path Dir_abs_path Base_abs_path io_bind_Inr or_fail_Inr io_return_def)
  then show ?thesis using eval_plain [OF n(1) d] Join_name [OF n] by fastforce
qed

lemma consume_spec:
  assumes q: "names (i @ [n])" "i \<noteq> []" "plain s (i @ [n])"
    and c: "ConsumeUpdateRequestForUID cc rnd (abs_path (i @ [n])) uid s = (res, s')"
  shows "(look s' (i @ [n]) = look s (i @ [n]) \<or> look s (i @ [n]) \<noteq> None \<and> look s' (i @ [n]) = None) \<and>
    (\<forall>r. res = Inr r \<longrightarrow> look s' (i @ [n]) = None \<and> (\<exists>e. look s (i @ [n]) = Some e \<and> acceptable cc uid e r))"
proof -
  let ?path = "abs_path (i @ [n])"
  obtain j x where i: "i = j @ [x]" using q(2) by (cases i rule: rev_cases) auto
  obtain r1 s1 where p: "resolvedConsumerRequestPath ?path s = (r1, s1)" by (cases "resolvedConsumerRequestPath ?path s")
  note u1 = reads_unchanged [OF reads_consumer_path p]
  note l1 = unchanged_look [OF u1]
  show ?thesis
  proof (cases "\<exists>resolved info claim. \<not> uid < 0 \<and> r1 = Inr (resolved, info) \<and> newUpdateJobID rnd = Some claim")
    case False
    then show ?thesis using c p l1 by (auto simp: ConsumeUpdateRequestForUID_def io_fail_def io_bind_def split: if_splits sum.splits option.splits)
  next
    case True
    then obtain resolved info claim where r1: "\<not> uid < 0" "r1 = Inr (resolved, info)" "newUpdateJobID rnd = Some claim" by blast
    have res: "resolved = ?path" using consumer_path_plain [OF q(1,3)] p r1 by blast
    have nm: "names j" "valid_name x" "valid_name n" "names i" "valid_name (claim_name claim)" using q(1) i r1(3) by simp_all
    have root: "Dir (Dir ?path) = abs_path j" using Dir_abs_path [OF nm(4,3)] Dir_abs_path [OF nm(1,2)] by (simp add: i)
    let ?c = "j @ [claim_name claim]"
    have cp: "Join (abs_path j) (claim_name claim) = abs_path ?c" using nm by (simp add: Join_name)
    let ?above = "or_fail (validateSecureAncestors (abs_path j)) (unsafe_path ''insecure claim directory'')"
    obtain r2 s2 where a: "?above s1 = (r2, s2)" by (cases "?above s1")
    have "reads ?above" by (intro reads_intros)
    from reads_unchanged [where m = ?above, OF this a] have "unchanged s1 s2" .
    note u2 = unchanged_trans [OF u1 this]
    show ?thesis
    proof (cases r2)
      case (Inl e)
      then show ?thesis using c p r1 a unchanged_look [OF u2]
        by (auto simp: ConsumeUpdateRequestForUID_def io_bind_def res root Let_def)
    next
      case (Inr v)
      have t: "take_claim cc ?path (abs_path j) (abs_path ?c) info uid s2 = (res, s')"
        using c p r1 a Inr by (simp add: ConsumeUpdateRequestForUID_def io_bind_def res root Let_def cp)
      have "plain s i" using q(3) by (simp add: plain_snoc)
      then have "plain s ?c" by (simp add: i plain_snoc)
      then have "plain s2 (i @ [n])" "plain s2 ?c" using tame_plain [OF unchanged_tame [OF u2]] q(3) by blast+
      moreover have "i @ [n] \<parallel> ?c \<or> strict_prefix ?c (i @ [n])"
        by (cases "x = claim_name claim") (auto simp: i strict_prefix_def intro: parallel_append)
      ultimately show ?thesis using take_claim_spec [OF q(1) _ _ _ _ _ _ t] nm unchanged_look [OF u2] by simp
    qed
  qed
qed

subsection \<open>Publishing\<close>

definition holds :: "string \<Rightarrow> int \<Rightarrow> inode \<Rightarrow> bool" where
  "holds body uid i \<longleftrightarrow> in_kind i = KFile body \<and> in_uid i = uid \<and> perm i = 384"

lemma holds_file: "holds b u i \<Longrightarrow> \<not> is_dir i \<and> \<not> symlink (in_kind i)"
  by (simp add: holds_def is_dir_def)

lemma create_euid: "create_at k m p s = (r, s') \<Longrightarrow> fs_euid s' = fs_euid s"
  by (auto simp: create_at_def sys_call_cases add_entry_def split: if_splits sum.splits)

lemma not_above: "names q \<Longrightarrow> plain s q \<Longrightarrow> look s t = None \<Longrightarrow> t \<noteq> q \<Longrightarrow> \<not> prefix t q"
  using dir_atD [of s t] by (auto simp: plain_def strict_prefix_def)

text \<open>If anything, the entry at \<open>t\<close> is new.\<close>

definition adds :: "string list \<Rightarrow> files \<Rightarrow> files \<Rightarrow> bool" where
  "adds t s s' \<longleftrightarrow> look s' = look s \<or> look s t = None \<and> only t s s'"

lemma adds_seen: "adds t s s' \<Longrightarrow> \<not> prefix t v \<Longrightarrow> seen s' v = seen s v"
  unfolding adds_def using only_seen seen_cong by metis

lemma stage_law:
  assumes d: "names d" "plain s d" "dir_at s d" and k: "validJobID k"
    and c: "stageUpdateRequest (abs_path d) k body s = (r, s')"
  defines "t \<equiv> d @ [request_name k]"
  shows "adds t s s' \<and>
    (\<forall>p. r = Inr p \<longrightarrow> p = abs_path t \<and> look s t = None \<and> (\<exists>i. look s' t = Some i \<and> holds body (fs_euid s) i))"
proof -
  have nt: "names t" "t \<noteq> []" "plain s t" and jt: "Join (abs_path d) (request_name k) = abs_path t"
    using d k by (simp_all add: t_def plain_snoc Join_name)
  obtain r1 s1 where cr: "CreateExcl (abs_path t) 384 s = (r1, s1)" by (cases "CreateExcl (abs_path t) 384 s")
  note C = create_law [OF nt cr [unfolded CreateExcl_def]]
  show ?thesis
  proof (cases r1)
    case (Inl e)
    then show ?thesis using c C cr by (auto simp: adds_def stageUpdateRequest_def Let_def jt io_bind_def fail_with_def io_sys_def)
  next
    case (Inr u)
    then have new: "look s t = None" "only t s s1" "look s1 t = Some (new_inode (KFile []) 384 t s)" using C by auto
    let ?i = "new_inode (KFile []) 384 t s"
    have i: "\<not> is_dir ?i" "\<not> symlink (in_kind ?i)" by (simp_all add: new_inode_def Let_def is_dir_def)
    have p1: "plain s1 t" using only_plain [OF new(2) _ nt(3)] by simp
    obtain r2 s2 where w: "WriteAll (abs_path t) body s1 = (r2, s2)" by (cases "WriteAll (abs_path t) body s1")
    note W = update_law [OF nt(1) p1 new(3) i w [unfolded WriteAll_def]]
    have o2: "only t s s2" using only_trans [OF new(2)] W by blast
    have p2: "plain s2 t" using only_plain [OF o2 _ nt(3)] by simp
    have D: "only t s (discard (abs_path t) x)" if "only t s x" for x
      using discard_law [OF nt(1,2) only_plain [OF that _ nt(3)]] only_trans [OF that] by simp
    let ?rest = "io_bind (io_try (Sync (abs_path t))) (\<lambda>y. io_bind (io_try Close) (\<lambda>x. io_return (r2 = Inr () \<and> y = Inr () \<and> x = Inr ())))"
    obtain r3 s3 where f: "?rest s2 = (r3, s3)" by (cases "?rest s2")
    have "reads ?rest" by (intro reads_intros)
    from reads_unchanged [where m = ?rest, OF this f] have u3: "unchanged s2 s3" .
    have o3: "only t s s3" by (rule only_trans [OF o2 unchanged_only [OF u3]])
    obtain ok where r3: "r3 = Inr ok" "ok \<longrightarrow> r2 = Inr ()"
      using f by (auto simp: io_bind_def io_try_def io_return_def split: prod.splits)
    have ws: "write_synced (abs_path t) body s1 = (Inr ok, s3)" using w f r3 by (simp add: write_synced_def io_bind_def io_try_def)
    have "\<exists>i. look s3 t = Some i \<and> holds body (fs_euid s) i" if ok
    proof -
      have "look s2 t = Some (?i\<lparr>in_kind := KFile body, in_mtime := fs_time (ticked s1)\<rparr>)" using W r3 that by auto
      then show ?thesis using unchanged_look [OF u3] by (auto simp: holds_def new_inode_def Let_def perm_def)
    qed
    then show ?thesis using c cr Inr ws D [OF o3] o3 new(1)
      by (cases ok) (auto simp: adds_def stageUpdateRequest_def Let_def jt io_bind_def fail_with_def io_sys_def on_fail_def io_check_def io_return_def io_fail_def)
  qed
qed

text \<open>What publishing may have done to the place of the request.\<close>

definition published :: "string \<Rightarrow> int \<Rightarrow> string list \<Rightarrow> files \<Rightarrow> files \<Rightarrow> bool" where
  "published body uid q s s' \<longleftrightarrow> look s q = None \<and> (\<exists>i. look s' q = Some i \<and> holds body uid i)"

lemma published_seen: "seen t q = seen s q \<Longrightarrow> seen t' q = seen s' q \<Longrightarrow> published b u q t t' \<longleftrightarrow> published b u q s s'"
proof -
  assume e: "seen t q = seen s q" "seen t' q = seen s' q"
  have "look t q = None \<longleftrightarrow> look s q = None" using e(1) seen_None by metis
  moreover have "(\<exists>i. look t' q = Some i \<and> holds b u i) \<longleftrightarrow> (\<exists>i. look s' q = Some i \<and> holds b u i)"
    using e(2) file_seen holds_file by (metis (no_types))
  ultimately show ?thesis by (simp add: published_def)
qed

lemma after_link_law:
  assumes q: "names q" "q \<noteq> []" "plain s q" and a: "after_link (abs_path q) x s = (r, s')"
  shows "only q s s' \<and> (x = Inr () \<longrightarrow> look s' q = None \<and> r \<noteq> Inr () \<or> look s' = look s) \<and> (x \<noteq> Inr () \<longrightarrow> r \<noteq> Inr () \<and> look s' = look s)"
proof (cases x)
  case (Inl e) then show ?thesis using a by (auto simp: after_link_def split: errno.splits)
next
  case (Inr u)
  obtain r1 s1 where y: "Sync (Dir (abs_path q)) s = (r1, s1)" by (cases "Sync (Dir (abs_path q)) s")
  note u1 = reads_unchanged [OF reads_calls(5) y]
  have p1: "plain s1 q" using tame_plain [OF unchanged_tame [OF u1]] q(3) by blast
  show ?thesis
  proof (cases r1)
    case (Inl e)
    then have r: "r = Inl (Fail ''persist update request directory failed'')" "s' = discard (abs_path q) s1"
      using a y Inr by (auto simp: after_link_def on_fail_def or_fail_def)
    note D = discard_law [OF q(1,2) p1]
    have "look s' q = None \<or> look s' = look s"
      using conjunct2 [OF D] append_Nil2 [of q] r(2) unchanged_look [OF u1] by metis
    then show ?thesis using D r only_trans [OF unchanged_only [OF u1]] Inr by auto
  next
    case r1: (Inr v)
    then show ?thesis using a y Inr unchanged_look [OF u1] unchanged_only [OF u1] by (auto simp: after_link_def on_fail_def or_fail_def)
  qed
qed

lemma link_step:
  assumes t: "names t" "plain s t" "look s t = Some i" "holds b u i" and q: "names q" "q \<noteq> []" "plain s q"
    and l: "Link (abs_path t) (abs_path q) s = (x, s1)" and a: "after_link (abs_path q) x s1 = (r, s')"
  shows "adds q s s' \<and> (seen s' q = seen s q \<or> published b u q s s') \<and> (r = Inr () \<longrightarrow> published b u q s s')"
proof -
  note L = link_law [OF t(1-3) conjunct1 [OF holds_file [OF t(4)]] q l]
  have p1: "plain s1 q" using only_plain [OF conjunct1 [OF L] _ q(3)] by simp
  note A = after_link_law [OF q(1,2) p1 a]
  have o: "only q s s'" using only_trans L A by blast
  then have "adds q s s'" using A L by (auto simp: adds_def)
  moreover have "seen s' q = seen s q \<or> published b u q s s'" "r = Inr () \<longrightarrow> published b u q s s'"
  proof -
    consider (ok) "x = Inr ()" "look s q = None" "look s1 q = Some i" | (no) "x \<noteq> Inr ()" "look s1 = look s" using L by auto
    then show "seen s' q = seen s q \<or> published b u q s s'"
      by cases (use A t(4) in \<open>auto simp: published_def seen_def\<close>)
    from o show "r = Inr () \<longrightarrow> published b u q s s'"
      using A L t(4) by (auto simp: published_def)
  qed
  ultimately show ?thesis by blast
qed

text \<open>Directories stay where they are.\<close>

definition keeps_dirs :: "files \<Rightarrow> files \<Rightarrow> bool" where
  "keeps_dirs s s' \<longleftrightarrow> (\<forall>v. plain s v \<and> dir_at s v \<longrightarrow> plain s' v \<and> dir_at s' v)"

lemma keeps_trans: "keeps_dirs s s' \<Longrightarrow> keeps_dirs s' s'' \<Longrightarrow> keeps_dirs s s''"
  by (simp add: keeps_dirs_def)

lemma keeps_same: "look s' = look s \<Longrightarrow> keeps_dirs s s'"
  by (simp add: keeps_dirs_def plain_def dir_at_def)

lemma only_keeps: "only t s s' \<Longrightarrow> \<not> dir_at s t \<Longrightarrow> keeps_dirs s s'"
  unfolding keeps_dirs_def
proof (intro allI impI)
  fix v assume a: "only t s s'" "\<not> dir_at s t" "plain s v \<and> dir_at s v"
  then have n: "\<not> prefix t q" if "prefix q v" for q using plain_dir [of s v t] prefix_order.trans [OF _ that] a(2,3) by blast
  have "dir_at s' q" if "prefix q v" for q
    using dir_seen [OF only_seen [OF a(1) n [OF that]]] plain_dir that a(3) by blast
  then show "plain s' v \<and> dir_at s' v" by (simp add: plain_def strict_prefix_def)
qed

lemma file_not_dir: "look s t = Some i \<Longrightarrow> holds b u i \<Longrightarrow> \<not> dir_at s t" "look s t = None \<Longrightarrow> \<not> dir_at s t"
  using holds_file by (auto simp: dir_at_def)

lemma adds_keeps: "adds t s s' \<Longrightarrow> keeps_dirs s s'"
  unfolding adds_def using keeps_same only_keeps file_not_dir by blast


lemma removed_keeps:
  assumes "names t" "t \<noteq> []" "plain s t" "\<not> dir_at s t"
  shows "keeps_dirs s (removeStagedUpdateRequest (abs_path t) s)"
  by (rule only_keeps [OF conjunct1 [OF staged_law [OF assms(1-3)]] assms(4)])

lemma plain_file: "keeps_dirs s s' \<Longrightarrow> plain s d \<Longrightarrow> dir_at s d \<Longrightarrow> plain s' (d @ [x])"
  by (simp add: keeps_dirs_def plain_snoc)

text \<open>The staged file is no directory whatever has happened since, as long as only its own removal touched it.\<close>

lemma publish_law:
  assumes t: "names t" "plain s t" "look s t = Some f" "holds body u f" "u = fs_euid s"
    and q: "names (i @ [n])" "plain s (i @ [n])" and k: "validJobID k" "n \<noteq> request_name k"
    and p: "publish Link (abs_path t) (abs_path (i @ [n])) k body s = (r, s')"
  shows "keeps_dirs s s' \<and> (seen s' (i @ [n]) = seen s (i @ [n]) \<or> published body u (i @ [n]) s s') \<and>
    (r = Inr () \<longrightarrow> published body u (i @ [n]) s s')"
proof -
  let ?q = "i @ [n]" and ?t = "i @ [request_name k]"
  have nq: "names i" "valid_name n" "?q \<noteq> []" and d: "plain s i" "dir_at s i" using q by (simp_all add: plain_snoc)
  obtain x s1 where l: "Link (abs_path t) (abs_path ?q) s = (x, s1)" by (cases "Link (abs_path t) (abs_path ?q) s")
  note L = link_law [OF t(1-3) conjunct1 [OF holds_file [OF t(4)]] q(1) nq(3) q(2) l]
  show ?thesis
  proof (cases "x = Inl EXDEV")
    case False
    then have "after_link (abs_path ?q) x s1 = (r, s')" using p l by (auto simp: publish_def split: sum.splits errno.splits)
    from link_step [OF t(1-4) q(1) nq(3) q(2) l this] show ?thesis using adds_keeps by blast
  next
    case True
    have same: "look s1 = look s" "fs_euid s1 = fs_euid s" using L l True by (auto simp: only_def)
    then have d1: "plain s1 i" "dir_at s1 i" using d by (simp_all add: plain_def dir_at_def)
    obtain r2 s2 where st: "stageUpdateRequest (abs_path i) k body s1 = (r2, s2)" by (cases "stageUpdateRequest (abs_path i) k body s1")
    note S = stage_law [OF nq(1) d1 k(1) st]
    have k2: "keeps_dirs s s2" using keeps_trans [OF keeps_same adds_keeps] S same by blast
    have dq: "Dir (abs_path ?q) = abs_path i" using Dir_abs_path nq by blast
    have nt: "\<not> prefix ?t ?q" using k(2) by (auto simp: prefix_def)
    have e2: "seen s2 ?q = seen s ?q" using adds_seen [OF conjunct1 [OF S] nt] same by (simp add: seen_def)
    show ?thesis
    proof (cases r2)
      case (Inl e)
      then show ?thesis using p l True st e2 k2 by (auto simp: publish_def io_bind_def dq)
    next
      case (Inr tp)
      then obtain g where tp: "tp = abs_path ?t" and g: "look s2 ?t = Some g" "holds body u g" using S same t(5) by auto
      have pl: "plain s2 ?t" "plain s2 ?q" using plain_file [OF k2 d] by blast+
      have nn: "names ?t" using nq k(1) by simp
      obtain y s3 where l2: "Link (abs_path ?t) (abs_path ?q) s2 = (y, s3)" by (cases "Link (abs_path ?t) (abs_path ?q) s2")
      obtain r4 s4 where a: "after_link (abs_path ?q) y s3 = (r4, s4)" by (cases "after_link (abs_path ?q) y s3")
      note P = link_step [OF nn pl(1) g q(1) nq(3) pl(2) l2 a]
      have k4: "keeps_dirs s s4" using keeps_trans [OF k2 adds_keeps] P by blast
      have p4: "plain s4 ?t" by (rule plain_file [OF k4 d])
      have nqt: "\<not> prefix ?q ?t" using k(2) by (auto simp: prefix_def)
      have "look s4 ?t = Some g"
        by (rule file_seen [OF adds_seen [OF conjunct1 [OF P] nqt] g(1) conjunct1 [OF holds_file [OF g(2)]]])
      then have nd: "\<not> dir_at s4 ?t" using file_not_dir g(2) by blast
      have fin: "r = r4" "s' = removeStagedUpdateRequest (abs_path ?t) s4"
        using p l True st Inr tp l2 a by (auto simp: publish_def io_bind_def at_end_def dq)
      have e5: "seen s' ?q = seen s4 ?q"
        using only_seen [OF conjunct1 [OF staged_law [OF nn _ p4]] nt] fin by simp
      have "keeps_dirs s s'" using keeps_trans [OF k4 removed_keeps [OF nn _ p4 nd]] fin by simp
      moreover have "published body u ?q s2 s4 \<longleftrightarrow> published body u ?q s s'" by (rule published_seen) (simp_all add: e2 e5)
      ultimately show ?thesis using P e2 e5 fin(1) by simp
    qed
  qed
qed

text \<open>Publishing a request leaves the place of the request alone, or puts the whole request where none was.\<close>

lemma enqueue_law:
  assumes d: "names d" "plain s d" "dir_at s d" and q: "names (i @ [n])" "plain s (i @ [n])" and nq: "\<not> prefix (i @ [n]) d"
    and n: "n \<noteq> request_name (jr_JobID req)"
    and c: "enqueueUpdateRequest cc (abs_path d) (abs_path (i @ [n])) req s = (r, s')"
  shows "(seen s' (i @ [n]) = seen s (i @ [n]) \<or>
      (\<exists>enc. cc_encodeRequest cc req = Some enc \<and> published (enc @ [newline]) (fs_euid s) (i @ [n]) s s')) \<and>
    (r = Inr () \<longrightarrow> validateUpdateJobRequest req = None \<and>
      (\<exists>enc. cc_encodeRequest cc req = Some enc \<and> published (enc @ [newline]) (fs_euid s) (i @ [n]) s s'))"
proof (cases "validateUpdateJobRequest req = None \<and> (\<exists>enc. cc_encodeRequest cc req = Some enc)")
  case False
  then show ?thesis using c
    by (auto simp: enqueueUpdateRequest_def enqueueUpdateRequestWithLink_def io_valid_def io_fail_def io_bind_def io_return_def split: option.splits)
next
  case True
  then obtain enc where v: "validateUpdateJobRequest req = None" and enc: "cc_encodeRequest cc req = Some enc" by blast
  let ?q = "i @ [n]" and ?k = "jr_JobID req" and ?body = "enc @ [newline]"
  let ?t = "d @ [request_name ?k]"
  have k: "validJobID ?k" using v by (simp add: validateUpdateJobRequest_def split: if_splits)
  have ni: "names i" "valid_name n" and di: "plain s i" "dir_at s i" using q by (simp_all add: plain_snoc)
  let ?paths = "io_bind (resolvedControlDirectory (abs_path d) True) (\<lambda>a. io_bind (resolvedControlPath (abs_path ?q) True) (\<lambda>b. io_return (a, b)))"
  let ?go = "\<lambda>(a, b). io_bind (stageUpdateRequest a ?k ?body) (\<lambda>tempPath. at_end (publish Link tempPath b ?k ?body) (removeStagedUpdateRequest tempPath))"
  have go: "enqueueUpdateRequest cc (abs_path d) (abs_path ?q) req = io_bind ?paths ?go"
    by (simp add: enqueueUpdateRequest_def enqueueUpdateRequestWithLink_def v enc io_valid_def Let_def)
  obtain r1 s1 where ps: "?paths s = (r1, s1)" by (cases "?paths s")
  have G: "enqueueUpdateRequest cc (abs_path d) (abs_path ?q) req s = (case ?paths s of (Inl e, s) \<Rightarrow> (Inl e, s) | (Inr ab, s) \<Rightarrow> ?go ab s)"
    unfolding go by (rule io_bind_def)
  have "reads ?paths" by (intro reads_intros)
  from reads_unchanged [where m = ?paths, OF this ps] have u1: "unchanged s s1" .
  note l1 = unchanged_look [OF u1]
  have e1: "fs_euid s1 = fs_euid s" using u1 by (simp add: unchanged_def)
  show ?thesis
  proof (cases r1)
    case (Inl e) then show ?thesis using c G l1 unfolding ps by (auto simp: seen_def)
  next
    case (Inr ab)
    have ab: "ab = (abs_path d, abs_path ?q)"
    proof -
      from ps Inr obtain a b t where x: "resolvedControlDirectory (abs_path d) True s = (Inr a, t)"
          "resolvedControlPath (abs_path ?q) True t = (Inr b, s1)" "ab = (a, b)"
        by (auto simp: io_bind_Inr)
      have "unchanged s t" by (rule reads_unchanged [OF reads_control_directory x(1)])
      then have dt: "plain t i" "dir_at t i" using di unchanged_look by (simp_all add: plain_def dir_at_def)
      have "a = abs_path d"
        using x(1) eval_plain [OF d] d(1) by (fastforce simp: resolvedControlDirectory_def clean_abs_path io_bind_Inr)
      moreover have "b = abs_path ?q"
        using x(2) eval_plain [OF ni(1) dt] ni Join_name q(1)
        by (fastforce simp: resolvedControlPath_def clean_abs_path Dir_abs_path Base_abs_path io_bind_Inr)
      ultimately show ?thesis using x(3) by simp
    qed
    have d1: "plain s1 d" "dir_at s1 d" "plain s1 i" "dir_at s1 i" using d di l1 by (simp_all add: plain_def dir_at_def)
    obtain r2 s2 where st: "stageUpdateRequest (abs_path d) ?k ?body s1 = (r2, s2)" by (cases "stageUpdateRequest (abs_path d) ?k ?body s1")
    note S = stage_law [OF d(1) d1(1,2) k st]
    have k2: "keeps_dirs s1 s2" using adds_keeps S by blast
    have tq: "?t \<noteq> ?q" using n by auto
    have e2: "seen s2 ?q = seen s1 ?q"
    proof (cases "look s2 = look s1")
      case False
      then have "look s1 ?t = None" using S by (auto simp: adds_def)
      moreover have "plain s1 ?q" using d1 by (simp add: plain_snoc)
      ultimately have "\<not> prefix ?t ?q" using not_above [OF q(1)] tq by blast
      then show ?thesis using adds_seen S by blast
    qed (simp add: seen_def)
    show ?thesis
    proof (cases r2)
      case (Inl e) then show ?thesis using c G Inr ab st e2 l1 unfolding ps by (auto simp: io_bind_def seen_def)
    next
      case r2: (Inr tp)
      then obtain f where tp: "tp = abs_path ?t" and f: "look s2 ?t = Some f" "holds ?body (fs_euid s1) f" using S by auto
      have nt: "names ?t" using d k by simp
      have pt: "plain s2 ?t" and pq: "plain s2 ?q" using plain_file [OF k2] d1 by blast+
      obtain r3 s3 where pb: "publish Link (abs_path ?t) (abs_path ?q) ?k ?body s2 = (r3, s3)" by (cases "publish Link (abs_path ?t) (abs_path ?q) ?k ?body s2")
      have eu: "fs_euid s1 = fs_euid s2"
        using S r2 f by (auto simp: adds_def only_def)
      note P = publish_law [OF nt pt f eu q(1) pq k n pb]
      have fin: "r = r3" "s' = removeStagedUpdateRequest (abs_path ?t) s3"
        using c G Inr ab st r2 tp pb unfolding ps by (auto simp: io_bind_def at_end_def)
      have pt3: "plain s3 ?t" using plain_file [OF keeps_trans [OF k2] d1(1,2)] P by blast
      have "look s1 ?t = None" using S r2 tp by auto
      moreover have "plain s1 ?q" using d1 by (simp add: plain_snoc)
      ultimately have "\<not> prefix ?t ?q" using not_above [OF q(1)] tq by blast
      then have e3: "seen s' ?q = seen s3 ?q" using only_seen [OF conjunct1 [OF staged_law [OF nt _ pt3]]] fin by simp
      have "published ?body (fs_euid s1) ?q s2 s3 \<longleftrightarrow> published ?body (fs_euid s1) ?q s s'"
        by (rule published_seen) (use e2 l1 e3 in \<open>simp_all add: seen_def\<close>)
      moreover have "seen s2 ?q = seen s ?q" using e2 l1 by (simp add: seen_def)
      ultimately show ?thesis using P fin(1) e3 e1 enc v by auto
    qed
  qed
qed

end
