(* ===== verification/Web_Update_Properties.thy ===== *)
theory Web_Update_Properties
  imports Control_Frame
begin

text \<open>What holds of updates requested from the browser: which release is requested, and how the request reaches the worker.\<close>

subsection \<open>The controller over time\<close>

lemma canonical_prints: "canonicalReleaseVersion raw = Some v \<Longrightarrow> canonicalReleaseVersion (version_String v) = Some v"
proof -
  assume "canonicalReleaseVersion raw = Some v"
  then have ok: "version_ok v" using parse_ok by (auto simp: canonicalReleaseVersion_def Let_def split: sum.splits if_splits)
  have ne: "version_String v \<noteq> []" by (simp add: version_String_def Let_def)
  have "\<forall>c \<in> set (version_String v). of_char c < (128 :: nat) \<and> \<not> is_space (of_char c)" using printed_ascii [OF ok] by blast
  then have "trim_space (version_String v) = version_String v" using ne by (intro trim_space_ascii) auto
  then show ?thesis using parse_print [OF ok] by (simp add: canonicalReleaseVersion_def Let_def)
qed

text \<open>A call of \<open>latestVersion\<close> begins, and one that asked the source is answered; the list holds those that ask.\<close>

datatype ctl_event = Begin time | Answer "failure + string" time

fun ctl_step :: "controller \<times> nat list \<Rightarrow> ctl_event \<Rightarrow> controller \<times> nat list" where
  "ctl_step (c, asks) (Begin now) = (case latest_begin now c of (Ask k, c) \<Rightarrow> (c, asks @ [k]) | (_, c) \<Rightarrow> (c, asks))"
| "ctl_step (c, asks) (Answer r now) = (if asks = [] then (c, asks) else (snd (latest_end r now c), List.tl asks))"

definition ctl_ok :: "controller \<Rightarrow> ctl_event list \<Rightarrow> controller \<times> nat list \<Rightarrow> bool" where
  "ctl_ok c0 evs = (\<lambda>(c, asks).
     c\<lparr>ctl_cached := ctl_cached c0, ctl_inFlight := ctl_inFlight c0, ctl_calls := ctl_calls c0\<rparr> = c0 \<and>
     asks = (case ctl_inFlight c of None \<Rightarrow> [] | Some k \<Rightarrow> [k]) \<and>
     (fst (ctl_cached c) \<noteq> [] \<longrightarrow> (\<exists>raw at v. Answer (Inr raw) at \<in> set evs \<and> canonicalReleaseVersion raw = Some v \<and>
        ctl_cached c = (version_String v, at + ctl_cacheTTL c0))))"

lemma ctl_ok_step: "ctl_ok c0 evs ca \<Longrightarrow> ctl_ok c0 (evs @ [e]) (ctl_step ca e)"
proof (cases ca; cases e)
  fix c asks now assume "ctl_ok c0 evs ca" "ca = (c, asks)" "e = Begin now"
  then show ?thesis
    by (cases "ctl_inFlight c") (auto simp: ctl_ok_def latest_begin_def split: if_splits)
next
  fix c asks r now assume a: "ctl_ok c0 evs ca" "ca = (c, asks)" "e = Answer r now"
  show ?thesis
  proof (cases "asks = []")
    case True then show ?thesis using a by (auto simp: ctl_ok_def)
  next
    case False
    then obtain k where k: "ctl_inFlight c = Some k" "asks = [k]" using a by (auto simp: ctl_ok_def split: option.splits)
    have ttl: "ctl_cacheTTL c = ctl_cacheTTL c0" using a by (auto simp: ctl_ok_def dest!: arg_cong [where f = ctl_cacheTTL])
    show ?thesis
    proof (cases "checked_version r")
      case (Inl x) then show ?thesis using a k by (auto simp: ctl_ok_def latest_end_def)
    next
      case (Inr w)
      then obtain raw v where "r = Inr raw" "canonicalReleaseVersion raw = Some v" "w = version_String v"
        by (auto simp: checked_version_def split: sum.splits option.splits)
      then show ?thesis using a k Inr ttl by (auto simp: ctl_ok_def latest_end_def)
    qed
  qed
qed

lemma ctl_ok_run: "ctl_ok (NewWebController os arch opts) evs (foldl ctl_step (NewWebController os arch opts, []) evs)"
proof (induction evs rule: rev_induct)
  case Nil show ?case by (simp add: ctl_ok_def NewWebController_def)
qed (simp add: ctl_ok_step)

lemma base_capable:
  assumes "baseStatus cc c now s = ((status, Some current, None), s')"
  shows "canonicalReleaseVersion (ctl_currentVersion c) = Some current \<and> fst (capabilityEnabled (cp_Enabled (ctl_paths c)) s)"
  using assms by (auto simp: baseStatus_def with_inbox_def Let_def split: option.splits if_splits prod.splits sum.splits)

lemma request_ok:
  assumes "Request cc ck wanted (c, s) = ((status, None), c', s')"
  obtains st0 current s1 raw latest jobID where "baseStatus cc c (ck_now ck) s = ((st0, Some current, None), s1)" "\<not> busy (wu_State st0)"
    "fst (ctl_cached c) = raw" "raw \<noteq> []" "ck_now ck < snd (ctl_cached c)" "canonicalReleaseVersion raw = Some latest" "wanted = version_String latest"
    "0 < version_Compare latest current" "newUpdateJobID (ck_random ck) = Some jobID"
    "enqueueUpdateRequest cc (cp_Staging (ctl_paths c)) (cp_Request (ctl_paths c))
       \<lparr>jr_JobID = jobID, jr_TargetVersion = wanted, jr_RequestedAt = ck_later ck\<rparr> s1 = (Inr (), s')"
    "c' = c" "wu_State status = PhaseQueued"
proof -
  obtain st0 cur err s1 where b: "baseStatus cc c (ck_now ck) s = ((st0, cur, err), s1)" by (metis prod.exhaust)
  show thesis
  proof (cases "err = None \<and> (\<exists>current. cur = Some current) \<and> \<not> ck_cancelled ck \<and> \<not> busy (wu_State st0)")
    case False
    then show thesis using assms by (auto simp: Request_def b split: option.splits if_splits)
  next
    case True
    then obtain current where cur: "cur = Some current" "err = None" "\<not> ck_cancelled ck" "\<not> busy (wu_State st0)" by blast
    show thesis
    proof (cases "freshCachedVersion (ck_now ck) c")
      case None then show thesis using assms by (simp add: Request_def b cur)
    next
      case (Some raw)
      then have f: "fst (ctl_cached c) = raw" "raw \<noteq> []" "ck_now ck < snd (ctl_cached c)" by (auto simp: freshCachedVersion_def split: if_splits)
      show thesis
      proof (cases "canonicalReleaseVersion raw")
        case None then show thesis using assms by (simp add: Request_def b cur Some)
      next
        case v: (Some latest)
        have t: "wanted = version_String latest" "0 < version_Compare latest current"
          using assms by (auto simp: Request_def b cur Some v Let_def with_latest_def split: if_splits)
        obtain jobID where j: "newUpdateJobID (ck_random ck) = Some jobID"
          using assms t by (auto simp: Request_def b cur Some v Let_def with_latest_def split: option.splits)
        obtain r s2 where e: "enqueueUpdateRequest cc (cp_Staging (ctl_paths c)) (cp_Request (ctl_paths c))
            \<lparr>jr_JobID = jobID, jr_TargetVersion = wanted, jr_RequestedAt = ck_later ck\<rparr> s1 = (r, s2)" by (metis prod.exhaust)
        have "r = Inr () \<and> s2 = s' \<and> c' = c \<and> wu_State status = PhaseQueued"
          using assms t e by (cases r) (auto simp: Request_def b cur Some v j Let_def with_latest_def)
        then show thesis using that [of st0 current s1 raw latest jobID] b cur f v t j e by blast
      qed
    qed
  qed
qed

text \<open>
  C8. A browser can only request the release that the source named last. However calls interleave, one
  at a time asks the source; and a request that is accepted names, as it was, a canonical version that the
  source answered within the lifetime of the cache, that is newer than the running one, on a host where web
  updates are enabled and no update is queued or running.
\<close>

theorem request_names_checked_release:
  assumes run: "foldl ctl_step (NewWebController os arch opts, []) evs = (c, asks)"
    and req: "Request cc ck wanted (c, s) = ((status, None), c', s')"
  shows "length asks \<le> 1 \<and> wu_State status = PhaseQueued \<and>
    (\<exists>raw at latest current st0 s1. Answer (Inr raw) at \<in> set evs \<and> ck_now ck < at + ctl_cacheTTL c \<and>
       canonicalReleaseVersion raw = Some latest \<and> wanted = version_String latest \<and>
       canonicalReleaseVersion (ctl_currentVersion c) = Some current \<and> 0 < version_Compare latest current \<and>
       fst (capabilityEnabled (cp_Enabled (ctl_paths c)) s) \<and>
       baseStatus cc c (ck_now ck) s = ((st0, Some current, None), s1) \<and> \<not> busy (wu_State st0))"
proof -
  let ?c0 = "NewWebController os arch opts"
  have ok: "ctl_ok ?c0 evs (c, asks)" using ctl_ok_run [of os arch opts evs] run by simp
  have ttl: "ctl_cacheTTL c = ctl_cacheTTL ?c0" using ok by (auto simp: ctl_ok_def dest!: arg_cong [where f = ctl_cacheTTL])
  from req show ?thesis
  proof (rule request_ok)
    fix st0 current s1 raw latest jobID
    assume R: "baseStatus cc c (ck_now ck) s = ((st0, Some current, None), s1)" "\<not> busy (wu_State st0)" "fst (ctl_cached c) = raw" "raw \<noteq> []"
      "ck_now ck < snd (ctl_cached c)" "canonicalReleaseVersion raw = Some latest" "wanted = version_String latest"
      "0 < version_Compare latest current" "wu_State status = PhaseQueued"
    obtain raw0 at v where v: "Answer (Inr raw0) at \<in> set evs" "canonicalReleaseVersion raw0 = Some v" "ctl_cached c = (version_String v, at + ctl_cacheTTL ?c0)"
      using ok R(3,4) by (auto simp: ctl_ok_def)
    then have "latest = v" using R(3,6) canonical_prints [OF v(2)] by simp
    moreover have "length asks \<le> 1" using ok by (auto simp: ctl_ok_def split: option.splits)
    ultimately show ?thesis using R v ttl base_capable [OF R(1)] by auto
  qed
qed

text \<open>The same file with the same owner, whatever its times and links.\<close>

definition alike :: "inode option \<Rightarrow> inode option \<Rightarrow> bool" where
  "alike a b \<longleftrightarrow> map_option (\<lambda>i. (in_kind i, in_uid i)) a = map_option (\<lambda>i. (in_kind i, in_uid i)) b"

text \<open>
  C9. A request is handed over whole and once. When the daemon reports it as queued, the inbox was
  empty and now holds the complete request, however the calls failed on the way; while it lies there no other
  request takes its place; and what the worker claims from the inbox is that very request, which is
  then gone from it, so that a later claim finds nothing.
\<close>

theorem request_is_handed_over_once:
  assumes paths: "names (i @ [n])" "i \<noteq> []" "plain s (i @ [n])" and staging: "names d" "plain s d" "dir_at s d" "\<not> prefix (i @ [n]) d"
    and name: "\<forall>k. n \<noteq> request_name k"
    and codec: "\<forall>enc. cc_encodeRequest cc req = Some enc \<longrightarrow> cc_decodeRequest cc (enc @ [newline]) = Some req"
    and queued: "enqueueUpdateRequest cc (abs_path d) (abs_path (i @ [n])) req s = (Inr (), s1)"
    and later: "alike (look s2 (i @ [n])) (look s1 (i @ [n]))" "plain s2 (i @ [n])" "plain s2 d" "dir_at s2 d"
    and other: "enqueueUpdateRequest cc (abs_path d) (abs_path (i @ [n])) req' s2 = (res, t)"
    and claim: "ConsumeUpdateRequestForUID cc rnd (abs_path (i @ [n])) uid s2 = (got, s3)"
    and again: "look s4 (i @ [n]) = look s3 (i @ [n])" "plain s4 (i @ [n])"
       "ConsumeUpdateRequestForUID cc rnd' (abs_path (i @ [n])) uid' s4 = (got', s5)"
  shows "look s (i @ [n]) = None \<and> res \<noteq> Inr () \<and> look t (i @ [n]) = look s2 (i @ [n]) \<and>
    (\<forall>r. got = Inr r \<longrightarrow> r = req \<and> uid = fs_euid s \<and> validateUpdateJobRequest req = None \<and> (\<forall>r'. got' \<noteq> Inr r'))"
proof -
  let ?q = "i @ [n]"
  obtain enc e where enc: "cc_encodeRequest cc req = Some enc" and s: "look s ?q = None" and e: "look s1 ?q = Some e" "holds (enc @ [newline]) (fs_euid s) e"
    and v: "validateUpdateJobRequest req = None"
    using enqueue_law [OF staging(1-3) paths(1,3) staging(4) _ queued] name by (auto simp: published_def)
  obtain e2 where e2: "look s2 ?q = Some e2" "in_kind e2 = KFile (enc @ [newline])" "in_uid e2 = fs_euid s"
    using later(1) e by (auto simp: alike_def holds_def)
  have T: "seen t ?q = seen s2 ?q \<and> res \<noteq> Inr ()"
    using enqueue_law [OF staging(1) later(3,4) paths(1) later(2) staging(4) _ other] name e2 by (auto simp: published_def)
  have t: "look t ?q = Some e2" by (rule file_seen [OF conjunct1 [OF T] e2(1)]) (simp add: is_dir_def e2(2))
  note C = consume_spec [OF paths(1,2) later(2) claim]
  have got: "r = req \<and> uid = fs_euid s \<and> look s3 ?q = None" if "got = Inr r" for r
    using C e2 codec enc that by (auto simp: acceptable_def)
  have "got' \<noteq> Inr r'" if "got = Inr r" for r r'
    using consume_spec [OF paths(1,2) again(2,3)] got [OF that] again(1) by auto
  with got v have "\<forall>r. got = Inr r \<longrightarrow> r = req \<and> uid = fs_euid s \<and> validateUpdateJobRequest req = None \<and> (\<forall>r'. got' \<noteq> Inr r')" by blast
  moreover have "look t ?q = look s2 ?q" using t e2(1) by simp
  ultimately show ?thesis using s T by blast
qed

subsection \<open>Example\<close>

text \<open>A control directory of root with a staging directory and an inbox of user 7, who runs the daemon and here the worker too.\<close>

definition ctl_inode :: "kind \<Rightarrow> int \<Rightarrow> nat \<Rightarrow> nat \<Rightarrow> inode" where
  "ctl_inode k u mode ino = \<lparr>in_kind = k, in_dev = 1, in_ino = ino, in_uid = u, in_gid = 7, in_mode = mode, in_mtime = 5\<rparr>"

definition ctl_files :: files where
  "ctl_files = \<lparr>fs_tree = [([], ctl_inode KDir 0 493 1), ([''c''], ctl_inode KDir 0 493 2), ([''c'', ''on''], ctl_inode (KFile []) 0 420 3),
      ([''c'', ''st''], ctl_inode KDir 7 448 4), ([''c'', ''in''], ctl_inode KDir 7 448 5)],
     fs_calls = 0, fs_fault = (\<lambda>_. False), fs_rand = (\<lambda>n. of_nat n), fs_ino = 100, fs_time = 77, fs_euid = 7, fs_egid = 7\<rparr>"

definition new_release :: version where "new_release = \<lparr>v_Major = 1, v_Minor = 3, v_Patch = 0, v_Pre = []\<rparr>"
definition old_release :: version where "old_release = \<lparr>v_Major = 1, v_Minor = 2, v_Patch = 0, v_Pre = []\<rparr>"

definition an_id :: "byte list" where "an_id = replicate 16 0"

definition a_request :: job_request where
  "a_request = \<lparr>jr_JobID = ''AAAAAAAAAAAAAAAAAAAAAA'', jr_TargetVersion = ''v1.3.0'', jr_RequestedAt = 30\<rparr>"

definition ctl_codec :: control_codec where
  "ctl_codec = \<lparr>cc_encodeRequest = (\<lambda>r. Some ''{}''), cc_decodeRequest = (\<lambda>b. Some a_request), cc_encodeStatus = (\<lambda>j. None), cc_decodeStatus = (\<lambda>b. None)\<rparr>"

definition ctl_options :: controller_options where
  "ctl_options = \<lparr>co_CurrentVersion = ''v1.2.0'', co_GOOS = [], co_GOARCH = [],
     co_Paths = \<lparr>cp_Enabled = ''/c/on'', cp_Staging = ''/c/st'', cp_Request = ''/c/in/request'', cp_Status = ''/c/status''\<rparr>, co_CacheTTL = 100, co_StaleAfter = 50\<rparr>"

definition a_controller :: controller where
  "a_controller = \<lparr>ctl_currentVersion = ''v1.2.0'', ctl_goos = ''linux'', ctl_goarch = ''amd64'', ctl_paths = co_Paths ctl_options, ctl_cacheTTL = 100,
     ctl_staleAfter = 50, ctl_cached = (''v1.3.0'', 110), ctl_inFlight = None, ctl_calls = 1\<rparr>"

definition ctl_events :: "ctl_event list" where "ctl_events = [Begin 0, Answer (Inr ''v1.3.0'') 10]"

definition ctl_check :: check_env where
  "ctl_check = \<lparr>ck_now = 20, ck_later = 30, ck_source = Inl (Fail ''offline''), ck_joined = (\<lambda>_. Inl (Fail ''offline'')), ck_cancelled = False, ck_random = Some an_id\<rparr>"

lemma releases: "canonicalReleaseVersion ''v1.3.0'' = Some new_release" "canonicalReleaseVersion ''v1.2.0'' = Some old_release"
proof -
  have "version_String new_release = ''v1.3.0''" "version_ok new_release" "version_String old_release = ''v1.2.0''" "version_ok old_release"
    by code_simp+
  moreover have "canonicalReleaseVersion (version_String v) = Some v" if "version_ok v" "trim_space (version_String v) = version_String v" for v
    using that parse_print by (simp add: canonicalReleaseVersion_def Let_def)
  moreover have "trim_space ''v1.3.0'' = ''v1.3.0''" "trim_space ''v1.2.0'' = ''v1.2.0''"
    by (rule trim_space_ascii; simp add: is_space_def)+
  ultimately show "canonicalReleaseVersion ''v1.3.0'' = Some new_release" "canonicalReleaseVersion ''v1.2.0'' = Some old_release" by metis+
qed

lemma ctl_history: "foldl ctl_step (NewWebController ''linux'' ''amd64'' ctl_options, []) ctl_events = (a_controller, [])"
proof -
  have "trim_space ''v1.2.0'' = ''v1.2.0''" by (rule trim_space_ascii) (simp_all add: is_space_def)
  moreover have "version_String new_release = ''v1.3.0''" by code_simp
  ultimately show ?thesis
    by (simp add: ctl_events_def NewWebController_def ctl_options_def a_controller_def latest_begin_def latest_end_def checked_version_def releases
        default_paths_def or_default_def)
qed

lemma a_request_valid: "validateUpdateJobRequest a_request = None"
proof -
  have "validJobID (jr_JobID a_request)" "jr_RequestedAt a_request \<noteq> zero_time" by code_simp+
  then show ?thesis using releases by (simp add: validateUpdateJobRequest_def) (simp add: a_request_def)
qed

definition ctl_at :: "nat \<Rightarrow> files" where "ctl_at n = ctl_files\<lparr>fs_calls := n\<rparr>"

lemma reads_at:
  assumes "reads m" "fst (m (ctl_at n)) = r" "fs_calls (snd (m (ctl_at n))) = k"
  shows "m (ctl_at n) = (r, ctl_at k)"
  using reads_from [OF assms] by (simp add: ctl_at_def)

lemma ctl_codec_decodes: "cc_decodeStatus ctl_codec x = None" "cc_decodeRequest ctl_codec x = Some a_request"
  by (simp_all add: ctl_codec_def)

lemma capable_ok: "capabilityEnabled ''/c/on'' (ctl_at 0) = (True, ctl_at 4)"
  by (rule reads_at [OF reads_capability]) code_simp+

lemma no_status: "ReadUpdateStatus ctl_codec ''/c/status'' (ctl_at 4) = (Inl ErrNoUpdateStatus, ctl_at 9)"
  by (rule reads_at [OF reads_status]; unfold ReadUpdateStatus_def ctl_codec_decodes option.case; code_simp)

lemma no_request: "peekUpdateRequest ctl_codec ''/c/in/request'' (ctl_at 9) = (Inl ErrNoUpdateRequest, ctl_at 14)"
  by (rule reads_at [OF reads_peek]; unfold peekUpdateRequest_def decode_request_def ctl_codec_decodes option.case a_request_valid; code_simp)

definition queued_files :: "(failure + unit) \<times> files" where
  "queued_files = enqueueUpdateRequest ctl_codec ''/c/st'' ''/c/in/request'' a_request (ctl_at 14)"

lemma queued_ok: "fst queued_files = Inr ()"
  unfolding queued_files_def enqueueUpdateRequest_def enqueueUpdateRequestWithLink_def a_request_valid by code_simp

definition ctl_reply :: "(web_update_status \<times> failure option) \<times> controller \<times> files" where
  "ctl_reply = Request ctl_codec ctl_check ''v1.3.0'' (a_controller, ctl_at 0)"

lemma reply_ok: "snd (fst ctl_reply) = None"
proof -
  have platform: "ValidatePlatform ''linux'' ''amd64''" and newer: "0 < version_Compare new_release old_release"
    and jobID: "newUpdateJobID (ck_random ctl_check) = Some ''AAAAAAAAAAAAAAAAAAAAAA''" and printed: "version_String new_release = ''v1.3.0''" by code_simp+
  have "enqueueUpdateRequest ctl_codec ''/c/st'' ''/c/in/request'' \<lparr>jr_JobID = ''AAAAAAAAAAAAAAAAAAAAAA'', jr_TargetVersion = ''v1.3.0'', jr_RequestedAt = 30\<rparr> (ctl_at 14)
      = (Inr (), snd queued_files)"
    using queued_ok by (simp add: queued_files_def prod_eq_iff a_request_def)
  then show ?thesis
    using platform newer jobID printed
    by (simp add: ctl_reply_def Request_def baseStatus_def with_inbox_def a_controller_def ctl_options_def releases capable_ok no_status no_request
        errors_Is.simps update_errors busy_def freshCachedVersion_def ctl_check_def with_latest_def Let_def)
qed

theorem request_names_checked_release_witness: "wu_State (fst (fst ctl_reply)) = PhaseQueued"
proof -
  have "Request ctl_codec ctl_check ''v1.3.0'' (a_controller, ctl_at 0) = ((fst (fst ctl_reply), None), fst (snd ctl_reply), snd (snd ctl_reply))"
    using reply_ok by (simp add: ctl_reply_def prod_eq_iff)
  from request_names_checked_release [OF ctl_history this] show ?thesis by blast
qed

text \<open>The same directories when the worker looks: the request lies in the inbox.\<close>

definition queued_inode :: inode where
  "queued_inode = \<lparr>in_kind = KFile (''{}'' @ [newline]), in_dev = 1, in_ino = 100, in_uid = 7, in_gid = 7, in_mode = 384, in_mtime = 77\<rparr>"

definition worker_files :: files where
  "worker_files = ctl_files\<lparr>fs_tree := fs_tree ctl_files @ [([''c'', ''in'', ''request''], queued_inode)], fs_ino := 101\<rparr>"

definition worker_at :: "nat \<Rightarrow> files" where "worker_at n = worker_files\<lparr>fs_calls := n\<rparr>"

definition claimed_files :: "(failure + job_request) \<times> files" where
  "claimed_files = ConsumeUpdateRequestForUID ctl_codec (Some []) ''/c/in/request'' 7 worker_files"

definition claimed_again :: "(failure + job_request) \<times> files" where
  "claimed_again = ConsumeUpdateRequestForUID ctl_codec (Some []) ''/c/in/request'' 7 ctl_files"

definition queued_again :: "(failure + unit) \<times> files" where
  "queued_again = enqueueUpdateRequest ctl_codec ''/c/st'' ''/c/in/request'' a_request worker_files"

lemma decodes_request: "decode_request ctl_codec b = io_return a_request"
  by (simp add: decode_request_def ctl_codec_decodes a_request_valid io_valid_def)

lemma worker_path: "resolvedConsumerRequestPath ''/c/in/request'' worker_files = (Inr (''/c/in/request'', ctl_inode KDir 7 448 5), worker_at 4)"
  unfolding worker_at_def by (rule reads_from [OF reads_consumer_path]) code_simp+

lemma worker_ancestors: "or_fail (validateSecureAncestors ''/c'') e (worker_at 4) = (Inr (), worker_at 6)"
proof -
  have "validateSecureAncestors ''/c'' (worker_at 4) = (Inr (), (worker_at 4)\<lparr>fs_calls := 6\<rparr>)"
    by (rule reads_from [OF reads_ancestors]) code_simp+
  then show ?thesis by (simp add: or_fail_def worker_at_def)
qed

lemma claimed_take: "claimed_files = take_claim ctl_codec ''/c/in/request'' ''/c'' ''/c/.request-claim-'' (ctl_inode KDir 7 448 5) 7 (worker_at 6)"
proof -
  have "newUpdateJobID (Some []) = Some []" "Dir (Dir ''/c/in/request'') = ''/c''" "Join ''/c'' (claim_name []) = ''/c/.request-claim-''" by code_simp+
  then show ?thesis by (simp add: claimed_files_def ConsumeUpdateRequestForUID_def io_bind_def worker_path worker_ancestors Let_def)
qed

lemma claimed_ok: "fst claimed_files = Inr a_request" "look (snd claimed_files) [''c'', ''in'', ''request''] = None"
  unfolding claimed_take take_claim_def read_claim_def decodes_request by code_simp+

lemma plain_check: "list_all (\<lambda>n. dir_at s (take n p)) [0..<length p] \<Longrightarrow> plain s p"
proof -
  assume a: "list_all (\<lambda>n. dir_at s (take n p)) [0..<length p]"
  have "dir_at s q" if st: "strict_prefix q p" for q
  proof -
    obtain u where p: "p = q @ u" "u \<noteq> []" using st unfolding strict_prefix_def prefix_def by (metis append_Nil2)
    then have "length q \<in> set [0..<length p]" "q = take (length q) p" by auto
    with a show ?thesis unfolding list_all_iff by metis
  qed
  then show ?thesis by (simp add: plain_def)
qed

lemma ctl_paths: "abs_path ([''c'', ''in''] @ [''request'']) = ''/c/in/request''" "abs_path [''c'', ''st''] = ''/c/st''"
  by code_simp+

theorem request_is_handed_over_once_witness:
  "look (ctl_at 14) [''c'', ''in'', ''request''] = None \<and> fst queued_again \<noteq> Inr () \<and> fst claimed_files = Inr a_request \<and> fst claimed_again \<noteq> Inr a_request"
proof -
  let ?i = "[''c'', ''in'']" and ?d = "[''c'', ''st'']"
  have n: "names (?i @ [''request''])" "names ?d" "\<forall>k. ''request'' \<noteq> request_name k" "\<not> prefix (?i @ [''request'']) ?d"
    by (simp_all add: valid_name_def slash_def dot_def dotdot_def request_name_def)
  have p: "plain (ctl_at 14) (?i @ [''request''])" "plain (ctl_at 14) ?d" by (rule plain_check; code_simp)+
  have w: "plain worker_files (?i @ [''request''])" "plain worker_files ?d" "plain ctl_files (?i @ [''request''])" by (rule plain_check; code_simp)+
  have d: "dir_at (ctl_at 14) ?d" "dir_at worker_files ?d" by code_simp+
  have gone: "look ctl_files (?i @ [''request'']) = look (snd claimed_files) (?i @ [''request''])"
  proof -
    have "look ctl_files [''c'', ''in'', ''request''] = None" by code_simp
    with claimed_ok(2) show ?thesis by (simp only: append.simps)
  qed
  have q: "enqueueUpdateRequest ctl_codec (abs_path ?d) (abs_path (?i @ [''request''])) a_request (ctl_at 14) = (Inr (), snd queued_files)"
    unfolding ctl_paths using queued_ok by (simp add: queued_files_def prod_eq_iff)
  have o: "enqueueUpdateRequest ctl_codec (abs_path ?d) (abs_path (?i @ [''request''])) a_request worker_files = (fst queued_again, snd queued_again)"
    unfolding ctl_paths by (simp add: queued_again_def)
  have c: "ConsumeUpdateRequestForUID ctl_codec (Some []) (abs_path (?i @ [''request''])) 7 worker_files = (fst claimed_files, snd claimed_files)"
    unfolding ctl_paths by (simp add: claimed_files_def)
  have a: "ConsumeUpdateRequestForUID ctl_codec (Some []) (abs_path (?i @ [''request''])) 7 ctl_files = (fst claimed_again, snd claimed_again)"
    unfolding ctl_paths by (simp add: claimed_again_def)
  have dec: "\<forall>enc. cc_encodeRequest ctl_codec a_request = Some enc \<longrightarrow> cc_decodeRequest ctl_codec (enc @ [newline]) = Some a_request"
    by (simp add: ctl_codec_decodes)
  have nn: "''request'' \<noteq> request_name (jr_JobID a_request)" using n(3) by blast
  have enc: "cc_encodeRequest ctl_codec a_request = Some ''{}''" "fs_euid (ctl_at 14) = 7" by (simp_all add: ctl_codec_def ctl_at_def ctl_files_def)
  from mp [OF conjunct2 [OF enqueue_law [OF n(2) p(2) d(1) n(1) p(1) n(4) nn q]] refl]
  obtain b where b: "Some ''{}'' = Some b" "published (b @ [newline]) 7 (?i @ [''request'']) (ctl_at 14) (snd queued_files)" unfolding enc by blast
  then obtain e where "look (snd queued_files) (?i @ [''request'']) = Some e" "holds (b @ [newline]) 7 e" unfolding published_def by blast
  moreover have "b = ''{}''" using b(1) by (rule option.inject [THEN iffD1, symmetric])
  moreover have "look worker_files (?i @ [''request'']) = Some queued_inode" by code_simp
  ultimately have here: "alike (look worker_files (?i @ [''request''])) (look (snd queued_files) (?i @ [''request'']))"
    by (simp add: alike_def holds_def queued_inode_def)
  from request_is_handed_over_once [OF n(1) _ p(1) n(2) p(2) d(1) n(4,3) dec q here w(1,2) d(2) o c gone w(3) a] claimed_ok(1)
  show ?thesis unfolding append.simps by blast
qed

end
