(* ===== verification/Config.thy ===== *)
theory Config
  imports Update_Engine
begin

text \<open>
  The configuration of the daemon (\<open>internal/server/config.go\<close>): where the file is looked for, how it is
  read and checked, and what is derived from it; with the endpoint that invites advertise
  (\<open>internal/server/publicip.go\<close>, \<open>internal/commands/daemon.go\<close>). The YAML decoder, the echo services and
  the parser of IP addresses are arguments.
\<close>

subsection \<open>The configuration file\<close>

definition ConfigLookupPaths :: "string list" where
  "ConfigLookupPaths = [''/opt/runeconsole/configs/runeconsole.conf'', ''./runeconsole.conf'']"

definition InitialConfigVersion :: int where "InitialConfigVersion = 1"
definition CurrentConfigVersion :: int where "CurrentConfigVersion = 1"

record tls_config =
  tc_Cert :: string
  tc_Key :: string
  tc_CA :: string

record grpc_config =
  gc_Host :: string
  gc_Port :: int
  gc_TLS :: tls_config

record console_config =
  nc_Enabled :: bool
  nc_Port :: int

record config =
  cf_ConfigVersion :: int
  cf_GRPC :: grpc_config
  cf_Console :: console_config
  cf_APIBaseURL :: string
  cf_WebBaseURL :: string
  cf_KeysPath :: string
  cf_EmbeddingDim :: int
  cf_TeamSecret :: string
  cf_InviteTTLMinutes :: int
  cf_ConsoleEndpoint :: string
  cf_AuditMode :: string
  cf_AuditPath :: string
  cf_DataDir :: string
  cf_Source :: string

definition ConsolePort :: "config \<Rightarrow> int" where
  "ConsolePort c = (if nc_Port (cf_Console c) = 0 then 8787 else nc_Port (cf_Console c))"

definition ConsoleDBPath :: "config \<Rightarrow> string" where
  "ConsoleDBPath c = Join (cf_DataDir c) ''console-session.db''"

definition StoreDBPath :: "config \<Rightarrow> string" where
  "StoreDBPath c = Join (cf_DataDir c) ''runeconsole.db''"

text \<open>A duration is a signed 64-bit number of nanoseconds, and the product wraps.\<close>

definition InviteTTL :: "config \<Rightarrow> int" where
  "InviteTTL c = (let m = (if cf_InviteTTLMinutes c \<le> 0 then 1440 else cf_InviteTTLMinutes c) in sint (of_int m * of_int (60 * second) :: 64 word))"

definition Redact :: "config \<Rightarrow> config" where
  "Redact c = (if cf_TeamSecret c \<noteq> [] then c\<lparr>cf_TeamSecret := ''[REDACTED]''\<rparr> else c)"

definition config_errors :: "config \<Rightarrow> string list" where
  "config_errors c =
     (if gc_Port (cf_GRPC c) = 0 then [''server.grpc.port is required''] else []) @
     (if nc_Enabled (cf_Console c) \<and> cf_APIBaseURL c = [] then [''cloud.api_base_url is required when server.console.enabled''] else []) @
     (if tc_Cert (gc_TLS (cf_GRPC c)) = [] \<or> tc_Key (gc_TLS (cf_GRPC c)) = []
      then [''server.grpc.tls.cert and server.grpc.tls.key are required''] else []) @
     (if cf_KeysPath c = [] then [''keys.path is required''] else []) @
     (if cf_EmbeddingDim c = 0 then [''keys.embedding_dim is required''] else []) @
     (if cf_DataDir c = [] then [''storage.data_dir is required''] else [])"

definition Validate :: "config \<Rightarrow> failure option" where
  "Validate c =
     (let errs = config_errors c
      in if errs = [] then None else Some (Fail (''config invalid:'' @ concat (map (\<lambda>e. newline # ''  - '' @ e) errs))))"

subsection \<open>Loading\<close>

text \<open>What surrounds the process: its working directory, and the strict decoder of YAML.\<close>

record config_host =
  ho_cwd :: string
  ho_yaml :: "string \<Rightarrow> config option"

text \<open>A relative path as the kernel resolves it, and as \<open>filepath.Abs\<close> prints it.\<close>

definition from_cwd :: "config_host \<Rightarrow> string \<Rightarrow> string" where
  "from_cwd h p = (if IsAbs p then p else ho_cwd h @ slash # p)"

definition filepath_Abs :: "config_host \<Rightarrow> string \<Rightarrow> string" where
  "filepath_Abs h p = (if IsAbs p then Clean p else Join (ho_cwd h) p)"

fun first_config :: "config_host \<Rightarrow> string list \<Rightarrow> string io" where
  "first_config h [] = io_fail (Fail ''config file not found'')"
| "first_config h (p # ps) =
     (\<lambda>s. case Stat (from_cwd h p) s of
        (Inr _, s) \<Rightarrow> (Inr (filepath_Abs h p), s)
      | (Inl _, s) \<Rightarrow> first_config h ps s)"

definition resolveConfigPath :: "config_host \<Rightarrow> string \<Rightarrow> string io" where
  "resolveConfigPath h override =
     (if override \<noteq> [] then
        io_bind (fail_with (io_sys (Stat (from_cwd h override))) (FailWith ''config file not found at --config'')) (\<lambda>_.
        io_return (filepath_Abs h override))
      else first_config h ConfigLookupPaths)"

text \<open>Any bit outside 0640 is refused; a file that is missing is left to the caller.\<close>

definition checkSecretMode :: "string \<Rightarrow> unit io" where
  "checkSecretMode path s =
     (case Stat path s of
        (Inl _, s) \<Rightarrow> (Inr (), s)
      | (Inr info, s) \<Rightarrow> (if has_bits (perm info) 95 then Inl (Fail ''config: mode is too permissive (expected at most 0640)'') else Inr (), s))"

definition LoadConfig :: "config_host \<Rightarrow> string \<Rightarrow> config io" where
  "LoadConfig h override =
     io_bind (resolveConfigPath h override) (\<lambda>path.
     io_bind (fail_with (io_sys (ReadFile path)) (FailWith ''read config'')) (\<lambda>data.
     case ho_yaml h data of
       None \<Rightarrow> io_fail (Fail ''parse config'')
     | Some cfg \<Rightarrow>
         let cfg = (if cf_ConfigVersion cfg = 0 then cfg\<lparr>cf_ConfigVersion := InitialConfigVersion\<rparr> else cfg)
         in if cf_ConfigVersion cfg \<noteq> CurrentConfigVersion then io_fail (Fail ''unsupported config_version'')
            else io_bind (checkSecretMode path) (\<lambda>_. io_return (cfg\<lparr>cf_Source := path\<rparr>))))"

subsection \<open>The advertised endpoint\<close>

definition grpcHost :: "config \<Rightarrow> string" where
  "grpcHost c = (if gc_Host (cf_GRPC c) = [] then ''0.0.0.0'' else gc_Host (cf_GRPC c))"

definition JoinHostPort :: "string \<Rightarrow> string \<Rightarrow> string" where
  "JoinHostPort host port = (if CHR '':'' \<in> set host then CHR ''['' # host @ '']:'' @ port else host @ CHR '':'' # port)"

definition publicIPServices :: "string list" where
  "publicIPServices = [''https://ifconfig.me/ip'', ''https://api.ipify.org'', ''https://icanhazip.com'']"

text \<open>The first service that answers with an address; at most 64 bytes of an answer are read.\<close>

fun first_address :: "(string \<Rightarrow> string option) \<Rightarrow> (string \<Rightarrow> bool) \<Rightarrow> string list \<Rightarrow> string" where
  "first_address http is_ip [] = []"
| "first_address http is_ip (url # urls) =
     (case http url of
        None \<Rightarrow> first_address http is_ip urls
      | Some body \<Rightarrow> (let ip = trim_space (take 64 body) in if is_ip ip then ip else first_address http is_ip urls))"

definition DetectPublicIP :: "(string \<Rightarrow> string option) \<Rightarrow> (string \<Rightarrow> bool) \<Rightarrow> string" where
  "DetectPublicIP http is_ip = first_address http is_ip publicIPServices"

definition invite_endpoint :: "(string \<Rightarrow> string option) \<Rightarrow> (string \<Rightarrow> bool) \<Rightarrow> config \<Rightarrow> string" where
  "invite_endpoint http is_ip c =
     (if cf_ConsoleEndpoint c = [] \<or> cf_ConsoleEndpoint c = ''auto'' then
        let ip = DetectPublicIP http is_ip in JoinHostPort (if ip \<noteq> [] then ip else ''127.0.0.1'') (fmt_int 0 (gc_Port (cf_GRPC c)))
      else cf_ConsoleEndpoint c)"

end
