(* ===== verification/Update_Agent.thy ===== *)
theory Update_Agent
  imports Config Web_Update Go_Number
begin

text \<open>
  The two ways an update is started: by the command line (\<open>internal/commands/update.go\<close>) and by the root
  worker that consumes the request of the web console (\<open>internal/commands/update_agent.go\<close>). The worker gets
  what it calls as a record of functions over a world, as in the code; its heartbeat is interleaved with them.
\<close>

subsection \<open>The update command\<close>

record update_options =
  uo_version :: string
  uo_archive :: string
  uo_checksums :: string
  uo_check :: bool
  uo_dryRun :: bool
  uo_backupDir :: string
  uo_binaryPath :: string

text \<open>
  The process around a command: its configuration flag, build version, platform and executable, and what answers its calls
  to the service manager, the release server, the probe and the account database.
\<close>

record update_host =
  uh_config :: config_host
  uh_configPath :: string
  uh_version :: string
  uh_GOOS :: string
  uh_GOARCH :: string
  uh_executable :: "string option"
  uh_run :: runner
  uh_xml :: "string \<Rightarrow> xml_token list option"
  uh_engine :: engine
  uh_health :: "health_probe \<Rightarrow> nat \<Rightarrow> failure option"
  uh_account :: "string option"
  uh_codec :: control_codec
  uh_random :: "byte list option"

definition durableStatePaths :: "config \<Rightarrow> string list" where
  "durableStatePaths c =
     filter (\<lambda>p. p \<noteq> [])
       ([cf_Source c, cf_DataDir c] @ concat (map (\<lambda>db. [db, db @ ''-wal'', db @ ''-shm'']) [StoreDBPath c, ConsoleDBPath c]) @
        [cf_KeysPath c, tc_Cert (gc_TLS (cf_GRPC c)), tc_Key (gc_TLS (cf_GRPC c)), tc_CA (gc_TLS (cf_GRPC c))])"

definition update_probe :: "config \<Rightarrow> health_probe" where
  "update_probe c =
     (if nc_Enabled (cf_Console c)
      then \<lparr>hp_HTTPURL = ''http://127.0.0.1:'' @ fmt_int 0 (ConsolePort c) @ ''/healthz'', hp_TCPAddr = []\<rparr>
      else \<lparr>hp_HTTPURL = [], hp_TCPAddr = JoinHostPort ''127.0.0.1'' (fmt_int 0 (gc_Port (cf_GRPC c)))\<rparr>)"

definition update_source :: "update_options \<Rightarrow> release_source" where
  "update_source opts =
     (if uo_archive opts \<noteq> [] \<or> uo_checksums opts \<noteq> []
      then Local \<lparr>ls_ArchivePath = uo_archive opts, ls_ChecksumsPath = uo_checksums opts, ls_Version = uo_version opts\<rparr>
      else GitHub \<lparr>gs_Repository = [], gs_APIBaseURL = [], gs_WebBaseURL = []\<rparr>)"

definition check_only :: "update_options \<Rightarrow> bool" where
  "check_only opts \<longleftrightarrow> uo_check opts \<or> uo_dryRun opts"

definition update_engine :: "update_host \<Rightarrow> config \<Rightarrow> update_options \<Rightarrow> engine" where
  "update_engine h c opts =
     (uh_engine h)\<lparr>ee_source := update_source opts, ee_health := uh_health h (update_probe c), ee_lockPath := Join (uo_backupDir opts) ''update.lock''\<rparr>"

definition command_request :: "update_host \<Rightarrow> config \<Rightarrow> update_options \<Rightarrow> string \<Rightarrow> update_request" where
  "command_request h c opts binaryPath =
     \<lparr>rq_CurrentVersion = uh_version h, rq_RequestedVersion = uo_version opts, rq_GOOS = uh_GOOS h, rq_GOARCH = uh_GOARCH h,
      rq_BinaryPath = binaryPath, rq_PreviousPath = binaryPath @ ''.previous'', rq_BackupDir = uo_backupDir opts,
      rq_StatePaths = durableStatePaths c, rq_ManagedRoots = [cf_DataDir c, cf_KeysPath c], rq_ImmutablePaths = [cf_Source c],
      rq_CheckOnly = check_only opts\<rparr>"

definition update_message :: "update_host \<Rightarrow> update_options \<Rightarrow> update_result \<Rightarrow> run_error + string" where
  "update_message h opts r =
     (if rs_Checked r \<and> check_only opts then
        Inr (''Verified runeconsole '' @ rs_TargetVersion r @ '' for '' @ uh_GOOS h @ ''/'' @ uh_GOARCH h @ ''; no local state was changed.'' @ [newline])
      else if rs_AlreadyCurrent r then
        Inr (''runeconsole '' @ rs_TargetVersion r @ '' is already installed; release integrity was verified.'' @ [newline])
      else if rs_Updated r then
        Inr (''Updated runeconsole '' @ rs_CurrentVersion r @ '' to '' @ rs_TargetVersion r @
          ''; configuration and durable data were preserved. Backup: '' @ rs_BackupPath r @ [newline])
      else Inl (RunError (Fail ''update finished without a terminal result'')))"

text \<open>What is settled before the engine runs: the configuration and the binary of the service.\<close>

definition update_target :: "update_host \<Rightarrow> update_options \<Rightarrow> (config \<times> string) io" where
  "update_target h opts s =
     (if \<not> check_only opts \<and> fs_euid s \<noteq> 0 then
        (Inl (Fail ''runeconsole update must run as root (use sudo); --check is read-only''), s)
      else if uh_GOOS h \<noteq> ''linux'' \<and> uh_GOOS h \<noteq> ''darwin'' then (Inl (Fail ''runeconsole update is unsupported''), s)
      else
     io_bind (LoadConfig (uh_config h) (uh_configPath h)) (\<lambda>cfg.
     io_bind (io_valid (Validate cfg)) (\<lambda>_.
     case uh_executable h of
       None \<Rightarrow> io_fail (Fail ''identify running runeconsole executable failed'')
     | Some executable \<Rightarrow>
         let executable = filepath_Abs (uh_config h) executable
         in if check_only opts then io_return (cfg, executable)
            else io_bind (ResolveServiceBinary (uh_run h) (uh_xml h)
                \<lparr>ro_GOOS = uh_GOOS h, ro_ExplicitPath = uo_binaryPath opts, ro_ExecutablePath = executable, ro_ExpectedConfigPath = cf_Source cfg,
                 ro_SystemdUnitPaths = [], ro_LaunchdPlistPaths = []\<rparr>) (\<lambda>binaryPath. io_return (cfg, binaryPath)))) s)"

definition runUpdate :: "update_host \<Rightarrow> update_options \<Rightarrow> update_world \<Rightarrow> (run_error + string) \<times> update_world" where
  "runUpdate h opts w =
     (case on_files (update_target h opts) w of
        (Inl e, w) \<Rightarrow> (Inl (RunError e), w)
      | (Inr (cfg, binaryPath), w) \<Rightarrow>
          (case Run (update_engine h cfg opts) (command_request h cfg opts binaryPath) w of
             ((_, Some e), w) \<Rightarrow> (Inl e, w)
           | ((result, None), w) \<Rightarrow> (update_message h opts result, w)))"

definition update_command :: "update_host \<Rightarrow> update_options \<Rightarrow> update_world \<Rightarrow> (run_error + string) \<times> update_world" where
  "update_command h opts w =
     (if (uo_archive opts \<noteq> [] \<or> uo_checksums opts \<noteq> []) \<and> (uo_archive opts = [] \<or> uo_checksums opts = [] \<or> uo_version opts = [])
      then (Inl (RunError (Fail ''offline update requires --archive, --checksums, and --version together'')), w)
      else runUpdate h opts w)"

subsection \<open>Where web updates are possible\<close>

definition canonicalPathAllowMissing :: "string \<Rightarrow> string io" where
  "canonicalPathAllowMissing path =
     (case cleanAbsolute path of None \<Rightarrow> io_fail (Fail ''path must be absolute'') | Some p \<Rightarrow> probe_up (rev (elems p)) [])"

definition pathWithin :: "string \<Rightarrow> string \<Rightarrow> bool" where
  "pathWithin parent child =
     (case Rel parent child of None \<Rightarrow> False | Some rel \<Rightarrow> rel \<noteq> dotdot \<and> \<not> has_prefix rel (dotdot @ [slash]))"

fun all_within :: "string \<Rightarrow> string list \<Rightarrow> files \<Rightarrow> bool \<times> files" where
  "all_within root [] s = (True, s)"
| "all_within root (p # ps) s =
     (case canonicalPathAllowMissing p s of
        (Inl _, s) \<Rightarrow> (False, s)
      | (Inr resolved, s) \<Rightarrow> if pathWithin root resolved then all_within root ps s else (False, s))"

definition webUpdateStateWithinInstallRoot :: "config \<Rightarrow> files \<Rightarrow> bool \<times> files" where
  "webUpdateStateWithinInstallRoot c s =
     (if cf_Source c = [] \<or> Base (Dir (cf_Source c)) \<noteq> ''configs'' then (False, s)
      else case canonicalPathAllowMissing (Dir (Dir (cf_Source c))) s of
        (Inl _, s) \<Rightarrow> (False, s)
      | (Inr root, s) \<Rightarrow> all_within root (durableStatePaths c) s)"

definition validateWebUpdateScope :: "update_host \<Rightarrow> unit io" where
  "validateWebUpdateScope h =
     io_bind (LoadConfig (uh_config h) (uh_configPath h)) (\<lambda>cfg.
     io_bind (io_valid (Validate cfg)) (\<lambda>_. \<lambda>s.
     case webUpdateStateWithinInstallRoot cfg s of
       (within, s) \<Rightarrow> (if within then Inr ()
         else Inl (Fail ''web update requires all durable state under the official installation root; use the CLI update flow''), s)))"

subsection \<open>The root worker\<close>

definition updateAgentFailureSummary :: string where
  "updateAgentFailureSummary = ''update failed; inspect the runeconsole updater service logs''"

text \<open>
  What the worker calls. A missing clock is the system's; the world \<open>'w\<close> is whatever the calls act on.
\<close>

record 'w agent_deps =
  ad_euid :: "('w \<Rightarrow> int) option"
  ad_now :: "'w \<Rightarrow> time"
  ad_currentVersion :: string
  ad_consume :: "string \<Rightarrow> 'w \<Rightarrow> (failure + job_request) \<times> 'w"
  ad_latest :: "'w \<Rightarrow> (failure + string) \<times> 'w"
  ad_writeStatus :: "string \<Rightarrow> job_status \<Rightarrow> 'w \<Rightarrow> (failure + unit) \<times> 'w"
  ad_runUpdate :: "update_options \<Rightarrow> 'w \<Rightarrow> run_error option \<times> 'w"
  ad_heartbeatEvery :: int
  ad_validateScope :: "('w \<Rightarrow> (failure + unit) \<times> 'w) option"

text \<open>The heartbeat writes the running status again at every tick, whatever becomes of the write; there is none without an interval.\<close>

fun ticks :: "'w agent_deps \<Rightarrow> string \<Rightarrow> job_status \<Rightarrow> nat \<Rightarrow> 'w \<Rightarrow> 'w" where
  "ticks d path st 0 w = w"
| "ticks d path st (Suc n) w = ticks d path st n (snd (ad_writeStatus d path (st\<lparr>js_UpdatedAt := ad_now d w\<rparr>) w))"

definition heartbeat :: "'w agent_deps \<Rightarrow> string \<Rightarrow> job_status \<Rightarrow> nat \<Rightarrow> 'w \<Rightarrow> 'w" where
  "heartbeat d path st n w = (if ad_heartbeatEvery d \<le> 0 then w else ticks d path st n w)"

definition failUpdateAgent :: "'w agent_deps \<Rightarrow> string \<Rightarrow> job_status \<Rightarrow> run_error \<Rightarrow> 'w \<Rightarrow> (run_error list + unit) \<times> 'w" where
  "failUpdateAgent d path st cause w =
     (case ad_writeStatus d path (st\<lparr>js_State := PhaseFailed, js_Error := updateAgentFailureSummary, js_UpdatedAt := ad_now d w\<rparr>) w of
        (Inl e, w) \<Rightarrow> (Inl [cause, RunError (FailWith ''record failed update state'' e)], w)
      | (Inr _, w) \<Rightarrow> (Inl [cause], w))"

definition succeedUpdateAgent :: "'w agent_deps \<Rightarrow> string \<Rightarrow> job_status \<Rightarrow> 'w \<Rightarrow> (run_error list + unit) \<times> 'w" where
  "succeedUpdateAgent d path st w =
     (case ad_writeStatus d path
        (st\<lparr>js_CurrentVersion := js_TargetVersion st, js_State := PhaseSucceeded, js_Error := [], js_UpdatedAt := ad_now d w\<rparr>) w of
        (Inl e, w) \<Rightarrow> (Inl [RunError (FailWith ''record successful update state'' e)], w)
      | (Inr _, w) \<Rightarrow> (Inr (), w))"

definition agent_scope :: "'w agent_deps \<Rightarrow> 'w \<Rightarrow> (failure + unit) \<times> 'w" where
  "agent_scope d w = (case ad_validateScope d of None \<Rightarrow> (Inr (), w) | Some f \<Rightarrow> f w)"

text \<open>
  The job with the heartbeat running: \<open>beats k\<close> ticks fall between two calls, and before the heartbeat is
  stopped and joined. The cause of a failure comes back, if there is one.
\<close>

definition agent_job :: "'w agent_deps \<Rightarrow> (nat \<Rightarrow> nat) \<Rightarrow> string \<Rightarrow> job_status \<Rightarrow> 'w \<Rightarrow> run_error option \<times> 'w" where
  "agent_job d beats path st w =
     (let hb = (\<lambda>k. heartbeat d path st (beats k))
      in case agent_scope d (hb 0 w) of
        (Inl e, w) \<Rightarrow> (Some (RunError (FailWith ''validate web update state scope'' e)), hb 1 w)
      | (Inr _, w) \<Rightarrow>
          (case ad_latest d (hb 1 w) of
             (Inl e, w) \<Rightarrow> (Some (RunError (FailWith ''revalidate latest release'' e)), hb 2 w)
           | (Inr latest, w) \<Rightarrow>
               if latest \<noteq> js_TargetVersion st then (Some (RunError (Fail ''queued release is no longer the latest stable release'')), hb 2 w)
               else case ad_runUpdate d \<lparr>uo_version = js_TargetVersion st, uo_archive = [], uo_checksums = [], uo_check = False, uo_dryRun = False,
                       uo_backupDir = DefaultBackupDir, uo_binaryPath = []\<rparr> (hb 2 w) of
                 (r, w) \<Rightarrow> (r, hb 3 w)))"

record agent_options =
  ao_requestPath :: string
  ao_statusPath :: string

definition running_status :: "'w agent_deps \<Rightarrow> job_request \<Rightarrow> 'w \<Rightarrow> job_status" where
  "running_status d req w =
     \<lparr>js_JobID = jr_JobID req, js_CurrentVersion = ad_currentVersion d, js_TargetVersion = jr_TargetVersion req, js_State = PhaseRunning,
      js_Error = [], js_UpdatedAt = ad_now d w\<rparr>"

definition runUpdateAgent :: "'w agent_deps \<Rightarrow> (nat \<Rightarrow> nat) \<Rightarrow> agent_options \<Rightarrow> 'w \<Rightarrow> (run_error list + unit) \<times> 'w" where
  "runUpdateAgent d beats opts w =
     (if (case ad_euid d of None \<Rightarrow> True | Some f \<Rightarrow> f w \<noteq> 0) then (Inl [RunError (Fail ''runeconsole update agent must run as root'')], w)
      else case ad_consume d (ao_requestPath opts) w of
        (Inl e, w) \<Rightarrow> (Inl [RunError e], w)
      | (Inr req, w) \<Rightarrow>
          let st = running_status d req w; path = ao_statusPath opts
          in case ad_writeStatus d path st w of
            (Inl e, w) \<Rightarrow> (Inl [RunError (FailWith ''record running update state'' e)], w)
          | (Inr _, w) \<Rightarrow>
              (case agent_job d beats path st w of
                 (Some cause, w) \<Rightarrow> failUpdateAgent d path st cause w
               | (None, w) \<Rightarrow> succeedUpdateAgent d path st w))"

subsection \<open>The worker as it is installed\<close>

definition consumeServiceUpdateRequest :: "update_host \<Rightarrow> string \<Rightarrow> job_request io" where
  "consumeServiceUpdateRequest h path =
     (case uh_account h of
        None \<Rightarrow> io_fail (Fail ''look up runeconsole service account failed'')
      | Some uid \<Rightarrow>
          (case Atoi uid of
             None \<Rightarrow> io_fail (Fail ''runeconsole service account has an invalid uid'')
           | Some n \<Rightarrow> if n < 0 then io_fail (Fail ''runeconsole service account has an invalid uid'')
               else ConsumeUpdateRequestForUID (uh_codec h) (uh_random h) path n))"

definition defaultUpdateAgentDependencies :: "update_host \<Rightarrow> update_world agent_deps" where
  "defaultUpdateAgentDependencies h =
     \<lparr>ad_euid = Some (\<lambda>w. fs_euid (wo_files w)), ad_now = (\<lambda>w. fs_time (wo_files w)), ad_currentVersion = uh_version h,
      ad_consume = (\<lambda>path. on_files (consumeServiceUpdateRequest h path)),
      ad_latest = (\<lambda>w. (LatestVersion (ee_release (uh_engine h)) \<lparr>gs_Repository = [], gs_APIBaseURL = [], gs_WebBaseURL = []\<rparr>, w)),
      ad_writeStatus = (\<lambda>path st w. on_files (WriteUpdateStatus (uh_codec h) (fs_time (wo_files w)) path st) w),
      ad_runUpdate = (\<lambda>opts w. case runUpdate h opts w of (Inl e, w) \<Rightarrow> (Some e, w) | (Inr _, w) \<Rightarrow> (None, w)),
      ad_heartbeatEvery = DefaultUpdateHeartbeatInterval,
      ad_validateScope = Some (on_files (validateWebUpdateScope h))\<rparr>"

definition update_agent :: "update_host \<Rightarrow> (nat \<Rightarrow> nat) \<Rightarrow> update_world \<Rightarrow> (run_error list + unit) \<times> update_world" where
  "update_agent h beats =
     runUpdateAgent (defaultUpdateAgentDependencies h) beats
       \<lparr>ao_requestPath = cp_Request DefaultUpdateControlPaths, ao_statusPath = cp_Status DefaultUpdateControlPaths\<rparr>"

end
