(* ===== verification/Agent_Properties.thy ===== *)
theory Agent_Properties
  imports Update_Agent
begin

text \<open>
  What the root worker writes into the status file (\<open>internal/commands/update_agent.go\<close>), for any functions it is
  given: the statuses are logged beside the world on which those functions act.
\<close>

subsection \<open>The log of statuses\<close>

definition lift_log :: "('w \<Rightarrow> 'a \<times> 'w) \<Rightarrow> 'w \<times> 'l \<Rightarrow> 'a \<times> 'w \<times> 'l" where
  "lift_log f wl = (case wl of (w, l) \<Rightarrow> case f w of (r, w) \<Rightarrow> (r, w, l))"

definition watched :: "'w agent_deps \<Rightarrow> ('w \<times> (job_status \<times> bool) list) agent_deps" where
  "watched d =
     \<lparr>ad_euid = map_option (\<lambda>f wl. f (fst wl)) (ad_euid d), ad_now = (\<lambda>wl. ad_now d (fst wl)), ad_currentVersion = ad_currentVersion d,
      ad_consume = (\<lambda>p. lift_log (ad_consume d p)), ad_latest = lift_log (ad_latest d),
      ad_writeStatus = (\<lambda>p st (w, l). case ad_writeStatus d p st w of (r, w) \<Rightarrow> (r, w, l @ [(st, r = Inr ())])),
      ad_runUpdate = (\<lambda>opts. lift_log (ad_runUpdate d opts)), ad_heartbeatEvery = ad_heartbeatEvery d,
      ad_validateScope = map_option lift_log (ad_validateScope d)\<rparr>"

lemmas watched_simps = watched_def agent_deps.simps

text \<open>The running statuses of a job.\<close>

definition beat_of :: "job_status \<Rightarrow> job_status \<Rightarrow> bool" where
  "beat_of st b \<longleftrightarrow> js_JobID b = js_JobID st \<and> js_TargetVersion b = js_TargetVersion st \<and> js_State b = PhaseRunning"

lemma write_logs:
  "ad_writeStatus (watched d) p st (w, l) = (r, w', l') \<longleftrightarrow> ad_writeStatus d p st w = (r, w') \<and> l' = l @ [(st, r = Inr ())]"
  by (auto simp: watched_simps split: prod.split)

lemma lift_logs: "lift_log f (w, l) = (r, w', l') \<longleftrightarrow> f w = (r, w') \<and> l' = l"
  by (auto simp: lift_log_def split: prod.split)

text \<open>A log that grew by such statuses only.\<close>

definition beaten :: "job_status \<Rightarrow> (job_status \<times> bool) list \<Rightarrow> (job_status \<times> bool) list \<Rightarrow> bool" where
  "beaten st l l' \<longleftrightarrow> (\<exists>bs. l' = l @ bs \<and> (\<forall>b\<in>set bs. beat_of st (fst b)))"

lemma beaten_refl [simp]: "beaten st l l"
  by (simp add: beaten_def)

lemma beaten_trans: "beaten st l l' \<Longrightarrow> beaten st l' l'' \<Longrightarrow> beaten st l l''"
  unfolding beaten_def by (metis UnE append.assoc set_append)

lemma ticks_log:
  "js_State st = PhaseRunning \<Longrightarrow> ticks (watched d) p st n (w, l) = (w', l') \<Longrightarrow> beaten st l l'"
proof (induction n arbitrary: w l)
  case (Suc n)
  let ?st = "st\<lparr>js_UpdatedAt := ad_now (watched d) (w, l)\<rparr>"
  obtain r w1 where w: "ad_writeStatus d p ?st w = (r, w1)" by (metis prod.exhaust)
  then have s: "ad_writeStatus (watched d) p ?st (w, l) = (r, w1, l @ [(?st, r = Inr ())])" by (simp add: write_logs)
  have "ticks (watched d) p st n (w1, l @ [(?st, r = Inr ())]) = (w', l')" using Suc.prems(2) s by simp
  from Suc.IH [OF Suc.prems(1) this] have "beaten st (l @ [(?st, r = Inr ())]) l'" .
  moreover have "beaten st l (l @ [(?st, r = Inr ())])" using Suc.prems(1) by (simp add: beaten_def beat_of_def)
  ultimately show ?case by (rule beaten_trans [rotated])
qed simp

lemma heartbeat_log:
  assumes "js_State st = PhaseRunning" "heartbeat (watched d) p st n (w, l) = (w', l')"
  shows "beaten st l l'"
  using assms ticks_log [of st d p n w l w' l'] by (cases "ad_heartbeatEvery (watched d) \<le> 0") (auto simp: heartbeat_def)

text \<open>A job that succeeds had its version answered as the latest one, and an update to it that returned without error.\<close>

definition job_done :: "'w agent_deps \<Rightarrow> string \<Rightarrow> bool" where
  "job_done d v \<longleftrightarrow> (\<exists>wa wb. fst (ad_latest d wa) = Inr v \<and> fst (ad_runUpdate d \<lparr>uo_version = v, uo_archive = [], uo_checksums = [],
     uo_check = False, uo_dryRun = False, uo_backupDir = DefaultBackupDir, uo_binaryPath = []\<rparr> wb) = None)"

lemma job_log:
  assumes st: "js_State st = PhaseRunning" and j: "agent_job (watched d) beats p st (w, l) = (res, w', l')"
  shows "beaten st l l' \<and> (res = None \<longrightarrow> job_done d (js_TargetVersion st))"
proof -
  let ?hb = "\<lambda>k. heartbeat (watched d) p st (beats k)"
  note H = heartbeat_log [OF st]
  obtain w0 l0 where h0: "?hb 0 (w, l) = (w0, l0)" by (metis prod.exhaust)
  obtain r1 w1 l1 where s: "agent_scope (watched d) (w0, l0) = (r1, w1, l1)" by (metis prod.exhaust)
  obtain w2 l2 where h1: "?hb 1 (w1, l1) = (w2, l2)" by (metis prod.exhaust)
  obtain r3 w3 l3 where v: "ad_latest (watched d) (w2, l2) = (r3, w3, l3)" by (metis prod.exhaust)
  obtain w4 l4 where h2: "?hb 2 (w3, l3) = (w4, l4)" by (metis prod.exhaust)
  let ?opts = "\<lparr>uo_version = js_TargetVersion st, uo_archive = [], uo_checksums = [], uo_check = False, uo_dryRun = False,
    uo_backupDir = DefaultBackupDir, uo_binaryPath = []\<rparr>"
  obtain r5 w5 l5 where u: "ad_runUpdate (watched d) ?opts (w4, l4) = (r5, w5, l5)" by (metis prod.exhaust)
  obtain w6 l6 where h3: "?hb 3 (w5, l5) = (w6, l6)" by (metis prod.exhaust)
  have l1: "l1 = l0" using s by (auto simp: agent_scope_def watched_simps lift_logs split: option.splits)
  have l3: "l3 = l2" "ad_latest d w2 = (r3, w3)" using v by (simp_all add: watched_simps lift_logs)
  have l5: "l5 = l4" "ad_runUpdate d ?opts w4 = (r5, w5)" using u by (simp_all add: watched_simps lift_logs)
  have b2: "beaten st l l2" using beaten_trans [OF H [OF h0] H [OF h1, unfolded l1]] .
  have b4: "beaten st l l4" using beaten_trans [OF b2 H [OF h2, unfolded l3(1)]] .
  have b6: "beaten st l l6" using beaten_trans [OF b4 H [OF h3, unfolded l5(1)]] .
  note J = j [unfolded agent_job_def Let_def h0 s]
  show ?thesis
  proof (cases r1)
    case (Inl e) then show ?thesis using J h1 b2 by auto
  next
    case r1: (Inr x)
    show ?thesis
    proof (cases "r3 = Inr (js_TargetVersion st)")
      case False then show ?thesis using J r1 h1 v h2 b4 by (cases r3) auto
    next
      case True
      then have "res = r5" "l' = l6" using J r1 h1 v h2 u h3 by simp_all
      moreover have "job_done d (js_TargetVersion st)" if "r5 = None"
        unfolding job_done_def using l3(2) l5(2) True that by (metis fst_conv)
      ultimately show ?thesis using b6 by simp
    qed
  qed
qed

text \<open>The terminal status.\<close>

lemma terminal_log:
  assumes fin: "(case cause of Some e \<Rightarrow> failUpdateAgent (watched d) p st e (w, l) | None \<Rightarrow> succeedUpdateAgent (watched d) p st (w, l)) = (res, w', ws)"
  shows "\<exists>final ok. ws = l @ [(final, ok)] \<and> js_JobID final = js_JobID st \<and> js_TargetVersion final = js_TargetVersion st \<and>
    (js_State final = PhaseSucceeded \<and> js_CurrentVersion final = js_TargetVersion st \<and> cause = None \<and> (res = Inr () \<longleftrightarrow> ok) \<or>
     js_State final = PhaseFailed \<and> js_CurrentVersion final = js_CurrentVersion st \<and> cause \<noteq> None \<and> res \<noteq> Inr ())"
proof (cases cause)
  case None
  let ?fin = "st\<lparr>js_CurrentVersion := js_TargetVersion st, js_State := PhaseSucceeded, js_Error := [], js_UpdatedAt := ad_now (watched d) (w, l)\<rparr>"
  obtain r w1 where g: "ad_writeStatus d p ?fin w = (r, w1)" by (metis prod.exhaust)
  then have "ad_writeStatus (watched d) p ?fin (w, l) = (r, w1, l @ [(?fin, r = Inr ())])" by (simp add: write_logs)
  then have "ws = l @ [(?fin, r = Inr ())] \<and> (res = Inr () \<longleftrightarrow> r = Inr ())"
    using fin by (cases r) (auto simp: None succeedUpdateAgent_def)
  then show ?thesis using None by (intro exI [of _ ?fin] exI [of _ "r = Inr ()"]) simp
next
  case (Some e)
  let ?fin = "st\<lparr>js_State := PhaseFailed, js_Error := updateAgentFailureSummary, js_UpdatedAt := ad_now (watched d) (w, l)\<rparr>"
  obtain r w1 where g: "ad_writeStatus d p ?fin w = (r, w1)" by (metis prod.exhaust)
  then have "ad_writeStatus (watched d) p ?fin (w, l) = (r, w1, l @ [(?fin, r = Inr ())])" by (simp add: write_logs)
  then have "ws = l @ [(?fin, r = Inr ())] \<and> res \<noteq> Inr ()" using fin by (cases r) (auto simp: Some failUpdateAgent_def)
  then show ?thesis using Some by (intro exI [of _ ?fin] exI [of _ "r = Inr ()"]) simp
qed

text \<open>
  C13. The worker always has the last word on a job, and only says what happened. It writes nothing unless it
  runs as root and has consumed a request; then it first writes that the job runs, and gives up if it cannot;
  otherwise its last status is a terminal one, with nothing but running statuses of the same job before it,
  whatever the heartbeat and the failures; it says that the job succeeded only if the release was still
  the latest one and the update returned without error, and returns without an error only if that was written.
\<close>

theorem worker_has_the_last_word:
  assumes run: "runUpdateAgent (watched d) beats opts (w, []) = (res, w', ws)"
  shows "ws = [] \<and> res \<noteq> Inr () \<or>
    (\<exists>euid req w1 first. ad_euid d = Some euid \<and> euid w = 0 \<and> ad_consume d (ao_requestPath opts) w = (Inr req, w1) \<and> first = running_status d req w1 \<and>
      (ws = [(first, False)] \<and> res \<noteq> Inr () \<or>
       (\<exists>bs final ok. ws = (first, True) # bs @ [(final, ok)] \<and> (\<forall>b\<in>set bs. beat_of first (fst b)) \<and>
          js_JobID final = jr_JobID req \<and> js_TargetVersion final = jr_TargetVersion req \<and>
          (js_State final = PhaseSucceeded \<and> js_CurrentVersion final = jr_TargetVersion req \<and> job_done d (jr_TargetVersion req) \<and> (res = Inr () \<longleftrightarrow> ok) \<or>
           js_State final = PhaseFailed \<and> js_CurrentVersion final = ad_currentVersion d \<and> res \<noteq> Inr ()))))"
proof (cases "(case ad_euid (watched d) of None \<Rightarrow> True | Some f \<Rightarrow> f (w, []) \<noteq> 0)")
  case True then show ?thesis using run by (auto simp: runUpdateAgent_def)
next
  case False
  then obtain euid where e: "ad_euid d = Some euid" "euid w = 0" by (auto simp: watched_simps split: option.splits)
  obtain r1 w1 where c: "ad_consume d (ao_requestPath opts) w = (r1, w1)" by (metis prod.exhaust)
  then have c': "ad_consume (watched d) (ao_requestPath opts) (w, []) = (r1, w1, [])" by (simp add: watched_simps lift_logs)
  note R = run [unfolded runUpdateAgent_def if_not_P [OF False] c' prod.case]
  show ?thesis
  proof (cases r1)
    case (Inl x) then show ?thesis using R by auto
  next
    case r1: (Inr req)
    let ?st = "running_status d req w1" and ?p = "ao_statusPath opts"
    have st: "running_status (watched d) req (w1, []) = ?st" by (simp add: running_status_def watched_simps)
    have run_st: "js_State ?st = PhaseRunning" "js_JobID ?st = jr_JobID req" "js_TargetVersion ?st = jr_TargetVersion req"
      "js_CurrentVersion ?st = ad_currentVersion d" by (simp_all add: running_status_def)
    obtain r2 w2 where f: "ad_writeStatus d ?p ?st w1 = (r2, w2)" by (metis prod.exhaust)
    then have f': "ad_writeStatus (watched d) ?p ?st (w1, []) = (r2, w2, [(?st, r2 = Inr ())])" by (simp add: write_logs)
    show ?thesis
    proof (cases r2)
      case (Inl x)
      then have "ws = [(?st, False)]" "res \<noteq> Inr ()" using R f' by (auto simp: r1 st Let_def)
      then show ?thesis using e c r1 by blast
    next
      case r2: (Inr u)
      obtain res3 w3 l3 where j: "agent_job (watched d) beats ?p ?st (w2, [(?st, True)]) = (res3, w3, l3)" by (metis prod.exhaust)
      from job_log [OF run_st(1) j] obtain bs where bs: "l3 = (?st, True) # bs" "\<forall>b\<in>set bs. beat_of ?st (fst b)"
        and d: "res3 = None \<longrightarrow> job_done d (jr_TargetVersion req)" by (auto simp: beaten_def run_st)
      have "(case res3 of Some e \<Rightarrow> failUpdateAgent (watched d) ?p ?st e (w3, l3) | None \<Rightarrow> succeedUpdateAgent (watched d) ?p ?st (w3, l3)) = (res, w', ws)"
        using R f' j by (cases res3) (auto simp: r1 r2 st Let_def)
      from terminal_log [OF this] d
      obtain final ok where "ws = (?st, True) # bs @ [(final, ok)]" "js_JobID final = jr_JobID req" "js_TargetVersion final = jr_TargetVersion req"
        "js_State final = PhaseSucceeded \<and> js_CurrentVersion final = jr_TargetVersion req \<and> job_done d (jr_TargetVersion req) \<and> (res = Inr () \<longleftrightarrow> ok) \<or>
         js_State final = PhaseFailed \<and> js_CurrentVersion final = ad_currentVersion d \<and> res \<noteq> Inr ()"
        unfolding bs(1) run_st by auto
      then show ?thesis using e c r1 bs(2) by blast
    qed
  qed
qed

subsection \<open>Example\<close>

text \<open>A world that counts what the worker calls; the update takes two ticks of the heartbeat.\<close>

definition agent_request :: job_request where
  "agent_request = \<lparr>jr_JobID = ''AAAAAAAAAAAAAAAAAAAAAA'', jr_TargetVersion = ''v1.3.0'', jr_RequestedAt = 30\<rparr>"

definition an_agent :: "nat agent_deps" where
  "an_agent =
     \<lparr>ad_euid = Some (\<lambda>_. 0), ad_now = int, ad_currentVersion = ''v1.2.0'', ad_consume = (\<lambda>_ n. (Inr agent_request, Suc n)),
      ad_latest = (\<lambda>n. (Inr ''v1.3.0'', Suc n)), ad_writeStatus = (\<lambda>_ _ n. (if n = 3 then Inl (Fail ''disk full'') else Inr (), Suc n)),
      ad_runUpdate = (\<lambda>_ n. (None, Suc n)), ad_heartbeatEvery = 15, ad_validateScope = None\<rparr>"

definition agent_run :: "(run_error list + unit) \<times> nat \<times> (job_status \<times> bool) list" where
  "agent_run = runUpdateAgent (watched an_agent) (\<lambda>k. if k = 2 then 2 else 0) \<lparr>ao_requestPath = ''/in/request'', ao_statusPath = ''/status''\<rparr> (0, [])"

lemma agent_run_value: "fst agent_run = Inr () \<and> map (\<lambda>x. (js_State (fst x), js_UpdatedAt (fst x), snd x)) (snd (snd agent_run)) =
    [(PhaseRunning, 1, True), (PhaseRunning, 3, False), (PhaseRunning, 4, True), (PhaseSucceeded, 6, True)]"
  by code_simp

theorem worker_has_the_last_word_witness:
  "js_State (fst (last (snd (snd agent_run)))) = PhaseSucceeded \<and> job_done an_agent ''v1.3.0''"
proof -
  obtain res w' ws where r: "agent_run = (res, w', ws)" by (metis prod.exhaust)
  then have v: "res = Inr ()" "length ws = 4" "js_State (fst (last ws)) = PhaseSucceeded"
    using agent_run_value unfolding r by (auto simp: map_eq_Cons_conv)
  show ?thesis
    using worker_has_the_last_word [OF r [unfolded agent_run_def]] v by (auto simp: r an_agent_def agent_request_def)
qed

end
