(* ===== verification/Web_Manager.thy ===== *)
theory Web_Manager
  imports Web_Service Update_Agent
begin

text \<open>
  The update manager that the daemon hands to the web console (\<open>internal/commands/web_update.go\<close>): it is
  there only if the durable state lies below the installation root, and it turns the answers and the errors
  of the update controller into those the handlers of the web console know.
\<close>

subsection \<open>Errors and states\<close>

definition mapConsoleUpdateError :: "failure option \<Rightarrow> update_error option" where
  "mapConsoleUpdateError r =
     (case r of
        None \<Rightarrow> None
      | Some e \<Rightarrow> Some
          (if errors_Is e ErrUpdateInProgress then ErrUpdatePending
           else if errors_Is e ErrUpdateCheckRequired \<or> errors_Is e ErrUpdateTargetMismatch then ErrUpdateStale
           else if errors_Is e ErrWebUpdateNotCapable \<or> errors_Is e ErrNoUpdateAvailable then ErrUpdateUnavailable
           else if errors_Is e ErrInvalidUpdateRequest then ErrUpdateInvalid
           else OtherUpdateError ''update controller''))"

fun console_state :: "update_phase \<Rightarrow> update_state" where
  "console_state PhaseIdle = UpdateIdle"
| "console_state PhaseQueued = UpdateQueued"
| "console_state PhaseRunning = UpdateRunning"
| "console_state PhaseFailed = UpdateFailed"
| "console_state PhaseSucceeded = UpdateSucceeded"

definition console_status :: "web_update_status \<Rightarrow> update_status" where
  "console_status st =
     \<lparr>us_CurrentVersion = wu_CurrentVersion st, us_TargetVersion = wu_TargetVersion st, us_UpdateAvailable = wu_UpdateAvailable st,
      us_Capable = wu_Capable st, us_State = console_state (wu_State st)\<rparr>"

subsection \<open>The manager\<close>

definition newConsoleUpdateManager :: "update_host \<Rightarrow> config \<Rightarrow> files \<Rightarrow> controller option \<times> files" where
  "newConsoleUpdateManager h cfg s =
     (case webUpdateStateWithinInstallRoot cfg s of
        (within, s) \<Rightarrow>
          (if within then Some (NewWebController (uh_GOOS h) (uh_GOARCH h)
               \<lparr>co_CurrentVersion = uh_version h, co_GOOS = [], co_GOARCH = [],
                co_Paths = \<lparr>cp_Enabled = [], cp_Staging = [], cp_Request = [], cp_Status = []\<rparr>, co_CacheTTL = 0, co_StaleAfter = 0\<rparr>)
           else None, s))"

definition manager_Check :: "control_codec \<Rightarrow> check_env \<Rightarrow> controller \<times> files \<Rightarrow> (update_error + update_status) \<times> controller \<times> files" where
  "manager_Check cc ck w =
     (case Check cc ck w of
        ((st, e), w) \<Rightarrow> ((case mapConsoleUpdateError e of Some e \<Rightarrow> Inl e | None \<Rightarrow> Inr (console_status st)), w))"

definition manager_Request :: "control_codec \<Rightarrow> check_env \<Rightarrow> string \<Rightarrow> controller \<times> files \<Rightarrow> update_error option \<times> controller \<times> files" where
  "manager_Request cc ck requested w = (case Request cc ck requested w of ((_, e), w) \<Rightarrow> (mapConsoleUpdateError e, w))"

subsection \<open>What the browser is told\<close>

lemma no_error_mapped [simp]: "mapConsoleUpdateError e = None \<longleftrightarrow> e = None"
  by (simp add: mapConsoleUpdateError_def split: option.splits)

text \<open>Every error of the controller that has a name reaches the console under its own name, also when it is wrapped.\<close>

lemma named_errors_mapped:
  shows "mapConsoleUpdateError (Some ErrUpdateInProgress) = Some ErrUpdatePending"
    and "mapConsoleUpdateError (Some ErrUpdateCheckRequired) = Some ErrUpdateStale"
    and "mapConsoleUpdateError (Some (FailWith ''latest version'' ErrUpdateCheckRequired)) = Some ErrUpdateStale"
    and "mapConsoleUpdateError (Some ErrUpdateTargetMismatch) = Some ErrUpdateStale"
    and "mapConsoleUpdateError (Some ErrWebUpdateNotCapable) = Some ErrUpdateUnavailable"
    and "mapConsoleUpdateError (Some ErrNoUpdateAvailable) = Some ErrUpdateUnavailable"
    and "mapConsoleUpdateError (Some (bad_request m)) = Some ErrUpdateInvalid"
  by (simp_all add: mapConsoleUpdateError_def control_errors update_errors)

lemma accepted_is_accepted: "fst (manager_Request cc ck requested w) = None \<longleftrightarrow> snd (fst (Request cc ck requested w)) = None"
  by (simp add: manager_Request_def split: prod.splits)

lemma custom_layout_has_no_manager:
  "cf_Source cfg = [] \<or> Base (Dir (cf_Source cfg)) \<noteq> ''configs'' \<Longrightarrow> fst (newConsoleUpdateManager h cfg s) = None"
  by (auto simp: newConsoleUpdateManager_def webUpdateStateWithinInstallRoot_def)

end
