(* ===== verification/Sql_Database.thy ===== *)
theory Sql_Database
  imports Files
begin

text \<open>
  A SQLite database as the migration runners use it: the ledger of the versions that were applied, and all
  other tables as data that a script changes or fails on. Each call works, fails, or is done although it is
  reported as failed; a transaction that is not committed leaves nothing behind, which also covers the death
  of the process.
\<close>

subsection \<open>Calls\<close>

datatype call_outcome = Works | Fails | Lost

type_synonym ledger_row = "int \<times> string \<times> string"

record 'd sql_db =
  db_data :: 'd
  db_ledger :: "ledger_row list option"
  db_calls :: nat
  db_outcome :: "nat \<Rightarrow> call_outcome"

type_synonym ('d, 'a) db_call = "'d sql_db \<Rightarrow> (failure + 'a) \<times> 'd sql_db"

definition driver_error :: failure where "driver_error = Fail ''database error''"

text \<open>One call: what it does to the database, or the error it gives.\<close>

definition db_call :: "('d sql_db \<Rightarrow> failure + 'a \<times> 'd sql_db) \<Rightarrow> ('d, 'a) db_call" where
  "db_call f s =
     (let s1 = s\<lparr>db_calls := Suc (db_calls s)\<rparr>
      in case db_outcome s (db_calls s) of
        Fails \<Rightarrow> (Inl driver_error, s1)
      | Works \<Rightarrow> (case f s1 of Inl e \<Rightarrow> (Inl e, s1) | Inr (a, s2) \<Rightarrow> (Inr a, s2))
      | Lost \<Rightarrow> (Inl driver_error, case f s1 of Inl _ \<Rightarrow> s1 | Inr (_, s2) \<Rightarrow> s2))"

definition db_then :: "('d, 'a) db_call \<Rightarrow> ('a \<Rightarrow> ('d, 'b) db_call) \<Rightarrow> ('d, 'b) db_call" where
  "db_then m f s = (case m s of (Inl e, s) \<Rightarrow> (Inl e, s) | (Inr a, s) \<Rightarrow> f a s)"

definition db_return :: "'a \<Rightarrow> ('d, 'a) db_call" where "db_return a s = (Inr a, s)"
definition db_fail :: "failure \<Rightarrow> ('d, 'a) db_call" where "db_fail e s = (Inl e, s)"

definition db_wrap :: "(failure \<Rightarrow> failure) \<Rightarrow> ('d, 'a) db_call \<Rightarrow> ('d, 'a) db_call" where
  "db_wrap g m s = (case m s of (Inl e, s) \<Rightarrow> (Inl (g e), s) | (r, s) \<Rightarrow> (r, s))"

text \<open>The ledger table is created when it is missing; a version is its primary key.\<close>

definition create_ledger :: "('d, unit) db_call" where
  "create_ledger = db_call (\<lambda>s. Inr ((), if db_ledger s = None then s\<lparr>db_ledger := Some []\<rparr> else s))"

definition insert_row :: "ledger_row \<Rightarrow> ('d, unit) db_call" where
  "insert_row row = db_call (\<lambda>s.
     case db_ledger s of
       None \<Rightarrow> Inl driver_error
     | Some rows \<Rightarrow> if fst row \<in> fst ` set rows then Inl driver_error else Inr ((), s\<lparr>db_ledger := Some (rows @ [row])\<rparr>))"

definition select_versions :: "('d, int list) db_call" where
  "select_versions = db_call (\<lambda>s. case db_ledger s of None \<Rightarrow> Inl driver_error | Some rows \<Rightarrow> Inr (map fst rows, s))"

definition exec_script :: "(string \<Rightarrow> 'd \<Rightarrow> 'd option) \<Rightarrow> string \<Rightarrow> ('d, unit) db_call" where
  "exec_script sql x = db_call (\<lambda>s. case sql x (db_data s) of None \<Rightarrow> Inl driver_error | Some d \<Rightarrow> Inr ((), s\<lparr>db_data := d\<rparr>))"

text \<open>What was changed since \<open>s\<close> is undone; the calls were made.\<close>

definition rolled_back :: "'d sql_db \<Rightarrow> 'd sql_db \<Rightarrow> 'd sql_db" where
  "rolled_back s s' = s'\<lparr>db_data := db_data s, db_ledger := db_ledger s\<rparr>"

definition in_tx :: "('d, 'a) db_call \<Rightarrow> ('d, 'a) db_call" where
  "in_tx body s =
     (case db_call (\<lambda>s. Inr ((), s)) s of
        (Inl e, s) \<Rightarrow> (Inl e, s)
      | (Inr _, s1) \<Rightarrow>
          (case body s1 of
             (Inl e, s2) \<Rightarrow> (Inl e, rolled_back s1 s2)
           | (Inr a, s2) \<Rightarrow>
               (case db_outcome s2 (db_calls s2) of
                  Works \<Rightarrow> (Inr a, s2\<lparr>db_calls := Suc (db_calls s2)\<rparr>)
                | Fails \<Rightarrow> (Inl driver_error, rolled_back s1 (s2\<lparr>db_calls := Suc (db_calls s2)\<rparr>))
                | Lost \<Rightarrow> (Inl driver_error, s2\<lparr>db_calls := Suc (db_calls s2)\<rparr>))))"

subsection \<open>Laws\<close>

definition rows :: "'d sql_db \<Rightarrow> ledger_row list" where
  "rows s = (case db_ledger s of None \<Rightarrow> [] | Some rs \<Rightarrow> rs)"

text \<open>The same content, as far as anyone can read it; the calls go on answering as they would.\<close>

definition same_db :: "'d sql_db \<Rightarrow> 'd sql_db \<Rightarrow> bool" where
  "same_db s s' \<longleftrightarrow> rows s' = rows s \<and> db_data s' = db_data s \<and> db_outcome s' = db_outcome s"

fun run_scripts :: "(string \<Rightarrow> 'd \<Rightarrow> 'd option) \<Rightarrow> string list \<Rightarrow> 'd \<Rightarrow> 'd option" where
  "run_scripts sql [] d = Some d"
| "run_scripts sql (x # xs) d = (case sql x d of None \<Rightarrow> None | Some d \<Rightarrow> run_scripts sql xs d)"

text \<open>A step of a migration plan is its version, its description and its scripts.\<close>

type_synonym plan_step = "int \<times> string \<times> string list"

definition migrated :: "(string \<Rightarrow> 'd \<Rightarrow> 'd option) \<Rightarrow> plan_step list \<Rightarrow> 'd sql_db \<Rightarrow> 'd sql_db \<Rightarrow> bool" where
  "migrated sql ps s s' \<longleftrightarrow>
     (\<exists>new. rows s' = rows s @ new \<and> map (\<lambda>(v, _, l). (v, l)) new = map (\<lambda>(v, l, _). (v, l)) ps) \<and>
     run_scripts sql (concat (map (\<lambda>(_, _, xs). xs) ps)) (db_data s) = Some (db_data s')"

lemma run_scripts_append: "run_scripts sql (xs @ ys) d = (case run_scripts sql xs d of None \<Rightarrow> None | Some d \<Rightarrow> run_scripts sql ys d)"
  by (induction xs arbitrary: d) (auto split: option.split)

lemma migrated_same: "same_db s s' \<Longrightarrow> migrated sql [] s s'"
  by (simp add: same_db_def migrated_def)

lemma migrated_trans: "migrated sql ps s s' \<Longrightarrow> migrated sql qs s' s'' \<Longrightarrow> migrated sql (ps @ qs) s s''"
  by (auto simp: migrated_def run_scripts_append)

lemma same_db_refl [simp]: "same_db s s" by (simp add: same_db_def)
lemma same_trans: "same_db s s' \<Longrightarrow> same_db s' s'' \<Longrightarrow> same_db s s''" by (simp add: same_db_def)

lemma same_db_calls [simp]: "same_db s (s'\<lparr>db_calls := n\<rparr>) \<longleftrightarrow> same_db s s'" "same_db (s\<lparr>db_calls := n\<rparr>) s' \<longleftrightarrow> same_db s s'"
  by (simp_all add: same_db_def rows_def)

lemma rows_calls [simp]: "rows (s\<lparr>db_calls := n\<rparr>) = rows s" "rows (s\<lparr>db_data := d\<rparr>) = rows s"
  by (simp_all add: rows_def)

lemma db_call_cases:
  assumes "db_call f s = (r, s')"
  obtains (works) a where "f (s\<lparr>db_calls := Suc (db_calls s)\<rparr>) = Inr (a, s')" "r = Inr a \<or> (\<exists>e. r = Inl e) \<and> db_outcome s (db_calls s) \<noteq> Works"
  | (fails) e where "r = Inl e" "s' = s\<lparr>db_calls := Suc (db_calls s)\<rparr>"
      "db_outcome s (db_calls s) \<noteq> Works \<or> (\<exists>e. f (s\<lparr>db_calls := Suc (db_calls s)\<rparr>) = Inl e)"
  using assms by (auto simp: db_call_def Let_def split: call_outcome.splits sum.splits prod.splits)

lemma create_same: "create_ledger s = (r, s') \<Longrightarrow> same_db s s' \<and> (r = Inr () \<longrightarrow> db_ledger s' = Some (rows s))"
  unfolding create_ledger_def by (erule db_call_cases) (auto simp: same_db_def rows_def split: if_splits option.splits)

lemma select_same: "select_versions s = (r, s') \<Longrightarrow> same_db s s' \<and> db_ledger s' = db_ledger s \<and> (\<forall>vs. r = Inr vs \<longrightarrow> vs = map fst (rows s))"
  unfolding select_versions_def by (erule db_call_cases) (auto simp: same_db_def rows_def split: option.splits)

text \<open>Calls that leave the schedule of the answers alone.\<close>

named_theorems steady_intros

definition steady :: "('d, 'a) db_call \<Rightarrow> bool" where
  "steady m \<longleftrightarrow> (\<forall>s. db_outcome (snd (m s)) = db_outcome s)"

lemma steadyD: "steady m \<Longrightarrow> m s = (r, s') \<Longrightarrow> db_outcome s' = db_outcome s"
  unfolding steady_def by (metis snd_conv)

lemma steady_call [steady_intros]:
  assumes "\<And>s a s'. f s = Inr (a, s') \<Longrightarrow> db_outcome s' = db_outcome s"
  shows "steady (db_call f)"
  unfolding steady_def
proof
  fix s
  obtain r s' where c: "db_call f s = (r, s')" by (metis prod.exhaust)
  then show "db_outcome (snd (db_call f s)) = db_outcome s" by (rule db_call_cases) (auto simp: c dest!: assms)
qed

lemma steady_basic [steady_intros]:
  "steady create_ledger" "steady (insert_row row)" "steady select_versions" "steady (exec_script sql x)" "steady (db_return a)" "steady (db_fail e)"
  unfolding create_ledger_def insert_row_def select_versions_def exec_script_def
  by (intro steady_call; auto split: option.splits if_splits)+ (simp_all add: steady_def db_return_def db_fail_def)

lemma steady_then [steady_intros]: "steady m \<Longrightarrow> (\<And>a. steady (f a)) \<Longrightarrow> steady (db_then m f)"
  unfolding steady_def db_then_def by (auto split: prod.split sum.split) (metis snd_conv)+

lemma steady_wrap [steady_intros]: "steady m \<Longrightarrow> steady (db_wrap g m)"
  unfolding steady_def db_wrap_def by (auto split: prod.split sum.split) (metis snd_conv)+

text \<open>A transaction does nothing, or all of its body; in the second case it may still report an error.\<close>

lemma in_tx_law:
  assumes tx: "in_tx body s = (r, s')" and st: "steady body"
  shows "same_db s s' \<and> (\<exists>e. r = Inl e) \<or>
    (\<exists>a t t'. same_db s t \<and> db_ledger t = db_ledger s \<and> body t = (Inr a, t') \<and> same_db t' s' \<and> (r = Inr a \<or> (\<exists>e. r = Inl e)))"
proof -
  obtain r1 s1 where b: "db_call (\<lambda>s. Inr ((), s)) s = (r1, s1)" by (metis prod.exhaust)
  then have s1: "same_db s s1" "db_ledger s1 = db_ledger s" by (auto elim!: db_call_cases simp: same_db_def rows_def)
  show ?thesis
  proof (cases r1)
    case (Inl e) then show ?thesis using tx b s1 by (auto simp: in_tx_def)
  next
    case (Inr u)
    obtain r2 s2 where c: "body s1 = (r2, s2)" by (metis prod.exhaust)
    note o = steadyD [OF st c]
    have rb: "same_db s (rolled_back s1 (s2\<lparr>db_calls := n\<rparr>))" "same_db s (rolled_back s1 s2)" for n
      using s1 o by (simp_all add: same_db_def rolled_back_def rows_def)
    show ?thesis
    proof (cases r2)
      case (Inl e) then show ?thesis using tx b Inr c rb by (auto simp: in_tx_def)
    next
      case r2: (Inr a)
      show ?thesis
      proof (cases "db_outcome s2 (db_calls s2) = Fails")
        case True then show ?thesis using tx b Inr c r2 rb by (auto simp: in_tx_def)
      next
        case False
        then have "s' = s2\<lparr>db_calls := Suc (db_calls s2)\<rparr> \<and> (r = Inr a \<or> (\<exists>e. r = Inl e))"
          using tx b Inr c r2 by (auto simp: in_tx_def split: call_outcome.splits)
        then have "same_db s2 s'" "r = Inr a \<or> (\<exists>e. r = Inl e)" by simp_all
        then show ?thesis using s1 c r2 by blast
      qed
    qed
  qed
qed

lemma exec_spec: "exec_script sql x s = (r, s') \<Longrightarrow> db_ledger s' = db_ledger s \<and> (r = Inr () \<longrightarrow> sql x (db_data s) = Some (db_data s'))"
  unfolding exec_script_def by (erule db_call_cases) (auto split: option.splits)

lemma insert_spec:
  "insert_row row s = (Inr (), s') \<Longrightarrow> fst row \<notin> fst ` set (rows s) \<and> rows s' = rows s @ [row] \<and> db_data s' = db_data s"
  unfolding insert_row_def by (erule db_call_cases) (auto simp: rows_def split: option.splits if_splits)

text \<open>When every call works.\<close>

definition all_work :: "'d sql_db \<Rightarrow> bool" where
  "all_work s \<longleftrightarrow> (\<forall>n. db_outcome s n = Works)"

lemma work_call: "all_work s \<Longrightarrow> db_call f s =
    (case f (s\<lparr>db_calls := Suc (db_calls s)\<rparr>) of Inl e \<Rightarrow> (Inl e, s\<lparr>db_calls := Suc (db_calls s)\<rparr>) | Inr (a, s') \<Rightarrow> (Inr a, s'))"
  by (simp add: all_work_def db_call_def Let_def split: sum.split)

lemma all_work_simps [simp]: "all_work (s\<lparr>db_calls := n\<rparr>) = all_work s" "all_work (s\<lparr>db_data := d\<rparr>) = all_work s" "all_work (s\<lparr>db_ledger := l\<rparr>) = all_work s"
  by (simp_all add: all_work_def)

end
