(* ===== verification/Store_Schema.thy ===== *)
theory Store_Schema
  imports Sql_Database Go_Number Semver
begin

text \<open>
  The migrations of the store database (\<open>internal/storedb/migrate.go\<close>): the scripts that are embedded in
  the binary, their order, and the ledger of those that were applied.
\<close>

subsection \<open>The embedded migrations\<close>

record migration =
  mg_version :: int
  mg_label :: string
  mg_up :: string

definition up_sql :: string where "up_sql = ''.up.sql''"

definition has_suffix :: "string \<Rightarrow> string \<Rightarrow> bool" where
  "has_suffix s x \<longleftrightarrow> length x \<le> length s \<and> drop (length s - length x) s = x"

text \<open>\<open>strings.Cut\<close> at the first underscore.\<close>

definition cut_underscore :: "string \<Rightarrow> (string \<times> string) option" where
  "cut_underscore s =
     (let a = takeWhile (\<lambda>c. c \<noteq> CHR ''_'') s in if a = s then None else Some (a, drop (Suc (length a)) s))"

definition migration_of :: "string \<times> string \<Rightarrow> failure + migration" where
  "migration_of e =
     (case e of (name, body) \<Rightarrow>
        if \<not> has_suffix name up_sql then Inl (Fail ''storedb: migration must be named NNN_label.up.sql'')
        else case cut_underscore (take (length name - length up_sql) name) of
          None \<Rightarrow> Inl (Fail ''storedb: migration must be named NNN_label.up.sql'')
        | Some (num, label) \<Rightarrow>
            (case Atoi num of
               None \<Rightarrow> Inl (Fail ''storedb: migration: non-numeric version'')
             | Some v \<Rightarrow> Inr \<lparr>mg_version = v, mg_label = label, mg_up = body\<rparr>))"

fun load_entries :: "(string \<times> string) list \<Rightarrow> failure + migration list" where
  "load_entries [] = Inr []"
| "load_entries (e # es) =
     (case migration_of e of
        Inl x \<Rightarrow> Inl x
      | Inr m \<Rightarrow> (case load_entries es of Inl x \<Rightarrow> Inl x | Inr ms \<Rightarrow> Inr (m # ms)))"

definition loadMigrations :: "(string \<times> string) list \<Rightarrow> failure + migration list" where
  "loadMigrations entries =
     (case load_entries entries of Inl x \<Rightarrow> Inl x | Inr ms \<Rightarrow> Inr (sort_key mg_version ms))"

subsection \<open>Applying them\<close>

text \<open>The time at which a step is recorded is a function of the call that records it.\<close>

definition apply_body :: "(string \<Rightarrow> 'd \<Rightarrow> 'd option) \<Rightarrow> (nat \<Rightarrow> time) \<Rightarrow> migration \<Rightarrow> ('d, unit) db_call" where
  "apply_body sql now m = db_then (exec_script sql (mg_up m)) (\<lambda>_. \<lambda>s.
     insert_row (mg_version m, FormatTime (now (db_calls s)), mg_label m) s)"

definition apply_migration :: "(string \<Rightarrow> 'd \<Rightarrow> 'd option) \<Rightarrow> (nat \<Rightarrow> time) \<Rightarrow> migration \<Rightarrow> ('d, unit) db_call" where
  "apply_migration sql now m = in_tx (apply_body sql now m)"

fun apply_pending :: "(string \<Rightarrow> 'd \<Rightarrow> 'd option) \<Rightarrow> (nat \<Rightarrow> time) \<Rightarrow> int list \<Rightarrow> migration list \<Rightarrow> ('d, unit) db_call" where
  "apply_pending sql now applied [] = db_return ()"
| "apply_pending sql now applied (m # ms) =
     (if mg_version m \<in> set applied then apply_pending sql now applied ms
      else if trim_space (mg_up m) = [] then db_fail (Fail ''storedb: migration: empty .up.sql'')
      else db_then (db_wrap (FailWith ''storedb: apply migration'') (apply_migration sql now m)) (\<lambda>_. apply_pending sql now applied ms))"

definition EnsureSchema :: "(string \<Rightarrow> 'd \<Rightarrow> 'd option) \<Rightarrow> (nat \<Rightarrow> time) \<Rightarrow> (string \<times> string) list \<Rightarrow> ('d, unit) db_call" where
  "EnsureSchema sql now entries =
     db_then create_ledger (\<lambda>_.
     case loadMigrations entries of
       Inl e \<Rightarrow> db_fail e
     | Inr migs \<Rightarrow> db_then select_versions (\<lambda>applied. apply_pending sql now applied migs))"

end
