(* ===== verification/Store_Migration.thy ===== *)
theory Store_Migration
  imports Store_Schema
begin

text \<open>
  What the migration of the store database guarantees: however the calls fail and however often the process
  starts again, each version is applied once, in order, together with its row in the ledger.
\<close>

subsection \<open>One transaction\<close>

definition step_of :: "migration \<Rightarrow> plan_step" where
  "step_of m = (mg_version m, mg_label m, [mg_up m])"

lemma db_then_Inr: "db_then m f s = (Inr b, s') \<longleftrightarrow> (\<exists>a t. m s = (Inr a, t) \<and> f a t = (Inr b, s'))"
  by (auto simp: db_then_def split: prod.splits sum.splits)

lemma db_wrap_Inr: "db_wrap g m s = (Inr a, s') \<longleftrightarrow> m s = (Inr a, s')"
  by (auto simp: db_wrap_def split: prod.splits sum.splits)

lemma steady_record: "steady (\<lambda>s. insert_row (v, f s, l) s)"
  using steady_basic(2) by (auto simp: steady_def)

lemma steady_apply: "steady (apply_body sql now m)"
  unfolding apply_body_def by (intro steady_intros steady_record [where f = "\<lambda>s. FormatTime (now (db_calls s))"])

lemma recorded:
  assumes "insert_row (v, tm, l) s = (Inr (), s')" and "run_scripts sql xs (db_data s0) = Some (db_data s)" and "rows s = rows s0"
  shows "migrated sql [(v, l, xs)] s0 s' \<and> v \<notin> fst ` set (rows s0)"
  using insert_spec [OF assms(1)] assms(2,3) by (auto simp: migrated_def intro!: exI [of _ "[(v, tm, l)]"])

lemma migrated_cong: "same_db s t \<Longrightarrow> same_db t' s' \<Longrightarrow> migrated sql ps t t' \<longleftrightarrow> migrated sql ps s s'"
  by (simp add: same_db_def migrated_def)

lemma ledger_rows: "db_ledger s' = db_ledger s \<Longrightarrow> rows s' = rows s"
  by (simp add: rows_def)

lemma apply_spec:
  assumes "apply_migration sql now m s = (r, s')"
  shows "same_db s s' \<and> r \<noteq> Inr () \<or> migrated sql [step_of m] s s'"
proof -
  from in_tx_law [OF assms [unfolded apply_migration_def] steady_apply]
  consider (none) "same_db s s'" "\<exists>e. r = Inl e" | (step) t t' where "same_db s t" "apply_body sql now m t = (Inr (), t')" "same_db t' s'" by auto
  then show ?thesis
  proof cases
    case none then show ?thesis by auto
  next
    case step
    then obtain u where x: "exec_script sql (mg_up m) t = (Inr (), u)"
      and i: "insert_row (mg_version m, FormatTime (now (db_calls u)), mg_label m) u = (Inr (), t')"
      by (auto simp: apply_body_def db_then_Inr)
    have "run_scripts sql [mg_up m] (db_data t) = Some (db_data u)" using exec_spec [OF x] by simp
    moreover have "rows u = rows t" by (rule ledger_rows) (simp add: exec_spec [OF x])
    ultimately have "migrated sql [(mg_version m, mg_label m, [mg_up m])] t t'" using recorded [OF i] by blast
    then have "migrated sql [step_of m] t t'" by (simp add: step_of_def)
    then show ?thesis using migrated_cong [OF step(1,3)] by blast
  qed
qed

definition pending :: "int list \<Rightarrow> migration list \<Rightarrow> migration list" where
  "pending applied = filter (\<lambda>m. mg_version m \<notin> set applied)"

lemma pending_simps [simp]:
  "pending applied [] = []"
  "pending applied (m # ms) = (if mg_version m \<in> set applied then pending applied ms else m # pending applied ms)"
  by (simp_all add: pending_def)

text \<open>A part of the plan was applied, the whole of it if the runner succeeded.\<close>

definition applied_part :: "(string \<Rightarrow> 'd \<Rightarrow> 'd option) \<Rightarrow> plan_step list \<Rightarrow> bool \<Rightarrow> 'd sql_db \<Rightarrow> 'd sql_db \<Rightarrow> bool" where
  "applied_part sql ps all s s' \<longleftrightarrow> (\<exists>k \<le> length ps. migrated sql (take k ps) s s' \<and> (all \<longrightarrow> k = length ps))"

lemma applied_none: "same_db s s' \<Longrightarrow> applied_part sql ps False s s'"
  unfolding applied_part_def by (rule exI [of _ 0]) (simp add: migrated_same)

lemma applied_Nil: "same_db s s' \<Longrightarrow> applied_part sql [] all s s'"
  by (simp add: applied_part_def migrated_same)

lemma applied_Cons:
  assumes "migrated sql [p] s t" and "applied_part sql ps all t s'"
  shows "applied_part sql (p # ps) all s s'"
proof -
  obtain k where k: "k \<le> length ps" "migrated sql (take k ps) t s'" "all \<longrightarrow> k = length ps" using assms(2) by (auto simp: applied_part_def)
  have "migrated sql (p # take k ps) s s'" using migrated_trans [OF assms(1) k(2)] by simp
  then show ?thesis unfolding applied_part_def using k by (intro exI [of _ "Suc k"]) simp
qed

lemma apply_pending_spec:
  "apply_pending sql now applied ms s = (r, s') \<Longrightarrow> applied_part sql (map step_of (pending applied ms)) (r = Inr ()) s s'"
proof (induction ms arbitrary: s)
  case Nil then show ?case by (simp add: db_return_def applied_Nil)
next
  case (Cons m ms)
  show ?case
  proof (cases "mg_version m \<in> set applied")
    case True then show ?thesis using Cons by simp
  next
    case False
    show ?thesis
    proof (cases "trim_space (mg_up m) = []")
      case True then show ?thesis using Cons.prems False applied_none [OF same_db_refl] by (auto simp: db_fail_def)
    next
      case up: False
      obtain r1 s1 where a: "apply_migration sql now m s = (r1, s1)" by (metis prod.exhaust)
      show ?thesis
      proof (cases r1)
        case (Inl e)
        then have "r \<noteq> Inr ()" "s' = s1" using Cons.prems False up a by (auto simp: db_then_def db_wrap_def)
        moreover have "applied_part sql (map step_of (m # pending applied ms)) False s s1"
          using apply_spec [OF a] applied_none applied_Cons [OF _ applied_none [OF same_db_refl], of sql "step_of m"] by auto
        ultimately show ?thesis using False by simp
      next
        case (Inr u)
        then have "apply_pending sql now applied ms s1 = (r, s')" using Cons.prems False up a by (simp add: db_then_def db_wrap_def)
        from Cons.IH [OF this] apply_spec [OF a] Inr False show ?thesis by (auto intro: applied_Cons)
      qed
    qed
  qed
qed

lemma ensure_spec:
  assumes load: "loadMigrations entries = Inr migs" and e: "EnsureSchema sql now entries s = (r, s')"
  shows "applied_part sql (map step_of (pending (map fst (rows s)) migs)) (r = Inr ()) s s'"
proof -
  obtain r1 s1 where c: "create_ledger s = (r1, s1)" by (metis prod.exhaust)
  obtain r2 s2 where q: "select_versions s1 = (r2, s2)" by (metis prod.exhaust)
  note C = create_same [OF c] and Q = select_same [OF q]
  show ?thesis
  proof (cases "\<exists>u vs. r1 = Inr u \<and> r2 = Inr vs")
    case True
    then have "r2 = Inr (map fst (rows s))" "same_db s s2" using C Q same_trans [of s s1 s2] by (auto simp: same_db_def)
    then have "apply_pending sql now (map fst (rows s)) migs s2 = (r, s')" using True e c q load by (auto simp: EnsureSchema_def db_then_def)
    from apply_pending_spec [OF this] \<open>same_db s s2\<close> show ?thesis by (simp add: applied_part_def same_db_def migrated_def)
  next
    case False
    then have "r \<noteq> Inr () \<and> same_db s s'" using e c q load C Q same_trans [of s s1 s2]
      by (cases r1; cases r2) (auto simp: EnsureSchema_def db_then_def)
    then show ?thesis using applied_none by auto
  qed
qed

text \<open>The process is started again and again, each time with another schedule of clocks and answers.\<close>

fun store_boots :: "(string \<Rightarrow> 'd \<Rightarrow> 'd option) \<Rightarrow> (string \<times> string) list \<Rightarrow> ((nat \<Rightarrow> time) \<times> (nat \<Rightarrow> call_outcome)) list \<Rightarrow> 'd sql_db \<Rightarrow> (failure + unit) list \<times> 'd sql_db" where
  "store_boots sql entries [] s = ([], s)"
| "store_boots sql entries ((now, out) # bs) s =
     (case EnsureSchema sql now entries (s\<lparr>db_calls := 0, db_outcome := out\<rparr>) of
        (r, s) \<Rightarrow> (case store_boots sql entries bs s of (rs, s) \<Rightarrow> (r # rs, s)))"

lemma boot_rows [simp]: "rows (s\<lparr>db_calls := 0, db_outcome := out\<rparr>) = rows s"
  by (simp add: rows_def)

lemma pending_rest:
  assumes "distinct (map mg_version ms)"
  shows "pending (applied @ map mg_version (take k (pending applied ms))) ms = drop k (pending applied ms)"
proof -
  let ?p = "pending applied ms"
  have split: "pending (A @ B) ms = pending B (pending A ms)" for A B by (simp add: pending_def conj_commute)
  have "pending (applied @ map mg_version (take k ?p)) ms = filter (\<lambda>m. mg_version m \<notin> mg_version ` set (take k ?p)) (take k ?p @ drop k ?p)"
    unfolding split by (simp add: pending_def [of "map mg_version (take k ?p)"])
  moreover have "distinct (map mg_version (take k ?p @ drop k ?p))"
    using assms by (simp add: pending_def distinct_map_filter)
  then have "\<forall>m\<in>set (drop k ?p). mg_version m \<notin> mg_version ` set (take k ?p)"
    unfolding map_append distinct_append by fastforce
  moreover have "filter (\<lambda>m. mg_version m \<notin> mg_version ` set (take k ?p)) (take k ?p @ drop k ?p) = drop k ?p" if "\<forall>m\<in>set (drop k ?p). mg_version m \<notin> mg_version ` set (take k ?p)"
    unfolding filter_append using that by (simp add: filter_empty_conv filter_id_conv)
  ultimately show ?thesis by simp
qed

lemma migrated_versions:
  assumes "migrated sql (map step_of ms) s s'"
  shows "map fst (rows s') = map fst (rows s) @ map mg_version ms"
proof -
  obtain new where n: "rows s' = rows s @ new" "map (\<lambda>(v, _, l). (v, l)) new = map (\<lambda>(v, l, _). (v, l)) (map step_of ms)"
    using assms by (auto simp: migrated_def)
  have "map fst (map (\<lambda>(v, _, l). (v, l)) new) = map fst (map (\<lambda>(v, l, _). (v, l)) (map step_of ms))" by (rule arg_cong [OF n(2)])
  then have "map fst new = map mg_version ms" by (simp add: step_of_def comp_def case_prod_unfold)
  then show ?thesis by (simp add: n(1))
qed

lemma applied_parts:
  assumes "distinct (map mg_version ms)" and "applied_part sql (map step_of (pending (map fst (rows s)) ms)) a s t"
    and "applied_part sql (map step_of (pending (map fst (rows t)) ms)) b t s'"
  shows "applied_part sql (map step_of (pending (map fst (rows s)) ms)) (a \<or> b) s s'"
proof -
  let ?p = "pending (map fst (rows s)) ms"
  obtain k where k: "k \<le> length ?p" "migrated sql (map step_of (take k ?p)) s t" "a \<longrightarrow> k = length ?p"
    using assms(2) by (auto simp: applied_part_def take_map)
  have "pending (map fst (rows t)) ms = drop k ?p"
    using migrated_versions [OF k(2)] pending_rest [OF assms(1)] by simp
  then obtain j where j: "j \<le> length (drop k ?p)" "migrated sql (map step_of (take j (drop k ?p))) t s'" "b \<longrightarrow> j = length (drop k ?p)"
    using assms(3) by (auto simp: applied_part_def take_map)
  have "take k ?p @ take j (drop k ?p) = take (k + j) ?p" by (simp add: take_add)
  then have "migrated sql (map step_of (take (k + j) ?p)) s s'" using migrated_trans [OF k(2) j(2)] by (metis map_append)
  moreover have "k + j \<le> length ?p" "a \<or> b \<longrightarrow> k + j = length ?p" using k j by auto
  ultimately show ?thesis unfolding applied_part_def by (intro exI [of _ "k + j"]) (simp add: take_map)
qed

lemma boots_spec:
  assumes load: "loadMigrations entries = Inr migs" and d: "distinct (map mg_version migs)"
  shows "store_boots sql entries bs s = (rs, s1) \<Longrightarrow> applied_part sql (map step_of (pending (map fst (rows s)) migs)) (Inr () \<in> set rs) s s1"
proof (induction bs arbitrary: s rs s1)
  case Nil then show ?case using applied_none [OF same_db_refl] by auto
next
  case (Cons b bs)
  obtain now out where b: "b = (now, out)" by (cases b)
  let ?s = "s\<lparr>db_calls := 0, db_outcome := out\<rparr>"
  obtain r t where e: "EnsureSchema sql now entries ?s = (r, t)" by (metis prod.exhaust)
  obtain qs u where q: "store_boots sql entries bs t = (qs, u)" by (metis prod.exhaust)
  have "rs = r # qs" "s1 = u" using Cons.prems b e q by auto
  moreover have "applied_part sql (map step_of (pending (map fst (rows s)) migs)) (r = Inr ()) s t"
    using ensure_spec [OF load e] by (simp add: applied_part_def migrated_def)
  ultimately show ?case using applied_parts [OF d _ Cons.IH [OF q]] by (fastforce simp: eq_commute)
qed

text \<open>When every call works and every script can be run.\<close>

lemma apply_works:
  assumes w: "all_work s" and l: "db_ledger s = Some rs" "mg_version m \<notin> fst ` set rs" and x: "sql (mg_up m) (db_data s) = Some d"
  shows "\<exists>s'. apply_migration sql now m s = (Inr (), s') \<and> all_work s' \<and> (\<exists>tm. db_ledger s' = Some (rs @ [(mg_version m, tm, mg_label m)])) \<and> db_data s' = d"
proof -
  have o: "db_outcome s n = Works" for n using w by (simp add: all_work_def)
  show ?thesis
    by (simp add: apply_migration_def in_tx_def apply_body_def db_then_def exec_script_def insert_row_def work_call w o l x all_work_def)
qed

lemma pending_works:
  assumes "all_work s" "db_ledger s = Some rs" "distinct (map mg_version ms)" "\<forall>m\<in>set (pending applied ms). mg_version m \<notin> fst ` set rs"
    "\<forall>m\<in>set (pending applied ms). trim_space (mg_up m) \<noteq> []" "run_scripts sql (map mg_up (pending applied ms)) (db_data s) \<noteq> None"
  shows "fst (apply_pending sql now applied ms s) = Inr ()"
  using assms
proof (induction ms arbitrary: s rs)
  case Nil then show ?case by (simp add: db_return_def)
next
  case (Cons m ms)
  show ?case
  proof (cases "mg_version m \<in> set applied")
    case True then show ?thesis using Cons.prems Cons.IH [of s rs] by simp
  next
    case False
    obtain d where d: "sql (mg_up m) (db_data s) = Some d" "run_scripts sql (map mg_up (pending applied ms)) d \<noteq> None"
      using Cons.prems(6) False by (auto split: option.splits)
    obtain t tm where t: "apply_migration sql now m s = (Inr (), t)" "all_work t" "db_ledger t = Some (rs @ [(mg_version m, tm, mg_label m)])" "db_data t = d"
      using apply_works [where m = m and sql = sql, OF Cons.prems(1,2) _ d(1), of now] Cons.prems(4) False by auto
    have "\<forall>x\<in>set (pending applied ms). mg_version x \<notin> fst ` set (rs @ [(mg_version m, tm, mg_label m)])"
      using Cons.prems(3,4) False by (auto simp: pending_def) (metis imageI)
    then have "fst (apply_pending sql now applied ms t) = Inr ()"
      using Cons.IH [OF t(2,3)] Cons.prems False d t(4) by simp
    then show ?thesis using Cons.prems(5) False t(1) by (simp add: db_then_def db_wrap_def)
  qed
qed

lemma ensure_works:
  assumes load: "loadMigrations entries = Inr migs" and d: "distinct (map mg_version migs)" and w: "all_work s"
    and p: "\<forall>m\<in>set (pending (map fst (rows s)) migs). trim_space (mg_up m) \<noteq> []"
    "run_scripts sql (map mg_up (pending (map fst (rows s)) migs)) (db_data s) \<noteq> None"
  shows "fst (EnsureSchema sql now entries s) = Inr ()"
proof -
  let ?t = "s\<lparr>db_ledger := Some (rows s), db_calls := Suc (Suc (db_calls s))\<rparr>"
  have keep: "db_ledger s = Some r \<Longrightarrow> s\<lparr>db_ledger := Some r, db_calls := n\<rparr> = s\<lparr>db_calls := n\<rparr>" for r n by (cases s) simp
  have "EnsureSchema sql now entries s = apply_pending sql now (map fst (rows s)) migs ?t"
    using w load by (auto simp: EnsureSchema_def db_then_def create_ledger_def select_versions_def work_call rows_def keep split: option.split)
  moreover have "fst (apply_pending sql now (map fst (rows s)) migs ?t) = Inr ()"
    by (rule pending_works [OF _ _ d]) (use w p in \<open>auto simp: pending_def\<close>)
  ultimately show ?thesis by simp
qed

text \<open>
  C14. The store database is migrated version by version, each once and in ascending order, over any number of
  starts of the process and however the calls fail: its content is what the scripts of a first part of the
  pending versions make of it, the ledger records exactly those, and the whole is there once a start has
  succeeded. From whatever state the failures left, a start in which all calls work completes the migration,
  if its scripts can be run at all.
\<close>

theorem store_migrations_run_once_in_order:
  assumes load: "loadMigrations entries = Inr migs" and d: "distinct (map mg_version migs)"
    and boots: "store_boots sql entries bs s = (rs, s')"
    and todo: "todo = pending (map fst (rows s)) migs"
  shows "sorted (map mg_version todo) \<and>
    (\<exists>k \<le> length todo. migrated sql (map step_of (take k todo)) s s' \<and> (Inr () \<in> set rs \<longrightarrow> k = length todo)) \<and>
    ((\<forall>m\<in>set todo. trim_space (mg_up m) \<noteq> []) \<and> run_scripts sql (map mg_up todo) (db_data s) \<noteq> None \<longrightarrow>
       fst (EnsureSchema sql now entries (s'\<lparr>db_calls := 0, db_outcome := \<lambda>_. Works\<rparr>)) = Inr ())"
proof -
  have "sorted (map mg_version migs)" using load by (auto simp: loadMigrations_def split: sum.splits)
  then have "sorted (map mg_version todo)" by (simp add: todo pending_def sorted_filter)
  moreover obtain k where k: "k \<le> length todo" "migrated sql (map step_of (take k todo)) s s'" "Inr () \<in> set rs \<longrightarrow> k = length todo"
    using boots_spec [OF load d boots] by (auto simp: applied_part_def todo take_map)
  moreover have "fst (EnsureSchema sql now entries (s'\<lparr>db_calls := 0, db_outcome := \<lambda>_. Works\<rparr>)) = Inr ()"
    if ok: "\<forall>m\<in>set todo. trim_space (mg_up m) \<noteq> []" "run_scripts sql (map mg_up todo) (db_data s) \<noteq> None"
  proof -
    have rest: "pending (map fst (rows s')) migs = drop k todo"
      using migrated_versions [OF k(2)] pending_rest [OF d] by (simp add: todo)
    have scripts: "concat (map (\<lambda>(_, _, xs). xs) (map step_of ms)) = map mg_up ms" for ms by (induction ms) (simp_all add: step_of_def)
    have "run_scripts sql (map mg_up (take k todo)) (db_data s) = Some (db_data s')" using k(2) unfolding migrated_def scripts by blast
    moreover have "map mg_up todo = map mg_up (take k todo) @ map mg_up (drop k todo)" by (metis append_take_drop_id map_append)
    ultimately have "run_scripts sql (map mg_up (drop k todo)) (db_data s') \<noteq> None" using ok(2) by (simp add: run_scripts_append)
    moreover have "\<forall>m\<in>set (drop k todo). trim_space (mg_up m) \<noteq> []" using ok(1) by (meson in_set_dropD)
    ultimately show ?thesis by (intro ensure_works [OF load d]) (simp_all add: rest all_work_def)
  qed
  ultimately show ?thesis by blast
qed

subsection \<open>Example\<close>

text \<open>Scripts that add to a list of numbers; a first start fails between two versions, a second one goes on.\<close>

definition add_script :: "string \<Rightarrow> nat list \<Rightarrow> nat list option" where
  "add_script x d = (if x = ''a'' then Some (d @ [1]) else if x = ''b'' then Some (d @ [2]) else None)"

definition two_scripts :: "(string \<times> string) list" where
  "two_scripts = [(''001_init.up.sql'', ''a''), (''002_more.up.sql'', ''b'')]"

definition fresh_db :: "nat list sql_db" where
  "fresh_db = \<lparr>db_data = [], db_ledger = None, db_calls = 0, db_outcome = (\<lambda>_. Works)\<rparr>"

definition first_start :: "(nat \<Rightarrow> time) \<times> (nat \<Rightarrow> call_outcome)" where
  "first_start = (\<lambda>_. 0, \<lambda>n. if n = 6 then Fails else Works)"

definition second_start :: "(nat \<Rightarrow> time) \<times> (nat \<Rightarrow> call_outcome)" where
  "second_start = (\<lambda>_. 0, \<lambda>_. Works)"

definition after_starts :: "(failure + unit) list \<times> nat list sql_db" where
  "after_starts = store_boots add_script two_scripts [first_start, second_start] fresh_db"

lemma two_migrations: "loadMigrations two_scripts =
    Inr [\<lparr>mg_version = 1, mg_label = ''init'', mg_up = ''a''\<rparr>, \<lparr>mg_version = 2, mg_label = ''more'', mg_up = ''b''\<rparr>]"
  by code_simp

theorem store_migrations_run_once_in_order_witness:
  "db_data (snd after_starts) = [1, 2]"
proof -
  let ?ms = "[\<lparr>mg_version = 1, mg_label = ''init'', mg_up = ''a''\<rparr>, \<lparr>mg_version = 2, mg_label = ''more'', mg_up = ''b''\<rparr>]"
  have p: "?ms = pending (map fst (rows fresh_db)) ?ms" by (simp add: fresh_db_def rows_def)
  have d: "distinct (map mg_version ?ms)" by simp
  have scripts: "\<forall>m\<in>set ?ms. trim_space (mg_up m) \<noteq> []" "run_scripts add_script (map mg_up ?ms) (db_data fresh_db) \<noteq> None"
  proof -
    have "trim_space ''a'' = ''a''" "trim_space ''b'' = ''b''" by (rule trim_space_ascii; simp add: is_space_def)+
    then show "\<forall>m\<in>set ?ms. trim_space (mg_up m) \<noteq> []" by simp
  qed (simp add: add_script_def fresh_db_def)
  obtain rs1 s1 where b1: "store_boots add_script two_scripts [first_start] fresh_db = (rs1, s1)" by (metis prod.exhaust)
  note T1 = store_migrations_run_once_in_order [OF two_migrations d b1 p, of "fst second_start"]
  obtain r s2 where e: "EnsureSchema add_script (fst second_start) two_scripts (s1\<lparr>db_calls := 0, db_outcome := \<lambda>_. Works\<rparr>) = (r, s2)"
    by (metis prod.exhaust)
  have r: "r = Inr ()" using T1 scripts e by simp
  have b2: "store_boots add_script two_scripts [first_start, second_start] fresh_db = (rs1 @ [r], s2)"
    using b1 e by (auto simp: first_start_def second_start_def split: prod.splits)
  then have s2: "s2 = snd after_starts" by (simp add: after_starts_def)
  have "migrated add_script (map step_of ?ms) fresh_db s2"
    using store_migrations_run_once_in_order [OF two_migrations d b2 p, of "\<lambda>_. 0"] r by auto
  then show ?thesis unfolding s2 by (simp add: migrated_def step_of_def fresh_db_def add_script_def)
qed

end
