(* ===== verification/Console_Schema.thy ===== *)
theory Console_Schema
  imports Sql_Database Store_Time
begin

text \<open>
  The migrations of the session database (\<open>internal/console/schema.go\<close>): one version per transaction, the
  ledger read again in each, and a database of a newer binary refused.
\<close>

subsection \<open>The plan\<close>

record db_migration =
  dm_version :: int
  dm_description :: string
  dm_statements :: "string list"

definition DBSchemaVersion :: int where "DBSchemaVersion = 1"

definition ErrDBSchemaTooNew :: failure where
  "ErrDBSchemaTooNew = Fail ''console: session database schema is newer than this binary''"

text \<open>The text of a statement, from its lines.\<close>

definition sql_text :: "string list \<Rightarrow> string" where
  "sql_text ls = concat (map (\<lambda>l. CHR 0x0A # l) ls)"

definition dbSchemaV1 :: string where
  "dbSchemaV1 = sql_text
     [''CREATE TABLE IF NOT EXISTS console_session ('', ''  session_id      TEXT PRIMARY KEY,'', ''  runespace_token TEXT NOT NULL,'',
      ''  cookie_name     TEXT NOT NULL,'', ''  me              BLOB,'', ''  created_at      TEXT NOT NULL,'', ''  expires_at      TEXT NOT NULL'', '');'', '''',
      ''CREATE TABLE IF NOT EXISTS console_owner ('', ''  id       INTEGER PRIMARY KEY CHECK (id = 1),'', ''  email    TEXT NOT NULL,'',
      ''  me       BLOB,'', ''  bound_at TEXT NOT NULL'', '');'', '''',
      ''CREATE TABLE IF NOT EXISTS dataplane_credential ('', ''  id            INTEGER PRIMARY KEY CHECK (id = 1),'', ''  refresh_token TEXT NOT NULL,'',
      ''  runespace_id  TEXT NOT NULL,'', ''  addr          TEXT NOT NULL,'', ''  created_at    TEXT NOT NULL'', '');'']"

definition dbSchemaMigrations :: "db_migration list" where
  "dbSchemaMigrations = [\<lparr>dm_version = 1, dm_description = ''f4ad3db baseline console schema'', dm_statements = [dbSchemaV1]\<rparr>]"

text \<open>The first fault of a plan: its versions are 1, 2 and so on up to the wanted one.\<close>

fun contiguous :: "int \<Rightarrow> db_migration list \<Rightarrow> failure option" where
  "contiguous want [] = None"
| "contiguous want (m # ms) =
     (if dm_version m \<noteq> want then Some (Fail ''console: session database migration plan is not contiguous'')
      else if dm_description m = [] then Some (Fail ''console: session database migration has no description'')
      else if dm_statements m = [] then Some (Fail ''console: session database migration has no statements'')
      else contiguous (want + 1) ms)"

definition validateDBSchemaMigrations :: "db_migration list \<Rightarrow> int \<Rightarrow> failure option" where
  "validateDBSchemaMigrations ms wantVersion =
     (if ms = [] then Some (Fail ''console: session database migration plan is empty'')
      else case contiguous 1 ms of
        Some e \<Rightarrow> Some e
      | None \<Rightarrow> if dm_version (last ms) \<noteq> wantVersion then Some (Fail ''console: session database migration plan ends at another version'') else None)"

subsection \<open>The ledger\<close>

text \<open>The versions in order have no gap, and none is newer than what is supported.\<close>

fun check_versions :: "int \<Rightarrow> int list \<Rightarrow> int \<Rightarrow> failure + int" where
  "check_versions supported [] current = Inr current"
| "check_versions supported (v # vs) current =
     (if supported < v then Inl (FailWith ''database version'' ErrDBSchemaTooNew)
      else if v \<noteq> current + 1 then Inl (Fail ''console: session database migration ledger is not contiguous'')
      else check_versions supported vs v)"

definition readDBSchemaVersion :: "int \<Rightarrow> ('d, int) db_call" where
  "readDBSchemaVersion supported =
     db_then (db_wrap (FailWith ''console: read session database migration ledger'') select_versions) (\<lambda>vs.
     case check_versions supported (sort vs) 0 of Inl e \<Rightarrow> db_fail e | Inr v \<Rightarrow> db_return v)"

subsection \<open>Applying\<close>

text \<open>\<open>time.RFC3339Nano\<close> in UTC: the fraction without its trailing zeros.\<close>

definition nano_of :: "time \<Rightarrow> int" where "nano_of t = t mod second"

definition FormatNano :: "time \<Rightarrow> string" where
  "FormatNano t =
     (let frac = rev (dropWhile (\<lambda>c. c = CHR ''0'') (rev (digits 9 (nano_of t))))
      in fmt_date (date_of_days (day_of t)) @ CHR ''T'' # digits 2 (hour_of t) @ CHR '':'' # digits 2 (minute_of t) @
         CHR '':'' # digits 2 (second_of t) @ (if frac = [] then [] else CHR ''.'' # frac) @ ''Z'')"

fun exec_all :: "(string \<Rightarrow> 'd \<Rightarrow> 'd option) \<Rightarrow> string list \<Rightarrow> ('d, unit) db_call" where
  "exec_all sql [] = db_return ()"
| "exec_all sql (x # xs) = db_then (db_wrap (FailWith ''console: apply session database migration'') (exec_script sql x)) (\<lambda>_. exec_all sql xs)"

text \<open>The migrations are indexed by the current version, as they are contiguous.\<close>

definition next_body :: "(string \<Rightarrow> 'd \<Rightarrow> 'd option) \<Rightarrow> (nat \<Rightarrow> time) \<Rightarrow> db_migration list \<Rightarrow> int \<Rightarrow> ('d, bool) db_call" where
  "next_body sql now ms targ =
     db_then (db_wrap (FailWith ''console: create session database migration ledger'') create_ledger) (\<lambda>_.
     db_then (readDBSchemaVersion targ) (\<lambda>current.
     if current = targ then db_return True
     else let m = ms ! nat current in
       db_then (exec_all sql (dm_statements m)) (\<lambda>_.
       db_then (db_wrap (FailWith ''console: record session database migration'')
         (\<lambda>s. insert_row (dm_version m, FormatNano (now (db_calls s)), dm_description m) s)) (\<lambda>_.
       db_return (dm_version m = targ)))))"

definition applyNextDBSchemaMigration :: "(string \<Rightarrow> 'd \<Rightarrow> 'd option) \<Rightarrow> (nat \<Rightarrow> time) \<Rightarrow> db_migration list \<Rightarrow> int \<Rightarrow> ('d, bool) db_call" where
  "applyNextDBSchemaMigration sql now ms targ = in_tx (next_body sql now ms targ)"

text \<open>The loop, with fuel; \<open>None\<close> when the fuel is used up.\<close>

fun apply_loop :: "nat \<Rightarrow> (string \<Rightarrow> 'd \<Rightarrow> 'd option) \<Rightarrow> (nat \<Rightarrow> time) \<Rightarrow> db_migration list \<Rightarrow> int \<Rightarrow> 'd sql_db \<Rightarrow> (failure + unit) option \<times> 'd sql_db" where
  "apply_loop 0 sql now ms targ s = (None, s)"
| "apply_loop (Suc n) sql now ms targ s =
     (case applyNextDBSchemaMigration sql now ms targ s of
        (Inl e, s) \<Rightarrow> (Some (Inl e), s)
      | (Inr True, s) \<Rightarrow> (Some (Inr ()), s)
      | (Inr False, s) \<Rightarrow> apply_loop n sql now ms targ s)"

definition applyDBSchemaMigrations :: "(string \<Rightarrow> 'd \<Rightarrow> 'd option) \<Rightarrow> (nat \<Rightarrow> time) \<Rightarrow> db_migration list \<Rightarrow> 'd sql_db \<Rightarrow> (failure + unit) option \<times> 'd sql_db" where
  "applyDBSchemaMigrations sql now ms s =
     (if ms = [] then (Some (Inl (Fail ''console: session database migration plan is empty'')), s)
      else case validateDBSchemaMigrations ms (dm_version (last ms)) of
        Some e \<Rightarrow> (Some (Inl e), s)
      | None \<Rightarrow> apply_loop (length ms) sql now ms (dm_version (last ms)) s)"

text \<open>The database handle may be missing.\<close>

definition EnsureDBSchema :: "(string \<Rightarrow> 'd \<Rightarrow> 'd option) \<Rightarrow> (nat \<Rightarrow> time) \<Rightarrow> bool \<Rightarrow> 'd sql_db \<Rightarrow> (failure + unit) option \<times> 'd sql_db" where
  "EnsureDBSchema sql now present s =
     (if \<not> present then (Some (Inl (Fail ''console: ensure session database schema: nil database'')), s)
      else case validateDBSchemaMigrations dbSchemaMigrations DBSchemaVersion of
        Some e \<Rightarrow> (Some (Inl e), s)
      | None \<Rightarrow> applyDBSchemaMigrations sql now dbSchemaMigrations s)"

end
