(* ===== verification/Console_Migration.thy ===== *)
theory Console_Migration
  imports Store_Migration Console_Schema "HOL-Library.Multiset"
begin

text \<open>
  What the migration of the session database guarantees: the ledger stays a prefix of the plan, one version
  is applied per transaction, and a database of a newer binary is not touched.
\<close>

subsection \<open>The plan and the ledger\<close>

definition dstep :: "db_migration \<Rightarrow> plan_step" where
  "dstep m = (dm_version m, dm_description m, dm_statements m)"

lemma contiguous_nth: "contiguous w ms = None \<Longrightarrow> i < length ms \<Longrightarrow> dm_version (ms ! i) = w + int i"
proof (induction ms arbitrary: w i)
  case (Cons m ms) then show ?case by (cases i) (auto split: if_splits)
qed simp

lemma valid_plan:
  assumes "validateDBSchemaMigrations ms v = None"
  shows "ms \<noteq> []" "v = int (length ms)" "i < length ms \<Longrightarrow> dm_version (ms ! i) = int i + 1"
proof -
  have c: "contiguous 1 ms = None" and l: "dm_version (last ms) = v" and ne: "ms \<noteq> []"
    using assms by (auto simp: validateDBSchemaMigrations_def split: if_splits option.splits)
  show "ms \<noteq> []" by (rule ne)
  show "v = int (length ms)" using contiguous_nth [OF c, of "length ms - 1"] l ne by (cases ms rule: rev_cases) simp_all
  show "dm_version (ms ! i) = int i + 1" if "i < length ms" using contiguous_nth [OF c that] by simp
qed

lemma check_versions_Inr: "check_versions top_v vs c = Inr v \<Longrightarrow> vs = [c + 1..v] \<and> c \<le> v \<and> (c \<le> top_v \<longrightarrow> v \<le> top_v)"
proof (induction vs arbitrary: c)
  case (Cons x vs)
  then have x: "x = c + 1" "x \<le> top_v" "vs = [x + 1..v]" "x \<le> v" "v \<le> top_v" by (auto split: if_splits dest!: Cons.IH)
  then show ?case using upto_rec1 [of x v] by simp
qed simp

lemma check_versions_upto: "c \<le> v \<Longrightarrow> v \<le> top_v \<Longrightarrow> check_versions top_v [c + 1..v] c = Inr v"
proof (induction "nat (v - c)" arbitrary: c)
  case (Suc n)
  then show ?case using Suc.hyps(1) [of "c + 1"] upto_rec1 [of "c + 1" v] by simp
qed simp

lemma check_versions_new: "c \<le> top_v \<Longrightarrow> top_v < v \<Longrightarrow> check_versions top_v [c + 1..v] c = Inl (FailWith ''database version'' ErrDBSchemaTooNew)"
proof (induction "nat (top_v - c)" arbitrary: c)
  case 0 then show ?case using upto_rec1 [of "c + 1" v] by simp
next
  case (Suc n)
  then show ?case using Suc.hyps(1) [of "c + 1"] upto_rec1 [of "c + 1" v] by simp
qed

lemma exec_all_spec: "exec_all sql xs s = (r, s') \<Longrightarrow> db_ledger s' = db_ledger s \<and> (r = Inr () \<longrightarrow> run_scripts sql xs (db_data s) = Some (db_data s'))"
proof (induction xs arbitrary: s)
  case Nil then show ?case by (simp add: db_return_def)
next
  case (Cons x xs)
  obtain r1 s1 where x: "exec_script sql x s = (r1, s1)" by (metis prod.exhaust)
  show ?case
  proof (cases r1)
    case (Inl e) then show ?thesis using Cons.prems x exec_spec [OF x] by (auto simp: db_then_def db_wrap_def)
  next
    case (Inr u)
    then have "exec_all sql xs s1 = (r, s')" using Cons.prems x by (simp add: db_then_def db_wrap_def)
    from Cons.IH [OF this] exec_spec [OF x] Inr show ?thesis by auto
  qed
qed

lemma steady_exec_all [steady_intros]: "steady (exec_all sql xs)"
  by (induction xs) (auto intro!: steady_intros)

lemma steady_read [steady_intros]: "steady (readDBSchemaVersion v)"
  unfolding readDBSchemaVersion_def by (intro steady_intros) (simp add: steady_intros split: sum.split)

lemma steady_next: "steady (next_body sql now ms v)"
  unfolding next_body_def Let_def
  by (intro steady_intros steady_record [where f = "\<lambda>s. FormatNano (now (db_calls s))"]) (auto intro!: steady_intros steady_record [where f = "\<lambda>s. FormatNano (now (db_calls s))"])

text \<open>The versions that the ledger records, in order.\<close>

definition versions :: "'d sql_db \<Rightarrow> int list" where
  "versions s = sort (map fst (rows s))"

lemma versions_same: "same_db s s' \<Longrightarrow> versions s' = versions s"
  by (simp add: versions_def same_db_def)

lemma versions_migrated: "migrated sql [dstep m] s s' \<Longrightarrow> dm_version m = int n + 1 \<Longrightarrow> versions s = [1..int n] \<Longrightarrow> versions s' = [1..int (Suc n)]"
proof -
  assume a: "migrated sql [dstep m] s s'" "dm_version m = int n + 1" "versions s = [1..int n]"
  have "mset (map fst (rows s')) = mset (map fst (rows s)) + {# int n + 1 #}" using a(1,2) by (auto simp: migrated_def dstep_def)
  also have "\<dots> = mset (versions s) + {# int n + 1 #}" by (simp add: versions_def)
  also have "\<dots> = mset [1..int n + 1]" using upto_rec2 [of 1 "int n + 1"] a(3) by simp
  finally have "versions s' = sort [1..int n + 1]" unfolding versions_def by (intro properties_for_sort) simp_all
  then show ?thesis by (simp add: sorted_sort_id add.commute)
qed

lemma read_Inr:
  assumes "readDBSchemaVersion targ s = (Inr v, s')" and "0 \<le> targ"
  shows "same_db s s' \<and> db_ledger s' = db_ledger s \<and> versions s = [1..v] \<and> 0 \<le> v \<and> v \<le> targ"
proof -
  obtain vs where q: "select_versions s = (Inr vs, s')" and c: "check_versions targ (sort vs) 0 = Inr v"
  proof -
    obtain vs t where q: "select_versions s = (Inr vs, t)" and c: "(case check_versions targ (sort vs) 0 of Inl e \<Rightarrow> db_fail e | Inr v \<Rightarrow> db_return v) t = (Inr v, s')"
      using assms(1) unfolding readDBSchemaVersion_def db_then_Inr db_wrap_Inr by blast
    then show thesis using that [of vs] by (cases "check_versions targ (sort vs) 0") (simp_all add: db_fail_def db_return_def)
  qed
  show ?thesis using check_versions_Inr [OF c] select_same [OF q] assms(2) by (simp add: versions_def)
qed

text \<open>One transaction of the loop.\<close>

lemma next_spec:
  assumes valid: "validateDBSchemaMigrations ms targ = None" and step: "applyNextDBSchemaMigration sql now ms targ s = (r, s')"
  shows "same_db s s' \<and> ((\<exists>e. r = Inl e) \<or> r = Inr True \<and> versions s = [1..targ]) \<or>
    (\<exists>n < length ms. versions s = [1..int n] \<and> migrated sql [dstep (ms ! n)] s s' \<and> (r = Inr (Suc n = length ms) \<or> (\<exists>e. r = Inl e)))"
proof -
  note P = valid_plan [OF valid]
  from in_tx_law [OF step [unfolded applyNextDBSchemaMigration_def] steady_next]
  consider (none) "same_db s s'" "\<exists>e. r = Inl e"
    | (whole) a t t' where "same_db s t" "next_body sql now ms targ t = (Inr a, t')" "same_db t' s'" "r = Inr a \<or> (\<exists>e. r = Inl e)" by blast
  then show ?thesis
  proof cases
    case none then show ?thesis by blast
  next
    case whole
    obtain u t1 t2 cur where c: "create_ledger t = (Inr u, t1)" and v: "readDBSchemaVersion targ t1 = (Inr cur, t2)"
      and b: "(if cur = targ then db_return True else db_then (exec_all sql (dm_statements (ms ! nat cur))) (\<lambda>_.
        db_then (db_wrap (FailWith ''console: record session database migration'')
          (\<lambda>s. insert_row (dm_version (ms ! nat cur), FormatNano (now (db_calls s)), dm_description (ms ! nat cur)) s)) (\<lambda>_.
        db_return (dm_version (ms ! nat cur) = targ)))) t2 = (Inr a, t')"
      using whole(2) unfolding next_body_def Let_def db_then_Inr db_wrap_Inr by blast
    note V = read_Inr [OF v] and C = create_same [OF c]
    have st: "same_db s t2" "versions s = [1..cur]" "0 \<le> cur" "cur \<le> targ"
      using V C P(2) same_trans [OF whole(1) same_trans [OF conjunct1 [OF C]]] versions_same [OF whole(1)] versions_same [of t t1] by auto
    show ?thesis
    proof (cases "cur = targ")
      case True
      then have "a = True" "same_db s s'" using b st(1) whole(3) same_trans by (auto simp: db_return_def)
      then show ?thesis using whole(4) st(2) True by auto
    next
      case False
      define n where "n = nat cur"
      then have n: "n < length ms" "cur = int n" "dm_version (ms ! n) = int n + 1" using st P False by auto
      obtain t3 where x: "exec_all sql (dm_statements (ms ! n)) t2 = (Inr (), t3)"
        and i: "insert_row (dm_version (ms ! n), FormatNano (now (db_calls t3)), dm_description (ms ! n)) t3 = (Inr (), t')"
        and a: "a = (dm_version (ms ! n) = targ)"
        using b False by (auto simp: db_then_Inr db_wrap_Inr db_return_def n_def)
      note X = exec_all_spec [OF x]
      have m: "migrated sql [dstep (ms ! n)] t2 t'" unfolding dstep_def
        by (rule conjunct1 [OF recorded [OF i]]) (use X in \<open>auto intro: ledger_rows\<close>)
      have "migrated sql [dstep (ms ! n)] s s'" using m migrated_cong [OF st(1) whole(3)] by blast
      moreover have "a = (Suc n = length ms)" unfolding a n(3) using P(2) by auto
      ultimately show ?thesis using whole(4) st(2) n(1,2) by blast
    qed
  qed
qed

lemma upto_inj: "[1..int a] = [1..int b] \<Longrightarrow> a = b"
  by (drule arg_cong [of _ _ length]) simp

text \<open>From a ledger of the first \<open>v\<close> versions, the loop applies a first part of the others; the fuel is enough.\<close>

lemma loop_spec:
  assumes valid: "validateDBSchemaMigrations ms targ = None"
  shows "versions s = [1..int v] \<Longrightarrow> v \<le> length ms \<Longrightarrow> 0 < n \<Longrightarrow> length ms \<le> v + n \<Longrightarrow> apply_loop n sql now ms targ s = (res, s') \<Longrightarrow>
    res \<noteq> None \<and> applied_part sql (map dstep (drop v ms)) (res = Some (Inr ())) s s'"
proof (induction n arbitrary: v s)
  case (Suc n)
  note P = valid_plan [OF valid]
  obtain r t where a: "applyNextDBSchemaMigration sql now ms targ s = (r, t)" by (metis prod.exhaust)
  from next_spec [OF valid a]
  consider (err) e where "same_db s t" "r = Inl e" | (all) "same_db s t" "r = Inr True" "versions s = [1..targ]"
    | (step) k where "k < length ms" "versions s = [1..int k]" "migrated sql [dstep (ms ! k)] s t" "r = Inr (Suc k = length ms) \<or> (\<exists>e. r = Inl e)" by blast
  then show ?case
  proof cases
    case err then show ?thesis using Suc.prems(5) a applied_none by auto
  next
    case all
    then have "v = length ms" using upto_inj [of v "length ms"] Suc.prems(1) P(2) by simp
    then show ?thesis using Suc.prems(5) a all by (auto simp: applied_Nil)
  next
    case step
    have "[1..int v] = [1..int k]" by (rule trans [OF Suc.prems(1) [symmetric] step(2)])
    then have vk: "v = k" by (rule upto_inj)
    then have v: "v = k" "drop v ms = ms ! k # drop (Suc k) ms" using Cons_nth_drop_Suc [OF step(1)] by simp_all
    have rest: "applied_part sql (map dstep (drop v ms)) b s s'" if "applied_part sql (map dstep (drop (Suc k) ms)) b t s'" for b
      using applied_Cons [OF step(3) that] unfolding v(2) by simp
    show ?thesis
    proof (cases "r = Inr False")
      case False
      then have "s' = t \<and> res \<noteq> None \<and> (res = Some (Inr ()) \<longrightarrow> Suc k = length ms)" using Suc.prems(5) a step(4) by auto
      moreover have "applied_part sql (map dstep (drop (Suc k) ms)) (Suc k = length ms) t t"
        by (cases "Suc k = length ms") (simp_all add: applied_Nil applied_none)
      ultimately have "applied_part sql (map dstep (drop v ms)) (Suc k = length ms) s s'" "res = Some (Inr ()) \<longrightarrow> Suc k = length ms" "res \<noteq> None"
        using rest by blast+
      then show ?thesis unfolding applied_part_def by blast
    next
      case True
      then have k: "Suc k < length ms" "apply_loop n sql now ms targ t = (res, s')" using step(1,4) Suc.prems(5) a by auto
      have "versions t = [1..int (Suc k)]" using versions_migrated [OF step(3) _ step(2)] P(3) [OF step(1)] by simp
      from Suc.IH [OF this _ _ _ k(2)] k(1) Suc.prems(4) v(1) rest show ?thesis by auto
    qed
  qed
qed simp

text \<open>When every call works.\<close>

lemma exec_all_works: "all_work s \<Longrightarrow> run_scripts sql xs (db_data s) = Some d \<Longrightarrow>
    \<exists>n. exec_all sql xs s = (Inr (), s\<lparr>db_data := d, db_calls := n\<rparr>)"
proof (induction xs arbitrary: s)
  case Nil
  have "s\<lparr>db_data := db_data s, db_calls := db_calls s\<rparr> = s" by simp
  then show ?case using Nil by (metis db_return_def exec_all.simps(1) option.inject run_scripts.simps(1))
next
  case (Cons x xs)
  obtain d1 where d1: "sql x (db_data s) = Some d1" "run_scripts sql xs d1 = Some d" using Cons.prems(2) by (auto split: option.splits)
  let ?t = "s\<lparr>db_calls := Suc (db_calls s), db_data := d1\<rparr>"
  have "exec_script sql x s = (Inr (), ?t)" using Cons.prems(1) d1(1) by (simp add: exec_script_def work_call)
  moreover obtain n where "exec_all sql xs ?t = (Inr (), ?t\<lparr>db_data := d, db_calls := n\<rparr>)"
    using Cons.IH [of ?t] Cons.prems(1) d1(2) by auto
  ultimately show ?case by (auto simp: db_then_def db_wrap_def)
qed

lemma create_works: "all_work s \<Longrightarrow> \<exists>t. create_ledger s = (Inr (), t) \<and> db_ledger t = Some (rows s) \<and> all_work t \<and> db_data t = db_data s"
  by (auto simp: create_ledger_def work_call rows_def split: option.split)

lemma read_works:
  assumes "all_work s" "db_ledger s = Some rs"
  shows "readDBSchemaVersion targ s =
    (case check_versions targ (sort (map fst rs)) 0 of Inl e \<Rightarrow> Inl e | Inr v \<Rightarrow> Inr v, s\<lparr>db_calls := Suc (db_calls s)\<rparr>)"
  using assms by (simp add: readDBSchemaVersion_def db_then_def db_wrap_def select_versions_def work_call db_fail_def db_return_def split: sum.split)

lemma tx_works:
  assumes "all_work s" and "\<And>t. all_work t \<Longrightarrow> db_ledger t = db_ledger s \<Longrightarrow> db_data t = db_data s \<Longrightarrow> \<exists>u. body t = (Inr a, u) \<and> all_work u \<and> db_data u = d"
  shows "\<exists>u. in_tx body s = (Inr a, u) \<and> all_work u \<and> db_data u = d"
proof -
  let ?t = "s\<lparr>db_calls := Suc (db_calls s)\<rparr>"
  have "all_work ?t" "db_ledger ?t = db_ledger s" "db_data ?t = db_data s" using assms(1) by simp_all
  then obtain u where u: "body ?t = (Inr a, u)" "all_work u" "db_data u = d" using assms(2) by blast
  then have "db_outcome u n = Works" for n by (simp add: all_work_def)
  then show ?thesis using assms(1) u by (simp add: in_tx_def work_call)
qed

lemma next_works:
  assumes valid: "validateDBSchemaMigrations ms targ = None" and w: "all_work s" and n: "n < length ms" "versions s = [1..int n]"
    and d: "run_scripts sql (dm_statements (ms ! n)) (db_data s) = Some d"
  shows "\<exists>t. applyNextDBSchemaMigration sql now ms targ s = (Inr (Suc n = length ms), t) \<and> all_work t \<and> db_data t = d"
  unfolding applyNextDBSchemaMigration_def
proof (rule tx_works [OF w])
  note P = valid_plan [OF valid]
  let ?m = "ms ! n"
  fix t assume t: "all_work t" "db_ledger t = db_ledger s" "db_data t = db_data s"
  obtain t1 where c: "create_ledger t = (Inr (), t1)" "db_ledger t1 = Some (rows s)" "all_work t1" "db_data t1 = db_data s"
    using create_works [OF t(1)] t(2,3) by (auto simp: rows_def)
  let ?t2 = "t1\<lparr>db_calls := Suc (db_calls t1)\<rparr>"
  have "check_versions targ (sort (map fst (rows s))) 0 = Inr (int n)"
    using check_versions_upto [of 0 "int n" targ] n P(2) by (simp add: versions_def)
  then have r: "readDBSchemaVersion targ t1 = (Inr (int n), ?t2)" using read_works [OF c(3,2)] by simp
  obtain k where x: "exec_all sql (dm_statements ?m) ?t2 = (Inr (), ?t2\<lparr>db_data := d, db_calls := k\<rparr>)"
    using exec_all_works [of ?t2 sql "dm_statements ?m" d] c(3,4) d by auto
  have "set (versions s) = fst ` set (rows s)" by (simp add: versions_def)
  moreover have "int n + 1 \<notin> set (versions s)" by (simp add: n(2))
  ultimately have "int n + 1 \<notin> fst ` set (rows s)" by metis
  then have i: "insert_row (int n + 1, tm, l) (t1\<lparr>db_data := d, db_calls := k\<rparr>) =
      (Inr (), t1\<lparr>db_data := d, db_calls := Suc k, db_ledger := Some (rows s @ [(int n + 1, tm, l)])\<rparr>)" for tm l
    using c(2,3) by (simp add: insert_row_def work_call)
  have "int n \<noteq> targ" "(int n + 1 = targ) = (Suc n = length ms)" using P(2) n(1) by auto
  then show "\<exists>u. next_body sql now ms targ t = (Inr (Suc n = length ms), u) \<and> all_work u \<and> db_data u = d"
    using c(3) by (simp add: next_body_def db_then_def db_wrap_def c(1) r x i P(3) [OF n(1)] db_return_def Let_def)
qed

lemma loop_works:
  assumes valid: "validateDBSchemaMigrations ms targ = None"
  shows "all_work s \<Longrightarrow> versions s = [1..int v] \<Longrightarrow> v \<le> length ms \<Longrightarrow> 0 < n \<Longrightarrow> length ms \<le> v + n \<Longrightarrow>
    run_scripts sql (concat (map dm_statements (drop v ms))) (db_data s) \<noteq> None \<Longrightarrow> fst (apply_loop n sql now ms targ s) = Some (Inr ())"
proof (induction n arbitrary: v s)
  case (Suc n)
  note P = valid_plan [OF valid]
  show ?case
  proof (cases "v = length ms")
    case True
    have "\<exists>u. in_tx (next_body sql now ms targ) s = (Inr True, u) \<and> all_work u \<and> db_data u = db_data s"
    proof (rule tx_works [OF Suc.prems(1)])
      fix t assume t: "all_work t" "db_ledger t = db_ledger s" "db_data t = db_data s"
      obtain t1 where c: "create_ledger t = (Inr (), t1)" "db_ledger t1 = Some (rows s)" "all_work t1" "db_data t1 = db_data s"
        using create_works [OF t(1)] t(2,3) by (auto simp: rows_def)
      have "check_versions targ (sort (map fst (rows s))) 0 = Inr targ"
        using check_versions_upto [of 0 targ targ] Suc.prems(2) P(2) True by (simp add: versions_def)
      then show "\<exists>u. next_body sql now ms targ t = (Inr True, u) \<and> all_work u \<and> db_data u = db_data s"
        using read_works [OF c(3,2), of targ] c by (simp add: next_body_def db_then_def db_wrap_def db_return_def)
    qed
    then show ?thesis by (auto simp: applyNextDBSchemaMigration_def)
  next
    case False
    then have v: "v < length ms" using Suc.prems(3) by simp
    have dr: "drop v ms = ms ! v # drop (Suc v) ms" using Cons_nth_drop_Suc [OF v] by simp
    obtain d where d: "run_scripts sql (dm_statements (ms ! v)) (db_data s) = Some d" "run_scripts sql (concat (map dm_statements (drop (Suc v) ms))) d \<noteq> None"
      using Suc.prems(6) unfolding dr by (auto simp: run_scripts_append split: option.splits)
    obtain t where t: "applyNextDBSchemaMigration sql now ms targ s = (Inr (Suc v = length ms), t)" "all_work t" "db_data t = d"
      using next_works [OF valid Suc.prems(1) v Suc.prems(2) d(1), of now] by blast
    have "versions s \<noteq> [1..targ]" using upto_inj [of v "length ms"] Suc.prems(2) v P(2) by auto
    then obtain k where k: "versions s = [1..int k]" "migrated sql [dstep (ms ! k)] s t" using next_spec [OF valid t(1)] by auto
    have "[1..int v] = [1..int k]" by (rule trans [OF Suc.prems(2) [symmetric] k(1)])
    then have "v = k" by (rule upto_inj)
    then have "versions t = [1..int (Suc v)]" using versions_migrated [OF k(2) _ k(1)] P(3) [OF v] by simp
    then show ?thesis using t Suc.IH [OF t(2), of "Suc v"] Suc.prems(5) v d(2) by (cases "Suc v = length ms") auto
  qed
qed simp

text \<open>A ledger with more versions than the plan.\<close>

lemma newer_refused:
  assumes w: "all_work s" and v: "versions s = [1..int v]" "targ < int v" and a: "applyNextDBSchemaMigration sql now ms targ s = (r, t)" and "0 \<le> targ"
  shows "r = Inl (FailWith ''database version'' ErrDBSchemaTooNew)"
proof -
  let ?s1 = "s\<lparr>db_calls := Suc (db_calls s)\<rparr>"
  have c: "check_versions targ (sort (map fst (rows s))) 0 = Inl (FailWith ''database version'' ErrDBSchemaTooNew)"
    using check_versions_new [of 0 targ "int v"] v assms(5) by (simp add: versions_def)
  obtain u where u: "create_ledger ?s1 = (Inr (), u)" "db_ledger u = Some (rows s)" "all_work u"
    using create_works [of ?s1] w by auto
  have "readDBSchemaVersion targ u = (Inl (FailWith ''database version'' ErrDBSchemaTooNew), u\<lparr>db_calls := Suc (db_calls u)\<rparr>)"
    using read_works [OF u(3,2)] c by simp
  then have "next_body sql now ms targ ?s1 = (Inl (FailWith ''database version'' ErrDBSchemaTooNew), u\<lparr>db_calls := Suc (db_calls u)\<rparr>)"
    by (simp add: next_body_def db_then_def db_wrap_def u(1))
  then show ?thesis using a w by (simp add: applyNextDBSchemaMigration_def in_tx_def work_call)
qed

text \<open>
  C15. The session database is migrated one version per transaction. If its ledger holds the first versions of
  the plan, then however the calls fail it is left with a further part of the plan applied in order, with
  exactly the rows that say so, and with the whole plan if the migration succeeded; it does succeed if the calls
  work and the scripts can be run. With any other ledger, such as that of a newer binary, nothing changes and
  the migration fails. The loop always ends within one round per version.
\<close>

theorem session_migrations_keep_a_prefix:
  assumes valid: "validateDBSchemaMigrations ms (dm_version (last ms)) = None"
    and run: "applyDBSchemaMigrations sql now ms s = (res, s')"
  shows "res \<noteq> None \<and>
    (\<forall>v \<le> length ms. versions s = [1..int v] \<longrightarrow>
       (\<exists>k \<le> length ms - v. migrated sql (map dstep (take k (drop v ms))) s s' \<and> (res = Some (Inr ()) \<longrightarrow> v + k = length ms)) \<and>
       (all_work s \<and> run_scripts sql (concat (map dm_statements (drop v ms))) (db_data s) \<noteq> None \<longrightarrow> res = Some (Inr ()))) \<and>
    ((\<forall>v \<le> length ms. versions s \<noteq> [1..int v]) \<longrightarrow> same_db s s' \<and> res \<noteq> Some (Inr ())) \<and>
    (all_work s \<and> (\<exists>v > length ms. versions s = [1..int v]) \<longrightarrow> res = Some (Inl (FailWith ''database version'' ErrDBSchemaTooNew)))"
proof -
  note P = valid_plan [OF valid]
  let ?targ = "dm_version (last ms)"
  have run: "apply_loop (length ms) sql now ms ?targ s = (res, s')" using run P(1) valid by (simp add: applyDBSchemaMigrations_def)
  obtain n where n: "length ms = Suc n" using P(1) by (cases ms) auto
  obtain r t where a: "applyNextDBSchemaMigration sql now ms ?targ s = (r, t)" by (metis prod.exhaust)
  have foreign: "same_db s s' \<and> (\<exists>e. r = Inl e \<and> res = Some (Inl e))" if f: "\<forall>v \<le> length ms. versions s \<noteq> [1..int v]"
  proof -
    have "versions s \<noteq> [1..?targ]" using f P(2) by auto
    moreover have "\<not> (\<exists>n < length ms. versions s = [1..int n])" using f less_imp_le by blast
    ultimately have "same_db s t \<and> (\<exists>e. r = Inl e)" using next_spec [OF valid a] by blast
    then show ?thesis using run n a by auto
  qed
  have newer: "res = Some (Inl (FailWith ''database version'' ErrDBSchemaTooNew))" if w: "all_work s" and v: "length ms < v" "versions s = [1..int v]" for v
  proof -
    have "int (length ms) < int v" using v(1) by simp
    then have "r = Inl (FailWith ''database version'' ErrDBSchemaTooNew)" using newer_refused [OF w v(2) _ a] P(2) by simp
    moreover have "versions s \<noteq> [1..int u]" if "u \<le> length ms" for u
    proof
      assume "versions s = [1..int u]"
      then have "[1..int v] = [1..int u]" by (rule trans [OF v(2) [symmetric]])
      then have "v = u" by (rule upto_inj)
      then show False using that v(1) by simp
    qed
    ultimately show ?thesis using foreign by auto
  qed
  have prefix: "res \<noteq> None \<and> (\<exists>k \<le> length ms - v. migrated sql (map dstep (take k (drop v ms))) s s' \<and> (res = Some (Inr ()) \<longrightarrow> v + k = length ms))"
    if v: "v \<le> length ms" "versions s = [1..int v]" for v
    using loop_spec [OF valid v(2,1) _ _ run] n by (simp add: applied_part_def take_map) (metis le_add_diff_inverse v(1))
  have "res \<noteq> None" using prefix foreign by blast
  moreover have "res = Some (Inr ())" if "v \<le> length ms" "versions s = [1..int v]" "all_work s" "run_scripts sql (concat (map dm_statements (drop v ms))) (db_data s) \<noteq> None" for v
    using loop_works [OF valid that(3,2,1) _ _ that(4), of "length ms" now] run n by simp
  ultimately show ?thesis using prefix foreign newer by blast
qed

subsection \<open>Example\<close>

text \<open>The plan of the code, on a database that was made before there was a ledger.\<close>

definition any_script :: "string \<Rightarrow> nat \<Rightarrow> nat option" where "any_script x d = Some (Suc d)"

definition old_db :: "nat sql_db" where
  "old_db = \<lparr>db_data = 0, db_ledger = None, db_calls = 0, db_outcome = (\<lambda>_. Works)\<rparr>"

lemma code_plan_valid: "validateDBSchemaMigrations dbSchemaMigrations DBSchemaVersion = None"
  by (simp add: validateDBSchemaMigrations_def dbSchemaMigrations_def DBSchemaVersion_def)

theorem session_migrations_keep_a_prefix_witness:
  "fst (EnsureDBSchema any_script (\<lambda>_. 0) True old_db) = Some (Inr ()) \<and> length (rows (snd (EnsureDBSchema any_script (\<lambda>_. 0) True old_db))) = 1"
proof -
  let ?ms = dbSchemaMigrations
  obtain res s' where r: "applyDBSchemaMigrations any_script (\<lambda>_. 0) ?ms old_db = (res, s')" by (metis prod.exhaust)
  have e: "EnsureDBSchema any_script (\<lambda>_. 0) True old_db = (res, s')" by (simp add: EnsureDBSchema_def code_plan_valid r)
  have l: "dm_version (last ?ms) = DBSchemaVersion" "length ?ms = 1" by (simp_all add: dbSchemaMigrations_def DBSchemaVersion_def)
  have v: "versions old_db = [1..int 0]" "rows old_db = []" "all_work old_db" by (simp_all add: versions_def rows_def old_db_def all_work_def)
  have "run_scripts any_script xs d \<noteq> None" for xs d by (induction xs arbitrary: d) (simp_all add: any_script_def)
  then have "res = Some (Inr ()) \<and> (\<exists>k. migrated any_script (map dstep (take k ?ms)) old_db s' \<and> k = 1)"
    using session_migrations_keep_a_prefix [OF _ r] code_plan_valid v(1,3) unfolding l by (fastforce simp: l(2))
  then show ?thesis using v(2) l(2) by (auto simp: e migrated_def dest!: arg_cong [of _ _ length])
qed

end
