(* ===== verification/Db_Open.thy ===== *)
theory Db_Open
  imports Config
begin

text \<open>
  Opening the SQLite files (\<open>internal/db/db.go\<close>): the session database is tightened to its owner, the store
  database is refused when anyone else could read it. The driver is an argument; its handle is whatever
  it opens.
\<close>

subsection \<open>The driver\<close>

record 'h driver =
  dr_open :: "string \<Rightarrow> 'h option"
  dr_ping :: "'h \<Rightarrow> bool"
  dr_integrity :: "'h \<Rightarrow> string list option"

definition memory_mark :: string where "memory_mark = '':memory:''"

definition on_disk :: "string \<Rightarrow> bool" where
  "on_disk path \<longleftrightarrow> \<not> contains_str path memory_mark"

text \<open>\<open>os.OpenFile\<close> with \<open>O_CREATE\<close>: a file that is there is left as it is. A link that leads nowhere is an error here.\<close>

definition OpenCreate :: "string \<Rightarrow> nat \<Rightarrow> unit sys" where
  "OpenCreate p mode = sys_call (\<lambda>s.
     case lookup_path True p s of
       Inr r \<Rightarrow> (case look s r of None \<Rightarrow> Inl ENOENT | Some i \<Rightarrow> if is_dir i then Inl EISDIR else Inr (), s)
     | Inl ENOENT \<Rightarrow>
         (case entry_path p s of
            Inl e \<Rightarrow> (Inl e, s)
          | Inr q \<Rightarrow> if look s q = None then (Inr (), add_entry (KFile []) mode q s) else (Inl ENOENT, s))
     | Inl e \<Rightarrow> (Inl e, s))"

definition pre_create :: "string \<Rightarrow> unit io" where
  "pre_create path =
     io_bind (fail_with (io_sys (OpenCreate path 384)) (FailWith ''db: create'')) (\<lambda>_.
     io_bind (io_try Close) (\<lambda>_. io_return ()))"

definition open_dsn :: "'h driver \<Rightarrow> string \<Rightarrow> 'h io" where
  "open_dsn dr dsn =
     (case dr_open dr dsn of
        None \<Rightarrow> io_fail (Fail ''sql: open'')
      | Some h \<Rightarrow> if dr_ping dr h then io_return h else io_fail (Fail ''sql: ping''))"

subsection \<open>The session database\<close>

definition Open :: "'h driver \<Rightarrow> string \<Rightarrow> 'h io" where
  "Open dr path =
     io_bind (if on_disk path then pre_create path else io_return ()) (\<lambda>_.
     io_bind (open_dsn dr (''file:'' @ path @ ''?_pragma=busy_timeout(5000)&_pragma=journal_mode(WAL)&_pragma=foreign_keys(ON)'')) (\<lambda>h.
     if on_disk path then io_bind (io_try (Chmod path 384)) (\<lambda>_. io_return h) else io_return h))"

subsection \<open>The store database\<close>

definition strictJournalSizeLimit :: nat where "strictJournalSizeLimit = 4 * 1024 * 1024"

definition integrityCheck :: "'h driver \<Rightarrow> 'h \<Rightarrow> failure option" where
  "integrityCheck dr h =
     (case dr_integrity dr h of
        None \<Rightarrow> Some (Fail ''sql: query'')
      | Some results \<Rightarrow> if results \<noteq> [''ok''] then Some (Fail ''integrity_check reported'') else None)"

text \<open>Any bit for the group or others is refused; a file that is missing is not.\<close>

fun refuse_exposed :: "string list \<Rightarrow> unit io" where
  "refuse_exposed [] = io_return ()"
| "refuse_exposed (p # ps) =
     (\<lambda>s. case Stat p s of
        (Inl ENOENT, s) \<Rightarrow> refuse_exposed ps s
      | (Inl e, s) \<Rightarrow> (Inl (FailWith ''db: stat'' (Sys e)), s)
      | (Inr info, s) \<Rightarrow>
          if has_bits (perm info) 63 then (Inl (Fail ''db: too-permissive mode (must be 0600, owner-only)''), s) else refuse_exposed ps s)"

definition strict_dsn :: "string \<Rightarrow> string" where
  "strict_dsn path = ''file:'' @ path @ ''?_txlock=immediate'' @ ''&_pragma=busy_timeout(5000)'' @ ''&_pragma=journal_mode(WAL)'' @
     ''&_pragma=foreign_keys(ON)'' @ ''&_pragma=synchronous(FULL)'' @ ''&_pragma=secure_delete(ON)'' @
     ''&_pragma=journal_size_limit('' @ fmt_int 0 (int strictJournalSizeLimit) @ '')''"

definition OpenStrict :: "'h driver \<Rightarrow> string \<Rightarrow> 'h io" where
  "OpenStrict dr path =
     io_bind (if on_disk path
       then io_bind (refuse_exposed [path, path @ ''-wal'', path @ ''-shm'']) (\<lambda>_. pre_create path)
       else io_return ()) (\<lambda>_.
     io_bind (open_dsn dr (strict_dsn path)) (\<lambda>h.
     case integrityCheck dr h of
       Some e \<Rightarrow> io_fail (FailWith ''db: integrity check failed, refusing to open'' e)
     | None \<Rightarrow> io_return h))"

end
