(* ===== verification/Boot.thy ===== *)
theory Boot
  imports Db_Open Store_Migration Data_Plane_Properties
begin

text \<open>
  The start of the daemon (\<open>runDaemonStart\<close> in \<open>internal/commands/daemon.go\<close>): the configuration is loaded
  and checked, the store database opened and migrated, the four stores loaded from it, and the console put
  together. Whatever fails on the way, no console is built.
\<close>

subsection \<open>Audit sinks\<close>

record audit_mode =
  am_File :: bool
  am_Stdout :: bool

definition ParseAuditMode :: "(string \<Rightarrow> string) \<Rightarrow> string \<Rightarrow> audit_mode" where
  "ParseAuditMode lower mode =
     (if mode = [] then \<lparr>am_File = False, am_Stdout = False\<rparr>
      else let ps = map (\<lambda>p. trim_space (lower p)) (split_byte (CHR ''+'') mode)
           in \<lparr>am_File = (''file'' \<in> set ps), am_Stdout = (''stdout'' \<in> set ps)\<rparr>)"

definition default_audit_path :: string where "default_audit_path = ''/var/log/runeconsole/audit.log''"

text \<open>The audit log starts empty, if there is a sink for it.\<close>

definition NewAuditLogger :: "(string \<Rightarrow> string) \<Rightarrow> Config.config \<Rightarrow> audit_entry list option io" where
  "NewAuditLogger lower cfg =
     (let mode = ParseAuditMode lower (cf_AuditMode cfg); path = (if cf_AuditPath cfg = [] then default_audit_path else cf_AuditPath cfg)
      in io_bind (if am_File mode then fail_with (io_sys (MkdirAll (Dir path) 488)) (FailWith ''audit: mkdir log dir'') else io_return ()) (\<lambda>_.
         io_return (if am_File mode \<or> am_Stdout mode then Some [] else None)))"

subsection \<open>The stores\<close>

text \<open>The tables of the store database.\<close>

record store_tables =
  tb_tokens :: "token_row list"
  tb_groups :: groups_db
  tb_members :: "member_row list"
  tb_invites :: "invite_row list"

text \<open>Which of the four loads can read its tables, and the fate of the sweep of the invites.\<close>

record load_env =
  le_reads :: "nat \<Rightarrow> bool"
  le_sweep :: tx_fault
  le_now :: time

definition rows_if :: "bool \<Rightarrow> 'a \<Rightarrow> 'a option" where
  "rows_if readable t = (if readable then Some t else None)"

text \<open>The daemon accepts only UUIDs as the keys of group members.\<close>

definition loadStores :: "load_env \<Rightarrow> store_tables \<Rightarrow> failure + (token_store \<times> group_store \<times> members_store \<times> invite_store)" where
  "loadStores le tb =
     (case tokens_LoadFromDB (rows_if (le_reads le 0) (tb_tokens tb)) tokens_NewStore of
        (Inl _, _) \<Rightarrow> Inl (Fail ''daemon: load tokens'')
      | (Inr _, ts) \<Rightarrow>
     (case groups_LoadFromDB (rows_if (le_reads le 1) (tb_groups tb)) (SetPersonKeyValidator (Some validateID) groups_NewStore) of
        (Inl _, _) \<Rightarrow> Inl (Fail ''daemon: load groups'')
      | (Inr _, gs) \<Rightarrow>
     (case members_LoadFromDB (rows_if (le_reads le 2) (tb_members tb)) members_NewStore of
        (Inl _, _) \<Rightarrow> Inl (Fail ''daemon: load members'')
      | (Inr _, ms) \<Rightarrow>
     (case invites_LoadFromDB (le_sweep le) (le_now le) (le_reads le 3) (tb_invites tb) invites_NewStore of
        (Inl _, _) \<Rightarrow> Inl (Fail ''daemon: load invites'')
      | (Inr _, is, _) \<Rightarrow> Inr (ts, gs, ms, is)))))"

subsection \<open>The start\<close>

record boot_env =
  bo_host :: config_host
  bo_configPath :: string
  bo_driver :: "store_tables sql_db driver"
  bo_sql :: "string \<Rightarrow> store_tables \<Rightarrow> store_tables option"
  bo_migrations :: "(string \<times> string) list"
  bo_clock :: "nat \<Rightarrow> time"
  bo_load :: load_env
  bo_keys :: "failure option"
  bo_lower :: "string \<Rightarrow> string"

text \<open>What the container keeps of the configuration.\<close>

definition console_cfg :: "Config.config \<Rightarrow> Console_State.config" where
  "console_cfg c = \<lparr>cfg_TeamSecret = cf_TeamSecret c, cfg_EmbeddingDim = cf_EmbeddingDim c, cfg_TLS_CA = tc_CA (gc_TLS (cf_GRPC c)),
     cfg_TLS_Cert = tc_Cert (gc_TLS (cf_GRPC c))\<rparr>"

text \<open>The configuration and the database of the stores, at its latest schema.\<close>

definition openStores :: "boot_env \<Rightarrow> (Config.config \<times> store_tables sql_db) io" where
  "openStores be =
     io_bind (LoadConfig (bo_host be) (bo_configPath be)) (\<lambda>cfg.
     io_bind (io_valid (Config.Validate cfg)) (\<lambda>_.
     io_bind (fail_with (OpenStrict (bo_driver be) (StoreDBPath cfg)) (FailWith ''daemon: open store db'')) (\<lambda>db.
     case EnsureSchema (bo_sql be) (bo_clock be) (bo_migrations be) db of
       (Inl e, _) \<Rightarrow> io_fail (FailWith ''daemon'' e)
     | (Inr _, db) \<Rightarrow> io_return (cfg, db))))"

definition runDaemonStart :: "boot_env \<Rightarrow> console io" where
  "runDaemonStart be =
     io_bind (openStores be) (\<lambda>(cfg, db).
     case loadStores (bo_load be) (db_data db) of
       Inl e \<Rightarrow> io_fail e
     | Inr (ts, gs, ms, is) \<Rightarrow>
     io_bind (io_valid (map_option (FailWith ''daemon: ensure keys'') (bo_keys be))) (\<lambda>_.
     io_bind (NewAuditLogger (bo_lower be) cfg) (\<lambda>audit.
     io_return (SetInviteRedemption is (SetMemberDirectory ms (NewConsole (console_cfg cfg) ts gs None audit))))))"

end
