(* ===== verification/Boot_Properties.thy ===== *)
theory Boot_Properties
  imports Boot File_Laws
begin

text \<open>
  What the daemon starts with (\<open>internal/commands/daemon.go\<close>): from the tables that a sound console left
  behind, the start gives a console that is sound again and decides as the old one did.
\<close>

subsection \<open>The file of the store database\<close>

definition private_file :: "files \<Rightarrow> string \<Rightarrow> bool" where
  "private_file s p \<longleftrightarrow> (\<forall>r i. lookup_path True p s = Inr r \<longrightarrow> look s r = Some i \<longrightarrow> \<not> has_bits (perm i) 63)"

lemma private_cong: "look t = look s \<Longrightarrow> private_file t p = private_file s p"
  by (simp add: private_file_def lookup_path_def)

lemma stat_tree: "Stat p s = (r, t) \<Longrightarrow> look t = look s"
  by (auto simp: Stat_def stat_at_def sys_call_cases split: if_splits)

lemma refuse_exposed_law: "refuse_exposed ps s = (Inr u, t) \<Longrightarrow> (\<forall>p\<in>set ps. private_file s p) \<and> look t = look s"
proof (induction ps arbitrary: s)
  case Nil then show ?case by (simp add: io_return_def)
next
  case (Cons p ps)
  obtain r s1 where st: "Stat p s = (r, s1)" by (metis prod.exhaust)
  note l = stat_tree [OF st]
  have go: "refuse_exposed ps s1 = (Inr u, t) \<and> private_file s p"
  proof (cases r)
    case (Inl e)
    then have "e = ENOENT" "refuse_exposed ps s1 = (Inr u, t)" using Cons.prems st by (auto split: errno.splits)
    moreover have "private_file s p"
      using st Inl \<open>e = ENOENT\<close> by (auto simp: private_file_def Stat_def stat_at_def sys_call_cases split: if_splits)
    ultimately show ?thesis by blast
  next
    case (Inr i)
    then have n: "\<not> has_bits (perm i) 63" "refuse_exposed ps s1 = (Inr u, t)" using Cons.prems st by (auto split: if_splits)
    moreover have "private_file s p"
      using st Inr n(1) by (auto simp: private_file_def Stat_def stat_at_def sys_call_cases split: if_splits sum.splits option.splits)
    ultimately show ?thesis by blast
  qed
  from Cons.IH [OF conjunct1 [OF go]] go l show ?case using private_cong [OF l] by auto
qed

lemma strict_private:
  assumes "OpenStrict dr path s = (Inr h, t)" and "on_disk path" and "p \<in> {path, path @ ''-wal'', path @ ''-shm''}"
  shows "private_file s p"
proof -
  obtain u s1 where "refuse_exposed [path, path @ ''-wal'', path @ ''-shm''] s = (Inr u, s1)"
    using assms(1,2) by (auto simp: OpenStrict_def io_bind_Inr)
  from refuse_exposed_law [OF this] assms(3) show ?thesis by auto
qed

lemma strict_handle: "OpenStrict dr path s = (Inr h, t) \<Longrightarrow> \<exists>dsn. dr_open dr dsn = Some h"
  by (auto simp: OpenStrict_def io_bind_Inr open_dsn_def io_return_def io_fail_def split: option.splits if_splits)

subsection \<open>The stores\<close>

definition tables_of :: "console \<Rightarrow> store_tables \<Rightarrow> bool" where
  "tables_of c tb \<longleftrightarrow> ts_db (c_tokens c) = Some (tb_tokens tb) \<and> gs_db (c_groups c) = Some (tb_groups tb) \<and>
     ms_db (c_members c) = Some (tb_members tb) \<and> is_db (c_invites c) = Some (tb_invites tb) \<and>
     gs_validatePerson (c_groups c) = Some validateID"

text \<open>Pending invites past their expiry are expired, and nothing else has changed.\<close>

definition aged :: "time \<Rightarrow> invite \<Rightarrow> invite" where
  "aged now iv = (if iv_Status iv = StatusPending \<and> isExpiredAt iv now then voided StatusExpired iv else iv)"

definition resumes :: "time \<Rightarrow> console \<Rightarrow> console \<Rightarrow> bool" where
  "resumes now c c' \<longleftrightarrow> plane_ok c' \<and> creds (c_tokens c') = creds (c_tokens c) \<and> gs_view (c_groups c') = gs_view (c_groups c) \<and>
     members_view (c_members c') = members_view (c_members c) \<and> invites_view (c_invites c') = (\<lambda>h. map_option (aged now) (invites_view (c_invites c) h))"

definition loads_work :: "load_env \<Rightarrow> bool" where
  "loads_work le \<longleftrightarrow> le_reads le 0 \<and> le_reads le 1 \<and> le_reads le 2 \<and> le_reads le 3 \<and> le_sweep le = TxOk"

lemma groups_loaded:
  assumes l: "groups_live s" and t: "gs_db s = Some d" and v: "gs_validatePerson s = Some validateID"
  shows "\<exists>s'. groups_LoadFromDB (Some d) (SetPersonKeyValidator (Some validateID) groups_NewStore) = (Inr (), s') \<and>
    groups_live s' \<and> gs_view s' = gs_view s \<and> gs_orgAdmin s' = []"
proof -
  have d: "db_agree (gs_view s) d" using live_db [OF l] t by auto
  have "\<exists>s'. groups_LoadFromDB (Some d) (SetPersonKeyValidator (Some validateID) groups_NewStore) = (Inr (), s') \<and> groups_inv s' \<and>
      gs_view s' = gs_view s \<and> gs_db s' = Some d \<and> gs_orgAdmin s' = gs_orgAdmin (SetPersonKeyValidator (Some validateID) groups_NewStore) \<and>
      gs_validatePerson s' = gs_validatePerson (SetPersonKeyValidator (Some validateID) groups_NewStore)"
    by (rule groups_load [OF live_dir [OF l] d]) (simp add: validatePersonKey_def v SetPersonKeyValidator_def)
  then show ?thesis by (auto simp: groups_live_def SetPersonKeyValidator_def groups_NewStore_def)
qed

lemma invites_loaded:
  assumes inv: "invites_inv T s" "is_db s = Some t" and n: "T \<le> now" "time_ok now"
  shows "\<exists>s' t'. invites_LoadFromDB TxOk now True t invites_NewStore = (Inr (), s', t') \<and> invites_live s' \<and>
    invites_view s' = (\<lambda>h. map_option (aged now) (invites_view s h))"
proof -
  obtain x s' t' where L: "invites_LoadFromDB TxOk now True t invites_NewStore = (x, s', t')" by (metis prod_cases3)
  have b: "s' = invites_boot TxOk now s" "x = Inr ()" using boot_load [OF inv, of now] L by simp_all
  have "invites_view s' = (\<lambda>h. map_option (aged now) (invites_view s h))" "invites_inv now s'" "is_db s' \<noteq> None"
    using invite_restart_only_expires [OF inv n b(1)] boot_view [OF inv, of now now] b(1) by (simp_all add: aged_def [abs_def])
  then show ?thesis using L b(2) by (auto simp: invites_live_def)
qed

lemma tokens_loaded:
  assumes l: "tokens_live s" and t: "ts_db s = Some t"
  shows "\<exists>s'. tokens_LoadFromDB (Some t) tokens_NewStore = (Inr (), s') \<and> tokens_live s' \<and> creds s' = creds s"
proof -
  have a: "tokens_agree (creds s) t" using l t by (auto simp: tokens_live_def)
  obtain r s' where L: "tokens_LoadFromDB (Some t) tokens_NewStore = (r, s')" by (metis prod.exhaust)
  from tokens_load [OF _ _ L] a have "r = Inr ()" by (auto simp: tokens_agree_def)
  moreover have "s' = tokens_restart s" using L t by (simp add: tokens_restart_def)
  ultimately show ?thesis using L tokens_restart_ok [OF l] by simp
qed

lemma members_loaded:
  assumes l: "members_live s" and t: "ms_db s = Some t"
  shows "\<exists>s'. members_LoadFromDB (Some t) members_NewStore = (Inr (), s') \<and> members_live s' \<and> members_view s' = members_view s"
proof -
  obtain r s' where L: "members_LoadFromDB (Some t) members_NewStore = (r, s')" by (metis prod.exhaust)
  have "r = Inr ()" using L by (auto simp: members_LoadFromDB_def split: prod.splits)
  moreover have "s' = members_restart s" using L t by (simp add: members_restart_def)
  ultimately show ?thesis using L members_restart_ok [OF _ t] l by (simp add: members_live_def)
qed

lemma load_none:
  "tokens_LoadFromDB None s \<noteq> (Inr u, s')" "groups_LoadFromDB None g \<noteq> (Inr u, g')" "members_LoadFromDB None m \<noteq> (Inr u, m')"
  by (simp_all add: tokens_LoadFromDB_def groups_LoadFromDB_def members_LoadFromDB_def)

lemma load_readable:
  "tokens_LoadFromDB (rows_if b t) s = (Inr u, s') \<Longrightarrow> b"
  "groups_LoadFromDB (rows_if b d) g = (Inr u, g') \<Longrightarrow> b"
  "members_LoadFromDB (rows_if b r) m = (Inr u, m') \<Longrightarrow> b"
  by (cases b; simp add: rows_if_def load_none)+

lemma load_swept:
  assumes "invites_LoadFromDB f now b q i = (Inr u, i', q')"
  shows "b" "f = TxOk"
proof -
  have "fst (invites_LoadFromDB f now False q i) \<noteq> Inr u"
    unfolding invites_LoadFromDB_def by (simp add: Let_def split: sum.split)
  then show b using assms by (cases b) auto
  have "fst (invites_LoadFromDB g now b q i) \<noteq> Inr u" if "g \<noteq> TxOk" for g
    using that by (cases g) (simp_all add: invites_LoadFromDB_def run_tx_def split: sum.split)
  then show "f = TxOk" using assms by fastforce
qed

lemma loads_succeed: "loadStores le tb = Inr q \<Longrightarrow> loads_work le"
  unfolding loadStores_def loads_work_def
  by (auto split: sum.splits prod.splits dest: load_readable load_swept)

lemma stores_resume:
  assumes ok: "plane_ok c" "tables_of c tb" and inv: "invites_inv T (c_invites c)" "T \<le> le_now le" "time_ok (le_now le)" and w: "loads_work le"
  shows "\<exists>ts gs ms is. loadStores le tb = Inr (ts, gs, ms, is) \<and> gs_orgAdmin gs = [] \<and>
    (\<forall>cfg audit. resumes (le_now le) c (SetInviteRedemption is (SetMemberDirectory ms (NewConsole cfg ts gs None audit))))"
proof -
  have l: "tokens_live (c_tokens c)" "groups_live (c_groups c)" "members_live (c_members c)" using ok(1) by (simp_all add: plane_ok_def)
  have t: "ts_db (c_tokens c) = Some (tb_tokens tb)" "gs_db (c_groups c) = Some (tb_groups tb)" "ms_db (c_members c) = Some (tb_members tb)"
    "is_db (c_invites c) = Some (tb_invites tb)" "gs_validatePerson (c_groups c) = Some validateID" using ok(2) by (simp_all add: tables_of_def)
  obtain ts where ts: "tokens_LoadFromDB (Some (tb_tokens tb)) tokens_NewStore = (Inr (), ts)" "tokens_live ts" "creds ts = creds (c_tokens c)"
    using tokens_loaded [OF l(1) t(1)] by blast
  obtain gs where gs: "groups_LoadFromDB (Some (tb_groups tb)) (SetPersonKeyValidator (Some validateID) groups_NewStore) = (Inr (), gs)"
    "groups_live gs" "gs_view gs = gs_view (c_groups c)" "gs_orgAdmin gs = []" using groups_loaded [OF l(2) t(2,5)] by blast
  obtain ms where ms: "members_LoadFromDB (Some (tb_members tb)) members_NewStore = (Inr (), ms)" "members_live ms" "members_view ms = members_view (c_members c)"
    using members_loaded [OF l(3) t(3)] by blast
  obtain "is" tb' where i: "invites_LoadFromDB TxOk (le_now le) True (tb_invites tb) invites_NewStore = (Inr (), is, tb')" "invites_live is"
    "invites_view is = (\<lambda>h. map_option (aged (le_now le)) (invites_view (c_invites c) h))" using invites_loaded [OF inv(1) t(4) inv(2,3)] by blast
  have "loadStores le tb = Inr (ts, gs, ms, is)" using w by (simp add: loadStores_def rows_if_def loads_work_def ts(1) gs(1) ms(1) i(1))
  moreover have "resumes (le_now le) c (SetInviteRedemption is (SetMemberDirectory ms (NewConsole cfg ts gs None audit)))" for cfg audit
    using ts gs ms i by (simp add: resumes_def plane_ok_def SetInviteRedemption_def SetMemberDirectory_def NewConsole_def)
  ultimately show ?thesis using gs(4) by blast
qed

subsection \<open>The start\<close>

text \<open>Scripts that create what is missing and leave the rows of the tables alone.\<close>

definition keeps_rows :: "(string \<Rightarrow> 'd \<Rightarrow> 'd option) \<Rightarrow> bool" where
  "keeps_rows sql \<longleftrightarrow> (\<forall>x d d'. sql x d = Some d' \<longrightarrow> d' = d)"

lemma run_keeps: "keeps_rows sql \<Longrightarrow> run_scripts sql xs d = Some d' \<Longrightarrow> d' = d"
proof (induction xs arbitrary: d)
  case (Cons x xs)
  from Cons.prems(2) obtain e where e: "sql x d = Some e" "run_scripts sql xs e = Some d'" by (auto split: option.splits)
  have "e = d" using Cons.prems(1) e(1) by (simp add: keeps_rows_def)
  then show ?case using Cons.IH [OF Cons.prems(1) e(2)] by simp
qed simp

lemma ensure_keeps:
  assumes k: "keeps_rows sql" and e: "EnsureSchema sql now ms db = (Inr u, db')"
  shows "db_data db' = db_data db"
proof (cases "loadMigrations ms")
  case (Inl x) then show ?thesis using e by (auto simp: EnsureSchema_def db_then_Inr db_fail_def)
next
  case (Inr migs)
  from ensure_spec [OF Inr e] obtain ps where "migrated sql ps db db'" by (auto simp: applied_part_def)
  then show ?thesis using run_keeps [OF k] by (auto simp: migrated_def)
qed

lemma openStores_Inr:
  assumes "openStores be s = (Inr (cfg, db), t)"
  shows "\<exists>s1 s2 dsn db0 u. LoadConfig (bo_host be) (bo_configPath be) s = (Inr cfg, s1) \<and> OpenStrict (bo_driver be) (StoreDBPath cfg) s1 = (Inr db0, s2) \<and>
    dr_open (bo_driver be) dsn = Some db0 \<and> EnsureSchema (bo_sql be) (bo_clock be) (bo_migrations be) db0 = (Inr u, db)"
proof -
  obtain c s1 u s1' db0 s2 where c: "LoadConfig (bo_host be) (bo_configPath be) s = (Inr c, s1)" and v: "io_valid (Config.Validate c) s1 = (Inr u, s1')"
    and o: "fail_with (OpenStrict (bo_driver be) (StoreDBPath c)) (FailWith ''daemon: open store db'') s1' = (Inr db0, s2)"
    and e: "(case EnsureSchema (bo_sql be) (bo_clock be) (bo_migrations be) db0 of
       (Inl e, _) \<Rightarrow> io_fail (FailWith ''daemon'' e) | (Inr _, db) \<Rightarrow> io_return (c, db)) s2 = (Inr (cfg, db), t)"
    using assms unfolding openStores_def io_bind_Inr by blast
  have "s1' = s1" using v by (auto simp: io_valid_def io_return_def io_fail_def split: option.splits)
  then have o': "OpenStrict (bo_driver be) (StoreDBPath c) s1 = (Inr db0, s2)" using o by (auto simp: fail_with_def split: prod.splits sum.splits)
  obtain r d where r: "EnsureSchema (bo_sql be) (bo_clock be) (bo_migrations be) db0 = (r, d)" by (metis prod.exhaust)
  then have "c = cfg \<and> d = db \<and> (\<exists>u. r = Inr u)" using e by (cases r) (auto simp: io_fail_def io_return_def)
  then show ?thesis using c o' r strict_handle [OF o'] by blast
qed

text \<open>
  C10. A start resumes what the last process left. When the store database holds the tables of a sound console,
  then whatever fails, a start either gives no console at all, or one that is sound again and decides alike:
  the same credentials, teams, roles and members, the same invites except those that have expired meanwhile,
  no engine yet and no organisation administrator yet; and then no one but its owner could read the database
  file or its sidecars. It does give one if the database opens and migrates and the loads can read it.
\<close>

theorem start_resumes_the_console:
  assumes ok: "plane_ok c" "tables_of c tb" and inv: "invites_inv T (c_invites c)" "T \<le> le_now (bo_load be)" "time_ok (le_now (bo_load be))"
    and scripts: "keeps_rows (bo_sql be)" and stored: "\<forall>dsn db. dr_open (bo_driver be) dsn = Some db \<longrightarrow> db_data db = tb"
    and run: "runDaemonStart be s = (res, s')"
  shows "(\<forall>c'. res = Inr c' \<longrightarrow> resumes (le_now (bo_load be)) c c' \<and> c_engine c' = None \<and> gs_orgAdmin (c_groups c') = [] \<and>
      (\<exists>cfg s1. LoadConfig (bo_host be) (bo_configPath be) s = (Inr cfg, s1) \<and>
        (on_disk (StoreDBPath cfg) \<longrightarrow> (\<forall>x \<in> {[], ''-wal'', ''-shm''}. private_file s1 (StoreDBPath cfg @ x))))) \<and>
    (\<forall>cfg db s1 audit s2. openStores be s = (Inr (cfg, db), s1) \<and> loads_work (bo_load be) \<and> bo_keys be = None \<and>
        NewAuditLogger (bo_lower be) cfg s1 = (Inr audit, s2) \<longrightarrow> (\<exists>c'. res = Inr c'))"
proof (cases "\<exists>cfg db s1. openStores be s = (Inr (cfg, db), s1)")
  case False
  then have "\<not> (\<exists>c'. res = Inr c')" using run by (auto simp: runDaemonStart_def io_bind_Inr)
  then show ?thesis using False by blast
next
  case True
  then obtain cfg db s1 where o: "openStores be s = (Inr (cfg, db), s1)" by blast
  obtain t1 t2 db0 u dsn where O: "LoadConfig (bo_host be) (bo_configPath be) s = (Inr cfg, t1)"
    "OpenStrict (bo_driver be) (StoreDBPath cfg) t1 = (Inr db0, t2)" "dr_open (bo_driver be) dsn = Some db0"
    "EnsureSchema (bo_sql be) (bo_clock be) (bo_migrations be) db0 = (Inr u, db)" using openStores_Inr [OF o] by blast
  have d: "db_data db = tb" using ensure_keeps [OF scripts O(4)] stored O(3) by simp
  have own: "\<forall>x \<in> {[], ''-wal'', ''-shm''}. private_file t1 (StoreDBPath cfg @ x)" if "on_disk (StoreDBPath cfg)"
    using strict_private [OF O(2) that] by auto
  show ?thesis
  proof (cases "loads_work (bo_load be)")
    case False
    then obtain e where "loadStores (bo_load be) tb = Inl e" using loads_succeed by (cases "loadStores (bo_load be) tb") blast+
    then show ?thesis using run False by (auto simp: runDaemonStart_def io_bind_def o d io_fail_def)
  next
    case True
    from stores_resume [OF ok inv True] obtain ts gs ms "is" where l: "loadStores (bo_load be) tb = Inr (ts, gs, ms, is)" "gs_orgAdmin gs = []"
      and r: "\<And>cfg audit. resumes (le_now (bo_load be)) c (SetInviteRedemption is (SetMemberDirectory ms (NewConsole cfg ts gs None audit)))" by blast
    have run': "io_bind (io_valid (map_option (FailWith ''daemon: ensure keys'') (bo_keys be))) (\<lambda>_. io_bind (NewAuditLogger (bo_lower be) cfg) (\<lambda>audit.
        io_return (SetInviteRedemption is (SetMemberDirectory ms (NewConsole (console_cfg cfg) ts gs None audit))))) s1 = (res, s')"
      using run by (simp add: runDaemonStart_def io_bind_def o d l(1))
    have "\<exists>audit. c' = SetInviteRedemption is (SetMemberDirectory ms (NewConsole (console_cfg cfg) ts gs None audit))" if "res = Inr c'" for c'
      using run' that by (auto simp: io_bind_Inr io_return_def)
    moreover have "\<exists>c'. res = Inr c'" if "bo_keys be = None" "NewAuditLogger (bo_lower be) cfg s1 = (Inr audit, s2)" for audit s2
      using run' that by (auto simp: io_bind_def io_valid_def io_return_def)
    ultimately show ?thesis
      using r l(2) O(1) own o by (fastforce simp: SetInviteRedemption_def SetMemberDirectory_def NewConsole_def)
  qed
qed

subsection \<open>Example\<close>

text \<open>A console with a session and without teams, its tables, and a host on which it starts again.\<close>

definition empty_groups :: groups_db where "empty_groups = \<lparr>t_groups = [], t_memberships = [], t_exclusions = []\<rparr>"

definition no_teams :: group_store where
  "no_teams = snd (groups_LoadFromDB (Some empty_groups) (SetPersonKeyValidator (Some validateID) groups_NewStore))"

lemma no_teams_ok: "groups_live no_teams \<and> gs_db no_teams = Some empty_groups \<and> gs_validatePerson no_teams = Some validateID"
proof -
  let ?v = "\<lparr>d_group = (\<lambda>_. None), d_member = (\<lambda>_ _. None), d_excl = (\<lambda>_ _. None), d_valid = (\<lambda>u. validateID u = None)\<rparr>"
  have "dpar ?v = (\<lambda>_. None)" by (simp add: dpar_def fun_eq_iff)
  moreover have "All (fits (\<lambda>_. None) MaxTreeDepth)" by (rule allI) (simp add: MaxTreeDepth_def eval_nat_numeral)
  ultimately have "dir_ok ?v" by (simp add: dir_ok_def dir_groups_def dir_tree_def dir_names_def dir_members_def dir_excl_def)
  moreover have "db_agree ?v empty_groups" by (simp add: db_agree_def empty_groups_def tab_def keyed_def fun_eq_iff)
  ultimately show ?thesis
    using groups_load [of ?v empty_groups "SetPersonKeyValidator (Some validateID) groups_NewStore"]
    by (auto simp: no_teams_def groups_live_def SetPersonKeyValidator_def validatePersonKey_def)
qed

definition idle_console :: console where
  "idle_console = demo_console\<lparr>c_groups := no_teams\<rparr>"

definition idle_tables :: store_tables where
  "idle_tables = \<lparr>tb_tokens = the (ts_db (demo_session ''a@x'')), tb_groups = empty_groups, tb_members = [], tb_invites = []\<rparr>"

lemma idle_ok: "plane_ok idle_console" "tables_of idle_console idle_tables"
proof -
  show "plane_ok idle_console" using demo_console_ok no_teams_ok by (simp add: plane_ok_def idle_console_def)
  have "ts_db (demo_session ''a@x'') \<noteq> None" using demo_session_live by (auto simp: tokens_live_def)
  moreover have "ms_db members_boot = Some []" by (simp add: members_boot_def members_LoadFromDB_def dual_load_def)
  ultimately show "tables_of idle_console idle_tables"
    using no_teams_ok demo_inbox_live by (auto simp: tables_of_def idle_console_def idle_tables_def)
qed

definition boot_inode :: "kind \<Rightarrow> nat \<Rightarrow> nat \<Rightarrow> inode" where
  "boot_inode k mode ino = \<lparr>in_kind = k, in_dev = 1, in_ino = ino, in_uid = 7, in_gid = 7, in_mode = mode, in_mtime = 5\<rparr>"

definition boot_files :: files where
  "boot_files = \<lparr>fs_tree = [([], boot_inode KDir 493 1), ([''c''], boot_inode (KFile ''y'') 416 2), ([''d''], boot_inode KDir 448 3)],
     fs_calls = 0, fs_fault = (\<lambda>_. False), fs_rand = (\<lambda>n. of_nat n), fs_ino = 100, fs_time = 77, fs_euid = 7, fs_egid = 7\<rparr>"

definition boot_config :: Config.config where
  "boot_config = \<lparr>cf_ConfigVersion = 1, cf_GRPC = \<lparr>gc_Host = [], gc_Port = 50051, gc_TLS = \<lparr>tc_Cert = ''t'', tc_Key = ''k'', tc_CA = []\<rparr>\<rparr>,
     cf_Console = \<lparr>nc_Enabled = False, nc_Port = 0\<rparr>, cf_APIBaseURL = [], cf_WebBaseURL = [], cf_KeysPath = ''/k'', cf_EmbeddingDim = 1,
     cf_TeamSecret = ''secret'', cf_InviteTTLMinutes = 0, cf_ConsoleEndpoint = [], cf_AuditMode = [], cf_AuditPath = [], cf_DataDir = ''/d'', cf_Source = ''/c''\<rparr>"

definition boot_db :: "store_tables sql_db" where
  "boot_db = \<lparr>db_data = idle_tables, db_ledger = None, db_calls = 0, db_outcome = (\<lambda>_. Works)\<rparr>"

definition a_boot :: boot_env where
  "a_boot = \<lparr>bo_host = \<lparr>ho_cwd = ''/'', ho_yaml = (\<lambda>_. Some boot_config)\<rparr>, bo_configPath = ''/c'',
     bo_driver = \<lparr>dr_open = (\<lambda>_. Some boot_db), dr_ping = (\<lambda>_. True), dr_integrity = (\<lambda>_. Some [''ok''])\<rparr>,
     bo_sql = (\<lambda>_ d. Some d), bo_migrations = [], bo_clock = (\<lambda>_. 0), bo_load = \<lparr>le_reads = (\<lambda>_. True), le_sweep = TxOk, le_now = 0\<rparr>,
     bo_keys = None, bo_lower = (\<lambda>s. s)\<rparr>"

definition boot_at :: "nat \<Rightarrow> files" where "boot_at n = boot_files\<lparr>fs_calls := n\<rparr>"

lemma boot_reads:
  assumes "reads m" "fst (m (boot_at n)) = r" "fs_calls (snd (m (boot_at n))) = k"
  shows "m (boot_at n) = (r, boot_at k)"
  using reads_from [OF assms] by (simp add: boot_at_def)

lemma boot_loads: "LoadConfig (bo_host a_boot) ''/c'' (boot_at 0) = (Inr boot_config, boot_at 3)"
proof -
  have "Stat (from_cwd (bo_host a_boot) ''/c'') (boot_at 0) = (Inr (boot_inode (KFile ''y'') 416 2), boot_at 1)" by (rule boot_reads [OF reads_calls(2)]; code_simp)
  moreover have "ReadFile ''/c'' (boot_at 1) = (Inr ''y'', boot_at 2)" by (rule boot_reads [OF reads_calls(4)]; code_simp)
  moreover have "checkSecretMode ''/c'' (boot_at 2) = (Inr (), boot_at 3)"
  proof -
    have "Stat ''/c'' (boot_at 2) = (Inr (boot_inode (KFile ''y'') 416 2), boot_at 3)" by (rule boot_reads [OF reads_calls(2)]; code_simp)
    moreover have "\<not> has_bits (perm (boot_inode (KFile ''y'') 416 2)) 95" by code_simp
    ultimately show ?thesis by (simp add: checkSecretMode_def)
  qed
  moreover have "filepath_Abs (bo_host a_boot) ''/c'' = ''/c''" by code_simp
  moreover have "ho_yaml (bo_host a_boot) x = Some boot_config" for x by (simp add: a_boot_def)
  moreover have "cf_ConfigVersion boot_config = CurrentConfigVersion" "cf_ConfigVersion boot_config \<noteq> 0" "boot_config\<lparr>cf_Source := ''/c''\<rparr> = boot_config"
    by (simp_all add: boot_config_def CurrentConfigVersion_def)
  ultimately show ?thesis
    by (simp add: LoadConfig_def resolveConfigPath_def io_bind_def fail_with_def io_sys_def io_return_def Let_def)
qed

lemma boot_path: "bo_configPath a_boot = ''/c''"
  by (simp add: a_boot_def)

lemma reads_refuse: "reads (refuse_exposed ps)"
  unfolding reads_def
proof (rule allI)
  show "unchanged s (snd (refuse_exposed ps s))" for s
  proof (induction ps arbitrary: s)
    case Nil then show ?case by (simp add: io_return_def)
  next
    case (Cons p ps)
    obtain r t where st: "Stat p s = (r, t)" by (metis prod.exhaust)
    have "unchanged s t" by (rule reads_unchanged [OF reads_calls(2) st])
    then show ?case using unchanged_trans [OF _ Cons.IH [of t]] st by (auto split: sum.split errno.split)
  qed
qed

lemma boot_opens: "\<exists>t. openStores a_boot (boot_at 0) = (Inr (boot_config, boot_db\<lparr>db_ledger := Some [], db_calls := 2\<rparr>), t)"
proof -
  have p: "StoreDBPath boot_config = ''/d/runeconsole.db''" "on_disk ''/d/runeconsole.db''" by code_simp+
  have r: "refuse_exposed [''/d/runeconsole.db'', ''/d/runeconsole.db'' @ ''-wal'', ''/d/runeconsole.db'' @ ''-shm''] (boot_at 3) = (Inr (), boot_at 6)"
    by (rule boot_reads [OF reads_refuse]; code_simp)
  have "fst (pre_create ''/d/runeconsole.db'' (boot_at 6)) = Inr ()" by code_simp
  then obtain t where c: "pre_create ''/d/runeconsole.db'' (boot_at 6) = (Inr (), t)" by (metis prod.collapse)
  have o: "OpenStrict (bo_driver a_boot) ''/d/runeconsole.db'' (boot_at 3) = (Inr boot_db, t)"
    using r c p(2) by (simp add: OpenStrict_def io_bind_def open_dsn_def integrityCheck_def io_return_def a_boot_def)
  have "Config.Validate boot_config = None" by (simp add: Config.Validate_def config_errors_def boot_config_def)
  moreover have "EnsureSchema (bo_sql a_boot) (bo_clock a_boot) (bo_migrations a_boot) boot_db = (Inr (), boot_db\<lparr>db_ledger := Some [], db_calls := 2\<rparr>)"
    by (simp add: EnsureSchema_def db_then_def create_ledger_def select_versions_def db_call_def a_boot_def boot_db_def loadMigrations_def db_return_def)
  ultimately show ?thesis
    using boot_loads o p(1) by (simp add: openStores_def io_bind_def io_valid_def io_return_def fail_with_def boot_path)
qed

theorem start_resumes_the_console_witness:
  "\<exists>c'. fst (runDaemonStart a_boot (boot_at 0)) = Inr c' \<and> plane_ok c' \<and> creds (c_tokens c') = creds (demo_session ''a@x'')"
proof -
  obtain res s' where run: "runDaemonStart a_boot (boot_at 0) = (res, s')" by (metis prod.exhaust)
  obtain t where o: "openStores a_boot (boot_at 0) = (Inr (boot_config, boot_db\<lparr>db_ledger := Some [], db_calls := 2\<rparr>), t)" using boot_opens by blast
  have k: "keeps_rows (bo_sql a_boot)" "\<forall>dsn db. dr_open (bo_driver a_boot) dsn = Some db \<longrightarrow> db_data db = idle_tables"
    by (simp_all add: keeps_rows_def a_boot_def boot_db_def)
  have i: "invites_inv 0 (c_invites idle_console)" "0 \<le> le_now (bo_load a_boot)" "time_ok (le_now (bo_load a_boot))"
    using demo_inbox_live demo_times by (simp_all add: idle_console_def a_boot_def)
  note T = start_resumes_the_console [OF idle_ok i k run]
  have "loads_work (bo_load a_boot)" "bo_keys a_boot = None" by (simp_all add: loads_work_def a_boot_def)
  moreover have "NewAuditLogger (bo_lower a_boot) boot_config t = (Inr None, t)"
    by (simp add: NewAuditLogger_def ParseAuditMode_def boot_config_def io_bind_def io_return_def Let_def)
  ultimately obtain c' where "res = Inr c'" using T o by blast
  then show ?thesis using T run by (auto simp: resumes_def idle_console_def)
qed

end
