(* ===== verification/Spec2Isabelle.thy ===== *)
theory Spec2Isabelle
  imports Members Group_Properties Invite_Properties Token_Properties Data_Plane_Properties Regstr Console_Properties Semver Web_Properties Dataplane_Properties
    Restore_Properties Update_Properties Web_Update_Properties Agent_Properties Web_Manager
    Console_Migration Boot_Properties
begin

text \<open>
  A verification of the Rune console, the Go daemon of this repository that keeps the shared memory of
  an organisation: who is a member, which teams there are and who may read and write in them, how a member gets a
  credential, what a search and a capture may touch, how the console is administered from a browser, and how the
  daemon is updated in place.

  \<^bold>\<open>The program.\<close> Four stores keep their state in maps and in one SQLite file, and write through: the member registry
  (\<open>internal/members\<close>), the teams with their judge (\<open>internal/groups\<close>), the credentials (\<open>internal/tokens\<close>)
  and the one-time invites (\<open>internal/invites\<close>). The daemon (\<open>internal/server\<close>) puts them behind a gRPC data plane
  for agents and behind a domain API over HTTP. The local web console (\<open>internal/console\<close>) logs an operator in
  through a cloud service (\<open>internal/cloud\<close>), binds the first one as the owner, mounts the domain API behind the session,
  and manages the one connection to the vector engine (\<open>internal/crypto/keys.go\<close>). The updater
  (\<open>internal/updater\<close>, \<open>internal/commands\<close>) replaces the binary of the service, with a snapshot of the state to go back to.
  At its start the daemon loads its configuration, opens and migrates the databases, and loads the stores.

  \<^bold>\<open>Theories and code.\<close> Every operation of the code is a definition with its name, or that name with the package in front
  where HOL or another package has it too; a Go struct is a record, an error type a datatype whose constructors are the errors.
  \<^item> Shared: \<open>Prelude\<close> (maps as association lists, objects behind two indexes, tables, transactions), \<open>Go_Text\<close>,
    \<open>Go_Number\<close>, \<open>Go_Path\<close>, \<open>Base64\<close>, \<open>Store_Time\<close> (\<open>internal/storedb/time.go\<close>), \<open>Forest\<close> (trees by parents and by
    children), \<open>Write_Through\<close> and \<open>Lifecycle\<close> (contracts of stores).
  \<^item> Members: \<open>Members\<close>. Teams: \<open>Group_Types\<close>, \<open>Group_Store\<close>, \<open>Group_Judge\<close>, \<open>Group_Console\<close>, with the abstract
    \<open>Directory\<close> and the refinement in \<open>Group_Refine\<close>, \<open>Group_Write\<close>, \<open>Group_Properties\<close>. Invites:
    \<open>Invite_Store\<close>, \<open>Invite_Refine\<close>, \<open>Invite_Properties\<close>. Credentials: \<open>Token_Store\<close>, \<open>Token_Refine\<close>, \<open>Token_Properties\<close>.
  \<^item> Daemon: \<open>Console_State\<close> (the container, the audit log, the engine), \<open>Metadata\<close> (\<open>internal/crypto/metadata.go\<close>),
    \<open>Data_Plane\<close> (\<open>internal/server/grpc.go\<close>, \<open>interceptors.go\<close>) with \<open>Data_Plane_Frame\<close> and \<open>Data_Plane_Properties\<close>;
    \<open>Regstr\<close> (\<open>pkg/regstr\<close>), \<open>Console_Index\<close>, \<open>Console_Api\<close>, \<open>Console_Handlers\<close> (\<open>internal/server/console_api*.go\<close>,
    \<open>selfinvite.go\<close>, \<open>mailer.go\<close>) with \<open>Console_Frame\<close>, \<open>Console_Effects\<close>, \<open>Console_Codes\<close>, \<open>Code_Redemption\<close>,
    \<open>Console_Teams\<close>, \<open>Console_Properties\<close>.
  \<^item> Web console: \<open>Cloud_Client\<close>, \<open>Web_Session\<close>, \<open>Web_Service\<close>, \<open>Web_Routes\<close> with \<open>Web_Frame\<close>, \<open>Web_Effects\<close> and
    \<open>Web_Properties\<close>;
    \<open>Dataplane\<close> (\<open>internal/console/dataplane.go\<close>, a step relation on threads) with \<open>Dataplane_Properties\<close>;
    \<open>Web_Manager\<close> (\<open>internal/commands/web_update.go\<close>).
  \<^item> Updater: \<open>Files\<close> and \<open>File_Laws\<close> (the file system and what its calls do), \<open>Semver\<close>, \<open>Backup\<close>, \<open>Restore\<close>, \<open>Swap\<close>,
    \<open>System_Service\<close>, \<open>Release\<close>, \<open>Update_Engine\<close> with \<open>Restore_Properties\<close> and \<open>Update_Properties\<close>; \<open>Update_Control\<close> and
    \<open>Web_Update\<close> (\<open>webupdate.go\<close>) with \<open>Entry_Laws\<close>, \<open>Control_Frame\<close> and \<open>Web_Update_Properties\<close>; \<open>Update_Agent\<close>
    (\<open>internal/commands/update.go\<close>, \<open>update_agent.go\<close>) with \<open>Agent_Properties\<close>.
  \<^item> Start: \<open>Config\<close> (\<open>internal/server/config.go\<close>), \<open>Sql_Database\<close>, \<open>Store_Schema\<close> (\<open>internal/storedb/migrate.go\<close>)
    and \<open>Console_Schema\<close> (\<open>internal/console/schema.go\<close>) with \<open>Store_Migration\<close> and \<open>Console_Migration\<close>, \<open>Db_Open\<close>
    (\<open>internal/db\<close>), \<open>Boot\<close> (\<open>internal/commands/daemon.go\<close>, \<open>audit.go\<close>) with \<open>Boot_Properties\<close>.

  \<^bold>\<open>State and time.\<close> An operation takes its state and gives it back with a result. Operations of a store run under its
  mutex, so each is one step; where the code lets go of it (the writer of last-use times, the deletion of a team, the
  data-plane manager, the check of the update controller) the steps are separate and statements quantify over
  their orders. Clock readings, random bytes and faults are arguments, one for each place where the code asks. A transaction
  commits, fails before anything is written, or is reported as failed although it committed, where the store can tell these
  apart. A file-system call may fail at every place. Lengths, ports and counters are integers; durations, versions and
  the words of the engine keep their width.

  \<^bold>\<open>What is shown.\<close>
  \<^item> Contracts. Members, teams and credentials each refine a small specification: under any faults and restarts, what readers
    see is what the specification makes of a subsequence of the operations (\<open>refining_store\<close>, interpreted in each store).
    Invites only move forward (\<open>lifecycle_store\<close>), a handle releases its secret once, revoked and rotated secrets stay dead.
  \<^item> Decisions. The two ways to compute what a person may read agree; a revocation ends access at once and after a restart; a
    search runs with the caller's scope and a capture is tagged with the teams the caller writes to; a disabled
    member is refused; a redemption consumes the invite and activates the member together.
  \<^item> Administration. Over any history of requests, faults included, the four stores stay sound and agree with their tables;
    what is reported as deleted, removed or issued is so, and nobody else is touched; a code that was issued can be redeemed;
    the owner never changes, only a login opens a session, only a live session of the same origin changes anything, and only
    the owner reaches the updates. The engine connection has one owner at a time under every
    interleaving, and its credential is dropped only when the cloud rejects it.
  \<^item> Updates. An update follows the protocol of stop, snapshot, installation, start, probe and rollback; a restoration is
    complete, or undone, or keeps what it displaced; a request names a release that was checked, is published whole, is claimed
    once, and the worker has the last word on it.
  \<^item> Start. Migrations are applied once, in order, as a prefix, however often the start is interrupted; what comes up decides like
    what went down.
  \<^item> Texts. Versions, times, registration strings, base64 and sealed metadata read back as what was written.

  \<^bold>\<open>Bounds and fuel.\<close> Every definition is total. Walks up the tree of teams carry the set of visited teams, as in the code;
  the listings go down as deep as \<open>MaxTreeDepth\<close> (8), and the invariant of the store keeps trees below it. Following
  symbolic links gives up after the kernel's 40 and path resolution after 255 links, as the system and the library do; temporary
  names are tried 10000 times, as in \<open>os.MkdirTemp\<close>. The loop of the session migrations has as much fuel as the
  plan has versions, and it is proved to need no more. A retry loop of the data-plane manager
  counts its attempts in its state, as the code does, and is bounded by 50. Control files are read up to their 16 KiB.

  \<^bold>\<open>Arguments of the model.\<close> What the code does not contain is passed in and constrained only where a statement says
  so: the engine's client library, HKDF, AES and SHA-256, the JSON, YAML and XML decoders, case folding of Unicode,
  the HTTP transports, tar and gzip, the reader of build information, the service manager and the health probe, \<open>flock\<close>,
  the account database, the SQLite driver and what a migration script does to the tables.

  \<^bold>\<open>Not modelled.\<close> Rendering of logs and of error texts beyond what the code inspects; the command tree, the tailing of logs and
  the embedded web application; the listeners and the shutdown in \<open>internal/server/serve.go\<close>; the generation of keys and the
  connection to the engine, which are calls into its library; the generated protocol code. Data races and the
  memory model of Go are outside the model: mutexes are taken to work. In the updater no foreign process writes to the
  files while it runs, except the daemon itself, which may do anything whenever it may be running.
\<close>

end
